(* ===== verification/Prelude.thy ===== *)
theory Prelude
  imports Main "HOL-Library.Word"
begin

section \<open>Prelude: machine integers, results and loops\<close>

text \<open>
  Shared vocabulary of the development.
  \<^item> Fixed-width Rust integers are words: \<open>u8\<close>, \<open>u16\<close>, \<open>u32\<close>, \<open>u64\<close>. The operations
    \<open>checked_add\<close>, \<open>checked_sub\<close>, \<open>saturating_add\<close>, \<open>saturating_sub\<close> are those of the
    Rust standard library; plain \<open>+\<close> on words is \<open>wrapping_add\<close>.
  \<^item> \<open>usize\<close> values are lengths and indices of slices. They are natural numbers, with the
    bound of a 64-bit target written out where the code saturates or checks
    (\<open>usize_saturating_add\<close>, \<open>usize_checked_add\<close>).
  \<^item> \<open>Result<T, E>\<close> is the sum \<open>'e + 'a\<close>: \<open>Inl\<close> is \<open>Err\<close>, \<open>Inr\<close> is \<open>Ok\<close>. A function that
    takes \<open>&mut self\<close> returns the new state beside its result, also when it fails.
  \<^item> A \<open>for\<close> loop whose body uses \<open>?\<close> is \<open>try_fold\<close>.
  The collection \<open>checked\<close> holds the characterisations of checked arithmetic.
\<close>

named_theorems checked \<open>characterisations of checked and saturating arithmetic\<close>

subsection \<open>Integers\<close>

type_synonym u8 = "8 word"
type_synonym u16 = "16 word"
type_synonym u32 = "32 word"
type_synonym u64 = "64 word"
type_synonym usize = nat

definition usize_max :: nat where
  "usize_max = 2 ^ 64 - 1"

definition usize_saturating_add :: "usize \<Rightarrow> usize \<Rightarrow> usize" where
  "usize_saturating_add a b = min (a + b) usize_max"

definition usize_checked_add :: "usize \<Rightarrow> usize \<Rightarrow> usize option" where
  "usize_checked_add a b = (if a + b \<le> usize_max then Some (a + b) else None)"

text \<open>The casts \<open>n as u64\<close> and \<open>u64::try_from(n).unwrap_or(u64::MAX)\<close> of a \<open>usize\<close>.\<close>

definition usize_to_u64 :: "usize \<Rightarrow> u64" where
  "usize_to_u64 n = of_nat (min n usize_max)"

text \<open>\<open>u32::try_from(n).unwrap_or(u32::MAX)\<close>.\<close>

definition saturating_u32 :: "usize \<Rightarrow> u32" where
  "saturating_u32 n = of_nat (min n (2 ^ 32 - 1))"

definition checked_add :: "'a::len word \<Rightarrow> 'a word \<Rightarrow> 'a word option" where
  "checked_add a b = (if unat a + unat b < 2 ^ LENGTH('a) then Some (a + b) else None)"

definition checked_sub :: "'a::len word \<Rightarrow> 'a word \<Rightarrow> 'a word option" where
  "checked_sub a b = (if b \<le> a then Some (a - b) else None)"

definition checked_mul :: "'a::len word \<Rightarrow> 'a word \<Rightarrow> 'a word option" where
  "checked_mul a b = (if unat a * unat b < 2 ^ LENGTH('a) then Some (a * b) else None)"

definition saturating_add :: "'a::len word \<Rightarrow> 'a word \<Rightarrow> 'a word" where
  "saturating_add a b = (if unat a + unat b < 2 ^ LENGTH('a) then a + b else - 1)"

definition saturating_sub :: "'a::len word \<Rightarrow> 'a word \<Rightarrow> 'a word" where
  "saturating_sub a b = (if b \<le> a then a - b else 0)"

lemma checked_add_Some [checked]:
  "checked_add a b = Some c \<longleftrightarrow> unat a + unat b < 2 ^ LENGTH('a) \<and> c = a + b"
  for a b c :: "'a::len word"
  by (auto simp: checked_add_def)

lemma checked_add_None [checked]:
  "checked_add a b = None \<longleftrightarrow> 2 ^ LENGTH('a) \<le> unat a + unat b"
  for a b :: "'a::len word"
  by (auto simp: checked_add_def)

lemma checked_sub_Some [checked]: "checked_sub a b = Some c \<longleftrightarrow> b \<le> a \<and> c = a - b"
  by (auto simp: checked_sub_def)

lemma checked_sub_None [checked]: "checked_sub a b = None \<longleftrightarrow> a < b"
  by (auto simp: checked_sub_def)

lemma unat_checked_add:
  "checked_add a b = Some c \<Longrightarrow> unat c = unat a + unat b"
  by (auto simp: checked_add_def unat_word_ariths split: if_splits)

lemma unat_checked_sub:
  "checked_sub a b = Some c \<Longrightarrow> unat c + unat b = unat a"
  by (auto simp: checked_sub_def unat_sub word_le_nat_alt split: if_splits)

lemma checked_sub_add_cancel [simp]: "checked_add a b = Some c \<Longrightarrow> checked_sub c b = Some a"
proof -
  assume c: "checked_add a b = Some c"
  then have "unat b \<le> unat c" by (simp add: unat_checked_add)
  with c show ?thesis by (auto simp: checked word_le_nat_alt)
qed

lemma unat_saturating_add:
  "unat (saturating_add a b) = min (unat a + unat b) (2 ^ LENGTH('a) - 1)"
  for a b :: "'a::len word"
proof -
  have "unat (- 1 :: 'a word) = 2 ^ LENGTH('a) - 1"
    by (simp add: unsigned_minus_1_eq_mask mask_eq_exp_minus_1)
  then show ?thesis
    by (auto simp: saturating_add_def unat_word_ariths)
qed

lemma unat_saturating_sub: "unat (saturating_sub a b) = unat a - unat b"
  by (auto simp: saturating_sub_def unat_sub word_le_nat_alt)

lemma saturating_sub_le: "saturating_sub a b \<le> a"
  by (simp add: word_le_nat_alt unat_saturating_sub)

lemma saturating_add_exact:
  "unat a + unat b < 2 ^ LENGTH('a) \<Longrightarrow> saturating_add a b = a + b"
  for a b :: "'a::len word"
  by (simp add: saturating_add_def)

lemma usize_saturating_add_exact: "a + b \<le> usize_max \<Longrightarrow> usize_saturating_add a b = a + b"
  by (simp add: usize_saturating_add_def)

lemma unat_usize_to_u64: "unat (usize_to_u64 n) = min n usize_max"
  by (simp add: usize_to_u64_def usize_max_def unat_of_nat take_bit_nat_eq_self)

lemma unat_saturating_u32: "unat (saturating_u32 n) = min n (2 ^ 32 - 1)"
  by (simp add: saturating_u32_def unat_of_nat take_bit_nat_eq_self)

subsection \<open>Results\<close>

definition ok_or :: "'a option \<Rightarrow> 'e \<Rightarrow> 'e + 'a" where
  "ok_or x e = (case x of None \<Rightarrow> Inl e | Some a \<Rightarrow> Inr a)"

definition bind_ok :: "'e + 'a \<Rightarrow> ('a \<Rightarrow> 'e + 'b) \<Rightarrow> 'e + 'b" where
  "bind_ok r f = (case r of Inl e \<Rightarrow> Inl e | Inr a \<Rightarrow> f a)"

definition map_err :: "('e \<Rightarrow> 'f) \<Rightarrow> 'e + 'a \<Rightarrow> 'f + 'a" where
  "map_err f r = (case r of Inl e \<Rightarrow> Inl (f e) | Inr a \<Rightarrow> Inr a)"

definition is_ok :: "'e + 'a \<Rightarrow> bool" where
  "is_ok r = (case r of Inl _ \<Rightarrow> False | Inr _ \<Rightarrow> True)"

text \<open>The operator \<open>?\<close> in a method that also returns its new state.\<close>

definition bind_step :: "('e + 'a) \<times> 's \<Rightarrow> ('a \<Rightarrow> 's \<Rightarrow> ('e + 'b) \<times> 's) \<Rightarrow> ('e + 'b) \<times> 's" where
  "bind_step r f = (case r of (Inl e, s) \<Rightarrow> (Inl e, s) | (Inr a, s) \<Rightarrow> f a s)"

lemma bind_step_simps [simp]: "bind_step (Inl e, s) f = (Inl e, s)" "bind_step (Inr a, s) f = f a s"
  by (simp_all add: bind_step_def)

lemma bind_step_Inr: "bind_step r f = (Inr b, s') \<longleftrightarrow> (\<exists>a s. r = (Inr a, s) \<and> f a s = (Inr b, s'))"
  by (cases r; cases "fst r") auto

lemma ok_or_simps [simp]: "ok_or None e = Inl e" "ok_or (Some a) e = Inr a"
  by (simp_all add: ok_or_def)

lemma ok_or_Inr [simp]: "ok_or x e = Inr a \<longleftrightarrow> x = Some a"
  by (cases x) simp_all

lemma ok_or_Inl: "ok_or x e = Inl e' \<longleftrightarrow> x = None \<and> e' = e"
  by (cases x) auto

lemma bind_ok_simps [simp]: "bind_ok (Inl e) f = Inl e" "bind_ok (Inr a) f = f a"
  by (simp_all add: bind_ok_def)

lemma bind_ok_Inr: "bind_ok r f = Inr b \<longleftrightarrow> (\<exists>a. r = Inr a \<and> f a = Inr b)"
  by (cases r) simp_all

lemma bind_ok_unit: "bind_ok r f = Inr b \<longleftrightarrow> r = Inr () \<and> f () = Inr b"
  for r :: "'e + unit"
  by (cases r) simp_all

lemma bind_ok_Inl: "bind_ok r f = Inl e \<longleftrightarrow> r = Inl e \<or> (\<exists>a. r = Inr a \<and> f a = Inl e)"
  by (cases r) simp_all

lemma map_err_simps [simp]: "map_err f (Inl e) = Inl (f e)" "map_err f (Inr a) = Inr a"
  by (simp_all add: map_err_def)

lemma map_err_Inr [simp]: "map_err f r = Inr a \<longleftrightarrow> r = Inr a"
  by (cases r) simp_all

lemma is_ok_simps [simp]: "is_ok (Inl e) = False" "is_ok (Inr a) = True"
  by (simp_all add: is_ok_def)

lemma is_ok_iff: "is_ok r \<longleftrightarrow> (\<exists>a. r = Inr a)"
  by (cases r) simp_all

lemma unit_result_cases: "r = Inr () \<or> (\<exists>e. r = Inl e)" for r :: "'e + unit"
  by (cases r) simp_all

subsection \<open>Loops that can return early\<close>

fun try_fold :: "('s \<Rightarrow> 'a \<Rightarrow> 'e + 's) \<Rightarrow> 's \<Rightarrow> 'a list \<Rightarrow> 'e + 's" where
  "try_fold f s [] = Inr s"
| "try_fold f s (x # xs) = (case f s x of Inl e \<Rightarrow> Inl e | Inr s' \<Rightarrow> try_fold f s' xs)"

text \<open>A loop that only checks: the first failing element decides the error.\<close>

fun try_all :: "('a \<Rightarrow> 'e + unit) \<Rightarrow> 'a list \<Rightarrow> 'e + unit" where
  "try_all f [] = Inr ()"
| "try_all f (x # xs) = (case f x of Inl e \<Rightarrow> Inl e | Inr _ \<Rightarrow> try_all f xs)"

text \<open>A loop that stops at the first element that satisfies a test, the test itself fallible.\<close>

fun try_any :: "('a \<Rightarrow> 'e + bool) \<Rightarrow> 'a list \<Rightarrow> 'e + bool" where
  "try_any f [] = Inr False"
| "try_any f (x # xs) =
     (case f x of Inl e \<Rightarrow> Inl e | Inr found \<Rightarrow> if found then Inr True else try_any f xs)"

text \<open>
  A loop over the elements together with the rest of the slice, the shape
  \<open>for (i, x) in xs.iter().enumerate() { let tail = xs.get(i + 1..) ... }\<close>.
\<close>

fun try_tails :: "('a \<Rightarrow> 'a list \<Rightarrow> 'e + unit) \<Rightarrow> 'a list \<Rightarrow> 'e + unit" where
  "try_tails f [] = Inr ()"
| "try_tails f (x # xs) = (case f x xs of Inl e \<Rightarrow> Inl e | Inr _ \<Rightarrow> try_tails f xs)"

lemma try_all_Inr: "try_all f xs = Inr () \<longleftrightarrow> (\<forall>x \<in> set xs. f x = Inr ())"
  by (induction xs) (auto split: sum.splits)

lemma try_all_Inl: "try_all f xs = Inl e \<Longrightarrow> \<exists>x \<in> set xs. f x = Inl e"
  by (induction xs) (auto split: sum.splits)

lemma try_any_total:
  assumes "\<And>x. x \<in> set xs \<Longrightarrow> f x = Inr (P x)"
  shows "try_any f xs = Inr (\<exists>x \<in> set xs. P x)"
  using assms by (induction xs) auto

lemma try_tails_Inr:
  "try_tails f xs = Inr () \<longleftrightarrow> (\<forall>ys x zs. xs = ys @ x # zs \<longrightarrow> f x zs = Inr ())"
proof (induction xs)
  case Nil
  then show ?case by simp
next
  case (Cons a xs)
  have "try_tails f (a # xs) = Inr () \<longleftrightarrow> f a xs = Inr () \<and> try_tails f xs = Inr ()"
    by (cases "f a xs") auto
  also have "\<dots> \<longleftrightarrow> (\<forall>ys x zs. a # xs = ys @ x # zs \<longrightarrow> f x zs = Inr ())"
    unfolding Cons.IH by (force simp: Cons_eq_append_conv)
  finally show ?case .
qed

lemma try_tails_distinct:
  "(\<forall>ys x zs. xs = ys @ x # zs \<longrightarrow> g x \<notin> g ` set zs) \<longleftrightarrow> distinct (map g xs)"
proof (induction xs)
  case (Cons a xs)
  have "(\<forall>ys x zs. a # xs = ys @ x # zs \<longrightarrow> g x \<notin> g ` set zs) \<longleftrightarrow>
      g a \<notin> g ` set xs \<and> (\<forall>ys x zs. xs = ys @ x # zs \<longrightarrow> g x \<notin> g ` set zs)"
    unfolding Cons_eq_append_conv by blast
  with Cons.IH show ?case by simp
qed simp

lemma all_splits:
  "(\<forall>ys x zs. xs = ys @ x # zs \<longrightarrow> P x \<and> Q x zs) \<longleftrightarrow>
     (\<forall>x \<in> set xs. P x) \<and> (\<forall>ys x zs. xs = ys @ x # zs \<longrightarrow> Q x zs)"
  by (metis in_set_conv_decomp)

lemma length_filter_split:
  assumes "u \<notin> V"
  shows "length (filter (\<lambda>d. P d \<and> f d \<notin> V) ds)
    = length (filter (\<lambda>d. P d \<and> f d \<noteq> u \<and> f d \<notin> V) ds) + length (filter (\<lambda>d. P d \<and> f d = u) ds)"
  using assms by (induction ds) auto

lemma try_fold_append:
  "try_fold f s (xs @ ys) = bind_ok (try_fold f s xs) (\<lambda>s'. try_fold f s' ys)"
  by (induction xs arbitrary: s) (auto split: sum.splits)

lemma try_fold_invariant:
  assumes "try_fold f s xs = Inr t" and "P s"
    and "\<And>s x s'. x \<in> set xs \<Longrightarrow> P s \<Longrightarrow> f s x = Inr s' \<Longrightarrow> P s'"
  shows "P t"
  using assms
proof (induction xs arbitrary: s)
  case (Cons x xs)
  from Cons.prems(1) obtain s' where s': "f s x = Inr s'" "try_fold f s' xs = Inr t"
    by (auto split: sum.splits)
  with Cons.prems(2) have "P s'" using Cons.prems(3) [of x s s'] by simp
  with s'(2) show ?case by (rule Cons.IH) (use Cons.prems(3) in auto)
qed simp

lemma try_fold_total:
  assumes "\<And>s x. x \<in> set xs \<Longrightarrow> P s \<Longrightarrow> \<exists>s'. f s x = Inr s' \<and> P s'" and "P s"
  shows "\<exists>t. try_fold f s xs = Inr t \<and> P t"
  using assms
proof (induction xs arbitrary: s)
  case (Cons x xs)
  then obtain s' where "f s x = Inr s'" "P s'" by fastforce
  with Cons show ?case by force
qed simp

subsection \<open>Lists\<close>

fun position :: "('a \<Rightarrow> bool) \<Rightarrow> 'a list \<Rightarrow> nat option" where
  "position P [] = None"
| "position P (x # xs) = (if P x then Some 0 else map_option Suc (position P xs))"

definition slice_get :: "'a list \<Rightarrow> nat \<Rightarrow> 'a option" where
  "slice_get xs i = (if i < length xs then Some (xs ! i) else None)"

lemma slice_get_Some [simp]: "slice_get xs i = Some x \<longleftrightarrow> i < length xs \<and> x = xs ! i"
  by (auto simp: slice_get_def)

lemma slice_get_None [simp]: "slice_get xs i = None \<longleftrightarrow> length xs \<le> i"
  by (auto simp: slice_get_def)

lemma slice_get_in [simp]: "i < length xs \<Longrightarrow> slice_get xs i = Some (xs ! i)"
  by (simp add: slice_get_def)

lemma slice_get_out [simp]: "length xs \<le> i \<Longrightarrow> slice_get xs i = None"
  by (simp add: slice_get_def)

lemma nth_update: "i < length xs \<Longrightarrow> xs[i := x] ! j = (if j = i then x else xs ! j)"
  by simp

lemma position_None: "position P xs = None \<longleftrightarrow> (\<forall>x \<in> set xs. \<not> P x)"
  by (induction xs) auto

lemma position_Some:
  "position P xs = Some i \<longleftrightarrow> i < length xs \<and> P (xs ! i) \<and> (\<forall>j < i. \<not> P (xs ! j))"
proof (induction xs arbitrary: i)
  case (Cons a xs)
  then show ?case by (cases i) (auto simp: less_Suc_eq_0_disj)
qed simp

lemma position_distinct:
  assumes "distinct (map g xs)" and "i < length xs"
  shows "position (\<lambda>x. g x = g (xs ! i)) xs = Some i"
  using assms by (auto simp: position_Some distinct_conv_nth)

lemma position_map_of:
  "position (\<lambda>x. g x = k) xs = None \<longleftrightarrow> k \<notin> g ` set xs"
  by (auto simp: position_None)

lemma find_None_iff_map: "find (\<lambda>x. g x = k) xs = None \<longleftrightarrow> k \<notin> g ` set xs"
  by (auto simp: find_None_iff)

end
