(* ===== verification/Btree_Map.thy ===== *)
theory Btree_Map
  imports Prelude
begin

section \<open>Ordered maps\<close>

text \<open>
  The \<open>BTreeMap\<close> of the Rust standard library, as the registries use it: lookup, insertion,
  removal, iteration in key order and \<open>first_key_value\<close>. A map is its list of entries in
  ascending key order. \<open>bt_inv\<close> says that the list is in order; every operation keeps it.
  An update through \<open>get_mut\<close> is an insertion under the key that was looked up.

  The locale \<open>ordered_map\<close> is the interface the clients rely on. Its lemmas about sums over
  the values carry the memory accounting of the model registry; they are used through the
  interpretation \<open>bt\<close> on the list implementation.
\<close>

type_synonym ('k, 'v) btree_map = "('k \<times> 'v) list"

definition bt_empty :: "('k, 'v) btree_map" where
  "bt_empty = []"

definition bt_get :: "('k, 'v) btree_map \<Rightarrow> 'k \<Rightarrow> 'v option" where
  "bt_get m k = map_of m k"

fun bt_insert :: "('k::linorder) \<Rightarrow> 'v \<Rightarrow> ('k, 'v) btree_map \<Rightarrow> ('k, 'v) btree_map" where
  "bt_insert k v [] = [(k, v)]"
| "bt_insert k v ((k', v') # m) =
     (if k < k' then (k, v) # (k', v') # m
      else if k = k' then (k, v) # m
      else (k', v') # bt_insert k v m)"

definition bt_remove :: "'k \<Rightarrow> ('k, 'v) btree_map \<Rightarrow> ('k, 'v) btree_map" where
  "bt_remove k m = filter (\<lambda>e. fst e \<noteq> k) m"

definition bt_entries :: "('k, 'v) btree_map \<Rightarrow> ('k \<times> 'v) list" where
  "bt_entries m = m"

definition bt_inv :: "('k::linorder, 'v) btree_map \<Rightarrow> bool" where
  "bt_inv m \<longleftrightarrow> sorted_wrt (<) (map fst m)"

abbreviation bt_contains :: "('k, 'v) btree_map \<Rightarrow> 'k \<Rightarrow> bool" where
  "bt_contains m k \<equiv> bt_get m k \<noteq> None"

abbreviation bt_keys :: "('k, 'v) btree_map \<Rightarrow> 'k list" where
  "bt_keys m \<equiv> map fst (bt_entries m)"

abbreviation bt_values :: "('k, 'v) btree_map \<Rightarrow> 'v list" where
  "bt_values m \<equiv> map snd (bt_entries m)"

abbreviation bt_len :: "('k, 'v) btree_map \<Rightarrow> nat" where
  "bt_len m \<equiv> length (bt_entries m)"

abbreviation bt_is_empty :: "('k, 'v) btree_map \<Rightarrow> bool" where
  "bt_is_empty m \<equiv> bt_entries m = []"

definition bt_first :: "('k, 'v) btree_map \<Rightarrow> ('k \<times> 'v) option" where
  "bt_first m = (case bt_entries m of [] \<Rightarrow> None | e # _ \<Rightarrow> Some e)"

subsection \<open>The list implementation\<close>

lemma bt_get_empty: "bt_get bt_empty k = None"
  by (simp add: bt_get_def bt_empty_def)

lemma bt_get_insert: "bt_get (bt_insert k v m) = (bt_get m)(k \<mapsto> v)"
  by (induction k v m rule: bt_insert.induct) (auto simp: bt_get_def fun_eq_iff)

lemma bt_get_remove: "bt_get (bt_remove k m) = (bt_get m)(k := None)"
  by (induction m) (auto simp: bt_get_def bt_remove_def fun_eq_iff)

lemma set_bt_insert: "set (map fst (bt_insert k v m)) = insert k (set (map fst m))"
  by (induction k v m rule: bt_insert.induct) auto

lemma bt_inv_insert: "bt_inv m \<Longrightarrow> bt_inv (bt_insert k v m)"
proof (induction k v m rule: bt_insert.induct)
  case (2 k v k' v' m)
  then show ?case
    using set_bt_insert [of k v m] by (auto simp: bt_inv_def)
qed (simp add: bt_inv_def)

lemma bt_inv_remove: "bt_inv m \<Longrightarrow> bt_inv (bt_remove k m)"
  unfolding bt_inv_def bt_remove_def
  by (induction m) (auto simp: sorted_wrt_append)

lemma bt_inv_empty: "bt_inv bt_empty"
  by (simp add: bt_inv_def bt_empty_def)

lemma bt_get_entries: "bt_get m k = map_of (bt_entries m) k"
  by (simp add: bt_get_def bt_entries_def)

lemma bt_entries_sorted: "bt_inv m \<Longrightarrow> sorted_wrt (<) (map fst (bt_entries m))"
  by (simp add: bt_inv_def bt_entries_def)

subsection \<open>The interface and what follows from it\<close>

locale ordered_map =
  fixes empty :: "'m"
    and lookup :: "'m \<Rightarrow> 'k::linorder \<Rightarrow> 'v option"
    and insert :: "'k \<Rightarrow> 'v \<Rightarrow> 'm \<Rightarrow> 'm"
    and remove :: "'k \<Rightarrow> 'm \<Rightarrow> 'm"
    and entries :: "'m \<Rightarrow> ('k \<times> 'v) list"
    and inv :: "'m \<Rightarrow> bool"
  assumes lookup_empty: "lookup empty k = None"
    and lookup_insert: "lookup (insert k v m) = (lookup m)(k \<mapsto> v)"
    and lookup_remove: "lookup (remove k m) = (lookup m)(k := None)"
    and lookup_entries: "lookup m k = map_of (entries m) k"
    and entries_sorted: "inv m \<Longrightarrow> sorted_wrt (<) (map fst (entries m))"
    and inv_empty: "inv empty"
    and inv_insert: "inv m \<Longrightarrow> inv (insert k v m)"
    and inv_remove: "inv m \<Longrightarrow> inv (remove k m)"
begin

lemma distinct_entries: "inv m \<Longrightarrow> distinct (map fst (entries m))"
  using entries_sorted strict_sorted_iff by blast

lemma dom_lookup: "dom (lookup m) = fst ` set (entries m)"
proof -
  have "lookup m = map_of (entries m)" by (simp add: fun_eq_iff lookup_entries)
  then show ?thesis by (simp add: dom_map_of_conv_image_fst)
qed

lemma finite_dom: "finite (dom (lookup m))"
  by (simp add: dom_lookup)

lemma in_entries: "inv m \<Longrightarrow> (k, v) \<in> set (entries m) \<longleftrightarrow> lookup m k = Some v"
  by (simp add: lookup_entries distinct_entries)

lemma total_dom:
  fixes f :: "'k \<Rightarrow> 'v \<Rightarrow> 'a::comm_monoid_add"
  assumes "inv m"
  shows "(\<Sum>(k, v) \<leftarrow> entries m. f k v) = (\<Sum>k \<in> dom (lookup m). f k (the (lookup m k)))"
proof -
  have "(\<Sum>(k, v) \<leftarrow> entries m. f k v) = (\<Sum>e \<leftarrow> entries m. f (fst e) (the (lookup m (fst e))))"
    using in_entries [OF assms] by (intro arg_cong [where f = sum_list] map_cong) auto
  also have "\<dots> = (\<Sum>k \<leftarrow> map fst (entries m). f k (the (lookup m k)))"
    by (simp add: comp_def)
  also have "\<dots> = (\<Sum>k \<in> set (map fst (entries m)). f k (the (lookup m k)))"
    using distinct_entries [OF assms] by (rule sum_list_distinct_conv_sum_set)
  finally show ?thesis by (simp add: dom_lookup)
qed

lemma total_insert_new:
  fixes f :: "'k \<Rightarrow> 'v \<Rightarrow> 'a::comm_monoid_add"
  assumes "inv m" and "lookup m k = None"
  shows "(\<Sum>(k, v) \<leftarrow> entries (insert k v m). f k v) = f k v + (\<Sum>(k, v) \<leftarrow> entries m. f k v)"
proof -
  have k: "k \<notin> dom (lookup m)" using assms(2) by auto
  have "(\<Sum>(k, v) \<leftarrow> entries (insert k v m). f k v)
      = (\<Sum>x \<in> dom ((lookup m)(k \<mapsto> v)). f x (the (((lookup m)(k \<mapsto> v)) x)))"
    using assms(1) by (simp add: total_dom inv_insert lookup_insert)
  also have "\<dots> = f k v + (\<Sum>x \<in> dom (lookup m). f x (the (((lookup m)(k \<mapsto> v)) x)))"
    using k finite_dom by simp
  also have "(\<Sum>x \<in> dom (lookup m). f x (the (((lookup m)(k \<mapsto> v)) x)))
      = (\<Sum>x \<in> dom (lookup m). f x (the (lookup m x)))"
    using k by (intro sum.cong) auto
  finally show ?thesis using assms(1) by (simp add: total_dom)
qed

lemma total_remove:
  fixes f :: "'k \<Rightarrow> 'v \<Rightarrow> 'a::comm_monoid_add"
  assumes "inv m" and "lookup m k = Some v"
  shows "(\<Sum>(k, v) \<leftarrow> entries m. f k v) = f k v + (\<Sum>(k, v) \<leftarrow> entries (remove k m). f k v)"
proof -
  have "(\<Sum>(k, v) \<leftarrow> entries (remove k m). f k v)
      = (\<Sum>x \<in> dom (lookup m) - {k}. f x (the (((lookup m)(k := None)) x)))"
    using assms(1) by (simp add: total_dom inv_remove lookup_remove)
  also have "\<dots> = (\<Sum>x \<in> dom (lookup m) - {k}. f x (the (lookup m x)))"
    by (intro sum.cong) auto
  finally show ?thesis
    using assms finite_dom
    by (simp add: total_dom sum.remove [where x = k] domI)
qed

lemma total_update:
  fixes f :: "'k \<Rightarrow> 'v \<Rightarrow> 'a::comm_monoid_add"
  assumes "inv m" and "lookup m k = Some v"
  shows "(\<Sum>(k, v) \<leftarrow> entries (insert k v' m). f k v) + f k v
    = (\<Sum>(k, v) \<leftarrow> entries m. f k v) + f k v'"
proof -
  have rest: "(\<Sum>x \<in> dom (lookup m) - {k}. f x (the (((lookup m)(k \<mapsto> v')) x)))
      = (\<Sum>x \<in> dom (lookup m) - {k}. f x (the (lookup m x)))"
    by (intro sum.cong) auto
  have "(\<Sum>(k, v) \<leftarrow> entries (insert k v' m). f k v)
      = (\<Sum>x \<in> Set.insert k (dom (lookup m)). f x (the (((lookup m)(k \<mapsto> v')) x)))"
    using assms(1) by (simp add: total_dom inv_insert lookup_insert)
  also have "\<dots> = f k v' + (\<Sum>x \<in> dom (lookup m) - {k}. f x (the (lookup m x)))"
    unfolding rest [symmetric] using finite_dom by (subst sum.insert_remove) auto
  finally show ?thesis
    using assms finite_dom by (simp add: total_dom sum.remove [where x = k] domI add_ac)
qed

lemma length_entries: "inv m \<Longrightarrow> length (entries m) = card (dom (lookup m))"
  using distinct_card [OF distinct_entries] by (simp add: dom_lookup)

end

interpretation bt: ordered_map bt_empty bt_get bt_insert bt_remove bt_entries bt_inv
  by unfold_locales
    (simp_all only: bt_get_empty bt_get_insert bt_get_remove bt_get_entries [symmetric]
      bt_entries_sorted bt_inv_empty bt_inv_insert bt_inv_remove)

subsection \<open>Sums over the values\<close>

definition bt_total :: "('v \<Rightarrow> nat) \<Rightarrow> ('k, 'v) btree_map \<Rightarrow> nat" where
  "bt_total g m = (\<Sum>(k, v) \<leftarrow> bt_entries m. g v)"

lemma bt_entries_empty: "bt_entries bt_empty = []"
  by (simp add: bt_entries_def bt_empty_def)

lemma bt_total_empty [simp]: "bt_total g bt_empty = 0"
  by (simp add: bt_total_def bt_empty_def bt_entries_def)

lemma bt_total_insert_new:
  "bt_inv m \<Longrightarrow> bt_get m k = None \<Longrightarrow> bt_total g (bt_insert k v m) = g v + bt_total g m"
  unfolding bt_total_def by (rule bt.total_insert_new [where f = "\<lambda>_. g"])

lemma bt_total_remove:
  "bt_inv m \<Longrightarrow> bt_get m k = Some v \<Longrightarrow> bt_total g m = g v + bt_total g (bt_remove k m)"
  unfolding bt_total_def by (rule bt.total_remove [where f = "\<lambda>_. g"])

lemma bt_total_update:
  "bt_inv m \<Longrightarrow> bt_get m k = Some v \<Longrightarrow> bt_total g (bt_insert k v' m) + g v = bt_total g m + g v'"
  unfolding bt_total_def by (rule bt.total_update [where f = "\<lambda>_. g"])

lemma bt_total_member: "bt_inv m \<Longrightarrow> bt_get m k = Some v \<Longrightarrow> g v \<le> bt_total g m"
  using bt_total_remove by fastforce

lemma bt_total_add: "bt_total (\<lambda>v. f v + g v) m = bt_total f m + bt_total g m"
  unfolding bt_total_def by (induction "bt_entries m" arbitrary: m) (auto simp: bt_entries_def split_beta sum_list_addf)

lemma bt_len_total: "bt_len m = bt_total (\<lambda>_. 1) m"
  by (simp add: bt_total_def case_prod_unfold sum_list_triv)

lemma bt_is_empty_get: "bt_is_empty m \<longleftrightarrow> (\<forall>k. bt_get m k = None)"
  by (cases m) (auto simp: bt_entries_def bt_get_def)

lemma bt_is_empty_len: "bt_is_empty m \<longleftrightarrow> bt_len m = 0"
  by simp

lemma bt_len_insert_new: "bt_inv m \<Longrightarrow> bt_get m k = None \<Longrightarrow> bt_len (bt_insert k v m) = bt_len m + 1"
  unfolding bt_len_total by (simp add: bt_total_insert_new)

lemma bt_len_remove: "bt_inv m \<Longrightarrow> bt_get m k = Some v \<Longrightarrow> bt_len m = bt_len (bt_remove k m) + 1"
  unfolding bt_len_total by (simp add: bt_total_remove [where k = k])

lemma bt_len_update: "bt_inv m \<Longrightarrow> bt_get m k = Some v \<Longrightarrow> bt_len (bt_insert k v' m) = bt_len m"
  unfolding bt_len_total using bt_total_update [where g = "\<lambda>_. 1"] by fastforce

lemma bt_first_Some: "bt_first m = Some (k, v) \<longleftrightarrow> (\<exists>m'. m = (k, v) # m')"
  by (auto simp: bt_first_def bt_entries_def split: list.splits)

lemma bt_first_None: "bt_first m = None \<longleftrightarrow> m = []"
  by (auto simp: bt_first_def bt_entries_def split: list.splits)

end
