(* ===== verification/Contracts.thy ===== *)
theory Contracts
  imports Btree_Map
begin

section \<open>Domain contracts\<close>

text \<open>
  The data of \<open>crates/features/domain-contracts\<close>: identifiers, capacities, the error
  taxonomy, generation outcomes, model descriptions and sequence buffers. Every Rust enum is
  a datatype with the same variants, every struct a record with the same fields. A variant
  name that several enums share carries a prefix. \<open>NonZero\<close> integers are words; the places
  that build one check for zero, as \<open>NonZeroU16::new\<close> does. An \<open>f32\<close> is its bit pattern: no
  operation of this theory computes with one.
\<close>

subsection \<open>Identifiers\<close>

datatype model_id = ModelId (model_id_get: u64)
datatype model_generation = ModelGeneration (model_generation_get: u64)
datatype sequence_id = SequenceId (sequence_id_get: u64)
datatype request_id = RequestId (request_id_get: u64)
datatype task_id = TaskId (task_id_get: u64)
datatype artifact_id = ArtifactId (artifact_id_get: u64)
datatype backend_id = BackendId (backend_id_get: u64)
datatype device_id = DeviceId (device_id_get: u64)
datatype token_id = TokenId (token_id_get: u32)

record model_handle =
  mh_id :: model_id
  mh_generation :: model_generation

text \<open>The derived order of the keys of the registries.\<close>

instantiation model_id :: linorder
begin

definition less_eq_model_id :: "model_id \<Rightarrow> model_id \<Rightarrow> bool" where
  "less_eq_model_id a b \<longleftrightarrow> model_id_get a \<le> model_id_get b"

definition less_model_id :: "model_id \<Rightarrow> model_id \<Rightarrow> bool" where
  "less_model_id a b \<longleftrightarrow> model_id_get a < model_id_get b"

instance
  by standard (auto simp: less_eq_model_id_def less_model_id_def model_id.expand)

end

instantiation request_id :: linorder
begin

definition less_eq_request_id :: "request_id \<Rightarrow> request_id \<Rightarrow> bool" where
  "less_eq_request_id a b \<longleftrightarrow> request_id_get a \<le> request_id_get b"

definition less_request_id :: "request_id \<Rightarrow> request_id \<Rightarrow> bool" where
  "less_request_id a b \<longleftrightarrow> request_id_get a < request_id_get b"

instance
  by standard (auto simp: less_eq_request_id_def less_request_id_def request_id.expand)

end

instantiation sequence_id :: linorder
begin

definition less_eq_sequence_id :: "sequence_id \<Rightarrow> sequence_id \<Rightarrow> bool" where
  "less_eq_sequence_id a b \<longleftrightarrow> sequence_id_get a \<le> sequence_id_get b"

definition less_sequence_id :: "sequence_id \<Rightarrow> sequence_id \<Rightarrow> bool" where
  "less_sequence_id a b \<longleftrightarrow> sequence_id_get a < sequence_id_get b"

instance
  by standard (auto simp: less_eq_sequence_id_def less_sequence_id_def sequence_id.expand)

end

lemmas id_order_simps [simp] =
  less_eq_model_id_def less_model_id_def less_eq_request_id_def less_request_id_def
  less_eq_sequence_id_def less_sequence_id_def

subsection \<open>Capacities and time\<close>

datatype capacity_resource =
    Tokens | Logits | CandidateIndices | RepetitionHistory | DecodeBytes | OutputBytes
  | OutputRecords | BackendScratch | ActiveRequests | ActiveSequences | PrefillBatch
  | ContextEntries | SamplingIndices | SamplingMask | TaskNodes | TaskEdges

record capacity_exhausted =
  ce_resource :: capacity_resource
  ce_required :: u64
  ce_available :: u64

definition capacity_exhausted_new :: "capacity_resource \<Rightarrow> u64 \<Rightarrow> u64 \<Rightarrow> capacity_exhausted" where
  "capacity_exhausted_new resource required available =
     \<lparr>ce_resource = resource, ce_required = required, ce_available = available\<rparr>"

datatype monotonic_millis = MonotonicMillis (millis_get: u64)

definition elapsed_since :: "monotonic_millis \<Rightarrow> monotonic_millis \<Rightarrow> u64" where
  "elapsed_since now earlier = saturating_sub (millis_get now) (millis_get earlier)"

subsection \<open>Generation outcomes\<close>

datatype cancellation_reason =
  UserRequested | ModelUnload | DrainTimeout | RuntimeShutdown | ParentTask

datatype cancellation_status = CancelRunning | CancelRequested cancellation_reason

fun cancellation_reason_of :: "cancellation_status \<Rightarrow> cancellation_reason option" where
  "cancellation_reason_of CancelRunning = None"
| "cancellation_reason_of (CancelRequested reason) = Some reason"

datatype finish_reason =
    EndOfSequence token_id
  | TokenLimit
  | StopCondition
  | BufferExhausted capacity_exhausted
  | Cancelled cancellation_reason

datatype yield_reason =
    OutputBackpressure capacity_exhausted
  | YieldScheduler
  | BackendPending

datatype generation_control = GenContinue | GenYield yield_reason | GenFinish finish_reason

record generation_usage =
  usage_prompt_tokens :: u64
  usage_generated_tokens :: u64

definition generation_usage_default :: generation_usage where
  "generation_usage_default = \<lparr>usage_prompt_tokens = 0, usage_generated_tokens = 0\<rparr>"

text \<open>\<open>consumed_tokens\<close>, \<open>position\<close> and \<open>logits_written\<close> of the \<open>Ready\<close> variants.\<close>

datatype prefill_outcome = PrefillReady usize usize usize | PrefillFinished finish_reason
datatype decode_outcome = DecodeReady usize usize | DecodeFinished finish_reason

subsection \<open>Errors\<close>

datatype backend_failure_kind =
    InvalidModel | FailureUnsupported | HostMemory | DeviceMemory | DeviceExecution
  | FailureSynchronization | ForeignFunction | FailureInvalidState | FailureInternal

record backend_failure =
  bf_backend :: backend_id
  bf_kind :: backend_failure_kind
  bf_code :: u32

datatype load_error =
    LoadInvalidSource
  | LoadUnsupportedArchitecture
  | LoadUnsupportedFormat
  | LoadInvalidConfiguration
  | LoadCapacityExhausted capacity_exhausted
  | LoadInsufficientMemory u64 u64
  | LoadCancelled cancellation_reason
  | LoadBackend backend_failure

datatype model_error =
    ModelInvalidState
  | ModelUnsupported
  | ModelCapacityExhausted capacity_exhausted
  | ModelBackend backend_failure

datatype sequence_error =
    SequenceInvalidState
  | SequenceCapacityExhausted capacity_exhausted
  | SequenceUnsupported
  | SequenceCancelled cancellation_reason
  | SequenceBackend backend_failure

datatype synchronization_error =
    SyncInvalidState
  | SyncCancelled cancellation_reason
  | SyncBackend backend_failure

end
