(* ===== verification/Model_Data.thy ===== *)
theory Model_Data
  imports Contracts
begin

unbundle bit_operations_syntax

section \<open>Model metadata, memory footprints and sequence buffers\<close>

text \<open>
  The data of \<open>domain-contracts/src/model.rs\<close> and \<open>sequence.rs\<close>. A memory footprint has five
  \<open>u64\<close> fields; \<open>footprint_field\<close> reads one of them as a natural number, so that statements
  about all five fields are written once.
\<close>

subsection \<open>Model description\<close>

datatype model_architecture = Llama | Mistral | Gemma | Qwen | ArchitectureOther u32
datatype scalar_type = F32 | F16 | Bf16 | I8 | U8 | ScalarOther u16
datatype quantization_format = QuantNone | Int8 | Int4 | Gguf u16 | QuantOther u16
datatype device_kind = Cpu | Cuda | Metal | Accelerator u16

datatype capability_set = CapabilitySet (capability_bits: u64)

definition capability_empty :: capability_set where
  "capability_empty = CapabilitySet 0"

definition capability_contains :: "capability_set \<Rightarrow> capability_set \<Rightarrow> bool" where
  "capability_contains self required \<longleftrightarrow>
     (capability_bits self AND capability_bits required) = capability_bits required"

definition capability_union :: "capability_set \<Rightarrow> capability_set \<Rightarrow> capability_set" where
  "capability_union self other = CapabilitySet (capability_bits self OR capability_bits other)"

record model_capabilities =
  mc_operations :: capability_set
  mc_maximum_context_tokens :: u32
  mc_maximum_sequences :: u32
  mc_maximum_prefill_batch :: u32

record memory_footprint =
  host_weight_bytes :: u64
  device_weight_bytes :: u64
  host_working_bytes :: u64
  device_working_bytes :: u64
  cache_bytes_per_token :: u64

definition footprint_default :: memory_footprint where
  "footprint_default = \<lparr>host_weight_bytes = 0, device_weight_bytes = 0, host_working_bytes = 0,
     device_working_bytes = 0, cache_bytes_per_token = 0\<rparr>"

definition host_bytes :: "memory_footprint \<Rightarrow> u64" where
  "host_bytes f = saturating_add (host_weight_bytes f) (host_working_bytes f)"

definition device_bytes :: "memory_footprint \<Rightarrow> u64" where
  "device_bytes f = saturating_add (device_weight_bytes f) (device_working_bytes f)"

record memory_budget =
  budget_host_bytes :: u64
  budget_device_bytes :: u64

record model_metadata =
  md_architecture :: model_architecture
  md_scalar_type :: scalar_type
  md_quantization :: quantization_format
  md_vocabulary_size :: u32
  md_context_length :: u32

record model_descriptor =
  desc_backend :: backend_id
  desc_metadata :: model_metadata
  desc_capabilities :: model_capabilities
  desc_estimated_footprint :: memory_footprint

record load_configuration =
  lc_handle :: model_handle
  lc_device :: device_id
  lc_device_kind :: device_kind
  lc_memory_budget :: memory_budget

record load_plan =
  lp_descriptor :: model_descriptor
  lp_expected_footprint :: memory_footprint

record sequence_configuration =
  sc_maximum_tokens :: u32
  sc_maximum_prefill_batch :: u32

record sequence_plan =
  sp_configuration :: sequence_configuration
  sp_expected_footprint :: memory_footprint
  sp_logits_capacity :: usize

subsection \<open>Sequence inputs and buffers\<close>

datatype sequence_state = SeqEmpty | SeqReady | SeqFinished | SeqTransitioning

type_synonym f32 = u32

record prefill_input =
  pi_tokens :: "token_id list"
  pi_emit_logits :: bool

text \<open>
  A decode input is its token, a buffer requirement the number of logits, a buffer its
  logits storage. Preparing a buffer checks its length and keeps the requirement beside it.
\<close>

type_synonym decode_input = token_id
type_synonym buffer_requirements = usize

record prepared_buffers =
  pb_logits :: "f32 list"
  pb_required_logits :: usize

definition prefill_buffers_prepare ::
    "f32 list \<Rightarrow> buffer_requirements \<Rightarrow> capacity_exhausted + prepared_buffers" where
  "prefill_buffers_prepare logits requirements =
     (if length logits < requirements
      then Inl (capacity_exhausted_new Logits (usize_to_u64 requirements)
                  (usize_to_u64 (length logits)))
      else Inr \<lparr>pb_logits = logits, pb_required_logits = requirements\<rparr>)"

definition decode_buffers_prepare ::
    "f32 list \<Rightarrow> buffer_requirements \<Rightarrow> capacity_exhausted + prepared_buffers" where
  "decode_buffers_prepare logits requirements =
     (if length logits < requirements
      then Inl (capacity_exhausted_new Logits (usize_to_u64 requirements)
                  (usize_to_u64 (length logits)))
      else Inr \<lparr>pb_logits = logits, pb_required_logits = requirements\<rparr>)"

subsection \<open>Footprints field by field\<close>

datatype footprint_component =
  HostWeight | DeviceWeight | HostWorking | DeviceWorking | CachePerToken

fun footprint_field :: "memory_footprint \<Rightarrow> footprint_component \<Rightarrow> nat" where
  "footprint_field f HostWeight = unat (host_weight_bytes f)"
| "footprint_field f DeviceWeight = unat (device_weight_bytes f)"
| "footprint_field f HostWorking = unat (host_working_bytes f)"
| "footprint_field f DeviceWorking = unat (device_working_bytes f)"
| "footprint_field f CachePerToken = unat (cache_bytes_per_token f)"

lemma all_components:
  "(\<forall>c. P c) \<longleftrightarrow> P HostWeight \<and> P DeviceWeight \<and> P HostWorking \<and> P DeviceWorking \<and> P CachePerToken"
  by (metis footprint_component.exhaust)

lemma footprint_eqI: "(\<And>c. footprint_field f c = footprint_field g c) \<Longrightarrow> f = g"
  for f g :: memory_footprint
proof -
  assume fields: "\<And>c. footprint_field f c = footprint_field g c"
  from fields [of HostWeight] fields [of DeviceWeight] fields [of HostWorking]
    fields [of DeviceWorking] fields [of CachePerToken]
  show "f = g" by (simp add: word_unat_eq_iff)
qed

lemma footprint_field_default [simp]: "footprint_field footprint_default c = 0"
  by (cases c) (simp_all add: footprint_default_def)

lemma unat_host_bytes:
  "unat (host_bytes f) =
     min (footprint_field f HostWeight + footprint_field f HostWorking) (2 ^ 64 - 1)"
  by (simp add: host_bytes_def unat_saturating_add)

lemma unat_device_bytes:
  "unat (device_bytes f) =
     min (footprint_field f DeviceWeight + footprint_field f DeviceWorking) (2 ^ 64 - 1)"
  by (simp add: device_bytes_def unat_saturating_add)

lemma host_bytes_mono:
  assumes "\<And>c. footprint_field f c \<le> footprint_field g c"
  shows "host_bytes f \<le> host_bytes g"
  using assms [of HostWeight] assms [of HostWorking]
  unfolding word_le_nat_alt unat_host_bytes by linarith

lemma device_bytes_mono:
  assumes "\<And>c. footprint_field f c \<le> footprint_field g c"
  shows "device_bytes f \<le> device_bytes g"
  using assms [of DeviceWeight] assms [of DeviceWorking]
  unfolding word_le_nat_alt unat_device_bytes by linarith

end
