(* ===== verification/Lifecycle.thy ===== *)
theory Lifecycle
  imports Contracts
begin

section \<open>The model lifecycle\<close>

text \<open>
  \<open>domain-contracts/src/lifecycle.rs\<close>: the state machine of one loaded model, with the bounded
  drain window. Each method of \<open>ModelLifecycle\<close> is a function from the state to its result and
  the next state. \<open>lifecycle_apply\<close> dispatches an event to its method, \<open>lifecycle_step\<close> is
  the step relation, \<open>lifecycle_run\<close> a sequence of calls. The lemmas show the invariant of the
  reachable states, that the request counter counts, that a model is released only when no
  request is active, and that an expired drain ends after finitely many completions.
\<close>

subsection \<open>States, actions and errors\<close>

text \<open>A \<open>DrainTimeout\<close> wraps a non-zero number of milliseconds.\<close>

type_synonym drain_timeout = u64

record drain_window =
  dw_started_at :: monotonic_millis
  dw_timeout :: drain_timeout

datatype unload_policy = RejectIfBusy | CancelActiveRequests | Drain drain_timeout

datatype failure_phase = PhaseLoading | PhaseActive | PhaseUnloading

datatype lifecycle_state =
    Absent
  | Loading
  | Ready
  | Active u32
  | Draining u32 drain_window
  | Cancelling u32 cancellation_reason
  | Unloading
  | Failed failure_phase backend_failure

datatype lifecycle_action = NoAction | CancelActive cancellation_reason | ReleaseModel | UnloadComplete

datatype lifecycle_error =
    InvalidTransition
  | Busy u32
  | ZeroDrainTimeout
  | LifecycleCapacityExhausted capacity_exhausted

type_synonym lifecycle_result = "(lifecycle_error + lifecycle_action) \<times> lifecycle_state"

definition drain_timeout_from_millis :: "u64 \<Rightarrow> lifecycle_error + drain_timeout" where
  "drain_timeout_from_millis milliseconds =
     (if milliseconds = 0 then Inl ZeroDrainTimeout else Inr milliseconds)"

definition drain_window_has_expired :: "drain_window \<Rightarrow> monotonic_millis \<Rightarrow> bool" where
  "drain_window_has_expired w now \<longleftrightarrow> dw_timeout w \<le> elapsed_since now (dw_started_at w)"

subsection \<open>Transitions\<close>

fun begin_load :: "lifecycle_state \<Rightarrow> lifecycle_result" where
  "begin_load s = (if s \<noteq> Absent then (Inl InvalidTransition, s) else (Inr NoAction, Loading))"

fun complete_load :: "lifecycle_state \<Rightarrow> lifecycle_result" where
  "complete_load s = (if s \<noteq> Loading then (Inl InvalidTransition, s) else (Inr NoAction, Ready))"

fun fail_lifecycle ::
    "failure_phase \<Rightarrow> backend_failure \<Rightarrow> lifecycle_state \<Rightarrow> lifecycle_action \<times> lifecycle_state" where
  "fail_lifecycle phase failure s = (NoAction, Failed phase failure)"

fun clear_failure :: "lifecycle_state \<Rightarrow> lifecycle_result" where
  "clear_failure (Failed phase failure) = (Inr UnloadComplete, Absent)"
| "clear_failure s = (Inl InvalidTransition, s)"

fun start_request :: "lifecycle_state \<Rightarrow> lifecycle_result" where
  "start_request Ready = (Inr NoAction, Active 1)"
| "start_request (Active n) =
     (case checked_add n 1 of
        None \<Rightarrow> (Inl (LifecycleCapacityExhausted
                  (capacity_exhausted_new ActiveRequests (2 ^ 32) (ucast n))), Active n)
      | Some next \<Rightarrow> (Inr NoAction, Active next))"
| "start_request s = (Inl InvalidTransition, s)"

fun finish_request :: "lifecycle_state \<Rightarrow> lifecycle_result" where
  "finish_request (Active n) =
     (if n = 1 then (Inr NoAction, Ready) else (Inr NoAction, Active (n - 1)))"
| "finish_request (Draining n window) =
     (if n = 1 then (Inr ReleaseModel, Unloading)
      else (Inr NoAction, Draining (n - 1) window))"
| "finish_request (Cancelling n reason) =
     (if n = 1 then (Inr ReleaseModel, Unloading)
      else (Inr NoAction, Cancelling (n - 1) reason))"
| "finish_request s = (Inl InvalidTransition, s)"

fun request_unload ::
    "unload_policy \<Rightarrow> monotonic_millis \<Rightarrow> lifecycle_state \<Rightarrow> lifecycle_result" where
  "request_unload policy now Absent = (Inr UnloadComplete, Absent)"
| "request_unload policy now Ready = (Inr ReleaseModel, Unloading)"
| "request_unload policy now (Active n) =
     (case policy of
        RejectIfBusy \<Rightarrow> (Inl (Busy n), Active n)
      | CancelActiveRequests \<Rightarrow> (Inr (CancelActive ModelUnload), Cancelling n ModelUnload)
      | Drain timeout \<Rightarrow>
          (Inr NoAction, Draining n \<lparr>dw_started_at = now, dw_timeout = timeout\<rparr>))"
| "request_unload policy now s = (Inl InvalidTransition, s)"

fun poll_lifecycle :: "monotonic_millis \<Rightarrow> lifecycle_state \<Rightarrow> lifecycle_result" where
  "poll_lifecycle now (Draining n window) =
     (if drain_window_has_expired window now
      then (Inr (CancelActive DrainTimeout), Cancelling n DrainTimeout)
      else (Inr NoAction, Draining n window))"
| "poll_lifecycle now Unloading = (Inl InvalidTransition, Unloading)"
| "poll_lifecycle now (Failed phase failure) = (Inl InvalidTransition, Failed phase failure)"
| "poll_lifecycle now s = (Inr NoAction, s)"

fun complete_unload :: "lifecycle_state \<Rightarrow> lifecycle_result" where
  "complete_unload s =
     (if s \<noteq> Unloading then (Inl InvalidTransition, s) else (Inr UnloadComplete, Absent))"

subsection \<open>Events, steps and runs\<close>

datatype lifecycle_event =
    BeginLoad
  | CompleteLoad
  | Fail failure_phase backend_failure
  | ClearFailure
  | StartRequest
  | FinishRequest
  | RequestUnload unload_policy monotonic_millis
  | Poll monotonic_millis
  | CompleteUnload

fun lifecycle_apply :: "lifecycle_event \<Rightarrow> lifecycle_state \<Rightarrow> lifecycle_result" where
  "lifecycle_apply BeginLoad s = begin_load s"
| "lifecycle_apply CompleteLoad s = complete_load s"
| "lifecycle_apply (Fail phase failure) s =
     (case fail_lifecycle phase failure s of (a, s') \<Rightarrow> (Inr a, s'))"
| "lifecycle_apply ClearFailure s = clear_failure s"
| "lifecycle_apply StartRequest s = start_request s"
| "lifecycle_apply FinishRequest s = finish_request s"
| "lifecycle_apply (RequestUnload policy now) s = request_unload policy now s"
| "lifecycle_apply (Poll now) s = poll_lifecycle now s"
| "lifecycle_apply CompleteUnload s = complete_unload s"

text \<open>The policies that \<open>DrainTimeout\<close> can express.\<close>

fun event_ok :: "lifecycle_event \<Rightarrow> bool" where
  "event_ok (RequestUnload (Drain timeout) now) \<longleftrightarrow> timeout \<noteq> 0"
| "event_ok _ \<longleftrightarrow> True"

inductive lifecycle_step ::
    "lifecycle_state \<Rightarrow> lifecycle_event \<Rightarrow> (lifecycle_error + lifecycle_action) \<Rightarrow> lifecycle_state \<Rightarrow> bool" where
  call: "event_ok e \<Longrightarrow> lifecycle_apply e s = (r, s') \<Longrightarrow> lifecycle_step s e r s'"

inductive_simps lifecycle_step_iff: "lifecycle_step s e r s'"

inductive lifecycle_reachable :: "lifecycle_state \<Rightarrow> bool" where
  new: "lifecycle_reachable Absent"
| step: "lifecycle_reachable s \<Longrightarrow> lifecycle_step s e r s' \<Longrightarrow> lifecycle_reachable s'"

fun lifecycle_run ::
    "lifecycle_event list \<Rightarrow> lifecycle_state \<Rightarrow> (lifecycle_error + lifecycle_action) list \<times> lifecycle_state" where
  "lifecycle_run [] s = ([], s)"
| "lifecycle_run (e # es) s =
     (case lifecycle_apply e s of (r, s') \<Rightarrow>
        case lifecycle_run es s' of (rs, t) \<Rightarrow> (r # rs, t))"

subsection \<open>The invariant of the counters\<close>

text \<open>The number of requests a state accounts for.\<close>

fun active_count :: "lifecycle_state \<Rightarrow> nat" where
  "active_count (Active n) = unat n"
| "active_count (Draining n window) = unat n"
| "active_count (Cancelling n reason) = unat n"
| "active_count s = 0"

text \<open>A state that carries a counter carries a positive one, and a drain has a timeout.\<close>

fun lifecycle_wf :: "lifecycle_state \<Rightarrow> bool" where
  "lifecycle_wf (Active n) \<longleftrightarrow> n \<noteq> 0"
| "lifecycle_wf (Draining n window) \<longleftrightarrow> n \<noteq> 0 \<and> dw_timeout window \<noteq> 0"
| "lifecycle_wf (Cancelling n reason) \<longleftrightarrow> n \<noteq> 0"
| "lifecycle_wf s \<longleftrightarrow> True"

lemma unat_decrement: "n \<noteq> 0 \<Longrightarrow> unat (n - 1) + 1 = unat n" for n :: u32
  by (simp add: unat_minus_one unat_gt_0)

lemma unat_increment: "checked_add n 1 = Some m \<Longrightarrow> unat m = unat n + 1 \<and> m \<noteq> 0" for n m :: u32
  using unat_checked_add [of n 1 m] by auto

lemma decrement_neq_0: "n \<noteq> 0 \<Longrightarrow> n \<noteq> 1 \<Longrightarrow> n - 1 \<noteq> 0" for n :: u32
  by simp

lemmas lifecycle_arith = unat_decrement unat_increment decrement_neq_0

lemma lifecycle_step_wf:
  "lifecycle_wf s \<Longrightarrow> event_ok e \<Longrightarrow> lifecycle_apply e s = (r, s') \<Longrightarrow> lifecycle_wf s'"
  by (cases e; cases s)
    (auto split: if_splits option.splits unload_policy.splits dest: unat_increment)

lemma lifecycle_reachable_wf: "lifecycle_reachable s \<Longrightarrow> lifecycle_wf s"
  by (induction rule: lifecycle_reachable.induct)
    (auto simp: lifecycle_step_iff dest: lifecycle_step_wf)

lemma lifecycle_error_frame: "lifecycle_apply e s = (Inl err, s') \<Longrightarrow> s' = s"
  by (cases e; cases s) (auto split: if_splits option.splits unload_policy.splits)

definition started :: "lifecycle_event \<Rightarrow> lifecycle_error + lifecycle_action \<Rightarrow> nat" where
  "started e r = (if e = StartRequest \<and> is_ok r then 1 else 0)"

definition finished :: "lifecycle_event \<Rightarrow> lifecycle_error + lifecycle_action \<Rightarrow> nat" where
  "finished e r = (if e = FinishRequest \<and> is_ok r then 1 else 0)"

fun is_fail :: "lifecycle_event \<Rightarrow> bool" where
  "is_fail (Fail phase failure) \<longleftrightarrow> True"
| "is_fail _ \<longleftrightarrow> False"

lemma lifecycle_step_count:
  assumes "lifecycle_wf s" and "\<not> is_fail e" and "lifecycle_apply e s = (r, s')"
  shows "active_count s' + finished e r = active_count s + started e r"
  using assms
  by (cases e; cases s)
    (auto simp: started_def finished_def split: if_splits option.splits unload_policy.splits
      dest: unat_increment unat_decrement)

lemma lifecycle_run_wf:
  "lifecycle_wf s \<Longrightarrow> list_all event_ok es \<Longrightarrow> lifecycle_run es s = (rs, t) \<Longrightarrow> lifecycle_wf t"
  by (induction es arbitrary: s rs) (auto split: prod.splits dest: lifecycle_step_wf)

lemma lifecycle_run_length: "lifecycle_run es s = (rs, t) \<Longrightarrow> length rs = length es"
  by (induction es arbitrary: s rs) (auto split: prod.splits)

lemma lifecycle_run_append:
  "lifecycle_run (es @ fs) s =
     (case lifecycle_run es s of (rs, t) \<Rightarrow> case lifecycle_run fs t of (ps, u) \<Rightarrow> (rs @ ps, u))"
  by (induction es arbitrary: s) (auto split: prod.splits)

lemma lifecycle_run_count:
  assumes "lifecycle_wf s" and "list_all event_ok es" and "list_all (\<lambda>e. \<not> is_fail e) es"
    and "lifecycle_run es s = (rs, t)"
  shows "active_count t + sum_list (map2 finished es rs)
    = active_count s + sum_list (map2 started es rs)"
  using assms
proof (induction es arbitrary: s rs)
  case (Cons e es)
  obtain r s' where step: "lifecycle_apply e s = (r, s')" by fastforce
  with Cons.prems(4) obtain ps where run: "lifecycle_run es s' = (ps, t)" and rs: "rs = r # ps"
    by (auto split: prod.splits)
  have "lifecycle_wf s'" using Cons.prems step by (auto dest: lifecycle_step_wf)
  from Cons.IH [OF this _ _ run] Cons.prems(2,3)
  have "active_count t + sum_list (map2 finished es ps)
      = active_count s' + sum_list (map2 started es ps)" by simp
  with lifecycle_step_count [OF Cons.prems(1) _ step] Cons.prems(3) show ?case
    by (simp add: rs)
qed simp

subsection \<open>Release and drain\<close>

text \<open>The states in which the model is on its way out: no request may start.\<close>

fun leaving :: "lifecycle_state \<Rightarrow> bool" where
  "leaving (Draining n window) \<longleftrightarrow> True"
| "leaving (Cancelling n reason) \<longleftrightarrow> True"
| "leaving Unloading \<longleftrightarrow> True"
| "leaving (Failed phase failure) \<longleftrightarrow> True"
| "leaving s \<longleftrightarrow> False"

lemma leaving_step:
  "leaving s \<Longrightarrow> lifecycle_apply e s = (r, s') \<Longrightarrow> r \<noteq> Inr UnloadComplete \<Longrightarrow> leaving s'"
  by (cases e; cases s) (auto split: if_splits option.splits unload_policy.splits)

lemma leaving_rejects_start:
  "leaving s \<Longrightarrow> start_request s = (Inl InvalidTransition, s)"
  by (cases s) auto

lemma expired_iff:
  assumes "dw_timeout w \<noteq> 0"
  shows "drain_window_has_expired w now \<longleftrightarrow>
     unat (millis_get (dw_started_at w)) + unat (dw_timeout w) \<le> unat (millis_get now)"
proof -
  have "0 < unat (dw_timeout w)" using assms by (simp add: unat_gt_0)
  then show ?thesis
    unfolding drain_window_has_expired_def elapsed_since_def word_le_nat_alt unat_saturating_sub
    by linarith
qed

lemma cancelling_drains:
  assumes "n \<noteq> 0"
  shows "lifecycle_run (replicate (unat n) FinishRequest) (Cancelling n reason)
    = (replicate (unat n - 1) (Inr NoAction) @ [Inr ReleaseModel], Unloading)"
  using assms
proof (induction "unat n - 1" arbitrary: n)
  case 0
  then have "unat n = 1" using unat_gt_0 [of n] by linarith
  then have "n = 1" by (simp add: word_unat_eq_iff)
  then show ?case by simp
next
  case (Suc k)
  then have n1: "n \<noteq> 1" by auto
  have dec: "unat n = Suc (unat (n - 1))" using unat_decrement [OF Suc.prems] by simp
  have "lifecycle_run (replicate (unat (n - 1)) FinishRequest) (Cancelling (n - 1) reason)
      = (replicate (unat (n - 1) - 1) (Inr NoAction) @ [Inr ReleaseModel], Unloading)"
    using Suc n1 dec by (intro Suc.hyps(1)) auto
  moreover have "unat (n - 1) = Suc k"
    using Suc.hyps(2) dec by simp
  ultimately show ?case using dec n1 by simp
qed

subsection \<open>Properties\<close>

text \<open>
  \<^bold>\<open>C1\<close>. The request counter counts. Over any sequence of calls (other than \<open>fail\<close>) from a
  well-formed state, the requests the state accounts for, plus the completions that were
  accepted, are the initial requests plus the starts that were accepted; calls that return
  an error count for nothing, and the counter never wraps.
\<close>
theorem lifecycle_counts_requests:
  assumes "lifecycle_reachable s" and "list_all event_ok es" and "list_all (\<lambda>e. \<not> is_fail e) es"
    and "lifecycle_run es s = (rs, t)"
  shows "active_count t + sum_list (map2 finished es rs)
    = active_count s + sum_list (map2 started es rs)"
  using assms lifecycle_run_count lifecycle_reachable_wf by blast

theorem lifecycle_counts_requests_witness:
  "active_count (Active 1)
     + sum_list (map2 finished [BeginLoad, CompleteLoad, StartRequest, StartRequest, FinishRequest]
         [Inr NoAction, Inr NoAction, Inr NoAction, Inr NoAction, Inr NoAction])
   = active_count Absent
     + sum_list (map2 started [BeginLoad, CompleteLoad, StartRequest, StartRequest, FinishRequest]
         [Inr NoAction, Inr NoAction, Inr NoAction, Inr NoAction, Inr NoAction])"
  by (rule lifecycle_counts_requests)
    (simp_all add: lifecycle_reachable.new checked_add_def)

text \<open>
  A model is released only when it is idle. In a reachable state a call answers
  \<open>ReleaseModel\<close> exactly when it moves the model into \<open>Unloading\<close>; the call is the completion
  of the last request of a draining or cancelling model, or an unload of a ready one, and no
  request is accounted for afterwards.
\<close>
theorem lifecycle_release_only_when_idle:
  assumes "lifecycle_reachable s" and "lifecycle_apply e s = (r, s')" and "s \<noteq> Unloading"
  shows "(r = Inr ReleaseModel \<longleftrightarrow> s' = Unloading)
    \<and> (r = Inr ReleaseModel \<longrightarrow> active_count s' = 0 \<and>
        (e = FinishRequest \<and> active_count s = 1 \<and> leaving s \<or>
         s = Ready \<and> (\<exists>policy now. e = RequestUnload policy now)))"
  using lifecycle_reachable_wf [OF assms(1)] assms(2,3)
  by (cases e; cases s) (auto split: if_splits option.splits unload_policy.splits)

theorem lifecycle_release_only_when_idle_witness:
  "(Inr ReleaseModel = (Inr ReleaseModel :: lifecycle_error + lifecycle_action)
      \<longleftrightarrow> Unloading = Unloading) \<and> lifecycle_reachable Ready"
proof -
  have load: "lifecycle_reachable Loading"
    by (rule lifecycle_reachable.step [OF lifecycle_reachable.new
          lifecycle_step.call [where e = BeginLoad and r = "Inr NoAction"]]) simp_all
  have ready: "lifecycle_reachable Ready"
    by (rule lifecycle_reachable.step [OF load
          lifecycle_step.call [where e = CompleteLoad and r = "Inr NoAction"]]) simp_all
  show ?thesis
    using lifecycle_release_only_when_idle [OF ready,
        where e = "RequestUnload RejectIfBusy (MonotonicMillis 0)" and r = "Inr ReleaseModel"
        and s' = Unloading] ready
    by simp
qed

text \<open>
  No request starts on a model that is leaving. Once a model drains, is being
  cancelled, unloads or has failed, every \<open>start_request\<close> of any later sequence of calls is
  rejected with \<open>InvalidTransition\<close>, until a call reports \<open>UnloadComplete\<close>.
\<close>
theorem lifecycle_no_start_while_leaving:
  assumes "leaving s" and "lifecycle_run es s = (rs, t)" and "Inr UnloadComplete \<notin> set rs"
    and "i < length es" and "es ! i = StartRequest"
  shows "rs ! i = Inl InvalidTransition"
  using assms
proof (induction es arbitrary: s rs i)
  case (Cons e es)
  obtain r s' where step: "lifecycle_apply e s = (r, s')" by fastforce
  with Cons.prems(2) obtain ps where run: "lifecycle_run es s' = (ps, t)" and rs: "rs = r # ps"
    by (auto split: prod.splits)
  show ?case
  proof (cases i)
    case 0
    with Cons.prems step show ?thesis by (simp add: rs leaving_rejects_start)
  next
    case (Suc j)
    have "leaving s'" using leaving_step [OF Cons.prems(1) step] Cons.prems(3) by (auto simp: rs)
    from Cons.IH [OF this run] Cons.prems show ?thesis by (simp add: rs Suc)
  qed
qed simp

theorem lifecycle_no_start_while_leaving_witness:
  "[Inr NoAction, Inl InvalidTransition] ! 1 = (Inl InvalidTransition :: lifecycle_error + lifecycle_action)"
  by (rule lifecycle_no_start_while_leaving
        [where s = "Cancelling 2 ModelUnload" and es = "[FinishRequest, StartRequest]"
          and t = "Cancelling 1 ModelUnload"]) simp_all

text \<open>
  \<^bold>\<open>C2\<close>. A drain is bounded. From the moment \<open>start + timeout\<close> a poll of a draining model
  with \<open>n\<close> requests escalates to cancellation with reason \<open>DrainTimeout\<close>; \<open>n\<close> completions then
  answer \<open>ReleaseModel\<close> exactly on the last one, and completing the unload leaves the model
  absent. Before that moment a poll changes nothing.
\<close>
theorem lifecycle_drain_bounded:
  assumes "lifecycle_reachable (Draining n window)"
  shows "if unat (millis_get (dw_started_at window)) + unat (dw_timeout window)
            \<le> unat (millis_get now)
    then lifecycle_run (Poll now # replicate (unat n) FinishRequest @ [CompleteUnload])
           (Draining n window)
         = (Inr (CancelActive DrainTimeout) # replicate (unat n - 1) (Inr NoAction)
             @ [Inr ReleaseModel, Inr UnloadComplete], Absent)
    else poll_lifecycle now (Draining n window) = (Inr NoAction, Draining n window)"
proof -
  have wf: "n \<noteq> 0" "dw_timeout window \<noteq> 0"
    using lifecycle_reachable_wf [OF assms] by auto
  show ?thesis
    using cancelling_drains [OF wf(1), of DrainTimeout]
    by (simp add: expired_iff [OF wf(2), symmetric] lifecycle_run_append)
qed

theorem lifecycle_drain_bounded_witness:
  "lifecycle_run [Poll (MonotonicMillis 15), FinishRequest, CompleteUnload]
      (Draining 1 \<lparr>dw_started_at = MonotonicMillis 5, dw_timeout = 10\<rparr>)
    = ([Inr (CancelActive DrainTimeout), Inr ReleaseModel, Inr UnloadComplete], Absent)"
proof -
  let ?es = "[BeginLoad, CompleteLoad, StartRequest, RequestUnload (Drain 10) (MonotonicMillis 5)]"
  have step: "lifecycle_reachable s \<Longrightarrow> event_ok e \<Longrightarrow> lifecycle_reachable (snd (lifecycle_apply e s))" for s e
    by (metis lifecycle_reachable.step lifecycle_step.call surjective_pairing)
  have "lifecycle_reachable (Draining 1 \<lparr>dw_started_at = MonotonicMillis 5, dw_timeout = 10\<rparr>)"
    using step [OF step [OF step [OF step [OF lifecycle_reachable.new]]],
        of BeginLoad CompleteLoad StartRequest "RequestUnload (Drain 10) (MonotonicMillis 5)"]
    by simp
  from lifecycle_drain_bounded [OF this, of "MonotonicMillis 15"] show ?thesis by simp
qed

end
