(* ===== verification/Task_Graph.thy ===== *)
theory Task_Graph
  imports Contracts
begin

section \<open>Task graphs: data and validation\<close>

text \<open>
  The data model of \<open>crates/features/task-graph/src/lib.rs\<close> and \<open>validate_graph\<close>: the checks
  of node identities and dependency edges, the incoming-edge counts, the seeding of the queue
  and the traversal that consumes it, each loop with the bounds checks of the caller-owned
  scratch. The contents the scratch buffers are left with are not part of the result.
  The proofs about the traversal are in the theory \<open>Graph_Acyclicity\<close>.
\<close>

subsection \<open>Nodes, dependencies and artifacts\<close>

datatype task_kind =
    KindDraft | KindReview | KindCompileCheck | KindValidate | KindNormalizeDiagnostics
  | KindRevise | KindAggregate | KindOther u16

datatype artifact_kind = ArtText | ArtSourceCode | ArtDiagnostics | ArtTokens | ArtOther u16

datatype artifact_role =
    RoleSpecification | RoleDraft | RoleRawDiagnostics | RoleNormalizedDiagnostics | RoleReview
  | RoleRevision | RoleFinalValidation | RoleOther u16

record task_output_contract =
  oc_kind :: artifact_kind
  oc_maximum_bytes :: u64

datatype model_policy =
    PolicyExact model_id
  | PolicyPreferredBackend backend_id
  | PolicyAnyCompatible
  | PolicyDeterministic

record task_budget =
  tb_maximum_input_tokens :: u32
  tb_maximum_output_tokens :: u32
  tb_maximum_attempts :: u16

record task_node =
  tn_id :: task_id
  tn_kind :: task_kind
  tn_model_policy :: model_policy
  tn_budget :: task_budget
  tn_output :: task_output_contract

record task_dependency =
  td_prerequisite :: task_id
  td_dependent :: task_id

record artifact_reference =
  ar_id :: artifact_id
  ar_kind :: artifact_kind
  ar_role :: artifact_role

record task_artifact_input =
  ti_consumer :: task_id
  ti_artifact :: artifact_reference

record task_artifact_output =
  to_producer :: task_id
  to_artifact :: artifact_reference

record artifact_flow =
  af_workflow_inputs :: "artifact_reference list"
  af_task_inputs :: "task_artifact_input list"
  af_task_outputs :: "task_artifact_output list"

record task_graph =
  tg_nodes :: "task_node list"
  tg_dependencies :: "task_dependency list"

definition graph_node :: "task_graph \<Rightarrow> task_id \<Rightarrow> task_node option" where
  "graph_node g task = find (\<lambda>node. tn_id node = task) (tg_nodes g)"

definition node_index :: "task_graph \<Rightarrow> task_id \<Rightarrow> usize option" where
  "node_index g task = position (\<lambda>node. tn_id node = task) (tg_nodes g)"

record graph_validation_scratch =
  gs_incoming_counts :: "u32 list"
  gs_queue :: "usize list"

subsection \<open>Attempts, status and errors\<close>

record task_attempt =
  at_task :: task_id
  at_number :: u16

datatype task_status =
    TaskPending | TaskRunning | TaskSucceeded | TaskFailed | TaskExhausted | TaskCancelled
  | TaskBlocked

datatype task_graph_error =
    DuplicateTask task_id
  | DuplicateDependency task_dependency
  | UnknownTask task_id
  | SelfDependency task_id
  | CycleDetected
  | GraphCapacityExhausted capacity_exhausted
  | StateLengthMismatch usize usize
  | InvalidTaskTransition task_id task_status
  | AttemptLimitReached task_id
  | DuplicateWorkflowInput artifact_id
  | WorkflowInputProducedByTask artifact_id
  | DuplicateArtifactProducer artifact_id
  | MissingTaskOutput task_id
  | DuplicateTaskOutput task_id
  | TaskOutputKindMismatch task_id artifact_kind artifact_kind
  | UnknownArtifact artifact_id
  | ArtifactReferenceMismatch artifact_reference artifact_reference
  | DuplicateTaskArtifactInput task_artifact_input
  | SelfArtifactConsumption task_id artifact_id
  | MissingArtifactDependency task_id task_id artifact_id
  | InvalidAttempt task_attempt "task_attempt option" task_status

definition node_capacity :: "usize \<Rightarrow> usize \<Rightarrow> task_graph_error" where
  "node_capacity required available = GraphCapacityExhausted
     (capacity_exhausted_new TaskNodes (usize_to_u64 required) (usize_to_u64 available))"

subsection \<open>Structural checks\<close>

definition validate_scratch :: "usize \<Rightarrow> graph_validation_scratch \<Rightarrow> task_graph_error + unit" where
  "validate_scratch required scratch =
     (let available = min (length (gs_incoming_counts scratch)) (length (gs_queue scratch))
      in if available < required then Inl (node_capacity required available) else Inr ())"

definition validate_nodes :: "task_node list \<Rightarrow> task_graph_error + unit" where
  "validate_nodes nodes = try_tails (\<lambda>left tail.
     if \<exists>right \<in> set tail. tn_id right = tn_id left then Inl (DuplicateTask (tn_id left))
     else Inr ()) nodes"

definition validate_dependencies :: "task_graph \<Rightarrow> task_graph_error + unit" where
  "validate_dependencies g = try_tails (\<lambda>dependency tail.
     if graph_node g (td_prerequisite dependency) = None
     then Inl (UnknownTask (td_prerequisite dependency))
     else if graph_node g (td_dependent dependency) = None
     then Inl (UnknownTask (td_dependent dependency))
     else if td_prerequisite dependency = td_dependent dependency
     then Inl (SelfDependency (td_prerequisite dependency))
     else if dependency \<in> set tail then Inl (DuplicateDependency dependency)
     else Inr ()) (tg_dependencies g)"

subsection \<open>The traversal\<close>

definition write_queue :: "usize list \<Rightarrow> usize \<Rightarrow> usize \<Rightarrow> task_graph_error + usize list" where
  "write_queue queue pos value =
     (if pos < length queue then Inr (queue[pos := value])
      else Inl (node_capacity (usize_saturating_add pos 1) (length queue)))"

text \<open>One iteration of the loop that counts incoming edges.\<close>

definition count_dependency ::
    "task_graph \<Rightarrow> u32 list \<Rightarrow> task_dependency \<Rightarrow> task_graph_error + u32 list" where
  "count_dependency g counts dependency =
     (case node_index g (td_dependent dependency) of
        None \<Rightarrow> Inl (UnknownTask (td_dependent dependency))
      | Some dependent_index \<Rightarrow>
          (case slice_get counts dependent_index of
             None \<Rightarrow> Inl (node_capacity (usize_saturating_add dependent_index 1) (length counts))
           | Some current \<Rightarrow>
               (case checked_add current 1 of
                  None \<Rightarrow> Inl (GraphCapacityExhausted
                            (capacity_exhausted_new TaskEdges (2 ^ 32) (ucast current)))
                | Some next \<Rightarrow> Inr (counts[dependent_index := next]))))"

record kahn_state =
  ks_counts :: "u32 list"
  ks_queue :: "usize list"
  ks_queue_length :: usize

text \<open>One iteration of the loop that seeds the queue with the nodes without incoming edges.\<close>

definition seed_node :: "kahn_state \<Rightarrow> usize \<times> u32 \<Rightarrow> task_graph_error + kahn_state" where
  "seed_node k entry =
     (if snd entry = 0
      then (case write_queue (ks_queue k) (ks_queue_length k) (fst entry) of
              Inl e \<Rightarrow> Inl e
            | Inr queue \<Rightarrow>
                Inr (k\<lparr>ks_queue := queue, ks_queue_length := ks_queue_length k + 1\<rparr>))
      else Inr k)"

text \<open>One iteration of the inner loop over the edges that leave the visited node.\<close>

definition relax_dependency ::
    "task_graph \<Rightarrow> kahn_state \<Rightarrow> task_dependency \<Rightarrow> task_graph_error + kahn_state" where
  "relax_dependency g k dependency =
     (case node_index g (td_dependent dependency) of
        None \<Rightarrow> Inl (UnknownTask (td_dependent dependency))
      | Some dependent_index \<Rightarrow>
          (case slice_get (ks_counts k) dependent_index of
             None \<Rightarrow> Inl (node_capacity (usize_saturating_add dependent_index 1)
                      (length (ks_counts k)))
           | Some count \<Rightarrow>
               if count = 0 then Inl (DuplicateDependency dependency)
               else let k' = k\<lparr>ks_counts := (ks_counts k)[dependent_index := count - 1]\<rparr>
                    in if count - 1 = 0
                       then (case write_queue (ks_queue k') (ks_queue_length k') dependent_index of
                               Inl e \<Rightarrow> Inl e
                             | Inr queue \<Rightarrow> Inr (k'\<lparr>ks_queue := queue,
                                  ks_queue_length := ks_queue_length k' + 1\<rparr>))
                       else Inr k'))"

lemma relax_dependency_queue:
  "relax_dependency g k d = Inr k' \<Longrightarrow> length (ks_queue k') = length (ks_queue k)"
  by (auto simp: relax_dependency_def write_queue_def Let_def
      split: option.splits if_splits sum.splits)

lemma relax_fold_queue:
  "try_fold (relax_dependency g) k ds = Inr k' \<Longrightarrow> length (ks_queue k') = length (ks_queue k)"
  by (rule try_fold_invariant [where P = "\<lambda>x. length (ks_queue x) = length (ks_queue k)"])
    (auto dest: relax_dependency_queue)

text \<open>
  The \<open>while\<close> loop. Every iteration reads \<open>queue[head]\<close>, so the distance from \<open>head\<close> to the
  end of the queue buffer shrinks.
\<close>

function kahn_loop ::
    "task_graph \<Rightarrow> kahn_state \<Rightarrow> usize \<Rightarrow> usize \<Rightarrow> task_graph_error + usize" where
  "kahn_loop g k head visited =
     (if head < ks_queue_length k
      then (case slice_get (ks_queue k) head of
              None \<Rightarrow> Inl (node_capacity (usize_saturating_add head 1) (length (ks_queue k)))
            | Some index \<Rightarrow>
                (case slice_get (tg_nodes g) index of
                   None \<Rightarrow> Inl (node_capacity (usize_saturating_add index 1) (length (tg_nodes g)))
                 | Some node \<Rightarrow>
                     (case try_fold (relax_dependency g) k
                             (filter (\<lambda>d. td_prerequisite d = tn_id node) (tg_dependencies g)) of
                        Inl e \<Rightarrow> Inl e
                      | Inr k' \<Rightarrow> kahn_loop g k' (head + 1) (visited + 1))))
      else Inr visited)"
  by pat_completeness auto

termination
  by (relation "measure (\<lambda>(g, k, head, visited). length (ks_queue k) - head)")
    (auto dest: relax_fold_queue)

declare kahn_loop.simps [simp del]

definition validate_graph :: "task_graph \<Rightarrow> graph_validation_scratch \<Rightarrow> task_graph_error + unit" where
  "validate_graph g scratch =
     (let node_count = length (tg_nodes g) in
      bind_ok (validate_scratch node_count scratch) (\<lambda>_.
      bind_ok (validate_nodes (tg_nodes g)) (\<lambda>_.
      bind_ok (validate_dependencies g) (\<lambda>_.
      if length (gs_incoming_counts scratch) < node_count
      then Inl (node_capacity node_count (length (gs_incoming_counts scratch)))
      else
      bind_ok (try_fold (count_dependency g) (replicate node_count 0) (tg_dependencies g)) (\<lambda>counts.
      bind_ok (try_fold seed_node
                 \<lparr>ks_counts = counts, ks_queue = gs_queue scratch, ks_queue_length = 0\<rparr>
                 (enumerate 0 counts)) (\<lambda>k.
      bind_ok (kahn_loop g k 0 0) (\<lambda>visited.
      if visited = node_count then Inr () else Inl CycleDetected)))))))"

end
