(* ===== verification/Graph_Acyclicity.thy ===== *)
theory Graph_Acyclicity
  imports Task_Graph
begin

section \<open>Graph validation decides acyclicity\<close>

text \<open>
  \<open>validate_graph\<close> accepts exactly the graphs with distinct known tasks, distinct edges between
  different tasks and no cycle. The traversal is analysed over node indices: \<open>incoming\<close>
  counts the edges into a node from nodes not yet visited, and \<open>kahn_inv\<close> says that the
  counters hold exactly these numbers, that the queue holds exactly the nodes whose counter
  is zero, each once, and that every queued node comes after all its prerequisites.
\<close>

subsection \<open>The specification\<close>

definition dependency_edges :: "task_graph \<Rightarrow> (task_id \<times> task_id) set" where
  "dependency_edges g = (\<lambda>d. (td_prerequisite d, td_dependent d)) ` set (tg_dependencies g)"

definition graph_ids :: "task_graph \<Rightarrow> task_id set" where
  "graph_ids g = tn_id ` set (tg_nodes g)"

definition graph_wf :: "task_graph \<Rightarrow> bool" where
  "graph_wf g \<longleftrightarrow> distinct (map tn_id (tg_nodes g)) \<and> distinct (tg_dependencies g)
     \<and> dependency_edges g \<subseteq> graph_ids g \<times> graph_ids g - Id"

subsection \<open>The structural checks\<close>

lemma graph_node_None: "graph_node g t = None \<longleftrightarrow> t \<notin> graph_ids g"
  by (auto simp: graph_node_def graph_ids_def find_None_iff)

lemma node_index_None: "node_index g t = None \<longleftrightarrow> t \<notin> graph_ids g"
  by (auto simp: node_index_def graph_ids_def position_None)

lemma node_index_Some:
  "node_index g t = Some i \<Longrightarrow> i < length (tg_nodes g) \<and> tn_id (tg_nodes g ! i) = t"
  by (simp add: node_index_def position_Some)

lemma node_index_nth:
  "distinct (map tn_id (tg_nodes g)) \<Longrightarrow> i < length (tg_nodes g)
     \<Longrightarrow> node_index g (tn_id (tg_nodes g ! i)) = Some i"
  by (simp add: node_index_def position_distinct)

lemma validate_nodes_iff: "validate_nodes nodes = Inr () \<longleftrightarrow> distinct (map tn_id nodes)"
proof -
  have same: "(\<exists>right \<in> set zs. tn_id right = tn_id x) \<longleftrightarrow> tn_id x \<in> tn_id ` set zs" for x zs
    by force
  have "validate_nodes nodes = Inr () \<longleftrightarrow>
      (\<forall>ys x zs. nodes = ys @ x # zs \<longrightarrow> tn_id x \<notin> tn_id ` set zs)"
    unfolding validate_nodes_def try_tails_Inr same by auto
  then show ?thesis by (simp add: try_tails_distinct)
qed

lemma validate_dependencies_iff:
  "validate_dependencies g = Inr () \<longleftrightarrow>
     distinct (tg_dependencies g) \<and> dependency_edges g \<subseteq> graph_ids g \<times> graph_ids g - Id"
proof -
  let ?ok = "\<lambda>d. td_prerequisite d \<in> graph_ids g \<and> td_dependent d \<in> graph_ids g
    \<and> td_prerequisite d \<noteq> td_dependent d"
  have "validate_dependencies g = Inr () \<longleftrightarrow>
      (\<forall>ys x zs. tg_dependencies g = ys @ x # zs \<longrightarrow> ?ok x \<and> x \<notin> set zs)"
    unfolding validate_dependencies_def try_tails_Inr graph_node_None by auto
  also have "\<dots> \<longleftrightarrow> (\<forall>x \<in> set (tg_dependencies g). ?ok x)
      \<and> (\<forall>ys x zs. tg_dependencies g = ys @ x # zs \<longrightarrow> x \<notin> set zs)"
    by (rule all_splits)
  also have "(\<forall>ys x zs. tg_dependencies g = ys @ x # zs \<longrightarrow> x \<notin> set zs)
      \<longleftrightarrow> distinct (tg_dependencies g)"
    using try_tails_distinct [of "tg_dependencies g" id] by simp
  also have "(\<forall>x \<in> set (tg_dependencies g). ?ok x)
      \<longleftrightarrow> dependency_edges g \<subseteq> graph_ids g \<times> graph_ids g - Id"
    by (auto simp: dependency_edges_def)
  finally show ?thesis by blast
qed

subsection \<open>Edges over indices\<close>

definition index_of :: "task_graph \<Rightarrow> task_id \<Rightarrow> usize" where
  "index_of g t = (case node_index g t of None \<Rightarrow> 0 | Some i \<Rightarrow> i)"

abbreviation source_index :: "task_graph \<Rightarrow> task_dependency \<Rightarrow> usize" where
  "source_index g d \<equiv> index_of g (td_prerequisite d)"

abbreviation target_index :: "task_graph \<Rightarrow> task_dependency \<Rightarrow> usize" where
  "target_index g d \<equiv> index_of g (td_dependent d)"

definition edges_into :: "task_graph \<Rightarrow> task_dependency list \<Rightarrow> usize \<Rightarrow> nat" where
  "edges_into g ds j = length (filter (\<lambda>d. target_index g d = j) ds)"

definition incoming :: "task_graph \<Rightarrow> usize set \<Rightarrow> usize \<Rightarrow> nat" where
  "incoming g visited j =
     edges_into g (filter (\<lambda>d. source_index g d \<notin> visited) (tg_dependencies g)) j"

lemma graph_wf_edge:
  assumes "graph_wf g" and "d \<in> set (tg_dependencies g)"
  shows "node_index g (td_prerequisite d) = Some (source_index g d)"
    and "node_index g (td_dependent d) = Some (target_index g d)"
    and "source_index g d < length (tg_nodes g)" and "target_index g d < length (tg_nodes g)"
proof -
  have "td_prerequisite d \<in> graph_ids g" "td_dependent d \<in> graph_ids g"
    using assms by (auto simp: graph_wf_def dependency_edges_def)
  then obtain i j where ij: "node_index g (td_prerequisite d) = Some i"
      "node_index g (td_dependent d) = Some j"
    using node_index_None by (metis option.exhaust)
  then show "node_index g (td_prerequisite d) = Some (source_index g d)"
    and "node_index g (td_dependent d) = Some (target_index g d)"
    and "source_index g d < length (tg_nodes g)" and "target_index g d < length (tg_nodes g)"
    using node_index_Some by (auto simp: index_of_def)
qed

lemma source_index_iff:
  assumes "graph_wf g" and "u < length (tg_nodes g)" and "d \<in> set (tg_dependencies g)"
  shows "td_prerequisite d = tn_id (tg_nodes g ! u) \<longleftrightarrow> source_index g d = u"
proof
  assume "td_prerequisite d = tn_id (tg_nodes g ! u)"
  then show "source_index g d = u"
    using assms node_index_nth by (auto simp: graph_wf_def index_of_def)
next
  assume "source_index g d = u"
  then show "td_prerequisite d = tn_id (tg_nodes g ! u)"
    using graph_wf_edge(1) [OF assms(1,3)] node_index_Some by fastforce
qed

lemma edges_into_Cons:
  "edges_into g (d # ds) j = (if target_index g d = j then 1 else 0) + edges_into g ds j"
  by (simp add: edges_into_def)

lemma edges_into_Nil [simp]: "edges_into g [] j = 0"
  by (simp add: edges_into_def)

lemma edges_into_le: "edges_into g ds j \<le> length ds"
  by (simp add: edges_into_def)

lemma incoming_visit:
  assumes "u \<notin> visited"
  shows "incoming g visited j = incoming g (insert u visited) j
    + edges_into g (filter (\<lambda>d. source_index g d = u) (tg_dependencies g)) j"
  using length_filter_split [OF assms, of "\<lambda>d. target_index g d = j" "\<lambda>d. source_index g d"]
  unfolding incoming_def edges_into_def filter_filter by (simp add: conj_commute)

lemma incoming_zero:
  "incoming g visited j = 0 \<longleftrightarrow>
     (\<forall>d \<in> set (tg_dependencies g). target_index g d = j \<longrightarrow> source_index g d \<in> visited)"
  by (auto simp: incoming_def edges_into_def filter_empty_conv)

subsection \<open>Counting the incoming edges\<close>

lemma count_dependencies:
  assumes "graph_wf g" and "length (tg_dependencies g) < 2 ^ 32"
  shows "\<exists>counts. try_fold (count_dependency g) (replicate (length (tg_nodes g)) 0)
        (tg_dependencies g) = Inr counts
      \<and> length counts = length (tg_nodes g)
      \<and> (\<forall>j < length (tg_nodes g). unat (counts ! j) = incoming g {} j)"
proof -
  let ?n = "length (tg_nodes g)"
  have "\<exists>counts'. try_fold (count_dependency g) counts ds = Inr counts'
      \<and> length counts' = ?n
      \<and> (\<forall>j < ?n. unat (counts' ! j) = unat (counts ! j) + edges_into g ds j)"
    if "set ds \<subseteq> set (tg_dependencies g)" and "length counts = ?n"
      and "\<forall>j < ?n. unat (counts ! j) + length ds < 2 ^ 32" for ds counts
    using that
  proof (induction ds arbitrary: counts)
    case (Cons d ds)
    have d: "node_index g (td_dependent d) = Some (target_index g d)" "target_index g d < ?n"
      using graph_wf_edge [OF assms(1)] Cons.prems(1) by auto
    have room: "unat (counts ! target_index g d) + 1 < 2 ^ 32"
      using Cons.prems(3) d(2) by fastforce
    let ?counts = "counts[target_index g d := counts ! target_index g d + 1]"
    have step: "count_dependency g counts d = Inr ?counts"
      using d Cons.prems(2) room by (simp add: count_dependency_def checked_add_def)
    have unat: "unat (?counts ! j) = unat (counts ! j) + (if target_index g d = j then 1 else 0)"
      if "j < ?n" for j
      using that Cons.prems(2) room by (auto simp: nth_list_update unat_word_ariths)
    obtain counts' where rest: "try_fold (count_dependency g) ?counts ds = Inr counts'"
        "length counts' = ?n" "\<forall>j < ?n. unat (counts' ! j) = unat (?counts ! j) + edges_into g ds j"
      using Cons.IH [of ?counts] Cons.prems unat by fastforce
    with step unat show ?case by (simp add: edges_into_Cons)
  qed simp
  from this [of "tg_dependencies g" "replicate ?n 0"] assms(2)
  show ?thesis by (simp add: incoming_def)
qed

subsection \<open>The queue\<close>

text \<open>The queue holds, each once, the nodes of \<open>zeros\<close>.\<close>

definition queue_holds :: "usize \<Rightarrow> usize set \<Rightarrow> kahn_state \<Rightarrow> bool" where
  "queue_holds n zeros k \<longleftrightarrow> length (ks_counts k) = n \<and> n \<le> length (ks_queue k)
     \<and> ks_queue_length k \<le> length (ks_queue k)
     \<and> distinct (take (ks_queue_length k) (ks_queue k))
     \<and> set (take (ks_queue_length k) (ks_queue k)) = zeros \<and> zeros \<subseteq> {..<n}"

abbreviation zero_nodes :: "usize \<Rightarrow> kahn_state \<Rightarrow> usize set" where
  "zero_nodes n k \<equiv> {j. j < n \<and> ks_counts k ! j = 0}"

lemma queue_length_card: "queue_holds n zeros k \<Longrightarrow> ks_queue_length k = card zeros"
  unfolding queue_holds_def by (metis distinct_card length_take min.absorb2)

lemma queue_has_room:
  assumes "queue_holds n zeros k" and "j < n" and "j \<notin> zeros"
  shows "ks_queue_length k < n"
proof -
  have "card zeros < card {..<n}"
    using assms by (intro psubset_card_mono) (auto simp: queue_holds_def)
  with queue_length_card [OF assms(1)] show ?thesis by simp
qed

lemma enqueue:
  assumes "queue_holds n zeros k" and "j < n" and "j \<notin> zeros"
  defines "k' \<equiv> k\<lparr>ks_queue := (ks_queue k)[ks_queue_length k := j],
      ks_queue_length := ks_queue_length k + 1\<rparr>"
  shows "write_queue (ks_queue k) (ks_queue_length k) j
      = Inr ((ks_queue k)[ks_queue_length k := j])"
    and "queue_holds n (insert j zeros) k'"
    and "take (ks_queue_length k) (ks_queue k') = take (ks_queue_length k) (ks_queue k)"
    and "ks_queue k' ! ks_queue_length k = j"
proof -
  let ?l = "ks_queue_length k" and ?q = "ks_queue k"
  have l: "?l < length ?q"
    using queue_has_room [OF assms(1-3)] assms(1) by (simp add: queue_holds_def)
  then show "write_queue ?q ?l j = Inr (?q[?l := j])" by (simp add: write_queue_def)
  have t: "take (?l + 1) (?q[?l := j]) = take ?l ?q @ [j]"
    using l by (simp add: take_Suc_conv_app_nth)
  then show "queue_holds n (insert j zeros) k'"
    using assms(1-3) l by (auto simp: queue_holds_def k'_def)
  show "take ?l (ks_queue k') = take ?l ?q" "ks_queue k' ! ?l = j"
    using l by (simp_all add: k'_def)
qed

subsection \<open>Seeding\<close>

lemma seed_fold:
  assumes "queue_holds n {j. j < i \<and> ks_counts k ! j = 0} k" and "ks_counts k = cs"
    and "i + length (drop i cs) = n"
  shows "\<exists>k'. try_fold seed_node k (enumerate i (drop i cs)) = Inr k'
      \<and> ks_counts k' = cs \<and> queue_holds n (zero_nodes n k') k'"
  using assms
proof (induction "drop i cs" arbitrary: i k)
  case Nil
  then have "n = i" by simp
  with Nil show ?case by simp
next
  case (Cons c ds)
  have len: "i < length cs" using Cons.hyps(2) by (cases "i < length cs") auto
  then have "drop i cs = cs ! i # drop (Suc i) cs" by (simp add: Cons_nth_drop_Suc)
  with len have i: "i < length cs" "cs ! i = c" "drop (Suc i) cs = ds" "i < n"
    using Cons.hyps(2) Cons.prems(3) by auto
  have ds: "drop i cs = c # ds" using Cons.hyps(2) by simp
  show ?case
  proof (cases "c = 0")
    case True
    let ?z = "{j. j < i \<and> ks_counts k ! j = 0}"
    note e = enqueue [OF Cons.prems(1) i(4), simplified]
    let ?k = "k\<lparr>ks_queue := (ks_queue k)[ks_queue_length k := i],
        ks_queue_length := Suc (ks_queue_length k)\<rparr>"
    have z: "insert i ?z = {j. j < Suc i \<and> ks_counts ?k ! j = 0}"
      using True i Cons.prems(2) by (auto simp: less_Suc_eq)
    have "queue_holds n {j. j < Suc i \<and> ks_counts ?k ! j = 0} ?k"
      using e(2) unfolding z by simp
    from Cons.hyps(1) [OF i(3) [symmetric] this] Cons.prems(2,3) i e(1) True
    show ?thesis by (simp add: ds seed_node_def)
  next
    case False
    have "{j. j < i \<and> ks_counts k ! j = 0} = {j. j < Suc i \<and> ks_counts k ! j = 0}"
      using False i Cons.prems(2) by (auto simp: less_Suc_eq)
    with Cons.prems(1) have "queue_holds n {j. j < Suc i \<and> ks_counts k ! j = 0} k" by simp
    from Cons.hyps(1) [OF i(3) [symmetric] this] Cons.prems(2,3) i False
    show ?thesis by (simp add: ds seed_node_def)
  qed
qed

subsection \<open>Relaxing the edges of a visited node\<close>

lemma relax_step:
  assumes wf: "graph_wf g" and d: "d \<in> set (tg_dependencies g)"
    and q: "queue_holds (length (tg_nodes g)) (zero_nodes (length (tg_nodes g)) k) k"
    and count: "\<forall>j < length (tg_nodes g). unat (ks_counts k ! j) = base j + edges_into g (d # ds) j"
  shows "\<exists>k'. relax_dependency g k d = Inr k'
      \<and> queue_holds (length (tg_nodes g)) (zero_nodes (length (tg_nodes g)) k') k'
      \<and> (\<forall>j < length (tg_nodes g). unat (ks_counts k' ! j) = base j + edges_into g ds j)
      \<and> ks_queue_length k \<le> ks_queue_length k'
      \<and> take (ks_queue_length k) (ks_queue k') = take (ks_queue_length k) (ks_queue k)
      \<and> (\<forall>i. ks_queue_length k \<le> i \<and> i < ks_queue_length k' \<longrightarrow> base (ks_queue k' ! i) = 0)"
proof -
  let ?n = "length (tg_nodes g)" and ?j = "target_index g d"
  have j: "node_index g (td_dependent d) = Some ?j" "?j < ?n"
    using graph_wf_edge [OF wf d] by auto
  have len: "length (ks_counts k) = ?n" using q by (simp add: queue_holds_def)
  let ?c = "ks_counts k ! ?j"
  have c: "unat ?c = base ?j + 1 + edges_into g ds ?j"
    using count j(2) by (simp add: edges_into_Cons)
  then have c0: "?c \<noteq> 0" by auto
  define k1 where "k1 = k\<lparr>ks_counts := (ks_counts k)[?j := ?c - 1]\<rparr>"
  have count1: "unat (ks_counts k1 ! i) = base i + edges_into g ds i" if "i < ?n" for i
    using that count c unat_minus_one [OF c0] len
    by (cases "i = ?j") (auto simp: k1_def edges_into_Cons)
  have zeros1: "zero_nodes ?n k1 = (if ?c - 1 = 0 then insert ?j (zero_nodes ?n k) else zero_nodes ?n k)"
    using c0 j(2) len by (auto simp: k1_def nth_list_update)
  have q1: "queue_holds ?n (zero_nodes ?n k) k1"
    using q by (simp add: queue_holds_def k1_def)
  have relax: "relax_dependency g k d =
      (if ?c - 1 = 0
       then (case write_queue (ks_queue k1) (ks_queue_length k1) ?j of
               Inl e \<Rightarrow> Inl e
             | Inr queue \<Rightarrow> Inr (k1\<lparr>ks_queue := queue, ks_queue_length := ks_queue_length k1 + 1\<rparr>))
       else Inr k1)"
    unfolding relax_dependency_def k1_def using j len c0 by (simp add: Let_def)
  have same: "ks_queue_length k1 = ks_queue_length k" "ks_queue k1 = ks_queue k"
    by (simp_all add: k1_def)
  show ?thesis
  proof (cases "?c - 1 = 0")
    case True
    have new: "?j \<notin> zero_nodes ?n k" using c0 by simp
    note e = enqueue [OF q1 j(2) new]
    let ?k' = "k1\<lparr>ks_queue := (ks_queue k1)[ks_queue_length k1 := ?j],
        ks_queue_length := ks_queue_length k1 + 1\<rparr>"
    have step: "relax_dependency g k d = Inr ?k'" unfolding relax using True e(1) by simp
    have z: "zero_nodes ?n k1 = insert ?j (zero_nodes ?n k)" using zeros1 True by simp
    have "unat ?c = 1" using True c0 by (metis eq_iff_diff_eq_0 unat_1)
    with c have "base ?j = 0" by simp
    then have "\<forall>i. ks_queue_length k \<le> i \<and> i < ks_queue_length ?k' \<longrightarrow> base (ks_queue ?k' ! i) = 0"
      using e(4) by (auto simp: same less_Suc_eq)
    then show ?thesis
      using step e(2,3) count1 by (intro exI [of _ ?k']) (simp add: z same)
  next
    case False
    then have "relax_dependency g k d = Inr k1" "zero_nodes ?n k1 = zero_nodes ?n k"
      using relax zeros1 by auto
    with q1 count1 show ?thesis by (intro exI [of _ k1]) (simp add: same)
  qed
qed

lemma relax_fold:
  assumes wf: "graph_wf g" and "set ds \<subseteq> set (tg_dependencies g)"
    and "queue_holds (length (tg_nodes g)) (zero_nodes (length (tg_nodes g)) k) k"
    and "\<forall>j < length (tg_nodes g). unat (ks_counts k ! j) = base j + edges_into g ds j"
  shows "\<exists>k'. try_fold (relax_dependency g) k ds = Inr k'
      \<and> queue_holds (length (tg_nodes g)) (zero_nodes (length (tg_nodes g)) k') k'
      \<and> (\<forall>j < length (tg_nodes g). unat (ks_counts k' ! j) = base j)
      \<and> ks_queue_length k \<le> ks_queue_length k'
      \<and> take (ks_queue_length k) (ks_queue k') = take (ks_queue_length k) (ks_queue k)
      \<and> (\<forall>i. ks_queue_length k \<le> i \<and> i < ks_queue_length k' \<longrightarrow> base (ks_queue k' ! i) = 0)"
  using assms(2-)
proof (induction ds arbitrary: k)
  case (Cons d ds)
  obtain k1 where k1: "relax_dependency g k d = Inr k1"
    "queue_holds (length (tg_nodes g)) (zero_nodes (length (tg_nodes g)) k1) k1"
    "\<forall>j < length (tg_nodes g). unat (ks_counts k1 ! j) = base j + edges_into g ds j"
    "ks_queue_length k \<le> ks_queue_length k1"
    "take (ks_queue_length k) (ks_queue k1) = take (ks_queue_length k) (ks_queue k)"
    "\<forall>i. ks_queue_length k \<le> i \<and> i < ks_queue_length k1 \<longrightarrow> base (ks_queue k1 ! i) = 0"
    using relax_step [OF wf _ Cons.prems(2,3)] Cons.prems(1) by auto
  obtain k2 where k2: "try_fold (relax_dependency g) k1 ds = Inr k2"
    "queue_holds (length (tg_nodes g)) (zero_nodes (length (tg_nodes g)) k2) k2"
    "\<forall>j < length (tg_nodes g). unat (ks_counts k2 ! j) = base j"
    "ks_queue_length k1 \<le> ks_queue_length k2"
    "take (ks_queue_length k1) (ks_queue k2) = take (ks_queue_length k1) (ks_queue k1)"
    "\<forall>i. ks_queue_length k1 \<le> i \<and> i < ks_queue_length k2 \<longrightarrow> base (ks_queue k2 ! i) = 0"
    using Cons.IH [OF _ k1(2,3)] Cons.prems(1) by auto
  have t: "take (ks_queue_length k) (ks_queue k2) = take (ks_queue_length k) (ks_queue k)"
    using arg_cong [OF k2(5), of "take (ks_queue_length k)"] k1(4,5) by (simp add: min_absorb1)
  have "ks_queue k2 ! i = ks_queue k1 ! i" if "i < ks_queue_length k1" for i
    using arg_cong [OF k2(5), of "\<lambda>xs. xs ! i"] that by simp
  with k1(6) k2(6)
  have "\<forall>i. ks_queue_length k \<le> i \<and> i < ks_queue_length k2 \<longrightarrow> base (ks_queue k2 ! i) = 0"
    by (metis linorder_not_le)
  with k1(1,4) k2(1-4) t show ?case by (intro exI [of _ k2]) simp
qed simp

subsection \<open>The traversal\<close>

definition kahn_inv :: "task_graph \<Rightarrow> usize \<Rightarrow> kahn_state \<Rightarrow> bool" where
  "kahn_inv g head k \<longleftrightarrow>
     queue_holds (length (tg_nodes g)) (zero_nodes (length (tg_nodes g)) k) k
     \<and> head \<le> ks_queue_length k
     \<and> (\<forall>j < length (tg_nodes g). unat (ks_counts k ! j) = incoming g (set (take head (ks_queue k))) j)
     \<and> (\<forall>i < ks_queue_length k. incoming g (set (take i (ks_queue k))) (ks_queue k ! i) = 0)"

lemma incoming_zero_mono:
  "incoming g visited j = 0 \<Longrightarrow> visited \<subseteq> visited' \<Longrightarrow> incoming g visited' j = 0"
  by (auto simp: incoming_zero)

lemma kahn_visit:
  assumes wf: "graph_wf g" and inv: "kahn_inv g head k" and head: "head < ks_queue_length k"
  defines "u \<equiv> ks_queue k ! head"
  shows "u < length (tg_nodes g)"
    and "\<exists>k'. try_fold (relax_dependency g) k
          (filter (\<lambda>d. td_prerequisite d = tn_id (tg_nodes g ! u)) (tg_dependencies g)) = Inr k'
        \<and> kahn_inv g (head + 1) k'"
proof -
  let ?n = "length (tg_nodes g)" and ?q = "ks_queue k" and ?l = "ks_queue_length k"
  have q: "queue_holds ?n (zero_nodes ?n k) k" using inv by (simp add: kahn_inv_def)
  then have len: "?l \<le> length ?q" and dist: "distinct (take ?l ?q)"
    and set: "set (take ?l ?q) = zero_nodes ?n k" by (simp_all add: queue_holds_def)
  have "u \<in> set (take ?l ?q)"
    using head len by (auto simp: u_def in_set_conv_nth intro!: exI [of _ head])
  with set show u: "u < ?n" by auto
  have take: "take (head + 1) ?q = take head ?q @ [u]"
    using head len by (simp add: u_def take_Suc_conv_app_nth)
  have "take (head + 1) ?q = take (head + 1) (take ?l ?q)"
    using head by (simp add: min_absorb1)
  then have "distinct (take (head + 1) ?q)" using dist by (metis distinct_take)
  then have new: "u \<notin> set (take head ?q)" unfolding take by simp
  let ?V = "set (take (head + 1) ?q)"
  let ?ds = "filter (\<lambda>d. td_prerequisite d = tn_id (tg_nodes g ! u)) (tg_dependencies g)"
  have ds: "?ds = filter (\<lambda>d. source_index g d = u) (tg_dependencies g)"
    using source_index_iff [OF wf u] by (intro filter_cong) auto
  have "\<forall>j < ?n. unat (ks_counts k ! j) = incoming g ?V j + edges_into g ?ds j"
    using inv incoming_visit [OF new, of g] unfolding ds take by (simp add: kahn_inv_def)
  from relax_fold [OF wf _ q this]
  obtain k' where k': "try_fold (relax_dependency g) k ?ds = Inr k'"
    "queue_holds ?n (zero_nodes ?n k') k'"
    "\<forall>j < ?n. unat (ks_counts k' ! j) = incoming g ?V j"
    "?l \<le> ks_queue_length k'" "take ?l (ks_queue k') = take ?l ?q"
    "\<forall>i. ?l \<le> i \<and> i < ks_queue_length k' \<longrightarrow> incoming g ?V (ks_queue k' ! i) = 0"
    by auto
  have prefix: "take i (ks_queue k') = take i ?q" if "i \<le> ?l" for i
    using arg_cong [OF k'(5), of "take i"] that by (simp add: min_absorb1)
  have nth: "ks_queue k' ! i = ?q ! i" if "i < ?l" for i
    using arg_cong [OF k'(5), of "\<lambda>xs. xs ! i"] that by simp
  have order: "incoming g (set (take i (ks_queue k'))) (ks_queue k' ! i) = 0"
    if i: "i < ks_queue_length k'" for i
  proof (cases "i < ?l")
    case True
    then show ?thesis using inv by (simp add: kahn_inv_def prefix nth)
  next
    case False
    then have "?V \<subseteq> set (take i (ks_queue k'))"
      using head prefix [of "head + 1"] set_take_subset_set_take [of "head + 1" i "ks_queue k'"]
      by simp
    moreover have "incoming g ?V (ks_queue k' ! i) = 0" using k'(6) i False by simp
    ultimately show ?thesis by (rule incoming_zero_mono [rotated])
  qed
  have "kahn_inv g (head + 1) k'"
    unfolding kahn_inv_def prefix [OF Suc_leI [OF head], unfolded Suc_eq_plus1]
    using k'(2,3,4) head order by simp
  with k'(1) show "\<exists>k'. try_fold (relax_dependency g) k ?ds = Inr k' \<and> kahn_inv g (head + 1) k'"
    by blast
qed

lemma kahn_loop_final:
  assumes "graph_wf g" and "kahn_inv g head k"
  shows "\<exists>k'. kahn_loop g k head visited = Inr (visited + (ks_queue_length k' - head))
    \<and> head \<le> ks_queue_length k' \<and> kahn_inv g (ks_queue_length k') k'"
  using assms(2)
proof (induction "length (tg_nodes g) - head" arbitrary: head k visited rule: less_induct)
  case less
  show ?case
  proof (cases "head < ks_queue_length k")
    case False
    with less.prems have "head = ks_queue_length k" by (simp add: kahn_inv_def)
    with less.prems show ?thesis
      by (intro exI [of _ k]) (simp add: kahn_loop.simps [of g k "ks_queue_length k" visited])
  next
    case True
    let ?u = "ks_queue k ! head"
    from kahn_visit [OF assms(1) less.prems True]
    obtain k' where u: "?u < length (tg_nodes g)"
      and step: "try_fold (relax_dependency g) k
          (filter (\<lambda>d. td_prerequisite d = tn_id (tg_nodes g ! ?u)) (tg_dependencies g)) = Inr k'"
      and inv: "kahn_inv g (head + 1) k'" by blast
    have q: "queue_holds (length (tg_nodes g)) (zero_nodes (length (tg_nodes g)) k) k"
      using less.prems by (simp add: kahn_inv_def)
    then have "ks_queue_length k \<le> length (ks_queue k)" by (simp add: queue_holds_def)
    then have slot: "slice_get (ks_queue k) head = Some ?u" using True by simp
    have "ks_queue_length k \<le> card {..<length (tg_nodes g)}"
      unfolding queue_length_card [OF q] by (rule card_mono) auto
    with True have "length (tg_nodes g) - (head + 1) < length (tg_nodes g) - head" by simp
    from less.hyps [OF this inv, of "visited + 1"]
    obtain k'' where k'': "kahn_loop g k' (head + 1) (visited + 1)
          = Inr (visited + 1 + (ks_queue_length k'' - (head + 1)))"
      "head + 1 \<le> ks_queue_length k''" "kahn_inv g (ks_queue_length k'') k''" by blast
    have "kahn_loop g k head visited = kahn_loop g k' (head + 1) (visited + 1)"
      using True slot u step by (simp add: kahn_loop.simps [of g k head visited])
    with k'' show ?thesis by (intro exI [of _ k'']) simp
  qed
qed

subsection \<open>The traversal visits every node exactly when there is no cycle\<close>

lemma kahn_all_visited_acyclic:
  assumes wf: "graph_wf g" and inv: "kahn_inv g (ks_queue_length k) k"
    and all: "ks_queue_length k = length (tg_nodes g)"
  shows "acyclic (dependency_edges g)"
proof -
  let ?n = "length (tg_nodes g)" and ?q = "ks_queue k"
  have q: "queue_holds ?n (zero_nodes ?n k) k" using inv by (simp add: kahn_inv_def)
  then have dist: "distinct (take ?n ?q)" and len: "?n \<le> length ?q"
    and set: "set (take ?n ?q) = zero_nodes ?n k"
    using all by (simp_all add: queue_holds_def)
  have "card (zero_nodes ?n k) = card {..<?n}"
    using queue_length_card [OF q] all by simp
  then have "zero_nodes ?n k = {..<?n}"
    by (intro card_subset_eq) auto
  with set have full: "set (take ?n ?q) = {..<?n}" by simp
  define rank where "rank t = the_inv_into {..<?n} ((!) (take ?n ?q)) (index_of g t)" for t
  have inj: "inj_on ((!) (take ?n ?q)) {..<?n}"
    using dist len by (intro inj_on_nth) auto
  have rank: "rank t = i" if "i < ?n" "index_of g t = ?q ! i" for t i
    using the_inv_into_f_f [OF inj, of i] that by (simp add: rank_def)
  have "rank a < rank b" if "(a, b) \<in> dependency_edges g" for a b
  proof -
    from that obtain d where d: "d \<in> set (tg_dependencies g)" "a = td_prerequisite d"
      "b = td_dependent d" by (auto simp: dependency_edges_def)
    have "index_of g b \<in> set (take ?n ?q)"
      using graph_wf_edge(4) [OF wf d(1)] by (simp add: full d(3))
    then obtain i where i: "i < ?n" "index_of g b = ?q ! i"
      using len by (auto simp: in_set_conv_nth)
    have "incoming g (set (take i ?q)) (?q ! i) = 0"
      using inv i(1) all by (simp add: kahn_inv_def)
    with d i have "index_of g a \<in> set (take i ?q)" by (auto simp: incoming_zero)
    then obtain i' where i': "i' < i" "index_of g a = ?q ! i'"
      using len i(1) by (auto simp: in_set_conv_nth)
    with i show ?thesis using rank [of i' a] rank [of i b] by simp
  qed
  then show ?thesis
    by (intro acyclicI_order [where f = "\<lambda>t. - int (rank t)"]) auto
qed

lemma kahn_left_over_cycle:
  assumes wf: "graph_wf g" and inv: "kahn_inv g (ks_queue_length k) k"
    and some: "ks_queue_length k < length (tg_nodes g)"
  shows "\<not> acyclic (dependency_edges g)"
proof
  assume "acyclic (dependency_edges g)"
  then have wfE: "wf (dependency_edges g)"
    by (intro finite_acyclic_wf) (simp_all add: dependency_edges_def)
  let ?n = "length (tg_nodes g)" and ?V = "zero_nodes (length (tg_nodes g)) k"
  have q: "queue_holds ?n ?V k" using inv by (simp add: kahn_inv_def)
  then have V: "set (take (ks_queue_length k) (ks_queue k)) = ?V" by (simp add: queue_holds_def)
  let ?R = "{tn_id (tg_nodes g ! j) | j. j < ?n \<and> j \<notin> ?V}"
  have "card ?V < ?n" unfolding queue_length_card [OF q, symmetric] by (rule some)
  then have "?V \<noteq> {..<?n}" by (metis card_lessThan less_irrefl)
  then obtain j where "j < ?n" "j \<notin> ?V" by blast
  then have "tn_id (tg_nodes g ! j) \<in> ?R" by blast
  obtain z where z: "z \<in> ?R" and minimal: "\<And>y. (y, z) \<in> dependency_edges g \<Longrightarrow> y \<notin> ?R"
    by (rule wfE_min [OF wfE \<open>tn_id (tg_nodes g ! j) \<in> ?R\<close>]) (rule that)
  from z obtain i where i: "z = tn_id (tg_nodes g ! i)" "i < ?n" "i \<notin> ?V" by blast
  moreover have "unat (ks_counts k ! i) = incoming g ?V i"
    using inv V i(2) by (simp add: kahn_inv_def)
  ultimately have "incoming g ?V i \<noteq> 0" by (metis (mono_tags, lifting) mem_Collect_eq unat_eq_0)
  then obtain d where d: "d \<in> set (tg_dependencies g)" "target_index g d = i" "source_index g d \<notin> ?V"
    by (auto simp: incoming_zero)
  note e = graph_wf_edge [OF wf d(1)]
  have "td_dependent d = z" using node_index_Some [OF e(2)] d(2) i(1) by simp
  then have "(td_prerequisite d, z) \<in> dependency_edges g"
    using d(1) by (auto simp: dependency_edges_def)
  moreover have "td_prerequisite d = tn_id (tg_nodes g ! source_index g d)"
    using node_index_Some [OF e(1)] by simp
  then have "td_prerequisite d \<in> ?R" using e(3) d(3) by blast
  ultimately show False using minimal by blast
qed

subsection \<open>The whole validation\<close>

definition scratch_fits :: "task_graph \<Rightarrow> graph_validation_scratch \<Rightarrow> bool" where
  "scratch_fits g scratch \<longleftrightarrow> length (tg_nodes g) \<le> length (gs_incoming_counts scratch)
     \<and> length (tg_nodes g) \<le> length (gs_queue scratch)"

lemma validate_graph_wf:
  assumes wf: "graph_wf g" and fits: "scratch_fits g scratch"
    and edges: "length (tg_dependencies g) < 2 ^ 32"
  shows "validate_graph g scratch =
    (if acyclic (dependency_edges g) then Inr () else Inl CycleDetected)"
proof -
  let ?n = "length (tg_nodes g)"
  obtain counts where counts:
    "try_fold (count_dependency g) (replicate ?n 0) (tg_dependencies g) = Inr counts"
    "length counts = ?n" "\<forall>j < ?n. unat (counts ! j) = incoming g {} j"
    using count_dependencies [OF wf edges] by blast
  let ?k0 = "\<lparr>ks_counts = counts, ks_queue = gs_queue scratch, ks_queue_length = 0\<rparr>"
  have "queue_holds ?n {j. j < 0 \<and> ks_counts ?k0 ! j = 0} ?k0"
    using counts fits by (simp add: queue_holds_def scratch_fits_def)
  from seed_fold [OF this] counts(2) obtain k where k:
    "try_fold seed_node ?k0 (enumerate 0 counts) = Inr k" "ks_counts k = counts"
    "queue_holds ?n (zero_nodes ?n k) k" by auto
  have "incoming g (set (take i (ks_queue k))) (ks_queue k ! i) = 0"
    if i: "i < ks_queue_length k" for i
  proof -
    have "ks_queue k ! i \<in> set (take (ks_queue_length k) (ks_queue k))"
      using i k(3) nth_mem [of i "take (ks_queue_length k) (ks_queue k)"]
      by (simp add: queue_holds_def)
    with k(3) have "ks_queue k ! i \<in> zero_nodes ?n k" by (simp add: queue_holds_def)
    with counts(3) k(2) have "incoming g {} (ks_queue k ! i) = 0" by force
    then show ?thesis by (rule incoming_zero_mono) simp
  qed
  then have "kahn_inv g 0 k" using k counts(3) by (simp add: kahn_inv_def)
  from kahn_loop_final [OF wf this, of 0] obtain k' where
    loop: "kahn_loop g k 0 0 = Inr (ks_queue_length k')" and inv: "kahn_inv g (ks_queue_length k') k'"
    by auto
  have "queue_holds ?n (zero_nodes ?n k') k'" using inv by (simp add: kahn_inv_def)
  then have "ks_queue_length k' \<le> ?n"
    using queue_length_card card_mono [of "{..<?n}" "zero_nodes ?n k'"] by fastforce
  then have "ks_queue_length k' = ?n \<longleftrightarrow> acyclic (dependency_edges g)"
    using kahn_all_visited_acyclic [OF wf inv] kahn_left_over_cycle [OF wf inv] by linarith
  moreover have "validate_nodes (tg_nodes g) = Inr ()" "validate_dependencies g = Inr ()"
    using wf by (simp_all add: validate_nodes_iff validate_dependencies_iff graph_wf_def)
  moreover have "validate_scratch ?n scratch = Inr ()"
    using fits by (simp add: validate_scratch_def scratch_fits_def Let_def min_def)
  ultimately show ?thesis
    using fits counts(1) k(1) loop by (simp add: validate_graph_def scratch_fits_def)
qed

lemma validate_graph_not_wf:
  assumes "\<not> graph_wf g"
  shows "\<exists>e. validate_graph g scratch = Inl e \<and> e \<noteq> CycleDetected"
proof -
  have checks: "validate_scratch n s \<noteq> Inl CycleDetected" for n s
    by (simp add: validate_scratch_def node_capacity_def Let_def)
  have nodes: "validate_nodes ns \<noteq> Inl CycleDetected" for ns
    unfolding validate_nodes_def by (induction ns) (auto split: sum.splits)
  have deps: "try_tails f xs \<noteq> Inl CycleDetected"
    if "\<And>x t. f x t \<noteq> Inl CycleDetected" for f and xs :: "task_dependency list"
    using that by (induction xs) (auto split: sum.splits)
  have deps: "validate_dependencies g \<noteq> Inl CycleDetected"
    unfolding validate_dependencies_def by (rule deps) auto
  from assms have "validate_nodes (tg_nodes g) \<noteq> Inr () \<or> validate_dependencies g \<noteq> Inr ()"
    by (auto simp: graph_wf_def validate_nodes_iff validate_dependencies_iff)
  then show ?thesis
    using checks [of "length (tg_nodes g)" scratch] nodes [of "tg_nodes g"] deps
    by (cases "validate_scratch (length (tg_nodes g)) scratch";
        cases "validate_nodes (tg_nodes g)"; cases "validate_dependencies g")
      (auto simp: validate_graph_def)
qed

subsection \<open>Properties\<close>

text \<open>
  \<^bold>\<open>C33\<close>. \<open>validate_graph\<close> decides the specification. With scratch for every node and fewer than
  \<open>2 ^ 32\<close> edges (so that no edge counter can overflow), the validation accepts a graph exactly
  when its task identities are distinct, its edges are distinct, join two different known
  tasks and form no directed cycle; and it answers \<open>CycleDetected\<close> exactly for a graph that
  meets all of this but acyclicity. No index of the traversal runs out of its buffer.
\<close>
theorem validate_graph_correct:
  assumes "scratch_fits g scratch" and "length (tg_dependencies g) < 2 ^ 32"
  shows "(validate_graph g scratch = Inr () \<longleftrightarrow> graph_wf g \<and> acyclic (dependency_edges g))
    \<and> (validate_graph g scratch = Inl CycleDetected \<longleftrightarrow>
         graph_wf g \<and> \<not> acyclic (dependency_edges g))"
  using validate_graph_wf [OF _ assms] validate_graph_not_wf [of g scratch]
  by (cases "graph_wf g") auto

definition example_node :: "u64 \<Rightarrow> u16 \<Rightarrow> task_node" where
  "example_node i attempts = \<lparr>tn_id = TaskId i, tn_kind = KindDraft, tn_model_policy = PolicyAnyCompatible,
     tn_budget = \<lparr>tb_maximum_input_tokens = 10, tb_maximum_output_tokens = 10,
       tb_maximum_attempts = attempts\<rparr>,
     tn_output = \<lparr>oc_kind = ArtText, oc_maximum_bytes = 0\<rparr>\<rparr>"

definition example_graph :: task_graph where
  "example_graph = \<lparr>tg_nodes = [example_node 1 2, example_node 2 2, example_node 3 2],
     tg_dependencies = [\<lparr>td_prerequisite = TaskId 1, td_dependent = TaskId 2\<rparr>,
       \<lparr>td_prerequisite = TaskId 2, td_dependent = TaskId 3\<rparr>]\<rparr>"

definition example_cycle :: task_graph where
  "example_cycle = example_graph\<lparr>tg_dependencies := tg_dependencies example_graph
     @ [\<lparr>td_prerequisite = TaskId 3, td_dependent = TaskId 1\<rparr>]\<rparr>"

definition example_scratch :: graph_validation_scratch where
  "example_scratch = \<lparr>gs_incoming_counts = [7, 7, 7, 7], gs_queue = [9, 9, 9]\<rparr>"

lemmas validate_graph_simps =
  validate_graph_def validate_scratch_def validate_nodes_def validate_dependencies_def
  graph_node_def node_index_def count_dependency_def seed_node_def relax_dependency_def
  write_queue_def kahn_loop.simps checked_add_def Let_def

theorem validate_graph_correct_witness:
  "validate_graph example_graph example_scratch = Inr ()
   \<and> acyclic (dependency_edges example_graph) \<and> \<not> acyclic (dependency_edges example_cycle)"
proof -
  have "scratch_fits example_graph example_scratch" "length (tg_dependencies example_graph) < 2 ^ 32"
    "scratch_fits example_cycle example_scratch" "length (tg_dependencies example_cycle) < 2 ^ 32"
    by (simp_all add: scratch_fits_def example_graph_def example_cycle_def example_scratch_def)
  moreover have "validate_graph example_graph example_scratch = Inr ()"
    by (simp add: validate_graph_simps example_graph_def example_scratch_def example_node_def)
  moreover have "validate_graph example_cycle example_scratch = Inl CycleDetected"
    by (simp add: validate_graph_simps example_cycle_def example_graph_def example_scratch_def
        example_node_def)
  ultimately show ?thesis
    using validate_graph_correct [of example_graph example_scratch]
      validate_graph_correct [of example_cycle example_scratch] by simp
qed

end
