(* ===== verification/Artifact_Flow.thy ===== *)
theory Artifact_Flow
  imports Graph_Acyclicity
begin

section \<open>Artifact flow validation\<close>

text \<open>
  \<open>validate_artifact_flow\<close> of \<open>crates/features/task-graph/src/lib.rs\<close> and its helpers, in
  the order the code runs them, and the specification it decides: every input of a task has
  exactly one source, which is a workflow input or the output of a direct prerequisite.
\<close>

subsection \<open>The checks\<close>

definition validate_artifact_tasks ::
    "task_graph \<Rightarrow> artifact_flow \<Rightarrow> task_graph_error + unit" where
  "validate_artifact_tasks g flow =
     bind_ok (try_all (\<lambda>input. if graph_node g (ti_consumer input) = None
                then Inl (UnknownTask (ti_consumer input)) else Inr ()) (af_task_inputs flow)) (\<lambda>_.
     try_all (\<lambda>out. if graph_node g (to_producer out) = None
       then Inl (UnknownTask (to_producer out)) else Inr ()) (af_task_outputs flow))"

definition validate_workflow_inputs :: "artifact_flow \<Rightarrow> task_graph_error + unit" where
  "validate_workflow_inputs flow = try_tails (\<lambda>input tail.
     if \<exists>other \<in> set tail. ar_id other = ar_id input
     then Inl (DuplicateWorkflowInput (ar_id input)) else Inr ()) (af_workflow_inputs flow)"

definition validate_task_outputs :: "artifact_flow \<Rightarrow> task_graph_error + unit" where
  "validate_task_outputs flow = try_tails (\<lambda>out tail.
     if \<exists>input \<in> set (af_workflow_inputs flow). ar_id input = ar_id (to_artifact out)
     then Inl (WorkflowInputProducedByTask (ar_id (to_artifact out)))
     else if \<exists>other \<in> set tail. ar_id (to_artifact other) = ar_id (to_artifact out)
     then Inl (DuplicateArtifactProducer (ar_id (to_artifact out)))
     else Inr ()) (af_task_outputs flow)"

definition validate_task_output_contracts ::
    "task_graph \<Rightarrow> artifact_flow \<Rightarrow> task_graph_error + unit" where
  "validate_task_output_contracts g flow = try_all (\<lambda>node.
     (case filter (\<lambda>out. to_producer out = tn_id node) (af_task_outputs flow) of
        [] \<Rightarrow> Inl (MissingTaskOutput (tn_id node))
      | out # matching \<Rightarrow>
          if matching \<noteq> [] then Inl (DuplicateTaskOutput (tn_id node))
          else if ar_kind (to_artifact out) \<noteq> oc_kind (tn_output node)
          then Inl (TaskOutputKindMismatch (tn_id node) (oc_kind (tn_output node))
                      (ar_kind (to_artifact out)))
          else Inr ())) (tg_nodes g)"

definition validate_artifact_reference ::
    "artifact_reference \<Rightarrow> artifact_reference \<Rightarrow> task_graph_error + unit" where
  "validate_artifact_reference expected actual =
     (if expected \<noteq> actual then Inl (ArtifactReferenceMismatch expected actual) else Inr ())"

text \<open>The body of the loop over the task inputs, after the check for a repeated binding.\<close>

definition validate_task_input ::
    "task_graph \<Rightarrow> artifact_flow \<Rightarrow> task_artifact_input \<Rightarrow> task_graph_error + unit" where
  "validate_task_input g flow input =
     (case find (\<lambda>source. ar_id source = ar_id (ti_artifact input)) (af_workflow_inputs flow) of
        Some source \<Rightarrow> validate_artifact_reference source (ti_artifact input)
      | None \<Rightarrow>
          (case find (\<lambda>out. ar_id (to_artifact out) = ar_id (ti_artifact input))
                  (af_task_outputs flow) of
             None \<Rightarrow> Inl (UnknownArtifact (ar_id (ti_artifact input)))
           | Some out \<Rightarrow>
               bind_ok (validate_artifact_reference (to_artifact out) (ti_artifact input)) (\<lambda>_.
               if to_producer out = ti_consumer input
               then Inl (SelfArtifactConsumption (ti_consumer input) (ar_id (ti_artifact input)))
               else if \<not> (\<exists>d \<in> set (tg_dependencies g).
                      td_prerequisite d = to_producer out \<and> td_dependent d = ti_consumer input)
               then Inl (MissingArtifactDependency (to_producer out) (ti_consumer input)
                           (ar_id (ti_artifact input)))
               else Inr ())))"

definition validate_task_inputs :: "task_graph \<Rightarrow> artifact_flow \<Rightarrow> task_graph_error + unit" where
  "validate_task_inputs g flow = try_tails (\<lambda>input tail.
     if input \<in> set tail then Inl (DuplicateTaskArtifactInput input)
     else validate_task_input g flow input) (af_task_inputs flow)"

definition validate_artifact_flow :: "task_graph \<Rightarrow> artifact_flow \<Rightarrow> task_graph_error + unit" where
  "validate_artifact_flow g flow =
     bind_ok (validate_artifact_tasks g flow) (\<lambda>_.
     bind_ok (validate_workflow_inputs flow) (\<lambda>_.
     bind_ok (validate_task_outputs flow) (\<lambda>_.
     bind_ok (validate_task_output_contracts g flow) (\<lambda>_.
     validate_task_inputs g flow))))"

subsection \<open>The specification\<close>

text \<open>Where an artifact comes from: given to the workflow, or the output of a task.\<close>

definition produced_by :: "artifact_flow \<Rightarrow> artifact_reference \<Rightarrow> task_id \<Rightarrow> bool" where
  "produced_by flow a t \<longleftrightarrow>
     (\<exists>out \<in> set (af_task_outputs flow). to_artifact out = a \<and> to_producer out = t)"

definition source_ids :: "artifact_flow \<Rightarrow> artifact_id list" where
  "source_ids flow = map ar_id (af_workflow_inputs flow)
     @ map (\<lambda>out. ar_id (to_artifact out)) (af_task_outputs flow)"

definition flow_sources_ok :: "task_graph \<Rightarrow> artifact_flow \<Rightarrow> bool" where
  "flow_sources_ok g flow \<longleftrightarrow>
     ti_consumer ` set (af_task_inputs flow) \<union> to_producer ` set (af_task_outputs flow)
       \<subseteq> graph_ids g
     \<and> distinct (source_ids flow)
     \<and> (\<forall>node \<in> set (tg_nodes g). \<exists>out.
          filter (\<lambda>out. to_producer out = tn_id node) (af_task_outputs flow) = [out]
          \<and> ar_kind (to_artifact out) = oc_kind (tn_output node))"

definition flow_inputs_ok :: "task_graph \<Rightarrow> artifact_flow \<Rightarrow> bool" where
  "flow_inputs_ok g flow \<longleftrightarrow> distinct (af_task_inputs flow)
     \<and> (\<forall>input \<in> set (af_task_inputs flow).
          ti_artifact input \<in> set (af_workflow_inputs flow)
          \<or> (\<exists>t. produced_by flow (ti_artifact input) t \<and> t \<noteq> ti_consumer input
               \<and> (t, ti_consumer input) \<in> dependency_edges g))"

subsection \<open>The checks decide the specification\<close>

lemma in_dependency_edges:
  "(a, b) \<in> dependency_edges g \<longleftrightarrow>
     (\<exists>d \<in> set (tg_dependencies g). td_prerequisite d = a \<and> td_dependent d = b)"
  by (force simp: dependency_edges_def)

lemma validate_artifact_tasks_iff:
  "validate_artifact_tasks g flow = Inr () \<longleftrightarrow>
     ti_consumer ` set (af_task_inputs flow) \<union> to_producer ` set (af_task_outputs flow)
       \<subseteq> graph_ids g"
proof -
  have known: "graph_node g t = None \<longleftrightarrow> t \<notin> graph_ids g" for t
    by (simp add: graph_node_def find_None_iff_map graph_ids_def)
  show ?thesis
    unfolding validate_artifact_tasks_def known bind_ok_unit try_all_Inr by auto
qed

lemma validate_sources_iff:
  "validate_workflow_inputs flow = Inr () \<and> validate_task_outputs flow = Inr () \<longleftrightarrow>
     distinct (source_ids flow)"
proof -
  let ?inputs = "af_workflow_inputs flow" and ?outputs = "af_task_outputs flow"
  let ?id = "\<lambda>out. ar_id (to_artifact out)"
  have key: "(\<exists>other \<in> set zs. f other = k) \<longleftrightarrow> k \<in> f ` set zs" for f k and zs :: "'x list"
    by auto
  have "validate_workflow_inputs flow = Inr () \<longleftrightarrow>
      (\<forall>ys x zs. ?inputs = ys @ x # zs \<longrightarrow> ar_id x \<notin> ar_id ` set zs)"
    unfolding validate_workflow_inputs_def try_tails_Inr key by (simp, blast)
  moreover have "validate_task_outputs flow = Inr () \<longleftrightarrow>
      (\<forall>ys x zs. ?outputs = ys @ x # zs \<longrightarrow>
         ?id x \<notin> ar_id ` set ?inputs \<and> ?id x \<notin> ?id ` set zs)"
    unfolding validate_task_outputs_def try_tails_Inr key by (simp, blast)
  moreover have "(\<forall>x \<in> set ?outputs. ?id x \<notin> ar_id ` set ?inputs) \<longleftrightarrow>
      set (map ar_id ?inputs) \<inter> set (map ?id ?outputs) = {}"
    unfolding disjoint_iff set_map by blast
  ultimately show ?thesis
    unfolding all_splits try_tails_distinct source_ids_def distinct_append by blast
qed

lemma validate_task_output_contracts_iff:
  "validate_task_output_contracts g flow = Inr () \<longleftrightarrow>
     (\<forall>node \<in> set (tg_nodes g). \<exists>out.
        filter (\<lambda>out. to_producer out = tn_id node) (af_task_outputs flow) = [out]
        \<and> ar_kind (to_artifact out) = oc_kind (tn_output node))"
  unfolding validate_task_output_contracts_def try_all_Inr
  by (intro ball_cong refl) (auto split: list.splits)

lemma find_by_key:
  assumes "distinct (map f xs)" and "x \<in> set xs"
  shows "find (\<lambda>y. f y = f x) xs = Some x"
  using assms by (induction xs) auto

lemma validate_task_input_iff:
  assumes "distinct (source_ids flow)"
  shows "validate_task_input g flow input = Inr () \<longleftrightarrow>
     ti_artifact input \<in> set (af_workflow_inputs flow)
     \<or> (\<exists>t. produced_by flow (ti_artifact input) t \<and> t \<noteq> ti_consumer input
          \<and> (t, ti_consumer input) \<in> dependency_edges g)"
proof -
  let ?inputs = "af_workflow_inputs flow" and ?outputs = "af_task_outputs flow"
  let ?a = "ti_artifact input" and ?oid = "\<lambda>out. ar_id (to_artifact out)"
  have dist: "distinct (map ar_id ?inputs)" "distinct (map ?oid ?outputs)"
    "ar_id ` set ?inputs \<inter> ?oid ` set ?outputs = {}"
    using assms by (auto simp: source_ids_def)
  show ?thesis
  proof (cases "find (\<lambda>source. ar_id source = ar_id ?a) ?inputs")
    case (Some source)
    then have source: "source \<in> set ?inputs" "ar_id source = ar_id ?a"
      by (auto simp: find_Some_iff)
    then have "\<not> produced_by flow ?a t" for t
      using dist(3) unfolding produced_by_def disjoint_iff by (metis image_eqI)
    moreover have "?a \<in> set ?inputs \<longleftrightarrow> source = ?a"
      using source find_by_key [OF dist(1), of ?a] Some by auto
    ultimately show ?thesis
      using Some by (simp add: validate_task_input_def validate_artifact_reference_def)
  next
    case None
    then have no_input: "?a \<notin> set ?inputs" by (auto simp: find_None_iff)
    show ?thesis
    proof (cases "find (\<lambda>out. ?oid out = ar_id ?a) ?outputs")
      case None': None
      then have "\<not> produced_by flow ?a t" for t by (auto simp: produced_by_def find_None_iff)
      with None None' no_input show ?thesis by (simp add: validate_task_input_def)
    next
      case (Some out)
      then have out: "out \<in> set ?outputs" "?oid out = ar_id ?a" by (auto simp: find_Some_iff)
      have "produced_by flow ?a t \<longleftrightarrow> to_artifact out = ?a \<and> t = to_producer out" for t
        using out find_by_key [OF dist(2)] Some by (fastforce simp: produced_by_def)
      with None Some no_input show ?thesis
        by (auto simp: validate_task_input_def validate_artifact_reference_def
            in_dependency_edges)
    qed
  qed
qed

lemma validate_task_inputs_iff:
  assumes "distinct (source_ids flow)"
  shows "validate_task_inputs g flow = Inr () \<longleftrightarrow> flow_inputs_ok g flow"
proof -
  have "validate_task_inputs g flow = Inr () \<longleftrightarrow>
      (\<forall>ys x zs. af_task_inputs flow = ys @ x # zs \<longrightarrow>
         validate_task_input g flow x = Inr () \<and> x \<notin> set zs)"
    by (auto simp: validate_task_inputs_def try_tails_Inr split: if_splits)
  also have "\<dots> \<longleftrightarrow> flow_inputs_ok g flow"
    unfolding all_splits validate_task_input_iff [OF assms]
    using try_tails_distinct [of "af_task_inputs flow" id] by (auto simp: flow_inputs_ok_def)
  finally show ?thesis .
qed

lemma validate_artifact_flow_iff:
  "validate_artifact_flow g flow = Inr () \<longleftrightarrow> flow_sources_ok g flow \<and> flow_inputs_ok g flow"
proof -
  have "validate_artifact_flow g flow = Inr () \<longleftrightarrow>
      validate_artifact_tasks g flow = Inr ()
      \<and> (validate_workflow_inputs flow = Inr () \<and> validate_task_outputs flow = Inr ())
      \<and> validate_task_output_contracts g flow = Inr () \<and> validate_task_inputs g flow = Inr ()"
    by (auto simp: validate_artifact_flow_def bind_ok_Inr)
  then show ?thesis
    unfolding validate_artifact_tasks_iff validate_sources_iff validate_task_output_contracts_iff
    using validate_task_inputs_iff by (auto simp: flow_sources_ok_def)
qed

lemma flow_edges_subset:
  assumes sources: "flow_sources_ok g flow" and inputs: "flow_inputs_ok g flow"
  shows "{(t, ti_consumer input) | t input. input \<in> set (af_task_inputs flow)
     \<and> produced_by flow (ti_artifact input) t} \<subseteq> dependency_edges g"
proof clarify
  fix t input
  assume input: "input \<in> set (af_task_inputs flow)" and made: "produced_by flow (ti_artifact input) t"
  let ?oid = "\<lambda>out. ar_id (to_artifact out)"
  have dist: "distinct (map ?oid (af_task_outputs flow))"
    "ar_id ` set (af_workflow_inputs flow) \<inter> ?oid ` set (af_task_outputs flow) = {}"
    using sources by (auto simp: flow_sources_ok_def source_ids_def)
  have "ti_artifact input \<notin> set (af_workflow_inputs flow)"
    using made dist(2) unfolding produced_by_def disjoint_iff by (metis image_eqI)
  then obtain u where u: "produced_by flow (ti_artifact input) u"
    "(u, ti_consumer input) \<in> dependency_edges g"
    using inputs input by (auto simp: flow_inputs_ok_def)
  have "u = t"
    using made u(1) dist(1) unfolding produced_by_def distinct_map inj_on_def by metis
  with u show "(t, ti_consumer input) \<in> dependency_edges g" by simp
qed

subsection \<open>Properties\<close>

text \<open>
  \<^bold>\<open>C34\<close>. \<open>validate_artifact_flow\<close> decides provenance. A flow is accepted exactly when its
  bindings name known tasks, every artifact identity has one source, every task declares
  exactly one output of its contracted kind, no input binding is repeated, and every input is
  (with identity, kind and role) a workflow input or the output of another task that the
  graph makes a direct prerequisite of the consumer. On a graph that \<open>validate_graph\<close>
  accepted, the flow of artifacts between the tasks therefore has no cycle.
\<close>
theorem validate_artifact_flow_correct:
  "(validate_artifact_flow g flow = Inr () \<longleftrightarrow> flow_sources_ok g flow \<and> flow_inputs_ok g flow)
   \<and> (graph_wf g \<and> acyclic (dependency_edges g) \<and> validate_artifact_flow g flow = Inr () \<longrightarrow>
        acyclic {(t, ti_consumer input) | t input. input \<in> set (af_task_inputs flow)
                   \<and> produced_by flow (ti_artifact input) t})"
proof (intro conjI impI)
  show iff: "validate_artifact_flow g flow = Inr () \<longleftrightarrow>
      flow_sources_ok g flow \<and> flow_inputs_ok g flow"
    by (rule validate_artifact_flow_iff)
  assume "graph_wf g \<and> acyclic (dependency_edges g) \<and> validate_artifact_flow g flow = Inr ()"
  then have ok: "acyclic (dependency_edges g)" "flow_sources_ok g flow" "flow_inputs_ok g flow"
    using iff by simp_all
  show "acyclic {(t, ti_consumer input) | t input. input \<in> set (af_task_inputs flow)
      \<and> produced_by flow (ti_artifact input) t}"
    using flow_edges_subset [OF ok(2,3)] by (rule acyclic_subset [OF ok(1)])
qed

definition example_reference :: "u64 \<Rightarrow> artifact_reference" where
  "example_reference i = \<lparr>ar_id = ArtifactId i, ar_kind = ArtText, ar_role = RoleDraft\<rparr>"

definition example_flow :: artifact_flow where
  "example_flow = \<lparr>af_workflow_inputs = [example_reference 0],
     af_task_inputs = [\<lparr>ti_consumer = TaskId 1, ti_artifact = example_reference 0\<rparr>,
       \<lparr>ti_consumer = TaskId 2, ti_artifact = example_reference 1\<rparr>],
     af_task_outputs = [\<lparr>to_producer = TaskId 1, to_artifact = example_reference 1\<rparr>,
       \<lparr>to_producer = TaskId 2, to_artifact = example_reference 2\<rparr>,
       \<lparr>to_producer = TaskId 3, to_artifact = example_reference 3\<rparr>]\<rparr>"

definition skipping_flow :: artifact_flow where
  "skipping_flow = example_flow\<lparr>af_task_inputs := af_task_inputs example_flow
     @ [\<lparr>ti_consumer = TaskId 3, ti_artifact = example_reference 1\<rparr>]\<rparr>"

lemmas validate_flow_simps =
  validate_artifact_flow_def validate_artifact_tasks_def validate_workflow_inputs_def
  validate_task_outputs_def validate_task_output_contracts_def validate_task_inputs_def
  validate_task_input_def validate_artifact_reference_def graph_node_def
  example_graph_def example_node_def example_reference_def example_flow_def skipping_flow_def

theorem validate_artifact_flow_correct_witness:
  "validate_artifact_flow example_graph example_flow = Inr () \<and> flow_inputs_ok example_graph example_flow
   \<and> validate_artifact_flow example_graph skipping_flow
       = Inl (MissingArtifactDependency (TaskId 1) (TaskId 3) (ArtifactId 1))
   \<and> \<not> (flow_sources_ok example_graph skipping_flow \<and> flow_inputs_ok example_graph skipping_flow)"
proof -
  have "validate_artifact_flow example_graph example_flow = Inr ()"
    "validate_artifact_flow example_graph skipping_flow
       = Inl (MissingArtifactDependency (TaskId 1) (TaskId 3) (ArtifactId 1))"
    by (simp_all add: validate_flow_simps)
  then show ?thesis
    using validate_artifact_flow_correct [of example_graph example_flow]
      validate_artifact_flow_correct [of example_graph skipping_flow] by simp
qed

end
