(* ===== verification/Task_State.thy ===== *)
theory Task_State
  imports Artifact_Flow
begin

section \<open>The task state table\<close>

text \<open>
  \<open>TaskRuntimeState\<close> and every method of \<open>TaskStateTable\<close> of
  \<open>crates/features/task-graph/src/lib.rs\<close>. A table is the list of states it borrows; a
  method that takes \<open>&mut self\<close> returns the list beside its result. A \<open>NonZeroU16\<close> is a
  \<open>u16\<close>: \<open>maximum_attempts\<close> and attempt numbers are never zero in the code, which the
  properties state as a hypothesis where they need it.
\<close>

record task_runtime_state =
  rs_status :: task_status
  rs_attempts :: u16

definition task_runtime_state_default :: task_runtime_state where
  "task_runtime_state_default = \<lparr>rs_status = TaskPending, rs_attempts = 0\<rparr>"

type_synonym task_states = "task_runtime_state list"

abbreviation (input) set_status :: "task_states \<Rightarrow> usize \<Rightarrow> task_status \<Rightarrow> task_states" where
  "set_status s i st \<equiv> s[i := (s ! i)\<lparr>rs_status := st\<rparr>]"

definition state_table_new ::
    "task_graph \<Rightarrow> task_states \<Rightarrow> task_graph_error + task_states" where
  "state_table_new g states =
     (if length states \<noteq> length (tg_nodes g)
      then Inl (StateLengthMismatch (length (tg_nodes g)) (length states)) else Inr states)"

definition table_state :: "task_graph \<Rightarrow> task_states \<Rightarrow> task_id \<Rightarrow> task_runtime_state option" where
  "table_state g s task =
     (case node_index g task of None \<Rightarrow> None | Some index \<Rightarrow> slice_get s index)"

subsection \<open>Scans over the prerequisites\<close>

definition prerequisite_status ::
    "task_graph \<Rightarrow> task_states \<Rightarrow> task_dependency \<Rightarrow> task_graph_error + task_status" where
  "prerequisite_status g s dependency =
     (case node_index g (td_prerequisite dependency) of
        None \<Rightarrow> Inl (UnknownTask (td_prerequisite dependency))
      | Some index \<Rightarrow>
          (case slice_get s index of
             None \<Rightarrow> Inl (StateLengthMismatch (length (tg_nodes g)) (length s))
           | Some state \<Rightarrow> Inr (rs_status state)))"

definition prerequisites_succeeded ::
    "task_graph \<Rightarrow> task_states \<Rightarrow> task_id \<Rightarrow> task_graph_error + bool" where
  "prerequisites_succeeded g s task =
     bind_ok (try_any
         (\<lambda>d. bind_ok (prerequisite_status g s d) (\<lambda>status. Inr (status \<noteq> TaskSucceeded)))
         (filter (\<lambda>d. td_dependent d = task) (tg_dependencies g)))
       (\<lambda>stopped. Inr (\<not> stopped))"

fun unsuccessful :: "task_status \<Rightarrow> bool" where
  "unsuccessful TaskExhausted = True"
| "unsuccessful TaskCancelled = True"
| "unsuccessful TaskBlocked = True"
| "unsuccessful _ = False"

definition has_unsuccessful_prerequisite ::
    "task_graph \<Rightarrow> task_states \<Rightarrow> task_id \<Rightarrow> task_graph_error + bool" where
  "has_unsuccessful_prerequisite g s task =
     try_any (\<lambda>d. bind_ok (prerequisite_status g s d) (\<lambda>status. Inr (unsuccessful status)))
       (filter (\<lambda>d. td_dependent d = task) (tg_dependencies g))"

subsection \<open>Attempts\<close>

definition start_task ::
    "task_graph \<Rightarrow> task_states \<Rightarrow> task_id \<Rightarrow> (task_graph_error + task_attempt) \<times> task_states" where
  "start_task g s task =
     (case node_index g task of
        None \<Rightarrow> (Inl (UnknownTask task), s)
      | Some index \<Rightarrow>
     (case slice_get (tg_nodes g) index of
        None \<Rightarrow> (Inl (UnknownTask task), s)
      | Some node \<Rightarrow>
     (case slice_get s index of
        None \<Rightarrow> (Inl (UnknownTask task), s)
      | Some current \<Rightarrow>
          if rs_status current \<noteq> TaskPending \<and> rs_status current \<noteq> TaskFailed
          then (Inl (InvalidTaskTransition task (rs_status current)), s)
          else (case prerequisites_succeeded g s task of
                  Inl e \<Rightarrow> (Inl e, s)
                | Inr succeeded \<Rightarrow>
                    if \<not> succeeded
                    then (Inl (InvalidTaskTransition task (rs_status current)), s)
                    else if tb_maximum_attempts (tn_budget node) \<le> rs_attempts current
                    then (Inl (AttemptLimitReached task), s)
                    else let number = saturating_add (rs_attempts current) 1
                      in if number = 0 then (Inl (AttemptLimitReached task), s)
                         else (Inr \<lparr>at_task = task, at_number = number\<rparr>,
                               s[index := \<lparr>rs_status = TaskRunning, rs_attempts = number\<rparr>])))))"

definition validate_attempt ::
    "task_graph \<Rightarrow> task_states \<Rightarrow> task_attempt \<Rightarrow> task_graph_error + usize" where
  "validate_attempt g s attempt =
     (case node_index g (at_task attempt) of
        None \<Rightarrow> Inl (UnknownTask (at_task attempt))
      | Some index \<Rightarrow>
     (case slice_get s index of
        None \<Rightarrow> Inl (UnknownTask (at_task attempt))
      | Some state \<Rightarrow>
          let active = (if rs_attempts state = 0 then None
                else Some \<lparr>at_task = at_task attempt, at_number = rs_attempts state\<rparr>)
          in if rs_status state \<noteq> TaskRunning \<or> active \<noteq> Some attempt
             then Inl (InvalidAttempt attempt active (rs_status state))
             else Inr index))"

definition succeed_attempt ::
    "task_graph \<Rightarrow> task_states \<Rightarrow> task_attempt \<Rightarrow> (task_graph_error + unit) \<times> task_states" where
  "succeed_attempt g s attempt =
     (case validate_attempt g s attempt of
        Inl e \<Rightarrow> (Inl e, s)
      | Inr index \<Rightarrow>
          (case slice_get s index of
             None \<Rightarrow> (Inl (UnknownTask (at_task attempt)), s)
           | Some state \<Rightarrow> (Inr (), s[index := state\<lparr>rs_status := TaskSucceeded\<rparr>])))"

definition fail_attempt ::
    "task_graph \<Rightarrow> task_states \<Rightarrow> task_attempt \<Rightarrow> (task_graph_error + unit) \<times> task_states" where
  "fail_attempt g s attempt =
     (case validate_attempt g s attempt of
        Inl e \<Rightarrow> (Inl e, s)
      | Inr index \<Rightarrow>
     (case slice_get (tg_nodes g) index of
        None \<Rightarrow> (Inl (UnknownTask (at_task attempt)), s)
      | Some node \<Rightarrow>
     (case slice_get s index of
        None \<Rightarrow> (Inl (UnknownTask (at_task attempt)), s)
      | Some state \<Rightarrow>
          (Inr (), s[index := state\<lparr>rs_status :=
             (if tb_maximum_attempts (tn_budget node) \<le> rs_attempts state
              then TaskExhausted else TaskFailed)\<rparr>]))))"

definition cancel_task ::
    "task_graph \<Rightarrow> task_states \<Rightarrow> task_id \<Rightarrow> (task_graph_error + unit) \<times> task_states" where
  "cancel_task g s task =
     (case node_index g task of
        None \<Rightarrow> (Inl (UnknownTask task), s)
      | Some index \<Rightarrow>
     (case slice_get s index of
        None \<Rightarrow> (Inl (UnknownTask task), s)
      | Some state \<Rightarrow>
          if rs_status state \<in> {TaskPending, TaskFailed, TaskRunning}
          then (Inr (), s[index := state\<lparr>rs_status := TaskCancelled\<rparr>])
          else (Inl (InvalidTaskTransition task (rs_status state)), s)))"

subsection \<open>Propagation and ready tasks\<close>

text \<open>One pass of \<open>propagate_blocked\<close> over the nodes, with the number of changes so far.\<close>

fun block_pass ::
    "task_graph \<Rightarrow> (usize \<times> task_node) list \<Rightarrow> task_states \<Rightarrow> usize
       \<Rightarrow> (task_graph_error + usize) \<times> task_states" where
  "block_pass g [] s changed = (Inr changed, s)"
| "block_pass g ((index, node) # rest) s changed =
     (case slice_get s index of
        None \<Rightarrow> (Inl (StateLengthMismatch (length (tg_nodes g)) (length s)), s)
      | Some current \<Rightarrow>
          if rs_status current \<noteq> TaskPending then block_pass g rest s changed
          else (case has_unsuccessful_prerequisite g s (tn_id node) of
                  Inl e \<Rightarrow> (Inl e, s)
                | Inr True \<Rightarrow> block_pass g rest (s[index := current\<lparr>rs_status := TaskBlocked\<rparr>])
                                (changed + 1)
                | Inr False \<Rightarrow> block_pass g rest s changed))"

definition pending_count :: "task_states \<Rightarrow> nat" where
  "pending_count s = length (filter (\<lambda>st. rs_status st = TaskPending) s)"

lemma pending_count_block:
  assumes "i < length s" and "rs_status (s ! i) = TaskPending"
  shows "pending_count (set_status s i TaskBlocked) + 1 = pending_count s"
  using assms unfolding pending_count_def
  by (induction s arbitrary: i) (auto simp: nth_Cons split: nat.splits)

lemma block_pass_count:
  "block_pass g nodes s changed = (Inr changed', s')
     \<Longrightarrow> changed' + pending_count s' = changed + pending_count s"
proof (induction nodes arbitrary: s changed)
  case (Cons n nodes)
  then show ?case
    using pending_count_block [of "fst n" s]
    by (cases n) (fastforce split: option.splits if_splits sum.splits bool.splits)
qed simp

function propagate_loop ::
    "task_graph \<Rightarrow> task_states \<Rightarrow> usize \<Rightarrow> (task_graph_error + usize) \<times> task_states" where
  "propagate_loop g s total_changed =
     (case block_pass g (enumerate 0 (tg_nodes g)) s 0 of
        (Inl e, s') \<Rightarrow> (Inl e, s')
      | (Inr changed, s') \<Rightarrow>
          if changed = 0 then (Inr (usize_saturating_add total_changed changed), s')
          else propagate_loop g s' (usize_saturating_add total_changed changed))"
  by pat_completeness auto

termination
  by (relation "measure (\<lambda>(g, s, total). pending_count s)") (auto dest!: block_pass_count [OF sym])

declare propagate_loop.simps [simp del]

definition propagate_blocked ::
    "task_graph \<Rightarrow> task_states \<Rightarrow> (task_graph_error + usize) \<times> task_states" where
  "propagate_blocked g s = propagate_loop g s 0"

text \<open>The loop of \<open>ready_tasks\<close>; the output slice is returned as it was left.\<close>

fun ready_loop ::
    "task_graph \<Rightarrow> task_states \<Rightarrow> (usize \<times> task_node) list \<Rightarrow> task_id list \<Rightarrow> usize
       \<Rightarrow> (task_graph_error + usize) \<times> task_id list" where
  "ready_loop g s [] out written = (Inr written, out)"
| "ready_loop g s ((index, node) # rest) out written =
     (case slice_get s index of
        None \<Rightarrow> (Inl (StateLengthMismatch (length (tg_nodes g)) (length s)), out)
      | Some state \<Rightarrow>
          if rs_status state = TaskPending \<or> rs_status state = TaskFailed
          then (case prerequisites_succeeded g s (tn_id node) of
                  Inl e \<Rightarrow> (Inl e, out)
                | Inr succeeded \<Rightarrow>
                    if succeeded \<and> rs_attempts state < tb_maximum_attempts (tn_budget node)
                    then if written < length out
                         then ready_loop g s rest (out[written := tn_id node]) (written + 1)
                         else (Inl (GraphCapacityExhausted (capacity_exhausted_new TaskNodes
                                 (usize_to_u64 (usize_saturating_add written 1))
                                 (usize_to_u64 (length out)))), out)
                    else ready_loop g s rest out written)
          else ready_loop g s rest out written)"

definition ready_tasks ::
    "task_graph \<Rightarrow> task_states \<Rightarrow> task_id list \<Rightarrow> (task_graph_error + usize) \<times> task_id list" where
  "ready_tasks g s out = ready_loop g s (enumerate 0 (tg_nodes g)) out 0"

end
