(* ===== verification/Task_Execution.thy ===== *)
theory Task_Execution
  imports Task_State
begin

section \<open>Execution of a task graph\<close>

text \<open>
  What the task state table guarantees. The abstract specification is the step relation
  \<open>table_step\<close>: five moves of one task, each with the condition under which it may happen.
  Every call of the table is refined to these moves, the invariants are proved over them, and
  the properties follow for the calls: budgets and ordering, attempts that settle once, the
  ready list, the closure that \<open>propagate_blocked\<close> computes, and progress.
\<close>

subsection \<open>Tables over a validated graph\<close>

definition prerequisite_pairs :: "task_graph \<Rightarrow> (usize \<times> usize) set" where
  "prerequisite_pairs g = (\<lambda>d. (source_index g d, target_index g d)) ` set (tg_dependencies g)"

abbreviation max_attempts_at :: "task_graph \<Rightarrow> usize \<Rightarrow> u16" where
  "max_attempts_at g i \<equiv> tb_maximum_attempts (tn_budget (tg_nodes g ! i))"

abbreviation id_at :: "task_graph \<Rightarrow> usize \<Rightarrow> task_id" where
  "id_at g i \<equiv> tn_id (tg_nodes g ! i)"

abbreviation status_at :: "task_states \<Rightarrow> usize \<Rightarrow> task_status" where
  "status_at s i \<equiv> rs_status (s ! i)"

abbreviation attempts_at :: "task_states \<Rightarrow> usize \<Rightarrow> u16" where
  "attempts_at s i \<equiv> rs_attempts (s ! i)"

definition ready_at :: "task_graph \<Rightarrow> task_states \<Rightarrow> usize \<Rightarrow> bool" where
  "ready_at g s i \<longleftrightarrow>
     (\<forall>(j, k) \<in> prerequisite_pairs g. k = i \<longrightarrow> status_at s j = TaskSucceeded)"

definition doomed_at :: "task_graph \<Rightarrow> task_states \<Rightarrow> usize \<Rightarrow> bool" where
  "doomed_at g s i \<longleftrightarrow> (\<exists>(j, k) \<in> prerequisite_pairs g. k = i \<and> unsuccessful (status_at s j))"

lemma ready_at_iff:
  "ready_at g s i \<longleftrightarrow> (\<forall>j. (j, i) \<in> prerequisite_pairs g \<longrightarrow> status_at s j = TaskSucceeded)"
  by (auto simp: ready_at_def)

lemma doomed_at_iff:
  "doomed_at g s i \<longleftrightarrow> (\<exists>j. (j, i) \<in> prerequisite_pairs g \<and> unsuccessful (status_at s j))"
  by (auto simp: doomed_at_def)

definition table_fits :: "task_graph \<Rightarrow> task_states \<Rightarrow> bool" where
  "table_fits g s \<longleftrightarrow> graph_wf g \<and> length s = length (tg_nodes g)
     \<and> (\<forall>node \<in> set (tg_nodes g). tb_maximum_attempts (tn_budget node) \<noteq> 0)"

lemma prerequisite_pairs_bound:
  assumes "graph_wf g" and "(j, i) \<in> prerequisite_pairs g"
  shows "j < length (tg_nodes g)" and "i < length (tg_nodes g)"
  using assms graph_wf_edge(3,4) by (auto simp: prerequisite_pairs_def)

lemma table_fits_update [simp]: "table_fits g (s[i := st]) \<longleftrightarrow> table_fits g s"
  by (simp add: table_fits_def)

lemma node_index_id_at:
  "graph_wf g \<Longrightarrow> i < length (tg_nodes g) \<Longrightarrow> node_index g (id_at g i) = Some i"
  by (simp add: node_index_nth graph_wf_def)

lemma dependent_iff_target:
  assumes "graph_wf g" and "d \<in> set (tg_dependencies g)" and "i < length (tg_nodes g)"
  shows "td_dependent d = id_at g i \<longleftrightarrow> target_index g d = i"
proof -
  have "node_index g (td_dependent d) = Some (target_index g d)"
    by (rule graph_wf_edge(2) [OF assms(1,2)])
  then show ?thesis
    using node_index_id_at [OF assms(1,3)] node_index_Some by (metis option.inject)
qed

lemma prerequisite_status_wf:
  assumes "table_fits g s" and "d \<in> set (tg_dependencies g)"
  shows "prerequisite_status g s d = Inr (status_at s (source_index g d))"
  using assms graph_wf_edge(1,3) [of g d] by (simp add: prerequisite_status_def table_fits_def)

lemma scan_prerequisites:
  assumes fits: "table_fits g s" and i: "i < length (tg_nodes g)"
  shows "try_any (\<lambda>d. bind_ok (prerequisite_status g s d) (\<lambda>st. Inr (P st)))
      (filter (\<lambda>d. td_dependent d = id_at g i) (tg_dependencies g))
    = Inr (\<exists>(j, k) \<in> prerequisite_pairs g. k = i \<and> P (status_at s j))"
proof -
  have wf: "graph_wf g" using fits by (simp add: table_fits_def)
  have "try_any (\<lambda>d. bind_ok (prerequisite_status g s d) (\<lambda>st. Inr (P st)))
      (filter (\<lambda>d. td_dependent d = id_at g i) (tg_dependencies g))
    = Inr (\<exists>d \<in> set (filter (\<lambda>d. td_dependent d = id_at g i) (tg_dependencies g)).
        P (status_at s (source_index g d)))"
    by (rule try_any_total) (simp add: prerequisite_status_wf [OF fits])
  also have "(\<exists>d \<in> set (filter (\<lambda>d. td_dependent d = id_at g i) (tg_dependencies g)).
        P (status_at s (source_index g d)))
      \<longleftrightarrow> (\<exists>(j, k) \<in> prerequisite_pairs g. k = i \<and> P (status_at s j))"
    using dependent_iff_target [OF wf _ i] by (auto simp: prerequisite_pairs_def)
  finally show ?thesis .
qed

lemma prerequisites_succeeded_wf:
  "table_fits g s \<Longrightarrow> i < length (tg_nodes g)
     \<Longrightarrow> prerequisites_succeeded g s (id_at g i) = Inr (ready_at g s i)"
  unfolding prerequisites_succeeded_def
  by (subst scan_prerequisites) (auto simp: ready_at_def)

lemma has_unsuccessful_prerequisite_wf:
  "table_fits g s \<Longrightarrow> i < length (tg_nodes g)
     \<Longrightarrow> has_unsuccessful_prerequisite g s (id_at g i) = Inr (doomed_at g s i)"
  unfolding has_unsuccessful_prerequisite_def
  by (subst scan_prerequisites) (auto simp: doomed_at_def)

subsection \<open>The abstract moves\<close>

inductive table_step :: "task_graph \<Rightarrow> task_states \<Rightarrow> task_states \<Rightarrow> bool" for g where
  start: "i < length s \<Longrightarrow> status_at s i \<in> {TaskPending, TaskFailed} \<Longrightarrow> ready_at g s i
    \<Longrightarrow> attempts_at s i < max_attempts_at g i
    \<Longrightarrow> table_step g s (s[i := \<lparr>rs_status = TaskRunning, rs_attempts = attempts_at s i + 1\<rparr>])"
| succeed: "i < length s \<Longrightarrow> status_at s i = TaskRunning
    \<Longrightarrow> table_step g s (set_status s i TaskSucceeded)"
| fail: "i < length s \<Longrightarrow> status_at s i = TaskRunning
    \<Longrightarrow> table_step g s (set_status s i
          (if max_attempts_at g i \<le> attempts_at s i then TaskExhausted else TaskFailed))"
| cancel: "i < length s \<Longrightarrow> status_at s i \<in> {TaskPending, TaskFailed, TaskRunning}
    \<Longrightarrow> table_step g s (set_status s i TaskCancelled)"
| block: "i < length s \<Longrightarrow> status_at s i = TaskPending \<Longrightarrow> doomed_at g s i
    \<Longrightarrow> table_step g s (set_status s i TaskBlocked)"

abbreviation table_steps :: "task_graph \<Rightarrow> task_states \<Rightarrow> task_states \<Rightarrow> bool" where
  "table_steps g \<equiv> (table_step g)\<^sup>*\<^sup>*"

lemma table_step_fits: "table_step g s s' \<Longrightarrow> table_fits g s \<Longrightarrow> table_fits g s'"
  by (cases rule: table_step.cases) auto

lemma table_steps_fits: "table_steps g s s' \<Longrightarrow> table_fits g s \<Longrightarrow> table_fits g s'"
  by (induction rule: rtranclp_induct) (auto intro: table_step_fits)

text \<open>Success and failure are final, and the attempt counter never goes back.\<close>

lemma table_step_final:
  assumes "table_step g s s'"
  shows "status_at s j = TaskSucceeded \<Longrightarrow> status_at s' j = TaskSucceeded"
    and "unsuccessful (status_at s j) \<Longrightarrow> status_at s' j = status_at s j"
  using assms by (cases; auto simp: nth_update)+

lemma ready_at_step: "table_step g s s' \<Longrightarrow> ready_at g s i \<Longrightarrow> ready_at g s' i"
  using table_step_final(1) unfolding ready_at_def by fast

lemma doomed_at_step: "table_step g s s' \<Longrightarrow> doomed_at g s i \<Longrightarrow> doomed_at g s' i"
  using table_step_final(2) unfolding doomed_at_iff by metis

subsection \<open>The invariant\<close>

text \<open>What the status of a task says about its attempts.\<close>

fun attempts_ok :: "u16 \<Rightarrow> task_runtime_state \<Rightarrow> bool" where
  "attempts_ok maximum st = (case rs_status st of
     TaskPending \<Rightarrow> rs_attempts st = 0
   | TaskBlocked \<Rightarrow> rs_attempts st = 0
   | TaskFailed \<Rightarrow> 0 < rs_attempts st \<and> rs_attempts st < maximum
   | TaskExhausted \<Rightarrow> rs_attempts st = maximum
   | TaskCancelled \<Rightarrow> rs_attempts st \<le> maximum
   | TaskRunning \<Rightarrow> 0 < rs_attempts st \<and> rs_attempts st \<le> maximum
   | TaskSucceeded \<Rightarrow> 0 < rs_attempts st \<and> rs_attempts st \<le> maximum)"

definition table_inv :: "task_graph \<Rightarrow> task_states \<Rightarrow> bool" where
  "table_inv g s \<longleftrightarrow> (\<forall>i < length s. attempts_ok (max_attempts_at g i) (s ! i)
     \<and> (rs_attempts (s ! i) \<noteq> 0 \<longrightarrow> ready_at g s i)
     \<and> (status_at s i = TaskBlocked \<longrightarrow> doomed_at g s i))"

lemma next_attempt:
  fixes a m :: u16
  assumes "a < m"
  shows "unat (a + 1) = unat a + 1" and "a + 1 \<le> m" and "0 < a + 1" and "a < a + 1"
    and "saturating_add a 1 = a + 1" and "a + 1 \<noteq> 0"
proof -
  have "unat a < unat m" "unat m < 2 ^ 16" using assms unsigned_less [of m] by (simp_all add: word_less_nat_alt)
  then show u: "unat (a + 1) = unat a + 1" by (simp add: unat_word_ariths)
  then show "a + 1 \<le> m" "0 < a + 1" "a < a + 1" "a + 1 \<noteq> 0"
    using assms by (auto simp: word_le_nat_alt word_less_nat_alt word_gt_0 unat_eq_0 [symmetric]
        simp del: unat_eq_0)
  show "saturating_add a 1 = a + 1"
    using \<open>unat a < unat m\<close> \<open>unat m < 2 ^ 16\<close> by (simp add: saturating_add_def)
qed

lemma table_inv_step:
  assumes step: "table_step g s s'" and inv: "table_inv g s"
  shows "table_inv g s'"
  unfolding table_inv_def
proof (intro allI impI)
  fix j assume j: "j < length s'"
  have len: "length s' = length s" using step by cases auto
  have old: "attempts_ok (max_attempts_at g j) (s ! j)" "attempts_at s j \<noteq> 0 \<longrightarrow> ready_at g s j"
    "status_at s j = TaskBlocked \<longrightarrow> doomed_at g s j"
    using inv j len by (auto simp: table_inv_def)
  note keep = ready_at_step [OF step, of j] doomed_at_step [OF step, of j]
  show "attempts_ok (max_attempts_at g j) (s' ! j)
      \<and> (rs_attempts (s' ! j) \<noteq> 0 \<longrightarrow> ready_at g s' j)
      \<and> (status_at s' j = TaskBlocked \<longrightarrow> doomed_at g s' j)"
    using step
  proof cases
    case (start i)
    then show ?thesis
      using old keep next_attempt [of "attempts_at s i"] by (auto simp: nth_update)
  next
    case (succeed i)
    then show ?thesis using old keep by (auto simp: nth_update)
  next
    case (fail i)
    then show ?thesis using old keep by (auto simp: nth_update)
  next
    case (cancel i)
    then show ?thesis using old keep by (auto simp: nth_update)
  next
    case (block i)
    then show ?thesis using old keep by (auto simp: nth_update)
  qed
qed

lemma table_inv_steps: "table_steps g s s' \<Longrightarrow> table_inv g s \<Longrightarrow> table_inv g s'"
  by (induction rule: rtranclp_induct) (auto intro: table_inv_step)

lemma table_inv_new: "table_inv g (replicate n task_runtime_state_default)"
  by (simp add: table_inv_def task_runtime_state_default_def)

subsection \<open>Every call refines the moves\<close>

lemma start_task_wf:
  assumes "table_fits g s" and "i < length (tg_nodes g)"
  shows "start_task g s (id_at g i) =
    (if status_at s i \<in> {TaskPending, TaskFailed} \<and> ready_at g s i
     then if attempts_at s i < max_attempts_at g i
          then (Inr \<lparr>at_task = id_at g i, at_number = attempts_at s i + 1\<rparr>,
                s[i := \<lparr>rs_status = TaskRunning, rs_attempts = attempts_at s i + 1\<rparr>])
          else (Inl (AttemptLimitReached (id_at g i)), s)
     else (Inl (InvalidTaskTransition (id_at g i) (status_at s i)), s))"
proof -
  have "graph_wf g" "i < length s" using assms by (simp_all add: table_fits_def)
  with assms next_attempt(5,6) [of "attempts_at s i" "max_attempts_at g i"] show ?thesis
    by (auto simp: start_task_def node_index_id_at prerequisites_succeeded_wf not_le Let_def)
qed

lemma unknown_index:
  assumes "node_index g t = Some i"
  shows "i < length (tg_nodes g)" and "t = id_at g i"
  using node_index_Some [OF assms] by auto

lemma start_task_step:
  assumes fits: "table_fits g s" and call: "start_task g s task = (r, s')"
  shows "if is_ok r then table_step g s s' else s' = s"
proof (cases "node_index g task")
  case None
  with call show ?thesis by (auto simp: start_task_def)
next
  case (Some i)
  note i = unknown_index [OF Some]
  then have "i < length s" using fits by (simp add: table_fits_def)
  then show ?thesis
    using call table_step.start [of i s g] unfolding i(2) start_task_wf [OF fits i(1)]
    by (auto split: if_splits)
qed

lemma validate_attempt_wf:
  assumes "table_fits g s" and "node_index g (at_task attempt) = Some i"
  shows "validate_attempt g s attempt =
    (if status_at s i = TaskRunning \<and> attempts_at s i = at_number attempt \<and> at_number attempt \<noteq> 0
     then Inr i
     else Inl (InvalidAttempt attempt (if attempts_at s i = 0 then None
                 else Some \<lparr>at_task = at_task attempt, at_number = attempts_at s i\<rparr>)
             (status_at s i)))"
proof -
  have "i < length s" using assms node_index_Some by (auto simp: table_fits_def)
  with assms(2) show ?thesis
    by (cases attempt) (auto simp: validate_attempt_def Let_def)
qed

lemma validate_attempt_Inr:
  assumes "table_fits g s" and "validate_attempt g s attempt = Inr i"
  shows "i < length s" and "at_task attempt = id_at g i" and "node_index g (at_task attempt) = Some i"
    and "status_at s i = TaskRunning" and "attempts_at s i = at_number attempt"
proof -
  obtain j where j: "node_index g (at_task attempt) = Some j"
    using assms(2) by (cases "node_index g (at_task attempt)") (auto simp: validate_attempt_def)
  note this
  moreover have "j = i" "status_at s j = TaskRunning" "attempts_at s j = at_number attempt"
    using assms(2) unfolding validate_attempt_wf [OF assms(1) j] by (auto split: if_splits)
  moreover have "j < length s" using unknown_index [OF j] assms(1) by (simp add: table_fits_def)
  ultimately show "i < length s" and "at_task attempt = id_at g i"
    and "node_index g (at_task attempt) = Some i" and "status_at s i = TaskRunning"
    and "attempts_at s i = at_number attempt"
    using unknown_index(2) [OF j] by simp_all
qed

lemma succeed_attempt_step:
  assumes fits: "table_fits g s" and call: "succeed_attempt g s attempt = (r, s')"
  shows "if is_ok r then table_step g s s' else s' = s"
proof (cases "validate_attempt g s attempt")
  case (Inl e)
  with call show ?thesis by (auto simp: succeed_attempt_def)
next
  case (Inr i)
  note i = validate_attempt_Inr [OF fits Inr]
  then show ?thesis
    using call Inr table_step.succeed [of i s g] by (auto simp: succeed_attempt_def)
qed

lemma fail_attempt_step:
  assumes fits: "table_fits g s" and call: "fail_attempt g s attempt = (r, s')"
  shows "if is_ok r then table_step g s s' else s' = s"
proof (cases "validate_attempt g s attempt")
  case (Inl e)
  with call show ?thesis by (auto simp: fail_attempt_def)
next
  case (Inr i)
  note i = validate_attempt_Inr [OF fits Inr]
  moreover have "i < length (tg_nodes g)" using i(1) fits by (simp add: table_fits_def)
  ultimately show ?thesis
    using call Inr table_step.fail [of i s g] by (auto simp: fail_attempt_def)
qed

lemma cancel_task_step:
  assumes fits: "table_fits g s" and call: "cancel_task g s task = (r, s')"
  shows "if is_ok r then table_step g s s' else s' = s"
proof (cases "node_index g task")
  case None
  with call show ?thesis by (auto simp: cancel_task_def)
next
  case (Some i)
  then have "i < length s" using unknown_index [OF Some] fits by (simp add: table_fits_def)
  with Some show ?thesis
    using call table_step.cancel [of i s g] by (auto simp: cancel_task_def split: if_splits)
qed

subsection \<open>Propagation computes a closure\<close>

text \<open>
  The pending tasks that can no longer run: those with an unsuccessful prerequisite, and
  those with a prerequisite that can no longer run.
\<close>

inductive_set hopeless :: "task_graph \<Rightarrow> task_states \<Rightarrow> usize set" for g s where
  direct: "status_at s i = TaskPending \<Longrightarrow> (j, i) \<in> prerequisite_pairs g
    \<Longrightarrow> unsuccessful (status_at s j) \<Longrightarrow> i \<in> hopeless g s"
| chain: "status_at s i = TaskPending \<Longrightarrow> (j, i) \<in> prerequisite_pairs g
    \<Longrightarrow> j \<in> hopeless g s \<Longrightarrow> i \<in> hopeless g s"

definition mark_blocked :: "usize set \<Rightarrow> task_states \<Rightarrow> task_states" where
  "mark_blocked B s = map (\<lambda>(i, st). if i \<in> B then st\<lparr>rs_status := TaskBlocked\<rparr> else st)
     (enumerate 0 s)"

lemma length_mark_blocked [simp]: "length (mark_blocked B s) = length s"
  by (simp add: mark_blocked_def)

lemma nth_mark_blocked:
  "i < length s \<Longrightarrow> mark_blocked B s ! i = (if i \<in> B then (s ! i)\<lparr>rs_status := TaskBlocked\<rparr> else s ! i)"
  by (simp add: mark_blocked_def nth_enumerate_eq)

lemma mark_blocked_empty [simp]: "mark_blocked {} s = s"
  by (rule nth_equalityI) (simp_all add: nth_mark_blocked)

lemma mark_blocked_insert:
  "i < length s \<Longrightarrow> i \<notin> B \<Longrightarrow> set_status (mark_blocked B s) i TaskBlocked = mark_blocked (insert i B) s"
  by (rule nth_equalityI) (auto simp: nth_mark_blocked nth_update)

lemma table_fits_mark [simp]: "table_fits g (mark_blocked B s) \<longleftrightarrow> table_fits g s"
  by (simp add: table_fits_def)

lemma hopeless_bound: "graph_wf g \<Longrightarrow> i \<in> hopeless g s \<Longrightarrow> i < length (tg_nodes g)"
  by (erule hopeless.cases) (auto dest: prerequisite_pairs_bound(2))

lemma hopeless_pending: "i \<in> hopeless g s \<Longrightarrow> status_at s i = TaskPending"
  by (erule hopeless.cases) auto

lemma finite_hopeless: "graph_wf g \<Longrightarrow> finite (hopeless g s)"
  by (rule finite_subset [of _ "{..<length (tg_nodes g)}"]) (auto dest: hopeless_bound)

lemma doomed_mark_hopeless:
  assumes fits: "table_fits g s" and B: "B \<subseteq> hopeless g s"
    and pending: "status_at (mark_blocked B s) i = TaskPending" "i < length s"
    and doomed: "doomed_at g (mark_blocked B s) i"
  shows "i \<notin> B" and "i \<in> hopeless g s"
proof -
  show i: "i \<notin> B" using pending by (auto simp: nth_mark_blocked)
  from doomed obtain j where j: "(j, i) \<in> prerequisite_pairs g"
    "unsuccessful (status_at (mark_blocked B s) j)" by (auto simp: doomed_at_iff)
  have "j < length s" using prerequisite_pairs_bound(1) [OF _ j(1)] fits by (simp add: table_fits_def)
  with i j pending B show "i \<in> hopeless g s"
    by (cases "j \<in> B") (auto simp: nth_mark_blocked intro: hopeless.intros)
qed

lemma block_pass_marks:
  assumes "table_fits g s" and "B \<subseteq> hopeless g s" and "set ns \<subseteq> set (enumerate 0 (tg_nodes g))"
  shows "\<exists>C. block_pass g ns (mark_blocked B s) changed
      = (Inr (changed + card (C - B)), mark_blocked C s) \<and> B \<subseteq> C \<and> C \<subseteq> hopeless g s
    \<and> (C = B \<longrightarrow> (\<forall>(i, n) \<in> set ns. status_at (mark_blocked B s) i = TaskPending
          \<longrightarrow> \<not> doomed_at g (mark_blocked B s) i))"
  using assms(2,3)
proof (induction ns arbitrary: B changed)
  case Nil
  then show ?case by (intro exI [of _ B]) simp
next
  case (Cons n ns)
  obtain i node where n: "n = (i, node)" by (cases n)
  with Cons.prems have i: "i < length (tg_nodes g)" and node: "tn_id node = id_at g i"
    by (auto simp: in_set_enumerate_eq)
  have len: "i < length s" and wf: "graph_wf g" using i assms(1) by (simp_all add: table_fits_def)
  let ?s = "mark_blocked B s"
  have scan: "has_unsuccessful_prerequisite g ?s (tn_id node) = Inr (doomed_at g ?s i)"
    unfolding node by (rule has_unsuccessful_prerequisite_wf) (use assms(1) i in simp_all)
  show ?case
  proof (cases "status_at ?s i = TaskPending \<and> doomed_at g ?s i")
    case False
    then have skip: "block_pass g (n # ns) ?s changed = block_pass g ns ?s changed"
      using len scan by (auto simp: n)
    have "set ns \<subseteq> set (enumerate 0 (tg_nodes g))" using Cons.prems(2) by simp
    from Cons.IH [OF Cons.prems(1) this, of changed] show ?thesis
      unfolding skip using False by (auto simp: n)
  next
    case True
    note h = doomed_mark_hopeless [OF assms(1) Cons.prems(1) _ len]
    with True have new: "i \<notin> B" "i \<in> hopeless g s" by auto
    have "block_pass g (n # ns) ?s changed
        = block_pass g ns (mark_blocked (insert i B) s) (changed + 1)"
      using True len scan mark_blocked_insert [OF len new(1)] by (simp add: n)
    moreover have "insert i B \<subseteq> hopeless g s" "set ns \<subseteq> set (enumerate 0 (tg_nodes g))"
      using Cons.prems new by auto
    from Cons.IH [OF this, of "changed + 1"] obtain C where C:
      "block_pass g ns (mark_blocked (insert i B) s) (changed + 1)
        = (Inr (changed + 1 + card (C - insert i B)), mark_blocked C s)"
      "insert i B \<subseteq> C" "C \<subseteq> hopeless g s"
      by blast
    moreover have "card (C - B) = Suc (card (C - insert i B))"
    proof -
      have "finite C" using C(3) finite_hopeless [OF wf] by (rule finite_subset)
      then have "card (insert i (C - insert i B)) = Suc (card (C - insert i B))"
        by (intro card_insert_disjoint) auto
      moreover have "C - B = insert i (C - insert i B)" using new(1) C(2) by auto
      ultimately show ?thesis by (metis (no_types))
    qed
    ultimately show ?thesis using new(1) by (intro exI [of _ C]) auto
  qed
qed

lemma hopeless_subset_fixpoint:
  assumes fits: "table_fits g s"
    and fixed: "\<And>i. i < length s \<Longrightarrow> status_at (mark_blocked B s) i = TaskPending
      \<Longrightarrow> \<not> doomed_at g (mark_blocked B s) i"
  shows "hopeless g s \<subseteq> B"
proof
  have wf: "graph_wf g" and len: "length s = length (tg_nodes g)"
    using fits by (simp_all add: table_fits_def)
  fix i assume "i \<in> hopeless g s"
  then show "i \<in> B"
  proof induction
    case (direct i j)
    note bound = prerequisite_pairs_bound [OF wf direct(2), folded len]
    have "unsuccessful (status_at (mark_blocked B s) j)"
      using direct(3) bound by (simp add: nth_mark_blocked)
    with direct(2) have "doomed_at g (mark_blocked B s) i" by (auto simp: doomed_at_iff)
    with fixed [OF bound(2)] direct(1) bound(2) show ?case
      by (cases "i \<in> B") (simp_all add: nth_mark_blocked)
  next
    case (chain i j)
    note bound = prerequisite_pairs_bound [OF wf chain(2), folded len]
    have "unsuccessful (status_at (mark_blocked B s) j)"
      using chain.IH bound by (simp add: nth_mark_blocked)
    with chain(2) have "doomed_at g (mark_blocked B s) i" by (auto simp: doomed_at_iff)
    with fixed [OF bound(2)] chain(1) bound(2) show ?case
      by (cases "i \<in> B") (simp_all add: nth_mark_blocked)
  qed
qed

lemma propagate_loop_closure:
  assumes "table_fits g s" and "length (tg_nodes g) \<le> usize_max"
    and "B \<subseteq> hopeless g s"
  shows "propagate_loop g (mark_blocked B s) (card B)
    = (Inr (card (hopeless g s)), mark_blocked (hopeless g s) s)"
  using assms(3)
proof (induction "card (hopeless g s - B)" arbitrary: B rule: less_induct)
  case less
  have wf: "graph_wf g" and len: "length s = length (tg_nodes g)"
    using assms(1) by (simp_all add: table_fits_def)
  obtain C where C: "block_pass g (enumerate 0 (tg_nodes g)) (mark_blocked B s) 0
      = (Inr (card (C - B)), mark_blocked C s)" "B \<subseteq> C" "C \<subseteq> hopeless g s"
    and fixed: "C = B \<longrightarrow> (\<forall>(i, n) \<in> set (enumerate 0 (tg_nodes g)).
      status_at (mark_blocked B s) i = TaskPending \<longrightarrow> \<not> doomed_at g (mark_blocked B s) i)"
    using block_pass_marks [OF assms(1) less.prems subset_refl, of 0] by auto
  have fin: "finite (hopeless g s)" by (rule finite_hopeless [OF wf])
  have finC: "finite C" using C(3) fin by (rule finite_subset)
  have cardC: "card B + card (C - B) = card C"
    using C(2) finC by (simp add: card_Diff_subset finite_subset card_mono)
  have "hopeless g s \<subseteq> {..<length (tg_nodes g)}" using hopeless_bound [OF wf] by auto
  then have "card C \<le> length (tg_nodes g)"
    using C(3) by (metis card_lessThan card_mono finite_lessThan order_trans)
  then have total: "usize_saturating_add (card B) (card (C - B)) = card C"
    using cardC assms(2) by (simp add: usize_saturating_add_def)
  show ?case
  proof (cases "C = B")
    case True
    have "hopeless g s \<subseteq> B"
    proof (rule hopeless_subset_fixpoint [OF assms(1)])
      fix i assume "i < length s"
      then have "(i, tg_nodes g ! i) \<in> set (enumerate 0 (tg_nodes g))"
        by (simp add: in_set_enumerate_eq len)
      with fixed True show "status_at (mark_blocked B s) i = TaskPending
          \<Longrightarrow> \<not> doomed_at g (mark_blocked B s) i" by fast
    qed
    with less.prems have "B = hopeless g s" by simp
    with C(1) True total show ?thesis by (simp add: propagate_loop.simps)
  next
    case False
    with C(2) have "B \<subset> C" by auto
    then have changed: "card (C - B) \<noteq> 0" using finC by auto
    have "hopeless g s - C \<subset> hopeless g s - B" using \<open>B \<subset> C\<close> C(3) by auto
    then have "card (hopeless g s - C) < card (hopeless g s - B)"
      using fin by (intro psubset_card_mono) auto
    from less.hyps [OF this C(3)] show ?thesis
      using C(1) changed total by (simp add: propagate_loop.simps [of g "mark_blocked B s"])
  qed
qed

lemma propagate_blocked_closure:
  "table_fits g s \<Longrightarrow> length (tg_nodes g) \<le> usize_max
     \<Longrightarrow> propagate_blocked g s = (Inr (card (hopeless g s)), mark_blocked (hopeless g s) s)"
  using propagate_loop_closure [of g s "{}"] by (simp add: propagate_blocked_def)

end
