(* ===== verification/Task_Progress.thy ===== *)
theory Task_Progress
  imports Task_Execution
begin

section \<open>What the task state table guarantees\<close>

text \<open>
  Sequences of calls on one table, their refinement to the moves of \<open>Task_Execution\<close>, and the
  properties of the table: budgets and ordering, attempts that settle once, the ready list,
  the closure of blocked tasks and progress.
\<close>

subsection \<open>Calls\<close>

datatype table_call =
    CallStart task_id | CallSucceed task_attempt | CallFail task_attempt | CallCancel task_id
  | CallPropagate

datatype table_answer = Started task_attempt | Settled | Propagated usize

fun table_apply ::
    "task_graph \<Rightarrow> table_call \<Rightarrow> task_states \<Rightarrow> (task_graph_error + table_answer) \<times> task_states" where
  "table_apply g (CallStart task) s =
     apfst (\<lambda>r. bind_ok r (\<lambda>attempt. Inr (Started attempt))) (start_task g s task)"
| "table_apply g (CallSucceed attempt) s =
     apfst (\<lambda>r. bind_ok r (\<lambda>_. Inr Settled)) (succeed_attempt g s attempt)"
| "table_apply g (CallFail attempt) s =
     apfst (\<lambda>r. bind_ok r (\<lambda>_. Inr Settled)) (fail_attempt g s attempt)"
| "table_apply g (CallCancel task) s =
     apfst (\<lambda>r. bind_ok r (\<lambda>_. Inr Settled)) (cancel_task g s task)"
| "table_apply g CallPropagate s =
     apfst (\<lambda>r. bind_ok r (\<lambda>count. Inr (Propagated count))) (propagate_blocked g s)"

fun table_run ::
    "task_graph \<Rightarrow> table_call list \<Rightarrow> task_states
       \<Rightarrow> (task_graph_error + table_answer) list \<times> task_states" where
  "table_run g [] s = ([], s)"
| "table_run g (c # cs) s =
     (let (r, s') = table_apply g c s; (rs, t) = table_run g cs s' in (r # rs, t))"

subsection \<open>Refinement\<close>

lemma block_pass_steps:
  assumes "table_fits g s" and "set ns \<subseteq> set (enumerate 0 (tg_nodes g))"
    and "block_pass g ns s changed = (r, s')"
  shows "table_steps g s s'"
  using assms
proof (induction g ns s changed arbitrary: r s' rule: block_pass.induct)
  case (2 g i node ns s changed)
  then have i: "i < length (tg_nodes g)" and node: "tn_id node = id_at g i"
    by (auto simp: in_set_enumerate_eq)
  then have len: "i < length s" using "2.prems"(1) by (simp add: table_fits_def)
  have scan: "has_unsuccessful_prerequisite g s (tn_id node) = Inr (doomed_at g s i)"
    unfolding node by (rule has_unsuccessful_prerequisite_wf) (use "2.prems" i in simp_all)
  have rest: "set ns \<subseteq> set (enumerate 0 (tg_nodes g))" using "2.prems"(2) by simp
  show ?case
  proof (cases "status_at s i = TaskPending")
    case False
    with 2 len rest show ?thesis by simp
  next
    case True
    show ?thesis
    proof (cases "doomed_at g s i")
      case False
      with 2 True len rest scan show ?thesis by simp
    next
      case doomed: True
      then have "table_step g s (set_status s i TaskBlocked)"
        using True len by (intro table_step.block)
      moreover have "table_steps g (set_status s i TaskBlocked) s'"
        using 2 True doomed len rest scan by simp
      ultimately show ?thesis by (rule converse_rtranclp_into_rtranclp)
    qed
  qed
qed simp

lemma propagate_loop_steps:
  "table_fits g s \<Longrightarrow> propagate_loop g s n = (r, s') \<Longrightarrow> table_steps g s s'"
proof (induction g s n arbitrary: r s' rule: propagate_loop.induct)
  case (1 g s n)
  obtain q t where pass: "block_pass g (enumerate 0 (tg_nodes g)) s 0 = (q, t)" by fastforce
  have steps: "table_steps g s t"
    by (rule block_pass_steps [OF "1.prems"(1) subset_refl pass])
  have fits: "table_fits g t" by (rule table_steps_fits [OF steps "1.prems"(1)])
  show ?case
  proof (cases "\<exists>changed. q = Inr changed \<and> changed \<noteq> 0")
    case True
    then obtain changed where q: "q = Inr changed" "changed \<noteq> 0" by blast
    then have "propagate_loop g t (usize_saturating_add n changed) = (r, s')"
      using "1.prems"(2) pass by (simp add: propagate_loop.simps [of g s])
    then have "table_steps g t s'" using "1.IH" [OF pass [symmetric] q(1,2) fits] by simp
    with steps show ?thesis by (rule rtranclp_trans)
  next
    case False
    with "1.prems"(2) pass steps show ?thesis
      by (auto simp: propagate_loop.simps [of g s] split: sum.splits if_splits)
  qed
qed

lemma table_apply_steps:
  assumes fits: "table_fits g s" and call: "table_apply g c s = (r, s')"
  shows "table_steps g s s'"
proof (cases c)
  case (CallStart t)
  with call obtain q where "start_task g s t = (q, s')" by (cases "start_task g s t") auto
  from start_task_step [OF fits this] show ?thesis by (auto split: if_splits)
next
  case (CallSucceed a)
  with call obtain q where "succeed_attempt g s a = (q, s')" by (cases "succeed_attempt g s a") auto
  from succeed_attempt_step [OF fits this] show ?thesis by (auto split: if_splits)
next
  case (CallFail a)
  with call obtain q where "fail_attempt g s a = (q, s')" by (cases "fail_attempt g s a") auto
  from fail_attempt_step [OF fits this] show ?thesis by (auto split: if_splits)
next
  case (CallCancel t)
  with call obtain q where "cancel_task g s t = (q, s')" by (cases "cancel_task g s t") auto
  from cancel_task_step [OF fits this] show ?thesis by (auto split: if_splits)
next
  case CallPropagate
  with call obtain q where "propagate_loop g s 0 = (q, s')"
    by (cases "propagate_loop g s 0") (auto simp: propagate_blocked_def)
  with fits show ?thesis by (rule propagate_loop_steps)
qed

lemma table_run_steps:
  "table_fits g s \<Longrightarrow> table_run g cs s = (rs, t) \<Longrightarrow> table_steps g s t"
proof (induction cs arbitrary: s rs)
  case (Cons c cs)
  obtain r s' where step: "table_apply g c s = (r, s')" by fastforce
  with Cons.prems(2) obtain ps where run: "table_run g cs s' = (ps, t)"
    by (auto split: prod.splits)
  have "table_steps g s s'" by (rule table_apply_steps [OF Cons.prems(1) step])
  moreover from this have "table_fits g s'" using Cons.prems(1) by (rule table_steps_fits)
  ultimately show ?case using Cons.IH [OF _ run] by (auto intro: rtranclp_trans)
qed simp

subsection \<open>Attempts\<close>

text \<open>An attempt that is over: a later one has started, or its task no longer runs.\<close>

definition attempt_spent :: "task_graph \<Rightarrow> task_attempt \<Rightarrow> task_states \<Rightarrow> bool" where
  "attempt_spent g a s \<longleftrightarrow> (\<exists>i. node_index g (at_task a) = Some i
     \<and> (at_number a < attempts_at s i
        \<or> at_number a = attempts_at s i \<and> status_at s i \<noteq> TaskRunning))"

lemma attempt_spent_step:
  assumes step: "table_step g s s'" and spent: "attempt_spent g a s"
  shows "attempt_spent g a s'"
proof -
  from spent obtain i where i: "node_index g (at_task a) = Some i"
    and old: "at_number a < attempts_at s i
        \<or> at_number a = attempts_at s i \<and> status_at s i \<noteq> TaskRunning"
    by (auto simp: attempt_spent_def)
  have "at_number a < attempts_at s' i
      \<or> at_number a = attempts_at s' i \<and> status_at s' i \<noteq> TaskRunning"
    using step
  proof cases
    case (start k)
    then show ?thesis
      using old next_attempt(4) [of "attempts_at s k" "max_attempts_at g k"]
      by (auto simp: nth_update)
  qed (use old in \<open>auto simp: nth_update\<close>)
  with i show ?thesis by (auto simp: attempt_spent_def)
qed

lemma attempt_spent_steps: "table_steps g s s' \<Longrightarrow> attempt_spent g a s \<Longrightarrow> attempt_spent g a s'"
  by (induction rule: rtranclp_induct) (auto intro: attempt_spent_step)

lemma settled_is_spent:
  assumes fits: "table_fits g s" and "c \<in> {CallSucceed a, CallFail a}"
    and "table_apply g c s = (Inr x, s')"
  shows "attempt_spent g a s'"
proof -
  obtain i where v: "validate_attempt g s a = Inr i"
    using assms(2,3)
    by (cases "validate_attempt g s a") (auto simp: succeed_attempt_def fail_attempt_def)
  note i = validate_attempt_Inr [OF fits v]
  moreover have "i < length (tg_nodes g)" using i(1) fits by (simp add: table_fits_def)
  ultimately show ?thesis
    using assms(2,3) v
    by (auto simp: attempt_spent_def succeed_attempt_def fail_attempt_def split: if_splits)
qed

lemma spent_is_rejected:
  assumes fits: "table_fits g s" and spent: "attempt_spent g a s"
    and "c \<in> {CallSucceed a, CallFail a}"
  shows "\<exists>active status. table_apply g c s = (Inl (InvalidAttempt a active status), s)"
proof -
  from spent obtain i where "node_index g (at_task a) = Some i"
    and "\<not> (status_at s i = TaskRunning \<and> attempts_at s i = at_number a)"
    unfolding attempt_spent_def by (metis less_irrefl)
  then show ?thesis
    using validate_attempt_wf [OF fits, of a i] assms(3)
    by (auto simp: succeed_attempt_def fail_attempt_def)
qed

subsection \<open>The ready list\<close>

definition startable_at :: "task_graph \<Rightarrow> task_states \<Rightarrow> usize \<Rightarrow> bool" where
  "startable_at g s i \<longleftrightarrow> status_at s i \<in> {TaskPending, TaskFailed} \<and> ready_at g s i
     \<and> attempts_at s i < max_attempts_at g i"

lemma startable_iff_start:
  "table_fits g s \<Longrightarrow> i < length (tg_nodes g)
     \<Longrightarrow> startable_at g s i \<longleftrightarrow> is_ok (fst (start_task g s (id_at g i)))"
  by (auto simp: start_task_wf startable_at_def)

lemma ready_loop_result:
  assumes fits: "table_fits g s" and "set ns \<subseteq> set (enumerate 0 (tg_nodes g))"
    and "written \<le> length out"
    and ready: "ready = map (\<lambda>(i, node). tn_id node) (filter (\<lambda>(i, node). startable_at g s i) ns)"
  shows "ready_loop g s ns out written =
    (if written + length ready \<le> length out
     then (Inr (written + length ready),
           take written out @ ready @ drop (written + length ready) out)
     else (Inl (GraphCapacityExhausted (capacity_exhausted_new TaskNodes
             (usize_to_u64 (usize_saturating_add (length out) 1)) (usize_to_u64 (length out)))),
           take written out @ take (length out - written) ready))"
  using assms(2-)
proof (induction ns arbitrary: out written ready)
  case (Cons n ns)
  obtain i node where n: "n = (i, node)" by (cases n)
  with Cons.prems have i: "i < length (tg_nodes g)" and node: "tn_id node = id_at g i"
    and max: "tb_maximum_attempts (tn_budget node) = max_attempts_at g i"
    by (auto simp: in_set_enumerate_eq)
  have len: "i < length s" using i fits by (simp add: table_fits_def)
  have scan: "prerequisites_succeeded g s (tn_id node) = Inr (ready_at g s i)"
    unfolding node by (rule prerequisites_succeeded_wf [OF fits i])
  have rest: "set ns \<subseteq> set (enumerate 0 (tg_nodes g))" using Cons.prems(1) by simp
  let ?more = "map (\<lambda>(i, node). tn_id node) (filter (\<lambda>(i, node). startable_at g s i) ns)"
  show ?case
  proof (cases "startable_at g s i")
    case False
    then have "ready_loop g s (n # ns) out written = ready_loop g s ns out written"
      using len scan max by (auto simp: n startable_at_def)
    with Cons.IH [OF rest Cons.prems(2) refl] False Cons.prems(3) show ?thesis by (simp add: n)
  next
    case True
    have ready: "ready = tn_id node # ?more" using True Cons.prems(3) by (simp add: n)
    show ?thesis
    proof (cases "written < length out")
      case False
      with True len scan max Cons.prems(2) show ?thesis
        by (auto simp: n startable_at_def ready)
    next
      case slot: True
      then have "ready_loop g s (n # ns) out written
          = ready_loop g s ns (out[written := tn_id node]) (written + 1)"
        using True len scan max by (auto simp: n startable_at_def)
      moreover have "take (written + 1) (out[written := tn_id node]) = take written out @ [tn_id node]"
        using slot by (simp add: take_Suc_conv_app_nth)
      ultimately show ?thesis
        using slot Cons.IH [OF rest _ refl, of "written + 1" "out[written := tn_id node]"]
        by (auto simp: ready take_Cons')
    qed
  qed
qed simp

lemma ready_list_nodes:
  assumes "table_fits g s"
  shows "map (\<lambda>(i, node). tn_id node) (filter (\<lambda>(i, node). startable_at g s i) (enumerate 0 (tg_nodes g)))
    = map tn_id (filter (\<lambda>node. is_ok (fst (start_task g s (tn_id node)))) (tg_nodes g))"
proof -
  let ?ns = "enumerate 0 (tg_nodes g)" and ?ok = "\<lambda>node. is_ok (fst (start_task g s (tn_id node)))"
  have "filter (\<lambda>(i, node). startable_at g s i) ?ns = filter (\<lambda>(i, node). ?ok node) ?ns"
    by (rule filter_cong) (auto simp: in_set_enumerate_eq startable_iff_start [OF assms])
  moreover have "map (\<lambda>(i, node). tn_id node) (filter (\<lambda>(i, node). P node) (enumerate k xs))
      = map tn_id (filter P xs)" for P k xs
    by (induction xs arbitrary: k) auto
  ultimately show ?thesis by simp
qed

subsection \<open>Progress\<close>

lemma prerequisite_pairs_wf:
  assumes wf: "graph_wf g" and "acyclic (dependency_edges g)"
  shows "wf (prerequisite_pairs g)"
proof (rule wf_subset)
  show "wf (inv_image (dependency_edges g) (id_at g))"
    using assms(2) by (intro wf_inv_image finite_acyclic_wf) (simp add: dependency_edges_def)
  have "(id_at g (source_index g d), id_at g (target_index g d)) \<in> dependency_edges g"
    if d: "d \<in> set (tg_dependencies g)" for d
    using node_index_Some [OF graph_wf_edge(1) [OF wf d]]
      node_index_Some [OF graph_wf_edge(2) [OF wf d]] d by (auto simp: dependency_edges_def)
  then show "prerequisite_pairs g \<subseteq> inv_image (dependency_edges g) (id_at g)"
    by (auto simp: prerequisite_pairs_def)
qed

fun terminal :: "task_status \<Rightarrow> bool" where
  "terminal TaskPending = False"
| "terminal TaskRunning = False"
| "terminal TaskFailed = False"
| "terminal _ = True"

lemma terminal_cases: "terminal st \<longleftrightarrow> st = TaskSucceeded \<or> unsuccessful st"
  by (cases st) auto

lemma stuck_table_is_terminal:
  assumes fits: "table_fits g s" and inv: "table_inv g s" and dag: "acyclic (dependency_edges g)"
    and idle: "\<And>i. i < length s \<Longrightarrow> status_at s i \<noteq> TaskRunning"
    and stuck: "\<And>i. i < length s \<Longrightarrow> \<not> startable_at g s i"
    and fixed: "\<And>i. i < length s \<Longrightarrow> status_at s i = TaskPending \<Longrightarrow> \<not> doomed_at g s i"
    and i: "i < length s"
  shows "terminal (status_at s i)"
proof -
  have wf: "graph_wf g" and len: "length s = length (tg_nodes g)"
    using fits by (simp_all add: table_fits_def)
  from prerequisite_pairs_wf [OF wf dag] i show ?thesis
  proof (induction i rule: wf_induct_rule)
    case (less i)
    have before: "terminal (status_at s j)" if "(j, i) \<in> prerequisite_pairs g" for j
      using less.IH [OF that] prerequisite_pairs_bound(1) [OF wf that] len by simp
    show ?case
    proof (rule ccontr)
      assume "\<not> terminal (status_at s i)"
      then have open_task: "status_at s i = TaskPending \<or> status_at s i = TaskFailed"
        using idle [OF less.prems] by (cases "status_at s i") auto
      have ok: "attempts_ok (max_attempts_at g i) (s ! i)" "attempts_at s i \<noteq> 0 \<longrightarrow> ready_at g s i"
        using inv less.prems by (auto simp: table_inv_def)
      have "max_attempts_at g i \<noteq> 0" using fits less.prems len by (simp add: table_fits_def)
      then have budget: "attempts_at s i < max_attempts_at g i"
        using ok(1) open_task by (auto simp: word_gt_0)
      have "ready_at g s i"
      proof (cases "status_at s i = TaskPending")
        case True
        then have "\<not> doomed_at g s i" using fixed less.prems by blast
        then show ?thesis
          using before by (auto simp: ready_at_iff doomed_at_iff terminal_cases)
      next
        case False
        with open_task ok show ?thesis by auto
      qed
      with open_task budget have "startable_at g s i" by (auto simp: startable_at_def)
      with stuck less.prems show False by blast
    qed
  qed
qed

lemma mark_hopeless_fixed:
  assumes fits: "table_fits g s" and i: "i < length s"
    and pending: "status_at (mark_blocked (hopeless g s) s) i = TaskPending"
  shows "\<not> doomed_at g (mark_blocked (hopeless g s) s) i"
  using doomed_mark_hopeless [OF fits subset_refl pending i] by blast

subsection \<open>Properties\<close>

abbreviation fresh_table :: "task_graph \<Rightarrow> task_states" where
  "fresh_table g \<equiv> replicate (length (tg_nodes g)) task_runtime_state_default"

lemma fresh_table_fits:
  "graph_wf g \<Longrightarrow> \<forall>node \<in> set (tg_nodes g). tb_maximum_attempts (tn_budget node) \<noteq> 0
     \<Longrightarrow> table_fits g (fresh_table g)"
  by (simp add: table_fits_def)

text \<open>
  \<^bold>\<open>C35\<close>. Budgets and ordering. Whatever calls are made on a fresh table over a well-formed
  graph, every task has used at most its budget of attempts: none if it is pending or blocked,
  at least one and fewer than the budget if it may be retried, exactly the budget if it is
  exhausted. A task that was ever started has all its direct prerequisites succeeded, and a
  blocked task has a direct prerequisite that ended without success.
\<close>
theorem task_table_invariant:
  assumes "graph_wf g" and "\<forall>node \<in> set (tg_nodes g). tb_maximum_attempts (tn_budget node) \<noteq> 0"
    and "table_run g cs (fresh_table g) = (rs, s)"
  shows "length s = length (tg_nodes g) \<and> table_inv g s"
  using table_run_steps [OF fresh_table_fits [OF assms(1,2)] assms(3)]
    table_steps_fits [OF _ fresh_table_fits [OF assms(1,2)]] table_inv_steps table_inv_new
  by (auto simp: table_fits_def)

text \<open>
  An attempt settles once. After \<open>succeed_attempt\<close> or \<open>fail_attempt\<close> has accepted an
  attempt token, no later call with the same token is accepted, whatever calls, retries of the
  same task included, come between: it answers \<open>InvalidAttempt\<close> and changes nothing.
\<close>
theorem attempt_settles_once:
  assumes "table_fits g s" and "c \<in> {CallSucceed a, CallFail a}"
    and "table_apply g c s = (Inr x, s1)" and "table_run g cs s1 = (rs, s2)"
    and "c' \<in> {CallSucceed a, CallFail a}"
  shows "\<exists>active status. table_apply g c' s2 = (Inl (InvalidAttempt a active status), s2)"
proof -
  have fits1: "table_fits g s1"
    using table_apply_steps [OF assms(1,3)] assms(1) by (rule table_steps_fits)
  have steps: "table_steps g s1 s2" by (rule table_run_steps [OF fits1 assms(4)])
  have "attempt_spent g a s2"
    using steps settled_is_spent [OF assms(1,2,3)] by (rule attempt_spent_steps)
  with table_steps_fits [OF steps fits1] show ?thesis using assms(5) by (rule spent_is_rejected)
qed

text \<open>
  The ready list is exact. \<open>ready_tasks\<close> writes, in graph order, exactly the tasks
  that \<open>start\<close> would accept and leaves the rest of the output slice as it was; when the slice
  is too short it fills it with the first of them and reports the missing capacity.
\<close>
theorem ready_tasks_exact:
  assumes "table_fits g s"
    and "ready = map tn_id (filter (\<lambda>node. is_ok (fst (start_task g s (tn_id node)))) (tg_nodes g))"
  shows "ready_tasks g s out =
    (if length ready \<le> length out then (Inr (length ready), ready @ drop (length ready) out)
     else (Inl (GraphCapacityExhausted (capacity_exhausted_new TaskNodes
             (usize_to_u64 (usize_saturating_add (length out) 1)) (usize_to_u64 (length out)))),
           take (length out) ready))"
  using ready_loop_result [OF assms(1) subset_refl, of 0 out] ready_list_nodes [OF assms(1)] assms(2)
  by (simp add: ready_tasks_def)

text \<open>
  \<^bold>\<open>C36\<close>. Propagation is the closure. \<open>propagate_blocked\<close> returns, and blocks in one call
  exactly the pending tasks that can no longer run: those from which a chain of pending
  prerequisites leads back to an unsuccessful task. Nothing else changes and the result is
  their number.
\<close>
theorem propagate_blocked_exact:
  assumes "table_fits g s" and "length (tg_nodes g) \<le> usize_max"
  shows "propagate_blocked g s = (Inr (card (hopeless g s)), mark_blocked (hopeless g s) s)"
  using assms by (rule propagate_blocked_closure)

text \<open>
  A graph never gets stuck. On an acyclic graph, after any calls on a fresh table and
  one \<open>propagate_blocked\<close>, either some task is running, or \<open>start\<close> accepts some task, or every
  task has ended: succeeded, exhausted, cancelled or blocked.
\<close>
theorem task_graph_progress:
  assumes "graph_wf g" and "acyclic (dependency_edges g)" and "length (tg_nodes g) \<le> usize_max"
    and "\<forall>node \<in> set (tg_nodes g). tb_maximum_attempts (tn_budget node) \<noteq> 0"
    and "table_run g cs (fresh_table g) = (rs, s)" and "propagate_blocked g s = (r, s')"
  shows "(\<exists>st \<in> set s'. rs_status st = TaskRunning)
    \<or> (\<exists>node \<in> set (tg_nodes g). is_ok (fst (start_task g s' (tn_id node))))
    \<or> (\<forall>st \<in> set s'. terminal (rs_status st))"
proof (rule disjCI)
  note fresh = fresh_table_fits [OF assms(1,4)]
  have steps: "table_steps g (fresh_table g) s" by (rule table_run_steps [OF fresh assms(5)])
  have fits: "table_fits g s" by (rule table_steps_fits [OF steps fresh])
  have s': "s' = mark_blocked (hopeless g s) s"
    using propagate_blocked_closure [OF fits assms(3)] assms(6) by simp
  then have fits': "table_fits g s'" using fits by simp
  have "table_steps g s s'"
    using table_apply_steps [OF fits, of CallPropagate] assms(6) by simp
  then have inv: "table_inv g s'"
    using steps table_inv_new by (blast intro: table_inv_steps)
  assume "\<not> ((\<exists>node \<in> set (tg_nodes g). is_ok (fst (start_task g s' (tn_id node))))
    \<or> (\<forall>st \<in> set s'. terminal (rs_status st)))"
  then have idle: "\<not> (\<forall>st \<in> set s'. terminal (rs_status st))"
    and stuck: "\<not> (\<exists>node \<in> set (tg_nodes g). is_ok (fst (start_task g s' (tn_id node))))"
    by simp_all
  have len: "length s' = length (tg_nodes g)" using fits' by (simp add: table_fits_def)
  have "terminal (status_at s' i)" if "\<not> (\<exists>st \<in> set s'. rs_status st = TaskRunning)" "i < length s'" for i
  proof (rule stuck_table_is_terminal [OF fits' inv assms(2) _ _ _ that(2)])
    show "status_at s' i \<noteq> TaskRunning" if "i < length s'" for i
      using \<open>\<not> (\<exists>st \<in> set s'. rs_status st = TaskRunning)\<close> that nth_mem by blast
    show "\<not> startable_at g s' i" if "i < length s'" for i
      using stuck startable_iff_start [OF fits'] that len nth_mem by metis
    show "\<not> doomed_at g s' i" if "i < length s'" "status_at s' i = TaskPending" for i
      using mark_hopeless_fixed [OF fits] that unfolding s' by simp
  qed
  with idle show "\<exists>st \<in> set s'. rs_status st = TaskRunning" by (metis in_set_conv_nth)
qed

subsection \<open>The properties on a concrete graph\<close>

lemma example_graph_facts:
  "graph_wf example_graph"
  "\<forall>node \<in> set (tg_nodes example_graph). tb_maximum_attempts (tn_budget node) \<noteq> 0"
  "length (tg_nodes example_graph) = 3" "length (tg_nodes example_graph) \<le> usize_max"
  by (simp_all add: graph_wf_def dependency_edges_def graph_ids_def example_graph_def
      example_node_def usize_max_def)

lemma example_graph_acyclic: "acyclic (dependency_edges example_graph)"
  by (rule acyclicI_order [where f = "\<lambda>t. - uint (task_id_get t)"])
    (auto simp: dependency_edges_def example_graph_def)

abbreviation example_attempt :: "u64 \<Rightarrow> u16 \<Rightarrow> task_attempt" where
  "example_attempt t n \<equiv> \<lparr>at_task = TaskId t, at_number = n\<rparr>"

lemma two_attempts: "\<not> 2 \<le> (1 :: u16)"
  by (simp add: word_le_nat_alt)

lemmas table_simps =
  two_attempts
  start_task_def succeed_attempt_def fail_attempt_def cancel_task_def validate_attempt_def
  prerequisites_succeeded_def has_unsuccessful_prerequisite_def prerequisite_status_def
  propagate_blocked_def propagate_loop.simps task_runtime_state_default_def
  example_graph_def example_node_def node_index_def saturating_add_def usize_saturating_add_def
  usize_max_def Let_def numeral_3_eq_3

lemma example_run:
  "table_run example_graph
     [CallStart (TaskId 1), CallFail (example_attempt 1 1), CallStart (TaskId 1),
      CallFail (example_attempt 1 2), CallPropagate] (fresh_table example_graph)
   = ([Inr (Started (example_attempt 1 1)), Inr Settled, Inr (Started (example_attempt 1 2)),
       Inr Settled, Inr (Propagated 2)],
      [\<lparr>rs_status = TaskExhausted, rs_attempts = 2\<rparr>, \<lparr>rs_status = TaskBlocked, rs_attempts = 0\<rparr>,
       \<lparr>rs_status = TaskBlocked, rs_attempts = 0\<rparr>])"
  by (simp add: table_simps)

theorem task_table_invariant_witness:
  "attempts_ok 2 \<lparr>rs_status = TaskExhausted, rs_attempts = 2\<rparr>
   \<and> table_inv example_graph
      [\<lparr>rs_status = TaskExhausted, rs_attempts = 2\<rparr>, \<lparr>rs_status = TaskBlocked, rs_attempts = 0\<rparr>,
       \<lparr>rs_status = TaskBlocked, rs_attempts = 0\<rparr>]"
  using task_table_invariant [OF example_graph_facts(1,2) example_run] by simp

theorem attempt_settles_once_witness:
  "\<exists>active status. table_apply example_graph (CallSucceed (example_attempt 1 1))
      [\<lparr>rs_status = TaskRunning, rs_attempts = 2\<rparr>, task_runtime_state_default,
       task_runtime_state_default]
     = (Inl (InvalidAttempt (example_attempt 1 1) active status),
        [\<lparr>rs_status = TaskRunning, rs_attempts = 2\<rparr>, task_runtime_state_default,
         task_runtime_state_default])"
proof (rule attempt_settles_once)
  let ?s = "[\<lparr>rs_status = TaskRunning, rs_attempts = 1\<rparr>, task_runtime_state_default,
       task_runtime_state_default]"
  show "table_fits example_graph ?s"
    using example_graph_facts by (simp add: table_fits_def)
  show "table_apply example_graph (CallFail (example_attempt 1 1)) ?s
      = (Inr Settled, [\<lparr>rs_status = TaskFailed, rs_attempts = 1\<rparr>, task_runtime_state_default,
       task_runtime_state_default])"
    by (simp add: table_simps)
  show "table_run example_graph [CallStart (TaskId 1)]
      [\<lparr>rs_status = TaskFailed, rs_attempts = 1\<rparr>, task_runtime_state_default,
       task_runtime_state_default] = ([Inr (Started (example_attempt 1 2))],
      [\<lparr>rs_status = TaskRunning, rs_attempts = 2\<rparr>, task_runtime_state_default,
       task_runtime_state_default])"
    by (simp add: table_simps)
qed simp_all

theorem ready_tasks_exact_witness:
  "ready_tasks example_graph (fresh_table example_graph) [TaskId 9, TaskId 9]
     = (Inr 1, [TaskId 1, TaskId 9])"
proof -
  have fits: "table_fits example_graph (fresh_table example_graph)"
    using example_graph_facts by (simp add: table_fits_def)
  have ready: "[TaskId 1] = map tn_id (filter (\<lambda>node.
      is_ok (fst (start_task example_graph (fresh_table example_graph) (tn_id node))))
      (tg_nodes example_graph))"
    by (simp add: table_simps)
  from ready_tasks_exact [OF fits ready, of "[TaskId 9, TaskId 9]"] show ?thesis by simp
qed

theorem propagate_blocked_exact_witness:
  "hopeless example_graph [\<lparr>rs_status = TaskCancelled, rs_attempts = 0\<rparr>,
       task_runtime_state_default, task_runtime_state_default] = {1, 2}"
proof -
  let ?s = "[\<lparr>rs_status = TaskCancelled, rs_attempts = 0\<rparr>, task_runtime_state_default,
       task_runtime_state_default]"
  have fits: "table_fits example_graph ?s"
    using example_graph_facts by (simp add: table_fits_def)
  have run: "propagate_blocked example_graph ?s = (Inr 2, [\<lparr>rs_status = TaskCancelled, rs_attempts = 0\<rparr>,
      \<lparr>rs_status = TaskBlocked, rs_attempts = 0\<rparr>, \<lparr>rs_status = TaskBlocked, rs_attempts = 0\<rparr>])"
    by (simp add: table_simps)
  then have marked: "mark_blocked (hopeless example_graph ?s) ?s = [\<lparr>rs_status = TaskCancelled, rs_attempts = 0\<rparr>,
      \<lparr>rs_status = TaskBlocked, rs_attempts = 0\<rparr>, \<lparr>rs_status = TaskBlocked, rs_attempts = 0\<rparr>]"
    using propagate_blocked_exact [OF fits example_graph_facts(4)] by simp
  then have "1 \<in> hopeless example_graph ?s" "2 \<in> hopeless example_graph ?s"
    by (auto simp: mark_blocked_def task_runtime_state_default_def numeral_2_eq_2 split: if_splits)
  moreover have "i \<in> {1, 2}" if "i \<in> hopeless example_graph ?s" for i
    using hopeless_bound [OF example_graph_facts(1) that] hopeless_pending [OF that]
    by (cases i) (auto simp: example_graph_facts(3) numeral_3_eq_3 less_Suc_eq)
  ultimately show ?thesis by blast
qed

theorem task_graph_progress_witness:
  "is_ok (fst (start_task example_graph (fresh_table example_graph) (TaskId 1)))"
proof -
  have "propagate_blocked example_graph (fresh_table example_graph)
      = (Inr 0, fresh_table example_graph)"
    by (simp add: table_simps)
  moreover have "table_run example_graph [] (fresh_table example_graph)
      = ([], fresh_table example_graph)" by simp
  ultimately have "\<exists>node \<in> set (tg_nodes example_graph).
      is_ok (fst (start_task example_graph (fresh_table example_graph) (tn_id node)))"
    using task_graph_progress [OF example_graph_facts(1) example_graph_acyclic
        example_graph_facts(4,2)]
    by (fastforce simp: example_graph_facts(3) task_runtime_state_default_def)
  then show ?thesis by (auto simp: table_simps)
qed

end
