(* ===== verification/Comparators.thy ===== *)
theory Comparators
  imports Prelude "HOL-Library.Multiset"
begin

section \<open>Comparators and sorting\<close>

text \<open>
  \<open>core::cmp::Ordering\<close>, \<open>Ord::cmp\<close>, \<open>Ordering::then_with\<close> and \<open>slice::sort_unstable_by\<close>.
  The locale \<open>comparator\<close> states the laws the standard library asks of a comparison function;
  inside it a list has one sorted rearrangement, provided that no two different elements
  compare equal, so that the choice of an algorithm does not matter and an unstable sort is
  as good as the insertion sort \<open>sort_by\<close>.
\<close>

datatype ordering = OLess | OEqual | OGreater

definition compare_to :: "'a::linorder \<Rightarrow> 'a \<Rightarrow> ordering" where
  "compare_to x y = (if x < y then OLess else if x = y then OEqual else OGreater)"

fun then_with :: "ordering \<Rightarrow> ordering \<Rightarrow> ordering" where
  "then_with OEqual later = later"
| "then_with first later = first"

fun insort_by :: "('a \<Rightarrow> 'a \<Rightarrow> ordering) \<Rightarrow> 'a \<Rightarrow> 'a list \<Rightarrow> 'a list" where
  "insort_by cmp x [] = [x]"
| "insort_by cmp x (y # ys) =
     (if cmp x y = OGreater then y # insort_by cmp x ys else x # y # ys)"

definition sort_by :: "('a \<Rightarrow> 'a \<Rightarrow> ordering) \<Rightarrow> 'a list \<Rightarrow> 'a list" where
  "sort_by cmp xs = foldr (insort_by cmp) xs []"

abbreviation sorted_by :: "('a \<Rightarrow> 'a \<Rightarrow> ordering) \<Rightarrow> 'a list \<Rightarrow> bool" where
  "sorted_by cmp \<equiv> sorted_wrt (\<lambda>x y. cmp x y \<noteq> OGreater)"

lemma mset_insort_by [simp]: "mset (insort_by cmp x xs) = add_mset x (mset xs)"
  by (induction xs) auto

lemma mset_sort_by [simp]: "mset (sort_by cmp xs) = mset xs"
  by (induction xs) (auto simp: sort_by_def)

lemma set_sort_by [simp]: "set (sort_by cmp xs) = set xs"
  by (rule mset_eq_setD) simp

lemma length_sort_by [simp]: "length (sort_by cmp xs) = length xs"
  by (rule mset_eq_length) simp

lemma distinct_sort_by [simp]: "distinct (sort_by cmp xs) = distinct xs"
  by (metis mset_eq_imp_distinct_iff mset_sort_by)

lemma map_insort_by: "map f (insort_by (\<lambda>x y. cmp (f x) (f y)) x xs) = insort_by cmp (f x) (map f xs)"
  by (induction xs) auto

lemma map_sort_by: "map f (sort_by (\<lambda>x y. cmp (f x) (f y)) xs) = sort_by cmp (map f xs)"
  by (induction xs) (auto simp: sort_by_def map_insort_by)

lemma insort_by_cong:
  "(\<And>y. y \<in> set ys \<Longrightarrow> cmp x y = cmp' x y) \<Longrightarrow> insort_by cmp x ys = insort_by cmp' x ys"
  by (induction ys) auto

lemma sort_by_cong:
  assumes "\<And>x y. x \<in> set xs \<Longrightarrow> y \<in> set xs \<Longrightarrow> cmp x y = cmp' x y"
  shows "sort_by cmp xs = sort_by cmp' xs"
  using assms
proof (induction xs)
  case (Cons a xs)
  then have "sort_by cmp xs = sort_by cmp' xs" by simp
  moreover have "insort_by cmp a (sort_by cmp' xs) = insort_by cmp' a (sort_by cmp' xs)"
    by (rule insort_by_cong) (simp add: Cons.prems)
  ultimately show ?case by (simp add: sort_by_def)
qed (simp add: sort_by_def)

locale comparator =
  fixes cmp :: "'a \<Rightarrow> 'a \<Rightarrow> ordering"
  assumes flip: "cmp y x = OGreater \<longleftrightarrow> cmp x y = OLess"
    and trans_le: "cmp x y \<noteq> OGreater \<Longrightarrow> cmp y z \<noteq> OGreater \<Longrightarrow> cmp x z \<noteq> OGreater"
begin

lemma refl_equal: "cmp x x = OEqual"
  using flip [of x x] by (cases "cmp x x") auto

lemma total_le: "cmp x y \<noteq> OGreater \<or> cmp y x \<noteq> OGreater"
  using flip by (metis ordering.distinct(3))

lemma equal_both: "cmp x y = OEqual \<longleftrightarrow> cmp x y \<noteq> OGreater \<and> cmp y x \<noteq> OGreater"
  using flip [of x y] flip [of y x] by (cases "cmp x y") auto

lemma sorted_insort_by: "sorted_by cmp xs \<Longrightarrow> sorted_by cmp (insort_by cmp x xs)"
proof (induction xs)
  case (Cons y ys)
  have set: "set (insort_by cmp x ys) = insert x (set ys)"
    by (metis mset_insort_by set_mset_add_mset_insert set_mset_mset)
  show ?case
  proof (cases "cmp x y = OGreater")
    case True
    then have "cmp y x \<noteq> OGreater" using total_le by blast
    with Cons True set show ?thesis by auto
  next
    case False
    with Cons.prems show ?thesis using trans_le [OF False] by auto
  qed
qed simp

lemma sorted_sort_by: "sorted_by cmp (sort_by cmp xs)"
  by (induction xs) (auto simp: sort_by_def sorted_insort_by)

lemma sorted_by_unique:
  assumes "sorted_by cmp xs" and "sorted_by cmp ys" and "mset xs = mset ys"
    and "\<And>x y. x \<in> set xs \<Longrightarrow> y \<in> set xs \<Longrightarrow> cmp x y = OEqual \<Longrightarrow> x = y"
  shows "xs = ys"
  using assms
proof (induction xs arbitrary: ys)
  case (Cons x xs)
  then obtain y ys' where ys: "ys = y # ys'" by (cases ys) auto
  have sets: "set ys = insert x (set xs)" using Cons.prems(3) by (metis list.simps(15) mset_eq_setD)
  have "y = x \<or> y \<in> set xs" "x = y \<or> x \<in> set ys'" using sets ys by auto
  then have "cmp x y \<noteq> OGreater" "cmp y x \<noteq> OGreater"
    using Cons.prems(1,2) ys refl_equal by auto
  then have "cmp x y = OEqual" using equal_both by blast
  moreover have "y \<in> set (x # xs)" using sets ys by auto
  ultimately have "x = y" using Cons.prems(4) [of x y] by simp
  with Cons ys show ?case by simp
qed simp

lemma sort_by_unique:
  assumes "sorted_by cmp ys" and "mset ys = mset xs"
    and "\<And>x y. x \<in> set xs \<Longrightarrow> y \<in> set xs \<Longrightarrow> cmp x y = OEqual \<Longrightarrow> x = y"
  shows "sort_by cmp xs = ys"
  using sorted_by_unique [OF sorted_sort_by assms(1)] assms(2,3) by simp

end

text \<open>The comparators of the code are built from \<open>cmp\<close> on a key, in either direction.\<close>

lemma comparator_key: "comparator (\<lambda>x y. compare_to (key x) (key y))"
  by unfold_locales (auto simp: compare_to_def split: if_splits)

lemma comparator_key_descending: "comparator (\<lambda>x y. compare_to (key y) (key x))"
  by unfold_locales (auto simp: compare_to_def split: if_splits)

lemma then_with_le: "then_with a b \<noteq> OGreater \<longleftrightarrow> a = OLess \<or> a = OEqual \<and> b \<noteq> OGreater"
  by (cases a) auto

lemma then_with_greater:
  "then_with a b = OGreater \<longleftrightarrow> a = OGreater \<or> a = OEqual \<and> b = OGreater"
  by (cases a) auto

lemma then_with_less: "then_with a b = OLess \<longleftrightarrow> a = OLess \<or> a = OEqual \<and> b = OLess"
  by (cases a) auto

lemma then_with_equal: "then_with a b = OEqual \<longleftrightarrow> a = OEqual \<and> b = OEqual"
  by (cases a) auto

lemma compare_to_equal [simp]: "compare_to x y = OEqual \<longleftrightarrow> x = y"
  by (auto simp: compare_to_def)

lemma comparator_then:
  assumes a: "comparator a" and b: "comparator b"
  shows "comparator (\<lambda>x y. then_with (a x y) (b x y))"
proof
  have flips: "a y x = OGreater \<longleftrightarrow> a x y = OLess" "a y x = OEqual \<longleftrightarrow> a x y = OEqual"
    "b y x = OGreater \<longleftrightarrow> b x y = OLess" for x y
    using comparator.flip [OF a] comparator.flip [OF b] comparator.equal_both [OF a] by blast+
  show "then_with (a y x) (b y x) = OGreater \<longleftrightarrow> then_with (a x y) (b x y) = OLess" for x y
    unfolding then_with_greater then_with_less using flips by blast
  fix x y z
  assume "then_with (a x y) (b x y) \<noteq> OGreater" "then_with (a y z) (b y z) \<noteq> OGreater"
  moreover have "a x z = OLess" if "a x y \<noteq> OGreater" "a y z \<noteq> OGreater" "a x y = OLess \<or> a y z = OLess"
  proof -
    have "a x z \<noteq> OGreater" using comparator.trans_le [OF a that(1,2)] .
    moreover have "a x z \<noteq> OEqual"
    proof
      assume "a x z = OEqual"
      then have "a z x \<noteq> OGreater" "a x z \<noteq> OGreater" using comparator.equal_both [OF a] by blast+
      then have "a y x \<noteq> OGreater" "a z y \<noteq> OGreater"
        using comparator.trans_le [OF a] that(1,2) by blast+
      with that(3) flips(1) show False by blast
    qed
    ultimately show ?thesis by (cases "a x z") auto
  qed
  moreover have "a x z = OEqual" if "a x y = OEqual" "a y z = OEqual"
    using that comparator.equal_both [OF a] comparator.trans_le [OF a] by metis
  ultimately show "then_with (a x z) (b x z) \<noteq> OGreater"
    unfolding then_with_le using comparator.trans_le [OF b, of x y z] by auto
qed

end
