(* ===== verification/Context_Planner.thy ===== *)
theory Context_Planner
  imports Contracts Comparators
begin

section \<open>Context planning\<close>

text \<open>
  \<open>crates/features/context-planner/src/lib.rs\<close>: the context entries, the budget, and \<open>plan\<close>
  with its two loops, its sorts and its checks of the caller-owned index buffers. What the
  buffers hold outside the returned slices, and after a failure, is not part of the result.
\<close>

subsection \<open>Data\<close>

datatype context_entry_id = ContextEntryId (entry_id_get: u64)

datatype context_role =
  RoleSystem | RoleUser | RoleAssistant | RoleTool | RoleRetrieved | RoleDiagnostic

datatype context_source =
    SourceApplication | SourceUser | SourceModel | SourceTool | SourceRetrieval | SourceValidator

datatype context_persistence = Pinned | Retained | Ephemeral

type_synonym context_priority = u8

datatype context_content =
    ContentText string
  | ContentTokens "token_id list"
  | ContentArtifact artifact_id

record context_entry =
  ce_id :: context_entry_id
  ce_ordinal :: u64
  ce_role :: context_role
  ce_source :: context_source
  ce_priority :: context_priority
  ce_persistence :: context_persistence
  ce_estimated_tokens :: u32
  ce_content :: context_content

record context_budget =
  cb_maximum_tokens :: u32
  cb_reserved_output_tokens :: u32

datatype planning_error =
    InvalidBudget
  | DuplicateEntryId context_entry_id
  | PinnedBudgetExceeded u64 u64
  | PlanningCapacityExhausted capacity_exhausted

definition context_budget_new :: "u32 \<Rightarrow> u32 \<Rightarrow> planning_error + context_budget" where
  "context_budget_new maximum reserved =
     (if maximum = 0 \<or> maximum < reserved then Inl InvalidBudget
      else Inr \<lparr>cb_maximum_tokens = maximum, cb_reserved_output_tokens = reserved\<rparr>)"

definition available_input_tokens :: "context_budget \<Rightarrow> u32" where
  "available_input_tokens b = saturating_sub (cb_maximum_tokens b) (cb_reserved_output_tokens b)"

record plan_workspace =
  ws_ordering :: "usize list"
  ws_selected :: "usize list"
  ws_dropped :: "usize list"

record context_plan =
  cp_selected :: "usize list"
  cp_dropped :: "usize list"
  cp_input_tokens :: u32
  cp_reserved_output_tokens :: u32
  cp_maximum_tokens :: u32

text \<open>The iterator over the selected entries skips an index that is out of range.\<close>

definition selected_entries :: "context_entry list \<Rightarrow> context_plan \<Rightarrow> context_entry list" where
  "selected_entries entries p = List.map_filter (slice_get entries) (cp_selected p)"

subsection \<open>Orders\<close>

fun persistence_rank :: "context_persistence \<Rightarrow> u8" where
  "persistence_rank Pinned = 2"
| "persistence_rank Retained = 1"
| "persistence_rank Ephemeral = 0"

definition entry_candidate_order :: "context_entry \<Rightarrow> context_entry \<Rightarrow> ordering" where
  "entry_candidate_order left right =
     then_with (compare_to (ce_priority right) (ce_priority left))
      (then_with (compare_to (persistence_rank (ce_persistence right))
                    (persistence_rank (ce_persistence left)))
        (then_with (compare_to (ce_ordinal right) (ce_ordinal left))
          (compare_to (entry_id_get (ce_id left)) (entry_id_get (ce_id right)))))"

definition entry_ordinal_order :: "context_entry \<Rightarrow> context_entry \<Rightarrow> ordering" where
  "entry_ordinal_order left right =
     then_with (compare_to (ce_ordinal left) (ce_ordinal right))
       (compare_to (entry_id_get (ce_id left)) (entry_id_get (ce_id right)))"

definition by_entry ::
    "(context_entry \<Rightarrow> context_entry \<Rightarrow> ordering) \<Rightarrow> context_entry list \<Rightarrow> usize \<Rightarrow> usize \<Rightarrow> ordering"
  where
  "by_entry order entries left right =
     (case (slice_get entries left, slice_get entries right) of
        (Some left_entry, Some right_entry) \<Rightarrow> order left_entry right_entry
      | (Some _, None) \<Rightarrow> OLess
      | (None, Some _) \<Rightarrow> OGreater
      | (None, None) \<Rightarrow> compare_to left right)"

definition candidate_order :: "context_entry list \<Rightarrow> usize \<Rightarrow> usize \<Rightarrow> ordering" where
  "candidate_order = by_entry entry_candidate_order"

definition ordinal_order :: "context_entry list \<Rightarrow> usize \<Rightarrow> usize \<Rightarrow> ordering" where
  "ordinal_order = by_entry entry_ordinal_order"

subsection \<open>Planning\<close>

definition workspace_capacity :: "usize \<Rightarrow> usize \<Rightarrow> planning_error" where
  "workspace_capacity required available = PlanningCapacityExhausted
     (capacity_exhausted_new ContextEntries (usize_to_u64 required) (usize_to_u64 available))"

definition validate_workspace :: "usize \<Rightarrow> plan_workspace \<Rightarrow> planning_error + unit" where
  "validate_workspace required ws =
     (let available = min (min (length (ws_ordering ws)) (length (ws_selected ws)))
            (length (ws_dropped ws))
      in if available < required then Inl (workspace_capacity required available) else Inr ())"

definition validate_unique_ids :: "context_entry list \<Rightarrow> planning_error + unit" where
  "validate_unique_ids entries = try_tails (\<lambda>left tail.
     if \<exists>right \<in> set tail. ce_id right = ce_id left then Inl (DuplicateEntryId (ce_id left))
     else Inr ()) entries"

definition write_index :: "usize list \<Rightarrow> usize \<Rightarrow> usize \<Rightarrow> planning_error + usize list" where
  "write_index out pos value =
     (if pos < length out then Inr (out[pos := value])
      else Inl (workspace_capacity (usize_saturating_add pos 1) (length out)))"

text \<open>The loop that separates the pinned entries from the candidates.\<close>

record split_state =
  sp_selected :: "usize list"
  sp_selected_length :: usize
  sp_ordering :: "usize list"
  sp_candidate_length :: usize
  sp_pinned_tokens :: u64

definition split_entry :: "split_state \<Rightarrow> usize \<times> context_entry \<Rightarrow> planning_error + split_state" where
  "split_entry st x = (case x of (index, entry) \<Rightarrow>
     if ce_persistence entry = Pinned
     then bind_ok (write_index (sp_selected st) (sp_selected_length st) index) (\<lambda>selected.
       Inr (st\<lparr>sp_pinned_tokens :=
                  saturating_add (sp_pinned_tokens st) (ucast (ce_estimated_tokens entry)),
               sp_selected := selected, sp_selected_length := sp_selected_length st + 1\<rparr>))
     else bind_ok (write_index (sp_ordering st) (sp_candidate_length st) index) (\<lambda>ordering.
       Inr (st\<lparr>sp_ordering := ordering, sp_candidate_length := sp_candidate_length st + 1\<rparr>)))"

text \<open>The loop that admits the candidates while they fit.\<close>

record admit_state =
  ad_selected :: "usize list"
  ad_selected_length :: usize
  ad_dropped :: "usize list"
  ad_dropped_length :: usize
  ad_tokens :: u64

definition admit_candidate ::
    "context_entry list \<Rightarrow> u64 \<Rightarrow> admit_state \<Rightarrow> usize \<Rightarrow> planning_error + admit_state" where
  "admit_candidate entries available st index =
     (case slice_get entries index of
        None \<Rightarrow> Inl (PlanningCapacityExhausted (capacity_exhausted_new ContextEntries
                  (saturating_add (usize_to_u64 index) 1) (usize_to_u64 (length entries))))
      | Some entry \<Rightarrow>
          let tokens = ucast (ce_estimated_tokens entry) in
          if saturating_add (ad_tokens st) tokens \<le> available
          then bind_ok (write_index (ad_selected st) (ad_selected_length st) index) (\<lambda>selected.
            Inr (st\<lparr>ad_selected := selected, ad_selected_length := ad_selected_length st + 1,
                    ad_tokens := saturating_add (ad_tokens st) tokens\<rparr>))
          else bind_ok (write_index (ad_dropped st) (ad_dropped_length st) index) (\<lambda>dropped.
            Inr (st\<lparr>ad_dropped := dropped, ad_dropped_length := ad_dropped_length st + 1\<rparr>)))"

definition slice_to :: "usize list \<Rightarrow> usize \<Rightarrow> planning_error + usize list" where
  "slice_to buffer n =
     (if n \<le> length buffer then Inr (take n buffer)
      else Inl (workspace_capacity n (length buffer)))"

definition plan ::
    "context_entry list \<Rightarrow> context_budget \<Rightarrow> plan_workspace \<Rightarrow> planning_error + context_plan" where
  "plan entries budget ws =
     bind_ok (validate_workspace (length entries) ws) (\<lambda>_.
     bind_ok (validate_unique_ids entries) (\<lambda>_.
     let available_tokens = ucast (available_input_tokens budget) in
     bind_ok (try_fold split_entry
         \<lparr>sp_selected = ws_selected ws, sp_selected_length = 0, sp_ordering = ws_ordering ws,
          sp_candidate_length = 0, sp_pinned_tokens = 0\<rparr> (enumerate 0 entries)) (\<lambda>st.
     if available_tokens < sp_pinned_tokens st
     then Inl (PinnedBudgetExceeded (sp_pinned_tokens st) available_tokens)
     else
     bind_ok (slice_to (sp_ordering st) (sp_candidate_length st)) (\<lambda>candidates.
     bind_ok (try_fold (admit_candidate entries available_tokens)
         \<lparr>ad_selected = sp_selected st, ad_selected_length = sp_selected_length st,
          ad_dropped = ws_dropped ws, ad_dropped_length = 0, ad_tokens = sp_pinned_tokens st\<rparr>
         (sort_by (candidate_order entries) candidates)) (\<lambda>ad.
     bind_ok (slice_to (ad_selected ad) (ad_selected_length ad)) (\<lambda>selected.
     bind_ok (slice_to (ad_dropped ad) (ad_dropped_length ad)) (\<lambda>dropped.
     if 2 ^ 32 \<le> unat (ad_tokens ad)
     then Inl (PinnedBudgetExceeded (ad_tokens ad) available_tokens)
     else Inr \<lparr>cp_selected = sort_by (ordinal_order entries) selected,
               cp_dropped = sort_by (ordinal_order entries) dropped,
               cp_input_tokens = ucast (ad_tokens ad),
               cp_reserved_output_tokens = cb_reserved_output_tokens budget,
               cp_maximum_tokens = cb_maximum_tokens budget\<rparr>)))))))"

end
