(* ===== verification/Context_Selection.thy ===== *)
theory Context_Selection
  imports Context_Planner
begin

section \<open>What a context plan selects\<close>

text \<open>
  The specification of \<open>plan\<close> works on entries and natural numbers: the pinned entries, then
  the greedy choice over the candidates in their order. The loops over indices and buffers
  are shown to compute it, and the properties follow: when a plan exists, that it partitions
  the entries within the budget, that the choice is the greedy one, and that it does not
  depend on the order in which the entries are given.
\<close>

subsection \<open>The comparators are total orders on distinct identities\<close>

lemma entry_candidate_comparator: "comparator entry_candidate_order"
  unfolding entry_candidate_order_def
  by (intro comparator_then comparator_key comparator_key_descending)

lemma entry_ordinal_comparator: "comparator entry_ordinal_order"
  unfolding entry_ordinal_order_def by (intro comparator_then comparator_key)

lemma entry_order_equal:
  "entry_candidate_order a b = OEqual \<Longrightarrow> ce_id a = ce_id b"
  "entry_ordinal_order a b = OEqual \<Longrightarrow> ce_id a = ce_id b"
  by (auto simp: entry_candidate_order_def entry_ordinal_order_def then_with_equal
      intro: context_entry_id.expand)

lemma comparator_by_entry:
  assumes "comparator order"
  shows "comparator (by_entry order entries)"
proof -
  note c = comparator.flip [OF assms] comparator.trans_le [OF assms]
  show ?thesis
  proof
    show "by_entry order entries y x = OGreater \<longleftrightarrow> by_entry order entries x y = OLess" for x y
      by (auto simp: by_entry_def c(1) compare_to_def slice_get_def)
    show "by_entry order entries x z \<noteq> OGreater"
      if "by_entry order entries x y \<noteq> OGreater" "by_entry order entries y z \<noteq> OGreater" for x y z
      using that c(2) [of "entries ! x" "entries ! y" "entries ! z"]
      by (auto simp: by_entry_def compare_to_def slice_get_def split: if_splits)
  qed
qed

interpretation candidates: comparator "candidate_order entries" for entries
  unfolding candidate_order_def
  by (rule comparator_by_entry [OF entry_candidate_comparator])

interpretation ordinals: comparator "ordinal_order entries" for entries
  unfolding ordinal_order_def
  by (rule comparator_by_entry [OF entry_ordinal_comparator])

lemma by_entry_nth:
  "i < length entries \<Longrightarrow> j < length entries
     \<Longrightarrow> by_entry order entries i j = order (entries ! i) (entries ! j)"
  by (simp add: by_entry_def)

lemma map_sort_by_entry:
  assumes "set is \<subseteq> {..<length entries}"
  shows "map ((!) entries) (sort_by (by_entry order entries) is)
    = sort_by order (map ((!) entries) is)"
proof -
  have "sort_by (by_entry order entries) is
      = sort_by (\<lambda>i j. order (entries ! i) (entries ! j)) is"
    using assms by (intro sort_by_cong by_entry_nth) auto
  then show ?thesis by (simp add: map_sort_by)
qed

subsection \<open>The greedy choice\<close>

fun greedy :: "('a \<Rightarrow> nat) \<Rightarrow> nat \<Rightarrow> nat \<Rightarrow> 'a list \<Rightarrow> 'a list" where
  "greedy w available used [] = []"
| "greedy w available used (x # xs) =
     (if used + w x \<le> available then x # greedy w available (used + w x) xs
      else greedy w available used xs)"

fun leftover :: "('a \<Rightarrow> nat) \<Rightarrow> nat \<Rightarrow> nat \<Rightarrow> 'a list \<Rightarrow> 'a list" where
  "leftover w available used [] = []"
| "leftover w available used (x # xs) =
     (if used + w x \<le> available then leftover w available (used + w x) xs
      else x # leftover w available used xs)"

lemma greedy_partition: "mset (greedy w a u xs) + mset (leftover w a u xs) = mset xs"
  by (induction xs arbitrary: u) auto

lemma greedy_sets: "set (greedy w a u xs) \<union> set (leftover w a u xs) = set xs"
  by (induction xs arbitrary: u) auto

lemma greedy_budget: "u \<le> a \<Longrightarrow> u + sum_list (map w (greedy w a u xs)) \<le> a"
  by (induction xs arbitrary: u) (auto simp: add.assoc [symmetric])

lemma map_greedy: "map f (greedy (\<lambda>x. w (f x)) a u xs) = greedy w a u (map f xs)"
  by (induction xs arbitrary: u) auto

lemma greedy_cong: "(\<And>x. x \<in> set xs \<Longrightarrow> w x = w' x) \<Longrightarrow> greedy w a u xs = greedy w' a u xs"
  by (induction xs arbitrary: u) auto

lemma greedy_split:
  assumes "distinct (ys @ x # zs)"
  shows "x \<in> set (greedy w a u (ys @ x # zs))
    \<longleftrightarrow> u + sum_list (map w (greedy w a u ys)) + w x \<le> a"
    and "set (greedy w a u (ys @ x # zs)) \<inter> set ys = set (greedy w a u ys)"
proof -
  have sub: "set (greedy w a v vs) \<subseteq> set vs" for v vs using greedy_sets [of w a v vs] by blast
  show "x \<in> set (greedy w a u (ys @ x # zs))
      \<longleftrightarrow> u + sum_list (map w (greedy w a u ys)) + w x \<le> a"
    using assms
  proof (induction ys arbitrary: u)
    case Nil
    then show ?case using sub [of _ zs] by auto
  next
    case (Cons y ys)
    then show ?case by (auto simp: add.assoc)
  qed
  show "set (greedy w a u (ys @ x # zs)) \<inter> set ys = set (greedy w a u ys)"
    using assms
  proof (induction ys arbitrary: u)
    case (Cons y ys)
    from Cons.IH [of u] Cons.IH [of "u + w y"] Cons.prems show ?case
      using sub [of u ys] sub [of "u + w y" ys] sub [of u "ys @ x # zs"]
        sub [of "u + w y" "ys @ x # zs"] by auto
  qed simp
qed

subsection \<open>Index buffers\<close>

definition buffer_holds :: "usize list \<Rightarrow> usize \<Rightarrow> usize list \<Rightarrow> bool" where
  "buffer_holds buffer n xs \<longleftrightarrow> n = length xs \<and> n \<le> length buffer \<and> take n buffer = xs"

lemma buffer_holds_empty [simp]: "buffer_holds buffer 0 []"
  by (simp add: buffer_holds_def)

lemma write_index_holds:
  assumes "buffer_holds buffer n xs" and "n < length buffer"
  shows "write_index buffer n i = Inr (buffer[n := i])"
    and "buffer_holds (buffer[n := i]) (n + 1) (xs @ [i])"
  using assms by (auto simp: write_index_def buffer_holds_def take_Suc_conv_app_nth)

lemma slice_to_holds: "buffer_holds buffer n xs \<Longrightarrow> slice_to buffer n = Inr xs"
  by (auto simp: slice_to_def buffer_holds_def)

definition tokens_at :: "context_entry list \<Rightarrow> usize \<Rightarrow> nat" where
  "tokens_at entries i = unat (ce_estimated_tokens (entries ! i))"

abbreviation entry_tokens :: "context_entry \<Rightarrow> nat" where
  "entry_tokens e \<equiv> unat (ce_estimated_tokens e)"

lemma unat_entry_tokens [simp]:
  "unat (ucast (ce_estimated_tokens e) :: u64) = entry_tokens e"
proof -
  have "unat (ce_estimated_tokens e) < 2 ^ 32"
    using unsigned_less [of "ce_estimated_tokens e"] by simp
  then show ?thesis by (simp add: unsigned_ucast_eq take_bit_nat_eq_self)
qed

lemma split_loop:
  assumes "buffer_holds (sp_selected st) (sp_selected_length st) xs"
    and "buffer_holds (sp_ordering st) (sp_candidate_length st) ys"
    and "length xs + length ns \<le> length (sp_selected st)"
    and "length ys + length ns \<le> length (sp_ordering st)"
  shows "\<exists>st'. try_fold split_entry st ns = Inr st'
    \<and> buffer_holds (sp_selected st') (sp_selected_length st')
        (xs @ map fst (filter (\<lambda>(i, e). ce_persistence e = Pinned) ns))
    \<and> buffer_holds (sp_ordering st') (sp_candidate_length st')
        (ys @ map fst (filter (\<lambda>(i, e). ce_persistence e \<noteq> Pinned) ns))
    \<and> length (sp_selected st') = length (sp_selected st)
    \<and> unat (sp_pinned_tokens st') = min (unat (sp_pinned_tokens st)
        + sum_list (map (\<lambda>(i, e). entry_tokens e) (filter (\<lambda>(i, e). ce_persistence e = Pinned) ns)))
        (2 ^ 64 - 1)"
  using assms
proof (induction ns arbitrary: st xs ys)
  case Nil
  have "unat (sp_pinned_tokens st) < 2 ^ 64" using unsigned_less [of "sp_pinned_tokens st"] by simp
  with Nil show ?case by (simp add: min_def)
next
  case (Cons n ns)
  obtain i e where n: "n = (i, e)" by (cases n)
  show ?case
  proof (cases "ce_persistence e = Pinned")
    case True
    have room: "sp_selected_length st < length (sp_selected st)"
      using Cons.prems by (simp add: buffer_holds_def)
    note w = write_index_holds [OF Cons.prems(1) room, of i]
    let ?st = "st\<lparr>sp_pinned_tokens :=
        saturating_add (sp_pinned_tokens st) (ucast (ce_estimated_tokens e)),
      sp_selected := (sp_selected st)[sp_selected_length st := i],
      sp_selected_length := sp_selected_length st + 1\<rparr>"
    have "try_fold split_entry st (n # ns) = try_fold split_entry ?st ns"
      using True w(1) by (simp add: n split_entry_def)
    with Cons.IH [of ?st "xs @ [i]" ys] Cons.prems w(2) True show ?thesis
      by (auto simp: n unat_saturating_add min_def)
  next
    case False
    have room: "sp_candidate_length st < length (sp_ordering st)"
      using Cons.prems by (simp add: buffer_holds_def)
    note w = write_index_holds [OF Cons.prems(2) room, of i]
    let ?st = "st\<lparr>sp_ordering := (sp_ordering st)[sp_candidate_length st := i],
      sp_candidate_length := sp_candidate_length st + 1\<rparr>"
    have "try_fold split_entry st (n # ns) = try_fold split_entry ?st ns"
      using False w(1) by (simp add: n split_entry_def)
    with Cons.IH [of ?st xs "ys @ [i]"] Cons.prems w(2) False show ?thesis
      by (auto simp: n)
  qed
qed

lemma admit_loop:
  assumes "buffer_holds (ad_selected st) (ad_selected_length st) xs"
    and "buffer_holds (ad_dropped st) (ad_dropped_length st) ys"
    and "length xs + length is \<le> length (ad_selected st)"
    and "length ys + length is \<le> length (ad_dropped st)"
    and "set is \<subseteq> {..<length entries}"
    and "unat available < 2 ^ 32" and "unat (ad_tokens st) \<le> unat available"
  shows "\<exists>st'. try_fold (admit_candidate entries available) st is = Inr st'
    \<and> buffer_holds (ad_selected st') (ad_selected_length st')
        (xs @ greedy (tokens_at entries) (unat available) (unat (ad_tokens st)) is)
    \<and> buffer_holds (ad_dropped st') (ad_dropped_length st')
        (ys @ leftover (tokens_at entries) (unat available) (unat (ad_tokens st)) is)
    \<and> unat (ad_tokens st') = unat (ad_tokens st) + sum_list (map (tokens_at entries)
        (greedy (tokens_at entries) (unat available) (unat (ad_tokens st)) is))"
  using assms(1-5,7)
proof (induction "is" arbitrary: st xs ys)
  case Nil
  then show ?case by simp
next
  case (Cons i "is")
  have i: "i < length entries" using Cons.prems(5) by simp
  let ?t = "ucast (ce_estimated_tokens (entries ! i)) :: u64"
  have t: "unat ?t = tokens_at entries i" by (simp add: tokens_at_def)
  have "unat ?t < 2 ^ 32" using unsigned_less [of "ce_estimated_tokens (entries ! i)"] by simp
  then have sum: "unat (saturating_add (ad_tokens st) ?t)
      = unat (ad_tokens st) + tokens_at entries i"
    using Cons.prems(6) assms(6) t by (simp add: unat_saturating_add)
  show ?case
  proof (cases "unat (ad_tokens st) + tokens_at entries i \<le> unat available")
    case True
    have room: "ad_selected_length st < length (ad_selected st)"
      using Cons.prems by (simp add: buffer_holds_def)
    note w = write_index_holds [OF Cons.prems(1) room, of i]
    let ?st = "st\<lparr>ad_selected := (ad_selected st)[ad_selected_length st := i],
      ad_selected_length := ad_selected_length st + 1,
      ad_tokens := saturating_add (ad_tokens st) ?t\<rparr>"
    have "try_fold (admit_candidate entries available) st (i # is)
        = try_fold (admit_candidate entries available) ?st is"
      using True sum w(1) i by (simp add: admit_candidate_def word_le_nat_alt Let_def)
    with Cons.IH [of ?st "xs @ [i]" ys] Cons.prems w(2) True sum show ?thesis
      by auto
  next
    case False
    have room: "ad_dropped_length st < length (ad_dropped st)"
      using Cons.prems by (simp add: buffer_holds_def)
    note w = write_index_holds [OF Cons.prems(2) room, of i]
    let ?st = "st\<lparr>ad_dropped := (ad_dropped st)[ad_dropped_length st := i],
      ad_dropped_length := ad_dropped_length st + 1\<rparr>"
    have "try_fold (admit_candidate entries available) st (i # is)
        = try_fold (admit_candidate entries available) ?st is"
      using False sum w(1) i by (simp add: admit_candidate_def word_le_nat_alt Let_def)
    with Cons.IH [of ?st xs "ys @ [i]"] Cons.prems w(2) False show ?thesis
      by auto
  qed
qed

subsection \<open>The plan\<close>

definition pinned_indices :: "context_entry list \<Rightarrow> usize list" where
  "pinned_indices entries = map fst (filter (\<lambda>(i, e). ce_persistence e = Pinned) (enumerate 0 entries))"

definition candidate_indices :: "context_entry list \<Rightarrow> usize list" where
  "candidate_indices entries =
     map fst (filter (\<lambda>(i, e). ce_persistence e \<noteq> Pinned) (enumerate 0 entries))"

definition pinned_tokens :: "context_entry list \<Rightarrow> nat" where
  "pinned_tokens entries = sum_list (map (tokens_at entries) (pinned_indices entries))"

definition ordered_candidates :: "context_entry list \<Rightarrow> usize list" where
  "ordered_candidates entries = sort_by (candidate_order entries) (candidate_indices entries)"

definition admitted :: "context_entry list \<Rightarrow> nat \<Rightarrow> usize list" where
  "admitted entries available =
     greedy (tokens_at entries) available (pinned_tokens entries) (ordered_candidates entries)"

definition rejected :: "context_entry list \<Rightarrow> nat \<Rightarrow> usize list" where
  "rejected entries available =
     leftover (tokens_at entries) available (pinned_tokens entries) (ordered_candidates entries)"

definition workspace_fits :: "context_entry list \<Rightarrow> plan_workspace \<Rightarrow> bool" where
  "workspace_fits entries ws \<longleftrightarrow> length entries \<le> length (ws_ordering ws)
     \<and> length entries \<le> length (ws_selected ws) \<and> length entries \<le> length (ws_dropped ws)"

lemma set_pinned_indices:
  "set (pinned_indices entries) = {i. i < length entries \<and> ce_persistence (entries ! i) = Pinned}"
  by (force simp: pinned_indices_def in_set_enumerate_eq)

lemma set_candidate_indices:
  "set (candidate_indices entries) = {i. i < length entries \<and> ce_persistence (entries ! i) \<noteq> Pinned}"
  by (force simp: candidate_indices_def in_set_enumerate_eq)

lemma distinct_indices:
  "distinct (pinned_indices entries)" "distinct (candidate_indices entries)"
  by (simp_all add: pinned_indices_def candidate_indices_def distinct_map_filter)

lemma length_indices:
  "length (pinned_indices entries) + length (candidate_indices entries) = length entries"
proof -
  have "length (filter P xs) + length (filter (\<lambda>x. \<not> P x) xs) = length xs" for P and xs :: "'x list"
    by (rule sum_length_filter_compl)
  from this [of "\<lambda>(i, e). ce_persistence e = Pinned" "enumerate 0 entries"] show ?thesis
    by (simp add: pinned_indices_def candidate_indices_def case_prod_unfold)
qed

lemma pinned_tokens_entries:
  "sum_list (map (\<lambda>(i, e). entry_tokens e)
      (filter (\<lambda>(i, e). ce_persistence e = Pinned) (enumerate 0 entries)))
    = pinned_tokens entries"
  unfolding pinned_tokens_def pinned_indices_def map_map
  by (rule arg_cong [where f = sum_list], rule map_cong)
    (auto simp: in_set_enumerate_eq tokens_at_def)

lemma set_ordered_candidates: "set (ordered_candidates entries) = set (candidate_indices entries)"
  by (simp add: ordered_candidates_def)

lemma admitted_sets:
  "set (admitted entries a) \<union> set (rejected entries a) = set (candidate_indices entries)"
  unfolding admitted_def rejected_def greedy_sets set_ordered_candidates ..

lemma admitted_mset:
  "mset (admitted entries a) + mset (rejected entries a) = mset (candidate_indices entries)"
  unfolding admitted_def rejected_def greedy_partition by (simp add: ordered_candidates_def)

lemma admitted_distinct:
  "distinct (admitted entries a @ rejected entries a)"
  using admitted_mset [of entries a] distinct_indices(2) [of entries]
  by (metis mset_append mset_eq_imp_distinct_iff)

lemma workspace_fits_iff:
  "validate_workspace (length entries) ws = Inr () \<longleftrightarrow> workspace_fits entries ws"
  by (auto simp: validate_workspace_def workspace_fits_def Let_def not_less min_less_iff_disj)

lemma unique_ids_iff: "validate_unique_ids entries = Inr () \<longleftrightarrow> distinct (map ce_id entries)"
proof -
  have key: "(\<exists>right \<in> set zs. ce_id right = ce_id x) \<longleftrightarrow> ce_id x \<in> ce_id ` set zs" for x zs
    by force
  show ?thesis
    unfolding try_tails_distinct [symmetric] validate_unique_ids_def try_tails_Inr key
    by (simp, blast)
qed

lemma unique_ids_error: "validate_unique_ids entries = Inl e \<Longrightarrow> \<exists>i. e = DuplicateEntryId i"
  unfolding validate_unique_ids_def
  by (induction entries) (auto split: if_splits)

lemma plan_fits:
  assumes fits: "workspace_fits entries ws" and ids: "distinct (map ce_id entries)"
  shows "plan entries budget ws =
    (let available = unat (available_input_tokens budget); total = pinned_tokens entries in
     if available < total
     then Inl (PinnedBudgetExceeded (of_nat (min total (2 ^ 64 - 1)))
                 (ucast (available_input_tokens budget)))
     else Inr \<lparr>cp_selected = sort_by (ordinal_order entries)
                  (pinned_indices entries @ admitted entries available),
               cp_dropped = sort_by (ordinal_order entries) (rejected entries available),
               cp_input_tokens =
                 of_nat (total + sum_list (map (tokens_at entries) (admitted entries available))),
               cp_reserved_output_tokens = cb_reserved_output_tokens budget,
               cp_maximum_tokens = cb_maximum_tokens budget\<rparr>)"
proof -
  let ?avail = "ucast (available_input_tokens budget) :: u64"
  let ?a = "unat (available_input_tokens budget)"
  have a32: "?a < 2 ^ 32" using unsigned_less [of "available_input_tokens budget"] by simp
  then have avail: "unat ?avail = ?a" by (simp add: unsigned_ucast_eq take_bit_nat_eq_self)
  let ?st = "\<lparr>sp_selected = ws_selected ws, sp_selected_length = 0, sp_ordering = ws_ordering ws,
    sp_candidate_length = 0, sp_pinned_tokens = 0\<rparr>"
  have "validate_unique_ids entries = Inr ()" "validate_workspace (length entries) ws = Inr ()"
    using fits ids by (simp_all add: unique_ids_iff workspace_fits_iff)
  moreover obtain st where st: "try_fold split_entry ?st (enumerate 0 entries) = Inr st"
    "buffer_holds (sp_selected st) (sp_selected_length st) (pinned_indices entries)"
    "buffer_holds (sp_ordering st) (sp_candidate_length st) (candidate_indices entries)"
    "length (sp_selected st) = length (ws_selected ws)"
    "unat (sp_pinned_tokens st) = min (pinned_tokens entries) (2 ^ 64 - 1)"
    using split_loop [of ?st "[]" "[]" "enumerate 0 entries"] fits
    by (auto simp: workspace_fits_def pinned_tokens_entries
        pinned_indices_def candidate_indices_def)
  moreover have "?avail < sp_pinned_tokens st \<longleftrightarrow> ?a < pinned_tokens entries"
    using st(5) avail a32 by (auto simp: word_less_nat_alt)
  moreover have "sp_pinned_tokens st = of_nat (min (pinned_tokens entries) (2 ^ 64 - 1))"
    unfolding st(5) [symmetric] by simp
  moreover have "slice_to (sp_ordering st) (sp_candidate_length st) = Inr (candidate_indices entries)"
    using st(3) by (rule slice_to_holds)
  moreover have "\<exists>ad. try_fold (admit_candidate entries ?avail)
        \<lparr>ad_selected = sp_selected st, ad_selected_length = sp_selected_length st,
         ad_dropped = ws_dropped ws, ad_dropped_length = 0, ad_tokens = sp_pinned_tokens st\<rparr>
        (ordered_candidates entries) = Inr ad
      \<and> slice_to (ad_selected ad) (ad_selected_length ad)
          = Inr (pinned_indices entries @ admitted entries ?a)
      \<and> slice_to (ad_dropped ad) (ad_dropped_length ad) = Inr (rejected entries ?a)
      \<and> unat (ad_tokens ad) = pinned_tokens entries
          + sum_list (map (tokens_at entries) (admitted entries ?a))
      \<and> unat (ad_tokens ad) < 2 ^ 32
      \<and> (ucast (ad_tokens ad) :: u32) = of_nat (pinned_tokens entries
          + sum_list (map (tokens_at entries) (admitted entries ?a)))"
    if le: "pinned_tokens entries \<le> ?a"
  proof -
    let ?ad = "\<lparr>ad_selected = sp_selected st, ad_selected_length = sp_selected_length st,
         ad_dropped = ws_dropped ws, ad_dropped_length = 0, ad_tokens = sp_pinned_tokens st\<rparr>"
    have total: "unat (sp_pinned_tokens st) = pinned_tokens entries"
      using st(5) le a32 by simp
    have "length (ordered_candidates entries) = length (candidate_indices entries)"
      by (simp add: ordered_candidates_def)
    then obtain ad where ad: "try_fold (admit_candidate entries ?avail) ?ad (ordered_candidates entries) = Inr ad"
      "buffer_holds (ad_selected ad) (ad_selected_length ad)
         (pinned_indices entries @ admitted entries ?a)"
      "buffer_holds (ad_dropped ad) (ad_dropped_length ad) (rejected entries ?a)"
      "unat (ad_tokens ad) = pinned_tokens entries
         + sum_list (map (tokens_at entries) (admitted entries ?a))"
      using admit_loop [of ?ad "pinned_indices entries" "[]" "ordered_candidates entries" entries ?avail]
        st(2,4) fits le total avail a32 length_indices [of entries]
      by (auto simp: workspace_fits_def admitted_def rejected_def set_ordered_candidates
          set_candidate_indices)
    moreover have "pinned_tokens entries + sum_list (map (tokens_at entries) (admitted entries ?a)) \<le> ?a"
      unfolding admitted_def by (rule greedy_budget [OF le])
    moreover have "(ucast (ad_tokens ad) :: u32) = of_nat (unat (ad_tokens ad))" by simp
    ultimately show ?thesis using a32 slice_to_holds by (intro exI [of _ ad]) simp
  qed
  ultimately show ?thesis
    by (cases "?a < pinned_tokens entries")
      (auto simp: plan_def Let_def ordered_candidates_def [symmetric] not_less)
qed

lemma plan_Inr_fits:
  assumes "plan entries budget ws = Inr p"
  shows "workspace_fits entries ws" and "distinct (map ce_id entries)"
proof -
  have ok: "validate_workspace (length entries) ws = Inr ()" "validate_unique_ids entries = Inr ()"
    using assms by (auto simp: plan_def bind_ok_Inr)
  then show "workspace_fits entries ws" and "distinct (map ce_id entries)"
    by (simp_all add: unique_ids_iff workspace_fits_iff)
qed

lemma plan_Inr:
  assumes "plan entries budget ws = Inr p"
  defines "available \<equiv> unat (available_input_tokens budget)"
  shows "pinned_tokens entries \<le> available"
    and "cp_selected p = sort_by (ordinal_order entries)
      (pinned_indices entries @ admitted entries available)"
    and "cp_dropped p = sort_by (ordinal_order entries) (rejected entries available)"
    and "unat (cp_input_tokens p) =
      pinned_tokens entries + sum_list (map (tokens_at entries) (admitted entries available))"
    and "unat (cp_input_tokens p) \<le> available"
proof -
  note run = plan_fits [OF plan_Inr_fits [OF assms(1)], of budget, folded available_def]
  have p: "pinned_tokens entries \<le> available"
    "p = \<lparr>cp_selected = sort_by (ordinal_order entries)
                (pinned_indices entries @ admitted entries available),
              cp_dropped = sort_by (ordinal_order entries) (rejected entries available),
              cp_input_tokens = of_nat (pinned_tokens entries
                + sum_list (map (tokens_at entries) (admitted entries available))),
              cp_reserved_output_tokens = cb_reserved_output_tokens budget,
              cp_maximum_tokens = cb_maximum_tokens budget\<rparr>"
    using assms(1) unfolding run by (simp_all add: Let_def split: if_splits)
  then show "pinned_tokens entries \<le> available"
    and "cp_selected p = sort_by (ordinal_order entries)
      (pinned_indices entries @ admitted entries available)"
    and "cp_dropped p = sort_by (ordinal_order entries) (rejected entries available)" by simp_all
  let ?t = "pinned_tokens entries + sum_list (map (tokens_at entries) (admitted entries available))"
  have le: "?t \<le> available" unfolding admitted_def by (rule greedy_budget [OF p(1)])
  have "available < 2 ^ 32"
    using unsigned_less [of "available_input_tokens budget"] by (simp add: available_def)
  with le have "?t < 2 ^ LENGTH(32)" by simp
  then have "unat (of_nat ?t :: u32) = ?t" by (rule of_nat_inverse [OF refl])
  with le p(2) show "unat (cp_input_tokens p) = ?t" "unat (cp_input_tokens p) \<le> available"
    by simp_all
qed

lemma selected_tokens:
  "pinned_tokens entries + sum_list (map (tokens_at entries) xs)
    = sum_list (map (tokens_at entries) (pinned_indices entries @ xs))"
  by (simp add: pinned_tokens_def)

lemma sum_list_mset: "mset xs = mset ys \<Longrightarrow> sum_list (map w xs) = sum_list (map w ys)"
  for w :: "'a \<Rightarrow> nat"
proof -
  assume "mset xs = mset ys"
  then have "sum_mset (image_mset w (mset xs)) = sum_mset (image_mset w (mset ys))" by simp
  then show ?thesis by (simp only: mset_map [symmetric] sum_mset_sum_list)
qed

lemma sum_list_sort_by: "sum_list (map w (sort_by cmp xs)) = sum_list (map w xs)"
  for w :: "'a \<Rightarrow> nat"
  by (rule sum_list_mset) simp

lemma indices_mset:
  "mset (pinned_indices entries) + mset (candidate_indices entries) = mset [0..<length entries]"
proof -
  have "mset (filter P xs) + mset (filter (\<lambda>x. \<not> P x) xs) = mset xs" for P and xs :: "'x list"
    by (metis mset_filter multiset_partition)
  from this [of "\<lambda>(i, e). ce_persistence e = Pinned" "enumerate 0 entries"]
  have "image_mset fst (mset (filter (\<lambda>(i, e). ce_persistence e = Pinned) (enumerate 0 entries))
      + mset (filter (\<lambda>(i, e). ce_persistence e \<noteq> Pinned) (enumerate 0 entries)))
    = image_mset fst (mset (enumerate 0 entries))"
    by (simp add: case_prod_unfold)
  then show ?thesis
    by (simp only: image_mset_union mset_map [symmetric] pinned_indices_def candidate_indices_def
        map_fst_enumerate add_0)
qed

text \<open>The candidates before one of them in the order are the prefix the greedy choice has seen.\<close>

lemma greedy_characterisation:
  assumes ids: "distinct (map ce_id entries)" and i: "i < length entries"
    and cand: "ce_persistence (entries ! i) \<noteq> Pinned"
  shows "i \<in> set (pinned_indices entries @ admitted entries a) \<longleftrightarrow>
    pinned_tokens entries
      + sum_list (map (tokens_at entries) (filter (\<lambda>j. ce_persistence (entries ! j) \<noteq> Pinned
          \<and> candidate_order entries j i = OLess)
          (sort_by (ordinal_order entries) (pinned_indices entries @ admitted entries a))))
      + tokens_at entries i \<le> a"
proof -
  let ?cs = "ordered_candidates entries" and ?w = "tokens_at entries"
  let ?before = "\<lambda>j. ce_persistence (entries ! j) \<noteq> Pinned \<and> candidate_order entries j i = OLess"
  have dist: "distinct ?cs" by (simp add: ordered_candidates_def distinct_indices)
  have "i \<in> set ?cs" using i cand by (simp add: set_ordered_candidates set_candidate_indices)
  then obtain ys zs where cs: "?cs = ys @ i # zs" by (auto simp: in_set_conv_decomp)
  note split = greedy_split [OF dist [unfolded cs], of ?w a "pinned_tokens entries", folded cs]
  have in_range: "j < length entries \<and> ce_persistence (entries ! j) \<noteq> Pinned" if "j \<in> set ?cs" for j
    using that by (simp add: set_ordered_candidates set_candidate_indices)
  have sorted: "sorted_by (candidate_order entries) ?cs"
    unfolding ordered_candidates_def by (rule candidates.sorted_sort_by)
  have different: "candidate_order entries j i \<noteq> OEqual" if "j \<in> set ?cs" "j \<noteq> i" for j
    using in_range [OF that(1)] i that(2) ids entry_order_equal(1)
    by (fastforce simp: candidate_order_def by_entry_nth distinct_conv_nth)
  have before: "candidate_order entries j i = OLess" if "j \<in> set ys" for j
  proof -
    have "candidate_order entries j i \<noteq> OGreater" using sorted that by (auto simp: cs sorted_wrt_append)
    moreover have "candidate_order entries j i \<noteq> OEqual" using that dist different by (auto simp: cs)
    ultimately show ?thesis by (cases "candidate_order entries j i") auto
  qed
  have after: "candidate_order entries j i \<noteq> OLess" if "j \<in> set zs" for j
    using sorted that candidates.flip [of entries i j] by (auto simp: cs sorted_wrt_append)
  have self: "candidate_order entries i i \<noteq> OLess" using candidates.refl_equal [of entries i] by simp
  have sub: "set (admitted entries a) \<subseteq> set ?cs"
    using admitted_sets [of entries a] by (auto simp: set_ordered_candidates)
  have "set (filter ?before (pinned_indices entries @ admitted entries a)) = set (admitted entries a) \<inter> set ys"
    using sub in_range before after self by (auto simp: cs set_pinned_indices)
  also have "\<dots> = set (greedy ?w a (pinned_tokens entries) ys)"
    unfolding admitted_def by (rule split(2))
  finally have same: "set (filter ?before (pinned_indices entries @ admitted entries a))
      = set (greedy ?w a (pinned_tokens entries) ys)" .
  have "distinct (pinned_indices entries @ admitted entries a)"
    using admitted_distinct [of entries a] sub in_range distinct_indices(1)
    by (auto simp: set_pinned_indices)
  moreover have "distinct (greedy ?w a (pinned_tokens entries) ys)"
    using greedy_partition [of ?w a "pinned_tokens entries" ys] dist
    by (metis cs distinct_append mset_append mset_eq_imp_distinct_iff)
  ultimately have "mset (filter ?before (pinned_indices entries @ admitted entries a))
      = mset (greedy ?w a (pinned_tokens entries) ys)"
    using same set_eq_iff_mset_eq_distinct distinct_filter by blast
  then have "sum_list (map ?w (filter ?before (pinned_indices entries @ admitted entries a)))
      = sum_list (map ?w (greedy ?w a (pinned_tokens entries) ys))"
    by (rule sum_list_mset)
  moreover have "sum_list (map ?w (filter ?before (sort_by (ordinal_order entries)
        (pinned_indices entries @ admitted entries a))))
      = sum_list (map ?w (filter ?before (pinned_indices entries @ admitted entries a)))"
    by (rule sum_list_mset) (simp add: mset_filter)
  moreover have "i \<in> set (pinned_indices entries @ admitted entries a) \<longleftrightarrow> i \<in> set (admitted entries a)"
    using cand by (simp add: set_pinned_indices)
  ultimately show ?thesis using split(1) by (simp add: admitted_def)
qed

subsection \<open>Refinement to entries\<close>

definition selection_spec :: "context_entry list \<Rightarrow> nat \<Rightarrow> context_entry list" where
  "selection_spec entries available =
     (let pinned = filter (\<lambda>e. ce_persistence e = Pinned) entries;
          candidates = sort_by entry_candidate_order
            (filter (\<lambda>e. ce_persistence e \<noteq> Pinned) entries)
      in sort_by entry_ordinal_order (pinned @
           greedy entry_tokens available (sum_list (map entry_tokens pinned)) candidates))"

lemma map_nth_enumerate_filter:
  fixes entries :: "context_entry list"
  shows "map ((!) entries) (map fst (filter (\<lambda>(i, e). P e) (enumerate 0 entries))) = filter P entries"
proof -
  have "map ((!) entries \<circ> fst) (filter (\<lambda>(i, e). P e) (enumerate 0 entries))
      = map snd (filter (\<lambda>(i, e). P e) (enumerate 0 entries))"
    by (rule map_cong) (auto simp: in_set_enumerate_eq)
  also have "map snd (filter (\<lambda>(i, e). P e) (enumerate k xs)) = filter P xs" for k and xs :: "context_entry list"
    by (induction xs arbitrary: k) auto
  finally show ?thesis by simp
qed

lemma map_filter_slice_get:
  "set is \<subseteq> {..<length entries} \<Longrightarrow> List.map_filter (slice_get entries) is = map ((!) entries) is"
  by (induction "is") (auto simp: List.map_filter_simps)

lemma plan_refines_spec:
  assumes "plan entries budget ws = Inr p"
  shows "selected_entries entries p = selection_spec entries (unat (available_input_tokens budget))"
proof -
  let ?a = "unat (available_input_tokens budget)" and ?n = "{..<length entries}"
  have cand: "set (candidate_indices entries) \<subseteq> ?n" by (auto simp: set_candidate_indices)
  have sub: "set (pinned_indices entries @ admitted entries ?a) \<subseteq> ?n"
    using admitted_sets [of entries ?a] cand by (auto simp: set_pinned_indices)
  then have "set (cp_selected p) \<subseteq> ?n" using plan_Inr(2) [OF assms] by simp
  then have "selected_entries entries p = map ((!) entries) (cp_selected p)"
    unfolding selected_entries_def by (rule map_filter_slice_get)
  also have "\<dots> = sort_by entry_ordinal_order
      (map ((!) entries) (pinned_indices entries @ admitted entries ?a))"
    unfolding plan_Inr(2) [OF assms] ordinal_order_def by (rule map_sort_by_entry [OF sub])
  also have "map ((!) entries) (pinned_indices entries @ admitted entries ?a)
      = filter (\<lambda>e. ce_persistence e = Pinned) entries @ map ((!) entries) (admitted entries ?a)"
    unfolding pinned_indices_def map_append map_nth_enumerate_filter ..
  also have "map ((!) entries) (admitted entries ?a)
      = greedy entry_tokens ?a (pinned_tokens entries) (map ((!) entries) (ordered_candidates entries))"
    unfolding admitted_def map_greedy [symmetric] tokens_at_def ..
  also have "map ((!) entries) (ordered_candidates entries)
      = sort_by entry_candidate_order (filter (\<lambda>e. ce_persistence e \<noteq> Pinned) entries)"
    unfolding ordered_candidates_def candidate_order_def map_sort_by_entry [OF cand]
    by (simp add: candidate_indices_def map_nth_enumerate_filter del: map_map)
  also have "pinned_tokens entries
      = sum_list (map entry_tokens (filter (\<lambda>e. ce_persistence e = Pinned) entries))"
    unfolding pinned_tokens_def pinned_indices_def map_nth_enumerate_filter [symmetric]
    by (simp add: tokens_at_def comp_def)
  finally show ?thesis by (simp add: selection_spec_def Let_def)
qed

lemma sort_by_entries_unique:
  assumes "comparator order" and "\<And>a b. order a b = OEqual \<Longrightarrow> ce_id a = ce_id b"
    and "mset xs = mset ys" and "distinct (map ce_id xs)"
  shows "sort_by order xs = sort_by order ys"
proof (rule comparator.sort_by_unique [OF assms(1)])
  show "sorted_by order (sort_by order ys)" by (rule comparator.sorted_sort_by [OF assms(1)])
  show "mset (sort_by order ys) = mset xs" using assms(3) by simp
  show "x = y" if "x \<in> set xs" "y \<in> set xs" "order x y = OEqual" for x y
    using assms(2) [OF that(3)] assms(4) that(1,2) by (auto simp: distinct_map inj_on_def)
qed

lemma distinct_map_filter_ids: "distinct (map ce_id es) \<Longrightarrow> distinct (map ce_id (filter P es))"
  by (simp add: distinct_map inj_on_def)

lemma selection_spec_permutation:
  assumes same: "mset entries = mset entries'" and ids: "distinct (map ce_id entries)"
  shows "selection_spec entries a = selection_spec entries' a"
proof -
  let ?P = "filter (\<lambda>e. ce_persistence e = Pinned)" and ?C = "filter (\<lambda>e. ce_persistence e \<noteq> Pinned)"
  have pinned: "mset (?P entries) = mset (?P entries')" and cands: "mset (?C entries) = mset (?C entries')"
    using same by (simp_all add: mset_filter)
  define cs where "cs = sort_by entry_candidate_order (?C entries)"
  have cs': "sort_by entry_candidate_order (?C entries') = cs"
    unfolding cs_def
    using sort_by_entries_unique [OF entry_candidate_comparator entry_order_equal(1) cands
        distinct_map_filter_ids [OF ids]] by simp
  define total where "total = sum_list (map entry_tokens (?P entries))"
  have total': "sum_list (map entry_tokens (?P entries')) = total"
    unfolding total_def by (rule sum_list_mset [OF pinned [symmetric]])
  define chosen where "chosen = greedy entry_tokens a total cs"
  define rest where "rest = leftover entry_tokens a total cs"
  have "mset chosen + mset rest = mset (?C entries)"
    unfolding chosen_def rest_def greedy_partition cs_def by simp
  then have "mset ((?P entries @ chosen) @ rest) = mset entries"
    by (simp add: add.assoc multiset_partition [of "mset entries" "\<lambda>e. ce_persistence e = Pinned", symmetric])
  then have "mset (map ce_id ((?P entries @ chosen) @ rest)) = mset (map ce_id entries)"
    unfolding mset_map by (rule arg_cong)
  then have "distinct (map ce_id ((?P entries @ chosen) @ rest))"
    using ids mset_eq_imp_distinct_iff by blast
  then have "distinct (map ce_id (?P entries @ chosen))"
    unfolding map_append [of _ _ rest] distinct_append by blast
  then have "sort_by entry_ordinal_order (?P entries @ chosen)
      = sort_by entry_ordinal_order (?P entries' @ chosen)"
    using pinned by (intro sort_by_entries_unique entry_ordinal_comparator entry_order_equal(2)) auto
  then show ?thesis
    by (simp add: selection_spec_def Let_def cs' total' cs_def [symmetric] total_def [symmetric]
        chosen_def [symmetric])
qed

subsection \<open>Properties\<close>

text \<open>
  When a plan exists. \<open>plan\<close> succeeds exactly when every index buffer has room for
  all entries, the identities are distinct and the pinned entries fit the input budget. It
  answers \<open>PinnedBudgetExceeded\<close> exactly when only the last condition fails, so neither a
  buffer bound nor the conversion of the token count can fail on the way.
\<close>
theorem plan_exists_iff:
  "((\<exists>p. plan entries budget ws = Inr p) \<longleftrightarrow>
      workspace_fits entries ws \<and> distinct (map ce_id entries)
      \<and> pinned_tokens entries \<le> unat (available_input_tokens budget))
   \<and> ((\<exists>r a. plan entries budget ws = Inl (PinnedBudgetExceeded r a)) \<longleftrightarrow>
      workspace_fits entries ws \<and> distinct (map ce_id entries)
      \<and> unat (available_input_tokens budget) < pinned_tokens entries)"
proof (cases "workspace_fits entries ws \<and> distinct (map ce_id entries)")
  case True
  then show ?thesis by (simp add: plan_fits Let_def not_less)
next
  case False
  then have "validate_workspace (length entries) ws \<noteq> Inr () \<or> validate_unique_ids entries \<noteq> Inr ()"
    by (simp add: workspace_fits_iff unique_ids_iff)
  moreover have "validate_workspace (length entries) ws \<noteq> Inl (PinnedBudgetExceeded r a)"
    "validate_unique_ids entries \<noteq> Inl (PinnedBudgetExceeded r a)" for r a
    using unique_ids_error [of entries]
    by (auto simp: validate_workspace_def Let_def workspace_capacity_def)
  ultimately show ?thesis
    using False by (cases "validate_workspace (length entries) ws"; cases "validate_unique_ids entries")
      (auto simp: plan_def)
qed

text \<open>
  \<^bold>\<open>C37\<close>. A plan is a partition within the budget. Every entry index is either selected or
  dropped, and once; both lists are in ordinal order; every pinned entry is selected; and the
  admitted token count is the sum over the selected entries and at most what the budget leaves
  after the output reservation, without wrap-around.
\<close>
theorem plan_partition_within_budget:
  assumes "plan entries budget ws = Inr p"
  shows "mset (cp_selected p) + mset (cp_dropped p) = mset [0..<length entries]
    \<and> sorted_by (ordinal_order entries) (cp_selected p)
    \<and> sorted_by (ordinal_order entries) (cp_dropped p)
    \<and> {i. i < length entries \<and> ce_persistence (entries ! i) = Pinned} \<subseteq> set (cp_selected p)
    \<and> unat (cp_input_tokens p) = sum_list (map (tokens_at entries) (cp_selected p))
    \<and> unat (cp_input_tokens p) + unat (cb_reserved_output_tokens budget)
        \<le> max (unat (cb_maximum_tokens budget)) (unat (cb_reserved_output_tokens budget))"
proof (intro conjI)
  note p = plan_Inr [OF assms]
  show "mset (cp_selected p) + mset (cp_dropped p) = mset [0..<length entries]"
    unfolding p(2,3) by (simp add: admitted_mset add.assoc indices_mset)
  show "unat (cp_input_tokens p) = sum_list (map (tokens_at entries) (cp_selected p))"
    unfolding p(4) p(2) sum_list_sort_by selected_tokens ..
  show "unat (cp_input_tokens p) + unat (cb_reserved_output_tokens budget)
        \<le> max (unat (cb_maximum_tokens budget)) (unat (cb_reserved_output_tokens budget))"
    using p(5) by (simp add: available_input_tokens_def unat_saturating_sub)
qed (simp_all add: plan_Inr(2,3) [OF assms] candidates.sorted_sort_by ordinals.sorted_sort_by set_pinned_indices)

text \<open>
  The choice is greedy. An entry that is not pinned is selected exactly when it still
  fits after the pinned entries and the selected entries that precede it in the candidate
  order: higher priority first, then retained before ephemeral, then newer first, then by
  identity. In particular no entry is dropped that would have fitted.
\<close>
theorem plan_greedy:
  assumes "plan entries budget ws = Inr p" and "i < length entries"
    and "ce_persistence (entries ! i) \<noteq> Pinned"
  shows "i \<in> set (cp_selected p) \<longleftrightarrow>
    pinned_tokens entries
      + sum_list (map (tokens_at entries) (filter (\<lambda>j. ce_persistence (entries ! j) \<noteq> Pinned
          \<and> candidate_order entries j i = OLess) (cp_selected p)))
      + tokens_at entries i \<le> unat (available_input_tokens budget)"
  using greedy_characterisation [OF plan_Inr_fits(2) [OF assms(1)] assms(2,3)]
  unfolding plan_Inr(2) [OF assms(1)] by simp

text \<open>
  A plan does not depend on the order of the entries. Two lists with the same entries
  and one budget, planned with any buffers, select the same sequence of entries: the one of
  the specification over entries, natural numbers and lists.
\<close>
theorem plan_order_independent:
  assumes "plan entries budget ws = Inr p" and "plan entries' budget ws' = Inr p'"
    and "mset entries = mset entries'"
  shows "selected_entries entries p = selected_entries entries' p'
    \<and> selected_entries entries p
        = selection_spec entries (unat (available_input_tokens budget))"
  using plan_refines_spec [OF assms(1)] plan_refines_spec [OF assms(2)]
    selection_spec_permutation [OF assms(3) plan_Inr_fits(2) [OF assms(1)]] by simp

subsection \<open>The properties on concrete entries\<close>

definition example_entry :: "u64 \<Rightarrow> u64 \<Rightarrow> u8 \<Rightarrow> context_persistence \<Rightarrow> u32 \<Rightarrow> context_entry" where
  "example_entry i ordinal priority persistence tokens =
     \<lparr>ce_id = ContextEntryId i, ce_ordinal = ordinal, ce_role = RoleUser, ce_source = SourceUser,
      ce_priority = priority, ce_persistence = persistence, ce_estimated_tokens = tokens,
      ce_content = ContentTokens []\<rparr>"

definition example_entries :: "context_entry list" where
  "example_entries = [example_entry 1 1 9 Pinned 4, example_entry 2 2 5 Retained 8,
     example_entry 3 3 5 Retained 3, example_entry 4 4 1 Ephemeral 2]"

definition example_budget :: context_budget where
  "example_budget = \<lparr>cb_maximum_tokens = 16, cb_reserved_output_tokens = 6\<rparr>"

definition example_workspace :: plan_workspace where
  "example_workspace = \<lparr>ws_ordering = [0, 0, 0, 0], ws_selected = [0, 0, 0, 0, 0],
     ws_dropped = [0, 0, 0, 0]\<rparr>"

definition example_plan :: context_plan where
  "example_plan = \<lparr>cp_selected = [0, 2, 3], cp_dropped = [1], cp_input_tokens = 9,
     cp_reserved_output_tokens = 6, cp_maximum_tokens = 16\<rparr>"

lemmas plan_simps =
  plan_def validate_workspace_def validate_unique_ids_def split_entry_def admit_candidate_def
  write_index_def slice_to_def sort_by_def candidate_order_def ordinal_order_def by_entry_def
  entry_candidate_order_def entry_ordinal_order_def compare_to_def available_input_tokens_def
  saturating_add_def saturating_sub_def Let_def

lemmas example_plan_simps =
  example_entries_def example_entry_def example_budget_def example_workspace_def example_plan_def

lemma example_plan_run: "plan example_entries example_budget example_workspace = Inr example_plan"
  by (simp add: plan_simps example_plan_simps)

lemma example_plan_run_rev: "\<exists>p. plan (rev example_entries) example_budget example_workspace = Inr p"
  by (simp add: plan_simps example_plan_simps)

theorem plan_partition_within_budget_witness:
  "sorted_by (ordinal_order example_entries) (cp_selected example_plan)
   \<and> unat (cp_input_tokens example_plan)
       = sum_list (map (tokens_at example_entries) (cp_selected example_plan))"
  using plan_partition_within_budget [OF example_plan_run] by blast

theorem plan_greedy_witness:
  "(1 \<in> set (cp_selected example_plan)) =
     (pinned_tokens example_entries + (3 + 8) \<le> unat (available_input_tokens example_budget))"
proof -
  have "filter (\<lambda>j. ce_persistence (example_entries ! j) \<noteq> Pinned
      \<and> candidate_order example_entries j 1 = OLess) (cp_selected example_plan) = [2]"
    by (simp add: plan_simps example_plan_simps)
  moreover have "tokens_at example_entries 1 = 8" "tokens_at example_entries 2 = 3"
    by (simp_all add: tokens_at_def example_plan_simps)
  ultimately show ?thesis
    using plan_greedy [OF example_plan_run, of 1]
    by (simp add: example_entries_def example_entry_def add.assoc)
qed

theorem plan_order_independent_witness:
  "\<exists>p. plan (rev example_entries) example_budget example_workspace = Inr p
     \<and> selected_entries (rev example_entries) p
        = [example_entry 1 1 9 Pinned 4, example_entry 3 3 5 Retained 3, example_entry 4 4 1 Ephemeral 2]"
proof -
  obtain p where p: "plan (rev example_entries) example_budget example_workspace = Inr p"
    using example_plan_run_rev by blast
  from plan_order_independent [OF example_plan_run p]
  have "selected_entries (rev example_entries) p = selected_entries example_entries example_plan"
    by simp
  also have "\<dots> = [example_entry 1 1 9 Pinned 4, example_entry 3 3 5 Retained 3,
      example_entry 4 4 1 Ephemeral 2]"
    by (simp add: selected_entries_def List.map_filter_simps example_entries_def example_plan_def)
  finally show ?thesis using p by blast
qed

end
