(* ===== verification/Output_Stream.thy ===== *)
theory Output_Stream
  imports Contracts
begin

section \<open>Bounded output shared by a producer and a consumer\<close>

text \<open>
  The parts the two accumulators of \<open>crates/adapters/host-runtime/src\<close> have in common: the
  mutex as both sides see it, the errors of \<open>output.rs\<close>, and the interface \<open>delivery\<close>: a
  step function under which what is delivered and what is still pending is always what was
  pending and accepted. Inside the locale the law is lifted to whole interleavings.

  The consumer holds the mutex from the moment it takes a batch until its callback returns.
  The two halves are separate events here, so that the producer's calls can fall between
  them. A call that would block is not enabled: its step is \<open>None\<close>.
\<close>

datatype mutex_state = MutexFree | MutexHeld | MutexPoisoned

datatype output_push_error =
    ConsumerBusy
  | OutputCapacityExhausted capacity_exhausted
  | InvalidRecordKind
  | PushPoisoned

datatype output_pull_error = PullPoisoned

definition output_try_lock :: "mutex_state \<Rightarrow> output_push_error + unit" where
  "output_try_lock m = (case m of
     MutexFree \<Rightarrow> Inr () | MutexHeld \<Rightarrow> Inl ConsumerBusy | MutexPoisoned \<Rightarrow> Inl PushPoisoned)"

definition record_capacity_check :: "usize \<Rightarrow> usize \<Rightarrow> output_push_error + unit" where
  "record_capacity_check records capacity =
     (let required = usize_saturating_add records 1 in
      if capacity < required
      then Inl (OutputCapacityExhausted (capacity_exhausted_new OutputRecords
                  (usize_to_u64 required) (usize_to_u64 capacity)))
      else Inr ())"

lemma output_try_lock_Inr [simp]: "output_try_lock m = Inr () \<longleftrightarrow> m = MutexFree"
  by (cases m) (simp_all add: output_try_lock_def)

lemma record_capacity_check_Inr:
  "capacity < usize_max \<Longrightarrow> record_capacity_check n capacity = Inr () \<longleftrightarrow> n < capacity"
  by (auto simp: record_capacity_check_def usize_saturating_add_def Let_def)

fun run_events :: "('e \<Rightarrow> 's \<Rightarrow> ('a \<times> 's) option) \<Rightarrow> 'e list \<Rightarrow> 's \<Rightarrow> ('a list \<times> 's) option" where
  "run_events step [] s = Some ([], s)"
| "run_events step (e # es) s =
     (case step e s of
        None \<Rightarrow> None
      | Some (a, s') \<Rightarrow>
          (case run_events step es s' of None \<Rightarrow> None | Some (as, t) \<Rightarrow> Some (a # as, t)))"

lemma run_events_Cons:
  "run_events step (e # es) s = Some (as, t) \<longleftrightarrow>
     (\<exists>a s' bs. step e s = Some (a, s') \<and> run_events step es s' = Some (bs, t) \<and> as = a # bs)"
  by (auto split: option.splits)

locale delivery =
  fixes step :: "'e \<Rightarrow> 's \<Rightarrow> ('a \<times> 's) option"
    and inv :: "'s \<Rightarrow> bool"
    and accepted :: "'e \<Rightarrow> 'a \<Rightarrow> 'i list"
    and delivered :: "'a \<Rightarrow> 'i list"
    and pending :: "'s \<Rightarrow> 'i list"
  assumes step_inv: "inv s \<Longrightarrow> step e s = Some (a, s') \<Longrightarrow> inv s'"
    and step_delivery: "inv s \<Longrightarrow> step e s = Some (a, s')
      \<Longrightarrow> delivered a @ pending s' = pending s @ accepted e a"
begin

lemma run_inv: "inv s \<Longrightarrow> run_events step es s = Some (as, t) \<Longrightarrow> inv t"
  by (induction es arbitrary: s as) (auto simp: run_events_Cons dest: step_inv simp del: run_events.simps(2))

lemma run_delivery:
  "inv s \<Longrightarrow> run_events step es s = Some (as, t)
     \<Longrightarrow> concat (map delivered as) @ pending t = pending s @ concat (map2 accepted es as)"
proof (induction es arbitrary: s as)
  case (Cons e es)
  then obtain a s' bs where step: "step e s = Some (a, s')"
    and rest: "run_events step es s' = Some (bs, t)" and "as": "as = a # bs"
    unfolding run_events_Cons by blast
  have "concat (map delivered bs) @ pending t = pending s' @ concat (map2 accepted es bs)"
    using step_inv [OF Cons.prems(1) step] rest by (rule Cons.IH)
  then show ?case using step_delivery [OF Cons.prems(1) step] by (simp add: "as")
qed simp

end

end
