(* ===== verification/Token_Output.thy ===== *)
theory Token_Output
  imports Output_Stream
begin

section \<open>The token output accumulator\<close>

text \<open>
  \<open>crates/adapters/host-runtime/src/token_output.rs\<close>: cursors, ranges, records and batches,
  the producer's pushes and the consumer's pull. The state payload is a type parameter, as in
  the code. The allocation in \<open>token_output_accumulator\<close> is assumed to succeed. The callback
  of \<open>pull\<close> runs between the events \<open>PullBegin\<close> and \<open>PullEnd\<close>; \<open>PullPanic\<close> is its panic,
  which poisons the mutex.
\<close>

subsection \<open>Data\<close>

type_synonym token_output_cursor = u64

record token_range =
  tr_start :: token_output_cursor
  tr_length :: usize

datatype 's token_record_kind = RecordTokens token_range | RecordState 's

record 's token_output_record =
  tor_request_id :: request_id
  tor_kind :: "'s token_record_kind"

record 's token_output_batch =
  tob_start :: token_output_cursor
  tob_end :: token_output_cursor
  tob_tokens :: "token_id list"
  tob_records :: "'s token_output_record list"

record 's token_output =
  to_start :: token_output_cursor
  to_tokens :: "token_id list"
  to_records :: "'s token_output_record list"
  to_token_capacity :: usize
  to_record_capacity :: usize
  to_mutex :: mutex_state

definition token_output_new :: "usize \<Rightarrow> usize \<Rightarrow> 's token_output" where
  "token_output_new token_capacity record_capacity =
     \<lparr>to_start = 0, to_tokens = [], to_records = [], to_token_capacity = token_capacity,
      to_record_capacity = record_capacity, to_mutex = MutexFree\<rparr>"

definition tokens_for :: "'s token_output_batch \<Rightarrow> token_range \<Rightarrow> token_id list option" where
  "tokens_for batch rng =
     (case checked_sub (tr_start rng) (tob_start batch) of
        None \<Rightarrow> None
      | Some difference \<Rightarrow>
          (case usize_checked_add (unat difference) (tr_length rng) of
             None \<Rightarrow> None
           | Some end_offset \<Rightarrow>
               if end_offset \<le> length (tob_tokens batch)
               then Some (take (tr_length rng) (drop (unat difference) (tob_tokens batch)))
               else None))"

subsection \<open>The producer\<close>

definition checked_cursor :: "'s token_output \<Rightarrow> usize \<Rightarrow> output_push_error + token_output_cursor" where
  "checked_cursor st batch_offset =
     (case checked_add (to_start st) (usize_to_u64 batch_offset) of
        Some cursor \<Rightarrow> Inr cursor
      | None \<Rightarrow> Inl (OutputCapacityExhausted (capacity_exhausted_new Tokens
                  (usize_to_u64 batch_offset) (saturating_sub (- 1) (to_start st)))))"

definition try_push_tokens ::
    "request_id \<Rightarrow> token_id list \<Rightarrow> 's token_output
       \<Rightarrow> (output_push_error + unit) \<times> 's token_output" where
  "try_push_tokens request tokens st =
     (if tokens = [] then (Inr (), st)
      else (case output_try_lock (to_mutex st) of
        Inl e \<Rightarrow> (Inl e, st)
      | Inr _ \<Rightarrow>
          let required = usize_saturating_add (length (to_tokens st)) (length tokens) in
          if to_token_capacity st < required
          then (Inl (OutputCapacityExhausted (capacity_exhausted_new Tokens
                  (usize_to_u64 required) (usize_to_u64 (to_token_capacity st)))), st)
          else (case record_capacity_check (length (to_records st)) (to_record_capacity st) of
                  Inl e \<Rightarrow> (Inl e, st)
                | Inr _ \<Rightarrow>
          (case checked_cursor st (length (to_tokens st)) of
             Inl e \<Rightarrow> (Inl e, st)
           | Inr range_start \<Rightarrow>
          (case checked_cursor st required of
             Inl e \<Rightarrow> (Inl e, st)
           | Inr _ \<Rightarrow>
               (Inr (), st\<lparr>to_tokens := to_tokens st @ tokens,
                  to_records := to_records st @ [\<lparr>tor_request_id = request,
                    tor_kind = RecordTokens \<lparr>tr_start = range_start, tr_length = length tokens\<rparr>\<rparr>]\<rparr>))))))"

definition try_push_token ::
    "request_id \<Rightarrow> token_id \<Rightarrow> 's token_output \<Rightarrow> (output_push_error + unit) \<times> 's token_output" where
  "try_push_token request token = try_push_tokens request [token]"

definition try_push_state ::
    "request_id \<Rightarrow> 's \<Rightarrow> 's token_output \<Rightarrow> (output_push_error + unit) \<times> 's token_output" where
  "try_push_state request payload st =
     (case output_try_lock (to_mutex st) of
        Inl e \<Rightarrow> (Inl e, st)
      | Inr _ \<Rightarrow>
     (case record_capacity_check (length (to_records st)) (to_record_capacity st) of
        Inl e \<Rightarrow> (Inl e, st)
      | Inr _ \<Rightarrow> (Inr (), st\<lparr>to_records := to_records st
          @ [\<lparr>tor_request_id = request, tor_kind = RecordState payload\<rparr>]\<rparr>)))"

definition token_try_lengths :: "'s token_output \<Rightarrow> output_push_error + usize \<times> usize" where
  "token_try_lengths st = bind_ok (output_try_lock (to_mutex st))
     (\<lambda>_. Inr (length (to_tokens st), length (to_records st)))"

subsection \<open>The consumer\<close>

definition checked_pull_cursor :: "'s token_output \<Rightarrow> token_output_cursor" where
  "checked_pull_cursor st = saturating_add (to_start st) (usize_to_u64 (length (to_tokens st)))"

definition token_batch :: "'s token_output \<Rightarrow> 's token_output_batch" where
  "token_batch st = \<lparr>tob_start = to_start st, tob_end = checked_pull_cursor st,
     tob_tokens = to_tokens st, tob_records = to_records st\<rparr>"

definition token_pull_begin ::
    "'s token_output \<Rightarrow> ((output_pull_error + 's token_output_batch) \<times> 's token_output) option" where
  "token_pull_begin st = (case to_mutex st of
     MutexFree \<Rightarrow> Some (Inr (token_batch st), st\<lparr>to_mutex := MutexHeld\<rparr>)
   | MutexHeld \<Rightarrow> None
   | MutexPoisoned \<Rightarrow> Some (Inl PullPoisoned, st))"

definition token_pull_end :: "'s token_output \<Rightarrow> 's token_output option" where
  "token_pull_end st =
     (if to_mutex st = MutexHeld
      then Some (st\<lparr>to_start := checked_pull_cursor st, to_tokens := [], to_records := [],
                   to_mutex := MutexFree\<rparr>)
      else None)"

definition token_pull_panic :: "'s token_output \<Rightarrow> 's token_output option" where
  "token_pull_panic st =
     (if to_mutex st = MutexHeld then Some (st\<lparr>to_mutex := MutexPoisoned\<rparr>) else None)"

subsection \<open>Interleavings\<close>

datatype 's token_event =
    PushTokens request_id "token_id list"
  | PushState request_id 's
  | TokenPullBegin
  | TokenPullEnd
  | TokenPullPanic

datatype 's token_answer =
    TokenPushed "output_push_error + unit"
  | TokenPulled "output_pull_error + 's token_output_batch"
  | TokenReleased

fun token_output_step ::
    "'s token_event \<Rightarrow> 's token_output \<Rightarrow> ('s token_answer \<times> 's token_output) option" where
  "token_output_step (PushTokens request tokens) st =
     Some (apfst TokenPushed (try_push_tokens request tokens st))"
| "token_output_step (PushState request payload) st =
     Some (apfst TokenPushed (try_push_state request payload st))"
| "token_output_step TokenPullBegin st = map_option (apfst TokenPulled) (token_pull_begin st)"
| "token_output_step TokenPullEnd st = map_option (Pair TokenReleased) (token_pull_end st)"
| "token_output_step TokenPullPanic st = map_option (Pair TokenReleased) (token_pull_panic st)"

subsection \<open>What was pushed and what a batch says\<close>

datatype 's output_item = ItemTokens "token_id list" | ItemState 's

fun token_accepted :: "'s token_event \<Rightarrow> 's token_answer \<Rightarrow> (request_id \<times> 's output_item option) list" where
  "token_accepted (PushTokens request tokens) (TokenPushed (Inr _)) =
     (if tokens = [] then [] else [(request, Some (ItemTokens tokens))])"
| "token_accepted (PushState request payload) (TokenPushed (Inr _)) = [(request, Some (ItemState payload))]"
| "token_accepted _ _ = []"

definition resolve_record ::
    "'s token_output_batch \<Rightarrow> 's token_output_record \<Rightarrow> request_id \<times> 's output_item option" where
  "resolve_record batch r = (tor_request_id r, case tor_kind r of
     RecordTokens rng \<Rightarrow> map_option ItemTokens (tokens_for batch rng)
   | RecordState payload \<Rightarrow> Some (ItemState payload))"

definition read_batch :: "'s token_output_batch \<Rightarrow> (request_id \<times> 's output_item option) list" where
  "read_batch batch = map (resolve_record batch) (tob_records batch)"

fun token_delivered :: "'s token_answer \<Rightarrow> (request_id \<times> 's output_item option) list" where
  "token_delivered (TokenPulled (Inr batch)) = read_batch batch"
| "token_delivered _ = []"

definition token_pending :: "'s token_output \<Rightarrow> (request_id \<times> 's output_item option) list" where
  "token_pending st = (if to_mutex st = MutexFree then read_batch (token_batch st) else [])"

text \<open>The bounds the accumulator keeps, and that every range in it lies inside it.\<close>

definition token_output_inv :: "'s token_output \<Rightarrow> bool" where
  "token_output_inv st \<longleftrightarrow> unat (to_start st) + length (to_tokens st) < 2 ^ 64
     \<and> length (to_tokens st) \<le> to_token_capacity st \<and> length (to_records st) \<le> to_record_capacity st
     \<and> to_token_capacity st < usize_max \<and> to_record_capacity st < usize_max
     \<and> (\<forall>r \<in> set (to_records st). snd (resolve_record (token_batch st) r) \<noteq> None)"

lemma token_output_inv_new:
  "token_capacity < usize_max \<Longrightarrow> record_capacity < usize_max
     \<Longrightarrow> token_output_inv (token_output_new token_capacity record_capacity)"
  by (simp add: token_output_inv_def token_output_new_def)

text \<open>A range keeps its meaning when the token storage grows.\<close>

lemma tokens_for_grow:
  assumes "tokens_for batch rng = Some xs"
    and "tob_start batch' = tob_start batch" and "tob_tokens batch' = tob_tokens batch @ extra"
  shows "tokens_for batch' rng = Some xs"
  using assms
  by (auto simp: tokens_for_def usize_checked_add_def split: option.splits if_splits)

lemma tokens_for_last:
  assumes "unat (tob_start batch) + length old + length new < 2 ^ 64"
    and "tob_tokens batch = old @ new"
    and "tr_start rng = tob_start batch + of_nat (length old)" and "tr_length rng = length new"
  shows "tokens_for batch rng = Some new"
proof -
  let ?d = "of_nat (length old) :: u64"
  have d: "unat ?d = length old"
    using assms(1) by (intro of_nat_inverse [OF refl]) simp
  then have "tob_start batch \<le> tob_start batch + ?d"
    using assms(1) by (simp add: word_le_nat_alt unat_word_ariths)
  then have "checked_sub (tr_start rng) (tob_start batch) = Some ?d"
    unfolding assms(3) by (simp add: checked_sub_def)
  then show ?thesis
    using assms d by (simp add: tokens_for_def usize_checked_add_def usize_max_def)
qed

lemma checked_cursor_cases:
  assumes "k < usize_max"
  shows "unat (to_start st) + k < 2 ^ 64 \<Longrightarrow> checked_cursor st k = Inr (to_start st + of_nat k)"
    and "2 ^ 64 \<le> unat (to_start st) + k \<Longrightarrow> \<exists>e. checked_cursor st k = Inl e"
proof -
  have u: "usize_to_u64 k = of_nat k" using assms by (simp add: usize_to_u64_def)
  have "unat (of_nat k :: u64) = k"
    using assms by (intro of_nat_inverse [OF refl]) (simp add: usize_max_def)
  then show "unat (to_start st) + k < 2 ^ 64 \<Longrightarrow> checked_cursor st k = Inr (to_start st + of_nat k)"
    and "2 ^ 64 \<le> unat (to_start st) + k \<Longrightarrow> \<exists>e. checked_cursor st k = Inl e"
    by (auto simp: checked_cursor_def checked_add_def u)
qed

definition push_fits :: "'s token_output \<Rightarrow> usize \<Rightarrow> bool" where
  "push_fits st n \<longleftrightarrow> to_mutex st = MutexFree
     \<and> length (to_tokens st) + n \<le> to_token_capacity st
     \<and> length (to_records st) < to_record_capacity st
     \<and> unat (to_start st) + length (to_tokens st) + n < 2 ^ 64"

lemma push_tokens_fits:
  assumes inv: "token_output_inv st" and tokens: "tokens \<noteq> []"
  shows "push_fits st (length tokens) \<Longrightarrow> try_push_tokens request tokens st =
      (Inr (), st\<lparr>to_tokens := to_tokens st @ tokens,
          to_records := to_records st @ [\<lparr>tor_request_id = request, tor_kind = RecordTokens
            \<lparr>tr_start = to_start st + of_nat (length (to_tokens st)), tr_length = length tokens\<rparr>\<rparr>]\<rparr>)"
    and "\<not> push_fits st (length tokens) \<Longrightarrow> \<exists>e. try_push_tokens request tokens st = (Inl e, st)"
proof -
  have bounds: "unat (to_start st) + length (to_tokens st) < 2 ^ 64" "to_record_capacity st < usize_max"
    "to_token_capacity st < usize_max" "length (to_tokens st) \<le> to_token_capacity st"
    using inv by (auto simp: token_output_inv_def)
  let ?n = "length (to_tokens st)" and ?m = "length (to_tokens st) + length tokens"
  have required: "to_token_capacity st < usize_saturating_add ?n (length tokens) \<longleftrightarrow> to_token_capacity st < ?m"
    using bounds(3) by (auto simp: usize_saturating_add_def)
  have first: "checked_cursor st ?n = Inr (to_start st + of_nat ?n)"
    using bounds by (intro checked_cursor_cases(1)) simp_all
  note records = record_capacity_check_Inr [OF bounds(2), of "length (to_records st)"]
  have sat: "usize_saturating_add ?n (length tokens) = ?m" if "?m \<le> to_token_capacity st"
    using that bounds(3) by (simp add: usize_saturating_add_def)
  show "try_push_tokens request tokens st =
      (Inr (), st\<lparr>to_tokens := to_tokens st @ tokens,
          to_records := to_records st @ [\<lparr>tor_request_id = request, tor_kind = RecordTokens
            \<lparr>tr_start = to_start st + of_nat ?n, tr_length = length tokens\<rparr>\<rparr>]\<rparr>)"
    if fits: "push_fits st (length tokens)"
  proof -
    have "checked_cursor st ?m = Inr (to_start st + of_nat ?m)"
      using fits bounds(3) by (intro checked_cursor_cases(1)) (simp_all add: push_fits_def)
    with fits show ?thesis
      using tokens first records sat
      by (simp add: push_fits_def try_push_tokens_def Let_def output_try_lock_def)
  qed
  show "\<exists>e. try_push_tokens request tokens st = (Inl e, st)"
    if unfit: "\<not> push_fits st (length tokens)"
  proof (cases "to_mutex st = MutexFree \<and> ?m \<le> to_token_capacity st
      \<and> length (to_records st) < to_record_capacity st")
    case True
    then have "\<exists>e. checked_cursor st ?m = Inl e"
      using unfit bounds(3) by (intro checked_cursor_cases(2)) (simp_all add: push_fits_def)
    with True show ?thesis
      using tokens first records sat
      by (auto simp: try_push_tokens_def Let_def output_try_lock_def)
  next
    case False
    show ?thesis
    proof (cases "to_mutex st = MutexFree \<and> ?m \<le> to_token_capacity st")
      case True
      with False records obtain e where
        "record_capacity_check (length (to_records st)) (to_record_capacity st) = Inl e"
        by (metis unit_result_cases)
      with True show ?thesis using tokens sat
        by (simp add: try_push_tokens_def Let_def output_try_lock_def)
    next
      case False
      with tokens required show ?thesis
        by (cases "to_mutex st") (auto simp: try_push_tokens_def Let_def output_try_lock_def)
    qed
  qed
qed

lemma push_state_cases:
  assumes "token_output_inv st"
  shows "if to_mutex st = MutexFree \<and> length (to_records st) < to_record_capacity st
    then try_push_state request payload st = (Inr (), st\<lparr>to_records := to_records st
      @ [\<lparr>tor_request_id = request, tor_kind = RecordState payload\<rparr>]\<rparr>)
    else \<exists>e. try_push_state request payload st = (Inl e, st)"
proof -
  have "to_record_capacity st < usize_max" using assms by (simp add: token_output_inv_def)
  from record_capacity_check_Inr [OF this, of "length (to_records st)"] show ?thesis
    using unit_result_cases [of "record_capacity_check (length (to_records st)) (to_record_capacity st)"]
    by (cases "to_mutex st") (auto simp: try_push_state_def output_try_lock_def)
qed

subsection \<open>One push\<close>

lemma resolve_same:
  assumes "tob_start batch' = tob_start batch" and "tob_tokens batch' = tob_tokens batch"
  shows "resolve_record batch' r = resolve_record batch r"
  unfolding resolve_record_def tokens_for_def assms ..

lemma resolve_mutex [simp]:
  "resolve_record (token_batch (st\<lparr>to_mutex := m\<rparr>)) r = resolve_record (token_batch st) r"
  by (rule resolve_same) (simp_all add: token_batch_def)

lemma resolve_grow:
  assumes "snd (resolve_record batch r) \<noteq> None"
    and "tob_start batch' = tob_start batch" and "tob_tokens batch' = tob_tokens batch @ extra"
  shows "resolve_record batch' r = resolve_record batch r"
proof (cases "tor_kind r")
  case (RecordTokens rng)
  with assms(1) obtain xs where "tokens_for batch rng = Some xs" by (auto simp: resolve_record_def)
  with tokens_for_grow [OF this assms(2,3)] show ?thesis by (simp add: resolve_record_def RecordTokens)
qed (simp add: resolve_record_def)

lemma push_tokens_effect:
  assumes inv: "token_output_inv st" and fits: "push_fits st (length tokens)"
    and st'_def: "st' = st\<lparr>to_tokens := to_tokens st @ tokens,
    to_records := to_records st @ [\<lparr>tor_request_id = request, tor_kind = RecordTokens
      \<lparr>tr_start = to_start st + of_nat (length (to_tokens st)), tr_length = length tokens\<rparr>\<rparr>]\<rparr>"
  shows "token_output_inv st'"
    and "read_batch (token_batch st') = read_batch (token_batch st) @ [(request, Some (ItemTokens tokens))]"
proof -
  have ok: "\<forall>r \<in> set (to_records st). snd (resolve_record (token_batch st) r) \<noteq> None"
    using inv by (simp add: token_output_inv_def)
  have old: "resolve_record (token_batch st') r = resolve_record (token_batch st) r"
    if "r \<in> set (to_records st)" for r
    using ok that by (intro resolve_grow [where extra = tokens]) (simp_all add: token_batch_def st'_def)
  have new: "tokens_for (token_batch st')
      \<lparr>tr_start = to_start st + of_nat (length (to_tokens st)), tr_length = length tokens\<rparr> = Some tokens"
    using fits by (intro tokens_for_last [where old = "to_tokens st"])
      (simp_all add: token_batch_def st'_def push_fits_def)
  let ?r = "\<lparr>tor_request_id = request, tor_kind = RecordTokens
      \<lparr>tr_start = to_start st + of_nat (length (to_tokens st)), tr_length = length tokens\<rparr>\<rparr>"
  have records: "to_records st' = to_records st @ [?r]" by (simp add: st'_def)
  have last: "resolve_record (token_batch st') ?r = (request, Some (ItemTokens tokens))"
    using new by (simp add: resolve_record_def)
  have read: "read_batch (token_batch x) = map (resolve_record (token_batch x)) (to_records x)" for x
    by (simp add: read_batch_def token_batch_def)
  show "read_batch (token_batch st') = read_batch (token_batch st) @ [(request, Some (ItemTokens tokens))]"
    unfolding read records using old last by simp
  have "\<forall>r \<in> set (to_records st'). snd (resolve_record (token_batch st') r) \<noteq> None"
    unfolding records using ok old last by simp
  with inv fits show "token_output_inv st'"
    by (simp add: token_output_inv_def push_fits_def) (simp add: st'_def)
qed

lemma push_state_effect:
  assumes inv: "token_output_inv st" and room: "length (to_records st) < to_record_capacity st"
    and st'_def: "st' = st\<lparr>to_records := to_records st
      @ [\<lparr>tor_request_id = request, tor_kind = RecordState payload\<rparr>]\<rparr>"
  shows "token_output_inv st'"
    and "read_batch (token_batch st') = read_batch (token_batch st) @ [(request, Some (ItemState payload))]"
proof -
  have same: "resolve_record (token_batch st') r = resolve_record (token_batch st) r" for r
    by (rule resolve_same) (simp_all add: token_batch_def st'_def)
  have records: "to_records st' = to_records st
      @ [\<lparr>tor_request_id = request, tor_kind = RecordState payload\<rparr>]" by (simp add: st'_def)
  have read: "read_batch (token_batch x) = map (resolve_record (token_batch x)) (to_records x)" for x :: "'a token_output"
    by (simp add: read_batch_def token_batch_def)
  show "read_batch (token_batch st') = read_batch (token_batch st) @ [(request, Some (ItemState payload))]"
    unfolding read records using same by (simp add: resolve_record_def)
  have "\<forall>r \<in> set (to_records st'). snd (resolve_record (token_batch st') r) \<noteq> None"
    unfolding records using same inv by (simp add: token_output_inv_def) (simp add: resolve_record_def)
  with inv room show "token_output_inv st'"
    by (simp add: token_output_inv_def) (simp add: st'_def)
qed

subsection \<open>The accumulator delivers what it accepts\<close>

lemma token_output_step_law:
  assumes inv: "token_output_inv st" and step: "token_output_step e st = Some (a, st')"
  shows "token_output_inv st'
    \<and> token_delivered a @ token_pending st' = token_pending st @ token_accepted e a"
proof (cases e)
  case (PushTokens request tokens)
  show ?thesis
  proof (cases "tokens = []")
    case True
    with PushTokens step inv show ?thesis by (auto simp: try_push_tokens_def)
  next
    case False
    show ?thesis
    proof (cases "push_fits st (length tokens)")
      case True
      note push = push_tokens_fits(1) [OF inv False True, of request]
      then have "to_mutex st' = to_mutex st" "to_mutex st = MutexFree"
        using step PushTokens True by (auto simp: push_fits_def)
      then show ?thesis
        using step PushTokens push push_tokens_effect [OF inv True refl, of request] False
        by (auto simp: token_pending_def)
    next
      case unfit: False
      from push_tokens_fits(2) [OF inv False unfit, of request] show ?thesis
        using step PushTokens inv by auto
    qed
  qed
next
  case (PushState request payload)
  note push = push_state_cases [OF inv, of request payload]
  show ?thesis
  proof (cases "to_mutex st = MutexFree \<and> length (to_records st) < to_record_capacity st")
    case True
    then show ?thesis
      using push step PushState push_state_effect [OF inv conjunct2 [OF True] refl, of request payload]
      by (auto simp: token_pending_def)
  next
    case False
    with push show ?thesis using step PushState inv by auto
  qed
next
  case TokenPullBegin
  with step inv show ?thesis
    by (cases "to_mutex st")
      (auto simp: token_pull_begin_def token_pending_def token_output_inv_def)
next
  case TokenPullEnd
  with step have held: "to_mutex st = MutexHeld" "a = TokenReleased"
    "st' = st\<lparr>to_start := checked_pull_cursor st, to_tokens := [], to_records := [], to_mutex := MutexFree\<rparr>"
    by (auto simp: token_pull_end_def split: if_splits)
  have "unat (checked_pull_cursor st) < 2 ^ 64" using unsigned_less [of "checked_pull_cursor st"] by simp
  with held inv TokenPullEnd show ?thesis
    by (simp add: token_output_inv_def token_pending_def read_batch_def token_batch_def)
next
  case TokenPullPanic
  with step inv show ?thesis
    by (auto simp: token_pull_panic_def token_pending_def token_output_inv_def split: if_splits)
qed

interpretation token_stream:
  delivery token_output_step token_output_inv token_accepted token_delivered token_pending
  by unfold_locales (use token_output_step_law in blast)+

subsection \<open>Cursors\<close>

fun batches_of :: "'s token_answer list \<Rightarrow> 's token_output_batch list" where
  "batches_of [] = []"
| "batches_of (TokenPulled (Inr batch) # as) = batch # batches_of as"
| "batches_of (a # as) = batches_of as"

fun cursor_chain :: "token_output_cursor \<Rightarrow> 's token_output_batch list \<Rightarrow> bool" where
  "cursor_chain c [] = True"
| "cursor_chain c (b # bs) = (tob_start b = c
     \<and> unat (tob_end b) = unat c + length (tob_tokens b) \<and> cursor_chain (tob_end b) bs)"

definition next_cursor :: "'s token_output \<Rightarrow> token_output_cursor" where
  "next_cursor st = (if to_mutex st = MutexFree then to_start st else checked_pull_cursor st)"

lemma pull_cursor_exact:
  assumes "token_output_inv st"
  shows "unat (checked_pull_cursor st) = unat (to_start st) + length (to_tokens st)"
proof -
  have bounds: "unat (to_start st) + length (to_tokens st) < 2 ^ 64" using assms
    by (simp add: token_output_inv_def)
  then have "unat (usize_to_u64 (length (to_tokens st))) = length (to_tokens st)"
    by (simp add: unat_usize_to_u64 usize_max_def)
  with bounds show ?thesis by (simp add: checked_pull_cursor_def unat_saturating_add)
qed

lemma push_frame:
  assumes "token_output_inv st" and "token_output_step e st = Some (TokenPushed r, st')"
  shows "next_cursor st' = next_cursor st"
proof (cases e)
  case (PushTokens request tokens)
  show ?thesis
  proof (cases "tokens = []")
    case True
    with PushTokens assms show ?thesis by (auto simp: try_push_tokens_def)
  next
    case False
    from push_tokens_fits [OF assms(1) False, of request] show ?thesis
      using assms(2) PushTokens by (cases "push_fits st (length tokens)")
        (auto simp: next_cursor_def push_fits_def)
  qed
next
  case (PushState request payload)
  from push_state_cases [OF assms(1), of request payload] show ?thesis
    using assms(2) PushState by (auto simp: next_cursor_def split: if_splits)
qed (use assms(2) in auto)

lemma token_run_cursors:
  "token_output_inv st \<Longrightarrow> run_events token_output_step es st = Some (as, t)
     \<Longrightarrow> cursor_chain (next_cursor st) (batches_of as)"
proof (induction es arbitrary: st as)
  case (Cons e es)
  then obtain a st' bs where step: "token_output_step e st = Some (a, st')"
    and rest: "run_events token_output_step es st' = Some (bs, t)" and "as": "as = a # bs"
    unfolding run_events_Cons by blast
  have "cursor_chain (next_cursor st') (batches_of bs)"
    using token_stream.step_inv [OF Cons.prems(1) step] rest by (rule Cons.IH)
  moreover have "cursor_chain (next_cursor st) (batches_of (a # bs))"
    if "cursor_chain (next_cursor st') (batches_of bs)"
  proof (cases a)
    case (TokenPushed r)
    with push_frame [OF Cons.prems(1)] step that show ?thesis by simp
  next
    case (TokenPulled r)
    then have "token_pull_begin st = Some (r, st')"
      using step by (cases e) (auto simp: apfst_def map_prod_def split: prod.splits)
    then show ?thesis
      using that TokenPulled pull_cursor_exact [OF Cons.prems(1)]
      by (cases "to_mutex st") (auto simp: token_pull_begin_def token_batch_def next_cursor_def
          checked_pull_cursor_def)
  next
    case TokenReleased
    then show ?thesis
      using step that by (cases e) (auto simp: token_pull_end_def token_pull_panic_def
          next_cursor_def apfst_def map_prod_def checked_pull_cursor_def split: if_splits prod.splits)
  qed
  ultimately show ?case by (simp add: "as")
qed simp

subsection \<open>Properties\<close>

text \<open>
  \<^bold>\<open>C38\<close>. Nothing is lost, repeated, reordered or corrupted. Over any interleaving of pushes
  and pulls on a new accumulator, the records of the pulled batches, with every token range
  resolved by \<open>tokens_for\<close>, followed by what is still in the accumulator, are exactly the
  accepted pushes in order; and every range resolves.
\<close>
theorem token_output_delivers:
  assumes "token_capacity < usize_max" and "record_capacity < usize_max"
    and "run_events token_output_step es (token_output_new token_capacity record_capacity) = Some (as, st)"
  shows "concat (map token_delivered as) @ token_pending st = concat (map2 token_accepted es as)"
proof -
  have "token_pending (token_output_new token_capacity record_capacity) = []"
    by (simp add: token_pending_def token_output_new_def read_batch_def token_batch_def)
  with token_stream.run_delivery [OF token_output_inv_new [OF assms(1,2)] assms(3)]
  show ?thesis by simp
qed

text \<open>
  A push is atomic. In every reachable accumulator a push of tokens is accepted exactly
  when the consumer does not hold the mutex, the tokens and the record fit the capacities, and
  the cursor does not overflow; a push that is not accepted changes nothing, and one that is
  appends exactly the tokens and one record.
\<close>
theorem token_push_atomic:
  assumes "token_capacity < usize_max" and "record_capacity < usize_max"
    and "run_events token_output_step es (token_output_new token_capacity record_capacity) = Some (as, st)"
    and "tokens \<noteq> []" and "try_push_tokens request tokens st = (r, st')"
  shows "if push_fits st (length tokens)
    then r = Inr () \<and> to_tokens st' = to_tokens st @ tokens
      \<and> butlast (to_records st') = to_records st \<and> to_start st' = to_start st
    else (\<exists>e. r = Inl e) \<and> st' = st"
proof -
  have "token_output_inv st"
    using token_stream.run_inv [OF token_output_inv_new [OF assms(1,2)] assms(3)] .
  from push_tokens_fits [OF this assms(4), of request] assms(5) show ?thesis by auto
qed

text \<open>
  Batches are contiguous. Over any interleaving the first batch starts at cursor zero,
  every later batch starts where the previous one ended, and a batch ends exactly as many
  positions after its start as it holds tokens: the cursor neither saturates nor wraps.
\<close>
theorem token_batches_contiguous:
  assumes "token_capacity < usize_max" and "record_capacity < usize_max"
    and "run_events token_output_step es (token_output_new token_capacity record_capacity) = Some (as, st)"
  shows "cursor_chain 0 (batches_of as)"
  using token_run_cursors [OF token_output_inv_new [OF assms(1,2)] assms(3)]
  by (simp add: next_cursor_def token_output_new_def)

lemmas token_output_simps =
  token_output_new_def try_push_tokens_def try_push_state_def output_try_lock_def
  record_capacity_check_def checked_cursor_def usize_saturating_add_def usize_max_def
  token_pull_begin_def token_pull_end_def token_batch_def checked_pull_cursor_def
  usize_to_u64_def checked_add_def saturating_add_def Let_def

abbreviation example_pushes :: "bool token_event list" where
  "example_pushes \<equiv> [PushTokens (RequestId 1) [TokenId 5, TokenId 6], TokenPullBegin,
     PushTokens (RequestId 2) [TokenId 7], TokenPullEnd, PushState (RequestId 1) True,
     PushTokens (RequestId 2) [TokenId 7], PushTokens (RequestId 2) [TokenId 8]]"

lemma example_token_run:
  "\<exists>st. run_events token_output_step example_pushes (token_output_new 2 2)
     = Some ([TokenPushed (Inr ()),
        TokenPulled (Inr \<lparr>tob_start = 0, tob_end = 2, tob_tokens = [TokenId 5, TokenId 6],
          tob_records = [\<lparr>tor_request_id = RequestId 1,
            tor_kind = RecordTokens \<lparr>tr_start = 0, tr_length = 2\<rparr>\<rparr>]\<rparr>),
        TokenPushed (Inl ConsumerBusy), TokenReleased, TokenPushed (Inr ()), TokenPushed (Inr ()),
        TokenPushed (Inl (OutputCapacityExhausted (capacity_exhausted_new OutputRecords 3 2)))], st)
     \<and> to_start st = 2 \<and> to_tokens st = [TokenId 7] \<and> to_mutex st = MutexFree
     \<and> length (to_records st) = 2 \<and> to_record_capacity st = 2"
  by (simp add: token_output_simps)

theorem token_output_delivers_witness:
  "\<exists>st. token_pending st = [(RequestId 1, Some (ItemState True)), (RequestId 2, Some (ItemTokens [TokenId 7]))]
     \<and> to_start st = 2"
proof -
  obtain st as where run: "run_events token_output_step example_pushes (token_output_new 2 2) = Some (as, st)"
    and "to_start st = 2" and "as = [TokenPushed (Inr ()),
        TokenPulled (Inr \<lparr>tob_start = 0, tob_end = 2, tob_tokens = [TokenId 5, TokenId 6],
          tob_records = [\<lparr>tor_request_id = RequestId 1,
            tor_kind = RecordTokens \<lparr>tr_start = 0, tr_length = 2\<rparr>\<rparr>]\<rparr>),
        TokenPushed (Inl ConsumerBusy), TokenReleased, TokenPushed (Inr ()), TokenPushed (Inr ()),
        TokenPushed (Inl (OutputCapacityExhausted (capacity_exhausted_new OutputRecords 3 2)))]"
    using example_token_run by blast
  moreover have "(2 :: nat) < usize_max" by (simp add: usize_max_def)
  ultimately show ?thesis
    using token_output_delivers [of 2 2 example_pushes as st]
    by (auto simp: read_batch_def resolve_record_def tokens_for_def checked_sub_def
        usize_checked_add_def usize_max_def)
qed

theorem token_push_atomic_witness:
  "\<exists>st e. try_push_tokens (RequestId 2) [TokenId 8] (st :: bool token_output) = (Inl e, st)
     \<and> to_mutex st = MutexFree"
proof -
  obtain st as where run: "run_events token_output_step example_pushes (token_output_new 2 2) = Some (as, st)"
    and st: "to_mutex st = MutexFree" "length (to_records st) = 2" "to_record_capacity st = 2"
    using example_token_run by blast
  obtain r st' where push: "try_push_tokens (RequestId 2) [TokenId 8] st = (r, st')" by fastforce
  have "(2 :: nat) < usize_max" by (simp add: usize_max_def)
  from token_push_atomic [OF this this run _ push] st have "(\<exists>e. r = Inl e) \<and> st' = st"
    by (simp add: push_fits_def)
  with push st show ?thesis by auto
qed

theorem token_batches_contiguous_witness:
  "cursor_chain 0 [\<lparr>tob_start = 0, tob_end = 2, tob_tokens = [TokenId 5, TokenId 6],
      tob_records = [\<lparr>tor_request_id = RequestId 1,
        tor_kind = RecordTokens \<lparr>tr_start = 0, tr_length = 2\<rparr> :: bool token_record_kind\<rparr>]\<rparr>]"
proof -
  have small: "(2 :: nat) < usize_max" by (simp add: usize_max_def)
  obtain st where "run_events token_output_step example_pushes (token_output_new 2 2)
     = Some ([TokenPushed (Inr ()),
        TokenPulled (Inr \<lparr>tob_start = 0, tob_end = 2, tob_tokens = [TokenId 5, TokenId 6],
          tob_records = [\<lparr>tor_request_id = RequestId 1,
            tor_kind = RecordTokens \<lparr>tr_start = 0, tr_length = 2\<rparr>\<rparr>]\<rparr>),
        TokenPushed (Inl ConsumerBusy), TokenReleased, TokenPushed (Inr ()), TokenPushed (Inr ()),
        TokenPushed (Inl (OutputCapacityExhausted (capacity_exhausted_new OutputRecords 3 2)))], st)"
    using example_token_run by blast
  from token_batches_contiguous [OF small small this] show ?thesis by simp
qed

end
