(* ===== verification/Text_Output.thy ===== *)
theory Text_Output
  imports Output_Stream
begin

section \<open>The text output accumulator\<close>

text \<open>
  \<open>crates/adapters/host-runtime/src/output.rs\<close> with the batch types of
  \<open>domain-contracts/src/output.rs\<close>: complete UTF-8 fragments and terminal records, pulled by
  the user interface on its own clock. A fragment is the list of its bytes. The callback of
  \<open>pull\<close> runs between the events \<open>TextPullBegin\<close> and \<open>TextPullEnd\<close>.
\<close>

subsection \<open>Data\<close>

type_synonym output_cursor = u64

record byte_range =
  br_start :: usize
  br_length :: usize

datatype output_record_kind =
    OutText byte_range
  | OutYielded yield_reason
  | OutFinished finish_reason

record output_record =
  or_request_id :: request_id
  or_kind :: output_record_kind

record output_batch =
  ob_start :: output_cursor
  ob_end :: output_cursor
  ob_bytes :: "u8 list"
  ob_records :: "output_record list"

record text_output =
  xo_start :: output_cursor
  xo_bytes :: "u8 list"
  xo_records :: "output_record list"
  xo_byte_capacity :: usize
  xo_record_capacity :: usize
  xo_mutex :: mutex_state

definition text_output_new :: "usize \<Rightarrow> usize \<Rightarrow> text_output" where
  "text_output_new byte_capacity record_capacity =
     \<lparr>xo_start = 0, xo_bytes = [], xo_records = [], xo_byte_capacity = byte_capacity,
      xo_record_capacity = record_capacity, xo_mutex = MutexFree\<rparr>"

subsection \<open>Operations\<close>

definition try_push_text ::
    "request_id \<Rightarrow> u8 list \<Rightarrow> text_output \<Rightarrow> (output_push_error + unit) \<times> text_output" where
  "try_push_text request text st =
     (case output_try_lock (xo_mutex st) of
        Inl e \<Rightarrow> (Inl e, st)
      | Inr _ \<Rightarrow>
          let required = usize_saturating_add (length (xo_bytes st)) (length text) in
          if xo_byte_capacity st < required
          then (Inl (OutputCapacityExhausted (capacity_exhausted_new OutputBytes
                  (usize_to_u64 required) (usize_to_u64 (xo_byte_capacity st)))), st)
          else (case record_capacity_check (length (xo_records st)) (xo_record_capacity st) of
                  Inl e \<Rightarrow> (Inl e, st)
                | Inr _ \<Rightarrow>
                    (Inr (), st\<lparr>xo_bytes := xo_bytes st @ text,
                       xo_records := xo_records st @ [\<lparr>or_request_id = request, or_kind =
                         OutText \<lparr>br_start = length (xo_bytes st), br_length = length text\<rparr>\<rparr>]\<rparr>)))"

definition try_push_record ::
    "request_id \<Rightarrow> output_record_kind \<Rightarrow> text_output \<Rightarrow> (output_push_error + unit) \<times> text_output" where
  "try_push_record request kind st =
     (case kind of
        OutText _ \<Rightarrow> (Inl InvalidRecordKind, st)
      | _ \<Rightarrow>
          (case output_try_lock (xo_mutex st) of
             Inl e \<Rightarrow> (Inl e, st)
           | Inr _ \<Rightarrow>
          (case record_capacity_check (length (xo_records st)) (xo_record_capacity st) of
             Inl e \<Rightarrow> (Inl e, st)
           | Inr _ \<Rightarrow> (Inr (), st\<lparr>xo_records := xo_records st
               @ [\<lparr>or_request_id = request, or_kind = kind\<rparr>]\<rparr>))))"

definition text_try_lengths :: "text_output \<Rightarrow> output_push_error + usize \<times> usize" where
  "text_try_lengths st = bind_ok (output_try_lock (xo_mutex st))
     (\<lambda>_. Inr (length (xo_bytes st), length (xo_records st)))"

definition text_batch :: "text_output \<Rightarrow> output_batch" where
  "text_batch st = \<lparr>ob_start = xo_start st,
     ob_end = saturating_add (xo_start st) (usize_to_u64 (length (xo_bytes st))),
     ob_bytes = xo_bytes st, ob_records = xo_records st\<rparr>"

definition text_pull_begin ::
    "text_output \<Rightarrow> ((output_pull_error + output_batch) \<times> text_output) option" where
  "text_pull_begin st = (case xo_mutex st of
     MutexFree \<Rightarrow> Some (Inr (text_batch st), st\<lparr>xo_mutex := MutexHeld\<rparr>)
   | MutexHeld \<Rightarrow> None
   | MutexPoisoned \<Rightarrow> Some (Inl PullPoisoned, st))"

definition text_pull_end :: "text_output \<Rightarrow> text_output option" where
  "text_pull_end st =
     (if xo_mutex st = MutexHeld
      then Some (st\<lparr>xo_start := ob_end (text_batch st), xo_bytes := [], xo_records := [],
                   xo_mutex := MutexFree\<rparr>)
      else None)"

definition text_pull_panic :: "text_output \<Rightarrow> text_output option" where
  "text_pull_panic st =
     (if xo_mutex st = MutexHeld then Some (st\<lparr>xo_mutex := MutexPoisoned\<rparr>) else None)"

subsection \<open>Interleavings\<close>

datatype text_event =
    PushText request_id "u8 list"
  | PushRecord request_id output_record_kind
  | TextPullBegin
  | TextPullEnd
  | TextPullPanic

datatype text_answer =
    TextPushed "output_push_error + unit"
  | TextPulled "output_pull_error + output_batch"
  | TextReleased

fun text_output_step :: "text_event \<Rightarrow> text_output \<Rightarrow> (text_answer \<times> text_output) option" where
  "text_output_step (PushText request text) st =
     Some (apfst TextPushed (try_push_text request text st))"
| "text_output_step (PushRecord request kind) st =
     Some (apfst TextPushed (try_push_record request kind st))"
| "text_output_step TextPullBegin st = map_option (apfst TextPulled) (text_pull_begin st)"
| "text_output_step TextPullEnd st = map_option (Pair TextReleased) (text_pull_end st)"
| "text_output_step TextPullPanic st = map_option (Pair TextReleased) (text_pull_panic st)"

subsection \<open>What was pushed and what a batch says\<close>

datatype text_item = ItemText "u8 list" | ItemRecord output_record_kind

fun text_accepted :: "text_event \<Rightarrow> text_answer \<Rightarrow> (request_id \<times> text_item option) list" where
  "text_accepted (PushText request text) (TextPushed (Inr _)) = [(request, Some (ItemText text))]"
| "text_accepted (PushRecord request kind) (TextPushed (Inr _)) = [(request, Some (ItemRecord kind))]"
| "text_accepted _ _ = []"

definition bytes_for :: "u8 list \<Rightarrow> byte_range \<Rightarrow> u8 list option" where
  "bytes_for bytes rng =
     (if br_start rng + br_length rng \<le> length bytes
      then Some (take (br_length rng) (drop (br_start rng) bytes)) else None)"

definition resolve_text :: "u8 list \<Rightarrow> output_record \<Rightarrow> request_id \<times> text_item option" where
  "resolve_text bytes r = (or_request_id r, case or_kind r of
     OutText rng \<Rightarrow> map_option ItemText (bytes_for bytes rng)
   | kind \<Rightarrow> Some (ItemRecord kind))"

fun text_delivered :: "text_answer \<Rightarrow> (request_id \<times> text_item option) list" where
  "text_delivered (TextPulled (Inr batch)) = map (resolve_text (ob_bytes batch)) (ob_records batch)"
| "text_delivered _ = []"

definition text_pending :: "text_output \<Rightarrow> (request_id \<times> text_item option) list" where
  "text_pending st =
     (if xo_mutex st = MutexFree then map (resolve_text (xo_bytes st)) (xo_records st) else [])"

definition text_output_inv :: "text_output \<Rightarrow> bool" where
  "text_output_inv st \<longleftrightarrow> length (xo_bytes st) \<le> xo_byte_capacity st
     \<and> length (xo_records st) \<le> xo_record_capacity st
     \<and> xo_byte_capacity st < usize_max \<and> xo_record_capacity st < usize_max
     \<and> (\<forall>r \<in> set (xo_records st). snd (resolve_text (xo_bytes st) r) \<noteq> None)"

lemma text_output_inv_new:
  "byte_capacity < usize_max \<Longrightarrow> record_capacity < usize_max
     \<Longrightarrow> text_output_inv (text_output_new byte_capacity record_capacity)"
  by (simp add: text_output_inv_def text_output_new_def)

lemma resolve_text_grow:
  "snd (resolve_text bytes r) \<noteq> None \<Longrightarrow> resolve_text (bytes @ extra) r = resolve_text bytes r"
  by (auto simp: resolve_text_def bytes_for_def split: output_record_kind.splits if_splits)

lemma resolve_text_last:
  "resolve_text (bytes @ text) \<lparr>or_request_id = request, or_kind =
      OutText \<lparr>br_start = length bytes, br_length = length text\<rparr>\<rparr> = (request, Some (ItemText text))"
  by (simp add: resolve_text_def bytes_for_def)

lemma push_text_cases:
  assumes "text_output_inv st"
  shows "if xo_mutex st = MutexFree \<and> length (xo_bytes st) + length text \<le> xo_byte_capacity st
      \<and> length (xo_records st) < xo_record_capacity st
    then try_push_text request text st = (Inr (), st\<lparr>xo_bytes := xo_bytes st @ text,
      xo_records := xo_records st @ [\<lparr>or_request_id = request, or_kind =
        OutText \<lparr>br_start = length (xo_bytes st), br_length = length text\<rparr>\<rparr>]\<rparr>)
    else \<exists>e. try_push_text request text st = (Inl e, st)"
proof -
  have small: "xo_record_capacity st < usize_max" "xo_byte_capacity st < usize_max"
    using assms by (simp_all add: text_output_inv_def)
  have required: "xo_byte_capacity st < usize_saturating_add (length (xo_bytes st)) (length text)
      \<longleftrightarrow> xo_byte_capacity st < length (xo_bytes st) + length text"
    using small(2) by (auto simp: usize_saturating_add_def)
  from record_capacity_check_Inr [OF small(1), of "length (xo_records st)"] required show ?thesis
    using unit_result_cases [of "record_capacity_check (length (xo_records st)) (xo_record_capacity st)"]
    by (cases "xo_mutex st") (auto simp: try_push_text_def output_try_lock_def Let_def)
qed

lemma push_record_cases:
  assumes "text_output_inv st"
  shows "if xo_mutex st = MutexFree \<and> length (xo_records st) < xo_record_capacity st
      \<and> (\<forall>rng. kind \<noteq> OutText rng)
    then try_push_record request kind st = (Inr (), st\<lparr>xo_records := xo_records st
      @ [\<lparr>or_request_id = request, or_kind = kind\<rparr>]\<rparr>)
    else \<exists>e. try_push_record request kind st = (Inl e, st)"
proof -
  have "xo_record_capacity st < usize_max" using assms by (simp add: text_output_inv_def)
  from record_capacity_check_Inr [OF this, of "length (xo_records st)"] show ?thesis
    using unit_result_cases [of "record_capacity_check (length (xo_records st)) (xo_record_capacity st)"]
    by (cases "xo_mutex st"; cases kind) (auto simp: try_push_record_def output_try_lock_def)
qed

lemma resolve_text_record:
  "(\<forall>rng. kind \<noteq> OutText rng)
     \<Longrightarrow> resolve_text bytes \<lparr>or_request_id = request, or_kind = kind\<rparr> = (request, Some (ItemRecord kind))"
  by (cases kind) (simp_all add: resolve_text_def)

lemma text_output_step_law:
  assumes inv: "text_output_inv st" and step: "text_output_step e st = Some (a, st')"
  shows "text_output_inv st'
    \<and> text_delivered a @ text_pending st' = text_pending st @ text_accepted e a"
proof (cases e)
  case (PushText request fragment)
  from push_text_cases [OF inv, of fragment request] show ?thesis
    using step PushText inv
    by (auto simp: text_output_inv_def text_pending_def resolve_text_grow resolve_text_last
        split: if_splits)
next
  case (PushRecord request kind)
  from push_record_cases [OF inv, of kind request] show ?thesis
    using step PushRecord inv
    by (auto simp: text_output_inv_def text_pending_def resolve_text_record split: if_splits)
next
  case TextPullBegin
  with step inv show ?thesis
    by (cases "xo_mutex st")
      (auto simp: text_pull_begin_def text_pending_def text_output_inv_def text_batch_def)
next
  case TextPullEnd
  with step inv show ?thesis
    by (auto simp: text_pull_end_def text_pending_def text_output_inv_def split: if_splits)
next
  case TextPullPanic
  with step inv show ?thesis
    by (auto simp: text_pull_panic_def text_pending_def text_output_inv_def split: if_splits)
qed

interpretation text_stream:
  delivery text_output_step text_output_inv text_accepted text_delivered text_pending
  by unfold_locales (use text_output_step_law in blast)+

subsection \<open>Properties\<close>

text \<open>
  Text reaches the user interface whole and in order. Over any interleaving of pushes and
  pulls on a new accumulator, the fragments and records of the pulled batches, with every byte
  range resolved, followed by what is still in the accumulator, are exactly the accepted pushes
  in order. No fragment is split or lost, and no text record exists without its bytes.
\<close>
theorem text_output_delivers:
  assumes "byte_capacity < usize_max" and "record_capacity < usize_max"
    and "run_events text_output_step es (text_output_new byte_capacity record_capacity) = Some (as, st)"
  shows "concat (map text_delivered as) @ text_pending st = concat (map2 text_accepted es as)
    \<and> length (xo_bytes st) \<le> xo_byte_capacity st \<and> length (xo_records st) \<le> xo_record_capacity st"
proof -
  note new = text_output_inv_new [OF assms(1,2)]
  have "text_pending (text_output_new byte_capacity record_capacity) = []"
    by (simp add: text_pending_def text_output_new_def)
  with text_stream.run_delivery [OF new assms(3)] text_stream.run_inv [OF new assms(3)]
  show ?thesis by (simp add: text_output_inv_def)
qed

abbreviation example_texts :: "text_event list" where
  "example_texts \<equiv> [PushText (RequestId 1) [104, 105], TextPullBegin,
     PushText (RequestId 1) [33], TextPullEnd, PushText (RequestId 1) [33],
     PushRecord (RequestId 1) (OutText \<lparr>br_start = 0, br_length = 9\<rparr>),
     PushRecord (RequestId 1) (OutFinished TokenLimit)]"

lemmas text_output_simps =
  text_output_new_def try_push_text_def try_push_record_def output_try_lock_def
  record_capacity_check_def usize_saturating_add_def usize_max_def usize_to_u64_def
  text_pull_begin_def text_pull_end_def text_batch_def saturating_add_def Let_def

lemma example_text_run:
  "\<exists>st. run_events text_output_step example_texts (text_output_new 8 2)
     = Some ([TextPushed (Inr ()),
        TextPulled (Inr \<lparr>ob_start = 0, ob_end = 2, ob_bytes = [104, 105],
          ob_records = [\<lparr>or_request_id = RequestId 1,
            or_kind = OutText \<lparr>br_start = 0, br_length = 2\<rparr>\<rparr>]\<rparr>),
        TextPushed (Inl ConsumerBusy), TextReleased, TextPushed (Inr ()),
        TextPushed (Inl InvalidRecordKind), TextPushed (Inr ())], st)"
  by (simp add: text_output_simps)

theorem text_output_delivers_witness:
  "\<exists>st. text_pending st = [(RequestId 1, Some (ItemText [33])),
      (RequestId 1, Some (ItemRecord (OutFinished TokenLimit)))]"
proof -
  have small: "(8 :: nat) < usize_max" "(2 :: nat) < usize_max" by (simp_all add: usize_max_def)
  obtain st where "run_events text_output_step example_texts (text_output_new 8 2)
     = Some ([TextPushed (Inr ()),
        TextPulled (Inr \<lparr>ob_start = 0, ob_end = 2, ob_bytes = [104, 105],
          ob_records = [\<lparr>or_request_id = RequestId 1,
            or_kind = OutText \<lparr>br_start = 0, br_length = 2\<rparr>\<rparr>]\<rparr>),
        TextPushed (Inl ConsumerBusy), TextReleased, TextPushed (Inr ()),
        TextPushed (Inl InvalidRecordKind), TextPushed (Inr ())], st)"
    using example_text_run by blast
  from text_output_delivers [OF small this] show ?thesis
    by (auto simp: resolve_text_def bytes_for_def)
qed

end
