(* ===== verification/Backend.thy ===== *)
theory Backend
  imports Model_Data
begin

section \<open>The backend contract and the checked operations\<close>

text \<open>
  The traits of \<open>crates/features/domain-contracts/src/backend.rs\<close> as records of functions
  over a source type, a loader type, a model type and a sequence type, and the two generic
  functions that call them, \<open>prefill_checked\<close> and \<open>decode_checked\<close>. A method that takes
  \<open>&mut self\<close> returns the new value; one that also takes \<open>&mut\<close> of a sequence or a logits
  buffer returns these too. What a backend does inside its methods is a parameter.
\<close>

subsection \<open>The traits\<close>

record ('src, 'ld, 'm) model_loader =
  ml_inspect :: "'ld \<Rightarrow> 'src \<Rightarrow> load_error + model_descriptor"
  ml_plan_load :: "'ld \<Rightarrow> 'src \<Rightarrow> load_configuration \<Rightarrow> load_error + load_plan"
  ml_load :: "'ld \<Rightarrow> 'src \<Rightarrow> load_configuration \<Rightarrow> (load_error + 'm) \<times> 'ld"

record 'q backend_sequence =
  bs_id :: "'q \<Rightarrow> sequence_id"
  bs_state :: "'q \<Rightarrow> sequence_state"
  bs_position :: "'q \<Rightarrow> usize"
  bs_token_capacity :: "'q \<Rightarrow> usize"

record ('m, 'q) loaded_model =
  lm_sequence :: "'q backend_sequence"
  lm_handle :: "'m \<Rightarrow> model_handle"
  lm_metadata :: "'m \<Rightarrow> model_metadata"
  lm_plan_sequence :: "'m \<Rightarrow> sequence_configuration \<Rightarrow> model_error + sequence_plan"
  lm_create_sequence ::
    "'m \<Rightarrow> sequence_id \<Rightarrow> sequence_configuration \<Rightarrow> (model_error + 'q) \<times> 'm"
  lm_prefill_buffer_requirements :: "'m \<Rightarrow> 'q \<Rightarrow> prefill_input \<Rightarrow> buffer_requirements"
  lm_decode_buffer_requirements :: "'m \<Rightarrow> 'q \<Rightarrow> decode_input \<Rightarrow> buffer_requirements"
  lm_prefill_prepared ::
    "'m \<Rightarrow> 'q \<Rightarrow> prefill_input \<Rightarrow> prepared_buffers
       \<Rightarrow> (sequence_error + prefill_outcome) \<times> 'm \<times> 'q \<times> f32 list"
  lm_decode_prepared ::
    "'m \<Rightarrow> 'q \<Rightarrow> decode_input \<Rightarrow> prepared_buffers
       \<Rightarrow> (sequence_error + decode_outcome) \<times> 'm \<times> 'q \<times> f32 list"
  lm_destroy_sequence :: "'m \<Rightarrow> 'q \<Rightarrow> (sequence_error + unit) \<times> 'm \<times> 'q"
  lm_reset_sequence :: "'m \<Rightarrow> 'q \<Rightarrow> (sequence_error + unit) \<times> 'm \<times> 'q"
  lm_synchronize :: "'m \<Rightarrow> (synchronization_error + unit) \<times> 'm"
  lm_prepare_unload :: "'m \<Rightarrow> (synchronization_error + unit) \<times> 'm"

abbreviation seq_id :: "('m, 'q) loaded_model \<Rightarrow> 'q \<Rightarrow> sequence_id" where
  "seq_id b \<equiv> bs_id (lm_sequence b)"

abbreviation seq_state :: "('m, 'q) loaded_model \<Rightarrow> 'q \<Rightarrow> sequence_state" where
  "seq_state b \<equiv> bs_state (lm_sequence b)"

definition available_positions :: "('m, 'q) loaded_model \<Rightarrow> 'q \<Rightarrow> usize" where
  "available_positions b q =
     bs_token_capacity (lm_sequence b) q - bs_position (lm_sequence b) q"

subsection \<open>The checked operations\<close>

definition prefill_checked ::
    "('m, 'q) loaded_model \<Rightarrow> 'm \<Rightarrow> 'q \<Rightarrow> prefill_input \<Rightarrow> f32 list \<Rightarrow> cancellation_status
       \<Rightarrow> (sequence_error + prefill_outcome) \<times> 'm \<times> 'q \<times> f32 list" where
  "prefill_checked b m q input logits cancellation =
     (case cancellation_reason_of cancellation of
        Some reason \<Rightarrow> (Inr (PrefillFinished (Cancelled reason)), m, q, logits)
      | None \<Rightarrow>
          if seq_state b q = SeqFinished then (Inl SequenceInvalidState, m, q, logits)
          else let available_tokens = available_positions b q in
          if available_tokens < length (pi_tokens input)
          then (Inr (PrefillFinished (BufferExhausted (capacity_exhausted_new Tokens
                  (usize_to_u64 (length (pi_tokens input))) (usize_to_u64 available_tokens)))),
                m, q, logits)
          else (case prefill_buffers_prepare logits (lm_prefill_buffer_requirements b m q input) of
                  Inl capacity \<Rightarrow> (Inr (PrefillFinished (BufferExhausted capacity)), m, q, logits)
                | Inr prepared \<Rightarrow>
                    (case lm_prefill_prepared b m q input prepared of
                       (Inr outcome, rest) \<Rightarrow> (Inr outcome, rest)
                     | (Inl (SequenceCapacityExhausted capacity), rest) \<Rightarrow>
                         (Inr (PrefillFinished (BufferExhausted capacity)), rest)
                     | (Inl (SequenceCancelled reason), rest) \<Rightarrow>
                         (Inr (PrefillFinished (Cancelled reason)), rest)
                     | (Inl e, rest) \<Rightarrow> (Inl e, rest))))"

definition decode_checked ::
    "('m, 'q) loaded_model \<Rightarrow> 'm \<Rightarrow> 'q \<Rightarrow> decode_input \<Rightarrow> f32 list \<Rightarrow> cancellation_status
       \<Rightarrow> (sequence_error + decode_outcome) \<times> 'm \<times> 'q \<times> f32 list" where
  "decode_checked b m q input logits cancellation =
     (case cancellation_reason_of cancellation of
        Some reason \<Rightarrow> (Inr (DecodeFinished (Cancelled reason)), m, q, logits)
      | None \<Rightarrow>
          if seq_state b q \<noteq> SeqReady then (Inl SequenceInvalidState, m, q, logits)
          else let available_tokens = available_positions b q in
          if available_tokens = 0
          then (Inr (DecodeFinished (BufferExhausted (capacity_exhausted_new Tokens 1 0))),
                m, q, logits)
          else (case decode_buffers_prepare logits (lm_decode_buffer_requirements b m q input) of
                  Inl capacity \<Rightarrow> (Inr (DecodeFinished (BufferExhausted capacity)), m, q, logits)
                | Inr prepared \<Rightarrow>
                    (case lm_decode_prepared b m q input prepared of
                       (Inr outcome, rest) \<Rightarrow> (Inr outcome, rest)
                     | (Inl (SequenceCapacityExhausted capacity), rest) \<Rightarrow>
                         (Inr (DecodeFinished (BufferExhausted capacity)), rest)
                     | (Inl (SequenceCancelled reason), rest) \<Rightarrow>
                         (Inr (DecodeFinished (Cancelled reason)), rest)
                     | (Inl e, rest) \<Rightarrow> (Inl e, rest))))"

text \<open>When the backend is entered at all.\<close>

definition prefill_admitted ::
    "('m, 'q) loaded_model \<Rightarrow> 'm \<Rightarrow> 'q \<Rightarrow> prefill_input \<Rightarrow> f32 list \<Rightarrow> cancellation_status \<Rightarrow> bool" where
  "prefill_admitted b m q input logits cancellation \<longleftrightarrow> cancellation = CancelRunning
     \<and> seq_state b q \<noteq> SeqFinished \<and> length (pi_tokens input) \<le> available_positions b q
     \<and> lm_prefill_buffer_requirements b m q input \<le> length logits"

definition decode_admitted ::
    "('m, 'q) loaded_model \<Rightarrow> 'm \<Rightarrow> 'q \<Rightarrow> decode_input \<Rightarrow> f32 list \<Rightarrow> cancellation_status \<Rightarrow> bool" where
  "decode_admitted b m q input logits cancellation \<longleftrightarrow> cancellation = CancelRunning
     \<and> seq_state b q = SeqReady \<and> 0 < available_positions b q
     \<and> lm_decode_buffer_requirements b m q input \<le> length logits"

text \<open>How an error of the backend is presented: exhaustion and cancellation end the request.\<close>

fun present_prefill :: "sequence_error + prefill_outcome \<Rightarrow> sequence_error + prefill_outcome" where
  "present_prefill (Inl (SequenceCapacityExhausted c)) = Inr (PrefillFinished (BufferExhausted c))"
| "present_prefill (Inl (SequenceCancelled r)) = Inr (PrefillFinished (Cancelled r))"
| "present_prefill r = r"

fun present_decode :: "sequence_error + decode_outcome \<Rightarrow> sequence_error + decode_outcome" where
  "present_decode (Inl (SequenceCapacityExhausted c)) = Inr (DecodeFinished (BufferExhausted c))"
| "present_decode (Inl (SequenceCancelled r)) = Inr (DecodeFinished (Cancelled r))"
| "present_decode r = r"

lemma prefill_checked_cases:
  "if prefill_admitted b m q input logits c
   then prefill_checked b m q input logits c = apfst present_prefill
     (lm_prefill_prepared b m q input \<lparr>pb_logits = logits,
        pb_required_logits = lm_prefill_buffer_requirements b m q input\<rparr>)
   else \<exists>r. prefill_checked b m q input logits c = (r, m, q, logits)
     \<and> (r = Inl SequenceInvalidState \<longleftrightarrow> c = CancelRunning \<and> seq_state b q = SeqFinished)
     \<and> ((\<exists>reason. r = Inr (PrefillFinished reason)) \<longleftrightarrow> r \<noteq> Inl SequenceInvalidState)"
  by (cases c; cases "lm_prefill_prepared b m q input \<lparr>pb_logits = logits,
        pb_required_logits = lm_prefill_buffer_requirements b m q input\<rparr>")
    (auto simp: prefill_checked_def prefill_admitted_def prefill_buffers_prepare_def Let_def
      split: sum.splits sequence_error.splits)

lemma decode_checked_cases:
  "if decode_admitted b m q input logits c
   then decode_checked b m q input logits c = apfst present_decode
     (lm_decode_prepared b m q input \<lparr>pb_logits = logits,
        pb_required_logits = lm_decode_buffer_requirements b m q input\<rparr>)
   else \<exists>r. decode_checked b m q input logits c = (r, m, q, logits)
     \<and> (r = Inl SequenceInvalidState \<longleftrightarrow> c = CancelRunning \<and> seq_state b q \<noteq> SeqReady)
     \<and> ((\<exists>reason. r = Inr (DecodeFinished reason)) \<longleftrightarrow> r \<noteq> Inl SequenceInvalidState)"
  by (cases c; cases "lm_decode_prepared b m q input \<lparr>pb_logits = logits,
        pb_required_logits = lm_decode_buffer_requirements b m q input\<rparr>")
    (auto simp: decode_checked_def decode_admitted_def decode_buffers_prepare_def Let_def
      split: sum.splits sequence_error.splits)

subsection \<open>Properties\<close>

text \<open>
  The backend is entered only with room. \<open>prefill_checked\<close> and \<open>decode_checked\<close> call the
  backend exactly when the request is not cancelled, the sequence is in a state that allows the
  step, the step fits the sequence's token capacity, and the caller's logits buffer is at least
  as long as the backend asks. Otherwise the model, the sequence and the buffer are as before,
  and the answer is a normal finish, or \<open>InvalidState\<close> exactly when the sequence is in the
  wrong state. When the backend is entered, what it does is what happens, with exhaustion and
  cancellation presented as a finish.
\<close>
theorem checked_steps_guard_backend:
  "(if prefill_admitted b m q input logits c
    then prefill_checked b m q input logits c = apfst present_prefill
      (lm_prefill_prepared b m q input \<lparr>pb_logits = logits,
         pb_required_logits = lm_prefill_buffer_requirements b m q input\<rparr>)
    else \<exists>r. prefill_checked b m q input logits c = (r, m, q, logits)
      \<and> (r = Inl SequenceInvalidState \<longleftrightarrow> c = CancelRunning \<and> seq_state b q = SeqFinished)
      \<and> ((\<exists>reason. r = Inr (PrefillFinished reason)) \<longleftrightarrow> r \<noteq> Inl SequenceInvalidState))
   \<and> (if decode_admitted b m q token logits c
    then decode_checked b m q token logits c = apfst present_decode
      (lm_decode_prepared b m q token \<lparr>pb_logits = logits,
         pb_required_logits = lm_decode_buffer_requirements b m q token\<rparr>)
    else \<exists>r. decode_checked b m q token logits c = (r, m, q, logits)
      \<and> (r = Inl SequenceInvalidState \<longleftrightarrow> c = CancelRunning \<and> seq_state b q \<noteq> SeqReady)
      \<and> ((\<exists>reason. r = Inr (DecodeFinished reason)) \<longleftrightarrow> r \<noteq> Inl SequenceInvalidState))"
  using prefill_checked_cases decode_checked_cases by (intro conjI)

end
