(* ===== verification/Runtime_Types.thy ===== *)
theory Runtime_Types
  imports Backend Lifecycle Btree_Map
begin

section \<open>Runtime errors, receipts, limits and footprint arithmetic\<close>

text \<open>
  The types of \<open>error.rs\<close>, \<open>command.rs\<close> (receipts and snapshots) and \<open>configuration.rs\<close> of
  \<open>crates/engines/inference-runtime/src\<close> that the model registry uses, and the free functions
  at the end of \<open>runtime.rs\<close>. The combinators \<open>rt_bind\<close> and \<open>rt_lift\<close> are the operator \<open>?\<close> of
  a method with \<open>&mut self\<close>: the state reached so far is kept when the method returns early.
\<close>

subsection \<open>Errors\<close>

datatype runtime_operation =
    OpModelAdmission | OpSequenceAdmission | OpPrefill | OpDecode | OpSampling | OpCompletion
  | OpCancellation | OpSequenceDestruction | OpModelUnload | OpShutdown

datatype failure_class =
    ClassBackendContract | ClassLoad | ClassModel | ClassSequence | ClassSynchronization
  | ClassLifecycle | ClassCapacity | ClassSampling | ClassCompletion | ClassCancellation
  | ClassShutdown | ClassInvariant

record cleanup_failure_report =
  cf_primary_operation :: runtime_operation
  cf_primary_failure :: failure_class
  cf_cleanup_operation :: runtime_operation
  cf_cleanup_failure :: failure_class

datatype cleanup_resource =
    ResourceModel model_id
  | ResourceSequence model_id request_id sequence_id

record cleanup_retry_state =
  cr_resource :: cleanup_resource
  cr_failure :: cleanup_failure_report
  cr_attempts :: u32
  cr_maximum_attempts :: u32

definition cleanup_exhausted :: "cleanup_retry_state \<Rightarrow> bool" where
  "cleanup_exhausted state \<longleftrightarrow> cr_maximum_attempts state \<le> cr_attempts state"

datatype cleanup_poll =
    CleanupIdle
  | CleanupReleased cleanup_retry_state
  | CleanupRetryFailed cleanup_retry_state
  | CleanupExhausted cleanup_retry_state

datatype sampling_failure =
    SamplingInvalidConfiguration
  | SamplingNoCandidate
  | SamplingInvalidInput
  | SamplingCapacityExhausted capacity_exhausted

datatype memory_kind = MemoryHost | MemoryDevice

datatype runtime_error =
    ModelAlreadyLoaded model_id
  | ModelNotLoaded model_id
  | StaleModelHandle model_handle model_handle
  | RequestAlreadyActive request_id
  | RequestNotActive request_id
  | SequenceAlreadyActive sequence_id
  | ModelGenerationExhausted model_id
  | ShuttingDown
  | LoadedModelLimit u32 u32
  | MemoryArithmeticOverflow
  | MemoryArithmeticUnderflow
  | RuntimeCapacityExhausted capacity_exhausted
  | InsufficientMemory memory_kind u64 u64
  | RuntimeLoad load_error
  | RuntimeModel model_error
  | RuntimeSequence sequence_error
  | RuntimeSynchronization synchronization_error
  | RuntimeLifecycle lifecycle_error
  | BackendContractViolation
  | ModelDegraded model_id
  | RuntimeSampling sampling_failure
  | CleanupFailed cleanup_failure_report
  | CleanupRetryExhausted cleanup_retry_state

fun runtime_failure_class :: "runtime_error \<Rightarrow> failure_class" where
  "runtime_failure_class (RuntimeLoad _) = ClassLoad"
| "runtime_failure_class (RuntimeModel _) = ClassModel"
| "runtime_failure_class (RuntimeSequence _) = ClassSequence"
| "runtime_failure_class (RuntimeSynchronization _) = ClassSynchronization"
| "runtime_failure_class (RuntimeLifecycle _) = ClassLifecycle"
| "runtime_failure_class (RuntimeCapacityExhausted _) = ClassCapacity"
| "runtime_failure_class (InsufficientMemory _ _ _) = ClassCapacity"
| "runtime_failure_class (LoadedModelLimit _ _) = ClassCapacity"
| "runtime_failure_class (RuntimeSampling _) = ClassSampling"
| "runtime_failure_class ShuttingDown = ClassShutdown"
| "runtime_failure_class BackendContractViolation = ClassBackendContract"
| "runtime_failure_class (CleanupFailed report) = cf_primary_failure report"
| "runtime_failure_class (CleanupRetryExhausted state) = cf_primary_failure (cr_failure state)"
| "runtime_failure_class _ = ClassInvariant"

subsection \<open>Limits\<close>

record runtime_limits =
  rl_maximum_loaded_models :: u32
  rl_maximum_active_requests :: u32
  rl_memory_budget :: memory_budget
  rl_maximum_attempts :: u32

subsection \<open>Receipts and snapshots\<close>

record load_receipt =
  lr_handle :: model_handle
  lr_descriptor :: model_descriptor
  lr_reserved_footprint :: memory_footprint

record request_start_receipt =
  rr_request_id :: request_id
  rr_sequence_id :: sequence_id
  rr_logits_capacity :: usize
  rr_reserved_footprint :: memory_footprint

record prefill_receipt =
  pr_outcome :: prefill_outcome
  pr_usage :: generation_usage

record decode_receipt =
  dr_outcome :: decode_outcome
  dr_usage :: generation_usage

datatype unload_status = AlreadyAbsent | UnloadDraining | Unloaded

record unload_receipt =
  ur_handle :: model_handle
  ur_status :: unload_status
  ur_cancelled_requests :: u32

record runtime_snapshot =
  rs_loaded_models :: u32
  rs_active_requests :: u32
  rs_reserved_footprint :: memory_footprint
  rs_generation_workspaces :: u32
  rs_reserved_generation_workspace :: memory_footprint
  rs_pending_cleanup_models :: u32
  rs_pending_cleanup_sequences :: u32
  rs_exhausted_cleanup_models :: u32
  rs_exhausted_cleanup_sequences :: u32
  rs_last_cleanup :: "cleanup_retry_state option"
  rs_maintenance_error :: "runtime_error option"
  rs_shutting_down :: bool

record model_snapshot =
  ms_handle :: model_handle
  ms_lifecycle :: lifecycle_state
  ms_descriptor :: model_descriptor
  ms_reserved_footprint :: memory_footprint
  ms_active_requests :: u32
  ms_pending_cleanup_sequences :: u32
  ms_exhausted_cleanup_sequences :: u32
  ms_degraded :: bool

record shutdown_receipt =
  sr_unloaded_models :: u32
  sr_cancelled_requests :: u32

subsection \<open>Results with a state\<close>

definition rt_bind ::
    "('s \<Rightarrow> ('e + 'a) \<times> 's) \<Rightarrow> ('a \<Rightarrow> 's \<Rightarrow> ('e + 'b) \<times> 's) \<Rightarrow> 's \<Rightarrow> ('e + 'b) \<times> 's" where
  "rt_bind f g s = (case f s of (Inl e, s') \<Rightarrow> (Inl e, s') | (Inr a, s') \<Rightarrow> g a s')"

definition rt_lift :: "'e + 'a \<Rightarrow> 's \<Rightarrow> ('e + 'a) \<times> 's" where
  "rt_lift r s = (r, s)"

definition rt_modify :: "('s \<Rightarrow> 's) \<Rightarrow> 's \<Rightarrow> ('e + unit) \<times> 's" where
  "rt_modify f s = (Inr (), f s)"

lemma rt_bind_simps [simp]:
  "f s = (Inl e, s') \<Longrightarrow> rt_bind f g s = (Inl e, s')"
  "f s = (Inr a, s') \<Longrightarrow> rt_bind f g s = g a s'"
  by (simp_all add: rt_bind_def)

lemma rt_bind_lift [simp]:
  "rt_bind (rt_lift (Inl e)) g s = (Inl e, s)" "rt_bind (rt_lift (Inr a)) g s = g a s"
  by (simp_all add: rt_bind_def rt_lift_def)

lemma rt_bind_modify [simp]: "rt_bind (rt_modify f) g s = g () (f s)"
  by (simp add: rt_bind_def rt_modify_def)

lemma rt_lift_apply [simp]: "rt_lift r s = (r, s)"
  by (simp add: rt_lift_def)

subsection \<open>Footprint arithmetic and budgets\<close>

definition checked_add_footprint ::
    "memory_footprint \<Rightarrow> memory_footprint \<Rightarrow> runtime_error + memory_footprint" where
  "checked_add_footprint left right =
     bind_ok (ok_or (checked_add (host_weight_bytes left) (host_weight_bytes right)) MemoryArithmeticOverflow) (\<lambda>a.
     bind_ok (ok_or (checked_add (device_weight_bytes left) (device_weight_bytes right)) MemoryArithmeticOverflow) (\<lambda>b.
     bind_ok (ok_or (checked_add (host_working_bytes left) (host_working_bytes right)) MemoryArithmeticOverflow) (\<lambda>c.
     bind_ok (ok_or (checked_add (device_working_bytes left) (device_working_bytes right)) MemoryArithmeticOverflow) (\<lambda>d.
     bind_ok (ok_or (checked_add (cache_bytes_per_token left) (cache_bytes_per_token right)) MemoryArithmeticOverflow) (\<lambda>e.
     Inr \<lparr>host_weight_bytes = a, device_weight_bytes = b, host_working_bytes = c,
          device_working_bytes = d, cache_bytes_per_token = e\<rparr>)))))"

definition checked_sub_footprint ::
    "memory_footprint \<Rightarrow> memory_footprint \<Rightarrow> runtime_error + memory_footprint" where
  "checked_sub_footprint left right =
     bind_ok (ok_or (checked_sub (host_weight_bytes left) (host_weight_bytes right)) MemoryArithmeticUnderflow) (\<lambda>a.
     bind_ok (ok_or (checked_sub (device_weight_bytes left) (device_weight_bytes right)) MemoryArithmeticUnderflow) (\<lambda>b.
     bind_ok (ok_or (checked_sub (host_working_bytes left) (host_working_bytes right)) MemoryArithmeticUnderflow) (\<lambda>c.
     bind_ok (ok_or (checked_sub (device_working_bytes left) (device_working_bytes right)) MemoryArithmeticUnderflow) (\<lambda>d.
     bind_ok (ok_or (checked_sub (cache_bytes_per_token left) (cache_bytes_per_token right)) MemoryArithmeticUnderflow) (\<lambda>e.
     Inr \<lparr>host_weight_bytes = a, device_weight_bytes = b, host_working_bytes = c,
          device_working_bytes = d, cache_bytes_per_token = e\<rparr>)))))"

definition remaining_budget :: "memory_budget \<Rightarrow> memory_footprint \<Rightarrow> memory_budget" where
  "remaining_budget limit used =
     \<lparr>budget_host_bytes = saturating_sub (budget_host_bytes limit) (host_bytes used),
      budget_device_bytes = saturating_sub (budget_device_bytes limit) (device_bytes used)\<rparr>"

definition admit_footprint ::
    "memory_footprint \<Rightarrow> memory_footprint \<Rightarrow> memory_budget \<Rightarrow> runtime_error + memory_footprint" where
  "admit_footprint current additional budget =
     bind_ok (checked_add_footprint current additional) (\<lambda>next.
     if budget_host_bytes budget < host_bytes next
     then Inl (InsufficientMemory MemoryHost (host_bytes next) (budget_host_bytes budget))
     else if budget_device_bytes budget < device_bytes next
     then Inl (InsufficientMemory MemoryDevice (device_bytes next) (budget_device_bytes budget))
     else Inr next)"

text \<open>A footprint is within a budget when both of its totals are.\<close>

definition within_budget :: "memory_footprint \<Rightarrow> memory_budget \<Rightarrow> bool" where
  "within_budget f budget \<longleftrightarrow>
     host_bytes f \<le> budget_host_bytes budget \<and> device_bytes f \<le> budget_device_bytes budget"

lemma checked_add_unat: "checked_add a b = Some c \<longleftrightarrow> unat c = unat a + unat b"
  for a b c :: "'a::len word"
proof
  assume c: "unat c = unat a + unat b"
  moreover have "unat c < 2 ^ LENGTH('a)" by (rule unsigned_less)
  ultimately have "unat a + unat b < 2 ^ LENGTH('a)" by simp
  moreover from this c have "c = a + b" by (simp add: word_unat_eq_iff unat_word_ariths)
  ultimately show "checked_add a b = Some c" by (simp add: checked)
qed (rule unat_checked_add)

lemma checked_sub_unat: "checked_sub a b = Some c \<longleftrightarrow> unat a = unat c + unat b"
  for a b c :: "'a::len word"
proof
  assume a: "unat a = unat c + unat b"
  then have le: "b \<le> a" by (simp add: word_le_nat_alt)
  with a have "c = a - b" by (simp add: word_unat_eq_iff unat_sub)
  with le show "checked_sub a b = Some c" by (simp add: checked)
qed (simp add: unat_checked_sub)

text \<open>A sum or difference of footprints is exact in every field, or there is none.\<close>

lemma checked_add_footprint_iff:
  "checked_add_footprint f g = Inr h \<longleftrightarrow>
     (\<forall>c. footprint_field h c = footprint_field f c + footprint_field g c)"
  unfolding all_components checked_add_footprint_def bind_ok_Inr ok_or_Inr checked_add_unat
    footprint_field.simps
  by (cases h) (auto simp: checked_add_unat [symmetric])

lemma checked_sub_footprint_iff:
  "checked_sub_footprint f g = Inr h \<longleftrightarrow>
     (\<forall>c. footprint_field f c = footprint_field h c + footprint_field g c)"
  unfolding all_components checked_sub_footprint_def bind_ok_Inr ok_or_Inr checked_sub_unat
    footprint_field.simps
  by (cases h) (auto simp: checked_sub_unat [symmetric])

lemma checked_add_footprint_Inl: "checked_add_footprint f g = Inl e \<Longrightarrow> e = MemoryArithmeticOverflow"
  by (auto simp: checked_add_footprint_def bind_ok_Inl ok_or_Inl)

lemma checked_sub_footprint_Inl:
  "checked_sub_footprint f g = Inl e \<Longrightarrow> e = MemoryArithmeticUnderflow
     \<and> (\<exists>c. footprint_field f c < footprint_field g c)"
  by (auto simp: checked_sub_footprint_def bind_ok_Inl ok_or_Inl checked word_less_nat_alt
      intro: exI [of _ HostWeight] exI [of _ DeviceWeight] exI [of _ HostWorking]
        exI [of _ DeviceWorking] exI [of _ CachePerToken])

lemma checked_add_footprint_total:
  assumes "\<And>c. footprint_field f c + footprint_field g c < 2 ^ 64"
  shows "\<exists>h. checked_add_footprint f g = Inr h"
proof (rule ccontr)
  assume "\<not> ?thesis"
  then obtain e where "checked_add_footprint f g = Inl e" by (cases "checked_add_footprint f g") auto
  then have "\<exists>c. 2 ^ 64 \<le> footprint_field f c + footprint_field g c"
    by (auto simp: checked_add_footprint_def bind_ok_Inl ok_or_Inl checked
        intro: exI [of _ HostWeight] exI [of _ DeviceWeight] exI [of _ HostWorking]
          exI [of _ DeviceWorking] exI [of _ CachePerToken])
  with assms show False using leD by blast
qed

lemma checked_sub_footprint_total:
  assumes "\<And>c. footprint_field g c \<le> footprint_field f c"
  shows "\<exists>h. checked_sub_footprint f g = Inr h"
proof (cases "checked_sub_footprint f g")
  case (Inl e)
  with checked_sub_footprint_Inl [OF Inl] assms show ?thesis using leD by blast
qed simp

lemma unat_u64_bound: "unat x < 2 ^ 64" for x :: u64
proof -
  have "unat x < 2 ^ LENGTH(64)" by (rule unsigned_less)
  then show ?thesis by simp
qed

lemma footprint_field_bound: "footprint_field f c < 2 ^ 64"
  by (cases c) (simp_all only: footprint_field.simps unat_u64_bound)

lemma admit_footprint_iff:
  "admit_footprint f g budget = Inr h \<longleftrightarrow>
     (\<forall>c. footprint_field h c = footprint_field f c + footprint_field g c) \<and> within_budget h budget"
  by (auto simp: admit_footprint_def bind_ok_Inr checked_add_footprint_iff within_budget_def
      not_less split: if_splits)

lemma within_budget_mono:
  "within_budget g budget \<Longrightarrow> (\<And>c. footprint_field f c \<le> footprint_field g c) \<Longrightarrow> within_budget f budget"
  unfolding within_budget_def using host_bytes_mono device_bytes_mono by (meson order_trans)

end
