(* ===== verification/Registry.thy ===== *)
theory Registry
  imports Runtime_Types
begin

section \<open>The model registry\<close>

text \<open>
  \<open>InferenceRuntime\<close> of \<open>crates/engines/inference-runtime/src/runtime.rs\<close>: the registry that
  owns every loaded model, its slots, its quarantined resources, and every method that changes
  them. The backend is the parameter \<open>B\<close>. A method returns its result and the registry it
  leaves, also when it fails half way; a mutation through \<open>get_mut\<close> is written back under the
  same key. The three loops that run until the registry says so (\<open>cancel_all_requests\<close>,
  \<open>cancel_all_requests_for_shutdown\<close>, and the clean-up loop of \<open>shutdown\<close>) are partial
  functions into \<open>option\<close>, where \<open>None\<close> is a loop that never ends; so are the methods that
  call them. That they do end is proved in \<open>Registry_Loops\<close>.
\<close>

subsection \<open>State\<close>

record ('src, 'ld, 'm, 'q) backend =
  be_loader :: "('src, 'ld, 'm) model_loader"
  be_model :: "('m, 'q) loaded_model"

record 'q request_slot =
  rq_sequence :: 'q
  rq_backend_footprint :: memory_footprint
  rq_workspace_footprint :: memory_footprint
  rq_usage :: generation_usage

record 'q pending_sequence =
  ps_request_id :: request_id
  ps_sequence_id :: sequence_id
  ps_sequence :: 'q
  ps_footprint :: memory_footprint
  ps_failure :: cleanup_failure_report
  ps_attempts :: u32

record 'm pending_model =
  pm_model :: 'm
  pm_footprint :: memory_footprint
  pm_failure :: cleanup_failure_report
  pm_attempts :: u32
  pm_cancelled_requests :: u32

record ('m, 'q) model_slot =
  sl_handle :: model_handle
  sl_descriptor :: model_descriptor
  sl_lifecycle :: lifecycle_state
  sl_model :: 'm
  sl_model_footprint :: memory_footprint
  sl_reserved_footprint :: memory_footprint
  sl_requests :: "(request_id, 'q request_slot) btree_map"
  sl_pending_sequences :: "(request_id, 'q pending_sequence) btree_map"
  sl_poisoned :: bool
  sl_cancelled_requests :: u32

record ('ld, 'm, 'q) runtime =
  rt_loader :: 'ld
  rt_limits :: runtime_limits
  rt_models :: "(model_id, ('m, 'q) model_slot) btree_map"
  rt_pending_models :: "(model_id, 'm pending_model) btree_map"
  rt_request_index :: "(request_id, model_id) btree_map"
  rt_sequence_index :: "(sequence_id, request_id) btree_map"
  rt_pending_request_index :: "(request_id, model_id) btree_map"
  rt_pending_sequence_index :: "(sequence_id, request_id) btree_map"
  rt_generations :: "(model_id, model_generation) btree_map"
  rt_reserved_footprint :: memory_footprint
  rt_reserved_generation_workspace :: memory_footprint
  rt_active_requests :: u32
  rt_generation_workspaces :: u32
  rt_pending_cleanup_sequences :: u32
  rt_last_cleanup :: "cleanup_retry_state option"
  rt_maintenance_error :: "runtime_error option"
  rt_shutting_down :: bool

definition runtime_new :: "'ld \<Rightarrow> runtime_limits \<Rightarrow> ('ld, 'm, 'q) runtime" where
  "runtime_new loader limits =
     \<lparr>rt_loader = loader, rt_limits = limits, rt_models = bt_empty, rt_pending_models = bt_empty,
      rt_request_index = bt_empty, rt_sequence_index = bt_empty,
      rt_pending_request_index = bt_empty, rt_pending_sequence_index = bt_empty,
      rt_generations = bt_empty, rt_reserved_footprint = footprint_default,
      rt_reserved_generation_workspace = footprint_default, rt_active_requests = 0,
      rt_generation_workspaces = 0, rt_pending_cleanup_sequences = 0, rt_last_cleanup = None,
      rt_maintenance_error = None, rt_shutting_down = False\<rparr>"

abbreviation put_slot ::
    "model_id \<Rightarrow> ('m, 'q) model_slot \<Rightarrow> ('ld, 'm, 'q) runtime \<Rightarrow> ('ld, 'm, 'q) runtime" where
  "put_slot model_id slot s \<equiv> s\<lparr>rt_models := bt_insert model_id slot (rt_models s)\<rparr>"

subsection \<open>Checks and queries\<close>

definition maximum_cleanup_attempts :: "('ld, 'm, 'q) runtime \<Rightarrow> u32" where
  "maximum_cleanup_attempts s = rl_maximum_attempts (rt_limits s)"

definition reject_if_shutting_down :: "('ld, 'm, 'q) runtime \<Rightarrow> runtime_error + unit" where
  "reject_if_shutting_down s = (if rt_shutting_down s then Inl ShuttingDown else Inr ())"

definition next_handle :: "('ld, 'm, 'q) runtime \<Rightarrow> model_id \<Rightarrow> runtime_error + model_handle" where
  "next_handle s model_id =
     (let current = (case bt_get (rt_generations s) model_id of
          None \<Rightarrow> 0 | Some generation \<Rightarrow> model_generation_get generation)
      in bind_ok (ok_or (checked_add current 1) (ModelGenerationExhausted model_id)) (\<lambda>next.
         Inr \<lparr>mh_id = model_id, mh_generation = ModelGeneration next\<rparr>))"

definition exact_model ::
    "('ld, 'm, 'q) runtime \<Rightarrow> model_handle \<Rightarrow> runtime_error + ('m, 'q) model_slot" where
  "exact_model s handle =
     (case bt_get (rt_models s) (mh_id handle) of
        None \<Rightarrow> Inl (ModelNotLoaded (mh_id handle))
      | Some slot \<Rightarrow>
          if sl_handle slot \<noteq> handle then Inl (StaleModelHandle handle (sl_handle slot))
          else Inr slot)"

definition request_model_id :: "('ld, 'm, 'q) runtime \<Rightarrow> request_id \<Rightarrow> runtime_error + model_id" where
  "request_model_id s request_id =
     ok_or (bt_get (rt_request_index s) request_id) (RequestNotActive request_id)"

definition is_request_active :: "('ld, 'm, 'q) runtime \<Rightarrow> request_id \<Rightarrow> bool" where
  "is_request_active s request_id \<longleftrightarrow> bt_contains (rt_request_index s) request_id"

definition is_request_cleanup_pending :: "('ld, 'm, 'q) runtime \<Rightarrow> request_id \<Rightarrow> bool" where
  "is_request_cleanup_pending s request_id \<longleftrightarrow> bt_contains (rt_pending_request_index s) request_id"

definition is_model_cleanup_pending :: "('ld, 'm, 'q) runtime \<Rightarrow> model_id \<Rightarrow> bool" where
  "is_model_cleanup_pending s model_id \<longleftrightarrow> bt_contains (rt_pending_models s) model_id"

definition has_pending_cleanup :: "('ld, 'm, 'q) runtime \<Rightarrow> bool" where
  "has_pending_cleanup s \<longleftrightarrow>
     0 < rt_pending_cleanup_sequences s \<or> \<not> bt_is_empty (rt_pending_models s)"

definition owns_backend_resources :: "('ld, 'm, 'q) runtime \<Rightarrow> bool" where
  "owns_backend_resources s \<longleftrightarrow>
     \<not> bt_is_empty (rt_models s) \<or> \<not> bt_is_empty (rt_pending_models s)"

definition sequence_cleanup_state ::
    "('ld, 'm, 'q) runtime \<Rightarrow> model_id \<Rightarrow> 'q pending_sequence \<Rightarrow> cleanup_retry_state" where
  "sequence_cleanup_state s model_id pending =
     \<lparr>cr_resource = ResourceSequence model_id (ps_request_id pending) (ps_sequence_id pending),
      cr_failure = ps_failure pending, cr_attempts = ps_attempts pending,
      cr_maximum_attempts = maximum_cleanup_attempts s\<rparr>"

definition model_cleanup_retry_state ::
    "('ld, 'm, 'q) runtime \<Rightarrow> model_id \<Rightarrow> 'm pending_model \<Rightarrow> cleanup_retry_state" where
  "model_cleanup_retry_state s model_id pending =
     \<lparr>cr_resource = ResourceModel model_id, cr_failure = pm_failure pending,
      cr_attempts = pm_attempts pending, cr_maximum_attempts = maximum_cleanup_attempts s\<rparr>"

definition request_cleanup_state ::
    "('ld, 'm, 'q) runtime \<Rightarrow> request_id \<Rightarrow> cleanup_retry_state option" where
  "request_cleanup_state s request_id =
     (case bt_get (rt_pending_request_index s) request_id of
        None \<Rightarrow> None
      | Some model_id \<Rightarrow>
     (case bt_get (rt_models s) model_id of
        None \<Rightarrow> None
      | Some slot \<Rightarrow>
          map_option (sequence_cleanup_state s model_id)
            (bt_get (sl_pending_sequences slot) request_id)))"

definition model_cleanup_state ::
    "('ld, 'm, 'q) runtime \<Rightarrow> model_id \<Rightarrow> cleanup_retry_state option" where
  "model_cleanup_state s model_id =
     map_option (model_cleanup_retry_state s model_id) (bt_get (rt_pending_models s) model_id)"

definition model_cancelled_requests_during_unload ::
    "('ld, 'm, 'q) runtime \<Rightarrow> model_id \<Rightarrow> u32 option" where
  "model_cancelled_requests_during_unload s model_id =
     (case bt_get (rt_models s) model_id of
        Some slot \<Rightarrow> Some (sl_cancelled_requests slot)
      | None \<Rightarrow> map_option pm_cancelled_requests (bt_get (rt_pending_models s) model_id))"

fun first_pending_sequence ::
    "(model_id \<times> ('m, 'q) model_slot) list \<Rightarrow> (model_id \<times> 'q pending_sequence) option" where
  "first_pending_sequence [] = None"
| "first_pending_sequence ((model_id, slot) # rest) =
     (case bt_first (sl_pending_sequences slot) of
        Some (_, pending) \<Rightarrow> Some (model_id, pending)
      | None \<Rightarrow> first_pending_sequence rest)"

definition first_pending_cleanup_state :: "('ld, 'm, 'q) runtime \<Rightarrow> cleanup_retry_state option" where
  "first_pending_cleanup_state s =
     (case first_pending_sequence (bt_entries (rt_models s)) of
        Some (model_id, pending) \<Rightarrow> Some (sequence_cleanup_state s model_id pending)
      | None \<Rightarrow> map_option (\<lambda>(model_id, pending). model_cleanup_retry_state s model_id pending)
                  (bt_first (rt_pending_models s)))"

subsection \<open>Snapshots\<close>

definition runtime_snapshot_of :: "('ld, 'm, 'q) runtime \<Rightarrow> runtime_snapshot" where
  "runtime_snapshot_of s =
     (let maximum_attempts = maximum_cleanup_attempts s in
      \<lparr>rs_loaded_models = saturating_u32 (bt_len (rt_models s)),
       rs_active_requests = rt_active_requests s,
       rs_reserved_footprint = rt_reserved_footprint s,
       rs_generation_workspaces = rt_generation_workspaces s,
       rs_reserved_generation_workspace = rt_reserved_generation_workspace s,
       rs_pending_cleanup_models = saturating_u32 (bt_len (rt_pending_models s)),
       rs_pending_cleanup_sequences = rt_pending_cleanup_sequences s,
       rs_exhausted_cleanup_models = saturating_u32 (length
         (filter (\<lambda>pending. maximum_attempts \<le> pm_attempts pending) (bt_values (rt_pending_models s)))),
       rs_exhausted_cleanup_sequences = saturating_u32 (length
         (filter (\<lambda>pending. maximum_attempts \<le> ps_attempts pending)
           (concat (map (\<lambda>slot. bt_values (sl_pending_sequences slot)) (bt_values (rt_models s)))))),
       rs_last_cleanup = rt_last_cleanup s,
       rs_maintenance_error = rt_maintenance_error s,
       rs_shutting_down = rt_shutting_down s\<rparr>)"

definition model_snapshot_of :: "('ld, 'm, 'q) runtime \<Rightarrow> ('m, 'q) model_slot \<Rightarrow> model_snapshot" where
  "model_snapshot_of s slot =
     \<lparr>ms_handle = sl_handle slot, ms_lifecycle = sl_lifecycle slot,
      ms_descriptor = sl_descriptor slot, ms_reserved_footprint = sl_reserved_footprint slot,
      ms_active_requests = saturating_u32 (bt_len (sl_requests slot)),
      ms_pending_cleanup_sequences = saturating_u32 (bt_len (sl_pending_sequences slot)),
      ms_exhausted_cleanup_sequences = saturating_u32 (length
        (filter (\<lambda>pending. maximum_cleanup_attempts s \<le> ps_attempts pending)
          (bt_values (sl_pending_sequences slot)))),
      ms_degraded = sl_poisoned slot\<rparr>"

definition model_snapshots :: "('ld, 'm, 'q) runtime \<Rightarrow> model_snapshot list" where
  "model_snapshots s = map (model_snapshot_of s) (bt_values (rt_models s))"

definition exact_model_snapshot ::
    "('ld, 'm, 'q) runtime \<Rightarrow> model_handle \<Rightarrow> runtime_error + model_snapshot" where
  "exact_model_snapshot s handle = bind_ok (exact_model s handle) (\<lambda>slot. Inr (model_snapshot_of s slot))"

subsection \<open>Clean-up errors\<close>

definition cleanup_retention_error :: "cleanup_retry_state \<Rightarrow> runtime_error" where
  "cleanup_retention_error state =
     (if cleanup_exhausted state then CleanupRetryExhausted state
      else CleanupFailed (cr_failure state))"

fun is_cleanup_error :: "runtime_error \<Rightarrow> bool" where
  "is_cleanup_error (CleanupFailed _) = True"
| "is_cleanup_error (CleanupRetryExhausted _) = True"
| "is_cleanup_error _ = False"

definition preserve_primary_cleanup :: "runtime_error + unit \<Rightarrow> runtime_error + unit" where
  "preserve_primary_cleanup r =
     (case r of Inr _ \<Rightarrow> Inr () | Inl e \<Rightarrow> if is_cleanup_error e then Inr () else Inl e)"

fun finish_operation :: "finish_reason \<Rightarrow> runtime_operation" where
  "finish_operation (Cancelled _) = OpCancellation"
| "finish_operation _ = OpCompletion"

fun finish_failure_class :: "finish_reason \<Rightarrow> failure_class" where
  "finish_failure_class (Cancelled _) = ClassCancellation"
| "finish_failure_class (BufferExhausted _) = ClassCapacity"
| "finish_failure_class _ = ClassCompletion"

subsection \<open>Loading a model\<close>

definition runtime_load_model ::
    "('src, 'ld, 'm, 'q) backend \<Rightarrow> model_id \<Rightarrow> 'src \<Rightarrow> device_id \<Rightarrow> device_kind
       \<Rightarrow> ('ld, 'm, 'q) runtime \<Rightarrow> (runtime_error + load_receipt) \<times> ('ld, 'm, 'q) runtime" where
  "runtime_load_model B model_id source device device_kind s =
    (case reject_if_shutting_down s of
       Inl e \<Rightarrow> (Inl e, s)
     | Inr _ \<Rightarrow>
    if bt_contains (rt_models s) model_id \<or> bt_contains (rt_pending_models s) model_id
    then (Inl (ModelAlreadyLoaded model_id), s)
    else let resident = usize_saturating_add (bt_len (rt_models s)) (bt_len (rt_pending_models s)) in
    if unat (rl_maximum_loaded_models (rt_limits s)) \<le> resident
    then (Inl (LoadedModelLimit (saturating_add (saturating_u32 resident) 1)
                 (rl_maximum_loaded_models (rt_limits s))), s)
    else
    (case next_handle s model_id of
       Inl e \<Rightarrow> (Inl e, s)
     | Inr handle \<Rightarrow>
    let configuration = \<lparr>lc_handle = handle, lc_device = device, lc_device_kind = device_kind,
          lc_memory_budget = remaining_budget (rl_memory_budget (rt_limits s)) (rt_reserved_footprint s)\<rparr>
    in
    (case begin_load Absent of
       (Inl e, _) \<Rightarrow> (Inl (RuntimeLifecycle e), s)
     | (Inr _, lifecycle) \<Rightarrow>
    (case ml_plan_load (be_loader B) (rt_loader s) source configuration of
       Inl e \<Rightarrow> (Inl (RuntimeLoad e), s)
     | Inr load_plan \<Rightarrow>
    (case admit_footprint (rt_reserved_footprint s) (lp_expected_footprint load_plan)
            (rl_memory_budget (rt_limits s)) of
       Inl e \<Rightarrow> (Inl e, s)
     | Inr next_reserved \<Rightarrow>
    (case ml_load (be_loader B) (rt_loader s) source configuration of
       (Inl e, loader) \<Rightarrow> (Inl (RuntimeLoad e), s\<lparr>rt_loader := loader\<rparr>)
     | (Inr model, loader) \<Rightarrow>
    (case (if lm_handle (be_model B) model \<noteq> handle
              \<or> lm_metadata (be_model B) model \<noteq> desc_metadata (lp_descriptor load_plan)
           then (Inl BackendContractViolation, lifecycle)
           else apfst (map_err RuntimeLifecycle) (complete_load lifecycle)) of
       (Inl primary, _) \<Rightarrow>
         (case lm_prepare_unload (be_model B) model of
            (Inr _, _) \<Rightarrow> (Inl primary, s\<lparr>rt_loader := loader\<rparr>)
          | (Inl cleanup, model) \<Rightarrow>
              let report = \<lparr>cf_primary_operation = OpModelAdmission,
                    cf_primary_failure = runtime_failure_class primary,
                    cf_cleanup_operation = OpModelUnload,
                    cf_cleanup_failure = runtime_failure_class (RuntimeSynchronization cleanup)\<rparr>;
                  pending = \<lparr>pm_model = model, pm_footprint = lp_expected_footprint load_plan,
                    pm_failure = report, pm_attempts = 1, pm_cancelled_requests = 0\<rparr>;
                  state = \<lparr>cr_resource = ResourceModel model_id, cr_failure = report, cr_attempts = 1,
                    cr_maximum_attempts = maximum_cleanup_attempts s\<rparr>
              in (Inl (cleanup_retention_error state),
                  s\<lparr>rt_loader := loader,
                    rt_pending_models := bt_insert model_id pending (rt_pending_models s),
                    rt_generations := bt_insert model_id (mh_generation handle) (rt_generations s),
                    rt_reserved_footprint := next_reserved, rt_last_cleanup := Some state\<rparr>))
     | (Inr _, lifecycle) \<Rightarrow>
         let slot = \<lparr>sl_handle = handle, sl_descriptor = lp_descriptor load_plan,
               sl_lifecycle = lifecycle, sl_model = model,
               sl_model_footprint = lp_expected_footprint load_plan,
               sl_reserved_footprint = lp_expected_footprint load_plan,
               sl_requests = bt_empty, sl_pending_sequences = bt_empty, sl_poisoned = False,
               sl_cancelled_requests = 0\<rparr>
         in (Inr \<lparr>lr_handle = handle, lr_descriptor = lp_descriptor load_plan,
                  lr_reserved_footprint = lp_expected_footprint load_plan\<rparr>,
             s\<lparr>rt_loader := loader, rt_models := bt_insert model_id slot (rt_models s),
               rt_generations := bt_insert model_id (mh_generation handle) (rt_generations s),
               rt_reserved_footprint := next_reserved\<rparr>))))))))"

end
