(* ===== verification/Registry_Requests.thy ===== *)
theory Registry_Requests
  imports Registry
begin

section \<open>The model registry: requests\<close>

text \<open>
  The request methods of \<open>InferenceRuntime\<close>: admission with its preflight and quarantine, the
  checked prefill and decode steps, and the removal of a request. Removal may release the model,
  so \<open>release_model_with_primary\<close> stands here too. The \<open>debug_assert!\<close>s of these methods are not
  part of a release build and have no counterpart; what they state is in the registry invariant.
\<close>

subsection \<open>Releasing a model\<close>

definition release_model_with_primary ::
    "('src, 'ld, 'm, 'q) backend \<Rightarrow> model_id \<Rightarrow> runtime_operation \<Rightarrow> failure_class
       \<Rightarrow> ('ld, 'm, 'q) runtime \<Rightarrow> (runtime_error + unit) \<times> ('ld, 'm, 'q) runtime" where
  "release_model_with_primary B model_id primary_operation primary_failure s =
    (case bt_get (rt_models s) model_id of
       None \<Rightarrow> (Inl (ModelNotLoaded model_id), s)
     | Some slot \<Rightarrow>
    if \<not> bt_is_empty (sl_requests slot) \<or> \<not> bt_is_empty (sl_pending_sequences slot)
       \<or> sl_lifecycle slot \<noteq> Unloading \<or> sl_reserved_footprint slot \<noteq> sl_model_footprint slot
    then (Inl (RuntimeLifecycle InvalidTransition), s)
    else
    (case lm_prepare_unload (be_model B) (sl_model slot) of
       (Inl cleanup, model) \<Rightarrow>
         let report = \<lparr>cf_primary_operation = primary_operation, cf_primary_failure = primary_failure,
               cf_cleanup_operation = OpModelUnload,
               cf_cleanup_failure = runtime_failure_class (RuntimeSynchronization cleanup)\<rparr>;
             pending = \<lparr>pm_model = model, pm_footprint = sl_model_footprint slot, pm_failure = report,
               pm_attempts = 1, pm_cancelled_requests = sl_cancelled_requests slot\<rparr>;
             state = \<lparr>cr_resource = ResourceModel model_id, cr_failure = report, cr_attempts = 1,
               cr_maximum_attempts = maximum_cleanup_attempts s\<rparr>
         in (Inl (cleanup_retention_error state),
             s\<lparr>rt_models := bt_remove model_id (rt_models s),
               rt_pending_models := bt_insert model_id pending (rt_pending_models s),
               rt_last_cleanup := Some state\<rparr>)
     | (Inr _, model) \<Rightarrow>
    (case complete_unload (sl_lifecycle slot) of
       (Inl e, lifecycle) \<Rightarrow>
         (Inl (RuntimeLifecycle e),
          put_slot model_id (slot\<lparr>sl_model := model, sl_lifecycle := lifecycle\<rparr>) s)
     | (Inr _, _) \<Rightarrow>
         let s = s\<lparr>rt_models := bt_remove model_id (rt_models s)\<rparr> in
         (case checked_sub_footprint (rt_reserved_footprint s) (sl_model_footprint slot) of
            Inl e \<Rightarrow> (Inl e, s)
          | Inr reserved \<Rightarrow> (Inr (), s\<lparr>rt_reserved_footprint := reserved\<rparr>)))))"

definition release_model ::
    "('src, 'ld, 'm, 'q) backend \<Rightarrow> model_id
       \<Rightarrow> ('ld, 'm, 'q) runtime \<Rightarrow> (runtime_error + unit) \<times> ('ld, 'm, 'q) runtime" where
  "release_model B model_id s = release_model_with_primary B model_id OpModelUnload ClassCompletion s"

subsection \<open>Admission\<close>

definition active_limit_error :: "('ld, 'm, 'q) runtime \<Rightarrow> runtime_error" where
  "active_limit_error s = RuntimeCapacityExhausted (capacity_exhausted_new ActiveRequests
     (saturating_add (ucast (saturating_add (rt_active_requests s) (rt_pending_cleanup_sequences s))) 1)
     (ucast (rl_maximum_active_requests (rt_limits s))))"

definition sequence_limit_error :: "('m, 'q) model_slot \<Rightarrow> runtime_error" where
  "sequence_limit_error slot = RuntimeCapacityExhausted (capacity_exhausted_new ActiveSequences
     (saturating_add (usize_to_u64 (usize_saturating_add (bt_len (sl_requests slot))
        (bt_len (sl_pending_sequences slot)))) 1)
     (ucast (mc_maximum_sequences (desc_capabilities (sl_descriptor slot)))))"

definition preflight_generation_resources ::
    "('src, 'ld, 'm, 'q) backend \<Rightarrow> model_handle \<Rightarrow> request_id \<Rightarrow> sequence_id
       \<Rightarrow> sequence_configuration \<Rightarrow> memory_footprint \<Rightarrow> usize \<Rightarrow> ('ld, 'm, 'q) runtime
       \<Rightarrow> runtime_error + unit" where
  "preflight_generation_resources B handle request_id sequence_id configuration
       workspace_footprint expected_logits_capacity s =
    bind_ok (reject_if_shutting_down s) (\<lambda>_.
    if bt_contains (rt_request_index s) request_id \<or> bt_contains (rt_pending_request_index s) request_id
    then Inl (RequestAlreadyActive request_id)
    else if bt_contains (rt_sequence_index s) sequence_id
            \<or> bt_contains (rt_pending_sequence_index s) sequence_id
    then Inl (SequenceAlreadyActive sequence_id)
    else if rl_maximum_active_requests (rt_limits s)
            \<le> saturating_add (rt_active_requests s) (rt_pending_cleanup_sequences s)
    then Inl (active_limit_error s)
    else
    bind_ok (exact_model s handle) (\<lambda>slot.
    if sl_poisoned slot then Inl (ModelDegraded (mh_id handle))
    else if \<not> (case sl_lifecycle slot of Ready \<Rightarrow> True | Active _ \<Rightarrow> True | _ \<Rightarrow> False)
    then Inl (RuntimeLifecycle InvalidTransition)
    else if unat (mc_maximum_sequences (desc_capabilities (sl_descriptor slot)))
            \<le> usize_saturating_add (bt_len (sl_requests slot)) (bt_len (sl_pending_sequences slot))
    then Inl (sequence_limit_error slot)
    else
    bind_ok (map_err RuntimeModel (lm_plan_sequence (be_model B) (sl_model slot) configuration)) (\<lambda>plan.
    if sp_configuration plan \<noteq> configuration \<or> sp_logits_capacity plan \<noteq> expected_logits_capacity
    then Inl BackendContractViolation
    else
    bind_ok (checked_add_footprint (sp_expected_footprint plan) workspace_footprint) (\<lambda>committed.
    bind_ok (admit_footprint (rt_reserved_footprint s) committed (rl_memory_budget (rt_limits s))) (\<lambda>_.
    Inr ())))))"

text \<open>
  The two places where admission gives a created sequence back are one definition: the sequence
  is destroyed, or, when that fails, quarantined with the footprint the backend planned for it.
\<close>

definition abort_admission ::
    "('src, 'ld, 'm, 'q) backend \<Rightarrow> model_id \<Rightarrow> request_id \<Rightarrow> sequence_id \<Rightarrow> runtime_error
       \<Rightarrow> memory_footprint \<Rightarrow> memory_footprint \<Rightarrow> memory_footprint
       \<Rightarrow> ('m, 'q) model_slot \<Rightarrow> 'q \<Rightarrow> ('ld, 'm, 'q) runtime
       \<Rightarrow> (runtime_error + 'a) \<times> ('ld, 'm, 'q) runtime" where
  "abort_admission B model_id request_id sequence_id primary footprint next_slot_reserved
       next_reserved slot sequence s =
    (case lm_destroy_sequence (be_model B) (sl_model slot) sequence of
       (Inr _, model, _) \<Rightarrow> (Inl primary, put_slot model_id (slot\<lparr>sl_model := model\<rparr>) s)
     | (Inl cleanup, model, sequence) \<Rightarrow>
         let report = \<lparr>cf_primary_operation = OpSequenceAdmission,
               cf_primary_failure = runtime_failure_class primary,
               cf_cleanup_operation = OpSequenceDestruction,
               cf_cleanup_failure = runtime_failure_class (RuntimeSequence cleanup)\<rparr>;
             pending = \<lparr>ps_request_id = request_id, ps_sequence_id = sequence_id,
               ps_sequence = sequence, ps_footprint = footprint, ps_failure = report, ps_attempts = 1\<rparr>;
             slot = slot\<lparr>sl_model := model,
               sl_pending_sequences := bt_insert request_id pending (sl_pending_sequences slot),
               sl_reserved_footprint := next_slot_reserved, sl_poisoned := True\<rparr>;
             s = s\<lparr>rt_models := bt_insert model_id slot (rt_models s),
               rt_pending_request_index := bt_insert request_id model_id (rt_pending_request_index s),
               rt_pending_sequence_index :=
                 bt_insert sequence_id request_id (rt_pending_sequence_index s)\<rparr>
         in (case checked_add (rt_pending_cleanup_sequences s) 1 of
               None \<Rightarrow> (Inl BackendContractViolation, s)
             | Some pending_cleanup_sequences \<Rightarrow>
                 let state = \<lparr>cr_resource = ResourceSequence model_id request_id sequence_id,
                       cr_failure = report, cr_attempts = 1,
                       cr_maximum_attempts = maximum_cleanup_attempts s\<rparr>
                 in (Inl (cleanup_retention_error state),
                     s\<lparr>rt_pending_cleanup_sequences := pending_cleanup_sequences,
                       rt_reserved_footprint := next_reserved, rt_last_cleanup := Some state\<rparr>)))"

text \<open>What the checks before the creation of the sequence compute.\<close>

record admission =
  ad_slot_plan :: sequence_plan
  ad_next_active_requests :: u32
  ad_next_generation_workspaces :: u32
  ad_next_generation_workspace :: memory_footprint
  ad_committed_footprint :: memory_footprint
  ad_backend_next_reserved :: memory_footprint
  ad_committed_next_reserved :: memory_footprint
  ad_backend_next_slot_reserved :: memory_footprint
  ad_committed_next_slot_reserved :: memory_footprint

definition plan_admission ::
    "('src, 'ld, 'm, 'q) backend \<Rightarrow> model_handle \<Rightarrow> request_id \<Rightarrow> sequence_id
       \<Rightarrow> sequence_configuration \<Rightarrow> memory_footprint \<Rightarrow> usize option \<Rightarrow> ('ld, 'm, 'q) runtime
       \<Rightarrow> runtime_error + ('m, 'q) model_slot \<times> admission" where
  "plan_admission B handle request_id sequence_id configuration workspace_footprint
       expected_logits_capacity s =
    bind_ok (reject_if_shutting_down s) (\<lambda>_.
    if bt_contains (rt_request_index s) request_id \<or> bt_contains (rt_pending_request_index s) request_id
    then Inl (RequestAlreadyActive request_id)
    else if bt_contains (rt_sequence_index s) sequence_id
            \<or> bt_contains (rt_pending_sequence_index s) sequence_id
    then Inl (SequenceAlreadyActive sequence_id)
    else if rl_maximum_active_requests (rt_limits s)
            \<le> saturating_add (rt_active_requests s) (rt_pending_cleanup_sequences s)
    then Inl (active_limit_error s)
    else
    bind_ok (ok_or (checked_add (rt_active_requests s) 1) BackendContractViolation) (\<lambda>next_active.
    bind_ok (if expected_logits_capacity \<noteq> None
             then ok_or (checked_add (rt_generation_workspaces s) 1) BackendContractViolation
             else Inr (rt_generation_workspaces s)) (\<lambda>next_workspaces.
    bind_ok (if expected_logits_capacity \<noteq> None
             then checked_add_footprint (rt_reserved_generation_workspace s) workspace_footprint
             else Inr (rt_reserved_generation_workspace s)) (\<lambda>next_workspace.
    bind_ok (exact_model s handle) (\<lambda>slot.
    if sl_poisoned slot then Inl (ModelDegraded (mh_id handle))
    else if \<not> (case sl_lifecycle slot of Ready \<Rightarrow> True | Active _ \<Rightarrow> True | _ \<Rightarrow> False)
    then Inl (RuntimeLifecycle InvalidTransition)
    else if bt_contains (sl_requests slot) request_id
    then Inl (RequestAlreadyActive request_id)
    else if unat (mc_maximum_sequences (desc_capabilities (sl_descriptor slot)))
            \<le> usize_saturating_add (bt_len (sl_requests slot)) (bt_len (sl_pending_sequences slot))
    then Inl (sequence_limit_error slot)
    else
    bind_ok (map_err RuntimeModel (lm_plan_sequence (be_model B) (sl_model slot) configuration)) (\<lambda>plan.
    if sp_configuration plan \<noteq> configuration
       \<or> (case expected_logits_capacity of None \<Rightarrow> False
          | Some expected \<Rightarrow> sp_logits_capacity plan \<noteq> expected)
    then Inl BackendContractViolation
    else
    bind_ok (checked_add_footprint (sp_expected_footprint plan) workspace_footprint) (\<lambda>committed.
    bind_ok (admit_footprint (rt_reserved_footprint s) (sp_expected_footprint plan)
               (rl_memory_budget (rt_limits s))) (\<lambda>backend_reserved.
    bind_ok (admit_footprint (rt_reserved_footprint s) committed
               (rl_memory_budget (rt_limits s))) (\<lambda>committed_reserved.
    bind_ok (checked_add_footprint (sl_reserved_footprint slot) (sp_expected_footprint plan))
      (\<lambda>backend_slot_reserved.
    bind_ok (checked_add_footprint (sl_reserved_footprint slot) committed) (\<lambda>committed_slot_reserved.
    Inr (slot, \<lparr>ad_slot_plan = plan, ad_next_active_requests = next_active,
      ad_next_generation_workspaces = next_workspaces,
      ad_next_generation_workspace = next_workspace, ad_committed_footprint = committed,
      ad_backend_next_reserved = backend_reserved,
      ad_committed_next_reserved = committed_reserved,
      ad_backend_next_slot_reserved = backend_slot_reserved,
      ad_committed_next_slot_reserved = committed_slot_reserved\<rparr>))))))))))))"

definition commit_admission ::
    "model_id \<Rightarrow> request_id \<Rightarrow> sequence_id \<Rightarrow> memory_footprint \<Rightarrow> admission
       \<Rightarrow> ('m, 'q) model_slot \<Rightarrow> 'q \<Rightarrow> ('ld, 'm, 'q) runtime
       \<Rightarrow> request_start_receipt \<times> ('ld, 'm, 'q) runtime" where
  "commit_admission model_id request_id sequence_id workspace_footprint a slot sequence s =
    (let request = \<lparr>rq_sequence = sequence,
           rq_backend_footprint = sp_expected_footprint (ad_slot_plan a),
           rq_workspace_footprint = workspace_footprint, rq_usage = generation_usage_default\<rparr>;
         slot = slot\<lparr>sl_requests := bt_insert request_id request (sl_requests slot),
           sl_reserved_footprint := ad_committed_next_slot_reserved a\<rparr>
     in (\<lparr>rr_request_id = request_id, rr_sequence_id = sequence_id,
          rr_logits_capacity = sp_logits_capacity (ad_slot_plan a),
          rr_reserved_footprint = ad_committed_footprint a\<rparr>,
         s\<lparr>rt_models := bt_insert model_id slot (rt_models s),
           rt_request_index := bt_insert request_id model_id (rt_request_index s),
           rt_sequence_index := bt_insert sequence_id request_id (rt_sequence_index s),
           rt_active_requests := ad_next_active_requests a,
           rt_reserved_footprint := ad_committed_next_reserved a,
           rt_generation_workspaces := ad_next_generation_workspaces a,
           rt_reserved_generation_workspace := ad_next_generation_workspace a\<rparr>))"

definition start_request_with_reservation ::
    "('src, 'ld, 'm, 'q) backend \<Rightarrow> model_handle \<Rightarrow> request_id \<Rightarrow> sequence_id
       \<Rightarrow> sequence_configuration \<Rightarrow> memory_footprint \<Rightarrow> usize option \<Rightarrow> ('ld, 'm, 'q) runtime
       \<Rightarrow> (runtime_error + request_start_receipt) \<times> ('ld, 'm, 'q) runtime" where
  "start_request_with_reservation B handle request_id sequence_id configuration
       workspace_footprint expected_logits_capacity s =
    (case plan_admission B handle request_id sequence_id configuration workspace_footprint
            expected_logits_capacity s of
       Inl e \<Rightarrow> (Inl e, s)
     | Inr (slot, a) \<Rightarrow>
    (case lm_create_sequence (be_model B) (sl_model slot) sequence_id configuration of
       (Inl e, model) \<Rightarrow>
         (Inl (RuntimeModel e), put_slot (mh_id handle) (slot\<lparr>sl_model := model\<rparr>) s)
     | (Inr sequence, model) \<Rightarrow>
         let slot = slot\<lparr>sl_model := model\<rparr>;
             abort = (\<lambda>primary slot. abort_admission B (mh_id handle) request_id sequence_id primary
               (sp_expected_footprint (ad_slot_plan a)) (ad_backend_next_slot_reserved a)
               (ad_backend_next_reserved a) slot sequence s)
         in if seq_id (be_model B) sequence \<noteq> sequence_id
               \<or> bs_token_capacity (lm_sequence (be_model B)) sequence
                  \<noteq> unat (sc_maximum_tokens (sp_configuration (ad_slot_plan a)))
            then abort BackendContractViolation slot
            else (case start_request (sl_lifecycle slot) of
                    (Inl e, lifecycle) \<Rightarrow>
                      abort (RuntimeLifecycle e) (slot\<lparr>sl_lifecycle := lifecycle\<rparr>)
                  | (Inr _, lifecycle) \<Rightarrow>
                      apfst Inr (commit_admission (mh_id handle) request_id sequence_id
                        workspace_footprint a (slot\<lparr>sl_lifecycle := lifecycle\<rparr>) sequence s))))"

definition runtime_start_request ::
    "('src, 'ld, 'm, 'q) backend \<Rightarrow> model_handle \<Rightarrow> request_id \<Rightarrow> sequence_id
       \<Rightarrow> sequence_configuration \<Rightarrow> ('ld, 'm, 'q) runtime
       \<Rightarrow> (runtime_error + request_start_receipt) \<times> ('ld, 'm, 'q) runtime" where
  "runtime_start_request B handle request_id sequence_id configuration s =
     start_request_with_reservation B handle request_id sequence_id configuration
       footprint_default None s"

definition start_generation_request ::
    "('src, 'ld, 'm, 'q) backend \<Rightarrow> model_handle \<Rightarrow> request_id \<Rightarrow> sequence_id
       \<Rightarrow> sequence_configuration \<Rightarrow> memory_footprint \<Rightarrow> usize \<Rightarrow> ('ld, 'm, 'q) runtime
       \<Rightarrow> (runtime_error + request_start_receipt) \<times> ('ld, 'm, 'q) runtime" where
  "start_generation_request B handle request_id sequence_id configuration workspace_footprint
       expected_logits_capacity s =
     start_request_with_reservation B handle request_id sequence_id configuration
       workspace_footprint (Some expected_logits_capacity) s"

subsection \<open>Removing a request\<close>

definition quarantine_request ::
    "('src, 'ld, 'm, 'q) backend \<Rightarrow> model_id \<Rightarrow> request_id \<Rightarrow> cleanup_failure_report
       \<Rightarrow> ('m, 'q) model_slot \<Rightarrow> 'q request_slot \<Rightarrow> ('ld, 'm, 'q) runtime
       \<Rightarrow> (runtime_error + unit) \<times> ('ld, 'm, 'q) runtime" where
  "quarantine_request B model_id request_id report slot request s =
    (let slot = slot\<lparr>sl_requests := bt_remove request_id (sl_requests slot)\<rparr>;
         sequence_id = seq_id (be_model B) (rq_sequence request);
         pending = \<lparr>ps_request_id = request_id, ps_sequence_id = sequence_id,
           ps_sequence = rq_sequence request, ps_footprint = rq_backend_footprint request,
           ps_failure = report, ps_attempts = 1\<rparr>
     in
    (case checked_sub_footprint (sl_reserved_footprint slot) (rq_workspace_footprint request) of
       Inl e \<Rightarrow> (Inl e, put_slot model_id slot s)
     | Inr slot_reserved \<Rightarrow>
    let slot = slot\<lparr>sl_reserved_footprint := slot_reserved,
          sl_pending_sequences := bt_insert request_id pending (sl_pending_sequences slot),
          sl_poisoned := True\<rparr>
    in
    (case finish_request (sl_lifecycle slot) of
       (Inl e, lifecycle) \<Rightarrow>
         (Inl (RuntimeLifecycle e), put_slot model_id (slot\<lparr>sl_lifecycle := lifecycle\<rparr>) s)
     | (Inr _, lifecycle) \<Rightarrow>
    let s = s\<lparr>rt_models := bt_insert model_id (slot\<lparr>sl_lifecycle := lifecycle\<rparr>) (rt_models s),
          rt_request_index := bt_remove request_id (rt_request_index s),
          rt_sequence_index := bt_remove sequence_id (rt_sequence_index s),
          rt_pending_request_index := bt_insert request_id model_id (rt_pending_request_index s),
          rt_pending_sequence_index := bt_insert sequence_id request_id (rt_pending_sequence_index s)\<rparr>
    in
    (case checked_sub (rt_active_requests s) 1 of
       None \<Rightarrow> (Inl BackendContractViolation, s)
     | Some active_requests \<Rightarrow>
    let s = s\<lparr>rt_active_requests := active_requests\<rparr> in
    (case checked_add (rt_pending_cleanup_sequences s) 1 of
       None \<Rightarrow> (Inl BackendContractViolation, s)
     | Some pending_cleanup_sequences \<Rightarrow>
         let state = \<lparr>cr_resource = ResourceSequence model_id request_id sequence_id,
               cr_failure = report, cr_attempts = 1,
               cr_maximum_attempts = maximum_cleanup_attempts s\<rparr>
         in (Inl (cleanup_retention_error state),
             s\<lparr>rt_pending_cleanup_sequences := pending_cleanup_sequences,
               rt_last_cleanup := Some state\<rparr>))))))"

definition drop_request ::
    "('src, 'ld, 'm, 'q) backend \<Rightarrow> model_id \<Rightarrow> request_id \<Rightarrow> runtime_operation \<Rightarrow> failure_class
       \<Rightarrow> ('m, 'q) model_slot \<Rightarrow> 'q request_slot \<Rightarrow> ('ld, 'm, 'q) runtime
       \<Rightarrow> (runtime_error + unit) \<times> ('ld, 'm, 'q) runtime" where
  "drop_request B model_id request_id primary_operation primary_failure slot request s =
    (let slot = slot\<lparr>sl_requests := bt_remove request_id (sl_requests slot)\<rparr>;
         sequence_id = seq_id (be_model B) (rq_sequence request)
     in
    (case bind_ok (checked_add_footprint (rq_backend_footprint request) (rq_workspace_footprint request))
            (checked_sub_footprint (sl_reserved_footprint slot)) of
       Inl e \<Rightarrow> (Inl e, put_slot model_id slot s)
     | Inr slot_reserved \<Rightarrow>
    (case finish_request (sl_lifecycle slot) of
       (Inl e, lifecycle) \<Rightarrow>
         (Inl (RuntimeLifecycle e), put_slot model_id
            (slot\<lparr>sl_reserved_footprint := slot_reserved, sl_lifecycle := lifecycle\<rparr>) s)
     | (Inr action, lifecycle) \<Rightarrow>
    let s = s\<lparr>rt_models := bt_insert model_id
            (slot\<lparr>sl_reserved_footprint := slot_reserved, sl_lifecycle := lifecycle\<rparr>) (rt_models s),
          rt_request_index := bt_remove request_id (rt_request_index s),
          rt_sequence_index := bt_remove sequence_id (rt_sequence_index s)\<rparr>
    in
    (case checked_sub (rt_active_requests s) 1 of
       None \<Rightarrow> (Inl BackendContractViolation, s)
     | Some active_requests \<Rightarrow>
    let s = s\<lparr>rt_active_requests := active_requests\<rparr> in
    (case checked_sub_footprint (rt_reserved_footprint s) (rq_backend_footprint request) of
       Inl e \<Rightarrow> (Inl e, s)
     | Inr reserved \<Rightarrow>
    let s = s\<lparr>rt_reserved_footprint := reserved\<rparr> in
    if action = ReleaseModel
    then release_model_with_primary B model_id primary_operation primary_failure s
    else (Inr (), s))))))"

definition remove_request ::
    "('src, 'ld, 'm, 'q) backend \<Rightarrow> request_id \<Rightarrow> runtime_operation \<Rightarrow> failure_class
       \<Rightarrow> ('ld, 'm, 'q) runtime \<Rightarrow> (runtime_error + unit) \<times> ('ld, 'm, 'q) runtime" where
  "remove_request B request_id primary_operation primary_failure s =
    (case request_model_id s request_id of
       Inl e \<Rightarrow> (Inl e, s)
     | Inr model_id \<Rightarrow>
    (case bt_get (rt_models s) model_id of
       None \<Rightarrow> (Inl (ModelNotLoaded model_id), s)
     | Some slot \<Rightarrow>
    (case bt_get (sl_requests slot) request_id of
       None \<Rightarrow> (Inl (RequestNotActive request_id), s)
     | Some request \<Rightarrow>
    (case lm_destroy_sequence (be_model B) (sl_model slot) (rq_sequence request) of
       (r, model, sequence) \<Rightarrow>
         let slot = slot\<lparr>sl_model := model\<rparr>; request = request\<lparr>rq_sequence := sequence\<rparr> in
         (case r of
            Inl cleanup \<Rightarrow>
              quarantine_request B model_id request_id
                \<lparr>cf_primary_operation = primary_operation, cf_primary_failure = primary_failure,
                 cf_cleanup_operation = OpSequenceDestruction,
                 cf_cleanup_failure = runtime_failure_class (RuntimeSequence cleanup)\<rparr>
                slot request s
          | Inr _ \<Rightarrow>
              drop_request B model_id request_id primary_operation primary_failure slot request s)))))"

definition runtime_complete_request ::
    "('src, 'ld, 'm, 'q) backend \<Rightarrow> request_id \<Rightarrow> finish_reason
       \<Rightarrow> ('ld, 'm, 'q) runtime \<Rightarrow> (runtime_error + finish_reason) \<times> ('ld, 'm, 'q) runtime" where
  "runtime_complete_request B request_id reason =
     rt_bind (remove_request B request_id (finish_operation reason) (finish_failure_class reason))
       (\<lambda>_. rt_lift (Inr reason))"

definition runtime_cancel_request ::
    "('src, 'ld, 'm, 'q) backend \<Rightarrow> request_id \<Rightarrow> cancellation_reason
       \<Rightarrow> ('ld, 'm, 'q) runtime \<Rightarrow> (runtime_error + finish_reason) \<times> ('ld, 'm, 'q) runtime" where
  "runtime_cancel_request B request_id reason =
     rt_bind (remove_request B request_id OpCancellation ClassCancellation)
       (\<lambda>_. rt_lift (Inr (Cancelled reason)))"

definition runtime_fail_request ::
    "('src, 'ld, 'm, 'q) backend \<Rightarrow> request_id \<Rightarrow> runtime_operation \<Rightarrow> failure_class
       \<Rightarrow> ('ld, 'm, 'q) runtime \<Rightarrow> (runtime_error + unit) \<times> ('ld, 'm, 'q) runtime" where
  "runtime_fail_request B request_id operation failure = remove_request B request_id operation failure"

subsection \<open>Prefill and decode\<close>

text \<open>The caller's logits buffer is passed in and returned.\<close>

definition end_step ::
    "('src, 'ld, 'm, 'q) backend \<Rightarrow> request_id \<Rightarrow> finish_reason option
       \<Rightarrow> ('ld, 'm, 'q) runtime \<Rightarrow> (runtime_error + unit) \<times> ('ld, 'm, 'q) runtime" where
  "end_step B request_id outcome s =
     (case outcome of
        None \<Rightarrow> (Inr (), s)
      | Some reason \<Rightarrow> apfst preserve_primary_cleanup
          (remove_request B request_id (finish_operation reason) (finish_failure_class reason) s))"

definition fail_step ::
    "('src, 'ld, 'm, 'q) backend \<Rightarrow> request_id \<Rightarrow> runtime_operation \<Rightarrow> sequence_error
       \<Rightarrow> ('ld, 'm, 'q) runtime \<Rightarrow> (runtime_error + 'a) \<times> ('ld, 'm, 'q) runtime" where
  "fail_step B request_id operation e s =
     rt_bind (\<lambda>s. apfst preserve_primary_cleanup (remove_request B request_id operation
         (runtime_failure_class (RuntimeSequence e)) s))
       (\<lambda>_. rt_lift (Inl (RuntimeSequence e))) s"

fun prefill_finish :: "prefill_outcome \<Rightarrow> finish_reason option" where
  "prefill_finish (PrefillReady _ _ _) = None"
| "prefill_finish (PrefillFinished reason) = Some reason"

fun decode_finish :: "decode_outcome \<Rightarrow> finish_reason option" where
  "decode_finish (DecodeReady _ _) = None"
| "decode_finish (DecodeFinished reason) = Some reason"

fun prefill_usage :: "prefill_outcome \<Rightarrow> generation_usage \<Rightarrow> generation_usage" where
  "prefill_usage (PrefillReady consumed_tokens _ _) usage =
     usage\<lparr>usage_prompt_tokens :=
       saturating_add (usage_prompt_tokens usage) (usize_to_u64 consumed_tokens)\<rparr>"
| "prefill_usage (PrefillFinished _) usage = usage"

fun decode_usage :: "decode_outcome \<Rightarrow> generation_usage \<Rightarrow> generation_usage" where
  "decode_usage (DecodeReady _ _) usage =
     usage\<lparr>usage_generated_tokens := saturating_add (usage_generated_tokens usage) 1\<rparr>"
| "decode_usage (DecodeFinished _) usage = usage"

definition put_request ::
    "model_id \<Rightarrow> ('m, 'q) model_slot \<Rightarrow> request_id \<Rightarrow> 'q request_slot
       \<Rightarrow> ('ld, 'm, 'q) runtime \<Rightarrow> ('ld, 'm, 'q) runtime" where
  "put_request model_id slot request_id request s =
     put_slot model_id (slot\<lparr>sl_requests := bt_insert request_id request (sl_requests slot)\<rparr>) s"

definition runtime_prefill ::
    "('src, 'ld, 'm, 'q) backend \<Rightarrow> request_id \<Rightarrow> token_id list \<Rightarrow> bool \<Rightarrow> f32 list
       \<Rightarrow> ('ld, 'm, 'q) runtime \<Rightarrow> (runtime_error + prefill_receipt) \<times> f32 list \<times> ('ld, 'm, 'q) runtime" where
  "runtime_prefill B request_id tokens emit_logits logits s =
    (case request_model_id s request_id of
       Inl e \<Rightarrow> (Inl e, logits, s)
     | Inr model_id \<Rightarrow>
    (case bt_get (rt_models s) model_id of
       None \<Rightarrow> (Inl (ModelNotLoaded model_id), logits, s)
     | Some slot \<Rightarrow>
    (case bt_get (sl_requests slot) request_id of
       None \<Rightarrow> (Inl (RequestNotActive request_id), logits, s)
     | Some request \<Rightarrow>
    (case prefill_checked (be_model B) (sl_model slot) (rq_sequence request)
            \<lparr>pi_tokens = tokens, pi_emit_logits = emit_logits\<rparr> logits CancelRunning of
       (r, model, sequence, logits) \<Rightarrow>
         let slot = slot\<lparr>sl_model := model\<rparr>; request = request\<lparr>rq_sequence := sequence\<rparr> in
         (case r of
            Inl e \<Rightarrow> (case fail_step B request_id OpPrefill e
                              (put_request model_id slot request_id request s) of
                        (r, s) \<Rightarrow> (r, logits, s))
          | Inr outcome \<Rightarrow>
              let usage = prefill_usage outcome (rq_usage request) in
              (case rt_bind (end_step B request_id (prefill_finish outcome))
                      (\<lambda>_. rt_lift (Inr \<lparr>pr_outcome = outcome, pr_usage = usage\<rparr>))
                      (put_request model_id slot request_id (request\<lparr>rq_usage := usage\<rparr>) s) of
                 (r, s) \<Rightarrow> (r, logits, s)))))))"

definition runtime_decode ::
    "('src, 'ld, 'm, 'q) backend \<Rightarrow> request_id \<Rightarrow> token_id \<Rightarrow> f32 list
       \<Rightarrow> ('ld, 'm, 'q) runtime \<Rightarrow> (runtime_error + decode_receipt) \<times> f32 list \<times> ('ld, 'm, 'q) runtime" where
  "runtime_decode B request_id token logits s =
    (case request_model_id s request_id of
       Inl e \<Rightarrow> (Inl e, logits, s)
     | Inr model_id \<Rightarrow>
    (case bt_get (rt_models s) model_id of
       None \<Rightarrow> (Inl (ModelNotLoaded model_id), logits, s)
     | Some slot \<Rightarrow>
    (case bt_get (sl_requests slot) request_id of
       None \<Rightarrow> (Inl (RequestNotActive request_id), logits, s)
     | Some request \<Rightarrow>
    (case decode_checked (be_model B) (sl_model slot) (rq_sequence request) token logits
            CancelRunning of
       (r, model, sequence, logits) \<Rightarrow>
         let slot = slot\<lparr>sl_model := model\<rparr>; request = request\<lparr>rq_sequence := sequence\<rparr> in
         (case r of
            Inl e \<Rightarrow> (case fail_step B request_id OpDecode e
                              (put_request model_id slot request_id request s) of
                        (r, s) \<Rightarrow> (r, logits, s))
          | Inr outcome \<Rightarrow>
              let usage = decode_usage outcome (rq_usage request) in
              (case rt_bind (end_step B request_id (decode_finish outcome))
                      (\<lambda>_. rt_lift (Inr \<lparr>dr_outcome = outcome, dr_usage = usage\<rparr>))
                      (put_request model_id slot request_id (request\<lparr>rq_usage := usage\<rparr>) s) of
                 (r, s) \<Rightarrow> (r, logits, s)))))))"

subsection \<open>Generation workspaces\<close>

definition release_generation_workspace ::
    "memory_footprint \<Rightarrow> ('ld, 'm, 'q) runtime \<Rightarrow> (runtime_error + unit) \<times> ('ld, 'm, 'q) runtime" where
  "release_generation_workspace footprint s =
    (case checked_sub (rt_generation_workspaces s) 1 of
       None \<Rightarrow> (Inl BackendContractViolation, s)
     | Some workspaces \<Rightarrow>
    (case checked_sub_footprint (rt_reserved_generation_workspace s) footprint of
       Inl e \<Rightarrow> (Inl e, s)
     | Inr workspace \<Rightarrow>
    (case checked_sub_footprint (rt_reserved_footprint s) footprint of
       Inl e \<Rightarrow> (Inl e, s)
     | Inr reserved \<Rightarrow>
         (Inr (), s\<lparr>rt_generation_workspaces := workspaces,
            rt_reserved_generation_workspace := workspace, rt_reserved_footprint := reserved\<rparr>))))"

definition record_maintenance_error ::
    "runtime_error \<Rightarrow> ('ld, 'm, 'q) runtime \<Rightarrow> ('ld, 'm, 'q) runtime" where
  "record_maintenance_error e s = s\<lparr>rt_maintenance_error := Some e\<rparr>"

end
