(* ===== verification/Registry_Unload.thy ===== *)
theory Registry_Unload
  imports Registry_Requests
begin

section \<open>The model registry: unload, clean-up and shutdown\<close>

text \<open>
  The methods of \<open>InferenceRuntime\<close> that give models back: \<open>unload_model\<close> with its policies, the
  polls that retry quarantined resources and escalate expired drains, and \<open>shutdown\<close>. The loops
  \<open>cancel_loop\<close>, \<open>shutdown_cancel_loop\<close> and \<open>cleanup_loop\<close> are partial functions into \<open>option\<close>,
  where \<open>None\<close> is a loop that never ends; a method that runs one is \<open>option\<close>-valued.
\<close>

subsection \<open>Cancelling every request of a model\<close>

definition first_request :: "('ld, 'm, 'q) runtime \<Rightarrow> model_id \<Rightarrow> request_id option" where
  "first_request s model_id =
     (case bt_get (rt_models s) model_id of
        None \<Rightarrow> None | Some slot \<Rightarrow> map_option fst (bt_first (sl_requests slot)))"

definition note_cancelled ::
    "model_id \<Rightarrow> u32 \<Rightarrow> ('ld, 'm, 'q) runtime \<Rightarrow> ('ld, 'm, 'q) runtime" where
  "note_cancelled model_id cancelled s =
     (case bt_get (rt_models s) model_id of
        None \<Rightarrow> s | Some slot \<Rightarrow> put_slot model_id (slot\<lparr>sl_cancelled_requests := cancelled\<rparr>) s)"

partial_function (option) cancel_loop ::
    "('src, 'ld, 'm, 'q) backend \<Rightarrow> model_id \<Rightarrow> u32 \<Rightarrow> ('ld, 'm, 'q) runtime
       \<Rightarrow> ((runtime_error + u32) \<times> ('ld, 'm, 'q) runtime) option" where
  "cancel_loop B model_id cancelled s =
    (case first_request s model_id of
       None \<Rightarrow> Some (Inr cancelled, s)
     | Some request_id \<Rightarrow>
    (case remove_request B request_id OpCancellation ClassCancellation s of (r, s) \<Rightarrow>
    (case r of
       Inr _ \<Rightarrow>
         let cancelled = saturating_add cancelled 1 in
         if bt_contains (rt_models s) model_id
         then cancel_loop B model_id cancelled (note_cancelled model_id cancelled s)
         else Some (Inr cancelled, s)
     | Inl e \<Rightarrow>
         if is_cleanup_error e
         then Some (Inl e, note_cancelled model_id (saturating_add cancelled 1) s)
         else Some (Inl e, s))))"

definition cancel_all_requests ::
    "('src, 'ld, 'm, 'q) backend \<Rightarrow> model_id \<Rightarrow> ('ld, 'm, 'q) runtime
       \<Rightarrow> ((runtime_error + u32) \<times> ('ld, 'm, 'q) runtime) option" where
  "cancel_all_requests B model_id s =
    (case bt_get (rt_models s) model_id of
       None \<Rightarrow> Some (Inl (ModelNotLoaded model_id), s)
     | Some slot \<Rightarrow> cancel_loop B model_id (sl_cancelled_requests slot) s)"

partial_function (option) shutdown_cancel_loop ::
    "('src, 'ld, 'm, 'q) backend \<Rightarrow> model_id \<Rightarrow> u32 \<Rightarrow> ('ld, 'm, 'q) runtime
       \<Rightarrow> ((runtime_error + u32) \<times> ('ld, 'm, 'q) runtime) option" where
  "shutdown_cancel_loop B model_id cancelled s =
    (case first_request s model_id of
       None \<Rightarrow> Some (Inr cancelled, s)
     | Some request_id \<Rightarrow>
    (case remove_request B request_id OpShutdown ClassShutdown s of (r, s) \<Rightarrow>
    (case preserve_primary_cleanup r of
       Inr _ \<Rightarrow> shutdown_cancel_loop B model_id (saturating_add cancelled 1) s
     | Inl e \<Rightarrow> Some (Inl e, s))))"

definition cancel_all_requests_for_shutdown ::
    "('src, 'ld, 'm, 'q) backend \<Rightarrow> model_id \<Rightarrow> ('ld, 'm, 'q) runtime
       \<Rightarrow> ((runtime_error + u32) \<times> ('ld, 'm, 'q) runtime) option" where
  "cancel_all_requests_for_shutdown B model_id s = shutdown_cancel_loop B model_id 0 s"

text \<open>
  The continuation that \<open>unload_model\<close> and both cancelling branches of \<open>poll_unload_transition\<close>
  share: cancel everything, then release the model unless the last removal has done so.
\<close>

definition cancel_and_release ::
    "('src, 'ld, 'm, 'q) backend \<Rightarrow> model_id \<Rightarrow> model_handle \<Rightarrow> ('ld, 'm, 'q) runtime
       \<Rightarrow> ((runtime_error + unload_receipt) \<times> ('ld, 'm, 'q) runtime) option" where
  "cancel_and_release B model_id handle s =
    (case cancel_all_requests B model_id s of
       None \<Rightarrow> None
     | Some (Inl e, s) \<Rightarrow> Some (Inl e, s)
     | Some (Inr cancelled, s) \<Rightarrow>
         let receipt = \<lparr>ur_handle = handle, ur_status = Unloaded, ur_cancelled_requests = cancelled\<rparr> in
         Some (if bt_contains (rt_models s) model_id
               then rt_bind (release_model_with_primary B model_id OpCancellation ClassCancellation)
                      (\<lambda>_. rt_lift (Inr receipt)) s
               else (Inr receipt, s)))"

subsection \<open>Unload\<close>

definition absent_unload_receipt ::
    "('ld, 'm, 'q) runtime \<Rightarrow> model_handle \<Rightarrow> runtime_error + unload_receipt" where
  "absent_unload_receipt s handle =
    (case model_cleanup_state s (mh_id handle) of
       Some state \<Rightarrow>
         bind_ok (ok_or (bt_get (rt_generations s) (mh_id handle)) (ModelNotLoaded (mh_id handle))) (\<lambda>generation.
         let current = \<lparr>mh_id = mh_id handle, mh_generation = generation\<rparr> in
         if current \<noteq> handle then Inl (StaleModelHandle handle current)
         else Inl (cleanup_retention_error state))
     | None \<Rightarrow>
         (case bt_get (rt_generations s) (mh_id handle) of
            None \<Rightarrow> Inl (ModelNotLoaded (mh_id handle))
          | Some generation \<Rightarrow>
              let current = \<lparr>mh_id = mh_id handle, mh_generation = generation\<rparr> in
              if current \<noteq> handle then Inl (StaleModelHandle handle current)
              else Inr \<lparr>ur_handle = handle, ur_status = AlreadyAbsent, ur_cancelled_requests = 0\<rparr>))"

definition runtime_unload_model ::
    "('src, 'ld, 'm, 'q) backend \<Rightarrow> model_handle \<Rightarrow> unload_policy \<Rightarrow> monotonic_millis
       \<Rightarrow> ('ld, 'm, 'q) runtime
       \<Rightarrow> ((runtime_error + unload_receipt) \<times> ('ld, 'm, 'q) runtime) option" where
  "runtime_unload_model B handle policy now s =
    (if \<not> bt_contains (rt_models s) (mh_id handle) then Some (absent_unload_receipt s handle, s)
     else
    (case exact_model s handle of
       Inl e \<Rightarrow> Some (Inl e, s)
     | Inr slot \<Rightarrow>
    (case request_unload policy now (sl_lifecycle slot) of (r, lifecycle) \<Rightarrow>
    let s = put_slot (mh_id handle) (slot\<lparr>sl_lifecycle := lifecycle\<rparr>) s in
    (case r of
       Inl e \<Rightarrow> Some (Inl (RuntimeLifecycle e), s)
     | Inr NoAction \<Rightarrow>
         Some (Inr \<lparr>ur_handle = handle, ur_status = UnloadDraining, ur_cancelled_requests = 0\<rparr>, s)
     | Inr (CancelActive _) \<Rightarrow> cancel_and_release B (mh_id handle) handle s
     | Inr ReleaseModel \<Rightarrow>
         Some (rt_bind (release_model B (mh_id handle))
           (\<lambda>_. rt_lift (Inr \<lparr>ur_handle = handle, ur_status = Unloaded, ur_cancelled_requests = 0\<rparr>)) s)
     | Inr UnloadComplete \<Rightarrow>
         Some (Inr \<lparr>ur_handle = handle, ur_status = AlreadyAbsent, ur_cancelled_requests = 0\<rparr>, s)))))"

subsection \<open>Retrying a quarantined resource\<close>

fun find_retryable_sequence ::
    "u32 \<Rightarrow> (model_id \<times> ('m, 'q) model_slot) list \<Rightarrow> (model_id \<times> request_id) option" where
  "find_retryable_sequence maximum_attempts [] = None"
| "find_retryable_sequence maximum_attempts ((model_id, slot) # rest) =
     (case find (\<lambda>(_, pending). ps_attempts pending < maximum_attempts)
             (bt_entries (sl_pending_sequences slot)) of
        Some (request_id, _) \<Rightarrow> Some (model_id, request_id)
      | None \<Rightarrow> find_retryable_sequence maximum_attempts rest)"

definition find_retryable_model ::
    "u32 \<Rightarrow> (model_id, 'm pending_model) btree_map \<Rightarrow> model_id option" where
  "find_retryable_model maximum_attempts pending_models =
     map_option fst (find (\<lambda>(_, pending). pm_attempts pending < maximum_attempts)
       (bt_entries pending_models))"

definition failed_retry :: "cleanup_retry_state \<Rightarrow> cleanup_poll" where
  "failed_retry state =
     (if cleanup_exhausted state then CleanupExhausted state else CleanupRetryFailed state)"

definition finish_sequence_cleanup ::
    "('src, 'ld, 'm, 'q) backend \<Rightarrow> model_id \<Rightarrow> request_id \<Rightarrow> cleanup_retry_state
       \<Rightarrow> ('ld, 'm, 'q) runtime \<Rightarrow> (runtime_error + cleanup_poll) \<times> ('ld, 'm, 'q) runtime" where
  "finish_sequence_cleanup B model_id request_id state s =
    (case bt_get (rt_models s) model_id of
       None \<Rightarrow> (Inl (ModelNotLoaded model_id), s)
     | Some slot \<Rightarrow>
    (case bt_get (sl_pending_sequences slot) request_id of
       None \<Rightarrow> (Inl BackendContractViolation, s)
     | Some removed \<Rightarrow>
    let slot = slot\<lparr>sl_pending_sequences := bt_remove request_id (sl_pending_sequences slot)\<rparr> in
    (case checked_sub_footprint (sl_reserved_footprint slot) (ps_footprint removed) of
       Inl e \<Rightarrow> (Inl e, put_slot model_id slot s)
     | Inr slot_reserved \<Rightarrow>
    let slot = slot\<lparr>sl_reserved_footprint := slot_reserved,
          sl_poisoned := \<not> bt_is_empty (sl_pending_sequences slot)\<rparr>;
        s = s\<lparr>rt_models := bt_insert model_id slot (rt_models s),
          rt_pending_request_index := bt_remove request_id (rt_pending_request_index s),
          rt_pending_sequence_index :=
            bt_remove (ps_sequence_id removed) (rt_pending_sequence_index s)\<rparr>
    in
    (case checked_sub (rt_pending_cleanup_sequences s) 1 of
       None \<Rightarrow> (Inl BackendContractViolation, s)
     | Some pending_cleanup_sequences \<Rightarrow>
    let s = s\<lparr>rt_pending_cleanup_sequences := pending_cleanup_sequences\<rparr> in
    (case checked_sub_footprint (rt_reserved_footprint s) (ps_footprint removed) of
       Inl e \<Rightarrow> (Inl e, s)
     | Inr reserved \<Rightarrow>
    let s = s\<lparr>rt_reserved_footprint := reserved\<rparr> in
    if sl_lifecycle slot = Unloading
    then (case release_model_with_primary B model_id
                 (cf_primary_operation (ps_failure removed))
                 (cf_primary_failure (ps_failure removed)) s of
            (r, s) \<Rightarrow> (bind_ok (preserve_primary_cleanup r) (\<lambda>_. Inr (CleanupReleased state)), s))
    else (Inr (CleanupReleased state), s))))))"

definition retry_sequence ::
    "('src, 'ld, 'm, 'q) backend \<Rightarrow> model_id \<Rightarrow> request_id
       \<Rightarrow> ('ld, 'm, 'q) runtime \<Rightarrow> (runtime_error + cleanup_poll) \<times> ('ld, 'm, 'q) runtime" where
  "retry_sequence B model_id request_id s =
    (case bt_get (rt_models s) model_id of
       None \<Rightarrow> (Inl (ModelNotLoaded model_id), s)
     | Some slot \<Rightarrow>
    (case bt_get (sl_pending_sequences slot) request_id of
       None \<Rightarrow> (Inl BackendContractViolation, s)
     | Some pending \<Rightarrow>
    (case checked_add (ps_attempts pending) 1 of
       None \<Rightarrow> (Inl BackendContractViolation, s)
     | Some attempts \<Rightarrow>
    let state = \<lparr>cr_resource = ResourceSequence model_id request_id (ps_sequence_id pending),
          cr_failure = ps_failure pending, cr_attempts = attempts,
          cr_maximum_attempts = maximum_cleanup_attempts s\<rparr>
    in
    (case lm_destroy_sequence (be_model B) (sl_model slot) (ps_sequence pending) of
       (r, model, sequence) \<Rightarrow>
         let pending = pending\<lparr>ps_attempts := attempts, ps_sequence := sequence\<rparr>;
             slot = slot\<lparr>sl_model := model,
               sl_pending_sequences := bt_insert request_id pending (sl_pending_sequences slot)\<rparr>;
             s = s\<lparr>rt_models := bt_insert model_id slot (rt_models s), rt_last_cleanup := Some state\<rparr>
         in if is_ok r then finish_sequence_cleanup B model_id request_id state s
            else (Inr (failed_retry state), s)))))"

definition retry_model ::
    "('src, 'ld, 'm, 'q) backend \<Rightarrow> model_id
       \<Rightarrow> ('ld, 'm, 'q) runtime \<Rightarrow> (runtime_error + cleanup_poll) \<times> ('ld, 'm, 'q) runtime" where
  "retry_model B model_id s =
    (case bt_get (rt_pending_models s) model_id of
       None \<Rightarrow> (Inl (ModelNotLoaded model_id), s)
     | Some pending \<Rightarrow>
    (case checked_add (pm_attempts pending) 1 of
       None \<Rightarrow> (Inl BackendContractViolation, s)
     | Some attempts \<Rightarrow>
    let state = \<lparr>cr_resource = ResourceModel model_id, cr_failure = pm_failure pending,
          cr_attempts = attempts, cr_maximum_attempts = maximum_cleanup_attempts s\<rparr>
    in
    (case lm_prepare_unload (be_model B) (pm_model pending) of
       (r, model) \<Rightarrow>
         let pending = pending\<lparr>pm_attempts := attempts, pm_model := model\<rparr>;
             s = s\<lparr>rt_pending_models := bt_insert model_id pending (rt_pending_models s),
               rt_last_cleanup := Some state\<rparr>
         in if is_ok r
            then let s = s\<lparr>rt_pending_models := bt_remove model_id (rt_pending_models s)\<rparr> in
              (case checked_sub_footprint (rt_reserved_footprint s) (pm_footprint pending) of
                 Inl e \<Rightarrow> (Inl e, s)
               | Inr reserved \<Rightarrow>
                   (Inr (CleanupReleased state), s\<lparr>rt_reserved_footprint := reserved\<rparr>))
            else (Inr (failed_retry state), s))))"

definition poll_cleanup ::
    "('src, 'ld, 'm, 'q) backend
       \<Rightarrow> ('ld, 'm, 'q) runtime \<Rightarrow> (runtime_error + cleanup_poll) \<times> ('ld, 'm, 'q) runtime" where
  "poll_cleanup B s =
    (case find_retryable_sequence (maximum_cleanup_attempts s) (bt_entries (rt_models s)) of
       Some (model_id, request_id) \<Rightarrow> retry_sequence B model_id request_id s
     | None \<Rightarrow>
    (case find_retryable_model (maximum_cleanup_attempts s) (rt_pending_models s) of
       Some model_id \<Rightarrow> retry_model B model_id s
     | None \<Rightarrow> (Inr CleanupIdle, s)))"

subsection \<open>Polling the unload transitions\<close>

datatype drain_poll =
    NothingExpired
  | DrainExpired model_id model_handle
  | DrainError model_handle lifecycle_error

fun poll_draining ::
    "monotonic_millis \<Rightarrow> (model_id \<times> ('m, 'q) model_slot) list \<Rightarrow> ('ld, 'm, 'q) runtime
       \<Rightarrow> drain_poll \<times> ('ld, 'm, 'q) runtime" where
  "poll_draining now [] s = (NothingExpired, s)"
| "poll_draining now ((model_id, slot) # rest) s =
     (case sl_lifecycle slot of
        Draining _ _ \<Rightarrow>
          (case poll_lifecycle now (sl_lifecycle slot) of (r, lifecycle) \<Rightarrow>
             let s = put_slot model_id (slot\<lparr>sl_lifecycle := lifecycle\<rparr>) s in
             (case r of
                Inr (CancelActive _) \<Rightarrow> (DrainExpired model_id (sl_handle slot), s)
              | Inr _ \<Rightarrow> poll_draining now rest s
              | Inl e \<Rightarrow> (DrainError (sl_handle slot) e, s)))
      | _ \<Rightarrow> poll_draining now rest s)"

definition find_slot ::
    "(lifecycle_state \<Rightarrow> bool) \<Rightarrow> ('ld, 'm, 'q) runtime \<Rightarrow> (model_id \<times> model_handle) option" where
  "find_slot P s = map_option (\<lambda>(model_id, slot). (model_id, sl_handle slot))
     (find (\<lambda>(_, slot). P (sl_lifecycle slot)) (bt_entries (rt_models s)))"

fun is_cancelling :: "lifecycle_state \<Rightarrow> bool" where
  "is_cancelling (Cancelling _ _) = True"
| "is_cancelling _ = False"

type_synonym unload_transition = "(model_handle \<times> (runtime_error + unload_receipt)) option"

definition poll_unload_transition ::
    "('src, 'ld, 'm, 'q) backend \<Rightarrow> monotonic_millis \<Rightarrow> ('ld, 'm, 'q) runtime
       \<Rightarrow> (unload_transition \<times> ('ld, 'm, 'q) runtime) option" where
  "poll_unload_transition B now s =
    (case poll_draining now (bt_entries (rt_models s)) s of
       (DrainError handle e, s) \<Rightarrow> Some (Some (handle, Inl (RuntimeLifecycle e)), s)
     | (DrainExpired model_id handle, s) \<Rightarrow>
         map_option (apfst (\<lambda>r. Some (handle, r))) (cancel_and_release B model_id handle s)
     | (NothingExpired, s) \<Rightarrow>
    (case find_slot is_cancelling s of
       Some (model_id, handle) \<Rightarrow>
         map_option (apfst (\<lambda>r. Some (handle, r))) (cancel_and_release B model_id handle s)
     | None \<Rightarrow>
    (case find_slot (\<lambda>lifecycle. lifecycle = Unloading) s of
       Some (model_id, handle) \<Rightarrow>
         Some (apfst (\<lambda>r. Some (handle, bind_ok r (\<lambda>_.
           Inr \<lparr>ur_handle = handle, ur_status = Unloaded, ur_cancelled_requests = 0\<rparr>)))
           (release_model B model_id s))
     | None \<Rightarrow> Some (None, s))))"

definition runtime_poll ::
    "('src, 'ld, 'm, 'q) backend \<Rightarrow> monotonic_millis \<Rightarrow> ('ld, 'm, 'q) runtime
       \<Rightarrow> ((runtime_error + bool) \<times> ('ld, 'm, 'q) runtime) option" where
  "runtime_poll B now s = map_option (apfst (\<lambda>transition.
     case transition of
       Some (_, Inr _) \<Rightarrow> Inr True
     | Some (_, Inl e) \<Rightarrow> Inl e
     | None \<Rightarrow> Inr False)) (poll_unload_transition B now s)"

subsection \<open>Shutdown\<close>

text \<open>What \<open>shutdown\<close> asks of the lifecycle of each model before it cancels its requests.\<close>

definition begin_shutdown :: "lifecycle_state \<Rightarrow> (runtime_error + unit) \<times> lifecycle_state" where
  "begin_shutdown lifecycle =
    (case lifecycle of
       Ready \<Rightarrow>
         (case request_unload CancelActiveRequests (MonotonicMillis 0) lifecycle of
            (r, lifecycle) \<Rightarrow>
              (bind_ok (map_err RuntimeLifecycle r) (\<lambda>action.
                 if action \<noteq> ReleaseModel then Inl BackendContractViolation else Inr ()), lifecycle))
     | Active _ \<Rightarrow>
         (case request_unload CancelActiveRequests (MonotonicMillis 0) lifecycle of
            (r, lifecycle) \<Rightarrow> (bind_ok (map_err RuntimeLifecycle r) (\<lambda>_. Inr ()), lifecycle))
     | Draining _ _ \<Rightarrow> (Inr (), lifecycle)
     | Cancelling _ _ \<Rightarrow> (Inr (), lifecycle)
     | Unloading \<Rightarrow> (Inr (), lifecycle)
     | _ \<Rightarrow> (Inl (RuntimeLifecycle InvalidTransition), lifecycle))"

definition release_after_shutdown ::
    "('src, 'ld, 'm, 'q) backend \<Rightarrow> model_id \<Rightarrow> ('ld, 'm, 'q) runtime
       \<Rightarrow> (runtime_error + unit) \<times> ('ld, 'm, 'q) runtime" where
  "release_after_shutdown B model_id s =
    (if (case bt_get (rt_models s) model_id of
           None \<Rightarrow> False
         | Some slot \<Rightarrow> bt_is_empty (sl_requests slot) \<and> bt_is_empty (sl_pending_sequences slot)
             \<and> sl_lifecycle slot = Unloading)
     then apfst preserve_primary_cleanup
       (release_model_with_primary B model_id OpShutdown ClassShutdown s)
     else (Inr (), s))"

fun shutdown_models ::
    "('src, 'ld, 'm, 'q) backend \<Rightarrow> model_id list \<Rightarrow> u32 \<Rightarrow> ('ld, 'm, 'q) runtime
       \<Rightarrow> ((runtime_error + u32) \<times> ('ld, 'm, 'q) runtime) option" where
  "shutdown_models B [] cancelled s = Some (Inr cancelled, s)"
| "shutdown_models B (model_id # model_ids) cancelled s =
    (case bt_get (rt_models s) model_id of
       None \<Rightarrow> shutdown_models B model_ids cancelled s
     | Some slot \<Rightarrow>
    (case begin_shutdown (sl_lifecycle slot) of (r, lifecycle) \<Rightarrow>
    let s = put_slot model_id (slot\<lparr>sl_lifecycle := lifecycle\<rparr>) s in
    (case r of
       Inl e \<Rightarrow> Some (Inl e, s)
     | Inr _ \<Rightarrow>
    (case cancel_all_requests_for_shutdown B model_id s of
       None \<Rightarrow> None
     | Some (Inl e, s) \<Rightarrow> Some (Inl e, s)
     | Some (Inr n, s) \<Rightarrow>
    (case release_after_shutdown B model_id s of
       (Inl e, s) \<Rightarrow> Some (Inl e, s)
     | (Inr _, s) \<Rightarrow> shutdown_models B model_ids (saturating_add cancelled n) s)))))"

partial_function (option) cleanup_loop ::
    "('src, 'ld, 'm, 'q) backend \<Rightarrow> ('ld, 'm, 'q) runtime
       \<Rightarrow> ((runtime_error + unit) \<times> ('ld, 'm, 'q) runtime) option" where
  "cleanup_loop B s =
    (case poll_cleanup B s of (r, s) \<Rightarrow>
    (case r of
       Inl e \<Rightarrow> Some (Inl e, s)
     | Inr poll \<Rightarrow> if poll = CleanupIdle then Some (Inr (), s) else cleanup_loop B s))"

definition finish_shutdown ::
    "u32 \<Rightarrow> u32 \<Rightarrow> ('ld, 'm, 'q) runtime \<Rightarrow> runtime_error + shutdown_receipt" where
  "finish_shutdown initial_models cancelled s =
    (case first_pending_cleanup_state s of
       Some state \<Rightarrow> Inl (CleanupRetryExhausted state)
     | None \<Rightarrow>
         if \<not> bt_is_empty (rt_models s) \<or> rt_active_requests s \<noteq> 0 then Inl BackendContractViolation
         else Inr \<lparr>sr_unloaded_models = initial_models, sr_cancelled_requests = cancelled\<rparr>)"

definition runtime_shutdown ::
    "('src, 'ld, 'm, 'q) backend \<Rightarrow> ('ld, 'm, 'q) runtime
       \<Rightarrow> ((runtime_error + shutdown_receipt) \<times> ('ld, 'm, 'q) runtime) option" where
  "runtime_shutdown B s =
    (let s = s\<lparr>rt_shutting_down := True\<rparr>;
         initial_models = saturating_u32
           (usize_saturating_add (bt_len (rt_models s)) (bt_len (rt_pending_models s)))
     in
    (case shutdown_models B (bt_keys (rt_models s)) 0 s of
       None \<Rightarrow> None
     | Some (Inl e, s) \<Rightarrow> Some (Inl e, s)
     | Some (Inr cancelled, s) \<Rightarrow>
    (case cleanup_loop B s of
       None \<Rightarrow> None
     | Some (Inl e, s) \<Rightarrow> Some (Inl e, s)
     | Some (Inr _, s) \<Rightarrow> Some (finish_shutdown initial_models cancelled s, s))))"

end
