(* ===== verification/Registry_Invariant.thy ===== *)
theory Registry_Invariant
  imports Registry_Unload
begin

section \<open>The invariant of the model registry\<close>

text \<open>
  What every method of the registry keeps: the maps are in key order; a slot's reservation is
  exactly its model, its requests with their workspaces, and its quarantined sequences; the
  lifecycle counter of a slot is its number of requests; the registry's reservation is exactly
  everything resident, quarantined or held as a generation workspace, and within the budget;
  the counters count; the four indexes list exactly what the slots hold; a model is never both
  resident and quarantined; a resident model's handle carries the last generation given out.

  The methods are compositions of a few changes of one slot. \<open>replace_slot\<close> is the lemma for
  all of them; \<open>owner_insert\<close> and its companions are the lemmas about the indexes.
\<close>

subsection \<open>The backend contract\<close>

text \<open>
  \<open>BackendSequence::id\<close> is documented as the stable identity of a sequence: no method of the
  model that borrows a sequence changes it.
\<close>

definition stable_ids :: "('src, 'ld, 'm, 'q) backend \<Rightarrow> bool" where
  "stable_ids B \<longleftrightarrow>
     (\<forall>m q. seq_id (be_model B) (snd (snd (lm_destroy_sequence (be_model B) m q)))
        = seq_id (be_model B) q)
     \<and> (\<forall>m q input buffers. seq_id (be_model B)
           (fst (snd (snd (lm_prefill_prepared (be_model B) m q input buffers)))) = seq_id (be_model B) q)
     \<and> (\<forall>m q input buffers. seq_id (be_model B)
           (fst (snd (snd (lm_decode_prepared (be_model B) m q input buffers)))) = seq_id (be_model B) q)"

lemma stable_destroy:
  "stable_ids B \<Longrightarrow> lm_destroy_sequence (be_model B) m q = (r, m', q')
     \<Longrightarrow> seq_id (be_model B) q' = seq_id (be_model B) q"
  unfolding stable_ids_def by (metis snd_conv)

lemma stable_prefill:
  assumes "stable_ids B" and "prefill_checked (be_model B) m q input logits c = (r, m', q', logits')"
  shows "seq_id (be_model B) q' = seq_id (be_model B) q"
proof -
  let ?p = "lm_prefill_prepared (be_model B) m q input \<lparr>pb_logits = logits,
    pb_required_logits = lm_prefill_buffer_requirements (be_model B) m q input\<rparr>"
  have "seq_id (be_model B) (fst (snd (snd ?p))) = seq_id (be_model B) q"
    using assms(1) by (simp add: stable_ids_def)
  with prefill_checked_cases [of "be_model B" m q input logits c] assms(2) show ?thesis
    by (auto simp: apfst_def map_prod_def split: if_splits prod.splits)
qed

lemma stable_decode:
  assumes "stable_ids B" and "decode_checked (be_model B) m q input logits c = (r, m', q', logits')"
  shows "seq_id (be_model B) q' = seq_id (be_model B) q"
proof -
  let ?p = "lm_decode_prepared (be_model B) m q input \<lparr>pb_logits = logits,
    pb_required_logits = lm_decode_buffer_requirements (be_model B) m q input\<rparr>"
  have "seq_id (be_model B) (fst (snd (snd ?p))) = seq_id (be_model B) q"
    using assms(1) by (simp add: stable_ids_def)
  with decode_checked_cases [of "be_model B" m q input logits c] assms(2) show ?thesis
    by (auto simp: apfst_def map_prod_def split: if_splits prod.splits)
qed

subsection \<open>Slots\<close>

definition slot_backend_load :: "('m, 'q) model_slot \<Rightarrow> footprint_component \<Rightarrow> nat" where
  "slot_backend_load slot c = footprint_field (sl_model_footprint slot) c
     + bt_total (\<lambda>request. footprint_field (rq_backend_footprint request) c) (sl_requests slot)
     + bt_total (\<lambda>pending. footprint_field (ps_footprint pending) c) (sl_pending_sequences slot)"

definition slot_workspace_load :: "('m, 'q) model_slot \<Rightarrow> footprint_component \<Rightarrow> nat" where
  "slot_workspace_load slot c =
     bt_total (\<lambda>request. footprint_field (rq_workspace_footprint request) c) (sl_requests slot)"

fun resident :: "lifecycle_state \<Rightarrow> bool" where
  "resident Absent = False"
| "resident Loading = False"
| "resident (Failed _ _) = False"
| "resident _ = True"

definition slot_inv :: "u32 \<Rightarrow> model_id \<Rightarrow> ('m, 'q) model_slot \<Rightarrow> bool" where
  "slot_inv maximum_attempts model_id slot \<longleftrightarrow>
     mh_id (sl_handle slot) = model_id
     \<and> bt_inv (sl_requests slot) \<and> bt_inv (sl_pending_sequences slot)
     \<and> (\<forall>c. footprint_field (sl_reserved_footprint slot) c
            = slot_backend_load slot c + slot_workspace_load slot c)
     \<and> active_count (sl_lifecycle slot) = bt_len (sl_requests slot)
     \<and> lifecycle_wf (sl_lifecycle slot) \<and> resident (sl_lifecycle slot)
     \<and> (sl_poisoned slot \<longleftrightarrow> \<not> bt_is_empty (sl_pending_sequences slot))
     \<and> (\<forall>request_id pending. bt_get (sl_pending_sequences slot) request_id = Some pending \<longrightarrow>
          ps_request_id pending = request_id \<and> ps_attempts pending \<le> maximum_attempts)"

subsection \<open>Who owns what\<close>

definition active_request ::
    "(model_id, ('m, 'q) model_slot) btree_map \<Rightarrow> model_id \<Rightarrow> request_id \<Rightarrow> 'q request_slot option" where
  "active_request models model_id request_id =
     (case bt_get models model_id of None \<Rightarrow> None | Some slot \<Rightarrow> bt_get (sl_requests slot) request_id)"

definition quarantined_sequence ::
    "(model_id, ('m, 'q) model_slot) btree_map \<Rightarrow> model_id \<Rightarrow> request_id \<Rightarrow> 'q pending_sequence option" where
  "quarantined_sequence models model_id request_id =
     (case bt_get models model_id of
        None \<Rightarrow> None | Some slot \<Rightarrow> bt_get (sl_pending_sequences slot) request_id)"

definition owner_index ::
    "(model_id \<Rightarrow> request_id \<Rightarrow> 'x option) \<Rightarrow> (request_id \<Rightarrow> model_id option) \<Rightarrow> bool" where
  "owner_index held index \<longleftrightarrow>
     (\<forall>request_id model_id. index request_id = Some model_id \<longleftrightarrow> held model_id request_id \<noteq> None)"

definition sequence_owner ::
    "('x \<Rightarrow> sequence_id) \<Rightarrow> (model_id \<Rightarrow> request_id \<Rightarrow> 'x option)
       \<Rightarrow> (sequence_id \<Rightarrow> request_id option) \<Rightarrow> bool" where
  "sequence_owner seq held index \<longleftrightarrow>
     (\<forall>sequence_id request_id. index sequence_id = Some request_id \<longleftrightarrow>
        (\<exists>model_id x. held model_id request_id = Some x \<and> seq x = sequence_id))"

definition registry_indexes :: "('src, 'ld, 'm, 'q) backend \<Rightarrow> ('ld, 'm, 'q) runtime \<Rightarrow> bool" where
  "registry_indexes B s \<longleftrightarrow>
     owner_index (active_request (rt_models s)) (bt_get (rt_request_index s))
     \<and> owner_index (quarantined_sequence (rt_models s)) (bt_get (rt_pending_request_index s))
     \<and> sequence_owner (\<lambda>request. seq_id (be_model B) (rq_sequence request))
          (active_request (rt_models s)) (bt_get (rt_sequence_index s))
     \<and> sequence_owner ps_sequence_id
          (quarantined_sequence (rt_models s)) (bt_get (rt_pending_sequence_index s))
     \<and> (\<forall>request_id. bt_get (rt_request_index s) request_id = None
          \<or> bt_get (rt_pending_request_index s) request_id = None)
     \<and> (\<forall>sequence_id. bt_get (rt_sequence_index s) sequence_id = None
          \<or> bt_get (rt_pending_sequence_index s) sequence_id = None)"

text \<open>
  The indexes after an entry is added, removed or replaced. \<open>held_update\<close> is the holding
  function with one entry changed.
\<close>

definition held_update ::
    "model_id \<Rightarrow> request_id \<Rightarrow> 'x option \<Rightarrow> (model_id \<Rightarrow> request_id \<Rightarrow> 'x option)
       \<Rightarrow> model_id \<Rightarrow> request_id \<Rightarrow> 'x option" where
  "held_update model_id request_id x held = held(model_id := (held model_id)(request_id := x))"

lemma owner_insert:
  assumes "owner_index held index" and "index request_id = None"
  shows "owner_index (held_update model_id request_id (Some x) held) (index(request_id \<mapsto> model_id))"
  using assms unfolding owner_index_def held_update_def by (metis fun_upd_apply option.distinct(1) option.inject)

lemma owner_remove:
  assumes "owner_index held index" and "held model_id request_id = Some x"
  shows "owner_index (held_update model_id request_id None held) (index(request_id := None))"
  using assms unfolding owner_index_def held_update_def by (metis fun_upd_apply option.distinct(1) option.inject)

lemma owner_replace:
  assumes "owner_index held index" and "held model_id request_id = Some x"
  shows "owner_index (held_update model_id request_id (Some y) held) index"
  using assms unfolding owner_index_def held_update_def by (metis fun_upd_apply option.distinct(1))

lemma owner_unique:
  "owner_index held index \<Longrightarrow> held m r = Some x \<Longrightarrow> held m' r = Some y \<Longrightarrow> m' = m"
  unfolding owner_index_def by (metis option.distinct(1) option.inject)

lemma sequence_ownerD:
  "sequence_owner seq held index \<Longrightarrow> index sequence_id = Some request_id
     \<longleftrightarrow> (\<exists>model_id x. held model_id request_id = Some x \<and> seq x = sequence_id)"
  by (simp add: sequence_owner_def)

lemma sequence_insert:
  assumes "sequence_owner seq held sequences" and "owner_index held index"
    and "index request_id = None" and "sequences (seq x) = None"
  shows "sequence_owner seq (held_update model_id request_id (Some x) held)
    (sequences(seq x \<mapsto> request_id))"
  unfolding sequence_owner_def
proof (intro allI)
  fix sequence_id r
  have "held m request_id = None" for m
    using assms(2,3) unfolding owner_index_def by (metis option.distinct(1) not_None_eq)
  then have upd: "held_update model_id request_id (Some x) held m r = Some y \<longleftrightarrow>
      m = model_id \<and> r = request_id \<and> y = x \<or> held m r = Some y" for m y
    by (auto simp: held_update_def)
  have "held m r = Some y \<Longrightarrow> seq y \<noteq> seq x" for m y
    using assms(1,4) sequence_ownerD by (metis option.distinct(1))
  with sequence_ownerD [OF assms(1), of sequence_id r]
  show "(sequences(seq x \<mapsto> request_id)) sequence_id = Some r \<longleftrightarrow>
      (\<exists>m y. held_update model_id request_id (Some x) held m r = Some y \<and> seq y = sequence_id)"
    unfolding upd by auto
qed

lemma sequence_remove:
  assumes "sequence_owner seq held sequences" and "owner_index held index"
    and "held model_id request_id = Some x"
  shows "sequence_owner seq (held_update model_id request_id None held) (sequences(seq x := None))"
  unfolding sequence_owner_def
proof (intro allI)
  fix sequence_id r
  have upd: "held_update model_id request_id None held m r = Some y \<longleftrightarrow>
      r \<noteq> request_id \<and> held m r = Some y" for m y
    using owner_unique [OF assms(2,3)] by (auto simp: held_update_def)
  have same: "held m r = Some y \<Longrightarrow> seq y = seq x \<Longrightarrow> r = request_id" for m y
    using assms(1,3) unfolding sequence_owner_def by (metis option.inject)
  have own: "held m request_id = Some y \<Longrightarrow> y = x" for m y
    using owner_unique [OF assms(2,3)] assms(3) by (metis option.inject)
  show "(sequences(seq x := None)) sequence_id = Some r \<longleftrightarrow>
      (\<exists>m y. held_update model_id request_id None held m r = Some y \<and> seq y = sequence_id)"
    unfolding upd using sequence_ownerD [OF assms(1), of sequence_id r] same own
    by (cases "sequence_id = seq x") auto
qed

lemma sequence_replace:
  assumes "sequence_owner seq held sequences" and "owner_index held index"
    and "held model_id request_id = Some x" and "seq y = seq x"
  shows "sequence_owner seq (held_update model_id request_id (Some y) held) sequences"
  unfolding sequence_owner_def
proof (intro allI)
  fix sequence_id r
  have upd: "held_update model_id request_id (Some y) held m r = Some z \<longleftrightarrow>
      (if r = request_id then m = model_id \<and> z = y else held m r = Some z)" for m z
    using owner_unique [OF assms(2,3)] by (auto simp: held_update_def)
  have own: "held m request_id = Some z \<longleftrightarrow> m = model_id \<and> z = x" for m z
    using owner_unique [OF assms(2,3)] assms(3) by (metis option.inject)
  show "sequences sequence_id = Some r \<longleftrightarrow>
      (\<exists>m z. held_update model_id request_id (Some y) held m r = Some z \<and> seq z = sequence_id)"
    unfolding upd using sequence_ownerD [OF assms(1), of sequence_id r] own assms(4)
    by (cases "r = request_id") auto
qed

lemma active_request_put:
  assumes "bt_get models model_id = Some slot"
    and "bt_get (sl_requests slot') = (bt_get (sl_requests slot))(request_id := x)"
  shows "active_request (bt_insert model_id slot' models)
    = held_update model_id request_id x (active_request models)"
  using assms by (auto simp: fun_eq_iff active_request_def held_update_def bt_get_insert)

lemma active_request_same:
  assumes "bt_get models model_id = Some slot" and "sl_requests slot' = sl_requests slot"
  shows "active_request (bt_insert model_id slot' models) = active_request models"
  using assms by (auto simp: fun_eq_iff active_request_def bt_get_insert)

lemma quarantined_put:
  assumes "bt_get models model_id = Some slot"
    and "bt_get (sl_pending_sequences slot') = (bt_get (sl_pending_sequences slot))(request_id := x)"
  shows "quarantined_sequence (bt_insert model_id slot' models)
    = held_update model_id request_id x (quarantined_sequence models)"
  using assms by (auto simp: fun_eq_iff quarantined_sequence_def held_update_def bt_get_insert)

lemma quarantined_same:
  assumes "bt_get models model_id = Some slot"
    and "sl_pending_sequences slot' = sl_pending_sequences slot"
  shows "quarantined_sequence (bt_insert model_id slot' models) = quarantined_sequence models"
  using assms by (auto simp: fun_eq_iff quarantined_sequence_def bt_get_insert)

lemmas held_same = active_request_same quarantined_same

subsection \<open>The invariant\<close>

definition registry_load :: "('ld, 'm, 'q) runtime \<Rightarrow> footprint_component \<Rightarrow> nat" where
  "registry_load s c = bt_total (\<lambda>slot. slot_backend_load slot c) (rt_models s)
     + bt_total (\<lambda>pending. footprint_field (pm_footprint pending) c) (rt_pending_models s)
     + footprint_field (rt_reserved_generation_workspace s) c"

definition registry_maps :: "('ld, 'm, 'q) runtime \<Rightarrow> bool" where
  "registry_maps s \<longleftrightarrow> bt_inv (rt_models s) \<and> bt_inv (rt_pending_models s)
     \<and> bt_inv (rt_request_index s) \<and> bt_inv (rt_sequence_index s)
     \<and> bt_inv (rt_pending_request_index s) \<and> bt_inv (rt_pending_sequence_index s)
     \<and> bt_inv (rt_generations s)"

definition registry_slots :: "('ld, 'm, 'q) runtime \<Rightarrow> bool" where
  "registry_slots s \<longleftrightarrow>
     (\<forall>model_id slot. bt_get (rt_models s) model_id = Some slot \<longrightarrow>
        slot_inv (maximum_cleanup_attempts s) model_id slot
        \<and> bt_get (rt_generations s) model_id = Some (mh_generation (sl_handle slot))
        \<and> bt_get (rt_pending_models s) model_id = None)
     \<and> (\<forall>model_id pending. bt_get (rt_pending_models s) model_id = Some pending \<longrightarrow>
        bt_contains (rt_generations s) model_id
        \<and> pm_attempts pending \<le> maximum_cleanup_attempts s)
     \<and> maximum_cleanup_attempts s \<noteq> 0"

definition registry_counters :: "('ld, 'm, 'q) runtime \<Rightarrow> bool" where
  "registry_counters s \<longleftrightarrow>
     unat (rt_active_requests s) = bt_total (\<lambda>slot. bt_len (sl_requests slot)) (rt_models s)
     \<and> unat (rt_pending_cleanup_sequences s)
        = bt_total (\<lambda>slot. bt_len (sl_pending_sequences slot)) (rt_models s)
     \<and> unat (rt_active_requests s) + unat (rt_pending_cleanup_sequences s)
        \<le> unat (rl_maximum_active_requests (rt_limits s))
     \<and> bt_len (rt_models s) + bt_len (rt_pending_models s)
        \<le> unat (rl_maximum_loaded_models (rt_limits s))"

definition registry_memory :: "('ld, 'm, 'q) runtime \<Rightarrow> bool" where
  "registry_memory s \<longleftrightarrow>
     (\<forall>c. footprint_field (rt_reserved_footprint s) c = registry_load s c)
     \<and> within_budget (rt_reserved_footprint s) (rl_memory_budget (rt_limits s))"

definition runtime_inv :: "('src, 'ld, 'm, 'q) backend \<Rightarrow> ('ld, 'm, 'q) runtime \<Rightarrow> bool" where
  "runtime_inv B s \<longleftrightarrow> registry_maps s \<and> registry_slots s \<and> registry_indexes B s
     \<and> registry_counters s \<and> registry_memory s"

lemmas runtime_inv_defs = runtime_inv_def registry_maps_def registry_slots_def registry_counters_def
  registry_memory_def registry_load_def

lemma runtime_inv_slot:
  assumes "runtime_inv B s" and "bt_get (rt_models s) model_id = Some slot"
  shows "slot_inv (maximum_cleanup_attempts s) model_id slot"
  using assms by (simp add: runtime_inv_def registry_slots_def)

lemma runtime_inv_maps:
  assumes "runtime_inv B s"
  shows "bt_inv (rt_models s)" "bt_inv (rt_pending_models s)" "bt_inv (rt_request_index s)"
    "bt_inv (rt_sequence_index s)" "bt_inv (rt_pending_request_index s)"
    "bt_inv (rt_pending_sequence_index s)" "bt_inv (rt_generations s)"
  using assms by (simp_all add: runtime_inv_def registry_maps_def)

lemma runtime_inv_new: "rl_maximum_attempts limits \<noteq> 0 \<Longrightarrow> runtime_inv B (runtime_new loader limits)"
  by (simp add: runtime_inv_defs registry_indexes_def runtime_new_def bt_inv_empty bt_get_empty
      owner_index_def sequence_owner_def active_request_def quarantined_sequence_def
      maximum_cleanup_attempts_def within_budget_def host_bytes_def device_bytes_def
      footprint_default_def saturating_add_def bt_entries_empty all_components)

subsection \<open>Replacing a slot\<close>

lemma replace_slot:
  assumes inv: "runtime_inv B s" and slot: "bt_get (rt_models s) model_id = Some slot"
    and slot': "slot_inv (maximum_cleanup_attempts s) model_id slot'"
    and handle: "sl_handle slot' = sl_handle slot"
    and models: "rt_models s' = bt_insert model_id slot' (rt_models s)"
    and same: "rt_pending_models s' = rt_pending_models s" "rt_generations s' = rt_generations s"
      "rt_limits s' = rt_limits s"
    and maps: "bt_inv (rt_request_index s')" "bt_inv (rt_sequence_index s')"
      "bt_inv (rt_pending_request_index s')" "bt_inv (rt_pending_sequence_index s')"
    and indexes: "registry_indexes B s'"
    and active: "unat (rt_active_requests s') + bt_len (sl_requests slot)
      = unat (rt_active_requests s) + bt_len (sl_requests slot')"
    and pending: "unat (rt_pending_cleanup_sequences s') + bt_len (sl_pending_sequences slot)
      = unat (rt_pending_cleanup_sequences s) + bt_len (sl_pending_sequences slot')"
    and limit: "unat (rt_active_requests s') + unat (rt_pending_cleanup_sequences s')
      \<le> unat (rl_maximum_active_requests (rt_limits s))"
    and reserved: "\<And>c. footprint_field (rt_reserved_footprint s') c + slot_backend_load slot c
        + footprint_field (rt_reserved_generation_workspace s) c
      = footprint_field (rt_reserved_footprint s) c + slot_backend_load slot' c
        + footprint_field (rt_reserved_generation_workspace s') c"
    and budget: "within_budget (rt_reserved_footprint s') (rl_memory_budget (rt_limits s))"
  shows "runtime_inv B s'"
proof -
  note m = runtime_inv_maps [OF inv]
  have max: "maximum_cleanup_attempts s' = maximum_cleanup_attempts s"
    by (simp add: maximum_cleanup_attempts_def same)
  note total = bt_total_update [OF m(1) slot, of _ slot']
  have "registry_maps s'" using m maps by (simp add: registry_maps_def models same bt_inv_insert)
  moreover have "registry_slots s'"
    using inv slot slot' handle
    by (auto simp: runtime_inv_def registry_slots_def models same max bt_get_insert)
  moreover have "registry_counters s'"
  proof -
    have "registry_counters s" using inv by (simp add: runtime_inv_def)
    then show ?thesis
      using total [of "\<lambda>slot. bt_len (sl_requests slot)"]
        total [of "\<lambda>slot. bt_len (sl_pending_sequences slot)"] active pending limit
        bt_len_update [OF m(1) slot, of slot']
      unfolding registry_counters_def models same by linarith
  qed
  moreover have "registry_memory s'"
  proof -
    have load: "footprint_field (rt_reserved_footprint s) c = registry_load s c" for c
      using inv by (simp add: runtime_inv_def registry_memory_def)
    have "footprint_field (rt_reserved_footprint s') c = registry_load s' c" for c
      using load [of c] reserved [of c] total [of "\<lambda>slot. slot_backend_load slot c"]
      unfolding registry_load_def models same by linarith
    with budget show ?thesis by (simp add: registry_memory_def same)
  qed
  ultimately show ?thesis using indexes by (simp add: runtime_inv_def)
qed

end
