(* ===== verification/Registry_Steps.thy ===== *)
theory Registry_Steps
  imports Registry_Invariant
begin

section \<open>The steps of the model registry\<close>

text \<open>
  One lemma for each way a method changes the registry: a model is released or quarantined, a
  request is dropped, quarantined or admitted, a quarantined resource is retried. Each says that
  from a registry that satisfies the invariant the step takes none of its internal error
  branches, what it leaves, and that the invariant holds again.
\<close>

subsection \<open>What no step but load and release of workspaces changes\<close>

definition config :: "('ld, 'm, 'q) runtime \<Rightarrow> _" where
  "config s = (rt_loader s, rt_limits s, rt_generations s, rt_generation_workspaces s,
     rt_reserved_generation_workspace s, rt_maintenance_error s, rt_shutting_down s)"

lemma config_eq:
  assumes "config s' = config s"
  shows "rt_limits s' = rt_limits s" "rt_generations s' = rt_generations s"
    "rt_reserved_generation_workspace s' = rt_reserved_generation_workspace s"
    "rt_shutting_down s' = rt_shutting_down s"
    "maximum_cleanup_attempts s' = maximum_cleanup_attempts s"
  using assms by (simp_all add: config_def maximum_cleanup_attempts_def)

subsection \<open>Slots\<close>

lemma slot_inv_model [simp]: "slot_inv n model_id (slot\<lparr>sl_model := m\<rparr>) = slot_inv n model_id slot"
  by (simp add: slot_inv_def slot_backend_load_def slot_workspace_load_def)

lemma slot_loads_simps [simp]:
  "slot_backend_load (slot\<lparr>sl_model := m\<rparr>) c = slot_backend_load slot c"
  "slot_backend_load (slot\<lparr>sl_lifecycle := l\<rparr>) c = slot_backend_load slot c"
  "slot_backend_load (slot\<lparr>sl_reserved_footprint := f\<rparr>) c = slot_backend_load slot c"
  "slot_backend_load (slot\<lparr>sl_poisoned := b\<rparr>) c = slot_backend_load slot c"
  "slot_backend_load (slot\<lparr>sl_cancelled_requests := n\<rparr>) c = slot_backend_load slot c"
  "slot_workspace_load (slot\<lparr>sl_model := m\<rparr>) c = slot_workspace_load slot c"
  "slot_workspace_load (slot\<lparr>sl_lifecycle := l\<rparr>) c = slot_workspace_load slot c"
  "slot_workspace_load (slot\<lparr>sl_reserved_footprint := f\<rparr>) c = slot_workspace_load slot c"
  "slot_workspace_load (slot\<lparr>sl_poisoned := b\<rparr>) c = slot_workspace_load slot c"
  "slot_workspace_load (slot\<lparr>sl_cancelled_requests := n\<rparr>) c = slot_workspace_load slot c"
  "slot_workspace_load (slot\<lparr>sl_pending_sequences := p\<rparr>) c = slot_workspace_load slot c"
  by (simp_all add: slot_backend_load_def slot_workspace_load_def)

lemma slot_inv_lifecycle:
  "slot_inv n model_id slot \<Longrightarrow> active_count l = active_count (sl_lifecycle slot) \<Longrightarrow> lifecycle_wf l
     \<Longrightarrow> resident l \<Longrightarrow> slot_inv n model_id (slot\<lparr>sl_lifecycle := l\<rparr>)"
  by (simp add: slot_inv_def)

lemma slot_inv_cancelled:
  "slot_inv n model_id slot \<Longrightarrow> slot_inv n model_id (slot\<lparr>sl_cancelled_requests := k\<rparr>)"
  by (simp add: slot_inv_def)

lemma finish_request_active:
  assumes "lifecycle_wf l" and "resident l" and "active_count l = Suc n"
  obtains action l' where "finish_request l = (Inr action, l')" "lifecycle_wf l'" "resident l'"
    "active_count l' = n" "action = ReleaseModel \<longleftrightarrow> l' = Unloading"
proof (cases l)
  case (Active k)
  with assms show ?thesis using that unat_decrement [of k] by (cases "k = 1") auto
next
  case (Draining k w)
  with assms show ?thesis using that unat_decrement [of k] by (cases "k = 1") auto
next
  case (Cancelling k r)
  with assms show ?thesis using that unat_decrement [of k] by (cases "k = 1") auto
qed (use assms in auto)

lemma finish_request_leaving:
  "finish_request l = (Inr action, l') \<Longrightarrow> leaving l \<Longrightarrow> leaving l'"
  by (cases l) (auto split: if_splits)

lemma start_request_active:
  assumes "start_request l = (Inr action, l')" and "lifecycle_wf l"
  shows "lifecycle_wf l' \<and> resident l' \<and> active_count l' = Suc (active_count l)"
  using assms by (cases l) (auto split: option.splits dest: unat_increment)

subsection \<open>Releasing a model\<close>

text \<open>The registry without one idle model.\<close>

lemma remove_slot_indexes:
  assumes "bt_get models model_id = Some slot"
    and "bt_is_empty (sl_requests slot)" and "bt_is_empty (sl_pending_sequences slot)"
  shows "active_request (bt_remove model_id models) = active_request models"
    "quarantined_sequence (bt_remove model_id models) = quarantined_sequence models"
  using assms unfolding bt_is_empty_get
  by (auto simp: fun_eq_iff active_request_def quarantined_sequence_def bt_get_remove)

lemma empty_slot_load:
  assumes "bt_is_empty (sl_requests slot)" and "bt_is_empty (sl_pending_sequences slot)"
  shows "slot_backend_load slot c = footprint_field (sl_model_footprint slot) c"
  using assms by (simp add: slot_backend_load_def bt_total_def)

lemma runtime_inv_load:
  assumes "runtime_inv B s"
  shows "footprint_field (rt_reserved_footprint s) c = registry_load s c"
    "within_budget (rt_reserved_footprint s) (rl_memory_budget (rt_limits s))"
  using assms by (simp_all add: runtime_inv_def registry_memory_def)

lemma idle_slot_reserved:
  assumes "slot_inv n model_id slot"
    and "bt_is_empty (sl_requests slot)" and "bt_is_empty (sl_pending_sequences slot)"
  shows "sl_reserved_footprint slot = sl_model_footprint slot"
  using assms by (intro footprint_eqI)
    (simp add: slot_inv_def empty_slot_load slot_workspace_load_def bt_total_def)

lemma quarantine_model_inv:
  assumes inv: "runtime_inv B s" and slot: "bt_get (rt_models s) model_id = Some slot"
    and empty: "bt_is_empty (sl_requests slot)" "bt_is_empty (sl_pending_sequences slot)"
    and s': "rt_models s' = bt_remove model_id (rt_models s)"
      "rt_pending_models s' = bt_insert model_id pending (rt_pending_models s)"
      "pm_attempts pending = 1" "pm_footprint pending = sl_model_footprint slot"
    and same: "config s' = config s" "rt_request_index s' = rt_request_index s"
      "rt_sequence_index s' = rt_sequence_index s"
      "rt_pending_request_index s' = rt_pending_request_index s"
      "rt_pending_sequence_index s' = rt_pending_sequence_index s"
      "rt_active_requests s' = rt_active_requests s"
      "rt_pending_cleanup_sequences s' = rt_pending_cleanup_sequences s"
      "rt_reserved_footprint s' = rt_reserved_footprint s"
  shows "runtime_inv B s'"
proof -
  note m = runtime_inv_maps [OF inv]
  note total = bt_total_remove [OF m(1) slot] and len = bt_len_remove [OF m(1) slot]
  have fresh: "bt_get (rt_pending_models s) model_id = None"
    and known: "bt_contains (rt_generations s) model_id"
    using inv slot by (auto simp: runtime_inv_def registry_slots_def)
  have max: "1 \<le> maximum_cleanup_attempts s"
    using inv by (simp add: runtime_inv_def registry_slots_def word_le_nat_alt unat_gt_0 Suc_le_eq)
  have "registry_memory s'"
    using runtime_inv_load [OF inv] total [of "\<lambda>slot. slot_backend_load slot c" for c]
    by (simp add: registry_memory_def registry_load_def same config_eq [OF same(1)] s'
        bt_total_insert_new [OF m(2) fresh] empty_slot_load [OF empty])
  moreover have "registry_counters s'"
    using inv total [of "\<lambda>slot. bt_len (sl_requests slot)"] len
      total [of "\<lambda>slot. bt_len (sl_pending_sequences slot)"] bt_len_insert_new [OF m(2) fresh]
    unfolding registry_counters_def same config_eq [OF same(1)] s' runtime_inv_def
    by (simp add: empty)
  moreover have "registry_slots s'"
    using inv known max unfolding runtime_inv_def registry_slots_def s' config_eq [OF same(1)]
    by (auto simp: bt_get_insert bt_get_remove s' split: if_splits)
  moreover have "registry_maps s'"
    using m by (simp add: registry_maps_def s' same config_eq [OF same(1)] bt_inv_insert bt_inv_remove)
  moreover have "registry_indexes B s'"
    using inv by (simp add: runtime_inv_def registry_indexes_def s' same remove_slot_indexes [OF slot empty])
  ultimately show ?thesis by (simp add: runtime_inv_def)
qed

lemma drop_model_inv:
  assumes inv: "runtime_inv B s" and slot: "bt_get (rt_models s) model_id = Some slot"
    and empty: "bt_is_empty (sl_requests slot)" "bt_is_empty (sl_pending_sequences slot)"
  obtains rest where
    "checked_sub_footprint (rt_reserved_footprint s) (sl_model_footprint slot) = Inr rest"
    "runtime_inv B (s\<lparr>rt_models := bt_remove model_id (rt_models s), rt_reserved_footprint := rest\<rparr>)"
proof -
  note m = runtime_inv_maps [OF inv]
  note total = bt_total_remove [OF m(1) slot] and len = bt_len_remove [OF m(1) slot]
  have "footprint_field (sl_model_footprint slot) c \<le> footprint_field (rt_reserved_footprint s) c" for c
    using runtime_inv_load(1) [OF inv, of c] total [of "\<lambda>slot. slot_backend_load slot c"]
    by (simp add: registry_load_def empty_slot_load [OF empty])
  from checked_sub_footprint_total [OF this] obtain rest
    where rest: "checked_sub_footprint (rt_reserved_footprint s) (sl_model_footprint slot) = Inr rest"
    by blast
  then have fields: "footprint_field (rt_reserved_footprint s) c
      = footprint_field rest c + footprint_field (sl_model_footprint slot) c" for c
    by (simp add: checked_sub_footprint_iff)
  define s' where "s' = s\<lparr>rt_models := bt_remove model_id (rt_models s), rt_reserved_footprint := rest\<rparr>"
  have "footprint_field rest c = registry_load s' c" for c
    using runtime_inv_load(1) [OF inv, of c] total [of "\<lambda>slot. slot_backend_load slot c"] fields [of c]
    by (simp add: registry_load_def s'_def empty_slot_load [OF empty])
  moreover have "within_budget rest (rl_memory_budget (rt_limits s))"
    using runtime_inv_load(2) [OF inv] by (rule within_budget_mono) (simp add: fields)
  ultimately have "registry_memory s'" by (simp add: registry_memory_def s'_def)
  moreover have "registry_counters s'"
    using inv total [of "\<lambda>slot. bt_len (sl_requests slot)"] len
      total [of "\<lambda>slot. bt_len (sl_pending_sequences slot)"]
    by (simp add: runtime_inv_def registry_counters_def s'_def empty)
  moreover have "registry_slots s'"
    using inv unfolding runtime_inv_def registry_slots_def
    by (auto simp: s'_def bt_get_remove maximum_cleanup_attempts_def split: if_splits)
  moreover have "registry_maps s'"
    using m by (simp add: registry_maps_def s'_def bt_inv_remove)
  moreover have "registry_indexes B s'"
    using inv by (simp add: runtime_inv_def registry_indexes_def s'_def remove_slot_indexes [OF slot empty])
  ultimately show ?thesis using that rest by (simp add: runtime_inv_def s'_def)
qed

definition idle_unloading :: "('m, 'q) model_slot \<Rightarrow> bool" where
  "idle_unloading slot \<longleftrightarrow> bt_is_empty (sl_requests slot) \<and> bt_is_empty (sl_pending_sequences slot)
     \<and> sl_lifecycle slot = Unloading"

text \<open>The three ways a release ends, and what is left.\<close>

definition released ::
    "model_id \<Rightarrow> runtime_error + unit \<Rightarrow> ('ld, 'm, 'q) runtime \<Rightarrow> ('ld, 'm, 'q) runtime \<Rightarrow> bool" where
  "released model_id r s s' \<longleftrightarrow> r = Inr () \<and> rt_models s' = bt_remove model_id (rt_models s)
     \<and> rt_pending_models s' = rt_pending_models s \<and> bt_contains (rt_models s) model_id"

definition quarantined_model ::
    "model_id \<Rightarrow> runtime_error + unit \<Rightarrow> ('ld, 'm, 'q) runtime \<Rightarrow> ('ld, 'm, 'q) runtime \<Rightarrow> bool" where
  "quarantined_model model_id r s s' \<longleftrightarrow> (\<exists>e pending. r = Inl e \<and> is_cleanup_error e
     \<and> rt_models s' = bt_remove model_id (rt_models s)
     \<and> rt_pending_models s' = bt_insert model_id pending (rt_pending_models s)
     \<and> pm_attempts pending = 1 \<and> bt_contains (rt_models s) model_id)"

definition release_refused ::
    "model_id \<Rightarrow> runtime_error + unit \<Rightarrow> ('ld, 'm, 'q) runtime \<Rightarrow> ('ld, 'm, 'q) runtime \<Rightarrow> bool" where
  "release_refused model_id r s s' \<longleftrightarrow> s' = s
     \<and> (case bt_get (rt_models s) model_id of
          None \<Rightarrow> r = Inl (ModelNotLoaded model_id)
        | Some slot \<Rightarrow> r = Inl (RuntimeLifecycle InvalidTransition) \<and> \<not> idle_unloading slot)"

lemma release_spec:
  assumes inv: "runtime_inv B s"
    and release: "release_model_with_primary B model_id operation failure s = (r, s')"
  shows "runtime_inv B s'" "config s' = config s" "rt_request_index s' = rt_request_index s"
    "rt_pending_request_index s' = rt_pending_request_index s"
    "released model_id r s s' \<or> quarantined_model model_id r s s' \<or> release_refused model_id r s s'"
proof -
  have "runtime_inv B s' \<and> config s' = config s \<and> rt_request_index s' = rt_request_index s
    \<and> rt_pending_request_index s' = rt_pending_request_index s
    \<and> (released model_id r s s' \<or> quarantined_model model_id r s s' \<or> release_refused model_id r s s')"
  proof (cases "bt_get (rt_models s) model_id")
    case None
    with release inv show ?thesis by (simp add: release_model_with_primary_def release_refused_def)
  next
    case (Some slot)
    show ?thesis
    proof (cases "idle_unloading slot")
      case False
      with release inv Some show ?thesis
        by (auto simp: release_model_with_primary_def release_refused_def idle_unloading_def)
    next
      case True
      then have empty: "bt_is_empty (sl_requests slot)" "bt_is_empty (sl_pending_sequences slot)"
        and unloading: "sl_lifecycle slot = Unloading" by (auto simp: idle_unloading_def)
      have reserved: "sl_reserved_footprint slot = sl_model_footprint slot"
        using idle_slot_reserved [OF runtime_inv_slot [OF inv Some] empty] .
      obtain r' model where unload: "lm_prepare_unload (be_model B) (sl_model slot) = (r', model)"
        by fastforce
      note release_def = release_model_with_primary_def Let_def Some empty unloading reserved unload
      show ?thesis
      proof (cases r')
        case (Inl cleanup)
        with release obtain pending where s': "rt_models s' = bt_remove model_id (rt_models s)"
            "rt_pending_models s' = bt_insert model_id pending (rt_pending_models s)"
            "pm_attempts pending = 1" "pm_footprint pending = sl_model_footprint slot"
          and same: "config s' = config s" "rt_request_index s' = rt_request_index s"
            "rt_sequence_index s' = rt_sequence_index s"
            "rt_pending_request_index s' = rt_pending_request_index s"
            "rt_pending_sequence_index s' = rt_pending_sequence_index s"
            "rt_active_requests s' = rt_active_requests s"
            "rt_pending_cleanup_sequences s' = rt_pending_cleanup_sequences s"
            "rt_reserved_footprint s' = rt_reserved_footprint s"
          and r: "\<exists>e. r = Inl e \<and> is_cleanup_error e"
          by (auto simp: release_def config_def cleanup_retention_error_def)
        have "quarantined_model model_id r s s'"
          using r s' Some unfolding quarantined_model_def by blast
        with quarantine_model_inv [OF inv Some empty s' same] same show ?thesis by blast
      next
        case (Inr u)
        obtain rest where "checked_sub_footprint (rt_reserved_footprint s) (sl_model_footprint slot) = Inr rest"
          "runtime_inv B (s\<lparr>rt_models := bt_remove model_id (rt_models s), rt_reserved_footprint := rest\<rparr>)"
          by (rule drop_model_inv [OF inv Some empty])
        with Inr release Some show ?thesis
          by (auto simp: release_def config_def released_def)
      qed
    qed
  qed
  then show "runtime_inv B s'" "config s' = config s" "rt_request_index s' = rt_request_index s"
    "rt_pending_request_index s' = rt_pending_request_index s"
    "released model_id r s s' \<or> quarantined_model model_id r s s' \<or> release_refused model_id r s s'"
    by blast+
qed

lemma release_reserved:
  assumes inv: "runtime_inv B s"
    and release: "release_model_with_primary B model_id operation failure s = (r, s')"
  shows "footprint_field (rt_reserved_footprint s') c \<le> footprint_field (rt_reserved_footprint s) c"
proof -
  have sub: "checked_sub_footprint f g = Inr h \<Longrightarrow> footprint_field h c \<le> footprint_field f c" for f g h
    by (simp add: checked_sub_footprint_iff)
  show ?thesis
    using release by (auto simp: release_model_with_primary_def Let_def
        split: option.splits if_splits prod.splits sum.splits dest: sub)
qed

subsection \<open>Indexes\<close>

text \<open>
  The indexes after a request is dropped or quarantined, a request is admitted, a sequence is
  quarantined at admission, and a quarantined sequence is released.
\<close>

abbreviation request_sequence :: "('src, 'ld, 'm, 'q) backend \<Rightarrow> 'q request_slot \<Rightarrow> sequence_id" where
  "request_sequence B request \<equiv> seq_id (be_model B) (rq_sequence request)"

lemma indexes_drop:
  assumes old: "registry_indexes B s"
    and held: "active_request (rt_models s) model_id request_id = Some request"
    and models: "active_request (rt_models s')
        = held_update model_id request_id None (active_request (rt_models s))"
      "quarantined_sequence (rt_models s') = quarantined_sequence (rt_models s)"
    and index: "bt_get (rt_request_index s') = (bt_get (rt_request_index s))(request_id := None)"
      "bt_get (rt_sequence_index s')
        = (bt_get (rt_sequence_index s))(request_sequence B request := None)"
      "rt_pending_request_index s' = rt_pending_request_index s"
      "rt_pending_sequence_index s' = rt_pending_sequence_index s"
  shows "registry_indexes B s'"
  using old owner_remove [where held = "active_request (rt_models s)"
      and index = "bt_get (rt_request_index s)", OF _ held]
    sequence_remove [where held = "active_request (rt_models s)"
      and index = "bt_get (rt_request_index s)"
      and seq = "request_sequence B" and sequences = "bt_get (rt_sequence_index s)", OF _ _ held]
  unfolding registry_indexes_def models index by simp

lemma indexes_quarantine:
  assumes old: "registry_indexes B s"
    and held: "active_request (rt_models s) model_id request_id = Some request"
    and models: "active_request (rt_models s')
        = held_update model_id request_id None (active_request (rt_models s))"
      "quarantined_sequence (rt_models s')
        = held_update model_id request_id (Some pending) (quarantined_sequence (rt_models s))"
    and pending: "ps_sequence_id pending = request_sequence B request"
    and index: "bt_get (rt_request_index s') = (bt_get (rt_request_index s))(request_id := None)"
      "bt_get (rt_sequence_index s')
        = (bt_get (rt_sequence_index s))(request_sequence B request := None)"
      "bt_get (rt_pending_request_index s')
        = (bt_get (rt_pending_request_index s))(request_id \<mapsto> model_id)"
      "bt_get (rt_pending_sequence_index s')
        = (bt_get (rt_pending_sequence_index s))(request_sequence B request \<mapsto> request_id)"
    and free: "bt_get (rt_pending_request_index s) request_id = None"
      "bt_get (rt_pending_sequence_index s) (request_sequence B request) = None"
  shows "registry_indexes B s'"
  using old owner_remove [where held = "active_request (rt_models s)"
      and index = "bt_get (rt_request_index s)", OF _ held]
    sequence_remove [where held = "active_request (rt_models s)"
      and index = "bt_get (rt_request_index s)"
      and seq = "request_sequence B" and sequences = "bt_get (rt_sequence_index s)", OF _ _ held]
    owner_insert [of "quarantined_sequence (rt_models s)" "bt_get (rt_pending_request_index s)" request_id model_id pending]
    sequence_insert [of ps_sequence_id "quarantined_sequence (rt_models s)"
      "bt_get (rt_pending_sequence_index s)" "bt_get (rt_pending_request_index s)" request_id pending
      model_id] free
  unfolding registry_indexes_def models index by (simp add: pending)

lemma indexes_admit:
  assumes old: "registry_indexes B s"
    and models: "active_request (rt_models s')
        = held_update model_id request_id (Some request) (active_request (rt_models s))"
      "quarantined_sequence (rt_models s') = quarantined_sequence (rt_models s)"
    and index: "bt_get (rt_request_index s') = (bt_get (rt_request_index s))(request_id \<mapsto> model_id)"
      "bt_get (rt_sequence_index s')
        = (bt_get (rt_sequence_index s))(request_sequence B request \<mapsto> request_id)"
      "rt_pending_request_index s' = rt_pending_request_index s"
      "rt_pending_sequence_index s' = rt_pending_sequence_index s"
    and free: "bt_get (rt_request_index s) request_id = None"
      "bt_get (rt_sequence_index s) (request_sequence B request) = None"
      "bt_get (rt_pending_request_index s) request_id = None"
      "bt_get (rt_pending_sequence_index s) (request_sequence B request) = None"
  shows "registry_indexes B s'"
  using old owner_insert [of "active_request (rt_models s)" "bt_get (rt_request_index s)" request_id model_id request]
    sequence_insert [of "request_sequence B" "active_request (rt_models s)"
      "bt_get (rt_sequence_index s)" "bt_get (rt_request_index s)" request_id request model_id] free
  unfolding registry_indexes_def models index by simp

lemma indexes_abort:
  assumes old: "registry_indexes B s"
    and models: "active_request (rt_models s') = active_request (rt_models s)"
      "quarantined_sequence (rt_models s')
        = held_update model_id request_id (Some pending) (quarantined_sequence (rt_models s))"
    and index: "rt_request_index s' = rt_request_index s" "rt_sequence_index s' = rt_sequence_index s"
      "bt_get (rt_pending_request_index s')
        = (bt_get (rt_pending_request_index s))(request_id \<mapsto> model_id)"
      "bt_get (rt_pending_sequence_index s')
        = (bt_get (rt_pending_sequence_index s))(ps_sequence_id pending \<mapsto> request_id)"
    and free: "bt_get (rt_request_index s) request_id = None"
      "bt_get (rt_sequence_index s) (ps_sequence_id pending) = None"
      "bt_get (rt_pending_request_index s) request_id = None"
      "bt_get (rt_pending_sequence_index s) (ps_sequence_id pending) = None"
  shows "registry_indexes B s'"
  using old owner_insert [of "quarantined_sequence (rt_models s)" "bt_get (rt_pending_request_index s)" request_id model_id pending]
    sequence_insert [of ps_sequence_id "quarantined_sequence (rt_models s)"
      "bt_get (rt_pending_sequence_index s)" "bt_get (rt_pending_request_index s)" request_id pending
      model_id] free
  unfolding registry_indexes_def models index by simp

lemma indexes_release:
  assumes old: "registry_indexes B s"
    and held: "quarantined_sequence (rt_models s) model_id request_id = Some pending"
    and models: "active_request (rt_models s') = active_request (rt_models s)"
      "quarantined_sequence (rt_models s')
        = held_update model_id request_id None (quarantined_sequence (rt_models s))"
    and index: "rt_request_index s' = rt_request_index s" "rt_sequence_index s' = rt_sequence_index s"
      "bt_get (rt_pending_request_index s')
        = (bt_get (rt_pending_request_index s))(request_id := None)"
      "bt_get (rt_pending_sequence_index s')
        = (bt_get (rt_pending_sequence_index s))(ps_sequence_id pending := None)"
  shows "registry_indexes B s'"
  using old owner_remove [where held = "quarantined_sequence (rt_models s)"
      and index = "bt_get (rt_pending_request_index s)", OF _ held]
    sequence_remove [where held = "quarantined_sequence (rt_models s)"
      and index = "bt_get (rt_pending_request_index s)"
      and seq = ps_sequence_id and sequences = "bt_get (rt_pending_sequence_index s)", OF _ _ held]
  unfolding registry_indexes_def models index by simp

lemma indexes_same:
  assumes "registry_indexes B s"
    and "active_request (rt_models s') = active_request (rt_models s)"
      "quarantined_sequence (rt_models s') = quarantined_sequence (rt_models s)"
    and "rt_request_index s' = rt_request_index s" "rt_sequence_index s' = rt_sequence_index s"
      "rt_pending_request_index s' = rt_pending_request_index s"
      "rt_pending_sequence_index s' = rt_pending_sequence_index s"
  shows "registry_indexes B s'"
  using assms unfolding registry_indexes_def by simp

subsection \<open>Removing a request\<close>

lemma request_facts:
  assumes inv: "runtime_inv B s" and slot: "bt_get (rt_models s) model_id = Some slot"
    and request: "bt_get (sl_requests slot) request_id = Some request"
  shows "bt_get (rt_request_index s) request_id = Some model_id"
    "bt_get (rt_sequence_index s) (seq_id (be_model B) (rq_sequence request)) = Some request_id"
    "bt_get (rt_pending_request_index s) request_id = None"
    "bt_get (rt_pending_sequence_index s) (seq_id (be_model B) (rq_sequence request)) = None"
    "bt_get (sl_pending_sequences slot) request_id = None"
    "0 < unat (rt_active_requests s)"
    "active_request (rt_models s) model_id request_id = Some request"
proof -
  have indexes: "registry_indexes B s" using inv by (simp add: runtime_inv_def)
  show held: "active_request (rt_models s) model_id request_id = Some request"
    by (simp add: active_request_def slot request)
  then show index: "bt_get (rt_request_index s) request_id = Some model_id"
    using indexes by (simp add: registry_indexes_def owner_index_def)
  show sequence: "bt_get (rt_sequence_index s) (seq_id (be_model B) (rq_sequence request)) = Some request_id"
    using indexes held by (auto simp: registry_indexes_def sequence_owner_def)
  show pending: "bt_get (rt_pending_request_index s) request_id = None"
    using indexes index by (metis registry_indexes_def option.distinct(1))
  show "bt_get (rt_pending_sequence_index s) (seq_id (be_model B) (rq_sequence request)) = None"
    using indexes sequence by (metis registry_indexes_def option.distinct(1))
  have "quarantined_sequence (rt_models s) model_id request_id = None"
    using indexes pending by (metis registry_indexes_def owner_index_def option.distinct(1))
  then show "bt_get (sl_pending_sequences slot) request_id = None"
    by (simp add: quarantined_sequence_def slot)
  have "bt_len (sl_requests slot) \<le> unat (rt_active_requests s)"
    using inv bt_total_member [OF runtime_inv_maps(1) [OF inv] slot, of "\<lambda>slot. bt_len (sl_requests slot)"]
    by (simp add: runtime_inv_def registry_counters_def)
  moreover have "0 < bt_len (sl_requests slot)"
    using bt_len_remove [OF _ request] runtime_inv_slot [OF inv slot] by (simp add: slot_inv_def)
  ultimately show "0 < unat (rt_active_requests s)" by linarith
qed

lemma checked_decrement: "0 < unat n \<Longrightarrow> \<exists>m. checked_sub n 1 = Some m \<and> unat n = unat m + 1"
  for n :: "'a::len word"
  using checked_sub_unat [of n 1 "n - 1"] by (auto simp: checked_sub_def word_le_nat_alt unat_sub)

lemma checked_increment:
  fixes n k :: u32
  assumes "unat n < unat k"
  shows "\<exists>m. checked_add n 1 = Some m \<and> unat m = unat n + 1"
proof -
  have "unat k < 2 ^ LENGTH(32)" by (rule unsigned_less)
  with assms have "unat n + unat (1 :: u32) < 2 ^ LENGTH(32)" by simp
  then have "checked_add n 1 = Some (n + 1)" by (simp only: checked_add_def if_True)
  then show ?thesis using unat_checked_add by fastforce
qed

text \<open>What the removal of a request does to its slot.\<close>

lemma remove_request_loads:
  assumes inv: "slot_inv n model_id slot" and request: "bt_get (sl_requests slot) request_id = Some request"
  shows "slot_backend_load slot c = footprint_field (rq_backend_footprint request) c
      + slot_backend_load (slot\<lparr>sl_requests := bt_remove request_id (sl_requests slot)\<rparr>) c"
    "slot_workspace_load slot c = footprint_field (rq_workspace_footprint request) c
      + slot_workspace_load (slot\<lparr>sl_requests := bt_remove request_id (sl_requests slot)\<rparr>) c"
    "bt_len (sl_requests slot) = Suc (bt_len (bt_remove request_id (sl_requests slot)))"
  using bt_total_remove [OF _ request, of "\<lambda>r. footprint_field (rq_backend_footprint r) c"]
    bt_total_remove [OF _ request, of "\<lambda>r. footprint_field (rq_workspace_footprint r) c"]
    bt_len_remove [OF _ request] inv
  by (simp_all add: slot_inv_def slot_backend_load_def slot_workspace_load_def)

lemma drop_slot:
  assumes inv: "slot_inv n model_id slot" and request: "bt_get (sl_requests slot) request_id = Some request"
  obtains reserved action lifecycle slot' where
    "bind_ok (checked_add_footprint (rq_backend_footprint request) (rq_workspace_footprint request))
       (checked_sub_footprint (sl_reserved_footprint slot)) = Inr reserved"
    "finish_request (sl_lifecycle slot) = (Inr action, lifecycle)"
    "slot' = slot\<lparr>sl_requests := bt_remove request_id (sl_requests slot),
       sl_reserved_footprint := reserved, sl_lifecycle := lifecycle\<rparr>"
    "slot_inv n model_id slot'"
    "\<And>c. slot_backend_load slot c
       = footprint_field (rq_backend_footprint request) c + slot_backend_load slot' c"
    "bt_len (sl_requests slot) = Suc (bt_len (sl_requests slot'))"
    "action = ReleaseModel \<longleftrightarrow> lifecycle = Unloading"
proof -
  note loads = remove_request_loads [OF inv request]
  have total: "footprint_field (sl_reserved_footprint slot) c
      = slot_backend_load slot c + slot_workspace_load slot c" for c
    using inv by (simp add: slot_inv_def)
  have "footprint_field (rq_backend_footprint request) c + footprint_field (rq_workspace_footprint request) c
      < 2 ^ 64" for c
    using footprint_field_bound [of "sl_reserved_footprint slot" c] total [of c] loads(1) [of c] loads(2) [of c] by linarith
  from checked_add_footprint_total [OF this] obtain both
    where both: "checked_add_footprint (rq_backend_footprint request) (rq_workspace_footprint request) = Inr both"
    by blast
  then have both_field: "footprint_field both c = footprint_field (rq_backend_footprint request) c
      + footprint_field (rq_workspace_footprint request) c" for c
    by (simp add: checked_add_footprint_iff)
  have "footprint_field both c \<le> footprint_field (sl_reserved_footprint slot) c" for c
    using total [of c] loads(1) [of c] loads(2) [of c] both_field [of c] by linarith
  from checked_sub_footprint_total [OF this] obtain reserved
    where reserved: "checked_sub_footprint (sl_reserved_footprint slot) both = Inr reserved" by blast
  then have rest: "footprint_field (sl_reserved_footprint slot) c
      = footprint_field reserved c + footprint_field both c" for c
    by (simp add: checked_sub_footprint_iff)
  obtain action lifecycle where finish: "finish_request (sl_lifecycle slot) = (Inr action, lifecycle)"
    "lifecycle_wf lifecycle" "resident lifecycle"
    "active_count lifecycle = bt_len (bt_remove request_id (sl_requests slot))"
    "action = ReleaseModel \<longleftrightarrow> lifecycle = Unloading"
    using inv loads(3) by (auto simp: slot_inv_def intro: finish_request_active [of "sl_lifecycle slot"])
  let ?slot' = "slot\<lparr>sl_requests := bt_remove request_id (sl_requests slot),
       sl_reserved_footprint := reserved, sl_lifecycle := lifecycle\<rparr>"
  have "slot_inv n model_id ?slot'"
    using inv finish loads both_field rest total
    by (simp add: slot_inv_def bt_inv_remove)
  then show ?thesis using that [OF _ finish(1) refl] both reserved loads finish(5) by simp
qed

lemma quarantine_slot:
  assumes inv: "slot_inv n model_id slot" and request: "bt_get (sl_requests slot) request_id = Some request"
    and fresh: "bt_get (sl_pending_sequences slot) request_id = None" and n: "n \<noteq> 0"
    and pending: "ps_request_id pending = request_id" "ps_attempts pending = 1"
      "ps_footprint pending = rq_backend_footprint request"
  obtains reserved action lifecycle slot' where
    "checked_sub_footprint (sl_reserved_footprint slot) (rq_workspace_footprint request) = Inr reserved"
    "finish_request (sl_lifecycle slot) = (Inr action, lifecycle)"
    "slot' = slot\<lparr>sl_requests := bt_remove request_id (sl_requests slot),
       sl_reserved_footprint := reserved,
       sl_pending_sequences := bt_insert request_id pending (sl_pending_sequences slot),
       sl_poisoned := True, sl_lifecycle := lifecycle\<rparr>"
    "slot_inv n model_id slot'"
    "\<And>c. slot_backend_load slot' c = slot_backend_load slot c"
    "bt_len (sl_requests slot) = Suc (bt_len (sl_requests slot'))"
    "bt_len (sl_pending_sequences slot') = Suc (bt_len (sl_pending_sequences slot))"
proof -
  note loads = remove_request_loads [OF inv request]
  have maps: "bt_inv (sl_requests slot)" "bt_inv (sl_pending_sequences slot)"
    using inv by (simp_all add: slot_inv_def)
  have total: "footprint_field (sl_reserved_footprint slot) c
      = slot_backend_load slot c + slot_workspace_load slot c" for c
    using inv by (simp add: slot_inv_def)
  have "footprint_field (rq_workspace_footprint request) c \<le> footprint_field (sl_reserved_footprint slot) c" for c
    using total [of c] loads(2) [of c] by linarith
  from checked_sub_footprint_total [OF this] obtain reserved
    where reserved: "checked_sub_footprint (sl_reserved_footprint slot) (rq_workspace_footprint request) = Inr reserved"
    by blast
  then have rest: "footprint_field (sl_reserved_footprint slot) c
      = footprint_field reserved c + footprint_field (rq_workspace_footprint request) c" for c
    by (simp add: checked_sub_footprint_iff)
  obtain action lifecycle where finish: "finish_request (sl_lifecycle slot) = (Inr action, lifecycle)"
    "lifecycle_wf lifecycle" "resident lifecycle"
    "active_count lifecycle = bt_len (bt_remove request_id (sl_requests slot))"
    using inv loads(3) by (auto simp: slot_inv_def intro: finish_request_active [of "sl_lifecycle slot"])
  define slot' where "slot' = slot\<lparr>sl_requests := bt_remove request_id (sl_requests slot),
       sl_reserved_footprint := reserved,
       sl_pending_sequences := bt_insert request_id pending (sl_pending_sequences slot),
       sl_poisoned := True, sl_lifecycle := lifecycle\<rparr>"
  have load: "slot_backend_load slot' c = slot_backend_load slot c" for c
    using loads(1) [of c] pending
    by (simp add: slot_backend_load_def slot'_def bt_total_insert_new [OF maps(2) fresh])
  have workspace: "slot_workspace_load slot c
      = footprint_field (rq_workspace_footprint request) c + slot_workspace_load slot' c" for c
    using loads(2) [of c] by (simp add: slot_workspace_load_def slot'_def)
  have len: "bt_len (sl_pending_sequences slot') = Suc (bt_len (sl_pending_sequences slot))"
    using bt_len_insert_new [OF maps(2) fresh] by (simp add: slot'_def)
  have "footprint_field (sl_reserved_footprint slot') c = slot_backend_load slot' c + slot_workspace_load slot' c" for c
    using total [of c] rest [of c] load [of c] workspace [of c] by (simp add: slot'_def)
  moreover have "\<not> bt_is_empty (sl_pending_sequences slot')" using len by (metis length_0_conv nat.distinct(1))
  ultimately have "slot_inv n model_id slot'"
    using inv finish(2-4) maps n pending
    by (auto simp: slot_inv_def slot'_def bt_inv_remove bt_inv_insert bt_get_insert
        word_le_nat_alt unat_gt_0 Suc_le_eq split: if_splits)
  then show ?thesis using that [OF reserved finish(1) slot'_def] load len loads(3)
    by (simp add: slot'_def)
qed

lemma limit_ok:
  assumes "runtime_inv B s"
  shows "unat (rt_active_requests s) + unat (rt_pending_cleanup_sequences s)
    \<le> unat (rl_maximum_active_requests (rt_limits s))"
  using assms by (simp add: runtime_inv_def registry_counters_def)

lemma quarantine_request_spec:
  assumes inv: "runtime_inv B s" and slot: "bt_get (rt_models s) model_id = Some slot"
    and request: "bt_get (sl_requests slot) request_id = Some request"
    and seq: "seq_id (be_model B) q = seq_id (be_model B) (rq_sequence request)"
  obtains slot' pending s' e where
    "quarantine_request B model_id request_id report (slot\<lparr>sl_model := m\<rparr>)
       (request\<lparr>rq_sequence := q\<rparr>) s = (Inl e, s')"
    "is_cleanup_error e" "runtime_inv B s'" "config s' = config s"
    "rt_models s' = bt_insert model_id slot' (rt_models s)"
    "sl_requests slot' = bt_remove request_id (sl_requests slot)"
    "sl_pending_sequences slot' = bt_insert request_id pending (sl_pending_sequences slot)"
    "rt_request_index s' = bt_remove request_id (rt_request_index s)"
    "rt_pending_models s' = rt_pending_models s"
    "rt_reserved_footprint s' = rt_reserved_footprint s"
    "leaving (sl_lifecycle slot) \<Longrightarrow> leaving (sl_lifecycle slot')"
proof -
  let ?slot = "slot\<lparr>sl_model := m\<rparr>" and ?sid = "seq_id (be_model B) (rq_sequence request)"
  note facts = request_facts [OF inv slot request] and maps = runtime_inv_maps [OF inv]
  define pending where "pending = \<lparr>ps_request_id = request_id, ps_sequence_id = ?sid,
    ps_sequence = q, ps_footprint = rq_backend_footprint request, ps_failure = report,
    ps_attempts = 1\<rparr>"
  have max: "maximum_cleanup_attempts s \<noteq> 0" using inv by (simp add: runtime_inv_def registry_slots_def)
  obtain reserved action lifecycle slot' where step:
    "checked_sub_footprint (sl_reserved_footprint ?slot) (rq_workspace_footprint request) = Inr reserved"
    "finish_request (sl_lifecycle ?slot) = (Inr action, lifecycle)"
    and slot': "slot' = ?slot\<lparr>sl_requests := bt_remove request_id (sl_requests ?slot),
       sl_reserved_footprint := reserved,
       sl_pending_sequences := bt_insert request_id pending (sl_pending_sequences ?slot),
       sl_poisoned := True, sl_lifecycle := lifecycle\<rparr>"
    and slot_inv': "slot_inv (maximum_cleanup_attempts s) model_id slot'"
    and load: "\<And>c. slot_backend_load slot' c = slot_backend_load ?slot c"
    and len: "bt_len (sl_requests ?slot) = Suc (bt_len (sl_requests slot'))"
      "bt_len (sl_pending_sequences slot') = Suc (bt_len (sl_pending_sequences ?slot))"
    by (rule quarantine_slot [of "maximum_cleanup_attempts s" model_id ?slot request_id request pending])
      (use runtime_inv_slot [OF inv slot] request facts(5) max in \<open>simp_all add: pending_def\<close>)
  obtain active where active: "checked_sub (rt_active_requests s) 1 = Some active"
    "unat (rt_active_requests s) = unat active + 1"
    using checked_decrement [OF facts(6)] by blast
  obtain cleanups where cleanups: "checked_add (rt_pending_cleanup_sequences s) 1 = Some cleanups"
    "unat cleanups = unat (rt_pending_cleanup_sequences s) + 1"
    using checked_increment [of "rt_pending_cleanup_sequences s" "rl_maximum_active_requests (rt_limits s)"]
      limit_ok [OF inv] facts(6) by auto
  define s' where "s' = s\<lparr>rt_models := bt_insert model_id slot' (rt_models s),
    rt_request_index := bt_remove request_id (rt_request_index s),
    rt_sequence_index := bt_remove ?sid (rt_sequence_index s),
    rt_pending_request_index := bt_insert request_id model_id (rt_pending_request_index s),
    rt_pending_sequence_index := bt_insert ?sid request_id (rt_pending_sequence_index s),
    rt_active_requests := active, rt_pending_cleanup_sequences := cleanups,
    rt_last_cleanup := Some \<lparr>cr_resource = ResourceSequence model_id request_id ?sid,
      cr_failure = report, cr_attempts = 1, cr_maximum_attempts = maximum_cleanup_attempts s\<rparr>\<rparr>"
  have run: "\<exists>e. quarantine_request B model_id request_id report ?slot (request\<lparr>rq_sequence := q\<rparr>) s
      = (Inl e, s') \<and> is_cleanup_error e"
    using step active(1) cleanups(1) seq
    by (simp add: quarantine_request_def Let_def s'_def slot' pending_def
        maximum_cleanup_attempts_def cleanup_retention_error_def)
  have slot_maps: "bt_get (sl_requests slot') = (bt_get (sl_requests slot))(request_id := None)"
    "bt_get (sl_pending_sequences slot') = (bt_get (sl_pending_sequences slot))(request_id \<mapsto> pending)"
    by (simp_all add: slot' bt_get_remove bt_get_insert)
  have old: "registry_indexes B s" using inv by (simp add: runtime_inv_def)
  have indexes: "registry_indexes B s'"
    by (rule indexes_quarantine [OF old facts(7), where pending = pending])
      (simp_all add: s'_def active_request_put [OF slot slot_maps(1)]
        quarantined_put [OF slot slot_maps(2)] bt_get_remove bt_get_insert facts pending_def)
  have "runtime_inv B s'"
    by (rule replace_slot [OF inv slot slot_inv' _ _ _ _ _ _ _ _ _ indexes])
      (use active cleanups len load limit_ok [OF inv] maps runtime_inv_load [OF inv]
        in \<open>simp_all add: s'_def slot' bt_inv_remove bt_inv_insert\<close>)
  moreover have "leaving (sl_lifecycle slot) \<Longrightarrow> leaving (sl_lifecycle slot')"
    using finish_request_leaving [OF step(2)] by (simp add: slot')
  ultimately show ?thesis using that [of _ s' slot' pending] run
    by (fastforce simp: s'_def config_def slot')
qed

lemma drop_request_spec:
  assumes inv: "runtime_inv B s" and slot: "bt_get (rt_models s) model_id = Some slot"
    and request: "bt_get (sl_requests slot) request_id = Some request"
    and seq: "seq_id (be_model B) q = seq_id (be_model B) (rq_sequence request)"
  obtains slot' s' where
    "drop_request B model_id request_id operation failure (slot\<lparr>sl_model := m\<rparr>)
       (request\<lparr>rq_sequence := q\<rparr>) s
     = (if sl_lifecycle slot' = Unloading then release_model_with_primary B model_id operation failure s'
        else (Inr (), s'))"
    "runtime_inv B s'" "config s' = config s"
    "rt_models s' = bt_insert model_id slot' (rt_models s)"
    "sl_requests slot' = bt_remove request_id (sl_requests slot)"
    "sl_pending_sequences slot' = sl_pending_sequences slot"
    "rt_request_index s' = bt_remove request_id (rt_request_index s)"
    "rt_pending_models s' = rt_pending_models s"
    "rt_pending_request_index s' = rt_pending_request_index s"
    "\<forall>c. footprint_field (rt_reserved_footprint s) c
       = footprint_field (rq_backend_footprint request) c + footprint_field (rt_reserved_footprint s') c"
    "leaving (sl_lifecycle slot) \<Longrightarrow> leaving (sl_lifecycle slot')"
proof -
  let ?slot = "slot\<lparr>sl_model := m\<rparr>" and ?sid = "seq_id (be_model B) (rq_sequence request)"
  note facts = request_facts [OF inv slot request] and maps = runtime_inv_maps [OF inv]
  obtain slot_reserved action lifecycle slot' where step:
    "bind_ok (checked_add_footprint (rq_backend_footprint request) (rq_workspace_footprint request))
       (checked_sub_footprint (sl_reserved_footprint ?slot)) = Inr slot_reserved"
    "finish_request (sl_lifecycle ?slot) = (Inr action, lifecycle)"
    and slot': "slot' = ?slot\<lparr>sl_requests := bt_remove request_id (sl_requests ?slot),
       sl_reserved_footprint := slot_reserved, sl_lifecycle := lifecycle\<rparr>"
    and slot_inv': "slot_inv (maximum_cleanup_attempts s) model_id slot'"
    and load: "\<And>c. slot_backend_load ?slot c
       = footprint_field (rq_backend_footprint request) c + slot_backend_load slot' c"
    and len: "bt_len (sl_requests ?slot) = Suc (bt_len (sl_requests slot'))"
    and action: "action = ReleaseModel \<longleftrightarrow> lifecycle = Unloading"
    by (rule drop_slot [of "maximum_cleanup_attempts s" model_id ?slot request_id request])
      (use runtime_inv_slot [OF inv slot] request in simp_all)
  obtain active where active: "checked_sub (rt_active_requests s) 1 = Some active"
    "unat (rt_active_requests s) = unat active + 1"
    using checked_decrement [OF facts(6)] by blast
  have "footprint_field (rq_backend_footprint request) c \<le> footprint_field (rt_reserved_footprint s) c" for c
    using runtime_inv_load(1) [OF inv, of c] load [of c]
      bt_total_member [OF maps(1) slot, of "\<lambda>slot. slot_backend_load slot c"]
    by (simp add: registry_load_def)
  from checked_sub_footprint_total [OF this] obtain reserved
    where reserved: "checked_sub_footprint (rt_reserved_footprint s) (rq_backend_footprint request) = Inr reserved"
    by blast
  then have fields: "footprint_field (rt_reserved_footprint s) c
      = footprint_field (rq_backend_footprint request) c + footprint_field reserved c" for c
    by (simp add: checked_sub_footprint_iff)
  define s' where "s' = s\<lparr>rt_models := bt_insert model_id slot' (rt_models s),
    rt_request_index := bt_remove request_id (rt_request_index s),
    rt_sequence_index := bt_remove ?sid (rt_sequence_index s),
    rt_active_requests := active, rt_reserved_footprint := reserved\<rparr>"
  have run: "drop_request B model_id request_id operation failure ?slot (request\<lparr>rq_sequence := q\<rparr>) s
     = (if sl_lifecycle slot' = Unloading then release_model_with_primary B model_id operation failure s'
        else (Inr (), s'))"
    using step active(1) reserved seq action
    by (simp add: drop_request_def Let_def s'_def slot')
  have slot_maps: "bt_get (sl_requests slot') = (bt_get (sl_requests slot))(request_id := None)"
    "sl_pending_sequences slot' = sl_pending_sequences slot"
    by (simp_all add: slot' bt_get_remove)
  have old: "registry_indexes B s" using inv by (simp add: runtime_inv_def)
  have indexes: "registry_indexes B s'"
    by (rule indexes_drop [OF old facts(7)])
      (simp_all add: s'_def active_request_put [OF slot slot_maps(1)]
        quarantined_same [OF slot slot_maps(2)] bt_get_remove)
  have budget: "within_budget reserved (rl_memory_budget (rt_limits s))"
    using runtime_inv_load(2) [OF inv] by (rule within_budget_mono) (simp add: fields)
  have "runtime_inv B s'"
    by (rule replace_slot [OF inv slot slot_inv' _ _ _ _ _ _ _ _ _ indexes])
      (use active len load [simplified] limit_ok [OF inv] maps fields budget
        in \<open>simp_all add: s'_def slot' bt_inv_remove\<close>)
  moreover have "leaving (sl_lifecycle slot) \<Longrightarrow> leaving (sl_lifecycle slot')"
    using finish_request_leaving [OF step(2)] by (simp add: slot')
  ultimately show ?thesis using that [of slot' s'] run fields
    by (fastforce simp: s'_def config_def slot')
qed

text \<open>The ways a removal ends. In each of them the request is no longer active.\<close>

definition request_removed ::
    "model_id \<Rightarrow> ('m, 'q) model_slot \<Rightarrow> request_id \<Rightarrow> runtime_error + unit
       \<Rightarrow> ('ld, 'm, 'q) runtime \<Rightarrow> ('ld, 'm, 'q) runtime \<Rightarrow> bool" where
  "request_removed model_id slot request_id r s s' \<longleftrightarrow>
     config s' = config s \<and> rt_request_index s' = bt_remove request_id (rt_request_index s)
     \<and> (\<forall>other. other \<noteq> model_id \<longrightarrow> bt_get (rt_models s') other = bt_get (rt_models s) other
          \<and> bt_get (rt_pending_models s') other = bt_get (rt_pending_models s) other)
     \<and> (case bt_get (rt_models s') model_id of
          None \<Rightarrow> r = Inr () \<or> (\<exists>e. r = Inl e \<and> is_cleanup_error e
             \<and> bt_contains (rt_pending_models s') model_id)
        | Some slot' \<Rightarrow> sl_requests slot' = bt_remove request_id (sl_requests slot)
            \<and> (leaving (sl_lifecycle slot) \<longrightarrow> leaving (sl_lifecycle slot'))
            \<and> (r = Inr () \<and> sl_lifecycle slot' \<noteq> Unloading
               \<or> (\<exists>e. r = Inl e \<and> is_cleanup_error e \<and> bt_contains (sl_pending_sequences slot') request_id)
               \<or> r = Inl (RuntimeLifecycle InvalidTransition) \<and> sl_lifecycle slot' = Unloading
                  \<and> bt_is_empty (sl_requests slot')
                  \<and> \<not> bt_is_empty (sl_pending_sequences slot)))"

lemma indexed_request:
  assumes inv: "runtime_inv B s" and index: "bt_get (rt_request_index s) request_id = Some model_id"
  obtains slot request where "bt_get (rt_models s) model_id = Some slot"
    "bt_get (sl_requests slot) request_id = Some request"
proof -
  have "active_request (rt_models s) model_id request_id \<noteq> None"
    using inv index by (simp add: runtime_inv_def registry_indexes_def owner_index_def)
  then show ?thesis using that by (auto simp: active_request_def split: option.splits)
qed

lemma unloading_no_requests:
  assumes "slot_inv n model_id slot" and "sl_lifecycle slot = Unloading"
  shows "bt_is_empty (sl_requests slot)"
  using assms by (simp add: slot_inv_def)

lemma drop_request_removes:
  assumes inv: "runtime_inv B s" and slot: "bt_get (rt_models s) model_id = Some slot"
    and request: "bt_get (sl_requests slot) request_id = Some request"
    and seq: "seq_id (be_model B) q = seq_id (be_model B) (rq_sequence request)"
    and drop: "drop_request B model_id request_id operation failure (slot\<lparr>sl_model := m\<rparr>)
       (request\<lparr>rq_sequence := q\<rparr>) s = (r, s')"
  shows "runtime_inv B s'" "request_removed model_id slot request_id r s s'"
    "rt_pending_request_index s' = rt_pending_request_index s"
proof -
  obtain slot' s1 where run: "(r, s') = (if sl_lifecycle slot' = Unloading
        then release_model_with_primary B model_id operation failure s1 else (Inr (), s1))"
    and inv1: "runtime_inv B s1" and same: "config s1 = config s"
      "rt_request_index s1 = bt_remove request_id (rt_request_index s)"
      "rt_pending_models s1 = rt_pending_models s"
      "rt_pending_request_index s1 = rt_pending_request_index s"
    and models: "rt_models s1 = bt_insert model_id slot' (rt_models s)"
    and slot': "sl_requests slot' = bt_remove request_id (sl_requests slot)"
      "sl_pending_sequences slot' = sl_pending_sequences slot"
      "leaving (sl_lifecycle slot) \<longrightarrow> leaving (sl_lifecycle slot')"
    by (rule drop_request_spec [OF inv slot request seq, of operation failure m]) (use drop in metis)
  have "runtime_inv B s' \<and> request_removed model_id slot request_id r s s'
    \<and> rt_pending_request_index s' = rt_pending_request_index s"
  proof (cases "sl_lifecycle slot' = Unloading")
    case False
    with run inv1 same models slot' show ?thesis by (simp add: request_removed_def bt_get_insert)
  next
    case True
    with run have release: "release_model_with_primary B model_id operation failure s1 = (r, s')" by simp
    note spec = release_spec [OF inv1 release]
    have empty: "bt_is_empty (sl_requests slot')"
      using True unloading_no_requests runtime_inv_slot [OF inv1, of model_id slot']
      by (simp add: models bt_get_insert)
    from spec(5) show ?thesis
    proof (elim disjE)
      assume "released model_id r s1 s'"
      with spec same models show ?thesis
        by (simp add: request_removed_def released_def bt_get_insert bt_get_remove)
    next
      assume "quarantined_model model_id r s1 s'"
      with spec same models show ?thesis
        by (auto simp: request_removed_def quarantined_model_def bt_get_insert bt_get_remove)
    next
      assume "release_refused model_id r s1 s'"
      with inv1 same models slot' True empty show ?thesis
        by (simp add: request_removed_def release_refused_def bt_get_insert idle_unloading_def)
    qed
  qed
  then show "runtime_inv B s'" "request_removed model_id slot request_id r s s'"
    "rt_pending_request_index s' = rt_pending_request_index s" by blast+
qed

lemma remove_request_spec:
  assumes inv: "runtime_inv B s" and stable: "stable_ids B"
    and slot: "bt_get (rt_models s) model_id = Some slot"
    and request: "bt_get (sl_requests slot) request_id = Some request"
    and remove: "remove_request B request_id operation failure s = (r, s')"
  shows "runtime_inv B s'" "request_removed model_id slot request_id r s s'"
proof -
  obtain d m q where destroy: "lm_destroy_sequence (be_model B) (sl_model slot) (rq_sequence request) = (d, m, q)"
    by (metis prod_cases3)
  note seq = stable_destroy [OF stable destroy]
  have index: "bt_get (rt_request_index s) request_id = Some model_id"
    by (rule request_facts [OF inv slot request])
  note remove_def = remove_request_def request_model_id_def index slot request destroy
  have "runtime_inv B s' \<and> request_removed model_id slot request_id r s s'"
  proof (cases d)
    case (Inr u)
    with remove have "drop_request B model_id request_id operation failure (slot\<lparr>sl_model := m\<rparr>)
        (request\<lparr>rq_sequence := q\<rparr>) s = (r, s')"
      by (simp add: remove_def)
    then show ?thesis using drop_request_removes [OF inv slot request seq] by blast
  next
    case (Inl cleanup)
    let ?report = "\<lparr>cf_primary_operation = operation, cf_primary_failure = failure,
      cf_cleanup_operation = OpSequenceDestruction,
      cf_cleanup_failure = runtime_failure_class (RuntimeSequence cleanup)\<rparr>"
    obtain slot' pending s1 e where "quarantine_request B model_id request_id ?report
        (slot\<lparr>sl_model := m\<rparr>) (request\<lparr>rq_sequence := q\<rparr>) s = (Inl e, s1)"
      "is_cleanup_error e" "runtime_inv B s1" "config s1 = config s"
      "rt_models s1 = bt_insert model_id slot' (rt_models s)"
      "sl_requests slot' = bt_remove request_id (sl_requests slot)"
      "sl_pending_sequences slot' = bt_insert request_id pending (sl_pending_sequences slot)"
      "rt_request_index s1 = bt_remove request_id (rt_request_index s)"
      "rt_pending_models s1 = rt_pending_models s"
      "leaving (sl_lifecycle slot) \<longrightarrow> leaving (sl_lifecycle slot')"
      by (rule quarantine_request_spec [OF inv slot request seq]) blast
    with remove Inl show ?thesis
      by (simp add: remove_def request_removed_def bt_get_insert)
  qed
  then show "runtime_inv B s'" "request_removed model_id slot request_id r s s'" by blast+
qed

lemma remove_request_inactive:
  assumes "bt_get (rt_request_index s) request_id = None"
  shows "remove_request B request_id operation failure s = (Inl (RequestNotActive request_id), s)"
  using assms by (simp add: remove_request_def request_model_id_def)

lemma remove_request_inv:
  assumes inv: "runtime_inv B s" and stable: "stable_ids B"
    and remove: "remove_request B request_id operation failure s = (r, s')"
  shows "runtime_inv B s'" "config s' = config s"
proof -
  have "runtime_inv B s' \<and> config s' = config s"
  proof (cases "bt_get (rt_request_index s) request_id")
    case None
    with remove inv show ?thesis by (simp add: remove_request_inactive)
  next
    case (Some model_id)
    then obtain slot request where "bt_get (rt_models s) model_id = Some slot"
      "bt_get (sl_requests slot) request_id = Some request" by (rule indexed_request [OF inv])
    from remove_request_spec [OF inv stable this remove] show ?thesis
      by (simp add: request_removed_def)
  qed
  then show "runtime_inv B s'" "config s' = config s" by blast+
qed

end
