(* ===== verification/Registry_Admission.thy ===== *)
theory Registry_Admission
  imports Registry_Steps
begin

section \<open>Admission keeps the registry invariant\<close>

text \<open>
  Loading a model, starting a request with or without a generation workspace, releasing a
  workspace, and the checked prefill and decode steps, each on every branch.
\<close>

subsection \<open>Loading\<close>

lemma runtime_inv_loader [simp]: "runtime_inv B (s\<lparr>rt_loader := l\<rparr>) = runtime_inv B s"
  by (simp add: runtime_inv_defs registry_indexes_def maximum_cleanup_attempts_def)

lemma new_slot_indexes:
  assumes "bt_get models model_id = None"
    and "sl_requests slot = bt_empty" and "sl_pending_sequences slot = bt_empty"
  shows "active_request (bt_insert model_id slot models) = active_request models"
    "quarantined_sequence (bt_insert model_id slot models) = quarantined_sequence models"
  using assms
  by (auto simp: fun_eq_iff active_request_def quarantined_sequence_def bt_get_insert bt_get_empty)

lemma admit_model_memory:
  assumes inv: "runtime_inv B s"
    and admit: "admit_footprint (rt_reserved_footprint s) footprint (rl_memory_budget (rt_limits s)) = Inr next"
  shows "footprint_field next c = registry_load s c + footprint_field footprint c"
    "within_budget next (rl_memory_budget (rt_limits s))"
  using admit runtime_inv_load(1) [OF inv] by (simp_all add: admit_footprint_iff)

lemma insert_slot_inv:
  assumes inv: "runtime_inv B s" and fresh: "bt_get (rt_models s) model_id = None"
      "bt_get (rt_pending_models s) model_id = None"
    and room: "bt_len (rt_models s) + bt_len (rt_pending_models s)
      < unat (rl_maximum_loaded_models (rt_limits s))"
    and admit: "admit_footprint (rt_reserved_footprint s) (sl_model_footprint slot)
      (rl_memory_budget (rt_limits s)) = Inr next"
    and slot: "mh_id (sl_handle slot) = model_id" "mh_generation (sl_handle slot) = g" "sl_lifecycle slot = Ready"
      "sl_reserved_footprint slot = sl_model_footprint slot" "sl_requests slot = bt_empty"
      "sl_pending_sequences slot = bt_empty" "\<not> sl_poisoned slot"
  shows "runtime_inv B (s\<lparr>rt_loader := l, rt_models := bt_insert model_id slot (rt_models s),
    rt_generations := bt_insert model_id g (rt_generations s), rt_reserved_footprint := next\<rparr>)"
proof -
  let ?s = "s\<lparr>rt_loader := l, rt_models := bt_insert model_id slot (rt_models s),
    rt_generations := bt_insert model_id g (rt_generations s), rt_reserved_footprint := next\<rparr>"
  note m = runtime_inv_maps [OF inv] and total = bt_total_insert_new [OF runtime_inv_maps(1) [OF inv] fresh(1)]
  have load: "slot_backend_load slot c = footprint_field (sl_model_footprint slot) c" for c
    by (simp add: slot_backend_load_def slot)
  have "slot_inv (maximum_cleanup_attempts s) model_id slot"
    by (simp add: slot_inv_def slot load slot_workspace_load_def bt_inv_empty bt_entries_empty bt_get_empty)
  then have "registry_slots ?s"
    using inv fresh by (auto simp: runtime_inv_def registry_slots_def maximum_cleanup_attempts_def
        bt_get_insert slot)
  moreover have "registry_memory ?s"
    using admit_model_memory [OF inv admit]
    by (simp add: registry_memory_def registry_load_def total load)
  moreover have "registry_counters ?s"
    using inv room bt_len_insert_new [OF m(1) fresh(1), of slot]
    by (simp add: runtime_inv_def registry_counters_def total slot bt_entries_empty)
  moreover have "registry_indexes B ?s"
    using inv by (simp add: runtime_inv_def registry_indexes_def new_slot_indexes [OF fresh(1)] slot)
  ultimately show ?thesis using m by (simp add: runtime_inv_def registry_maps_def bt_inv_insert)
qed

lemma insert_pending_model_inv:
  assumes inv: "runtime_inv B s" and fresh: "bt_get (rt_models s) model_id = None"
      "bt_get (rt_pending_models s) model_id = None"
    and room: "bt_len (rt_models s) + bt_len (rt_pending_models s)
      < unat (rl_maximum_loaded_models (rt_limits s))"
    and admit: "admit_footprint (rt_reserved_footprint s) (pm_footprint pending)
      (rl_memory_budget (rt_limits s)) = Inr next"
    and attempts: "pm_attempts pending = 1"
  shows "runtime_inv B (s\<lparr>rt_loader := l,
    rt_pending_models := bt_insert model_id pending (rt_pending_models s),
    rt_generations := bt_insert model_id g (rt_generations s), rt_reserved_footprint := next,
    rt_last_cleanup := state\<rparr>)"
proof -
  let ?s = "s\<lparr>rt_loader := l, rt_pending_models := bt_insert model_id pending (rt_pending_models s),
    rt_generations := bt_insert model_id g (rt_generations s), rt_reserved_footprint := next,
    rt_last_cleanup := state\<rparr>"
  note m = runtime_inv_maps [OF inv] and total = bt_total_insert_new [OF runtime_inv_maps(2) [OF inv] fresh(2)]
  have "1 \<le> maximum_cleanup_attempts s"
    using inv by (simp add: runtime_inv_def registry_slots_def word_le_nat_alt unat_gt_0 Suc_le_eq)
  then have "registry_slots ?s"
    using inv fresh attempts by (auto simp: runtime_inv_def registry_slots_def
        maximum_cleanup_attempts_def bt_get_insert)
  moreover have "registry_memory ?s"
    using admit_model_memory [OF inv admit]
    by (simp add: registry_memory_def registry_load_def total)
  moreover have "registry_counters ?s"
    using inv room bt_len_insert_new [OF m(2) fresh(2), of pending]
    by (simp add: runtime_inv_def registry_counters_def)
  moreover have "registry_indexes B ?s"
    using inv by (simp add: runtime_inv_def registry_indexes_def)
  ultimately show ?thesis using m by (simp add: runtime_inv_def registry_maps_def bt_inv_insert)
qed

lemma load_room:
  assumes "\<not> unat (maximum :: u32) \<le> usize_saturating_add a b"
  shows "a + b < unat maximum"
proof -
  have "unat maximum < 2 ^ LENGTH(32)" by (rule unsigned_less)
  with assms show ?thesis by (simp add: usize_saturating_add_def usize_max_def min_def split: if_splits)
qed

text \<open>How a load ends: refused before the backend loads, failed in the backend, rejected
  and quarantined or given back, or resident with a new generation.\<close>

lemma next_handle_Inr:
  assumes "next_handle s model_id = Inr handle"
  shows "mh_id handle = model_id"
    "unat (model_generation_get (mh_generation handle))
      = (case bt_get (rt_generations s) model_id of
           None \<Rightarrow> 0 | Some generation \<Rightarrow> unat (model_generation_get generation)) + 1"
  using assms by (auto simp: next_handle_def Let_def bind_ok_Inr split: option.splits dest: unat_checked_add)

lemma load_model_inv:
  assumes inv: "runtime_inv B s" and load: "runtime_load_model B model_id source device kind s = (r, s')"
  shows "runtime_inv B s'"
  using load inv load_room [of "rl_maximum_loaded_models (rt_limits s)" "bt_len (rt_models s)"
      "bt_len (rt_pending_models s)"] next_handle_Inr(1) [of s model_id]
  by (auto simp: runtime_load_model_def Let_def
      split: sum.splits prod.splits if_splits
      intro!: insert_slot_inv insert_pending_model_inv)

subsection \<open>Starting a request\<close>

lemma saturating_room:
  fixes a b k :: u32
  assumes "\<not> k \<le> saturating_add a b"
  shows "unat a + unat b < unat k"
proof -
  have "unat k < 2 ^ LENGTH(32)" by (rule unsigned_less)
  with assms show ?thesis
    unfolding word_le_nat_alt unat_saturating_add by (simp add: min_def split: if_splits)
qed

lemma exact_model_Inr:
  "exact_model s handle = Inr slot \<longleftrightarrow>
     bt_get (rt_models s) (mh_id handle) = Some slot \<and> sl_handle slot = handle"
  by (auto simp: exact_model_def split: option.splits)

text \<open>What the checks of an admission establish.\<close>

lemma plan_admission_Inr:
  assumes "plan_admission B handle request_id sequence_id configuration workspace expected s = Inr (slot, a)"
  shows "bt_get (rt_models s) (mh_id handle) = Some slot" "sl_handle slot = handle"
    "\<not> rt_shutting_down s" "\<not> sl_poisoned slot"
    "bt_get (rt_request_index s) request_id = None"
    "bt_get (rt_pending_request_index s) request_id = None"
    "bt_get (rt_sequence_index s) sequence_id = None"
    "bt_get (rt_pending_sequence_index s) sequence_id = None"
    "unat (rt_active_requests s) + unat (rt_pending_cleanup_sequences s)
       < unat (rl_maximum_active_requests (rt_limits s))"
    "checked_add (rt_active_requests s) 1 = Some (ad_next_active_requests a)"
    "bt_get (sl_requests slot) request_id = None"
    "bt_len (sl_requests slot) + bt_len (sl_pending_sequences slot)
       < unat (mc_maximum_sequences (desc_capabilities (sl_descriptor slot)))"
    "sp_configuration (ad_slot_plan a) = configuration"
    "checked_add_footprint (sp_expected_footprint (ad_slot_plan a)) workspace
       = Inr (ad_committed_footprint a)"
    "admit_footprint (rt_reserved_footprint s) (sp_expected_footprint (ad_slot_plan a))
       (rl_memory_budget (rt_limits s)) = Inr (ad_backend_next_reserved a)"
    "admit_footprint (rt_reserved_footprint s) (ad_committed_footprint a)
       (rl_memory_budget (rt_limits s)) = Inr (ad_committed_next_reserved a)"
    "checked_add_footprint (sl_reserved_footprint slot) (sp_expected_footprint (ad_slot_plan a))
       = Inr (ad_backend_next_slot_reserved a)"
    "checked_add_footprint (sl_reserved_footprint slot) (ad_committed_footprint a)
       = Inr (ad_committed_next_slot_reserved a)"
    "if expected = None then ad_next_generation_workspace a = rt_reserved_generation_workspace s
     else checked_add_footprint (rt_reserved_generation_workspace s) workspace
       = Inr (ad_next_generation_workspace a)"
  using assms
  by (auto simp: plan_admission_def bind_ok_Inr exact_model_Inr reject_if_shutting_down_def
      dest: load_room saturating_room split: if_splits option.splits)

lemma put_model_inv:
  assumes inv: "runtime_inv B s" and slot: "bt_get (rt_models s) model_id = Some slot"
  shows "runtime_inv B (put_slot model_id (slot\<lparr>sl_model := m\<rparr>) s)"
proof -
  have old: "registry_indexes B s" using inv by (simp add: runtime_inv_def)
  have indexes: "registry_indexes B (put_slot model_id (slot\<lparr>sl_model := m\<rparr>) s)"
    by (rule indexes_same [OF old]) (simp_all add: held_same [OF slot])
  show ?thesis
    by (rule replace_slot [where slot' = "slot\<lparr>sl_model := m\<rparr>", OF inv slot _ _ _ _ _ _ _ _ _ _ indexes])
      (use runtime_inv_slot [OF inv slot] limit_ok [OF inv] runtime_inv_load [OF inv]
        runtime_inv_maps [OF inv] in simp_all)
qed

lemma abort_admission_inv:
  assumes inv: "runtime_inv B s" and slot: "bt_get (rt_models s) model_id = Some slot"
    and free: "bt_get (rt_request_index s) request_id = None"
      "bt_get (rt_pending_request_index s) request_id = None"
      "bt_get (rt_sequence_index s) sequence_id = None"
      "bt_get (rt_pending_sequence_index s) sequence_id = None"
    and room: "unat (rt_active_requests s) + unat (rt_pending_cleanup_sequences s)
       < unat (rl_maximum_active_requests (rt_limits s))"
    and admit: "admit_footprint (rt_reserved_footprint s) footprint
       (rl_memory_budget (rt_limits s)) = Inr next_reserved"
      "checked_add_footprint (sl_reserved_footprint slot) footprint = Inr next_slot_reserved"
    and abort: "abort_admission B model_id request_id sequence_id primary footprint next_slot_reserved
       next_reserved (slot\<lparr>sl_model := m\<rparr>) q s = (r, s')"
  shows "runtime_inv B s'" "config s' = config s" "rt_request_index s' = rt_request_index s"
    "\<exists>e. r = Inl e"
proof -
  obtain d m' q' where destroy: "lm_destroy_sequence (be_model B) m q = (d, m', q')"
    by (metis prod_cases3)
  note maps = runtime_inv_maps [OF inv]
  have "runtime_inv B s' \<and> config s' = config s \<and> rt_request_index s' = rt_request_index s \<and> (\<exists>e. r = Inl e)"
  proof (cases d)
    case (Inr u)
    with abort destroy put_model_inv [OF inv slot] show ?thesis
      by (auto simp: abort_admission_def config_def)
  next
    case (Inl cleanup)
    obtain cleanups where cleanups: "checked_add (rt_pending_cleanup_sequences s) 1 = Some cleanups"
      "unat cleanups = unat (rt_pending_cleanup_sequences s) + 1"
      using checked_increment [of "rt_pending_cleanup_sequences s" "rl_maximum_active_requests (rt_limits s)"]
        room by auto
    obtain pending slot' where s': "rt_models s' = bt_insert model_id slot' (rt_models s)"
        "rt_pending_request_index s' = bt_insert request_id model_id (rt_pending_request_index s)"
        "rt_pending_sequence_index s' = bt_insert sequence_id request_id (rt_pending_sequence_index s)"
        "rt_pending_cleanup_sequences s' = cleanups" "rt_reserved_footprint s' = next_reserved"
        "rt_request_index s' = rt_request_index s" "rt_sequence_index s' = rt_sequence_index s"
        "rt_active_requests s' = rt_active_requests s" "rt_pending_models s' = rt_pending_models s"
      and same: "config s' = config s"
      and slot': "slot' = slot\<lparr>sl_model := m',
         sl_pending_sequences := bt_insert request_id pending (sl_pending_sequences slot),
         sl_reserved_footprint := next_slot_reserved, sl_poisoned := True\<rparr>"
      and pending: "ps_request_id pending = request_id" "ps_sequence_id pending = sequence_id"
        "ps_footprint pending = footprint" "ps_attempts pending = 1"
      and r: "\<exists>e. r = Inl e"
      using abort destroy Inl cleanups(1) by (auto simp: abort_admission_def Let_def config_def)
    have old: "registry_indexes B s" using inv by (simp add: runtime_inv_def)
    have "quarantined_sequence (rt_models s) model_id request_id = None"
      using old free(2) by (metis registry_indexes_def owner_index_def option.distinct(1))
    then have fresh: "bt_get (sl_pending_sequences slot) request_id = None"
      by (simp add: quarantined_sequence_def slot)
    have slot_inv: "slot_inv (maximum_cleanup_attempts s) model_id slot"
      using runtime_inv_slot [OF inv slot] .
    then have pending_inv: "bt_inv (sl_pending_sequences slot)" by (simp add: slot_inv_def)
    have load: "slot_backend_load slot' c = slot_backend_load slot c + footprint_field footprint c" for c
      by (simp add: slot_backend_load_def slot' bt_total_insert_new [OF pending_inv fresh] pending)
    have "1 \<le> maximum_cleanup_attempts s"
      using inv by (simp add: runtime_inv_def registry_slots_def word_le_nat_alt unat_gt_0 Suc_le_eq)
    moreover have len: "bt_len (sl_pending_sequences slot') = Suc (bt_len (sl_pending_sequences slot))"
      using bt_len_insert_new [OF pending_inv fresh] by (simp add: slot')
    then have "\<not> bt_is_empty (sl_pending_sequences slot')" by (metis length_0_conv nat.distinct(1))
    ultimately have slot_inv': "slot_inv (maximum_cleanup_attempts s) model_id slot'"
      using slot_inv load admit(2) pending
      by (auto simp: slot_inv_def slot' bt_inv_insert bt_get_insert checked_add_footprint_iff
          slot_workspace_load_def split: if_splits)
    have "bt_get (sl_pending_sequences slot') = (bt_get (sl_pending_sequences slot))(request_id \<mapsto> pending)"
      "sl_requests slot' = sl_requests slot"
      by (simp_all add: slot' bt_get_insert)
    note put = quarantined_put [OF slot this(1)] active_request_same [OF slot this(2)]
    have indexes: "registry_indexes B s'"
      by (rule indexes_abort [OF old, where pending = pending and request_id = request_id])
        (simp_all add: s' put bt_get_insert free pending)
    have "runtime_inv B s'"
      by (rule replace_slot [OF inv slot slot_inv' _ s'(1) s'(9) _ _ _ _ _ _ indexes])
        (use maps admit(1) load len cleanups(2) room config_eq [OF same] runtime_inv_load [OF inv]
          in \<open>simp_all add: s' slot' bt_inv_insert admit_footprint_iff\<close>)
    with r same s' show ?thesis by simp
  qed
  then show "runtime_inv B s'" "config s' = config s" "rt_request_index s' = rt_request_index s"
    "\<exists>e. r = Inl e" by blast+
qed

lemma commit_admission_inv:
  assumes inv: "runtime_inv B s"
    and plan: "plan_admission B handle request_id sequence_id configuration workspace expected s = Inr (slot, a)"
    and reservation: "expected = None \<longrightarrow> workspace = footprint_default"
    and start: "start_request (sl_lifecycle slot) = (Inr action, lifecycle)"
    and seq: "seq_id (be_model B) q = sequence_id"
  shows "runtime_inv B (snd (commit_admission (mh_id handle) request_id sequence_id workspace a
    (slot\<lparr>sl_model := m, sl_lifecycle := lifecycle\<rparr>) q s))"
proof -
  note p = plan_admission_Inr [OF plan] and maps = runtime_inv_maps [OF inv]
  let ?id = "mh_id handle"
  define request where "request = \<lparr>rq_sequence = q,
    rq_backend_footprint = sp_expected_footprint (ad_slot_plan a),
    rq_workspace_footprint = workspace, rq_usage = generation_usage_default\<rparr>"
  define slot' where "slot' = slot\<lparr>sl_model := m, sl_lifecycle := lifecycle,
    sl_requests := bt_insert request_id request (sl_requests slot),
    sl_reserved_footprint := ad_committed_next_slot_reserved a\<rparr>"
  define s' where "s' = s\<lparr>rt_models := bt_insert ?id slot' (rt_models s),
    rt_request_index := bt_insert request_id ?id (rt_request_index s),
    rt_sequence_index := bt_insert sequence_id request_id (rt_sequence_index s),
    rt_active_requests := ad_next_active_requests a,
    rt_reserved_footprint := ad_committed_next_reserved a,
    rt_generation_workspaces := ad_next_generation_workspaces a,
    rt_reserved_generation_workspace := ad_next_generation_workspace a\<rparr>"
  have s'_eq: "snd (commit_admission ?id request_id sequence_id workspace a
      (slot\<lparr>sl_model := m, sl_lifecycle := lifecycle\<rparr>) q s) = s'"
    by (simp add: commit_admission_def Let_def s'_def slot'_def request_def)
  have slot_inv: "slot_inv (maximum_cleanup_attempts s) ?id slot"
    using runtime_inv_slot [OF inv p(1)] .
  then have requests: "bt_inv (sl_requests slot)" by (simp add: slot_inv_def)
  have load: "slot_backend_load slot' c
      = slot_backend_load slot c + footprint_field (sp_expected_footprint (ad_slot_plan a)) c" for c
    by (simp add: slot_backend_load_def slot'_def bt_total_insert_new [OF requests p(11)] request_def)
  have workspace_load: "slot_workspace_load slot' c
      = slot_workspace_load slot c + footprint_field workspace c" for c
    by (simp add: slot_workspace_load_def slot'_def bt_total_insert_new [OF requests p(11)] request_def)
  have len: "bt_len (sl_requests slot') = Suc (bt_len (sl_requests slot))"
    using bt_len_insert_new [OF requests p(11)] by (simp add: slot'_def)
  have lifecycle: "lifecycle_wf lifecycle \<and> resident lifecycle
      \<and> active_count lifecycle = Suc (active_count (sl_lifecycle slot))"
    using start_request_active [OF start] slot_inv by (simp add: slot_inv_def)
  have slot_inv': "slot_inv (maximum_cleanup_attempts s) ?id slot'"
    using slot_inv load workspace_load len lifecycle p(14,18)
    by (simp add: slot_inv_def slot'_def bt_inv_insert checked_add_footprint_iff)
  have old: "registry_indexes B s" using inv by (simp add: runtime_inv_def)
  have "bt_get (sl_requests slot') = (bt_get (sl_requests slot))(request_id \<mapsto> request)"
    "sl_pending_sequences slot' = sl_pending_sequences slot"
    by (simp_all add: slot'_def bt_get_insert)
  note put = active_request_put [OF p(1) this(1)] quarantined_same [OF p(1) this(2)]
  have indexes: "registry_indexes B s'"
    by (rule indexes_admit [OF old, where request = request and request_id = request_id])
      (simp_all add: s'_def put bt_get_insert p(5-8) request_def seq)
  have workspace_total: "footprint_field (ad_next_generation_workspace a) c
      = footprint_field (rt_reserved_generation_workspace s) c + footprint_field workspace c" for c
    using p(19) reservation by (auto simp: checked_add_footprint_iff split: if_splits)
  have committed: "footprint_field (ad_committed_next_reserved a) c
      = footprint_field (rt_reserved_footprint s) c
        + footprint_field (sp_expected_footprint (ad_slot_plan a)) c + footprint_field workspace c" for c
    using p(14,16) by (simp add: checked_add_footprint_iff admit_footprint_iff)
  have "runtime_inv B s'"
    by (rule replace_slot [OF inv p(1) slot_inv' _ _ _ _ _ _ _ _ _ indexes])
      (use maps p(9,16) unat_checked_add [OF p(10)] load len workspace_total committed
        in \<open>simp_all add: s'_def slot'_def bt_inv_insert admit_footprint_iff\<close>)
  then show ?thesis by (simp add: s'_eq)
qed

lemma start_request_inv:
  assumes inv: "runtime_inv B s" and reservation: "expected = None \<longrightarrow> workspace = footprint_default"
    and start: "start_request_with_reservation B handle request_id sequence_id configuration
      workspace expected s = (r, s')"
  shows "runtime_inv B s'"
proof (cases "plan_admission B handle request_id sequence_id configuration workspace expected s")
  case (Inl e)
  with start inv show ?thesis by (simp add: start_request_with_reservation_def)
next
  case (Inr planned)
  obtain slot a where "planned = (slot, a)" by fastforce
  with Inr have plan: "plan_admission B handle request_id sequence_id configuration workspace expected s = Inr (slot, a)"
    by simp
  note p = plan_admission_Inr [OF plan]
  note abort = abort_admission_inv(1) [OF inv p(1,5,6,7,8,9,15,17)]
  obtain c m where create: "lm_create_sequence (be_model B) (sl_model slot) sequence_id configuration = (c, m)"
    by fastforce
  show ?thesis
  proof (cases c)
    case (Inl e)
    with start plan create put_model_inv [OF inv p(1)] show ?thesis
      by (auto simp: start_request_with_reservation_def)
  next
    case (Inr q)
    let ?id = "mh_id handle"
    show ?thesis
    proof (cases "seq_id (be_model B) q \<noteq> sequence_id
        \<or> bs_token_capacity (lm_sequence (be_model B)) q \<noteq> unat (sc_maximum_tokens (sp_configuration (ad_slot_plan a)))")
      case True
      with start plan create Inr show ?thesis
        by (intro abort) (auto simp: start_request_with_reservation_def Let_def)
    next
      case False
      then have seq: "seq_id (be_model B) q = sequence_id" by simp
      obtain l lifecycle where step: "start_request (sl_lifecycle slot) = (l, lifecycle)" by fastforce
      show ?thesis
      proof (cases l)
        case (Inl e)
        from step Inl have "lifecycle = sl_lifecycle slot"
          using lifecycle_error_frame [of StartRequest] by simp
        then have "slot\<lparr>sl_model := m, sl_lifecycle := lifecycle\<rparr> = slot\<lparr>sl_model := m\<rparr>" by simp
        with start plan create Inr False step Inl show ?thesis
          by (intro abort) (auto simp: start_request_with_reservation_def Let_def)
      next
        case (Inr action)
        with step have "start_request (sl_lifecycle slot) = (Inr action, lifecycle)" by simp
        from commit_admission_inv [OF inv plan reservation this seq, of m]
        show ?thesis using start plan create \<open>c = Inr q\<close> False step Inr
          by (auto simp: start_request_with_reservation_def Let_def apfst_def map_prod_def split: prod.splits)
      qed
    qed
  qed
qed

subsection \<open>Generation workspaces\<close>

lemma release_workspace_inv:
  assumes inv: "runtime_inv B s" and release: "release_generation_workspace footprint s = (r, s')"
  shows "runtime_inv B s'"
proof (cases r)
  case (Inl e)
  with release inv show ?thesis
    by (auto simp: release_generation_workspace_def split: option.splits sum.splits)
next
  case (Inr u)
  with release obtain n workspace reserved where
      sub: "checked_sub_footprint (rt_reserved_generation_workspace s) footprint = Inr workspace"
        "checked_sub_footprint (rt_reserved_footprint s) footprint = Inr reserved"
    and s': "s' = s\<lparr>rt_generation_workspaces := n, rt_reserved_generation_workspace := workspace,
      rt_reserved_footprint := reserved\<rparr>"
    by (auto simp: release_generation_workspace_def split: option.splits sum.splits)
  have "footprint_field reserved c = registry_load s' c" for c
    using sub runtime_inv_load(1) [OF inv, of c]
    by (simp add: checked_sub_footprint_iff registry_load_def s')
  moreover have "within_budget reserved (rl_memory_budget (rt_limits s))"
    using runtime_inv_load(2) [OF inv] by (rule within_budget_mono)
      (use sub in \<open>simp add: checked_sub_footprint_iff\<close>)
  ultimately have "registry_memory s'" by (simp add: registry_memory_def s')
  with inv show ?thesis
    by (simp add: runtime_inv_def registry_maps_def registry_slots_def registry_counters_def
        registry_indexes_def maximum_cleanup_attempts_def s')
qed

subsection \<open>Prefill and decode\<close>

lemma put_request_inv:
  assumes inv: "runtime_inv B s" and slot: "bt_get (rt_models s) model_id = Some slot"
    and request: "bt_get (sl_requests slot) request_id = Some request"
    and seq: "request_sequence B request' = request_sequence B request"
    and same: "rq_backend_footprint request' = rq_backend_footprint request"
      "rq_workspace_footprint request' = rq_workspace_footprint request"
  shows "runtime_inv B (put_request model_id (slot\<lparr>sl_model := m\<rparr>) request_id request' s)"
    "config (put_request model_id (slot\<lparr>sl_model := m\<rparr>) request_id request' s) = config s"
proof -
  define slot' where "slot' = slot\<lparr>sl_model := m,
    sl_requests := bt_insert request_id request' (sl_requests slot)\<rparr>"
  let ?s = "put_slot model_id slot' s"
  have slot_inv: "slot_inv (maximum_cleanup_attempts s) model_id slot"
    using runtime_inv_slot [OF inv slot] .
  then have requests: "bt_inv (sl_requests slot)" by (simp add: slot_inv_def)
  note total = bt_total_update [OF requests request, where v' = request']
  have load: "slot_backend_load slot' c = slot_backend_load slot c"
    "slot_workspace_load slot' c = slot_workspace_load slot c" for c
    using total [of "\<lambda>r. footprint_field (rq_backend_footprint r) c"]
      total [of "\<lambda>r. footprint_field (rq_workspace_footprint r) c"] same
    by (simp_all add: slot_backend_load_def slot_workspace_load_def slot'_def)
  have slot_inv': "slot_inv (maximum_cleanup_attempts s) model_id slot'"
    using slot_inv load bt_len_update [OF requests request, of request']
    by (simp add: slot_inv_def slot'_def bt_inv_insert)
  have old: "registry_indexes B s" using inv by (simp add: runtime_inv_def)
  have held: "active_request (rt_models s) model_id request_id = Some request"
    by (simp add: active_request_def slot request)
  have "bt_get (sl_requests slot') = (bt_get (sl_requests slot))(request_id \<mapsto> request')"
    "sl_pending_sequences slot' = sl_pending_sequences slot"
    by (simp_all add: slot'_def bt_get_insert)
  note put = active_request_put [OF slot this(1)] quarantined_same [OF slot this(2)]
  have indexes: "registry_indexes B ?s"
    using old owner_replace [of "active_request (rt_models s)" "bt_get (rt_request_index s)", OF _ held]
      sequence_replace [of "request_sequence B" "active_request (rt_models s)"
        "bt_get (rt_sequence_index s)" "bt_get (rt_request_index s)", OF _ _ held seq]
    by (simp add: registry_indexes_def put)
  have "runtime_inv B ?s"
    by (rule replace_slot [OF inv slot slot_inv' _ _ _ _ _ _ _ _ _ indexes])
      (use runtime_inv_maps [OF inv] load limit_ok [OF inv] runtime_inv_load [OF inv]
        bt_len_update [OF requests request, of request'] in \<open>simp_all add: slot'_def\<close>)
  then show "runtime_inv B (put_request model_id (slot\<lparr>sl_model := m\<rparr>) request_id request' s)"
    "config (put_request model_id (slot\<lparr>sl_model := m\<rparr>) request_id request' s) = config s"
    by (simp_all add: put_request_def slot'_def config_def)
qed

lemma end_step_inv:
  assumes "runtime_inv B s" and "stable_ids B"
  shows "runtime_inv B (snd (end_step B request_id outcome s))"
    "config (snd (end_step B request_id outcome s)) = config s"
  using assms by (auto simp: end_step_def apfst_def map_prod_def split: option.splits prod.splits
      dest: remove_request_inv)

lemma fail_step_inv:
  assumes "runtime_inv B s" and "stable_ids B"
  shows "runtime_inv B (snd (fail_step B request_id operation e s))"
    "config (snd (fail_step B request_id operation e s)) = config s"
  using assms by (auto simp: fail_step_def rt_bind_def apfst_def map_prod_def split: sum.splits prod.splits
      dest: remove_request_inv)

lemma rt_bind_lift_state: "rt_bind f (\<lambda>_. rt_lift x) s = (r, s') \<Longrightarrow> s' = snd (f s)"
  by (auto simp: rt_bind_def split: prod.splits sum.splits)

lemma usage_request [simp]:
  "request_sequence B (request\<lparr>rq_sequence := q, rq_usage := u\<rparr>) = seq_id (be_model B) q"
  "request_sequence B (request\<lparr>rq_sequence := q\<rparr>) = seq_id (be_model B) q"
  by simp_all

lemma prefill_inv:
  assumes inv: "runtime_inv B s" and stable: "stable_ids B"
    and prefill: "runtime_prefill B request_id tokens emit logits s = (r, logits', s')"
  shows "runtime_inv B s'" "config s' = config s"
proof -
  have "runtime_inv B s' \<and> config s' = config s"
  proof (cases "bt_get (rt_request_index s) request_id")
    case None
    with prefill inv show ?thesis by (simp add: runtime_prefill_def request_model_id_def)
  next
    case (Some model_id)
    then obtain slot request where slot: "bt_get (rt_models s) model_id = Some slot"
      and request: "bt_get (sl_requests slot) request_id = Some request" by (rule indexed_request [OF inv])
    obtain d m q l where step: "prefill_checked (be_model B) (sl_model slot) (rq_sequence request)
        \<lparr>pi_tokens = tokens, pi_emit_logits = emit\<rparr> logits CancelRunning = (d, m, q, l)"
      by (metis prod_cases4)
    note seq = stable_prefill [OF stable step]
    note put = put_request_inv [OF inv slot request, of "request\<lparr>rq_sequence := q\<rparr>" m]
      put_request_inv [OF inv slot request, of "request\<lparr>rq_sequence := q, rq_usage := u\<rparr>" m for u]
    show ?thesis
    proof (cases d)
      case (Inl e)
      then have "s' = snd (fail_step B request_id OpPrefill e
          (put_request model_id (slot\<lparr>sl_model := m\<rparr>) request_id (request\<lparr>rq_sequence := q\<rparr>) s)
          :: (runtime_error + prefill_receipt) \<times> _)"
        using prefill by (auto simp: runtime_prefill_def request_model_id_def Some slot request step Let_def
            split: prod.splits)
      with put(1,2) seq show ?thesis by (simp add: fail_step_inv [OF _ stable])
    next
      case (Inr outcome)
      let ?u = "prefill_usage outcome (rq_usage request)"
      have "s' = snd (end_step B request_id (prefill_finish outcome)
          (put_request model_id (slot\<lparr>sl_model := m\<rparr>) request_id
            (request\<lparr>rq_sequence := q, rq_usage := ?u\<rparr>) s))"
        using prefill Inr
        by (auto simp: runtime_prefill_def request_model_id_def Some slot request step Let_def
            split: prod.splits dest: rt_bind_lift_state)
      with put(3,4) [of ?u] seq show ?thesis by (simp add: end_step_inv [OF _ stable])
    qed
  qed
  then show "runtime_inv B s'" "config s' = config s" by blast+
qed

lemma decode_inv:
  assumes inv: "runtime_inv B s" and stable: "stable_ids B"
    and decode: "runtime_decode B request_id token logits s = (r, logits', s')"
  shows "runtime_inv B s'" "config s' = config s"
proof -
  have "runtime_inv B s' \<and> config s' = config s"
  proof (cases "bt_get (rt_request_index s) request_id")
    case None
    with decode inv show ?thesis by (simp add: runtime_decode_def request_model_id_def)
  next
    case (Some model_id)
    then obtain slot request where slot: "bt_get (rt_models s) model_id = Some slot"
      and request: "bt_get (sl_requests slot) request_id = Some request" by (rule indexed_request [OF inv])
    obtain d m q l where step: "decode_checked (be_model B) (sl_model slot) (rq_sequence request)
        token logits CancelRunning = (d, m, q, l)"
      by (metis prod_cases4)
    note seq = stable_decode [OF stable step]
    note put = put_request_inv [OF inv slot request, of "request\<lparr>rq_sequence := q\<rparr>" m]
      put_request_inv [OF inv slot request, of "request\<lparr>rq_sequence := q, rq_usage := u\<rparr>" m for u]
    show ?thesis
    proof (cases d)
      case (Inl e)
      then have "s' = snd (fail_step B request_id OpDecode e
          (put_request model_id (slot\<lparr>sl_model := m\<rparr>) request_id (request\<lparr>rq_sequence := q\<rparr>) s)
          :: (runtime_error + decode_receipt) \<times> _)"
        using decode by (auto simp: runtime_decode_def request_model_id_def Some slot request step Let_def
            split: prod.splits)
      with put(1,2) seq show ?thesis by (simp add: fail_step_inv [OF _ stable])
    next
      case (Inr outcome)
      let ?u = "decode_usage outcome (rq_usage request)"
      have "s' = snd (end_step B request_id (decode_finish outcome)
          (put_request model_id (slot\<lparr>sl_model := m\<rparr>) request_id
            (request\<lparr>rq_sequence := q, rq_usage := ?u\<rparr>) s))"
        using decode Inr
        by (auto simp: runtime_decode_def request_model_id_def Some slot request step Let_def
            split: prod.splits dest: rt_bind_lift_state)
      with put(3,4) [of ?u] seq show ?thesis by (simp add: end_step_inv [OF _ stable])
    qed
  qed
  then show "runtime_inv B s'" "config s' = config s" by blast+
qed

end
