(* ===== verification/Registry_Cleanup.thy ===== *)
theory Registry_Cleanup
  imports Registry_Admission
begin

section \<open>Retrying quarantined resources\<close>

text \<open>
  \<open>poll_cleanup\<close> from a registry that satisfies the invariant: it keeps the invariant, and every
  call that is not idle consumes part of \<open>registry_work\<close>, the attempts that are left. A resident
  model counts with its own attempts, because its release may fail and quarantine it.
\<close>

definition slot_work :: "u32 \<Rightarrow> ('m, 'q) model_slot \<Rightarrow> nat" where
  "slot_work maximum slot = unat maximum
     + bt_total (\<lambda>pending. unat maximum - unat (ps_attempts pending)) (sl_pending_sequences slot)"

definition registry_work :: "('ld, 'm, 'q) runtime \<Rightarrow> nat" where
  "registry_work s = bt_total (slot_work (maximum_cleanup_attempts s)) (rt_models s)
     + bt_total (\<lambda>pending. unat (maximum_cleanup_attempts s) - unat (pm_attempts pending))
         (rt_pending_models s)"

lemma attempts_increment:
  fixes n k :: u32
  assumes "n < k"
  obtains m where "checked_add n 1 = Some m" "unat m = unat n + 1" "m \<le> k"
  using checked_increment [of n k] assms by (auto simp: word_less_nat_alt word_le_nat_alt)

lemma bt_get_entries_member: "bt_inv m \<Longrightarrow> (k, v) \<in> set (bt_entries m) \<longleftrightarrow> bt_get m k = Some v"
  by (rule bt.in_entries)

lemma find_member: "find P xs = Some x \<Longrightarrow> x \<in> set xs \<and> P x"
  by (auto simp: find_Some_iff)

lemma find_retryable_sequence_Some:
  "find_retryable_sequence maximum entries = Some (model_id, request_id) \<Longrightarrow>
     \<exists>slot pending. (model_id, slot) \<in> set entries
       \<and> (request_id, pending) \<in> set (bt_entries (sl_pending_sequences slot))
       \<and> ps_attempts pending < maximum"
  by (induction maximum entries rule: find_retryable_sequence.induct)
    (auto simp: find_Some_iff split: option.splits, metis nth_mem)

lemma find_retryable_sequence_None:
  "find_retryable_sequence maximum entries = None \<longleftrightarrow>
     (\<forall>(model_id, slot) \<in> set entries. \<forall>(request_id, pending) \<in> set (bt_entries (sl_pending_sequences slot)).
        maximum \<le> ps_attempts pending)"
proof (induction maximum entries rule: find_retryable_sequence.induct)
  case (2 maximum model_id slot rest)
  let ?f = "find (\<lambda>(_, pending). ps_attempts pending < maximum) (bt_entries (sl_pending_sequences slot))"
  show ?case
  proof (cases ?f)
    case None
    then have "\<forall>(request_id, pending) \<in> set (bt_entries (sl_pending_sequences slot)).
        maximum \<le> ps_attempts pending"
      by (auto simp: find_None_iff not_less)
    with None 2 show ?thesis by simp
  next
    case (Some e)
    then obtain request_id pending where e: "e = (request_id, pending)"
      "(request_id, pending) \<in> set (bt_entries (sl_pending_sequences slot))" "\<not> maximum \<le> ps_attempts pending"
      using find_member by (cases e) fastforce
    with Some show ?thesis by auto
  qed
qed simp

lemma find_retryable_model_Some:
  "find_retryable_model maximum models = Some model_id \<Longrightarrow>
     \<exists>pending. (model_id, pending) \<in> set (bt_entries models) \<and> pm_attempts pending < maximum"
  by (auto simp: find_retryable_model_def find_Some_iff) (metis nth_mem)

lemma find_retryable_model_None:
  "find_retryable_model maximum models = None \<longleftrightarrow>
     (\<forall>(model_id, pending) \<in> set (bt_entries models). maximum \<le> pm_attempts pending)"
  by (auto simp: find_retryable_model_def find_None_iff not_less)

subsection \<open>Sequences\<close>

lemma pending_facts:
  assumes inv: "runtime_inv B s" and slot: "bt_get (rt_models s) model_id = Some slot"
    and pending: "bt_get (sl_pending_sequences slot) request_id = Some pending"
  shows "quarantined_sequence (rt_models s) model_id request_id = Some pending"
    "ps_request_id pending = request_id" "0 < unat (rt_pending_cleanup_sequences s)"
proof -
  show "quarantined_sequence (rt_models s) model_id request_id = Some pending"
    by (simp add: quarantined_sequence_def slot pending)
  show "ps_request_id pending = request_id"
    using runtime_inv_slot [OF inv slot] pending by (simp add: slot_inv_def)
  have "bt_len (sl_pending_sequences slot) \<le> unat (rt_pending_cleanup_sequences s)"
    using inv bt_total_member [OF runtime_inv_maps(1) [OF inv] slot,
        of "\<lambda>slot. bt_len (sl_pending_sequences slot)"]
    by (simp add: runtime_inv_def registry_counters_def)
  moreover have "0 < bt_len (sl_pending_sequences slot)"
    using bt_len_remove [OF _ pending] runtime_inv_slot [OF inv slot] by (simp add: slot_inv_def)
  ultimately show "0 < unat (rt_pending_cleanup_sequences s)" by linarith
qed

lemma put_pending_inv:
  assumes inv: "runtime_inv B s" and slot: "bt_get (rt_models s) model_id = Some slot"
    and pending: "bt_get (sl_pending_sequences slot) request_id = Some pending"
    and same: "ps_footprint pending' = ps_footprint pending"
      "ps_sequence_id pending' = ps_sequence_id pending" "ps_request_id pending' = ps_request_id pending"
    and attempts: "unat (ps_attempts pending') = unat (ps_attempts pending) + 1"
      "ps_attempts pending' \<le> maximum_cleanup_attempts s"
    and slot': "slot' = slot\<lparr>sl_model := m,
      sl_pending_sequences := bt_insert request_id pending' (sl_pending_sequences slot)\<rparr>"
    and s': "s' = s\<lparr>rt_models := bt_insert model_id slot' (rt_models s), rt_last_cleanup := c\<rparr>"
  shows "runtime_inv B s'" "registry_work s' < registry_work s"
proof -
  note facts = pending_facts [OF inv slot pending]
  have slot_inv: "slot_inv (maximum_cleanup_attempts s) model_id slot"
    using runtime_inv_slot [OF inv slot] .
  then have sequences: "bt_inv (sl_pending_sequences slot)" by (simp add: slot_inv_def)
  note total = bt_total_update [OF sequences pending, where v' = pending']
    and len = bt_len_update [OF sequences pending, of pending']
  have load: "slot_backend_load slot' c = slot_backend_load slot c" for c
    using total [of "\<lambda>p. footprint_field (ps_footprint p) c"] same
    by (simp add: slot_backend_load_def slot')
  have slot_inv': "slot_inv (maximum_cleanup_attempts s) model_id slot'"
    using slot_inv load len facts(2) same attempts
    by (simp add: slot_inv_def slot' bt_inv_insert bt_get_insert slot_workspace_load_def)
      (metis length_0_conv)
  have "bt_get (sl_pending_sequences slot') = (bt_get (sl_pending_sequences slot))(request_id \<mapsto> pending')"
    "sl_requests slot' = sl_requests slot"
    by (simp_all add: slot' bt_get_insert)
  note put = quarantined_put [OF slot this(1)] active_request_same [OF slot this(2)]
  have old: "registry_indexes B s" using inv by (simp add: runtime_inv_def)
  have indexes: "registry_indexes B s'"
    using old owner_replace [of "quarantined_sequence (rt_models s)" "bt_get (rt_pending_request_index s)",
        OF _ facts(1)]
      sequence_replace [of ps_sequence_id "quarantined_sequence (rt_models s)"
        "bt_get (rt_pending_sequence_index s)" "bt_get (rt_pending_request_index s)", OF _ _ facts(1) same(2)]
    by (simp add: registry_indexes_def put s')
  show "runtime_inv B s'"
    by (rule replace_slot [OF inv slot slot_inv' _ _ _ _ _ _ _ _ _ indexes])
      (use runtime_inv_maps [OF inv] load limit_ok [OF inv] runtime_inv_load [OF inv] len
        in \<open>simp_all add: s' slot'\<close>)
  have "slot_work k slot' < slot_work k slot" if "k = maximum_cleanup_attempts s" for k
    using total [of "\<lambda>p. unat k - unat (ps_attempts p)"] attempts that
    by (simp add: slot_work_def slot' word_le_nat_alt)
  then show "registry_work s' < registry_work s"
    using bt_total_update [OF runtime_inv_maps(1) [OF inv] slot,
        of "slot_work (maximum_cleanup_attempts s)" slot']
    by (simp add: registry_work_def s' maximum_cleanup_attempts_def)
qed

lemma drop_pending_inv:
  assumes inv: "runtime_inv B s" and slot: "bt_get (rt_models s) model_id = Some slot"
    and pending: "bt_get (sl_pending_sequences slot) request_id = Some pending"
  obtains slot' slot_reserved reserved cleanups s' where
    "checked_sub_footprint (sl_reserved_footprint slot) (ps_footprint pending) = Inr slot_reserved"
    "checked_sub_footprint (rt_reserved_footprint s) (ps_footprint pending) = Inr reserved"
    "checked_sub (rt_pending_cleanup_sequences s) 1 = Some cleanups"
    "slot' = slot\<lparr>sl_pending_sequences := bt_remove request_id (sl_pending_sequences slot),
       sl_reserved_footprint := slot_reserved,
       sl_poisoned := \<not> bt_is_empty (bt_remove request_id (sl_pending_sequences slot))\<rparr>"
    "s' = s\<lparr>rt_models := bt_insert model_id slot' (rt_models s),
       rt_pending_request_index := bt_remove request_id (rt_pending_request_index s),
       rt_pending_sequence_index := bt_remove (ps_sequence_id pending) (rt_pending_sequence_index s),
       rt_pending_cleanup_sequences := cleanups, rt_reserved_footprint := reserved\<rparr>"
    "runtime_inv B s'" "registry_work s' \<le> registry_work s"
proof -
  note facts = pending_facts [OF inv slot pending] and maps = runtime_inv_maps [OF inv]
  have slot_inv: "slot_inv (maximum_cleanup_attempts s) model_id slot"
    using runtime_inv_slot [OF inv slot] .
  then have sequences: "bt_inv (sl_pending_sequences slot)" by (simp add: slot_inv_def)
  note total = bt_total_remove [OF sequences pending] and len = bt_len_remove [OF sequences pending]
  let ?rest = "bt_remove request_id (sl_pending_sequences slot)"
  have slot_load: "slot_backend_load slot c = footprint_field (ps_footprint pending) c
      + slot_backend_load (slot\<lparr>sl_pending_sequences := ?rest\<rparr>) c" for c
    using total [of "\<lambda>p. footprint_field (ps_footprint p) c"] by (simp add: slot_backend_load_def)
  have slot_total: "footprint_field (sl_reserved_footprint slot) c
      = slot_backend_load slot c + slot_workspace_load slot c" for c
    using slot_inv by (simp add: slot_inv_def)
  have "footprint_field (ps_footprint pending) c \<le> footprint_field (sl_reserved_footprint slot) c" for c
    using slot_total [of c] slot_load [of c] by linarith
  from checked_sub_footprint_total [OF this] obtain slot_reserved where slot_reserved:
    "checked_sub_footprint (sl_reserved_footprint slot) (ps_footprint pending) = Inr slot_reserved" by blast
  have "footprint_field (ps_footprint pending) c \<le> footprint_field (rt_reserved_footprint s) c" for c
    using runtime_inv_load(1) [OF inv, of c] slot_load [of c]
      bt_total_member [OF maps(1) slot, of "\<lambda>slot. slot_backend_load slot c"]
    by (simp add: registry_load_def)
  from checked_sub_footprint_total [OF this] obtain reserved where reserved:
    "checked_sub_footprint (rt_reserved_footprint s) (ps_footprint pending) = Inr reserved" by blast
  obtain cleanups where cleanups: "checked_sub (rt_pending_cleanup_sequences s) 1 = Some cleanups"
    "unat (rt_pending_cleanup_sequences s) = unat cleanups + 1"
    using checked_decrement [OF facts(3)] by blast
  have fields: "footprint_field (sl_reserved_footprint slot) c
      = footprint_field slot_reserved c + footprint_field (ps_footprint pending) c"
    "footprint_field (rt_reserved_footprint s) c
      = footprint_field reserved c + footprint_field (ps_footprint pending) c" for c
    using slot_reserved reserved by (simp_all add: checked_sub_footprint_iff)
  define slot' where "slot' = slot\<lparr>sl_pending_sequences := ?rest,
    sl_reserved_footprint := slot_reserved, sl_poisoned := \<not> bt_is_empty ?rest\<rparr>"
  define s' where "s' = s\<lparr>rt_models := bt_insert model_id slot' (rt_models s),
       rt_pending_request_index := bt_remove request_id (rt_pending_request_index s),
       rt_pending_sequence_index := bt_remove (ps_sequence_id pending) (rt_pending_sequence_index s),
       rt_pending_cleanup_sequences := cleanups, rt_reserved_footprint := reserved\<rparr>"
  have load: "slot_backend_load slot c = footprint_field (ps_footprint pending) c + slot_backend_load slot' c" for c
    using slot_load by (simp add: slot'_def slot_backend_load_def)
  have "footprint_field slot_reserved c = slot_backend_load slot' c + slot_workspace_load slot' c" for c
    using slot_total [of c] load [of c] fields(1) [of c] by (simp add: slot'_def)
  then have slot_inv': "slot_inv (maximum_cleanup_attempts s) model_id slot'"
    using slot_inv by (auto simp: slot_inv_def slot'_def bt_inv_remove bt_get_remove split: if_splits)
  have "bt_get (sl_pending_sequences slot') = (bt_get (sl_pending_sequences slot))(request_id := None)"
    "sl_requests slot' = sl_requests slot"
    by (simp_all add: slot'_def bt_get_remove)
  note put = quarantined_put [OF slot this(1)] active_request_same [OF slot this(2)]
  have old: "registry_indexes B s" using inv by (simp add: runtime_inv_def)
  have indexes: "registry_indexes B s'"
    by (rule indexes_release [OF old facts(1)]) (simp_all add: s'_def put bt_get_remove)
  have budget: "within_budget reserved (rl_memory_budget (rt_limits s))"
    using runtime_inv_load(2) [OF inv] by (rule within_budget_mono) (simp add: fields)
  have inv': "runtime_inv B s'"
    by (rule replace_slot [OF inv slot slot_inv' _ _ _ _ _ _ _ _ _ indexes])
      (use cleanups(2) len load limit_ok [OF inv] maps fields budget
        in \<open>simp_all add: s'_def slot'_def bt_inv_remove\<close>)
  have "slot_work k slot' \<le> slot_work k slot" for k
    using total [of "\<lambda>p. unat k - unat (ps_attempts p)"] by (simp add: slot_work_def slot'_def)
  then have "bt_total (slot_work k) (bt_insert model_id slot' (rt_models s))
      \<le> bt_total (slot_work k) (rt_models s)" for k
    using bt_total_update [OF maps(1) slot, of "slot_work k" slot'] by (metis add_le_cancel_right add_le_mono order_refl)
  then have "registry_work s' \<le> registry_work s"
    by (simp add: registry_work_def s'_def maximum_cleanup_attempts_def)
  then show ?thesis using that slot_reserved reserved cleanups(1) slot'_def s'_def inv' by blast
qed

lemma release_work:
  assumes inv: "runtime_inv B s"
    and release: "release_model_with_primary B model_id operation failure s = (r, s')"
  shows "registry_work s' \<le> registry_work s"
proof -
  note spec = release_spec [OF inv release] and maps = runtime_inv_maps [OF inv]
  let ?k = "maximum_cleanup_attempts s"
  have k: "maximum_cleanup_attempts s' = ?k" using config_eq [OF spec(2)] by simp
  have removed: "bt_total (slot_work ?k) (bt_remove model_id (rt_models s)) + unat ?k
      \<le> bt_total (slot_work ?k) (rt_models s)" if "bt_contains (rt_models s) model_id"
    using that bt_total_remove [OF maps(1), of model_id _ "slot_work ?k"] by (auto simp: slot_work_def)
  from spec(5) show ?thesis
  proof (elim disjE)
    assume "released model_id r s s'"
    with removed show ?thesis by (simp add: released_def registry_work_def k)
  next
    assume q: "quarantined_model model_id r s s'"
    have "bt_get (rt_pending_models s) model_id = None" if "bt_contains (rt_models s) model_id"
      using inv that by (auto simp: runtime_inv_def registry_slots_def)
    with q removed show ?thesis
      by (auto simp: quarantined_model_def registry_work_def k bt_total_insert_new [OF maps(2)])
  next
    assume "release_refused model_id r s s'"
    then show ?thesis by (simp add: release_refused_def)
  qed
qed

text \<open>
  What a retry answers. The error is the one a release gives that is refused because other
  sequences of an unloading model are still quarantined.
\<close>

definition retry_answer :: "runtime_error + cleanup_poll \<Rightarrow> cleanup_retry_state \<Rightarrow> bool" where
  "retry_answer r state \<longleftrightarrow> r = Inr (CleanupReleased state) \<or> r = Inr (failed_retry state)
     \<or> r = Inl (RuntimeLifecycle InvalidTransition)"

text \<open>
  What a retry leaves of the slots: the other models are as before, and a model that is still
  there has its lifecycle and its requests.
\<close>

definition parked :: "('m, 'q) model_slot \<Rightarrow> bool" where
  "parked slot \<longleftrightarrow> sl_lifecycle slot = Unloading \<and> \<not> bt_is_empty (sl_pending_sequences slot)"

definition slots_kept ::
    "model_id \<Rightarrow> ('m, 'q) model_slot \<Rightarrow> (runtime_error + cleanup_poll)
       \<Rightarrow> ('ld, 'm, 'q) runtime \<Rightarrow> ('ld, 'm, 'q) runtime \<Rightarrow> bool" where
  "slots_kept model_id slot r s s' \<longleftrightarrow>
     (\<forall>other. other \<noteq> model_id \<longrightarrow> bt_get (rt_models s') other = bt_get (rt_models s) other)
     \<and> (\<forall>slot'. bt_get (rt_models s') model_id = Some slot' \<longrightarrow>
          sl_lifecycle slot' = sl_lifecycle slot \<and> sl_requests slot' = sl_requests slot
          \<and> (sl_lifecycle slot = Unloading \<longrightarrow> is_ok r \<longrightarrow> parked slot'))"

lemma finish_sequence_cleanup_spec:
  assumes inv: "runtime_inv B s" and slot: "bt_get (rt_models s) model_id = Some slot"
    and pending: "bt_get (sl_pending_sequences slot) request_id = Some pending"
    and finish: "finish_sequence_cleanup B model_id request_id state s = (r, s')"
  shows "runtime_inv B s'" "config s' = config s" "registry_work s' \<le> registry_work s"
    "r = (if sl_lifecycle slot = Unloading
             \<and> \<not> bt_is_empty (bt_remove request_id (sl_pending_sequences slot))
          then Inl (RuntimeLifecycle InvalidTransition) else Inr (CleanupReleased state))"
    "rt_request_index s' = rt_request_index s" "slots_kept model_id slot r s s'"
proof -
  obtain slot' slot_reserved reserved cleanups s1 where step:
    "checked_sub_footprint (sl_reserved_footprint slot) (ps_footprint pending) = Inr slot_reserved"
    "checked_sub_footprint (rt_reserved_footprint s) (ps_footprint pending) = Inr reserved"
    "checked_sub (rt_pending_cleanup_sequences s) 1 = Some cleanups"
    and slot': "slot' = slot\<lparr>sl_pending_sequences := bt_remove request_id (sl_pending_sequences slot),
       sl_reserved_footprint := slot_reserved,
       sl_poisoned := \<not> bt_is_empty (bt_remove request_id (sl_pending_sequences slot))\<rparr>"
    and s1: "s1 = s\<lparr>rt_models := bt_insert model_id slot' (rt_models s),
       rt_pending_request_index := bt_remove request_id (rt_pending_request_index s),
       rt_pending_sequence_index := bt_remove (ps_sequence_id pending) (rt_pending_sequence_index s),
       rt_pending_cleanup_sequences := cleanups, rt_reserved_footprint := reserved\<rparr>"
    and inv1: "runtime_inv B s1" and work1: "registry_work s1 \<le> registry_work s"
    by (rule drop_pending_inv [OF inv slot pending])
  have same1: "config s1 = config s" "rt_request_index s1 = rt_request_index s" by (simp_all add: s1 config_def)
  have slot1: "bt_get (rt_models s1) model_id = Some slot'" by (simp add: s1 bt_get_insert)
  have "runtime_inv B s' \<and> config s' = config s \<and> registry_work s' \<le> registry_work s
    \<and> r = (if sl_lifecycle slot = Unloading
             \<and> \<not> bt_is_empty (bt_remove request_id (sl_pending_sequences slot))
          then Inl (RuntimeLifecycle InvalidTransition) else Inr (CleanupReleased state))
    \<and> rt_request_index s' = rt_request_index s \<and> slots_kept model_id slot r s s'"
  proof (cases "sl_lifecycle slot = Unloading")
    case False
    with finish step have "r = Inr (CleanupReleased state) \<and> s' = s1"
      by (auto simp: finish_sequence_cleanup_def slot pending Let_def slot' s1)
    with False inv1 work1 same1 show ?thesis by (simp add: slots_kept_def s1 bt_get_insert slot')
  next
    case True
    obtain r1 s2 where release: "release_model_with_primary B model_id
        (cf_primary_operation (ps_failure pending)) (cf_primary_failure (ps_failure pending)) s1 = (r1, s2)"
      by fastforce
    note spec = release_spec [OF inv1 release]
    have "bt_is_empty (sl_requests slot)"
      using unloading_no_requests [OF runtime_inv_slot [OF inv slot] True] .
    then have idle: "idle_unloading slot' \<longleftrightarrow> bt_is_empty (bt_remove request_id (sl_pending_sequences slot))"
      using True by (simp add: idle_unloading_def slot')
    have r: "r = bind_ok (preserve_primary_cleanup r1) (\<lambda>_. Inr (CleanupReleased state)) \<and> s' = s2"
      using finish step True release
      by (simp add: finish_sequence_cleanup_def slot pending Let_def slot' s1 split: prod.splits)
    have refused: "\<not> idle_unloading slot' \<Longrightarrow> r1 = Inl (RuntimeLifecycle InvalidTransition)"
      "idle_unloading slot' \<Longrightarrow> \<not> release_refused model_id r1 s1 s2"
      using release slot1 by (auto simp: release_refused_def release_model_with_primary_def idle_unloading_def)
    from spec(5) refused have "r1 = Inl (RuntimeLifecycle InvalidTransition) \<and> \<not> idle_unloading slot'
        \<or> (r1 = Inr () \<or> (\<exists>e. r1 = Inl e \<and> is_cleanup_error e)) \<and> idle_unloading slot'"
      by (auto simp: released_def quarantined_model_def)
    moreover have "slots_kept model_id slot r s s'"
      using spec(5) r refused slot1
      by (auto simp: slots_kept_def released_def quarantined_model_def release_refused_def s1
          bt_get_insert bt_get_remove slot' True preserve_primary_cleanup_def)
    ultimately show ?thesis
      using r idle True spec(1-3) same1 release_work [OF inv1 release] work1
      by (auto simp: preserve_primary_cleanup_def)
  qed
  then show "runtime_inv B s'" "config s' = config s" "registry_work s' \<le> registry_work s"
    "r = (if sl_lifecycle slot = Unloading
             \<and> \<not> bt_is_empty (bt_remove request_id (sl_pending_sequences slot))
          then Inl (RuntimeLifecycle InvalidTransition) else Inr (CleanupReleased state))"
    "rt_request_index s' = rt_request_index s" "slots_kept model_id slot r s s'" by blast+
qed

lemma retry_sequence_spec:
  assumes inv: "runtime_inv B s" and stable: "stable_ids B"
    and slot: "bt_get (rt_models s) model_id = Some slot"
    and pending: "bt_get (sl_pending_sequences slot) request_id = Some pending"
    and left: "ps_attempts pending < maximum_cleanup_attempts s"
    and retry: "retry_sequence B model_id request_id s = (r, s')"
  shows "runtime_inv B s' \<and> config s' = config s \<and> registry_work s' < registry_work s
    \<and> rt_request_index s' = rt_request_index s \<and> (\<exists>state. retry_answer r state)
    \<and> slots_kept model_id slot r s s'"
proof -
  obtain attempts where attempts: "checked_add (ps_attempts pending) 1 = Some attempts"
    "unat attempts = unat (ps_attempts pending) + 1" "attempts \<le> maximum_cleanup_attempts s"
    by (rule attempts_increment [OF left])
  obtain d m q where destroy: "lm_destroy_sequence (be_model B) (sl_model slot) (ps_sequence pending) = (d, m, q)"
    by (metis prod_cases3)
  define state where "state = \<lparr>cr_resource = ResourceSequence model_id request_id (ps_sequence_id pending),
    cr_failure = ps_failure pending, cr_attempts = attempts, cr_maximum_attempts = maximum_cleanup_attempts s\<rparr>"
  define pending' where "pending' = pending\<lparr>ps_attempts := attempts, ps_sequence := q\<rparr>"
  define slot' where "slot' = slot\<lparr>sl_model := m,
    sl_pending_sequences := bt_insert request_id pending' (sl_pending_sequences slot)\<rparr>"
  define s1 where "s1 = s\<lparr>rt_models := bt_insert model_id slot' (rt_models s), rt_last_cleanup := Some state\<rparr>"
  have run: "(r, s') = (if is_ok d then finish_sequence_cleanup B model_id request_id state s1
      else (Inr (failed_retry state), s1))"
    using retry by (cases "is_ok d") (simp_all add: retry_sequence_def slot pending attempts(1) destroy
        Let_def s1_def slot'_def pending'_def state_def)
  have step: "runtime_inv B s1" "registry_work s1 < registry_work s"
    by (rule put_pending_inv [OF inv slot pending _ _ _ _ _ slot'_def s1_def];
      simp add: pending'_def attempts)+
  have same: "config s1 = config s" "rt_request_index s1 = rt_request_index s"
    by (simp_all add: s1_def config_def)
  show ?thesis
  proof (cases "is_ok d")
    case False
    have "\<not> bt_is_empty (sl_pending_sequences slot')"
      by (auto simp: bt_is_empty_get slot'_def bt_get_insert)
    with False run step same show ?thesis
      by (auto simp: retry_answer_def slots_kept_def s1_def bt_get_insert slot'_def parked_def)
  next
    case True
    have slot1: "bt_get (rt_models s1) model_id = Some slot'"
      "bt_get (sl_pending_sequences slot') request_id = Some pending'"
      by (simp_all add: s1_def slot'_def bt_get_insert)
    from True run have "finish_sequence_cleanup B model_id request_id state s1 = (r, s')" by simp
    note spec = finish_sequence_cleanup_spec [OF step(1) slot1 this]
    have "retry_answer r state" unfolding retry_answer_def spec(4) by simp
    moreover have "slots_kept model_id slot r s s'"
      using spec(6) by (simp add: slots_kept_def slot'_def s1_def bt_get_insert)
    ultimately show ?thesis using spec(1-3,5) step(2) same by auto
  qed
qed

subsection \<open>Models\<close>

lemma retry_model_spec:
  assumes inv: "runtime_inv B s" and pending: "bt_get (rt_pending_models s) model_id = Some pending"
    and left: "pm_attempts pending < maximum_cleanup_attempts s"
    and retry: "retry_model B model_id s = (r, s')"
  shows "runtime_inv B s' \<and> config s' = config s \<and> registry_work s' < registry_work s
    \<and> rt_request_index s' = rt_request_index s \<and> rt_models s' = rt_models s
    \<and> (\<exists>state. r = Inr (CleanupReleased state) \<or> r = Inr (failed_retry state))"
proof -
  note maps = runtime_inv_maps [OF inv]
  obtain attempts where attempts: "checked_add (pm_attempts pending) 1 = Some attempts"
    "unat attempts = unat (pm_attempts pending) + 1" "attempts \<le> maximum_cleanup_attempts s"
    by (rule attempts_increment [OF left])
  obtain d m where unload: "lm_prepare_unload (be_model B) (pm_model pending) = (d, m)" by fastforce
  define state where "state = \<lparr>cr_resource = ResourceModel model_id, cr_failure = pm_failure pending,
    cr_attempts = attempts, cr_maximum_attempts = maximum_cleanup_attempts s\<rparr>"
  define pending' where "pending' = pending\<lparr>pm_attempts := attempts, pm_model := m\<rparr>"
  define s1 where "s1 = s\<lparr>rt_pending_models := bt_insert model_id pending' (rt_pending_models s),
    rt_last_cleanup := Some state\<rparr>"
  note update = bt_total_update [OF maps(2) pending, where v' = pending']
    and len = bt_len_update [OF maps(2) pending, of pending']
  have "registry_memory s1"
    using runtime_inv_load [OF inv] update [of "\<lambda>p. footprint_field (pm_footprint p) c" for c]
    by (simp add: registry_memory_def registry_load_def s1_def pending'_def)
  moreover have "bt_get (rt_models s) model_id = None"
    using inv pending by (metis runtime_inv_def registry_slots_def not_None_eq option.distinct(1))
  then have "registry_slots s1"
    using inv pending attempts(3)
    by (auto simp: runtime_inv_def registry_slots_def s1_def maximum_cleanup_attempts_def
        bt_get_insert pending'_def)
  ultimately have inv1: "runtime_inv B s1"
    using inv len by (simp add: runtime_inv_def s1_def registry_maps_def registry_counters_def
        registry_indexes_def bt_inv_insert)
  have work1: "registry_work s1 < registry_work s"
    using update [of "\<lambda>p. unat (maximum_cleanup_attempts s) - unat (pm_attempts p)"] attempts
    by (simp add: registry_work_def s1_def maximum_cleanup_attempts_def pending'_def word_le_nat_alt)
  have same: "config s1 = config s" "rt_request_index s1 = rt_request_index s"
    by (simp_all add: s1_def config_def)
  have pending1: "bt_get (rt_pending_models s1) model_id = Some pending'"
    by (simp add: s1_def bt_get_insert)
  note maps1 = runtime_inv_maps [OF inv1]
  note remove = bt_total_remove [OF maps1(2) pending1] and len1 = bt_len_remove [OF maps1(2) pending1]
  have "footprint_field (pm_footprint pending) c \<le> footprint_field (rt_reserved_footprint s1) c" for c
    using runtime_inv_load(1) [OF inv1, of c] remove [of "\<lambda>p. footprint_field (pm_footprint p) c"]
    by (simp add: registry_load_def pending'_def)
  from checked_sub_footprint_total [OF this] obtain reserved where reserved:
    "checked_sub_footprint (rt_reserved_footprint s1) (pm_footprint pending) = Inr reserved" by blast
  then have fields: "footprint_field (rt_reserved_footprint s1) c
      = footprint_field reserved c + footprint_field (pm_footprint pending) c" for c
    by (simp add: checked_sub_footprint_iff)
  define s2 where "s2 = s1\<lparr>rt_pending_models := bt_remove model_id (rt_pending_models s1),
    rt_reserved_footprint := reserved\<rparr>"
  have "within_budget reserved (rl_memory_budget (rt_limits s1))"
    using runtime_inv_load(2) [OF inv1] by (rule within_budget_mono) (simp add: fields)
  moreover have "footprint_field reserved c = registry_load s2 c" for c
    using runtime_inv_load(1) [OF inv1, of c] remove [of "\<lambda>p. footprint_field (pm_footprint p) c"] fields [of c]
    by (simp add: registry_load_def s2_def pending'_def)
  ultimately have "registry_memory s2" by (simp add: registry_memory_def s2_def)
  moreover have "registry_slots s2"
    using inv1 by (auto simp: runtime_inv_def registry_slots_def s2_def maximum_cleanup_attempts_def
        bt_get_remove split: if_splits)
  ultimately have inv2: "runtime_inv B s2"
    using inv1 len1 by (simp add: runtime_inv_def s2_def registry_maps_def registry_counters_def
        registry_indexes_def bt_inv_remove)
  have "registry_work s2 \<le> registry_work s1"
    using remove [of "\<lambda>p. unat (maximum_cleanup_attempts s) - unat (pm_attempts p)"]
    by (simp add: registry_work_def s2_def s1_def maximum_cleanup_attempts_def)
  moreover have "r = (if is_ok d then Inr (CleanupReleased state) else Inr (failed_retry state))
      \<and> s' = (if is_ok d then s2 else s1)"
    using retry reserved by (cases "is_ok d") (simp_all add: retry_model_def pending attempts(1) unload
        Let_def s1_def s2_def pending'_def state_def)
  ultimately show ?thesis using inv1 inv2 work1 same by (auto simp: s2_def s1_def config_def)
qed

subsection \<open>One poll\<close>

definition all_parked :: "('ld, 'm, 'q) runtime \<Rightarrow> bool" where
  "all_parked s \<longleftrightarrow> (\<forall>model_id slot. bt_get (rt_models s) model_id = Some slot \<longrightarrow> parked slot)"

lemma slots_kept_parked:
  assumes "all_parked s" and "bt_get (rt_models s) model_id = Some slot"
    and "slots_kept model_id slot r s s'" and "is_ok r"
  shows "all_parked s'"
  using assms unfolding all_parked_def slots_kept_def by (metis parked_def)

definition nothing_retryable :: "('ld, 'm, 'q) runtime \<Rightarrow> bool" where
  "nothing_retryable s \<longleftrightarrow>
     find_retryable_sequence (maximum_cleanup_attempts s) (bt_entries (rt_models s)) = None
     \<and> find_retryable_model (maximum_cleanup_attempts s) (rt_pending_models s) = None"

lemma poll_cleanup_spec:
  assumes inv: "runtime_inv B s" and stable: "stable_ids B" and poll: "poll_cleanup B s = (r, s')"
  shows "runtime_inv B s'" "config s' = config s" "rt_request_index s' = rt_request_index s"
    "r = Inr CleanupIdle \<and> s' = s \<and> nothing_retryable s
      \<or> (registry_work s' < registry_work s \<and> (\<exists>state. retry_answer r state))"
    "all_parked s \<Longrightarrow> is_ok r \<Longrightarrow> all_parked s'"
proof -
  note maps = runtime_inv_maps [OF inv]
  have "runtime_inv B s' \<and> config s' = config s \<and> rt_request_index s' = rt_request_index s
    \<and> (r = Inr CleanupIdle \<and> s' = s \<and> nothing_retryable s
      \<or> (registry_work s' < registry_work s \<and> (\<exists>state. retry_answer r state)))
    \<and> (all_parked s \<longrightarrow> is_ok r \<longrightarrow> all_parked s')"
  proof (cases "find_retryable_sequence (maximum_cleanup_attempts s) (bt_entries (rt_models s))")
    case (Some found)
    obtain model_id request_id where found: "found = (model_id, request_id)" by fastforce
    obtain slot pending where entry: "(model_id, slot) \<in> set (bt_entries (rt_models s))"
      "(request_id, pending) \<in> set (bt_entries (sl_pending_sequences slot))"
      and left: "ps_attempts pending < maximum_cleanup_attempts s"
      using find_retryable_sequence_Some Some found by blast
    have slot: "bt_get (rt_models s) model_id = Some slot"
      using entry(1) by (simp add: bt_get_entries_member [OF maps(1)])
    have "bt_inv (sl_pending_sequences slot)" using runtime_inv_slot [OF inv slot] by (simp add: slot_inv_def)
    from bt_get_entries_member [OF this] entry(2)
    have pending: "bt_get (sl_pending_sequences slot) request_id = Some pending" by simp
    from poll Some found have "retry_sequence B model_id request_id s = (r, s')"
      by (simp add: poll_cleanup_def)
    from retry_sequence_spec [OF inv stable slot pending left this] slots_kept_parked [OF _ slot]
    show ?thesis by blast
  next
    case none: None
    show ?thesis
    proof (cases "find_retryable_model (maximum_cleanup_attempts s) (rt_pending_models s)")
      case None
      with poll none inv show ?thesis by (simp add: poll_cleanup_def nothing_retryable_def)
    next
      case (Some model_id)
      obtain pending where entry: "(model_id, pending) \<in> set (bt_entries (rt_pending_models s))"
        and left: "pm_attempts pending < maximum_cleanup_attempts s"
        using find_retryable_model_Some [OF Some] by blast
      have pending: "bt_get (rt_pending_models s) model_id = Some pending"
        using entry by (simp add: bt_get_entries_member [OF maps(2)])
      from poll none Some have "retry_model B model_id s = (r, s')" by (simp add: poll_cleanup_def)
      from retry_model_spec [OF inv pending left this] show ?thesis
        by (auto simp: retry_answer_def all_parked_def)
    qed
  qed
  then show "runtime_inv B s'" "config s' = config s" "rt_request_index s' = rt_request_index s"
    "r = Inr CleanupIdle \<and> s' = s \<and> nothing_retryable s
      \<or> (registry_work s' < registry_work s \<and> (\<exists>state. retry_answer r state))"
    "all_parked s \<Longrightarrow> is_ok r \<Longrightarrow> all_parked s'"
    by blast+
qed

lemma poll_idle_nothing:
  assumes inv: "runtime_inv B s" and stable: "stable_ids B"
    and idle: "fst (poll_cleanup B s) = Inr CleanupIdle"
  shows "nothing_retryable s"
proof -
  obtain r s' where poll: "poll_cleanup B s = (r, s')" by fastforce
  have "\<not> retry_answer (Inr CleanupIdle) state" for state
    by (auto simp: retry_answer_def failed_retry_def)
  with poll_cleanup_spec(4) [OF inv stable poll] idle poll show ?thesis by auto
qed

end
