(* ===== verification/Registry_Loops.thy ===== *)
theory Registry_Loops
  imports Registry_Cleanup
begin

section \<open>The loops of the registry end\<close>

text \<open>
  Total correctness of the three loops and of the methods that run them: from a registry that
  satisfies the invariant each returns, with the invariant. \<open>cancel_loop\<close> and
  \<open>shutdown_cancel_loop\<close> remove one request of the model in every pass, \<open>cleanup_loop\<close> consumes
  \<open>registry_work\<close>.
\<close>

definition requests_of :: "('ld, 'm, 'q) runtime \<Rightarrow> model_id \<Rightarrow> nat" where
  "requests_of s model_id =
     (case bt_get (rt_models s) model_id of None \<Rightarrow> 0 | Some slot \<Rightarrow> bt_len (sl_requests slot))"

lemma bt_first_get: "bt_first m = Some (k, v) \<Longrightarrow> bt_get m k = Some v"
  by (auto simp: bt_first_Some bt_get_def)

lemma first_request_Some:
  assumes "first_request s model_id = Some request_id"
  obtains slot request where "bt_get (rt_models s) model_id = Some slot"
    "bt_get (sl_requests slot) request_id = Some request"
  using assms that by (auto simp: first_request_def dest: bt_first_get split: option.splits)

lemma first_request_None:
  "first_request s model_id = None \<longleftrightarrow>
     (\<forall>slot. bt_get (rt_models s) model_id = Some slot \<longrightarrow> bt_is_empty (sl_requests slot))"
  by (auto simp: first_request_def bt_first_def split: option.splits list.splits)

lemma removed_fewer:
  assumes inv: "runtime_inv B s" and slot: "bt_get (rt_models s) model_id = Some slot"
    and request: "bt_get (sl_requests slot) request_id = Some request"
    and removed: "request_removed model_id slot request_id r s s'"
  shows "requests_of s' model_id < requests_of s model_id"
proof -
  have "bt_inv (sl_requests slot)" using runtime_inv_slot [OF inv slot] by (simp add: slot_inv_def)
  note len = bt_len_remove [OF this request]
  with removed show ?thesis
    by (auto simp: request_removed_def requests_of_def slot split: option.splits)
qed

lemma note_cancelled_inv:
  assumes inv: "runtime_inv B s"
  shows "runtime_inv B (note_cancelled model_id n s)" "config (note_cancelled model_id n s) = config s"
    "requests_of (note_cancelled model_id n s) model_id = requests_of s model_id"
    "first_request (note_cancelled model_id n s) model_id = first_request s model_id"
    "\<And>other. other \<noteq> model_id \<Longrightarrow>
      bt_get (rt_models (note_cancelled model_id n s)) other = bt_get (rt_models s) other"
proof -
  have "runtime_inv B (note_cancelled model_id n s)"
  proof (cases "bt_get (rt_models s) model_id")
    case None
    with inv show ?thesis by (simp add: note_cancelled_def)
  next
    case (Some slot)
    have old: "registry_indexes B s" using inv by (simp add: runtime_inv_def)
    let ?slot' = "slot\<lparr>sl_cancelled_requests := n\<rparr>"
    have indexes: "registry_indexes B (put_slot model_id ?slot' s)"
      by (rule indexes_same [OF old]) (simp_all add: held_same [OF Some])
    have "runtime_inv B (put_slot model_id ?slot' s)"
      by (rule replace_slot [where slot' = ?slot', OF inv Some slot_inv_cancelled _ _ _ _ _ _ _ _ _ indexes])
        (use runtime_inv_slot [OF inv Some] limit_ok [OF inv] runtime_inv_load [OF inv]
          runtime_inv_maps [OF inv] in simp_all)
    with Some show ?thesis by (simp add: note_cancelled_def)
  qed
  then show "runtime_inv B (note_cancelled model_id n s)" "config (note_cancelled model_id n s) = config s"
    "requests_of (note_cancelled model_id n s) model_id = requests_of s model_id"
    "first_request (note_cancelled model_id n s) model_id = first_request s model_id"
    "\<And>other. other \<noteq> model_id \<Longrightarrow>
      bt_get (rt_models (note_cancelled model_id n s)) other = bt_get (rt_models s) other"
    by (auto simp: note_cancelled_def config_def requests_of_def first_request_def bt_get_insert
        split: option.splits)
qed

subsection \<open>Cancelling\<close>

lemma cancel_loop_total:
  assumes stable: "stable_ids B"
  shows "runtime_inv B s \<Longrightarrow> \<exists>r s'. cancel_loop B model_id n s = Some (r, s')
    \<and> runtime_inv B s' \<and> config s' = config s \<and> (is_ok r \<longrightarrow> first_request s' model_id = None)"
proof (induction "requests_of s model_id" arbitrary: s n rule: less_induct)
  case less
  note inv = less.prems
  show ?case
  proof (cases "first_request s model_id")
    case None
    with inv show ?thesis by (simp add: cancel_loop.simps [of B model_id n s])
  next
    case (Some request_id)
    then obtain slot request where slot: "bt_get (rt_models s) model_id = Some slot"
      and request: "bt_get (sl_requests slot) request_id = Some request" by (rule first_request_Some)
    obtain r s1 where remove: "remove_request B request_id OpCancellation ClassCancellation s = (r, s1)"
      by fastforce
    note spec = remove_request_spec [OF inv stable slot request remove]
    have fewer: "requests_of s1 model_id < requests_of s model_id"
      by (rule removed_fewer [OF inv slot request spec(2)])
    have same: "config s1 = config s" using spec(2) by (simp add: request_removed_def)
    note note_inv = note_cancelled_inv [OF spec(1)]
    show ?thesis
    proof (cases "r = Inr () \<and> bt_contains (rt_models s1) model_id")
      case True
      have "\<exists>r' s'. cancel_loop B model_id (saturating_add n 1)
          (note_cancelled model_id (saturating_add n 1) s1) = Some (r', s')
        \<and> runtime_inv B s' \<and> config s' = config s \<and> (is_ok r' \<longrightarrow> first_request s' model_id = None)"
        using less.hyps [of "note_cancelled model_id (saturating_add n 1) s1" "saturating_add n 1"]
          note_inv fewer same by simp
      with True show ?thesis
        by (simp add: cancel_loop.simps [of B model_id n s] Some remove Let_def)
    next
      case False
      have "bt_get (rt_models s1) model_id = None \<Longrightarrow> first_request s1 model_id = None"
        by (simp add: first_request_def)
      with False spec(1) note_inv(1,2) same show ?thesis
        by (cases r) (auto simp: cancel_loop.simps [of B model_id n s] Some remove Let_def)
    qed
  qed
qed

lemma cancel_and_release_total:
  assumes inv: "runtime_inv B s" and stable: "stable_ids B"
  shows "\<exists>r s'. cancel_and_release B model_id handle s = Some (r, s') \<and> runtime_inv B s'
    \<and> config s' = config s"
proof (cases "bt_get (rt_models s) model_id")
  case None
  with inv show ?thesis by (simp add: cancel_and_release_def cancel_all_requests_def)
next
  case (Some slot)
  from cancel_loop_total [OF stable inv, of model_id "sl_cancelled_requests slot"] obtain r s1
    where loop: "cancel_loop B model_id (sl_cancelled_requests slot) s = Some (r, s1)"
      "runtime_inv B s1" "config s1 = config s" by blast
  obtain r2 s2 where release: "release_model_with_primary B model_id OpCancellation ClassCancellation s1 = (r2, s2)"
    by fastforce
  from release_spec [OF loop(2) release] loop Some release show ?thesis
    by (auto simp: cancel_and_release_def cancel_all_requests_def Let_def rt_bind_def split: sum.splits)
qed

subsection \<open>Unloading\<close>

lemma put_lifecycle_inv:
  assumes inv: "runtime_inv B s" and slot: "bt_get (rt_models s) model_id = Some slot"
    and l: "active_count l = active_count (sl_lifecycle slot)" "lifecycle_wf l" "resident l"
  shows "runtime_inv B (put_slot model_id (slot\<lparr>sl_lifecycle := l\<rparr>) s)"
proof -
  have old: "registry_indexes B s" using inv by (simp add: runtime_inv_def)
  let ?slot' = "slot\<lparr>sl_lifecycle := l\<rparr>"
  have indexes: "registry_indexes B (put_slot model_id ?slot' s)"
    by (rule indexes_same [OF old]) (simp_all add: held_same [OF slot])
  show ?thesis
    by (rule replace_slot [where slot' = ?slot', OF inv slot slot_inv_lifecycle _ _ _ _ _ _ _ _ _ indexes])
      (use runtime_inv_slot [OF inv slot] l limit_ok [OF inv] runtime_inv_load [OF inv]
        runtime_inv_maps [OF inv] in simp_all)
qed

lemma config_put_slot [simp]: "config (put_slot model_id slot s) = config s"
  by (simp add: config_def)

text \<open>The policies the runtime can be asked for: \<open>DrainTimeout\<close> is not zero.\<close>

abbreviation policy_ok :: "unload_policy \<Rightarrow> monotonic_millis \<Rightarrow> bool" where
  "policy_ok policy now \<equiv> event_ok (RequestUnload policy now)"

lemma request_unload_resident:
  assumes "request_unload policy now l = (r, l')" and "lifecycle_wf l" and "resident l"
    and "policy_ok policy now"
  shows "active_count l' = active_count l \<and> lifecycle_wf l' \<and> resident l' \<and> r \<noteq> Inr UnloadComplete"
  using assms by (cases l) (auto split: unload_policy.splits)

lemma poll_lifecycle_resident:
  assumes "poll_lifecycle now l = (r, l')" and "lifecycle_wf l" and "resident l"
  shows "active_count l' = active_count l \<and> lifecycle_wf l' \<and> resident l'"
  using assms by (cases l) (auto split: if_splits)

lemma unload_model_total:
  assumes inv: "runtime_inv B s" and stable: "stable_ids B" and policy: "policy_ok policy now"
  shows "\<exists>r s'. runtime_unload_model B handle policy now s = Some (r, s') \<and> runtime_inv B s'
    \<and> config s' = config s"
proof (cases "exact_model s handle")
  case (Inl e)
  with inv show ?thesis
    by (cases "bt_get (rt_models s) (mh_id handle)") (simp_all add: runtime_unload_model_def)
next
  case (Inr slot)
  then have slot: "bt_get (rt_models s) (mh_id handle) = Some slot" by (simp add: exact_model_Inr)
  obtain r l where unload: "request_unload policy now (sl_lifecycle slot) = (r, l)" by fastforce
  have "lifecycle_wf (sl_lifecycle slot)" "resident (sl_lifecycle slot)"
    using runtime_inv_slot [OF inv slot] by (simp_all add: slot_inv_def)
  note l = request_unload_resident [OF unload this policy]
  let ?s = "put_slot (mh_id handle) (slot\<lparr>sl_lifecycle := l\<rparr>) s"
  have inv1: "runtime_inv B ?s" using put_lifecycle_inv [OF inv slot] l by simp
  obtain r2 s2 where release: "release_model_with_primary B (mh_id handle) OpModelUnload ClassCompletion ?s = (r2, s2)"
    by fastforce
  from cancel_and_release_total [OF inv1 stable, of "mh_id handle" handle]
    release_spec [OF inv1 release] inv1 Inr slot unload release show ?thesis
    by (cases r)
      (auto simp: runtime_unload_model_def Let_def release_model_def rt_bind_def
        split: lifecycle_action.splits sum.splits prod.splits)
qed

lemma poll_draining_inv:
  assumes "runtime_inv B s"
    and "\<forall>(model_id, slot) \<in> set entries. bt_get (rt_models s) model_id = Some slot"
    and "distinct (map fst entries)"
    and "poll_draining now entries s = (r, s')"
  shows "runtime_inv B s' \<and> config s' = config s"
  using assms
proof (induction entries arbitrary: s)
  case (Cons e rest)
  obtain model_id slot where e: "e = (model_id, slot)" by fastforce
  have slot: "bt_get (rt_models s) model_id = Some slot" using Cons.prems(2) by (simp add: e)
  obtain a l where poll: "poll_lifecycle now (sl_lifecycle slot) = (a, l)" by fastforce
  have "lifecycle_wf (sl_lifecycle slot)" "resident (sl_lifecycle slot)"
    using runtime_inv_slot [OF Cons.prems(1) slot] by (simp_all add: slot_inv_def)
  note l = poll_lifecycle_resident [OF poll this]
  let ?s = "put_slot model_id (slot\<lparr>sl_lifecycle := l\<rparr>) s"
  have inv1: "runtime_inv B ?s" using put_lifecycle_inv [OF Cons.prems(1) slot] l by simp
  have rest: "\<forall>(m, sl) \<in> set rest. bt_get (rt_models ?s) m = Some sl"
    using Cons.prems(2,3) by (auto simp: e bt_get_insert image_iff split: prod.splits)
  show ?case
  proof (cases "\<exists>n w. sl_lifecycle slot = Draining n w")
    case False
    then have "poll_draining now rest s = (r, s')"
      using Cons.prems(4) by (cases "sl_lifecycle slot") (simp_all add: e)
    then show ?thesis using Cons.IH [OF Cons.prems(1)] Cons.prems(2,3) by simp
  next
    case True
    then obtain n w where draining: "sl_lifecycle slot = Draining n w" by blast
    show ?thesis
    proof (cases "\<exists>action. a = Inr action \<and> (\<forall>reason. action \<noteq> CancelActive reason)")
      case False
      then have "s' = ?s"
        using Cons.prems(4) poll draining
        by (cases a) (auto simp: e Let_def split: lifecycle_action.splits if_splits)
      with inv1 show ?thesis by simp
    next
      case True
      then obtain action where a: "a = Inr action" "\<forall>reason. action \<noteq> CancelActive reason" by blast
      then have "poll_draining now rest ?s = (r, s')"
        using Cons.prems(4) poll draining
        by (auto simp: e Let_def split: lifecycle_action.splits if_splits)
      then have "runtime_inv B s' \<and> config s' = config ?s"
        using Cons.IH [OF inv1 rest] Cons.prems(3) by simp
      then show ?thesis by simp
    qed
  qed
qed simp

lemma entries_current:
  assumes "runtime_inv B s"
  shows "\<forall>(model_id, slot) \<in> set (bt_entries (rt_models s)). bt_get (rt_models s) model_id = Some slot"
    "distinct (map fst (bt_entries (rt_models s)))"
  using bt_get_entries_member [OF runtime_inv_maps(1) [OF assms]]
    bt.distinct_entries [OF runtime_inv_maps(1) [OF assms]] by auto

lemma poll_unload_total:
  assumes inv: "runtime_inv B s" and stable: "stable_ids B"
  shows "\<exists>t s'. poll_unload_transition B now s = Some (t, s') \<and> runtime_inv B s' \<and> config s' = config s"
proof -
  obtain d s1 where drain: "poll_draining now (bt_entries (rt_models s)) s = (d, s1)" by fastforce
  have inv1: "runtime_inv B s1" and same1: "config s1 = config s"
    using poll_draining_inv [OF inv entries_current [OF inv] drain] by auto
  have cancel: "\<exists>t s'. map_option (apfst (\<lambda>r. Some (handle, r))) (cancel_and_release B model_id handle s1)
      = Some (t, s') \<and> runtime_inv B s' \<and> config s' = config s" for model_id handle
    using cancel_and_release_total [OF inv1 stable, of model_id handle] same1 by (auto simp: apfst_def)
  have release: "runtime_inv B s2 \<and> config s2 = config s"
    if "release_model B model_id s1 = (r, s2)" for model_id r s2
    using release_spec [OF inv1, of model_id OpModelUnload ClassCompletion r s2] that same1
    by (simp add: release_model_def)
  show ?thesis
  proof (cases d)
    case (DrainExpired model_id handle)
    with cancel [of handle model_id] show ?thesis by (simp add: poll_unload_transition_def drain)
  next
    case (DrainError handle e)
    with inv1 same1 show ?thesis by (simp add: poll_unload_transition_def drain)
  next
    case NothingExpired
    with cancel release inv1 same1 show ?thesis
      by (auto simp: poll_unload_transition_def drain apfst_def map_prod_def split: option.splits prod.splits)
  qed
qed

lemma runtime_poll_total:
  assumes "runtime_inv B s" and "stable_ids B"
  shows "\<exists>r s'. runtime_poll B now s = Some (r, s') \<and> runtime_inv B s' \<and> config s' = config s"
  using poll_unload_total [OF assms, of now] by (auto simp: runtime_poll_def apfst_def)

subsection \<open>Clean-up\<close>

lemma cleanup_loop_total:
  assumes stable: "stable_ids B"
  shows "runtime_inv B s \<Longrightarrow> \<exists>r s'. cleanup_loop B s = Some (r, s') \<and> runtime_inv B s'
    \<and> config s' = config s \<and> (r = Inr () \<and> poll_cleanup B s' = (Inr CleanupIdle, s')
        \<or> r = Inl (RuntimeLifecycle InvalidTransition))
    \<and> (all_parked s \<longrightarrow> is_ok r \<longrightarrow> all_parked s')"
proof (induction "registry_work s" arbitrary: s rule: less_induct)
  case less
  obtain a s1 where poll: "poll_cleanup B s = (a, s1)" by fastforce
  note spec = poll_cleanup_spec [OF less.prems stable poll]
  show ?case
  proof (cases "a = Inr CleanupIdle \<and> s1 = s")
    case True
    with poll less.prems show ?thesis by (simp add: cleanup_loop.simps [of B s])
  next
    case False
    with spec(4) obtain state where work: "registry_work s1 < registry_work s"
      and answer: "retry_answer a state" by blast
    show ?thesis
    proof (cases a)
      case (Inl e)
      with answer poll spec(1,2) show ?thesis
        by (auto simp: retry_answer_def cleanup_loop.simps [of B s])
    next
      case (Inr p)
      with answer have "p \<noteq> CleanupIdle" by (auto simp: retry_answer_def failed_retry_def split: if_splits)
      with less.hyps [OF work spec(1)] poll Inr spec(2,5) show ?thesis
        by (auto simp: cleanup_loop.simps [of B s])
    qed
  qed
qed

subsection \<open>Shutdown\<close>

lemma shutdown_cancel_loop_total:
  assumes stable: "stable_ids B"
  shows "runtime_inv B s \<Longrightarrow> \<exists>r s'. shutdown_cancel_loop B model_id n s = Some (r, s')
    \<and> runtime_inv B s' \<and> config s' = config s
    \<and> (\<forall>other. other \<noteq> model_id \<longrightarrow> bt_get (rt_models s') other = bt_get (rt_models s) other)
    \<and> (is_ok r \<and> first_request s' model_id = None \<or> r = Inl (RuntimeLifecycle InvalidTransition))
    \<and> (\<forall>slot slot'. bt_get (rt_models s) model_id = Some slot \<longrightarrow> leaving (sl_lifecycle slot)
         \<longrightarrow> bt_get (rt_models s') model_id = Some slot' \<longrightarrow> leaving (sl_lifecycle slot'))"
proof (induction "requests_of s model_id" arbitrary: s n rule: less_induct)
  case less
  note inv = less.prems
  show ?case
  proof (cases "first_request s model_id")
    case None
    with inv show ?thesis by (simp add: shutdown_cancel_loop.simps [of B model_id n s])
  next
    case (Some request_id)
    then obtain slot request where slot: "bt_get (rt_models s) model_id = Some slot"
      and request: "bt_get (sl_requests slot) request_id = Some request" by (rule first_request_Some)
    obtain r s1 where remove: "remove_request B request_id OpShutdown ClassShutdown s = (r, s1)"
      by fastforce
    note spec = remove_request_spec [OF inv stable slot request remove]
    have fewer: "requests_of s1 model_id < requests_of s model_id"
      by (rule removed_fewer [OF inv slot request spec(2)])
    have same: "config s1 = config s"
      "\<forall>other. other \<noteq> model_id \<longrightarrow> bt_get (rt_models s1) other = bt_get (rt_models s) other"
      and leaving: "leaving (sl_lifecycle slot) \<Longrightarrow> bt_get (rt_models s1) model_id = Some slot'
        \<Longrightarrow> leaving (sl_lifecycle slot')" for slot'
      using spec(2) by (auto simp: request_removed_def split: option.splits)
    show ?thesis
    proof (cases "preserve_primary_cleanup r")
      case (Inl e)
      then have r: "r = Inl e" "\<not> is_cleanup_error e"
        by (auto simp: preserve_primary_cleanup_def split: sum.splits if_splits)
      with spec(2) have "e = RuntimeLifecycle InvalidTransition"
        by (auto simp: request_removed_def split: option.splits)
      with r Inl spec(1) same leaving slot show ?thesis
        by (auto simp: shutdown_cancel_loop.simps [of B model_id n s] Some remove)
    next
      case (Inr u)
      have step: "shutdown_cancel_loop B model_id n s
          = shutdown_cancel_loop B model_id (saturating_add n 1) s1"
        using Inr by (simp add: shutdown_cancel_loop.simps [of B model_id n s] Some remove)
      show ?thesis
      proof (cases "bt_get (rt_models s1) model_id")
        case None
        then have "first_request s1 model_id = None" by (simp add: first_request_def)
        with None step spec(1) same show ?thesis
          by (simp add: shutdown_cancel_loop.simps [of B model_id _ s1])
      next
        case (Some slot1)
        from less.hyps [OF fewer spec(1), of "saturating_add n 1"] Some slot leaving [OF _ Some] same
        show ?thesis unfolding step by simp blast
      qed
    qed
  qed
qed

lemma begin_shutdown_resident:
  assumes "lifecycle_wf l" and "resident l" and "begin_shutdown l = (r, l')"
  shows "r = Inr () \<and> active_count l' = active_count l \<and> lifecycle_wf l' \<and> resident l' \<and> leaving l'"
  using assms by (cases l) (auto simp: begin_shutdown_def)

lemma leaving_idle_unloading:
  "leaving l \<Longrightarrow> resident l \<Longrightarrow> lifecycle_wf l \<Longrightarrow> active_count l = 0 \<Longrightarrow> l = Unloading"
  by (cases l) (auto simp: unat_eq_0)

lemma release_after_shutdown_spec:
  assumes inv: "runtime_inv B s" and idle: "first_request s model_id = None"
    and leaving: "\<forall>slot. bt_get (rt_models s) model_id = Some slot \<longrightarrow> leaving (sl_lifecycle slot)"
    and release: "release_after_shutdown B model_id s = (r, s')"
  shows "r = Inr () \<and> runtime_inv B s' \<and> config s' = config s
    \<and> (\<forall>other. other \<noteq> model_id \<longrightarrow> bt_get (rt_models s') other = bt_get (rt_models s) other)
    \<and> (\<forall>slot. bt_get (rt_models s') model_id = Some slot \<longrightarrow> parked slot)"
proof (cases "bt_get (rt_models s) model_id")
  case None
  with release inv show ?thesis by (simp add: release_after_shutdown_def)
next
  case (Some slot)
  have slot_inv: "slot_inv (maximum_cleanup_attempts s) model_id slot" using runtime_inv_slot [OF inv Some] .
  have empty: "bt_is_empty (sl_requests slot)" using idle Some by (simp add: first_request_None)
  then have unloading: "sl_lifecycle slot = Unloading"
    using slot_inv leaving Some by (intro leaving_idle_unloading) (simp_all add: slot_inv_def)
  show ?thesis
  proof (cases "bt_is_empty (sl_pending_sequences slot)")
    case False
    with release inv Some unloading show ?thesis
      by (auto simp: release_after_shutdown_def parked_def)
  next
    case True
    obtain r1 s1 where run: "release_model_with_primary B model_id OpShutdown ClassShutdown s = (r1, s1)"
      by fastforce
    then have r: "r = preserve_primary_cleanup r1 \<and> s' = s1"
      using release Some empty unloading True by (auto simp: release_after_shutdown_def)
    note spec = release_spec [OF inv run]
    have "\<not> release_refused model_id r1 s s1"
      using Some empty unloading True run
      by (auto simp: release_refused_def idle_unloading_def)
    with spec(5) have "(r1 = Inr () \<or> (\<exists>e. r1 = Inl e \<and> is_cleanup_error e))
        \<and> rt_models s1 = bt_remove model_id (rt_models s)"
      by (auto simp: released_def quarantined_model_def)
    with r spec(1,2) show ?thesis
      by (auto simp: preserve_primary_cleanup_def bt_get_remove)
  qed
qed

lemma shutdown_models_total:
  assumes stable: "stable_ids B"
  shows "runtime_inv B s
    \<Longrightarrow> \<forall>model_id slot. bt_get (rt_models s) model_id = Some slot \<longrightarrow> model_id \<in> set ids \<or> parked slot
    \<Longrightarrow> \<exists>r s'. shutdown_models B ids n s = Some (r, s') \<and> runtime_inv B s' \<and> config s' = config s
      \<and> (is_ok r \<and> all_parked s' \<or> r = Inl (RuntimeLifecycle InvalidTransition))"
proof (induction ids arbitrary: n s)
  case Nil
  then show ?case by (simp add: all_parked_def)
next
  case (Cons model_id ids)
  note inv = Cons.prems(1)
  show ?case
  proof (cases "bt_get (rt_models s) model_id")
    case None
    then have "\<forall>m slot. bt_get (rt_models s) m = Some slot \<longrightarrow> m \<in> set ids \<or> parked slot"
      using Cons.prems(2) by (metis set_ConsD option.distinct(1))
    from Cons.IH [OF inv this, of n] None show ?thesis by simp
  next
    case (Some slot)
    have slot_inv: "slot_inv (maximum_cleanup_attempts s) model_id slot" using runtime_inv_slot [OF inv Some] .
    obtain b l where begin_step: "begin_shutdown (sl_lifecycle slot) = (b, l)" by fastforce
    have l: "b = Inr ()" "active_count l = active_count (sl_lifecycle slot)" "lifecycle_wf l" "resident l" "leaving l"
      using begin_shutdown_resident [OF _ _ begin_step] slot_inv by (auto simp: slot_inv_def)
    let ?s = "put_slot model_id (slot\<lparr>sl_lifecycle := l\<rparr>) s"
    have inv1: "runtime_inv B ?s" by (rule put_lifecycle_inv [OF inv Some l(2-4)])
    obtain r s2 where loop: "cancel_all_requests_for_shutdown B model_id ?s = Some (r, s2)"
      and inv2: "runtime_inv B s2" and same2: "config s2 = config s"
      and others2: "\<And>other. other \<noteq> model_id \<Longrightarrow> bt_get (rt_models s2) other = bt_get (rt_models s) other"
      and r: "is_ok r \<and> first_request s2 model_id = None \<or> r = Inl (RuntimeLifecycle InvalidTransition)"
      and leaving2: "\<forall>slot. bt_get (rt_models s2) model_id = Some slot \<longrightarrow> leaving (sl_lifecycle slot)"
      using shutdown_cancel_loop_total [OF stable inv1, of model_id 0] l(5)
      by (auto simp: cancel_all_requests_for_shutdown_def bt_get_insert)
    show ?thesis
    proof (cases r)
      case (Inl e)
      with r loop inv2 same2 l(1) Some begin_step show ?thesis by (simp add: Let_def)
    next
      case (Inr k)
      obtain r3 s3 where release: "release_after_shutdown B model_id s2 = (r3, s3)" by fastforce
      have s3: "r3 = Inr ()" "runtime_inv B s3" "config s3 = config s2"
        "\<And>other. other \<noteq> model_id \<Longrightarrow> bt_get (rt_models s3) other = bt_get (rt_models s2) other"
        "\<And>slot. bt_get (rt_models s3) model_id = Some slot \<Longrightarrow> parked slot"
        using release_after_shutdown_spec [OF inv2 _ leaving2 release] r Inr by auto
      have "\<forall>m slot. bt_get (rt_models s3) m = Some slot \<longrightarrow> m \<in> set ids \<or> parked slot"
        using Cons.prems(2) s3(4,5) others2 by (metis set_ConsD)
      from Cons.IH [OF s3(2) this, of "saturating_add n k"] Some begin_step l(1) loop Inr release s3(1,3) same2
      show ?thesis by (simp add: Let_def)
    qed
  qed
qed

end
