(* ===== verification/Registry_Runs.thy ===== *)
theory Registry_Runs
  imports Registry_Loops
begin

section \<open>Runs of the registry\<close>

text \<open>
  The calls of the registry's callers as one function, \<open>runtime_apply\<close>, the registries they
  reach, and what holds of all of them. The registry is owned by one thread, so a run is a
  sequence of calls. \<open>None\<close> is a call that does not return.
\<close>

subsection \<open>Calls\<close>

datatype 'src runtime_call =
    CallLoad model_id 'src device_id device_kind
  | CallStart model_handle request_id sequence_id sequence_configuration
  | CallStartGeneration model_handle request_id sequence_id sequence_configuration memory_footprint usize
  | CallPrefill request_id "token_id list" bool "f32 list"
  | CallDecode request_id token_id "f32 list"
  | CallComplete request_id finish_reason
  | CallCancel request_id cancellation_reason
  | CallFail request_id runtime_operation failure_class
  | CallReleaseWorkspace memory_footprint
  | CallUnload model_handle unload_policy monotonic_millis
  | CallPollCleanup
  | CallPoll monotonic_millis
  | CallShutdown
  | CallRecordError runtime_error

datatype runtime_reply =
    ReplyLoad load_receipt
  | ReplyStart request_start_receipt
  | ReplyPrefill prefill_receipt "f32 list"
  | ReplyDecode decode_receipt "f32 list"
  | ReplyFinish finish_reason
  | ReplyUnit
  | ReplyUnload unload_receipt
  | ReplyCleanup cleanup_poll
  | ReplyPoll bool
  | ReplyShutdown shutdown_receipt

abbreviation reply :: "('a \<Rightarrow> runtime_reply) \<Rightarrow> (runtime_error + 'a) \<times> 's
    \<Rightarrow> (runtime_error + runtime_reply) \<times> 's" where
  "reply f \<equiv> apfst (map_sum id f)"

fun runtime_apply ::
    "('src, 'ld, 'm, 'q) backend \<Rightarrow> 'src runtime_call \<Rightarrow> ('ld, 'm, 'q) runtime
       \<Rightarrow> ((runtime_error + runtime_reply) \<times> ('ld, 'm, 'q) runtime) option" where
  "runtime_apply B (CallLoad model_id source device kind) s =
     Some (reply ReplyLoad (runtime_load_model B model_id source device kind s))"
| "runtime_apply B (CallStart handle request_id sequence_id configuration) s =
     Some (reply ReplyStart (runtime_start_request B handle request_id sequence_id configuration s))"
| "runtime_apply B (CallStartGeneration handle request_id sequence_id configuration workspace capacity) s =
     Some (reply ReplyStart
       (start_generation_request B handle request_id sequence_id configuration workspace capacity s))"
| "runtime_apply B (CallPrefill request_id tokens emit logits) s =
     (case runtime_prefill B request_id tokens emit logits s of
        (r, logits, s') \<Rightarrow> Some (map_sum id (\<lambda>receipt. ReplyPrefill receipt logits) r, s'))"
| "runtime_apply B (CallDecode request_id token logits) s =
     (case runtime_decode B request_id token logits s of
        (r, logits, s') \<Rightarrow> Some (map_sum id (\<lambda>receipt. ReplyDecode receipt logits) r, s'))"
| "runtime_apply B (CallComplete request_id reason) s =
     Some (reply ReplyFinish (runtime_complete_request B request_id reason s))"
| "runtime_apply B (CallCancel request_id reason) s =
     Some (reply ReplyFinish (runtime_cancel_request B request_id reason s))"
| "runtime_apply B (CallFail request_id operation failure) s =
     Some (reply (\<lambda>_. ReplyUnit) (runtime_fail_request B request_id operation failure s))"
| "runtime_apply B (CallReleaseWorkspace footprint) s =
     Some (reply (\<lambda>_. ReplyUnit) (release_generation_workspace footprint s))"
| "runtime_apply B (CallUnload handle policy now) s =
     map_option (reply ReplyUnload) (runtime_unload_model B handle policy now s)"
| "runtime_apply B CallPollCleanup s = Some (reply ReplyCleanup (poll_cleanup B s))"
| "runtime_apply B (CallPoll now) s = map_option (reply ReplyPoll) (runtime_poll B now s)"
| "runtime_apply B CallShutdown s = map_option (reply ReplyShutdown) (runtime_shutdown B s)"
| "runtime_apply B (CallRecordError e) s = Some (Inr ReplyUnit, record_maintenance_error e s)"

text \<open>A drain policy carries a \<open>DrainTimeout\<close>, which is not zero.\<close>

fun call_ok :: "'src runtime_call \<Rightarrow> bool" where
  "call_ok (CallUnload handle policy now) \<longleftrightarrow> policy_ok policy now"
| "call_ok _ \<longleftrightarrow> True"

fun runtime_run ::
    "('src, 'ld, 'm, 'q) backend \<Rightarrow> 'src runtime_call list \<Rightarrow> ('ld, 'm, 'q) runtime
       \<Rightarrow> ((runtime_error + runtime_reply) list \<times> ('ld, 'm, 'q) runtime) option" where
  "runtime_run B [] s = Some ([], s)"
| "runtime_run B (c # cs) s =
     (case runtime_apply B c s of
        None \<Rightarrow> None
      | Some (r, s') \<Rightarrow> map_option (apfst ((#) r)) (runtime_run B cs s'))"

inductive runtime_reachable ::
    "('src, 'ld, 'm, 'q) backend \<Rightarrow> ('ld, 'm, 'q) runtime \<Rightarrow> bool" for B where
  new: "rl_maximum_attempts limits \<noteq> 0 \<Longrightarrow> runtime_reachable B (runtime_new loader limits)"
| call: "runtime_reachable B s \<Longrightarrow> call_ok c \<Longrightarrow> runtime_apply B c s = Some (r, s')
    \<Longrightarrow> runtime_reachable B s'"

subsection \<open>Every call returns and keeps the invariant\<close>

lemma begin_shutdown_inv [simp]: "runtime_inv B (s\<lparr>rt_shutting_down := b\<rparr>) = runtime_inv B s"
  by (simp add: runtime_inv_defs registry_indexes_def maximum_cleanup_attempts_def)

lemma record_error_inv [simp]: "runtime_inv B (record_maintenance_error e s) = runtime_inv B s"
  by (simp add: record_maintenance_error_def runtime_inv_defs registry_indexes_def
      maximum_cleanup_attempts_def)

lemma keys_entries: "bt_get m k = Some v \<Longrightarrow> k \<in> set (bt_keys m)"
  unfolding bt_get_entries by (metis domI dom_map_of_conv_image_fst set_map)

lemma runtime_shutdown_total:
  assumes inv: "runtime_inv B s" and stable: "stable_ids B"
  shows "\<exists>r s'. runtime_shutdown B s = Some (r, s') \<and> runtime_inv B s'
    \<and> config s' = config (s\<lparr>rt_shutting_down := True\<rparr>)
    \<and> (r = Inl (RuntimeLifecycle InvalidTransition)
       \<or> all_parked s' \<and> poll_cleanup B s' = (Inr CleanupIdle, s')
         \<and> (\<exists>models cancelled. r = finish_shutdown models cancelled s'))"
proof -
  let ?s = "s\<lparr>rt_shutting_down := True\<rparr>"
  have inv0: "runtime_inv B ?s" using inv by simp
  have "\<forall>m slot. bt_get (rt_models ?s) m = Some slot \<longrightarrow> m \<in> set (bt_keys (rt_models s)) \<or> parked slot"
    using keys_entries by fastforce
  from shutdown_models_total [OF stable inv0 this, of 0] obtain r s1
    where models: "shutdown_models B (bt_keys (rt_models s)) 0 ?s = Some (r, s1)"
    and inv1: "runtime_inv B s1" and same: "config s1 = config ?s"
    and r: "is_ok r \<and> all_parked s1 \<or> r = Inl (RuntimeLifecycle InvalidTransition)" by blast
  show ?thesis
  proof (cases r)
    case (Inl e)
    with models inv1 same r show ?thesis by (simp add: runtime_shutdown_def Let_def)
  next
    case (Inr n)
    from cleanup_loop_total [OF stable inv1] obtain c s2
      where "cleanup_loop B s1 = Some (c, s2)" "runtime_inv B s2" "config s2 = config s1"
        "c = Inr () \<and> poll_cleanup B s2 = (Inr CleanupIdle, s2) \<or> c = Inl (RuntimeLifecycle InvalidTransition)"
        "all_parked s1 \<longrightarrow> is_ok c \<longrightarrow> all_parked s2" by blast
    with models Inr same r show ?thesis
      by (auto simp: runtime_shutdown_def Let_def) blast
  qed
qed

lemma runtime_apply_total:
  assumes inv: "runtime_inv B s" and stable: "stable_ids B" and ok: "call_ok c"
  shows "\<exists>r s'. runtime_apply B c s = Some (r, s') \<and> runtime_inv B s'"
proof (cases c)
  case (CallLoad m source d k)
  obtain r s' where load: "runtime_load_model B m source d k s = (r, s')" by fastforce
  from load_model_inv [OF inv load] load show ?thesis by (simp add: CallLoad)
next
  case (CallStart h rid sid conf)
  obtain r s' where start: "runtime_start_request B h rid sid conf s = (r, s')" by fastforce
  then have "runtime_inv B s'"
    unfolding runtime_start_request_def by (intro start_request_inv [OF inv]) auto
  with start show ?thesis by (simp add: CallStart)
next
  case (CallStartGeneration h rid sid conf w n)
  obtain r s' where start: "start_generation_request B h rid sid conf w n s = (r, s')" by fastforce
  then have "runtime_inv B s'"
    unfolding start_generation_request_def by (intro start_request_inv [OF inv]) auto
  with start show ?thesis by (simp add: CallStartGeneration)
next
  case (CallPrefill rid tokens emit logits)
  obtain r l s' where step: "runtime_prefill B rid tokens emit logits s = (r, l, s')" by (metis prod_cases3)
  from prefill_inv [OF inv stable step] step show ?thesis by (simp add: CallPrefill)
next
  case (CallDecode rid token logits)
  obtain r l s' where step: "runtime_decode B rid token logits s = (r, l, s')" by (metis prod_cases3)
  from decode_inv [OF inv stable step] step show ?thesis by (simp add: CallDecode)
next
  case (CallReleaseWorkspace f)
  obtain r s' where release: "release_generation_workspace f s = (r, s')" by fastforce
  from release_workspace_inv [OF inv release] release show ?thesis by (simp add: CallReleaseWorkspace)
next
  case (CallUnload h policy now)
  with ok unload_model_total [OF inv stable, of policy now h] show ?thesis by (auto simp: apfst_def)
next
  case CallPollCleanup
  obtain r s' where poll: "poll_cleanup B s = (r, s')" by fastforce
  from poll_cleanup_spec(1) [OF inv stable poll] poll show ?thesis by (simp add: CallPollCleanup)
next
  case (CallPoll now)
  with runtime_poll_total [OF inv stable, of now] show ?thesis by (auto simp: apfst_def)
next
  case CallShutdown
  with runtime_shutdown_total [OF inv stable] show ?thesis by (auto simp: apfst_def)
qed (use inv in
    \<open>auto simp: runtime_complete_request_def runtime_cancel_request_def runtime_fail_request_def
       rt_bind_def apfst_def map_prod_def split: prod.splits sum.splits
       dest: remove_request_inv(1) [OF inv stable]\<close>)

lemma reachable_inv:
  assumes "stable_ids B" shows "runtime_reachable B s \<Longrightarrow> runtime_inv B s"
proof (induction rule: runtime_reachable.induct)
  case (new limits loader)
  then show ?case by (rule runtime_inv_new)
next
  case (call s c r s')
  from runtime_apply_total [OF call.IH assms call.hyps(2)] call.hyps(3) show ?case by simp
qed

end
