(* ===== verification/Registry_Example.thy ===== *)
theory Registry_Example
  imports Registry_Runs
begin

section \<open>A concrete backend and a concrete run\<close>

text \<open>
  A backend whose sequences fail to be destroyed as many times as their identity says, and the
  registries that a load and two admissions reach on it. The witnesses of the registry's
  properties apply them here.
\<close>

definition example_metadata :: model_metadata where
  "example_metadata = \<lparr>md_architecture = Llama, md_scalar_type = F32, md_quantization = QuantNone,
     md_vocabulary_size = 8, md_context_length = 8\<rparr>"

definition example_footprint :: memory_footprint where
  "example_footprint = \<lparr>host_weight_bytes = 1, device_weight_bytes = 0, host_working_bytes = 0,
     device_working_bytes = 0, cache_bytes_per_token = 0\<rparr>"

definition example_descriptor :: model_descriptor where
  "example_descriptor = \<lparr>desc_backend = BackendId 1, desc_metadata = example_metadata,
     desc_capabilities = \<lparr>mc_operations = capability_empty, mc_maximum_context_tokens = 8,
       mc_maximum_sequences = 4, mc_maximum_prefill_batch = 8\<rparr>,
     desc_estimated_footprint = example_footprint\<rparr>"

definition example_loader :: "(unit, unit, model_handle) model_loader" where
  "example_loader = \<lparr>ml_inspect = (\<lambda>_ _. Inr example_descriptor),
     ml_plan_load = (\<lambda>_ _ _. Inr \<lparr>lp_descriptor = example_descriptor,
       lp_expected_footprint = example_footprint\<rparr>),
     ml_load = (\<lambda>_ _ configuration. (Inr (lc_handle configuration), ()))\<rparr>"

definition example_model :: "(model_handle, sequence_id \<times> nat) loaded_model" where
  "example_model = \<lparr>lm_sequence = \<lparr>bs_id = fst, bs_state = (\<lambda>_. SeqReady), bs_position = (\<lambda>_. 0),
       bs_token_capacity = (\<lambda>_. 8)\<rparr>,
     lm_handle = id, lm_metadata = (\<lambda>_. example_metadata),
     lm_plan_sequence = (\<lambda>_ configuration. Inr \<lparr>sp_configuration = configuration,
       sp_expected_footprint = example_footprint, sp_logits_capacity = 0\<rparr>),
     lm_create_sequence = (\<lambda>m i _. (Inr (i, unat (sequence_id_get i)), m)),
     lm_prefill_buffer_requirements = (\<lambda>_ _ _. 0), lm_decode_buffer_requirements = (\<lambda>_ _ _. 0),
     lm_prefill_prepared = (\<lambda>m q _ buffers. (Inl SequenceUnsupported, m, q, pb_logits buffers)),
     lm_decode_prepared = (\<lambda>m q _ buffers. (Inl SequenceUnsupported, m, q, pb_logits buffers)),
     lm_destroy_sequence = (\<lambda>m (i, failures).
       if failures = 0 then (Inr (), m, (i, failures)) else (Inl SequenceInvalidState, m, (i, failures - 1))),
     lm_reset_sequence = (\<lambda>m q. (Inl SequenceUnsupported, m, q)),
     lm_synchronize = (\<lambda>m. (Inr (), m)), lm_prepare_unload = (\<lambda>m. (Inr (), m))\<rparr>"

definition example_backend :: "(unit, unit, model_handle, sequence_id \<times> nat) backend" where
  "example_backend = \<lparr>be_loader = example_loader, be_model = example_model\<rparr>"

definition example_limits :: runtime_limits where
  "example_limits = \<lparr>rl_maximum_loaded_models = 2, rl_maximum_active_requests = 4,
     rl_memory_budget = \<lparr>budget_host_bytes = 8, budget_device_bytes = 8\<rparr>, rl_maximum_attempts = 3\<rparr>"

lemma example_stable: "stable_ids example_backend"
  by (auto simp: stable_ids_def example_backend_def example_model_def split: prod.splits)

definition example_handle :: model_handle where
  "example_handle = \<lparr>mh_id = ModelId 1, mh_generation = ModelGeneration 1\<rparr>"

definition example_configuration :: sequence_configuration where
  "example_configuration = \<lparr>sc_maximum_tokens = 8, sc_maximum_prefill_batch = 8\<rparr>"

definition example_empty :: "(unit, model_handle, sequence_id \<times> nat) runtime" where
  "example_empty = runtime_new () example_limits"

lemmas example_defs = example_backend_def example_loader_def example_model_def example_metadata_def
  example_descriptor_def example_limits_def example_handle_def
  example_configuration_def

definition example_slot :: "(model_handle, sequence_id \<times> nat) model_slot" where
  "example_slot = \<lparr>sl_handle = example_handle, sl_descriptor = example_descriptor,
     sl_lifecycle = Ready, sl_model = example_handle, sl_model_footprint = example_footprint,
     sl_reserved_footprint = example_footprint, sl_requests = [], sl_pending_sequences = [],
     sl_poisoned = False, sl_cancelled_requests = 0\<rparr>"

definition example_loaded :: "(unit, model_handle, sequence_id \<times> nat) runtime" where
  "example_loaded = example_empty\<lparr>rt_models := [(ModelId 1, example_slot)],
     rt_generations := [(ModelId 1, ModelGeneration 1)], rt_reserved_footprint := example_footprint\<rparr>"

definition example_request :: "sequence_id \<Rightarrow> nat \<Rightarrow> (sequence_id \<times> nat) request_slot" where
  "example_request i failures = \<lparr>rq_sequence = (i, failures), rq_backend_footprint = example_footprint,
     rq_workspace_footprint = footprint_default, rq_usage = generation_usage_default\<rparr>"

text \<open>One request whose sequence cannot be destroyed at once, then a second one that can.\<close>

definition example_one :: "(unit, model_handle, sequence_id \<times> nat) runtime" where
  "example_one = example_loaded\<lparr>
     rt_models := [(ModelId 1, example_slot\<lparr>sl_lifecycle := Active 1,
       sl_requests := [(RequestId 1, example_request (SequenceId 1) 1)],
       sl_reserved_footprint := example_footprint\<lparr>host_weight_bytes := 2\<rparr>\<rparr>)],
     rt_request_index := [(RequestId 1, ModelId 1)],
     rt_sequence_index := [(SequenceId 1, RequestId 1)], rt_active_requests := 1,
     rt_reserved_footprint := example_footprint\<lparr>host_weight_bytes := 2\<rparr>\<rparr>"

definition example_two :: "(unit, model_handle, sequence_id \<times> nat) runtime" where
  "example_two = example_loaded\<lparr>
     rt_models := [(ModelId 1, example_slot\<lparr>sl_lifecycle := Active 2,
       sl_requests := [(RequestId 1, example_request (SequenceId 1) 1),
         (RequestId 2, example_request (SequenceId 0) 0)],
       sl_reserved_footprint := example_footprint\<lparr>host_weight_bytes := 3\<rparr>\<rparr>)],
     rt_request_index := [(RequestId 1, ModelId 1), (RequestId 2, ModelId 1)],
     rt_sequence_index := [(SequenceId 0, RequestId 2), (SequenceId 1, RequestId 1)],
     rt_active_requests := 2,
     rt_reserved_footprint := example_footprint\<lparr>host_weight_bytes := 3\<rparr>\<rparr>"

lemma example_numbers: "\<not> (4 :: u32) \<le> 1" "\<not> (3 :: u32) \<le> 1"
  by (simp_all add: word_le_nat_alt)

lemmas example_eval = example_numbers runtime_new_def example_defs reject_if_shutting_down_def
  bt_get_def bt_empty_def bt_entries_def bt_remove_def next_handle_def Let_def checked_add_def checked_sub_def
  usize_saturating_add_def usize_max_def admit_footprint_def checked_add_footprint_def
  checked_sub_footprint_def footprint_default_def example_footprint_def host_bytes_def device_bytes_def
  saturating_add_def example_slot_def example_empty_def example_request_def

lemma example_load: "runtime_load_model example_backend (ModelId 1) () (DeviceId 0) Cpu example_empty
   = (Inr \<lparr>lr_handle = example_handle, lr_descriptor = example_descriptor,
        lr_reserved_footprint = example_footprint\<rparr>, example_loaded)"
  by (simp add: runtime_load_model_def example_loaded_def example_eval)

lemma example_start_one: "runtime_start_request example_backend example_handle (RequestId 1)
    (SequenceId 1) example_configuration example_loaded
  = (Inr \<lparr>rr_request_id = RequestId 1, rr_sequence_id = SequenceId 1, rr_logits_capacity = 0,
       rr_reserved_footprint = example_footprint\<rparr>, example_one)"
  by (simp add: runtime_start_request_def start_request_with_reservation_def plan_admission_def
      commit_admission_def exact_model_def example_loaded_def example_one_def example_eval)

lemma example_start_two: "runtime_start_request example_backend example_handle (RequestId 2)
    (SequenceId 0) example_configuration example_one
  = (Inr \<lparr>rr_request_id = RequestId 2, rr_sequence_id = SequenceId 0, rr_logits_capacity = 0,
       rr_reserved_footprint = example_footprint\<rparr>, example_two)"
  by (simp add: runtime_start_request_def start_request_with_reservation_def plan_admission_def
      commit_admission_def exact_model_def example_loaded_def example_one_def example_two_def example_eval)

lemma example_empty_reachable: "runtime_reachable example_backend example_empty"
  unfolding example_empty_def by (rule runtime_reachable.new) (simp add: example_limits_def)

lemma example_loaded_reachable: "runtime_reachable example_backend example_loaded"
  by (rule runtime_reachable.call [OF example_empty_reachable,
        where c = "CallLoad (ModelId 1) () (DeviceId 0) Cpu"]) (simp_all add: example_load)

lemma example_one_reachable: "runtime_reachable example_backend example_one"
  by (rule runtime_reachable.call [OF example_loaded_reachable, where c =
        "CallStart example_handle (RequestId 1) (SequenceId 1) example_configuration"])
    (simp_all add: example_start_one)

lemma example_two_reachable: "runtime_reachable example_backend example_two"
  by (rule runtime_reachable.call [OF example_one_reachable, where c =
        "CallStart example_handle (RequestId 2) (SequenceId 0) example_configuration"])
    (simp_all add: example_start_two)

lemma example_shutdown: "\<exists>s. runtime_shutdown example_backend example_two
    = Some (Inl (RuntimeLifecycle InvalidTransition), s)"
  by (simp add: runtime_shutdown_def cancel_all_requests_for_shutdown_def
      shutdown_cancel_loop.simps first_request_def bt_first_def remove_request_def request_model_id_def
      quarantine_request_def drop_request_def release_model_with_primary_def begin_shutdown_def
      preserve_primary_cleanup_def cleanup_retention_error_def cleanup_exhausted_def maximum_cleanup_attempts_def
      example_loaded_def example_two_def example_eval)

end
