(* ===== verification/Registry_Properties.thy ===== *)
theory Registry_Properties
  imports Registry_Example
begin

section \<open>Properties of the model registry\<close>

text \<open>
  What the registry promises to its owner, over every sequence of calls on a new registry, for
  every backend whose sequence identities are stable. The witnesses are on the concrete backend
  of \<open>Registry_Example\<close>.
\<close>

subsection \<open>Termination and accounting\<close>

text \<open>
  \<^bold>\<open>C6\<close>. Every call returns. From a registry that any sequence of calls reaches, every call
  returns, whatever the backend answers: the loops of \<open>unload_model\<close>, \<open>poll\<close> and \<open>shutdown\<close> that
  cancel all requests or retry all quarantined resources end.
\<close>
theorem registry_calls_return:
  assumes "stable_ids B" and "runtime_reachable B s" and "call_ok c"
  shows "\<exists>r s'. runtime_apply B c s = Some (r, s')"
  using runtime_apply_total [OF reachable_inv [OF assms(1,2)] assms(1,3)] by blast

theorem registry_calls_return_witness:
  "\<exists>r s'. runtime_apply example_backend CallShutdown example_two = Some (r, s')"
  by (rule registry_calls_return [OF example_stable example_two_reachable]) simp

text \<open>
  \<^bold>\<open>C3\<close>. Memory accounting is exact. In every reachable registry and for every field of a
  footprint, what is reserved is exactly the sum of the resident models, the active requests'
  backend memory, the quarantined sequences, the quarantined models and the generation
  workspaces; a slot's own reservation is exactly its share with its requests' workspaces; and
  the total is within the configured budget. No sum wraps.
\<close>
theorem registry_memory_exact:
  assumes "stable_ids B" and "runtime_reachable B s"
  shows "(footprint_field (rt_reserved_footprint s) c =
      bt_total (\<lambda>slot. footprint_field (sl_model_footprint slot) c
        + bt_total (\<lambda>request. footprint_field (rq_backend_footprint request) c) (sl_requests slot)
        + bt_total (\<lambda>pending. footprint_field (ps_footprint pending) c) (sl_pending_sequences slot))
        (rt_models s)
      + bt_total (\<lambda>pending. footprint_field (pm_footprint pending) c) (rt_pending_models s)
      + footprint_field (rt_reserved_generation_workspace s) c)
    \<and> within_budget (rt_reserved_footprint s) (rl_memory_budget (rt_limits s))
    \<and> (\<forall>slot. bt_get (rt_models s) model_id = Some slot \<longrightarrow>
      footprint_field (sl_reserved_footprint slot) c = slot_backend_load slot c + slot_workspace_load slot c)"
  using runtime_inv_load [OF reachable_inv [OF assms]] runtime_inv_slot [OF reachable_inv [OF assms]]
  by (auto simp: registry_load_def slot_backend_load_def slot_inv_def)

theorem registry_memory_exact_witness:
  "within_budget (rt_reserved_footprint example_two) (rl_memory_budget (rt_limits example_two))
   \<and> footprint_field (rt_reserved_footprint example_two) HostWeight = 3"
  using registry_memory_exact [OF example_stable example_two_reachable]
  by (simp add: example_two_def)

text \<open>
  \<^bold>\<open>C4\<close>. The indexes and counters agree with the slots. In every reachable registry a request is
  in the request index exactly when the model it names holds it, and no other model does; a
  sequence identity is listed exactly for the request that owns the sequence; a request is never
  both active and quarantined; the active counter is the number of requests over all models, and
  each model's lifecycle accounts for exactly its requests.
\<close>
theorem registry_indexes_exact:
  assumes "stable_ids B" and "runtime_reachable B s"
  shows "(bt_get (rt_request_index s) request_id = Some model_id
        \<longleftrightarrow> active_request (rt_models s) model_id request_id \<noteq> None)
    \<and> (bt_get (rt_sequence_index s) sequence_id = Some request_id
        \<longleftrightarrow> (\<exists>model_id request. active_request (rt_models s) model_id request_id = Some request
              \<and> request_sequence B request = sequence_id))
    \<and> \<not> (is_request_active s request_id \<and> is_request_cleanup_pending s request_id)
    \<and> unat (rt_active_requests s) = bt_total (\<lambda>slot. bt_len (sl_requests slot)) (rt_models s)
    \<and> (\<forall>slot. bt_get (rt_models s) model_id = Some slot \<longrightarrow>
        active_count (sl_lifecycle slot) = bt_len (sl_requests slot))"
proof -
  note inv = reachable_inv [OF assms]
  have indexes: "registry_indexes B s" and counters: "registry_counters s"
    using inv by (simp_all add: runtime_inv_def)
  have "bt_get (rt_request_index s) request_id = Some model_id
      \<longleftrightarrow> active_request (rt_models s) model_id request_id \<noteq> None"
    using indexes by (simp add: registry_indexes_def owner_index_def)
  moreover have "bt_get (rt_sequence_index s) sequence_id = Some request_id
      \<longleftrightarrow> (\<exists>model_id request. active_request (rt_models s) model_id request_id = Some request
            \<and> request_sequence B request = sequence_id)"
    using indexes unfolding registry_indexes_def by (intro sequence_ownerD) blast
  moreover have "\<not> (is_request_active s request_id \<and> is_request_cleanup_pending s request_id)"
    using indexes unfolding registry_indexes_def is_request_active_def is_request_cleanup_pending_def
    by metis
  moreover have "unat (rt_active_requests s) = bt_total (\<lambda>slot. bt_len (sl_requests slot)) (rt_models s)"
    using counters by (simp add: registry_counters_def)
  moreover have "\<forall>slot. bt_get (rt_models s) model_id = Some slot \<longrightarrow>
      active_count (sl_lifecycle slot) = bt_len (sl_requests slot)"
    using runtime_inv_slot [OF inv] by (simp add: slot_inv_def)
  ultimately show ?thesis by blast
qed

theorem registry_indexes_exact_witness:
  "active_request (rt_models example_two) (ModelId 1) (RequestId 2) \<noteq> None"
  using registry_indexes_exact [OF example_stable example_two_reachable,
      where request_id = "RequestId 2" and model_id = "ModelId 1"]
  by (simp add: example_two_def example_loaded_def example_eval)

subsection \<open>Removing a request\<close>

text \<open>
  \<^bold>\<open>C5\<close>. A request ends exactly once. Removing an active request (which completing, cancelling
  and failing it do) always takes it out of the registry and leaves every other request as it
  was. If the backend destroys the sequence, at least the request's backend memory is given back
  and nothing is quarantined for it. If the backend fails, the call answers a clean-up error, the
  sequence is quarantined under the request's identity, and its memory stays reserved. The only
  other answer is \<open>InvalidTransition\<close>, when the last request of a leaving model ends while other
  sequences of the model are quarantined.
\<close>
theorem request_ends_once:
  assumes "stable_ids B" and "runtime_reachable B s"
    and "bt_get (rt_models s) model_id = Some slot"
    and "bt_get (sl_requests slot) request_id = Some request"
    and "lm_destroy_sequence (be_model B) (sl_model slot) (rq_sequence request) = (d, m, q)"
    and "remove_request B request_id operation failure s = (r, s')"
  shows "\<not> is_request_active s' request_id
    \<and> (\<forall>other. other \<noteq> request_id \<longrightarrow> is_request_active s' other = is_request_active s other)
    \<and> (if is_ok d
       then \<not> is_request_cleanup_pending s' request_id
         \<and> (\<forall>c. footprint_field (rt_reserved_footprint s') c
                + footprint_field (rq_backend_footprint request) c
              \<le> footprint_field (rt_reserved_footprint s) c)
         \<and> (r = Inr () \<or> (\<exists>e. r = Inl e \<and> is_cleanup_error e)
            \<or> r = Inl (RuntimeLifecycle InvalidTransition)
              \<and> \<not> bt_is_empty (sl_pending_sequences slot))
       else is_request_cleanup_pending s' request_id
         \<and> rt_reserved_footprint s' = rt_reserved_footprint s
         \<and> (\<exists>e. r = Inl e \<and> is_cleanup_error e))"
proof -
  note inv = reachable_inv [OF assms(1,2)] and facts = request_facts [OF reachable_inv [OF assms(1,2)] assms(3,4)]
  note spec = remove_request_spec [OF inv assms(1,3,4,6)]
  have index: "rt_request_index s' = bt_remove request_id (rt_request_index s)"
    using spec(2) by (simp add: request_removed_def)
  note seq = stable_destroy [OF assms(1,5)]
  note remove_def = remove_request_def request_model_id_def facts(1) assms(3,4,5)
  have "if is_ok d
       then \<not> is_request_cleanup_pending s' request_id
         \<and> (\<forall>c. footprint_field (rt_reserved_footprint s') c
                + footprint_field (rq_backend_footprint request) c
              \<le> footprint_field (rt_reserved_footprint s) c)
         \<and> (r = Inr () \<or> (\<exists>e. r = Inl e \<and> is_cleanup_error e)
            \<or> r = Inl (RuntimeLifecycle InvalidTransition)
              \<and> \<not> bt_is_empty (sl_pending_sequences slot))
       else is_request_cleanup_pending s' request_id
         \<and> rt_reserved_footprint s' = rt_reserved_footprint s
         \<and> (\<exists>e. r = Inl e \<and> is_cleanup_error e)"
  proof (cases d)
    case (Inl cleanup)
    let ?report = "\<lparr>cf_primary_operation = operation, cf_primary_failure = failure,
      cf_cleanup_operation = OpSequenceDestruction,
      cf_cleanup_failure = runtime_failure_class (RuntimeSequence cleanup)\<rparr>"
    obtain slot' pending s1 e where run: "quarantine_request B model_id request_id ?report
        (slot\<lparr>sl_model := m\<rparr>) (request\<lparr>rq_sequence := q\<rparr>) s = (Inl e, s1)"
      and s1: "is_cleanup_error e" "runtime_inv B s1"
        "rt_models s1 = bt_insert model_id slot' (rt_models s)"
        "sl_pending_sequences slot' = bt_insert request_id pending (sl_pending_sequences slot)"
        "rt_reserved_footprint s1 = rt_reserved_footprint s"
      by (rule quarantine_request_spec [OF inv assms(3,4) seq])
    have "quarantined_sequence (rt_models s1) model_id request_id \<noteq> None"
      by (simp add: quarantined_sequence_def s1 bt_get_insert)
    with s1(2) have "is_request_cleanup_pending s1 request_id"
      by (auto simp: runtime_inv_def registry_indexes_def owner_index_def is_request_cleanup_pending_def)
    with run s1 assms(6) Inl show ?thesis by (auto simp: remove_def)
  next
    case (Inr u)
    obtain slot' s1 where drop: "drop_request B model_id request_id operation failure
        (slot\<lparr>sl_model := m\<rparr>) (request\<lparr>rq_sequence := q\<rparr>) s
     = (if sl_lifecycle slot' = Unloading then release_model_with_primary B model_id operation failure s1
        else (Inr (), s1))"
      and s1: "runtime_inv B s1" "rt_models s1 = bt_insert model_id slot' (rt_models s)"
        "rt_pending_request_index s1 = rt_pending_request_index s"
      and fields: "\<forall>c. footprint_field (rt_reserved_footprint s) c
       = footprint_field (rq_backend_footprint request) c + footprint_field (rt_reserved_footprint s1) c"
      by (rule drop_request_spec [OF inv assms(3,4) seq, of operation failure m]) blast
    have run: "(r, s') = (if sl_lifecycle slot' = Unloading
        then release_model_with_primary B model_id operation failure s1 else (Inr (), s1))"
      using assms(6) Inr drop by (simp add: remove_def)
    have released: "footprint_field (rt_reserved_footprint s') c \<le> footprint_field (rt_reserved_footprint s1) c" for c
      using run release_reserved [OF s1(1), of model_id operation failure r s'] by (auto split: if_splits)
    have "rt_pending_request_index s' = rt_pending_request_index s1"
      using run release_spec(4) [OF s1(1), of model_id operation failure r s'] by (auto split: if_splits)
    then have "\<not> is_request_cleanup_pending s' request_id"
      using s1(3) facts(3) by (simp add: is_request_cleanup_pending_def)
    moreover have "r = Inr () \<or> (\<exists>e. r = Inl e \<and> is_cleanup_error e)
        \<or> r = Inl (RuntimeLifecycle InvalidTransition) \<and> \<not> bt_is_empty (sl_pending_sequences slot)"
      using spec(2) by (auto simp: request_removed_def split: option.splits)
    ultimately show ?thesis using Inr fields released by (auto intro: add_le_mono simp: add.commute)
  qed
  then show ?thesis
    by (simp add: is_request_active_def index bt_get_remove)
qed

theorem request_ends_once_witness:
  "\<exists>r s'. remove_request example_backend (RequestId 1) OpCompletion ClassCompletion example_two = (r, s')
     \<and> \<not> is_request_active s' (RequestId 1) \<and> is_request_cleanup_pending s' (RequestId 1)"
proof -
  let ?slot = "example_slot\<lparr>sl_lifecycle := Active 2,
       sl_requests := [(RequestId 1, example_request (SequenceId 1) 1),
         (RequestId 2, example_request (SequenceId 0) 0)],
       sl_reserved_footprint := example_footprint\<lparr>host_weight_bytes := 3\<rparr>\<rparr>"
  obtain r s' where run: "remove_request example_backend (RequestId 1) OpCompletion ClassCompletion example_two = (r, s')"
    by fastforce
  have "bt_get (rt_models example_two) (ModelId 1) = Some ?slot"
    "bt_get (sl_requests ?slot) (RequestId 1) = Some (example_request (SequenceId 1) 1)"
    "lm_destroy_sequence (be_model example_backend) (sl_model ?slot)
      (rq_sequence (example_request (SequenceId 1) 1))
      = (Inl SequenceInvalidState, example_handle, (SequenceId 1, 0))"
    by (simp_all add: example_two_def bt_get_def example_defs example_slot_def example_request_def)
  from request_ends_once [OF example_stable example_two_reachable this run] run show ?thesis by simp
qed

subsection \<open>Stale handles\<close>

text \<open>A generation that was given out is never taken back.\<close>

definition generations_grow :: "('ld, 'm, 'q) runtime \<Rightarrow> ('ld, 'm, 'q) runtime \<Rightarrow> bool" where
  "generations_grow s s' \<longleftrightarrow>
     (\<forall>model_id g. bt_get (rt_generations s) model_id = Some g \<longrightarrow>
        (\<exists>g'. bt_get (rt_generations s') model_id = Some g'
           \<and> unat (model_generation_get g) \<le> unat (model_generation_get g')))"

lemma generations_grow_refl: "rt_generations s' = rt_generations s \<Longrightarrow> generations_grow s s'"
  by (simp add: generations_grow_def)

lemma generations_grow_trans: "generations_grow s t \<Longrightarrow> generations_grow t u \<Longrightarrow> generations_grow s u"
  unfolding generations_grow_def by (meson order_trans)

lemma load_generations:
  assumes "runtime_load_model B model_id source device kind s = (r, s')"
  shows "rt_generations s' = rt_generations s
    \<or> (\<exists>handle. next_handle s model_id = Inr handle
         \<and> rt_generations s' = bt_insert model_id (mh_generation handle) (rt_generations s))"
    "r = Inr receipt \<Longrightarrow> next_handle s model_id = Inr (lr_handle receipt)
       \<and> rt_generations s' = bt_insert model_id (mh_generation (lr_handle receipt)) (rt_generations s)"
  using assms
  by (auto simp: runtime_load_model_def Let_def split: sum.splits prod.splits if_splits)

lemma load_grows:
  assumes "runtime_load_model B model_id source device kind s = (r, s')"
  shows "generations_grow s s'"
  using load_generations(1) [OF assms]
proof (elim disjE exE conjE)
  fix handle
  assume "next_handle s model_id = Inr handle"
    and "rt_generations s' = bt_insert model_id (mh_generation handle) (rt_generations s)"
  then show ?thesis
    using next_handle_Inr(2) [of s model_id handle] by (auto simp: generations_grow_def bt_get_insert)
qed (rule generations_grow_refl)

lemma abort_generations:
  "rt_generations (snd (abort_admission B model_id request_id sequence_id primary f g h slot q s))
    = rt_generations s"
  by (simp add: abort_admission_def Let_def split: prod.split sum.split option.split)

lemma commit_generations:
  "rt_generations (snd (commit_admission model_id request_id sequence_id w a slot q s)) = rt_generations s"
  by (simp add: commit_admission_def Let_def)

lemma start_generations:
  "rt_generations (snd (start_request_with_reservation B handle request_id sequence_id configuration
    workspace expected s)) = rt_generations s"
  by (simp add: start_request_with_reservation_def Let_def abort_generations commit_generations
      split: sum.split prod.split)

lemma reply_state: "apfst f x = (r, s') \<Longrightarrow> s' = snd x"
  by (cases x) simp

lemma apply_grows:
  assumes inv: "runtime_inv B s" and stable: "stable_ids B" and ok: "call_ok c"
    and run: "runtime_apply B c s = Some (r, s')"
  shows "generations_grow s s'"
proof (cases c)
  case (CallLoad m source d k)
  with run show ?thesis using load_grows [of B m source d k s]
    by (cases "runtime_load_model B m source d k s") auto
next
  case (CallStart h rid sid conf)
  with run show ?thesis
    by (auto simp: runtime_start_request_def start_generations intro!: generations_grow_refl dest!: reply_state)
next
  case (CallStartGeneration h rid sid conf w n)
  with run show ?thesis
    by (auto simp: start_generation_request_def start_generations intro!: generations_grow_refl dest!: reply_state)
next
  case (CallPrefill rid tokens emit logits)
  obtain r l s1 where step: "runtime_prefill B rid tokens emit logits s = (r, l, s1)" by (metis prod_cases3)
  with run CallPrefill prefill_inv(2) [OF inv stable step] show ?thesis
    by (auto intro: generations_grow_refl dest: config_eq)
next
  case (CallDecode rid token logits)
  obtain r l s1 where step: "runtime_decode B rid token logits s = (r, l, s1)" by (metis prod_cases3)
  with run CallDecode decode_inv(2) [OF inv stable step] show ?thesis
    by (auto intro: generations_grow_refl dest: config_eq)
next
  case (CallReleaseWorkspace f)
  with run show ?thesis
    by (auto simp: release_generation_workspace_def apfst_def map_prod_def intro!: generations_grow_refl
        split: option.splits sum.splits prod.splits)
next
  case (CallUnload h policy now)
  with run ok unload_model_total [OF inv stable, of policy now h] show ?thesis
    by (auto simp: apfst_def intro!: generations_grow_refl dest: config_eq)
next
  case CallPollCleanup
  obtain r s1 where poll: "poll_cleanup B s = (r, s1)" by fastforce
  with run CallPollCleanup poll_cleanup_spec(2) [OF inv stable poll] show ?thesis
    by (auto intro: generations_grow_refl dest: config_eq)
next
  case (CallPoll now)
  with run runtime_poll_total [OF inv stable, of now] show ?thesis
    by (auto simp: apfst_def intro!: generations_grow_refl dest: config_eq)
next
  case CallShutdown
  with run runtime_shutdown_total [OF inv stable] show ?thesis
    by (auto simp: apfst_def intro!: generations_grow_refl dest: config_eq)
qed (use run in \<open>auto simp: runtime_complete_request_def runtime_cancel_request_def runtime_fail_request_def
       record_maintenance_error_def rt_bind_def apfst_def map_prod_def intro!: generations_grow_refl
       split: prod.splits sum.splits dest!: remove_request_inv(2) [OF inv stable] config_eq(2)\<close>)

lemma run_grows:
  assumes stable: "stable_ids B"
  shows "runtime_inv B s \<Longrightarrow> list_all call_ok cs \<Longrightarrow> runtime_run B cs s = Some (rs, s')
    \<Longrightarrow> runtime_inv B s' \<and> generations_grow s s'"
proof (induction cs arbitrary: s rs)
  case (Cons c cs)
  from Cons.prems(2) have ok: "call_ok c" "list_all call_ok cs" by simp_all
  obtain r s1 where step: "runtime_apply B c s = Some (r, s1)" and inv1: "runtime_inv B s1"
    using runtime_apply_total [OF Cons.prems(1) stable ok(1)] by blast
  with Cons.prems(3) obtain ps where run: "runtime_run B cs s1 = Some (ps, s')" by auto
  from Cons.IH [OF inv1 ok(2) run] apply_grows [OF Cons.prems(1) stable ok(1) step] show ?case
    using generations_grow_trans by blast
qed (simp add: generations_grow_refl)

text \<open>
  A stale handle never resolves again. Take a handle that a load of a model returned. If,
  after any calls, the same model is loaded again, then from that load on, after any further
  calls, the old handle is rejected: the generation has moved on for good.
\<close>
theorem stale_handle_rejected:
  assumes "stable_ids B" and "runtime_reachable B s"
    and "runtime_load_model B model_id source device kind s = (Inr old, s1)"
    and "list_all call_ok cs" and "runtime_run B cs s1 = Some (rs, s2)"
    and "runtime_load_model B model_id source' device' kind' s2 = (Inr new, s3)"
    and "list_all call_ok ds" and "runtime_run B ds s3 = Some (ps, s4)"
  shows "\<exists>e. exact_model s4 (lr_handle old) = Inl e"
proof (rule ccontr)
  assume "\<nexists>e. exact_model s4 (lr_handle old) = Inl e"
  then obtain slot where exact: "exact_model s4 (lr_handle old) = Inr slot"
    by (cases "exact_model s4 (lr_handle old)") auto
  note inv = reachable_inv [OF assms(1,2)]
  note load1 = load_generations(2) [OF assms(3) refl] and load2 = load_generations(2) [OF assms(6) refl]
  note inv1 = load_model_inv [OF inv assms(3)]
  note run1 = run_grows [OF assms(1) inv1 assms(4,5)]
  have inv3: "runtime_inv B s3" using load_model_inv [OF _ assms(6)] run1 by blast
  note run2 = run_grows [OF assms(1) inv3 assms(7,8)]
  let ?gen = "\<lambda>h. unat (model_generation_get (mh_generation h))"
  have ids: "mh_id (lr_handle old) = model_id" "mh_id (lr_handle new) = model_id"
    using next_handle_Inr(1) load1 load2 by blast+
  have at1: "bt_get (rt_generations s1) model_id = Some (mh_generation (lr_handle old))"
    using load1 by (simp add: bt_get_insert)
  have at3: "bt_get (rt_generations s3) model_id = Some (mh_generation (lr_handle new))"
    using load2 by (simp add: bt_get_insert)
  obtain g where g: "bt_get (rt_generations s2) model_id = Some g"
    and le1: "?gen (lr_handle old) \<le> unat (model_generation_get g)"
    using run1 at1 unfolding generations_grow_def by blast
  have lt: "unat (model_generation_get g) < ?gen (lr_handle new)"
    using next_handle_Inr(2) [of s2 model_id "lr_handle new"] load2 g by auto
  obtain g' where g': "bt_get (rt_generations s4) model_id = Some g'"
    and le2: "?gen (lr_handle new) \<le> unat (model_generation_get g')"
    using run2 at3 unfolding generations_grow_def by blast
  have "bt_get (rt_generations s4) model_id = Some (mh_generation (lr_handle old))"
    using exact run2 ids(1) unfolding exact_model_Inr
    by (auto simp: runtime_inv_def registry_slots_def)
  with g' le1 lt le2 show False by simp
qed

lemma example_reload:
  "runtime_run example_backend [CallUnload example_handle RejectIfBusy (MonotonicMillis 0)] example_loaded
     = Some ([Inr (ReplyUnload \<lparr>ur_handle = example_handle, ur_status = Unloaded,
         ur_cancelled_requests = 0\<rparr>)],
       example_empty\<lparr>rt_generations := [(ModelId 1, ModelGeneration 1)]\<rparr>)"
  by (simp add: runtime_unload_model_def release_model_def release_model_with_primary_def exact_model_def
      rt_bind_def rt_lift_def example_loaded_def example_eval apfst_def)

theorem stale_handle_rejected_witness:
  "\<exists>s3 new. runtime_load_model example_backend (ModelId 1) () (DeviceId 0) Cpu
       (example_empty\<lparr>rt_generations := [(ModelId 1, ModelGeneration 1)]\<rparr>) = (Inr new, s3)
     \<and> (\<exists>e. exact_model s3 example_handle = Inl e)"
proof -
  obtain s3 new where load: "runtime_load_model example_backend (ModelId 1) () (DeviceId 0) Cpu
       (example_empty\<lparr>rt_generations := [(ModelId 1, ModelGeneration 1)]\<rparr>) = (Inr new, s3)"
    by (simp add: runtime_load_model_def example_eval)
  from stale_handle_rejected [OF example_stable example_empty_reachable example_load _ example_reload load,
      of "[]" "[]" s3] load
  show ?thesis by simp
qed

subsection \<open>Clean-up\<close>

text \<open>The registry after a number of polls.\<close>

fun after_polls :: "('src, 'ld, 'm, 'q) backend \<Rightarrow> nat \<Rightarrow> ('ld, 'm, 'q) runtime \<Rightarrow> ('ld, 'm, 'q) runtime" where
  "after_polls B 0 s = s"
| "after_polls B (Suc n) s = after_polls B n (snd (poll_cleanup B s))"

definition exhausted :: "('ld, 'm, 'q) runtime \<Rightarrow> bool" where
  "exhausted s \<longleftrightarrow>
     (\<forall>model_id request_id pending. quarantined_sequence (rt_models s) model_id request_id = Some pending
        \<longrightarrow> ps_attempts pending = maximum_cleanup_attempts s)
     \<and> (\<forall>model_id pending. bt_get (rt_pending_models s) model_id = Some pending
        \<longrightarrow> pm_attempts pending = maximum_cleanup_attempts s)"

lemma idle_exhausted:
  assumes inv: "runtime_inv B s" and idle: "fst (poll_cleanup B s) = Inr CleanupIdle" and stable: "stable_ids B"
  shows "exhausted s"
proof -
  have none: "find_retryable_sequence (maximum_cleanup_attempts s) (bt_entries (rt_models s)) = None
      \<and> find_retryable_model (maximum_cleanup_attempts s) (rt_pending_models s) = None"
    using poll_idle_nothing [OF inv stable idle] by (simp add: nothing_retryable_def)
  note maps = runtime_inv_maps [OF inv]
  have "ps_attempts pending = maximum_cleanup_attempts s"
    if "quarantined_sequence (rt_models s) model_id request_id = Some pending" for model_id request_id pending
  proof -
    from that obtain slot where slot: "bt_get (rt_models s) model_id = Some slot"
      and pending: "bt_get (sl_pending_sequences slot) request_id = Some pending"
      by (auto simp: quarantined_sequence_def split: option.splits)
    have slot_inv: "slot_inv (maximum_cleanup_attempts s) model_id slot" using runtime_inv_slot [OF inv slot] .
    then have "(request_id, pending) \<in> set (bt_entries (sl_pending_sequences slot))"
      using pending by (simp add: bt_get_entries_member slot_inv_def)
    moreover have "(model_id, slot) \<in> set (bt_entries (rt_models s))"
      using slot maps(1) by (simp add: bt_get_entries_member)
    ultimately have "maximum_cleanup_attempts s \<le> ps_attempts pending"
      using none unfolding find_retryable_sequence_None by fastforce
    with slot_inv pending show ?thesis by (auto simp: slot_inv_def intro: order_antisym)
  qed
  moreover have "pm_attempts pending = maximum_cleanup_attempts s"
    if "bt_get (rt_pending_models s) model_id = Some pending" for model_id pending
  proof -
    have "(model_id, pending) \<in> set (bt_entries (rt_pending_models s))"
      using that maps(2) by (simp add: bt_get_entries_member)
    then have "maximum_cleanup_attempts s \<le> pm_attempts pending"
      using none unfolding find_retryable_model_None by fastforce
    with inv that show ?thesis by (auto simp: runtime_inv_def registry_slots_def intro: order_antisym)
  qed
  ultimately show ?thesis by (simp add: exhausted_def)
qed

lemma after_polls_idle:
  assumes stable: "stable_ids B"
  shows "runtime_inv B s \<Longrightarrow> registry_work s \<le> n \<Longrightarrow>
    runtime_inv B (after_polls B n s) \<and> fst (poll_cleanup B (after_polls B n s)) = Inr CleanupIdle"
proof (induction n arbitrary: s)
  case 0
  obtain r s' where poll: "poll_cleanup B s = (r, s')" by fastforce
  with poll_cleanup_spec(4) [OF "0.prems"(1) stable poll] 0 show ?case by auto
next
  case (Suc n)
  obtain r s' where poll: "poll_cleanup B s = (r, s')" by fastforce
  note spec = poll_cleanup_spec [OF Suc.prems(1) stable poll]
  show ?case
  proof (cases "r = Inr CleanupIdle \<and> s' = s")
    case True
    then have "after_polls B k s = s" for k using poll by (induction k) auto
    with True poll Suc.prems(1) show ?thesis by (metis fst_conv)
  next
    case False
    with spec(4) Suc.prems(2) have "registry_work s' \<le> n" by auto
    from Suc.IH [OF spec(1) this] poll show ?thesis by simp
  qed
qed

text \<open>
  \<^bold>\<open>C7\<close>. Clean-up is bounded. From any reachable registry, a number of \<open>poll_cleanup\<close> calls that is
  computed from the attempts left leads to a registry where a poll is idle; and when a poll is
  idle, every quarantined sequence and model has used exactly its configured attempts.
\<close>
theorem cleanup_bounded:
  assumes "stable_ids B" and "runtime_reachable B s"
  shows "fst (poll_cleanup B (after_polls B (registry_work s) s)) = Inr CleanupIdle
    \<and> exhausted (after_polls B (registry_work s) s)"
  using after_polls_idle [OF assms(1) reachable_inv [OF assms], of "registry_work s"]
    idle_exhausted [OF _ _ assms(1)] by blast

theorem cleanup_bounded_witness:
  "exhausted (after_polls example_backend (registry_work example_two) example_two)"
  using cleanup_bounded [OF example_stable example_two_reachable] by blast

end
