(* ===== verification/Registry_Outcomes.thy ===== *)
theory Registry_Outcomes
  imports Registry_Properties
begin

section \<open>Shutdown and preflight of the registry\<close>

text \<open>
  How \<open>shutdown\<close> can end, a shutdown that ends too early, and what the preflight of a
  generation request says about its admission.
\<close>

subsection \<open>Shutdown\<close>

lemma first_pending_sequence_Some:
  "first_pending_sequence entries = Some (model_id, pending) \<Longrightarrow>
    \<exists>slot request_id. (model_id, slot) \<in> set entries
      \<and> bt_first (sl_pending_sequences slot) = Some (request_id, pending)"
  by (induction entries rule: first_pending_sequence.induct) (auto split: option.splits)

lemma first_pending_sequence_None:
  "first_pending_sequence entries = None \<longleftrightarrow>
    (\<forall>(model_id, slot) \<in> set entries. sl_pending_sequences slot = [])"
  by (induction entries rule: first_pending_sequence.induct) (auto simp: bt_first_def bt_entries_def split: option.splits list.splits)

lemma first_pending_exhausted:
  assumes inv: "runtime_inv B s" and exhausted: "exhausted s"
    and pending: "first_pending_cleanup_state s = Some state"
  shows "cleanup_exhausted state"
proof (cases "first_pending_sequence (bt_entries (rt_models s))")
  case None
  with pending obtain model_id p where "bt_first (rt_pending_models s) = Some (model_id, p)"
    and state: "state = model_cleanup_retry_state s model_id p"
    by (auto simp: first_pending_cleanup_state_def)
  then have "bt_get (rt_pending_models s) model_id = Some p" by (simp add: bt_first_get)
  with exhausted show ?thesis
    by (simp add: state exhausted_def cleanup_exhausted_def model_cleanup_retry_state_def)
next
  case (Some found)
  obtain model_id p where "found = (model_id, p)" by fastforce
  with Some have found: "first_pending_sequence (bt_entries (rt_models s)) = Some (model_id, p)" by simp
  from first_pending_sequence_Some [OF this] obtain slot request_id
    where slot: "(model_id, slot) \<in> set (bt_entries (rt_models s))"
      and first: "bt_first (sl_pending_sequences slot) = Some (request_id, p)" by blast
  have "bt_get (rt_models s) model_id = Some slot"
    using slot runtime_inv_maps(1) [OF inv] by (simp add: bt_get_entries_member)
  with first have "quarantined_sequence (rt_models s) model_id request_id = Some p"
    by (simp add: quarantined_sequence_def bt_first_get)
  with exhausted found pending show ?thesis
    by (auto simp: exhausted_def cleanup_exhausted_def first_pending_cleanup_state_def
        sequence_cleanup_state_def)
qed

lemma all_parked_no_requests:
  assumes inv: "runtime_inv B s" and parked: "all_parked s"
  shows "rt_active_requests s = 0"
proof -
  have "bt_len (sl_requests slot) = 0" if "bt_get (rt_models s) model_id = Some slot" for model_id slot
  proof -
    have "active_count (sl_lifecycle slot) = bt_len (sl_requests slot)"
      using runtime_inv_slot [OF inv that] by (simp add: slot_inv_def)
    with parked that show ?thesis by (auto simp: all_parked_def parked_def)
  qed
  then have "bt_total (\<lambda>slot. bt_len (sl_requests slot)) (rt_models s) = 0"
    using runtime_inv_maps(1) [OF inv]
    by (auto simp: bt_total_def bt_get_entries_member [symmetric] sum_list_eq_0_iff)
  then show ?thesis using inv by (simp add: runtime_inv_def registry_counters_def unat_eq_zero)
qed

lemma all_parked_clean:
  assumes inv: "runtime_inv B s" and parked: "all_parked s" and none: "first_pending_cleanup_state s = None"
  shows "rt_models s = []" "rt_pending_models s = []"
proof -
  show models: "rt_models s = []"
  proof (rule ccontr)
    assume "rt_models s \<noteq> []"
    then obtain model_id slot m where entry: "rt_models s = (model_id, slot) # m" by (metis list.exhaust surj_pair)
    then have slot: "bt_get (rt_models s) model_id = Some slot" by (simp add: bt_get_def)
    then have "parked slot" using parked unfolding all_parked_def by blast
    then have "sl_pending_sequences slot \<noteq> []" by (simp add: parked_def bt_entries_def)
    moreover have "(model_id, slot) \<in> set (bt_entries (rt_models s))" by (simp add: entry bt_entries_def)
    ultimately have "first_pending_sequence (bt_entries (rt_models s)) \<noteq> None"
      unfolding first_pending_sequence_None by blast
    with none show False by (auto simp: first_pending_cleanup_state_def)
  qed
  show "rt_pending_models s = []"
    using none models by (simp add: first_pending_cleanup_state_def bt_entries_def bt_first_None)
qed

text \<open>
  \<^bold>\<open>C8\<close>. How shutdown ends. From every reachable registry \<open>shutdown\<close> returns and leaves the registry
  closed to new work. If it answers a receipt, no model, no quarantined resource and no request is
  left, and only generation workspaces are still reserved. If it fails, then either it answers
  \<open>CleanupRetryExhausted\<close> for a resource that used up its attempts, no request is active, and every
  resource left has used up its attempts; or it answers \<open>InvalidTransition\<close>.
\<close>
theorem shutdown_outcome:
  assumes stable: "stable_ids B" and reachable: "runtime_reachable B s"
  shows "\<exists>r s'. runtime_shutdown B s = Some (r, s') \<and> reject_if_shutting_down s' \<noteq> Inr ()
    \<and> (case r of
         Inr receipt \<Rightarrow> rt_models s' = [] \<and> rt_pending_models s' = [] \<and> rt_active_requests s' = 0
           \<and> (\<forall>c. footprint_field (rt_reserved_footprint s') c
                 = footprint_field (rt_reserved_generation_workspace s') c)
       | Inl e \<Rightarrow> e = RuntimeLifecycle InvalidTransition
           \<or> rt_active_requests s' = 0 \<and> exhausted s'
             \<and> (\<exists>state. e = CleanupRetryExhausted state \<and> cleanup_exhausted state))"
proof -
  from runtime_shutdown_total [OF reachable_inv [OF assms] stable] obtain r s' where
    run: "runtime_shutdown B s = Some (r, s')" and inv: "runtime_inv B s'"
    and same: "config s' = config (s\<lparr>rt_shutting_down := True\<rparr>)"
    and ends: "r = Inl (RuntimeLifecycle InvalidTransition)
       \<or> all_parked s' \<and> poll_cleanup B s' = (Inr CleanupIdle, s')
         \<and> (\<exists>models cancelled. r = finish_shutdown models cancelled s')" by blast
  have closed: "reject_if_shutting_down s' \<noteq> Inr ()"
    using config_eq(4) [OF same] by (simp add: reject_if_shutting_down_def)
  show ?thesis
  proof (cases "r = Inl (RuntimeLifecycle InvalidTransition)")
    case True
    with run closed show ?thesis by auto
  next
    case False
    with ends obtain models cancelled where parked: "all_parked s'"
      and idle: "poll_cleanup B s' = (Inr CleanupIdle, s')" and r: "r = finish_shutdown models cancelled s'"
      by blast
    have exhausted: "exhausted s'" using idle_exhausted [OF inv _ stable] idle by simp
    note none_active = all_parked_no_requests [OF inv parked]
    show ?thesis
    proof (cases "first_pending_cleanup_state s'")
      case None
      note clean = all_parked_clean [OF inv parked None]
      from clean have "bt_is_empty (rt_models s')" by (simp add: bt_entries_def)
      with None none_active have ok: "is_ok r" by (simp add: r finish_shutdown_def is_ok_def)
      have "footprint_field (rt_reserved_footprint s') c
          = footprint_field (rt_reserved_generation_workspace s') c" for c
        using runtime_inv_load [OF inv] clean by (simp add: registry_load_def bt_total_def bt_entries_def)
      with run closed ok clean none_active show ?thesis by (auto simp: is_ok_def split: sum.splits)
    next
      case (Some state)
      with first_pending_exhausted [OF inv exhausted Some] run closed none_active exhausted show ?thesis
        by (auto simp: r finish_shutdown_def)
    qed
  qed
qed

text \<open>Cancelling the last request of a model with quarantined sequences ends in a refused release.\<close>

lemma last_request_refused:
  assumes stable: "stable_ids B" and inv: "runtime_inv B s"
    and slot: "bt_get (rt_models s) model_id = Some slot" and leaving: "leaving (sl_lifecycle slot)"
    and last: "sl_requests slot = [(request_id, request)]"
    and pending: "\<not> bt_is_empty (sl_pending_sequences slot)"
    and destroy: "lm_destroy_sequence (be_model B) (sl_model slot) (rq_sequence request) = (Inr (), m, q)"
  shows "\<exists>slot' s'. shutdown_cancel_loop B model_id n s = Some (Inl (RuntimeLifecycle InvalidTransition), s')
    \<and> rt_models s' = bt_insert model_id slot' (rt_models s) \<and> sl_requests slot' = []
    \<and> sl_pending_sequences slot' = sl_pending_sequences slot \<and> rt_pending_models s' = rt_pending_models s"
proof -
  have request: "bt_get (sl_requests slot) request_id = Some request" by (simp add: last bt_get_def)
  have first: "first_request s model_id = Some request_id" by (simp add: first_request_def slot last bt_first_def bt_entries_def)
  have index: "bt_get (rt_request_index s) request_id = Some model_id" by (rule request_facts [OF inv slot request])
  obtain slot' s' where drop: "drop_request B model_id request_id OpShutdown ClassShutdown (slot\<lparr>sl_model := m\<rparr>)
       (request\<lparr>rq_sequence := q\<rparr>) s
     = (if sl_lifecycle slot' = Unloading then release_model_with_primary B model_id OpShutdown ClassShutdown s'
        else (Inr (), s'))"
    and inv': "runtime_inv B s'" and models: "rt_models s' = bt_insert model_id slot' (rt_models s)"
    and slot': "sl_requests slot' = bt_remove request_id (sl_requests slot)"
      "sl_pending_sequences slot' = sl_pending_sequences slot" "rt_pending_models s' = rt_pending_models s"
      "leaving (sl_lifecycle slot) \<longrightarrow> leaving (sl_lifecycle slot')"
    by (rule drop_request_spec [OF inv slot request stable_destroy [OF stable destroy], of OpShutdown ClassShutdown m]) blast
  have get: "bt_get (rt_models s') model_id = Some slot'"
    using runtime_inv_maps(1) [OF inv] by (simp add: models bt_get_insert)
  have none: "sl_requests slot' = []" by (simp add: slot'(1) last bt_remove_def)
  have "sl_lifecycle slot' = Unloading"
    using runtime_inv_slot [OF inv' get] slot'(4) leaving none
    by (intro leaving_idle_unloading) (simp_all add: slot_inv_def bt_entries_def)
  moreover have "release_model_with_primary B model_id OpShutdown ClassShutdown s' = (Inl (RuntimeLifecycle InvalidTransition), s')"
    using pending by (simp add: release_model_with_primary_def get slot'(2))
  ultimately have "remove_request B request_id OpShutdown ClassShutdown s = (Inl (RuntimeLifecycle InvalidTransition), s')"
    using drop by (simp add: remove_request_def request_model_id_def index slot request destroy)
  then have "shutdown_cancel_loop B model_id n s = Some (Inl (RuntimeLifecycle InvalidTransition), s')"
    by (simp add: shutdown_cancel_loop.simps [of B model_id n s] first preserve_primary_cleanup_def)
  with models none slot' show ?thesis by blast
qed

text \<open>
  \<^bold>\<open>C9\<close>. A shutdown that stops early. Let the first model of a reachable registry have one active
  request left, whose sequence the backend destroys without a failure, and other sequences in
  quarantine. Then the shutdown answers \<open>InvalidTransition\<close>: the end of the last request tries the
  release of the model, which its quarantined sequences refuse. The call ends there: no model after
  the first is touched, and the quarantined sequences are left as they were, so neither the pass over
  every model nor any of their remaining clean-up attempts takes place.
\<close>

theorem shutdown_stops_early:
  assumes "stable_ids B" and "runtime_reachable B s" and "rt_models s = (model_id, slot) # others"
    and "sl_requests slot = [(request_id, request)]" and "\<not> bt_is_empty (sl_pending_sequences slot)"
    and "lm_destroy_sequence (be_model B) (sl_model slot) (rq_sequence request) = (Inr (), m, q)"
  shows "\<exists>s' slot'. runtime_shutdown B s = Some (Inl (RuntimeLifecycle InvalidTransition), s')
    \<and> bt_get (rt_models s') model_id = Some slot' \<and> sl_requests slot' = []
    \<and> sl_pending_sequences slot' = sl_pending_sequences slot
    \<and> (\<forall>other. other \<noteq> model_id \<longrightarrow> bt_get (rt_models s') other = bt_get (rt_models s) other)
    \<and> rt_pending_models s' = rt_pending_models s"
proof -
  let ?s = "s\<lparr>rt_shutting_down := True\<rparr>"
  have inv: "runtime_inv B ?s" using reachable_inv [OF assms(1,2)] by simp
  have get: "bt_get (rt_models ?s) model_id = Some slot" by (simp add: assms(3) bt_get_def)
  obtain b l where begin_step: "begin_shutdown (sl_lifecycle slot) = (b, l)" by fastforce
  have l: "b = Inr ()" "active_count l = active_count (sl_lifecycle slot)" "lifecycle_wf l" "resident l" "leaving l"
    using begin_shutdown_resident [OF _ _ begin_step] runtime_inv_slot [OF inv get] by (auto simp: slot_inv_def)
  let ?slot = "slot\<lparr>sl_lifecycle := l\<rparr>"
  let ?s1 = "put_slot model_id ?slot ?s"
  have inv1: "runtime_inv B ?s1" by (rule put_lifecycle_inv [OF inv get l(2-4)])
  have maps: "bt_inv (rt_models ?s)" by (rule runtime_inv_maps(1) [OF inv])
  have get1: "bt_get (rt_models ?s1) model_id = Some ?slot" using maps by (simp add: bt_get_insert)
  obtain slot' s' where loop: "shutdown_cancel_loop B model_id 0 ?s1 = Some (Inl (RuntimeLifecycle InvalidTransition), s')"
    and after: "rt_models s' = bt_insert model_id slot' (rt_models ?s1)" "sl_requests slot' = []"
      "sl_pending_sequences slot' = sl_pending_sequences slot" "rt_pending_models s' = rt_pending_models s"
    using last_request_refused [OF assms(1) inv1 get1, of request_id request m q 0] l(5) assms(4-6) by auto
  have "runtime_shutdown B s = Some (Inl (RuntimeLifecycle InvalidTransition), s')"
    using loop get by (simp add: runtime_shutdown_def Let_def assms(3) begin_step l(1)
        cancel_all_requests_for_shutdown_def bt_entries_def)
  moreover have "bt_get (rt_models s') model_id = Some slot'"
    and "\<forall>other. other \<noteq> model_id \<longrightarrow> bt_get (rt_models s') other = bt_get (rt_models s) other"
    using runtime_inv_maps(1) [OF inv1] maps by (simp_all add: after(1) bt_get_insert)
  ultimately show ?thesis using after(2-4) by blast
qed

text \<open>
  In the example the first of two requests fails to be destroyed when it is completed; the shutdown
  then meets the second one.
\<close>

definition example_quarantined :: "(unit, model_handle, sequence_id \<times> nat) runtime" where
  "example_quarantined = snd (runtime_complete_request example_backend (RequestId 1) StopCondition example_two)"

lemma example_quarantined_reachable: "runtime_reachable example_backend example_quarantined"
proof -
  obtain r where "runtime_complete_request example_backend (RequestId 1) StopCondition example_two = (r, example_quarantined)"
    unfolding example_quarantined_def by (metis prod.collapse)
  then show ?thesis
    by (intro runtime_reachable.call [OF example_two_reachable, where c = "CallComplete (RequestId 1) StopCondition"])
      simp_all
qed

lemma example_quarantined_models: "\<exists>slot. rt_models example_quarantined = [(ModelId 1, slot)]
    \<and> sl_requests slot = [(RequestId 2, example_request (SequenceId 0) 0)] \<and> sl_model slot = example_handle
    \<and> \<not> bt_is_empty (sl_pending_sequences slot)"
  by (simp add: example_quarantined_def runtime_complete_request_def remove_request_def request_model_id_def
      quarantine_request_def example_loaded_def example_two_def example_eval rt_bind_def)

theorem shutdown_stops_early_witness:
  "\<exists>s'. runtime_shutdown example_backend example_quarantined = Some (Inl (RuntimeLifecycle InvalidTransition), s')
     \<and> rt_models s' \<noteq> []"
proof -
  obtain slot where slot: "rt_models example_quarantined = [(ModelId 1, slot)]"
    "sl_requests slot = [(RequestId 2, example_request (SequenceId 0) 0)]" "\<not> bt_is_empty (sl_pending_sequences slot)"
    and model: "sl_model slot = example_handle"
    using example_quarantined_models by blast
  have "lm_destroy_sequence (be_model example_backend) (sl_model slot) (rq_sequence (example_request (SequenceId 0) 0))
      = (Inr (), example_handle, (SequenceId 0, 0))"
    by (simp add: model example_defs example_request_def)
  from shutdown_stops_early [OF example_stable example_quarantined_reachable slot this] show ?thesis
    by (auto simp: bt_get_def)
qed


theorem shutdown_outcome_witness:
  "\<exists>r s'. runtime_shutdown example_backend example_two = Some (r, s') \<and> rt_shutting_down s'"
  using shutdown_outcome [OF example_stable example_two_reachable]
  by (auto simp: reject_if_shutting_down_def split: if_splits)

subsection \<open>A preflight and its admission\<close>

lemma workspace_room:
  assumes inv: "runtime_inv B s"
    and fits: "\<And>c. footprint_field (rt_reserved_footprint s) c + footprint_field f c < 2 ^ 64"
    and part: "\<And>c. footprint_field w c \<le> footprint_field f c"
  shows "\<exists>n. checked_add_footprint (rt_reserved_generation_workspace s) w = Inr n"
proof (rule checked_add_footprint_total)
  fix c
  have "footprint_field (rt_reserved_generation_workspace s) c \<le> footprint_field (rt_reserved_footprint s) c"
    using runtime_inv_load [OF inv] by (simp add: registry_load_def)
  with fits [of c] part [of c] show
    "footprint_field (rt_reserved_generation_workspace s) c + footprint_field w c < 2 ^ 64" by simp
qed

lemma admit_smaller:
  assumes admit: "admit_footprint reserved f budget = Inr whole"
    and part: "\<And>c. footprint_field p c \<le> footprint_field f c"
  shows "\<exists>n. admit_footprint reserved p budget = Inr n"
proof -
  from admit have sum: "footprint_field whole c = footprint_field reserved c + footprint_field f c" for c
    unfolding admit_footprint_iff by auto
  from admit have within: "within_budget whole budget" unfolding admit_footprint_iff by auto
  have room: "footprint_field reserved c + footprint_field p c < 2 ^ 64" for c
    using sum [of c] part [of c] footprint_field_bound [of whole c] by simp
  from checked_add_footprint_total [OF room] obtain h
    where h: "checked_add_footprint reserved p = Inr h" by blast
  then have "\<And>c. footprint_field h c \<le> footprint_field whole c"
    using sum part unfolding checked_add_footprint_iff by simp
  with within have "within_budget h budget" by (rule within_budget_mono)
  with h show ?thesis unfolding admit_footprint_iff checked_add_footprint_iff by auto
qed

lemma checked_add_room:
  fixes a b k :: u32
  assumes "unat a + unat b < unat k"
  shows "\<exists>n. checked_add a 1 = Some n"
proof -
  have "unat k < 2 ^ LENGTH(32)" by (rule unsigned_less)
  with assms show ?thesis by (simp add: checked_add_def)
qed

lemma preflight_Inr:
  "preflight_generation_resources B handle request_id sequence_id configuration workspace capacity s = Inr u
    \<longleftrightarrow> reject_if_shutting_down s = Inr ()
      \<and> bt_get (rt_request_index s) request_id = None \<and> bt_get (rt_pending_request_index s) request_id = None
      \<and> bt_get (rt_sequence_index s) sequence_id = None \<and> bt_get (rt_pending_sequence_index s) sequence_id = None
      \<and> \<not> rl_maximum_active_requests (rt_limits s)
            \<le> saturating_add (rt_active_requests s) (rt_pending_cleanup_sequences s)
      \<and> (\<exists>slot plan committed whole. exact_model s handle = Inr slot \<and> \<not> sl_poisoned slot
          \<and> (case sl_lifecycle slot of Ready \<Rightarrow> True | Active _ \<Rightarrow> True | _ \<Rightarrow> False)
          \<and> \<not> unat (mc_maximum_sequences (desc_capabilities (sl_descriptor slot)))
                \<le> usize_saturating_add (bt_len (sl_requests slot)) (bt_len (sl_pending_sequences slot))
          \<and> lm_plan_sequence (be_model B) (sl_model slot) configuration = Inr plan
          \<and> sp_configuration plan = configuration \<and> sp_logits_capacity plan = capacity
          \<and> checked_add_footprint (sp_expected_footprint plan) workspace = Inr committed
          \<and> admit_footprint (rt_reserved_footprint s) committed (rl_memory_budget (rt_limits s)) = Inr whole)"
  by (auto simp: preflight_generation_resources_def bind_ok_Inr)

text \<open>
  A preflight decides what the admission decides. As long as the counter of generation
  workspaces has room and no model's reservation exceeds the registry's, the preflight of a
  generation request accepts exactly when the checks of \<open>start_generation_request\<close> in the same
  registry pass; so what it refuses would not have been admitted, and after it accepts, only the
  backend's creation of the sequence can fail.
\<close>
theorem preflight_agrees:
  assumes stable: "stable_ids B" and reachable: "runtime_reachable B s"
    and workspaces: "unat (rt_generation_workspaces s) + 1 < 2 ^ 32"
    and reserved: "\<And>slot c. bt_get (rt_models s) (mh_id handle) = Some slot
      \<Longrightarrow> footprint_field (sl_reserved_footprint slot) c \<le> footprint_field (rt_reserved_footprint s) c"
  shows "is_ok (preflight_generation_resources B handle request_id sequence_id configuration workspace capacity s)
    \<longleftrightarrow> is_ok (plan_admission B handle request_id sequence_id configuration workspace (Some capacity) s)"
    (is "is_ok ?preflight \<longleftrightarrow> is_ok ?plan")
proof
  note inv = reachable_inv [OF stable reachable]
  assume "is_ok ?preflight"
  then have accepted: "?preflight = Inr ()" by (cases ?preflight) (simp_all add: is_ok_def)
  from accepted [unfolded preflight_Inr] obtain slot plan committed whole where
    checks: "reject_if_shutting_down s = Inr ()"
      "bt_get (rt_request_index s) request_id = None" "bt_get (rt_pending_request_index s) request_id = None"
      "bt_get (rt_sequence_index s) sequence_id = None" "bt_get (rt_pending_sequence_index s) sequence_id = None"
      "\<not> rl_maximum_active_requests (rt_limits s)
         \<le> saturating_add (rt_active_requests s) (rt_pending_cleanup_sequences s)"
      "exact_model s handle = Inr slot" "\<not> sl_poisoned slot"
      "case sl_lifecycle slot of Ready \<Rightarrow> True | Active _ \<Rightarrow> True | _ \<Rightarrow> False"
      "\<not> unat (mc_maximum_sequences (desc_capabilities (sl_descriptor slot)))
         \<le> usize_saturating_add (bt_len (sl_requests slot)) (bt_len (sl_pending_sequences slot))"
      "lm_plan_sequence (be_model B) (sl_model slot) configuration = Inr plan"
      "sp_configuration plan = configuration" "sp_logits_capacity plan = capacity"
    and committed: "checked_add_footprint (sp_expected_footprint plan) workspace = Inr committed"
    and admit: "admit_footprint (rt_reserved_footprint s) committed (rl_memory_budget (rt_limits s)) = Inr whole"
    by blast
  have slot: "bt_get (rt_models s) (mh_id handle) = Some slot" using checks(7) by (simp add: exact_model_Inr)
  have parts: "footprint_field committed c
      = footprint_field (sp_expected_footprint plan) c + footprint_field workspace c" for c
    using committed by (simp add: checked_add_footprint_iff)
  have room: "footprint_field (rt_reserved_footprint s) c + footprint_field committed c < 2 ^ 64" for c
    using admit footprint_field_bound [of whole c] by (simp add: admit_footprint_iff)
  have new: "bt_get (sl_requests slot) request_id = None"
    using request_facts(1) [OF inv slot] checks(2) by fastforce
  obtain n where n: "checked_add (rt_active_requests s) 1 = Some n"
    using checked_add_room [OF saturating_room [OF checks(6)]] by blast
  obtain n' where n': "checked_add (rt_generation_workspaces s) 1 = Some n'"
    using workspaces by (simp add: checked_add_def)
  obtain w where w: "checked_add_footprint (rt_reserved_generation_workspace s) workspace = Inr w"
    using workspace_room [OF inv room, of workspace] parts by auto
  obtain a where a: "admit_footprint (rt_reserved_footprint s) (sp_expected_footprint plan)
      (rl_memory_budget (rt_limits s)) = Inr a"
    using admit_smaller [OF admit, of "sp_expected_footprint plan"] parts by auto
  have slot_room: "footprint_field (sl_reserved_footprint slot) c + footprint_field committed c < 2 ^ 64" for c
    using room [of c] reserved [OF slot, of c] by simp
  obtain b where b: "checked_add_footprint (sl_reserved_footprint slot) committed = Inr b"
    using checked_add_footprint_total slot_room by blast
  have "footprint_field (sl_reserved_footprint slot) c + footprint_field (sp_expected_footprint plan) c < 2 ^ 64" for c
    using slot_room [of c] parts [of c] by simp
  then obtain d where d: "checked_add_footprint (sl_reserved_footprint slot) (sp_expected_footprint plan) = Inr d"
    using checked_add_footprint_total by blast
  show "is_ok ?plan"
    using checks new committed n n' w admit a b d by (auto simp: plan_admission_def is_ok_def)
next
  assume "is_ok ?plan"
  then obtain slot a where plan: "?plan = Inr (slot, a)" by (cases ?plan) (auto simp: is_ok_def)
  then have "?preflight = Inr ()"
    unfolding preflight_Inr by (auto simp: plan_admission_def bind_ok_Inr split: if_splits)
  then show "is_ok ?preflight" by (simp add: is_ok_def)
qed

theorem preflight_agrees_witness:
  "is_ok (plan_admission example_backend example_handle (RequestId 2) (SequenceId 0)
      example_configuration footprint_default (Some 0) example_one)"
proof -
  have "is_ok (preflight_generation_resources example_backend example_handle (RequestId 2) (SequenceId 0)
      example_configuration footprint_default 0 example_one)"
    by (simp add: preflight_generation_resources_def exact_model_def example_loaded_def example_one_def
        is_ok_def example_eval)
  moreover have "is_ok (preflight_generation_resources example_backend example_handle (RequestId 2) (SequenceId 0)
      example_configuration footprint_default 0 example_one)
    \<longleftrightarrow> is_ok (plan_admission example_backend example_handle (RequestId 2) (SequenceId 0)
      example_configuration footprint_default (Some 0) example_one)"
    by (rule preflight_agrees [OF example_stable example_one_reachable])
      (auto simp: example_one_def example_loaded_def example_eval)
  ultimately show ?thesis by simp
qed

end
