(* ===== verification/Tokenization.thy ===== *)
theory Tokenization
  imports Contracts
begin

section \<open>Tokenization contracts and sinks\<close>

text \<open>
  \<open>crates/features/tokenization/src\<close>: the errors, the options and reports of a tokenizer, its
  traits as records of functions over an abstract state, and the sinks over caller-owned slices.
  A sink trait is a record of its required methods; a provided method is a definition over that
  record. \<open>item_sink_laws\<close> is what a bounded sink promises; the provided methods are proved
  atomic from it once, for the token buffer and the byte buffer alike. A \<open>str\<close> is the list of its
  bytes.
\<close>

subsection \<open>Errors, options and reports\<close>

datatype tokenization_error =
    TokCapacityExhausted capacity_exhausted
  | UnknownToken token_id
  | InvalidUtf8 u8
  | IncompleteUtf8 u8
  | TokImplementation u32

datatype special_token_policy = OrdinaryText | AllowSpecial | RejectSpecial

record encode_options =
  eo_special_tokens :: special_token_policy
  eo_add_beginning_of_sequence :: bool
  eo_add_end_of_sequence :: bool

record decode_options =
  do_skip_special_tokens :: bool

record encode_report =
  er_tokens_written :: usize

record decode_report =
  dr_bytes_written :: usize
  dr_skipped_special_token :: bool

subsection \<open>Sink traits\<close>

text \<open>\<open>TokenSink\<close> and \<open>ByteSink\<close>, over the element type; \<open>TextSink\<close>.\<close>

record ('a, 's) item_sink =
  is_remaining_capacity :: "'s \<Rightarrow> usize"
  is_push :: "'a \<Rightarrow> 's \<Rightarrow> (tokenization_error + unit) \<times> 's"

record 's text_sink =
  ts_remaining_capacity :: "'s \<Rightarrow> usize"
  ts_push_str :: "u8 list \<Rightarrow> 's \<Rightarrow> (tokenization_error + unit) \<times> 's"

fun push_each :: "('a, 's) item_sink \<Rightarrow> 'a list \<Rightarrow> 's \<Rightarrow> (tokenization_error + unit) \<times> 's" where
  "push_each sink [] s = (Inr (), s)"
| "push_each sink (x # xs) s =
     (case is_push sink x s of
        (Inl e, s) \<Rightarrow> (Inl e, s)
      | (Inr _, s) \<Rightarrow> push_each sink xs s)"

definition push_all ::
    "capacity_resource \<Rightarrow> ('a, 's) item_sink \<Rightarrow> 'a list \<Rightarrow> 's \<Rightarrow> (tokenization_error + unit) \<times> 's" where
  "push_all resource sink xs s =
    (if is_remaining_capacity sink s < length xs
     then (Inl (TokCapacityExhausted (capacity_exhausted_new resource
             (usize_to_u64 (length xs)) (usize_to_u64 (is_remaining_capacity sink s)))), s)
     else push_each sink xs s)"

definition push_tokens ::
    "(token_id, 's) item_sink \<Rightarrow> token_id list \<Rightarrow> 's \<Rightarrow> (tokenization_error + unit) \<times> 's" where
  "push_tokens = push_all Tokens"

definition push_bytes :: "(u8, 's) item_sink \<Rightarrow> u8 list \<Rightarrow> 's \<Rightarrow> (tokenization_error + unit) \<times> 's" where
  "push_bytes = push_all DecodeBytes"

subsection \<open>Tokenizer traits\<close>

text \<open>
  \<open>'t\<close> is the tokenizer, \<open>'d\<close> a decoder with its state, \<open>'s\<close>, \<open>'b\<close> and \<open>'x\<close> the token, byte and
  text sinks the methods are instantiated at.
\<close>

record ('t, 's, 'b) tokenizer =
  tk_vocabulary_size :: "'t \<Rightarrow> u32"
  tk_encode :: "'t \<Rightarrow> (token_id, 's) item_sink \<Rightarrow> u8 list \<Rightarrow> encode_options \<Rightarrow> 's
    \<Rightarrow> (tokenization_error + encode_report) \<times> 's"
  tk_decode_token :: "'t \<Rightarrow> (u8, 'b) item_sink \<Rightarrow> token_id \<Rightarrow> decode_options \<Rightarrow> 'b
    \<Rightarrow> (tokenization_error + decode_report) \<times> 'b"

record ('d, 'x) streaming_decoder =
  sd_step :: "'x text_sink \<Rightarrow> token_id \<Rightarrow> 'd \<Rightarrow> 'x \<Rightarrow> (tokenization_error + decode_report) \<times> 'd \<times> 'x"

record ('t, 's, 'b, 'd, 'x) streaming_tokenizer = "('t, 's, 'b) tokenizer" +
  st_decoder :: "'t \<Rightarrow> decode_options \<Rightarrow> 'd"
  st_step :: "('d, 'x) streaming_decoder"

subsection \<open>Buffers over a slice\<close>

text \<open>\<open>TokenBuffer\<close>, \<open>ByteBuffer\<close> and \<open>TextBuffer\<close> have the same two fields.\<close>

record 'a slice_buffer =
  sb_storage :: "'a list"
  sb_length :: usize

type_synonym token_buffer = "token_id slice_buffer"
type_synonym byte_buffer = "u8 slice_buffer"
type_synonym text_buffer = "u8 slice_buffer"

definition buffer_new :: "'a list \<Rightarrow> 'a slice_buffer" where
  "buffer_new storage = \<lparr>sb_storage = storage, sb_length = 0\<rparr>"

definition buffer_as_slice :: "'a slice_buffer \<Rightarrow> 'a list" where
  "buffer_as_slice b = (if sb_length b \<le> length (sb_storage b) then take (sb_length b) (sb_storage b) else [])"

definition buffer_is_empty :: "'a slice_buffer \<Rightarrow> bool" where
  "buffer_is_empty b \<longleftrightarrow> sb_length b = 0"

definition buffer_clear :: "'a slice_buffer \<Rightarrow> 'a slice_buffer" where
  "buffer_clear b = b\<lparr>sb_length := 0\<rparr>"

definition buffer_remaining_capacity :: "'a slice_buffer \<Rightarrow> usize" where
  "buffer_remaining_capacity b = length (sb_storage b) - sb_length b"

definition buffer_push ::
    "capacity_resource \<Rightarrow> 'a \<Rightarrow> 'a slice_buffer \<Rightarrow> (tokenization_error + unit) \<times> 'a slice_buffer" where
  "buffer_push resource x b =
    (if sb_length b < length (sb_storage b)
     then (Inr (), b\<lparr>sb_storage := (sb_storage b)[sb_length b := x], sb_length := sb_length b + 1\<rparr>)
     else (Inl (TokCapacityExhausted (capacity_exhausted_new resource 1
             (usize_to_u64 (buffer_remaining_capacity b)))), b))"

definition token_buffer_sink :: "(token_id, token_buffer) item_sink" where
  "token_buffer_sink = \<lparr>is_remaining_capacity = buffer_remaining_capacity, is_push = buffer_push Tokens\<rparr>"

definition byte_buffer_sink :: "(u8, byte_buffer) item_sink" where
  "byte_buffer_sink = \<lparr>is_remaining_capacity = buffer_remaining_capacity, is_push = buffer_push DecodeBytes\<rparr>"

definition text_buffer_push_str :: "u8 list \<Rightarrow> text_buffer \<Rightarrow> (tokenization_error + unit) \<times> text_buffer" where
  "text_buffer_push_str bytes b =
    (let available = buffer_remaining_capacity b;
         refused = Inl (TokCapacityExhausted (capacity_exhausted_new DecodeBytes
           (usize_to_u64 (length bytes)) (usize_to_u64 available)));
         end = usize_saturating_add (sb_length b) (length bytes)
     in if available < length bytes then (refused, b)
        else if sb_length b \<le> end \<and> end \<le> length (sb_storage b)
        then (Inr (), b\<lparr>sb_storage := take (sb_length b) (sb_storage b) @ bytes @ drop end (sb_storage b),
                sb_length := end\<rparr>)
        else (refused, b))"

definition text_buffer_sink :: "text_buffer text_sink" where
  "text_buffer_sink = \<lparr>ts_remaining_capacity = buffer_remaining_capacity, ts_push_str = text_buffer_push_str\<rparr>"

subsection \<open>What a bounded sink promises\<close>

locale item_sink_laws =
  fixes sink :: "('a, 's) item_sink"
    and content :: "'s \<Rightarrow> 'a list"
    and wf :: "'s \<Rightarrow> bool"
  assumes push_room: "wf s \<Longrightarrow> 0 < is_remaining_capacity sink s \<Longrightarrow>
      \<exists>s'. is_push sink x s = (Inr (), s') \<and> wf s' \<and> content s' = content s @ [x]
        \<and> is_remaining_capacity sink s = is_remaining_capacity sink s' + 1"
    and push_full: "wf s \<Longrightarrow> is_remaining_capacity sink s = 0 \<Longrightarrow> \<exists>e. is_push sink x s = (Inl e, s)"
begin

lemma push_each_room:
  "wf s \<Longrightarrow> length xs \<le> is_remaining_capacity sink s \<Longrightarrow>
    \<exists>s'. push_each sink xs s = (Inr (), s') \<and> wf s' \<and> content s' = content s @ xs
      \<and> is_remaining_capacity sink s = is_remaining_capacity sink s' + length xs"
proof (induction xs arbitrary: s)
  case (Cons x xs)
  then obtain t where push: "is_push sink x s = (Inr (), t)" and t: "wf t" "content t = content s @ [x]"
    "is_remaining_capacity sink s = is_remaining_capacity sink t + 1"
    using push_room [of s x] by auto
  with Cons.prems(2) have "length xs \<le> is_remaining_capacity sink t" by simp
  from Cons.IH [OF t(1) this] push t show ?case by auto
qed simp

lemma push_all_atomic:
  assumes "wf s" and "push_all resource sink xs s = (r, s')"
  shows "if length xs \<le> is_remaining_capacity sink s
    then r = Inr () \<and> wf s' \<and> content s' = content s @ xs
      \<and> is_remaining_capacity sink s = is_remaining_capacity sink s' + length xs
    else s' = s \<and> r = Inl (TokCapacityExhausted (capacity_exhausted_new resource
      (usize_to_u64 (length xs)) (usize_to_u64 (is_remaining_capacity sink s))))"
  using assms push_each_room [OF assms(1), of xs] by (auto simp: push_all_def)

end

definition buffer_wf :: "'a slice_buffer \<Rightarrow> bool" where
  "buffer_wf b \<longleftrightarrow> sb_length b \<le> length (sb_storage b) \<and> length (sb_storage b) < usize_max"

lemma buffer_push_room:
  assumes "buffer_wf b" and "0 < buffer_remaining_capacity b"
  shows "\<exists>b'. buffer_push resource x b = (Inr (), b') \<and> buffer_wf b'
    \<and> buffer_as_slice b' = buffer_as_slice b @ [x]
    \<and> buffer_remaining_capacity b = Suc (buffer_remaining_capacity b')"
  using assms by (auto simp: buffer_push_def buffer_wf_def buffer_remaining_capacity_def
      buffer_as_slice_def take_Suc_conv_app_nth)

lemma buffer_push_full:
  "buffer_remaining_capacity b = 0 \<Longrightarrow> \<exists>e. buffer_push resource x b = (Inl e, b)"
  by (auto simp: buffer_push_def buffer_remaining_capacity_def)

interpretation token_buffer: item_sink_laws token_buffer_sink buffer_as_slice buffer_wf
  by unfold_locales (simp_all add: token_buffer_sink_def buffer_push_room buffer_push_full)

interpretation byte_buffer: item_sink_laws byte_buffer_sink buffer_as_slice buffer_wf
  by unfold_locales (simp_all add: byte_buffer_sink_def buffer_push_room buffer_push_full)

lemma buffer_new_wf [simp]: "buffer_wf (buffer_new storage) \<longleftrightarrow> length storage < usize_max"
  by (simp add: buffer_wf_def buffer_new_def)

lemma buffer_new_slice [simp]: "buffer_as_slice (buffer_new storage) = []"
  by (simp add: buffer_as_slice_def buffer_new_def)

lemma buffer_new_capacity [simp]: "buffer_remaining_capacity (buffer_new storage) = length storage"
  by (simp add: buffer_remaining_capacity_def buffer_new_def)

text \<open>
  Appending a slice of tokens or bytes is all or nothing. Over any well-formed buffer,
  \<open>push_tokens\<close> appends the whole slice exactly when it fits in the remaining capacity; otherwise
  it answers the capacity error with the two sizes and leaves the buffer as it was; and so does
  \<open>push_bytes\<close>.
\<close>
theorem sink_push_atomic:
  assumes "buffer_wf b" and "push_tokens token_buffer_sink tokens b = (r, b')"
    and "buffer_wf c" and "push_bytes byte_buffer_sink bytes c = (q, c')"
  shows "(if length tokens \<le> buffer_remaining_capacity b
      then r = Inr () \<and> buffer_as_slice b' = buffer_as_slice b @ tokens
      else b' = b \<and> r = Inl (TokCapacityExhausted (capacity_exhausted_new Tokens
        (usize_to_u64 (length tokens)) (usize_to_u64 (buffer_remaining_capacity b)))))
    \<and> (if length bytes \<le> buffer_remaining_capacity c
      then q = Inr () \<and> buffer_as_slice c' = buffer_as_slice c @ bytes
      else c' = c \<and> q = Inl (TokCapacityExhausted (capacity_exhausted_new DecodeBytes
        (usize_to_u64 (length bytes)) (usize_to_u64 (buffer_remaining_capacity c)))))"
  using token_buffer.push_all_atomic [OF assms(1) assms(2) [unfolded push_tokens_def]]
    byte_buffer.push_all_atomic [OF assms(3) assms(4) [unfolded push_bytes_def]]
  by (simp add: token_buffer_sink_def byte_buffer_sink_def split: if_splits)

theorem sink_push_atomic_witness:
  "snd (push_tokens token_buffer_sink [TokenId 1, TokenId 2] (buffer_new [TokenId 0]))
     = buffer_new [TokenId 0]
   \<and> buffer_as_slice (snd (push_bytes byte_buffer_sink [7, 8] (buffer_new [0, 0, 0]))) = [7, 8]"
  using sink_push_atomic [where b = "buffer_new [TokenId 0]" and tokens = "[TokenId 1, TokenId 2]"
      and c = "buffer_new [0, 0, 0]" and bytes = "[7, 8]",
      OF _ prod.collapse [symmetric] _ prod.collapse [symmetric]]
  by (simp add: usize_max_def)

end
