(* ===== verification/Utf8.thy ===== *)
theory Utf8
  imports Prelude
begin

section \<open>UTF-8\<close>

text \<open>
  What \<open>core::str::from_utf8\<close> of the Rust standard library accepts: the well-formed byte
  sequences of the Unicode standard (no overlong forms, no surrogates, nothing above U+10FFFF).
  With it the encoding of scalar values and its inverse, which the round trip of the incremental
  decoder is stated with.
\<close>

subsection \<open>Well-formed sequences\<close>

definition utf8_tail :: "u8 \<Rightarrow> bool" where
  "utf8_tail b \<longleftrightarrow> 0x80 \<le> b \<and> b \<le> 0xBF"

definition utf8_width :: "u8 \<Rightarrow> nat" where
  "utf8_width a =
    (if a < 0x80 then 1
     else if 0xC2 \<le> a \<and> a \<le> 0xDF then 2
     else if 0xE0 \<le> a \<and> a \<le> 0xEF then 3
     else if 0xF0 \<le> a \<and> a \<le> 0xF4 then 4
     else 0)"

text \<open>One encoded scalar value.\<close>

fun utf8_char :: "u8 list \<Rightarrow> bool" where
  "utf8_char [a] \<longleftrightarrow> a < 0x80"
| "utf8_char [a, b] \<longleftrightarrow> utf8_width a = 2 \<and> utf8_tail b"
| "utf8_char [a, b, c] \<longleftrightarrow> utf8_width a = 3 \<and> utf8_tail b \<and> utf8_tail c
     \<and> (a = 0xE0 \<longrightarrow> 0xA0 \<le> b) \<and> (a = 0xED \<longrightarrow> b \<le> 0x9F)"
| "utf8_char [a, b, c, d] \<longleftrightarrow> utf8_width a = 4 \<and> utf8_tail b \<and> utf8_tail c \<and> utf8_tail d
     \<and> (a = 0xF0 \<longrightarrow> 0x90 \<le> b) \<and> (a = 0xF4 \<longrightarrow> b \<le> 0x8F)"
| "utf8_char _ \<longleftrightarrow> False"

function valid_utf8 :: "u8 list \<Rightarrow> bool" where
  "valid_utf8 [] \<longleftrightarrow> True"
| "valid_utf8 (a # bs) \<longleftrightarrow>
     (if utf8_char (take (utf8_width a) (a # bs)) then valid_utf8 (drop (utf8_width a) (a # bs)) else False)"
  by pat_completeness auto

lemma utf8_char_width: "utf8_char (a # bs) \<Longrightarrow> utf8_width a = length (a # bs)"
  by (cases "a # bs" rule: utf8_char.cases) (auto simp: utf8_width_def)

lemma utf8_char_nonempty [simp]: "\<not> utf8_char []"
  by simp

termination valid_utf8
proof (relation "measure length")
  fix a :: u8 and bs :: "u8 list"
  assume "utf8_char (take (utf8_width a) (a # bs))"
  then have "utf8_width a \<noteq> 0" by (cases "utf8_width a") auto
  then show "(drop (utf8_width a) (a # bs), a # bs) \<in> measure length" by simp
qed simp

lemma valid_utf8_char: "utf8_char c \<Longrightarrow> valid_utf8 (c @ bs) = valid_utf8 bs"
  using utf8_char_width by (cases c) auto

lemma valid_utf8_single: "utf8_char c \<Longrightarrow> valid_utf8 c"
  using valid_utf8_char [of c "[]"] by simp

lemma valid_utf8_split:
  assumes "valid_utf8 (a # bs)"
  obtains c rest where "a # bs = c @ rest" "utf8_char c" "length c = utf8_width a" "valid_utf8 rest"
proof -
  let ?c = "take (utf8_width a) (a # bs)"
  from assms have char: "utf8_char ?c" "valid_utf8 (drop (utf8_width a) (a # bs))" by (simp_all split: if_splits)
  then have "utf8_width a \<noteq> 0" by (cases "utf8_width a") auto
  then obtain n where "utf8_width a = Suc n" by (cases "utf8_width a") auto
  then have "?c = a # take n bs" by simp
  with char(1) utf8_char_width [of a "take n bs"] have len: "length ?c = utf8_width a" by simp
  show ?thesis by (rule that [OF _ char(1) len char(2)]) simp
qed

lemma valid_utf8_append: "valid_utf8 as \<Longrightarrow> valid_utf8 (as @ bs) = valid_utf8 bs"
proof (induction as rule: valid_utf8.induct)
  case (2 a as)
  from 2(2) have char: "utf8_char (take (utf8_width a) (a # as))"
    and rest: "valid_utf8 (drop (utf8_width a) (a # as))" by (simp_all split: if_splits)
  have "valid_utf8 (take (utf8_width a) (a # as) @ drop (utf8_width a) (a # as) @ bs)
      = valid_utf8 (drop (utf8_width a) (a # as) @ bs)"
    using char by (rule valid_utf8_char)
  also have "\<dots> = valid_utf8 bs" using 2(1) [OF char rest] .
  finally show ?case by (simp only: append_assoc [symmetric] append_take_drop_id)
qed simp

subsection \<open>Scalar values\<close>

definition scalar_value :: "nat \<Rightarrow> bool" where
  "scalar_value c \<longleftrightarrow> c < 0xD800 \<or> 0xE000 \<le> c \<and> c < 0x110000"

definition utf8_encode_char :: "nat \<Rightarrow> u8 list" where
  "utf8_encode_char c =
    (if c < 0x80 then [of_nat c]
     else if c < 0x800 then [of_nat (0xC0 + c div 64), of_nat (0x80 + c mod 64)]
     else if c < 0x10000
     then [of_nat (0xE0 + c div 4096), of_nat (0x80 + c div 64 mod 64), of_nat (0x80 + c mod 64)]
     else [of_nat (0xF0 + c div 262144), of_nat (0x80 + c div 4096 mod 64),
           of_nat (0x80 + c div 64 mod 64), of_nat (0x80 + c mod 64)])"

definition utf8_encode :: "nat list \<Rightarrow> u8 list" where
  "utf8_encode cs = concat (map utf8_encode_char cs)"

fun utf8_scalar :: "u8 list \<Rightarrow> nat" where
  "utf8_scalar [a] = unat a"
| "utf8_scalar [a, b] = (unat a - 0xC0) * 64 + (unat b - 0x80)"
| "utf8_scalar [a, b, c] = (unat a - 0xE0) * 4096 + (unat b - 0x80) * 64 + (unat c - 0x80)"
| "utf8_scalar [a, b, c, d] =
     (unat a - 0xF0) * 262144 + (unat b - 0x80) * 4096 + (unat c - 0x80) * 64 + (unat d - 0x80)"
| "utf8_scalar _ = 0"

text \<open>\<open>str::chars\<close>, on well-formed text.\<close>

function utf8_scalars :: "u8 list \<Rightarrow> nat list" where
  "utf8_scalars [] = []"
| "utf8_scalars (a # bs) =
     utf8_scalar (take (utf8_width a) (a # bs)) # utf8_scalars (drop (max 1 (utf8_width a)) (a # bs))"
  by pat_completeness auto
termination by (relation "measure length") auto

lemma unat_byte: "n < 256 \<Longrightarrow> unat (of_nat n :: u8) = n"
  by (simp add: unat_of_nat take_bit_nat_eq_self)

lemma byte_eq: "n < 256 \<Longrightarrow> (of_nat n :: u8) = b \<longleftrightarrow> n = unat b"
  using unat_byte [of n] by (auto simp: word_unat_eq_iff)

lemma encode_char_1: "c < 0x80 \<Longrightarrow> utf8_char [of_nat c :: u8] \<and> utf8_scalar [of_nat c] = c"
  by (simp add: word_less_nat_alt unat_byte)

lemma encode_char_2:
  assumes "0x80 \<le> c" "c < 0x800"
  shows "utf8_char [of_nat (0xC0 + c div 64) :: u8, of_nat (0x80 + c mod 64)]
    \<and> utf8_scalar [of_nat (0xC0 + c div 64), of_nat (0x80 + c mod 64)] = c"
proof -
  have a: "unat (of_nat (0xC0 + c div 64) :: u8) = 0xC0 + c div 64"
    and b: "unat (of_nat (0x80 + c mod 64) :: u8) = 0x80 + c mod 64"
    using assms by (intro unat_byte; simp)+
  have "2 \<le> c div 64" "c div 64 < 32" using assms by simp_all
  then show ?thesis
    by (simp add: utf8_width_def utf8_tail_def word_le_nat_alt word_less_nat_alt a b del: of_nat_add)
qed

lemma split_64:
  fixes c :: nat
  shows "c = c div 64 * 64 + c mod 64" "c div 64 = c div 4096 * 64 + c div 64 mod 64"
    "c div 4096 = c div 262144 * 64 + c div 4096 mod 64"
  using div_mult_mod_eq [of c 64] div_mult_mod_eq [of "c div 64" 64] div_mult_mod_eq [of "c div 4096" 64]
  by (simp_all add: div_mult2_eq [symmetric])

lemma char_3:
  assumes "x < 16" "y < 64" "z < 64" "x = 0 \<longrightarrow> 32 \<le> y" "x = 13 \<longrightarrow> y < 32"
  shows "utf8_char [of_nat (0xE0 + x) :: u8, of_nat (0x80 + y), of_nat (0x80 + z)]
    \<and> utf8_scalar [of_nat (0xE0 + x), of_nat (0x80 + y), of_nat (0x80 + z)] = x * 4096 + y * 64 + z"
proof -
  have d: "unat (of_nat (0xE0 + x) :: u8) = 0xE0 + x" and e: "unat (of_nat (0x80 + y) :: u8) = 0x80 + y"
    and f: "unat (of_nat (0x80 + z) :: u8) = 0x80 + z"
    using assms by (intro unat_byte; simp)+
  have first: "of_nat (0xE0 + x) = (0xE0 :: u8) \<longleftrightarrow> x = 0" "of_nat (0xE0 + x) = (0xED :: u8) \<longleftrightarrow> x = 13"
    using assms(1) by (subst byte_eq; simp)+
  from assms show ?thesis
    by (auto simp: utf8_width_def utf8_tail_def word_le_nat_alt word_less_nat_alt d e f first
        simp del: of_nat_add)
qed

lemma char_4:
  assumes "x < 5" "y < 64" "z < 64" "w < 64" "x = 0 \<longrightarrow> 16 \<le> y" "x = 4 \<longrightarrow> y < 16"
  shows "utf8_char [of_nat (0xF0 + x) :: u8, of_nat (0x80 + y), of_nat (0x80 + z), of_nat (0x80 + w)]
    \<and> utf8_scalar [of_nat (0xF0 + x), of_nat (0x80 + y), of_nat (0x80 + z), of_nat (0x80 + w)]
      = x * 262144 + y * 4096 + z * 64 + w"
proof -
  have d: "unat (of_nat (0xF0 + x) :: u8) = 0xF0 + x" and e: "unat (of_nat (0x80 + y) :: u8) = 0x80 + y"
    and f: "unat (of_nat (0x80 + z) :: u8) = 0x80 + z" and g: "unat (of_nat (0x80 + w) :: u8) = 0x80 + w"
    using assms by (intro unat_byte; simp)+
  have first: "of_nat (0xF0 + x) = (0xF0 :: u8) \<longleftrightarrow> x = 0" "of_nat (0xF0 + x) = (0xF4 :: u8) \<longleftrightarrow> x = 4"
    using assms(1) by (subst byte_eq; simp)+
  from assms show ?thesis
    by (auto simp: utf8_width_def utf8_tail_def word_le_nat_alt word_less_nat_alt d e f g first
        simp del: of_nat_add)
qed

lemma encode_char_3:
  assumes "0x800 \<le> c" "c < 0x10000" "c < 0xD800 \<or> 0xE000 \<le> c"
  shows "utf8_char [of_nat (0xE0 + c div 4096) :: u8, of_nat (0x80 + c div 64 mod 64), of_nat (0x80 + c mod 64)]
    \<and> utf8_scalar [of_nat (0xE0 + c div 4096), of_nat (0x80 + c div 64 mod 64), of_nat (0x80 + c mod 64)] = c"
proof -
  have whole: "c div 4096 * 4096 + c div 64 mod 64 * 64 + c mod 64 = c" using split_64 [of c] by linarith
  have "c div 4096 < 16" "c div 4096 = 0 \<longrightarrow> 32 \<le> c div 64 mod 64" "c div 4096 = 13 \<longrightarrow> c div 64 mod 64 < 32"
    using assms split_64(1,2) [of c] by linarith+
  then have "utf8_char [of_nat (0xE0 + c div 4096) :: u8, of_nat (0x80 + c div 64 mod 64), of_nat (0x80 + c mod 64)]
    \<and> utf8_scalar [of_nat (0xE0 + c div 4096), of_nat (0x80 + c div 64 mod 64), of_nat (0x80 + c mod 64)]
      = c div 4096 * 4096 + c div 64 mod 64 * 64 + c mod 64" by (intro char_3) simp_all
  then show ?thesis unfolding whole .
qed

lemma encode_char_4:
  assumes "0x10000 \<le> c" "c < 0x110000"
  shows "utf8_char [of_nat (0xF0 + c div 262144) :: u8, of_nat (0x80 + c div 4096 mod 64),
      of_nat (0x80 + c div 64 mod 64), of_nat (0x80 + c mod 64)]
    \<and> utf8_scalar [of_nat (0xF0 + c div 262144), of_nat (0x80 + c div 4096 mod 64),
      of_nat (0x80 + c div 64 mod 64), of_nat (0x80 + c mod 64)] = c"
proof -
  have whole: "c div 262144 * 262144 + c div 4096 mod 64 * 4096 + c div 64 mod 64 * 64 + c mod 64 = c"
    using split_64 [of c] by linarith
  have "c div 262144 < 5" "c div 262144 = 0 \<longrightarrow> 16 \<le> c div 4096 mod 64"
    "c div 262144 = 4 \<longrightarrow> c div 4096 mod 64 < 16"
    using assms split_64 [of c] by linarith+
  then have "utf8_char [of_nat (0xF0 + c div 262144) :: u8, of_nat (0x80 + c div 4096 mod 64),
      of_nat (0x80 + c div 64 mod 64), of_nat (0x80 + c mod 64)]
    \<and> utf8_scalar [of_nat (0xF0 + c div 262144), of_nat (0x80 + c div 4096 mod 64),
      of_nat (0x80 + c div 64 mod 64), of_nat (0x80 + c mod 64)]
      = c div 262144 * 262144 + c div 4096 mod 64 * 4096 + c div 64 mod 64 * 64 + c mod 64"
    by (intro char_4) simp_all
  then show ?thesis unfolding whole .
qed

lemma encode_char:
  assumes "scalar_value c"
  shows "utf8_char (utf8_encode_char c)" "utf8_scalar (utf8_encode_char c) = c"
proof -
  consider "c < 0x80" | "0x80 \<le> c" "c < 0x800" | "0x800 \<le> c" "c < 0x10000" | "0x10000 \<le> c" by linarith
  then have "utf8_char (utf8_encode_char c) \<and> utf8_scalar (utf8_encode_char c) = c"
  proof cases
    case 1
    then show ?thesis unfolding utf8_encode_char_def by (simp only: if_True encode_char_1)
  next
    case 2
    with encode_char_2 [OF 2] show ?thesis unfolding utf8_encode_char_def by (simp only: not_less [symmetric] if_True if_False)
  next
    case 3
    with encode_char_3 [OF 3] assms have
      "utf8_char [of_nat (0xE0 + c div 4096) :: u8, of_nat (0x80 + c div 64 mod 64), of_nat (0x80 + c mod 64)]
       \<and> utf8_scalar [of_nat (0xE0 + c div 4096), of_nat (0x80 + c div 64 mod 64), of_nat (0x80 + c mod 64)] = c"
      unfolding scalar_value_def by blast
    moreover have "\<not> c < 0x80" "\<not> c < 0x800" using 3 by linarith+
    ultimately show ?thesis using 3(2) unfolding utf8_encode_char_def by (simp only: if_True if_False)
  next
    case 4
    with assms have "c < 0x110000" by (auto simp: scalar_value_def)
    note enc = encode_char_4 [OF 4 this]
    have "\<not> c < 0x80" "\<not> c < 0x800" "\<not> c < 0x10000" using 4 by linarith+
    with enc show ?thesis unfolding utf8_encode_char_def by (simp only: if_True if_False)
  qed
  then show "utf8_char (utf8_encode_char c)" "utf8_scalar (utf8_encode_char c) = c" by blast+
qed

lemma utf8_encode_valid: "list_all scalar_value cs \<Longrightarrow> valid_utf8 (utf8_encode cs)"
  by (induction cs) (simp_all add: utf8_encode_def valid_utf8_char encode_char)

lemma utf8_scalars_char: "utf8_char c \<Longrightarrow> utf8_scalars (c @ bs) = utf8_scalar c # utf8_scalars bs"
  using utf8_char_width by (cases c) auto

lemma utf8_scalars_encode: "list_all scalar_value cs \<Longrightarrow> utf8_scalars (utf8_encode cs) = cs"
  by (induction cs) (simp_all add: utf8_encode_def utf8_scalars_char encode_char)

end
