(* ===== verification/Utf8_Decoder.thy ===== *)
theory Utf8_Decoder
  imports Tokenization Utf8
begin

section \<open>The incremental UTF-8 decoder\<close>

text \<open>
  \<open>crates/features/tokenization/src/utf8.rs\<close> and the text side of \<open>sink.rs\<close>. The decoder keeps
  at most one incomplete scalar value between calls. \<open>text_sink_laws\<close> is what it relies on of its
  sink; the decoder is verified inside it, and the text buffer of \<open>sink.rs\<close> satisfies it.
\<close>

unbundle bit_operations_syntax

record utf8_decoder =
  ud_pending :: "u8 list"
  ud_pending_length :: u8
  ud_expected_length :: u8

definition utf8_decoder_new :: utf8_decoder where
  "utf8_decoder_new = \<lparr>ud_pending = [0, 0, 0, 0], ud_pending_length = 0, ud_expected_length = 0\<rparr>"

definition utf8_reset :: "utf8_decoder \<Rightarrow> utf8_decoder" where
  "utf8_reset d = d\<lparr>ud_pending := [0, 0, 0, 0], ud_pending_length := 0, ud_expected_length := 0\<rparr>"

definition utf8_finish :: "utf8_decoder \<Rightarrow> tokenization_error + unit" where
  "utf8_finish d =
    (if ud_pending_length d = 0 then Inr () else Inl (IncompleteUtf8 (ud_pending_length d)))"

definition utf8_flush_complete ::
    "'s text_sink \<Rightarrow> utf8_decoder \<Rightarrow> 's \<Rightarrow> (tokenization_error + unit) \<times> utf8_decoder \<times> 's" where
  "utf8_flush_complete sink d s =
    (if ud_pending_length d = 0 \<or> ud_pending_length d \<noteq> ud_expected_length d then (Inr (), d, s)
     else let len = unat (ud_expected_length d) in
       if length (ud_pending d) < len then (Inl (InvalidUtf8 0), utf8_reset d, s)
       else let fragment = take len (ud_pending d) in
         if \<not> valid_utf8 fragment
         then (Inl (InvalidUtf8 (if fragment = [] then 0 else last fragment)), utf8_reset d, s)
         else (case ts_push_str sink fragment s of
                 (Inl e, s) \<Rightarrow> (Inl e, d, s)
               | (Inr _, s) \<Rightarrow> (Inr (), utf8_reset d, s)))"

definition utf8_expected :: "u8 \<Rightarrow> u8 option" where
  "utf8_expected byte =
    (if 0xC2 \<le> byte \<and> byte \<le> 0xDF then Some 2
     else if 0xE0 \<le> byte \<and> byte \<le> 0xEF then Some 3
     else if 0xF0 \<le> byte \<and> byte \<le> 0xF4 then Some 4
     else None)"

definition utf8_push_byte ::
    "'s text_sink \<Rightarrow> u8 \<Rightarrow> utf8_decoder \<Rightarrow> 's \<Rightarrow> (tokenization_error + unit) \<times> utf8_decoder \<times> 's" where
  "utf8_push_byte sink byte d s =
    (if ud_pending_length d = 0 then
       (if byte < 0x80 then
          utf8_flush_complete sink (d\<lparr>ud_pending := (ud_pending d)[0 := byte],
            ud_pending_length := 1, ud_expected_length := 1\<rparr>) s
        else (case utf8_expected byte of
                None \<Rightarrow> (Inl (InvalidUtf8 byte), d, s)
              | Some expected \<Rightarrow> (Inr (), d\<lparr>ud_pending := (ud_pending d)[0 := byte],
                  ud_pending_length := 1, ud_expected_length := expected\<rparr>, s)))
     else if byte AND 0xC0 \<noteq> 0x80 then (Inl (InvalidUtf8 byte), utf8_reset d, s)
     else let position = unat (ud_pending_length d) in
       if length (ud_pending d) \<le> position then (Inl (InvalidUtf8 byte), utf8_reset d, s)
       else let d = d\<lparr>ud_pending := (ud_pending d)[position := byte],
              ud_pending_length := saturating_add (ud_pending_length d) 1\<rparr> in
         if ud_pending_length d \<noteq> ud_expected_length d then (Inr (), d, s)
         else utf8_flush_complete sink d s)"

fun utf8_push_each ::
    "'s text_sink \<Rightarrow> u8 list \<Rightarrow> utf8_decoder \<Rightarrow> 's \<Rightarrow> (tokenization_error + unit) \<times> utf8_decoder \<times> 's" where
  "utf8_push_each sink [] d s = (Inr (), d, s)"
| "utf8_push_each sink (byte # bytes) d s =
     (case utf8_push_byte sink byte d s of
        (Inl e, d, s) \<Rightarrow> (Inl e, d, s)
      | (Inr _, d, s) \<Rightarrow> utf8_push_each sink bytes d s)"

definition utf8_push_bytes ::
    "'s text_sink \<Rightarrow> u8 list \<Rightarrow> utf8_decoder \<Rightarrow> 's \<Rightarrow> (tokenization_error + unit) \<times> utf8_decoder \<times> 's" where
  "utf8_push_bytes sink bytes d s =
    (let required = usize_saturating_add (unat (ud_pending_length d)) (length bytes) in
     if ts_remaining_capacity sink s < required
     then (Inl (TokCapacityExhausted (capacity_exhausted_new DecodeBytes
             (usize_to_u64 required) (usize_to_u64 (ts_remaining_capacity sink s)))), d, s)
     else (case utf8_flush_complete sink d s of
             (Inl e, d, s) \<Rightarrow> (Inl e, d, s)
           | (Inr _, d, s) \<Rightarrow> utf8_push_each sink bytes d s))"

text \<open>
  Two clients: one that pushes the bytes of successive tokens until an error, and one that goes
  on after an error.
\<close>

fun utf8_push_chunks ::
    "'s text_sink \<Rightarrow> u8 list list \<Rightarrow> utf8_decoder \<Rightarrow> 's \<Rightarrow> (tokenization_error + unit) \<times> utf8_decoder \<times> 's" where
  "utf8_push_chunks sink [] d s = (Inr (), d, s)"
| "utf8_push_chunks sink (bytes # chunks) d s =
     (case utf8_push_bytes sink bytes d s of
        (Inl e, d, s) \<Rightarrow> (Inl e, d, s)
      | (Inr _, d, s) \<Rightarrow> utf8_push_chunks sink chunks d s)"

fun utf8_push_any :: "'s text_sink \<Rightarrow> u8 list list \<Rightarrow> utf8_decoder \<Rightarrow> 's \<Rightarrow> utf8_decoder \<times> 's" where
  "utf8_push_any sink [] d s = (d, s)"
| "utf8_push_any sink (bytes # chunks) d s =
     (case utf8_push_bytes sink bytes d s of (_, d, s) \<Rightarrow> utf8_push_any sink chunks d s)"

text \<open>\<open>TextBuffer::as_str\<close>.\<close>

definition text_buffer_as_str :: "text_buffer \<Rightarrow> tokenization_error + u8 list" where
  "text_buffer_as_str b =
    (if length (sb_storage b) < sb_length b then Inl (InvalidUtf8 0)
     else let bytes = take (sb_length b) (sb_storage b) in
       if valid_utf8 bytes then Inr bytes else Inl (InvalidUtf8 0))"

subsection \<open>Bytes\<close>

lemma tail_mask: "byte AND 0xC0 = 0x80 \<longleftrightarrow> utf8_tail byte"
proof -
  have small: "unat byte < 2 ^ LENGTH(8)" by (rule unsigned_less)
  have "byte AND NOT (mask 6) = push_bit 6 (drop_bit 6 byte)"
    by (rule bit_word_eqI) (auto simp: bit_simps simp del: push_bit_numeral)
  moreover have "NOT (mask 6) = (0xC0 :: 8 word)" by (simp add: mask_eq_exp_minus_1)
  ultimately have "byte AND 0xC0 = push_bit 6 (drop_bit 6 byte)" by simp
  moreover have "unat (push_bit 6 (drop_bit 6 byte)) = unat byte div 64 * 64"
    unfolding unsigned_push_bit_eq unsigned_drop_bit_eq using small
    by (simp add: push_bit_eq_mult drop_bit_eq_div take_bit_eq_mod)
  ultimately have "unat (byte AND 0xC0) = unat byte div 64 * 64" by simp
  then show ?thesis by (auto simp: word_unat_eq_iff utf8_tail_def word_le_nat_alt)
qed

lemma expected_width:
  "utf8_expected byte = (if \<not> byte < 0x80 \<and> utf8_width byte \<noteq> 0 then Some (of_nat (utf8_width byte)) else None)"
  by (auto simp: utf8_expected_def utf8_width_def word_le_nat_alt word_less_nat_alt)

lemma utf8_char_tail: "utf8_char (a # bs) \<Longrightarrow> list_all utf8_tail bs"
  by (cases "a # bs" rule: utf8_char.cases) auto

lemma utf8_width_le: "utf8_width a \<le> 4"
  by (simp add: utf8_width_def)

lemma valid_utf8_fragment:
  assumes "length (a # bs) = utf8_width a"
  shows "valid_utf8 (a # bs @ cs) \<longleftrightarrow> utf8_char (a # bs) \<and> valid_utf8 cs"
proof -
  from assms have "take (utf8_width a) (a # bs @ cs) = a # bs" "drop (utf8_width a) (a # bs @ cs) = cs"
    by (simp_all only: append_Cons [symmetric] assms [symmetric] append_eq_conv_conj [symmetric]
        append_take_drop_id take_append drop_append take_all drop_all) simp_all
  then show ?thesis by (simp only: valid_utf8.simps) simp
qed

subsection \<open>The decoder over any sink that keeps its promises\<close>

text \<open>The bytes held back, and the states in which at most an incomplete scalar value is.\<close>

definition utf8_held :: "utf8_decoder \<Rightarrow> u8 list" where
  "utf8_held d = take (unat (ud_pending_length d)) (ud_pending d)"

definition incomplete :: "u8 list \<Rightarrow> bool" where
  "incomplete bs \<longleftrightarrow> (case bs of [] \<Rightarrow> True | a # as \<Rightarrow> length bs < utf8_width a \<and> list_all utf8_tail as)"

definition utf8_decoder_wf :: "utf8_decoder \<Rightarrow> bool" where
  "utf8_decoder_wf d \<longleftrightarrow> length (ud_pending d) = 4 \<and> unat (ud_pending_length d) \<le> 4
     \<and> incomplete (utf8_held d)
     \<and> (ud_pending_length d \<noteq> 0 \<longrightarrow> unat (ud_expected_length d) = utf8_width (ud_pending d ! 0))"

lemma held_first: "utf8_held d = a # as \<Longrightarrow> ud_pending d ! 0 = a"
  unfolding utf8_held_def by (cases "ud_pending d"; cases "unat (ud_pending_length d)") auto

lemma utf8_new_wf [simp]: "utf8_decoder_wf utf8_decoder_new" "utf8_held utf8_decoder_new = []"
  by (simp_all add: utf8_decoder_wf_def utf8_held_def incomplete_def utf8_decoder_new_def)

lemma utf8_reset_wf [simp]: "utf8_decoder_wf (utf8_reset d)" "utf8_held (utf8_reset d) = []"
  by (simp_all add: utf8_decoder_wf_def utf8_held_def incomplete_def utf8_reset_def)

lemma utf8_finish_Inr: "utf8_decoder_wf d \<Longrightarrow> utf8_finish d = Inr () \<longleftrightarrow> utf8_held d = []"
  by (auto simp: utf8_finish_def utf8_held_def utf8_decoder_wf_def unat_eq_zero)

lemma incomplete_valid: "incomplete bs \<Longrightarrow> valid_utf8 bs \<longleftrightarrow> bs = []"
proof (cases bs)
  case (Cons a as)
  assume "incomplete bs"
  with Cons have short: "length (a # as) < utf8_width a" by (simp add: incomplete_def)
  show ?thesis
  proof
    assume "valid_utf8 bs"
    then have "valid_utf8 (a # as)" by (simp add: Cons)
    then obtain c rest where "a # as = c @ rest" "length c = utf8_width a" by (rule valid_utf8_split)
    then have "length (a # as) = utf8_width a + length rest" by (metis length_append)
    with short show "bs = []" by simp
  qed simp
qed simp

lemma incomplete_next:
  assumes "incomplete (a # as)" and "valid_utf8 (a # as @ b # bs)"
  shows "utf8_tail b"
proof -
  from assms(2) obtain c rest where c: "a # as @ b # bs = c @ rest" "utf8_char c" "length c = utf8_width a"
    by (rule valid_utf8_split)
  with assms(1) have "length (a # as) < length c" by (simp add: incomplete_def)
  with c(1) have "c ! length (a # as) = b" "length as < length (tl c)"
    by (metis nth_append_length nth_append append_Cons) (use \<open>length (a # as) < length c\<close> in simp)
  moreover have "list_all utf8_tail (tl c)" using c(2) utf8_char_tail by (cases c) auto
  ultimately show ?thesis
    by (metis list_all_length length_Cons nth_tl)
qed

locale text_sink_laws =
  fixes sink :: "'s text_sink"
    and content :: "'s \<Rightarrow> u8 list"
    and wf :: "'s \<Rightarrow> bool"
  assumes push_str_room: "wf s \<Longrightarrow> valid_utf8 text \<Longrightarrow> length text \<le> ts_remaining_capacity sink s \<Longrightarrow>
      \<exists>s'. ts_push_str sink text s = (Inr (), s') \<and> wf s' \<and> content s' = content s @ text
        \<and> ts_remaining_capacity sink s = ts_remaining_capacity sink s' + length text"
    and capacity_bound: "wf s \<Longrightarrow> ts_remaining_capacity sink s < usize_max"
begin

text \<open>What one step does to the bytes: what it emits, and what it decides about the stream.\<close>

definition advanced :: "u8 list \<Rightarrow> utf8_decoder \<Rightarrow> 's \<Rightarrow> utf8_decoder \<Rightarrow> 's \<Rightarrow> bool" where
  "advanced bytes d s d' s' \<longleftrightarrow>
     (\<exists>emitted. utf8_held d @ bytes = emitted @ utf8_held d' \<and> valid_utf8 emitted
        \<and> content s' = content s @ emitted
        \<and> ts_remaining_capacity sink s = ts_remaining_capacity sink s' + length emitted)"

lemma flush_incomplete:
  assumes "utf8_decoder_wf d" shows "utf8_flush_complete sink d s = (Inr (), d, s)"
proof (cases "ud_pending_length d = 0")
  case False
  from assms have len: "length (utf8_held d) = unat (ud_pending_length d)"
    by (simp add: utf8_held_def utf8_decoder_wf_def)
  with False obtain a as where held: "utf8_held d = a # as" by (cases "utf8_held d") (auto simp: unat_eq_zero)
  then have "ud_pending d ! 0 = a" by (rule held_first)
  with assms held len False have "unat (ud_pending_length d) < unat (ud_expected_length d)"
    by (simp add: utf8_decoder_wf_def incomplete_def)
  then show ?thesis by (auto simp: utf8_flush_complete_def)
qed (simp add: utf8_flush_complete_def)

lemma push_byte_spec:
  assumes d: "utf8_decoder_wf d" and s: "wf s"
    and room: "length (utf8_held d) < ts_remaining_capacity sink s"
    and push: "utf8_push_byte sink b d s = (r, d', s')"
  shows "utf8_decoder_wf d'" "wf s'"
    "case r of
       Inr _ \<Rightarrow> advanced [b] d s d' s' \<and> (\<forall>bs. valid_utf8 (utf8_held d @ b # bs) \<longleftrightarrow> valid_utf8 (utf8_held d' @ bs))
     | Inl e \<Rightarrow> (\<exists>byte. e = InvalidUtf8 byte) \<and> s' = s \<and> utf8_held d' = []
         \<and> (\<forall>bs. \<not> valid_utf8 (utf8_held d @ b # bs))"
proof -
  have len: "length (utf8_held d) = unat (ud_pending_length d)" and four: "length (ud_pending d) = 4"
    using d by (simp_all add: utf8_held_def utf8_decoder_wf_def)
  have "utf8_decoder_wf d' \<and> wf s' \<and> (case r of
       Inr _ \<Rightarrow> advanced [b] d s d' s' \<and> (\<forall>bs. valid_utf8 (utf8_held d @ b # bs) \<longleftrightarrow> valid_utf8 (utf8_held d' @ bs))
     | Inl e \<Rightarrow> (\<exists>byte. e = InvalidUtf8 byte) \<and> s' = s \<and> utf8_held d' = []
         \<and> (\<forall>bs. \<not> valid_utf8 (utf8_held d @ b # bs)))"
  proof (cases "ud_pending_length d = 0")
    case True
    then have none: "utf8_held d = []" using len by simp
    obtain p0 p1 p2 p3 where pending: "ud_pending d = [p0, p1, p2, p3]"
      using four by (auto simp: numeral_eq_Suc length_Suc_conv)
    consider (ascii) "b < 0x80" | (lead) "\<not> b < 0x80" "utf8_width b \<noteq> 0" | (bad) "\<not> b < 0x80" "utf8_width b = 0"
      by blast
    then show ?thesis
    proof cases
      case ascii
      then have valid: "valid_utf8 [b]" by (simp add: utf8_width_def)
      from push_str_room [OF s this] room none obtain t where
        "ts_push_str sink [b] s = (Inr (), t)" "wf t" "content t = content s @ [b]"
        "ts_remaining_capacity sink s = ts_remaining_capacity sink t + 1" by auto
      with push True ascii pending valid have
        "r = Inr () \<and> d' = utf8_reset (d\<lparr>ud_pending := [b, p1, p2, p3], ud_pending_length := 1,
            ud_expected_length := 1\<rparr>) \<and> s' = t"
        by (simp add: utf8_push_byte_def utf8_flush_complete_def del: valid_utf8.simps)
      with \<open>wf t\<close> \<open>content t = _\<close> \<open>ts_remaining_capacity sink s = _\<close> show ?thesis
        using valid valid_utf8_append [OF valid] by (auto simp: none advanced_def simp del: valid_utf8.simps)
    next
      case lead
      with push True pending have step: "r = Inr ()" "s' = s" "d' = d\<lparr>ud_pending := [b, p1, p2, p3],
          ud_pending_length := 1, ud_expected_length := of_nat (utf8_width b)\<rparr>"
        by (auto simp: utf8_push_byte_def expected_width)
      then have "utf8_held d' = [b]" by (simp add: utf8_held_def)
      moreover from lead have "1 < utf8_width b" by (auto simp: utf8_width_def split: if_splits)
      ultimately have "utf8_decoder_wf d'"
        using step(3) unat_byte [of "utf8_width b"] utf8_width_le [of b]
        by (simp add: utf8_decoder_wf_def incomplete_def)
      with step \<open>utf8_held d' = [b]\<close> s show ?thesis
        by (simp add: none advanced_def del: valid_utf8.simps(2))
    next
      case bad
      with push True have "r = Inl (InvalidUtf8 b)" "d' = d" "s' = s"
        by (auto simp: utf8_push_byte_def expected_width)
      with bad d s show ?thesis by (simp add: none)
    qed
  next
    case False
    then obtain a as where held: "utf8_held d = a # as" using len by (cases "utf8_held d") (auto simp: unat_eq_zero)
    have expected: "unat (ud_expected_length d) = utf8_width a"
      using d False held_first [OF held] by (simp add: utf8_decoder_wf_def)
    have short: "Suc (length as) < utf8_width a" and tails: "list_all utf8_tail as" and part: "incomplete (a # as)"
      using d held by (simp_all add: utf8_decoder_wf_def incomplete_def)
    have position: "unat (ud_pending_length d) = Suc (length as)" using len held by simp
    show ?thesis
    proof (cases "utf8_tail b")
      case no: False
      then have "r = Inl (InvalidUtf8 b)" "d' = utf8_reset d" "s' = s"
        using push False by (auto simp: utf8_push_byte_def tail_mask)
      moreover have "\<not> valid_utf8 (a # as @ b # bs)" for bs using incomplete_next [OF part] no by blast
      ultimately show ?thesis using s by (simp add: held del: valid_utf8.simps(2))
    next
      case tail: True
      define d1 where "d1 = d\<lparr>ud_pending := (ud_pending d)[Suc (length as) := b],
        ud_pending_length := saturating_add (ud_pending_length d) 1\<rparr>"
      have room_byte: "Suc (length as) < 4" using short utf8_width_le [of a] by linarith
      then have next_length: "unat (saturating_add (ud_pending_length d) 1) = Suc (Suc (length as))"
        using position by (simp add: unat_saturating_add)
      have held1: "utf8_held d1 = a # as @ [b]"
        using held four room_byte position next_length
        by (simp add: d1_def utf8_held_def take_Suc_conv_app_nth)
      have first1: "ud_pending d1 ! 0 = a" using held1 by (rule held_first)
      have step: "utf8_push_byte sink b d s = (if Suc (Suc (length as)) \<noteq> utf8_width a then (Inr (), d1, s)
          else utf8_flush_complete sink d1 s)"
      proof -
        have mask: "b AND 0xC0 = 0x80" using tail by (simp add: tail_mask)
        have more: "saturating_add (ud_pending_length d) 1 \<noteq> ud_expected_length d
            \<longleftrightarrow> Suc (Suc (length as)) \<noteq> utf8_width a"
          using next_length expected by (simp add: word_unat_eq_iff)
        show ?thesis
          using False position four room_byte more by (simp add: utf8_push_byte_def mask d1_def Let_def)
      qed
      show ?thesis
      proof (cases "Suc (Suc (length as)) = utf8_width a")
        case more: False
        then have "r = Inr ()" "d' = d1" "s' = s" using step push by simp_all
        moreover have "utf8_decoder_wf d1"
          using more short tails tail expected first1 four room_byte next_length held1
          by (simp add: utf8_decoder_wf_def incomplete_def) (simp add: d1_def)
        ultimately show ?thesis using s held held1 by (simp add: advanced_def del: valid_utf8.simps(2))
      next
        case full: True
        have fragment: "take (utf8_width a) (ud_pending d1) = a # as @ [b]"
          using held1 next_length full by (simp add: utf8_held_def d1_def)
        have flush: "utf8_flush_complete sink d1 s =
            (if \<not> valid_utf8 (a # as @ [b]) then (Inl (InvalidUtf8 b), utf8_reset d1, s)
             else case ts_push_str sink (a # as @ [b]) s of
                    (Inl e, s) \<Rightarrow> (Inl e, d1, s) | (Inr _, s) \<Rightarrow> (Inr (), utf8_reset d1, s))"
        proof -
          have "unat (ud_pending_length d1) = utf8_width a" and width: "unat (ud_expected_length d1) = utf8_width a"
            using full expected next_length by (simp_all add: d1_def)
          then have ready: "ud_pending_length d1 = ud_expected_length d1" "ud_expected_length d1 \<noteq> 0"
            using full by (auto simp: word_unat_eq_iff)
          have "length (ud_pending d1) = 4" using four by (simp add: d1_def)
          with ready width fragment utf8_width_le [of a] show ?thesis
            by (simp add: utf8_flush_complete_def del: valid_utf8.simps(2))
        qed
        have whole: "valid_utf8 (a # as @ b # bs) \<longleftrightarrow> utf8_char (a # as @ [b]) \<and> valid_utf8 bs" for bs
          using valid_utf8_fragment [of a "as @ [b]" bs] full by simp
        show ?thesis
        proof (cases "valid_utf8 (a # as @ [b])")
          case invalid: False
          then have "\<not> utf8_char (a # as @ [b])" using valid_utf8_single by blast
          with invalid flush step full push s show ?thesis
            by (auto simp: held whole simp del: valid_utf8.simps(2))
        next
          case valid: True
          then have char: "utf8_char (a # as @ [b])" using whole [of "[]"] by simp
          from push_str_room [OF s valid] room held obtain t where t:
            "ts_push_str sink (a # as @ [b]) s = (Inr (), t)" "wf t" "content t = content s @ a # as @ [b]"
            "ts_remaining_capacity sink s = ts_remaining_capacity sink t + length (a # as @ [b])" by auto
          with valid flush step full push have "r = Inr ()" "d' = utf8_reset d1" "s' = t"
            by (simp_all del: valid_utf8.simps(2))
          with t valid char show ?thesis by (auto simp: held whole advanced_def simp del: valid_utf8.simps(2))
        qed
      qed
    qed
  qed
  then show "utf8_decoder_wf d'" "wf s'"
    "case r of
       Inr _ \<Rightarrow> advanced [b] d s d' s' \<and> (\<forall>bs. valid_utf8 (utf8_held d @ b # bs) \<longleftrightarrow> valid_utf8 (utf8_held d' @ bs))
     | Inl e \<Rightarrow> (\<exists>byte. e = InvalidUtf8 byte) \<and> s' = s \<and> utf8_held d' = []
         \<and> (\<forall>bs. \<not> valid_utf8 (utf8_held d @ b # bs))" by blast+
qed

lemma advanced_refl: "advanced [] d s d s"
  by (simp add: advanced_def)

lemma advanced_trans:
  assumes "advanced xs d s d1 s1" and "advanced ys d1 s1 d2 s2"
  shows "advanced (xs @ ys) d s d2 s2"
proof -
  from assms obtain e1 e2 where
    "utf8_held d @ xs = e1 @ utf8_held d1" "valid_utf8 e1" "content s1 = content s @ e1"
    "ts_remaining_capacity sink s = ts_remaining_capacity sink s1 + length e1"
    "utf8_held d1 @ ys = e2 @ utf8_held d2" "valid_utf8 e2" "content s2 = content s1 @ e2"
    "ts_remaining_capacity sink s1 = ts_remaining_capacity sink s2 + length e2"
    unfolding advanced_def by blast
  then show ?thesis unfolding advanced_def
    by (intro exI [of _ "e1 @ e2"]) (simp add: valid_utf8_append, metis append_assoc)
qed

text \<open>The answer of a push, with the bytes that were still waiting.\<close>

definition pushed ::
    "u8 list \<Rightarrow> utf8_decoder \<Rightarrow> 's \<Rightarrow> tokenization_error + unit \<Rightarrow> utf8_decoder \<Rightarrow> 's \<Rightarrow> bool" where
  "pushed bytes d s r d' s' \<longleftrightarrow> utf8_decoder_wf d' \<and> wf s' \<and>
     (case r of
        Inr _ \<Rightarrow> advanced bytes d s d' s'
          \<and> (\<forall>bs. valid_utf8 (utf8_held d @ bytes @ bs) \<longleftrightarrow> valid_utf8 (utf8_held d' @ bs))
      | Inl e \<Rightarrow> (\<exists>byte. e = InvalidUtf8 byte) \<and> utf8_held d' = []
          \<and> (\<forall>bs. \<not> valid_utf8 (utf8_held d @ bytes @ bs))
          \<and> (\<exists>emitted. valid_utf8 emitted \<and> content s' = content s @ emitted))"

lemma advanced_room:
  "advanced xs d s d1 s1 \<Longrightarrow>
    length (utf8_held d) + length xs + ts_remaining_capacity sink s1
      = length (utf8_held d1) + ts_remaining_capacity sink s"
proof -
  assume "advanced xs d s d1 s1"
  then obtain emitted where "utf8_held d @ xs = emitted @ utf8_held d1"
    "ts_remaining_capacity sink s = ts_remaining_capacity sink s1 + length emitted"
    unfolding advanced_def by blast
  from arg_cong [OF this(1), of length] this(2) show ?thesis by simp
qed

lemma pushed_refl: "utf8_decoder_wf d \<Longrightarrow> wf s \<Longrightarrow> pushed [] d s (Inr u) d s"
  by (simp add: pushed_def advanced_refl)

lemma pushed_Inl: "pushed xs d s (Inl e) d1 s1 \<Longrightarrow> pushed (xs @ ys) d s (Inl e) d1 s1"
  by (simp add: pushed_def)

lemma pushed_trans:
  assumes first: "pushed xs d s (Inr u) d1 s1" and second: "pushed ys d1 s1 r d2 s2"
  shows "pushed (xs @ ys) d s r d2 s2"
proof -
  have advanced: "advanced xs d s d1 s1"
    and stream: "\<And>bs. valid_utf8 (utf8_held d @ xs @ bs) \<longleftrightarrow> valid_utf8 (utf8_held d1 @ bs)"
    using first by (simp_all add: pushed_def)
  from advanced obtain emitted where emitted: "valid_utf8 emitted" "content s1 = content s @ emitted"
    unfolding advanced_def by blast
  show ?thesis
  proof (cases r)
    case (Inl e)
    with second obtain more where "valid_utf8 more" "content s2 = content s1 @ more"
      by (auto simp: pushed_def)
    then have "valid_utf8 (emitted @ more) \<and> content s2 = content s @ emitted @ more"
      using emitted by (simp add: valid_utf8_append)
    with second Inl stream show ?thesis by (auto simp: pushed_def)
  next
    case Inr
    with second advanced_trans [OF advanced] stream show ?thesis by (simp add: pushed_def)
  qed
qed

lemma push_byte_pushed:
  assumes "utf8_decoder_wf d" and "wf s" and "length (utf8_held d) < ts_remaining_capacity sink s"
    and "utf8_push_byte sink b d s = (r, d', s')"
  shows "pushed [b] d s r d' s'"
  using push_byte_spec [OF assms]
  by (cases r) (auto simp: pushed_def simp del: valid_utf8.simps(2) intro: exI [of _ "[]"])

lemma push_each_spec:
  assumes "utf8_decoder_wf d" and "wf s"
    and "length (utf8_held d) + length bytes \<le> ts_remaining_capacity sink s"
    and "utf8_push_each sink bytes d s = (r, d', s')"
  shows "pushed bytes d s r d' s'"
  using assms
proof (induction bytes arbitrary: d s)
  case (Cons b bytes)
  obtain r1 d1 s1 where first: "utf8_push_byte sink b d s = (r1, d1, s1)" by (metis prod_cases3)
  have "length (utf8_held d) < ts_remaining_capacity sink s" using Cons.prems(3) by simp
  from push_byte_pushed [OF Cons.prems(1,2) this first] have step: "pushed [b] d s r1 d1 s1" .
  show ?case
  proof (cases r1)
    case (Inl e)
    with step Cons.prems(4) first show ?thesis using pushed_Inl [of "[b]" d s e d1 s1 bytes] by simp
  next
    case (Inr u)
    with step have step: "pushed [b] d s (Inr u) d1 s1" by simp
    then have "utf8_decoder_wf d1" "wf s1" "advanced [b] d s d1 s1" by (simp_all add: pushed_def)
    with Cons.prems(3,4) Inr first have "pushed bytes d1 s1 r d' s'"
      using advanced_room [of "[b]" d s d1 s1] by (intro Cons.IH) simp_all
    from pushed_trans [OF step this] show ?thesis by simp
  qed
qed (auto intro: pushed_refl)

lemma push_bytes_spec:
  assumes d: "utf8_decoder_wf d" and s: "wf s"
    and push: "utf8_push_bytes sink bytes d s = (r, d', s')"
  shows "if length (utf8_held d) + length bytes \<le> ts_remaining_capacity sink s then pushed bytes d s r d' s'
    else (\<exists>c. r = Inl (TokCapacityExhausted c)) \<and> d' = d \<and> s' = s"
proof -
  have "length (utf8_held d) = unat (ud_pending_length d)"
    using d by (simp add: utf8_held_def utf8_decoder_wf_def)
  then have required: "ts_remaining_capacity sink s
        < usize_saturating_add (unat (ud_pending_length d)) (length bytes)
      \<longleftrightarrow> \<not> length (utf8_held d) + length bytes \<le> ts_remaining_capacity sink s"
    using capacity_bound [OF s] by (auto simp: usize_saturating_add_def min_def)
  show ?thesis
  proof (cases "length (utf8_held d) + length bytes \<le> ts_remaining_capacity sink s")
    case True
    with push required have "utf8_push_each sink bytes d s = (r, d', s')"
      by (auto simp: utf8_push_bytes_def flush_incomplete [OF d] Let_def split: prod.splits sum.splits)
    from push_each_spec [OF d s True this] True show ?thesis by simp
  next
    case False
    with push required show ?thesis by (auto simp: utf8_push_bytes_def Let_def)
  qed
qed

lemma push_chunks_spec:
  assumes "utf8_decoder_wf d" and "wf s"
    and "length (utf8_held d) + length (concat chunks) \<le> ts_remaining_capacity sink s"
    and "utf8_push_chunks sink chunks d s = (r, d', s')"
  shows "pushed (concat chunks) d s r d' s'"
  using assms
proof (induction chunks arbitrary: d s)
  case (Cons bytes chunks)
  obtain r1 d1 s1 where first: "utf8_push_bytes sink bytes d s = (r1, d1, s1)" by (metis prod_cases3)
  from push_bytes_spec [OF Cons.prems(1,2) this] Cons.prems(3) have step: "pushed bytes d s r1 d1 s1"
    by simp
  show ?case
  proof (cases r1)
    case (Inl e)
    with step Cons.prems(4) first show ?thesis
      using pushed_Inl [of bytes d s e d1 s1 "concat chunks"] by simp
  next
    case (Inr u)
    with step have step: "pushed bytes d s (Inr u) d1 s1" by simp
    then have "utf8_decoder_wf d1" "wf s1" "advanced bytes d s d1 s1" by (simp_all add: pushed_def)
    with Cons.prems(3,4) Inr first have "pushed (concat chunks) d1 s1 r d' s'"
      using advanced_room [of bytes d s d1 s1] by (intro Cons.IH) simp_all
    from pushed_trans [OF step this] show ?thesis by simp
  qed
qed (auto intro: pushed_refl)

text \<open>After the chunks, the stream is accepted exactly when it is well-formed, and then emitted.\<close>

lemma stream_accepted:
  assumes "wf s" and "length (concat chunks) \<le> ts_remaining_capacity sink s"
    and "utf8_push_chunks sink chunks utf8_decoder_new s = (r, d', s')"
  shows "r = Inr () \<and> utf8_finish d' = Inr () \<longleftrightarrow> valid_utf8 (concat chunks)"
    "r = Inr () \<Longrightarrow> content s' @ utf8_held d' = content s @ concat chunks"
    "wf s'"
proof -
  have spec: "pushed (concat chunks) utf8_decoder_new s r d' s'"
    by (rule push_chunks_spec [OF _ assms(1) _ assms(3)]) (use assms(2) in simp_all)
  then have held: "utf8_decoder_wf d'" "incomplete (utf8_held d')"
    by (simp_all add: pushed_def utf8_decoder_wf_def)
  show "wf s'" using spec by (simp add: pushed_def)
  have decides: "case r of Inr _ \<Rightarrow> valid_utf8 (concat chunks) \<longleftrightarrow> valid_utf8 (utf8_held d')
      | Inl e \<Rightarrow> \<not> valid_utf8 (concat chunks)"
    using spec by (auto simp: pushed_def split: sum.splits) (metis append_Nil2)+
  then show "r = Inr () \<and> utf8_finish d' = Inr () \<longleftrightarrow> valid_utf8 (concat chunks)"
    using incomplete_valid [OF held(2)] utf8_finish_Inr [OF held(1)] by (cases r) auto
  show "content s' @ utf8_held d' = content s @ concat chunks" if "r = Inr ()"
    using spec that by (auto simp: pushed_def advanced_def)
qed

lemma push_any_safe:
  assumes "utf8_decoder_wf d" and "wf s"
  shows "(case utf8_push_any sink chunks d s of (d', s') \<Rightarrow> utf8_decoder_wf d' \<and> wf s'
    \<and> (\<exists>emitted. valid_utf8 emitted \<and> content s' = content s @ emitted))"
  using assms
proof (induction chunks arbitrary: d s)
  case (Cons bytes chunks)
  obtain r d1 s1 where first: "utf8_push_bytes sink bytes d s = (r, d1, s1)" by (metis prod_cases3)
  from push_bytes_spec [OF Cons.prems this] Cons.prems have "utf8_decoder_wf d1" "wf s1"
    by (auto simp: pushed_def split: if_splits)
  moreover from push_bytes_spec [OF Cons.prems first] obtain emitted
    where "valid_utf8 emitted" "content s1 = content s @ emitted"
    by (auto simp: pushed_def advanced_def split: if_splits sum.splits intro: that [of "[]"])
  moreover obtain d2 s2 where "utf8_push_any sink chunks d1 s1 = (d2, s2)" by fastforce
  ultimately show ?case using first Cons.IH [of d1 s1]
    by (auto simp: valid_utf8_append)
qed (auto intro: exI [of _ "[]"])

end

subsection \<open>The text buffer\<close>

lemma text_push_str_room:
  assumes "buffer_wf b" and "length text \<le> buffer_remaining_capacity b"
  shows "\<exists>b'. text_buffer_push_str text b = (Inr (), b') \<and> buffer_wf b'
    \<and> buffer_as_slice b' = buffer_as_slice b @ text
    \<and> buffer_remaining_capacity b = buffer_remaining_capacity b' + length text"
proof -
  from assms have "sb_length b + length text \<le> length (sb_storage b)" "length (sb_storage b) < usize_max"
    by (auto simp: buffer_wf_def buffer_remaining_capacity_def)
  then show ?thesis
    using assms by (auto simp: text_buffer_push_str_def Let_def buffer_wf_def buffer_as_slice_def
        buffer_remaining_capacity_def usize_saturating_add_exact)
qed

lemma buffer_capacity_bound: "buffer_wf b \<Longrightarrow> buffer_remaining_capacity b < usize_max"
  by (auto simp: buffer_remaining_capacity_def buffer_wf_def)

interpretation text_buffer: text_sink_laws text_buffer_sink buffer_as_slice buffer_wf
  by unfold_locales (simp_all add: text_buffer_sink_def text_push_str_room buffer_capacity_bound)

lemma text_as_str:
  "buffer_wf b \<Longrightarrow> text_buffer_as_str b
     = (if valid_utf8 (buffer_as_slice b) then Inr (buffer_as_slice b) else Inl (InvalidUtf8 0))"
  by (simp add: text_buffer_as_str_def buffer_as_slice_def buffer_wf_def)

subsection \<open>Properties\<close>

text \<open>
  \<^bold>\<open>C39\<close>. The decoder accepts exactly UTF-8. Push the chunks of a byte stream, cut anywhere, into
  a new decoder over a new text buffer with room for all of them. All pushes and the final
  \<open>finish\<close> succeed exactly when the whole stream is well-formed UTF-8, and then the buffer holds
  exactly the stream.
\<close>
theorem utf8_stream_exact:
  assumes "length (concat chunks) \<le> length storage" and "length storage < usize_max"
    and "utf8_push_chunks text_buffer_sink chunks utf8_decoder_new (buffer_new storage) = (r, d, out)"
  shows "(r = Inr () \<and> utf8_finish d = Inr () \<longleftrightarrow> valid_utf8 (concat chunks))
    \<and> (valid_utf8 (concat chunks) \<longrightarrow> text_buffer_as_str out = Inr (concat chunks))"
proof -
  have "buffer_wf (buffer_new storage)" using assms(2) by simp
  note spec = text_buffer.stream_accepted [OF this _ assms(3)]
  have room: "length (concat chunks) \<le> ts_remaining_capacity text_buffer_sink (buffer_new storage)"
    using assms(1) by (simp add: text_buffer_sink_def)
  note decides = spec(1) [OF room]
  moreover have "text_buffer_as_str out = Inr (concat chunks)" if valid: "valid_utf8 (concat chunks)"
  proof -
    from decides valid have ok: "r = Inr ()" "utf8_finish d = Inr ()" by simp_all
    then have "utf8_held d = []" by (auto simp: utf8_finish_def utf8_held_def split: if_splits)
    with spec(2) [OF room ok(1)] valid spec(3) [OF room] show ?thesis by (simp add: text_as_str)
  qed
  ultimately show ?thesis by blast
qed

theorem utf8_stream_exact_witness:
  "fst (utf8_push_chunks text_buffer_sink [[0xF0, 0x9F], [0xA6, 0x80]] utf8_decoder_new
     (buffer_new (replicate 8 0))) = Inr ()"
proof -
  obtain r d out where run: "utf8_push_chunks text_buffer_sink [[0xF0, 0x9F], [0xA6, 0x80]] utf8_decoder_new
     (buffer_new (replicate 8 0)) = (r, d, out)" by (metis prod_cases3)
  have "valid_utf8 (concat [[0xF0, 0x9F], [0xA6, 0x80]])"
    by (simp add: utf8_width_def utf8_tail_def word_le_nat_alt word_less_nat_alt)
  with utf8_stream_exact [OF _ _ run] show ?thesis
    by (simp add: run usize_max_def del: valid_utf8.simps(2) utf8_push_chunks.simps)
qed

text \<open>
  What is committed is always text. Whatever bytes are pushed into a new decoder over a new
  text buffer of any size, in whatever chunks, and whether or not the client goes on after an
  error, the committed bytes are well-formed UTF-8 and fit the buffer, and the decoder holds back
  at most three bytes.
\<close>
theorem utf8_text_always_valid:
  assumes "length storage < usize_max"
    and "utf8_push_any text_buffer_sink chunks utf8_decoder_new (buffer_new storage) = (d, out)"
  shows "(\<exists>committed. text_buffer_as_str out = Inr committed \<and> valid_utf8 committed)
    \<and> sb_length out \<le> length (sb_storage out) \<and> length (utf8_held d) \<le> 3"
proof -
  have "buffer_wf (buffer_new storage)" using assms(1) by simp
  from text_buffer.push_any_safe [OF utf8_new_wf(1) this, of chunks] assms(2)
  have wf: "utf8_decoder_wf d" "buffer_wf out" and valid: "valid_utf8 (buffer_as_slice out)" by auto
  have "length (utf8_held d) \<le> 3"
    using wf(1) utf8_width_le [of "hd (utf8_held d)"]
    by (cases "utf8_held d") (auto simp: utf8_decoder_wf_def incomplete_def)
  with wf(2) valid text_as_str [OF wf(2)] show ?thesis by (simp add: buffer_wf_def)
qed

theorem utf8_text_always_valid_witness:
  "\<exists>d out. utf8_push_any text_buffer_sink [[0xE2, 0x28], [0x41]] utf8_decoder_new (buffer_new [0, 0, 0]) = (d, out)
     \<and> (\<exists>committed. text_buffer_as_str out = Inr committed)"
proof -
  obtain d out where run: "utf8_push_any text_buffer_sink [[0xE2, 0x28], [0x41]] utf8_decoder_new
     (buffer_new [0, 0, 0]) = (d, out)" by fastforce
  with utf8_text_always_valid [OF _ run] show ?thesis by (auto simp: usize_max_def)
qed

text \<open>
  Text survives the round trip. Encode any Unicode scalar values as UTF-8, cut the bytes
  into any chunks, and push these through the decoder into a large enough text buffer: no step
  fails, and the characters of the committed text are the scalar values.
\<close>
theorem utf8_round_trip:
  assumes "list_all scalar_value scalars" and "concat chunks = utf8_encode scalars"
    and "length (utf8_encode scalars) \<le> length storage" and "length storage < usize_max"
    and "utf8_push_chunks text_buffer_sink chunks utf8_decoder_new (buffer_new storage) = (r, d, out)"
  shows "r = Inr () \<and> utf8_finish d = Inr ()
    \<and> map_sum id utf8_scalars (text_buffer_as_str out) = Inr scalars"
proof -
  have valid: "valid_utf8 (concat chunks)" using utf8_encode_valid [OF assms(1)] assms(2) by simp
  have "buffer_wf (buffer_new storage)" using assms(4) by simp
  note spec = text_buffer.stream_accepted [OF this _ assms(5)]
  have room: "length (concat chunks) \<le> ts_remaining_capacity text_buffer_sink (buffer_new storage)"
    using assms(2,3) by (simp add: text_buffer_sink_def)
  from spec(1) [OF room] valid have ok: "r = Inr ()" "utf8_finish d = Inr ()" by simp_all
  then have "utf8_held d = []" by (auto simp: utf8_finish_def utf8_held_def split: if_splits)
  with spec(2) [OF room ok(1)] spec(3) [OF room] valid have "text_buffer_as_str out = Inr (concat chunks)"
    by (simp add: text_as_str)
  with ok show ?thesis by (simp add: assms(2) utf8_scalars_encode [OF assms(1)])
qed

theorem utf8_round_trip_witness:
  "\<exists>r d out. utf8_push_chunks text_buffer_sink [[0x52, 0xF0], [0x9F, 0xA6, 0x80]] utf8_decoder_new
     (buffer_new (replicate 8 0)) = (r, d, out)
     \<and> map_sum id utf8_scalars (text_buffer_as_str out) = Inr [0x52, 0x1F980]"
proof -
  obtain r d out where run: "utf8_push_chunks text_buffer_sink [[0x52, 0xF0], [0x9F, 0xA6, 0x80]] utf8_decoder_new
     (buffer_new (replicate 8 0)) = (r, d, out)" by (metis prod_cases3)
  have "concat [[0x52, 0xF0], [0x9F, 0xA6, 0x80]] = utf8_encode [0x52, 0x1F980]"
    by (simp add: utf8_encode_def utf8_encode_char_def)
  with utf8_round_trip [OF _ this _ _ run] run show ?thesis
    by (simp add: scalar_value_def utf8_encode_def utf8_encode_char_def usize_max_def)
qed

end
