(* ===== verification/Float32.thy ===== *)
theory Float32
  imports Model_Data Comparators
begin

section \<open>Single-precision arithmetic\<close>

text \<open>
  The \<open>f32\<close> operations of the Rust standard library that the sampler uses, on bit patterns, as
  IEEE 754 defines them with rounding to nearest, ties to even. A finite \<open>f32\<close> is an integral
  multiple of \<open>2 ^ -149\<close>; \<open>f32_units\<close> is that integer, so that the exact result of an operation
  is a quotient of integers, which \<open>f32_round\<close> rounds. The payload of a \<open>NaN\<close> that an operation
  produces is not specified by Rust; here it is always \<open>f32_nan\<close>, and no code reads it.
\<close>

subsection \<open>Representation\<close>

definition f32_magnitude :: "f32 \<Rightarrow> nat" where
  "f32_magnitude x = unat x mod 2 ^ 31"

definition f32_negative :: "f32 \<Rightarrow> bool" where
  "f32_negative x \<longleftrightarrow> 2 ^ 31 \<le> unat x"

definition f32_pack :: "bool \<Rightarrow> nat \<Rightarrow> f32" where
  "f32_pack negative magnitude = of_nat ((if negative then 2 ^ 31 else 0) + magnitude)"

definition f32_inf_magnitude :: nat where
  "f32_inf_magnitude = 0x7F800000"

abbreviation "f32_zero \<equiv> (0 :: f32)"
abbreviation "f32_one \<equiv> (0x3F800000 :: f32)"
abbreviation "f32_infinity \<equiv> (0x7F800000 :: f32)"
abbreviation "f32_neg_infinity \<equiv> (0xFF800000 :: f32)"
abbreviation "f32_nan \<equiv> (0x7FC00000 :: f32)"

definition f32_is_nan :: "f32 \<Rightarrow> bool" where
  "f32_is_nan x \<longleftrightarrow> f32_inf_magnitude < f32_magnitude x"

definition f32_is_finite :: "f32 \<Rightarrow> bool" where
  "f32_is_finite x \<longleftrightarrow> f32_magnitude x < f32_inf_magnitude"

definition f32_is_infinite :: "f32 \<Rightarrow> bool" where
  "f32_is_infinite x \<longleftrightarrow> f32_magnitude x = f32_inf_magnitude"

text \<open>The magnitude of a finite value in units of \<open>2 ^ -149\<close>, and the value with its sign.\<close>

definition f32_magnitude_units :: "nat \<Rightarrow> nat" where
  "f32_magnitude_units m =
    (let exponent = m div 2 ^ 23; fraction = m mod 2 ^ 23 in
     if exponent = 0 then fraction else (2 ^ 23 + fraction) * 2 ^ (exponent - 1))"

definition f32_units :: "f32 \<Rightarrow> int" where
  "f32_units x = (if f32_negative x then - int (f32_magnitude_units (f32_magnitude x))
     else int (f32_magnitude_units (f32_magnitude x)))"

subsection \<open>Rounding\<close>

text \<open>The number of binary places that \<open>num / den\<close> has beyond 24.\<close>

function round_shift :: "nat \<Rightarrow> nat \<Rightarrow> nat \<Rightarrow> nat" where
  "round_shift num den s =
     (if den = 0 \<or> num < den * 2 ^ 24 then s else round_shift num (2 * den) (Suc s))"
  by pat_completeness auto
termination
  by (relation "measure (\<lambda>(num, den, s). num - den)") auto

declare round_shift.simps [simp del]

definition round_half_even :: "nat \<Rightarrow> nat \<Rightarrow> nat" where
  "round_half_even num den =
    (let q = num div den; r = num mod den in
     if 2 * r < den \<or> 2 * r = den \<and> even q then q else q + 1)"

definition f32_round_magnitude :: "nat \<Rightarrow> nat \<Rightarrow> nat" where
  "f32_round_magnitude num den =
    (let s = round_shift num den 0 in
     min (s * 2 ^ 23 + round_half_even num (den * 2 ^ s)) f32_inf_magnitude)"

definition f32_round :: "bool \<Rightarrow> nat \<Rightarrow> nat \<Rightarrow> f32" where
  "f32_round negative num den = f32_pack negative (f32_round_magnitude num den)"

subsection \<open>Operations\<close>

definition f32_neg :: "f32 \<Rightarrow> f32" where
  "f32_neg x = f32_pack (\<not> f32_negative x) (f32_magnitude x)"

definition f32_add :: "f32 \<Rightarrow> f32 \<Rightarrow> f32" where
  "f32_add x y =
    (if f32_is_nan x \<or> f32_is_nan y then f32_nan
     else if f32_is_infinite x
     then (if f32_is_infinite y \<and> f32_negative x \<noteq> f32_negative y then f32_nan else x)
     else if f32_is_infinite y then y
     else let whole = f32_units x + f32_units y in
       if whole = 0 then f32_pack (f32_negative x \<and> f32_negative y) 0
       else f32_round (whole < 0) (nat \<bar>whole\<bar>) 1)"

definition f32_sub :: "f32 \<Rightarrow> f32 \<Rightarrow> f32" where
  "f32_sub x y = f32_add x (f32_neg y)"

definition f32_mul :: "f32 \<Rightarrow> f32 \<Rightarrow> f32" where
  "f32_mul x y =
    (let negative = (f32_negative x \<noteq> f32_negative y);
         a = nat \<bar>f32_units x\<bar>; b = nat \<bar>f32_units y\<bar> in
     if f32_is_nan x \<or> f32_is_nan y then f32_nan
     else if f32_is_infinite x
     then (if f32_is_finite y \<and> b = 0 then f32_nan else f32_pack negative f32_inf_magnitude)
     else if f32_is_infinite y
     then (if a = 0 then f32_nan else f32_pack negative f32_inf_magnitude)
     else f32_round negative (a * b) (2 ^ 149))"

definition f32_div :: "f32 \<Rightarrow> f32 \<Rightarrow> f32" where
  "f32_div x y =
    (let negative = (f32_negative x \<noteq> f32_negative y);
         a = nat \<bar>f32_units x\<bar>; b = nat \<bar>f32_units y\<bar> in
     if f32_is_nan x \<or> f32_is_nan y then f32_nan
     else if f32_is_infinite x
     then (if f32_is_infinite y then f32_nan else f32_pack negative f32_inf_magnitude)
     else if f32_is_infinite y then f32_pack negative 0
     else if b = 0 then (if a = 0 then f32_nan else f32_pack negative f32_inf_magnitude)
     else f32_round negative (a * 2 ^ 149) b)"

text \<open>\<open>n as f32\<close> of an unsigned integer.\<close>

definition f32_of_nat :: "nat \<Rightarrow> f32" where
  "f32_of_nat n = f32_round False (n * 2 ^ 149) 1"

subsection \<open>Comparisons\<close>

text \<open>\<open>f32_key\<close> orders all values that are not \<open>NaN\<close>; \<open>f32_total_key\<close> is the order of \<open>total_cmp\<close>.\<close>

definition f32_key :: "f32 \<Rightarrow> int" where
  "f32_key x = (if f32_negative x then - int (f32_magnitude x) else int (f32_magnitude x))"

definition f32_less :: "f32 \<Rightarrow> f32 \<Rightarrow> bool" where
  "f32_less x y \<longleftrightarrow> \<not> f32_is_nan x \<and> \<not> f32_is_nan y \<and> f32_key x < f32_key y"

definition f32_less_eq :: "f32 \<Rightarrow> f32 \<Rightarrow> bool" where
  "f32_less_eq x y \<longleftrightarrow> \<not> f32_is_nan x \<and> \<not> f32_is_nan y \<and> f32_key x \<le> f32_key y"

definition f32_equal :: "f32 \<Rightarrow> f32 \<Rightarrow> bool" where
  "f32_equal x y \<longleftrightarrow> \<not> f32_is_nan x \<and> \<not> f32_is_nan y \<and> f32_key x = f32_key y"

definition f32_total_key :: "f32 \<Rightarrow> int" where
  "f32_total_key x = (if f32_negative x then - int (f32_magnitude x) - 1 else int (f32_magnitude x))"

definition f32_total_cmp :: "f32 \<Rightarrow> f32 \<Rightarrow> ordering" where
  "f32_total_cmp x y = compare_to (f32_total_key x) (f32_total_key y)"

end
