(* ===== verification/Sampling.thy ===== *)
theory Sampling
  imports Float32
begin

section \<open>Sampling\<close>

text \<open>
  \<open>crates/features/sampling/src\<close>: the configuration and its validation, the random generator,
  the sampler with its repetition epochs, and the stop matcher. \<open>libm::expf\<close> is a function of
  another package and an argument here. \<open>select_nth_unstable_by\<close> moves the first \<open>k\<close> elements of
  the sorted order to the front and leaves the order of the rest open; the model sorts, which is
  one of its behaviours, and no code reads the rest. A slice that the caller owns is passed in and
  returned.
\<close>

unbundle bit_operations_syntax

subsection \<open>Random numbers\<close>

record split_mix = mix_state :: u64

definition split_mix_new :: "u64 \<Rightarrow> split_mix" where
  "split_mix_new seed = \<lparr>mix_state = seed\<rparr>"

definition next_u64 :: "split_mix \<Rightarrow> u64 \<times> split_mix" where
  "next_u64 g =
    (let state = mix_state g + 0x9E3779B97F4A7C15;
         value = (state XOR drop_bit 30 state) * 0xBF58476D1CE4E5B9;
         value = (value XOR drop_bit 27 value) * 0x94D049BB133111EB
     in (value XOR drop_bit 31 value, \<lparr>mix_state = state\<rparr>))"

definition next_unit_f32 :: "split_mix \<Rightarrow> f32 \<times> split_mix" where
  "next_unit_f32 g =
    (case next_u64 g of (bits, g) \<Rightarrow>
       (f32_mul (f32_of_nat (unat (ucast (drop_bit 40 bits) :: u32)))
          (f32_div f32_one (f32_of_nat 16777216)), g))"

subsection \<open>Configuration\<close>

record sampling_config =
  cfg_temperature :: f32
  cfg_top_k :: u32
  cfg_top_p :: f32
  cfg_min_p :: f32
  cfg_repetition_penalty :: f32
  cfg_repetition_window :: u32

definition sampling_greedy :: sampling_config where
  "sampling_greedy = \<lparr>cfg_temperature = f32_one, cfg_top_k = 1, cfg_top_p = f32_one,
     cfg_min_p = f32_zero, cfg_repetition_penalty = f32_one, cfg_repetition_window = 0\<rparr>"

text \<open>The constants \<open>0.8\<close> and \<open>0.95\<close> are their bit patterns.\<close>

definition sampling_default :: sampling_config where
  "sampling_default = \<lparr>cfg_temperature = 0x3F4CCCCD, cfg_top_k = 40, cfg_top_p = 0x3F733333,
     cfg_min_p = f32_zero, cfg_repetition_penalty = f32_one, cfg_repetition_window = 64\<rparr>"

datatype sampling_configuration_field = FieldTemperature | FieldTopP | FieldMinP | FieldRepetitionPenalty

datatype sampling_error =
    InvalidConfiguration sampling_configuration_field
  | EmptyLogits
  | NoCandidate
  | HistoryTokenOutOfRange token_id usize
  | VocabularyTooLarge usize
  | SampleCapacityExhausted capacity_exhausted

definition sampling_validate :: "sampling_config \<Rightarrow> sampling_error + sampling_config" where
  "sampling_validate c =
    (if \<not> f32_is_finite (cfg_temperature c) \<or> f32_less_eq (cfg_temperature c) f32_zero
     then Inl (InvalidConfiguration FieldTemperature)
     else if \<not> f32_is_finite (cfg_top_p c) \<or> f32_less_eq (cfg_top_p c) f32_zero
        \<or> f32_less f32_one (cfg_top_p c)
     then Inl (InvalidConfiguration FieldTopP)
     else if \<not> f32_is_finite (cfg_min_p c) \<or> f32_less (cfg_min_p c) f32_zero
        \<or> f32_less f32_one (cfg_min_p c)
     then Inl (InvalidConfiguration FieldMinP)
     else if \<not> f32_is_finite (cfg_repetition_penalty c)
        \<or> f32_less_eq (cfg_repetition_penalty c) f32_zero
     then Inl (InvalidConfiguration FieldRepetitionPenalty)
     else Inr c)"

subsection \<open>The sampler\<close>

record sampling_workspace =
  ws_indices :: "u32 list"
  ws_seen_tokens :: "u32 list"

record sample =
  sample_token :: token_id
  sample_probability :: f32

record sampler =
  smp_configuration :: sampling_config
  smp_random :: split_mix
  smp_repetition_epoch :: u32

definition sampler_new :: "sampling_config \<Rightarrow> u64 \<Rightarrow> sampling_error + sampler" where
  "sampler_new configuration seed =
    bind_ok (sampling_validate configuration) (\<lambda>configuration.
    Inr \<lparr>smp_configuration = configuration, smp_random = split_mix_new seed, smp_repetition_epoch = 0\<rparr>)"

definition is_exactly_one :: "f32 \<Rightarrow> bool" where
  "is_exactly_one x \<longleftrightarrow> x = f32_one"

definition index_capacity :: "usize \<Rightarrow> usize \<Rightarrow> sampling_error" where
  "index_capacity required available = SampleCapacityExhausted
     (capacity_exhausted_new SamplingIndices (usize_to_u64 required) (usize_to_u64 available))"

definition mask_capacity :: "usize \<Rightarrow> usize \<Rightarrow> sampling_error" where
  "mask_capacity required available = SampleCapacityExhausted
     (capacity_exhausted_new SamplingMask (usize_to_u64 required) (usize_to_u64 available))"

definition sampling_validate_workspace :: "usize \<Rightarrow> sampling_workspace \<Rightarrow> sampling_error + unit" where
  "sampling_validate_workspace required w =
    (if length (ws_indices w) < required then Inl (index_capacity required (length (ws_indices w)))
     else if length (ws_seen_tokens w) < required
     then Inl (mask_capacity required (length (ws_seen_tokens w)))
     else Inr ())"

definition token_at :: "u32 list \<Rightarrow> usize \<Rightarrow> sampling_error + token_id" where
  "token_at candidates i = ok_or (map_option TokenId (slice_get candidates i)) NoCandidate"

definition compare_logits :: "f32 list \<Rightarrow> u32 \<Rightarrow> u32 \<Rightarrow> ordering" where
  "compare_logits logits left right =
    (case (slice_get logits (unat left), slice_get logits (unat right)) of
       (Some left_value, Some right_value) \<Rightarrow>
         then_with (f32_total_cmp right_value left_value) (compare_to left right)
     | (Some _, None) \<Rightarrow> OLess
     | (None, Some _) \<Rightarrow> OGreater
     | (None, None) \<Rightarrow> compare_to left right)"

text \<open>The repetition penalty: each token of the window once, marked by the current epoch.\<close>

definition penalize :: "f32 \<Rightarrow> f32 \<Rightarrow> f32" where
  "penalize penalty logit =
    (if f32_less_eq f32_zero logit then f32_div logit penalty else f32_mul logit penalty)"

fun penalty_loop ::
    "f32 \<Rightarrow> u32 \<Rightarrow> token_id list \<Rightarrow> f32 list \<Rightarrow> u32 list \<Rightarrow> (sampling_error + unit) \<times> f32 list \<times> u32 list" where
  "penalty_loop penalty epoch [] logits seen = (Inr (), logits, seen)"
| "penalty_loop penalty epoch (token # tokens) logits seen =
    (let index = unat (token_id_get token) in
     if length logits \<le> index then (Inl (HistoryTokenOutOfRange token (length logits)), logits, seen)
     else if length seen \<le> index
     then (Inl (mask_capacity (length logits) (length seen)), logits, seen)
     else if seen ! index = epoch then penalty_loop penalty epoch tokens logits seen
     else penalty_loop penalty epoch tokens
       (logits[index := penalize penalty (logits ! index)]) (seen[index := epoch]))"

definition recent_history :: "u32 \<Rightarrow> token_id list \<Rightarrow> token_id list" where
  "recent_history window history =
    drop (if window = 0 then 0 else length history - unat window) history"

definition apply_repetition_penalty ::
    "f32 list \<Rightarrow> token_id list \<Rightarrow> u32 list \<Rightarrow> u32 \<Rightarrow> f32 \<Rightarrow> u32
       \<Rightarrow> (sampling_error + unit) \<times> f32 list \<times> u32 list" where
  "apply_repetition_penalty logits history seen_tokens epoch penalty repetition_window =
    (if is_exactly_one penalty then (Inr (), logits, seen_tokens)
     else penalty_loop penalty epoch (recent_history repetition_window history) logits seen_tokens)"

text \<open>The passes of \<open>sample_finite\<close> over the candidates.\<close>

fun weight_loop ::
    "(f32 \<Rightarrow> f32) \<Rightarrow> f32 \<Rightarrow> f32 \<Rightarrow> u32 list \<Rightarrow> f32 list \<Rightarrow> (sampling_error + unit) \<times> f32 list" where
  "weight_loop expf temperature maximum [] logits = (Inr (), logits)"
| "weight_loop expf temperature maximum (c # cs) logits =
    (if length logits \<le> unat c then (Inl NoCandidate, logits)
     else weight_loop expf temperature maximum cs
       (logits[unat c := expf (f32_div (f32_sub (logits ! unat c) maximum) temperature)]))"

fun eligible_loop ::
    "f32 \<Rightarrow> f32 list \<Rightarrow> u32 list \<Rightarrow> usize \<Rightarrow> f32 \<Rightarrow> sampling_error + usize \<times> f32" where
  "eligible_loop min_p logits [] kept weight = Inr (kept, weight)"
| "eligible_loop min_p logits (c # cs) kept weight =
    (case slice_get logits (unat c) of
       None \<Rightarrow> Inl NoCandidate
     | Some w \<Rightarrow>
         if \<not> f32_is_finite w \<or> f32_less_eq w f32_zero \<or> f32_less w min_p then Inr (kept, weight)
         else eligible_loop min_p logits cs (kept + 1) (f32_add weight w))"

fun allowed_loop ::
    "f32 \<Rightarrow> f32 \<Rightarrow> f32 list \<Rightarrow> u32 list \<Rightarrow> usize \<Rightarrow> f32 \<Rightarrow> sampling_error + usize \<times> f32" where
  "allowed_loop top_p eligible_weight logits [] kept weight = Inr (kept, weight)"
| "allowed_loop top_p eligible_weight logits (c # cs) kept weight =
    (case slice_get logits (unat c) of
       None \<Rightarrow> Inl NoCandidate
     | Some w \<Rightarrow>
         let weight = f32_add weight w in
         if f32_less_eq top_p (f32_div weight eligible_weight) then Inr (kept + 1, weight)
         else allowed_loop top_p eligible_weight logits cs (kept + 1) weight)"

fun pick_loop ::
    "f32 \<Rightarrow> f32 list \<Rightarrow> u32 list \<Rightarrow> f32 \<Rightarrow> token_id \<Rightarrow> sampling_error + token_id" where
  "pick_loop target logits [] cumulative selected = Inr selected"
| "pick_loop target logits (c # cs) cumulative selected =
    (case slice_get logits (unat c) of
       None \<Rightarrow> Inl NoCandidate
     | Some w \<Rightarrow>
         let cumulative = f32_add cumulative w in
         if f32_less target cumulative then Inr (TokenId c)
         else pick_loop target logits cs cumulative selected)"

definition positive_weight :: "f32 \<Rightarrow> bool" where
  "positive_weight w \<longleftrightarrow> f32_is_finite w \<and> \<not> f32_less_eq w f32_zero"

definition sample_finite ::
    "(f32 \<Rightarrow> f32) \<Rightarrow> sampler \<Rightarrow> u32 list \<Rightarrow> f32 list \<Rightarrow> f32
       \<Rightarrow> (sampling_error + sample) \<times> sampler \<times> f32 list" where
  "sample_finite expf smp candidates logits maximum_logit =
    (let c = smp_configuration smp in
    (case weight_loop expf (cfg_temperature c) maximum_logit candidates logits of
       (Inl e, logits) \<Rightarrow> (Inl e, smp, logits)
     | (Inr _, logits) \<Rightarrow>
    (case eligible_loop (cfg_min_p c) logits candidates 0 f32_zero of
       Inl e \<Rightarrow> (Inl e, smp, logits)
     | Inr (eligible_count, eligible_weight) \<Rightarrow>
    if eligible_count = 0 \<or> \<not> positive_weight eligible_weight then (Inl NoCandidate, smp, logits)
    else if length candidates < eligible_count
    then (Inl (index_capacity eligible_count (length candidates)), smp, logits)
    else let eligible = take eligible_count candidates in
    (case allowed_loop (cfg_top_p c) eligible_weight logits eligible 0 f32_zero of
       Inl e \<Rightarrow> (Inl e, smp, logits)
     | Inr (allowed_count, allowed_weight) \<Rightarrow>
    if allowed_count = 0 \<or> \<not> positive_weight allowed_weight then (Inl NoCandidate, smp, logits)
    else
    (case next_unit_f32 (smp_random smp) of (u, g) \<Rightarrow>
    let smp = smp\<lparr>smp_random := g\<rparr>; target = f32_mul u allowed_weight in
    if length eligible < allowed_count
    then (Inl (index_capacity allowed_count (length eligible)), smp, logits)
    else let allowed = take allowed_count eligible in
    (bind_ok (token_at allowed (allowed_count - 1)) (\<lambda>selected.
     bind_ok (pick_loop target logits allowed f32_zero selected) (\<lambda>selected.
     bind_ok (ok_or (slice_get logits (unat (token_id_get selected))) NoCandidate) (\<lambda>weight.
     Inr \<lparr>sample_token = selected, sample_probability = f32_div weight allowed_weight\<rparr>))),
     smp, logits))))))"

fun infinity_loop :: "f32 list \<Rightarrow> u32 list \<Rightarrow> usize \<Rightarrow> sampling_error + usize" where
  "infinity_loop logits [] kept = Inr kept"
| "infinity_loop logits (c # cs) kept =
    (case slice_get logits (unat c) of
       None \<Rightarrow> Inl NoCandidate
     | Some v \<Rightarrow> if f32_equal v f32_infinity then infinity_loop logits cs (kept + 1) else Inr kept)"

function uniform_loop :: "usize \<Rightarrow> f32 \<Rightarrow> usize \<Rightarrow> usize" where
  "uniform_loop candidate_count top_p allowed_count =
    (if allowed_count < candidate_count
        \<and> f32_less (f32_div (f32_of_nat allowed_count) (f32_of_nat candidate_count)) top_p
     then uniform_loop candidate_count top_p (allowed_count + 1)
     else allowed_count)"
  by pat_completeness auto
termination
  by (relation "measure (\<lambda>(n, p, k). n - k)") auto

declare uniform_loop.simps [simp del]

definition uniform_top_p_count :: "usize \<Rightarrow> f32 \<Rightarrow> usize" where
  "uniform_top_p_count candidate_count top_p =
    (if candidate_count \<le> 1 then candidate_count else uniform_loop candidate_count top_p 1)"

definition sample_positive_infinities ::
    "sampler \<Rightarrow> u32 list \<Rightarrow> f32 list \<Rightarrow> (sampling_error + sample) \<times> sampler" where
  "sample_positive_infinities smp candidates logits =
    (case infinity_loop logits candidates 0 of
       Inl e \<Rightarrow> (Inl e, smp)
     | Inr kept \<Rightarrow>
    if kept = 0 then (Inl NoCandidate, smp)
    else let allowed_count = uniform_top_p_count kept (cfg_top_p (smp_configuration smp)) in
    (case next_u64 (smp_random smp) of (bits, g) \<Rightarrow>
    let smp = smp\<lparr>smp_random := g\<rparr>; offset = unat (bits mod usize_to_u64 allowed_count) in
    (bind_ok (token_at candidates offset) (\<lambda>token.
     Inr \<lparr>sample_token = token,
       sample_probability = f32_div f32_one (f32_of_nat allowed_count)\<rparr>), smp)))"

text \<open>
  \<open>sample\<close> has three parts: the checks of the workspace, the logits after the penalty and the
  replacement of \<open>NaN\<close>, and the candidates with the choice. The workspace slices are cut to the
  vocabulary; \<open>splice\<close> puts the cut part back.
\<close>

definition splice :: "'a list \<Rightarrow> 'a list \<Rightarrow> 'a list" where
  "splice part whole = part @ drop (length part) whole"

definition advance_epoch :: "sampler \<Rightarrow> u32 list \<Rightarrow> sampler \<times> u32 list" where
  "advance_epoch smp seen =
    (let epoch = smp_repetition_epoch smp + 1 in
     if epoch = 0 then (smp\<lparr>smp_repetition_epoch := 1\<rparr>, replicate (length seen) 0)
     else (smp\<lparr>smp_repetition_epoch := epoch\<rparr>, seen))"

definition penalize_logits ::
    "sampler \<Rightarrow> f32 list \<Rightarrow> token_id list \<Rightarrow> u32 list
       \<Rightarrow> (sampling_error + unit) \<times> sampler \<times> f32 list \<times> u32 list" where
  "penalize_logits smp logits history seen =
    (if is_exactly_one (cfg_repetition_penalty (smp_configuration smp)) then (Inr (), smp, logits, seen)
     else (case advance_epoch smp seen of (smp, seen) \<Rightarrow>
       (case apply_repetition_penalty logits history seen (smp_repetition_epoch smp)
               (cfg_repetition_penalty (smp_configuration smp))
               (cfg_repetition_window (smp_configuration smp)) of
          (r, logits, seen) \<Rightarrow> (r, smp, logits, seen))))"

definition sampling_candidates :: "u32 \<Rightarrow> f32 list \<Rightarrow> u32 list" where
  "sampling_candidates top_k logits =
    take (if top_k = 0 then length logits else min (length logits) (unat top_k))
      (sort_by (compare_logits logits) (map of_nat [0..<length logits]))"

definition choose_candidate ::
    "(f32 \<Rightarrow> f32) \<Rightarrow> sampler \<Rightarrow> u32 list \<Rightarrow> f32 list \<Rightarrow> (sampling_error + sample) \<times> sampler \<times> f32 list" where
  "choose_candidate expf smp candidates logits =
    (case bind_ok (token_at candidates 0) (\<lambda>first.
            ok_or (slice_get logits (unat (token_id_get first))) NoCandidate) of
       Inl e \<Rightarrow> (Inl e, smp, logits)
     | Inr maximum_logit \<Rightarrow>
         if f32_equal maximum_logit f32_infinity
         then (case sample_positive_infinities smp candidates logits of (r, smp) \<Rightarrow> (r, smp, logits))
         else if \<not> f32_is_finite maximum_logit then (Inl NoCandidate, smp, logits)
         else sample_finite expf smp candidates logits maximum_logit)"

definition sampler_sample ::
    "(f32 \<Rightarrow> f32) \<Rightarrow> sampler \<Rightarrow> f32 list \<Rightarrow> token_id list \<Rightarrow> sampling_workspace
       \<Rightarrow> (sampling_error + sample) \<times> sampler \<times> f32 list \<times> sampling_workspace" where
  "sampler_sample expf smp logits history workspace =
    (if logits = [] then (Inl EmptyLogits, smp, logits, workspace)
     else if 2 ^ 32 - 1 < length logits then (Inl (VocabularyTooLarge (length logits)), smp, logits, workspace)
     else (case sampling_validate_workspace (length logits) workspace of
       Inl e \<Rightarrow> (Inl e, smp, logits, workspace)
     | Inr _ \<Rightarrow>
    (case penalize_logits smp logits history (take (length logits) (ws_seen_tokens workspace)) of
       (penalized, smp, logits, seen) \<Rightarrow>
    let workspace = workspace\<lparr>ws_seen_tokens := splice seen (ws_seen_tokens workspace)\<rparr> in
    (case penalized of
       Inl e \<Rightarrow> (Inl e, smp, logits, workspace)
     | Inr _ \<Rightarrow>
    let logits = map (\<lambda>l. if f32_is_nan l then f32_neg_infinity else l) logits;
        candidates = sampling_candidates (cfg_top_k (smp_configuration smp)) logits;
        sorted = sort_by (compare_logits logits) (map of_nat [0..<length logits]);
        workspace = workspace\<lparr>ws_indices := splice sorted (ws_indices workspace)\<rparr>
    in
    (case choose_candidate expf smp candidates logits of
       (r, smp, logits) \<Rightarrow> (r, smp, logits, workspace))))))"

subsection \<open>Stop sequences\<close>

record stop_sequence =
  stop_code :: u32
  stop_tokens :: "token_id list"

record stop_match =
  sm_code :: u32
  sm_matched_tokens :: usize

fun match_stop_suffix :: "token_id list \<Rightarrow> stop_sequence list \<Rightarrow> stop_match option" where
  "match_stop_suffix generated [] = None"
| "match_stop_suffix generated (s # ss) =
    (if stop_tokens s = [] \<or> length generated < length (stop_tokens s) then match_stop_suffix generated ss
     else if drop (length generated - length (stop_tokens s)) generated = stop_tokens s
     then Some \<lparr>sm_code = stop_code s, sm_matched_tokens = length (stop_tokens s)\<rparr>
     else match_stop_suffix generated ss)"

end
