(* ===== verification/Sampling_Properties.thy ===== *)
theory Sampling_Properties
  imports Sampling
begin

section \<open>Properties of the sampler\<close>

text \<open>
  Which token a greedy sampler picks, that a sample always names a token of the vocabulary among
  the best candidates, and that the repetition penalty falls on each recent token exactly once,
  also when the epoch counter wraps around.
\<close>

subsection \<open>Arithmetic\<close>

lemma round_shift_eq:
  "0 < den \<Longrightarrow> num < den * 2 ^ (24 + k) \<Longrightarrow> k = 0 \<or> den * 2 ^ (23 + k) \<le> num
     \<Longrightarrow> round_shift num den s = s + k"
proof (induction k arbitrary: den s)
  case 0
  then show ?case by (subst round_shift.simps) simp
next
  case (Suc k)
  have "(2 :: nat) ^ 24 \<le> 2 ^ (23 + Suc k)" by (rule power_increasing) simp_all
  then have "den * 2 ^ 24 \<le> den * 2 ^ (23 + Suc k)" by simp
  with Suc.prems have "\<not> num < den * 2 ^ 24" by linarith
  with Suc.prems(1) have "round_shift num den s = round_shift num (2 * den) (Suc s)"
    by (subst round_shift.simps) simp
  also have "\<dots> = Suc s + k"
  proof (rule Suc.IH)
    have double: "2 * den * 2 ^ (n + k) = den * 2 ^ (n + Suc k)" for n :: nat by simp
    show "num < 2 * den * 2 ^ (24 + k)" unfolding double by (rule Suc.prems(2))
    show "k = 0 \<or> 2 * den * 2 ^ (23 + k) \<le> num" unfolding double using Suc.prems(3) by simp
  qed (use Suc.prems(1) in simp)
  finally show ?case by simp
qed

lemmas f32_classify = f32_is_nan_def f32_is_finite_def f32_is_infinite_def f32_inf_magnitude_def

lemma f32_one_facts [simp]:
  "f32_magnitude f32_one = 0x3F800000" "\<not> f32_negative f32_one" "f32_units f32_one = 2 ^ 149"
  "f32_is_finite f32_one" "\<not> f32_is_nan f32_one" "\<not> f32_is_infinite f32_one"
  by (simp_all add: f32_magnitude_def f32_negative_def f32_units_def f32_magnitude_units_def f32_classify Let_def)

lemma f32_zero_facts [simp]:
  "f32_magnitude f32_zero = 0" "\<not> f32_negative f32_zero" "f32_units f32_zero = 0"
  "f32_is_finite f32_zero" "\<not> f32_is_nan f32_zero" "\<not> f32_is_infinite f32_zero"
  by (simp_all add: f32_magnitude_def f32_negative_def f32_units_def f32_magnitude_units_def f32_classify Let_def)

lemma f32_round_one: "0 < den \<Longrightarrow> f32_round False (den * 2 ^ 149) den = f32_one"
proof -
  assume den: "0 < den"
  then have "round_shift (den * 2 ^ 149) den 0 = 126" by (subst round_shift_eq [where k = 126]) simp_all
  moreover have "round_half_even (den * 2 ^ 149) (den * 2 ^ 126) = 2 ^ 23"
  proof -
    have "den * 2 ^ 149 = 2 ^ 23 * (den * 2 ^ 126)" by simp
    then show ?thesis using den by (simp add: round_half_even_def)
  qed
  ultimately show ?thesis
    by (simp add: f32_round_def f32_round_magnitude_def f32_inf_magnitude_def f32_pack_def)
qed

lemma f32_zero_plus_one: "f32_add f32_zero f32_one = f32_one"
  using f32_round_one [of 1] by (simp add: f32_add_def Let_def)

lemma f32_one_over_one: "f32_div f32_one f32_one = f32_one"
  using f32_round_one [of "2 ^ 149"] by (simp add: f32_div_def Let_def)

lemma f32_round_zero: "0 < den \<Longrightarrow> f32_round False 0 den = f32_zero"
  by (simp add: f32_round_def f32_round_magnitude_def round_shift.simps round_half_even_def f32_pack_def)

lemma f32_zero_over_one: "f32_div f32_zero f32_one = f32_zero"
  by (simp add: f32_div_def Let_def f32_round_zero)

lemma f32_unat: "unat x = (if f32_negative x then 2 ^ 31 else 0) + f32_magnitude x"
proof -
  have "unat x < 2 ^ LENGTH(32)" by (rule unsigned_less)
  then show ?thesis by (auto simp: f32_negative_def f32_magnitude_def mod_if)
qed

lemma f32_magnitude_bound: "f32_magnitude x < 2 ^ 31"
  by (simp add: f32_magnitude_def)

lemma f32_pack_facts:
  assumes "m < 2 ^ 31"
  shows "f32_magnitude (f32_pack n m) = m" "f32_negative (f32_pack n m) = n"
proof -
  have "unat (f32_pack n m) = (if n then 2 ^ 31 else 0) + m"
  proof -
    have "(if n then 2 ^ 31 else 0) + m < 2 ^ 32" using assms by simp
    then show ?thesis unfolding f32_pack_def unat_of_nat by (simp add: take_bit_nat_eq_self)
  qed
  with assms show "f32_magnitude (f32_pack n m) = m" "f32_negative (f32_pack n m) = n"
    by (auto simp: f32_magnitude_def f32_negative_def)
qed

lemma f32_neg_facts [simp]:
  "f32_magnitude (f32_neg x) = f32_magnitude x" "f32_negative (f32_neg x) = (\<not> f32_negative x)"
  "f32_units (f32_neg x) = - f32_units x"
  using f32_pack_facts [OF f32_magnitude_bound] by (simp_all add: f32_neg_def f32_units_def)

lemma f32_sub_self: "f32_is_finite x \<Longrightarrow> f32_sub x x = f32_zero"
  by (simp add: f32_sub_def f32_add_def f32_classify f32_pack_def)

lemma f32_total_key_inject: "f32_total_key x = f32_total_key y \<Longrightarrow> x = y"
  by (auto simp: f32_total_key_def word_unat_eq_iff f32_unat split: if_splits)

subsection \<open>Candidates\<close>

definition logit_order :: "f32 list \<Rightarrow> u32 \<Rightarrow> u32 \<Rightarrow> ordering" where
  "logit_order logits = (\<lambda>x y. then_with
     (compare_to (f32_total_key (logits ! unat y)) (f32_total_key (logits ! unat x))) (compare_to x y))"

lemma logit_order_comparator: "comparator (logit_order logits)"
  unfolding logit_order_def
  by (rule comparator_then [OF comparator_key_descending comparator_key [where key = "\<lambda>x. x"]])

definition indices_of :: "f32 list \<Rightarrow> u32 list" where
  "indices_of logits = sort_by (logit_order logits) (map of_nat [0..<length logits])"

lemma unat_index: "n < m \<Longrightarrow> m < 2 ^ 32 \<Longrightarrow> unat (of_nat n :: u32) = n"
  by (simp add: unat_of_nat take_bit_nat_eq_self)

lemma sorted_indices:
  assumes "length logits < 2 ^ 32"
  shows "sort_by (compare_logits logits) (map of_nat [0..<length logits]) = indices_of logits"
  unfolding indices_of_def
  by (rule sort_by_cong)
    (use unat_index assms in \<open>auto simp: compare_logits_def logit_order_def f32_total_cmp_def\<close>)

lemma indices_of_set:
  "length logits < 2 ^ 32 \<Longrightarrow> x \<in> set (indices_of logits) \<longleftrightarrow> unat x < length logits"
  unfolding indices_of_def set_sort_by
proof
  assume "unat x < length logits"
  then have "x = of_nat (unat x)" "unat x \<in> set [0..<length logits]" by simp_all
  then show "x \<in> set (map of_nat [0..<length logits])" unfolding set_map by (rule image_eqI)
qed (use unat_index in auto)

lemma indices_of_length [simp]: "length (indices_of logits) = length logits"
  by (simp add: indices_of_def)

lemma indices_of_sorted: "sorted_by (logit_order logits) (indices_of logits)"
  unfolding indices_of_def by (rule comparator.sorted_sort_by [OF logit_order_comparator])

lemma candidates_eq:
  "length logits < 2 ^ 32 \<Longrightarrow> sampling_candidates top_k logits =
    take (if top_k = 0 then length logits else min (length logits) (unat top_k)) (indices_of logits)"
  by (simp add: sampling_candidates_def sorted_indices)

lemma first_index:
  assumes "length logits < 2 ^ 32" and "logits \<noteq> []"
  obtains c cs where "indices_of logits = c # cs" "unat c < length logits"
    "\<And>j. j < length logits \<Longrightarrow> f32_total_key (logits ! j) < f32_total_key (logits ! unat c)
       \<or> f32_total_key (logits ! j) = f32_total_key (logits ! unat c) \<and> unat c \<le> j"
proof -
  obtain c cs where cs: "indices_of logits = c # cs"
    using assms(2) by (metis indices_of_length length_0_conv list.exhaust)
  then have c: "unat c < length logits" using indices_of_set [OF assms(1), of c] by simp
  have "f32_total_key (logits ! j) < f32_total_key (logits ! unat c)
       \<or> f32_total_key (logits ! j) = f32_total_key (logits ! unat c) \<and> unat c \<le> j"
    if j: "j < length logits" for j
  proof -
    have "(of_nat j :: u32) \<in> set (c # cs)"
      using indices_of_set [OF assms(1), of "of_nat j"] unat_index [OF j assms(1)] j cs by simp
    then have "logit_order logits c (of_nat j) \<noteq> OGreater"
      using indices_of_sorted [of logits] cs comparator.refl_equal [OF logit_order_comparator, of logits c]
      by auto
    then show ?thesis
      using unat_index [OF j assms(1)] by (auto simp: logit_order_def then_with_le compare_to_def
          word_less_nat_alt split: if_splits)
  qed
  with that cs c show ?thesis by blast
qed

subsection \<open>What is chosen\<close>

lemma token_at_in: "token_at cs i = Inr t \<Longrightarrow> token_id_get t \<in> set cs"
  by (auto simp: token_at_def ok_or_def split: option.splits)

lemma pick_loop_in:
  "pick_loop target logits cs cumulative selected = Inr t \<Longrightarrow> t = selected \<or> token_id_get t \<in> set cs"
  by (induction cs arbitrary: cumulative) (auto simp: Let_def split: option.splits if_splits)

lemma weight_loop_length:
  "weight_loop expf temperature maximum cs logits = (r, logits') \<Longrightarrow> length logits' = length logits"
  by (induction cs arbitrary: logits) (auto split: if_splits)

lemma penalty_loop_length:
  "penalty_loop penalty epoch tokens logits seen = (r, logits', seen')
     \<Longrightarrow> length logits' = length logits \<and> length seen' = length seen"
  by (induction tokens arbitrary: logits seen) (auto simp: Let_def split: if_splits)

lemma advance_epoch_facts:
  "advance_epoch smp seen = (smp', seen')
     \<Longrightarrow> length seen' = length seen \<and> smp_configuration smp' = smp_configuration smp"
  by (auto simp: advance_epoch_def Let_def split: if_splits)

lemma penalize_logits_length:
  "penalize_logits smp logits history seen = (r, smp', logits', seen')
     \<Longrightarrow> length logits' = length logits \<and> length seen' = length seen
       \<and> smp_configuration smp' = smp_configuration smp"
  by (auto simp: penalize_logits_def apply_repetition_penalty_def split: if_splits prod.splits
      dest!: advance_epoch_facts penalty_loop_length)

lemma sample_finite_facts:
  assumes "sample_finite expf smp cs logits m = (r, smp', logits')"
  shows "length logits' = length logits" "smp_configuration smp' = smp_configuration smp"
    "\<And>s. r = Inr s \<Longrightarrow> token_id_get (sample_token s) \<in> set cs"
proof -
  show "length logits' = length logits" "smp_configuration smp' = smp_configuration smp"
    using assms by (auto simp: sample_finite_def Let_def split: prod.splits sum.splits if_splits
        dest: weight_loop_length)
  show "token_id_get (sample_token s) \<in> set cs" if "r = Inr s" for s
    using assms that
    by (auto simp: sample_finite_def Let_def bind_ok_Inr split: prod.splits sum.splits if_splits
        dest!: pick_loop_in token_at_in dest: in_set_takeD)
qed

lemma choose_candidate_facts:
  assumes "choose_candidate expf smp cs logits = (r, smp', logits')"
  shows "length logits' = length logits" "smp_configuration smp' = smp_configuration smp"
    "\<And>s. r = Inr s \<Longrightarrow> token_id_get (sample_token s) \<in> set cs"
  using assms sample_finite_facts [of expf smp cs logits _ r smp' logits']
  by (auto simp: choose_candidate_def sample_positive_infinities_def Let_def bind_ok_Inr
      split: prod.splits sum.splits if_splits dest: token_at_in)

lemma splice_length: "length part \<le> length whole \<Longrightarrow> length (splice part whole) = length whole"
  by (simp add: splice_def)

lemma sorted_before:
  assumes "comparator cmp" and "sorted_by cmp xs" and "x \<in> set (take k xs)"
    and "y \<in> set xs" and "cmp y x = OLess"
  shows "y \<in> set (take k xs)"
proof (rule ccontr)
  assume "y \<notin> set (take k xs)"
  then have "y \<in> set (drop k xs)" using assms(4) by (metis append_take_drop_id set_append Un_iff)
  moreover have "sorted_by cmp (take k xs @ drop k xs)" using assms(2) by simp
  ultimately have "cmp x y \<noteq> OGreater" using assms(3) unfolding sorted_wrt_append by blast
  then show False using comparator.flip [OF assms(1), of x y] assms(5) by simp
qed

lemma candidate_rank:
  assumes small: "length logits < 2 ^ 32" and c: "c \<in> set (sampling_candidates top_k logits)"
    and k: "top_k \<noteq> 0"
  shows "card {j. j < length logits \<and> logit_order logits (of_nat j) c = OLess} < unat top_k"
proof -
  let ?xs = "indices_of logits" and ?k = "min (length logits) (unat top_k)"
  let ?less = "{j. j < length logits \<and> logit_order logits (of_nat j) c = OLess}"
  have in_take: "c \<in> set (take ?k ?xs)" using c k by (simp add: candidates_eq [OF small])
  have "(of_nat :: nat \<Rightarrow> u32) ` ?less \<subseteq> set (take ?k ?xs) - {c}"
  proof
    fix y
    assume "y \<in> (of_nat :: nat \<Rightarrow> u32) ` ?less"
    then obtain j where j: "y = of_nat j" "j < length logits" "logit_order logits (of_nat j) c = OLess" by blast
    then have "y \<in> set ?xs" using indices_of_set [OF small] unat_index [OF j(2) small] by simp
    then have "y \<in> set (take ?k ?xs)"
      using sorted_before [OF logit_order_comparator indices_of_sorted in_take] j by blast
    moreover have "y \<noteq> c" using j comparator.refl_equal [OF logit_order_comparator, of logits c] by auto
    ultimately show "y \<in> set (take ?k ?xs) - {c}" by blast
  qed
  then have "card ((of_nat :: nat \<Rightarrow> u32) ` ?less) \<le> card (set (take ?k ?xs) - {c})"
    by (intro card_mono) simp_all
  moreover have "card ((of_nat :: nat \<Rightarrow> u32) ` ?less) = card ?less"
    by (rule card_image) (rule inj_on_inverseI [where g = unat], use unat_index small in auto)
  moreover have "card (set (take ?k ?xs) - {c}) < card (set (take ?k ?xs))"
    using in_take by (intro card_Diff1_less) simp_all
  moreover have "card (set (take ?k ?xs)) \<le> unat top_k"
    using card_length [of "take ?k ?xs"] by simp
  ultimately show ?thesis by linarith
qed

definition no_nan :: "f32 list \<Rightarrow> f32 list" where
  "no_nan logits = map (\<lambda>l. if f32_is_nan l then f32_neg_infinity else l) logits"

text \<open>
  A sample names a good token of the vocabulary. When \<open>sample\<close> succeeds, the token is below
  the vocabulary size and ranks within \<open>top_k\<close>: with the penalty applied and every \<open>NaN\<close> replaced,
  fewer than \<open>top_k\<close> logits come before its logit (larger ones, or equal ones of a smaller token).
  Whatever the answer, all slices keep their length and the configuration is unchanged.
\<close>
theorem sample_names_top_token:
  assumes "sampler_sample expf smp logits history workspace = (r, smp', logits', workspace')"
  shows "length logits' = length logits \<and> smp_configuration smp' = smp_configuration smp
    \<and> length (ws_indices workspace') = length (ws_indices workspace)
    \<and> length (ws_seen_tokens workspace') = length (ws_seen_tokens workspace)
    \<and> (\<forall>s. r = Inr s \<longrightarrow>
        unat (token_id_get (sample_token s)) < length logits
        \<and> (\<exists>smp1 penalized seen.
            penalize_logits smp logits history (take (length logits) (ws_seen_tokens workspace))
              = (Inr (), smp1, penalized, seen)
            \<and> (cfg_top_k (smp_configuration smp) \<noteq> 0 \<longrightarrow>
                card {j. j < length logits
                    \<and> logit_order (no_nan penalized) (of_nat j) (token_id_get (sample_token s)) = OLess}
                  < unat (cfg_top_k (smp_configuration smp)))))"
proof (cases "logits = [] \<or> 2 ^ 32 - 1 < length logits
    \<or> sampling_validate_workspace (length logits) workspace \<noteq> Inr ()")
  case True
  then have "\<exists>e. sampler_sample expf smp logits history workspace = (Inl e, smp, logits, workspace)"
    by (cases "sampling_validate_workspace (length logits) workspace")
      (auto simp: sampler_sample_def simp del: One_nat_def)
  with assms show ?thesis by auto
next
  case False
  then have small: "length logits < 2 ^ 32" and room: "length logits \<le> length (ws_indices workspace)"
    "length logits \<le> length (ws_seen_tokens workspace)"
    by (auto simp: sampling_validate_workspace_def split: if_splits)
  obtain p smp1 penalized seen where pen:
    "penalize_logits smp logits history (take (length logits) (ws_seen_tokens workspace))
       = (p, smp1, penalized, seen)" by (metis prod_cases4)
  note lengths = penalize_logits_length [OF pen]
  have seen: "length (splice seen (ws_seen_tokens workspace)) = length (ws_seen_tokens workspace)"
    using lengths room by (intro splice_length) simp
  show ?thesis
  proof (cases p)
    case (Inl e)
    with assms False pen lengths seen show ?thesis by (auto simp: sampler_sample_def Let_def)
  next
    case (Inr u)
    define clean where "clean = no_nan penalized"
    define candidates where "candidates = sampling_candidates (cfg_top_k (smp_configuration smp1)) clean"
    have clean: "length clean = length logits" using lengths by (simp add: clean_def no_nan_def)
    obtain r2 smp2 logits2 where choose:
      "choose_candidate expf smp1 candidates clean = (r2, smp2, logits2)" by (metis prod_cases3)
    note facts = choose_candidate_facts [OF choose]
    from assms False pen Inr choose have result: "r = r2" "smp' = smp2" "logits' = logits2"
      "workspace' = workspace\<lparr>ws_seen_tokens := splice seen (ws_seen_tokens workspace),
         ws_indices := splice (sort_by (compare_logits clean) (map of_nat [0..<length clean]))
           (ws_indices workspace)\<rparr>"
      by (auto simp: sampler_sample_def Let_def clean_def no_nan_def candidates_def)
    have "unat (token_id_get (sample_token s)) < length logits
        \<and> (cfg_top_k (smp_configuration smp) \<noteq> 0 \<longrightarrow>
            card {j. j < length logits \<and> logit_order clean (of_nat j) (token_id_get (sample_token s)) = OLess}
              < unat (cfg_top_k (smp_configuration smp)))" if "r = Inr s" for s
    proof -
      have c: "token_id_get (sample_token s) \<in> set candidates" using facts(3) that result by simp
      then have "token_id_get (sample_token s) \<in> set (indices_of clean)"
        using clean small by (auto simp: candidates_def candidates_eq dest: in_set_takeD)
      with candidate_rank [of clean "token_id_get (sample_token s)"] c small clean lengths
      show ?thesis by (simp add: indices_of_set candidates_def)
    qed
    with result facts(1,2) lengths seen clean room pen Inr show ?thesis
      by (auto simp: splice_length clean_def)
  qed
qed

definition example_sampler :: sampler where
  "example_sampler = \<lparr>smp_configuration = sampling_greedy, smp_random = split_mix_new 7, smp_repetition_epoch = 0\<rparr>"

definition example_workspace :: sampling_workspace where
  "example_workspace = \<lparr>ws_indices = [0, 0, 0], ws_seen_tokens = [0, 0, 0]\<rparr>"

theorem sample_names_top_token_witness:
  "\<exists>r smp' logits' w'. sampler_sample (\<lambda>_. f32_one) example_sampler [f32_one, f32_zero] [] example_workspace
     = (r, smp', logits', w') \<and> length logits' = 2 \<and> smp_configuration smp' = sampling_greedy"
proof -
  obtain r smp' logits' w' where run: "sampler_sample (\<lambda>_. f32_one) example_sampler [f32_one, f32_zero] []
      example_workspace = (r, smp', logits', w')" by (metis prod_cases4)
  from sample_names_top_token [OF this] run show ?thesis by (simp add: example_sampler_def)
qed

subsection \<open>Greedy sampling\<close>

lemma keys_one_zero: "f32_less_eq f32_one f32_zero = False" "f32_less f32_one f32_zero = False"
    "f32_less_eq f32_one f32_one" "f32_less f32_zero f32_one"
  by (simp_all add: f32_less_eq_def f32_less_def f32_key_def)

lemma one_positive [simp]: "positive_weight f32_one"
  by (simp add: positive_weight_def keys_one_zero)

lemma greedy_finite:
  assumes expf: "expf f32_zero = f32_one" and c: "unat c < length logits"
    and finite: "f32_is_finite (logits ! unat c)" and greedy: "smp_configuration smp = sampling_greedy"
  shows "fst (sample_finite expf smp [c] logits (logits ! unat c))
    = Inr \<lparr>sample_token = TokenId c, sample_probability = f32_one\<rparr>"
  using c
  by (simp add: sample_finite_def greedy sampling_greedy_def f32_sub_self [OF finite] f32_zero_over_one
      expf keys_one_zero f32_zero_plus_one f32_one_over_one Let_def token_at_def split: prod.splits)

lemma finite_total_key:
  assumes "f32_is_finite x" and "f32_total_key x \<le> f32_total_key y" and "\<not> f32_is_nan y"
    and "y \<noteq> f32_infinity"
  shows "f32_is_finite y"
proof -
  have "f32_negative y \<or> f32_magnitude y \<noteq> f32_inf_magnitude"
  proof (rule ccontr)
    assume "\<not> ?thesis"
    then have "unat y = f32_inf_magnitude" by (simp add: f32_unat)
    then have "y = f32_infinity" by (simp add: word_unat_eq_iff f32_inf_magnitude_def)
    with assms(4) show False by simp
  qed
  with assms(1-3) show ?thesis by (auto simp: f32_total_key_def f32_classify split: if_splits)
qed

lemma neg_infinity_key: "f32_total_key f32_neg_infinity = - int f32_inf_magnitude - 1"
  by (simp add: f32_total_key_def f32_negative_def f32_magnitude_def f32_inf_magnitude_def)

lemma finite_key: "f32_is_finite x \<Longrightarrow> f32_total_key f32_neg_infinity < f32_total_key x"
  unfolding neg_infinity_key by (auto simp: f32_total_key_def f32_is_finite_def)

lemma finite_not_infinity: "f32_is_finite x \<Longrightarrow> \<not> f32_equal x f32_infinity"
proof -
  have "f32_key f32_infinity = int f32_inf_magnitude"
    by (simp add: f32_key_def f32_negative_def f32_magnitude_def f32_inf_magnitude_def)
  then show "f32_is_finite x \<Longrightarrow> \<not> f32_equal x f32_infinity"
    by (auto simp: f32_equal_def f32_key_def f32_is_finite_def split: if_splits)
qed

text \<open>
  Greedy sampling takes the largest logit. With the configuration \<open>greedy\<close>, workspaces of
  at least the vocabulary's size, some finite logit and no positive infinity, \<open>sample\<close> succeeds,
  whatever the history and the random state: its token has the largest logit that is not \<open>NaN\<close>,
  the smallest such token, with probability one. Of the exponential it uses only \<open>expf(0) = 1\<close>.
\<close>
theorem greedy_takes_largest:
  assumes expf: "expf f32_zero = f32_one" and greedy: "smp_configuration smp = sampling_greedy"
    and room: "length logits \<le> length (ws_indices workspace)"
      "length logits \<le> length (ws_seen_tokens workspace)" "length logits < 2 ^ 32"
    and finite: "k < length logits" "f32_is_finite (logits ! k)" and no_inf: "f32_infinity \<notin> set logits"
  shows "\<exists>i. fst (sampler_sample expf smp logits history workspace)
        = Inr \<lparr>sample_token = TokenId (of_nat i), sample_probability = f32_one\<rparr>
      \<and> i < length logits \<and> f32_is_finite (logits ! i)
      \<and> (\<forall>j < length logits. f32_is_nan (logits ! j)
           \<or> f32_total_key (logits ! j) < f32_total_key (logits ! i)
           \<or> f32_total_key (logits ! j) = f32_total_key (logits ! i) \<and> i \<le> j)"
proof -
  let ?clean = "no_nan logits"
  have clean: "length ?clean = length logits" "?clean \<noteq> []" using finite(1) by (auto simp: no_nan_def)
  have clean_nth: "j < length logits \<Longrightarrow> ?clean ! j
      = (if f32_is_nan (logits ! j) then f32_neg_infinity else logits ! j)" for j by (simp add: no_nan_def)
  obtain c cs where c: "indices_of ?clean = c # cs" "unat c < length logits"
    and largest: "\<And>j. j < length logits \<Longrightarrow> f32_total_key (?clean ! j) < f32_total_key (?clean ! unat c)
       \<or> f32_total_key (?clean ! j) = f32_total_key (?clean ! unat c) \<and> unat c \<le> j"
    using first_index [of ?clean] clean room(3) by metis
  have not_nan: "\<not> f32_is_nan (logits ! k)" using finite(2) by (simp add: f32_classify)
  then have "f32_total_key f32_neg_infinity < f32_total_key (?clean ! k)"
    using finite_key [OF finite(2)] clean_nth [OF finite(1)] by simp
  then have above: "f32_total_key f32_neg_infinity < f32_total_key (?clean ! unat c)"
    using largest [OF finite(1)] by linarith
  then have c_value: "?clean ! unat c = logits ! unat c" "\<not> f32_is_nan (logits ! unat c)"
    using clean_nth [OF c(2)] by (auto split: if_splits)
  have c_finite: "f32_is_finite (logits ! unat c)"
  proof (rule finite_total_key [OF finite(2) _ c_value(2)])
    show "f32_total_key (logits ! k) \<le> f32_total_key (logits ! unat c)"
      using largest [OF finite(1)] clean_nth [OF finite(1)] not_nan c_value(1) by auto
    show "logits ! unat c \<noteq> f32_infinity" using no_inf c(2) nth_mem by metis
  qed
  have candidates: "sampling_candidates (cfg_top_k (smp_configuration smp)) ?clean = [c]"
    using finite(1) clean room(3) c(1)
    by (simp add: candidates_eq greedy sampling_greedy_def)
  have "choose_candidate expf smp [c] ?clean = sample_finite expf smp [c] ?clean (?clean ! unat c)"
    using c(2) clean(1) c_finite c_value(1) finite_not_infinity [OF c_finite]
    by (simp add: choose_candidate_def token_at_def)
  then have chosen: "fst (choose_candidate expf smp [c] ?clean)
      = Inr \<lparr>sample_token = TokenId c, sample_probability = f32_one\<rparr>"
    using greedy_finite [of expf c ?clean smp] expf greedy c(2) clean(1) c_finite c_value(1) by simp
  have "fst (sampler_sample expf smp logits history workspace) = fst (choose_candidate expf smp [c] ?clean)"
  proof -
    have "penalize_logits smp logits history seen = (Inr (), smp, logits, seen)" for seen
      by (simp add: penalize_logits_def greedy sampling_greedy_def is_exactly_one_def)
    moreover have "sampling_validate_workspace (length logits) workspace = Inr ()"
      using room by (simp add: sampling_validate_workspace_def)
    moreover have "logits \<noteq> []" "\<not> 2 ^ 32 - 1 < length logits" using finite(1) room(3) by auto
    ultimately show ?thesis
      using candidates by (simp add: sampler_sample_def Let_def no_nan_def split: prod.splits)
  qed
  with chosen have "fst (sampler_sample expf smp logits history workspace)
      = Inr \<lparr>sample_token = TokenId (of_nat (unat c)), sample_probability = f32_one\<rparr>" by simp
  moreover have "\<forall>j < length logits. f32_is_nan (logits ! j)
       \<or> f32_total_key (logits ! j) < f32_total_key (logits ! unat c)
       \<or> f32_total_key (logits ! j) = f32_total_key (logits ! unat c) \<and> unat c \<le> j"
  proof (intro allI impI)
    fix j
    assume "j < length logits"
    with largest [of j] clean_nth [of j] c_value(1) show "f32_is_nan (logits ! j)
       \<or> f32_total_key (logits ! j) < f32_total_key (logits ! unat c)
       \<or> f32_total_key (logits ! j) = f32_total_key (logits ! unat c) \<and> unat c \<le> j" by auto
  qed
  ultimately show ?thesis using c(2) c_finite by blast
qed

theorem greedy_takes_largest_witness:
  "\<exists>i. fst (sampler_sample (\<lambda>_. f32_one) example_sampler [f32_zero, f32_one, f32_nan] [] example_workspace)
      = Inr \<lparr>sample_token = TokenId (of_nat i), sample_probability = f32_one\<rparr>"
  using greedy_takes_largest [of "\<lambda>_. f32_one" example_sampler "[f32_zero, f32_one, f32_nan]"
      example_workspace 1 "[]"]
  by (auto simp: example_sampler_def example_workspace_def)

subsection \<open>The repetition penalty\<close>

text \<open>The marks a workspace may hold: none of an epoch that is still to come.\<close>

definition marks_past :: "sampler \<Rightarrow> u32 list \<Rightarrow> bool" where
  "marks_past smp seen \<longleftrightarrow> (\<forall>mark \<in> set seen. mark \<le> smp_repetition_epoch smp)"

definition penalized_once :: "f32 \<Rightarrow> token_id list \<Rightarrow> f32 list \<Rightarrow> f32 list" where
  "penalized_once penalty window logits =
     map (\<lambda>i. if TokenId (of_nat i) \<in> set window then penalize penalty (logits ! i) else logits ! i)
       [0..<length logits]"

lemma penalty_loop_once:
  assumes "list_all (\<lambda>t. unat (token_id_get t) < length logits) tokens"
    and "length seen = length logits" and "length logits < 2 ^ 32"
    and "penalty_loop penalty epoch tokens logits seen = (r, logits', seen')"
  shows "r = Inr () \<and> length logits' = length logits \<and> length seen' = length seen
    \<and> (\<forall>i < length logits.
        logits' ! i = (if TokenId (of_nat i) \<in> set tokens \<and> seen ! i \<noteq> epoch
                       then penalize penalty (logits ! i) else logits ! i)
        \<and> seen' ! i = (if TokenId (of_nat i) \<in> set tokens then epoch else seen ! i))"
  using assms
proof (induction tokens arbitrary: logits seen)
  case (Cons t ts)
  define index where "index = unat (token_id_get t)"
  have index: "index < length logits" using Cons.prems(1) by (simp add: index_def)
  have t: "TokenId (of_nat i) = t \<longleftrightarrow> i = index" if "i < length logits" for i
    using that Cons.prems(3) unat_index [OF that Cons.prems(3)]
    by (cases t) (auto simp: index_def)
  show ?case
  proof (cases "seen ! index = epoch")
    case True
    with Cons.prems index have "penalty_loop penalty epoch ts logits seen = (r, logits', seen')"
      by (simp add: index_def Let_def)
    with Cons.IH [of logits seen] Cons.prems(1-3) t True show ?thesis by auto
  next
    case False
    with Cons.prems index have "penalty_loop penalty epoch ts
        (logits[index := penalize penalty (logits ! index)]) (seen[index := epoch]) = (r, logits', seen')"
      by (simp add: index_def Let_def)
    with Cons.IH [of "logits[index := penalize penalty (logits ! index)]" "seen[index := epoch]"]
      Cons.prems(1-3) t False index show ?thesis
      by (auto simp: nth_list_update)
  qed
qed simp

text \<open>
  \<^bold>\<open>C40\<close>. The repetition penalty falls on each recent token once. With a penalty other than one, a
  history of vocabulary tokens, and a mark table without marks of future epochs, the penalty step
  divides (or, if negative, multiplies) the logit of each token of the window exactly once,
  however often the token occurs, and changes no other; and the table again has no mark of a
  future epoch, also when the epoch counter wraps around, so that the next sample can rely on it.
\<close>
theorem penalty_falls_once:
  assumes "\<not> is_exactly_one (cfg_repetition_penalty (smp_configuration smp))"
    and "list_all (\<lambda>t. unat (token_id_get t) < length logits) history"
    and "length seen = length logits" and "length logits < 2 ^ 32" and "marks_past smp seen"
    and "penalize_logits smp logits history seen = (r, smp', logits', seen')"
  shows "r = Inr () \<and> marks_past smp' seen' \<and> length seen' = length logits
    \<and> logits' = penalized_once (cfg_repetition_penalty (smp_configuration smp))
        (recent_history (cfg_repetition_window (smp_configuration smp)) history) logits"
proof -
  obtain smp1 seen1 where epoch: "advance_epoch smp seen = (smp1, seen1)" by fastforce
  let ?window = "recent_history (cfg_repetition_window (smp_configuration smp)) history"
  have same: "smp_configuration smp1 = smp_configuration smp" "length seen1 = length seen"
    using advance_epoch_facts [OF epoch] by simp_all
  have fresh: "\<forall>mark \<in> set seen1. mark < smp_repetition_epoch smp1"
  proof (cases "smp_repetition_epoch smp + 1 = 0")
    case True
    then show ?thesis using epoch by (auto simp: advance_epoch_def Let_def)
  next
    case False
    then have "smp_repetition_epoch smp < smp_repetition_epoch smp + 1"
      using unatSuc [of "smp_repetition_epoch smp"] by (simp add: word_less_nat_alt add.commute)
    with False epoch assms(5) show ?thesis
      by (auto simp: advance_epoch_def Let_def marks_past_def intro: le_less_trans)
  qed
  from assms(1,6) epoch same have loop: "penalty_loop (cfg_repetition_penalty (smp_configuration smp))
      (smp_repetition_epoch smp1) ?window logits seen1 = (r, logits', seen')" and smp': "smp' = smp1"
    by (auto simp: penalize_logits_def apply_repetition_penalty_def split: prod.splits)
  have window: "list_all (\<lambda>t. unat (token_id_get t) < length logits) ?window"
    using assms(2) by (auto simp: recent_history_def list_all_iff dest: in_set_dropD)
  from penalty_loop_once [OF window _ assms(4) loop] same(2) assms(3) have once: "r = Inr ()"
    "length logits' = length logits" "length seen' = length logits"
    "\<And>i. i < length logits \<Longrightarrow> logits' ! i = (if TokenId (of_nat i) \<in> set ?window
       \<and> seen1 ! i \<noteq> smp_repetition_epoch smp1
       then penalize (cfg_repetition_penalty (smp_configuration smp)) (logits ! i) else logits ! i)"
    "\<And>i. i < length logits \<Longrightarrow> seen' ! i
       = (if TokenId (of_nat i) \<in> set ?window then smp_repetition_epoch smp1 else seen1 ! i)"
    by auto
  have unmarked: "seen1 ! i \<noteq> smp_repetition_epoch smp1" if "i < length logits" for i
    using fresh same(2) assms(3) that nth_mem [of i seen1] by fastforce
  have "marks_past smp' seen'"
    unfolding marks_past_def smp'
  proof
    fix mark
    assume "mark \<in> set seen'"
    then obtain i where "i < length logits" "mark = seen' ! i" using once(3) by (metis in_set_conv_nth)
    with once(5) fresh same(2) assms(3) nth_mem [of i seen1] show "mark \<le> smp_repetition_epoch smp1"
      by (auto intro: less_imp_le)
  qed
  moreover have "logits' = penalized_once (cfg_repetition_penalty (smp_configuration smp)) ?window logits"
    using once(2,4) unmarked by (intro nth_equalityI) (simp_all add: penalized_once_def)
  ultimately show ?thesis using once(1,3) by simp
qed

definition example_penalty :: sampler where
  "example_penalty = \<lparr>smp_configuration = sampling_greedy\<lparr>cfg_repetition_penalty := 0x40000000\<rparr>,
     smp_random = split_mix_new 7, smp_repetition_epoch = - 1\<rparr>"

theorem penalty_falls_once_witness:
  "\<exists>smp' logits' seen'. penalize_logits example_penalty [f32_one, f32_zero] [TokenId 0, TokenId 0] [5, 9]
     = (Inr (), smp', logits', seen') \<and> marks_past smp' seen'"
proof -
  obtain r smp' logits' seen' where run: "penalize_logits example_penalty [f32_one, f32_zero]
     [TokenId 0, TokenId 0] [5, 9] = (r, smp', logits', seen')" by (metis prod_cases4)
  from penalty_falls_once [OF _ _ _ _ _ run] run show ?thesis
    by (simp add: example_penalty_def is_exactly_one_def marks_past_def)
qed

end
