(* ===== verification/Generation.thy ===== *)
theory Generation
  imports Registry_Unload Token_Output Sampling
begin

section \<open>The generation scheduler: requests and tasks\<close>

text \<open>
  The data of \<open>crates/engines/inference-runtime/src/generation.rs\<close>: the request a client makes,
  the states published beside the tokens, and the task the scheduler keeps per request. The
  shared output is the accumulator of \<open>Token_Output\<close>; the runtime is the registry. Every function
  that takes one of them by mutable reference returns it.
\<close>

record generation_stop_sequence =
  gs_code :: u32
  gs_tokens :: "token_id list"

record generation_output_capacity_policy =
  gc_minimum_tokens :: usize
  gc_minimum_records :: usize

definition generation_output_capacity_default :: generation_output_capacity_policy where
  "generation_output_capacity_default = \<lparr>gc_minimum_tokens = 1, gc_minimum_records = 1\<rparr>"

record generation_request =
  gr_request_id :: request_id
  gr_sequence_id :: sequence_id
  gr_prompt_tokens :: "token_id list"
  gr_sequence :: sequence_configuration
  gr_maximum_generated_tokens :: u32
  gr_sampling :: sampling_config
  gr_seed :: u64
  gr_eos_tokens :: "token_id list"
  gr_stop_sequences :: "generation_stop_sequence list"
  gr_scheduler_quantum :: u32
  gr_output_capacity :: generation_output_capacity_policy

datatype generation_outcome =
    GenerationFinished finish_reason
  | GenerationFailed runtime_error

datatype generation_output_state =
    OutYielded yield_reason
  | OutTerminal generation_outcome
  | OutCleanupPending generation_outcome cleanup_failure_report cleanup_retry_state
  | OutCleanupExhausted generation_outcome cleanup_failure_report cleanup_retry_state
  | OutReleased generation_outcome

type_synonym generation_output = "generation_output_state token_output"

record generation_admission =
  ga_request :: request_start_receipt
  ga_scheduler_quantum :: u32

record terminal_publication =
  tp_outcome :: generation_outcome
  tp_initial_cleanup :: "cleanup_retry_state option"
  tp_terminal_published :: bool
  tp_cleanup_published :: bool
  tp_exhaustion_published :: bool

datatype generation_phase =
    PhasePrefill
  | PhaseDecode
  | PhaseTerminal terminal_publication

record generation_task =
  gt_handle :: model_handle
  gt_workspace_footprint :: memory_footprint
  gt_prompt_tokens :: "token_id list"
  gt_maximum_generated_tokens :: usize
  gt_eos_tokens :: "token_id list"
  gt_stop_sequences :: "generation_stop_sequence list"
  gt_scheduler_quantum :: u32
  gt_sampler :: sampler
  gt_logits :: "f32 list"
  gt_sampling_indices :: "u32 list"
  gt_repetition_epochs :: "u32 list"
  gt_history :: "token_id list"
  gt_generated :: "token_id list"
  gt_phase :: generation_phase
  gt_pending_token :: "token_id option"
  gt_cancellation :: "cancellation_reason option"
  gt_pending_yield :: "yield_reason option"

record generation_scheduler =
  sch_requests :: "(request_id, generation_task) btree_map"
  sch_cursor :: "request_id option"

record scheduler_advance =
  sa_progressed :: bool
  sa_completed :: "request_id option"

definition scheduler_new :: generation_scheduler where
  "scheduler_new = \<lparr>sch_requests = bt_empty, sch_cursor = None\<rparr>"

definition sched_progressed :: scheduler_advance where
  "sched_progressed = \<lparr>sa_progressed = True, sa_completed = None\<rparr>"

definition sched_idle :: scheduler_advance where
  "sched_idle = \<lparr>sa_progressed = False, sa_completed = None\<rparr>"

subsection \<open>Errors and sizes\<close>

fun sampling_failure_of :: "sampling_error \<Rightarrow> sampling_failure" where
  "sampling_failure_of (InvalidConfiguration _) = SamplingInvalidConfiguration"
| "sampling_failure_of EmptyLogits = SamplingNoCandidate"
| "sampling_failure_of NoCandidate = SamplingNoCandidate"
| "sampling_failure_of (SampleCapacityExhausted capacity) = SamplingCapacityExhausted capacity"
| "sampling_failure_of _ = SamplingInvalidInput"

definition capacity_error :: "capacity_resource \<Rightarrow> usize \<Rightarrow> usize \<Rightarrow> runtime_error" where
  "capacity_error resource required available = RuntimeCapacityExhausted
     (capacity_exhausted_new resource (usize_to_u64 required) (usize_to_u64 available))"

definition token_capacity :: "usize \<Rightarrow> usize \<Rightarrow> runtime_error" where
  "token_capacity required available = RuntimeCapacityExhausted
     (capacity_exhausted_new Tokens (usize_to_u64 required) (usize_to_u64 available))"

definition allocation_capacity :: "capacity_resource \<Rightarrow> usize \<Rightarrow> runtime_error" where
  "allocation_capacity resource required = RuntimeCapacityExhausted
     (capacity_exhausted_new resource (usize_to_u64 required) 0)"

text \<open>The bytes of \<open>n\<close> elements of a type of the given size.\<close>

definition allocation_bytes :: "usize \<Rightarrow> usize \<Rightarrow> runtime_error + u64" where
  "allocation_bytes width n =
    (if n * width \<le> usize_max then Inr (of_nat (n * width)) else Inl MemoryArithmeticOverflow)"

definition sum_checked :: "u64 \<Rightarrow> u64 \<Rightarrow> runtime_error + u64" where
  "sum_checked a b = ok_or (checked_add a b) MemoryArithmeticOverflow"

text \<open>
  \<open>f32\<close>, \<open>u32\<close> and \<open>TokenId\<close> have four bytes; a \<open>GenerationStopSequence\<close>, a \<open>u32\<close> and a boxed slice,
  has 24 on a 64-bit target.
\<close>

definition generation_workspace_footprint ::
    "usize \<Rightarrow> usize \<Rightarrow> usize \<Rightarrow> usize \<Rightarrow> usize \<Rightarrow> generation_stop_sequence list
       \<Rightarrow> runtime_error + memory_footprint" where
  "generation_workspace_footprint vocabulary_size history_capacity generated_capacity prompt_tokens
       eos_tokens stop_sequences =
    bind_ok (allocation_bytes 4 vocabulary_size) (\<lambda>logits.
    bind_ok (allocation_bytes 4 vocabulary_size) (\<lambda>sampling_indices.
    bind_ok (allocation_bytes 4 vocabulary_size) (\<lambda>repetition_epochs.
    bind_ok (allocation_bytes 4 history_capacity) (\<lambda>history.
    bind_ok (allocation_bytes 4 generated_capacity) (\<lambda>generated.
    bind_ok (allocation_bytes 4 prompt_tokens) (\<lambda>prompt.
    bind_ok (allocation_bytes 4 eos_tokens) (\<lambda>eos.
    bind_ok (allocation_bytes 24 (length stop_sequences)) (\<lambda>stop_descriptors.
    bind_ok (try_fold (\<lambda>whole stop. bind_ok (allocation_bytes 4 (length (gs_tokens stop)))
               (sum_checked whole)) 0 stop_sequences) (\<lambda>stop_tokens.
    bind_ok (try_fold sum_checked logits
               [sampling_indices, repetition_epochs, history, generated, prompt, eos,
                stop_descriptors, stop_tokens]) (\<lambda>host_working_bytes.
    Inr \<lparr>host_weight_bytes = 0, device_weight_bytes = 0, host_working_bytes = host_working_bytes,
      device_working_bytes = 0, cache_bytes_per_token = 0\<rparr>))))))))))"

definition output_yield :: "output_push_error \<Rightarrow> yield_reason" where
  "output_yield e = OutputBackpressure
     (case e of OutputCapacityExhausted capacity \<Rightarrow> capacity
      | _ \<Rightarrow> capacity_exhausted_new OutputRecords 1 0)"

subsection \<open>When a token ends the generation\<close>

fun stop_matches :: "token_id list \<Rightarrow> generation_stop_sequence list \<Rightarrow> bool" where
  "stop_matches generated [] = False"
| "stop_matches generated (stop # stops) =
    (if length (gs_tokens stop) \<le> length generated
        \<and> drop (length generated - length (gs_tokens stop)) generated = gs_tokens stop
     then True else stop_matches generated stops)"

definition finish_after_token :: "generation_task \<Rightarrow> token_id \<Rightarrow> finish_reason option" where
  "finish_after_token task token =
    (if token \<in> set (gt_eos_tokens task) then Some (EndOfSequence token)
     else if stop_matches (gt_generated task) (gt_stop_sequences task) then Some StopCondition
     else if gt_maximum_generated_tokens task \<le> length (gt_generated task) then Some TokenLimit
     else None)"

subsection \<open>The end of a generation\<close>

definition cleanup_state_from_error ::
    "('ld, 'm, 'q) runtime \<Rightarrow> request_id \<Rightarrow> runtime_error \<Rightarrow> cleanup_retry_state option" where
  "cleanup_state_from_error s request_id e =
    (case e of
       CleanupFailed _ \<Rightarrow> request_cleanup_state s request_id
     | CleanupRetryExhausted state \<Rightarrow> Some state
     | _ \<Rightarrow> None)"

definition or_else :: "'a option \<Rightarrow> 'a option \<Rightarrow> 'a option" where
  "or_else x y = (case x of None \<Rightarrow> y | Some a \<Rightarrow> Some a)"

definition terminal_phase ::
    "('ld, 'm, 'q) runtime \<Rightarrow> request_id \<Rightarrow> generation_outcome \<Rightarrow> runtime_error option \<Rightarrow> generation_phase" where
  "terminal_phase s request_id outcome cleanup_error =
    (let retained = request_cleanup_state s request_id;
         (outcome, initial) =
           (case cleanup_error of
              Some (CleanupFailed report) \<Rightarrow>
                (case or_else retained (cleanup_state_from_error s request_id (CleanupFailed report)) of
                   Some cleanup \<Rightarrow> (outcome, Some cleanup)
                 | None \<Rightarrow> (GenerationFailed (CleanupFailed report), None))
            | Some (CleanupRetryExhausted state) \<Rightarrow>
                (outcome, or_else retained
                   (cleanup_state_from_error s request_id (CleanupRetryExhausted state)))
            | Some e \<Rightarrow> (GenerationFailed e, retained)
            | None \<Rightarrow> (outcome, retained))
     in PhaseTerminal \<lparr>tp_outcome = outcome, tp_initial_cleanup = initial,
          tp_terminal_published = False, tp_cleanup_published = False, tp_exhaustion_published = False\<rparr>)"

definition terminal_phase_from_runtime_error ::
    "('ld, 'm, 'q) runtime \<Rightarrow> request_id \<Rightarrow> runtime_error \<Rightarrow> generation_phase" where
  "terminal_phase_from_runtime_error s request_id e = PhaseTerminal
     \<lparr>tp_outcome = GenerationFailed e,
      tp_initial_cleanup = or_else (request_cleanup_state s request_id) (cleanup_state_from_error s request_id e),
      tp_terminal_published = False, tp_cleanup_published = False, tp_exhaustion_published = False\<rparr>"

definition publish_terminal ::
    "('ld, 'm, 'q) runtime \<Rightarrow> request_id \<Rightarrow> terminal_publication \<Rightarrow> generation_output
       \<Rightarrow> scheduler_advance \<times> terminal_publication \<times> generation_output" where
  "publish_terminal s request_id t out =
    (let push = (\<lambda>payload after.
           case try_push_state request_id payload out of
             (Inl _, out) \<Rightarrow> (sched_idle, t, out)
           | (Inr _, out) \<Rightarrow> (sched_progressed, after, out));
         release =
           (case try_push_state request_id (OutReleased (tp_outcome t)) out of
              (Inl _, out) \<Rightarrow> (sched_idle, t, out)
            | (Inr _, out) \<Rightarrow> (\<lparr>sa_progressed = True, sa_completed = Some request_id\<rparr>, t, out))
     in
    if \<not> tp_terminal_published t
    then push (OutTerminal (tp_outcome t)) (t\<lparr>tp_terminal_published := True\<rparr>)
    else case tp_initial_cleanup t of
      None \<Rightarrow> release
    | Some initial \<Rightarrow>
        if \<not> tp_cleanup_published t
        then (let retry = (case request_cleanup_state s request_id of None \<Rightarrow> initial | Some state \<Rightarrow> state)
              in push (OutCleanupPending (tp_outcome t) (cr_failure retry) retry)
                   (t\<lparr>tp_cleanup_published := True\<rparr>))
        else (case request_cleanup_state s request_id of
            None \<Rightarrow> release
          | Some retry \<Rightarrow>
              if cleanup_exhausted retry \<and> \<not> tp_exhaustion_published t
              then push (OutCleanupExhausted (tp_outcome t) (cr_failure retry) retry)
                     (t\<lparr>tp_exhaustion_published := True\<rparr>)
              else (sched_idle, t, out)))"

end
