(* ===== verification/Generation_Scheduler.thy ===== *)
theory Generation_Scheduler
  imports Generation
begin

section \<open>The generation scheduler: admission and advance\<close>

text \<open>
  The operations of \<open>GenerationScheduler\<close> and \<open>advance_task\<close> of \<open>generation.rs\<close>. \<open>admit\<close> is split
  at the point where it first changes the runtime; \<open>advance_task\<close> into the parts that its early
  returns separate. \<open>allocates\<close> answers for \<open>try_reserve_exact\<close>: whether the allocation of the
  vector for a resource succeeds. \<open>expf\<close> is the exponential of the sampler.
\<close>

subsection \<open>Admission\<close>

text \<open>What the checks compute: the sizes, the sampler and the footprint.\<close>

record generation_sizes =
  gz_maximum_generated :: usize
  gz_required_sequence :: usize
  gz_vocabulary :: usize
  gz_sampler :: sampler
  gz_footprint :: memory_footprint

definition check_generation_request ::
    "generation_scheduler \<Rightarrow> usize \<times> usize \<Rightarrow> generation_request \<Rightarrow> runtime_error + usize \<times> usize" where
  "check_generation_request sch capacities request =
    (let prompt = length (gr_prompt_tokens request);
         maximum_prefill_batch = unat (sc_maximum_prefill_batch (gr_sequence request));
         maximum_generated_tokens = unat (gr_maximum_generated_tokens request);
         sequence_capacity = unat (sc_maximum_tokens (gr_sequence request));
         minimum_tokens = gc_minimum_tokens (gr_output_capacity request);
         minimum_records = gc_minimum_records (gr_output_capacity request)
     in
    if bt_contains (sch_requests sch) (gr_request_id request)
    then Inl (RequestAlreadyActive (gr_request_id request))
    else if gr_prompt_tokens request = [] then Inl (token_capacity 1 0)
    else if maximum_prefill_batch < prompt then Inl (token_capacity prompt maximum_prefill_batch)
    else if fst capacities < minimum_tokens
    then Inl (capacity_error Tokens minimum_tokens (fst capacities))
    else if snd capacities < minimum_records
    then Inl (capacity_error OutputRecords minimum_records (snd capacities))
    else if list_ex (\<lambda>stop. gs_tokens stop = []) (gr_stop_sequences request) then Inl (token_capacity 1 0)
    else
    bind_ok (ok_or (usize_checked_add prompt maximum_generated_tokens) MemoryArithmeticOverflow)
      (\<lambda>required_sequence.
    if sequence_capacity < required_sequence
    then Inl (token_capacity required_sequence sequence_capacity)
    else Inr (maximum_generated_tokens, required_sequence)))"

definition prepare_generation ::
    "('src, 'ld, 'm, 'q) backend \<Rightarrow> (capacity_resource \<Rightarrow> usize \<Rightarrow> bool)
       \<Rightarrow> generation_scheduler \<Rightarrow> usize \<times> usize \<Rightarrow> model_handle \<Rightarrow> generation_request
       \<Rightarrow> ('ld, 'm, 'q) runtime \<Rightarrow> runtime_error + generation_sizes" where
  "prepare_generation B allocates sch capacities handle request s =
    bind_ok (check_generation_request sch capacities request) (\<lambda>(maximum_generated, required_sequence).
    bind_ok (exact_model_snapshot s handle) (\<lambda>snapshot.
    if ms_degraded snapshot then Inl (ModelDegraded (mh_id handle))
    else
    let vocabulary = unat (md_vocabulary_size (desc_metadata (ms_descriptor snapshot))) in
    bind_ok (map_err (\<lambda>e. RuntimeSampling (sampling_failure_of e))
      (sampler_new (gr_sampling request) (gr_seed request))) (\<lambda>smp.
    bind_ok (generation_workspace_footprint vocabulary required_sequence maximum_generated
      (length (gr_prompt_tokens request)) (length (gr_eos_tokens request)) (gr_stop_sequences request))
      (\<lambda>footprint.
    bind_ok (preflight_generation_resources B handle (gr_request_id request) (gr_sequence_id request)
      (gr_sequence request) footprint vocabulary s) (\<lambda>_.
    bind_ok (try_all (\<lambda>(resource, n). if allocates resource n then Inr ()
        else Inl (allocation_capacity resource n))
      [(Logits, vocabulary), (SamplingIndices, vocabulary), (SamplingMask, vocabulary),
       (RepetitionHistory, required_sequence), (Tokens, maximum_generated)]) (\<lambda>_.
    Inr \<lparr>gz_maximum_generated = maximum_generated, gz_required_sequence = required_sequence,
      gz_vocabulary = vocabulary, gz_sampler = smp, gz_footprint = footprint\<rparr>))))))"

definition new_generation_task :: "model_handle \<Rightarrow> generation_request \<Rightarrow> generation_sizes \<Rightarrow> generation_task" where
  "new_generation_task handle request sizes =
    \<lparr>gt_handle = handle, gt_workspace_footprint = gz_footprint sizes,
     gt_prompt_tokens = gr_prompt_tokens request,
     gt_maximum_generated_tokens = gz_maximum_generated sizes,
     gt_eos_tokens = gr_eos_tokens request, gt_stop_sequences = gr_stop_sequences request,
     gt_scheduler_quantum = gr_scheduler_quantum request, gt_sampler = gz_sampler sizes,
     gt_logits = replicate (gz_vocabulary sizes) f32_zero,
     gt_sampling_indices = replicate (gz_vocabulary sizes) 0,
     gt_repetition_epochs = replicate (gz_vocabulary sizes) 0,
     gt_history = gr_prompt_tokens request, gt_generated = [], gt_phase = PhasePrefill,
     gt_pending_token = None, gt_cancellation = None, gt_pending_yield = None\<rparr>"

definition scheduler_admit ::
    "('src, 'ld, 'm, 'q) backend \<Rightarrow> (capacity_resource \<Rightarrow> usize \<Rightarrow> bool) \<Rightarrow> generation_output
       \<Rightarrow> model_handle \<Rightarrow> generation_request \<Rightarrow> generation_scheduler \<Rightarrow> ('ld, 'm, 'q) runtime
       \<Rightarrow> (runtime_error + generation_admission) \<times> generation_scheduler \<times> ('ld, 'm, 'q) runtime" where
  "scheduler_admit B allocates out handle request sch s =
    (case prepare_generation B allocates sch (to_token_capacity out, to_record_capacity out)
            handle request s of
       Inl e \<Rightarrow> (Inl e, sch, s)
     | Inr sizes \<Rightarrow>
    (case start_generation_request B handle (gr_request_id request) (gr_sequence_id request)
            (gr_sequence request) (gz_footprint sizes) (gz_vocabulary sizes) s of
       (Inl e, s) \<Rightarrow> (Inl e, sch, s)
     | (Inr receipt, s) \<Rightarrow>
    if rr_logits_capacity receipt \<noteq> gz_vocabulary sizes
    then (case runtime_fail_request B (gr_request_id request) OpSequenceAdmission
                 (runtime_failure_class BackendContractViolation) s of
            (cleanup, s) \<Rightarrow>
          (case release_generation_workspace (gz_footprint sizes) s of
             (Inl e, s) \<Rightarrow> (Inl e, sch, s)
           | (Inr _, s) \<Rightarrow>
               (Inl (case cleanup of Inl e \<Rightarrow> e | Inr _ \<Rightarrow> BackendContractViolation), sch, s)))
    else (Inr \<lparr>ga_request = receipt, ga_scheduler_quantum = gr_scheduler_quantum request\<rparr>,
          sch\<lparr>sch_requests := bt_insert (gr_request_id request)
            (new_generation_task handle request sizes) (sch_requests sch)\<rparr>, s)))"

subsection \<open>Cancellation and discarding\<close>

definition request_cancellation ::
    "request_id \<Rightarrow> cancellation_reason \<Rightarrow> generation_scheduler
       \<Rightarrow> (runtime_error + unit) \<times> generation_scheduler" where
  "request_cancellation request_id reason sch =
    (case bt_get (sch_requests sch) request_id of
       None \<Rightarrow> (Inl (RequestNotActive request_id), sch)
     | Some task \<Rightarrow>
         (Inr (), sch\<lparr>sch_requests := bt_insert request_id (task\<lparr>gt_cancellation := Some reason\<rparr>)
            (sch_requests sch)\<rparr>))"

definition request_model_cancellation ::
    "model_id \<Rightarrow> cancellation_reason \<Rightarrow> generation_scheduler \<Rightarrow> generation_scheduler" where
  "request_model_cancellation model_id reason sch =
    sch\<lparr>sch_requests := map (\<lambda>(request_id, task).
      (request_id, if mh_id (gt_handle task) = model_id
                   then task\<lparr>gt_cancellation := Some reason\<rparr> else task)) (sch_requests sch)\<rparr>"

fun discard_loop ::
    "memory_footprint list \<Rightarrow> runtime_error option \<Rightarrow> ('ld, 'm, 'q) runtime
       \<Rightarrow> runtime_error option \<times> ('ld, 'm, 'q) runtime" where
  "discard_loop [] first_error s = (first_error, s)"
| "discard_loop (footprint # footprints) first_error s =
    (case release_generation_workspace footprint s of
       (Inl e, s) \<Rightarrow> discard_loop footprints (or_else first_error (Some e)) s
     | (Inr _, s) \<Rightarrow> discard_loop footprints first_error s)"

definition scheduler_discard_all ::
    "generation_scheduler \<Rightarrow> ('ld, 'm, 'q) runtime
       \<Rightarrow> (runtime_error + unit) \<times> generation_scheduler \<times> ('ld, 'm, 'q) runtime" where
  "scheduler_discard_all sch s =
    (case discard_loop (map gt_workspace_footprint (bt_values (sch_requests sch))) None s of
       (first_error, s) \<Rightarrow>
         (case first_error of None \<Rightarrow> Inr () | Some e \<Rightarrow> Inl e, scheduler_new, s))"

subsection \<open>One backend step\<close>

text \<open>
  The body of the loop of \<open>advance_task\<close>. Its result says whether the loop goes on. The first
  part runs the backend: \<open>None\<close> when the phase has no step to run.
\<close>

datatype backend_step =
    StepWritten usize
  | StepFinished generation_outcome
  | StepError runtime_error

definition prefill_step :: "runtime_error + prefill_receipt \<Rightarrow> backend_step" where
  "prefill_step r =
    (case r of
       Inl e \<Rightarrow> StepError e
     | Inr receipt \<Rightarrow>
         (case pr_outcome receipt of
            PrefillReady _ _ written \<Rightarrow> StepWritten written
          | PrefillFinished reason \<Rightarrow> StepFinished (GenerationFinished reason)))"

definition decode_step :: "runtime_error + decode_receipt \<Rightarrow> backend_step" where
  "decode_step r =
    (case r of
       Inl e \<Rightarrow> StepError e
     | Inr receipt \<Rightarrow>
         (case dr_outcome receipt of
            DecodeReady _ written \<Rightarrow> StepWritten written
          | DecodeFinished reason \<Rightarrow> StepFinished (GenerationFinished reason)))"

definition sample_step ::
    "('src, 'ld, 'm, 'q) backend \<Rightarrow> (f32 \<Rightarrow> f32) \<Rightarrow> request_id \<Rightarrow> usize \<Rightarrow> generation_task
       \<Rightarrow> ('ld, 'm, 'q) runtime \<Rightarrow> bool \<times> generation_task \<times> ('ld, 'm, 'q) runtime" where
  "sample_step B expf request_id written task s =
    (if length (gt_logits task) < written
     then (case runtime_fail_request B request_id OpDecode
                  (runtime_failure_class BackendContractViolation) s of
             (r, s) \<Rightarrow> (False, task\<lparr>gt_phase := terminal_phase s request_id
               (GenerationFailed BackendContractViolation) (case r of Inl e \<Rightarrow> Some e | Inr _ \<Rightarrow> None)\<rparr>, s))
     else
    (case sampler_sample expf (gt_sampler task) (take written (gt_logits task)) (gt_history task)
            \<lparr>ws_indices = gt_sampling_indices task, ws_seen_tokens = gt_repetition_epochs task\<rparr> of
       (r, smp, logits, workspace) \<Rightarrow>
    let task = task\<lparr>gt_sampler := smp, gt_logits := splice logits (gt_logits task),
          gt_sampling_indices := ws_indices workspace, gt_repetition_epochs := ws_seen_tokens workspace\<rparr>
    in
    (case r of
       Inl e \<Rightarrow>
         (case runtime_fail_request B request_id OpSampling ClassSampling s of
            (cleanup, s) \<Rightarrow> (False, task\<lparr>gt_phase := terminal_phase s request_id
              (GenerationFailed (RuntimeSampling (sampling_failure_of e)))
              (case cleanup of Inl e \<Rightarrow> Some e | Inr _ \<Rightarrow> None)\<rparr>, s))
     | Inr smp \<Rightarrow>
         (True, task\<lparr>gt_history := gt_history task @ [sample_token smp],
            gt_generated := gt_generated task @ [sample_token smp],
            gt_pending_token := Some (sample_token smp)\<rparr>, s))))"

definition finish_step ::
    "('src, 'ld, 'm, 'q) backend \<Rightarrow> (f32 \<Rightarrow> f32) \<Rightarrow> request_id \<Rightarrow> backend_step \<Rightarrow> generation_task
       \<Rightarrow> ('ld, 'm, 'q) runtime \<Rightarrow> bool \<times> generation_task \<times> ('ld, 'm, 'q) runtime" where
  "finish_step B expf request_id step task s =
    (case step of
       StepWritten written \<Rightarrow> sample_step B expf request_id written task s
     | StepFinished outcome \<Rightarrow>
         (False, task\<lparr>gt_phase := terminal_phase s request_id outcome None\<rparr>, s)
     | StepError e \<Rightarrow>
         (False, task\<lparr>gt_phase := terminal_phase_from_runtime_error s request_id e\<rparr>, s))"

definition generation_step ::
    "('src, 'ld, 'm, 'q) backend \<Rightarrow> (f32 \<Rightarrow> f32) \<Rightarrow> request_id \<Rightarrow> generation_task
       \<Rightarrow> ('ld, 'm, 'q) runtime \<Rightarrow> bool \<times> generation_task \<times> ('ld, 'm, 'q) runtime" where
  "generation_step B expf request_id task s =
    (case gt_phase task of
       PhasePrefill \<Rightarrow>
         (case runtime_prefill B request_id (gt_prompt_tokens task) True (gt_logits task) s of
            (r, logits, s) \<Rightarrow>
              finish_step B expf request_id (prefill_step r) (task\<lparr>gt_logits := logits\<rparr>) s)
     | PhaseDecode \<Rightarrow>
         (if gt_generated task = []
          then (False, task\<lparr>gt_phase := terminal_phase s request_id
            (GenerationFailed BackendContractViolation) None\<rparr>, s)
          else (case runtime_decode B request_id (last (gt_generated task)) (gt_logits task) s of
             (r, logits, s) \<Rightarrow>
               finish_step B expf request_id (decode_step r) (task\<lparr>gt_logits := logits\<rparr>) s))
     | PhaseTerminal _ \<Rightarrow> (False, task, s))"

lemma saturating_step:
  fixes steps quantum :: u32
  assumes "steps < quantum"
  shows "unat quantum - unat (saturating_add steps 1) < unat quantum - unat steps"
proof -
  have "unat quantum < 2 ^ LENGTH(32)" by (rule unsigned_less)
  moreover have "unat steps < unat quantum" using assms by (simp add: word_less_nat_alt)
  ultimately have "unat (saturating_add steps 1) = unat steps + 1" by (simp add: unat_saturating_add)
  with \<open>unat steps < unat quantum\<close> show ?thesis by linarith
qed

function generation_loop ::
    "('src, 'ld, 'm, 'q) backend \<Rightarrow> (f32 \<Rightarrow> f32) \<Rightarrow> request_id \<Rightarrow> u32 \<Rightarrow> u32 \<Rightarrow> generation_task
       \<Rightarrow> ('ld, 'm, 'q) runtime \<Rightarrow> generation_task \<times> ('ld, 'm, 'q) runtime" where
  "generation_loop B expf request_id quantum steps task s =
    (if steps < quantum \<and> gt_pending_token task = None then
       (if gt_cancellation task \<noteq> None then (task, s)
        else (case generation_step B expf request_id task s of
                (False, task, s) \<Rightarrow> (task, s)
              | (True, task, s) \<Rightarrow>
                  generation_loop B expf request_id quantum (saturating_add steps 1) task s))
     else (task, s))"
  by pat_completeness auto
termination
  by (relation "measure (\<lambda>(B, expf, i, quantum, steps, task, s). unat quantum - unat steps)")
    (auto simp: saturating_step)

declare generation_loop.simps [simp del]

subsection \<open>One opportunity of a task\<close>

text \<open>
  \<open>advance_task\<close>: publish the end, take a cancellation, publish what is pending, or run the
  backend. Each part says whether it ended the call.
\<close>

definition advance_cancelled ::
    "('src, 'ld, 'm, 'q) backend \<Rightarrow> request_id \<Rightarrow> cancellation_reason \<Rightarrow> generation_task
       \<Rightarrow> ('ld, 'm, 'q) runtime \<Rightarrow> generation_task \<times> ('ld, 'm, 'q) runtime" where
  "advance_cancelled B request_id reason task s =
    (let (cleanup_error, s) =
       (if is_request_active s request_id
        then (case runtime_cancel_request B request_id reason s of
                (r, s) \<Rightarrow> (case r of Inl e \<Rightarrow> Some e | Inr _ \<Rightarrow> None, s))
        else (map_option (\<lambda>state. CleanupFailed (cr_failure state)) (request_cleanup_state s request_id), s))
     in (task\<lparr>gt_phase := terminal_phase s request_id (GenerationFinished (Cancelled reason))
           cleanup_error\<rparr>, s))"

definition publish_yield ::
    "request_id \<Rightarrow> generation_task \<Rightarrow> generation_output \<Rightarrow> bool \<times> generation_task \<times> generation_output" where
  "publish_yield request_id task out =
    (case gt_pending_yield task of
       None \<Rightarrow> (True, task, out)
     | Some reason \<Rightarrow>
         (case try_push_state request_id (OutYielded reason) out of
            (Inr _, out) \<Rightarrow> (True, task\<lparr>gt_pending_yield := None\<rparr>, out)
          | (Inl _, out) \<Rightarrow> (False, task, out)))"

definition publish_token ::
    "('src, 'ld, 'm, 'q) backend \<Rightarrow> request_id \<Rightarrow> token_id \<Rightarrow> generation_task
       \<Rightarrow> ('ld, 'm, 'q) runtime \<Rightarrow> generation_output
       \<Rightarrow> scheduler_advance \<times> generation_task \<times> ('ld, 'm, 'q) runtime \<times> generation_output" where
  "publish_token B request_id token task s out =
    (case try_push_token request_id token out of
       (Inl e, out) \<Rightarrow> (sched_idle, task\<lparr>gt_pending_yield := Some (output_yield e)\<rparr>, s, out)
     | (Inr _, out) \<Rightarrow>
         let task = task\<lparr>gt_pending_token := None\<rparr> in
         (case finish_after_token task token of
            None \<Rightarrow> (sched_progressed, task\<lparr>gt_phase := PhaseDecode\<rparr>, s, out)
          | Some reason \<Rightarrow>
              (case runtime_complete_request B request_id reason s of
                 (r, s) \<Rightarrow> (sched_progressed, task\<lparr>gt_phase := terminal_phase s request_id
                   (GenerationFinished reason) (case r of Inl e \<Rightarrow> Some e | Inr _ \<Rightarrow> None)\<rparr>, s, out))))"

definition advance_task ::
    "('src, 'ld, 'm, 'q) backend \<Rightarrow> (f32 \<Rightarrow> f32) \<Rightarrow> request_id \<Rightarrow> generation_task
       \<Rightarrow> ('ld, 'm, 'q) runtime \<Rightarrow> generation_output
       \<Rightarrow> scheduler_advance \<times> generation_task \<times> ('ld, 'm, 'q) runtime \<times> generation_output" where
  "advance_task B expf request_id task s out =
    (case gt_phase task of
       PhaseTerminal t \<Rightarrow>
         (case publish_terminal s request_id t out of
            (advance, t, out) \<Rightarrow> (advance, task\<lparr>gt_phase := PhaseTerminal t\<rparr>, s, out))
     | _ \<Rightarrow>
    (case gt_cancellation task of
       Some reason \<Rightarrow>
         (case advance_cancelled B request_id reason (task\<lparr>gt_cancellation := None\<rparr>) s of
            (task, s) \<Rightarrow> (sched_progressed, task, s, out))
     | None \<Rightarrow>
    (case publish_yield request_id task out of
       (False, task, out) \<Rightarrow> (sched_idle, task, s, out)
     | (True, task, out) \<Rightarrow>
    (case gt_pending_token task of
       Some token \<Rightarrow> publish_token B request_id token task s out
     | None \<Rightarrow>
         (case generation_loop B expf request_id (gt_scheduler_quantum task) 0 task s of
            (task, s) \<Rightarrow> (sched_progressed, task, s, out))))))"

subsection \<open>The scheduler\<close>

definition next_request :: "generation_scheduler \<Rightarrow> request_id option" where
  "next_request sch =
    (case (case sch_cursor sch of
             None \<Rightarrow> None
           | Some cursor \<Rightarrow> find (\<lambda>request_id. cursor < request_id) (bt_keys (sch_requests sch))) of
       Some request_id \<Rightarrow> Some request_id
     | None \<Rightarrow> map_option fst (bt_first (sch_requests sch)))"

definition scheduler_advance_one ::
    "('src, 'ld, 'm, 'q) backend \<Rightarrow> (f32 \<Rightarrow> f32) \<Rightarrow> generation_scheduler
       \<Rightarrow> ('ld, 'm, 'q) runtime \<Rightarrow> generation_output
       \<Rightarrow> scheduler_advance \<times> generation_scheduler \<times> ('ld, 'm, 'q) runtime \<times> generation_output" where
  "scheduler_advance_one B expf sch s out =
    (case next_request sch of
       None \<Rightarrow> (sched_idle, sch, s, out)
     | Some request_id \<Rightarrow>
    let sch = sch\<lparr>sch_cursor := Some request_id\<rparr> in
    (case bt_get (sch_requests sch) request_id of
       None \<Rightarrow> (sched_idle, sch, s, out)
     | Some task \<Rightarrow>
    (case advance_task B expf request_id task s out of
       (advance, task, s, out) \<Rightarrow>
    let sch = sch\<lparr>sch_requests := bt_insert request_id task (sch_requests sch)\<rparr> in
    if sa_completed advance = Some request_id
    then (case release_generation_workspace (gt_workspace_footprint task) s of
            (r, s) \<Rightarrow>
              (advance, sch\<lparr>sch_requests := bt_remove request_id (sch_requests sch)\<rparr>,
               (case r of Inl e \<Rightarrow> record_maintenance_error e s | Inr _ \<Rightarrow> s), out))
    else (advance, sch, s, out))))"

end
