(* ===== verification/Generation_Stream.thy ===== *)
theory Generation_Stream
  imports Generation_Scheduler
begin

section \<open>What a generation publishes\<close>

text \<open>
  The abstract specification of a generation's output is a small state machine over the items a
  consumer reads: tokens and yield records, then the outcome, then optionally the clean-up records
  of that outcome, then its release. Here every opportunity of a task is shown to follow it, and
  the tokens published are shown to be the tokens sampled, in order.
\<close>

type_synonym gen_item = "generation_output_state output_item"

datatype gen_stage =
    Streaming
  | Ending generation_outcome
  | Ended generation_outcome
  | CleaningUp generation_outcome
  | Retained generation_outcome
  | GenReleased generation_outcome

inductive gen_emits :: "gen_stage \<Rightarrow> gen_item \<Rightarrow> gen_stage \<Rightarrow> bool" where
  emit_yield: "gen_emits Streaming (ItemState (OutYielded reason)) Streaming"
| emit_token: "gen_emits Streaming (ItemTokens [token]) Streaming"
| emit_end: "gen_emits (Ending outcome) (ItemState (OutTerminal outcome)) (Ended outcome)"
| emit_cleanup: "gen_emits (Ended outcome)
    (ItemState (OutCleanupPending outcome (cr_failure retry) retry)) (CleaningUp outcome)"
| emit_retained: "cleanup_exhausted retry \<Longrightarrow> gen_emits (CleaningUp outcome)
    (ItemState (OutCleanupExhausted outcome (cr_failure retry) retry)) (Retained outcome)"
| emit_released: "stage \<in> {Ended outcome, CleaningUp outcome, Retained outcome}
    \<Longrightarrow> gen_emits stage (ItemState (OutReleased outcome)) (GenReleased outcome)"

text \<open>A trace also holds the silent step in which the outcome is decided.\<close>

inductive gen_trace :: "gen_stage \<Rightarrow> gen_item list \<Rightarrow> gen_stage \<Rightarrow> bool" where
  trace_nil: "gen_trace stage [] stage"
| trace_item: "gen_emits stage item stage1 \<Longrightarrow> gen_trace stage1 items stage2
    \<Longrightarrow> gen_trace stage (item # items) stage2"
| trace_decide: "gen_trace (Ending outcome) items stage \<Longrightarrow> gen_trace Streaming items stage"

lemma gen_trace_append: "gen_trace a xs b \<Longrightarrow> gen_trace b ys c \<Longrightarrow> gen_trace a (xs @ ys) c"
  by (induction rule: gen_trace.induct) (auto intro: gen_trace.intros)

lemma gen_trace_one: "gen_emits a i b \<Longrightarrow> gen_trace a [i] b"
  by (auto intro: gen_trace.intros)

lemma gen_trace_decided: "gen_trace Streaming [] (Ending outcome)"
  by (auto intro: gen_trace.intros)

fun item_tokens :: "gen_item \<Rightarrow> token_id list" where
  "item_tokens (ItemTokens ts) = ts"
| "item_tokens (ItemState _) = []"

definition tokens_of :: "gen_item list \<Rightarrow> token_id list" where
  "tokens_of items = concat (map item_tokens items)"

subsection \<open>Tasks\<close>

definition stage_of_publication :: "terminal_publication \<Rightarrow> gen_stage" where
  "stage_of_publication t =
    (if \<not> tp_terminal_published t then Ending (tp_outcome t)
     else if \<not> tp_cleanup_published t then Ended (tp_outcome t)
     else if \<not> tp_exhaustion_published t then CleaningUp (tp_outcome t)
     else Retained (tp_outcome t))"

fun stage_of_phase :: "generation_phase \<Rightarrow> gen_stage" where
  "stage_of_phase (PhaseTerminal t) = stage_of_publication t"
| "stage_of_phase _ = Streaming"

definition published_tokens :: "generation_task \<Rightarrow> token_id list" where
  "published_tokens task =
    (if gt_pending_token task = None then gt_generated task else butlast (gt_generated task))"

text \<open>Whether the last of the tokens sampled so far ends the generation.\<close>

definition ends_at :: "generation_task \<Rightarrow> token_id list \<Rightarrow> bool" where
  "ends_at task ts \<longleftrightarrow> finish_after_token (task\<lparr>gt_generated := ts\<rparr>) (last ts) \<noteq> None"

fun phase_wf :: "generation_phase \<Rightarrow> bool" where
  "phase_wf (PhaseTerminal t) \<longleftrightarrow> (tp_cleanup_published t \<longrightarrow> tp_terminal_published t)
     \<and> (tp_exhaustion_published t \<longrightarrow> tp_cleanup_published t)"
| "phase_wf _ \<longleftrightarrow> True"

definition streaming :: "generation_task \<Rightarrow> bool" where
  "streaming task \<longleftrightarrow> stage_of_phase (gt_phase task) = Streaming"

definition task_wf :: "generation_task \<Rightarrow> bool" where
  "task_wf task \<longleftrightarrow>
     gt_history task = gt_prompt_tokens task @ gt_generated task
     \<and> length (gt_generated task) \<le> gt_maximum_generated_tokens task
     \<and> gt_maximum_generated_tokens task \<noteq> 0
     \<and> (\<forall>token. gt_pending_token task = Some token \<longrightarrow>
          gt_generated task \<noteq> [] \<and> last (gt_generated task) = token)
     \<and> (\<forall>n. 0 < n \<longrightarrow> n < length (gt_generated task) \<longrightarrow> \<not> ends_at task (take n (gt_generated task)))
     \<and> (streaming task \<longrightarrow> gt_pending_token task = None \<longrightarrow> gt_generated task \<noteq> []
          \<longrightarrow> \<not> ends_at task (gt_generated task))
     \<and> phase_wf (gt_phase task)"

text \<open>What an opportunity does not change.\<close>

definition task_frame :: "generation_task \<Rightarrow> _" where
  "task_frame task = (gt_handle task, gt_workspace_footprint task, gt_prompt_tokens task,
     gt_maximum_generated_tokens task, gt_eos_tokens task, gt_stop_sequences task,
     gt_scheduler_quantum task)"

lemma ends_at_frame: "task_frame task' = task_frame task \<Longrightarrow> ends_at task' ts = ends_at task ts"
  by (simp add: task_frame_def ends_at_def finish_after_token_def)

lemma ends_at_limit: "\<not> ends_at task ts \<Longrightarrow> length ts < gt_maximum_generated_tokens task"
  by (auto simp: ends_at_def finish_after_token_def split: if_splits)

lemma publication_not_streaming [simp]: "stage_of_publication t \<noteq> Streaming"
  by (simp add: stage_of_publication_def)

lemma streaming_phases [simp]:
  "streaming (task\<lparr>gt_phase := PhaseDecode\<rparr>)" "\<not> streaming (task\<lparr>gt_phase := PhaseTerminal t\<rparr>)"
  by (simp_all add: streaming_def stage_of_publication_def)

subsection \<open>Pushing to the accumulator\<close>

lemma push_state_law:
  assumes "token_output_inv out" and "try_push_state request payload out = (r, out')"
  shows "token_output_inv out'" "token_pending out' = token_pending out
    @ (if is_ok r then [(request, Some (ItemState payload))] else [])"
  using token_output_step_law [OF assms(1), of "PushState request payload" "TokenPushed r" out'] assms(2)
  by (auto simp: is_ok_def split: sum.splits)

lemma push_token_law:
  assumes "token_output_inv out" and "try_push_token request token out = (r, out')"
  shows "token_output_inv out'" "token_pending out' = token_pending out
    @ (if is_ok r then [(request, Some (ItemTokens [token]))] else [])"
  using token_output_step_law [OF assms(1), of "PushTokens request [token]" "TokenPushed r" out'] assms(2)
  by (auto simp: is_ok_def try_push_token_def split: sum.splits)

text \<open>The items a call adds for a request.\<close>

definition adds :: "request_id \<Rightarrow> gen_item list \<Rightarrow> generation_output \<Rightarrow> generation_output \<Rightarrow> bool" where
  "adds request_id items out out' \<longleftrightarrow> token_output_inv out'
     \<and> token_pending out' = token_pending out @ map (\<lambda>item. (request_id, Some item)) items"

lemma adds_none: "token_output_inv out \<Longrightarrow> adds request_id [] out out"
  by (simp add: adds_def)

lemma adds_trans:
  "adds request_id xs out out1 \<Longrightarrow> adds request_id ys out1 out2 \<Longrightarrow> adds request_id (xs @ ys) out out2"
  by (simp add: adds_def)

subsection \<open>What one opportunity does to a task\<close>

definition task_moves :: "generation_task \<Rightarrow> gen_item list \<Rightarrow> gen_stage \<Rightarrow> generation_task \<Rightarrow> bool" where
  "task_moves task items stage task' \<longleftrightarrow>
     gen_trace (stage_of_phase (gt_phase task)) items stage
     \<and> published_tokens task' = published_tokens task @ tokens_of items
     \<and> task_frame task' = task_frame task \<and> task_wf task'"

lemma task_moves_refl: "task_wf task \<Longrightarrow> task_moves task [] (stage_of_phase (gt_phase task)) task"
  by (simp add: task_moves_def tokens_of_def trace_nil)

lemma task_moves_trans:
  "task_moves task xs (stage_of_phase (gt_phase task1)) task1 \<Longrightarrow> task_moves task1 ys stage task2
     \<Longrightarrow> task_moves task (xs @ ys) stage task2"
  by (auto simp: task_moves_def tokens_of_def intro: gen_trace_append)

text \<open>Fields the specification does not speak of.\<close>

lemma task_moves_scratch:
  "task_moves (task\<lparr>gt_logits := l\<rparr>) items stage task' \<longleftrightarrow> task_moves task items stage task'"
  "task_moves (task\<lparr>gt_sampler := smp\<rparr>) items stage task' \<longleftrightarrow> task_moves task items stage task'"
  "task_moves (task\<lparr>gt_sampling_indices := is\<rparr>) items stage task' \<longleftrightarrow> task_moves task items stage task'"
  "task_moves (task\<lparr>gt_repetition_epochs := es\<rparr>) items stage task' \<longleftrightarrow> task_moves task items stage task'"
  "task_moves (task\<lparr>gt_cancellation := c\<rparr>) items stage task' \<longleftrightarrow> task_moves task items stage task'"
  by (simp_all add: task_moves_def published_tokens_def task_frame_def)

lemma finish_scratch [simp]:
  "finish_after_token (task\<lparr>gt_logits := l\<rparr>) = finish_after_token task"
  "finish_after_token (task\<lparr>gt_sampler := smp\<rparr>) = finish_after_token task"
  "finish_after_token (task\<lparr>gt_sampling_indices := is\<rparr>) = finish_after_token task"
  "finish_after_token (task\<lparr>gt_repetition_epochs := es\<rparr>) = finish_after_token task"
  "finish_after_token (task\<lparr>gt_cancellation := c\<rparr>) = finish_after_token task"
  "finish_after_token (task\<lparr>gt_pending_yield := y\<rparr>) = finish_after_token task"
  "finish_after_token (task\<lparr>gt_pending_token := t\<rparr>) = finish_after_token task"
  "finish_after_token (task\<lparr>gt_phase := ph\<rparr>) = finish_after_token task"
  "finish_after_token (task\<lparr>gt_history := h\<rparr>) = finish_after_token task"
  by (simp_all add: finish_after_token_def fun_eq_iff)

lemma ends_at_scratch [simp]:
  "ends_at (task\<lparr>gt_logits := l\<rparr>) = ends_at task"
  "ends_at (task\<lparr>gt_sampler := smp\<rparr>) = ends_at task"
  "ends_at (task\<lparr>gt_sampling_indices := is\<rparr>) = ends_at task"
  "ends_at (task\<lparr>gt_repetition_epochs := es\<rparr>) = ends_at task"
  "ends_at (task\<lparr>gt_cancellation := c\<rparr>) = ends_at task"
  "ends_at (task\<lparr>gt_pending_yield := y\<rparr>) = ends_at task"
  "ends_at (task\<lparr>gt_pending_token := t\<rparr>) = ends_at task"
  "ends_at (task\<lparr>gt_phase := ph\<rparr>) = ends_at task"
  "ends_at (task\<lparr>gt_history := h\<rparr>) = ends_at task"
  "ends_at (task\<lparr>gt_generated := g\<rparr>) = ends_at task"
  by (simp_all add: ends_at_def fun_eq_iff finish_after_token_def)

lemma task_wf_scratch:
  "task_wf (task\<lparr>gt_logits := l\<rparr>) \<longleftrightarrow> task_wf task"
  "task_wf (task\<lparr>gt_sampler := smp\<rparr>) \<longleftrightarrow> task_wf task"
  "task_wf (task\<lparr>gt_sampling_indices := is\<rparr>) \<longleftrightarrow> task_wf task"
  "task_wf (task\<lparr>gt_repetition_epochs := es\<rparr>) \<longleftrightarrow> task_wf task"
  "task_wf (task\<lparr>gt_cancellation := c\<rparr>) \<longleftrightarrow> task_wf task"
  "task_wf (task\<lparr>gt_pending_yield := y\<rparr>) \<longleftrightarrow> task_wf task"
  by (simp_all add: task_wf_def streaming_def)

subsection \<open>The end of a generation\<close>

definition new_end :: "generation_phase \<Rightarrow> bool" where
  "new_end ph \<longleftrightarrow> (\<exists>t. ph = PhaseTerminal t \<and> \<not> tp_terminal_published t
     \<and> \<not> tp_cleanup_published t \<and> \<not> tp_exhaustion_published t)"

lemma terminal_phase_new: "new_end (terminal_phase s request_id outcome e)"
  unfolding terminal_phase_def new_end_def
  by (auto simp: Let_def split: option.splits runtime_error.splits)

lemma error_phase_new: "new_end (terminal_phase_from_runtime_error s request_id e)"
  by (simp add: terminal_phase_from_runtime_error_def new_end_def)

lemma task_moves_end:
  assumes "streaming task" and "task_wf task" and "new_end ph"
  shows "task_moves task [] (stage_of_phase ph) (task\<lparr>gt_phase := ph\<rparr>)"
proof -
  from \<open>new_end ph\<close> obtain t where t: "ph = PhaseTerminal t" "\<not> tp_terminal_published t"
    "\<not> tp_cleanup_published t" "\<not> tp_exhaustion_published t" by (auto simp: new_end_def)
  then have "stage_of_phase ph = Ending (tp_outcome t)" by (simp add: stage_of_publication_def)
  with assms(1,2) t show ?thesis
    by (simp add: task_moves_def streaming_def gen_trace_decided published_tokens_def tokens_of_def
        task_frame_def task_wf_def stage_of_publication_def)
qed

lemma advance_cancelled_moves:
  assumes "advance_cancelled B request_id reason task s = (task', s')" and "streaming task" and "task_wf task"
  shows "task_moves task [] (stage_of_phase (gt_phase task')) task'"
  using assms(1) task_moves_end [OF assms(2,3) terminal_phase_new]
  by (auto simp: advance_cancelled_def Let_def split: prod.splits if_splits)

subsection \<open>Publishing\<close>

definition released_stage :: "scheduler_advance \<Rightarrow> generation_task \<Rightarrow> gen_stage" where
  "released_stage adv task =
    (case (sa_completed adv, gt_phase task) of
       (Some _, PhaseTerminal t) \<Rightarrow> GenReleased (tp_outcome t)
     | _ \<Rightarrow> stage_of_phase (gt_phase task))"

lemma released_stage_none [simp]: "sa_completed adv = None \<Longrightarrow> released_stage adv task = stage_of_phase (gt_phase task)"
  by (simp add: released_stage_def)

lemma advance_values [simp]:
  "sa_completed sched_idle = None" "sa_completed sched_progressed = None"
  "sa_progressed sched_progressed" "\<not> sa_progressed sched_idle"
  by (simp_all add: sched_idle_def sched_progressed_def)

text \<open>The four pushes of \<open>publish_terminal\<close> have one shape: a refused push changes nothing.\<close>

lemma push_cases:
  assumes "token_output_inv out"
  obtains (refused) e where "try_push_state request payload out = (Inl e, out)"
  | (taken) out' where "try_push_state request payload out = (Inr (), out')"
      "adds request [ItemState payload] out out'"
proof (cases "try_push_state request payload out")
  case (Pair r out')
  show ?thesis
  proof (cases r)
    case (Inl e)
    with Pair have "out' = out" by (auto simp: try_push_state_def split: sum.splits)
    with Pair Inl show ?thesis by (simp add: refused)
  next
    case (Inr u)
    with push_state_law [OF assms Pair] Pair show ?thesis by (auto simp: adds_def is_ok_def intro: taken)
  qed
qed

lemma push_token_cases:
  assumes "token_output_inv out"
  obtains (refused) e where "try_push_token request token out = (Inl e, out)"
  | (taken) out' where "try_push_token request token out = (Inr (), out')"
      "adds request [ItemTokens [token]] out out'"
proof (cases "try_push_token request token out")
  case (Pair r out')
  show ?thesis
  proof (cases r)
    case (Inl e)
    with Pair have "out' = out"
      by (auto simp: try_push_token_def try_push_tokens_def Let_def split: sum.splits if_splits)
    with Pair Inl show ?thesis by (simp add: refused)
  next
    case (Inr u)
    with push_token_law [OF assms Pair] Pair show ?thesis by (auto simp: adds_def is_ok_def intro: taken)
  qed
qed

lemma publish_terminal_law:
  assumes inv: "token_output_inv out" and wf: "phase_wf (PhaseTerminal t)"
    and run: "publish_terminal s request_id t out = (adv, t', out')"
  shows "\<exists>items. adds request_id items out out' \<and> tokens_of items = [] \<and> phase_wf (PhaseTerminal t')
    \<and> gen_trace (stage_of_publication t) items
        (if sa_completed adv = None then stage_of_publication t' else GenReleased (tp_outcome t'))
    \<and> sa_completed adv \<in> {None, Some request_id}"
proof -
  have stay: ?thesis if "out' = out" "t' = t" "adv = sched_idle"
    using that inv wf by (auto simp: tokens_of_def intro!: exI [of _ "[]"] adds_none trace_nil)
  have one: ?thesis if "adds request_id [ItemState payload] out out'" "adv = sched_progressed"
    "gen_emits (stage_of_publication t) (ItemState payload) (stage_of_publication t')"
    "phase_wf (PhaseTerminal t')" for payload
    using that by (auto simp: tokens_of_def intro!: exI [of _ "[ItemState payload]"] gen_trace_one)
  have release: ?thesis if "adds request_id [ItemState (OutReleased (tp_outcome t))] out out'"
    "adv = \<lparr>sa_progressed = True, sa_completed = Some request_id\<rparr>" "t' = t" "tp_terminal_published t"
    using that wf by (auto simp: tokens_of_def stage_of_publication_def
        intro!: exI [of _ "[ItemState (OutReleased (tp_outcome t))]"] gen_trace_one emit_released)
  define payload where "payload =
    (if \<not> tp_terminal_published t then OutTerminal (tp_outcome t)
     else case tp_initial_cleanup t of None \<Rightarrow> OutReleased (tp_outcome t)
     | Some initial \<Rightarrow>
        if \<not> tp_cleanup_published t
        then (let retry = (case request_cleanup_state s request_id of None \<Rightarrow> initial | Some state \<Rightarrow> state)
              in OutCleanupPending (tp_outcome t) (cr_failure retry) retry)
        else (case request_cleanup_state s request_id of None \<Rightarrow> OutReleased (tp_outcome t)
          | Some retry \<Rightarrow> OutCleanupExhausted (tp_outcome t) (cr_failure retry) retry))"
  consider (refused) e where "try_push_state request_id payload out = (Inl e, out)"
    | (taken) out1 where "try_push_state request_id payload out = (Inr (), out1)"
        "adds request_id [ItemState payload] out out1"
    using push_cases [OF inv] by metis
  then show ?thesis
  proof cases
    case (refused e)
    with run show ?thesis
      by (intro stay) (auto simp: publish_terminal_def payload_def Let_def split: if_splits option.splits)
  next
    case (taken out1)
    show ?thesis
    proof (cases "tp_terminal_published t")
      case False
      with run taken wf show ?thesis
        by (intro one [of payload]) (auto simp: publish_terminal_def payload_def stage_of_publication_def
            intro: gen_emits.intros)
    next
      case published: True
      show ?thesis
      proof (cases "tp_initial_cleanup t")
        case None
        with published run taken(1) have "t' = t" "out' = out1"
          "adv = \<lparr>sa_progressed = True, sa_completed = Some request_id\<rparr>"
          by (auto simp: publish_terminal_def payload_def)
        with release published None taken(2) show ?thesis by (simp add: payload_def)
      next
        case initial: (Some initial)
        show ?thesis
        proof (cases "tp_cleanup_published t")
          case False
          with published run taken wf initial show ?thesis
            by (intro one [of payload]) (auto simp: publish_terminal_def payload_def Let_def
                stage_of_publication_def intro: gen_emits.intros)
        next
          case cleanup: True
          show ?thesis
          proof (cases "request_cleanup_state s request_id")
            case None
            with cleanup initial published run taken(1) have "t' = t" "out' = out1"
              "adv = \<lparr>sa_progressed = True, sa_completed = Some request_id\<rparr>"
              by (auto simp: publish_terminal_def payload_def)
            with release published cleanup initial None taken(2) show ?thesis by (simp add: payload_def)
          next
            case (Some retry)
            show ?thesis
            proof (cases "cleanup_exhausted retry \<and> \<not> tp_exhaustion_published t")
              case True
              with Some cleanup initial published run taken wf show ?thesis
                by (intro one [of payload]) (auto simp: publish_terminal_def payload_def Let_def
                    stage_of_publication_def intro: gen_emits.intros)
            next
              case False
              with Some cleanup initial published run show ?thesis
                by (intro stay) (auto simp: publish_terminal_def Let_def split: if_splits)
            qed
          qed
        qed
      qed
    qed
  qed
qed

lemma publish_yield_law:
  assumes inv: "token_output_inv out" and "streaming task" and "task_wf task"
    and run: "publish_yield request_id task out = (go, task', out')"
  shows "\<exists>items. adds request_id items out out' \<and> task_moves task items (stage_of_phase (gt_phase task')) task'
    \<and> gt_phase task' = gt_phase task"
proof (cases "gt_pending_yield task")
  case None
  with run assms show ?thesis
    by (auto simp: publish_yield_def intro!: exI [of _ "[]"] adds_none task_moves_refl)
next
  case (Some reason)
  consider (refused) e where "try_push_state request_id (OutYielded reason) out = (Inl e, out)"
    | (taken) out1 where "try_push_state request_id (OutYielded reason) out = (Inr (), out1)"
        "adds request_id [ItemState (OutYielded reason)] out out1"
    using push_cases [OF inv] by metis
  then show ?thesis
  proof cases
    case refused
    with run Some assms show ?thesis
      by (auto simp: publish_yield_def intro!: exI [of _ "[]"] adds_none task_moves_refl)
  next
    case taken
    moreover from this(1) run Some have "task' = task\<lparr>gt_pending_yield := None\<rparr>" "out' = out1"
      by (simp_all add: publish_yield_def)
    moreover have "task_moves task [ItemState (OutYielded reason)] Streaming (task\<lparr>gt_pending_yield := None\<rparr>)"
      using assms(2,3) by (simp add: task_moves_def streaming_def gen_trace_one emit_yield tokens_of_def
          published_tokens_def task_frame_def task_wf_scratch)
    ultimately show ?thesis using \<open>streaming task\<close>
      by (intro exI [of _ "[ItemState (OutYielded reason)]"]) (simp add: streaming_def)
  qed
qed

lemma task_moves_token:
  assumes "streaming task" and "task_wf task" and "gt_pending_token task = Some token"
    and ph: "ph = PhaseDecode \<and> finish_after_token task token = None \<or> new_end ph"
  shows "task_moves task [ItemTokens [token]] (stage_of_phase ph)
    (task\<lparr>gt_pending_token := None, gt_phase := ph\<rparr>)"
proof -
  have "gt_generated task \<noteq> []" "last (gt_generated task) = token"
    using assms(2,3) by (auto simp: task_wf_def)
  then have generated: "butlast (gt_generated task) @ [token] = gt_generated task"
    by (metis append_butlast_last_id)
  have "gen_trace Streaming [] (stage_of_phase ph)"
    using ph by (auto simp: new_end_def stage_of_publication_def intro: trace_nil gen_trace_decided)
  then have "gen_trace Streaming [ItemTokens [token]] (stage_of_phase ph)"
    by (auto intro: trace_item emit_token)
  moreover have "ends_at task (gt_generated task) \<longleftrightarrow> finish_after_token task token \<noteq> None"
    using \<open>last (gt_generated task) = token\<close> by (simp add: ends_at_def)
  ultimately show ?thesis
    using assms generated by (auto simp: task_moves_def streaming_def published_tokens_def tokens_of_def
        task_frame_def task_wf_def new_end_def stage_of_publication_def)
qed

lemma publish_token_law:
  assumes inv: "token_output_inv out" and task: "streaming task" "task_wf task" "gt_pending_token task = Some token"
    and run: "publish_token B request_id token task s out = (adv, task', s', out')"
  shows "\<exists>items. adds request_id items out out' \<and> task_moves task items (stage_of_phase (gt_phase task')) task'
    \<and> sa_completed adv = None"
proof -
  consider (refused) e where "try_push_token request_id token out = (Inl e, out)"
    | (taken) out1 where "try_push_token request_id token out = (Inr (), out1)"
        "adds request_id [ItemTokens [token]] out out1"
    using push_token_cases [OF inv] by metis
  then show ?thesis
  proof cases
    case refused
    with run have "task' = task\<lparr>gt_pending_yield := Some (output_yield e)\<rparr>" "out' = out" "adv = sched_idle"
      by (simp_all add: publish_token_def)
    with inv task(2) show ?thesis
      by (auto simp: adds_none task_moves_def tokens_of_def published_tokens_def task_frame_def
          task_wf_scratch intro!: exI [of _ "[]"] trace_nil)
  next
    case taken
    have "\<exists>ph. task' = task\<lparr>gt_pending_token := None, gt_phase := ph\<rparr>
      \<and> (ph = PhaseDecode \<and> finish_after_token task token = None \<or> new_end ph)
      \<and> out' = out1 \<and> adv = sched_progressed"
    proof (cases "finish_after_token task token")
      case None
      with taken run show ?thesis by (intro exI [of _ PhaseDecode]) (auto simp: publish_token_def Let_def)
    next
      case (Some reason)
      obtain r s1 where "runtime_complete_request B request_id reason s = (r, s1)" by fastforce
      with Some taken run show ?thesis
        by (intro exI [of _ "terminal_phase s1 request_id (GenerationFinished reason)
            (case r of Inl e \<Rightarrow> Some e | Inr _ \<Rightarrow> None)"])
          (auto simp: publish_token_def Let_def terminal_phase_new)
    qed
    then obtain ph where "task' = task\<lparr>gt_pending_token := None, gt_phase := ph\<rparr>"
      "ph = PhaseDecode \<and> finish_after_token task token = None \<or> new_end ph"
      "out' = out1" "adv = sched_progressed" by blast
    with taken(2) task_moves_token [OF task, of ph] show ?thesis
      by (intro exI [of _ "[ItemTokens [token]]"]) simp
  qed
qed

subsection \<open>Sampling\<close>

lemma task_moves_sample:
  assumes "streaming task" and "task_wf task" and "gt_pending_token task = None"
    and "task_frame task1 = task_frame task" and "gt_history task1 = gt_history task"
    and "gt_generated task1 = gt_generated task" and "gt_phase task1 = gt_phase task"
  shows "task_moves task [] Streaming (task1\<lparr>gt_history := gt_history task @ [token],
    gt_generated := gt_generated task @ [token], gt_pending_token := Some token\<rparr>)"
proof -
  let ?task = "task1\<lparr>gt_history := gt_history task @ [token],
    gt_generated := gt_generated task @ [token], gt_pending_token := Some token\<rparr>"
  have frame: "task_frame ?task = task_frame task" using assms(4) by (simp add: task_frame_def)
  have room: "length (gt_generated task) < gt_maximum_generated_tokens task"
  proof (cases "gt_generated task = []")
    case True
    with assms(2) show ?thesis by (simp add: task_wf_def)
  next
    case False
    with assms(1-3) have "\<not> ends_at task (gt_generated task)" by (simp add: task_wf_def)
    then show ?thesis by (rule ends_at_limit)
  qed
  have earlier: "\<not> ends_at task (take n (gt_generated task @ [token]))"
    if "0 < n" "n < length (gt_generated task @ [token])" for n
  proof (cases "n = length (gt_generated task)")
    case True
    with that assms(1-3) show ?thesis by (auto simp: task_wf_def)
  next
    case False
    with that assms(2) show ?thesis by (auto simp: task_wf_def)
  qed
  have same: "gt_prompt_tokens task1 = gt_prompt_tokens task"
    "gt_maximum_generated_tokens task1 = gt_maximum_generated_tokens task"
    using assms(4) by (simp_all add: task_frame_def)
  have "task_wf ?task"
    using assms room earlier same ends_at_frame [OF frame] unfolding task_wf_def
    by (simp add: streaming_def)
  with frame assms show ?thesis
    by (simp add: task_moves_def streaming_def trace_nil published_tokens_def tokens_of_def)
qed

lemma task_moves_end_of:
  assumes "streaming task" and "task_wf task"
    and "task' = task1\<lparr>gt_phase := ph\<rparr>" and "new_end ph"
    and "task_frame task1 = task_frame task" and "gt_history task1 = gt_history task"
    and "gt_generated task1 = gt_generated task" and "gt_phase task1 = gt_phase task"
    and "gt_pending_token task1 = gt_pending_token task"
  shows "task_moves task [] (stage_of_phase (gt_phase task')) task'"
proof -
  have "streaming task1" using assms(1,8) by (simp add: streaming_def)
  moreover have "task_wf task1"
    using assms(1,2,6-9) assms(5) ends_at_frame [OF assms(5)] unfolding task_wf_def streaming_def
    by (simp add: task_frame_def)
  ultimately have "task_moves task1 [] (stage_of_phase ph) (task1\<lparr>gt_phase := ph\<rparr>)"
    using assms(4) by (rule task_moves_end)
  with assms(3,5-9) show ?thesis by (simp add: task_moves_def published_tokens_def)
qed

definition step_law :: "generation_task \<Rightarrow> bool \<Rightarrow> generation_task \<Rightarrow> bool" where
  "step_law task go task' \<longleftrightarrow> task_moves task [] (stage_of_phase (gt_phase task')) task'
     \<and> (if go then gt_phase task' = gt_phase task \<and> gt_pending_token task' \<noteq> None else new_end (gt_phase task'))
     \<and> gt_cancellation task' = gt_cancellation task"

lemma sample_step_law:
  assumes "streaming task" and "task_wf task" and "gt_pending_token task = None"
    and run: "sample_step B expf request_id written task s = (go, task', s')"
  shows "step_law task go task'"
proof (cases "length (gt_logits task) < written")
  case True
  obtain r s1 where "runtime_fail_request B request_id OpDecode
    (runtime_failure_class BackendContractViolation) s = (r, s1)" by fastforce
  with True run have "\<not> go" "task' = task\<lparr>gt_phase := terminal_phase s1 request_id
    (GenerationFailed BackendContractViolation) (case r of Inl e \<Rightarrow> Some e | Inr _ \<Rightarrow> None)\<rparr>"
    by (auto simp: sample_step_def)
  then show ?thesis
    using task_moves_end [OF assms(1,2) terminal_phase_new] by (simp add: step_law_def terminal_phase_new)
next
  case False
  obtain r smp logits ws where sampled: "sampler_sample expf (gt_sampler task) (take written (gt_logits task))
    (gt_history task) \<lparr>ws_indices = gt_sampling_indices task, ws_seen_tokens = gt_repetition_epochs task\<rparr>
    = (r, smp, logits, ws)" by (metis prod_cases4)
  let ?task = "task\<lparr>gt_sampler := smp, gt_logits := splice logits (gt_logits task),
    gt_sampling_indices := ws_indices ws, gt_repetition_epochs := ws_seen_tokens ws\<rparr>"
  have frame: "task_frame ?task = task_frame task" by (simp add: task_frame_def)
  show ?thesis
  proof (cases r)
    case (Inl e)
    obtain c s1 where "runtime_fail_request B request_id OpSampling ClassSampling s = (c, s1)" by fastforce
    with Inl False sampled run have go: "\<not> go" and "task' = ?task\<lparr>gt_phase := terminal_phase s1 request_id
      (GenerationFailed (RuntimeSampling (sampling_failure_of e))) (case c of Inl e \<Rightarrow> Some e | Inr _ \<Rightarrow> None)\<rparr>"
      by (auto simp: sample_step_def Let_def)
    from task_moves_end_of [OF assms(1,2) this(2) terminal_phase_new frame] this show ?thesis
      by (simp add: step_law_def terminal_phase_new)
  next
    case (Inr chosen)
    with False sampled run have "go" and task': "task' = ?task\<lparr>gt_history := gt_history task @ [sample_token chosen],
      gt_generated := gt_generated task @ [sample_token chosen], gt_pending_token := Some (sample_token chosen)\<rparr>"
      by (auto simp: sample_step_def Let_def)
    moreover have "task_moves task [] Streaming task'"
      unfolding task' by (rule task_moves_sample [OF assms(1-3) frame]) simp_all
    ultimately show ?thesis using assms(1) by (simp add: step_law_def streaming_def)
  qed
qed

lemma step_law_logits:
  "step_law (task\<lparr>gt_logits := l\<rparr>) go task' \<longleftrightarrow> step_law task go task'"
  by (simp add: step_law_def task_moves_scratch)

lemma finish_step_law:
  assumes "streaming task" and "task_wf task" and "gt_pending_token task = None"
    and run: "finish_step B expf request_id step task s = (go, task', s')"
  shows "step_law task go task'"
proof (cases step)
  case (StepWritten written)
  with run have "sample_step B expf request_id written task s = (go, task', s')"
    by (simp add: finish_step_def)
  with assms(1-3) show ?thesis by (rule sample_step_law)
next
  case (StepFinished outcome)
  with run have "\<not> go" "task' = task\<lparr>gt_phase := terminal_phase s request_id outcome None\<rparr>"
    by (auto simp: finish_step_def)
  with task_moves_end [OF assms(1,2) terminal_phase_new] show ?thesis
    by (simp add: step_law_def terminal_phase_new)
next
  case (StepError e)
  with run have "\<not> go" "task' = task\<lparr>gt_phase := terminal_phase_from_runtime_error s request_id e\<rparr>"
    by (auto simp: finish_step_def)
  with task_moves_end [OF assms(1,2) error_phase_new] show ?thesis
    by (simp add: step_law_def error_phase_new)
qed

lemma generation_step_law:
  assumes "streaming task" and "task_wf task" and "gt_pending_token task = None"
    and run: "generation_step B expf request_id task s = (go, task', s')"
  shows "step_law task go task'"
proof -
  have logits: "streaming (task\<lparr>gt_logits := l\<rparr>)" "task_wf (task\<lparr>gt_logits := l\<rparr>)"
    "gt_pending_token (task\<lparr>gt_logits := l\<rparr>) = None" for l
    using assms(1-3) by (simp_all add: streaming_def task_wf_scratch)
  show ?thesis
  proof (cases "gt_phase task")
    case PhasePrefill
    obtain r l s1 where "runtime_prefill B request_id (gt_prompt_tokens task) True (gt_logits task) s = (r, l, s1)"
      by (metis prod_cases3)
    with PhasePrefill run finish_step_law [OF logits] show ?thesis
      by (simp add: generation_step_def step_law_logits)
  next
    case PhaseDecode
    show ?thesis
    proof (cases "gt_generated task = []")
      case True
      with PhaseDecode run have "\<not> go" "task' = task\<lparr>gt_phase := terminal_phase s request_id
        (GenerationFailed BackendContractViolation) None\<rparr>" by (auto simp: generation_step_def)
      with task_moves_end [OF assms(1,2) terminal_phase_new] show ?thesis
        by (simp add: step_law_def terminal_phase_new)
    next
      case False
      obtain r l s1 where "runtime_decode B request_id (last (gt_generated task)) (gt_logits task) s = (r, l, s1)"
        by (metis prod_cases3)
      with False PhaseDecode run finish_step_law [OF logits] show ?thesis
        by (simp add: generation_step_def step_law_logits)
    qed
  next
    case (PhaseTerminal t)
    with assms(1) show ?thesis by (simp add: streaming_def stage_of_publication_def split: if_splits)
  qed
qed

text \<open>A step that goes on leaves a token to publish, so the loop runs the backend at most once.\<close>

lemma generation_loop_once:
  assumes "streaming task" and "task_wf task" and "gt_pending_token task = None"
  shows "generation_loop B expf request_id quantum 0 task s =
    (if quantum = 0 \<or> gt_cancellation task \<noteq> None then (task, s)
     else snd (generation_step B expf request_id task s))"
proof -
  obtain go task1 s1 where step: "generation_step B expf request_id task s = (go, task1, s1)"
    by (metis prod_cases3)
  note first = generation_loop.simps [of B expf request_id quantum 0 task s]
  show ?thesis
  proof (cases go)
    case True
    with generation_step_law [OF assms step] have "gt_pending_token task1 \<noteq> None"
      by (simp add: step_law_def)
    then have "generation_loop B expf request_id quantum (saturating_add 0 1) task1 s1 = (task1, s1)"
      unfolding generation_loop.simps [of B expf request_id quantum "saturating_add 0 1"] by auto
    with True step first assms(3) show ?thesis by (simp add: word_gt_0)
  next
    case False
    with step first assms(3) show ?thesis by (simp add: word_gt_0)
  qed
qed

lemma generation_loop_moves:
  assumes "streaming task" and "task_wf task" and "gt_pending_token task = None"
    and "generation_loop B expf request_id quantum 0 task s = (task', s')"
  shows "task_moves task [] (stage_of_phase (gt_phase task')) task'"
proof -
  obtain go task1 s1 where step: "generation_step B expf request_id task s = (go, task1, s1)"
    by (metis prod_cases3)
  with generation_step_law [OF assms(1-3) step] assms(4) task_moves_refl [OF assms(2)] show ?thesis
    by (auto simp: generation_loop_once [OF assms(1-3)] step_law_def split: if_splits)
qed

subsection \<open>Every opportunity of a task\<close>

lemma advance_task_law:
  assumes inv: "token_output_inv out" and wf: "task_wf task"
    and run: "advance_task B expf request_id task s out = (adv, task', s', out')"
  shows "\<exists>items. adds request_id items out out' \<and> task_moves task items (released_stage adv task') task'
    \<and> sa_completed adv \<in> {None, Some request_id}"
proof (cases "streaming task")
  case False
  then obtain t where t: "gt_phase task = PhaseTerminal t"
    by (cases "gt_phase task") (auto simp: streaming_def)
  obtain t' where publish: "publish_terminal s request_id t out = (adv, t', out')"
    and task': "task' = task\<lparr>gt_phase := PhaseTerminal t'\<rparr>"
    using run t by (auto simp: advance_task_def split: prod.splits)
  have "phase_wf (PhaseTerminal t)" using wf t by (simp add: task_wf_def)
  from publish_terminal_law [OF inv this publish] obtain items where
    "adds request_id items out out'" "tokens_of items = []" "phase_wf (PhaseTerminal t')"
    "gen_trace (stage_of_publication t) items
      (if sa_completed adv = None then stage_of_publication t' else GenReleased (tp_outcome t'))"
    "sa_completed adv \<in> {None, Some request_id}" by blast
  moreover from this wf False t task' have "task_wf task'"
    by (simp add: task_wf_def streaming_def)
  ultimately show ?thesis using t task'
    by (intro exI [of _ items]) (auto simp: task_moves_def released_stage_def published_tokens_def
        task_frame_def split: if_splits)
next
  case streaming: True
  have not_terminal: "gt_phase task \<noteq> PhaseTerminal t" for t
    using streaming by (auto simp: streaming_def stage_of_publication_def split: if_splits)
  show ?thesis
  proof (cases "gt_cancellation task")
    case (Some reason)
    let ?task = "task\<lparr>gt_cancellation := None\<rparr>"
    have "advance_cancelled B request_id reason ?task s = (task', s')" "adv = sched_progressed" "out' = out"
      using run Some not_terminal
      by (auto simp: advance_task_def split: prod.splits generation_phase.splits)
    with advance_cancelled_moves [OF this(1)] streaming wf inv show ?thesis
      by (intro exI [of _ "[]"]) (simp add: streaming_def task_wf_scratch task_moves_scratch adds_none)
  next
    case None
    obtain go task1 out1 where yield: "publish_yield request_id task out = (go, task1, out1)"
      by (metis prod_cases3)
    from publish_yield_law [OF inv streaming wf this] obtain xs where xs: "adds request_id xs out out1"
      "task_moves task xs (stage_of_phase (gt_phase task1)) task1" "gt_phase task1 = gt_phase task" by blast
    then have task1: "streaming task1" "task_wf task1" "token_output_inv out1"
      using streaming by (simp_all add: streaming_def task_moves_def adds_def)
    show ?thesis
    proof (cases go)
      case False
      with run None yield not_terminal have "task' = task1" "out' = out1" "adv = sched_idle"
        by (auto simp: advance_task_def split: generation_phase.splits)
      with xs show ?thesis by (intro exI [of _ xs]) simp
    next
      case go: True
      show ?thesis
      proof (cases "gt_pending_token task1")
        case (Some token)
        with go run None yield not_terminal
        have "publish_token B request_id token task1 s out1 = (adv, task', s', out')"
          by (auto simp: advance_task_def split: generation_phase.splits)
        from publish_token_law [OF task1(3,1,2) Some this] obtain ys where
          "adds request_id ys out1 out'" "task_moves task1 ys (stage_of_phase (gt_phase task')) task'"
          "sa_completed adv = None" by blast
        with xs show ?thesis
          by (intro exI [of _ "xs @ ys"]) (metis adds_trans task_moves_trans released_stage_none insertI1)
      next
        case pending: None
        with go run None yield not_terminal
        have "generation_loop B expf request_id (gt_scheduler_quantum task1) 0 task1 s = (task', s')"
          "adv = sched_progressed" "out' = out1"
          by (auto simp: advance_task_def split: generation_phase.splits prod.splits)
        with task_moves_trans [OF xs(2) generation_loop_moves [OF task1(1,2) pending this(1)]] xs(1)
        show ?thesis by (intro exI [of _ xs]) simp
      qed
    qed
  qed
qed

end
