(* ===== verification/Worker.thy ===== *)
theory Worker
  imports Generation_Scheduler Registry_Loops
begin

section \<open>The runtime worker\<close>

text \<open>
  \<open>crates/engines/inference-runtime/src/worker.rs\<close> with the commands and events of \<open>command.rs\<close>:
  the loop that owns the registry and the generation scheduler, takes commands from one bounded
  channel and answers on another. The channels, the clock and the consumer of the token output
  belong to other threads: what they answer during one turn of the loop is the turn's input.
  \<open>None\<close> is a turn that does not return.
\<close>

subsection \<open>Commands and events\<close>

datatype command_ticket = CommandTicket u64

datatype 'src runtime_command =
    CmdLoadModel command_ticket model_id 'src device_id device_kind
  | CmdStartRequest command_ticket model_handle request_id sequence_id sequence_configuration
  | CmdGenerate command_ticket model_handle generation_request
  | CmdPrefill command_ticket request_id "token_id list" bool "f32 list"
  | CmdDecode command_ticket request_id token_id "f32 list"
  | CmdCompleteRequest command_ticket request_id finish_reason
  | CmdCancelRequest command_ticket request_id cancellation_reason
  | CmdUnloadModel command_ticket model_handle unload_policy
  | CmdSnapshot command_ticket
  | CmdShutdown command_ticket

fun command_ticket_of :: "'src runtime_command \<Rightarrow> command_ticket" where
  "command_ticket_of (CmdLoadModel ticket _ _ _ _) = ticket"
| "command_ticket_of (CmdStartRequest ticket _ _ _ _) = ticket"
| "command_ticket_of (CmdGenerate ticket _ _) = ticket"
| "command_ticket_of (CmdPrefill ticket _ _ _ _) = ticket"
| "command_ticket_of (CmdDecode ticket _ _ _) = ticket"
| "command_ticket_of (CmdCompleteRequest ticket _ _) = ticket"
| "command_ticket_of (CmdCancelRequest ticket _ _) = ticket"
| "command_ticket_of (CmdUnloadModel ticket _ _) = ticket"
| "command_ticket_of (CmdSnapshot ticket) = ticket"
| "command_ticket_of (CmdShutdown ticket) = ticket"

datatype runtime_event =
    EvModelLoaded command_ticket "runtime_error + load_receipt"
  | EvRequestStarted command_ticket "runtime_error + request_start_receipt"
  | EvGenerationAdmitted command_ticket "runtime_error + generation_admission"
  | EvGenerationCancellationRequested command_ticket request_id "runtime_error + unit"
  | EvPrefillCompleted command_ticket request_id "runtime_error + prefill_receipt" "f32 list"
  | EvDecodeCompleted command_ticket request_id "runtime_error + decode_receipt" "f32 list"
  | EvRequestFinished command_ticket request_id "runtime_error + finish_reason"
  | EvModelUnload command_ticket "runtime_error + unload_receipt"
  | EvSnapshot command_ticket runtime_snapshot "model_snapshot list"
  | EvShutdown command_ticket "runtime_error + shutdown_receipt"

fun event_ticket_of :: "runtime_event \<Rightarrow> command_ticket" where
  "event_ticket_of (EvModelLoaded ticket _) = ticket"
| "event_ticket_of (EvRequestStarted ticket _) = ticket"
| "event_ticket_of (EvGenerationAdmitted ticket _) = ticket"
| "event_ticket_of (EvGenerationCancellationRequested ticket _ _) = ticket"
| "event_ticket_of (EvPrefillCompleted ticket _ _ _) = ticket"
| "event_ticket_of (EvDecodeCompleted ticket _ _ _) = ticket"
| "event_ticket_of (EvRequestFinished ticket _ _) = ticket"
| "event_ticket_of (EvModelUnload ticket _) = ticket"
| "event_ticket_of (EvSnapshot ticket _ _) = ticket"
| "event_ticket_of (EvShutdown ticket _) = ticket"

subsection \<open>The worker's state\<close>

record pending_unload =
  pu_handle :: model_handle
  pu_ticket :: command_ticket
  pu_failure_reported :: bool
  pu_cancelled_requests :: u32

datatype worker_stop = DropRuntime | PreserveRuntime

record ('ld, 'm, 'q) worker =
  wk_runtime :: "('ld, 'm, 'q) runtime"
  wk_scheduler :: generation_scheduler
  wk_pending_event :: "runtime_event option"
  wk_queued_events :: "runtime_event list"
  wk_stop :: "worker_stop option"
  wk_pending_unloads :: "(model_id, pending_unload) btree_map"
  wk_maintenance_events :: "(model_id, runtime_event) btree_map"

definition worker_new :: "'ld \<Rightarrow> runtime_limits \<Rightarrow> ('ld, 'm, 'q) worker" where
  "worker_new loader limits =
    \<lparr>wk_runtime = runtime_new loader limits, wk_scheduler = scheduler_new, wk_pending_event = None,
     wk_queued_events = [], wk_stop = None, wk_pending_unloads = bt_empty,
     wk_maintenance_events = bt_empty\<rparr>"

text \<open>How a worker ends: with its registry dropped or, \<open>True\<close>, forgotten without a drop.\<close>

datatype ('ld, 'm, 'q) worker_end = WorkerEnd bool "('ld, 'm, 'q) runtime"

subsection \<open>Dispatch\<close>

definition dispatch_unload ::
    "('src, 'ld, 'm, 'q) backend \<Rightarrow> command_ticket \<Rightarrow> model_handle \<Rightarrow> unload_policy
       \<Rightarrow> monotonic_millis \<Rightarrow> generation_scheduler \<Rightarrow> ('ld, 'm, 'q) runtime
       \<Rightarrow> (runtime_event \<times> generation_scheduler \<times> ('ld, 'm, 'q) runtime) option" where
  "dispatch_unload B ticket handle policy now sch s =
    (let sch = (if policy = CancelActiveRequests
                then request_model_cancellation (mh_id handle) ModelUnload sch else sch)
     in map_option (\<lambda>(r, s). (EvModelUnload ticket r, sch, s)) (runtime_unload_model B handle policy now s))"

definition dispatch_shutdown ::
    "('src, 'ld, 'm, 'q) backend \<Rightarrow> command_ticket \<Rightarrow> generation_scheduler \<Rightarrow> ('ld, 'm, 'q) runtime
       \<Rightarrow> (runtime_event \<times> worker_stop \<times> generation_scheduler \<times> ('ld, 'm, 'q) runtime) option" where
  "dispatch_shutdown B ticket sch s =
    map_option (\<lambda>(r, s).
      case scheduler_discard_all sch s of
        (discarded, sch, s) \<Rightarrow>
          let (r, s) = (case discarded of
                Inr _ \<Rightarrow> (r, s)
              | Inl e \<Rightarrow> (case r of Inr _ \<Rightarrow> (Inl e, s) | Inl _ \<Rightarrow> (r, record_maintenance_error e s)));
              stop = (if \<not> is_ok r \<and> owns_backend_resources s then PreserveRuntime else DropRuntime)
          in (EvShutdown ticket r, stop, sch, s))
      (runtime_shutdown B s)"

fun dispatch ::
    "('src, 'ld, 'm, 'q) backend \<Rightarrow> (capacity_resource \<Rightarrow> usize \<Rightarrow> bool) \<Rightarrow> generation_output
       \<Rightarrow> 'src runtime_command \<Rightarrow> monotonic_millis \<Rightarrow> generation_scheduler \<Rightarrow> ('ld, 'm, 'q) runtime
       \<Rightarrow> ((runtime_event \<times> worker_stop option) \<times> generation_scheduler \<times> ('ld, 'm, 'q) runtime) option" where
  "dispatch B allocates out (CmdLoadModel ticket model_id source device kind) now sch s =
    (case runtime_load_model B model_id source device kind s of
       (r, s) \<Rightarrow> Some ((EvModelLoaded ticket r, None), sch, s))"
| "dispatch B allocates out (CmdStartRequest ticket handle request_id sequence_id configuration) now sch s =
    (case (if bt_contains (sch_requests sch) request_id then (Inl (RequestAlreadyActive request_id), s)
           else runtime_start_request B handle request_id sequence_id configuration s) of
       (r, s) \<Rightarrow> Some ((EvRequestStarted ticket r, None), sch, s))"
| "dispatch B allocates out (CmdGenerate ticket handle request) now sch s =
    (case scheduler_admit B allocates out handle request sch s of
       (r, sch, s) \<Rightarrow> Some ((EvGenerationAdmitted ticket r, None), sch, s))"
| "dispatch B allocates out (CmdPrefill ticket request_id tokens emit_logits logits) now sch s =
    (case runtime_prefill B request_id tokens emit_logits logits s of
       (r, logits, s) \<Rightarrow> Some ((EvPrefillCompleted ticket request_id r logits, None), sch, s))"
| "dispatch B allocates out (CmdDecode ticket request_id token logits) now sch s =
    (case runtime_decode B request_id token logits s of
       (r, logits, s) \<Rightarrow> Some ((EvDecodeCompleted ticket request_id r logits, None), sch, s))"
| "dispatch B allocates out (CmdCompleteRequest ticket request_id reason) now sch s =
    (case runtime_complete_request B request_id reason s of
       (r, s) \<Rightarrow> Some ((EvRequestFinished ticket request_id r, None), sch, s))"
| "dispatch B allocates out (CmdCancelRequest ticket request_id reason) now sch s =
    (if bt_contains (sch_requests sch) request_id
     then (case request_cancellation request_id reason sch of
             (r, sch) \<Rightarrow> Some ((EvGenerationCancellationRequested ticket request_id r, None), sch, s))
     else (case runtime_cancel_request B request_id reason s of
             (r, s) \<Rightarrow> Some ((EvRequestFinished ticket request_id r, None), sch, s)))"
| "dispatch B allocates out (CmdUnloadModel ticket handle policy) now sch s =
    map_option (\<lambda>(event, sch, s). ((event, None), sch, s)) (dispatch_unload B ticket handle policy now sch s)"
| "dispatch B allocates out (CmdSnapshot ticket) now sch s =
    Some ((EvSnapshot ticket (runtime_snapshot_of s) (model_snapshots s), None), sch, s)"
| "dispatch B allocates out (CmdShutdown ticket) now sch s =
    map_option (\<lambda>(event, stop, sch, s). ((event, Some stop), sch, s)) (dispatch_shutdown B ticket sch s)"

subsection \<open>Unloads that take more than one turn\<close>

fun unload_command_identity :: "'src runtime_command \<Rightarrow> (model_handle \<times> command_ticket) option" where
  "unload_command_identity (CmdUnloadModel ticket handle policy) = Some (handle, ticket)"
| "unload_command_identity _ = None"

fun unloading_state :: "lifecycle_state \<Rightarrow> bool" where
  "unloading_state (Draining _ _) = True"
| "unloading_state (Cancelling _ _) = True"
| "unloading_state Unloading = True"
| "unloading_state _ = False"

definition model_lifecycle_state :: "('ld, 'm, 'q) runtime \<Rightarrow> model_id \<Rightarrow> lifecycle_state option" where
  "model_lifecycle_state s model_id = map_option sl_lifecycle (bt_get (rt_models s) model_id)"

definition remember_pending_unload ::
    "(model_handle \<times> command_ticket) option \<Rightarrow> runtime_event \<Rightarrow> ('ld, 'm, 'q) runtime
       \<Rightarrow> (model_id, pending_unload) btree_map \<Rightarrow> (model_id, pending_unload) btree_map" where
  "remember_pending_unload identity event s pending_unloads =
    (case identity of
       None \<Rightarrow> pending_unloads
     | Some (handle, ticket) \<Rightarrow>
         let model_id = mh_id handle;
             pending = is_model_cleanup_pending s model_id
               \<or> (case model_lifecycle_state s model_id of None \<Rightarrow> False | Some st \<Rightarrow> unloading_state st)
         in if pending
            then bt_insert model_id
              \<lparr>pu_handle = handle, pu_ticket = ticket,
               pu_failure_reported = (case event of EvModelUnload _ (Inl _) \<Rightarrow> True | _ \<Rightarrow> False),
               pu_cancelled_requests = (case event of
                   EvModelUnload _ (Inr receipt) \<Rightarrow> ur_cancelled_requests receipt
                 | EvModelUnload _ (Inl _) \<Rightarrow>
                     (case model_cancelled_requests_during_unload s model_id of None \<Rightarrow> 0 | Some n \<Rightarrow> n)
                 | _ \<Rightarrow> 0)\<rparr> pending_unloads
            else bt_remove model_id pending_unloads)"

definition maintenance_event ::
    "('src, 'ld, 'm, 'q) backend \<Rightarrow> monotonic_millis \<Rightarrow> (model_id, pending_unload) btree_map
       \<Rightarrow> ('ld, 'm, 'q) runtime
       \<Rightarrow> ((model_id \<times> runtime_event) option \<times> (model_id, pending_unload) btree_map
            \<times> ('ld, 'm, 'q) runtime) option" where
  "maintenance_event B now unloads s =
    map_option (\<lambda>(transition, s).
      case transition of
        None \<Rightarrow> (None, unloads, s)
      | Some (handle, r) \<Rightarrow>
          (case bt_get unloads (mh_id handle) of
             None \<Rightarrow> (None, unloads, s)
           | Some pending \<Rightarrow>
               (case r of
                  Inr receipt \<Rightarrow>
                    (Some (mh_id handle, EvModelUnload (pu_ticket pending) (Inr receipt)),
                     bt_remove (mh_id handle) unloads, s)
                | Inl e \<Rightarrow>
                    if \<not> pu_failure_reported pending
                    then (Some (mh_id handle, EvModelUnload (pu_ticket pending) (Inl e)),
                          bt_insert (mh_id handle) (pending\<lparr>pu_failure_reported := True\<rparr>) unloads, s)
                    else (None, unloads, s))))
      (poll_unload_transition B now s)"

definition collect_completed_unloads ::
    "('ld, 'm, 'q) runtime \<Rightarrow> (model_id, pending_unload) btree_map \<Rightarrow> (model_id, runtime_event) btree_map
       \<Rightarrow> (model_id, pending_unload) btree_map \<times> (model_id, runtime_event) btree_map" where
  "collect_completed_unloads s unloads events =
    (let completed = filter (\<lambda>(model_id, pending).
           model_lifecycle_state s model_id = None \<and> \<not> is_model_cleanup_pending s model_id)
           (bt_entries unloads)
     in foldl (\<lambda>(unloads, events) (model_id, pending).
          (bt_remove model_id unloads,
           bt_insert model_id (EvModelUnload (pu_ticket pending)
             (Inr \<lparr>ur_handle = pu_handle pending, ur_status = Unloaded,
                ur_cancelled_requests = pu_cancelled_requests pending\<rparr>)) events))
        (unloads, events) completed)"

subsection \<open>One turn of the loop\<close>

datatype channel_send = SendTaken | SendFull | SendDisconnected

datatype 'src channel_receive =
    Received "'src runtime_command" monotonic_millis
  | NothingReceived
  | SenderGone

text \<open>
  The input of a turn: the clock at its maintenance, the answer of the event channel if the worker
  sends, the answers of the command channel to its non-blocking receives (nothing after the last
  of the list), the answer to the waiting receive, and the allocator and exponential of the model.
\<close>

record 'src worker_input =
  in_now :: monotonic_millis
  in_send :: channel_send
  in_receives :: "'src channel_receive list"
  in_wait :: "'src channel_receive"

datatype ('ld, 'm, 'q) worker_progress =
    WorkerRunning "('ld, 'm, 'q) worker"
  | WorkerStopped "('ld, 'm, 'q) worker_end"

definition finish_worker :: "worker_stop \<Rightarrow> ('ld, 'm, 'q) runtime \<Rightarrow> ('ld, 'm, 'q) worker_end" where
  "finish_worker stop s = WorkerEnd (stop = PreserveRuntime) s"

definition shutdown_after_disconnect ::
    "('src, 'ld, 'm, 'q) backend \<Rightarrow> ('ld, 'm, 'q) runtime \<Rightarrow> ('ld, 'm, 'q) worker_end option" where
  "shutdown_after_disconnect B s =
    map_option (\<lambda>(r, s). WorkerEnd (\<not> is_ok r \<and> owns_backend_resources s) s) (runtime_shutdown B s)"

definition cancelled_by_drain :: "runtime_event \<Rightarrow> bool" where
  "cancelled_by_drain event \<longleftrightarrow>
    (case event of EvModelUnload _ (Inr receipt) \<Rightarrow> 0 < ur_cancelled_requests receipt | _ \<Rightarrow> False)"

definition worker_maintain ::
    "('src, 'ld, 'm, 'q) backend \<Rightarrow> monotonic_millis \<Rightarrow> ('ld, 'm, 'q) worker \<Rightarrow> ('ld, 'm, 'q) worker option" where
  "worker_maintain B now w =
    (case poll_cleanup B (wk_runtime w) of
       (r, s) \<Rightarrow>
    let s = (case r of Inl e \<Rightarrow> record_maintenance_error e s | Inr _ \<Rightarrow> s) in
    map_option (\<lambda>(event, unloads, s).
      let w = w\<lparr>wk_runtime := s, wk_pending_unloads := unloads\<rparr>;
          w = (case event of
                 None \<Rightarrow> w
               | Some (model_id, event) \<Rightarrow>
                   w\<lparr>wk_scheduler := (if cancelled_by_drain event
                        then request_model_cancellation model_id cancellation_reason.DrainTimeout (wk_scheduler w)
                        else wk_scheduler w),
                     wk_maintenance_events := bt_insert model_id event (wk_maintenance_events w)\<rparr>)
      in case collect_completed_unloads s unloads (wk_maintenance_events w) of
           (unloads, events) \<Rightarrow> w\<lparr>wk_pending_unloads := unloads, wk_maintenance_events := events\<rparr>)
      (maintenance_event B now (wk_pending_unloads w) s))"

definition worker_select :: "('ld, 'm, 'q) worker \<Rightarrow> ('ld, 'm, 'q) worker" where
  "worker_select w =
    (case wk_pending_event w of
       Some _ \<Rightarrow> w
     | None \<Rightarrow>
         (case wk_queued_events w of
            event # events \<Rightarrow> w\<lparr>wk_pending_event := Some event, wk_queued_events := events\<rparr>
          | [] \<Rightarrow>
              (case bt_first (wk_maintenance_events w) of
                 None \<Rightarrow> w
               | Some (model_id, event) \<Rightarrow>
                   w\<lparr>wk_pending_event := Some event,
                     wk_maintenance_events := bt_remove model_id (wk_maintenance_events w)\<rparr>)))"

text \<open>The result also holds the event that was sent.\<close>

definition worker_publish ::
    "('src, 'ld, 'm, 'q) backend \<Rightarrow> channel_send \<Rightarrow> ('ld, 'm, 'q) worker
       \<Rightarrow> (runtime_event list \<times> ('ld, 'm, 'q) worker_progress) option" where
  "worker_publish B send w =
    (case wk_pending_event w of
       None \<Rightarrow>
         (case wk_stop w of
            Some stop \<Rightarrow>
              if wk_queued_events w = [] then Some ([], WorkerStopped (finish_worker stop (wk_runtime w)))
              else Some ([], WorkerRunning w)
          | None \<Rightarrow> Some ([], WorkerRunning w))
     | Some event \<Rightarrow>
         (case send of
            SendTaken \<Rightarrow>
              let w = w\<lparr>wk_pending_event := None\<rparr> in
              (case wk_stop w of
                 Some stop \<Rightarrow> Some ([event], WorkerStopped (finish_worker stop (wk_runtime w)))
               | None \<Rightarrow> Some ([event], WorkerRunning w))
          | SendFull \<Rightarrow> Some ([], WorkerRunning w)
          | SendDisconnected \<Rightarrow>
              map_option (\<lambda>e. ([], WorkerStopped e)) (shutdown_after_disconnect B (wk_runtime w))))"

definition worker_command ::
    "('src, 'ld, 'm, 'q) backend \<Rightarrow> (capacity_resource \<Rightarrow> usize \<Rightarrow> bool) \<Rightarrow> generation_output
       \<Rightarrow> 'src runtime_command \<Rightarrow> monotonic_millis \<Rightarrow> ('ld, 'm, 'q) worker \<Rightarrow> ('ld, 'm, 'q) worker option" where
  "worker_command B allocates out command now w =
    map_option (\<lambda>((event, stop), sch, s).
      let w = w\<lparr>wk_runtime := s, wk_scheduler := sch,
            wk_pending_unloads := remember_pending_unload (unload_command_identity command) event s
              (wk_pending_unloads w)\<rparr>
      in case stop of
           Some _ \<Rightarrow> w\<lparr>wk_pending_event := Some event, wk_queued_events := [],
             wk_maintenance_events := bt_empty, wk_pending_unloads := bt_empty, wk_stop := stop\<rparr>
         | None \<Rightarrow>
             if wk_pending_event w = None then w\<lparr>wk_pending_event := Some event\<rparr>
             else w\<lparr>wk_queued_events := wk_queued_events w @ [event]\<rparr>)
      (dispatch B allocates out command now (wk_scheduler w) (wk_runtime w))"

fun worker_commands ::
    "('src, 'ld, 'm, 'q) backend \<Rightarrow> (capacity_resource \<Rightarrow> usize \<Rightarrow> bool) \<Rightarrow> generation_output
       \<Rightarrow> usize \<Rightarrow> nat \<Rightarrow> 'src channel_receive list \<Rightarrow> ('ld, 'm, 'q) worker
       \<Rightarrow> ('src runtime_command list \<times> ('ld, 'm, 'q) worker_progress) option" where
  "worker_commands B allocates out backlog 0 receives w = Some ([], WorkerRunning w)"
| "worker_commands B allocates out backlog (Suc n) receives w =
    (if backlog \<le> length (wk_queued_events w) then Some ([], WorkerRunning w)
     else case receives of
       [] \<Rightarrow> Some ([], WorkerRunning w)
     | NothingReceived # _ \<Rightarrow> Some ([], WorkerRunning w)
     | SenderGone # _ \<Rightarrow>
         map_option (\<lambda>e. ([], WorkerStopped e)) (shutdown_after_disconnect B (wk_runtime w))
     | Received command now # receives \<Rightarrow>
         (case worker_command B allocates out command now w of
            None \<Rightarrow> None
          | Some w \<Rightarrow>
              if wk_stop w \<noteq> None then Some ([command], WorkerRunning w)
              else map_option (apfst ((#) command))
                (worker_commands B allocates out backlog n receives w)))"

definition worker_wait ::
    "('src, 'ld, 'm, 'q) backend \<Rightarrow> (capacity_resource \<Rightarrow> usize \<Rightarrow> bool) \<Rightarrow> generation_output
       \<Rightarrow> 'src channel_receive \<Rightarrow> ('ld, 'm, 'q) worker
       \<Rightarrow> ('src runtime_command list \<times> ('ld, 'm, 'q) worker_progress) option" where
  "worker_wait B allocates out receive w =
    (case receive of
       Received command now \<Rightarrow>
         map_option (\<lambda>w. ([command], WorkerRunning w)) (worker_command B allocates out command now w)
     | NothingReceived \<Rightarrow> Some ([], WorkerRunning w)
     | SenderGone \<Rightarrow>
         map_option (\<lambda>e. ([], WorkerStopped e)) (shutdown_after_disconnect B (wk_runtime w)))"

text \<open>One turn: the events sent, the commands taken, where the worker stands, and its output.\<close>

definition worker_turn ::
    "('src, 'ld, 'm, 'q) backend \<Rightarrow> (capacity_resource \<Rightarrow> usize \<Rightarrow> bool) \<Rightarrow> (f32 \<Rightarrow> f32) \<Rightarrow> usize
       \<Rightarrow> 'src worker_input \<Rightarrow> ('ld, 'm, 'q) worker \<Rightarrow> generation_output
       \<Rightarrow> (runtime_event list \<times> 'src runtime_command list \<times> ('ld, 'm, 'q) worker_progress
            \<times> generation_output) option" where
  "worker_turn B allocates expf backlog i w out =
    (case worker_maintain B (in_now i) w of
       None \<Rightarrow> None
     | Some w \<Rightarrow>
    (case worker_publish B (in_send i) (worker_select w) of
       None \<Rightarrow> None
     | Some (sent, WorkerStopped e) \<Rightarrow> Some (sent, [], WorkerStopped e, out)
     | Some (sent, WorkerRunning w) \<Rightarrow>
    if wk_stop w \<noteq> None then Some (sent, [], WorkerRunning w, out)
    else
    (case worker_commands B allocates out backlog 8 (in_receives i) w of
       None \<Rightarrow> None
     | Some (taken, WorkerStopped e) \<Rightarrow> Some (sent, taken, WorkerStopped e, out)
     | Some (taken, WorkerRunning w) \<Rightarrow>
    (case scheduler_advance_one B expf (wk_scheduler w) (wk_runtime w) out of
       (advance, sch, s, out) \<Rightarrow>
    let w = w\<lparr>wk_scheduler := sch, wk_runtime := s\<rparr> in
    if taken = [] \<and> \<not> sa_progressed advance \<and> length (wk_queued_events w) < backlog
    then map_option (\<lambda>(waited, progress). (sent, waited, progress, out))
      (worker_wait B allocates out (in_wait i) w)
    else Some (sent, taken, WorkerRunning w, out)))))"

end
