(* ===== verification/Worker_Accounting.thy ===== *)
theory Worker_Accounting
  imports Worker Registry_Runs
begin

section \<open>The worker and the registry's workspace accounts\<close>

text \<open>
  The registry counts generation workspaces and their bytes without knowing the tasks; the
  scheduler holds the tasks. Here the two are shown to agree in every state the worker reaches,
  which is why releasing a task's workspace never fails, and every turn of the worker to return.
\<close>

definition workspaces :: "('ld, 'm, 'q) runtime \<Rightarrow> u32 \<times> memory_footprint" where
  "workspaces s = (rt_generation_workspaces s, rt_reserved_generation_workspace s)"

lemma workspaces_config: "config s' = config s \<Longrightarrow> workspaces s' = workspaces s"
  by (simp add: config_def workspaces_def)

definition task_bytes :: "footprint_component \<Rightarrow> generation_task \<Rightarrow> nat" where
  "task_bytes c task = footprint_field (gt_workspace_footprint task) c"

definition accounts :: "generation_scheduler \<Rightarrow> ('ld, 'm, 'q) runtime \<Rightarrow> bool" where
  "accounts sch s \<longleftrightarrow> bt_inv (sch_requests sch)
     \<and> unat (rt_generation_workspaces s) = bt_len (sch_requests sch)
     \<and> (\<forall>c. footprint_field (rt_reserved_generation_workspace s) c
          = bt_total (task_bytes c) (sch_requests sch))"

lemma accounts_workspaces: "workspaces s' = workspaces s \<Longrightarrow> accounts sch s' = accounts sch s"
  by (simp add: accounts_def workspaces_def)

subsection \<open>Calls that leave the workspaces alone\<close>

definition quiet :: "('src, 'ld, 'm, 'q) backend \<Rightarrow> ('ld, 'm, 'q) runtime \<Rightarrow> ('ld, 'm, 'q) runtime \<Rightarrow> bool" where
  "quiet B s s' \<longleftrightarrow> runtime_inv B s' \<and> workspaces s' = workspaces s"

lemma quiet_refl: "runtime_inv B s \<Longrightarrow> quiet B s s"
  by (simp add: quiet_def)

lemma quiet_trans: "quiet B s s1 \<Longrightarrow> quiet B s1 s2 \<Longrightarrow> quiet B s s2"
  by (simp add: quiet_def)

lemma quiet_config: "runtime_inv B s' \<and> config s' = config s \<Longrightarrow> quiet B s s'"
  unfolding quiet_def using workspaces_config by blast

lemma workspaces_error [simp]: "workspaces (record_maintenance_error e s) = workspaces s"
  by (simp add: workspaces_def record_maintenance_error_def)

lemma quiet_error [simp]: "quiet B s (record_maintenance_error e s') = quiet B s s'"
  by (simp add: quiet_def)

lemma quiet_load:
  assumes "runtime_inv B s" and "runtime_load_model B model_id source device kind s = (r, s')"
  shows "quiet B s s'"
proof -
  have "workspaces s' = workspaces s"
    using assms(2) by (auto simp: runtime_load_model_def workspaces_def Let_def
        split: sum.splits prod.splits if_splits)
  with load_model_inv [OF assms] show ?thesis by (simp add: quiet_def)
qed

lemma abort_quiet:
  assumes "abort_admission B model_id request_id sequence_id primary footprint next_slot next_reserved
    slot sequence s = (r, s')"
  shows "workspaces s' = workspaces s" "\<not> is_ok r"
  using assms by (auto simp: abort_admission_def workspaces_def Let_def is_ok_def
      split: prod.splits sum.splits option.splits)

text \<open>A start of a generation charges its workspace exactly when it is accepted.\<close>

lemma start_workspaces:
  assumes "start_request_with_reservation B handle request_id sequence_id configuration
    workspace expected s = (r, s')"
  shows "case r of
      Inl e \<Rightarrow> workspaces s' = workspaces s
    | Inr receipt \<Rightarrow> bt_get (rt_request_index s) request_id = None
        \<and> bt_get (rt_request_index s') request_id \<noteq> None
        \<and> (if expected = None then workspaces s' = workspaces s
        else unat (rt_generation_workspaces s') = unat (rt_generation_workspaces s) + 1
          \<and> (\<forall>c. footprint_field (rt_reserved_generation_workspace s') c
               = footprint_field (rt_reserved_generation_workspace s) c + footprint_field workspace c))"
proof (cases "plan_admission B handle request_id sequence_id configuration workspace expected s")
  case (Inl e)
  with assms show ?thesis by (auto simp: start_request_with_reservation_def)
next
  case (Inr planned)
  obtain slot a where "planned = (slot, a)" by fastforce
  with Inr have plan: "plan_admission B handle request_id sequence_id configuration workspace expected s
    = Inr (slot, a)" by simp
  have counts: "if expected = None then ad_next_generation_workspaces a = rt_generation_workspaces s
    else unat (ad_next_generation_workspaces a) = unat (rt_generation_workspaces s) + 1"
    using plan by (auto simp: plan_admission_def bind_ok_Inr ok_or_Inr unat_checked_add split: if_splits)
  show ?thesis
    using assms plan counts plan_admission_Inr(5,19) [OF plan]
    by (auto simp: start_request_with_reservation_def Let_def workspaces_def commit_admission_def
        bt_get_insert checked_add_footprint_iff is_ok_def dest: abort_quiet [unfolded workspaces_def]
        split: prod.splits sum.splits if_splits)
qed

lemma quiet_start:
  assumes "runtime_inv B s"
    and "runtime_start_request B handle request_id sequence_id configuration s = (r, s')"
  shows "quiet B s s'"
  using start_request_inv [OF assms(1) _ assms(2) [unfolded runtime_start_request_def]]
    start_workspaces [OF assms(2) [unfolded runtime_start_request_def]]
  by (simp add: quiet_def split: sum.splits)

lemma quiet_removals:
  assumes "runtime_inv B s" and "stable_ids B"
  shows "runtime_complete_request B request_id reason s = (r1, s1) \<Longrightarrow> quiet B s s1"
    "runtime_cancel_request B request_id why s = (r2, s2) \<Longrightarrow> quiet B s s2"
    "runtime_fail_request B request_id operation failure s = (r3, s3) \<Longrightarrow> quiet B s s3"
  by (auto simp: runtime_complete_request_def runtime_cancel_request_def runtime_fail_request_def
      rt_bind_def split: prod.splits sum.splits intro!: quiet_config intro: remove_request_inv [OF assms])

lemma quiet_steps:
  assumes "runtime_inv B s" and "stable_ids B"
  shows "runtime_prefill B request_id tokens emit logits s = (r1, l1, s1) \<Longrightarrow> quiet B s s1"
    "runtime_decode B request_id token logits s = (r2, l2, s2) \<Longrightarrow> quiet B s s2"
  by (simp_all add: quiet_config prefill_inv [OF assms] decode_inv [OF assms])

lemma quiet_poll_cleanup:
  assumes "runtime_inv B s" and "stable_ids B" and "poll_cleanup B s = (r, s')"
  shows "quiet B s s'"
  using poll_cleanup_spec(1,2) [OF assms] by (blast intro: quiet_config)

lemma quiet_shutdown:
  assumes "runtime_inv B s" and "stable_ids B"
  shows "\<exists>r s'. runtime_shutdown B s = Some (r, s') \<and> quiet B s s'"
  using runtime_shutdown_total [OF assms] by (auto simp: quiet_def workspaces_def config_def)

lemma quiet_unload:
  assumes "runtime_inv B s" and "stable_ids B" and "policy_ok policy now"
  shows "\<exists>r s'. runtime_unload_model B handle policy now s = Some (r, s') \<and> quiet B s s'"
  using unload_model_total [OF assms] by (blast intro: quiet_config)

subsection \<open>The scheduler's tasks and the accounts\<close>

definition worker_ok :: "('src, 'ld, 'm, 'q) backend \<Rightarrow> generation_scheduler \<Rightarrow> ('ld, 'm, 'q) runtime \<Rightarrow> bool" where
  "worker_ok B sch s \<longleftrightarrow> runtime_inv B s \<and> accounts sch s"

lemma worker_ok_quiet: "worker_ok B sch s \<Longrightarrow> quiet B s s' \<Longrightarrow> worker_ok B sch s'"
  unfolding worker_ok_def quiet_def using accounts_workspaces by blast

lemma accounts_update:
  assumes "accounts sch s" and "bt_get (sch_requests sch) request_id = Some task"
    and "gt_workspace_footprint task' = gt_workspace_footprint task"
  shows "accounts (sch\<lparr>sch_requests := bt_insert request_id task' (sch_requests sch)\<rparr>) s"
proof -
  have "bt_inv (sch_requests sch)" using assms(1) by (simp add: accounts_def)
  with assms bt_total_update [OF this assms(2), of "task_bytes c" task' for c] show ?thesis
    by (simp add: accounts_def bt_inv_insert bt_len_update task_bytes_def)
qed

lemma accounts_cursor [simp]: "accounts (sch\<lparr>sch_cursor := c\<rparr>) s = accounts sch s"
  by (simp add: accounts_def)

lemma accounts_map:
  assumes "\<And>k task. gt_workspace_footprint (f k task) = gt_workspace_footprint task"
  shows "accounts (sch\<lparr>sch_requests := map (\<lambda>(k, task). (k, f k task)) (sch_requests sch)\<rparr>) s = accounts sch s"
proof -
  have "fst \<circ> (\<lambda>(k, task). (k, f k task)) = fst" by (simp add: fun_eq_iff split_beta)
  moreover have "bt_total (task_bytes c) (map (\<lambda>(k, task). (k, f k task)) m) = bt_total (task_bytes c) m"
    for c and m :: "(request_id, generation_task) btree_map"
    using assms by (induction m) (auto simp: bt_total_def bt_entries_def task_bytes_def)
  ultimately show ?thesis by (simp add: accounts_def bt_inv_def bt_entries_def)
qed

lemma accounts_model_cancellation [simp]:
  "accounts (request_model_cancellation model_id reason sch) s = accounts sch s"
  unfolding request_model_cancellation_def by (rule accounts_map) simp

lemma accounts_admit:
  assumes acc: "accounts sch s" and new: "bt_get (sch_requests sch) request_id = None"
    and count: "unat (rt_generation_workspaces s') = unat (rt_generation_workspaces s) + 1"
    and bytes: "\<And>c. footprint_field (rt_reserved_generation_workspace s') c
      = footprint_field (rt_reserved_generation_workspace s) c + footprint_field (gt_workspace_footprint task) c"
  shows "accounts (sch\<lparr>sch_requests := bt_insert request_id task (sch_requests sch)\<rparr>) s'"
proof -
  have "bt_inv (sch_requests sch)" using acc by (simp add: accounts_def)
  with acc count bytes bt_total_insert_new [OF this new] bt_len_insert_new [OF this new] show ?thesis
    by (simp add: accounts_def bt_inv_insert task_bytes_def)
qed

text \<open>A workspace the registry has charged can be given back.\<close>

lemma release_charged:
  assumes inv: "runtime_inv B s" and count: "unat (rt_generation_workspaces s) = Suc n"
    and bytes: "\<And>c. footprint_field (rt_reserved_generation_workspace s) c
      = footprint_field footprint c + rest c"
  obtains s' where "release_generation_workspace footprint s = (Inr (), s')" "runtime_inv B s'"
    "unat (rt_generation_workspaces s') = n"
    "\<And>c. footprint_field (rt_reserved_generation_workspace s') c = rest c"
proof -
  obtain k where k: "checked_sub (rt_generation_workspaces s) 1 = Some k"
    using count by (auto simp: checked_sub_def word_le_nat_alt)
  then have "unat k = n" using count by (simp add: checked_sub_unat)
  have "footprint_field footprint c \<le> footprint_field (rt_reserved_generation_workspace s) c" for c
    using bytes [of c] by simp
  from checked_sub_footprint_total [OF this] obtain workspace
    where w: "checked_sub_footprint (rt_reserved_generation_workspace s) footprint = Inr workspace" by blast
  have "footprint_field footprint c \<le> footprint_field (rt_reserved_footprint s) c" for c
    using bytes [of c] runtime_inv_load(1) [OF inv, of c] by (simp add: registry_load_def)
  from checked_sub_footprint_total [OF this] obtain reserved
    where r: "checked_sub_footprint (rt_reserved_footprint s) footprint = Inr reserved" by blast
  let ?s = "s\<lparr>rt_generation_workspaces := k, rt_reserved_generation_workspace := workspace,
    rt_reserved_footprint := reserved\<rparr>"
  have release: "release_generation_workspace footprint s = (Inr (), ?s)"
    by (simp add: release_generation_workspace_def k w r)
  have "footprint_field workspace c = rest c" for c
    using w bytes [of c] by (simp add: checked_sub_footprint_iff)
  with release release_workspace_inv [OF inv release] \<open>unat k = n\<close> show ?thesis
    using that by simp
qed

lemma release_task:
  assumes ok: "worker_ok B sch s" and task: "bt_get (sch_requests sch) request_id = Some task"
  obtains s' where "release_generation_workspace (gt_workspace_footprint task) s = (Inr (), s')"
    "worker_ok B (sch\<lparr>sch_requests := bt_remove request_id (sch_requests sch)\<rparr>) s'"
proof -
  have maps: "bt_inv (sch_requests sch)" and inv: "runtime_inv B s" and acc: "accounts sch s"
    using ok by (simp_all add: worker_ok_def accounts_def)
  have count: "unat (rt_generation_workspaces s) = Suc (bt_len (bt_remove request_id (sch_requests sch)))"
    using acc bt_len_remove [OF maps task] by (simp add: accounts_def)
  have bytes: "footprint_field (rt_reserved_generation_workspace s) c
    = footprint_field (gt_workspace_footprint task) c + bt_total (task_bytes c) (bt_remove request_id (sch_requests sch))" for c
    using acc bt_total_remove [OF maps task, of "task_bytes c"] by (simp add: accounts_def task_bytes_def)
  from release_charged [OF inv count bytes] obtain s' where
    "release_generation_workspace (gt_workspace_footprint task) s = (Inr (), s')" "runtime_inv B s'"
    "unat (rt_generation_workspaces s') = bt_len (bt_remove request_id (sch_requests sch))"
    "\<And>c. footprint_field (rt_reserved_generation_workspace s') c
      = bt_total (task_bytes c) (bt_remove request_id (sch_requests sch))" by blast
  with maps show ?thesis by (intro that [of s']) (simp_all add: worker_ok_def accounts_def bt_inv_remove)
qed

subsection \<open>Admission\<close>

lemma admit_ok:
  assumes ok: "worker_ok B sch s" and stable: "stable_ids B"
    and admit: "scheduler_admit B allocates out handle request sch s = (r, sch', s')"
  shows "worker_ok B sch' s'"
proof (cases "prepare_generation B allocates sch (to_token_capacity out, to_record_capacity out) handle request s")
  case (Inl e)
  with admit ok show ?thesis by (simp add: scheduler_admit_def)
next
  case prepared: (Inr sizes)
  then have new: "bt_get (sch_requests sch) (gr_request_id request) = None"
    by (auto simp: prepare_generation_def bind_ok_Inr check_generation_request_def Let_def split: if_splits)
  have inv: "runtime_inv B s" and acc: "accounts sch s" using ok by (simp_all add: worker_ok_def)
  obtain started s1 where start: "start_generation_request B handle (gr_request_id request)
      (gr_sequence_id request) (gr_sequence request) (gz_footprint sizes) (gz_vocabulary sizes) s = (started, s1)"
    by fastforce
  note spec = start_workspaces [OF start [unfolded start_generation_request_def]]
  have inv1: "runtime_inv B s1"
    using start_request_inv [OF inv _ start [unfolded start_generation_request_def]] by simp
  show ?thesis
  proof (cases started)
    case (Inl e)
    with spec inv1 have "quiet B s s1" by (simp add: quiet_def)
    with Inl prepared start admit worker_ok_quiet [OF ok] show ?thesis by (simp add: scheduler_admit_def)
  next
    case (Inr receipt)
    with spec have count: "unat (rt_generation_workspaces s1) = unat (rt_generation_workspaces s) + 1"
      and bytes: "footprint_field (rt_reserved_generation_workspace s1) c
        = footprint_field (rt_reserved_generation_workspace s) c + footprint_field (gz_footprint sizes) c" for c
      by simp_all
    show ?thesis
    proof (cases "rr_logits_capacity receipt \<noteq> gz_vocabulary sizes")
      case False
      with Inr prepared start admit have "s' = s1" "sch' = sch\<lparr>sch_requests := bt_insert (gr_request_id request)
          (new_generation_task handle request sizes) (sch_requests sch)\<rparr>"
        by (simp_all add: scheduler_admit_def)
      with inv1 accounts_admit [OF acc new count, of "new_generation_task handle request sizes"] bytes
      show ?thesis by (simp add: worker_ok_def new_generation_task_def)
    next
      case True
      obtain c s2 where failed: "runtime_fail_request B (gr_request_id request) OpSequenceAdmission
          (runtime_failure_class BackendContractViolation) s1 = (c, s2)" by fastforce
      then have quiet: "quiet B s1 s2" by (rule quiet_removals(3) [OF inv1 stable])
      then have inv2: "runtime_inv B s2" and same: "workspaces s2 = workspaces s1" by (simp_all add: quiet_def)
      have count2: "unat (rt_generation_workspaces s2) = Suc (bt_len (sch_requests sch))"
        using same count acc by (simp add: workspaces_def accounts_def)
      have bytes2: "footprint_field (rt_reserved_generation_workspace s2) c
        = footprint_field (gz_footprint sizes) c + bt_total (task_bytes c) (sch_requests sch)" for c
        using same bytes [of c] acc by (simp add: workspaces_def accounts_def)
      from release_charged [OF inv2 count2 bytes2] obtain s3 where
        "release_generation_workspace (gz_footprint sizes) s2 = (Inr (), s3)" "runtime_inv B s3"
        "unat (rt_generation_workspaces s3) = bt_len (sch_requests sch)"
        "\<And>c. footprint_field (rt_reserved_generation_workspace s3) c = bt_total (task_bytes c) (sch_requests sch)"
        by blast
      moreover from this(1) True Inr prepared start failed admit have "s' = s3" "sch' = sch"
        by (simp_all add: scheduler_admit_def)
      ultimately show ?thesis using acc by (simp add: worker_ok_def accounts_def)
    qed
  qed
qed

subsection \<open>Opportunities\<close>

definition keeps :: "('src, 'ld, 'm, 'q) backend \<Rightarrow> generation_task \<Rightarrow> generation_task
    \<Rightarrow> ('ld, 'm, 'q) runtime \<Rightarrow> ('ld, 'm, 'q) runtime \<Rightarrow> bool" where
  "keeps B task task' s s' \<longleftrightarrow> quiet B s s' \<and> gt_workspace_footprint task' = gt_workspace_footprint task"

lemma keeps_trans: "keeps B task task1 s s1 \<Longrightarrow> keeps B task1 task2 s1 s2 \<Longrightarrow> keeps B task task2 s s2"
  by (auto simp: keeps_def intro: quiet_trans)

lemma sample_step_keeps:
  assumes "runtime_inv B s" and "stable_ids B"
    and "sample_step B expf request_id written task s = (go, task', s')"
  shows "keeps B task task' s s'"
  using assms(3) quiet_refl [OF assms(1)]
  by (auto simp: sample_step_def keeps_def Let_def split: if_splits prod.splits sum.splits
      intro: quiet_removals(3) [OF assms(1,2)])

lemma finish_step_keeps:
  assumes "runtime_inv B s" and "stable_ids B"
    and "finish_step B expf request_id step task s = (go, task', s')"
  shows "keeps B task task' s s'"
  using assms(3) quiet_refl [OF assms(1)] sample_step_keeps [OF assms(1,2)]
  by (auto simp: finish_step_def keeps_def split: backend_step.splits)

lemma generation_step_keeps:
  assumes "runtime_inv B s" and "stable_ids B"
    and run: "generation_step B expf request_id task s = (go, task', s')"
  shows "keeps B task task' s s'"
proof -
  have finish: "keeps B task task' s s'" if quiet: "quiet B s s1"
    and "finish_step B expf request_id step (task\<lparr>gt_logits := l\<rparr>) s1 = (go, task', s')" for step l s1
  proof -
    have "runtime_inv B s1" using quiet by (simp add: quiet_def)
    from finish_step_keeps [OF this assms(2) that(2)] quiet show ?thesis
      by (auto simp: keeps_def intro: quiet_trans)
  qed
  show ?thesis
  proof (cases "gt_phase task")
    case PhasePrefill
    obtain r l s1 where "runtime_prefill B request_id (gt_prompt_tokens task) True (gt_logits task) s = (r, l, s1)"
      by (metis prod_cases3)
    with PhasePrefill run finish [OF quiet_steps(1) [OF assms(1,2)]] show ?thesis
      by (simp add: generation_step_def)
  next
    case PhaseDecode
    show ?thesis
    proof (cases "gt_generated task = []")
      case True
      with PhaseDecode run quiet_refl [OF assms(1)] show ?thesis by (auto simp: generation_step_def keeps_def)
    next
      case False
      obtain r l s1 where "runtime_decode B request_id (last (gt_generated task)) (gt_logits task) s = (r, l, s1)"
        by (metis prod_cases3)
      with False PhaseDecode run finish [OF quiet_steps(2) [OF assms(1,2)]] show ?thesis
        by (simp add: generation_step_def)
    qed
  next
    case (PhaseTerminal t)
    with run quiet_refl [OF assms(1)] show ?thesis by (auto simp: generation_step_def keeps_def)
  qed
qed

lemma generation_loop_keeps:
  "runtime_inv B s \<Longrightarrow> stable_ids B
    \<Longrightarrow> generation_loop B expf request_id quantum steps task s = (task', s') \<Longrightarrow> keeps B task task' s s'"
proof (induction B expf request_id quantum steps task s rule: generation_loop.induct)
  case (1 B expf request_id quantum steps task s)
  show ?case
  proof (cases "steps < quantum \<and> gt_pending_token task = None \<and> gt_cancellation task = None")
    case False
    with "1.prems" quiet_refl show ?thesis
      by (auto simp: generation_loop.simps [of _ _ _ _ steps] keeps_def split: if_splits)
  next
    case True
    obtain go task1 s1 where step: "generation_step B expf request_id task s = (go, task1, s1)"
      by (metis prod_cases3)
    note keeps = generation_step_keeps [OF "1.prems"(1,2) step]
    show ?thesis
    proof (cases go)
      case False
      with True step "1.prems"(3) keeps show ?thesis
        by (simp add: generation_loop.simps [of _ _ _ _ steps])
    next
      case go: True
      have "generation_loop B expf request_id quantum (saturating_add steps 1) task1 s1 = (task', s')"
        using True go step "1.prems"(3) by (simp add: generation_loop.simps [of _ _ _ _ steps])
      moreover have "runtime_inv B s1" using keeps by (simp add: keeps_def quiet_def)
      ultimately have "keeps B task1 task' s1 s'"
        using True go step "1.prems"(2) by (intro "1.IH" [of go "(task1, s1)"]) auto
      with keeps show ?thesis by (rule keeps_trans)
    qed
  qed
qed

lemma advance_task_keeps:
  assumes inv: "runtime_inv B s" and stable: "stable_ids B"
    and run: "advance_task B expf request_id task s out = (adv, task', s', out')"
  shows "keeps B task task' s s'"
proof -
  have cancelled: "keeps B task task' s s'"
    if "advance_cancelled B request_id reason (task\<lparr>gt_cancellation := None\<rparr>) s = (task', s')" for reason
    using that quiet_refl [OF inv]
    by (auto simp: advance_cancelled_def keeps_def Let_def split: if_splits prod.splits
        intro: quiet_removals(2) [OF inv stable])
  have pushed: "keeps B task1 task' s s'"
    if "publish_token B request_id token task1 s out1 = (adv, task', s', out')" for token task1 out1
    using that quiet_refl [OF inv]
    by (auto simp: publish_token_def keeps_def Let_def split: prod.splits sum.splits option.splits
        intro: quiet_removals(1) [OF inv stable])
  have yielded: "gt_workspace_footprint task1 = gt_workspace_footprint task"
    if "publish_yield request_id task out = (go, task1, out1)" for go task1 out1
    using that by (auto simp: publish_yield_def split: prod.splits option.splits sum.splits)
  have continue: "keeps B task task' s s'"
    if not_terminal: "\<And>t. gt_phase task \<noteq> PhaseTerminal t"
  proof (cases "gt_cancellation task")
    case (Some reason)
    with run not_terminal cancelled [of reason] show ?thesis
      by (auto simp: advance_task_def split: prod.splits generation_phase.splits)
  next
    case None
    obtain go task1 out1 where yield: "publish_yield request_id task out = (go, task1, out1)"
      by (metis prod_cases3)
    note frame = yielded [OF yield]
    show ?thesis
    proof (cases "gt_pending_token task1")
      case (Some token)
      with None yield frame run not_terminal pushed [of token task1 out1] quiet_refl [OF inv] show ?thesis
        by (cases go) (auto simp: advance_task_def keeps_def split: generation_phase.splits)
    next
      case pending: None
      obtain task2 s2 where loop: "generation_loop B expf request_id (gt_scheduler_quantum task1) 0 task1 s = (task2, s2)"
        by fastforce
      from generation_loop_keeps [OF inv stable loop] pending loop None yield frame run not_terminal quiet_refl [OF inv]
      show ?thesis by (cases go) (auto simp: advance_task_def keeps_def split: generation_phase.splits)
    qed
  qed
  show ?thesis
  proof (cases "gt_phase task")
    case (PhaseTerminal t)
    with run quiet_refl [OF inv] show ?thesis by (auto simp: advance_task_def keeps_def split: prod.splits)
  qed (simp_all add: continue)
qed

lemma scheduler_advance_ok:
  assumes ok: "worker_ok B sch s" and stable: "stable_ids B"
    and run: "scheduler_advance_one B expf sch s out = (adv, sch', s', out')"
  shows "worker_ok B sch' s'"
proof (cases "\<exists>request_id task. next_request sch = Some request_id
    \<and> bt_get (sch_requests sch) request_id = Some task")
  case False
  with run ok show ?thesis
    by (auto simp: scheduler_advance_one_def worker_ok_def split: option.splits)
next
  case True
  then obtain request_id task where pick: "next_request sch = Some request_id"
    "bt_get (sch_requests sch) request_id = Some task" by blast
  have inv: "runtime_inv B s" using ok by (simp add: worker_ok_def)
  let ?sch = "sch\<lparr>sch_cursor := Some request_id\<rparr>"
  obtain a task1 s1 out1 where step: "advance_task B expf request_id task s out = (a, task1, s1, out1)"
    by (metis prod_cases4)
  let ?sch1 = "?sch\<lparr>sch_requests := bt_insert request_id task1 (sch_requests ?sch)\<rparr>"
  have keeps: "keeps B task task1 s s1" by (rule advance_task_keeps [OF inv stable step])
  have "worker_ok B ?sch s" using ok by (simp add: worker_ok_def)
  then have ok1: "worker_ok B ?sch s1" using worker_ok_quiet keeps unfolding keeps_def by blast
  then have ok2: "worker_ok B ?sch1 s1"
    using accounts_update [of ?sch s1 request_id task task1] pick keeps by (simp add: worker_ok_def keeps_def)
  show ?thesis
  proof (cases "sa_completed a = Some request_id")
    case False
    with pick step run ok2 show ?thesis by (simp add: scheduler_advance_one_def Let_def)
  next
    case True
    have "bt_get (sch_requests ?sch1) request_id = Some task1" by (simp add: bt_get_insert)
    from release_task [OF ok2 this] obtain s2 where
      "release_generation_workspace (gt_workspace_footprint task1) s1 = (Inr (), s2)"
      "worker_ok B (?sch1\<lparr>sch_requests := bt_remove request_id (sch_requests ?sch1)\<rparr>) s2" by blast
    with True pick step run show ?thesis by (simp add: scheduler_advance_one_def Let_def)
  qed
qed

subsection \<open>Discarding every task\<close>

lemma discard_loop_charged:
  "runtime_inv B s \<Longrightarrow> unat (rt_generation_workspaces s) = length footprints
    \<Longrightarrow> (\<And>c. footprint_field (rt_reserved_generation_workspace s) c
          = (\<Sum>f \<leftarrow> footprints. footprint_field f c))
    \<Longrightarrow> \<exists>s'. discard_loop footprints None s = (None, s') \<and> runtime_inv B s' \<and> accounts scheduler_new s'"
proof (induction footprints arbitrary: s)
  case Nil
  then show ?case
    by (simp add: accounts_def scheduler_new_def bt_inv_empty bt_entries_empty)
next
  case (Cons f footprints)
  from release_charged [OF Cons.prems(1), of "length footprints" f "\<lambda>c. \<Sum>f \<leftarrow> footprints. footprint_field f c"]
    Cons.prems(2,3) obtain s1 where "release_generation_workspace f s = (Inr (), s1)" "runtime_inv B s1"
    "unat (rt_generation_workspaces s1) = length footprints"
    "\<And>c. footprint_field (rt_reserved_generation_workspace s1) c = (\<Sum>f \<leftarrow> footprints. footprint_field f c)"
    by auto
  with Cons.IH [of s1] show ?case by simp
qed

lemma discard_all_ok:
  assumes "worker_ok B sch s"
  shows "\<exists>s'. scheduler_discard_all sch s = (Inr (), scheduler_new, s') \<and> worker_ok B scheduler_new s'"
proof -
  let ?footprints = "map gt_workspace_footprint (bt_values (sch_requests sch))"
  have "bt_total (task_bytes c) (sch_requests sch) = (\<Sum>f \<leftarrow> ?footprints. footprint_field f c)" for c
    by (simp add: bt_total_def task_bytes_def case_prod_unfold comp_def)
  with assms have "\<exists>s'. discard_loop ?footprints None s = (None, s') \<and> runtime_inv B s' \<and> accounts scheduler_new s'"
    by (intro discard_loop_charged) (simp_all add: worker_ok_def accounts_def)
  then show ?thesis by (auto simp: scheduler_discard_all_def worker_ok_def)
qed

subsection \<open>Commands\<close>

text \<open>
  A drain timeout and the maximum of generated tokens are of types without zero in the source.
\<close>

fun command_ok :: "'src runtime_command \<Rightarrow> monotonic_millis \<Rightarrow> bool" where
  "command_ok (CmdUnloadModel ticket handle policy) now \<longleftrightarrow> policy_ok policy now"
| "command_ok (CmdGenerate ticket handle request) now \<longleftrightarrow> gr_maximum_generated_tokens request \<noteq> 0"
| "command_ok _ _ \<longleftrightarrow> True"

lemma dispatch_unload_ok:
  assumes ok: "worker_ok B sch s" and "stable_ids B" and "policy_ok policy now"
  shows "\<exists>event sch' s'. dispatch_unload B ticket handle policy now sch s = Some (event, sch', s')
    \<and> worker_ok B sch' s'"
proof -
  have "runtime_inv B s" using ok by (simp add: worker_ok_def)
  from quiet_unload [OF this assms(2,3)] obtain r s' where
    "runtime_unload_model B handle policy now s = Some (r, s')" and quiet: "quiet B s s'" by blast
  then show ?thesis using worker_ok_quiet [OF ok quiet]
    by (simp add: dispatch_unload_def Let_def worker_ok_def)
qed

lemma dispatch_shutdown_ok:
  assumes ok: "worker_ok B sch s" and "stable_ids B"
  shows "\<exists>event stop s'. dispatch_shutdown B ticket sch s = Some (event, stop, scheduler_new, s')
    \<and> worker_ok B scheduler_new s'"
proof -
  have "runtime_inv B s" using ok by (simp add: worker_ok_def)
  from quiet_shutdown [OF this assms(2)] obtain r s1 where
    down: "runtime_shutdown B s = Some (r, s1)" and quiet: "quiet B s s1" by blast
  from discard_all_ok [OF worker_ok_quiet [OF ok quiet]] obtain s2 where
    "scheduler_discard_all sch s1 = (Inr (), scheduler_new, s2)" "worker_ok B scheduler_new s2" by blast
  with down show ?thesis by (simp add: dispatch_shutdown_def Let_def)
qed

lemma dispatch_ok:
  assumes ok: "worker_ok B sch s" and stable: "stable_ids B" and "command_ok command now"
  shows "\<exists>answer sch' s'. dispatch B allocates out command now sch s = Some (answer, sch', s')
    \<and> worker_ok B sch' s'"
proof -
  have inv: "runtime_inv B s" using ok by (simp add: worker_ok_def)
  note quiet = worker_ok_quiet [OF ok]
  show ?thesis
  proof (cases command)
    case (CmdCancelRequest ticket request_id reason)
    show ?thesis
    proof (cases "bt_get (sch_requests sch) request_id")
      case None
      then show ?thesis
        by (auto simp: CmdCancelRequest split: prod.splits intro: quiet quiet_removals(2) [OF inv stable])
    next
      case (Some task)
      with ok accounts_update [OF _ Some, of s "task\<lparr>gt_cancellation := Some reason\<rparr>"] show ?thesis
        by (simp add: CmdCancelRequest request_cancellation_def worker_ok_def)
    qed
  next
    case (CmdUnloadModel ticket handle policy)
    with dispatch_unload_ok [OF ok stable] assms(3) show ?thesis by fastforce
  next
    case (CmdShutdown ticket)
    with dispatch_shutdown_ok [OF ok stable] show ?thesis by fastforce
  qed (auto simp: ok split: prod.splits if_splits
      intro: quiet admit_ok [OF ok stable] quiet_load [OF inv] quiet_start [OF inv] quiet_steps [OF inv stable]
        quiet_removals [OF inv stable])
qed

subsection \<open>Turns\<close>

definition worker_wf :: "('src, 'ld, 'm, 'q) backend \<Rightarrow> ('ld, 'm, 'q) worker \<Rightarrow> bool" where
  "worker_wf B w \<longleftrightarrow> worker_ok B (wk_scheduler w) (wk_runtime w)"

text \<open>A worker that has ended: its registry satisfies its invariant.\<close>

fun progress_wf :: "('src, 'ld, 'm, 'q) backend \<Rightarrow> ('ld, 'm, 'q) worker_progress \<Rightarrow> bool" where
  "progress_wf B (WorkerRunning w) \<longleftrightarrow> worker_wf B w"
| "progress_wf B (WorkerStopped (WorkerEnd preserved s)) \<longleftrightarrow> runtime_inv B s"

fun receive_ok :: "'src channel_receive \<Rightarrow> bool" where
  "receive_ok (Received command now) \<longleftrightarrow> command_ok command now"
| "receive_ok _ \<longleftrightarrow> True"

definition input_ok :: "'src worker_input \<Rightarrow> bool" where
  "input_ok i \<longleftrightarrow> (\<forall>r \<in> set (in_receives i). receive_ok r) \<and> receive_ok (in_wait i)"

lemma worker_wf_inv: "worker_wf B w \<Longrightarrow> runtime_inv B (wk_runtime w)"
  by (simp add: worker_wf_def worker_ok_def)

lemma maintenance_event_total:
  assumes "runtime_inv B s" and stable: "stable_ids B"
  shows "\<exists>event unloads' s'. maintenance_event B now unloads s = Some (event, unloads', s') \<and> quiet B s s'"
proof -
  from poll_unload_total [OF assms, of now] obtain t s' where
    "poll_unload_transition B now s = Some (t, s')" "quiet B s s'" by (blast intro: quiet_config)
  then show ?thesis by (auto simp: maintenance_event_def split: option.splits sum.splits)
qed

lemma worker_maintain_total:
  assumes wf: "worker_wf B w" and stable: "stable_ids B"
  shows "\<exists>w'. worker_maintain B now w = Some w' \<and> worker_wf B w'"
proof -
  note inv = worker_wf_inv [OF wf]
  obtain r s where poll: "poll_cleanup B (wk_runtime w) = (r, s)" by fastforce
  have quiet: "quiet B (wk_runtime w) s" by (rule quiet_poll_cleanup [OF inv stable poll])
  define s1 where "s1 = (case r of Inl e \<Rightarrow> record_maintenance_error e s | Inr _ \<Rightarrow> s)"
  have quiet1: "quiet B (wk_runtime w) s1" using quiet by (simp add: s1_def split: sum.splits)
  then have inv1: "runtime_inv B s1" by (simp add: quiet_def)
  from maintenance_event_total [OF inv1 stable] obtain event unloads s2 where
    event: "maintenance_event B now (wk_pending_unloads w) s1 = Some (event, unloads, s2)"
    and quiet2: "quiet B s1 s2" by blast
  have "worker_ok B (wk_scheduler w) s2"
    using worker_ok_quiet [OF _ quiet_trans [OF quiet1 quiet2]] wf by (simp add: worker_wf_def)
  with poll event show ?thesis
    by (auto simp: worker_maintain_def s1_def [symmetric] worker_wf_def worker_ok_def Let_def
        split: option.splits prod.splits)
qed

lemma worker_select_wf: "worker_wf B w \<Longrightarrow> worker_wf B (worker_select w)"
  by (auto simp: worker_select_def worker_wf_def split: option.splits list.splits)

lemma disconnect_total:
  "worker_wf B w \<Longrightarrow> stable_ids B \<Longrightarrow> \<exists>e. shutdown_after_disconnect B (wk_runtime w) = Some e \<and> progress_wf B (WorkerStopped e)"
  using quiet_shutdown [OF worker_wf_inv] by (fastforce simp: shutdown_after_disconnect_def quiet_def)

lemma worker_publish_total:
  assumes "worker_wf B w" and stable: "stable_ids B"
  shows "\<exists>sent progress. worker_publish B send w = Some (sent, progress) \<and> progress_wf B progress"
proof -
  have "progress_wf B (WorkerStopped (finish_worker stop (wk_runtime w)))" for stop
    using worker_wf_inv [OF assms(1)] by (simp add: finish_worker_def)
  with assms(1) disconnect_total [OF assms] show ?thesis
    by (auto simp: worker_publish_def worker_wf_def Let_def split: option.splits channel_send.splits)
qed

lemma worker_command_total:
  assumes "worker_wf B w" and "command_ok command now" and stable: "stable_ids B"
  shows "\<exists>w'. worker_command B allocates out command now w = Some w' \<and> worker_wf B w'"
proof -
  from dispatch_ok [OF assms(1) [unfolded worker_wf_def] stable assms(2)] obtain answer sch s where
    "dispatch B allocates out command now (wk_scheduler w) (wk_runtime w) = Some (answer, sch, s)"
    "worker_ok B sch s" by blast
  then show ?thesis
    by (cases answer) (auto simp: worker_command_def worker_wf_def Let_def split: option.splits)
qed

lemma worker_commands_total:
  "worker_wf B w \<Longrightarrow> \<forall>r \<in> set receives. receive_ok r \<Longrightarrow> stable_ids B
    \<Longrightarrow> \<exists>taken progress. worker_commands B allocates out backlog n receives w = Some (taken, progress)
        \<and> progress_wf B progress"
proof (induction n arbitrary: receives w)
  case (Suc n)
  show ?case
  proof (cases receives)
    case (Cons r rest)
    show ?thesis
    proof (cases r)
      case (Received command now)
      with Suc.prems Cons have "command_ok command now" by simp
      from worker_command_total [OF Suc.prems(1) this Suc.prems(3)] obtain w1 where w1:
        "worker_command B allocates out command now w = Some w1" "worker_wf B w1" by blast
      with Suc.IH [of w1 rest] Suc.prems Cons obtain taken progress where
        "worker_commands B allocates out backlog n rest w1 = Some (taken, progress)" "progress_wf B progress"
        by auto
      with w1 Suc.prems(1) Cons Received show ?thesis by simp
    qed (use Suc.prems(1) Cons disconnect_total [OF Suc.prems(1,3)] in auto)
  qed (simp add: Suc.prems)
qed simp

lemma worker_wait_total:
  assumes "worker_wf B w" and "receive_ok receive" and stable: "stable_ids B"
  shows "\<exists>taken progress. worker_wait B allocates out receive w = Some (taken, progress) \<and> progress_wf B progress"
proof (cases receive)
  case (Received command now)
  with assms worker_command_total [OF assms(1) _ stable, of command now allocates out] show ?thesis
    by (auto simp: worker_wait_def)
qed (use assms(1) disconnect_total [OF assms(1) stable] in \<open>auto simp: worker_wait_def\<close>)

lemma worker_turn_total:
  assumes wf: "worker_wf B w" and ok: "input_ok i" and stable: "stable_ids B"
  shows "\<exists>sent taken progress out'. worker_turn B allocates expf backlog i w out = Some (sent, taken, progress, out')
    \<and> progress_wf B progress"
proof -
  from worker_maintain_total [OF wf stable] obtain w1 where w1: "worker_maintain B (in_now i) w = Some w1"
    "worker_wf B w1" by blast
  from worker_publish_total [OF worker_select_wf [OF w1(2)] stable] obtain sent p1 where
    p1: "worker_publish B (in_send i) (worker_select w1) = Some (sent, p1)" "progress_wf B p1" by blast
  show ?thesis
  proof (cases p1)
    case (WorkerStopped e)
    with w1 p1 show ?thesis by (simp add: worker_turn_def)
  next
    case (WorkerRunning w2)
    then have wf2: "worker_wf B w2" using p1 by simp
    from ok have oks: "\<forall>r \<in> set (in_receives i). receive_ok r" "receive_ok (in_wait i)" by (simp_all add: input_ok_def)
    from worker_commands_total [OF wf2 oks(1) stable] obtain taken p2 where
      p2: "worker_commands B allocates out backlog 8 (in_receives i) w2 = Some (taken, p2)" "progress_wf B p2" by blast
    show ?thesis
    proof (cases "wk_stop w2 = None")
      case False
      with w1 p1 WorkerRunning wf2 show ?thesis by (simp add: worker_turn_def)
    next
      case running: True
      show ?thesis
      proof (cases p2)
        case (WorkerStopped e)
        with w1 p1 \<open>p1 = WorkerRunning w2\<close> running p2 show ?thesis by (simp add: worker_turn_def)
      next
        case w3: (WorkerRunning w3)
        obtain adv sch s out1 where step: "scheduler_advance_one B expf (wk_scheduler w3) (wk_runtime w3) out
          = (adv, sch, s, out1)" by (metis prod_cases4)
        have "worker_ok B (wk_scheduler w3) (wk_runtime w3)" using p2 w3 by (simp add: worker_wf_def)
        from scheduler_advance_ok [OF this stable step]
        have wf4: "worker_wf B (w3\<lparr>wk_scheduler := sch, wk_runtime := s\<rparr>)" by (simp add: worker_wf_def)
        from worker_wait_total [OF wf4 oks(2) stable] obtain waited p3 where
          "worker_wait B allocates out1 (in_wait i) (w3\<lparr>wk_scheduler := sch, wk_runtime := s\<rparr>) = Some (waited, p3)"
          "progress_wf B p3" by blast
        with w1 p1 WorkerRunning running p2 w3 step wf4 show ?thesis by (simp add: worker_turn_def Let_def)
      qed
    qed
  qed
qed

end
