(* ===== verification/Worker_Turns.thy ===== *)
theory Worker_Turns
  imports Worker_Accounting
begin

section \<open>Invariants of a turn\<close>

text \<open>
  The interface \<open>turn_invariant\<close>: a relation between the events sent, the commands taken, the
  worker and its output that every phase of a turn keeps, \<open>inv\<close>, and what it leaves when the worker
  ends, \<open>final\<close>. Inside the locale the phases are composed the way \<open>run_worker\<close> composes them.
\<close>

locale turn_invariant =
  fixes B :: "('src, 'ld, 'm, 'q) backend" and expf :: "f32 \<Rightarrow> f32" and backlog :: usize
    and inv :: "runtime_event list \<Rightarrow> 'src runtime_command list \<Rightarrow> ('ld, 'm, 'q) worker \<Rightarrow> generation_output \<Rightarrow> bool"
    and final :: "runtime_event list \<Rightarrow> 'src runtime_command list \<Rightarrow> generation_output \<Rightarrow> bool"
  assumes maintain: "inv sent taken w out \<Longrightarrow> worker_maintain B now w = Some w' \<Longrightarrow> inv sent taken w' out"
    and select: "inv sent taken w out \<Longrightarrow> inv sent taken (worker_select w) out"
    and sent: "inv sent taken w out \<Longrightarrow> wk_pending_event w = Some event
      \<Longrightarrow> inv (sent @ [event]) taken (w\<lparr>wk_pending_event := None\<rparr>) out"
    and command: "inv sent taken w out \<Longrightarrow> wk_stop w = None \<Longrightarrow> length (wk_queued_events w) < backlog
      \<Longrightarrow> command_ok c now \<Longrightarrow> worker_command B allocates out' c now w = Some w'
      \<Longrightarrow> inv sent (taken @ [c]) w' out"
    and advance: "inv sent taken w out
      \<Longrightarrow> scheduler_advance_one B expf (wk_scheduler w) (wk_runtime w) out = (adv, sch, s, out')
      \<Longrightarrow> inv sent taken (w\<lparr>wk_scheduler := sch, wk_runtime := s\<rparr>) out'"
    and ended: "inv sent taken w out \<Longrightarrow> final sent taken out"
begin

fun progress_inv ::
    "runtime_event list \<Rightarrow> 'src runtime_command list \<Rightarrow> ('ld, 'm, 'q) worker_progress \<Rightarrow> generation_output \<Rightarrow> bool" where
  "progress_inv es cs (WorkerRunning w) out \<longleftrightarrow> inv es cs w out"
| "progress_inv es cs (WorkerStopped e) out \<longleftrightarrow> final es cs out"

lemma publish:
  assumes "inv es cs w out" and "worker_publish B send w = Some (new, progress)"
  shows "progress_inv (es @ new) cs progress out"
proof (cases "wk_pending_event w")
  case None
  with assms ended [OF assms(1)] show ?thesis
    by (auto simp: worker_publish_def split: option.splits if_splits)
next
  case (Some event)
  with assms sent [OF assms(1) Some] ended [OF assms(1)] ended [OF sent [OF assms(1) Some]] show ?thesis
    by (auto simp: worker_publish_def Let_def split: channel_send.splits option.splits)
qed

lemma commands:
  "inv es cs w out \<Longrightarrow> wk_stop w = None \<Longrightarrow> \<forall>r \<in> set receives. receive_ok r
    \<Longrightarrow> worker_commands B allocates out' backlog n receives w = Some (new, progress)
    \<Longrightarrow> progress_inv es (cs @ new) progress out
      \<and> (new = [] \<longrightarrow> (\<forall>w'. progress = WorkerRunning w' \<longrightarrow> w' = w))"
proof (induction n arbitrary: cs receives w new)
  case 0
  from 0(4) have "new = []" "progress = WorkerRunning w" by simp_all
  with 0(1) show ?case by simp
next
  case (Suc n)
  show ?case
  proof (cases "backlog \<le> length (wk_queued_events w) \<or> receives = []")
    case True
    with Suc.prems(4) have "new = []" "progress = WorkerRunning w" by (auto split: if_splits)
    with Suc.prems(1) show ?thesis by simp
  next
    case False
    then obtain r rest where receives: "receives = r # rest" by (cases receives) auto
    show ?thesis
    proof (cases r)
      case (Received c now)
      from Suc.prems False receives Received obtain w1 where
        w1: "worker_command B allocates out' c now w = Some w1" by (auto split: option.splits)
      have "command_ok c now" using Suc.prems(3) receives Received by simp
      with False have i1: "inv es (cs @ [c]) w1 out" by (intro command [OF Suc.prems(1,2) _ _ w1]) auto
      show ?thesis
      proof (cases "wk_stop w1")
        case (Some stop)
        with i1 w1 Suc.prems False receives Received show ?thesis by auto
      next
        case None
        with w1 Suc.prems False receives Received obtain later where
          rest: "worker_commands B allocates out' backlog n rest w1 = Some (later, progress)"
          and new: "new = c # later" by auto
        have "\<forall>r \<in> set rest. receive_ok r" using Suc.prems(3) receives by simp
        from Suc.IH [OF i1 None this rest] new show ?thesis by simp
      qed
    qed (use Suc.prems False receives ended [OF Suc.prems(1)] in auto)
  qed
qed

lemma wait:
  assumes "inv es cs w out" and "wk_stop w = None" and "length (wk_queued_events w) < backlog"
    and "receive_ok receive" and "worker_wait B allocates out' receive w = Some (new, progress)"
  shows "progress_inv es (cs @ new) progress out"
proof (cases receive)
  case (Received c now)
  with assms command [OF assms(1-3)] show ?thesis by (auto simp: worker_wait_def)
qed (use assms ended [OF assms(1)] in \<open>auto simp: worker_wait_def\<close>)

lemma turn:
  assumes start: "inv es cs w out" and ok: "input_ok i"
    and run: "worker_turn B allocates expf backlog i w out = Some (new, taken, progress, out')"
  shows "progress_inv (es @ new) (cs @ taken) progress out'"
proof -
  from run obtain w1 where w1: "worker_maintain B (in_now i) w = Some w1"
    by (auto simp: worker_turn_def split: option.splits)
  from run w1 obtain new1 p1 where p1: "worker_publish B (in_send i) (worker_select w1) = Some (new1, p1)"
    by (auto simp: worker_turn_def split: option.splits)
  note i1 = publish [OF select [OF maintain [OF start w1]] p1]
  show ?thesis
  proof (cases p1)
    case (WorkerStopped e)
    with run w1 p1 i1 show ?thesis by (auto simp: worker_turn_def)
  next
    case w2: (WorkerRunning w2)
    show ?thesis
    proof (cases "wk_stop w2")
      case (Some stop)
      with run w1 p1 w2 i1 show ?thesis by (auto simp: worker_turn_def)
    next
      case None
      from run w1 p1 w2 None obtain taken1 p2 where
        p2: "worker_commands B allocates out backlog 8 (in_receives i) w2 = Some (taken1, p2)"
        by (auto simp: worker_turn_def split: option.splits)
      have "inv (es @ new1) cs w2 out" using i1 w2 by simp
      from commands [OF this None _ p2] ok have i2: "progress_inv (es @ new1) (cs @ taken1) p2 out"
        and none: "taken1 = [] \<longrightarrow> (\<forall>w'. p2 = WorkerRunning w' \<longrightarrow> w' = w2)" by (simp_all add: input_ok_def)
      show ?thesis
      proof (cases p2)
        case (WorkerStopped e)
        with run w1 p1 w2 None p2 i2 show ?thesis by (auto simp: worker_turn_def)
      next
        case w3: (WorkerRunning w3)
        obtain adv sch s out1 where step: "scheduler_advance_one B expf (wk_scheduler w3) (wk_runtime w3) out
          = (adv, sch, s, out1)" by (metis prod_cases4)
        let ?w4 = "w3\<lparr>wk_scheduler := sch, wk_runtime := s\<rparr>"
        have i4: "inv (es @ new1) (cs @ taken1) ?w4 out1"
          by (rule advance [OF _ step]) (use i2 w3 in simp)
        show ?thesis
        proof (cases "taken1 = [] \<and> \<not> sa_progressed adv \<and> length (wk_queued_events w3) < backlog")
          case False
          with run w1 p1 w2 None p2 w3 step i4 show ?thesis by (auto simp: worker_turn_def Let_def)
        next
          case True
          then have "wk_stop ?w4 = None" "length (wk_queued_events ?w4) < backlog" using none None w3 by simp_all
          moreover from run have "map_option (\<lambda>(waited, progress). (new1, waited, progress, out1))
              (worker_wait B allocates out1 (in_wait i) ?w4) = Some (new, taken, progress, out')"
            by (auto simp: worker_turn_def Let_def w1 p1 w2 None p2 w3 step True)
          then have waited: "worker_wait B allocates out1 (in_wait i) ?w4 = Some (taken, progress)"
            and "out' = out1" "new = new1" by auto
          ultimately show ?thesis using wait [OF i4 _ _ _ waited] ok True by (simp add: input_ok_def)
        qed
      qed
    qed
  qed
qed

lemma turn_progress:
  assumes "inv es cs w out" and "input_ok i"
    and "worker_turn B allocates expf backlog i w out = Some (new, taken, progress, out')"
  shows "case progress of
      WorkerRunning w' \<Rightarrow> inv (es @ new) (cs @ taken) w' out'
    | WorkerStopped e \<Rightarrow> final (es @ new) (cs @ taken) out'"
  using turn [OF assms] by (cases progress) simp_all

end

end
