(* ===== verification/Worker_System.thy ===== *)
theory Worker_System
  imports Worker_Turns Generation_Stream "HOL-Library.Sublist"
begin

section \<open>The worker, its clients and its output\<close>

text \<open>
  The system of the worker thread and the other side of its channels: a step is a turn of the
  worker, with whatever the channels answer, or a step of the consumer of the token output. The
  state also records what the clients see: the events received, the output read, and the commands
  the worker took. The consumer's steps fall between the turns.
\<close>

subsection \<open>Runs\<close>

record ('src, 'ld, 'm, 'q) worker_system =
  sy_progress :: "('ld, 'm, 'q) worker_progress"
  sy_output :: generation_output
  sy_sent :: "runtime_event list"
  sy_taken :: "'src runtime_command list"
  sy_read :: "(request_id \<times> gen_item option) list"

datatype 'src system_event =
    WorkerTurn "capacity_resource \<Rightarrow> usize \<Rightarrow> bool" "'src worker_input"
  | ConsumerBegin
  | ConsumerEnd
  | ConsumerPanic

definition system_new :: "'ld \<Rightarrow> runtime_limits \<Rightarrow> usize \<Rightarrow> usize \<Rightarrow> ('src, 'ld, 'm, 'q) worker_system" where
  "system_new loader limits tokens records =
    \<lparr>sy_progress = WorkerRunning (worker_new loader limits), sy_output = token_output_new tokens records,
     sy_sent = [], sy_taken = [], sy_read = []\<rparr>"

definition consumer_step ::
    "generation_output_state token_event \<Rightarrow> ('src, 'ld, 'm, 'q) worker_system
       \<Rightarrow> ('src, 'ld, 'm, 'q) worker_system option" where
  "consumer_step e sy = map_option (\<lambda>(answer, out).
     sy\<lparr>sy_output := out, sy_read := sy_read sy @ token_delivered answer\<rparr>)
     (token_output_step e (sy_output sy))"

fun system_step ::
    "('src, 'ld, 'm, 'q) backend \<Rightarrow> (f32 \<Rightarrow> f32) \<Rightarrow> usize \<Rightarrow> 'src system_event
       \<Rightarrow> ('src, 'ld, 'm, 'q) worker_system \<Rightarrow> ('src, 'ld, 'm, 'q) worker_system option" where
  "system_step B expf backlog (WorkerTurn allocates i) sy =
    (case sy_progress sy of
       WorkerStopped e \<Rightarrow> None
     | WorkerRunning w \<Rightarrow>
         map_option (\<lambda>(sent, taken, progress, out).
           sy\<lparr>sy_progress := progress, sy_output := out, sy_sent := sy_sent sy @ sent,
             sy_taken := sy_taken sy @ taken\<rparr>)
           (worker_turn B allocates expf backlog i w (sy_output sy)))"
| "system_step B expf backlog ConsumerBegin sy = consumer_step TokenPullBegin sy"
| "system_step B expf backlog ConsumerEnd sy = consumer_step TokenPullEnd sy"
| "system_step B expf backlog ConsumerPanic sy = consumer_step TokenPullPanic sy"

fun system_event_ok :: "'src system_event \<Rightarrow> bool" where
  "system_event_ok (WorkerTurn allocates i) \<longleftrightarrow> input_ok i"
| "system_event_ok _ \<longleftrightarrow> True"

inductive system_reachable ::
    "('src, 'ld, 'm, 'q) backend \<Rightarrow> (f32 \<Rightarrow> f32) \<Rightarrow> usize \<Rightarrow> ('src, 'ld, 'm, 'q) worker_system \<Rightarrow> bool"
  for B expf backlog where
  reach_new: "rl_maximum_attempts limits \<noteq> 0 \<Longrightarrow> tokens < usize_max \<Longrightarrow> records < usize_max
    \<Longrightarrow> system_reachable B expf backlog (system_new loader limits tokens records)"
| reach_step: "system_reachable B expf backlog sy \<Longrightarrow> system_event_ok e
    \<Longrightarrow> system_step B expf backlog e sy = Some sy' \<Longrightarrow> system_reachable B expf backlog sy'"

subsection \<open>What the output holds of a request\<close>

text \<open>All the output so far: what the consumer has read and what waits for it.\<close>

definition output_log :: "('src, 'ld, 'm, 'q) worker_system \<Rightarrow> (request_id \<times> gen_item option) list" where
  "output_log sy = sy_read sy @ token_pending (sy_output sy)"

definition items_of :: "request_id \<Rightarrow> (request_id \<times> gen_item option) list \<Rightarrow> gen_item list" where
  "items_of request_id log = map (\<lambda>(_, item). the item) (filter (\<lambda>(i, item). i = request_id \<and> item \<noteq> None) log)"

lemma items_of_append [simp]: "items_of request_id (xs @ ys) = items_of request_id xs @ items_of request_id ys"
  by (simp add: items_of_def)

lemma items_of_Nil [simp]: "items_of request_id [] = []"
  by (simp add: items_of_def)

lemma items_of_own [simp]:
  "items_of request_id (map (\<lambda>item. (i, Some item)) items) = (if i = request_id then items else [])"
  by (induction items) (auto simp: items_of_def)

text \<open>The tokens a request allows: none follows one that ends the generation.\<close>

definition request_ends :: "generation_request \<Rightarrow> token_id list \<Rightarrow> bool" where
  "request_ends request ts \<longleftrightarrow> last ts \<in> set (gr_eos_tokens request)
     \<or> (\<exists>stop \<in> set (gr_stop_sequences request). suffix (gs_tokens stop) ts)
     \<or> unat (gr_maximum_generated_tokens request) \<le> length ts"

definition request_allows :: "generation_request \<Rightarrow> token_id list \<Rightarrow> bool" where
  "request_allows request ts \<longleftrightarrow> length ts \<le> unat (gr_maximum_generated_tokens request)
     \<and> (\<forall>n. 0 < n \<longrightarrow> n < length ts \<longrightarrow> \<not> request_ends request (take n ts))"

text \<open>
  A request identity may be used again once its generation is released. Its items are the
  generations published under it, in order, each for a request the worker took.
\<close>

definition generation_of :: "'src runtime_command list \<Rightarrow> request_id \<Rightarrow> generation_request \<Rightarrow> gen_item list \<Rightarrow> bool" where
  "generation_of taken request_id request items \<longleftrightarrow>
     gr_request_id request = request_id \<and> (\<exists>ticket handle. CmdGenerate ticket handle request \<in> set taken)
     \<and> (\<exists>stage. gen_trace Streaming items stage) \<and> request_allows request (tokens_of items)"

definition generation_complete :: "gen_item list \<Rightarrow> bool" where
  "generation_complete items \<longleftrightarrow> (\<exists>outcome. gen_trace Streaming items (GenReleased outcome))"

definition generations_of ::
    "'src runtime_command list \<Rightarrow> request_id \<Rightarrow> (generation_request \<times> gen_item list) list \<Rightarrow> gen_item list \<Rightarrow> bool" where
  "generations_of taken request_id gens items \<longleftrightarrow>
     items = concat (map snd gens)
     \<and> (\<forall>(request, part) \<in> set gens. generation_of taken request_id request part)
     \<and> (\<forall>(request, part) \<in> set (butlast gens). generation_complete part)"

subsection \<open>Tasks and the requests they come from\<close>

lemma stop_matches_suffix:
  "stop_matches ts stops \<longleftrightarrow> (\<exists>stop \<in> set stops. suffix (gs_tokens stop) ts)"
proof -
  have "length xs \<le> length ts \<and> drop (length ts - length xs) ts = xs \<longleftrightarrow> suffix xs ts" for xs :: "token_id list"
    by (metis append_eq_conv_conj append_take_drop_id diff_diff_cancel length_append length_drop suffix_def
        suffix_drop suffix_length_le add_diff_cancel_right')
  then show ?thesis by (induction stops) auto
qed

definition task_for :: "generation_request \<Rightarrow> generation_task \<Rightarrow> bool" where
  "task_for request task \<longleftrightarrow>
     gt_maximum_generated_tokens task = unat (gr_maximum_generated_tokens request)
     \<and> gt_eos_tokens task = gr_eos_tokens request \<and> gt_stop_sequences task = gr_stop_sequences request"

lemma task_for_frame: "task_frame task' = task_frame task \<Longrightarrow> task_for request task' = task_for request task"
  by (simp add: task_for_def task_frame_def)

lemma task_for_ends: "task_for request task \<Longrightarrow> ends_at task ts = request_ends request ts"
  by (auto simp: task_for_def ends_at_def finish_after_token_def request_ends_def stop_matches_suffix)

lemma task_wf_allows:
  assumes "task_wf task" and "task_for request task"
  shows "request_allows request (published_tokens task)"
proof -
  have generated: "length (gt_generated task) \<le> unat (gr_maximum_generated_tokens request)"
    "\<And>n. 0 < n \<Longrightarrow> n < length (gt_generated task) \<Longrightarrow> \<not> request_ends request (take n (gt_generated task))"
    using assms task_for_ends [OF assms(2)] by (auto simp: task_wf_def task_for_def)
  show ?thesis
  proof (cases "gt_pending_token task = None")
    case True
    with generated show ?thesis by (simp add: request_allows_def published_tokens_def)
  next
    case False
    with generated show ?thesis
      by (auto simp: request_allows_def published_tokens_def butlast_conv_take min_def)
  qed
qed

subsection \<open>The stream of one request identity\<close>

definition stream_for ::
    "worker_stop option \<Rightarrow> 'src runtime_command list \<Rightarrow> request_id \<Rightarrow> generation_task option
       \<Rightarrow> gen_item list \<Rightarrow> bool" where
  "stream_for stop taken request_id slot items \<longleftrightarrow>
    (case slot of
       None \<Rightarrow> \<exists>gens. generations_of taken request_id gens items
         \<and> (stop = None \<longrightarrow> (\<forall>(request, part) \<in> set gens. generation_complete part))
     | Some task \<Rightarrow> \<exists>gens request part.
         generations_of taken request_id (gens @ [(request, part)]) items
         \<and> gen_trace Streaming part (stage_of_phase (gt_phase task))
         \<and> tokens_of part = published_tokens task \<and> task_for request task \<and> task_wf task)"

lemma generations_taken:
  "generations_of taken request_id gens items \<Longrightarrow> generations_of (taken @ extra) request_id gens items"
  by (fastforce simp: generations_of_def generation_of_def)

lemma stream_taken: "stream_for stop taken i slot items \<Longrightarrow> stream_for stop (taken @ extra) i slot items"
  unfolding stream_for_def by (auto split: option.splits intro: generations_taken)

lemma stream_generations:
  "stream_for stop taken i slot items \<Longrightarrow> \<exists>gens. generations_of taken i gens items"
  by (auto simp: stream_for_def split: option.splits)

lemma stream_discard: "stream_for stop taken i slot items \<Longrightarrow> stream_for (Some x) taken i None items"
  using stream_generations by (fastforce simp: stream_for_def)

lemma stream_start: "stream_for stop taken i None []"
  by (auto simp: stream_for_def generations_of_def intro!: exI [of _ "[]"])

lemma generations_snoc:
  "generations_of taken i (gens @ [(request, part)]) items \<longleftrightarrow>
     (\<exists>before. items = before @ part \<and> generations_of taken i gens before
        \<and> (\<forall>(r, p) \<in> set gens. generation_complete p) \<and> generation_of taken i request part)"
  unfolding generations_of_def by (auto dest: in_set_butlastD)

lemma stream_admit:
  assumes "stream_for None taken i None items" and "CmdGenerate ticket handle request \<in> set taken"
    and "gr_request_id request = i" and "gr_maximum_generated_tokens request \<noteq> 0"
    and "gz_maximum_generated sizes = unat (gr_maximum_generated_tokens request)"
  shows "stream_for stop taken i (Some (new_generation_task handle request sizes)) items"
proof -
  from assms(1) obtain gens where gens: "generations_of taken i gens items"
    "\<forall>(r, p) \<in> set gens. generation_complete p" by (auto simp: stream_for_def)
  have "generation_of taken i request []"
    using assms(2,3) by (auto simp: generation_of_def tokens_of_def request_allows_def intro: trace_nil)
  with gens have "generations_of taken i (gens @ [(request, [])]) items" by (simp add: generations_snoc)
  moreover have "gen_trace Streaming [] Streaming" by (rule trace_nil)
  moreover have "task_for request (new_generation_task handle request sizes)"
    "task_wf (new_generation_task handle request sizes)"
    using assms(4,5) by (simp_all add: task_for_def task_wf_def new_generation_task_def unat_eq_zero)
  moreover have "tokens_of [] = published_tokens (new_generation_task handle request sizes)"
    by (simp add: tokens_of_def published_tokens_def new_generation_task_def)
  moreover have "stage_of_phase (gt_phase (new_generation_task handle request sizes)) = Streaming"
    by (simp add: new_generation_task_def)
  ultimately show ?thesis unfolding stream_for_def option.case by metis
qed

lemma stream_moves:
  assumes stream: "stream_for stop taken i (Some task) items" and moves: "task_moves task xs stage task'"
  obtains gens request part where "generations_of taken i (gens @ [(request, part)]) (items @ xs)"
    "gen_trace Streaming part stage" "tokens_of part = published_tokens task'" "task_for request task'"
    "task_wf task'"
proof -
  from stream obtain gens request part where part: "generations_of taken i (gens @ [(request, part)]) items"
    "gen_trace Streaming part (stage_of_phase (gt_phase task))" "tokens_of part = published_tokens task"
    "task_for request task" by (auto simp: stream_for_def)
  have trace: "gen_trace Streaming (part @ xs) stage"
    using gen_trace_append [OF part(2)] moves by (simp add: task_moves_def)
  have tokens: "tokens_of (part @ xs) = published_tokens task'"
    using part(3) moves by (simp add: task_moves_def tokens_of_def)
  have task: "task_for request task'" "task_wf task'"
    using part(4) moves task_for_frame unfolding task_moves_def by blast+
  have "generation_of taken i request (part @ xs)"
    using part(1) trace tokens task_wf_allows [OF task(2,1)] by (auto simp: generations_snoc generation_of_def)
  with part(1) have "generations_of taken i (gens @ [(request, part @ xs)]) (items @ xs)"
    by (auto simp: generations_snoc)
  with trace tokens task show ?thesis by (intro that)
qed

lemma stream_step:
  assumes "stream_for stop taken i (Some task) items" and "task_moves task xs (stage_of_phase (gt_phase task')) task'"
  shows "stream_for stop taken i (Some task') (items @ xs)"
  by (rule stream_moves [OF assms]) (auto simp: stream_for_def)

lemma stream_release:
  assumes "stream_for stop taken i (Some task) items" and "task_moves task xs (GenReleased outcome) task'"
  shows "stream_for stop taken i None (items @ xs)"
proof (rule stream_moves [OF assms])
  fix gens request part
  assume *: "generations_of taken i (gens @ [(request, part)]) (items @ xs)"
    "gen_trace Streaming part (GenReleased outcome)"
  then have "\<forall>(r, p) \<in> set (gens @ [(request, part)]). generation_complete p"
    by (auto simp: generations_snoc generation_complete_def)
  with *(1) have "\<exists>gens. generations_of taken i gens (items @ xs) \<and> (\<forall>(r, p) \<in> set gens. generation_complete p)"
    by blast
  then show ?thesis by (auto simp: stream_for_def)
qed

subsection \<open>The streams of all requests\<close>

definition streams ::
    "worker_stop option \<Rightarrow> 'src runtime_command list \<Rightarrow> generation_scheduler
       \<Rightarrow> (request_id \<times> gen_item option) list \<Rightarrow> bool" where
  "streams stop taken sch log \<longleftrightarrow>
     (\<forall>i. stream_for stop taken i (bt_get (sch_requests sch) i) (items_of i log))"

lemma streams_taken: "streams stop taken sch log \<Longrightarrow> streams stop (taken @ extra) sch log"
  by (simp add: streams_def stream_taken)

lemma streams_cursor [simp]: "streams stop taken (sch\<lparr>sch_cursor := c\<rparr>) log = streams stop taken sch log"
  by (simp add: streams_def)

lemma streams_stop:
  assumes "streams stop taken sch log" shows "streams (Some x) taken scheduler_new log"
  using assms stream_discard by (fastforce simp: streams_def scheduler_new_def bt_get_empty)

lemma stream_cancellation [simp]:
  "stream_for stop taken i (Some (task\<lparr>gt_cancellation := c\<rparr>)) items = stream_for stop taken i (Some task) items"
proof -
  have "task_for request (task\<lparr>gt_cancellation := c\<rparr>) = task_for request task" for request
    by (simp add: task_for_def)
  then show ?thesis by (simp add: stream_for_def task_wf_scratch published_tokens_def)
qed

lemma streams_model_cancellation [simp]:
  "streams stop taken (request_model_cancellation model_id reason sch) log = streams stop taken sch log"
proof -
  let ?f = "\<lambda>task. if mh_id (gt_handle task) = model_id then task\<lparr>gt_cancellation := Some reason\<rparr> else task"
  have "bt_get (sch_requests (request_model_cancellation model_id reason sch)) i
    = map_option ?f (bt_get (sch_requests sch) i)" for i
    by (simp add: request_model_cancellation_def bt_get_def map_of_map [where f = ?f])
  moreover have "stream_for stop taken i (map_option ?f slot) items = stream_for stop taken i slot items" for i slot items
    by (cases slot) simp_all
  ultimately show ?thesis by (simp add: streams_def)
qed

lemma completed_terminal:
  assumes "advance_task B expf request_id task s out = (adv, task', s', out')" and "sa_completed adv \<noteq> None"
  shows "\<exists>t. gt_phase task' = PhaseTerminal t"
proof (cases "gt_phase task")
  case (PhaseTerminal t)
  with assms show ?thesis by (auto simp: advance_task_def split: prod.splits)
qed (use assms in \<open>auto simp: advance_task_def publish_token_def Let_def
  split: prod.splits option.splits bool.splits sum.splits\<close>)

lemma advance_streams:
  assumes inv: "token_output_inv out" and streams: "streams stop taken sch (read @ token_pending out)"
    and run: "scheduler_advance_one B expf sch s out = (adv, sch', s', out')"
  shows "token_output_inv out' \<and> streams stop taken sch' (read @ token_pending out')"
proof (cases "\<exists>request_id task. next_request sch = Some request_id
    \<and> bt_get (sch_requests sch) request_id = Some task")
  case False
  with run inv streams show ?thesis by (auto simp: scheduler_advance_one_def split: option.splits)
next
  case True
  then obtain i task where pick: "next_request sch = Some i" "bt_get (sch_requests sch) i = Some task" by blast
  obtain a task1 s1 out1 where step: "advance_task B expf i task s out = (a, task1, s1, out1)"
    by (metis prod_cases4)
  let ?log = "read @ token_pending out"
  have own: "stream_for stop taken i (Some task) (items_of i ?log)"
    using streams pick(2) unfolding streams_def by metis
  then have "task_wf task" by (auto simp: stream_for_def)
  from advance_task_law [OF inv this step] obtain items where items: "adds i items out out1"
    "task_moves task items (released_stage a task1) task1" "sa_completed a \<in> {None, Some i}" by blast
  then have out1: "token_output_inv out1"
    "items_of j (read @ token_pending out1) = items_of j ?log @ (if j = i then items else [])" for j
    by (auto simp: adds_def)
  have others: "stream_for stop taken j (bt_get (sch_requests sch) j) (items_of j ?log)" for j
    using streams by (simp add: streams_def)
  show ?thesis
  proof (cases "sa_completed a = Some i")
    case False
    then have "stream_for stop taken i (Some task1) (items_of i ?log @ items)"
      using own items by (intro stream_step [where task = task]) auto
    with others out1 have "streams stop taken (sch\<lparr>sch_requests := bt_insert i task1 (sch_requests sch)\<rparr>)
        (read @ token_pending out1)" by (auto simp: streams_def bt_get_insert)
    with False pick step run out1(1) show ?thesis
      by (auto simp: scheduler_advance_one_def Let_def streams_def)
  next
    case True
    then obtain t where "gt_phase task1 = PhaseTerminal t" using completed_terminal [OF step] by auto
    with True items have "stream_for stop taken i None (items_of i ?log @ items)"
      by (intro stream_release [OF own, where outcome = "tp_outcome t"]) (simp add: released_stage_def)
    with others out1 have "streams stop taken (sch\<lparr>sch_requests := bt_remove i (bt_insert i task1 (sch_requests sch))\<rparr>)
        (read @ token_pending out1)" by (auto simp: streams_def bt_get_insert bt_get_remove)
    with True pick step run out1(1) show ?thesis
      by (auto simp: scheduler_advance_one_def Let_def streams_def split: prod.splits)
  qed
qed

lemma admit_streams:
  assumes streams: "streams None taken sch log" and taken: "CmdGenerate ticket handle request \<in> set taken"
    and "gr_maximum_generated_tokens request \<noteq> 0"
    and run: "scheduler_admit B allocates out handle request sch s = (r, sch', s')"
  shows "streams None taken sch' log"
proof -
  consider (same) "sch' = sch"
    | (admitted) sizes where "sch' = sch\<lparr>sch_requests := bt_insert (gr_request_id request)
        (new_generation_task handle request sizes) (sch_requests sch)\<rparr>"
        "bt_get (sch_requests sch) (gr_request_id request) = None"
        "gz_maximum_generated sizes = unat (gr_maximum_generated_tokens request)"
  proof (cases "prepare_generation B allocates sch (to_token_capacity out, to_record_capacity out) handle request s")
    case (Inl e)
    with run same show ?thesis by (simp add: scheduler_admit_def)
  next
    case prepared: (Inr sizes)
    then have new: "bt_get (sch_requests sch) (gr_request_id request) = None"
      "gz_maximum_generated sizes = unat (gr_maximum_generated_tokens request)"
      by (auto simp: prepare_generation_def bind_ok_Inr check_generation_request_def Let_def split: if_splits)
    obtain started s1 where "start_generation_request B handle (gr_request_id request)
      (gr_sequence_id request) (gr_sequence request) (gz_footprint sizes) (gz_vocabulary sizes) s = (started, s1)"
      by fastforce
    with prepared run have "sch' = sch \<or> sch' = sch\<lparr>sch_requests := bt_insert (gr_request_id request)
        (new_generation_task handle request sizes) (sch_requests sch)\<rparr>"
      by (auto simp: scheduler_admit_def split: sum.splits prod.splits if_splits)
    with new same admitted show ?thesis by blast
  qed
  then show ?thesis
  proof cases
    case same
    with streams show ?thesis by simp
  next
    case admitted
    have "stream_for None taken (gr_request_id request) None (items_of (gr_request_id request) log)"
      using streams admitted(2) unfolding streams_def by metis
    from stream_admit [OF this taken refl assms(3) admitted(3)] streams admitted(1) show ?thesis
      by (simp add: streams_def bt_get_insert)
  qed
qed

lemma dispatch_streams:
  assumes streams: "streams None taken sch log" and ok: "command_ok command now"
    and run: "dispatch B allocates out command now sch s = Some ((event, stop), sch', s')"
  shows "streams stop (taken @ [command]) sch' log"
proof -
  note kept = streams_taken [OF streams, of "[command]"]
  show ?thesis
  proof (cases command)
    case (CmdGenerate ticket handle request)
    with ok run admit_streams [OF kept, of ticket handle request B allocates out s] show ?thesis
      by (auto split: prod.splits)
  next
    case (CmdCancelRequest ticket request_id reason)
    show ?thesis
    proof (cases "bt_get (sch_requests sch) request_id")
      case None
      with CmdCancelRequest run kept show ?thesis by (auto split: prod.splits)
    next
      case (Some task)
      then have "stream_for None (taken @ [command]) request_id (Some (task\<lparr>gt_cancellation := Some reason\<rparr>))
        (items_of request_id log)" using kept unfolding streams_def stream_cancellation by metis
      with CmdCancelRequest Some run kept show ?thesis
        by (auto simp: request_cancellation_def streams_def bt_get_insert)
    qed
  next
    case (CmdUnloadModel ticket handle policy)
    with run kept show ?thesis by (auto simp: dispatch_unload_def Let_def split: if_splits)
  next
    case (CmdShutdown ticket)
    with run have "stop \<noteq> None" "sch' = scheduler_new"
      by (auto simp: dispatch_shutdown_def scheduler_discard_all_def Let_def split: prod.splits)
    with streams_stop [OF kept] show ?thesis by auto
  qed (use run kept in \<open>auto split: prod.splits\<close>)
qed

subsection \<open>Turns and runs\<close>

fun progress_streams ::
    "('ld, 'm, 'q) worker_progress \<Rightarrow> 'src runtime_command list \<Rightarrow> (request_id \<times> gen_item option) list \<Rightarrow> bool" where
  "progress_streams (WorkerRunning w) taken log \<longleftrightarrow> streams (wk_stop w) taken (wk_scheduler w) log"
| "progress_streams (WorkerStopped e) taken log \<longleftrightarrow> (\<forall>i. \<exists>gens. generations_of taken i gens (items_of i log))"

lemma streams_stopped: "streams stop taken sch log \<Longrightarrow> progress_streams (WorkerStopped e) taken log"
  using stream_generations by (fastforce simp: streams_def)

lemma maintain_frame:
  assumes "worker_maintain B now w = Some w'"
  shows "wk_stop w' = wk_stop w \<and> (wk_scheduler w' = wk_scheduler w
    \<or> (\<exists>m reason. wk_scheduler w' = request_model_cancellation m reason (wk_scheduler w)))"
proof -
  obtain r s where poll: "poll_cleanup B (wk_runtime w) = (r, s)" by fastforce
  define s1 where "s1 = (case r of Inl e \<Rightarrow> record_maintenance_error e s | Inr _ \<Rightarrow> s)"
  from assms poll obtain event unloads s2 where
    event: "maintenance_event B now (wk_pending_unloads w) s1 = Some (event, unloads, s2)"
    by (auto simp: worker_maintain_def s1_def [symmetric] Let_def)
  show ?thesis
  proof (cases event)
    case None
    obtain u e where "collect_completed_unloads s2 unloads (wk_maintenance_events w) = (u, e)" by fastforce
    with None assms poll event show ?thesis by (auto simp: worker_maintain_def s1_def [symmetric] Let_def)
  next
    case (Some m)
    obtain model_id ev where m: "m = (model_id, ev)" by fastforce
    obtain u e where "collect_completed_unloads s2 unloads
      (bt_insert model_id ev (wk_maintenance_events w)) = (u, e)" by fastforce
    with Some m assms poll event have "wk_stop w' = wk_stop w" "wk_scheduler w' =
      (if cancelled_by_drain ev then request_model_cancellation model_id cancellation_reason.DrainTimeout (wk_scheduler w)
       else wk_scheduler w)" by (auto simp: worker_maintain_def s1_def [symmetric] Let_def)
    then show ?thesis by metis
  qed
qed

lemma maintain_streams:
  assumes "worker_maintain B now w = Some w'"
  shows "streams stop taken (wk_scheduler w') log = streams stop taken (wk_scheduler w) log"
    "wk_stop w' = wk_stop w"
  using maintain_frame [OF assms] by auto

lemma select_frame [simp]:
  "wk_scheduler (worker_select w) = wk_scheduler w" "wk_stop (worker_select w) = wk_stop w"
  "wk_runtime (worker_select w) = wk_runtime w"
  by (auto simp: worker_select_def split: option.splits list.splits)

lemma command_streams:
  assumes "streams None taken (wk_scheduler w) log" and "wk_stop w = None" and "command_ok command now"
    and "worker_command B allocates out command now w = Some w'"
  shows "streams (wk_stop w') (taken @ [command]) (wk_scheduler w') log"
proof -
  from assms(4) obtain event stop sch s where
    run: "dispatch B allocates out command now (wk_scheduler w) (wk_runtime w) = Some ((event, stop), sch, s)"
    by (auto simp: worker_command_def)
  with assms(2,4) have "wk_stop w' = stop" "wk_scheduler w' = sch"
    by (cases stop; auto simp: worker_command_def Let_def split: if_splits)+
  with dispatch_streams [OF assms(1,3) run] show ?thesis by simp
qed

text \<open>Every phase of a turn keeps the streams, so every turn does.\<close>

interpretation stream_turns: turn_invariant B expf backlog
  "\<lambda>sent taken w out. token_output_inv out
     \<and> streams (wk_stop w) taken (wk_scheduler w) (read @ token_pending out)"
  "\<lambda>sent taken out. token_output_inv out
     \<and> (\<forall>i. \<exists>gens. generations_of taken i gens (items_of i (read @ token_pending out)))"
  for B :: "('src, 'ld, 'm, 'q) backend" and expf backlog read
proof (unfold_locales, goal_cases)
  case (1 sent taken w out now w')
  then show ?case by (simp add: maintain_streams)
next
  case (4 sent taken w out c now allocates out' w')
  then show ?case using command_streams [of taken w "read @ token_pending out" c now B allocates out' w'] by simp
next
  case (5 sent taken w out adv sch s out')
  then show ?case using advance_streams [of out "wk_stop w" taken "wk_scheduler w" read B expf "wk_runtime w"] by simp
next
  case (6 sent taken w out)
  then show ?case by (meson stream_generations streams_def)
qed simp_all

lemma turn_streams:
  assumes "streams (wk_stop w) taken (wk_scheduler w) (read @ token_pending out)"
    and "token_output_inv out" and "input_ok i"
    and "worker_turn B allocates expf backlog i w out = Some (sent, more_taken, progress, out')"
  shows "token_output_inv out' \<and> progress_streams progress (taken @ more_taken) (read @ token_pending out')"
  using stream_turns.turn_progress [OF conjI [OF assms(2,1)] assms(3,4)] by (cases progress) simp_all

text \<open>The invariant of the whole system.\<close>

definition system_inv :: "('src, 'ld, 'm, 'q) backend \<Rightarrow> ('src, 'ld, 'm, 'q) worker_system \<Rightarrow> bool" where
  "system_inv B sy \<longleftrightarrow> token_output_inv (sy_output sy) \<and> progress_wf B (sy_progress sy)
     \<and> progress_streams (sy_progress sy) (sy_taken sy) (output_log sy)"

lemma system_new_inv:
  assumes "rl_maximum_attempts limits \<noteq> 0" and "tokens < usize_max" and "records < usize_max"
  shows "system_inv B (system_new loader limits tokens records)"
proof -
  have "token_pending (token_output_new tokens records :: generation_output) = []"
    by (simp add: token_pending_def token_output_new_def read_batch_def token_batch_def)
  moreover have "accounts \<lparr>sch_requests = bt_empty, sch_cursor = None\<rparr> (runtime_new loader limits)"
    by (simp add: accounts_def runtime_new_def bt_inv_empty bt_entries_empty
        footprint_default_def all_components)
  ultimately show ?thesis
    using runtime_inv_new [OF assms(1), of B loader] token_output_inv_new [OF assms(2,3)]
    by (simp add: system_inv_def system_new_def worker_wf_def worker_ok_def worker_new_def output_log_def
        streams_def scheduler_new_def bt_get_empty stream_start)
qed

lemma consumer_step_inv:
  assumes "system_inv B sy" and "consumer_step e sy = Some sy'"
    and "e = TokenPullBegin \<or> e = TokenPullEnd \<or> e = TokenPullPanic"
  shows "system_inv B sy'"
proof -
  from assms(2) obtain answer out where step: "token_output_step e (sy_output sy) = Some (answer, out)"
    and sy': "sy' = sy\<lparr>sy_output := out, sy_read := sy_read sy @ token_delivered answer\<rparr>"
    by (auto simp: consumer_step_def)
  have inv: "token_output_inv (sy_output sy)" using assms(1) by (simp add: system_inv_def)
  have "token_accepted e answer = []" using assms(3) by auto
  with token_output_step_law [OF inv step] have "token_output_inv out"
    "token_delivered answer @ token_pending out = token_pending (sy_output sy)" by simp_all
  with assms(1) show ?thesis by (simp add: system_inv_def sy' output_log_def)
qed

lemma system_step_inv:
  assumes stable: "stable_ids B" and inv: "system_inv B sy" and ok: "system_event_ok e"
    and step: "system_step B expf backlog e sy = Some sy'"
  shows "system_inv B sy'"
proof (cases e)
  case (WorkerTurn allocates i)
  with step obtain w where w: "sy_progress sy = WorkerRunning w"
    by (auto split: worker_progress.splits)
  have out: "token_output_inv (sy_output sy)" and wf: "worker_wf B w"
    and streams: "streams (wk_stop w) (sy_taken sy) (wk_scheduler w) (sy_read sy @ token_pending (sy_output sy))"
    using inv w by (simp_all add: system_inv_def output_log_def)
  have i: "input_ok i" using ok WorkerTurn by simp
  from step WorkerTurn w obtain sent taken progress out' where
    run: "worker_turn B allocates expf backlog i w (sy_output sy) = Some (sent, taken, progress, out')"
    and sy': "sy' = sy\<lparr>sy_progress := progress, sy_output := out', sy_sent := sy_sent sy @ sent,
             sy_taken := sy_taken sy @ taken\<rparr>" by auto
  from turn_streams [OF streams out i run] worker_turn_total [OF wf i stable, of allocates expf backlog "sy_output sy"] run
  show ?thesis by (simp add: system_inv_def sy' output_log_def)
qed (use consumer_step_inv [OF inv] step in auto)

lemma system_reachable_inv:
  "system_reachable B expf backlog sy \<Longrightarrow> stable_ids B \<Longrightarrow> system_inv B sy"
  by (induction rule: system_reachable.induct) (auto intro: system_new_inv system_step_inv)

end
