(* ===== verification/Worker_Replies.thy ===== *)
theory Worker_Replies
  imports Worker_System "HOL-Library.Multiset"
begin

section \<open>Every command is answered once\<close>

text \<open>
  The contract of the worker's event channel. The order of the events is not part of it: a reply
  that finds the pending slot free overtakes replies that are still queued, so clients match
  events to commands by ticket.
\<close>

fun reply_for :: "'src runtime_command \<Rightarrow> runtime_event \<Rightarrow> bool" where
  "reply_for (CmdLoadModel ticket _ _ _ _) event \<longleftrightarrow> (\<exists>r. event = EvModelLoaded ticket r)"
| "reply_for (CmdStartRequest ticket _ _ _ _) event \<longleftrightarrow> (\<exists>r. event = EvRequestStarted ticket r)"
| "reply_for (CmdGenerate ticket _ _) event \<longleftrightarrow> (\<exists>r. event = EvGenerationAdmitted ticket r)"
| "reply_for (CmdPrefill ticket i _ _ _) event \<longleftrightarrow> (\<exists>r logits. event = EvPrefillCompleted ticket i r logits)"
| "reply_for (CmdDecode ticket i _ _) event \<longleftrightarrow> (\<exists>r logits. event = EvDecodeCompleted ticket i r logits)"
| "reply_for (CmdCompleteRequest ticket i _) event \<longleftrightarrow> (\<exists>r. event = EvRequestFinished ticket i r)"
| "reply_for (CmdCancelRequest ticket i _) event \<longleftrightarrow>
     (\<exists>r. event = EvGenerationCancellationRequested ticket i r) \<or> (\<exists>r. event = EvRequestFinished ticket i r)"
| "reply_for (CmdUnloadModel ticket _ _) event \<longleftrightarrow> (\<exists>r. event = EvModelUnload ticket r)"
| "reply_for (CmdSnapshot ticket) event \<longleftrightarrow> (\<exists>snapshot models. event = EvSnapshot ticket snapshot models)"
| "reply_for (CmdShutdown ticket) event \<longleftrightarrow> (\<exists>r. event = EvShutdown ticket r)"

lemma reply_ticket: "reply_for command event \<Longrightarrow> event_ticket_of event = command_ticket_of command"
  by (cases command) auto

lemma dispatch_shutdown_reply:
  "dispatch_shutdown B ticket sch s = Some (event, stop, sch', s') \<Longrightarrow> \<exists>r. event = EvShutdown ticket r"
  by (auto simp: dispatch_shutdown_def Let_def split_beta)

lemma dispatch_replies:
  "dispatch B allocates out command now sch s = Some ((event, stop), sch', s') \<Longrightarrow> reply_for command event"
  by (cases command) (auto simp: dispatch_unload_def Let_def dest: dispatch_shutdown_reply
      split: prod.splits if_splits)

text \<open>An unload that takes more than one turn is answered again when it ends or fails.\<close>

definition unload_taken :: "'src runtime_command list \<Rightarrow> command_ticket \<Rightarrow> bool" where
  "unload_taken taken ticket \<longleftrightarrow> (\<exists>handle policy. CmdUnloadModel ticket handle policy \<in> set taken)"

definition unload_completion :: "'src runtime_command list \<Rightarrow> runtime_event \<Rightarrow> bool" where
  "unload_completion taken event \<longleftrightarrow> (\<exists>ticket r. event = EvModelUnload ticket r \<and> unload_taken taken ticket)"

definition waiting_events :: "('ld, 'm, 'q) worker \<Rightarrow> runtime_event list" where
  "waiting_events w = (case wk_pending_event w of None \<Rightarrow> [] | Some event \<Rightarrow> [event]) @ wk_queued_events w"

text \<open>
  \<open>lost\<close> are the replies a shutdown or the end of the worker discards.
\<close>

definition answered :: "'src runtime_command list \<Rightarrow> bool \<Rightarrow> runtime_event list \<Rightarrow> bool" where
  "answered taken complete events \<longleftrightarrow>
     (\<exists>replies completions lost. list_all2 reply_for taken replies
        \<and> (\<forall>event \<in># completions. unload_completion taken event)
        \<and> mset events + lost = mset replies + completions \<and> (complete \<longrightarrow> lost = {#}))"

lemma unload_completion_taken: "unload_completion taken event \<Longrightarrow> unload_completion (taken @ extra) event"
  by (auto simp: unload_completion_def unload_taken_def)

lemma answered_weaken: "answered taken complete events \<Longrightarrow> answered taken False events"
  by (auto simp: answered_def)

lemma answered_fewer:
  assumes "answered taken complete events" and "mset events = mset events' + dropped"
  shows "answered taken False events'"
proof -
  from assms(1) obtain replies completions lost where "list_all2 reply_for taken replies"
    "\<forall>event \<in># completions. unload_completion taken event"
    "mset events + lost = mset replies + completions" by (auto simp: answered_def)
  with assms(2) show ?thesis unfolding answered_def by (metis union_assoc)
qed

lemma answered_same: "mset events' = mset events \<Longrightarrow> answered taken complete events' = answered taken complete events"
  by (simp add: answered_def)

lemma answered_completion:
  assumes "answered taken complete events" and "unload_completion taken event"
    and "mset events' = add_mset event (mset events)"
  shows "answered taken complete events'"
proof -
  from assms(1) obtain replies completions lost where *: "list_all2 reply_for taken replies"
    "\<forall>event \<in># completions. unload_completion taken event"
    "mset events + lost = mset replies + completions" "complete \<longrightarrow> lost = {#}" by (auto simp: answered_def)
  show ?thesis unfolding answered_def
    by (rule exI [of _ replies], rule exI [of _ "add_mset event completions"], rule exI [of _ lost])
      (use * assms in auto)
qed

lemma answered_reply:
  assumes "answered taken complete events" and "reply_for c event"
    and "mset events' = add_mset event (mset events)"
  shows "answered (taken @ [c]) complete events'"
proof -
  from assms(1) obtain replies completions lost where *: "list_all2 reply_for taken replies"
    "\<forall>event \<in># completions. unload_completion taken event"
    "mset events + lost = mset replies + completions" "complete \<longrightarrow> lost = {#}" by (auto simp: answered_def)
  show ?thesis unfolding answered_def
    by (rule exI [of _ "replies @ [event]"], rule exI [of _ completions], rule exI [of _ lost])
      (use * assms in \<open>auto simp: list_all2_appendI intro: unload_completion_taken\<close>)
qed

subsection \<open>The worker's tables of unloads\<close>

definition unload_tables :: "'src runtime_command list \<Rightarrow> (model_id, pending_unload) btree_map
    \<Rightarrow> (model_id, runtime_event) btree_map \<Rightarrow> bool" where
  "unload_tables taken unloads events \<longleftrightarrow>
     (\<forall>(k, p) \<in> set (bt_entries unloads). unload_taken taken (pu_ticket p))
     \<and> (\<forall>(k, event) \<in> set (bt_entries events). unload_completion taken event)"

lemma entries_insert: "e \<in> set (bt_entries (bt_insert k v m)) \<Longrightarrow> e = (k, v) \<or> e \<in> set (bt_entries m)"
  by (induction k v m rule: bt_insert.induct) (auto simp: bt_entries_def split: if_splits)

lemma entries_remove: "e \<in> set (bt_entries (bt_remove k m)) \<Longrightarrow> e \<in> set (bt_entries m)"
  by (simp add: bt_remove_def bt_entries_def)

lemma entries_get: "bt_get m k = Some v \<Longrightarrow> (k, v) \<in> set (bt_entries m)"
  by (simp add: bt_get_entries map_of_SomeD)

lemma tables_taken: "unload_tables taken unloads events \<Longrightarrow> unload_tables (taken @ extra) unloads events"
  unfolding unload_tables_def unload_taken_def by (fastforce intro: unload_completion_taken)

lemma tables_remove:
  "unload_tables taken unloads events \<Longrightarrow> unload_tables taken (bt_remove k unloads) events"
  "unload_tables taken unloads events \<Longrightarrow> unload_tables taken unloads (bt_remove k events)"
  by (auto simp: unload_tables_def dest!: entries_remove)

lemma tables_pending:
  "unload_tables taken unloads events \<Longrightarrow> unload_taken taken (pu_ticket p)
    \<Longrightarrow> unload_tables taken (bt_insert k p unloads) events"
  by (auto simp: unload_tables_def dest!: entries_insert)

lemma tables_event:
  "unload_tables taken unloads events \<Longrightarrow> unload_taken taken ticket
    \<Longrightarrow> unload_tables taken unloads (bt_insert k (EvModelUnload ticket r) events)"
  by (auto simp: unload_tables_def unload_completion_def dest!: entries_insert)

lemma tables_maintenance:
  assumes tables: "unload_tables taken unloads events"
    and run: "maintenance_event B now unloads s = Some (event, unloads', s')"
  shows "unload_tables taken unloads' events
    \<and> (\<forall>k e. event = Some (k, e) \<longrightarrow> unload_tables taken unloads' (bt_insert k e events))"
proof -
  from run obtain t s1 where poll: "poll_unload_transition B now s = Some (t, s1)"
    by (auto simp: maintenance_event_def)
  show ?thesis
  proof (cases "t = None \<or> (\<exists>handle r. t = Some (handle, r) \<and> bt_get unloads (mh_id handle) = None)")
    case True
    with run poll tables show ?thesis by (auto simp: maintenance_event_def)
  next
    case False
    then obtain handle r p where t: "t = Some (handle, r)" "bt_get unloads (mh_id handle) = Some p"
      by (metis not_None_eq surj_pair)
    then have "unload_taken taken (pu_ticket p)" using tables entries_get [OF t(2)]
      by (auto simp: unload_tables_def)
    with run poll tables t show ?thesis
      by (auto simp: maintenance_event_def intro!: tables_event tables_pending tables_remove
          split: sum.splits if_splits)
  qed
qed

lemma tables_collected:
  assumes "unload_tables taken unloads events" and "\<forall>(k, p) \<in> set completed. unload_taken taken (pu_ticket p)"
  shows "case foldl (\<lambda>(unloads, events) (model_id, pending).
          (bt_remove model_id unloads,
           bt_insert model_id (EvModelUnload (pu_ticket pending)
             (Inr \<lparr>ur_handle = pu_handle pending, ur_status = Unloaded,
                ur_cancelled_requests = pu_cancelled_requests pending\<rparr>)) events))
        (unloads, events) completed of (unloads, events) \<Rightarrow> unload_tables taken unloads events"
  using assms
proof (induction completed arbitrary: unloads events)
  case (Cons e completed)
  obtain k p where e: "e = (k, p)" by fastforce
  show ?case
    unfolding e foldl_Cons split_conv
    by (rule Cons.IH) (use Cons.prems in \<open>auto simp: e intro!: tables_event tables_remove\<close>)
qed simp

lemma tables_remembered:
  assumes "unload_tables taken unloads events"
  shows "unload_tables (taken @ [c]) (remember_pending_unload (unload_command_identity c) event s unloads) events"
proof (cases "unload_command_identity c")
  case None
  with tables_taken [OF assms] show ?thesis by (simp add: remember_pending_unload_def)
next
  case (Some identity)
  then obtain ticket handle policy where c: "c = CmdUnloadModel ticket handle policy" by (cases c) auto
  then have "unload_taken (taken @ [c]) ticket" by (auto simp: unload_taken_def)
  with c tables_taken [OF assms] show ?thesis
    by (auto simp: remember_pending_unload_def Let_def intro!: tables_pending tables_remove)
qed

subsection \<open>Turns\<close>

definition replies_inv ::
    "usize \<Rightarrow> runtime_event list \<Rightarrow> 'src runtime_command list \<Rightarrow> ('ld, 'm, 'q) worker \<Rightarrow> bool" where
  "replies_inv backlog sent taken w \<longleftrightarrow>
     answered taken (wk_stop w = None) (sent @ waiting_events w)
     \<and> unload_tables taken (wk_pending_unloads w) (wk_maintenance_events w)
     \<and> length (wk_queued_events w) \<le> backlog"

lemma maintain_replies:
  assumes inv: "replies_inv backlog sent taken w" and run: "worker_maintain B now w = Some w'"
  shows "replies_inv backlog sent taken w'"
proof -
  obtain r s where poll: "poll_cleanup B (wk_runtime w) = (r, s)" by fastforce
  define s1 where "s1 = (case r of Inl e \<Rightarrow> record_maintenance_error e s | Inr _ \<Rightarrow> s)"
  from run poll obtain event unloads s2 where
    event: "maintenance_event B now (wk_pending_unloads w) s1 = Some (event, unloads, s2)"
    by (auto simp: worker_maintain_def s1_def [symmetric] Let_def)
  define events where "events = (case event of None \<Rightarrow> wk_maintenance_events w
    | Some (k, e) \<Rightarrow> bt_insert k e (wk_maintenance_events w))"
  have tables: "unload_tables taken unloads events"
    using tables_maintenance [OF _ event] inv by (auto simp: replies_inv_def events_def split: option.splits)
  obtain unloads' events' where collected: "collect_completed_unloads s2 unloads events = (unloads', events')"
    by fastforce
  have unl: "\<forall>(k, p) \<in> set (bt_entries unloads). unload_taken taken (pu_ticket p)"
    using tables by (auto simp: unload_tables_def)
  have "\<forall>(k, p) \<in> set (filter (\<lambda>(model_id, pending). model_lifecycle_state s2 model_id = None
      \<and> \<not> is_model_cleanup_pending s2 model_id) (bt_entries unloads)). unload_taken taken (pu_ticket p)"
    using unl by auto
  from tables_collected [OF tables this] collected have "unload_tables taken unloads' events'"
    by (simp add: collect_completed_unloads_def)
  moreover have "wk_pending_event w' = wk_pending_event w" "wk_queued_events w' = wk_queued_events w"
    "wk_stop w' = wk_stop w" "wk_pending_unloads w' = unloads'" "wk_maintenance_events w' = events'"
    using run poll event collected
    by (cases event; auto simp: worker_maintain_def s1_def [symmetric] events_def Let_def split: prod.splits)+
  ultimately show ?thesis using inv by (simp add: replies_inv_def waiting_events_def)
qed

lemma select_replies:
  assumes inv: "replies_inv backlog sent taken w"
  shows "replies_inv backlog sent taken (worker_select w)"
proof (cases "wk_pending_event w")
  case (Some event)
  with inv show ?thesis by (simp add: worker_select_def)
next
  case None
  show ?thesis
  proof (cases "wk_queued_events w")
    case (Cons event events)
    with None inv show ?thesis by (simp add: worker_select_def replies_inv_def waiting_events_def)
  next
    case Nil
    show ?thesis
    proof (cases "bt_first (wk_maintenance_events w)")
      case None
      with \<open>wk_pending_event w = None\<close> Nil inv show ?thesis by (simp add: worker_select_def)
    next
      case (Some e)
      obtain k event where e: "e = (k, event)" by fastforce
      have tables: "unload_tables taken (wk_pending_unloads w) (wk_maintenance_events w)"
        using inv by (simp add: replies_inv_def)
      moreover have "(k, event) \<in> set (bt_entries (wk_maintenance_events w))"
        using Some e by (auto simp: bt_first_def split: list.splits)
      ultimately have "unload_completion taken event" by (auto simp: unload_tables_def)
      moreover have "answered taken (wk_stop w = None) sent"
        using inv None Nil by (simp add: replies_inv_def waiting_events_def)
      ultimately have "answered taken (wk_stop w = None) (sent @ [event])"
        using answered_completion by fastforce
      with tables None Nil Some e show ?thesis
        by (simp add: worker_select_def replies_inv_def waiting_events_def tables_remove)
    qed
  qed
qed

lemma command_replies:
  assumes inv: "replies_inv backlog sent taken w" and running: "wk_stop w = None"
    and room: "length (wk_queued_events w) < backlog"
    and run: "worker_command B allocates out c now w = Some w'"
  shows "replies_inv backlog sent (taken @ [c]) w'"
proof -
  from run obtain event stop sch s where
    dispatched: "dispatch B allocates out c now (wk_scheduler w) (wk_runtime w) = Some ((event, stop), sch, s)"
    by (auto simp: worker_command_def)
  have reply: "answered (taken @ [c]) True (sent @ waiting_events w @ [event])"
  proof (rule answered_reply [OF _ dispatch_replies [OF dispatched]])
    show "answered taken True (sent @ waiting_events w)" using inv running by (simp add: replies_inv_def)
  qed simp
  have tables: "unload_tables (taken @ [c]) (remember_pending_unload (unload_command_identity c) event s
    (wk_pending_unloads w)) (wk_maintenance_events w)"
    using inv by (intro tables_remembered) (simp add: replies_inv_def)
  show ?thesis
  proof (cases stop)
    case (Some x)
    with run dispatched have "wk_stop w' = Some x" "waiting_events w' = [event]" "wk_queued_events w' = []"
      "wk_pending_unloads w' = bt_empty" "wk_maintenance_events w' = bt_empty"
      by (auto simp: worker_command_def waiting_events_def Let_def)
    moreover have "answered (taken @ [c]) False (sent @ [event])"
      by (rule answered_fewer [OF reply, of _ "mset (waiting_events w)"]) simp
    ultimately show ?thesis by (simp add: replies_inv_def unload_tables_def bt_entries_empty)
  next
    case None
    let ?w = "w\<lparr>wk_runtime := s, wk_scheduler := sch, wk_pending_unloads :=
      remember_pending_unload (unload_command_identity c) event s (wk_pending_unloads w)\<rparr>"
    from None run dispatched have "w' = (if wk_pending_event w = None then ?w\<lparr>wk_pending_event := Some event\<rparr>
      else ?w\<lparr>wk_queued_events := wk_queued_events w @ [event]\<rparr>)"
      by (auto simp: worker_command_def Let_def)
    then have w': "wk_stop w' = None"
      "mset (waiting_events w') = add_mset event (mset (waiting_events w))"
      "length (wk_queued_events w') \<le> Suc (length (wk_queued_events w))"
      "wk_pending_unloads w' = remember_pending_unload (unload_command_identity c) event s (wk_pending_unloads w)"
      "wk_maintenance_events w' = wk_maintenance_events w"
      using running by (cases "wk_pending_event w"; simp add: waiting_events_def)+
    have "answered (taken @ [c]) True (sent @ waiting_events w')"
      using reply w'(2) by (subst answered_same [of _ "sent @ waiting_events w @ [event]"]) simp_all
    with w' tables room show ?thesis by (simp add: replies_inv_def)
  qed
qed

interpretation reply_turns: turn_invariant B expf backlog
  "\<lambda>sent taken w out. replies_inv backlog sent taken w"
  "\<lambda>sent taken out. answered taken False sent"
  for B :: "('src, 'ld, 'm, 'q) backend" and expf backlog
proof (unfold_locales, goal_cases)
  case (1 sent taken w out now w')
  then show ?case by (simp add: maintain_replies)
next
  case (2 sent taken w out)
  then show ?case by (simp add: select_replies)
next
  case (3 sent taken w out event)
  then show ?case by (simp add: replies_inv_def waiting_events_def)
next
  case (4 sent taken w out c now allocates out' w')
  then show ?case by (simp add: command_replies)
next
  case (5 sent taken w out adv sch s out')
  then show ?case by (simp add: replies_inv_def waiting_events_def)
next
  case (6 sent taken w out)
  then have "answered taken (wk_stop w = None) (sent @ waiting_events w)" by (simp add: replies_inv_def)
  then show ?case by (rule answered_fewer [of _ _ _ _ "mset (waiting_events w)"]) simp
qed

fun progress_replies ::
    "usize \<Rightarrow> ('ld, 'm, 'q) worker_progress \<Rightarrow> runtime_event list \<Rightarrow> 'src runtime_command list \<Rightarrow> bool" where
  "progress_replies backlog (WorkerRunning w) sent taken \<longleftrightarrow> replies_inv backlog sent taken w"
| "progress_replies backlog (WorkerStopped e) sent taken \<longleftrightarrow> answered taken False sent"

lemma system_replies:
  "system_reachable B expf backlog sy \<Longrightarrow> progress_replies backlog (sy_progress sy) (sy_sent sy) (sy_taken sy)"
proof (induction rule: system_reachable.induct)
  case (reach_new limits tokens records loader)
  then show ?case
    by (simp add: system_new_def worker_new_def replies_inv_def waiting_events_def answered_def
        unload_tables_def bt_entries_empty)
next
  case (reach_step sy e sy')
  show ?case
  proof (cases e)
    case (WorkerTurn allocates i)
    with reach_step.hyps(3) obtain w where w: "sy_progress sy = WorkerRunning w"
      by (auto split: worker_progress.splits)
    with reach_step.hyps(3) WorkerTurn obtain sent taken progress out' where
      run: "worker_turn B allocates expf backlog i w (sy_output sy) = Some (sent, taken, progress, out')"
      and sy': "sy' = sy\<lparr>sy_progress := progress, sy_output := out', sy_sent := sy_sent sy @ sent,
        sy_taken := sy_taken sy @ taken\<rparr>" by auto
    have "replies_inv backlog (sy_sent sy) (sy_taken sy) w" using reach_step.IH w by simp
    from reply_turns.turn_progress [OF this _ run] reach_step.hyps(2) WorkerTurn show ?thesis
      by (cases progress) (simp_all add: sy')
  qed (use reach_step in \<open>auto simp: consumer_step_def\<close>)
qed

end
