(* ===== verification/Worker_Example.thy ===== *)
theory Worker_Example
  imports Worker_Replies Registry_Example Sampling_Properties
begin

section \<open>A concrete worker\<close>

text \<open>
  A backend with a vocabulary of one token whose prefill succeeds, and the first turn of a worker
  on it: it loads the model and admits one generation. The witnesses of the worker's properties
  apply them here.
\<close>

definition tiny_descriptor :: model_descriptor where
  "tiny_descriptor = example_descriptor\<lparr>desc_metadata := example_metadata\<lparr>md_vocabulary_size := 1\<rparr>\<rparr>"

definition tiny_backend :: "(unit, unit, model_handle, sequence_id \<times> nat) backend" where
  "tiny_backend = \<lparr>be_loader = example_loader\<lparr>ml_inspect := (\<lambda>_ _. Inr tiny_descriptor),
     ml_plan_load := (\<lambda>_ _ _. Inr \<lparr>lp_descriptor = tiny_descriptor,
       lp_expected_footprint = example_footprint\<rparr>)\<rparr>,
     be_model = example_model\<lparr>lm_metadata := (\<lambda>_. desc_metadata tiny_descriptor),
       lm_plan_sequence := (\<lambda>_ configuration. Inr \<lparr>sp_configuration = configuration,
         sp_expected_footprint = example_footprint, sp_logits_capacity = 1\<rparr>),
       lm_prefill_prepared := (\<lambda>m q input buffers.
         (Inr (PrefillReady (length (pi_tokens input)) (length (pi_tokens input)) 1), m, q, [f32_zero]))\<rparr>\<rparr>"

lemma tiny_stable: "stable_ids tiny_backend"
  by (auto simp: stable_ids_def tiny_backend_def example_model_def split: prod.splits)

definition tiny_limits :: runtime_limits where
  "tiny_limits = example_limits\<lparr>rl_memory_budget := \<lparr>budget_host_bytes = 100, budget_device_bytes = 100\<rparr>\<rparr>"

definition tiny_request :: generation_request where
  "tiny_request = \<lparr>gr_request_id = RequestId 1, gr_sequence_id = SequenceId 0, gr_prompt_tokens = [TokenId 3],
     gr_sequence = example_configuration, gr_maximum_generated_tokens = 2, gr_sampling = sampling_greedy,
     gr_seed = 0, gr_eos_tokens = [TokenId 0], gr_stop_sequences = [], gr_scheduler_quantum = 1,
     gr_output_capacity = generation_output_capacity_default\<rparr>"

definition tiny_system :: "(unit, unit, model_handle, sequence_id \<times> nat) worker_system" where
  "tiny_system = system_new () tiny_limits 4 4"

abbreviation tiny_load :: "unit runtime_command" where
  "tiny_load \<equiv> CmdLoadModel (CommandTicket 1) (ModelId 1) () (DeviceId 0) Cpu"

abbreviation tiny_generate :: "unit runtime_command" where
  "tiny_generate \<equiv> CmdGenerate (CommandTicket 2) example_handle tiny_request"

definition tiny_input :: "unit worker_input" where
  "tiny_input = \<lparr>in_now = MonotonicMillis 0, in_send = SendTaken, in_receives =
     [Received tiny_load (MonotonicMillis 1), Received tiny_generate (MonotonicMillis 2)],
     in_wait = NothingReceived\<rparr>"

lemma tiny_input_ok: "input_ok tiny_input"
  by (simp add: input_ok_def tiny_input_def tiny_request_def)

lemma tiny_reachable: "system_reachable tiny_backend expf backlog tiny_system"
  unfolding tiny_system_def by (rule reach_new) (simp_all add: tiny_limits_def example_limits_def usize_max_def)

definition tiny_loaded :: "(unit, model_handle, sequence_id \<times> nat) runtime" where
  "tiny_loaded = (runtime_new () tiny_limits)\<lparr>rt_models := [(ModelId 1, example_slot\<lparr>sl_descriptor := tiny_descriptor\<rparr>)],
     rt_generations := [(ModelId 1, ModelGeneration 1)], rt_reserved_footprint := example_footprint\<rparr>"

lemmas tiny_defs = tiny_backend_def tiny_limits_def tiny_descriptor_def

lemma tiny_load_model: "runtime_load_model tiny_backend (ModelId 1) () (DeviceId 0) Cpu (runtime_new () tiny_limits)
   = (Inr \<lparr>lr_handle = example_handle, lr_descriptor = tiny_descriptor,
        lr_reserved_footprint = example_footprint\<rparr>, tiny_loaded)"
  by (simp add: runtime_load_model_def tiny_loaded_def tiny_defs example_eval)

definition tiny_footprint :: memory_footprint where
  "tiny_footprint = footprint_default\<lparr>host_working_bytes := 40\<rparr>"

lemma tiny_workspace: "generation_workspace_footprint 1 3 2 1 1 [] = Inr tiny_footprint"
  by (simp add: generation_workspace_footprint_def allocation_bytes_def usize_max_def sum_checked_def
      checked_add_def tiny_footprint_def footprint_default_def)

lemma tiny_check: "check_generation_request scheduler_new (4, 4) tiny_request = Inr (2, 3)"
  by (simp add: check_generation_request_def tiny_request_def scheduler_new_def bt_get_empty
      example_configuration_def generation_output_capacity_default_def usize_checked_add_def usize_max_def)

lemma tiny_preflight: "preflight_generation_resources tiny_backend example_handle (RequestId 1) (SequenceId 0)
    example_configuration tiny_footprint 1 tiny_loaded = Inr ()"
  by (simp add: preflight_generation_resources_def tiny_loaded_def tiny_footprint_def tiny_defs exact_model_def
      example_eval)

lemma tiny_sampler: "\<exists>smp. sampler_new sampling_greedy 0 = Inr smp"
  by (simp add: sampler_new_def sampling_validate_def sampling_greedy_def f32_key_def f32_less_def f32_less_eq_def)

lemma tiny_prepare: "\<exists>smp. prepare_generation tiny_backend (\<lambda>_ _. True) scheduler_new (4, 4) example_handle
    tiny_request tiny_loaded = Inr \<lparr>gz_maximum_generated = 2, gz_required_sequence = 3, gz_vocabulary = 1,
      gz_sampler = smp, gz_footprint = tiny_footprint\<rparr>"
proof -
  obtain smp where "sampler_new sampling_greedy 0 = Inr smp" using tiny_sampler by blast
  moreover have "\<exists>snapshot. exact_model_snapshot tiny_loaded example_handle = Inr snapshot
      \<and> \<not> ms_degraded snapshot \<and> desc_metadata (ms_descriptor snapshot) = example_metadata\<lparr>md_vocabulary_size := 1\<rparr>"
    by (simp add: exact_model_snapshot_def exact_model_def model_snapshot_of_def tiny_loaded_def tiny_defs example_eval)
  ultimately show ?thesis
    using tiny_check tiny_workspace tiny_preflight
    by (auto simp: prepare_generation_def tiny_request_def Let_def)
qed

lemma tiny_start: "\<exists>s receipt. start_generation_request tiny_backend example_handle (RequestId 1) (SequenceId 0)
    example_configuration tiny_footprint 1 tiny_loaded = (Inr receipt, s) \<and> rr_logits_capacity receipt = 1"
  by (simp add: start_generation_request_def start_request_with_reservation_def plan_admission_def
      commit_admission_def exact_model_def tiny_loaded_def tiny_footprint_def tiny_defs example_eval)

lemma tiny_admit: "\<exists>admission sch s. scheduler_admit tiny_backend (\<lambda>_ _. True) (token_output_new 4 4)
    example_handle tiny_request scheduler_new tiny_loaded = (Inr admission, sch, s)"
proof -
  obtain smp where "prepare_generation tiny_backend (\<lambda>_ _. True) scheduler_new (4, 4) example_handle
    tiny_request tiny_loaded = Inr \<lparr>gz_maximum_generated = 2, gz_required_sequence = 3, gz_vocabulary = 1,
      gz_sampler = smp, gz_footprint = tiny_footprint\<rparr>" using tiny_prepare by blast
  moreover obtain s receipt where "start_generation_request tiny_backend example_handle (RequestId 1) (SequenceId 0)
    example_configuration tiny_footprint 1 tiny_loaded = (Inr receipt, s)" "rr_logits_capacity receipt = 1"
    using tiny_start by blast
  ultimately show ?thesis by (simp add: scheduler_admit_def token_output_new_def tiny_request_def)
qed

lemma tiny_maintain: "worker_maintain tiny_backend now (worker_new () tiny_limits :: (unit, model_handle, sequence_id \<times> nat) worker)
    = Some (worker_new () tiny_limits)"
proof -
  let ?s = "runtime_new () tiny_limits :: (unit, model_handle, sequence_id \<times> nat) runtime"
  have "poll_cleanup tiny_backend ?s = (Inr CleanupIdle, ?s)"
    by (simp add: poll_cleanup_def runtime_new_def bt_entries_empty find_retryable_model_def)
  moreover have "poll_unload_transition tiny_backend now ?s = Some (None, ?s)"
    by (simp add: poll_unload_transition_def runtime_new_def bt_entries_empty find_slot_def)
  ultimately show ?thesis
    by (simp add: worker_maintain_def worker_new_def maintenance_event_def collect_completed_unloads_def
        bt_entries_empty)
qed

lemma tiny_turn: "\<exists>progress out. worker_turn tiny_backend (\<lambda>_ _. True) expf 4 tiny_input
    (worker_new () tiny_limits) (token_output_new 4 4) = Some ([], [tiny_load, tiny_generate], progress, out)"
proof -
  let ?w = "worker_new () tiny_limits :: (unit, model_handle, sequence_id \<times> nat) worker"
  obtain admission sch s where admitted: "scheduler_admit tiny_backend (\<lambda>_ _. True) (token_output_new 4 4)
    example_handle tiny_request scheduler_new tiny_loaded = (Inr admission, sch, s)" using tiny_admit by blast
  have "worker_select ?w = ?w" by (simp add: worker_select_def worker_new_def bt_first_def bt_entries_empty)
  moreover have "worker_publish tiny_backend SendTaken ?w = Some ([], WorkerRunning ?w)"
    by (simp add: worker_publish_def worker_new_def)
  moreover have "\<exists>w. worker_commands tiny_backend (\<lambda>_ _. True) (token_output_new 4 4) 4 8
      (in_receives tiny_input) ?w = Some ([tiny_load, tiny_generate], WorkerRunning w)"
    using admitted tiny_load_model
    by (simp add: eval_nat_numeral tiny_input_def worker_command_def worker_new_def remember_pending_unload_def)
  ultimately show ?thesis
    using tiny_maintain [of "in_now tiny_input"]
    by (auto simp: worker_turn_def tiny_input_def worker_new_def Let_def split: prod.splits)
qed

lemma tiny_served: "\<exists>sy. system_reachable tiny_backend expf 4 sy \<and> sy_taken sy = [tiny_load, tiny_generate]"
proof -
  obtain progress out where turn: "worker_turn tiny_backend (\<lambda>_ _. True) expf 4 tiny_input
    (worker_new () tiny_limits) (token_output_new 4 4) = Some ([], [tiny_load, tiny_generate], progress, out)"
    using tiny_turn by blast
  obtain sy where step: "system_step tiny_backend expf 4 (WorkerTurn (\<lambda>_ _. True) tiny_input) tiny_system = Some sy"
    and taken: "sy_taken sy = [tiny_load, tiny_generate]"
    using turn by (simp add: tiny_system_def system_new_def)
  have "system_reachable tiny_backend expf 4 sy"
    by (rule reach_step [OF tiny_reachable _ step]) (simp add: tiny_input_ok)
  with taken show ?thesis by blast
qed

end
