(* ===== verification/Worker_Properties.thy ===== *)
theory Worker_Properties
  imports Worker_Example
begin

section \<open>Properties of the worker and of generations\<close>

subsection \<open>The output of every request\<close>

text \<open>
  \<^bold>\<open>C10\<close>. What the consumer reads, followed by what waits for it, holds for every request identity
  exactly the generations taken under that identity, one after another, in every reachable state
  and whatever the backend, the allocator, the channels and the consumer do. Each follows the
  protocol: tokens and yields, one outcome, the clean-up records of that outcome, its release; each
  but the last is complete. Its tokens are at most the requested maximum, and none follows a
  token or stop sequence that ends the generation.
\<close>
theorem generation_stream:
  assumes "stable_ids B" and "system_reachable B expf backlog sy"
  shows "\<exists>gens. generations_of (sy_taken sy) request_id gens (items_of request_id (output_log sy))"
proof -
  have "progress_streams (sy_progress sy) (sy_taken sy) (output_log sy)"
    using system_reachable_inv [OF assms(2,1)] by (simp add: system_inv_def)
  then show ?thesis by (cases "sy_progress sy") (auto dest: streams_stopped)
qed

lemma generation_stream_witness:
  "\<exists>(sy :: (unit, unit, model_handle, sequence_id \<times> nat) worker_system) gens.
     sy_taken sy = [tiny_load, tiny_generate]
     \<and> generations_of (sy_taken sy) (RequestId 1) gens (items_of (RequestId 1) (output_log sy))"
proof -
  obtain sy where sy: "system_reachable tiny_backend id 4 sy" "sy_taken sy = [tiny_load, tiny_generate]"
    using tiny_served by blast
  from generation_stream [OF tiny_stable sy(1), of "RequestId 1"] sy(2) show ?thesis by blast
qed

subsection \<open>Every command is answered once\<close>

text \<open>
  \<^bold>\<open>C11\<close>. In every reachable state the events sent and the events waiting are one reply of the
  right kind and ticket for every command taken, and otherwise only later outcomes of unload
  commands taken; a running worker never holds more queued replies than its backlog. Only a
  shutdown discards replies, and then none is sent that answers no command.
\<close>
theorem commands_answered_once:
  assumes "system_reachable B expf backlog sy"
  shows "case sy_progress sy of
      WorkerRunning w \<Rightarrow> length (wk_queued_events w) \<le> backlog
        \<and> answered (sy_taken sy) (wk_stop w = None) (sy_sent sy @ waiting_events w)
    | WorkerStopped e \<Rightarrow> answered (sy_taken sy) False (sy_sent sy)"
  using system_replies [OF assms] by (cases "sy_progress sy") (auto simp: replies_inv_def)

lemma commands_answered_once_witness:
  "\<exists>sy :: (unit, unit, model_handle, sequence_id \<times> nat) worker_system.
     sy_taken sy = [tiny_load, tiny_generate]
     \<and> (\<exists>events complete. answered (sy_taken sy) complete (sy_sent sy @ events))"
proof -
  obtain sy where sy: "system_reachable tiny_backend id 4 sy" "sy_taken sy = [tiny_load, tiny_generate]"
    using tiny_served by blast
  have "\<exists>events complete. answered (sy_taken sy) complete (sy_sent sy @ events)"
  proof (cases "sy_progress sy")
    case (WorkerStopped e)
    with commands_answered_once [OF sy(1)] have "answered (sy_taken sy) False (sy_sent sy @ [])" by simp
    then show ?thesis by blast
  qed (use commands_answered_once [OF sy(1)] in auto)
  with sy(2) show ?thesis by blast
qed

subsection \<open>The accounts of the registry and the scheduler\<close>

text \<open>
  \<^bold>\<open>C12\<close>. In every reachable state of a running worker the registry's snapshot counts exactly the
  scheduler's tasks, its workspace bytes are field by field the sum of the tasks' workspaces, and
  the next turn returns, whatever the channels and the backend answer in it.
\<close>
theorem worker_accounts_and_returns:
  assumes "stable_ids B" and "system_reachable B expf backlog sy" and "sy_progress sy = WorkerRunning w"
    and "input_ok i"
  shows "unat (rs_generation_workspaces (runtime_snapshot_of (wk_runtime w))) = bt_len (sch_requests (wk_scheduler w))
    \<and> (\<forall>c. footprint_field (rs_reserved_generation_workspace (runtime_snapshot_of (wk_runtime w))) c
         = (\<Sum>task \<leftarrow> bt_values (sch_requests (wk_scheduler w)). footprint_field (gt_workspace_footprint task) c))
    \<and> worker_turn B allocates expf backlog i w (sy_output sy) \<noteq> None"
proof -
  have wf: "worker_wf B w" using system_reachable_inv [OF assms(2,1)] assms(3) by (simp add: system_inv_def)
  then have "accounts (wk_scheduler w) (wk_runtime w)" by (simp add: worker_wf_def worker_ok_def)
  moreover have "bt_total (task_bytes c) m = (\<Sum>task \<leftarrow> bt_values m. footprint_field (gt_workspace_footprint task) c)"
    for c and m :: "(request_id, generation_task) btree_map"
    by (simp add: bt_total_def task_bytes_def case_prod_unfold comp_def)
  ultimately show ?thesis using worker_turn_total [OF wf assms(4,1), of allocates expf backlog "sy_output sy"]
    by (auto simp: accounts_def runtime_snapshot_of_def Let_def)
qed

lemma worker_accounts_and_returns_witness:
  "worker_turn tiny_backend (\<lambda>_ _. True) id 4 tiny_input (worker_new () tiny_limits) (token_output_new 4 4) \<noteq> None"
proof -
  have "sy_progress tiny_system = WorkerRunning (worker_new () tiny_limits)" "sy_output tiny_system = token_output_new 4 4"
    by (simp_all add: tiny_system_def system_new_def)
  from worker_accounts_and_returns [OF tiny_stable tiny_reachable this(1) tiny_input_ok,
      where expf = id and backlog = 4] this(2)
  show ?thesis by simp
qed

subsection \<open>A rejected unload cancels generations\<close>

text \<open>
  \<^bold>\<open>C13\<close>. An unload of a stale handle is rejected and leaves the registry as it is, but with the
  policy that cancels active work it marks every generation of the model's current load for
  cancellation, and the next opportunity of each ends it.
\<close>
theorem stale_unload_cancels:
  assumes "bt_get (rt_models s) (mh_id handle) = Some slot" and "sl_handle slot \<noteq> handle"
    and "bt_get (sch_requests sch) request_id = Some task" and "mh_id (gt_handle task) = mh_id handle"
    and "streaming task"
  shows "\<exists>sch' task'. dispatch B allocates out (CmdUnloadModel ticket handle CancelActiveRequests) now sch s
      = Some ((EvModelUnload ticket (Inl (StaleModelHandle handle (sl_handle slot))), None), sch', s)
    \<and> bt_get (sch_requests sch') request_id = Some task'
    \<and> (\<exists>task'' s'. advance_task B expf request_id task' s out = (sched_progressed, task'', s', out)
        \<and> \<not> streaming task'')"
proof -
  let ?f = "\<lambda>task. if mh_id (gt_handle task) = mh_id handle then task\<lparr>gt_cancellation := Some ModelUnload\<rparr> else task"
  let ?sch = "request_model_cancellation (mh_id handle) ModelUnload sch"
  let ?task = "task\<lparr>gt_cancellation := Some ModelUnload\<rparr>"
  have "bt_get (sch_requests ?sch) request_id = map_option ?f (bt_get (sch_requests sch) request_id)"
    by (simp add: request_model_cancellation_def bt_get_def map_of_map [where f = ?f])
  then have marked: "bt_get (sch_requests ?sch) request_id = Some ?task" using assms(3,4) by simp
  have rejected: "dispatch B allocates out (CmdUnloadModel ticket handle CancelActiveRequests) now sch s
      = Some ((EvModelUnload ticket (Inl (StaleModelHandle handle (sl_handle slot))), None), ?sch, s)"
    using assms(1,2) by (simp add: dispatch_unload_def runtime_unload_model_def exact_model_def)
  obtain task1 s1 where cancelled: "advance_cancelled B request_id ModelUnload (?task\<lparr>gt_cancellation := None\<rparr>) s
    = (task1, s1)" by fastforce
  then have "new_end (gt_phase task1)"
    by (auto simp: advance_cancelled_def Let_def split: prod.splits if_splits intro: terminal_phase_new)
  then have "\<not> streaming task1" by (auto simp: new_end_def streaming_def)
  moreover have not_terminal: "gt_phase task \<noteq> PhaseTerminal t" for t using assms(5) by (auto simp: streaming_def)
  have "advance_task B expf request_id ?task s out = (sched_progressed, task1, s1, out)"
    using cancelled by (cases "gt_phase task") (simp_all add: advance_task_def not_terminal)
  ultimately show ?thesis using rejected marked by blast
qed

definition example_task :: generation_task where
  "example_task = new_generation_task example_handle tiny_request
     \<lparr>gz_maximum_generated = 2, gz_required_sequence = 3, gz_vocabulary = 1,
       gz_sampler = \<lparr>smp_configuration = sampling_greedy,
         smp_random = split_mix_new 0, smp_repetition_epoch = 0\<rparr>, gz_footprint = tiny_footprint\<rparr>"

lemma stale_unload_cancels_witness:
  "\<exists>sch' task'. dispatch example_backend (\<lambda>_ _. True) (token_output_new 4 4)
      (CmdUnloadModel (CommandTicket 7) \<lparr>mh_id = ModelId 1, mh_generation = ModelGeneration 0\<rparr> CancelActiveRequests)
      (MonotonicMillis 0) (scheduler_new\<lparr>sch_requests := [(RequestId 1, example_task)]\<rparr>) example_loaded
    = Some ((EvModelUnload (CommandTicket 7) (Inl (StaleModelHandle
        \<lparr>mh_id = ModelId 1, mh_generation = ModelGeneration 0\<rparr> example_handle)), None), sch', example_loaded)
    \<and> bt_get (sch_requests sch') (RequestId 1) = Some task'"
proof -
  have "bt_get (rt_models example_loaded) (ModelId 1) = Some example_slot" by (simp add: example_loaded_def bt_get_def)
  moreover have "streaming example_task" by (simp add: streaming_def example_task_def new_generation_task_def)
  ultimately show ?thesis
    using stale_unload_cancels [of example_loaded "\<lparr>mh_id = ModelId 1, mh_generation = ModelGeneration 0\<rparr>"
        example_slot "scheduler_new\<lparr>sch_requests := [(RequestId 1, example_task)]\<rparr>" "RequestId 1" example_task]
    by (fastforce simp: example_slot_def example_handle_def bt_get_def example_task_def new_generation_task_def)
qed

subsection \<open>An output of one record\<close>

text \<open>
  Opportunities of the task, one after another; the schedule says after which of them the consumer
  reads what is there. A read never falls within an opportunity.
\<close>

fun opportunities ::
    "('src, 'ld, 'm, 'q) backend \<Rightarrow> (f32 \<Rightarrow> f32) \<Rightarrow> request_id \<Rightarrow> bool list \<Rightarrow> generation_task
       \<Rightarrow> ('ld, 'm, 'q) runtime \<Rightarrow> generation_output
       \<Rightarrow> (generation_task \<times> ('ld, 'm, 'q) runtime \<times> generation_output
            \<times> (request_id \<times> gen_item option) list) option" where
  "opportunities B expf request_id [] task s out = Some (task, s, out, [])"
| "opportunities B expf request_id (consumer_reads # schedule) task s out =
    (case advance_task B expf request_id task s out of
       (_, task, s, out) \<Rightarrow>
    if \<not> consumer_reads then opportunities B expf request_id schedule task s out
    else
    (case token_output_step TokenPullBegin out of
       None \<Rightarrow> None
     | Some (answer, out) \<Rightarrow>
    (case token_output_step TokenPullEnd out of
       None \<Rightarrow> None
     | Some (_, out) \<Rightarrow>
         map_option (\<lambda>(task, s, out, items). (task, s, out, token_delivered answer @ items))
           (opportunities B expf request_id schedule task s out))))"

definition stuck :: "token_id \<Rightarrow> generation_output \<Rightarrow> generation_task \<Rightarrow> bool" where
  "stuck token out task \<longleftrightarrow> to_record_capacity out = 1 \<and> to_mutex out = MutexFree
     \<and> streaming task \<and> gt_cancellation task = None \<and> gt_pending_token task = Some token
     \<and> (to_records out = [] \<and> to_tokens out = [] \<and> gt_pending_yield task \<noteq> None \<or> length (to_records out) = 1)"

abbreviation yield_record where
  "yield_record request_id why \<equiv> \<lparr>tor_request_id = request_id, tor_kind = RecordState (OutYielded why)\<rparr>"

definition holds_yield :: "request_id \<Rightarrow> generation_output \<Rightarrow> bool" where
  "holds_yield request_id out \<longleftrightarrow> to_records out = [] \<or> (\<exists>why. to_records out = [yield_record request_id why])"

lemmas push_defs = try_push_state_def try_push_token_def try_push_tokens_def output_try_lock_def
  record_capacity_check_def usize_saturating_add_def usize_max_def

lemma full_refuses:
  assumes "to_record_capacity out = 1" and "length (to_records out) = 1" and "to_mutex out = MutexFree"
  shows "\<exists>e. try_push_state request_id state out = (Inl e, out)" and "\<exists>e. try_push_token request_id token out = (Inl e, out)"
  using assms by (simp_all add: push_defs Let_def)

text \<open>An opportunity leaves the record occupied, the token and a yield pending.\<close>

lemma stuck_advance:
  assumes "stuck token out task"
  shows "\<exists>reason out'. advance_task B expf request_id task s out = (sched_idle, task\<lparr>gt_pending_yield := Some reason\<rparr>, s, out')
    \<and> stuck token out' (task\<lparr>gt_pending_yield := Some reason\<rparr>) \<and> length (to_records out') = 1
    \<and> (holds_yield request_id out \<longrightarrow> holds_yield request_id out')"
proof -
  note facts = assms [unfolded stuck_def]
  have not_terminal: "gt_phase task \<noteq> PhaseTerminal t" for t using facts by (auto simp: streaming_def)
  have advance: "advance_task B expf request_id task s out
      = (case publish_yield request_id task out of
           (False, task, out) \<Rightarrow> (sched_idle, task, s, out)
         | (True, task, out) \<Rightarrow> publish_token B request_id token task s out)" if "gt_pending_token task = Some token"
    using facts not_terminal by (cases "gt_phase task")
      (auto simp: advance_task_def publish_yield_def split: option.splits prod.splits sum.splits bool.splits)
  have keep: "stuck token out' (task\<lparr>gt_pending_yield := Some reason\<rparr>)"
    if "to_record_capacity out' = 1" "to_mutex out' = MutexFree" "length (to_records out') = 1" for out' reason
    using facts that by (simp add: stuck_def streaming_def)
  show ?thesis
  proof (cases "to_records out = []")
    case True
    with facts obtain why where why: "gt_pending_yield task = Some why" by auto
    let ?out = "out\<lparr>to_records := [yield_record request_id why]\<rparr>"
    have yield: "try_push_state request_id (OutYielded why) out = (Inr (), ?out)"
      using facts True by (simp add: push_defs)
    obtain e where token: "try_push_token request_id token ?out = (Inl e, ?out)"
      using full_refuses(2) [of ?out request_id token] facts by auto
    have "advance_task B expf request_id task s out = (sched_idle, task\<lparr>gt_pending_yield := Some (output_yield e)\<rparr>, s, ?out)"
      using facts why yield token by (simp add: advance publish_yield_def publish_token_def)
    with keep [of ?out "output_yield e"] facts show ?thesis by (auto simp: holds_yield_def)
  next
    case False
    with facts have full: "to_record_capacity out = 1" "length (to_records out) = 1" "to_mutex out = MutexFree" by auto
    show ?thesis
    proof (cases "gt_pending_yield task")
      case None
      obtain e where "try_push_token request_id token out = (Inl e, out)" using full_refuses(2) [OF full] by blast
      then have "advance_task B expf request_id task s out = (sched_idle, task\<lparr>gt_pending_yield := Some (output_yield e)\<rparr>, s, out)"
        using facts None by (simp add: advance publish_yield_def publish_token_def)
      with keep [OF full(1,3,2)] full show ?thesis by blast
    next
      case (Some why)
      obtain e where "try_push_state request_id (OutYielded why) out = (Inl e, out)" using full_refuses(1) [OF full] by blast
      then have "advance_task B expf request_id task s out = (sched_idle, task, s, out)"
        using facts Some by (simp add: advance publish_yield_def)
      moreover have "task\<lparr>gt_pending_yield := Some why\<rparr> = task" using Some by (cases task) simp
      ultimately show ?thesis using keep [OF full(1,3,2), of why] full by (intro exI [of _ why] exI [of _ out]) simp
    qed
  qed
qed

text \<open>A read then takes the one record and leaves the output empty.\<close>

lemma stuck_read:
  assumes "stuck token out task" and "length (to_records out) = 1" and "gt_pending_yield task \<noteq> None"
  shows "\<exists>item out'. token_pull_begin out = Some (Inr (token_batch out), out\<lparr>to_mutex := MutexHeld\<rparr>)
    \<and> read_batch (token_batch out) = [item] \<and> token_pull_end (out\<lparr>to_mutex := MutexHeld\<rparr>) = Some out'
    \<and> stuck token out' task \<and> holds_yield request_id out'
    \<and> (holds_yield request_id out \<longrightarrow> (\<exists>reason. item = (request_id, Some (ItemState (OutYielded reason)))))"
proof -
  note facts = assms(1) [unfolded stuck_def]
  have "length (read_batch (token_batch out)) = 1" using assms(2) by (simp add: read_batch_def token_batch_def)
  then obtain item where item: "read_batch (token_batch out) = [item]" by (auto simp: length_Suc_conv)
  moreover have "holds_yield request_id out \<longrightarrow> (\<exists>reason. item = (request_id, Some (ItemState (OutYielded reason))))"
    using assms(2) item by (auto simp: holds_yield_def read_batch_def token_batch_def resolve_record_def)
  ultimately show ?thesis using facts assms(3)
    by (simp add: token_pull_begin_def token_pull_end_def stuck_def holds_yield_def)
qed

lemma stuck_yields:
  assumes "stuck token out task" and "holds_yield request_id out"
  shows "\<exists>task' out' items. opportunities B expf request_id schedule task s out = Some (task', s, out', items)
    \<and> gt_pending_token task' = Some token \<and> length items = length (filter (\<lambda>b. b) schedule)
    \<and> (\<forall>item \<in> set items. \<exists>reason. item = (request_id, Some (ItemState (OutYielded reason))))"
  using assms
proof (induction schedule arbitrary: task out)
  case Nil
  then show ?case by (simp add: stuck_def)
next
  case (Cons consumer_reads schedule)
  obtain reason out1 where advance: "advance_task B expf request_id task s out = (sched_idle, task\<lparr>gt_pending_yield := Some reason\<rparr>, s, out1)"
    and one: "stuck token out1 (task\<lparr>gt_pending_yield := Some reason\<rparr>)" "length (to_records out1) = 1" "holds_yield request_id out1"
    using stuck_advance [OF Cons.prems(1)] Cons.prems(2) by blast
  show ?case
  proof (cases consumer_reads)
    case False
    with Cons.IH [OF one(1,3)] advance show ?thesis by simp
  next
    case True
    obtain item out2 where read: "token_pull_begin out1 = Some (Inr (token_batch out1), out1\<lparr>to_mutex := MutexHeld\<rparr>)"
      "read_batch (token_batch out1) = [item]" "token_pull_end (out1\<lparr>to_mutex := MutexHeld\<rparr>) = Some out2"
      and two: "stuck token out2 (task\<lparr>gt_pending_yield := Some reason\<rparr>)" "holds_yield request_id out2"
      and item: "\<exists>reason. item = (request_id, Some (ItemState (OutYielded reason)))"
      using stuck_read [OF one(1,2), of request_id] one(3) by auto
    from Cons.IH [OF two] advance read item True show ?thesis by auto
  qed
qed

lemma stuck_run:
  assumes "stuck token out task"
  shows "\<exists>task' out' items. opportunities B expf request_id schedule task s out = Some (task', s, out', items)
    \<and> gt_pending_token task' = Some token \<and> length items = length (filter (\<lambda>b. b) schedule)
    \<and> (\<forall>item \<in> set (tl items). \<exists>reason. item = (request_id, Some (ItemState (OutYielded reason))))"
  using assms
proof (induction schedule arbitrary: task out)
  case Nil
  then show ?case by (simp add: stuck_def)
next
  case (Cons consumer_reads schedule)
  obtain reason out1 where advance: "advance_task B expf request_id task s out = (sched_idle, task\<lparr>gt_pending_yield := Some reason\<rparr>, s, out1)"
    and one: "stuck token out1 (task\<lparr>gt_pending_yield := Some reason\<rparr>)" "length (to_records out1) = 1"
    using stuck_advance [OF Cons.prems] by blast
  show ?case
  proof (cases consumer_reads)
    case False
    with Cons.IH [OF one(1)] advance show ?thesis by simp
  next
    case True
    obtain item out2 where read: "token_pull_begin out1 = Some (Inr (token_batch out1), out1\<lparr>to_mutex := MutexHeld\<rparr>)"
      "read_batch (token_batch out1) = [item]" "token_pull_end (out1\<lparr>to_mutex := MutexHeld\<rparr>) = Some out2"
      and two: "stuck token out2 (task\<lparr>gt_pending_yield := Some reason\<rparr>)" "holds_yield request_id out2"
      using stuck_read [OF one, of request_id] by auto
    from stuck_yields [OF two, of B expf schedule s] advance read True show ?thesis by auto
  qed
qed

text \<open>
  The way out: a read that falls between the yield and the token of one opportunity makes room for
  the token.
\<close>

lemma inner_read_releases:
  assumes "stuck token out task" and "to_records out = []" and "0 < to_token_capacity out"
    and "Suc (unat (to_start out)) < 2 ^ 64"
  shows "\<exists>task1 out1 batch out2 out3. publish_yield request_id task out = (True, task1, out1)
    \<and> token_pull_begin out1 = Some (batch, out2) \<and> token_pull_end out2 = Some out3
    \<and> fst (try_push_token request_id token out3) = Inr ()"
proof -
  note facts = assms(1) [unfolded stuck_def]
  from assms(2) facts obtain why where why: "gt_pending_yield task = Some why" by auto
  let ?out = "out\<lparr>to_records := [yield_record request_id why]\<rparr>"
  have "try_push_state request_id (OutYielded why) out = (Inr (), ?out)" using facts assms(2) by (simp add: push_defs)
  then have "publish_yield request_id task out = (True, task\<lparr>gt_pending_yield := None\<rparr>, ?out)"
    using why by (simp add: publish_yield_def)
  moreover have "checked_pull_cursor (?out\<lparr>to_mutex := MutexHeld\<rparr>) = to_start out"
    using facts assms(2,4) by (simp add: checked_pull_cursor_def saturating_add_def usize_to_u64_def)
  moreover have "Suc 0 \<le> to_token_capacity out" using assms(3) by simp
  ultimately show ?thesis using facts assms(2-4)
    by (simp add: token_pull_begin_def token_pull_end_def push_defs Let_def checked_cursor_def checked_add_def usize_to_u64_def)
qed

text \<open>
  \<^bold>\<open>C14\<close>. With an output of one record, which the configuration and the default capacity policy of
  a request allow, a token that once finds the record occupied is not published as long as the
  consumer reads only between the opportunities of the task, however many there are and whichever of
  them it reads after: the token stays pending, each read delivers exactly one record, and each but
  the first delivers another yield of the request.
\<close>
theorem single_record_livelock:
  assumes "to_record_capacity out = 1" and "length (to_records out) = 1" and "to_mutex out = MutexFree"
    and "streaming task" and "gt_cancellation task = None"
    and "gt_pending_token task = Some token"
  shows "\<exists>task' out' items. opportunities B expf request_id schedule task s out = Some (task', s, out', items)
    \<and> gt_pending_token task' = Some token \<and> length items = length (filter (\<lambda>b. b) schedule)
    \<and> (\<forall>item \<in> set (tl items). \<exists>reason. item = (request_id, Some (ItemState (OutYielded reason))))"
  by (rule stuck_run) (use assms in \<open>simp add: stuck_def\<close>)

lemma single_record_livelock_witness:
  "\<exists>task' out' items. opportunities example_backend id (RequestId 1) [True, False, True]
      (example_task\<lparr>gt_pending_token := Some (TokenId 1)\<rparr>) example_loaded
      (snd (try_push_token (RequestId 2) (TokenId 0) (token_output_new 4 1)))
    = Some (task', example_loaded, out', items)
    \<and> gt_pending_token task' = Some (TokenId 1) \<and> length items = 2"
proof -
  let ?out = "snd (try_push_token (RequestId 2) (TokenId 0) (token_output_new 4 1))"
  let ?task = "example_task\<lparr>gt_pending_token := Some (TokenId 1)\<rparr>"
  have "to_record_capacity ?out = 1" "length (to_records ?out) = 1" "to_mutex ?out = MutexFree"
    by (simp_all add: token_output_new_def push_defs Let_def checked_cursor_def checked_add_def usize_to_u64_def)
  moreover have "streaming ?task" "gt_cancellation ?task = None" "gt_pending_token ?task = Some (TokenId 1)"
    by (simp_all add: streaming_def example_task_def new_generation_task_def)
  ultimately obtain task' out' items where
    "opportunities example_backend id (RequestId 1) [True, False, True] ?task example_loaded ?out = Some (task', example_loaded, out', items)"
    "gt_pending_token task' = Some (TokenId 1)" "length items = length (filter (\<lambda>b. b) [True, False, True])"
    using single_record_livelock [of ?out ?task "TokenId 1" example_backend id "RequestId 1" "[True, False, True]" example_loaded] by blast
  then show ?thesis by auto
qed

end
