(* ===== verification/Byte_Codec.thy ===== *)
theory Byte_Codec
  imports Utf8
begin

section \<open>Bytes of numbers and of text\<close>

text \<open>
  The little-endian bytes of the integer types (\<open>to_le_bytes\<close>, \<open>from_le_bytes\<close>), the checked
  ranges of a byte slice (\<open>slice::get\<close> with a range) and \<open>String::from_utf8\<close>, which accepts exactly
  the encodings of texts.
\<close>

subsection \<open>Little-endian integers\<close>

fun le_bytes :: "nat \<Rightarrow> nat \<Rightarrow> u8 list" where
  "le_bytes 0 n = []"
| "le_bytes (Suc k) n = of_nat n # le_bytes k (n div 256)"

fun le_value :: "u8 list \<Rightarrow> nat" where
  "le_value [] = 0"
| "le_value (b # bs) = unat b + 256 * le_value bs"

lemma length_le_bytes [simp]: "length (le_bytes k n) = k"
  by (induction k n rule: le_bytes.induct) simp_all

lemma unat_of_byte: "unat (of_nat n :: u8) = n mod 256"
  by (simp add: unat_of_nat take_bit_eq_mod)

lemma le_value_bytes: "n < 256 ^ k \<Longrightarrow> le_value (le_bytes k n) = n"
proof (induction k n rule: le_bytes.induct)
  case (2 k n)
  then have "n div 256 < 256 ^ k" by (simp add: less_mult_imp_div_less mult.commute)
  with 2 show ?case by (simp add: unat_of_byte)
qed simp

lemma le_value_bound: "le_value bs < 256 ^ length bs"
proof (induction bs)
  case (Cons b bs)
  have "unat b < 256" using unsigned_less [of b] by simp
  with Cons show ?case by simp
qed simp

lemma le_bytes_value: "le_bytes (length bs) (le_value bs) = bs"
proof (induction bs)
  case (Cons b bs)
  have "unat b < 256" using unsigned_less [of b] by simp
  then have "(unat b + 256 * le_value bs) div 256 = le_value bs" by simp
  moreover have "of_nat (unat b + 256 * le_value bs) = b"
    by (rule word_unat_eq_iff [THEN iffD2]) (use \<open>unat b < 256\<close> in \<open>simp only: unat_of_byte mod_mult_self2 mod_less\<close>)
  ultimately show ?case using Cons by simp
qed simp

definition word_bytes :: "nat \<Rightarrow> 'a::len word \<Rightarrow> u8 list" where
  "word_bytes k w = le_bytes k (unat w)"

definition word_of_bytes :: "u8 list \<Rightarrow> 'a::len word" where
  "word_of_bytes bs = of_nat (le_value bs)"

lemma length_word_bytes [simp]: "length (word_bytes k w) = k"
  by (simp add: word_bytes_def)

lemma word_of_bytes_bytes:
  fixes w :: "'a::len word"
  assumes "8 * k = LENGTH('a)"
  shows "word_of_bytes (word_bytes k w) = w"
proof -
  have "unat w < 2 ^ (8 * k)" unfolding assms by (rule unsigned_less)
  then have "unat w < 256 ^ k" by (simp add: power_mult)
  then show ?thesis by (simp add: word_of_bytes_def word_bytes_def le_value_bytes)
qed

lemma word_bytes_of_bytes:
  assumes "8 * length bs = LENGTH('a::len)"
  shows "word_bytes (length bs) (word_of_bytes bs :: 'a word) = bs"
proof -
  have "256 ^ length bs = (2 :: nat) ^ (8 * length bs)" by (simp add: power_mult)
  then have "le_value bs < 2 ^ LENGTH('a)" using le_value_bound [of bs] by (simp only: assms)
  then have "unat (word_of_bytes bs :: 'a word) = le_value bs"
    by (simp add: word_of_bytes_def unat_of_nat take_bit_nat_eq_self)
  then show ?thesis by (simp only: word_bytes_def le_bytes_value)
qed

subsection \<open>Ranges\<close>

definition bytes_range :: "u8 list \<Rightarrow> usize \<Rightarrow> usize \<Rightarrow> u8 list option" where
  "bytes_range bs a b = (if a \<le> b \<and> b \<le> length bs then Some (take (b - a) (drop a bs)) else None)"

lemma bytes_range_Some:
  "bytes_range bs a b = Some cs \<longleftrightarrow> a \<le> b \<and> (\<exists>before after. bs = before @ cs @ after
     \<and> length before = a \<and> length cs = b - a)"
proof
  assume "bytes_range bs a b = Some cs"
  then have *: "a \<le> b" "b \<le> length bs" "cs = take (b - a) (drop a bs)" by (simp_all add: bytes_range_def split: if_splits)
  then have "bs = take a bs @ cs @ drop (b - a) (drop a bs)" by (metis append_take_drop_id)
  with * show "a \<le> b \<and> (\<exists>before after. bs = before @ cs @ after \<and> length before = a \<and> length cs = b - a)"
    by (intro conjI exI [of _ "take a bs"] exI [of _ "drop (b - a) (drop a bs)"]) simp_all
next
  assume "a \<le> b \<and> (\<exists>before after. bs = before @ cs @ after \<and> length before = a \<and> length cs = b - a)"
  then show "bytes_range bs a b = Some cs" by (auto simp: bytes_range_def)
qed

subsection \<open>Text\<close>

lemma digits: "z < m \<Longrightarrow> n = z + m * k \<Longrightarrow> n div m = k \<and> n mod m = z" for n :: nat
  by simp

lemma encode_scalar:
  assumes "utf8_char bs"
  shows "scalar_value (utf8_scalar bs)" and "utf8_encode_char (utf8_scalar bs) = bs"
proof -
  have tail: "\<exists>y < 64. unat b = 0x80 + y" if "utf8_tail b" for b
    using that by (intro exI [of _ "unat b - 0x80"]) (auto simp: utf8_tail_def word_le_nat_alt)
  have byte: "of_nat n = b \<longleftrightarrow> n = unat b" if "n = unat b" for n and b :: u8
    using that by simp
  have "scalar_value (utf8_scalar bs) \<and> utf8_encode_char (utf8_scalar bs) = bs"
    using assms
  proof (cases bs rule: utf8_char.cases)
    case (1 a)
    then show ?thesis using assms by (simp add: word_less_nat_alt scalar_value_def utf8_encode_char_def)
  next
    case (2 a b)
    with assms obtain y where y: "y < 64" "unat b = 0x80 + y" using tail [of b] by auto
    obtain x where x: "unat a = 0xC0 + x" "2 \<le> x" "x < 32"
      using assms 2 by (intro that [of "unat a - 0xC0"])
        (auto simp: utf8_width_def word_le_nat_alt word_less_nat_alt split: if_splits)
    have a: "a = of_nat (0xC0 + x)" "b = of_nat (0x80 + y)" by (simp_all only: x(1) [symmetric] y(2) [symmetric]) simp_all
    have "(x * 64 + y) div 64 = x" "(x * 64 + y) mod 64 = y" using y by simp_all
    then show ?thesis using x y 2 by (simp add: scalar_value_def utf8_encode_char_def a)
  next
    case (3 a b c)
    with assms obtain y z where yz: "y < 64" "unat b = 0x80 + y" "z < 64" "unat c = 0x80 + z"
      using tail [of b] tail [of c] by auto
    obtain x where x: "unat a = 0xE0 + x" "x < 16"
      using assms 3 by (intro that [of "unat a - 0xE0"])
        (auto simp: utf8_width_def word_le_nat_alt word_less_nat_alt split: if_splits)
    have words: "a = of_nat (0xE0 + x)" "b = of_nat (0x80 + y)" "c = of_nat (0x80 + z)"
      by (simp_all only: x(1) [symmetric] yz(2,4) [symmetric]) simp_all
    have "x = 0 \<longrightarrow> 32 \<le> y" "x = 13 \<longrightarrow> y < 32"
      using assms 3 x yz by (auto simp: word_unat_eq_iff word_le_nat_alt)
    moreover have "(x * 4096 + y * 64 + z) div 4096 = x"
      using digits [of "y * 64 + z" 4096 "x * 4096 + y * 64 + z" x] yz(1,3) by simp
    moreover have "(x * 4096 + y * 64 + z) div 64 = x * 64 + y" "(x * 4096 + y * 64 + z) mod 64 = z"
      using digits [OF yz(3), of "x * 4096 + y * 64 + z" "x * 64 + y"] by simp_all
    moreover have "(x * 64 + y) mod 64 = y" using digits [OF yz(1), of "x * 64 + y" x] by simp
    moreover have "scalar_value (x * 4096 + y * 64 + z)"
      using x(2) yz(1,3) \<open>x = 13 \<longrightarrow> y < 32\<close>
      by (cases x "13 :: nat" rule: linorder_cases) (auto simp: scalar_value_def)
    ultimately show ?thesis using x yz 3 by (auto simp: utf8_encode_char_def words)
  next
    case (4 a b c d)
    with assms obtain y z w where yz: "y < 64" "unat b = 0x80 + y" "z < 64" "unat c = 0x80 + z" "w < 64" "unat d = 0x80 + w"
      using tail [of b] tail [of c] tail [of d] by auto
    obtain x where x: "unat a = 0xF0 + x" "x < 5"
      using assms 4 by (intro that [of "unat a - 0xF0"])
        (auto simp: utf8_width_def word_le_nat_alt word_less_nat_alt split: if_splits)
    have words: "a = of_nat (0xF0 + x)" "b = of_nat (0x80 + y)" "c = of_nat (0x80 + z)" "d = of_nat (0x80 + w)"
      by (simp_all only: x(1) [symmetric] yz(2,4,6) [symmetric]) simp_all
    have "x = 0 \<longrightarrow> 16 \<le> y" "x = 4 \<longrightarrow> y < 16"
      using assms 4 x yz by (auto simp: word_unat_eq_iff word_le_nat_alt)
    moreover have "(x * 262144 + y * 4096 + z * 64 + w) div 262144 = x"
      using digits [of "y * 4096 + z * 64 + w" 262144 "x * 262144 + y * 4096 + z * 64 + w" x] yz(1,3,5) by simp
    moreover have "(x * 262144 + y * 4096 + z * 64 + w) div 4096 = x * 64 + y"
      using digits [of "z * 64 + w" 4096 "x * 262144 + y * 4096 + z * 64 + w" "x * 64 + y"] yz(3,5) by simp
    moreover have "(x * 262144 + y * 4096 + z * 64 + w) div 64 = (x * 64 + y) * 64 + z"
      "(x * 262144 + y * 4096 + z * 64 + w) mod 64 = w"
      using digits [OF yz(5), of "x * 262144 + y * 4096 + z * 64 + w" "(x * 64 + y) * 64 + z"] by simp_all
    moreover have "(x * 64 + y) mod 64 = y" "((x * 64 + y) * 64 + z) mod 64 = z"
      using digits [OF yz(1), of "x * 64 + y" x] digits [OF yz(3), of "(x * 64 + y) * 64 + z" "x * 64 + y"] by simp_all
    moreover have "0x10000 \<le> x * 262144 + y * 4096 + z * 64 + w"
      using \<open>x = 0 \<longrightarrow> 16 \<le> y\<close> by (cases "x = 0") simp_all
    moreover have "x * 262144 + y * 4096 + z * 64 + w < 0x110000"
      using x(2) yz(1,3,5) \<open>x = 4 \<longrightarrow> y < 16\<close> by (cases "x = 4") simp_all
    ultimately show ?thesis using x(1) yz(2,4,6) 4 by (simp add: scalar_value_def utf8_encode_char_def words)
  qed auto
  then show "scalar_value (utf8_scalar bs)" "utf8_encode_char (utf8_scalar bs) = bs" by simp_all
qed

lemma utf8_encode_scalars:
  "valid_utf8 bs \<Longrightarrow> utf8_encode (utf8_scalars bs) = bs \<and> list_all scalar_value (utf8_scalars bs)"
proof (induction bs rule: valid_utf8.induct)
  case (2 a bs)
  obtain c rest where split: "a # bs = c @ rest" "utf8_char c" "length c = utf8_width a" "valid_utf8 rest"
    using valid_utf8_split [OF 2(2)] .
  then have "utf8_encode (utf8_scalars rest) = rest \<and> list_all scalar_value (utf8_scalars rest)"
    using 2(1) by simp
  with split(2) show ?case
    unfolding split(1) by (simp add: utf8_scalars_char utf8_encode_def encode_scalar)
qed (simp add: utf8_encode_def)

text \<open>\<open>String::from_utf8\<close>. Its error owns the bytes it was given.\<close>

definition string_from_utf8 :: "u8 list \<Rightarrow> u8 list + nat list" where
  "string_from_utf8 bs = (if valid_utf8 bs then Inr (utf8_scalars bs) else Inl bs)"

lemma string_from_utf8_Inr:
  "string_from_utf8 bs = Inr s \<longleftrightarrow> list_all scalar_value s \<and> bs = utf8_encode s"
  by (auto simp: string_from_utf8_def utf8_encode_valid utf8_scalars_encode utf8_encode_scalars)

lemma string_from_utf8_Inl: "string_from_utf8 bs = Inl e \<longleftrightarrow> e = bs \<and> \<not> valid_utf8 bs"
  by (auto simp: string_from_utf8_def)

end
