(* ===== verification/Rust_Text.thy ===== *)
theory Rust_Text
  imports Byte_Codec
begin

section \<open>Text\<close>

text \<open>
  The operations of \<open>str\<close> the program uses. A Rust \<open>String\<close> is the list of its scalar values; its
  length and its order are those of its UTF-8 bytes.
\<close>

type_synonym rust_string = "nat list"

abbreviation string_ok :: "rust_string \<Rightarrow> bool" where
  "string_ok \<equiv> list_all scalar_value"

definition string_len :: "rust_string \<Rightarrow> usize" where
  "string_len s = length (utf8_encode s)"

text \<open>The scalar values of a text literal.\<close>

definition text_of :: "string \<Rightarrow> rust_string" where
  "text_of s = map of_char s"

text \<open>\<open>char::is_whitespace\<close>: the \<open>White_Space\<close> property of the Unicode standard.\<close>

definition is_whitespace :: "nat \<Rightarrow> bool" where
  "is_whitespace c \<longleftrightarrow> 0x9 \<le> c \<and> c \<le> 0xD \<or> 0x2000 \<le> c \<and> c \<le> 0x200A
     \<or> c \<in> {0x20, 0x85, 0xA0, 0x1680, 0x2028, 0x2029, 0x202F, 0x205F, 0x3000}"

definition string_trim :: "rust_string \<Rightarrow> rust_string" where
  "string_trim s = rev (dropWhile is_whitespace (rev (dropWhile is_whitespace s)))"

lemma length_drop_text:
  "dropWhile P s = c # cs \<Longrightarrow> length (dropWhile Q cs) < length s"
  using length_dropWhile_le [of P s] length_dropWhile_le [of Q cs] by simp

function split_whitespace :: "rust_string \<Rightarrow> rust_string list" where
  "split_whitespace s =
    (case dropWhile is_whitespace s of
       [] \<Rightarrow> []
     | c # cs \<Rightarrow> (c # takeWhile (\<lambda>c. \<not> is_whitespace c) cs)
         # split_whitespace (dropWhile (\<lambda>c. \<not> is_whitespace c) cs))"
  by pat_completeness auto

termination by (relation "measure length") (auto simp: length_drop_text)

declare split_whitespace.simps [simp del]

subsection \<open>Laws\<close>

lemma string_ok_filter [simp]:
  "string_ok s \<Longrightarrow> string_ok (dropWhile P s)" "string_ok s \<Longrightarrow> string_ok (takeWhile P s)"
  by (auto simp: list_all_iff dest: set_dropWhileD set_takeWhileD)

lemma string_ok_trim [simp]: "string_ok s \<Longrightarrow> string_ok (string_trim s)"
  unfolding string_trim_def by (metis list_all_rev string_ok_filter(1))

text \<open>Text whose ends are not white space is what trimming returns, and is not changed by it.\<close>

lemma trim_fixed:
  assumes "s = [] \<or> \<not> is_whitespace (hd s) \<and> \<not> is_whitespace (last s)"
  shows "string_trim s = s"
proof (cases "s = []")
  case False
  with assms have "dropWhile is_whitespace s = s" "dropWhile is_whitespace (rev s) = rev s"
    by (simp_all add: dropWhile_eq_self_iff hd_rev)
  then show ?thesis by (simp add: string_trim_def)
qed (simp add: string_trim_def)

lemma trim_ends:
  "string_trim s = [] \<or> \<not> is_whitespace (hd (string_trim s)) \<and> \<not> is_whitespace (last (string_trim s))"
proof (cases "string_trim s = []")
  case False
  define left where "left = dropWhile is_whitespace s"
  define right where "right = dropWhile is_whitespace (rev left)"
  have trim: "string_trim s = rev right" by (simp add: string_trim_def left_def right_def)
  with False have "right \<noteq> []" by simp
  have "\<not> is_whitespace (hd right)" using \<open>right \<noteq> []\<close> unfolding right_def by (rule hd_dropWhile)
  moreover obtain ws where split: "rev left = ws @ right"
    unfolding right_def using takeWhile_dropWhile_id [of is_whitespace "rev left"] by metis
  then have "left = rev right @ rev ws" by (metis rev_append rev_rev_ident)
  with \<open>right \<noteq> []\<close> have "left \<noteq> []" "hd left = last right" by (auto simp: hd_append hd_rev)
  then have "\<not> is_whitespace (last right)" unfolding left_def using hd_dropWhile by metis
  ultimately show ?thesis using \<open>right \<noteq> []\<close> by (simp add: trim hd_rev last_rev)
qed simp

lemma trim_trim [simp]: "string_trim (string_trim s) = string_trim s"
  by (rule trim_fixed) (rule trim_ends)

lemma utf8_encode_inject: "string_ok s \<Longrightarrow> string_ok t \<Longrightarrow> utf8_encode s = utf8_encode t \<Longrightarrow> s = t"
  by (metis utf8_scalars_encode)

end
