(* ===== verification/Diagnostics.thy ===== *)
theory Diagnostics
  imports Rust_Text "HOL-Library.Product_Lexorder" "HOL-Library.List_Lexorder" "HOL-Library.Option_ord"
begin

section \<open>Validation diagnostics\<close>

text \<open>
  \<open>crates/engines/application-runtime/src/workflow/diagnostics.rs\<close>: the findings of a validator
  and their normalisation. Texts are ordered by their UTF-8 bytes. The derived orders compare the fields in their order, with
  \<open>None\<close> below \<open>Some\<close>, which is the library's order on tuples and options.
\<close>

subsection \<open>Findings and reports\<close>

datatype diagnostic_severity = SeverityInformation | SeverityWarning | SeverityError

fun severity_rank :: "diagnostic_severity \<Rightarrow> nat" where
  "severity_rank SeverityInformation = 0"
| "severity_rank SeverityWarning = 1"
| "severity_rank SeverityError = 2"

lemma severity_rank_inject: "severity_rank a = severity_rank b \<Longrightarrow> a = b"
  by (cases a; cases b) simp_all

instantiation diagnostic_severity :: linorder
begin

definition less_eq_diagnostic_severity :: "diagnostic_severity \<Rightarrow> diagnostic_severity \<Rightarrow> bool" where
  "less_eq_diagnostic_severity a b \<longleftrightarrow> severity_rank a \<le> severity_rank b"

definition less_diagnostic_severity :: "diagnostic_severity \<Rightarrow> diagnostic_severity \<Rightarrow> bool" where
  "less_diagnostic_severity a b \<longleftrightarrow> severity_rank a < severity_rank b"

instance
  by standard (auto simp: less_eq_diagnostic_severity_def less_diagnostic_severity_def
      intro: severity_rank_inject)

end

record diagnostic_location =
  loc_path :: "rust_string option"
  loc_line :: "u32 option"
  loc_column :: "u32 option"

record raw_diagnostic =
  rd_severity :: diagnostic_severity
  rd_code :: "rust_string option"
  rd_message :: rust_string
  rd_location :: "diagnostic_location option"

record diagnostic =
  dg_severity :: diagnostic_severity
  dg_code :: "rust_string option"
  dg_message :: rust_string
  dg_location :: "diagnostic_location option"

datatype validation_verdict = VerdictPassed | VerdictRejected

record validation_report =
  vr_verdict :: validation_verdict
  vr_diagnostics :: "raw_diagnostic list"

record normalized_validation_report =
  nr_verdict :: validation_verdict
  nr_diagnostics :: "diagnostic list"

subsection \<open>Normalisation\<close>

definition normalize_optional_text :: "rust_string option \<Rightarrow> rust_string option" where
  "normalize_optional_text text =
    (case text of
       None \<Rightarrow> None
     | Some text \<Rightarrow>
         let trimmed = string_trim text in if trimmed = [] then None else Some trimmed)"

definition collapse_whitespace :: "rust_string \<Rightarrow> rust_string" where
  "collapse_whitespace text = foldl (\<lambda>normalized word.
     (if normalized = [] then normalized else normalized @ [0x20]) @ word) [] (split_whitespace text)"

definition normalize_location :: "diagnostic_location \<Rightarrow> diagnostic_location" where
  "normalize_location location =
    \<lparr>loc_path = normalize_optional_text (loc_path location), loc_line = loc_line location,
     loc_column = loc_column location\<rparr>"

definition normalize_diagnostic :: "raw_diagnostic \<Rightarrow> diagnostic" where
  "normalize_diagnostic raw =
    \<lparr>dg_severity = rd_severity raw, dg_code = normalize_optional_text (rd_code raw),
     dg_message = collapse_whitespace (rd_message raw),
     dg_location = map_option normalize_location (rd_location raw)\<rparr>"

text \<open>The derived order of \<open>Diagnostic\<close>, as the tuple of what its fields are compared by.\<close>

definition location_key :: "diagnostic_location \<Rightarrow> u8 list option \<times> u32 option \<times> u32 option" where
  "location_key location =
    (map_option utf8_encode (loc_path location), loc_line location, loc_column location)"

definition diagnostic_key ::
    "diagnostic \<Rightarrow> diagnostic_severity \<times> u8 list option \<times> u8 list
       \<times> (u8 list option \<times> u32 option \<times> u32 option) option" where
  "diagnostic_key d =
    (dg_severity d, map_option utf8_encode (dg_code d), utf8_encode (dg_message d),
     map_option location_key (dg_location d))"

definition normalize_validation_report :: "validation_report \<Rightarrow> normalized_validation_report" where
  "normalize_validation_report report =
    \<lparr>nr_verdict = vr_verdict report,
     nr_diagnostics = remdups_adj (sort_key diagnostic_key
       (map normalize_diagnostic (vr_diagnostics report)))\<rparr>"

subsection \<open>Collapsing\<close>

lemma normalize_optional_text_idem [simp]:
  "normalize_optional_text (normalize_optional_text t) = normalize_optional_text t"
  by (cases t) (simp_all add: normalize_optional_text_def Let_def)

text \<open>Words separated by one space.\<close>

fun spaced :: "rust_string list \<Rightarrow> rust_string" where
  "spaced [] = []"
| "spaced [w] = w"
| "spaced (w # v # ws) = w @ 0x20 # spaced (v # ws)"

definition word_ok :: "rust_string \<Rightarrow> bool" where
  "word_ok w \<longleftrightarrow> w \<noteq> [] \<and> (\<forall>c \<in> set w. \<not> is_whitespace c)"

lemma space_is_whitespace [simp]: "is_whitespace 32"
  by (simp add: is_whitespace_def)

lemma spaced_snoc: "spaced (ws @ [w]) = (if ws = [] then w else spaced ws @ 0x20 # w)"
  by (induction ws rule: spaced.induct) auto

lemma spaced_empty: "\<forall>w \<in> set ws. word_ok w \<Longrightarrow> spaced ws = [] \<longleftrightarrow> ws = []"
  by (induction ws rule: spaced.induct) (auto simp: word_ok_def)

lemma collapse_spaced:
  "\<forall>w \<in> set ws. word_ok w \<Longrightarrow> foldl (\<lambda>normalized word.
     (if normalized = [] then normalized else normalized @ [0x20]) @ word) [] ws = spaced ws"
  by (induction ws rule: rev_induct) (auto simp: spaced_snoc spaced_empty)

lemma split_words_ok: "w \<in> set (split_whitespace s) \<Longrightarrow> word_ok w"
proof (induction s rule: split_whitespace.induct)
  case (1 s)
  show ?case
  proof (cases "dropWhile is_whitespace s")
    case (Cons c cs)
    then have "\<not> is_whitespace c" using hd_dropWhile [of is_whitespace s] by simp
    then have "word_ok (c # takeWhile (\<lambda>c. \<not> is_whitespace c) cs)"
      by (auto simp: word_ok_def dest: set_takeWhileD)
    moreover have "w = c # takeWhile (\<lambda>c. \<not> is_whitespace c) cs
        \<or> w \<in> set (split_whitespace (dropWhile (\<lambda>c. \<not> is_whitespace c) cs))"
      using 1(2) Cons by (subst (asm) split_whitespace.simps) simp
    ultimately show ?thesis using 1(1) [OF Cons] by blast
  next
    case Nil
    with 1(2) show ?thesis by (subst (asm) split_whitespace.simps) simp
  qed
qed

lemma split_word:
  assumes "word_ok w" shows "split_whitespace (w @ 0x20 # s) = w # split_whitespace s"
    and "split_whitespace w = [w]"
proof -
  obtain c cs where w: "w = c # cs" "\<not> is_whitespace c" "\<forall>c \<in> set cs. \<not> is_whitespace c"
    using assms by (cases w) (auto simp: word_ok_def)
  then have scan: "takeWhile (\<lambda>c. \<not> is_whitespace c) (cs @ 0x20 # s) = cs"
    "dropWhile (\<lambda>c. \<not> is_whitespace c) (cs @ 0x20 # s) = 0x20 # s"
    "takeWhile (\<lambda>c. \<not> is_whitespace c) cs = cs" "dropWhile (\<lambda>c. \<not> is_whitespace c) cs = []"
    by (simp_all add: takeWhile_append2 dropWhile_append2 takeWhile_eq_all_conv dropWhile_eq_Nil_conv)
  have "split_whitespace (0x20 # s) = split_whitespace s"
    by (subst (1 2) split_whitespace.simps) simp
  then show "split_whitespace (w @ 0x20 # s) = w # split_whitespace s"
    by (subst split_whitespace.simps) (simp add: w scan)
  show "split_whitespace w = [w]"
    by (subst split_whitespace.simps) (simp add: w scan split_whitespace.simps)
qed

lemma split_spaced: "\<forall>w \<in> set ws. word_ok w \<Longrightarrow> split_whitespace (spaced ws) = ws"
  by (induction ws rule: spaced.induct) (simp_all add: split_word, simp add: split_whitespace.simps)

lemma collapse_collapse [simp]: "collapse_whitespace (collapse_whitespace s) = collapse_whitespace s"
proof -
  have words: "\<forall>w \<in> set (split_whitespace s). word_ok w" by (simp add: split_words_ok)
  have collapse: "collapse_whitespace s = spaced (split_whitespace s)"
    unfolding collapse_whitespace_def by (rule collapse_spaced [OF words])
  show ?thesis
    unfolding collapse by (simp only: collapse_whitespace_def split_spaced [OF words] collapse_spaced [OF words])
qed

subsection \<open>Canonical reports\<close>

text \<open>A normalised finding as a raw one.\<close>

definition raw_of :: "diagnostic \<Rightarrow> raw_diagnostic" where
  "raw_of d = \<lparr>rd_severity = dg_severity d, rd_code = dg_code d, rd_message = dg_message d,
     rd_location = dg_location d\<rparr>"

lemma normalize_again: "normalize_diagnostic (raw_of (normalize_diagnostic raw)) = normalize_diagnostic raw"
  by (cases "rd_location raw") (simp_all add: normalize_diagnostic_def raw_of_def normalize_location_def)

definition raw_ok :: "raw_diagnostic \<Rightarrow> bool" where
  "raw_ok raw \<longleftrightarrow> pred_option string_ok (rd_code raw) \<and> string_ok (rd_message raw)
     \<and> pred_option (\<lambda>location. pred_option string_ok (loc_path location)) (rd_location raw)"

lemma string_ok_words: "string_ok s \<Longrightarrow> w \<in> set (split_whitespace s) \<Longrightarrow> string_ok w"
proof (induction s rule: split_whitespace.induct)
  case (1 s)
  show ?case
  proof (cases "dropWhile is_whitespace s")
    case (Cons c cs)
    then have "string_ok (c # cs)" using 1(2) string_ok_filter(1) [of s is_whitespace] by simp
    moreover have "w = c # takeWhile (\<lambda>c. \<not> is_whitespace c) cs
        \<or> w \<in> set (split_whitespace (dropWhile (\<lambda>c. \<not> is_whitespace c) cs))"
      using 1(3) Cons by (subst (asm) split_whitespace.simps) simp
    ultimately show ?thesis using 1(1) [OF Cons] by auto
  next
    case Nil
    with 1(3) show ?thesis by (subst (asm) split_whitespace.simps) simp
  qed
qed

lemma string_ok_spaced: "\<forall>w \<in> set ws. string_ok w \<Longrightarrow> string_ok (spaced ws)"
  by (induction ws rule: spaced.induct) (auto simp: scalar_value_def)

lemma string_ok_collapse: "string_ok s \<Longrightarrow> string_ok (collapse_whitespace s)"
  unfolding collapse_whitespace_def
  by (subst collapse_spaced) (auto simp: split_words_ok intro: string_ok_spaced string_ok_words)

lemma string_ok_optional: "pred_option string_ok t \<Longrightarrow> pred_option string_ok (normalize_optional_text t)"
  by (cases t) (simp_all add: normalize_optional_text_def Let_def)

lemma raw_ok_normalize: "raw_ok raw \<Longrightarrow> raw_ok (raw_of (normalize_diagnostic raw))"
  by (cases "rd_location raw") (auto simp: raw_ok_def raw_of_def normalize_diagnostic_def normalize_location_def
      string_ok_collapse string_ok_optional)

lemma encode_option_inject:
  "pred_option string_ok s \<Longrightarrow> pred_option string_ok t
     \<Longrightarrow> map_option utf8_encode s = map_option utf8_encode t \<Longrightarrow> s = t"
  by (cases s; cases t) (auto intro: utf8_encode_inject)

lemma diagnostic_key_inject:
  assumes "raw_ok (raw_of d)" and "raw_ok (raw_of e)" and "diagnostic_key d = diagnostic_key e"
  shows "d = e"
proof -
  have "dg_code d = dg_code e" "dg_message d = dg_message e"
    using assms by (auto simp: raw_ok_def raw_of_def diagnostic_key_def intro: utf8_encode_inject encode_option_inject)
  moreover have "dg_location d = dg_location e"
    using assms by (cases "dg_location d"; cases "dg_location e")
      (auto simp: raw_ok_def raw_of_def diagnostic_key_def location_key_def
        intro!: diagnostic_location.equality encode_option_inject)
  ultimately show ?thesis using assms(3) by (simp add: diagnostic_key_def diagnostic.equality)
qed

lemma strict_remdups_adj:
  "sorted (map f xs) \<Longrightarrow> inj_on f (set xs) \<Longrightarrow> sorted_wrt (<) (map f (remdups_adj xs))"
proof (induction xs rule: remdups_adj.induct)
  case (3 x y xs)
  show ?case
  proof (cases "x = y")
    case False
    with 3 have "f x < f y" by (auto simp: order.strict_iff_order inj_on_eq_iff)
    moreover have "\<forall>z \<in> set (y # xs). f y \<le> f z" using 3(3) by auto
    ultimately have "\<forall>z \<in> set (remdups_adj (y # xs)). f x < f z" by (auto intro: less_le_trans)
    with False 3 show ?thesis by simp
  qed (use 3 in simp)
qed simp_all

lemma normalized_report:
  assumes "list_all raw_ok (vr_diagnostics report)"
  shows "sorted_wrt (<) (map diagnostic_key (nr_diagnostics (normalize_validation_report report)))"
    and "set (nr_diagnostics (normalize_validation_report report)) = normalize_diagnostic ` set (vr_diagnostics report)"
proof -
  have "inj_on diagnostic_key (normalize_diagnostic ` set (vr_diagnostics report))"
    using assms by (auto simp: inj_on_def list_all_iff intro: diagnostic_key_inject raw_ok_normalize)
  then show "sorted_wrt (<) (map diagnostic_key (nr_diagnostics (normalize_validation_report report)))"
    by (simp add: normalize_validation_report_def strict_remdups_adj)
qed (simp add: normalize_validation_report_def)

lemma strict_keys_unique:
  assumes "sorted_wrt (<) (map (f :: 'a \<Rightarrow> 'b::linorder) xs)" and "sorted_wrt (<) (map f ys)" and "set xs = set ys"
  shows "xs = ys"
proof -
  have "map f xs = map f ys"
    using assms by (intro sorted_distinct_set_unique) (auto simp: strict_sorted_iff)
  moreover have "inj_on f (set xs \<union> set ys)" using assms by (auto simp: strict_sorted_iff distinct_map)
  ultimately show ?thesis using inj_on_map_eq_map by blast
qed

subsection \<open>Properties\<close>

text \<open>
  \<^bold>\<open>C32\<close>. The normalised report is canonical: its findings are strictly ascending in their typed
  order and its verdict is that of the report, two reports have the same normalised report exactly
  when their verdicts are the same and their findings are the same up to normalisation, in any order
  and number, and normalising once more changes nothing.
\<close>
theorem normalization_canonical:
  assumes "list_all raw_ok (vr_diagnostics report)" and "list_all raw_ok (vr_diagnostics report')"
  shows "sorted_wrt (<) (map diagnostic_key (nr_diagnostics (normalize_validation_report report)))
    \<and> nr_verdict (normalize_validation_report report) = vr_verdict report
    \<and> (normalize_validation_report report = normalize_validation_report report' \<longleftrightarrow>
         vr_verdict report = vr_verdict report'
         \<and> normalize_diagnostic ` set (vr_diagnostics report) = normalize_diagnostic ` set (vr_diagnostics report'))
    \<and> normalize_validation_report \<lparr>vr_verdict = vr_verdict report,
         vr_diagnostics = map raw_of (nr_diagnostics (normalize_validation_report report))\<rparr>
       = normalize_validation_report report"
proof -
  let ?n = "normalize_validation_report"
  let ?again = "\<lparr>vr_verdict = vr_verdict report, vr_diagnostics = map raw_of (nr_diagnostics (?n report))\<rparr>"
  have same: "?n r = ?n r'" if "list_all raw_ok (vr_diagnostics r)" "list_all raw_ok (vr_diagnostics r')"
    "vr_verdict r = vr_verdict r'" "set (nr_diagnostics (?n r)) = set (nr_diagnostics (?n r'))" for r r'
    using strict_keys_unique [OF normalized_report(1) [OF that(1)] normalized_report(1) [OF that(2)] that(4)] that(3)
    by (simp add: normalize_validation_report_def)
  have "list_all raw_ok (vr_diagnostics ?again)"
    using assms(1) normalized_report(2) [OF assms(1)] raw_ok_normalize by (auto simp: list_all_iff)
  then have "?n ?again = ?n report"
    using normalized_report(2) [of ?again] normalized_report(2) [OF assms(1)] assms(1)
    by (intro same) (auto simp: normalize_again image_image)
  moreover have verdict: "nr_verdict (?n r) = vr_verdict r" for r by (simp add: normalize_validation_report_def)
  moreover have "?n report = ?n report' \<longleftrightarrow> vr_verdict report = vr_verdict report'
      \<and> normalize_diagnostic ` set (vr_diagnostics report) = normalize_diagnostic ` set (vr_diagnostics report')"
    using normalized_report(2) [OF assms(1)] normalized_report(2) [OF assms(2)] same [OF assms] verdict by metis
  ultimately show ?thesis using normalized_report(1) [OF assms(1)] by blast
qed

definition example_finding :: "rust_string \<Rightarrow> raw_diagnostic" where
  "example_finding message = \<lparr>rd_severity = SeverityError, rd_code = None, rd_message = message, rd_location = None\<rparr>"

lemma normalization_canonical_witness:
  "normalize_validation_report \<lparr>vr_verdict = VerdictRejected,
     vr_diagnostics = [example_finding [0x20, 65], example_finding [66]]\<rparr>
   = normalize_validation_report \<lparr>vr_verdict = VerdictRejected,
     vr_diagnostics = [example_finding [66], example_finding [65, 9], example_finding [65]]\<rparr>"
proof -
  have "normalize_diagnostic (example_finding [0x20, 65]) = normalize_diagnostic (example_finding [65])"
    "normalize_diagnostic (example_finding [65, 9]) = normalize_diagnostic (example_finding [65])"
    by (simp_all add: normalize_diagnostic_def example_finding_def collapse_whitespace_def is_whitespace_def
        split_whitespace.simps [of "_ # _"] split_whitespace.simps [of "[]"])
  then show ?thesis
    using normalization_canonical [of
        "\<lparr>vr_verdict = VerdictRejected, vr_diagnostics = [example_finding [0x20, 65], example_finding [66]]\<rparr>"
        "\<lparr>vr_verdict = VerdictRejected,
          vr_diagnostics = [example_finding [66], example_finding [65, 9], example_finding [65]]\<rparr>"]
    by (simp add: raw_ok_def example_finding_def scalar_value_def insert_commute)
qed

end
