(* ===== verification/Workflow_Data.thy ===== *)
theory Workflow_Data
  imports Diagnostics Task_State
begin

section \<open>Corrective workflows: data and the artifact store\<close>

text \<open>
  \<open>crates/engines/application-runtime/src/workflow/mod.rs\<close> and \<open>artifact.rs\<close>: identities, stages,
  events and errors, the limits and the configuration with their validation, the requests to the
  model and validator ports, and the immutable typed artifact store. The port requests carry
  identities only; what a port can read is the restricted view \<open>ArtifactInputs\<close>.
\<close>

subsection \<open>Identities, stages and outcomes\<close>

instantiation artifact_id :: linorder
begin

definition less_eq_artifact_id :: "artifact_id \<Rightarrow> artifact_id \<Rightarrow> bool" where
  "less_eq_artifact_id a b \<longleftrightarrow> artifact_id_get a \<le> artifact_id_get b"

definition less_artifact_id :: "artifact_id \<Rightarrow> artifact_id \<Rightarrow> bool" where
  "less_artifact_id a b \<longleftrightarrow> artifact_id_get a < artifact_id_get b"

instance
  by standard (auto simp: less_eq_artifact_id_def less_artifact_id_def artifact_id.expand)

end

datatype workflow_id = WorkflowId (workflow_id_get: u64)

datatype workflow_stage =
    StageDraft | StageInitialValidation | StageNormalizeDiagnostics | StageReview | StageRevise
  | StageFinalValidation

datatype workflow_status = WorkflowAccepted | WorkflowRejected

datatype workflow_outcome =
    OutcomeAccepted workflow_id artifact_id artifact_id
  | OutcomeRejected workflow_id artifact_id artifact_id

fun outcome_workflow :: "workflow_outcome \<Rightarrow> workflow_id" where
  "outcome_workflow (OutcomeAccepted workflow _ _) = workflow"
| "outcome_workflow (OutcomeRejected workflow _ _) = workflow"

fun outcome_status :: "workflow_outcome \<Rightarrow> workflow_status" where
  "outcome_status (OutcomeAccepted _ _ _) = WorkflowAccepted"
| "outcome_status (OutcomeRejected _ _ _) = WorkflowRejected"

fun outcome_revision :: "workflow_outcome \<Rightarrow> artifact_id" where
  "outcome_revision (OutcomeAccepted _ revision _) = revision"
| "outcome_revision (OutcomeRejected _ revision _) = revision"

fun outcome_validation :: "workflow_outcome \<Rightarrow> artifact_id" where
  "outcome_validation (OutcomeAccepted _ _ validation) = validation"
| "outcome_validation (OutcomeRejected _ _ validation) = validation"

datatype workflow_event =
    StageStarted workflow_id workflow_stage task_attempt
  | ArtifactCommitted workflow_id workflow_stage task_attempt artifact_reference
  | RetryScheduled workflow_id workflow_stage task_attempt task_attempt
  | WorkflowCompleted workflow_id workflow_status artifact_id artifact_id

subsection \<open>Requests to the ports\<close>

record model_task_request =
  mr_workflow :: workflow_id
  mr_attempt :: task_attempt
  mr_kind :: task_kind
  mr_model_policy :: model_policy
  mr_budget :: task_budget
  mr_input_artifacts :: "artifact_id list"

record validation_task_request =
  vq_workflow :: workflow_id
  vq_attempt :: task_attempt
  vq_kind :: task_kind
  vq_budget :: task_budget
  vq_input_artifacts :: "artifact_id list"

subsection \<open>Artifact contents\<close>

datatype artifact_content_kind =
    ContentKindSpecification | ContentKindDraft | ContentKindRawValidation
  | ContentKindNormalizedDiagnostics | ContentKindReview | ContentKindRevision
  | ContentKindFinalValidation

datatype artifact_content =
    ContentSpecification rust_string
  | ContentDraft rust_string
  | ContentRawValidation validation_report
  | ContentNormalizedDiagnostics normalized_validation_report
  | ContentReview rust_string
  | ContentRevision rust_string
  | ContentFinalValidation validation_report

fun content_kind :: "artifact_content \<Rightarrow> artifact_content_kind" where
  "content_kind (ContentSpecification _) = ContentKindSpecification"
| "content_kind (ContentDraft _) = ContentKindDraft"
| "content_kind (ContentRawValidation _) = ContentKindRawValidation"
| "content_kind (ContentNormalizedDiagnostics _) = ContentKindNormalizedDiagnostics"
| "content_kind (ContentReview _) = ContentKindReview"
| "content_kind (ContentRevision _) = ContentKindRevision"
| "content_kind (ContentFinalValidation _) = ContentKindFinalValidation"

record artifact =
  art_reference :: artifact_reference
  art_content :: artifact_content

subsection \<open>Errors\<close>

datatype workflow_executor_limit_error =
    ZeroMaximumArtifacts | ZeroMaximumPendingEvents | ZeroMaximumSpecificationBytes

datatype workflow_budget_class = BudgetModel | BudgetValidation

datatype workflow_configuration_error =
    InvalidInitialValidation task_kind
  | DeterministicModelPolicy
  | ZeroMaximumInputTokens workflow_budget_class
  | ZeroMaximumOutputTokens workflow_budget_class
  | ZeroArtifactLimit artifact_role

datatype workflow_identifier_kind = IdentifierWorkflow | IdentifierTask | IdentifierArtifact

datatype workflow_error =
    InvalidWorkflowConfiguration workflow_configuration_error
  | InvalidExecutorLimits workflow_executor_limit_error
  | UnknownSpecification artifact_id
  | InvalidSpecification artifact_reference
  | IdentifierExhausted workflow_identifier_kind
  | ArtifactContentMismatch artifact_reference artifact_content_kind
  | DuplicateArtifact artifact_id
  | ArtifactCapacityExceeded usize usize
  | SpecificationCapacityExceeded u64 u64
  | SpecificationSizeOverflow
  | EventCapacityExceeded usize usize
  | EventCapacityOverflow
  | WorkflowTaskGraph task_graph_error
  | ArtifactSizeOverflow workflow_id workflow_stage task_id artifact_id
  | OutputCapacityExceeded workflow_id workflow_stage task_id artifact_id u64 u64
  | WorkflowTaskExhausted workflow_id workflow_stage task_id u16 rust_string
  | InvalidCommittedArtifact artifact_id artifact_role

subsection \<open>Limits and configuration\<close>

record workflow_executor_limits =
  wl_artifacts :: usize
  wl_pending_events :: usize
  wl_specification_bytes :: u64

definition workflow_executor_limits_new ::
    "usize \<Rightarrow> usize \<Rightarrow> u64 \<Rightarrow> workflow_error + workflow_executor_limits" where
  "workflow_executor_limits_new maximum_artifacts maximum_pending_events maximum_specification_bytes =
    (if maximum_artifacts = 0 then Inl (InvalidExecutorLimits ZeroMaximumArtifacts)
     else if maximum_pending_events = 0 then Inl (InvalidExecutorLimits ZeroMaximumPendingEvents)
     else if maximum_specification_bytes = 0
     then Inl (InvalidExecutorLimits ZeroMaximumSpecificationBytes)
     else Inr \<lparr>wl_artifacts = maximum_artifacts, wl_pending_events = maximum_pending_events,
       wl_specification_bytes = maximum_specification_bytes\<rparr>)"

record workflow_artifact_limits =
  wa_draft :: u64
  wa_raw_validation :: u64
  wa_normalized_diagnostics :: u64
  wa_review :: u64
  wa_revision :: u64
  wa_final_validation :: u64

record corrective_workflow_configuration =
  wc_initial_validation :: task_kind
  wc_model_policy :: model_policy
  wc_model_budget :: task_budget
  wc_validation_budget :: task_budget
  wc_artifact_limits :: workflow_artifact_limits

definition configuration_validate :: "corrective_workflow_configuration \<Rightarrow> workflow_error + unit" where
  "configuration_validate c =
    map_err InvalidWorkflowConfiguration
    (if wc_initial_validation c \<notin> {KindCompileCheck, KindValidate}
     then Inl (InvalidInitialValidation (wc_initial_validation c))
     else if wc_model_policy c = PolicyDeterministic then Inl DeterministicModelPolicy
     else
     bind_ok (try_all (\<lambda>(budget_class, budget).
         if tb_maximum_input_tokens budget = 0 then Inl (ZeroMaximumInputTokens budget_class)
         else if tb_maximum_output_tokens budget = 0 then Inl (ZeroMaximumOutputTokens budget_class)
         else Inr ())
       [(BudgetModel, wc_model_budget c), (BudgetValidation, wc_validation_budget c)]) (\<lambda>_.
     try_all (\<lambda>(role, maximum). if maximum = 0 then Inl (ZeroArtifactLimit role) else Inr ())
       [(RoleDraft, wa_draft (wc_artifact_limits c)),
        (RoleRawDiagnostics, wa_raw_validation (wc_artifact_limits c)),
        (RoleNormalizedDiagnostics, wa_normalized_diagnostics (wc_artifact_limits c)),
        (RoleReview, wa_review (wc_artifact_limits c)),
        (RoleRevision, wa_revision (wc_artifact_limits c)),
        (RoleFinalValidation, wa_final_validation (wc_artifact_limits c))]))"

definition configuration_new ::
    "task_kind \<Rightarrow> model_policy \<Rightarrow> task_budget \<Rightarrow> task_budget \<Rightarrow> workflow_artifact_limits
       \<Rightarrow> workflow_error + corrective_workflow_configuration" where
  "configuration_new initial_validation policy model_budget validation_budget artifact_limits =
    (let configuration = \<lparr>wc_initial_validation = initial_validation, wc_model_policy = policy,
           wc_model_budget = model_budget, wc_validation_budget = validation_budget,
           wc_artifact_limits = artifact_limits\<rparr>
     in bind_ok (configuration_validate configuration) (\<lambda>_. Inr configuration))"

subsection \<open>Typed artifacts\<close>

text \<open>The kind and the role a payload variant goes with.\<close>

fun content_contract :: "artifact_content \<Rightarrow> artifact_kind \<times> artifact_role" where
  "content_contract (ContentSpecification _) = (ArtText, RoleSpecification)"
| "content_contract (ContentDraft _) = (ArtText, RoleDraft)"
| "content_contract (ContentRawValidation _) = (ArtDiagnostics, RoleRawDiagnostics)"
| "content_contract (ContentNormalizedDiagnostics _) = (ArtDiagnostics, RoleNormalizedDiagnostics)"
| "content_contract (ContentReview _) = (ArtText, RoleReview)"
| "content_contract (ContentRevision _) = (ArtText, RoleRevision)"
| "content_contract (ContentFinalValidation _) = (ArtDiagnostics, RoleFinalValidation)"

definition validate_content :: "artifact_reference \<Rightarrow> artifact_content \<Rightarrow> workflow_error + unit" where
  "validate_content reference content =
    (if (ar_kind reference, ar_role reference) = content_contract content then Inr ()
     else Inl (ArtifactContentMismatch reference (content_kind content)))"

definition artifact_new :: "artifact_reference \<Rightarrow> artifact_content \<Rightarrow> workflow_error + artifact" where
  "artifact_new reference content =
    bind_ok (validate_content reference content) (\<lambda>_. Inr \<lparr>art_reference = reference, art_content = content\<rparr>)"

subsection \<open>The store\<close>

record artifact_store =
  as_artifacts :: "(artifact_id, artifact) btree_map"
  as_maximum_artifacts :: usize

definition store_new :: "usize \<Rightarrow> artifact_store" where
  "store_new maximum_artifacts = \<lparr>as_artifacts = bt_empty, as_maximum_artifacts = maximum_artifacts\<rparr>"

definition store_remaining_capacity :: "artifact_store \<Rightarrow> usize" where
  "store_remaining_capacity store =
    (if as_maximum_artifacts store \<le> bt_len (as_artifacts store) then 0
     else as_maximum_artifacts store - bt_len (as_artifacts store))"

definition store_get :: "artifact_store \<Rightarrow> artifact_id \<Rightarrow> artifact option" where
  "store_get store i = bt_get (as_artifacts store) i"

definition store_insert :: "artifact \<Rightarrow> artifact_store \<Rightarrow> (workflow_error + unit) \<times> artifact_store" where
  "store_insert a store =
    (case validate_content (art_reference a) (art_content a) of
       Inl e \<Rightarrow> (Inl e, store)
     | Inr _ \<Rightarrow>
    let i = ar_id (art_reference a); available = store_remaining_capacity store in
    if bt_contains (as_artifacts store) i then (Inl (DuplicateArtifact i), store)
    else if available = 0 then (Inl (ArtifactCapacityExceeded 1 available), store)
    else (Inr (), store\<lparr>as_artifacts := bt_insert i a (as_artifacts store)\<rparr>))"

text \<open>The view a port gets: the artifacts whose identities its request declares.\<close>

record artifact_inputs =
  ai_store :: artifact_store
  ai_ids :: "artifact_id list"

definition inputs_get :: "artifact_inputs \<Rightarrow> artifact_id \<Rightarrow> artifact option" where
  "inputs_get inputs i = (if i \<in> set (ai_ids inputs) then store_get (ai_store inputs) i else None)"

end
