(* ===== verification/Workflow_Executor.thy ===== *)
theory Workflow_Executor
  imports Workflow_Data
begin

section \<open>Corrective workflows: the executor\<close>

text \<open>
  \<open>crates/engines/application-runtime/src/workflow/executor.rs\<close>. The executor owns its ports, the
  artifact store, the queue of pending events and three identity sequences; \<open>execute\<close> builds and
  validates the canonical graph of six tasks and runs its stages in order, each over the task
  state table. The ports are functions of their own state.
\<close>

definition usize_checked_mul :: "usize \<Rightarrow> usize \<Rightarrow> usize option" where
  "usize_checked_mul a b = (if a * b \<le> usize_max then Some (a * b) else None)"

subsection \<open>Accounting of payload sizes\<close>

definition string_size :: "rust_string \<Rightarrow> u64 option" where
  "string_size s = (if string_len s < 2 ^ 64 then Some (of_nat (string_len s)) else None)"

definition optional_string_size :: "rust_string option \<Rightarrow> u64 option" where
  "optional_string_size s = Option.bind (case s of None \<Rightarrow> Some 0 | Some s \<Rightarrow> string_size s) (checked_add 1)"

definition optional_u32_size :: "u32 option \<Rightarrow> u64" where
  "optional_u32_size n = (if n \<noteq> None then 5 else 1)"

definition optional_location_size :: "diagnostic_location option \<Rightarrow> u64 option" where
  "optional_location_size location =
    (case location of
       None \<Rightarrow> Some 1
     | Some location \<Rightarrow>
         Option.bind (Option.bind (optional_string_size (loc_path location)) (checked_add 1)) (\<lambda>total.
         Option.bind (checked_add total (optional_u32_size (loc_line location))) (\<lambda>total.
         checked_add total (optional_u32_size (loc_column location)))))"

definition finding_size ::
    "rust_string option \<Rightarrow> rust_string \<Rightarrow> diagnostic_location option \<Rightarrow> u64 option" where
  "finding_size code message location =
    Option.bind (Option.bind (optional_string_size code) (checked_add 1)) (\<lambda>total.
    Option.bind (Option.bind (string_size message) (checked_add total)) (\<lambda>total.
    Option.bind (optional_location_size location) (checked_add total)))"

definition raw_diagnostic_size :: "raw_diagnostic \<Rightarrow> u64 option" where
  "raw_diagnostic_size d = finding_size (rd_code d) (rd_message d) (rd_location d)"

definition diagnostic_size :: "diagnostic \<Rightarrow> u64 option" where
  "diagnostic_size d = finding_size (dg_code d) (dg_message d) (dg_location d)"

fun try_sum :: "('a \<Rightarrow> u64 option) \<Rightarrow> u64 \<Rightarrow> 'a list \<Rightarrow> u64 option" where
  "try_sum size_of acc [] = Some acc"
| "try_sum size_of acc (d # ds) =
     Option.bind (Option.bind (size_of d) (checked_add acc)) (\<lambda>acc. try_sum size_of acc ds)"

definition raw_report_size :: "validation_report \<Rightarrow> u64 option" where
  "raw_report_size report = try_sum raw_diagnostic_size 1 (vr_diagnostics report)"

definition normalized_report_size :: "normalized_validation_report \<Rightarrow> u64 option" where
  "normalized_report_size report = try_sum diagnostic_size 1 (nr_diagnostics report)"

fun artifact_content_size :: "artifact_content \<Rightarrow> u64 option" where
  "artifact_content_size (ContentSpecification s) = string_size s"
| "artifact_content_size (ContentDraft s) = string_size s"
| "artifact_content_size (ContentReview s) = string_size s"
| "artifact_content_size (ContentRevision s) = string_size s"
| "artifact_content_size (ContentRawValidation report) = raw_report_size report"
| "artifact_content_size (ContentFinalValidation report) = raw_report_size report"
| "artifact_content_size (ContentNormalizedDiagnostics report) = normalized_report_size report"

subsection \<open>The executor\<close>

record ('mp, 'vp) workflow_ports =
  port_model :: "model_task_request \<Rightarrow> (artifact_id \<Rightarrow> artifact option) \<Rightarrow> 'mp
    \<Rightarrow> (rust_string + rust_string) \<times> 'mp"
  port_validator :: "validation_task_request \<Rightarrow> (artifact_id \<Rightarrow> artifact option) \<Rightarrow> 'vp
    \<Rightarrow> (rust_string + validation_report) \<times> 'vp"

record ('mp, 'vp) workflow_executor =
  we_model :: 'mp
  we_validator :: 'vp
  we_artifacts :: artifact_store
  we_events :: "workflow_event list"
  we_limits :: workflow_executor_limits
  we_next_workflow_id :: u64
  we_next_task_id :: u64
  we_next_artifact_id :: u64

definition executor_new :: "'mp \<Rightarrow> 'vp \<Rightarrow> workflow_executor_limits \<Rightarrow> ('mp, 'vp) workflow_executor" where
  "executor_new model validator limits =
    \<lparr>we_model = model, we_validator = validator, we_artifacts = store_new (wl_artifacts limits),
     we_events = [], we_limits = limits, we_next_workflow_id = 1, we_next_task_id = 1,
     we_next_artifact_id = 1\<rparr>"

definition poll_event :: "('mp, 'vp) workflow_executor \<Rightarrow> workflow_event option \<times> ('mp, 'vp) workflow_executor" where
  "poll_event x = (case we_events x of
     [] \<Rightarrow> (None, x) | event # events \<Rightarrow> (Some event, x\<lparr>we_events := events\<rparr>))"

definition remaining_event_capacity :: "('mp, 'vp) workflow_executor \<Rightarrow> usize" where
  "remaining_event_capacity x =
    (let capacity = wl_pending_events (we_limits x)
     in if capacity \<le> length (we_events x) then 0 else capacity - length (we_events x))"

definition ensure_event_capacity :: "('mp, 'vp) workflow_executor \<Rightarrow> workflow_error + unit" where
  "ensure_event_capacity x =
    (let available = remaining_event_capacity x
     in if available = 0 then Inl (EventCapacityExceeded 1 available) else Inr ())"

definition enqueue_event ::
    "workflow_event \<Rightarrow> ('mp, 'vp) workflow_executor \<Rightarrow> (workflow_error + unit) \<times> ('mp, 'vp) workflow_executor" where
  "enqueue_event event x =
    (case ensure_event_capacity x of
       Inl e \<Rightarrow> (Inl e, x)
     | Inr _ \<Rightarrow> (Inr (), x\<lparr>we_events := we_events x @ [event]\<rparr>))"

definition retryable_task_event_capacity :: "u16 \<Rightarrow> usize \<Rightarrow> workflow_error + usize" where
  "retryable_task_event_capacity maximum_attempts task_count =
    ok_or (Option.bind (usize_checked_mul (unat maximum_attempts) 2)
      (\<lambda>per_task. usize_checked_mul per_task task_count)) EventCapacityOverflow"

definition required_event_capacity :: "corrective_workflow_configuration \<Rightarrow> workflow_error + usize" where
  "required_event_capacity c =
    bind_ok (retryable_task_event_capacity (tb_maximum_attempts (wc_model_budget c)) 3) (\<lambda>model_events.
    bind_ok (retryable_task_event_capacity (tb_maximum_attempts (wc_validation_budget c)) 2) (\<lambda>validation_events.
    ok_or (Option.bind (usize_checked_add model_events validation_events) (\<lambda>total.
      Option.bind (usize_checked_add total 2) (\<lambda>total. usize_checked_add total 1)))
      EventCapacityOverflow))"

definition admit_execution ::
    "corrective_workflow_configuration \<Rightarrow> ('mp, 'vp) workflow_executor \<Rightarrow> workflow_error + unit" where
  "admit_execution c x =
    (let artifact_capacity = store_remaining_capacity (we_artifacts x) in
     if artifact_capacity < 6 then Inl (ArtifactCapacityExceeded 6 artifact_capacity)
     else bind_ok (required_event_capacity c) (\<lambda>required_events.
       let available_events = remaining_event_capacity x in
       if available_events < required_events
       then Inl (EventCapacityExceeded required_events available_events) else Inr ()))"

subsection \<open>Identities\<close>

definition allocate_id :: "u64 \<Rightarrow> workflow_identifier_kind \<Rightarrow> (workflow_error + u64) \<times> u64" where
  "allocate_id current kind =
    (case checked_add current 1 of
       None \<Rightarrow> (Inl (IdentifierExhausted kind), current)
     | Some next_id \<Rightarrow> (Inr current, next_id))"

definition allocate_workflow_id ::
    "('mp, 'vp) workflow_executor \<Rightarrow> (workflow_error + workflow_id) \<times> ('mp, 'vp) workflow_executor" where
  "allocate_workflow_id x =
    (case allocate_id (we_next_workflow_id x) IdentifierWorkflow of
       (r, n) \<Rightarrow> (bind_ok r (\<lambda>i. Inr (WorkflowId i)), x\<lparr>we_next_workflow_id := n\<rparr>))"

definition allocate_task_id ::
    "('mp, 'vp) workflow_executor \<Rightarrow> (workflow_error + task_id) \<times> ('mp, 'vp) workflow_executor" where
  "allocate_task_id x =
    (case allocate_id (we_next_task_id x) IdentifierTask of
       (r, n) \<Rightarrow> (bind_ok r (\<lambda>i. Inr (TaskId i)), x\<lparr>we_next_task_id := n\<rparr>))"

definition allocate_artifact_id ::
    "('mp, 'vp) workflow_executor \<Rightarrow> (workflow_error + artifact_id) \<times> ('mp, 'vp) workflow_executor" where
  "allocate_artifact_id x =
    (case allocate_id (we_next_artifact_id x) IdentifierArtifact of
       (r, n) \<Rightarrow> (bind_ok r (\<lambda>i. Inr (ArtifactId i)), x\<lparr>we_next_artifact_id := n\<rparr>))"

record task_identities =
  tk_draft :: task_id
  tk_initial_validation :: task_id
  tk_normalize :: task_id
  tk_review :: task_id
  tk_revise :: task_id
  tk_final_validation :: task_id

definition reserve_task_ids ::
    "('mp, 'vp) workflow_executor \<Rightarrow> (workflow_error + task_identities) \<times> ('mp, 'vp) workflow_executor" where
  "reserve_task_ids x =
    bind_step (allocate_task_id x) (\<lambda>draft x.
    bind_step (allocate_task_id x) (\<lambda>initial_validation x.
    bind_step (allocate_task_id x) (\<lambda>normalize x.
    bind_step (allocate_task_id x) (\<lambda>review x.
    bind_step (allocate_task_id x) (\<lambda>revise x.
    bind_step (allocate_task_id x) (\<lambda>final_validation x.
    (Inr \<lparr>tk_draft = draft, tk_initial_validation = initial_validation, tk_normalize = normalize,
       tk_review = review, tk_revise = revise, tk_final_validation = final_validation\<rparr>, x)))))))"

record artifact_references =
  rf_draft :: artifact_reference
  rf_raw_validation :: artifact_reference
  rf_normalized_diagnostics :: artifact_reference
  rf_review :: artifact_reference
  rf_revision :: artifact_reference
  rf_final_validation :: artifact_reference

definition make_reference :: "artifact_kind \<Rightarrow> artifact_role \<Rightarrow> artifact_id \<Rightarrow> artifact_reference" where
  "make_reference kind role i = \<lparr>ar_id = i, ar_kind = kind, ar_role = role\<rparr>"

definition reserve_output_references ::
    "('mp, 'vp) workflow_executor \<Rightarrow> (workflow_error + artifact_references) \<times> ('mp, 'vp) workflow_executor" where
  "reserve_output_references x =
    bind_step (allocate_artifact_id x) (\<lambda>draft x.
    bind_step (allocate_artifact_id x) (\<lambda>raw_validation x.
    bind_step (allocate_artifact_id x) (\<lambda>normalized_diagnostics x.
    bind_step (allocate_artifact_id x) (\<lambda>review x.
    bind_step (allocate_artifact_id x) (\<lambda>revision x.
    bind_step (allocate_artifact_id x) (\<lambda>final_validation x.
    (Inr \<lparr>rf_draft = make_reference ArtText RoleDraft draft,
       rf_raw_validation = make_reference ArtDiagnostics RoleRawDiagnostics raw_validation,
       rf_normalized_diagnostics =
         make_reference ArtDiagnostics RoleNormalizedDiagnostics normalized_diagnostics,
       rf_review = make_reference ArtText RoleReview review,
       rf_revision = make_reference ArtText RoleRevision revision,
       rf_final_validation =
         make_reference ArtDiagnostics RoleFinalValidation final_validation\<rparr>, x)))))))"

definition insert_specification ::
    "rust_string \<Rightarrow> ('mp, 'vp) workflow_executor
       \<Rightarrow> (workflow_error + artifact_id) \<times> ('mp, 'vp) workflow_executor" where
  "insert_specification specification x =
    (case string_size specification of
       None \<Rightarrow> (Inl SpecificationSizeOverflow, x)
     | Some required \<Rightarrow>
    if wl_specification_bytes (we_limits x) < required
    then (Inl (SpecificationCapacityExceeded required (wl_specification_bytes (we_limits x))), x)
    else
    bind_step (allocate_artifact_id x) (\<lambda>i x.
    (case artifact_new (make_reference ArtText RoleSpecification i) (ContentSpecification specification) of
       Inl e \<Rightarrow> (Inl e, x)
     | Inr a \<Rightarrow>
         (case store_insert a (we_artifacts x) of
            (r, store) \<Rightarrow> (bind_ok r (\<lambda>_. Inr i), x\<lparr>we_artifacts := store\<rparr>)))))"

subsection \<open>Committing an output\<close>

definition commit_output ::
    "workflow_id \<Rightarrow> workflow_stage \<Rightarrow> task_attempt \<Rightarrow> artifact_reference \<Rightarrow> artifact_content \<Rightarrow> u64
       \<Rightarrow> ('mp, 'vp) workflow_executor \<Rightarrow> (workflow_error + unit) \<times> ('mp, 'vp) workflow_executor" where
  "commit_output workflow stage attempt reference content maximum_bytes x =
    (case artifact_content_size content of
       None \<Rightarrow> (Inl (ArtifactSizeOverflow workflow stage (at_task attempt) (ar_id reference)), x)
     | Some required \<Rightarrow>
    if maximum_bytes < required
    then (Inl (OutputCapacityExceeded workflow stage (at_task attempt) (ar_id reference) required
           maximum_bytes), x)
    else
    (case ensure_event_capacity x of
       Inl e \<Rightarrow> (Inl e, x)
     | Inr _ \<Rightarrow>
    (case artifact_new reference content of
       Inl e \<Rightarrow> (Inl e, x)
     | Inr a \<Rightarrow>
    (case store_insert a (we_artifacts x) of
       (Inl e, store) \<Rightarrow> (Inl e, x\<lparr>we_artifacts := store\<rparr>)
     | (Inr _, store) \<Rightarrow>
         enqueue_event (ArtifactCommitted workflow stage attempt reference)
           (x\<lparr>we_artifacts := store\<rparr>)))))"

definition require_specification ::
    "artifact_id \<Rightarrow> ('mp, 'vp) workflow_executor \<Rightarrow> workflow_error + artifact_reference" where
  "require_specification i x =
    (case store_get (we_artifacts x) i of
       None \<Rightarrow> Inl (UnknownSpecification i)
     | Some a \<Rightarrow>
         let reference = art_reference a in
         if ar_kind reference \<noteq> ArtText \<or> ar_role reference \<noteq> RoleSpecification
            \<or> content_kind (art_content a) \<noteq> ContentKindSpecification
         then Inl (InvalidSpecification reference) else Inr reference)"

definition require_raw_validation ::
    "artifact_id \<Rightarrow> ('mp, 'vp) workflow_executor \<Rightarrow> workflow_error + validation_report" where
  "require_raw_validation i x =
    (case store_get (we_artifacts x) i of
       None \<Rightarrow> Inl (InvalidCommittedArtifact i RoleRawDiagnostics)
     | Some a \<Rightarrow>
         (case art_content a of
            ContentRawValidation report \<Rightarrow> Inr report
          | _ \<Rightarrow> Inl (InvalidCommittedArtifact i RoleRawDiagnostics)))"

subsection \<open>Stages\<close>

text \<open>What the three stage functions share of their arguments.\<close>

record stage_arguments =
  sg_workflow :: workflow_id
  sg_stage :: workflow_stage
  sg_task :: task_id
  sg_budget :: task_budget
  sg_output :: artifact_reference
  sg_maximum_bytes :: u64

type_synonym ('mp, 'vp) stage_state = "('mp, 'vp) workflow_executor \<times> task_states"

definition start_stage ::
    "task_graph \<Rightarrow> stage_arguments \<Rightarrow> ('mp, 'vp) stage_state
       \<Rightarrow> (workflow_error + task_attempt) \<times> ('mp, 'vp) stage_state" where
  "start_stage g sg st =
    (case st of (x, states) \<Rightarrow>
    (case ensure_event_capacity x of
       Inl e \<Rightarrow> (Inl e, x, states)
     | Inr _ \<Rightarrow>
    (case start_task g states (sg_task sg) of
       (Inl e, states) \<Rightarrow> (Inl (WorkflowTaskGraph e), x, states)
     | (Inr attempt, states) \<Rightarrow>
    (case enqueue_event (StageStarted (sg_workflow sg) (sg_stage sg) attempt) x of
       (r, x) \<Rightarrow> (bind_ok r (\<lambda>_. Inr attempt), x, states)))))"

definition finish_stage ::
    "task_graph \<Rightarrow> stage_arguments \<Rightarrow> task_attempt \<Rightarrow> artifact_content \<Rightarrow> ('mp, 'vp) stage_state
       \<Rightarrow> (workflow_error + unit) \<times> ('mp, 'vp) stage_state" where
  "finish_stage g sg attempt content st =
    (case st of (x, states) \<Rightarrow>
    (case commit_output (sg_workflow sg) (sg_stage sg) attempt (sg_output sg) content
            (sg_maximum_bytes sg) x of
       (Inl e, x) \<Rightarrow> (Inl e, x, states)
     | (Inr _, x) \<Rightarrow>
    (case succeed_attempt g states attempt of
       (r, states) \<Rightarrow> (map_err WorkflowTaskGraph r, x, states))))"

definition handle_operational_failure ::
    "task_graph \<Rightarrow> stage_arguments \<Rightarrow> task_attempt \<Rightarrow> rust_string \<Rightarrow> ('mp, 'vp) stage_state
       \<Rightarrow> (workflow_error + unit) \<times> ('mp, 'vp) stage_state" where
  "handle_operational_failure g sg attempt message st =
    (case st of (x, states) \<Rightarrow>
    (case fail_attempt g states attempt of
       (Inl e, states) \<Rightarrow> (Inl (WorkflowTaskGraph e), x, states)
     | (Inr _, states) \<Rightarrow>
    if at_number attempt < tb_maximum_attempts (sg_budget sg)
    then (case checked_add (at_number attempt) 1 of
            None \<Rightarrow> (Inl (IdentifierExhausted IdentifierTask), x, states)
          | Some next_number \<Rightarrow>
              if next_number = 0 then (Inl (IdentifierExhausted IdentifierTask), x, states)
              else (case enqueue_event (RetryScheduled (sg_workflow sg) (sg_stage sg) attempt
                           \<lparr>at_task = at_task attempt, at_number = next_number\<rparr>) x of
                      (r, x) \<Rightarrow> (r, x, states)))
    else (Inl (WorkflowTaskExhausted (sg_workflow sg) (sg_stage sg) (at_task attempt)
                 (at_number attempt) message), x, states)))"

text \<open>
  The loop of \<open>run_model_stage\<close> and \<open>run_validation_stage\<close>, which differ in the request to the
  port: start an attempt, call the port, commit its output or retry.
\<close>

definition attempts_of :: "task_graph \<Rightarrow> task_states \<Rightarrow> task_id \<Rightarrow> nat" where
  "attempts_of g states task = (case table_state g states task of None \<Rightarrow> 0 | Some st \<Rightarrow> unat (rs_attempts st))"

lemma attempts_of_started:
  assumes "start_task g states task = (Inr attempt, states')" and "unat (at_number attempt) < 2 ^ 16 - 1"
  shows "attempts_of g states' task = unat (at_number attempt)"
    and "attempts_of g states task < unat (at_number attempt)" and "at_task attempt = task"
proof -
  from assms(1) obtain i where i: "node_index g task = Some i" "i < length states"
    "at_number attempt = saturating_add (rs_attempts (states ! i)) 1" "at_task attempt = task"
    "states' = states[i := \<lparr>rs_status = TaskRunning, rs_attempts = at_number attempt\<rparr>]"
    by (auto simp: start_task_def Let_def split: option.splits sum.splits if_splits)
  then show "attempts_of g states' task = unat (at_number attempt)" "at_task attempt = task"
    by (simp_all add: attempts_of_def table_state_def)
  show "attempts_of g states task < unat (at_number attempt)"
    using i assms(2) by (simp add: attempts_of_def table_state_def unat_saturating_add)
qed

lemma attempts_of_failed:
  "fail_attempt g states attempt = (r, states') \<Longrightarrow> attempts_of g states' task = attempts_of g states task"
  by (auto simp: fail_attempt_def attempts_of_def table_state_def nth_list_update
      split: sum.splits option.splits)

lemma retry_decreases:
  assumes "start_stage g sg st = (Inr attempt, st1)"
    and "handle_operational_failure g sg attempt message (y, snd st1) = (Inr u, st2)"
  shows "unat (tb_maximum_attempts (sg_budget sg)) - attempts_of g (snd st2) (sg_task sg)
    < unat (tb_maximum_attempts (sg_budget sg)) - attempts_of g (snd st) (sg_task sg)"
proof -
  have started: "start_task g (snd st) (sg_task sg) = (Inr attempt, snd st1)"
    using assms(1) by (auto simp: start_stage_def bind_ok_Inr split: prod.splits sum.splits)
  have below: "at_number attempt < tb_maximum_attempts (sg_budget sg)"
    and "\<exists>r. fail_attempt g (snd st1) attempt = (r, snd st2)"
    using assms(2) by (auto simp: handle_operational_failure_def split: prod.splits sum.splits if_splits option.splits)
  then have same: "attempts_of g (snd st2) (sg_task sg) = attempts_of g (snd st1) (sg_task sg)"
    using attempts_of_failed by blast
  have "unat (at_number attempt) < unat (tb_maximum_attempts (sg_budget sg))"
    "unat (tb_maximum_attempts (sg_budget sg)) < 2 ^ 16"
    using below unsigned_less [of "tb_maximum_attempts (sg_budget sg)"] by (simp_all add: word_less_nat_alt)
  with attempts_of_started [OF started] same show ?thesis by linarith
qed

lemmas retry_terminates = retry_decreases [of _ _ "(_, _)" _ "(_, _)" _ _ _ "(_, _)",
    unfolded snd_conv, OF sym sym]

function stage_loop ::
    "task_graph \<Rightarrow> stage_arguments
       \<Rightarrow> (task_attempt \<Rightarrow> ('mp, 'vp) workflow_executor \<Rightarrow> (rust_string + 'a) \<times> ('mp, 'vp) workflow_executor)
       \<Rightarrow> ('a \<Rightarrow> artifact_content) \<Rightarrow> ('mp, 'vp) stage_state
       \<Rightarrow> (workflow_error + 'a) \<times> ('mp, 'vp) stage_state" where
  "stage_loop g sg call make_content st =
    (case start_stage g sg st of
       (Inl e, st) \<Rightarrow> (Inl e, st)
     | (Inr attempt, st) \<Rightarrow>
    (case call attempt (fst st) of
       (Inr value, x) \<Rightarrow>
         (case finish_stage g sg attempt (make_content value) (x, snd st) of
            (r, st) \<Rightarrow> (bind_ok r (\<lambda>_. Inr value), st))
     | (Inl message, x) \<Rightarrow>
         (case handle_operational_failure g sg attempt message (x, snd st) of
            (Inl e, st) \<Rightarrow> (Inl e, st)
          | (Inr _, st) \<Rightarrow> stage_loop g sg call make_content st)))"
  by pat_completeness auto

termination
  by (relation "measure (\<lambda>(g, sg, call, make_content, st).
      unat (tb_maximum_attempts (sg_budget sg)) - attempts_of g (snd st) (sg_task sg))")
    (auto dest: retry_terminates)

declare stage_loop.simps [simp del]

definition run_model_stage ::
    "('mp, 'vp) workflow_ports \<Rightarrow> task_graph \<Rightarrow> stage_arguments \<Rightarrow> task_kind \<Rightarrow> model_policy
       \<Rightarrow> artifact_id list \<Rightarrow> (rust_string \<Rightarrow> artifact_content) \<Rightarrow> ('mp, 'vp) stage_state
       \<Rightarrow> (workflow_error + unit) \<times> ('mp, 'vp) stage_state" where
  "run_model_stage P g sg kind policy input_artifacts make_content st =
    (case stage_loop g sg (\<lambda>attempt x.
       case port_model P
              \<lparr>mr_workflow = sg_workflow sg, mr_attempt = attempt, mr_kind = kind,
               mr_model_policy = policy, mr_budget = sg_budget sg, mr_input_artifacts = input_artifacts\<rparr>
              (inputs_get \<lparr>ai_store = we_artifacts x, ai_ids = input_artifacts\<rparr>) (we_model x) of
         (r, model) \<Rightarrow> (r, x\<lparr>we_model := model\<rparr>)) make_content st of
       (r, st) \<Rightarrow> (bind_ok r (\<lambda>_. Inr ()), st))"

definition run_validation_stage ::
    "('mp, 'vp) workflow_ports \<Rightarrow> task_graph \<Rightarrow> stage_arguments \<Rightarrow> task_kind
       \<Rightarrow> artifact_id list \<Rightarrow> (validation_report \<Rightarrow> artifact_content) \<Rightarrow> ('mp, 'vp) stage_state
       \<Rightarrow> (workflow_error + validation_verdict) \<times> ('mp, 'vp) stage_state" where
  "run_validation_stage P g sg kind input_artifacts make_content st =
    (case stage_loop g sg (\<lambda>attempt x.
       case port_validator P
              \<lparr>vq_workflow = sg_workflow sg, vq_attempt = attempt, vq_kind = kind,
               vq_budget = sg_budget sg, vq_input_artifacts = input_artifacts\<rparr>
              (inputs_get \<lparr>ai_store = we_artifacts x, ai_ids = input_artifacts\<rparr>) (we_validator x) of
         (r, validator) \<Rightarrow> (r, x\<lparr>we_validator := validator\<rparr>)) make_content st of
       (r, st) \<Rightarrow> (bind_ok r (\<lambda>report. Inr (vr_verdict report)), st))"

definition run_normalization_stage ::
    "task_graph \<Rightarrow> stage_arguments \<Rightarrow> artifact_id \<Rightarrow> ('mp, 'vp) stage_state
       \<Rightarrow> (workflow_error + unit) \<times> ('mp, 'vp) stage_state" where
  "run_normalization_stage g sg input st =
    bind_step (start_stage g sg st) (\<lambda>attempt st.
      case require_raw_validation input (fst st) of
        Inl e \<Rightarrow> (Inl e, st)
      | Inr report \<Rightarrow> finish_stage g sg attempt
          (ContentNormalizedDiagnostics (normalize_validation_report report)) st)"

subsection \<open>The canonical plan\<close>

record canonical_plan =
  pl_nodes :: "task_node list"
  pl_dependencies :: "task_dependency list"
  pl_workflow_inputs :: "artifact_reference list"
  pl_task_inputs :: "task_artifact_input list"
  pl_task_outputs :: "task_artifact_output list"

definition make_node ::
    "task_id \<Rightarrow> task_kind \<Rightarrow> model_policy \<Rightarrow> task_budget \<Rightarrow> artifact_kind \<Rightarrow> u64 \<Rightarrow> task_node" where
  "make_node i kind policy budget output_kind maximum_bytes =
    \<lparr>tn_id = i, tn_kind = kind, tn_model_policy = policy, tn_budget = budget,
     tn_output = \<lparr>oc_kind = output_kind, oc_maximum_bytes = maximum_bytes\<rparr>\<rparr>"

definition make_dependency :: "task_id \<Rightarrow> task_id \<Rightarrow> task_dependency" where
  "make_dependency prerequisite dependent = \<lparr>td_prerequisite = prerequisite, td_dependent = dependent\<rparr>"

definition make_input :: "task_id \<Rightarrow> artifact_reference \<Rightarrow> task_artifact_input" where
  "make_input consumer a = \<lparr>ti_consumer = consumer, ti_artifact = a\<rparr>"

definition make_output :: "task_id \<Rightarrow> artifact_reference \<Rightarrow> task_artifact_output" where
  "make_output producer a = \<lparr>to_producer = producer, to_artifact = a\<rparr>"

definition normalization_task_budget :: task_budget where
  "normalization_task_budget =
    \<lparr>tb_maximum_input_tokens = 0, tb_maximum_output_tokens = 0, tb_maximum_attempts = 1\<rparr>"

definition canonical_plan_new ::
    "artifact_reference \<Rightarrow> task_identities \<Rightarrow> artifact_references \<Rightarrow> corrective_workflow_configuration
       \<Rightarrow> canonical_plan" where
  "canonical_plan_new specification tasks artifacts c =
    \<lparr>pl_nodes =
       [make_node (tk_draft tasks) KindDraft (wc_model_policy c) (wc_model_budget c) ArtText
          (wa_draft (wc_artifact_limits c)),
        make_node (tk_initial_validation tasks) (wc_initial_validation c) PolicyDeterministic
          (wc_validation_budget c) ArtDiagnostics (wa_raw_validation (wc_artifact_limits c)),
        make_node (tk_normalize tasks) KindNormalizeDiagnostics PolicyDeterministic
          normalization_task_budget ArtDiagnostics (wa_normalized_diagnostics (wc_artifact_limits c)),
        make_node (tk_review tasks) KindReview (wc_model_policy c) (wc_model_budget c) ArtText
          (wa_review (wc_artifact_limits c)),
        make_node (tk_revise tasks) KindRevise (wc_model_policy c) (wc_model_budget c) ArtText
          (wa_revision (wc_artifact_limits c)),
        make_node (tk_final_validation tasks) KindValidate PolicyDeterministic
          (wc_validation_budget c) ArtDiagnostics (wa_final_validation (wc_artifact_limits c))],
     pl_dependencies =
       [make_dependency (tk_draft tasks) (tk_initial_validation tasks),
        make_dependency (tk_initial_validation tasks) (tk_normalize tasks),
        make_dependency (tk_draft tasks) (tk_review tasks),
        make_dependency (tk_normalize tasks) (tk_review tasks),
        make_dependency (tk_draft tasks) (tk_revise tasks),
        make_dependency (tk_normalize tasks) (tk_revise tasks),
        make_dependency (tk_review tasks) (tk_revise tasks),
        make_dependency (tk_revise tasks) (tk_final_validation tasks)],
     pl_workflow_inputs = [specification],
     pl_task_inputs =
       [make_input (tk_draft tasks) specification,
        make_input (tk_initial_validation tasks) (rf_draft artifacts),
        make_input (tk_normalize tasks) (rf_raw_validation artifacts),
        make_input (tk_review tasks) specification,
        make_input (tk_review tasks) (rf_draft artifacts),
        make_input (tk_review tasks) (rf_normalized_diagnostics artifacts),
        make_input (tk_revise tasks) specification,
        make_input (tk_revise tasks) (rf_draft artifacts),
        make_input (tk_revise tasks) (rf_normalized_diagnostics artifacts),
        make_input (tk_revise tasks) (rf_review artifacts),
        make_input (tk_final_validation tasks) (rf_revision artifacts)],
     pl_task_outputs =
       [make_output (tk_draft tasks) (rf_draft artifacts),
        make_output (tk_initial_validation tasks) (rf_raw_validation artifacts),
        make_output (tk_normalize tasks) (rf_normalized_diagnostics artifacts),
        make_output (tk_review tasks) (rf_review artifacts),
        make_output (tk_revise tasks) (rf_revision artifacts),
        make_output (tk_final_validation tasks) (rf_final_validation artifacts)]\<rparr>"

definition plan_graph :: "canonical_plan \<Rightarrow> task_graph" where
  "plan_graph plan = \<lparr>tg_nodes = pl_nodes plan, tg_dependencies = pl_dependencies plan\<rparr>"

definition plan_flow :: "canonical_plan \<Rightarrow> artifact_flow" where
  "plan_flow plan = \<lparr>af_workflow_inputs = pl_workflow_inputs plan, af_task_inputs = pl_task_inputs plan,
     af_task_outputs = pl_task_outputs plan\<rparr>"

subsection \<open>Execution\<close>

text \<open>The stages of \<open>execute\<close>, over the executor and the state table.\<close>

definition execute_stages ::
    "('mp, 'vp) workflow_ports \<Rightarrow> workflow_id \<Rightarrow> task_graph \<Rightarrow> artifact_reference \<Rightarrow> task_identities
       \<Rightarrow> artifact_references \<Rightarrow> corrective_workflow_configuration \<Rightarrow> ('mp, 'vp) stage_state
       \<Rightarrow> (workflow_error + validation_verdict) \<times> ('mp, 'vp) stage_state" where
  "execute_stages P workflow g specification tasks artifacts c st =
    (let sg = (\<lambda>stage task budget output_reference maximum_bytes.
           \<lparr>sg_workflow = workflow, sg_stage = stage, sg_task = task, sg_budget = budget,
            sg_output = output_reference, sg_maximum_bytes = maximum_bytes\<rparr>);
         limits = wc_artifact_limits c
     in
    bind_step (run_model_stage P g
      (sg StageDraft (tk_draft tasks) (wc_model_budget c) (rf_draft artifacts) (wa_draft limits))
      KindDraft (wc_model_policy c) [ar_id specification] ContentDraft st) (\<lambda>_ st.
    bind_step (run_validation_stage P g
      (sg StageInitialValidation (tk_initial_validation tasks) (wc_validation_budget c)
        (rf_raw_validation artifacts) (wa_raw_validation limits))
      (wc_initial_validation c) [ar_id (rf_draft artifacts)] ContentRawValidation st) (\<lambda>_ st.
    bind_step (run_normalization_stage g
      (sg StageNormalizeDiagnostics (tk_normalize tasks) normalization_task_budget
        (rf_normalized_diagnostics artifacts) (wa_normalized_diagnostics limits))
      (ar_id (rf_raw_validation artifacts)) st) (\<lambda>_ st.
    bind_step (run_model_stage P g
      (sg StageReview (tk_review tasks) (wc_model_budget c) (rf_review artifacts) (wa_review limits))
      KindReview (wc_model_policy c)
      [ar_id specification, ar_id (rf_draft artifacts), ar_id (rf_normalized_diagnostics artifacts)]
      ContentReview st) (\<lambda>_ st.
    bind_step (run_model_stage P g
      (sg StageRevise (tk_revise tasks) (wc_model_budget c) (rf_revision artifacts) (wa_revision limits))
      KindRevise (wc_model_policy c)
      [ar_id specification, ar_id (rf_draft artifacts), ar_id (rf_normalized_diagnostics artifacts),
       ar_id (rf_review artifacts)] ContentRevision st) (\<lambda>_ st.
    run_validation_stage P g
      (sg StageFinalValidation (tk_final_validation tasks) (wc_validation_budget c)
        (rf_final_validation artifacts) (wa_final_validation limits))
      KindValidate [ar_id (rf_revision artifacts)] ContentFinalValidation st))))))"

definition validate_plan :: "canonical_plan \<Rightarrow> workflow_error + task_states" where
  "validate_plan plan = map_err WorkflowTaskGraph
    (bind_ok (validate_graph (plan_graph plan)
       \<lparr>gs_incoming_counts = replicate 6 0, gs_queue = replicate 6 0\<rparr>) (\<lambda>_.
     bind_ok (validate_artifact_flow (plan_graph plan) (plan_flow plan)) (\<lambda>_.
     state_table_new (plan_graph plan) (replicate 6 task_runtime_state_default))))"

definition workflow_outcome_of ::
    "workflow_id \<Rightarrow> artifact_references \<Rightarrow> validation_verdict \<Rightarrow> workflow_outcome" where
  "workflow_outcome_of workflow artifacts verdict =
    (case verdict of
       VerdictPassed \<Rightarrow>
         OutcomeAccepted workflow (ar_id (rf_revision artifacts)) (ar_id (rf_final_validation artifacts))
     | VerdictRejected \<Rightarrow>
         OutcomeRejected workflow (ar_id (rf_revision artifacts)) (ar_id (rf_final_validation artifacts)))"

definition workflow_execute ::
    "('mp, 'vp) workflow_ports \<Rightarrow> artifact_id \<Rightarrow> corrective_workflow_configuration
       \<Rightarrow> ('mp, 'vp) workflow_executor
       \<Rightarrow> (workflow_error + workflow_outcome) \<times> ('mp, 'vp) workflow_executor" where
  "workflow_execute P specification_id c x =
    (case bind_ok (configuration_validate c) (\<lambda>_.
          bind_ok (require_specification specification_id x) (\<lambda>specification.
          bind_ok (admit_execution c x) (\<lambda>_. Inr specification))) of
       Inl e \<Rightarrow> (Inl e, x)
     | Inr specification \<Rightarrow>
    bind_step (allocate_workflow_id x) (\<lambda>workflow x.
    bind_step (reserve_task_ids x) (\<lambda>tasks x.
    bind_step (reserve_output_references x) (\<lambda>artifacts x.
    let plan = canonical_plan_new specification tasks artifacts c in
    (case validate_plan plan of
       Inl e \<Rightarrow> (Inl e, x)
     | Inr states \<Rightarrow>
    (case execute_stages P workflow (plan_graph plan) specification tasks artifacts c (x, states) of
       (Inl e, x, _) \<Rightarrow> (Inl e, x)
     | (Inr verdict, x, _) \<Rightarrow>
         let outcome = workflow_outcome_of workflow artifacts verdict in
         bind_step (enqueue_event (WorkflowCompleted workflow (outcome_status outcome)
             (ar_id (rf_revision artifacts)) (ar_id (rf_final_validation artifacts))) x) (\<lambda>_ x.
         (Inr outcome, x))))))))"

end
