(* ===== verification/Workflow_Stages.thy ===== *)
theory Workflow_Stages
  imports Workflow_Executor Task_Execution
begin

section \<open>Corrective workflows: what a stage does\<close>

text \<open>
  One stage over a table whose prerequisites have succeeded, with room for its events and its
  artifact: it ends with its output committed after some failed attempts, or with an error that
  names the stage. No other error is possible.
\<close>

subsection \<open>Committing\<close>

definition store_put :: "artifact_reference \<Rightarrow> artifact_content \<Rightarrow> artifact_store \<Rightarrow> artifact_store" where
  "store_put reference content store = store\<lparr>as_artifacts :=
     bt_insert (ar_id reference) \<lparr>art_reference = reference, art_content = content\<rparr> (as_artifacts store)\<rparr>"

definition reference_fits :: "artifact_reference \<Rightarrow> artifact_content \<Rightarrow> bool" where
  "reference_fits reference content \<longleftrightarrow> (ar_kind reference, ar_role reference) = content_contract content"

definition events_room :: "('mp, 'vp) workflow_executor \<Rightarrow> nat \<Rightarrow> bool" where
  "events_room x n \<longleftrightarrow> length (we_events x) + n \<le> wl_pending_events (we_limits x)"

lemma ensure_event_capacity_Inr: "ensure_event_capacity x = Inr () \<longleftrightarrow> events_room x 1"
  by (auto simp: ensure_event_capacity_def remaining_event_capacity_def events_room_def Let_def)

lemma enqueue_event_room:
  "events_room x 1 \<Longrightarrow> enqueue_event event x = (Inr (), x\<lparr>we_events := we_events x @ [event]\<rparr>)"
  using ensure_event_capacity_Inr [of x] by (simp add: enqueue_event_def)

lemma events_room_mono: "events_room x n \<Longrightarrow> m \<le> n \<Longrightarrow> events_room x m"
  by (simp add: events_room_def)

lemma events_room_update [simp]:
  "events_room (x\<lparr>we_events := we_events x @ evs\<rparr>) n \<longleftrightarrow> events_room x (length evs + n)"
  "events_room (x\<lparr>we_artifacts := store\<rparr>) n \<longleftrightarrow> events_room x n"
  by (auto simp: events_room_def)

lemma commit_output_room:
  assumes "reference_fits reference content" and "store_get (we_artifacts x) (ar_id reference) = None"
    and "0 < store_remaining_capacity (we_artifacts x)" and "events_room x 1"
  shows "commit_output workflow stage attempt reference content maximum_bytes x =
    (case artifact_content_size content of
       None \<Rightarrow> (Inl (ArtifactSizeOverflow workflow stage (at_task attempt) (ar_id reference)), x)
     | Some required \<Rightarrow>
         if maximum_bytes < required
         then (Inl (OutputCapacityExceeded workflow stage (at_task attempt) (ar_id reference) required
                maximum_bytes), x)
         else (Inr (), x\<lparr>we_artifacts := store_put reference content (we_artifacts x),
                we_events := we_events x @ [ArtifactCommitted workflow stage attempt reference]\<rparr>))"
proof -
  have "validate_content reference content = Inr ()" using assms(1) by (simp add: validate_content_def reference_fits_def)
  then have "store_insert \<lparr>art_reference = reference, art_content = content\<rparr> (we_artifacts x)
      = (Inr (), store_put reference content (we_artifacts x))"
    using assms(2,3) by (simp add: store_insert_def store_put_def store_get_def Let_def)
  moreover have "artifact_new reference content = Inr \<lparr>art_reference = reference, art_content = content\<rparr>"
    using \<open>validate_content reference content = Inr ()\<close> by (simp add: artifact_new_def)
  ultimately show ?thesis
    using assms(4) ensure_event_capacity_Inr [of x] by (simp add: commit_output_def enqueue_event_room split: option.splits)
qed

subsection \<open>The events of a stage\<close>

definition attempt_of :: "stage_arguments \<Rightarrow> nat \<Rightarrow> task_attempt" where
  "attempt_of sg n = \<lparr>at_task = sg_task sg, at_number = of_nat n\<rparr>"

definition retry_events :: "stage_arguments \<Rightarrow> nat \<Rightarrow> nat \<Rightarrow> workflow_event list" where
  "retry_events sg k n = concat (map (\<lambda>j.
     [StageStarted (sg_workflow sg) (sg_stage sg) (attempt_of sg j),
      RetryScheduled (sg_workflow sg) (sg_stage sg) (attempt_of sg j) (attempt_of sg (Suc j))]) [k..<n])"

definition stage_events :: "stage_arguments \<Rightarrow> nat \<Rightarrow> nat \<Rightarrow> workflow_event list" where
  "stage_events sg k n = retry_events sg k n
     @ [StageStarted (sg_workflow sg) (sg_stage sg) (attempt_of sg n),
        ArtifactCommitted (sg_workflow sg) (sg_stage sg) (attempt_of sg n) (sg_output sg)]"

lemma retry_events_step:
  "k < n \<Longrightarrow> retry_events sg k n =
     StageStarted (sg_workflow sg) (sg_stage sg) (attempt_of sg k)
     # RetryScheduled (sg_workflow sg) (sg_stage sg) (attempt_of sg k) (attempt_of sg (Suc k))
     # retry_events sg (Suc k) n"
  by (simp add: retry_events_def upt_conv_Cons)

lemma retry_events_empty [simp]: "retry_events sg n n = []"
  by (simp add: retry_events_def)

lemma length_retry_events: "length (retry_events sg k n) = 2 * (n - k)"
  by (simp add: retry_events_def length_concat comp_def sum_list_triv)

lemma length_stage_events: "k \<le> n \<Longrightarrow> length (stage_events sg k n) = 2 * (Suc n - k)"
  by (simp add: stage_events_def length_retry_events)

text \<open>The errors of a stage, and the budget and the limit they report.\<close>

definition stage_failure :: "stage_arguments \<Rightarrow> workflow_error \<Rightarrow> bool" where
  "stage_failure sg e \<longleftrightarrow>
     e = ArtifactSizeOverflow (sg_workflow sg) (sg_stage sg) (sg_task sg) (ar_id (sg_output sg))
   \<or> (\<exists>required > sg_maximum_bytes sg. e = OutputCapacityExceeded (sg_workflow sg) (sg_stage sg)
        (sg_task sg) (ar_id (sg_output sg)) required (sg_maximum_bytes sg))
   \<or> (\<exists>message. e = WorkflowTaskExhausted (sg_workflow sg) (sg_stage sg) (sg_task sg)
        (tb_maximum_attempts (sg_budget sg)) message)"

definition content_fits :: "stage_arguments \<Rightarrow> artifact_content \<Rightarrow> bool" where
  "content_fits sg content \<longleftrightarrow> reference_fits (sg_output sg) content
     \<and> (\<exists>required. artifact_content_size content = Some required \<and> required \<le> sg_maximum_bytes sg)"

text \<open>What a stage leaves alone: all but the state of the ports.\<close>

definition books ::
    "('mp, 'vp) workflow_executor
       \<Rightarrow> artifact_store \<times> workflow_event list \<times> workflow_executor_limits \<times> u64 \<times> u64 \<times> u64" where
  "books x = (we_artifacts x, we_events x, we_limits x, we_next_workflow_id x, we_next_task_id x,
     we_next_artifact_id x)"

lemma books_eq:
  "books x = books y \<longleftrightarrow> we_artifacts x = we_artifacts y \<and> we_events x = we_events y
     \<and> we_limits x = we_limits y \<and> we_next_workflow_id x = we_next_workflow_id y
     \<and> we_next_task_id x = we_next_task_id y \<and> we_next_artifact_id x = we_next_artifact_id y"
  by (simp add: books_def)

lemma books_room: "books x = books y \<Longrightarrow> events_room x n = events_room y n"
  by (simp add: books_eq events_room_def)

lemma books_events: "books x = books y \<Longrightarrow> books (x\<lparr>we_events := evs\<rparr>) = books (y\<lparr>we_events := evs\<rparr>)"
  by (simp add: books_eq)

subsection \<open>Attempts\<close>

text \<open>The task of a stage that has failed \<open>k\<close> times and may start again.\<close>

definition stage_waits :: "task_graph \<Rightarrow> stage_arguments \<Rightarrow> nat \<Rightarrow> task_states \<Rightarrow> nat \<Rightarrow> bool" where
  "stage_waits g sg i states k \<longleftrightarrow> table_fits g states \<and> i < length (tg_nodes g)
     \<and> id_at g i = sg_task sg \<and> max_attempts_at g i = tb_maximum_attempts (sg_budget sg)
     \<and> ready_at g states i \<and> status_at states i \<in> {TaskPending, TaskFailed}
     \<and> attempts_at states i = of_nat k \<and> k < unat (tb_maximum_attempts (sg_budget sg))"

definition stage_runs :: "task_graph \<Rightarrow> stage_arguments \<Rightarrow> nat \<Rightarrow> task_states \<Rightarrow> nat \<Rightarrow> bool" where
  "stage_runs g sg i states k \<longleftrightarrow> table_fits g states \<and> i < length (tg_nodes g)
     \<and> id_at g i = sg_task sg \<and> max_attempts_at g i = tb_maximum_attempts (sg_budget sg)
     \<and> ready_at g states i \<and> states ! i = \<lparr>rs_status = TaskRunning, rs_attempts = of_nat k\<rparr>
     \<and> 0 < k \<and> k \<le> unat (tb_maximum_attempts (sg_budget sg))"

lemma of_nat_below:
  fixes m :: u16
  assumes "k \<le> unat m"
  shows "unat (of_nat k :: u16) = k" and "of_nat k < m \<longleftrightarrow> k < unat m"
proof -
  have "k < 2 ^ LENGTH(16)" using assms unsigned_less [of m] by (rule le_less_trans)
  then show unat_k: "unat (of_nat k :: u16) = k" by (simp add: unat_of_nat take_bit_nat_eq_self)
  then show "of_nat k < m \<longleftrightarrow> k < unat m" by (simp add: word_less_nat_alt)
qed

lemma unat_Suc_nonzero: "unat x = Suc k \<Longrightarrow> x \<noteq> 0" for x :: "'a::len word"
  by auto

text \<open>An attempt does not change what the prerequisites of the task are waiting for.\<close>

lemma ready_at_own:
  assumes "graph_wf g" and "ready_at g states i" and "status_at states i \<noteq> TaskSucceeded"
  shows "ready_at g (states[i := st]) i"
  using assms(2,3) unfolding ready_at_iff by (metis nth_list_update_neq)

lemma start_stage_runs:
  assumes waits: "stage_waits g sg i states k" and room: "events_room x 1"
  shows "start_stage g sg (x, states) =
      (Inr (attempt_of sg (Suc k)),
       x\<lparr>we_events := we_events x @ [StageStarted (sg_workflow sg) (sg_stage sg) (attempt_of sg (Suc k))]\<rparr>,
       states[i := \<lparr>rs_status = TaskRunning, rs_attempts = of_nat (Suc k)\<rparr>])"
    and "stage_runs g sg i (states[i := \<lparr>rs_status = TaskRunning, rs_attempts = of_nat (Suc k)\<rparr>]) (Suc k)"
proof -
  have k: "k < unat (tb_maximum_attempts (sg_budget sg))" using waits by (simp add: stage_waits_def)
  have "start_task g states (sg_task sg) = (Inr (attempt_of sg (Suc k)),
      states[i := \<lparr>rs_status = TaskRunning, rs_attempts = of_nat (Suc k)\<rparr>])"
    using waits start_task_wf [of g states i] of_nat_below(2) [of k "max_attempts_at g i"]
    by (auto simp: stage_waits_def attempt_of_def add.commute)
  then show "start_stage g sg (x, states) =
      (Inr (attempt_of sg (Suc k)),
       x\<lparr>we_events := we_events x @ [StageStarted (sg_workflow sg) (sg_stage sg) (attempt_of sg (Suc k))]\<rparr>,
       states[i := \<lparr>rs_status = TaskRunning, rs_attempts = of_nat (Suc k)\<rparr>])"
    using room ensure_event_capacity_Inr [of x] by (simp add: start_stage_def enqueue_event_room)
  have "i < length states" using waits by (simp add: stage_waits_def table_fits_def)
  then show "stage_runs g sg i (states[i := \<lparr>rs_status = TaskRunning, rs_attempts = of_nat (Suc k)\<rparr>]) (Suc k)"
    using waits k ready_at_own [of g states i] by (auto simp: stage_waits_def stage_runs_def table_fits_def)
qed

lemma running_attempt:
  assumes runs: "stage_runs g sg i states k"
  shows "validate_attempt g states (attempt_of sg k) = Inr i" and "i < length states"
proof -
  have "node_index g (sg_task sg) = Some i"
    using runs node_index_id_at [of g i] by (auto simp: stage_runs_def table_fits_def)
  moreover have "(of_nat k :: u16) \<noteq> 0"
    using runs of_nat_below(1) [of k "tb_maximum_attempts (sg_budget sg)"]
    by (metis stage_runs_def unat_eq_0 less_irrefl)
  ultimately show "validate_attempt g states (attempt_of sg k) = Inr i"
    using runs validate_attempt_wf [of g states "attempt_of sg k" i] by (simp add: stage_runs_def attempt_of_def)
  show "i < length states" using runs by (simp add: stage_runs_def table_fits_def)
qed

lemma succeed_runs:
  assumes "stage_runs g sg i states k"
  shows "succeed_attempt g states (attempt_of sg k)
    = (Inr (), states[i := \<lparr>rs_status = TaskSucceeded, rs_attempts = of_nat k\<rparr>])"
  using running_attempt [OF assms] assms by (simp add: succeed_attempt_def stage_runs_def)

lemma fail_runs:
  assumes "stage_runs g sg i states k"
  shows "fail_attempt g states (attempt_of sg k) = (Inr (), states[i := \<lparr>rs_status =
      (if k = unat (tb_maximum_attempts (sg_budget sg)) then TaskExhausted else TaskFailed),
      rs_attempts = of_nat k\<rparr>])"
  using running_attempt [OF assms] assms of_nat_below(2) [of k "tb_maximum_attempts (sg_budget sg)"]
  by (auto simp: fail_attempt_def stage_runs_def not_less [symmetric] table_fits_def)

lemma failure_runs:
  assumes runs: "stage_runs g sg i states k" and room: "events_room x 1"
  shows "handle_operational_failure g sg (attempt_of sg k) message (x, states) =
      (if k < unat (tb_maximum_attempts (sg_budget sg))
       then (Inr (), x\<lparr>we_events := we_events x @ [RetryScheduled (sg_workflow sg) (sg_stage sg)
               (attempt_of sg k) (attempt_of sg (Suc k))]\<rparr>,
             states[i := \<lparr>rs_status = TaskFailed, rs_attempts = of_nat k\<rparr>])
       else (Inl (WorkflowTaskExhausted (sg_workflow sg) (sg_stage sg) (sg_task sg)
               (tb_maximum_attempts (sg_budget sg)) message), x,
             states[i := \<lparr>rs_status = TaskExhausted, rs_attempts = of_nat k\<rparr>]))"
proof -
  let ?m = "tb_maximum_attempts (sg_budget sg)"
  have k: "k \<le> unat ?m" using runs by (simp add: stage_runs_def)
  note below = of_nat_below [OF k]
  show ?thesis
  proof (cases "k < unat ?m")
    case True
    then have "Suc k < 2 ^ LENGTH(16)" using unsigned_less [of ?m] by (meson Suc_leI le_less_trans)
    then have "unat (of_nat k :: u16) + unat (1 :: u16) < 2 ^ LENGTH(16)" by (simp only: below(1)) simp
    then have "checked_add (of_nat k :: u16) 1 = Some (of_nat (Suc k))"
      by (simp only: checked_add_def if_True of_nat_Suc add.commute)
    moreover have "(of_nat (Suc k) :: u16) \<noteq> 0"
      by (rule unat_Suc_nonzero [OF of_nat_below(1) [of "Suc k" ?m]]) (rule Suc_leI [OF True])
    moreover have "of_nat k < ?m" using True below(2) by blast
    ultimately have step: "at_number (attempt_of sg k) < ?m" "at_number (attempt_of sg (Suc k)) \<noteq> 0"
      "checked_add (at_number (attempt_of sg k)) 1 = Some (at_number (attempt_of sg (Suc k)))"
      "\<lparr>at_task = at_task (attempt_of sg k), at_number = at_number (attempt_of sg (Suc k))\<rparr> = attempt_of sg (Suc k)"
      by (simp_all only: attempt_of_def task_attempt.simps not_False_eq_True)
    show ?thesis using True
      by (simp add: handle_operational_failure_def fail_runs [OF runs] step enqueue_event_room [OF room])
  next
    case False
    then have "k = unat ?m" using k by simp
    then have "at_number (attempt_of sg k) = ?m" "at_task (attempt_of sg k) = sg_task sg"
      by (simp_all add: attempt_of_def)
    with False \<open>k = unat ?m\<close> [symmetric] show ?thesis
      by (simp add: handle_operational_failure_def fail_runs [OF runs])
  qed
qed

lemma failed_waits:
  assumes "stage_runs g sg i states k" and "k < unat (tb_maximum_attempts (sg_budget sg))"
  shows "stage_waits g sg i (states[i := \<lparr>rs_status = TaskFailed, rs_attempts = of_nat k\<rparr>]) k"
proof -
  have "i < length states" using assms(1) by (simp add: stage_runs_def table_fits_def)
  with assms show ?thesis
    using ready_at_own [of g states i] by (auto simp: stage_waits_def stage_runs_def table_fits_def)
qed

lemma finish_runs:
  assumes runs: "stage_runs g sg i states k" and room: "events_room x 1"
    and fits: "reference_fits (sg_output sg) content"
    and fresh: "store_get (we_artifacts x) (ar_id (sg_output sg)) = None"
    and free: "0 < store_remaining_capacity (we_artifacts x)"
  shows "(content_fits sg content \<and> finish_stage g sg (attempt_of sg k) content (x, states) =
      (Inr (), x\<lparr>we_artifacts := store_put (sg_output sg) content (we_artifacts x),
         we_events := we_events x @ [ArtifactCommitted (sg_workflow sg) (sg_stage sg) (attempt_of sg k) (sg_output sg)]\<rparr>,
       states[i := \<lparr>rs_status = TaskSucceeded, rs_attempts = of_nat k\<rparr>]))
    \<or> (\<exists>e. \<not> content_fits sg content \<and> stage_failure sg e
         \<and> finish_stage g sg (attempt_of sg k) content (x, states) = (Inl e, x, states))"
proof (cases "artifact_content_size content")
  case None
  then show ?thesis
    by (auto simp: finish_stage_def commit_output_room [OF fits fresh free room] stage_failure_def attempt_of_def content_fits_def)
next
  case (Some required)
  show ?thesis
  proof (cases "sg_maximum_bytes sg < required")
    case True
    with Some show ?thesis
      by (auto simp: finish_stage_def commit_output_room [OF fits fresh free room] stage_failure_def attempt_of_def
          content_fits_def)
  next
    case False
    then have "required \<le> sg_maximum_bytes sg" by simp
    with Some False show ?thesis
      using fits by (simp add: finish_stage_def commit_output_room [OF fits fresh free room] content_fits_def
          succeed_runs [OF runs])
  qed
qed

subsection \<open>The loop\<close>

text \<open>
  What a stage that had failed \<open>k\<close> times does: \<open>x\<close> and \<open>states\<close> before, \<open>r\<close>, \<open>y\<close> and \<open>states'\<close> after.
  It only fails when \<open>ok\<close> is false, which stands for ports that answer in time and within the limits.
\<close>

definition stage_law ::
    "bool \<Rightarrow> stage_arguments \<Rightarrow> nat \<Rightarrow> nat \<Rightarrow> ('mp, 'vp) workflow_executor \<Rightarrow> task_states
       \<Rightarrow> workflow_error + artifact_content \<Rightarrow> ('mp, 'vp) workflow_executor \<Rightarrow> task_states \<Rightarrow> bool" where
  "stage_law ok sg i k x states r y states' \<longleftrightarrow>
    (\<exists>n. k < n \<and> n \<le> unat (tb_maximum_attempts (sg_budget sg)) \<and>
      (case r of
         Inr content \<Rightarrow> content_fits sg content
           \<and> books y = books (x\<lparr>we_artifacts := store_put (sg_output sg) content (we_artifacts x),
               we_events := we_events x @ stage_events sg (Suc k) n\<rparr>)
           \<and> states' = states[i := \<lparr>rs_status = TaskSucceeded, rs_attempts = of_nat n\<rparr>]
       | Inl e \<Rightarrow> \<not> ok \<and> stage_failure sg e
           \<and> books y = books (x\<lparr>we_events := we_events x @ retry_events sg (Suc k) n
               @ [StageStarted (sg_workflow sg) (sg_stage sg) (attempt_of sg n)]\<rparr>)))"

definition keeps_books :: "(task_attempt \<Rightarrow> ('mp, 'vp) workflow_executor
    \<Rightarrow> (rust_string + 'a) \<times> ('mp, 'vp) workflow_executor) \<Rightarrow> bool" where
  "keeps_books call \<longleftrightarrow> (\<forall>attempt x r y. call attempt x = (r, y) \<longrightarrow> books y = books x)"

definition answers_in_time :: "stage_arguments \<Rightarrow> (task_attempt \<Rightarrow> ('mp, 'vp) workflow_executor
    \<Rightarrow> (rust_string + 'a) \<times> ('mp, 'vp) workflow_executor) \<Rightarrow> ('a \<Rightarrow> artifact_content) \<Rightarrow> bool" where
  "answers_in_time sg call make_content \<longleftrightarrow> (\<forall>attempt x. case fst (call attempt x) of
     Inl _ \<Rightarrow> at_number attempt \<noteq> tb_maximum_attempts (sg_budget sg)
   | Inr v \<Rightarrow> content_fits sg (make_content v))"

lemma answers_in_timeD:
  assumes "answers_in_time sg call make_content"
  shows "call attempt x = (Inr v, y) \<Longrightarrow> content_fits sg (make_content v)"
    and "call attempt x = (Inl message, y) \<Longrightarrow> at_number attempt \<noteq> tb_maximum_attempts (sg_budget sg)"
  using spec [OF spec [OF assms [unfolded answers_in_time_def], of attempt], of x] by simp_all

text \<open>The answer of a stage is an answer of its port.\<close>

lemma stage_loop_answer:
  "stage_loop g sg call make_content st = (Inr v, st') \<Longrightarrow> \<exists>attempt x y. call attempt x = (Inr v, y)"
proof (induction g sg call make_content st rule: stage_loop.induct)
  case (1 g sg call make_content st)
  obtain r st1 where start: "start_stage g sg st = (r, st1)" by (meson surj_pair)
  with "1.prems" obtain attempt where attempt: "r = Inr attempt" by (cases r) (auto simp: stage_loop.simps [of _ _ _ _ st])
  obtain answer x where call: "call attempt (fst st1) = (answer, x)" by (meson surj_pair)
  show ?case
  proof (cases answer)
    case (Inr v')
    with "1.prems" start attempt call show ?thesis
      by (auto simp: stage_loop.simps [of _ _ _ _ st] bind_ok_Inr split: prod.splits)
  next
    case (Inl message)
    obtain r2 st2 where failure: "handle_operational_failure g sg attempt message (x, snd st1) = (r2, st2)" by (meson surj_pair)
    with "1.prems" start attempt call Inl obtain u where "r2 = Inr u" "stage_loop g sg call make_content st2 = (Inr v, st')"
      by (cases r2) (auto simp: stage_loop.simps [of _ _ _ _ st])
    with "1.IH" [OF start [symmetric] attempt call [symmetric] Inl failure [symmetric]] show ?thesis by blast
  qed
qed

lemma stage_loop_law:
  assumes calls: "keeps_books call" and typed: "\<And>v. reference_fits (sg_output sg) (make_content v)"
    and answers: "ok \<Longrightarrow> answers_in_time sg call make_content"
  shows "stage_waits g sg i states k
    \<Longrightarrow> events_room x (2 * (unat (tb_maximum_attempts (sg_budget sg)) - k))
    \<Longrightarrow> store_get (we_artifacts x) (ar_id (sg_output sg)) = None
    \<Longrightarrow> 0 < store_remaining_capacity (we_artifacts x)
    \<Longrightarrow> stage_loop g sg call make_content (x, states) = (r, y, states')
    \<Longrightarrow> stage_law ok sg i k x states (bind_ok r (\<lambda>v. Inr (make_content v))) y states'"
proof (induction "unat (tb_maximum_attempts (sg_budget sg)) - k" arbitrary: k x states r y states')
  case 0
  then show ?case by (simp add: stage_waits_def)
next
  case (Suc rest)
  let ?m = "unat (tb_maximum_attempts (sg_budget sg))" and ?attempt = "attempt_of sg (Suc k)"
  let ?started = "StageStarted (sg_workflow sg) (sg_stage sg) ?attempt"
  let ?x1 = "x\<lparr>we_events := we_events x @ [?started]\<rparr>"
  let ?states1 = "states[i := \<lparr>rs_status = TaskRunning, rs_attempts = of_nat (Suc k)\<rparr>]"
  have k: "k < ?m" using Suc.prems(1) by (simp add: stage_waits_def)
  have "events_room x 1" using Suc.prems(2) k by (auto elim: events_room_mono)
  note start = start_stage_runs [OF Suc.prems(1) this]
  obtain answer x2 where call: "call ?attempt ?x1 = (answer, x2)" by fastforce
  then have same: "books x2 = books ?x1" using calls by (auto simp: keeps_books_def)
  then have room2: "events_room x2 (2 * (?m - k) - 1)" and store2: "we_artifacts x2 = we_artifacts x"
    and events2: "we_events x2 = we_events x @ [?started]"
    using Suc.prems(2) k books_room [OF same] by (auto simp: books_eq Suc_diff_le)
  have "events_room x2 1" using room2 k by (auto elim: events_room_mono)
  show ?case
  proof (cases answer)
    case (Inr v)
    with Suc.prems(5) call start obtain r' where finish:
      "finish_stage g sg ?attempt (make_content v) (x2, ?states1) = (r', y, states')" "r = bind_ok r' (\<lambda>_. Inr v)"
      by (auto simp: stage_loop.simps [of g sg call make_content "(x, states)"] split: prod.splits)
    consider (committed) "r' = Inr ()" "content_fits sg (make_content v)"
        "y = x2\<lparr>we_artifacts := store_put (sg_output sg) (make_content v) (we_artifacts x2), we_events := we_events x2
           @ [ArtifactCommitted (sg_workflow sg) (sg_stage sg) ?attempt (sg_output sg)]\<rparr>"
        "states' = ?states1[i := \<lparr>rs_status = TaskSucceeded, rs_attempts = of_nat (Suc k)\<rparr>]"
      | (failed) e where "r' = Inl e" "\<not> content_fits sg (make_content v)" "stage_failure sg e" "y = x2"
      using finish_runs [OF start(2) \<open>events_room x2 1\<close> typed [of v]] finish(1) Suc.prems(3,4) store2 by fastforce
    then show ?thesis
    proof cases
      case committed
      then show ?thesis
        using k same finish(2) events2 store2
        by (auto simp: stage_law_def stage_events_def books_eq intro!: exI [of _ "Suc k"])
    next
      case (failed e)
      moreover have "\<not> ok" using answers_in_timeD(1) [OF answers call [unfolded Inr]] failed(2) by argo
      ultimately show ?thesis
        using k same finish(2) by (auto simp: stage_law_def books_eq intro!: exI [of _ "Suc k"])
    qed
  next
    case (Inl message)
    note failure = failure_runs [OF start(2) \<open>events_room x2 1\<close>, of message]
    show ?thesis
    proof (cases "Suc k < ?m")
      case False
      with Suc.prems(5) call start Inl failure k have "r = Inl (WorkflowTaskExhausted (sg_workflow sg) (sg_stage sg)
          (sg_task sg) (tb_maximum_attempts (sg_budget sg)) message)" "y = x2"
        by (auto simp: stage_loop.simps [of g sg call make_content "(x, states)"])
      moreover have "at_number ?attempt = tb_maximum_attempts (sg_budget sg)"
      proof -
        have "Suc k = ?m" using False k by simp
        then show ?thesis by (simp only: attempt_of_def task_attempt.simps of_nat_unat ucast_id)
      qed
      then have "\<not> ok" using answers_in_timeD(2) [OF answers call [unfolded Inl]] by argo
      ultimately show ?thesis
        using k same by (auto simp: stage_law_def stage_failure_def books_eq intro!: exI [of _ "Suc k"])
    next
      case True
      let ?x3 = "x2\<lparr>we_events := we_events x2 @ [RetryScheduled (sg_workflow sg) (sg_stage sg) ?attempt
        (attempt_of sg (Suc (Suc k)))]\<rparr>"
      let ?states3 = "?states1[i := \<lparr>rs_status = TaskFailed, rs_attempts = of_nat (Suc k)\<rparr>]"
      have again: "stage_loop g sg call make_content (?x3, ?states3) = (r, y, states')"
        using Suc.prems(5) call start Inl failure True
        by (simp add: stage_loop.simps [of g sg call make_content "(x, states)"])
      have room3: "events_room ?x3 (2 * (?m - Suc k))"
        using room2 True by (auto elim: events_room_mono)
      have law: "stage_law ok sg i (Suc k) ?x3 ?states3 (bind_ok r (\<lambda>v. Inr (make_content v))) y states'"
        using Suc.hyps(2) Suc.prems(3,4) store2
        by (intro Suc.hyps(1) [OF _ failed_waits [OF start(2) True] room3 _ _ again]) simp_all
      from law [unfolded stage_law_def] obtain n where n: "Suc k < n" "n \<le> ?m"
        "case bind_ok r (\<lambda>v. Inr (make_content v)) of
           Inr content \<Rightarrow> content_fits sg content
             \<and> books y = books (?x3\<lparr>we_artifacts := store_put (sg_output sg) content (we_artifacts ?x3),
                 we_events := we_events ?x3 @ stage_events sg (Suc (Suc k)) n\<rparr>)
             \<and> states' = ?states3[i := \<lparr>rs_status = TaskSucceeded, rs_attempts = of_nat n\<rparr>]
         | Inl e \<Rightarrow> \<not> ok \<and> stage_failure sg e
             \<and> books y = books (?x3\<lparr>we_events := we_events ?x3 @ retry_events sg (Suc (Suc k)) n
                 @ [StageStarted (sg_workflow sg) (sg_stage sg) (attempt_of sg n)]\<rparr>)"
        by (elim exE conjE)
      show ?thesis
        unfolding stage_law_def
        using n same events2 store2 retry_events_step [of "Suc k" n sg]
        by (intro exI [of _ n]) (auto simp: stage_events_def books_eq split: sum.splits)
    qed
  qed
qed

end
