(* ===== verification/Workflow_Runs.thy ===== *)
theory Workflow_Runs
  imports Workflow_Stages
begin

section \<open>Corrective workflows: whole executions\<close>

text \<open>
  The canonical plan passes its own validation, and the six stages run over it in order. An
  execution that was admitted ends with all six outputs committed, or at one of its stages with
  an error of that stage.
\<close>

subsection \<open>The stages of a workflow\<close>

definition workflow_stages ::
    "workflow_id \<Rightarrow> task_identities \<Rightarrow> artifact_references \<Rightarrow> corrective_workflow_configuration
       \<Rightarrow> stage_arguments list" where
  "workflow_stages workflow tasks artifacts c =
    (let sg = (\<lambda>stage task budget output_reference maximum_bytes.
           \<lparr>sg_workflow = workflow, sg_stage = stage, sg_task = task, sg_budget = budget,
            sg_output = output_reference, sg_maximum_bytes = maximum_bytes\<rparr>);
         limits = wc_artifact_limits c
     in [sg StageDraft (tk_draft tasks) (wc_model_budget c) (rf_draft artifacts) (wa_draft limits),
       sg StageInitialValidation (tk_initial_validation tasks) (wc_validation_budget c)
         (rf_raw_validation artifacts) (wa_raw_validation limits),
       sg StageNormalizeDiagnostics (tk_normalize tasks) normalization_task_budget
         (rf_normalized_diagnostics artifacts) (wa_normalized_diagnostics limits),
       sg StageReview (tk_review tasks) (wc_model_budget c) (rf_review artifacts) (wa_review limits),
       sg StageRevise (tk_revise tasks) (wc_model_budget c) (rf_revision artifacts) (wa_revision limits),
       sg StageFinalValidation (tk_final_validation tasks) (wc_validation_budget c)
         (rf_final_validation artifacts) (wa_final_validation limits)])"

lemma length_workflow_stages [simp]: "length (workflow_stages workflow tasks artifacts c) = 6"
  by (simp add: workflow_stages_def Let_def)

text \<open>The identities of an execution: six consecutive tasks and six consecutive artifacts.\<close>

definition tasks_from :: "u64 \<Rightarrow> task_identities" where
  "tasks_from t = \<lparr>tk_draft = TaskId t, tk_initial_validation = TaskId (t + 1), tk_normalize = TaskId (t + 2),
     tk_review = TaskId (t + 3), tk_revise = TaskId (t + 4), tk_final_validation = TaskId (t + 5)\<rparr>"

definition references_from :: "u64 \<Rightarrow> artifact_references" where
  "references_from a =
    \<lparr>rf_draft = make_reference ArtText RoleDraft (ArtifactId a),
     rf_raw_validation = make_reference ArtDiagnostics RoleRawDiagnostics (ArtifactId (a + 1)),
     rf_normalized_diagnostics = make_reference ArtDiagnostics RoleNormalizedDiagnostics (ArtifactId (a + 2)),
     rf_review = make_reference ArtText RoleReview (ArtifactId (a + 3)),
     rf_revision = make_reference ArtText RoleRevision (ArtifactId (a + 4)),
     rf_final_validation = make_reference ArtDiagnostics RoleFinalValidation (ArtifactId (a + 5))\<rparr>"

lemma allocate_id_law:
  "allocate_id n kind = (if unat n + 1 < 2 ^ 64 then (Inr n, n + 1) else (Inl (IdentifierExhausted kind), n))"
  by (simp add: allocate_id_def checked_add_def)

lemma unat_next: "unat n < 2 ^ 64 - 1 \<Longrightarrow> unat (1 + n) = Suc (unat n)" for n :: u64
  by (simp add: unat_word_ariths)

lemma consecutive_ids:
  fixes t :: u64
  shows "unat t < 2 ^ 64 - 1 \<Longrightarrow> unat (1 + t) = unat t + 1"
    and "unat (1 + t) < 2 ^ 64 - 1 \<Longrightarrow> unat (2 + t) = unat (1 + t) + 1"
    and "unat (2 + t) < 2 ^ 64 - 1 \<Longrightarrow> unat (3 + t) = unat (2 + t) + 1"
    and "unat (3 + t) < 2 ^ 64 - 1 \<Longrightarrow> unat (4 + t) = unat (3 + t) + 1"
    and "unat (4 + t) < 2 ^ 64 - 1 \<Longrightarrow> unat (5 + t) = unat (4 + t) + 1"
    and "unat (5 + t) < 2 ^ 64 - 1 \<Longrightarrow> unat (6 + t) = unat (5 + t) + 1"
  using unat_next [of t] unat_next [of "1 + t"] unat_next [of "2 + t"] unat_next [of "3 + t"]
    unat_next [of "4 + t"] unat_next [of "5 + t"] by simp_all

lemma consecutive_room:
  fixes t :: u64
  assumes "unat t + 6 < 2 ^ 64"
  shows "unat (1 + t) = unat t + 1" "unat (2 + t) = unat t + 2" "unat (3 + t) = unat t + 3"
    "unat (4 + t) = unat t + 4" "unat (5 + t) = unat t + 5" "unat (6 + t) = unat t + 6"
  using assms consecutive_ids [of t] by simp_all

lemma exhausted_cases:
  fixes t :: u64
  assumes "\<not> unat t + 6 < 2 ^ 64"
  shows "t \<in> {- 1, - 2, - 3, - 4, - 5, - 6}"
proof -
  have "unat t < 2 ^ 64" using unsigned_less [of t] by simp
  with assms have "unat t \<in> {2 ^ 64 - 1, 2 ^ 64 - 2, 2 ^ 64 - 3, 2 ^ 64 - 4, 2 ^ 64 - 5, 2 ^ 64 - 6}" by simp arith
  then have "of_nat (unat t) \<in> {- 1, - 2, - 3, - 4, - 5, - 6 :: u64}" by (elim insertE emptyE) simp_all
  then show ?thesis by simp
qed

lemma unat_last: "unat (- 1 :: u64) = 2 ^ 64 - 1"
  by (simp add: unsigned_minus_1_eq_mask mask_eq_exp_minus_1)

lemma reserve_task_ids_law:
  "if unat (we_next_task_id x) + 6 < 2 ^ 64
   then reserve_task_ids x
     = (Inr (tasks_from (we_next_task_id x)), x\<lparr>we_next_task_id := we_next_task_id x + 6\<rparr>)
   else reserve_task_ids x = (Inl (IdentifierExhausted IdentifierTask), x\<lparr>we_next_task_id := - 1\<rparr>)"
proof (cases "unat (we_next_task_id x) + 6 < 2 ^ 64")
  case True
  with consecutive_room [OF True] show ?thesis
    by (simp add: reserve_task_ids_def allocate_task_id_def allocate_id_law tasks_from_def add.commute)
next
  case False
  with exhausted_cases [OF False] show ?thesis
    by (elim insertE emptyE) (auto simp: reserve_task_ids_def allocate_task_id_def allocate_id_law unat_last)
qed

lemma reserve_output_references_law:
  "if unat (we_next_artifact_id x) + 6 < 2 ^ 64
   then reserve_output_references x
     = (Inr (references_from (we_next_artifact_id x)), x\<lparr>we_next_artifact_id := we_next_artifact_id x + 6\<rparr>)
   else reserve_output_references x
     = (Inl (IdentifierExhausted IdentifierArtifact), x\<lparr>we_next_artifact_id := - 1\<rparr>)"
proof (cases "unat (we_next_artifact_id x) + 6 < 2 ^ 64")
  case True
  with consecutive_room [OF True] show ?thesis
    by (simp add: reserve_output_references_def allocate_artifact_id_def allocate_id_law references_from_def add.commute)
next
  case False
  with exhausted_cases [OF False] show ?thesis
    by (elim insertE emptyE) (auto simp: reserve_output_references_def allocate_artifact_id_def allocate_id_law unat_last)
qed

subsection \<open>The canonical plan\<close>

abbreviation workflow_plan :: "artifact_reference \<Rightarrow> u64 \<Rightarrow> u64 \<Rightarrow> corrective_workflow_configuration \<Rightarrow> canonical_plan" where
  "workflow_plan specification t a c \<equiv> canonical_plan_new specification (tasks_from t) (references_from a) c"

abbreviation workflow_graph :: "artifact_reference \<Rightarrow> u64 \<Rightarrow> u64 \<Rightarrow> corrective_workflow_configuration \<Rightarrow> task_graph" where
  "workflow_graph specification t a c \<equiv> plan_graph (workflow_plan specification t a c)"

lemmas plan_defs = plan_graph_def plan_flow_def canonical_plan_new_def tasks_from_def make_node_def
  make_dependency_def make_input_def make_output_def

lemma workflow_graph_wf: "graph_wf (workflow_graph specification t a c)"
  by (simp add: graph_wf_def plan_defs dependency_edges_def graph_ids_def)

text \<open>Every dependency goes to a later stage.\<close>

lemma workflow_pairs: "prerequisite_pairs (workflow_graph specification t a c)
    = {(0, 1), (1, 2), (0, 3), (2, 3), (0, 4), (2, 4), (3, 4), (4, 5)}"
  by (simp add: prerequisite_pairs_def plan_defs index_of_def node_index_def) (simp add: eval_nat_numeral)

lemma workflow_graph_acyclic: "acyclic (dependency_edges (workflow_graph specification t a c))"
proof (rule acyclicI_order)
  fix i j
  let ?rank = "\<lambda>i. if i = TaskId t then 5 else if i = TaskId (t + 1) then 4 else if i = TaskId (t + 2) then 3
    else if i = TaskId (t + 3) then 2 else if i = TaskId (t + 4) then 1 else 0 :: nat"
  assume "(i, j) \<in> dependency_edges (workflow_graph specification t a c)"
  then show "?rank j < ?rank i" by (auto simp: dependency_edges_def plan_defs)
qed

lemma workflow_plan_valid:
  assumes "ar_id specification \<notin> {ArtifactId a, ArtifactId (a + 1), ArtifactId (a + 2), ArtifactId (a + 3),
      ArtifactId (a + 4), ArtifactId (a + 5)}"
  shows "validate_plan (workflow_plan specification t a c) = Inr (replicate 6 task_runtime_state_default)"
proof -
  let ?g = "workflow_graph specification t a c" and ?flow = "plan_flow (workflow_plan specification t a c)"
  let ?scratch = "\<lparr>gs_incoming_counts = replicate 6 0, gs_queue = replicate 6 0\<rparr>"
  have "scratch_fits ?g ?scratch" "length (tg_dependencies ?g) < 2 ^ 32"
    by (simp_all add: scratch_fits_def plan_defs)
  from validate_graph_wf [OF workflow_graph_wf this] have "validate_graph ?g ?scratch = Inr ()"
    by (simp add: workflow_graph_acyclic)
  moreover have "flow_sources_ok ?g ?flow"
    using assms by (auto simp: flow_sources_ok_def plan_defs graph_ids_def source_ids_def references_from_def make_reference_def)
  moreover have "flow_inputs_ok ?g ?flow"
    using assms by (auto simp: flow_inputs_ok_def plan_defs produced_by_def dependency_edges_def references_from_def make_reference_def)
  moreover have "state_table_new ?g (replicate 6 task_runtime_state_default) = Inr (replicate 6 task_runtime_state_default)"
    by (simp add: state_table_new_def plan_defs)
  ultimately show ?thesis by (simp add: validate_plan_def validate_artifact_flow_iff [THEN iffD2])
qed

subsection \<open>Outputs\<close>

text \<open>
  The outputs of the first stages, each with the number of the attempt that produced it: what
  they add to the store and to the events.
\<close>

definition outputs_store ::
    "stage_arguments list \<Rightarrow> (artifact_content \<times> nat) list \<Rightarrow> artifact_store \<Rightarrow> artifact_store" where
  "outputs_store sgs outs store =
    foldl (\<lambda>store (sg, content, n). store_put (sg_output sg) content store) store (zip sgs outs)"

definition outputs_events ::
    "stage_arguments list \<Rightarrow> (artifact_content \<times> nat) list \<Rightarrow> workflow_event list" where
  "outputs_events sgs outs = concat (map (\<lambda>(sg, content, n). stage_events sg 1 n) (zip sgs outs))"

definition outputs_ok :: "stage_arguments list \<Rightarrow> (artifact_content \<times> nat) list \<Rightarrow> bool" where
  "outputs_ok sgs outs \<longleftrightarrow> length outs \<le> length sgs
     \<and> (\<forall>(sg, content, n) \<in> set (zip sgs outs). content_fits sg content \<and> 0 < n
          \<and> n \<le> unat (tb_maximum_attempts (sg_budget sg)))"

lemma zip_snoc: "length ys < length xs \<Longrightarrow> zip xs (ys @ [y]) = zip xs ys @ [(xs ! length ys, y)]"
proof (induction ys arbitrary: xs)
  case Nil
  then show ?case by (cases xs) auto
next
  case (Cons a ys)
  then show ?case by (cases xs) auto
qed

lemma outputs_snoc:
  assumes "length outs < length sgs"
  shows "outputs_store sgs (outs @ [(content, n)]) store
      = store_put (sg_output (sgs ! length outs)) content (outputs_store sgs outs store)"
    and "outputs_events sgs (outs @ [(content, n)]) = outputs_events sgs outs @ stage_events (sgs ! length outs) 1 n"
    and "outputs_ok sgs (outs @ [(content, n)]) \<longleftrightarrow> outputs_ok sgs outs \<and> content_fits (sgs ! length outs) content
      \<and> 0 < n \<and> n \<le> unat (tb_maximum_attempts (sg_budget (sgs ! length outs)))"
  using assms by (auto simp: outputs_store_def outputs_events_def outputs_ok_def zip_snoc)

lemma outputs_Nil [simp]:
  "outputs_store sgs [] store = store" "outputs_events sgs [] = []" "outputs_ok sgs []"
  by (simp_all add: outputs_store_def outputs_events_def outputs_ok_def)

lemma store_get_put: "store_get (store_put reference content store) i
    = (if i = ar_id reference then Some \<lparr>art_reference = reference, art_content = content\<rparr> else store_get store i)"
  by (simp add: store_get_def store_put_def bt_get_insert)

lemma store_put_maximum [simp]: "as_maximum_artifacts (store_put reference content store) = as_maximum_artifacts store"
  by (simp add: store_put_def)

lemma outputs_store_maximum [simp]: "as_maximum_artifacts (outputs_store sgs outs store) = as_maximum_artifacts store"
proof -
  have "as_maximum_artifacts (foldl (\<lambda>store (sg, content, n). store_put (sg_output sg) content store) store zs)
    = as_maximum_artifacts store" for zs :: "(stage_arguments \<times> artifact_content \<times> nat) list"
    by (induction zs arbitrary: store) (auto split: prod.splits)
  then show ?thesis by (simp add: outputs_store_def)
qed

abbreviation output_id :: "stage_arguments \<Rightarrow> artifact_id" where
  "output_id sg \<equiv> ar_id (sg_output sg)"

lemma outputs_store_get:
  assumes "length outs \<le> length sgs" and "distinct (map output_id sgs)"
  shows "store_get (outputs_store sgs outs store) i =
    (case position (\<lambda>sg. output_id sg = i) sgs of
       Some j \<Rightarrow> if j < length outs
         then Some \<lparr>art_reference = sg_output (sgs ! j), art_content = fst (outs ! j)\<rparr> else store_get store i
     | None \<Rightarrow> store_get store i)"
  using assms(1)
proof (induction outs rule: rev_induct)
  case Nil
  then show ?case by (simp split: option.splits)
next
  case (snoc out outs)
  obtain content n where out: "out = (content, n)" by fastforce
  have len: "length outs < length sgs" using snoc.prems by simp
  have own: "output_id (sgs ! length outs) = i \<longleftrightarrow> position (\<lambda>sg. output_id sg = i) sgs = Some (length outs)"
    using position_distinct [OF assms(2) len] len by (auto simp: position_Some)
  show ?case
    using snoc.IH len own unfolding out outputs_snoc(1) [OF len] store_get_put
    by (auto simp: nth_append less_Suc_eq split: option.splits)
qed

lemma outputs_store_size:
  assumes "length outs \<le> length sgs" and "distinct (map output_id sgs)" and "bt_inv (as_artifacts store)"
    and "\<forall>sg \<in> set sgs. store_get store (output_id sg) = None"
  shows "bt_inv (as_artifacts (outputs_store sgs outs store))
    \<and> bt_len (as_artifacts (outputs_store sgs outs store)) = bt_len (as_artifacts store) + length outs"
  using assms(1)
proof (induction outs rule: rev_induct)
  case Nil
  with assms(3) show ?case by simp
next
  case (snoc out outs)
  obtain content n where out: "out = (content, n)" by fastforce
  have len: "length outs < length sgs" using snoc.prems by simp
  have "store_get (outputs_store sgs outs store) (output_id (sgs ! length outs)) = None"
    using position_distinct [OF assms(2) len] len assms(4) by (simp add: outputs_store_get [OF _ assms(2)])
  with snoc len show ?case
    unfolding out outputs_snoc(1) [OF len] by (simp add: store_put_def store_get_def bt_inv_insert bt_len_insert_new)
qed

lemma outputs_events_length:
  assumes "outputs_ok sgs outs"
  shows "length (outputs_events sgs outs)
    \<le> (\<Sum>sg \<leftarrow> take (length outs) sgs. 2 * unat (tb_maximum_attempts (sg_budget sg)))"
  using assms
proof (induction outs rule: rev_induct)
  case (snoc out outs)
  obtain content n where out: "out = (content, n)" by fastforce
  have len: "length outs < length sgs" using snoc.prems by (auto simp: outputs_ok_def)
  with snoc show ?case
    unfolding out outputs_snoc(2,3) [OF len] by (auto simp: length_stage_events take_Suc_conv_app_nth)
qed simp

subsection \<open>From stage to stage\<close>

definition plan_fits :: "task_graph \<Rightarrow> stage_arguments list \<Rightarrow> bool" where
  "plan_fits g sgs \<longleftrightarrow> graph_wf g \<and> length (tg_nodes g) = length sgs
     \<and> (\<forall>i < length sgs. id_at g i = sg_task (sgs ! i)
          \<and> max_attempts_at g i = tb_maximum_attempts (sg_budget (sgs ! i))
          \<and> tb_maximum_attempts (sg_budget (sgs ! i)) \<noteq> 0)
     \<and> (\<forall>(j, k) \<in> prerequisite_pairs g. j < k)"

definition room_for :: "stage_arguments list \<Rightarrow> ('mp, 'vp) workflow_executor \<Rightarrow> bool" where
  "room_for sgs x \<longleftrightarrow> bt_inv (as_artifacts (we_artifacts x))
     \<and> events_room x ((\<Sum>sg \<leftarrow> sgs. 2 * unat (tb_maximum_attempts (sg_budget sg))) + 1)
     \<and> length sgs \<le> store_remaining_capacity (we_artifacts x)
     \<and> distinct (map output_id sgs)
     \<and> (\<forall>sg \<in> set sgs. store_get (we_artifacts x) (output_id sg) = None)"

definition progress ::
    "stage_arguments list \<Rightarrow> ('mp, 'vp) workflow_executor \<Rightarrow> (artifact_content \<times> nat) list
       \<Rightarrow> ('mp, 'vp) workflow_executor \<Rightarrow> task_states \<Rightarrow> bool" where
  "progress sgs x outs y states \<longleftrightarrow> outputs_ok sgs outs
     \<and> books y = books (x\<lparr>we_artifacts := outputs_store sgs outs (we_artifacts x),
         we_events := we_events x @ outputs_events sgs outs\<rparr>)
     \<and> states = map (\<lambda>(_, n). \<lparr>rs_status = TaskSucceeded, rs_attempts = of_nat n\<rparr>) outs
         @ replicate (length sgs - length outs) task_runtime_state_default"

definition stopped ::
    "bool \<Rightarrow> stage_arguments list \<Rightarrow> ('mp, 'vp) workflow_executor \<Rightarrow> (artifact_content \<times> nat) list
       \<Rightarrow> workflow_error \<Rightarrow> ('mp, 'vp) workflow_executor \<Rightarrow> bool" where
  "stopped ok sgs x outs e y \<longleftrightarrow> \<not> ok \<and> outputs_ok sgs outs \<and> length outs < length sgs
     \<and> stage_failure (sgs ! length outs) e
     \<and> (\<exists>n. 0 < n \<and> n \<le> unat (tb_maximum_attempts (sg_budget (sgs ! length outs)))
          \<and> books y = books (x\<lparr>we_artifacts := outputs_store sgs outs (we_artifacts x),
              we_events := we_events x @ outputs_events sgs outs @ retry_events (sgs ! length outs) 1 n
                @ [StageStarted (sg_workflow (sgs ! length outs)) (sg_stage (sgs ! length outs))
                     (attempt_of (sgs ! length outs) n)]\<rparr>))"

lemma progress_states:
  assumes "progress sgs x outs y states"
  shows "length states = length sgs" and "\<And>i. i < length outs \<Longrightarrow> status_at states i = TaskSucceeded"
    and "\<And>i. length outs \<le> i \<Longrightarrow> i < length sgs \<Longrightarrow> states ! i = task_runtime_state_default"
  using assms by (auto simp: progress_def outputs_ok_def nth_append split: prod.splits)

lemma progress_ready:
  assumes plan: "plan_fits g sgs" and room: "room_for sgs x" and sofar: "progress sgs x outs y states"
    and more_stages: "length outs < length sgs"
  shows "stage_waits g (sgs ! length outs) (length outs) states 0"
    and "events_room y (2 * unat (tb_maximum_attempts (sg_budget (sgs ! length outs))))"
    and "store_get (we_artifacts y) (output_id (sgs ! length outs)) = None"
    and "0 < store_remaining_capacity (we_artifacts y)"
proof -
  let ?i = "length outs"
  let ?cost = "\<lambda>sg. 2 * unat (tb_maximum_attempts (sg_budget sg))"
  note states = progress_states [OF sofar]
  have "table_fits g states"
    using plan states(1) by (auto simp: table_fits_def plan_fits_def in_set_conv_nth)
  moreover have "ready_at g states ?i"
    using plan states(2) by (auto simp: ready_at_def plan_fits_def)
  moreover have "0 < unat (tb_maximum_attempts (sg_budget (sgs ! ?i)))"
    using plan more_stages by (auto simp: plan_fits_def unat_gt_0)
  moreover have "?i < length (tg_nodes g)" "id_at g ?i = sg_task (sgs ! ?i)"
    "max_attempts_at g ?i = tb_maximum_attempts (sg_budget (sgs ! ?i))"
    using plan more_stages by (simp_all add: plan_fits_def)
  moreover have "states ! ?i = task_runtime_state_default" using states(3) more_stages by simp
  ultimately show "stage_waits g (sgs ! ?i) ?i states 0"
    by (simp add: stage_waits_def task_runtime_state_default_def)
  have books: "we_events y = we_events x @ outputs_events sgs outs" "we_limits y = we_limits x"
    "we_artifacts y = outputs_store sgs outs (we_artifacts x)" and ok: "outputs_ok sgs outs"
    using sofar by (auto simp: progress_def books_eq)
  have "sum_list (map ?cost sgs) = sum_list (map ?cost (take ?i sgs)) + sum_list (map ?cost (drop ?i sgs))"
    using sum_list_append [of "map ?cost (take ?i sgs)" "map ?cost (drop ?i sgs)"]
    by (simp only: map_append [symmetric] append_take_drop_id)
  moreover have "drop ?i sgs = sgs ! ?i # drop (Suc ?i) sgs" using more_stages by (simp add: Cons_nth_drop_Suc)
  ultimately have "sum_list (map ?cost (take ?i sgs)) + ?cost (sgs ! ?i) \<le> sum_list (map ?cost sgs)" by simp
  with outputs_events_length [OF ok] room show "events_room y (?cost (sgs ! ?i))"
    by (simp add: room_for_def events_room_def books)
  have distinct: "distinct (map output_id sgs)" using room by (simp add: room_for_def)
  then show "store_get (we_artifacts y) (output_id (sgs ! ?i)) = None"
    using room more_stages position_distinct [OF distinct more_stages]
    by (simp add: books outputs_store_get room_for_def)
  have "bt_len (as_artifacts (we_artifacts y)) = bt_len (as_artifacts (we_artifacts x)) + ?i"
    using room more_stages by (simp add: books room_for_def outputs_store_size)
  with room more_stages show "0 < store_remaining_capacity (we_artifacts y)"
    by (auto simp: store_remaining_capacity_def room_for_def books split: if_splits)
qed

lemma progress_law:
  assumes sofar: "progress sgs x outs y states" and more_stages: "length outs < length sgs"
    and law: "stage_law ok (sgs ! length outs) (length outs) 0 y states r y' states'"
  shows "case r of Inr content \<Rightarrow> \<exists>n. progress sgs x (outs @ [(content, n)]) y' states'
    | Inl e \<Rightarrow> stopped ok sgs x outs e y'"
proof -
  let ?i = "length outs" and ?sg = "sgs ! length outs"
  have books: "books y = books (x\<lparr>we_artifacts := outputs_store sgs outs (we_artifacts x),
         we_events := we_events x @ outputs_events sgs outs\<rparr>)" and ok: "outputs_ok sgs outs"
    and states: "states = map (\<lambda>(_, n). \<lparr>rs_status = TaskSucceeded, rs_attempts = of_nat n\<rparr>) outs
         @ replicate (length sgs - ?i) task_runtime_state_default"
    using sofar by (auto simp: progress_def)
  obtain n where n: "0 < n" "n \<le> unat (tb_maximum_attempts (sg_budget ?sg))" and law': "case r of
      Inr content \<Rightarrow> content_fits ?sg content
        \<and> books y' = books (y\<lparr>we_artifacts := store_put (sg_output ?sg) content (we_artifacts y),
            we_events := we_events y @ stage_events ?sg (Suc 0) n\<rparr>)
        \<and> states' = states[?i := \<lparr>rs_status = TaskSucceeded, rs_attempts = of_nat n\<rparr>]
    | Inl e \<Rightarrow> \<not> ok \<and> stage_failure ?sg e
        \<and> books y' = books (y\<lparr>we_events := we_events y @ retry_events ?sg (Suc 0) n
            @ [StageStarted (sg_workflow ?sg) (sg_stage ?sg) (attempt_of ?sg n)]\<rparr>)"
    using law unfolding stage_law_def by blast
  show ?thesis
  proof (cases r)
    case (Inl e)
    with n law' books ok more_stages show ?thesis by (auto simp: stopped_def books_eq)
  next
    case (Inr content)
    have "length sgs - ?i = Suc (length sgs - Suc ?i)" using more_stages by simp
    with Inr n law' books ok more_stages have "progress sgs x (outs @ [(content, n)]) y' states'"
      by (simp add: progress_def outputs_snoc [OF more_stages] books_eq states list_update_append)
    with Inr show ?thesis by auto
  qed
qed

subsection \<open>The stage functions\<close>

text \<open>The loop of a stage with the next arguments of the list.\<close>

lemma progress_stage:
  assumes plan: "plan_fits g sgs" and room: "room_for sgs x" and sofar: "progress sgs x outs y states"
    and here: "length outs < length sgs" "sg = sgs ! length outs"
    and calls: "keeps_books call" and typed: "\<And>v. reference_fits (sg_output sg) (make_content v)"
    and answers: "ok \<longrightarrow> answers_in_time sg call make_content"
    and run: "stage_loop g sg call make_content (y, states) = (r, y', states')"
  shows "case r of Inr v \<Rightarrow> \<exists>n. progress sgs x (outs @ [(make_content v, n)]) y' states'
    | Inl e \<Rightarrow> stopped ok sgs x outs e y'"
proof -
  note ready = progress_ready [OF plan room sofar here(1), folded here(2)]
  have "stage_law ok sg (length outs) 0 y states (bind_ok r (\<lambda>v. Inr (make_content v))) y' states'"
    by (rule stage_loop_law [OF calls typed answers [rule_format] ready(1) _ ready(3,4) run]) (simp_all add: ready(2))
  from progress_law [OF sofar here(1), folded here(2), OF this] show ?thesis by (cases r) simp_all
qed

text \<open>The answers of the ports that let a stage succeed: none is a failure on the last attempt.\<close>

definition model_in_time ::
    "('mp, 'vp) workflow_ports \<Rightarrow> stage_arguments \<Rightarrow> (rust_string \<Rightarrow> artifact_content) \<Rightarrow> bool" where
  "model_in_time P sg make_content \<longleftrightarrow> (\<forall>request artifacts m. mr_budget request = sg_budget sg \<longrightarrow>
     (case fst (port_model P request artifacts m) of
        Inl _ \<Rightarrow> at_number (mr_attempt request) \<noteq> tb_maximum_attempts (sg_budget sg)
      | Inr v \<Rightarrow> content_fits sg (make_content v)))"

definition validator_in_time ::
    "('mp, 'vp) workflow_ports \<Rightarrow> stage_arguments \<Rightarrow> (validation_report \<Rightarrow> artifact_content) \<Rightarrow> bool" where
  "validator_in_time P sg make_content \<longleftrightarrow> (\<forall>request artifacts m. vq_budget request = sg_budget sg \<longrightarrow>
     (case fst (port_validator P request artifacts m) of
        Inl _ \<Rightarrow> at_number (vq_attempt request) \<noteq> tb_maximum_attempts (sg_budget sg)
      | Inr v \<Rightarrow> content_fits sg (make_content v)))"

lemma model_in_timeD:
  assumes "model_in_time P sg make_content" and "mr_budget request = sg_budget sg"
    and "mr_attempt request = attempt"
  shows "case fst (case port_model P request artifacts m of (r, m') \<Rightarrow> (r, g m')) of
      Inl _ \<Rightarrow> at_number attempt \<noteq> tb_maximum_attempts (sg_budget sg)
    | Inr v \<Rightarrow> content_fits sg (make_content v)"
  using assms(1) [unfolded model_in_time_def, rule_format, OF assms(2), of artifacts m]
  unfolding assms(3) by (simp add: split_beta)

lemma validator_in_timeD:
  assumes "validator_in_time P sg make_content" and "vq_budget request = sg_budget sg"
    and "vq_attempt request = attempt"
  shows "case fst (case port_validator P request artifacts m of (r, m') \<Rightarrow> (r, g m')) of
      Inl _ \<Rightarrow> at_number attempt \<noteq> tb_maximum_attempts (sg_budget sg)
    | Inr v \<Rightarrow> content_fits sg (make_content v)"
  using assms(1) [unfolded validator_in_time_def, rule_format, OF assms(2), of artifacts m]
  unfolding assms(3) by (simp add: split_beta)

definition reported :: "('mp, 'vp) workflow_ports \<Rightarrow> validation_report \<Rightarrow> bool" where
  "reported P report \<longleftrightarrow> (\<exists>request artifacts m. fst (port_validator P request artifacts m) = Inr report)"

lemma run_model_stage_progress:
  assumes "plan_fits g sgs" and "room_for sgs x" and "progress sgs x outs y states"
    and "length outs < length sgs" and "sg = sgs ! length outs"
    and "\<And>v. reference_fits (sg_output sg) (make_content v)"
    and answers: "ok \<longrightarrow> model_in_time P sg make_content"
    and run: "run_model_stage P g sg kind policy ids make_content (y, states) = (r, y', states')"
  shows "case r of Inr _ \<Rightarrow> \<exists>v n. progress sgs x (outs @ [(make_content v, n)]) y' states'
    | Inl e \<Rightarrow> stopped ok sgs x outs e y'"
proof -
  let ?call = "\<lambda>attempt x. case port_model P
      \<lparr>mr_workflow = sg_workflow sg, mr_attempt = attempt, mr_kind = kind, mr_model_policy = policy,
       mr_budget = sg_budget sg, mr_input_artifacts = ids\<rparr>
      (inputs_get \<lparr>ai_store = we_artifacts x, ai_ids = ids\<rparr>) (we_model x) of
    (r, model) \<Rightarrow> (r, x\<lparr>we_model := model\<rparr>)"
  have calls: "keeps_books ?call" by (auto simp: keeps_books_def books_eq split: prod.splits)
  have timely: "ok \<longrightarrow> answers_in_time sg ?call make_content"
    unfolding answers_in_time_def using answers by (intro impI allI) (rule model_in_timeD; simp)
  obtain r' where loop: "stage_loop g sg ?call make_content (y, states) = (r', y', states')" "r = bind_ok r' (\<lambda>_. Inr ())"
    using run by (auto simp: run_model_stage_def split: prod.splits)
  from progress_stage [OF assms(1-5) calls assms(6) timely loop(1)] loop(2) show ?thesis by (cases r') auto
qed

lemma run_validation_stage_progress:
  assumes "plan_fits g sgs" and "room_for sgs x" and "progress sgs x outs y states"
    and "length outs < length sgs" and "sg = sgs ! length outs"
    and "\<And>v. reference_fits (sg_output sg) (make_content v)"
    and answers: "ok \<longrightarrow> validator_in_time P sg make_content"
    and run: "run_validation_stage P g sg kind ids make_content (y, states) = (r, y', states')"
  shows "case r of Inr verdict \<Rightarrow> \<exists>report n. progress sgs x (outs @ [(make_content report, n)]) y' states'
      \<and> verdict = vr_verdict report \<and> reported P report
    | Inl e \<Rightarrow> stopped ok sgs x outs e y'"
proof -
  let ?call = "\<lambda>attempt x. case port_validator P
      \<lparr>vq_workflow = sg_workflow sg, vq_attempt = attempt, vq_kind = kind, vq_budget = sg_budget sg,
       vq_input_artifacts = ids\<rparr>
      (inputs_get \<lparr>ai_store = we_artifacts x, ai_ids = ids\<rparr>) (we_validator x) of
    (r, validator) \<Rightarrow> (r, x\<lparr>we_validator := validator\<rparr>)"
  have calls: "keeps_books ?call" by (auto simp: keeps_books_def books_eq split: prod.splits)
  have timely: "ok \<longrightarrow> answers_in_time sg ?call make_content"
    unfolding answers_in_time_def using answers by (intro impI allI) (rule validator_in_timeD; simp)
  obtain r' where loop: "stage_loop g sg ?call make_content (y, states) = (r', y', states')"
    "r = bind_ok r' (\<lambda>report. Inr (vr_verdict report))"
    using run by (auto simp: run_validation_stage_def split: prod.splits)
  have "reported P report" if "r' = Inr report" for report
    using stage_loop_answer [OF loop(1) [unfolded that]] by (auto simp: reported_def split_beta)
  with progress_stage [OF assms(1-5) calls assms(6) timely loop(1)] loop(2) show ?thesis by (cases r') auto
qed

text \<open>The normalisation is a stage whose call cannot fail.\<close>

lemma run_normalization_stage_loop:
  assumes "store_get (we_artifacts y) i = Some \<lparr>art_reference = reference, art_content = ContentRawValidation report\<rparr>"
  shows "run_normalization_stage g sg i (y, states) =
    (case stage_loop g sg (\<lambda>_ x. (Inr report, x)) (\<lambda>report. ContentNormalizedDiagnostics
       (normalize_validation_report report)) (y, states) of (r, st) \<Rightarrow> (bind_ok r (\<lambda>_. Inr ()), st))"
proof -
  have "we_artifacts y' = we_artifacts y" if "start_stage g sg (y, states) = (Inr attempt, y', states')" for attempt y' states'
    using that by (auto simp: start_stage_def enqueue_event_def bind_ok_Inr split: prod.splits sum.splits)
  with assms show ?thesis
    by (fastforce simp: run_normalization_stage_def stage_loop.simps [of _ _ _ _ "(y, states)"] require_raw_validation_def
        bind_step_def bind_ok_def split: prod.splits sum.splits)
qed

lemma run_normalization_stage_progress:
  assumes "plan_fits g sgs" and "room_for sgs x" and "progress sgs x outs y states"
    and "length outs < length sgs" and "sg = sgs ! length outs"
    and "reference_fits (sg_output sg) (ContentNormalizedDiagnostics (normalize_validation_report report))"
    and "j < length outs" and "i = output_id (sgs ! j)" and "fst (outs ! j) = ContentRawValidation report"
    and fits: "ok \<longrightarrow> content_fits sg (ContentNormalizedDiagnostics (normalize_validation_report report))"
    and run: "run_normalization_stage g sg i (y, states) = (r, y', states')"
  shows "case r of Inr _ \<Rightarrow> \<exists>n. progress sgs x (outs @ [(ContentNormalizedDiagnostics
        (normalize_validation_report report), n)]) y' states'
    | Inl e \<Rightarrow> stopped ok sgs x outs e y'"
proof -
  have distinct: "distinct (map output_id sgs)" using assms(2) by (simp add: room_for_def)
  have "we_artifacts y = outputs_store sgs outs (we_artifacts x)" using assms(3) by (simp add: progress_def books_eq)
  then have get: "store_get (we_artifacts y) i
      = Some \<lparr>art_reference = sg_output (sgs ! j), art_content = ContentRawValidation report\<rparr>"
    using assms(4,7,8,9) position_distinct [OF distinct, of j] by (simp add: outputs_store_get [OF _ distinct])
  let ?call = "\<lambda>_ x. (Inr report, x)"
    and ?make = "\<lambda>report. ContentNormalizedDiagnostics (normalize_validation_report report)"
  obtain r' where loop: "stage_loop g sg ?call ?make (y, states) = (r', y', states')" "r = bind_ok r' (\<lambda>_. Inr ())"
    using run unfolding run_normalization_stage_loop [OF get] by (auto split: prod.splits)
  have only: "r' = Inr v \<Longrightarrow> v = report" for v
    using loop(1) by (auto simp: stage_loop.simps [of _ _ _ _ "(y, states)"] bind_ok_Inr split: prod.splits sum.splits)
  have calls: "keeps_books ?call" by (auto simp: keeps_books_def)
  have typed: "reference_fits (sg_output sg) (?make v)" for v
    using assms(6) by (simp add: reference_fits_def)
  have timely: "ok \<longrightarrow> answers_in_time sg (\<lambda>_ x. (Inr report, x)) ?make"
    using fits by (simp add: answers_in_time_def)
  from progress_stage [OF assms(1-5) calls typed timely loop(1)] loop(2) only show ?thesis by (cases r') auto
qed

subsection \<open>An execution\<close>

definition outputs_consistent :: "(artifact_content \<times> nat) list \<Rightarrow> bool" where
  "outputs_consistent outs \<longleftrightarrow> (2 < length outs \<longrightarrow> (\<exists>report. fst (outs ! 1) = ContentRawValidation report
     \<and> fst (outs ! 2) = ContentNormalizedDiagnostics (normalize_validation_report report)))"

abbreviation execution_stages :: "u64 \<Rightarrow> u64 \<Rightarrow> u64 \<Rightarrow> corrective_workflow_configuration \<Rightarrow> stage_arguments list" where
  "execution_stages w t a c \<equiv> workflow_stages (WorkflowId w) (tasks_from t) (references_from a) c"

lemma workflow_references_fit:
  "reference_fits (sg_output (execution_stages w t a c ! 0)) (ContentDraft s)"
  "reference_fits (sg_output (execution_stages w t a c ! 1)) (ContentRawValidation report)"
  "reference_fits (sg_output (execution_stages w t a c ! 2)) (ContentNormalizedDiagnostics normal)"
  "reference_fits (sg_output (execution_stages w t a c ! 3)) (ContentReview s)"
  "reference_fits (sg_output (execution_stages w t a c ! 4)) (ContentRevision s)"
  "reference_fits (sg_output (execution_stages w t a c ! 5)) (ContentFinalValidation report)"
  by (simp_all add: workflow_stages_def Let_def reference_fits_def references_from_def make_reference_def)

text \<open>
  Ports that answer in time and within the limits of a configuration: no call fails on the last
  attempt its budget allows, and no answer is larger than any output that can be made of it.
\<close>

definition within :: "artifact_content \<Rightarrow> u64 \<Rightarrow> bool" where
  "within content limit \<longleftrightarrow> (case artifact_content_size content of None \<Rightarrow> False | Some required \<Rightarrow> required \<le> limit)"

definition ports_answer :: "('mp, 'vp) workflow_ports \<Rightarrow> corrective_workflow_configuration \<Rightarrow> bool" where
  "ports_answer P c \<longleftrightarrow> (let limits = wc_artifact_limits c in
     (\<forall>request artifacts m. case fst (port_model P request artifacts m) of
        Inl _ \<Rightarrow> at_number (mr_attempt request) \<noteq> tb_maximum_attempts (mr_budget request)
      | Inr s \<Rightarrow> within (ContentDraft s) (wa_draft limits) \<and> within (ContentReview s) (wa_review limits)
          \<and> within (ContentRevision s) (wa_revision limits))
   \<and> (\<forall>request artifacts m. case fst (port_validator P request artifacts m) of
        Inl _ \<Rightarrow> at_number (vq_attempt request) \<noteq> tb_maximum_attempts (vq_budget request)
      | Inr report \<Rightarrow> within (ContentRawValidation report) (wa_raw_validation limits)
          \<and> within (ContentNormalizedDiagnostics (normalize_validation_report report)) (wa_normalized_diagnostics limits)
          \<and> within (ContentFinalValidation report) (wa_final_validation limits)))"

lemma content_fits_within: "content_fits sg content \<longleftrightarrow> reference_fits (sg_output sg) content
    \<and> within content (sg_maximum_bytes sg)"
  by (auto simp: content_fits_def within_def split: option.splits)

lemma execution_limits:
  "map sg_maximum_bytes (execution_stages w t a c) =
    [wa_draft (wc_artifact_limits c), wa_raw_validation (wc_artifact_limits c),
     wa_normalized_diagnostics (wc_artifact_limits c), wa_review (wc_artifact_limits c),
     wa_revision (wc_artifact_limits c), wa_final_validation (wc_artifact_limits c)]"
  by (simp add: workflow_stages_def Let_def)

lemma ports_answer_fits:
  assumes "ports_answer P c"
  shows "case fst (port_model P request artifacts m) of
      Inl _ \<Rightarrow> at_number (mr_attempt request) \<noteq> tb_maximum_attempts (mr_budget request)
    | Inr s \<Rightarrow> content_fits (execution_stages w t a c ! 0) (ContentDraft s)
        \<and> content_fits (execution_stages w t a c ! 3) (ContentReview s)
        \<and> content_fits (execution_stages w t a c ! 4) (ContentRevision s)"
    and "case fst (port_validator P request' artifacts' m') of
      Inl _ \<Rightarrow> at_number (vq_attempt request') \<noteq> tb_maximum_attempts (vq_budget request')
    | Inr report \<Rightarrow> content_fits (execution_stages w t a c ! 1) (ContentRawValidation report)
        \<and> content_fits (execution_stages w t a c ! 2) (ContentNormalizedDiagnostics (normalize_validation_report report))
        \<and> content_fits (execution_stages w t a c ! 5) (ContentFinalValidation report)"
proof -
  let ?sg = "\<lambda>j. execution_stages w t a c ! j" and ?limits = "wc_artifact_limits c"
  have fits: "content_fits (?sg 0) (ContentDraft s) \<longleftrightarrow> within (ContentDraft s) (wa_draft ?limits)"
    "content_fits (?sg 1) (ContentRawValidation report) \<longleftrightarrow> within (ContentRawValidation report) (wa_raw_validation ?limits)"
    "content_fits (?sg 2) (ContentNormalizedDiagnostics normal)
      \<longleftrightarrow> within (ContentNormalizedDiagnostics normal) (wa_normalized_diagnostics ?limits)"
    "content_fits (?sg 3) (ContentReview s) \<longleftrightarrow> within (ContentReview s) (wa_review ?limits)"
    "content_fits (?sg 4) (ContentRevision s) \<longleftrightarrow> within (ContentRevision s) (wa_revision ?limits)"
    "content_fits (?sg 5) (ContentFinalValidation report)
      \<longleftrightarrow> within (ContentFinalValidation report) (wa_final_validation ?limits)" for s report normal
    using workflow_references_fit [of w t a c]
    by (simp_all only: content_fits_within simp_thms) (simp_all add: workflow_stages_def Let_def)
  show "case fst (port_model P request artifacts m) of
      Inl _ \<Rightarrow> at_number (mr_attempt request) \<noteq> tb_maximum_attempts (mr_budget request)
    | Inr s \<Rightarrow> content_fits (?sg 0) (ContentDraft s) \<and> content_fits (?sg 3) (ContentReview s)
        \<and> content_fits (?sg 4) (ContentRevision s)"
    using assms unfolding ports_answer_def Let_def fits by blast
  show "case fst (port_validator P request' artifacts' m') of
      Inl _ \<Rightarrow> at_number (vq_attempt request') \<noteq> tb_maximum_attempts (vq_budget request')
    | Inr report \<Rightarrow> content_fits (?sg 1) (ContentRawValidation report)
        \<and> content_fits (?sg 2) (ContentNormalizedDiagnostics (normalize_validation_report report))
        \<and> content_fits (?sg 5) (ContentFinalValidation report)"
    using assms unfolding ports_answer_def Let_def fits by blast
qed

lemma ports_answer_in_time:
  "ports_answer P c \<longrightarrow> model_in_time P (execution_stages w t a c ! 0) ContentDraft"
  "ports_answer P c \<longrightarrow> validator_in_time P (execution_stages w t a c ! 1) ContentRawValidation"
  "reported P report \<Longrightarrow> ports_answer P c \<longrightarrow> content_fits (execution_stages w t a c ! 2)
    (ContentNormalizedDiagnostics (normalize_validation_report report))"
  "ports_answer P c \<longrightarrow> model_in_time P (execution_stages w t a c ! 3) ContentReview"
  "ports_answer P c \<longrightarrow> model_in_time P (execution_stages w t a c ! 4) ContentRevision"
  "ports_answer P c \<longrightarrow> validator_in_time P (execution_stages w t a c ! 5) ContentFinalValidation"
proof -
  note model = ports_answer_fits(1) [of P c, where w = w and t = t and a = a]
    and validator = ports_answer_fits(2) [of P c, where w = w and t = t and a = a]
  show "ports_answer P c \<longrightarrow> model_in_time P (execution_stages w t a c ! 0) ContentDraft"
    "ports_answer P c \<longrightarrow> model_in_time P (execution_stages w t a c ! 3) ContentReview"
    "ports_answer P c \<longrightarrow> model_in_time P (execution_stages w t a c ! 4) ContentRevision"
    unfolding model_in_time_def using model by (force split: sum.splits)+
  show "ports_answer P c \<longrightarrow> validator_in_time P (execution_stages w t a c ! 1) ContentRawValidation"
    "ports_answer P c \<longrightarrow> validator_in_time P (execution_stages w t a c ! 5) ContentFinalValidation"
    unfolding validator_in_time_def using validator by (force split: sum.splits)+
  show "reported P report \<Longrightarrow> ports_answer P c \<longrightarrow> content_fits (execution_stages w t a c ! 2)
      (ContentNormalizedDiagnostics (normalize_validation_report report))"
    unfolding reported_def using validator by (force split: sum.splits)
qed

lemma execute_stages_list:
  "execute_stages P (WorkflowId w) g specification (tasks_from t) (references_from a) c st =
    (let sgs = execution_stages w t a c; artifacts = references_from a in
    bind_step (run_model_stage P g (sgs ! 0) KindDraft (wc_model_policy c) [ar_id specification] ContentDraft st) (\<lambda>_ st.
    bind_step (run_validation_stage P g (sgs ! 1) (wc_initial_validation c) [ar_id (rf_draft artifacts)]
      ContentRawValidation st) (\<lambda>_ st.
    bind_step (run_normalization_stage g (sgs ! 2) (output_id (sgs ! 1)) st) (\<lambda>_ st.
    bind_step (run_model_stage P g (sgs ! 3) KindReview (wc_model_policy c)
      [ar_id specification, ar_id (rf_draft artifacts), ar_id (rf_normalized_diagnostics artifacts)]
      ContentReview st) (\<lambda>_ st.
    bind_step (run_model_stage P g (sgs ! 4) KindRevise (wc_model_policy c)
      [ar_id specification, ar_id (rf_draft artifacts), ar_id (rf_normalized_diagnostics artifacts),
       ar_id (rf_review artifacts)] ContentRevision st) (\<lambda>_ st.
    run_validation_stage P g (sgs ! 5) KindValidate [ar_id (rf_revision artifacts)] ContentFinalValidation st))))))"
  by (simp add: execute_stages_def workflow_stages_def Let_def)

text \<open>One stage of the chain: either it stops, or the rest runs on.\<close>

lemma bind_step_cases:
  assumes "bind_step m f = (r, y, states)" and "m = (r1, y1, states1)"
  obtains e where "r1 = Inl e" "r = Inl e" "y = y1" | v where "r1 = Inr v" "f v (y1, states1) = (r, y, states)"
  using assms by (cases r1) auto

definition execution_law ::
    "bool \<Rightarrow> stage_arguments list \<Rightarrow> ('mp, 'vp) workflow_executor \<Rightarrow> workflow_error + validation_verdict
       \<Rightarrow> ('mp, 'vp) workflow_executor \<Rightarrow> task_states \<Rightarrow> bool" where
  "execution_law ok sgs x r y states \<longleftrightarrow> (\<exists>outs. outputs_consistent outs \<and>
    (case r of
       Inr verdict \<Rightarrow> length outs = length sgs \<and> progress sgs x outs y states
         \<and> (\<exists>report. fst (last outs) = ContentFinalValidation report \<and> verdict = vr_verdict report)
     | Inl e \<Rightarrow> stopped ok sgs x outs e y))"

lemma stopped_law: "stopped ok sgs x outs e y \<Longrightarrow> outputs_consistent outs \<Longrightarrow> execution_law ok sgs x (Inl e) y states"
  by (auto simp: execution_law_def)

lemma finished_law:
  "progress sgs x (outs @ [a, b, (ContentFinalValidation report, n)]) y states \<Longrightarrow> length sgs = length outs + 3
     \<Longrightarrow> outputs_consistent (outs @ [a, b, (ContentFinalValidation report, n)])
     \<Longrightarrow> execution_law ok sgs x (Inr (vr_verdict report)) y states"
  unfolding execution_law_def by (rule exI [of _ "outs @ [a, b, (ContentFinalValidation report, n)]"]) auto

lemma consistent_append: "outputs_consistent outs \<Longrightarrow> length outs = 3 \<Longrightarrow> outputs_consistent (outs @ rest)"
  by (simp add: outputs_consistent_def nth_append)

lemma later_stages_law:
  assumes plan: "plan_fits g (execution_stages w t a c)" and room: "room_for (execution_stages w t a c) x"
    and three: "progress (execution_stages w t a c) x outs y0 states0" "length outs = 3" "outputs_consistent outs"
    and chain: "bind_step (run_model_stage P g (execution_stages w t a c ! 3) kind policy ids ContentReview (y0, states0)) (\<lambda>_ st.
      bind_step (run_model_stage P g (execution_stages w t a c ! 4) kind' policy' ids' ContentRevision st) (\<lambda>_ st.
      run_validation_stage P g (execution_stages w t a c ! 5) kind'' ids'' ContentFinalValidation st)) = (r, y, states)"
  shows "execution_law (ports_answer P c) (execution_stages w t a c) x r y states"
proof -
  let ?sgs = "execution_stages w t a c"
  note fits = workflow_references_fit [of w t a c]
  obtain r4 y4 states4 where step4: "run_model_stage P g (?sgs ! 3) kind policy ids ContentReview (y0, states0)
    = (r4, y4, states4)" by (metis prod_cases3)
  note law4 = run_model_stage_progress [OF plan room three(1) _ _ fits(4) ports_answer_in_time(4) step4, simplified three(2), simplified]
  show ?thesis
  proof (cases rule: bind_step_cases [OF chain step4])
    case (1 e)
    with law4 three show ?thesis by (auto intro: stopped_law)
  next
    case v4: (2 v4)
    then obtain review n4 where four: "progress ?sgs x (outs @ [(ContentReview review, n4)]) y4 states4" using law4 by auto
    obtain r5 y5 states5 where step5: "run_model_stage P g (?sgs ! 4) kind' policy' ids' ContentRevision (y4, states4)
      = (r5, y5, states5)" by (metis prod_cases3)
    note law5 = run_model_stage_progress [OF plan room four _ _ fits(5) ports_answer_in_time(5) step5, simplified three(2), simplified]
    show ?thesis
    proof (cases rule: bind_step_cases [OF v4(2) step5])
      case (1 e)
      with law5 three show ?thesis by (auto intro: stopped_law consistent_append)
    next
      case v5: (2 v5)
      then obtain revision n5 where "progress ?sgs x (outs @ [(ContentReview review, n4), (ContentRevision revision, n5)]) y5 states5"
        using law5 three(2) by auto
      from run_validation_stage_progress [OF plan room this _ _ fits(6) ports_answer_in_time(6) v5(2), simplified three(2), simplified]
      show ?thesis
        using three(2,3) by (auto split: sum.splits intro: stopped_law consistent_append finished_law)
    qed
  qed
qed

lemma execute_stages_law:
  assumes plan: "plan_fits g (execution_stages w t a c)" and room: "room_for (execution_stages w t a c) x"
    and start: "progress (execution_stages w t a c) x [] y0 states0"
    and run: "execute_stages P (WorkflowId w) g specification (tasks_from t) (references_from a) c (y0, states0) = (r, y, states)"
  shows "execution_law (ports_answer P c) (execution_stages w t a c) x r y states"
proof -
  let ?sgs = "execution_stages w t a c"
  note fits = workflow_references_fit [of w t a c]
  note chain = run [unfolded execute_stages_list Let_def]
  obtain r1 y1 states1 where step1: "run_model_stage P g (?sgs ! 0) KindDraft (wc_model_policy c) [ar_id specification]
    ContentDraft (y0, states0) = (r1, y1, states1)" by (metis prod_cases3)
  note law1 = run_model_stage_progress [OF plan room start _ _ fits(1) ports_answer_in_time(1) step1, simplified]
  show ?thesis
  proof (cases rule: bind_step_cases [OF chain step1])
    case (1 e)
    with law1 show ?thesis by (auto intro: stopped_law simp: outputs_consistent_def)
  next
    case v1: (2 v1)
    then obtain d n1 where one: "progress ?sgs x [(ContentDraft d, n1)] y1 states1" using law1 by auto
    obtain r2 y2 states2 where step2: "run_validation_stage P g (?sgs ! 1) (wc_initial_validation c)
      [ar_id (rf_draft (references_from a))] ContentRawValidation (y1, states1) = (r2, y2, states2)" by (metis prod_cases3)
    note law2 = run_validation_stage_progress [OF plan room one _ _ fits(2) ports_answer_in_time(2) step2, simplified]
    show ?thesis
    proof (cases rule: bind_step_cases [OF v1(2) step2])
      case (1 e)
      with law2 show ?thesis by (auto intro: stopped_law simp: outputs_consistent_def)
    next
      case v2: (2 v2)
      then obtain report n2 where two: "progress ?sgs x [(ContentDraft d, n1), (ContentRawValidation report, n2)] y2 states2"
        and report: "reported P report" using law2 by auto
      obtain r3 y3 states3 where step3: "run_normalization_stage g (?sgs ! 2) (output_id (?sgs ! 1)) (y2, states2)
        = (r3, y3, states3)" by (metis prod_cases3)
      have j: "1 < length [(ContentDraft d, n1), (ContentRawValidation report, n2)]" by simp
      note law3 = run_normalization_stage_progress [OF plan room two _ _ fits(3) j refl _ ports_answer_in_time(3) [OF report] step3, simplified]
      show ?thesis
      proof (cases rule: bind_step_cases [OF v2(2) step3])
        case (1 e)
        with law3 show ?thesis by (auto intro: stopped_law simp: outputs_consistent_def numeral_2_eq_2)
      next
        case v3: (2 v3)
        let ?outs3 = "\<lambda>n. [(ContentDraft d, n1), (ContentRawValidation report, n2),
          (ContentNormalizedDiagnostics (normalize_validation_report report), n)]"
        obtain n3 where three: "progress ?sgs x (?outs3 n3) y3 states3" using law3 v3(1) by (auto simp: numeral_2_eq_2)
        show ?thesis
          by (rule later_stages_law [OF plan room three _ _ v3(2)]) (simp_all add: outputs_consistent_def)
      qed
    qed
  qed
qed

end
