(* ===== verification/Workflow_Properties.thy ===== *)
theory Workflow_Properties
  imports Workflow_Runs
begin

section \<open>Properties of corrective workflows\<close>

text \<open>
  Executors as their clients drive them, the invariant of the artifact store, and what an
  execution does: the outputs and events it leaves, and the errors it can end with.
\<close>

subsection \<open>Executors in use\<close>

datatype executor_call =
    CallInsertSpecification rust_string
  | CallExecute artifact_id corrective_workflow_configuration
  | CallPollEvent

fun executor_apply ::
    "('mp, 'vp) workflow_ports \<Rightarrow> executor_call \<Rightarrow> ('mp, 'vp) workflow_executor \<Rightarrow> ('mp, 'vp) workflow_executor" where
  "executor_apply P (CallInsertSpecification specification) x = snd (insert_specification specification x)"
| "executor_apply P (CallExecute i c) x = snd (workflow_execute P i c x)"
| "executor_apply P CallPollEvent x = snd (poll_event x)"

text \<open>\<open>maximum_attempts\<close> is a \<open>NonZeroU16\<close>.\<close>

definition configuration_ok :: "corrective_workflow_configuration \<Rightarrow> bool" where
  "configuration_ok c \<longleftrightarrow> tb_maximum_attempts (wc_model_budget c) \<noteq> 0
     \<and> tb_maximum_attempts (wc_validation_budget c) \<noteq> 0"

fun executor_call_ok :: "executor_call \<Rightarrow> bool" where
  "executor_call_ok (CallExecute i c) \<longleftrightarrow> configuration_ok c"
| "executor_call_ok _ \<longleftrightarrow> True"

inductive executor_reachable :: "('mp, 'vp) workflow_ports \<Rightarrow> ('mp, 'vp) workflow_executor \<Rightarrow> bool" for P where
  executor_fresh: "executor_reachable P (executor_new model validator limits)"
| executor_step: "executor_reachable P x \<Longrightarrow> executor_call_ok call \<Longrightarrow> executor_reachable P (executor_apply P call x)"

definition executor_inv :: "('mp, 'vp) workflow_executor \<Rightarrow> bool" where
  "executor_inv x \<longleftrightarrow> bt_inv (as_artifacts (we_artifacts x))
     \<and> (\<forall>i a. store_get (we_artifacts x) i = Some a \<longrightarrow> ar_id (art_reference a) = i
          \<and> reference_fits (art_reference a) (art_content a) \<and> artifact_id_get i < we_next_artifact_id x)
     \<and> bt_len (as_artifacts (we_artifacts x)) \<le> as_maximum_artifacts (we_artifacts x)
     \<and> as_maximum_artifacts (we_artifacts x) = wl_artifacts (we_limits x)
     \<and> length (we_events x) \<le> wl_pending_events (we_limits x)"

subsection \<open>Admission makes room\<close>

lemma workflow_plan_fits:
  assumes "configuration_ok c"
  shows "plan_fits (workflow_graph specification t a c) (execution_stages w t a c)"
proof -
  have "(\<forall>i < 6. id_at (workflow_graph specification t a c) i = sg_task (execution_stages w t a c ! i)
      \<and> max_attempts_at (workflow_graph specification t a c) i
          = tb_maximum_attempts (sg_budget (execution_stages w t a c ! i))
      \<and> tb_maximum_attempts (sg_budget (execution_stages w t a c ! i)) \<noteq> 0)"
    using assms
    by (simp add: All_less_Suc eval_nat_numeral plan_defs workflow_stages_def Let_def configuration_ok_def
        normalization_task_budget_def)
  moreover have "length (tg_nodes (workflow_graph specification t a c)) = 6" by (simp add: plan_defs)
  moreover have "\<forall>(j, k) \<in> prerequisite_pairs (workflow_graph specification t a c). j < k" by (simp add: workflow_pairs)
  ultimately show ?thesis
    using workflow_graph_wf [of "specification" t a c] by (simp add: plan_fits_def)
qed

lemma retryable_capacity_Inr:
  "retryable_task_event_capacity maximum task_count = Inr n \<Longrightarrow> n = unat maximum * 2 * task_count"
  by (auto simp: retryable_task_event_capacity_def usize_checked_mul_def split: if_splits Option.bind_splits)

lemma three_checked_adds:
  "Option.bind (usize_checked_add m v) (\<lambda>total. Option.bind (usize_checked_add total 2) (\<lambda>total.
     usize_checked_add total (Suc 0))) = Some n \<Longrightarrow> n = m + v + 3"
  by (auto simp: usize_checked_add_def split: if_splits Option.bind_splits)

lemma admitted_room:
  assumes "admit_execution c x = Inr ()"
  shows "6 \<le> store_remaining_capacity (we_artifacts x)"
    and "events_room x ((\<Sum>sg \<leftarrow> execution_stages w t a c. 2 * unat (tb_maximum_attempts (sg_budget sg))) + 1)"
proof -
  show "6 \<le> store_remaining_capacity (we_artifacts x)"
    using assms by (auto simp: admit_execution_def Let_def split: if_splits)
  have "(\<Sum>sg \<leftarrow> execution_stages w t a c. 2 * unat (tb_maximum_attempts (sg_budget sg))) + 1
      = 6 * unat (tb_maximum_attempts (wc_model_budget c)) + 4 * unat (tb_maximum_attempts (wc_validation_budget c)) + 3"
    by (simp add: workflow_stages_def Let_def normalization_task_budget_def)
  moreover have "required_event_capacity c = Inr n \<Longrightarrow>
      n = 6 * unat (tb_maximum_attempts (wc_model_budget c)) + 4 * unat (tb_maximum_attempts (wc_validation_budget c)) + 3" for n
    by (auto simp: required_event_capacity_def bind_ok_Inr dest!: retryable_capacity_Inr three_checked_adds)
  ultimately show "events_room x ((\<Sum>sg \<leftarrow> execution_stages w t a c. 2 * unat (tb_maximum_attempts (sg_budget sg))) + 1)"
    using assms by (auto simp: admit_execution_def Let_def bind_ok_Inr events_room_def remaining_event_capacity_def
        split: if_splits)
qed

lemma later_ids:
  fixes a :: u64
  assumes "unat a + 6 < 2 ^ 64"
  shows "i < a \<Longrightarrow> i \<notin> {a, a + 1, a + 2, a + 3, a + 4, a + 5}"
    and "i < a \<Longrightarrow> i < a + 6" and "{a, a + 1, a + 2, a + 3, a + 4, a + 5} \<subseteq> {..< a + 6}"
  using consecutive_room [OF assms] by (auto simp: word_less_nat_alt add.commute)

lemma execution_output_ids:
  "map output_id (execution_stages w t a c)
    = map ArtifactId [a, a + 1, a + 2, a + 3, a + 4, a + 5]"
  by (simp add: workflow_stages_def Let_def references_from_def make_reference_def)

lemma admitted_room_for:
  assumes inv: "executor_inv x" and admitted: "admit_execution c x = Inr ()"
    and ids: "unat (we_next_artifact_id x) + 6 < 2 ^ 64"
    and x1: "we_artifacts x1 = we_artifacts x" "we_events x1 = we_events x" "we_limits x1 = we_limits x"
  shows "room_for (execution_stages w t (we_next_artifact_id x) c) x1"
proof -
  let ?sgs = "execution_stages w t (we_next_artifact_id x) c"
  have "store_get (we_artifacts x) i = None" if "i \<in> set (map output_id ?sgs)" for i
  proof (rule ccontr)
    assume "store_get (we_artifacts x) i \<noteq> None"
    then have "artifact_id_get i < we_next_artifact_id x" using inv by (auto simp: executor_inv_def)
    from later_ids(1) [OF ids this] that show False by (auto simp: execution_output_ids)
  qed
  moreover have "distinct (map output_id ?sgs)" by (simp add: execution_output_ids)
  ultimately show ?thesis
    using inv admitted_room(1) [OF admitted] admitted_room(2) [OF admitted, of w t "we_next_artifact_id x"] x1
    by (simp add: room_for_def executor_inv_def events_room_def)
qed

subsection \<open>The ways an execution ends\<close>

lemma require_specification_known:
  assumes "executor_inv x" and "require_specification i x = Inr spec"
  shows "ar_id spec = i" and "artifact_id_get i < we_next_artifact_id x"
proof -
  obtain a where "store_get (we_artifacts x) i = Some a" "art_reference a = spec"
    using assms(2) by (auto simp: require_specification_def Let_def split: option.splits if_splits)
  with assms(1) show "ar_id spec = i" "artifact_id_get i < we_next_artifact_id x" by (auto simp: executor_inv_def)
qed

text \<open>The executor once the identities of an execution are reserved.\<close>

definition reserved :: "('mp, 'vp) workflow_executor \<Rightarrow> ('mp, 'vp) workflow_executor" where
  "reserved x = x\<lparr>we_next_workflow_id := we_next_workflow_id x + 1, we_next_task_id := we_next_task_id x + 6,
     we_next_artifact_id := we_next_artifact_id x + 6\<rparr>"

abbreviation stages_of :: "('mp, 'vp) workflow_executor \<Rightarrow> corrective_workflow_configuration \<Rightarrow> stage_arguments list" where
  "stages_of x c \<equiv> execution_stages (we_next_workflow_id x) (we_next_task_id x) (we_next_artifact_id x) c"

definition completed_event :: "('mp, 'vp) workflow_executor \<Rightarrow> workflow_outcome \<Rightarrow> workflow_event" where
  "completed_event x outcome = WorkflowCompleted (WorkflowId (we_next_workflow_id x)) (outcome_status outcome)
     (outcome_revision outcome) (outcome_validation outcome)"

inductive execution_ends ::
    "('mp, 'vp) workflow_ports \<Rightarrow> ('mp, 'vp) workflow_executor \<Rightarrow> corrective_workflow_configuration \<Rightarrow> artifact_id
       \<Rightarrow> workflow_error + workflow_outcome \<Rightarrow> ('mp, 'vp) workflow_executor \<Rightarrow> bool" for P x c i where
  rejected: "configuration_validate c = Inl e \<or> require_specification i x = Inl e \<or> admit_execution c x = Inl e
    \<Longrightarrow> execution_ends P x c i (Inl e) x"
| exhausted: "books y = books (x\<lparr>we_next_workflow_id := w, we_next_task_id := t, we_next_artifact_id := a\<rparr>)
    \<Longrightarrow> we_next_artifact_id x \<le> a
    \<Longrightarrow> \<not> (unat (we_next_workflow_id x) + 1 < 2 ^ 64 \<and> unat (we_next_task_id x) + 6 < 2 ^ 64
      \<and> unat (we_next_artifact_id x) + 6 < 2 ^ 64)
    \<Longrightarrow> execution_ends P x c i (Inl (IdentifierExhausted kind)) y"
| failed: "room_for (stages_of x c) (reserved x) \<Longrightarrow> unat (we_next_artifact_id x) + 6 < 2 ^ 64
    \<Longrightarrow> outputs_consistent outs \<Longrightarrow> stopped (ports_answer P c) (stages_of x c) (reserved x) outs e y
    \<Longrightarrow> execution_ends P x c i (Inl e) y"
| completed: "room_for (stages_of x c) (reserved x) \<Longrightarrow> unat (we_next_artifact_id x) + 6 < 2 ^ 64
    \<Longrightarrow> outputs_consistent outs \<Longrightarrow> length outs = 6 \<Longrightarrow> outputs_ok (stages_of x c) outs
    \<Longrightarrow> fst (outs ! 5) = ContentFinalValidation report
    \<Longrightarrow> outcome = workflow_outcome_of (WorkflowId (we_next_workflow_id x)) (references_from (we_next_artifact_id x))
          (vr_verdict report)
    \<Longrightarrow> books y = books ((reserved x)\<lparr>we_artifacts := outputs_store (stages_of x c) outs (we_artifacts x),
          we_events := we_events x @ outputs_events (stages_of x c) outs @ [completed_event x outcome]\<rparr>)
    \<Longrightarrow> execution_ends P x c i (Inr outcome) y"

lemma complete_event_room:
  assumes "room_for sgs x" and "progress sgs x outs y states"
  shows "events_room y 1"
proof -
  have ok: "outputs_ok sgs outs" and y: "we_events y = we_events x @ outputs_events sgs outs" "we_limits y = we_limits x"
    using assms(2) by (auto simp: progress_def books_eq)
  let ?cost = "\<lambda>sg. 2 * unat (tb_maximum_attempts (sg_budget sg))"
  have "sum_list (map ?cost (take (length outs) sgs)) \<le> sum_list (map ?cost sgs)"
    using sum_list_append [of "map ?cost (take (length outs) sgs)" "map ?cost (drop (length outs) sgs)"]
    by (simp only: map_append [symmetric] append_take_drop_id)
  with outputs_events_length [OF ok] assms(1) show ?thesis by (simp add: room_for_def events_room_def y)
qed

lemma outcome_parts:
  "outcome_revision (workflow_outcome_of w artifacts verdict) = ar_id (rf_revision artifacts)"
  "outcome_validation (workflow_outcome_of w artifacts verdict) = ar_id (rf_final_validation artifacts)"
  by (cases verdict; simp add: workflow_outcome_of_def)+

lemma execute_after_reservation:
  assumes "configuration_validate c = Inr ()" and "require_specification i x = Inr spec" and "admit_execution c x = Inr ()"
    and "unat (we_next_workflow_id x) + 1 < 2 ^ 64" and "unat (we_next_task_id x) + 6 < 2 ^ 64"
    and "unat (we_next_artifact_id x) + 6 < 2 ^ 64"
  shows "workflow_execute P i c x =
    (case validate_plan (workflow_plan spec (we_next_task_id x) (we_next_artifact_id x) c) of
       Inl e \<Rightarrow> (Inl e, reserved x)
     | Inr states \<Rightarrow>
    (case execute_stages P (WorkflowId (we_next_workflow_id x))
            (workflow_graph spec (we_next_task_id x) (we_next_artifact_id x) c) spec (tasks_from (we_next_task_id x))
            (references_from (we_next_artifact_id x)) c (reserved x, states) of
       (Inl e, y, _) \<Rightarrow> (Inl e, y)
     | (Inr verdict, y, _) \<Rightarrow>
         let outcome = workflow_outcome_of (WorkflowId (we_next_workflow_id x))
               (references_from (we_next_artifact_id x)) verdict in
         bind_step (enqueue_event (completed_event x outcome) y) (\<lambda>_ y. (Inr outcome, y))))"
proof -
  have "allocate_workflow_id x = (Inr (WorkflowId (we_next_workflow_id x)),
      x\<lparr>we_next_workflow_id := we_next_workflow_id x + 1\<rparr>)"
    using assms(4) by (simp add: allocate_workflow_id_def allocate_id_law)
  then show ?thesis
    using assms reserve_task_ids_law [of "x\<lparr>we_next_workflow_id := we_next_workflow_id x + 1\<rparr>"]
      reserve_output_references_law [of "x\<lparr>we_next_workflow_id := we_next_workflow_id x + 1,
        we_next_task_id := we_next_task_id x + 6\<rparr>"]
    by (simp add: workflow_execute_def reserved_def completed_event_def outcome_parts Let_def split: sum.splits prod.splits)
qed

lemma execute_without_identities:
  assumes "configuration_validate c = Inr ()" and "require_specification i x = Inr spec" and "admit_execution c x = Inr ()"
    and "\<not> (unat (we_next_workflow_id x) + 1 < 2 ^ 64 \<and> unat (we_next_task_id x) + 6 < 2 ^ 64
      \<and> unat (we_next_artifact_id x) + 6 < 2 ^ 64)"
  shows "\<exists>kind w t a. workflow_execute P i c x = (Inl (IdentifierExhausted kind),
      x\<lparr>we_next_workflow_id := w, we_next_task_id := t, we_next_artifact_id := a\<rparr>) \<and> we_next_artifact_id x \<le> a"
proof (cases "unat (we_next_workflow_id x) + 1 < 2 ^ 64")
  case False
  then show ?thesis
    using assms(1-3) by (intro exI [of _ IdentifierWorkflow] exI [of _ "we_next_workflow_id x"]
        exI [of _ "we_next_task_id x"] exI [of _ "we_next_artifact_id x"])
      (simp add: workflow_execute_def allocate_workflow_id_def allocate_id_law)
next
  case w: True
  let ?x1 = "x\<lparr>we_next_workflow_id := we_next_workflow_id x + 1\<rparr>"
  have alloc: "allocate_workflow_id x = (Inr (WorkflowId (we_next_workflow_id x)), ?x1)"
    using w by (simp add: allocate_workflow_id_def allocate_id_law)
  show ?thesis
  proof (cases "unat (we_next_task_id x) + 6 < 2 ^ 64")
    case False
    then show ?thesis
      using assms(1-3) alloc reserve_task_ids_law [of ?x1]
      by (intro exI [of _ IdentifierTask] exI [of _ "we_next_workflow_id x + 1"]
          exI [of _ "- 1"] exI [of _ "we_next_artifact_id x"]) (simp add: workflow_execute_def)
  next
    case True
    then show ?thesis
      using assms alloc w reserve_task_ids_law [of ?x1]
        reserve_output_references_law [of "?x1\<lparr>we_next_task_id := we_next_task_id x + 6\<rparr>"]
      by (intro exI [of _ IdentifierArtifact] exI [of _ "we_next_workflow_id x + 1"]
          exI [of _ "we_next_task_id x + 6"] exI [of _ "- 1"]) (simp add: workflow_execute_def)
  qed
qed

lemma workflow_execute_ends:
  assumes inv: "executor_inv x" and ok: "configuration_ok c" and run: "workflow_execute P i c x = (r, y)"
  shows "execution_ends P x c i r y"
proof -
  let ?w = "we_next_workflow_id x" and ?t = "we_next_task_id x" and ?a = "we_next_artifact_id x"
  consider (no) e where "configuration_validate c = Inl e \<or> require_specification i x = Inl e \<or> admit_execution c x = Inl e"
      "r = Inl e" "y = x"
    | (yes) spec where "configuration_validate c = Inr ()" "require_specification i x = Inr spec" "admit_execution c x = Inr ()"
    using run by (cases "configuration_validate c"; cases "require_specification i x"; cases "admit_execution c x")
      (auto simp: workflow_execute_def)
  then show ?thesis
  proof cases
    case (no e)
    then show ?thesis by (auto intro: rejected)
  next
    case (yes spec)
    show ?thesis
    proof (cases "unat ?w + 1 < 2 ^ 64 \<and> unat ?t + 6 < 2 ^ 64 \<and> unat ?a + 6 < 2 ^ 64")
      case False
      with execute_without_identities [OF yes False, of P] run show ?thesis by (auto intro: exhausted [OF _ _ False])
    next
      case True
      have room: "room_for (stages_of x c) (reserved x)"
        using True by (intro admitted_room_for [OF inv yes(3)]) (simp_all add: reserved_def)
      have "ar_id spec \<notin> ArtifactId ` {?a, ?a + 1, ?a + 2, ?a + 3, ?a + 4, ?a + 5}"
        using require_specification_known [OF inv yes(2)] later_ids(1) [of ?a "artifact_id_get i"] True by auto
      then have valid: "validate_plan (workflow_plan spec ?t ?a c) = Inr (replicate 6 task_runtime_state_default)"
        by (intro workflow_plan_valid) simp
      obtain r' z states where stages: "execute_stages P (WorkflowId ?w) (workflow_graph spec ?t ?a c) spec
          (tasks_from ?t) (references_from ?a) c (reserved x, replicate 6 task_runtime_state_default) = (r', z, states)"
        by (metis prod_cases3)
      have "progress (stages_of x c) (reserved x) [] (reserved x) (replicate 6 task_runtime_state_default)"
        by (simp add: progress_def books_eq)
      from execute_stages_law [OF workflow_plan_fits [OF ok] room this stages]
      obtain outs where law: "outputs_consistent outs" "case r' of
          Inr verdict \<Rightarrow> length outs = 6 \<and> progress (stages_of x c) (reserved x) outs z states
            \<and> (\<exists>report. fst (last outs) = ContentFinalValidation report \<and> verdict = vr_verdict report)
        | Inl e \<Rightarrow> stopped (ports_answer P c) (stages_of x c) (reserved x) outs e z"
        unfolding execution_law_def length_workflow_stages by blast
      have "workflow_execute P i c x = (case (r', z, states) of (Inl e, y, _) \<Rightarrow> (Inl e, y)
        | (Inr verdict, y, _) \<Rightarrow> let outcome = workflow_outcome_of (WorkflowId ?w) (references_from ?a) verdict in
            bind_step (enqueue_event (completed_event x outcome) y) (\<lambda>_ y. (Inr outcome, y)))"
        using True by (simp only: execute_after_reservation [OF yes] valid sum.case stages)
      with run have result: "(r, y) = (case r' of Inl e \<Rightarrow> (Inl e, z)
        | Inr verdict \<Rightarrow> let outcome = workflow_outcome_of (WorkflowId ?w) (references_from ?a) verdict in
            bind_step (enqueue_event (completed_event x outcome) z) (\<lambda>_ y. (Inr outcome, y)))"
        by (simp split: sum.splits)
      show ?thesis
      proof (cases r')
        case (Inl e)
        with result True law room show ?thesis by (auto intro: failed)
      next
        case (Inr verdict)
        with law obtain report where report: "fst (last outs) = ContentFinalValidation report" "verdict = vr_verdict report"
          and six: "length outs = 6" and prog: "progress (stages_of x c) (reserved x) outs z states" by auto
        from report(1) six have "fst (outs ! 5) = ContentFinalValidation report" by (cases outs rule: rev_cases) (auto simp: nth_append)
        then show ?thesis
          using result True law(1) six report Inr prog enqueue_event_room [OF complete_event_room [OF room prog]]
          by (auto simp: Let_def progress_def books_eq reserved_def intro!: completed [OF room])
      qed
    qed
  qed
qed

subsection \<open>The invariant and the growth of the store\<close>

text \<open>An artifact of the store stays what it is.\<close>

definition store_extends :: "artifact_store \<Rightarrow> artifact_store \<Rightarrow> bool" where
  "store_extends s s' \<longleftrightarrow> (\<forall>i a. store_get s i = Some a \<longrightarrow> store_get s' i = Some a)"

lemma store_extends_refl [simp]: "store_extends s s"
  by (simp add: store_extends_def)

lemma stage_references_fit:
  assumes "content_fits sg content"
  shows "reference_fits (sg_output sg) content"
  using assms by (simp add: content_fits_def)

lemma outputs_nth:
  assumes "outputs_ok sgs outs" and "j < length outs"
  shows "content_fits (sgs ! j) (fst (outs ! j))" and "0 < snd (outs ! j)"
    and "snd (outs ! j) \<le> unat (tb_maximum_attempts (sg_budget (sgs ! j)))"
proof -
  have "(sgs ! j, outs ! j) \<in> set (zip sgs outs)" using assms by (auto simp: outputs_ok_def in_set_zip)
  moreover obtain content n where "outs ! j = (content, n)" by fastforce
  ultimately show "content_fits (sgs ! j) (fst (outs ! j))" "0 < snd (outs ! j)"
    "snd (outs ! j) \<le> unat (tb_maximum_attempts (sg_budget (sgs ! j)))"
    using assms(1) by (auto simp: outputs_ok_def)
qed

lemma outputs_extend:
  assumes "room_for sgs x" and "outputs_ok sgs outs"
  shows "store_extends (we_artifacts x) (outputs_store sgs outs (we_artifacts x))"
proof -
  have "length outs \<le> length sgs" "distinct (map output_id sgs)"
    "\<forall>sg \<in> set sgs. store_get (we_artifacts x) (output_id sg) = None"
    using assms by (simp_all add: room_for_def outputs_ok_def)
  then show ?thesis
    by (auto simp: store_extends_def outputs_store_get position_Some split: option.splits)
qed

lemma executor_inv_outputs:
  assumes inv: "executor_inv x" and room: "room_for (stages_of x c) (reserved x)"
    and ids: "unat (we_next_artifact_id x) + 6 < 2 ^ 64" and ok: "outputs_ok (stages_of x c) outs"
    and y: "books y = books ((reserved x)\<lparr>we_artifacts := outputs_store (stages_of x c) outs (we_artifacts x),
      we_events := evs\<rparr>)"
    and evs: "length evs \<le> wl_pending_events (we_limits x)"
  shows "executor_inv y" and "store_extends (we_artifacts x) (we_artifacts y)"
proof -
  let ?sgs = "stages_of x c" and ?a = "we_next_artifact_id x"
  have x0: "we_artifacts (reserved x) = we_artifacts x" by (simp add: reserved_def)
  have parts: "length outs \<le> length ?sgs" "distinct (map output_id ?sgs)" "bt_inv (as_artifacts (we_artifacts x))"
    "\<forall>sg \<in> set ?sgs. store_get (we_artifacts x) (output_id sg) = None"
    "length ?sgs \<le> store_remaining_capacity (we_artifacts x)"
    using room ok by (simp_all add: room_for_def outputs_ok_def x0)
  note size = outputs_store_size [OF parts(1-4)]
  have y': "we_artifacts y = outputs_store ?sgs outs (we_artifacts x)" "we_limits y = we_limits x" "we_events y = evs"
    "we_next_artifact_id y = ?a + 6"
    using y by (simp_all add: books_eq reserved_def)
  have "ar_id (art_reference a) = i \<and> reference_fits (art_reference a) (art_content a) \<and> artifact_id_get i < ?a + 6"
    if get: "store_get (outputs_store ?sgs outs (we_artifacts x)) i = Some a" for i a
  proof (cases "\<exists>j < length outs. position (\<lambda>sg. output_id sg = i) ?sgs = Some j")
    case True
    then obtain j where j: "j < length outs" "position (\<lambda>sg. output_id sg = i) ?sgs = Some j" by auto
    then have "i \<in> set (map output_id ?sgs)" using parts(1) by (auto simp: position_Some)
    then have "artifact_id_get i < ?a + 6" using later_ids(3) [OF ids] by (auto simp: execution_output_ids)
    have "store_get (outputs_store ?sgs outs (we_artifacts x)) i
        = Some \<lparr>art_reference = sg_output (?sgs ! j), art_content = fst (outs ! j)\<rparr>"
      using j by (simp add: outputs_store_get [OF parts(1,2)])
    moreover have "output_id (?sgs ! j) = i" using j(2) by (simp add: position_Some)
    ultimately show ?thesis
      using get outputs_nth(1) [OF ok j(1)] \<open>artifact_id_get i < ?a + 6\<close> by (simp add: content_fits_def)
  next
    case False
    with get have "store_get (we_artifacts x) i = Some a"
      by (auto simp: outputs_store_get [OF parts(1,2)] split: option.splits if_splits)
    with inv later_ids(2) [OF ids] show ?thesis by (auto simp: executor_inv_def)
  qed
  with inv size parts(1,5) evs y' show "executor_inv y"
    by (auto simp: executor_inv_def store_remaining_capacity_def split: if_splits)
  show "store_extends (we_artifacts x) (we_artifacts y)"
    using outputs_extend [OF room ok] by (simp add: y' x0)
qed

lemma outputs_events_bound:
  assumes room: "room_for sgs x" and ok: "outputs_ok sgs outs"
  shows "length outs < length sgs \<Longrightarrow> n \<le> unat (tb_maximum_attempts (sg_budget (sgs ! length outs))) \<Longrightarrow> 0 < n \<Longrightarrow>
      length (we_events x @ outputs_events sgs outs @ retry_events (sgs ! length outs) 1 n @ [e])
        \<le> wl_pending_events (we_limits x)"
    and "length (we_events x @ outputs_events sgs outs @ [e]) \<le> wl_pending_events (we_limits x)"
proof -
  let ?cost = "\<lambda>sg. 2 * unat (tb_maximum_attempts (sg_budget sg))" and ?k = "length outs"
  have total_cost: "sum_list (map ?cost sgs) = sum_list (map ?cost (take ?k sgs)) + sum_list (map ?cost (drop ?k sgs))"
    using sum_list_append [of "map ?cost (take ?k sgs)" "map ?cost (drop ?k sgs)"]
    by (simp only: map_append [symmetric] append_take_drop_id)
  have cap: "length (we_events x) + sum_list (map ?cost sgs) + 1 \<le> wl_pending_events (we_limits x)"
    using room by (simp add: room_for_def events_room_def)
  note events = outputs_events_length [OF ok]
  show "length (we_events x @ outputs_events sgs outs @ [e]) \<le> wl_pending_events (we_limits x)"
    using events cap total_cost by simp
  assume here: "?k < length sgs" and n: "n \<le> unat (tb_maximum_attempts (sg_budget (sgs ! ?k)))" "0 < n"
  have "drop ?k sgs = sgs ! ?k # drop (Suc ?k) sgs" using here by (simp add: Cons_nth_drop_Suc)
  then have "?cost (sgs ! ?k) \<le> sum_list (map ?cost (drop ?k sgs))" by simp
  with events cap total_cost n
  show "length (we_events x @ outputs_events sgs outs @ retry_events (sgs ! ?k) 1 n @ [e]) \<le> wl_pending_events (we_limits x)"
    by (simp add: length_retry_events)
qed

lemma executor_inv_execute:
  assumes inv: "executor_inv x" and ok: "configuration_ok c" and run: "workflow_execute P i c x = (r, y)"
  shows "executor_inv y \<and> store_extends (we_artifacts x) (we_artifacts y)"
  using workflow_execute_ends [OF assms]
proof cases
  case (rejected e)
  with inv show ?thesis by simp
next
  case (exhausted w t a kind)
  then have "i < we_next_artifact_id y" if "i < we_next_artifact_id x" for i using that by (auto simp: books_eq)
  with inv exhausted show ?thesis by (auto simp: executor_inv_def books_eq)
next
  case (failed outs e)
  let ?sgs = "stages_of x c"
  have x0: "we_artifacts (reserved x) = we_artifacts x" "we_events (reserved x) = we_events x" "we_limits (reserved x) = we_limits x"
    by (simp_all add: reserved_def)
  obtain n where stop: "outputs_ok ?sgs outs" "length outs < length ?sgs" "0 < n"
      "n \<le> unat (tb_maximum_attempts (sg_budget (?sgs ! length outs)))"
      "books y = books ((reserved x)\<lparr>we_artifacts := outputs_store ?sgs outs (we_artifacts x),
         we_events := we_events x @ outputs_events ?sgs outs @ retry_events (?sgs ! length outs) 1 n
           @ [StageStarted (sg_workflow (?sgs ! length outs)) (sg_stage (?sgs ! length outs))
                (attempt_of (?sgs ! length outs) n)]\<rparr>)"
    using failed(5) unfolding stopped_def x0 by blast
  from executor_inv_outputs [OF inv failed(2,3) stop(1,5)]
    outputs_events_bound(1) [OF failed(2) stop(1,2,4,3), unfolded x0]
  show ?thesis by blast
next
  case (completed outs report outcome)
  have x0: "we_events (reserved x) = we_events x" "we_limits (reserved x) = we_limits x" by (simp_all add: reserved_def)
  from executor_inv_outputs [OF inv completed(2,3,6,9)] outputs_events_bound(2) [OF completed(2,6), unfolded x0]
  show ?thesis by blast
qed

lemma insert_specification_law:
  "insert_specification s x = (case string_size s of
     None \<Rightarrow> (Inl SpecificationSizeOverflow, x)
   | Some required \<Rightarrow>
       if wl_specification_bytes (we_limits x) < required
       then (Inl (SpecificationCapacityExceeded required (wl_specification_bytes (we_limits x))), x)
       else if \<not> unat (we_next_artifact_id x) + 1 < 2 ^ 64 then (Inl (IdentifierExhausted IdentifierArtifact), x)
       else if store_get (we_artifacts x) (ArtifactId (we_next_artifact_id x)) \<noteq> None
       then (Inl (DuplicateArtifact (ArtifactId (we_next_artifact_id x))),
          x\<lparr>we_next_artifact_id := we_next_artifact_id x + 1\<rparr>)
       else if store_remaining_capacity (we_artifacts x) = 0
       then (Inl (ArtifactCapacityExceeded 1 0), x\<lparr>we_next_artifact_id := we_next_artifact_id x + 1\<rparr>)
       else (Inr (ArtifactId (we_next_artifact_id x)), x\<lparr>we_next_artifact_id := we_next_artifact_id x + 1,
          we_artifacts := store_put (make_reference ArtText RoleSpecification (ArtifactId (we_next_artifact_id x)))
            (ContentSpecification s) (we_artifacts x)\<rparr>))"
  by (simp add: insert_specification_def allocate_artifact_id_def allocate_id_law artifact_new_def
      validate_content_def store_insert_def store_put_def store_get_def Let_def make_reference_def split: option.splits)

lemma executor_inv_insert_specification:
  assumes inv: "executor_inv x" and run: "insert_specification s x = (r, y)"
  shows "executor_inv y \<and> store_extends (we_artifacts x) (we_artifacts y)"
proof -
  let ?a = "we_next_artifact_id x"
  have fresh: "store_get (we_artifacts x) (ArtifactId ?a) = None"
    using inv unfolding executor_inv_def by (metis artifact_id.sel less_irrefl not_Some_eq)
  let ?next = "x\<lparr>we_next_artifact_id := ?a + 1\<rparr>"
  let ?put = "?next\<lparr>we_artifacts := store_put
      (make_reference ArtText RoleSpecification (ArtifactId ?a)) (ContentSpecification s) (we_artifacts x)\<rparr>"
  have "y = snd (insert_specification s x)" using run by simp
  then have "y = x \<or> unat ?a + 1 < 2 ^ 64 \<and> y = ?next
      \<or> unat ?a + 1 < 2 ^ 64 \<and> store_remaining_capacity (we_artifacts x) \<noteq> 0 \<and> y = ?put"
    unfolding insert_specification_law fresh by (simp split: option.split)
  then show ?thesis
  proof (elim disjE conjE)
    assume "y = x"
    with inv show ?thesis by simp
  next
    assume 2: "unat ?a + 1 < 2 ^ 64" "y = ?next"
    then have "i < ?a + 1" if "i < ?a" for i using that by (simp add: word_less_nat_alt unat_word_ariths)
    with 2 inv show ?thesis by (auto simp: executor_inv_def)
  next
    assume 3: "unat ?a + 1 < 2 ^ 64" "store_remaining_capacity (we_artifacts x) \<noteq> 0" "y = ?put"
    then have "i < ?a + 1" if "i \<le> ?a" for i
      using that by (simp add: word_less_nat_alt word_le_nat_alt unat_word_ariths)
    with 3 inv fresh show ?thesis
      by (auto simp: executor_inv_def store_extends_def store_get_put reference_fits_def make_reference_def
          store_put_def store_get_def bt_inv_insert bt_len_insert_new store_remaining_capacity_def bt_get_insert less_imp_le
          split: if_splits)
  qed
qed

lemma executor_inv_reachable: "executor_reachable P x \<Longrightarrow> executor_inv x"
proof (induction rule: executor_reachable.induct)
  case (executor_fresh model validator limits)
  then show ?case
    by (simp add: executor_inv_def executor_new_def store_new_def store_get_def bt_inv_empty bt_get_empty bt_len_total)
next
  case (executor_step x call)
  show ?case
  proof (cases call)
    case (CallInsertSpecification s)
    with executor_step executor_inv_insert_specification [of x s] show ?thesis by (auto simp: prod_eq_iff)
  next
    case (CallExecute i c)
    with executor_step executor_inv_execute [of x c P i] show ?thesis by (auto simp: prod_eq_iff)
  next
    case CallPollEvent
    with executor_step show ?thesis by (auto simp: poll_event_def executor_inv_def split: list.splits)
  qed
qed

end
