(* ===== verification/Workflow_Contract.thy ===== *)
theory Workflow_Contract
  imports Workflow_Properties
begin

section \<open>Corrective workflows: the contract of the executor\<close>

text \<open>
  The claims about corrective workflows, and an executor whose model fails every other call.
\<close>

subsection \<open>An example\<close>

definition example_task_budget :: "u16 \<Rightarrow> task_budget" where
  "example_task_budget attempts =
    \<lparr>tb_maximum_input_tokens = 64, tb_maximum_output_tokens = 32, tb_maximum_attempts = attempts\<rparr>"

definition example_workflow :: corrective_workflow_configuration where
  "example_workflow =
    \<lparr>wc_initial_validation = KindCompileCheck, wc_model_policy = PolicyAnyCompatible,
     wc_model_budget = example_task_budget 2, wc_validation_budget = example_task_budget 1,
     wc_artifact_limits = \<lparr>wa_draft = 16, wa_raw_validation = 32, wa_normalized_diagnostics = 32,
       wa_review = 16, wa_revision = 16, wa_final_validation = 32\<rparr>\<rparr>"

text \<open>A model that fails the first attempt at every task, and a validator that finds nothing.\<close>

definition example_ports :: "(unit, unit) workflow_ports" where
  "example_ports =
    \<lparr>port_model = (\<lambda>request artifacts u.
       (if at_number (mr_attempt request) = tb_maximum_attempts (mr_budget request) then Inr [0x66] else Inl [0x65], u)),
     port_validator = (\<lambda>request artifacts u. (Inr \<lparr>vr_verdict = VerdictPassed, vr_diagnostics = []\<rparr>, u))\<rparr>"

abbreviation example_executor_limits :: workflow_executor_limits where
  "example_executor_limits \<equiv> \<lparr>wl_artifacts = 7, wl_pending_events = 19, wl_specification_bytes = 8\<rparr>"

definition example_executor :: "(unit, unit) workflow_executor" where
  "example_executor = executor_apply example_ports (CallInsertSpecification [0x73]) (executor_new () () example_executor_limits)"

abbreviation example_specification :: artifact_reference where
  "example_specification \<equiv> make_reference ArtText RoleSpecification (ArtifactId 1)"

lemma example_executor_reachable: "executor_reachable example_ports example_executor"
  unfolding example_executor_def by (rule executor_step [OF executor_fresh]) simp

lemma bt_len_empty: "bt_len bt_empty = 0"
  by (simp add: bt_len_total)

lemma example_executor_parts:
  "example_executor = (executor_new () () example_executor_limits)\<lparr>we_next_artifact_id := 2,
     we_artifacts := store_put example_specification (ContentSpecification [0x73]) (store_new 7)\<rparr>"
  by (simp add: example_executor_def insert_specification_law executor_new_def string_size_def string_len_def
      store_new_def store_get_def store_remaining_capacity_def bt_get_empty bt_len_empty utf8_encode_def utf8_encode_char_def)

lemma example_admitted:
  "configuration_ok example_workflow"
  "configuration_validate example_workflow = Inr ()"
  "require_specification (ArtifactId 1) example_executor = Inr example_specification"
  "admit_execution example_workflow example_executor = Inr ()"
  "ports_answer example_ports example_workflow"
proof -
  show "configuration_ok example_workflow" "configuration_validate example_workflow = Inr ()"
    by (simp_all add: configuration_ok_def example_workflow_def example_task_budget_def configuration_validate_def
        bind_ok_def map_err_def)
  show "require_specification (ArtifactId 1) example_executor = Inr example_specification"
    by (simp add: require_specification_def example_executor_parts store_get_put make_reference_def)
  show "admit_execution example_workflow example_executor = Inr ()"
    by (simp add: admit_execution_def example_executor_parts executor_new_def store_remaining_capacity_def store_put_def
        store_new_def bt_len_insert_new bt_inv_empty bt_get_empty bt_len_empty required_event_capacity_def
        retryable_task_event_capacity_def usize_checked_mul_def usize_checked_add_def example_workflow_def
        example_task_budget_def remaining_event_capacity_def bind_ok_def ok_or_def usize_max_def Let_def)
  show "ports_answer example_ports example_workflow"
    by (simp add: ports_answer_def example_ports_def example_workflow_def within_def string_size_def string_len_def
        raw_report_size_def normalized_report_size_def normalize_validation_report_def
        utf8_encode_def utf8_encode_char_def)
qed

lemma example_identities:
  "unat (we_next_workflow_id example_executor) + 1 < 2 ^ 64" "unat (we_next_task_id example_executor) + 6 < 2 ^ 64"
  "unat (we_next_artifact_id example_executor) + 6 < 2 ^ 64"
  by (simp_all add: example_executor_parts executor_new_def)

subsection \<open>Executions that complete\<close>

lemma execution_completes:
  assumes "executor_inv x" and "configuration_ok c" and "configuration_validate c = Inr ()"
    and "require_specification i x = Inr spec" and "admit_execution c x = Inr ()"
    and "unat (we_next_workflow_id x) + 1 < 2 ^ 64" and "unat (we_next_task_id x) + 6 < 2 ^ 64"
    and "unat (we_next_artifact_id x) + 6 < 2 ^ 64" and "ports_answer P c"
  obtains outcome y where "workflow_execute P i c x = (Inr outcome, y)"
proof -
  obtain r y where run: "workflow_execute P i c x = (r, y)" by fastforce
  from workflow_execute_ends [OF assms(1,2) run] have "\<exists>outcome. r = Inr outcome"
  proof cases
    case (failed outs e)
    with assms(9) show ?thesis by (simp add: stopped_def)
  qed (use assms in auto)
  with run that show thesis by blast
qed

text \<open>A payload is known by the reference it fits.\<close>

lemma content_of_role:
  "reference_fits (make_reference ArtText RoleDraft i) content \<longleftrightarrow> (\<exists>s. content = ContentDraft s)"
  "reference_fits (make_reference ArtText RoleReview i) content \<longleftrightarrow> (\<exists>s. content = ContentReview s)"
  "reference_fits (make_reference ArtText RoleRevision i) content \<longleftrightarrow> (\<exists>s. content = ContentRevision s)"
  by (cases content; simp add: reference_fits_def make_reference_def)+

lemma workflow_outputs:
  "map sg_output (execution_stages w t a c) =
    [make_reference ArtText RoleDraft (ArtifactId a), make_reference ArtDiagnostics RoleRawDiagnostics (ArtifactId (a + 1)),
     make_reference ArtDiagnostics RoleNormalizedDiagnostics (ArtifactId (a + 2)),
     make_reference ArtText RoleReview (ArtifactId (a + 3)), make_reference ArtText RoleRevision (ArtifactId (a + 4)),
     make_reference ArtDiagnostics RoleFinalValidation (ArtifactId (a + 5))]"
  by (simp add: workflow_stages_def Let_def references_from_def)

lemma list_of_six:
  assumes "length xs = 6"
  shows "xs = [xs ! 0, xs ! 1, xs ! 2, xs ! 3, xs ! 4, xs ! 5]"
  using assms by (intro nth_equalityI) (auto simp: less_Suc_eq numeral_eq_Suc)

lemma outputs_contents:
  assumes ok: "outputs_ok (execution_stages w t a c) outs" and six: "length outs = 6"
    and consistent: "outputs_consistent outs" and final: "fst (outs ! 5) = ContentFinalValidation report"
  obtains draft raw review revision where "map fst outs = [ContentDraft draft, ContentRawValidation raw,
    ContentNormalizedDiagnostics (normalize_validation_report raw), ContentReview review, ContentRevision revision,
    ContentFinalValidation report]"
proof -
  have fits: "reference_fits (map sg_output (execution_stages w t a c) ! j) (fst (outs ! j))" if "j < 6" for j
    using outputs_nth(1) [OF ok, of j] that six by (simp add: content_fits_def)
  obtain raw where raw: "fst (outs ! 1) = ContentRawValidation raw"
      "fst (outs ! 2) = ContentNormalizedDiagnostics (normalize_validation_report raw)"
    using consistent six by (auto simp: outputs_consistent_def)
  obtain draft review revision where "fst (outs ! 0) = ContentDraft draft" "fst (outs ! 3) = ContentReview review"
      "fst (outs ! 4) = ContentRevision revision"
    using fits [of 0] fits [of 3] fits [of 4] unfolding workflow_outputs by (auto simp: content_of_role)
  then have "map fst outs = [ContentDraft draft, ContentRawValidation raw,
    ContentNormalizedDiagnostics (normalize_validation_report raw), ContentReview review, ContentRevision revision,
    ContentFinalValidation report]"
    using raw final six by (subst list_of_six [OF six]) simp
  then show thesis by (rule that)
qed

lemma outputs_events_numbers: "outputs_events sgs outs
    = concat (map2 (\<lambda>sg n. stage_events sg 1 n) sgs (map snd outs))"
  by (simp add: outputs_events_def zip_map2 case_prod_unfold comp_def)

lemma completed_outputs:
  assumes inv: "executor_inv x" and ok: "configuration_ok c" and run: "workflow_execute P i c x = (Inr outcome, y)"
  obtains outs draft raw review revision final where "length outs = 6"
    and "map fst outs = [ContentDraft draft, ContentRawValidation raw,
      ContentNormalizedDiagnostics (normalize_validation_report raw), ContentReview review, ContentRevision revision,
      ContentFinalValidation final]"
    and "\<And>j. j < 6 \<Longrightarrow> content_fits (stages_of x c ! j) (fst (outs ! j)) \<and> 0 < snd (outs ! j)
      \<and> snd (outs ! j) \<le> unat (tb_maximum_attempts (sg_budget (stages_of x c ! j)))
      \<and> store_get (we_artifacts x) (output_id (stages_of x c ! j)) = None
      \<and> store_get (we_artifacts y) (output_id (stages_of x c ! j))
        = Some \<lparr>art_reference = sg_output (stages_of x c ! j), art_content = fst (outs ! j)\<rparr>"
    and "we_events y = we_events x @ outputs_events (stages_of x c) outs @ [completed_event x outcome]"
    and "outcome = workflow_outcome_of (WorkflowId (we_next_workflow_id x)) (references_from (we_next_artifact_id x))
      (vr_verdict final)"
proof -
  let ?sgs = "stages_of x c"
  from workflow_execute_ends [OF assms] obtain outs report where ends: "room_for ?sgs (reserved x)"
      "outputs_consistent outs" "length outs = 6" "outputs_ok ?sgs outs" "fst (outs ! 5) = ContentFinalValidation report"
      "outcome = workflow_outcome_of (WorkflowId (we_next_workflow_id x)) (references_from (we_next_artifact_id x))
        (vr_verdict report)"
      "books y = books ((reserved x)\<lparr>we_artifacts := outputs_store ?sgs outs (we_artifacts x),
          we_events := we_events x @ outputs_events ?sgs outs @ [completed_event x outcome]\<rparr>)"
    by cases auto
  obtain draft raw review revision where contents: "map fst outs = [ContentDraft draft, ContentRawValidation raw,
      ContentNormalizedDiagnostics (normalize_validation_report raw), ContentReview review, ContentRevision revision,
      ContentFinalValidation report]"
    using outputs_contents [OF ends(4,3,2,5)] .
  have distinct: "distinct (map output_id ?sgs)" using ends(1) by (simp add: room_for_def)
  have "store_get (we_artifacts x) (output_id (?sgs ! j)) = None
      \<and> store_get (we_artifacts y) (output_id (?sgs ! j))
        = Some \<lparr>art_reference = sg_output (?sgs ! j), art_content = fst (outs ! j)\<rparr>" if "j < 6" for j
    using that ends(1,3,7) position_distinct [OF distinct, of j]
    by (simp add: room_for_def reserved_def books_eq outputs_store_get [OF _ distinct])
  moreover have "we_events y = we_events x @ outputs_events ?sgs outs @ [completed_event x outcome]"
    using ends(7) by (simp add: books_eq)
  ultimately show thesis
    using that [OF ends(3) contents _ _ ends(6)] outputs_nth [OF ends(4)] ends(3) by simp
qed

text \<open>
  \<^bold>\<open>C15\<close>. An execution that returns an outcome has committed six new artifacts, one for each stage, at
  consecutive fresh identities: a draft, the raw report of the initial validation, that report
  normalised, a review, a revision and the final report, each within the limit of its stage. It
  has added the trace of every stage, with at most the attempts of its budget, and one last event
  for the outcome, which is accepted exactly when the final report passed.
\<close>

theorem workflow_execute_outcome:
  assumes "executor_reachable P x" and "configuration_ok c" and "workflow_execute P i c x = (Inr outcome, y)"
  shows "\<exists>draft raw review revision final ns.
    let sgs = stages_of x c; w = WorkflowId (we_next_workflow_id x);
        contents = [ContentDraft draft, ContentRawValidation raw,
          ContentNormalizedDiagnostics (normalize_validation_report raw), ContentReview review,
          ContentRevision revision, ContentFinalValidation final]
    in length ns = 6
     \<and> (\<forall>j < 6. 0 < ns ! j \<and> ns ! j \<le> unat (tb_maximum_attempts (sg_budget (sgs ! j)))
         \<and> content_fits (sgs ! j) (contents ! j)
         \<and> store_get (we_artifacts x) (output_id (sgs ! j)) = None
         \<and> store_get (we_artifacts y) (output_id (sgs ! j))
             = Some \<lparr>art_reference = sg_output (sgs ! j), art_content = contents ! j\<rparr>)
     \<and> we_events y = we_events x @ concat (map2 (\<lambda>sg n. stage_events sg 1 n) sgs ns)
         @ [WorkflowCompleted w (outcome_status outcome) (output_id (sgs ! 4)) (output_id (sgs ! 5))]
     \<and> outcome = (case vr_verdict final of
         VerdictPassed \<Rightarrow> OutcomeAccepted w (output_id (sgs ! 4)) (output_id (sgs ! 5))
       | VerdictRejected \<Rightarrow> OutcomeRejected w (output_id (sgs ! 4)) (output_id (sgs ! 5)))"
proof -
  obtain outs draft raw review revision final where outs: "length outs = 6"
    "map fst outs = [ContentDraft draft, ContentRawValidation raw,
      ContentNormalizedDiagnostics (normalize_validation_report raw), ContentReview review, ContentRevision revision,
      ContentFinalValidation final]"
    and each: "\<And>j. j < 6 \<Longrightarrow> content_fits (stages_of x c ! j) (fst (outs ! j)) \<and> 0 < snd (outs ! j)
      \<and> snd (outs ! j) \<le> unat (tb_maximum_attempts (sg_budget (stages_of x c ! j)))
      \<and> store_get (we_artifacts x) (output_id (stages_of x c ! j)) = None
      \<and> store_get (we_artifacts y) (output_id (stages_of x c ! j))
        = Some \<lparr>art_reference = sg_output (stages_of x c ! j), art_content = fst (outs ! j)\<rparr>"
    and events: "we_events y = we_events x @ outputs_events (stages_of x c) outs @ [completed_event x outcome]"
    and outcome: "outcome = workflow_outcome_of (WorkflowId (we_next_workflow_id x))
      (references_from (we_next_artifact_id x)) (vr_verdict final)"
    using completed_outputs [OF executor_inv_reachable [OF assms(1)] assms(2,3)] by blast
  have contents: "fst (outs ! j) = [ContentDraft draft, ContentRawValidation raw,
      ContentNormalizedDiagnostics (normalize_validation_report raw), ContentReview review, ContentRevision revision,
      ContentFinalValidation final] ! j" if "j < 6" for j
    using that outs(1) nth_map [of j outs fst] unfolding outs(2) by simp
  have ids: "output_id (stages_of x c ! 4) = ar_id (rf_revision (references_from (we_next_artifact_id x)))"
    "output_id (stages_of x c ! 5) = ar_id (rf_final_validation (references_from (we_next_artifact_id x)))"
    by (simp_all add: workflow_stages_def Let_def)
  show ?thesis
    unfolding Let_def
    by (rule exI [of _ draft], rule exI [of _ raw], rule exI [of _ review], rule exI [of _ revision],
        rule exI [of _ final], rule exI [of _ "map snd outs"])
      (use each contents outs(1) in \<open>simp add: events completed_event_def outputs_events_numbers ids outcome
        outcome_parts workflow_outcome_of_def split: validation_verdict.split\<close>)
qed

lemma workflow_execute_outcome_witness:
  "\<exists>outcome y draft raw review revision final ns.
    workflow_execute example_ports (ArtifactId 1) example_workflow example_executor = (Inr outcome, y)
  \<and> (let sgs = stages_of example_executor example_workflow; w = WorkflowId 1;
        contents = [ContentDraft draft, ContentRawValidation raw,
          ContentNormalizedDiagnostics (normalize_validation_report raw), ContentReview review,
          ContentRevision revision, ContentFinalValidation final]
    in length ns = 6
     \<and> (\<forall>j < 6. 0 < ns ! j \<and> ns ! j \<le> unat (tb_maximum_attempts (sg_budget (sgs ! j)))
         \<and> content_fits (sgs ! j) (contents ! j)
         \<and> store_get (we_artifacts example_executor) (output_id (sgs ! j)) = None
         \<and> store_get (we_artifacts y) (output_id (sgs ! j))
             = Some \<lparr>art_reference = sg_output (sgs ! j), art_content = contents ! j\<rparr>)
     \<and> we_events y = we_events example_executor @ concat (map2 (\<lambda>sg n. stage_events sg 1 n) sgs ns)
         @ [WorkflowCompleted w (outcome_status outcome) (output_id (sgs ! 4)) (output_id (sgs ! 5))]
     \<and> outcome = (case vr_verdict final of
         VerdictPassed \<Rightarrow> OutcomeAccepted w (output_id (sgs ! 4)) (output_id (sgs ! 5))
       | VerdictRejected \<Rightarrow> OutcomeRejected w (output_id (sgs ! 4)) (output_id (sgs ! 5))))"
proof -
  obtain outcome y where run: "workflow_execute example_ports (ArtifactId 1) example_workflow example_executor
      = (Inr outcome, y)"
    using execution_completes [OF executor_inv_reachable [OF example_executor_reachable] example_admitted(1-4)
        example_identities example_admitted(5)] .
  have "we_next_workflow_id example_executor = 1" by (simp add: example_executor_parts executor_new_def)
  with run workflow_execute_outcome [OF example_executor_reachable example_admitted(1) run] show ?thesis
    by (intro exI [of _ outcome] exI [of _ y]) (simp only: simp_thms ex_simps)
qed

text \<open>
  \<^bold>\<open>C17\<close>. An execution that is admitted, with identities left and ports that answer on the last
  attempt of a task at the latest and within the limits of the configuration, returns an outcome.
\<close>

theorem workflow_execute_completes:
  assumes "executor_reachable P x" and "configuration_ok c" and "configuration_validate c = Inr ()"
    and "require_specification i x = Inr spec" and "admit_execution c x = Inr ()"
    and "unat (we_next_workflow_id x) + 1 < 2 ^ 64" and "unat (we_next_task_id x) + 6 < 2 ^ 64"
    and "unat (we_next_artifact_id x) + 6 < 2 ^ 64" and "ports_answer P c"
  shows "\<exists>outcome y. workflow_execute P i c x = (Inr outcome, y)"
  using execution_completes [OF executor_inv_reachable [OF assms(1)] assms(2-9)] by blast

lemma workflow_execute_completes_witness:
  "\<exists>outcome y. workflow_execute example_ports (ArtifactId 1) example_workflow example_executor = (Inr outcome, y)"
  by (rule workflow_execute_completes [OF example_executor_reachable example_admitted(1-4) example_identities
        example_admitted(5)])

subsection \<open>Executions that end with an error\<close>

lemma no_completion_in_stages: "WorkflowCompleted w status revision report \<notin> set (outputs_events sgs outs)"
  "WorkflowCompleted w status revision report \<notin> set (retry_events sg k n)"
  by (auto simp: outputs_events_def stage_events_def retry_events_def)

text \<open>
  \<^bold>\<open>C16\<close>. An execution that ends with an error was refused before it changed anything (by its
  configuration, its specification or the capacity of the executor), or ran out of identities and
  left the artifacts and the events alone, or stopped at one of its six stages because a port
  failed on the last attempt or answered more than a limit. Then exactly the outputs of the
  stages before it are committed, and no event announces a completion. No other error exists:
  the graph of the workflow is valid, the capacity it was admitted with is enough, and no
  identity is used twice.
\<close>

theorem workflow_execute_errors:
  assumes "executor_reachable P x" and "configuration_ok c" and "workflow_execute P i c x = (Inl e, y)"
  shows "y = x \<and> (configuration_validate c = Inl e \<or> require_specification i x = Inl e \<or> admit_execution c x = Inl e)
    \<or> (\<exists>kind. e = IdentifierExhausted kind \<and> we_artifacts y = we_artifacts x \<and> we_events y = we_events x)
    \<or> (\<exists>k < 6. stage_failure (stages_of x c ! k) e \<and> \<not> ports_answer P c
        \<and> (\<forall>j < 6. store_get (we_artifacts y) (output_id (stages_of x c ! j)) \<noteq> None \<longleftrightarrow> j < k)
        \<and> (\<exists>evs attempt. we_events y = we_events x @ evs
              @ [StageStarted (sg_workflow (stages_of x c ! k)) (sg_stage (stages_of x c ! k)) attempt]
            \<and> (\<forall>w status revision report. WorkflowCompleted w status revision report \<notin> set evs)))"
  using workflow_execute_ends [OF executor_inv_reachable [OF assms(1)] assms(2,3)]
proof cases
  case (failed outs)
  let ?sgs = "stages_of x c" and ?k = "length outs"
  have distinct: "distinct (map output_id ?sgs)"
    and fresh: "\<forall>sg \<in> set ?sgs. store_get (we_artifacts x) (output_id sg) = None"
    using failed(1) by (simp_all add: room_for_def reserved_def)
  obtain n where stop: "\<not> ports_answer P c" "outputs_ok ?sgs outs" "?k < length ?sgs" "stage_failure (?sgs ! ?k) e"
      "books y = books ((reserved x)\<lparr>we_artifacts := outputs_store ?sgs outs (we_artifacts x),
         we_events := we_events x @ outputs_events ?sgs outs @ retry_events (?sgs ! ?k) 1 n
           @ [StageStarted (sg_workflow (?sgs ! ?k)) (sg_stage (?sgs ! ?k)) (attempt_of (?sgs ! ?k) n)]\<rparr>)"
    using failed(4) by (auto simp: stopped_def reserved_def)
  have "store_get (we_artifacts y) (output_id (?sgs ! j)) \<noteq> None \<longleftrightarrow> j < ?k" if "j < 6" for j
    using that stop(3,5) fresh position_distinct [OF distinct, of j]
    by (simp add: books_eq outputs_store_get [OF _ distinct])
  moreover have "we_events y = we_events x @ (outputs_events ?sgs outs @ retry_events (?sgs ! ?k) 1 n)
      @ [StageStarted (sg_workflow (?sgs ! ?k)) (sg_stage (?sgs ! ?k)) (attempt_of (?sgs ! ?k) n)]"
    using stop(5) by (simp add: books_eq)
  moreover have "\<forall>w status revision report. WorkflowCompleted w status revision report
      \<notin> set (outputs_events ?sgs outs @ retry_events (?sgs ! ?k) 1 n)"
    by (simp add: no_completion_in_stages)
  ultimately show ?thesis using stop(1,3,4) unfolding length_workflow_stages by blast
qed (auto simp: books_eq)

lemma workflow_execute_errors_witness:
  "workflow_execute example_ports (ArtifactId 9) example_workflow example_executor
    = (Inl (UnknownSpecification (ArtifactId 9)), example_executor)"
proof -
  have "store_get (we_artifacts example_executor) (ArtifactId 9) = None"
    by (simp add: example_executor_parts store_get_put make_reference_def)
      (simp add: store_new_def store_get_def bt_get_empty)
  then have "fst (workflow_execute example_ports (ArtifactId 9) example_workflow example_executor)
      = Inl (UnknownSpecification (ArtifactId 9))"
    by (simp add: workflow_execute_def example_admitted(2) require_specification_def)
  then obtain y where run: "workflow_execute example_ports (ArtifactId 9) example_workflow example_executor
      = (Inl (UnknownSpecification (ArtifactId 9)), y)"
    by (metis prod.collapse)
  from workflow_execute_errors [OF example_executor_reachable example_admitted(1) run]
  have "y = example_executor" by (auto simp: stage_failure_def)
  with run show ?thesis by simp
qed

subsection \<open>The store\<close>

text \<open>
  \<^bold>\<open>C18\<close>. In every executor a client can reach, a stored artifact lies under its own identity, has the
  kind and the role its payload variant demands, and has an identity that will not be given out
  again; and every call leaves it in the store as it is.
\<close>

theorem workflow_store_typed:
  assumes "executor_reachable P x" and "executor_call_ok call" and "store_get (we_artifacts x) i = Some a"
  shows "ar_id (art_reference a) = i
    \<and> (ar_kind (art_reference a), ar_role (art_reference a)) = content_contract (art_content a)
    \<and> artifact_id_get i < we_next_artifact_id x
    \<and> store_get (we_artifacts (executor_apply P call x)) i = Some a"
proof -
  have inv: "executor_inv x" by (rule executor_inv_reachable [OF assms(1)])
  have "store_extends (we_artifacts x) (we_artifacts (executor_apply P call x))"
    using assms(2)
  proof (cases call)
    case (CallInsertSpecification s)
    with executor_inv_insert_specification [OF inv, of s] show ?thesis by (auto simp: prod_eq_iff)
  next
    case (CallExecute j c)
    with assms(2) executor_inv_execute [OF inv, of c P j] show ?thesis by (auto simp: prod_eq_iff)
  qed (auto simp: poll_event_def split: list.split)
  with assms(3) inv show ?thesis by (auto simp: store_extends_def executor_inv_def reference_fits_def)
qed

lemma workflow_store_typed_witness:
  "store_get (we_artifacts (executor_apply example_ports (CallExecute (ArtifactId 1) example_workflow) example_executor))
    (ArtifactId 1) = Some \<lparr>art_reference = example_specification, art_content = ContentSpecification [0x73]\<rparr>"
proof -
  have "store_get (we_artifacts example_executor) (ArtifactId 1)
      = Some \<lparr>art_reference = example_specification, art_content = ContentSpecification [0x73]\<rparr>"
    by (simp add: example_executor_parts store_get_put make_reference_def)
  from workflow_store_typed [OF example_executor_reachable _ this] example_admitted(1) show ?thesis
    by (simp del: executor_apply.simps)
qed

subsection \<open>Sizes\<close>

text \<open>The size of a payload without a bound: bytes of text, one byte for a tag, four for a number.\<close>

definition optional_bytes :: "('a \<Rightarrow> nat) \<Rightarrow> 'a option \<Rightarrow> nat" where
  "optional_bytes f v = 1 + (case v of None \<Rightarrow> 0 | Some v \<Rightarrow> f v)"

definition location_bytes :: "diagnostic_location \<Rightarrow> nat" where
  "location_bytes location = optional_bytes string_len (loc_path location)
     + optional_bytes (\<lambda>_. 4) (loc_line location) + optional_bytes (\<lambda>_. 4) (loc_column location)"

definition finding_bytes :: "rust_string option \<Rightarrow> rust_string \<Rightarrow> diagnostic_location option \<Rightarrow> nat" where
  "finding_bytes code message location =
    1 + optional_bytes string_len code + string_len message + optional_bytes location_bytes location"

fun content_bytes :: "artifact_content \<Rightarrow> nat" where
  "content_bytes (ContentSpecification s) = string_len s"
| "content_bytes (ContentDraft s) = string_len s"
| "content_bytes (ContentReview s) = string_len s"
| "content_bytes (ContentRevision s) = string_len s"
| "content_bytes (ContentRawValidation report) =
     1 + (\<Sum>d \<leftarrow> vr_diagnostics report. finding_bytes (rd_code d) (rd_message d) (rd_location d))"
| "content_bytes (ContentFinalValidation report) =
     1 + (\<Sum>d \<leftarrow> vr_diagnostics report. finding_bytes (rd_code d) (rd_message d) (rd_location d))"
| "content_bytes (ContentNormalizedDiagnostics report) =
     1 + (\<Sum>d \<leftarrow> nr_diagnostics report. finding_bytes (dg_code d) (dg_message d) (dg_location d))"

definition u64_of :: "nat \<Rightarrow> u64 option" where
  "u64_of n = (if n < 2 ^ 64 then Some (of_nat n) else None)"

lemma u64_add: "Option.bind (u64_of m) (\<lambda>a. Option.bind (u64_of n) (checked_add a)) = u64_of (m + n)"
proof (cases "m < 2 ^ 64 \<and> n < 2 ^ 64")
  case True
  then have "unat (of_nat m :: u64) = m" "unat (of_nat n :: u64) = n"
    by (simp_all add: unat_of_nat take_bit_nat_eq_self)
  with True show ?thesis by (simp add: u64_of_def checked_add_def)
qed (auto simp: u64_of_def)

lemma u64_small: "n < 2 ^ 64 \<Longrightarrow> Some (of_nat n) = u64_of n"
  by (simp add: u64_of_def)

lemma u64_add_left: "n < 2 ^ 64 \<Longrightarrow> Option.bind (u64_of m) (checked_add (of_nat n)) = u64_of (n + m)"
  using u64_add [of n m] by (simp add: u64_of_def)

lemma u64_add_right: "n < 2 ^ 64 \<Longrightarrow> Option.bind (u64_of m) (\<lambda>a. checked_add a (of_nat n)) = u64_of (m + n)"
  using u64_add [of m n] by (simp add: u64_of_def)

lemma string_size_bytes: "string_size s = u64_of (string_len s)"
  by (simp add: string_size_def u64_of_def)

lemma optional_string_size_bytes: "optional_string_size s = u64_of (optional_bytes string_len s)"
proof -
  have "(case s of None \<Rightarrow> Some 0 | Some s \<Rightarrow> string_size s) = u64_of (case s of None \<Rightarrow> 0 | Some s \<Rightarrow> string_len s)"
    by (simp add: string_size_bytes u64_of_def split: option.split)
  then show ?thesis
    using u64_add_left [of 1] by (simp add: optional_string_size_def optional_bytes_def)
qed

lemma optional_u32_size_bytes: "optional_u32_size n = of_nat (optional_bytes (\<lambda>_. 4) n)" "optional_bytes (\<lambda>_. 4) n < 2 ^ 64"
  by (simp_all add: optional_u32_size_def optional_bytes_def split: option.split)

lemma location_size_bytes: "optional_location_size location = u64_of (optional_bytes location_bytes location)"
proof (cases location)
  case None
  then show ?thesis by (simp add: optional_location_size_def optional_bytes_def u64_of_def)
next
  case (Some l)
  have "Option.bind (u64_of n) (checked_add 1) = u64_of (1 + n)" for n
    using u64_add_left [of 1 n] by simp
  then show ?thesis
    by (simp only: Some optional_location_size_def option.case optional_string_size_bytes optional_u32_size_bytes(1)
        u64_add_right [OF optional_u32_size_bytes(2)] Option.bind_assoc [symmetric])
      (simp add: optional_bytes_def location_bytes_def add.assoc)
qed

lemma finding_size_bytes: "finding_size code message location = u64_of (finding_bytes code message location)"
proof -
  have "Option.bind (u64_of n) (checked_add 1) = u64_of (1 + n)" for n
    using u64_add_left [of 1 n] by simp
  then show ?thesis
    by (simp only: finding_size_def optional_string_size_bytes string_size_bytes location_size_bytes u64_add
        Option.bind_assoc [symmetric] finding_bytes_def)
qed

lemma try_sum_bytes:
  assumes "\<And>d. size_of d = u64_of (bytes d)"
  shows "Option.bind (u64_of n) (\<lambda>acc. try_sum size_of acc ds) = u64_of (n + (\<Sum>d \<leftarrow> ds. bytes d))"
proof (induction ds arbitrary: n)
  case Nil
  then show ?case by (cases "u64_of n") simp_all
next
  case (Cons d ds)
  have "Option.bind (u64_of n) (\<lambda>acc. try_sum size_of acc (d # ds))
      = Option.bind (Option.bind (u64_of n) (\<lambda>acc. Option.bind (u64_of (bytes d)) (checked_add acc)))
          (\<lambda>acc. try_sum size_of acc ds)"
    by (simp add: assms)
  also have "\<dots> = u64_of (n + bytes d + (\<Sum>d \<leftarrow> ds. bytes d))" by (simp only: u64_add Cons.IH)
  finally show ?case by (simp add: add.assoc)
qed

text \<open>
  The checked accounting of a payload is exact: it is the number of its bytes, tags included,
  or nothing exactly when that number does not fit into 64 bits.
\<close>

theorem content_size_exact:
  "artifact_content_size content
    = (if content_bytes content < 2 ^ 64 then Some (of_nat (content_bytes content)) else None)"
proof -
  have raw: "raw_report_size report = u64_of (1 + (\<Sum>d \<leftarrow> vr_diagnostics report.
      finding_bytes (rd_code d) (rd_message d) (rd_location d)))" for report
    using try_sum_bytes [of raw_diagnostic_size "\<lambda>d. finding_bytes (rd_code d) (rd_message d) (rd_location d)" 1]
    by (simp add: raw_report_size_def raw_diagnostic_size_def finding_size_bytes u64_of_def)
  have normal: "normalized_report_size report = u64_of (1 + (\<Sum>d \<leftarrow> nr_diagnostics report.
      finding_bytes (dg_code d) (dg_message d) (dg_location d)))" for report
    using try_sum_bytes [of diagnostic_size "\<lambda>d. finding_bytes (dg_code d) (dg_message d) (dg_location d)" 1]
    by (simp add: normalized_report_size_def diagnostic_size_def finding_size_bytes u64_of_def)
  have "artifact_content_size content = u64_of (content_bytes content)"
    by (cases content) (simp_all only: artifact_content_size.simps content_bytes.simps string_size_bytes raw normal)
  then show ?thesis by (simp only: u64_of_def)
qed

end
