(* ===== verification/Storage.thy ===== *)
theory Storage
  imports Rust_Text
begin

section \<open>Persistent records\<close>

text \<open>
  \<open>crates/adapters/redb-storage/src/lib.rs\<close>: the binary records of the settings and of the model
  catalogue, and the transactions around them. The database package is a parameter: \<open>redb\<close> has
  one function for each call the code makes, each may fail with an error of the package, and a
  transaction that is dropped leaves the database as it was.
\<close>

subsection \<open>Records\<close>

record application_settings =
  se_default_repository :: rust_string
  se_default_revision :: rust_string
  se_maximum_host_memory_bytes :: u64
  se_maximum_device_memory_bytes :: u64
  se_drain_timeout_milliseconds :: u64

datatype stored_scalar_type = StoredF32 | StoredF16 | StoredBf16

record model_record =
  mo_name :: rust_string
  mo_repository :: rust_string
  mo_revision :: rust_string
  mo_scalar_type :: stored_scalar_type
  mo_last_used_unix_milliseconds :: u64

datatype storage_field = FieldModelName | FieldRepository | FieldRevision | FieldDrainTimeout

datatype 'e storage_error =
    StorageDatabase 'e
  | InvalidField storage_field
  | InvalidRecordKind
  | UnsupportedVersion u16
  | TruncatedRecord
  | StringTooLong usize
  | StorageInvalidUtf8 "u8 list"
  | InvalidScalarType u8
  | TrailingBytes

definition validate_non_empty :: "rust_string \<Rightarrow> storage_field \<Rightarrow> 'e storage_error + unit" where
  "validate_non_empty text field = (if string_trim text = [] then Inl (InvalidField field) else Inr ())"

definition settings_validate :: "application_settings \<Rightarrow> 'e storage_error + unit" where
  "settings_validate settings =
    bind_ok (validate_non_empty (se_default_repository settings) FieldRepository) (\<lambda>_.
    bind_ok (validate_non_empty (se_default_revision settings) FieldRevision) (\<lambda>_.
    if se_drain_timeout_milliseconds settings = 0 then Inl (InvalidField FieldDrainTimeout) else Inr ()))"

definition model_validate :: "model_record \<Rightarrow> 'e storage_error + unit" where
  "model_validate model =
    bind_ok (validate_non_empty (mo_name model) FieldModelName) (\<lambda>_.
    bind_ok (validate_non_empty (mo_repository model) FieldRepository) (\<lambda>_.
    validate_non_empty (mo_revision model) FieldRevision))"

subsection \<open>Encoding\<close>

definition settings_magic :: "u8 list" where
  "settings_magic = [0x4C, 0x41, 0x53, 0x31]"

definition model_magic :: "u8 list" where
  "model_magic = [0x4C, 0x41, 0x4D, 0x31]"

definition record_version :: u16 where
  "record_version = 1"

definition encode_string :: "u8 list \<Rightarrow> rust_string \<Rightarrow> 'e storage_error + u8 list" where
  "encode_string output text =
    (if string_len text < 2 ^ 32
     then Inr (output @ word_bytes 4 (of_nat (string_len text) :: u32) @ utf8_encode text)
     else Inl (StringTooLong (string_len text)))"

definition encode_settings :: "application_settings \<Rightarrow> 'e storage_error + u8 list" where
  "encode_settings settings =
    bind_ok (encode_string (settings_magic @ word_bytes 2 record_version) (se_default_repository settings)) (\<lambda>output.
    bind_ok (encode_string output (se_default_revision settings)) (\<lambda>output.
    Inr (output @ word_bytes 8 (se_maximum_host_memory_bytes settings)
      @ word_bytes 8 (se_maximum_device_memory_bytes settings)
      @ word_bytes 8 (se_drain_timeout_milliseconds settings))))"

fun scalar_code :: "stored_scalar_type \<Rightarrow> u8" where
  "scalar_code StoredF32 = 0"
| "scalar_code StoredF16 = 1"
| "scalar_code StoredBf16 = 2"

definition encode_model :: "model_record \<Rightarrow> 'e storage_error + u8 list" where
  "encode_model model =
    bind_ok (encode_string (model_magic @ word_bytes 2 record_version) (mo_name model)) (\<lambda>output.
    bind_ok (encode_string output (mo_repository model)) (\<lambda>output.
    bind_ok (encode_string output (mo_revision model)) (\<lambda>output.
    Inr (output @ [scalar_code (mo_scalar_type model)]
      @ word_bytes 8 (mo_last_used_unix_milliseconds model)))))"

subsection \<open>Decoding\<close>

record decoder =
  de_bytes :: "u8 list"
  de_offset :: usize

definition decoder_new :: "u8 list \<Rightarrow> u8 list \<Rightarrow> 'e storage_error + decoder" where
  "decoder_new bytes expected_magic =
    bind_ok (ok_or (bytes_range bytes 0 4) TruncatedRecord) (\<lambda>magic.
    if magic \<noteq> expected_magic then Inl InvalidRecordKind
    else
    bind_ok (ok_or (bytes_range bytes 4 6) TruncatedRecord) (\<lambda>version_bytes.
    let version = word_of_bytes version_bytes in
    if version \<noteq> record_version then Inl (UnsupportedVersion version)
    else Inr \<lparr>de_bytes = bytes, de_offset = 6\<rparr>))"

definition decode_u8 :: "decoder \<Rightarrow> ('e storage_error + u8) \<times> decoder" where
  "decode_u8 d =
    (case slice_get (de_bytes d) (de_offset d) of
       None \<Rightarrow> (Inl TruncatedRecord, d)
     | Some byte \<Rightarrow>
         (case usize_checked_add (de_offset d) 1 of
            None \<Rightarrow> (Inl TruncatedRecord, d)
          | Some offset \<Rightarrow> (Inr byte, d\<lparr>de_offset := offset\<rparr>)))"

text \<open>\<open>Decoder::u32\<close> and \<open>Decoder::u64\<close>, which differ in the number of bytes.\<close>

definition decode_word :: "usize \<Rightarrow> decoder \<Rightarrow> ('e storage_error + 'a::len word) \<times> decoder" where
  "decode_word width d =
    (case usize_checked_add (de_offset d) width of
       None \<Rightarrow> (Inl TruncatedRecord, d)
     | Some stop \<Rightarrow>
         (case bytes_range (de_bytes d) (de_offset d) stop of
            None \<Rightarrow> (Inl TruncatedRecord, d)
          | Some bytes \<Rightarrow> (Inr (word_of_bytes bytes), d\<lparr>de_offset := stop\<rparr>)))"

definition decode_u32 :: "decoder \<Rightarrow> ('e storage_error + u32) \<times> decoder" where
  "decode_u32 = decode_word 4"

definition decode_u64 :: "decoder \<Rightarrow> ('e storage_error + u64) \<times> decoder" where
  "decode_u64 = decode_word 8"

definition decode_string :: "decoder \<Rightarrow> ('e storage_error + rust_string) \<times> decoder" where
  "decode_string d =
    bind_step (decode_u32 d) (\<lambda>size d.
    (case usize_checked_add (de_offset d) (unat size) of
       None \<Rightarrow> (Inl TruncatedRecord, d)
     | Some stop \<Rightarrow>
         (case bytes_range (de_bytes d) (de_offset d) stop of
            None \<Rightarrow> (Inl TruncatedRecord, d)
          | Some bytes \<Rightarrow>
              (map_err StorageInvalidUtf8 (string_from_utf8 bytes), d\<lparr>de_offset := stop\<rparr>))))"

definition decoder_finish :: "decoder \<Rightarrow> 'e storage_error + unit" where
  "decoder_finish d = (if de_offset d = length (de_bytes d) then Inr () else Inl TrailingBytes)"

definition scalar_of_code :: "u8 \<Rightarrow> 'e storage_error + stored_scalar_type" where
  "scalar_of_code code =
    (if code = 0 then Inr StoredF32
     else if code = 1 then Inr StoredF16
     else if code = 2 then Inr StoredBf16
     else Inl (InvalidScalarType code))"

definition decode_settings_fields :: "decoder \<Rightarrow> ('e storage_error + application_settings) \<times> decoder" where
  "decode_settings_fields d =
    bind_step (decode_string d) (\<lambda>repository d.
    bind_step (decode_string d) (\<lambda>revision d.
    bind_step (decode_u64 d) (\<lambda>host d.
    bind_step (decode_u64 d) (\<lambda>device d.
    bind_step (decode_u64 d) (\<lambda>drain d.
    (Inr \<lparr>se_default_repository = repository, se_default_revision = revision,
       se_maximum_host_memory_bytes = host, se_maximum_device_memory_bytes = device,
       se_drain_timeout_milliseconds = drain\<rparr>, d))))))"

definition decode_model_fields :: "decoder \<Rightarrow> ('e storage_error + model_record) \<times> decoder" where
  "decode_model_fields d =
    bind_step (decode_string d) (\<lambda>name d.
    bind_step (decode_string d) (\<lambda>repository d.
    bind_step (decode_string d) (\<lambda>revision d.
    bind_step (decode_u8 d) (\<lambda>code d.
    bind_step (scalar_of_code code, d) (\<lambda>scalar d.
    bind_step (decode_u64 d) (\<lambda>last_used d.
    (Inr \<lparr>mo_name = name, mo_repository = repository, mo_revision = revision,
       mo_scalar_type = scalar, mo_last_used_unix_milliseconds = last_used\<rparr>, d)))))))"

text \<open>What \<open>decode_settings\<close> and \<open>decode_model\<close> do around the fields of their record.\<close>

definition decode_record ::
    "u8 list \<Rightarrow> (decoder \<Rightarrow> ('e storage_error + 'a) \<times> decoder) \<Rightarrow> ('a \<Rightarrow> 'e storage_error + unit)
       \<Rightarrow> u8 list \<Rightarrow> 'e storage_error + 'a" where
  "decode_record magic read_fields validate bytes =
    bind_ok (decoder_new bytes magic) (\<lambda>d.
    (case read_fields d of
       (r, d) \<Rightarrow> bind_ok r (\<lambda>v. bind_ok (decoder_finish d) (\<lambda>_. bind_ok (validate v) (\<lambda>_. Inr v)))))"

definition decode_settings :: "u8 list \<Rightarrow> 'e storage_error + application_settings" where
  "decode_settings = decode_record settings_magic decode_settings_fields settings_validate"

definition decode_model :: "u8 list \<Rightarrow> 'e storage_error + model_record" where
  "decode_model = decode_record model_magic decode_model_fields model_validate"

subsection \<open>The database\<close>

datatype table_definition = SettingsTable | ModelsTable

text \<open>
  The calls to the package: write transactions, read transactions, their tables, and the path a
  database is created at.
\<close>

record ('path, 'db, 'txn, 'snap, 'tbl, 'e) redb =
  rb_create :: "'path \<Rightarrow> 'e + 'db"
  rb_begin_write :: "'db \<Rightarrow> 'e + 'txn"
  rb_open_table :: "table_definition \<Rightarrow> 'txn \<Rightarrow> 'e + 'txn"
  rb_insert :: "table_definition \<Rightarrow> rust_string \<Rightarrow> u8 list \<Rightarrow> 'txn \<Rightarrow> 'e + 'txn"
  rb_remove :: "table_definition \<Rightarrow> rust_string \<Rightarrow> 'txn \<Rightarrow> 'e + u8 list option \<times> 'txn"
  rb_commit :: "'txn \<Rightarrow> 'db \<Rightarrow> ('e + unit) \<times> 'db"
  rb_begin_read :: "'db \<Rightarrow> 'e + 'snap"
  rb_open_read :: "table_definition \<Rightarrow> 'snap \<Rightarrow> 'e + 'tbl"
  rb_get :: "rust_string \<Rightarrow> 'tbl \<Rightarrow> 'e + u8 list option"
  rb_iter :: "'tbl \<Rightarrow> 'e + ('e + rust_string \<times> u8 list) list"

definition commit_step ::
    "('path, 'db, 'txn, 'snap, 'tbl, 'e) redb \<Rightarrow> 'txn \<Rightarrow> 'db \<Rightarrow> ('e storage_error + unit) \<times> 'db" where
  "commit_step R write db = (case rb_commit R write db of (r, db) \<Rightarrow> (map_err StorageDatabase r, db))"

definition storage_open :: "('path, 'db, 'txn, 'snap, 'tbl, 'e) redb \<Rightarrow> 'path \<Rightarrow> 'e storage_error + 'db" where
  "storage_open R path =
    bind_ok (map_err StorageDatabase (rb_create R path)) (\<lambda>db.
    bind_ok (map_err StorageDatabase (rb_begin_write R db)) (\<lambda>write.
    bind_ok (map_err StorageDatabase (rb_open_table R SettingsTable write)) (\<lambda>write.
    bind_ok (map_err StorageDatabase (rb_open_table R ModelsTable write)) (\<lambda>write.
    (case commit_step R write db of (r, db) \<Rightarrow> bind_ok r (\<lambda>_. Inr db))))))"

definition storage_insert ::
    "('path, 'db, 'txn, 'snap, 'tbl, 'e) redb \<Rightarrow> table_definition \<Rightarrow> rust_string \<Rightarrow> u8 list \<Rightarrow> 'db
       \<Rightarrow> ('e storage_error + unit) \<times> 'db" where
  "storage_insert R table key bytes db =
    bind_step (map_err StorageDatabase (rb_begin_write R db), db) (\<lambda>write db.
    bind_step (map_err StorageDatabase (rb_open_table R table write), db) (\<lambda>write db.
    bind_step (map_err StorageDatabase (rb_insert R table key bytes write), db) (\<lambda>write db.
    commit_step R write db)))"

definition storage_get ::
    "('path, 'db, 'txn, 'snap, 'tbl, 'e) redb \<Rightarrow> table_definition \<Rightarrow> rust_string \<Rightarrow> 'db
       \<Rightarrow> 'e storage_error + u8 list option" where
  "storage_get R table key db =
    bind_ok (map_err StorageDatabase (rb_begin_read R db)) (\<lambda>read_transaction.
    bind_ok (map_err StorageDatabase (rb_open_read R table read_transaction)) (\<lambda>opened.
    map_err StorageDatabase (rb_get R key opened)))"

definition settings_key :: rust_string where
  "settings_key = [0x61, 0x70, 0x70, 0x6C, 0x69, 0x63, 0x61, 0x74, 0x69, 0x6F, 0x6E]"

definition save_settings ::
    "('path, 'db, 'txn, 'snap, 'tbl, 'e) redb \<Rightarrow> application_settings \<Rightarrow> 'db
       \<Rightarrow> ('e storage_error + unit) \<times> 'db" where
  "save_settings R settings db =
    bind_step (settings_validate settings, db) (\<lambda>_ db.
    bind_step (encode_settings settings, db) (\<lambda>encoded db.
    storage_insert R SettingsTable settings_key encoded db))"

definition load_settings ::
    "('path, 'db, 'txn, 'snap, 'tbl, 'e) redb \<Rightarrow> 'db \<Rightarrow> 'e storage_error + application_settings option" where
  "load_settings R db =
    bind_ok (storage_get R SettingsTable settings_key db) (\<lambda>found.
    (case found of None \<Rightarrow> Inr None | Some bytes \<Rightarrow> bind_ok (decode_settings bytes) (\<lambda>s. Inr (Some s))))"

definition upsert_model ::
    "('path, 'db, 'txn, 'snap, 'tbl, 'e) redb \<Rightarrow> model_record \<Rightarrow> 'db \<Rightarrow> ('e storage_error + unit) \<times> 'db" where
  "upsert_model R model db =
    bind_step (model_validate model, db) (\<lambda>_ db.
    bind_step (encode_model model, db) (\<lambda>encoded db.
    storage_insert R ModelsTable (mo_name model) encoded db))"

definition storage_load_model ::
    "('path, 'db, 'txn, 'snap, 'tbl, 'e) redb \<Rightarrow> rust_string \<Rightarrow> 'db \<Rightarrow> 'e storage_error + model_record option" where
  "storage_load_model R name db =
    bind_ok (validate_non_empty name FieldModelName) (\<lambda>_.
    bind_ok (storage_get R ModelsTable name db) (\<lambda>found.
    (case found of None \<Rightarrow> Inr None | Some bytes \<Rightarrow> bind_ok (decode_model bytes) (\<lambda>m. Inr (Some m)))))"

definition remove_model ::
    "('path, 'db, 'txn, 'snap, 'tbl, 'e) redb \<Rightarrow> rust_string \<Rightarrow> 'db \<Rightarrow> ('e storage_error + bool) \<times> 'db" where
  "remove_model R name db =
    bind_step (validate_non_empty name FieldModelName, db) (\<lambda>_ db.
    bind_step (map_err StorageDatabase (rb_begin_write R db), db) (\<lambda>write db.
    bind_step (map_err StorageDatabase (rb_open_table R ModelsTable write), db) (\<lambda>write db.
    bind_step (map_err StorageDatabase (rb_remove R ModelsTable name write), db) (\<lambda>(old, write) db.
    bind_step (commit_step R write db) (\<lambda>_ db. (Inr (old \<noteq> None), db))))))"

fun decode_entries :: "('e + rust_string \<times> u8 list) list \<Rightarrow> 'e storage_error + model_record list" where
  "decode_entries [] = Inr []"
| "decode_entries (entry # entries) =
     bind_ok (map_err StorageDatabase entry) (\<lambda>(key, bytes).
     bind_ok (decode_model bytes) (\<lambda>model.
     bind_ok (decode_entries entries) (\<lambda>models. Inr (model # models))))"

definition list_models ::
    "('path, 'db, 'txn, 'snap, 'tbl, 'e) redb \<Rightarrow> 'db \<Rightarrow> 'e storage_error + model_record list" where
  "list_models R db =
    bind_ok (map_err StorageDatabase (rb_begin_read R db)) (\<lambda>read_transaction.
    bind_ok (map_err StorageDatabase (rb_open_read R ModelsTable read_transaction)) (\<lambda>opened.
    bind_ok (map_err StorageDatabase (rb_iter R opened)) decode_entries))"

end
