(* ===== verification/Storage_Records.thy ===== *)
theory Storage_Records
  imports Storage
begin

section \<open>The record formats\<close>

text \<open>
  Decoding is exactly inverse to encoding: what a reader consumes is what the writer of its value
  puts out, and a record that is cut short or goes on too long is refused as such.
\<close>

subsection \<open>What a reader consumes\<close>

definition decoder_ok :: "decoder \<Rightarrow> bool" where
  "decoder_ok d \<longleftrightarrow> de_offset d \<le> length (de_bytes d) \<and> length (de_bytes d) \<le> usize_max"

definition consumes :: "decoder \<Rightarrow> u8 list \<Rightarrow> decoder \<Rightarrow> bool" where
  "consumes d bs d' \<longleftrightarrow> (\<exists>after. drop (de_offset d) (de_bytes d) = bs @ after)
     \<and> d' = d\<lparr>de_offset := de_offset d + length bs\<rparr>"

lemma consumes_ok:
  assumes "decoder_ok d" and "consumes d bs d'"
  shows "decoder_ok d'"
proof -
  obtain after where "drop (de_offset d) (de_bytes d) = bs @ after" using assms(2) by (auto simp: consumes_def)
  from arg_cong [OF this, of length] assms show ?thesis by (auto simp: decoder_ok_def consumes_def)
qed

lemma consumes_append: "(\<exists>d1. consumes d as d1 \<and> consumes d1 bs d2) \<longleftrightarrow> consumes d (as @ bs) d2"
proof
  assume "\<exists>d1. consumes d as d1 \<and> consumes d1 bs d2"
  then obtain d1 x y where "drop (de_offset d) (de_bytes d) = as @ x" "d1 = d\<lparr>de_offset := de_offset d + length as\<rparr>"
    "drop (de_offset d1) (de_bytes d1) = bs @ y" "d2 = d1\<lparr>de_offset := de_offset d1 + length bs\<rparr>"
    by (auto simp: consumes_def)
  moreover from this have "x = bs @ y" by (simp add: drop_drop [symmetric] add.commute)
  ultimately show "consumes d (as @ bs) d2" by (auto simp: consumes_def add.assoc)
next
  assume "consumes d (as @ bs) d2"
  then obtain after where *: "drop (de_offset d) (de_bytes d) = (as @ bs) @ after"
    "d2 = d\<lparr>de_offset := de_offset d + length (as @ bs)\<rparr>" by (auto simp: consumes_def)
  have "drop (de_offset d + length as) (de_bytes d) = bs @ after"
    using * by (simp add: drop_drop [symmetric] add.commute)
  with * show "\<exists>d1. consumes d as d1 \<and> consumes d1 bs d2"
    by (intro exI [of _ "d\<lparr>de_offset := de_offset d + length as\<rparr>"]) (auto simp: consumes_def add.assoc)
qed

lemma decode_word_Inr:
  assumes "decoder_ok d" and "8 * k = LENGTH('a::len)"
  shows "decode_word k d = (Inr (w :: 'a word), d') \<longleftrightarrow> consumes d (word_bytes k w) d'"
proof
  assume "decode_word k d = (Inr w, d')"
  then obtain bytes where *: "bytes_range (de_bytes d) (de_offset d) (de_offset d + k) = Some bytes"
    "w = word_of_bytes bytes" "d' = d\<lparr>de_offset := de_offset d + k\<rparr>"
    by (auto simp: decode_word_def usize_checked_add_def split: option.splits if_splits)
  then obtain before after where split: "de_bytes d = before @ bytes @ after" "length before = de_offset d" "length bytes = k"
    by (auto simp: bytes_range_Some)
  moreover have "word_bytes k w = bytes" using word_bytes_of_bytes [where 'a = 'a, of bytes] split(3) assms(2) * by simp
  ultimately show "consumes d (word_bytes k w) d'" using * by (auto simp: consumes_def)
next
  assume "consumes d (word_bytes k w) d'"
  then obtain after where *: "drop (de_offset d) (de_bytes d) = word_bytes k w @ after"
    "d' = d\<lparr>de_offset := de_offset d + k\<rparr>" by (auto simp: consumes_def)
  from arg_cong [OF *(1), of length] assms(1) have "de_offset d + k \<le> length (de_bytes d)"
    by (auto simp: decoder_ok_def)
  moreover from this assms(1) have "de_offset d + k \<le> usize_max" by (simp add: decoder_ok_def)
  ultimately show "decode_word k d = (Inr w, d')"
    using * word_of_bytes_bytes [OF assms(2), of w]
    by (simp add: decode_word_def usize_checked_add_def bytes_range_def)
qed

lemma decode_u64_Inr: "decoder_ok d \<Longrightarrow> decode_u64 d = (Inr w, d') \<longleftrightarrow> consumes d (word_bytes 8 w) d'"
  by (simp add: decode_u64_def decode_word_Inr)

lemma decode_u32_Inr: "decoder_ok d \<Longrightarrow> decode_u32 d = (Inr w, d') \<longleftrightarrow> consumes d (word_bytes 4 w) d'"
  by (simp add: decode_u32_def decode_word_Inr)

lemma decode_u8_Inr:
  assumes "decoder_ok d"
  shows "decode_u8 d = (Inr b, d') \<longleftrightarrow> consumes d [b] d'"
proof -
  have "slice_get (de_bytes d) (de_offset d) = Some b \<longleftrightarrow> (\<exists>after. drop (de_offset d) (de_bytes d) = b # after)"
  proof (cases "de_offset d < length (de_bytes d)")
    case True
    then show ?thesis unfolding Cons_nth_drop_Suc [OF True, symmetric] by (auto simp: slice_get_Some)
  qed (simp add: slice_get_Some)
  moreover have "usize_checked_add (de_offset d) 1 = Some (de_offset d + 1)" if "de_offset d < length (de_bytes d)"
    using that assms by (simp add: usize_checked_add_def decoder_ok_def)
  ultimately show ?thesis
    by (auto simp: decode_u8_def consumes_def slice_get_Some split: option.splits)
qed

definition string_bytes :: "rust_string \<Rightarrow> u8 list" where
  "string_bytes s = word_bytes 4 (of_nat (string_len s) :: u32) @ utf8_encode s"

lemma unat_u32_len: "n < 2 ^ 32 \<Longrightarrow> unat (of_nat n :: u32) = n"
  by (simp add: unat_of_nat take_bit_nat_eq_self)

lemma decode_string_Inr:
  assumes "decoder_ok d"
  shows "(decode_string d :: ('e storage_error + rust_string) \<times> decoder) = (Inr s, d')
    \<longleftrightarrow> string_ok s \<and> string_len s < 2 ^ 32 \<and> consumes d (string_bytes s) d'"
proof
  assume "(decode_string d :: ('e storage_error + rust_string) \<times> decoder) = (Inr s, d')"
  then obtain size d1 where first: "(decode_u32 d :: ('e storage_error + u32) \<times> decoder) = (Inr size, d1)"
    and rest: "((case usize_checked_add (de_offset d1) (unat size) of
       None \<Rightarrow> (Inl TruncatedRecord, d1)
     | Some stop \<Rightarrow>
         (case bytes_range (de_bytes d1) (de_offset d1) stop of
            None \<Rightarrow> (Inl TruncatedRecord, d1)
          | Some bytes \<Rightarrow> (map_err StorageInvalidUtf8 (string_from_utf8 bytes), d1\<lparr>de_offset := stop\<rparr>)))
        :: ('e storage_error + rust_string) \<times> decoder) = (Inr s, d')"
    unfolding decode_string_def bind_step_Inr by blast
  obtain bytes where bytes: "bytes_range (de_bytes d1) (de_offset d1) (de_offset d1 + unat size) = Some bytes"
    "string_from_utf8 bytes = Inr s" "d' = d1\<lparr>de_offset := de_offset d1 + unat size\<rparr>"
    using rest by (auto simp: usize_checked_add_def split: option.splits if_splits)
  from bytes(1) have len: "length bytes = unat size" and drop: "\<exists>after. drop (de_offset d1) (de_bytes d1) = bytes @ after"
    by (auto simp: bytes_range_Some)
  from bytes(2) have utf8: "string_ok s" "bytes = utf8_encode s" by (auto simp: string_from_utf8_Inr)
  have "unat size < 2 ^ 32" using unsigned_less [of size] by simp
  with len utf8 have "string_len s < 2 ^ 32" "of_nat (string_len s) = size"
    by (simp_all add: string_len_def)
  moreover have "consumes d1 (utf8_encode s) d'" using drop bytes(3) len utf8 by (simp add: consumes_def)
  moreover have "consumes d (word_bytes 4 size) d1" using first decode_u32_Inr [OF assms] by blast
  ultimately show "string_ok s \<and> string_len s < 2 ^ 32 \<and> consumes d (string_bytes s) d'"
    using utf8(1) consumes_append unfolding string_bytes_def by blast
next
  assume *: "string_ok s \<and> string_len s < 2 ^ 32 \<and> consumes d (string_bytes s) d'"
  then obtain d1 where d1: "consumes d (word_bytes 4 (of_nat (string_len s) :: u32)) d1" "consumes d1 (utf8_encode s) d'"
    using consumes_append unfolding string_bytes_def by blast
  from d1(1) have first: "(decode_u32 d :: ('e storage_error + u32) \<times> decoder) = (Inr (of_nat (string_len s)), d1)" using decode_u32_Inr [OF assms] by blast
  have ok: "decoder_ok d1" "decoder_ok d'" using consumes_ok assms d1 by blast+
  have "unat (of_nat (string_len s) :: u32) = length (utf8_encode s)" using * by (simp add: unat_u32_len string_len_def)
  moreover have "bytes_range (de_bytes d1) (de_offset d1) (de_offset d1 + length (utf8_encode s)) = Some (utf8_encode s)"
    using d1(2) ok by (auto simp: consumes_def bytes_range_def decoder_ok_def)
  moreover have "usize_checked_add (de_offset d1) (length (utf8_encode s)) = Some (de_offset d1 + length (utf8_encode s))"
    using d1(2) ok by (auto simp: consumes_def decoder_ok_def usize_checked_add_def)
  moreover have "string_from_utf8 (utf8_encode s) = Inr s" using * by (simp add: string_from_utf8_Inr)
  ultimately show "(decode_string d :: ('e storage_error + rust_string) \<times> decoder) = (Inr s, d')"
    using d1(2) by (simp add: decode_string_def first consumes_def)
qed

subsection \<open>Records\<close>

definition string_fits :: "rust_string \<Rightarrow> bool" where
  "string_fits s \<longleftrightarrow> string_ok s \<and> string_len s < 2 ^ 32"

definition starts :: "decoder \<Rightarrow> u8 list \<Rightarrow> bool" where
  "starts d bs \<longleftrightarrow> (\<exists>after. drop (de_offset d) (de_bytes d) = bs @ after)"

definition advance :: "decoder \<Rightarrow> u8 list \<Rightarrow> decoder" where
  "advance d bs = d\<lparr>de_offset := de_offset d + length bs\<rparr>"

lemma consumes_starts: "consumes d bs d' \<longleftrightarrow> starts d bs \<and> d' = advance d bs"
  by (simp add: consumes_def starts_def advance_def)

lemma starts_advance: "starts d as \<Longrightarrow> starts (advance d as) bs \<longleftrightarrow> starts d (as @ bs)"
  using consumes_append [of d as bs "advance (advance d as) bs"] by (auto simp: consumes_starts advance_def)

lemma advance_advance: "advance (advance d as) bs = advance d (as @ bs)"
  by (simp add: advance_def)

lemma advance_ok: "starts d bs \<Longrightarrow> decoder_ok d \<Longrightarrow> decoder_ok (advance d bs)"
  using consumes_ok consumes_starts by blast

lemma starts_prefix: "starts d (as @ bs) \<Longrightarrow> starts d as"
  by (auto simp: starts_def)

lemma scalar_of_code_Inr: "scalar_of_code code = Inr t \<longleftrightarrow> code = scalar_code t"
  by (cases t) (auto simp: scalar_of_code_def)

lemma read_string:
  "decoder_ok d \<Longrightarrow> bind_step (decode_string d) f = (Inr b, d') \<longleftrightarrow>
    (\<exists>s. string_fits s \<and> starts d (string_bytes s) \<and> f s (advance d (string_bytes s)) = (Inr b, d'))"
  unfolding bind_step_Inr by (auto simp: decode_string_Inr string_fits_def consumes_starts)

lemma read_u64:
  "decoder_ok d \<Longrightarrow> bind_step (decode_u64 d) f = (Inr b, d') \<longleftrightarrow>
    (\<exists>w. starts d (word_bytes 8 w) \<and> f w (advance d (word_bytes 8 w)) = (Inr b, d'))"
  unfolding bind_step_Inr by (auto simp: decode_u64_Inr consumes_starts)

lemma read_scalar:
  "decoder_ok d \<Longrightarrow> bind_step (decode_u8 d) (\<lambda>code d. bind_step (scalar_of_code code, d) f) = (Inr b, d') \<longleftrightarrow>
    (\<exists>t. starts d [scalar_code t] \<and> f t (advance d [scalar_code t]) = (Inr b, d'))"
  unfolding bind_step_Inr by (auto simp: decode_u8_Inr consumes_starts scalar_of_code_Inr)

lemma starts_string: "decoder_ok d \<Longrightarrow> string_fits s \<Longrightarrow> starts d (string_bytes s)
    \<Longrightarrow> decode_string d = (Inr s, advance d (string_bytes s))"
  by (simp add: decode_string_Inr string_fits_def consumes_starts)

lemma starts_u32: "decoder_ok d \<Longrightarrow> starts d (word_bytes 4 w) \<Longrightarrow> decode_u32 d = (Inr w, advance d (word_bytes 4 w))"
  by (simp add: decode_u32_Inr consumes_starts)

lemma starts_u64: "decoder_ok d \<Longrightarrow> starts d (word_bytes 8 w) \<Longrightarrow> decode_u64 d = (Inr w, advance d (word_bytes 8 w))"
  by (simp add: decode_u64_Inr consumes_starts)

lemma starts_u8: "decoder_ok d \<Longrightarrow> starts d [b] \<Longrightarrow> decode_u8 d = (Inr b, advance d [b])"
  by (simp add: decode_u8_Inr consumes_starts)

lemmas reads = read_string read_u64 read_scalar starts_advance advance_advance advance_ok

definition settings_bytes :: "application_settings \<Rightarrow> u8 list" where
  "settings_bytes s = string_bytes (se_default_repository s) @ string_bytes (se_default_revision s)
     @ word_bytes 8 (se_maximum_host_memory_bytes s) @ word_bytes 8 (se_maximum_device_memory_bytes s)
     @ word_bytes 8 (se_drain_timeout_milliseconds s)"

definition model_bytes :: "model_record \<Rightarrow> u8 list" where
  "model_bytes m = string_bytes (mo_name m) @ string_bytes (mo_repository m) @ string_bytes (mo_revision m)
     @ [scalar_code (mo_scalar_type m)] @ word_bytes 8 (mo_last_used_unix_milliseconds m)"

definition settings_fit :: "application_settings \<Rightarrow> bool" where
  "settings_fit s \<longleftrightarrow> string_fits (se_default_repository s) \<and> string_fits (se_default_revision s)"

definition model_fits :: "model_record \<Rightarrow> bool" where
  "model_fits m \<longleftrightarrow> string_fits (mo_name m) \<and> string_fits (mo_repository m) \<and> string_fits (mo_revision m)"

abbreviation record_header :: "u8 list \<Rightarrow> u8 list" where
  "record_header magic \<equiv> magic @ word_bytes 2 record_version"

lemma encode_string_Inr: "encode_string output s = Inr bytes \<longleftrightarrow> string_len s < 2 ^ 32 \<and> bytes = output @ string_bytes s"
  by (auto simp: encode_string_def string_bytes_def)

lemma encode_settings_Inr: "encode_settings s = Inr bytes \<longleftrightarrow> string_len (se_default_repository s) < 2 ^ 32
    \<and> string_len (se_default_revision s) < 2 ^ 32 \<and> bytes = record_header settings_magic @ settings_bytes s"
  by (auto simp: encode_settings_def bind_ok_Inr encode_string_Inr settings_bytes_def)

lemma encode_model_Inr: "encode_model m = Inr bytes \<longleftrightarrow> string_len (mo_name m) < 2 ^ 32
    \<and> string_len (mo_repository m) < 2 ^ 32 \<and> string_len (mo_revision m) < 2 ^ 32
    \<and> bytes = record_header model_magic @ model_bytes m"
  by (auto simp: encode_model_def bind_ok_Inr encode_string_Inr model_bytes_def)

lemma length_magic [simp]: "length settings_magic = 4" "length model_magic = 4"
  by (simp_all add: settings_magic_def model_magic_def)

lemma bytes_range_prefix: "bytes_range (as @ bs) (length as) (length as + n) = bytes_range bs 0 n"
  by (simp add: bytes_range_def)

lemma decoder_new_Inr:
  assumes "length magic = 4"
  shows "decoder_new bytes magic = Inr d \<longleftrightarrow> (\<exists>after. bytes = record_header magic @ after)
    \<and> d = \<lparr>de_bytes = bytes, de_offset = 6\<rparr>"
proof
  assume "decoder_new bytes magic = Inr d"
  then obtain version where *: "bytes_range bytes 0 4 = Some magic" "bytes_range bytes 4 6 = Some version"
    "word_of_bytes version = record_version" "d = \<lparr>de_bytes = bytes, de_offset = 6\<rparr>"
    by (auto simp: decoder_new_def bind_ok_Inr Let_def split: if_splits)
  obtain after where after: "bytes = magic @ after" using *(1) by (auto simp: bytes_range_Some)
  with *(2) assms have "bytes_range after 0 2 = Some version" using bytes_range_prefix [of magic after 2] by simp
  then obtain rest where "after = version @ rest" "length version = 2" by (auto simp: bytes_range_Some)
  moreover from this have "version = word_bytes 2 record_version"
    using word_bytes_of_bytes [where 'a = 16, of version] *(3) by simp
  ultimately show "(\<exists>after. bytes = record_header magic @ after) \<and> d = \<lparr>de_bytes = bytes, de_offset = 6\<rparr>"
    using after *(4) by auto
next
  assume "(\<exists>after. bytes = record_header magic @ after) \<and> d = \<lparr>de_bytes = bytes, de_offset = 6\<rparr>"
  then show "decoder_new bytes magic = Inr d"
    using assms word_of_bytes_bytes [where 'a = 16, of 2 record_version]
    by (auto simp: decoder_new_def bytes_range_def Let_def)
qed

lemma settings_fields_Inr:
  "decoder_ok d \<Longrightarrow> decode_settings_fields d = (Inr s, d') \<longleftrightarrow> settings_fit s \<and> consumes d (settings_bytes s) d'"
  unfolding decode_settings_fields_def
  by (cases s) (auto simp: reads settings_fit_def settings_bytes_def consumes_starts cong: conj_cong, auto simp: starts_def)

lemma model_fields_Inr:
  "decoder_ok d \<Longrightarrow> decode_model_fields d = (Inr m, d') \<longleftrightarrow> model_fits m \<and> consumes d (model_bytes m) d'"
  unfolding decode_model_fields_def
  by (cases m) (auto simp: reads model_fits_def model_bytes_def consumes_starts cong: conj_cong, auto simp: starts_def)

lemma decoder_finish_Inr: "decoder_finish d = Inr () \<longleftrightarrow> de_offset d = length (de_bytes d)"
  by (simp add: decoder_finish_def)

lemma decode_record_Inr:
  assumes read_fields: "\<And>d v d'. decoder_ok d \<Longrightarrow> read_fields d = (Inr v, d') \<longleftrightarrow> ok v \<and> consumes d (enc v) d'"
    and "length magic = 4" and "length bytes \<le> usize_max"
  shows "decode_record magic read_fields validate bytes = Inr v
    \<longleftrightarrow> ok v \<and> validate v = Inr () \<and> bytes = record_header magic @ enc v"
proof -
  let ?d = "\<lparr>de_bytes = bytes, de_offset = 6\<rparr>"
  have "decode_record magic read_fields validate bytes = Inr v \<longleftrightarrow> (\<exists>after. bytes = record_header magic @ after)
      \<and> (\<exists>d. read_fields ?d = (Inr v, d) \<and> de_offset d = length (de_bytes d) \<and> validate v = Inr ())"
    by (cases "read_fields ?d")
      (auto simp: decode_record_def decoder_new_Inr [OF assms(2)] bind_ok_Inr decoder_finish_Inr)
  also have "\<dots> \<longleftrightarrow> (\<exists>after. bytes = record_header magic @ after)
      \<and> (\<exists>d. ok v \<and> consumes ?d (enc v) d \<and> de_offset d = length (de_bytes d) \<and> validate v = Inr ())"
    using assms(2,3) by (intro conj_cong refl, elim exE) (simp add: read_fields decoder_ok_def)
  also have "\<dots> \<longleftrightarrow> ok v \<and> validate v = Inr () \<and> bytes = record_header magic @ enc v"
    using assms(2) by (auto simp: consumes_def)
  finally show ?thesis .
qed

definition settings_valid :: "application_settings \<Rightarrow> bool" where
  "settings_valid s \<longleftrightarrow> string_trim (se_default_repository s) \<noteq> [] \<and> string_trim (se_default_revision s) \<noteq> []
     \<and> se_drain_timeout_milliseconds s \<noteq> 0"

definition model_valid :: "model_record \<Rightarrow> bool" where
  "model_valid m \<longleftrightarrow> string_trim (mo_name m) \<noteq> [] \<and> string_trim (mo_repository m) \<noteq> [] \<and> string_trim (mo_revision m) \<noteq> []"

lemma settings_validate_Inr: "settings_validate s = Inr u \<longleftrightarrow> settings_valid s"
  by (auto simp: settings_validate_def settings_valid_def validate_non_empty_def bind_ok_def)

lemma model_validate_Inr: "model_validate m = Inr u \<longleftrightarrow> model_valid m"
  by (auto simp: model_validate_def model_valid_def validate_non_empty_def bind_ok_def)

lemma decode_settings_Inr:
  "length bytes \<le> usize_max \<Longrightarrow> decode_settings bytes = Inr s
    \<longleftrightarrow> settings_fit s \<and> settings_valid s \<and> bytes = record_header settings_magic @ settings_bytes s"
  by (simp add: decode_settings_def decode_record_Inr [OF settings_fields_Inr length_magic(1)] settings_validate_Inr)

lemma decode_model_Inr:
  "length bytes \<le> usize_max \<Longrightarrow> decode_model bytes = Inr m
    \<longleftrightarrow> model_fits m \<and> model_valid m \<and> bytes = record_header model_magic @ model_bytes m"
  by (simp add: decode_model_def decode_record_Inr [OF model_fields_Inr length_magic(2)] model_validate_Inr)

subsection \<open>Records cut short\<close>

text \<open>What is left is a proper prefix of what a reader needs.\<close>

definition starved :: "decoder \<Rightarrow> u8 list \<Rightarrow> bool" where
  "starved d bs \<longleftrightarrow> decoder_ok d \<and> (\<exists>more. more \<noteq> [] \<and> bs = drop (de_offset d) (de_bytes d) @ more)"

lemma starved_append:
  assumes "starved d (as @ bs)"
  obtains "starved d as" | "starts d as" "starved (advance d as) bs"
proof -
  obtain more where more: "more \<noteq> []" "as @ bs = drop (de_offset d) (de_bytes d) @ more" and ok: "decoder_ok d"
    using assms by (auto simp: starved_def)
  show thesis
  proof (cases "length as \<le> length (drop (de_offset d) (de_bytes d))")
    case True
    with more(2) obtain after where after: "drop (de_offset d) (de_bytes d) = as @ after" "bs = after @ more"
      by (auto simp: append_eq_append_conv_if)
        (metis append_take_drop_id length_drop)
    then have "starts d as" by (auto simp: starts_def)
    moreover have "drop (de_offset d + length as) (de_bytes d) = after"
      using after(1) by (simp add: drop_drop [symmetric] add.commute)
    with after(2) more(1) advance_ok [OF \<open>starts d as\<close> ok] have "starved (advance d as) bs"
      by (simp add: starved_def advance_def)
    ultimately show thesis by (rule that(2))
  next
    case False
    with more(2) obtain rest where "as = drop (de_offset d) (de_bytes d) @ rest"
      by (auto simp: append_eq_append_conv_if split: if_splits) (metis append_take_drop_id)
    with False ok have "starved d as" by (auto simp: starved_def)
    then show thesis by (rule that(1))
  qed
qed

lemma starved_length: "starved d bs \<Longrightarrow> length (de_bytes d) < de_offset d + length bs"
  by (auto simp: starved_def decoder_ok_def dest: arg_cong [where f = length])

lemma starved_word: "starved d (word_bytes k w) \<Longrightarrow> fst (decode_word k d) = Inl TruncatedRecord"
  by (auto dest!: starved_length simp: decode_word_def bytes_range_def usize_checked_add_def split: option.split)

lemma starved_u8: "starved d [b] \<Longrightarrow> fst (decode_u8 d) = Inl TruncatedRecord"
  by (auto dest!: starved_length simp: decode_u8_def slice_get_def split: option.split)

lemma bind_step_fst: "fst r = Inl e \<Longrightarrow> fst (bind_step r f) = Inl e"
  by (cases r) auto

lemma starved_string:
  assumes "starved d (string_bytes s)" and "string_fits s"
  shows "fst (decode_string d) = Inl TruncatedRecord"
  using assms(1) unfolding string_bytes_def
proof (cases rule: starved_append)
  case 1
  then show ?thesis
    unfolding decode_string_def decode_u32_def by (intro bind_step_fst starved_word)
next
  case 2
  let ?d = "advance d (word_bytes 4 (of_nat (string_len s) :: u32))"
  have ok: "decoder_ok d" using assms(1) by (simp add: starved_def)
  have "unat (of_nat (string_len s) :: u32) = length (utf8_encode s)"
    using assms(2) by (simp add: unat_u32_len string_fits_def string_len_def)
  then show ?thesis
    using starved_length [OF 2(2)]
    by (auto simp: decode_string_def starts_u32 [OF ok 2(1)] usize_checked_add_def bytes_range_def split: option.split)
qed

text \<open>The steps of the field readers on a record that is cut short.\<close>

lemma cut_string:
  assumes "starved d (string_bytes s @ rest)" and "string_fits s"
    and "\<And>d. starved d rest \<Longrightarrow> fst (f s d) = Inl TruncatedRecord"
  shows "fst (bind_step (decode_string d) f) = Inl TruncatedRecord"
  using assms(1)
proof (cases rule: starved_append)
  case 1
  then show ?thesis using assms(2) by (intro bind_step_fst starved_string)
next
  case 2
  have ok: "decoder_ok d" using assms(1) by (simp add: starved_def)
  show ?thesis using assms(3) [OF 2(2)] by (simp add: starts_string [OF ok assms(2) 2(1)])
qed

lemma cut_u64:
  assumes "starved d (word_bytes 8 w @ rest)" and "\<And>d. starved d rest \<Longrightarrow> fst (f w d) = Inl TruncatedRecord"
  shows "fst (bind_step (decode_u64 d) f) = Inl TruncatedRecord"
  using assms(1)
proof (cases rule: starved_append)
  case 1
  then show ?thesis unfolding decode_u64_def by (intro bind_step_fst starved_word)
next
  case 2
  have ok: "decoder_ok d" using assms(1) by (simp add: starved_def)
  show ?thesis using assms(2) [OF 2(2)] by (simp add: starts_u64 [OF ok 2(1)])
qed

lemma cut_scalar:
  assumes "starved d ([scalar_code t] @ rest)" and "\<And>d. starved d rest \<Longrightarrow> fst (f t d) = Inl TruncatedRecord"
  shows "fst (bind_step (decode_u8 d) (\<lambda>code d. bind_step (scalar_of_code code, d) f)) = Inl TruncatedRecord"
  using assms(1)
proof (cases rule: starved_append)
  case 1
  then show ?thesis by (intro bind_step_fst starved_u8)
next
  case 2
  have ok: "decoder_ok d" using assms(1) by (simp add: starved_def)
  show ?thesis using assms(2) [OF 2(2)] by (simp add: starts_u8 [OF ok 2(1)] scalar_of_code_Inr [THEN iffD2])
qed

lemma starved_nothing: "starved d [] \<longleftrightarrow> False"
  by (simp add: starved_def)

lemma cut_settings:
  assumes "starved d (settings_bytes s)" and "settings_fit s"
  shows "fst (decode_settings_fields d) = Inl TruncatedRecord"
  unfolding decode_settings_fields_def
  by (rule cut_string, rule assms(1) [unfolded settings_bytes_def], simp add: assms(2) [unfolded settings_fit_def],
      rule cut_string, assumption, simp add: assms(2) [unfolded settings_fit_def],
      rule cut_u64, assumption, rule cut_u64, assumption, rule cut_u64 [where rest = "[]"], simp, simp add: starved_nothing)

lemma cut_model:
  assumes "starved d (model_bytes m)" and "model_fits m"
  shows "fst (decode_model_fields d) = Inl TruncatedRecord"
  unfolding decode_model_fields_def
  by (rule cut_string, rule assms(1) [unfolded model_bytes_def], simp add: assms(2) [unfolded model_fits_def],
      rule cut_string, assumption, simp add: assms(2) [unfolded model_fits_def],
      rule cut_string, assumption, simp add: assms(2) [unfolded model_fits_def],
      rule cut_scalar, assumption, rule cut_u64 [where rest = "[]"], simp, simp add: starved_nothing)

lemma decoder_new_cut:
  "length magic = 4 \<Longrightarrow> k < 6 \<Longrightarrow> decoder_new (take k (record_header magic @ body)) magic = Inl TruncatedRecord"
  by (cases "k < 4") (simp_all add: decoder_new_def bytes_range_def)

lemma decoder_new_start:
  "length magic = 4 \<Longrightarrow> bytes = record_header magic @ body
     \<Longrightarrow> decoder_new bytes magic = Inr \<lparr>de_bytes = bytes, de_offset = 6\<rparr>"
  by (simp add: decoder_new_Inr)

lemma cut_record:
  assumes cut: "\<And>d. starved d body \<Longrightarrow> fst (read_fields d) = Inl TruncatedRecord"
    and magic: "length magic = 4" and "length body + 6 \<le> usize_max" and "k < length (record_header magic @ body)"
  shows "decode_record magic read_fields validate (take k (record_header magic @ body)) = Inl TruncatedRecord"
proof (cases "k < 6")
  case True
  show ?thesis unfolding decode_record_def decoder_new_cut [OF magic True] by simp
next
  case False
  let ?bytes = "take k (record_header magic @ body)"
  have bytes: "?bytes = record_header magic @ take (k - 6) body" using False magic by simp
  have "starved \<lparr>de_bytes = ?bytes, de_offset = 6\<rparr> body"
    unfolding starved_def bytes using assms(2,3,4) False
    by (intro conjI exI [of _ "drop (k - 6) body"]) (auto simp: decoder_ok_def)
  from cut [OF this] show ?thesis
    unfolding decode_record_def decoder_new_start [OF magic bytes]
    by (cases "read_fields \<lparr>de_bytes = ?bytes, de_offset = 6\<rparr>") simp
qed

lemma long_record:
  assumes read_fields: "\<And>d v d'. decoder_ok d \<Longrightarrow> read_fields d = (Inr v, d') \<longleftrightarrow> ok v \<and> consumes d (enc v) d'"
    and magic: "length magic = 4" and "ok v" and "extra \<noteq> []"
    and "length (record_header magic @ enc v @ extra) \<le> usize_max"
  shows "decode_record magic read_fields validate (record_header magic @ enc v @ extra) = Inl TrailingBytes"
proof -
  let ?bytes = "record_header magic @ enc v @ extra"
  let ?d = "\<lparr>de_bytes = ?bytes, de_offset = 6\<rparr>"
  have "decoder_ok ?d" using magic assms(5) by (simp add: decoder_ok_def)
  then have fields_read: "read_fields ?d = (Inr v, advance ?d (enc v))"
    using magic assms(3) by (subst read_fields) (auto simp: consumes_starts starts_def)
  show ?thesis
    unfolding decode_record_def decoder_new_start [OF magic refl] bind_ok_simps fields_read
    using magic assms(4) by (simp add: advance_def decoder_finish_def)
qed

subsection \<open>The formats\<close>

lemma string_bytes_length: "string_fits s \<Longrightarrow> length (string_bytes s) < 2 ^ 33"
  by (simp add: string_bytes_def string_fits_def string_len_def)

lemma settings_length: "settings_fit s \<Longrightarrow> length (record_header settings_magic @ settings_bytes s) + 6 \<le> usize_max"
  using string_bytes_length [of "se_default_repository s"] string_bytes_length [of "se_default_revision s"]
  by (simp add: settings_bytes_def settings_fit_def usize_max_def)

lemma model_length: "model_fits m \<Longrightarrow> length (record_header model_magic @ model_bytes m) + 6 \<le> usize_max"
  using string_bytes_length [of "mo_name m"] string_bytes_length [of "mo_repository m"] string_bytes_length [of "mo_revision m"]
  by (simp add: model_bytes_def model_fits_def usize_max_def)

text \<open>
  \<^bold>\<open>C20\<close>. Decoding is the exact inverse of validation and encoding, for both record formats: a byte
  string decodes to a value exactly when the value is valid, its texts fit and the byte string is
  its encoding. So every saved record is read back as it was, and no two byte strings mean the same.
\<close>

theorem record_round_trip:
  assumes "length bytes \<le> usize_max"
  shows "(decode_settings bytes = Inr s \<longleftrightarrow> settings_fit s \<and> settings_valid s \<and> encode_settings s = Inr bytes)
    \<and> (decode_model bytes = Inr m \<longleftrightarrow> model_fits m \<and> model_valid m \<and> encode_model m = Inr bytes)"
  using assms by (auto simp: decode_settings_Inr decode_model_Inr encode_settings_Inr encode_model_Inr
      settings_fit_def model_fits_def string_fits_def)

definition example_settings :: application_settings where
  "example_settings = \<lparr>se_default_repository = [0x61, 0x2F, 0x62], se_default_revision = [0x6D],
     se_maximum_host_memory_bytes = 1024, se_maximum_device_memory_bytes = 0, se_drain_timeout_milliseconds = 258\<rparr>"

definition example_settings_bytes :: "u8 list" where
  "example_settings_bytes = [0x4C, 0x41, 0x53, 0x31, 1, 0, 3, 0, 0, 0, 0x61, 0x2F, 0x62, 1, 0, 0, 0, 0x6D,
     0, 4, 0, 0, 0, 0, 0, 0, 0, 0, 0, 0, 0, 0, 0, 0, 2, 1, 0, 0, 0, 0, 0, 0]"

lemma le_bytes_numeral: "le_bytes (numeral k) n = of_nat n # le_bytes (pred_numeral k) (n div 256)"
  by (simp add: numeral_eq_Suc [of k])

lemma example_not_whitespace [simp]:
  "is_whitespace 0x61 = False" "is_whitespace 0x62 = False" "is_whitespace 0x6D = False"
  by (simp_all add: is_whitespace_def)

lemma example_trimmed: "string_trim [0x61, 0x2F, 0x62] = [0x61, 0x2F, 0x62]" "string_trim [0x6D] = [0x6D]"
  by (rule trim_fixed, simp)+

lemma example_encoded: "utf8_encode [0x61, 0x2F, 0x62] = [0x61, 0x2F, 0x62]" "utf8_encode [0x6D] = [0x6D]"
  by (simp_all add: utf8_encode_def utf8_encode_char_def)

lemmas example_texts = example_trimmed example_encoded

lemma example_settings_fit: "settings_fit example_settings"
  by (simp add: settings_fit_def string_fits_def example_settings_def scalar_value_def string_len_def example_texts)

lemma example_settings_valid: "settings_valid example_settings"
  by (simp add: settings_valid_def example_settings_def example_texts)

lemma example_settings_encoded: "encode_settings example_settings = Inr example_settings_bytes"
  by (simp add: example_settings_def encode_settings_def encode_string_def string_len_def example_texts settings_magic_def
      record_version_def word_bytes_def le_bytes_numeral example_settings_bytes_def)

lemma record_round_trip_witness:
  "decode_settings example_settings_bytes = Inr example_settings"
proof -
  have "length example_settings_bytes \<le> usize_max" by (simp add: example_settings_bytes_def usize_max_def)
  from record_round_trip [OF this] example_settings_fit example_settings_valid example_settings_encoded
  show ?thesis by blast
qed

lemma cut_settings_record:
  assumes "settings_fit s" and "k < length (record_header settings_magic @ settings_bytes s)"
  shows "decode_settings (take k (record_header settings_magic @ settings_bytes s)) = Inl TruncatedRecord"
  unfolding decode_settings_def using settings_length [OF assms(1)] assms
  by (intro cut_record [OF cut_settings]) auto

lemma cut_model_record:
  assumes "model_fits m" and "k < length (record_header model_magic @ model_bytes m)"
  shows "decode_model (take k (record_header model_magic @ model_bytes m)) = Inl TruncatedRecord"
  unfolding decode_model_def using model_length [OF assms(1)] assms
  by (intro cut_record [OF cut_model]) auto

lemma long_settings_record:
  "settings_fit s \<Longrightarrow> extra \<noteq> [] \<Longrightarrow> length (record_header settings_magic @ settings_bytes s @ extra) \<le> usize_max
     \<Longrightarrow> decode_settings (record_header settings_magic @ settings_bytes s @ extra) = Inl TrailingBytes"
  unfolding decode_settings_def by (rule long_record [OF settings_fields_Inr length_magic(1)])

lemma long_model_record:
  "model_fits m \<Longrightarrow> extra \<noteq> [] \<Longrightarrow> length (record_header model_magic @ model_bytes m @ extra) \<le> usize_max
     \<Longrightarrow> decode_model (record_header model_magic @ model_bytes m @ extra) = Inl TrailingBytes"
  unfolding decode_model_def by (rule long_record [OF model_fields_Inr length_magic(2)])

text \<open>
  A record that is cut short at any byte is refused as truncated, and one that is followed by
  more bytes as having trailing bytes; no part of a saved record is ever read as a record.
\<close>

theorem damaged_records_refused:
  assumes "settings_fit s" and "encode_settings s = Inr bytes" and "model_fits m" and "encode_model m = Inr bytes'"
  shows "(\<forall>k < length bytes. decode_settings (take k bytes) = Inl TruncatedRecord)
    \<and> (\<forall>k < length bytes'. decode_model (take k bytes') = Inl TruncatedRecord)
    \<and> (\<forall>extra. extra \<noteq> [] \<longrightarrow> length (bytes @ extra) \<le> usize_max \<longrightarrow> decode_settings (bytes @ extra) = Inl TrailingBytes)
    \<and> (\<forall>extra. extra \<noteq> [] \<longrightarrow> length (bytes' @ extra) \<le> usize_max \<longrightarrow> decode_model (bytes' @ extra) = Inl TrailingBytes)"
proof -
  have bytes: "bytes = record_header settings_magic @ settings_bytes s" "bytes' = record_header model_magic @ model_bytes m"
    using assms(2,4) by (simp_all add: encode_settings_Inr encode_model_Inr)
  show ?thesis unfolding bytes append_assoc
    by (intro conjI allI impI long_settings_record [unfolded append_assoc] long_model_record [unfolded append_assoc]
        cut_settings_record [unfolded append_assoc] cut_model_record [unfolded append_assoc] assms(1,3))
qed

definition example_model :: model_record where
  "example_model = \<lparr>mo_name = [0x6D], mo_repository = [0x61, 0x2F, 0x62], mo_revision = [0x6D],
     mo_scalar_type = StoredBf16, mo_last_used_unix_milliseconds = 7\<rparr>"

definition example_model_bytes :: "u8 list" where
  "example_model_bytes = [0x4C, 0x41, 0x4D, 0x31, 1, 0, 1, 0, 0, 0, 0x6D, 3, 0, 0, 0, 0x61, 0x2F, 0x62,
     1, 0, 0, 0, 0x6D, 2, 7, 0, 0, 0, 0, 0, 0, 0]"

lemma example_model_fits: "model_fits example_model"
  by (simp add: model_fits_def string_fits_def example_model_def scalar_value_def string_len_def example_texts)

lemma example_model_encoded: "encode_model example_model = Inr example_model_bytes"
  by (simp add: example_model_def encode_model_def encode_string_def string_len_def example_texts model_magic_def
      record_version_def word_bytes_def le_bytes_numeral example_model_bytes_def)

lemma damaged_records_refused_witness:
  "decode_settings (take 30 example_settings_bytes) = Inl TruncatedRecord
    \<and> decode_model (example_model_bytes @ [0]) = Inl TrailingBytes"
proof -
  note facts = damaged_records_refused [OF example_settings_fit example_settings_encoded example_model_fits example_model_encoded]
  have "30 < length example_settings_bytes" "length (example_model_bytes @ [0]) \<le> usize_max" "[0] \<noteq> ([] :: u8 list)"
    by (simp_all add: example_settings_bytes_def example_model_bytes_def usize_max_def)
  with facts show ?thesis by blast
qed

end
