(* ===== verification/Storage_Database.thy ===== *)
theory Storage_Database
  imports Storage_Records Btree_Map "HOL-Library.List_Lexorder"
begin

section \<open>The store of settings and models\<close>

text \<open>
  What the storage calls promise, given a database package that keeps its documented laws: the
  store behaves as an optional settings record and a map from names to model records. \<open>redb_view\<close>
  reads the tables out of the package's values; \<open>redb_ok\<close> states the laws, for calls that succeed: a
  transaction starts from the committed tables, sees its own changes, and is published by a commit
  as a whole or not at all; a table is iterated in the order of its keys.
\<close>

type_synonym tables = "table_definition \<Rightarrow> rust_string \<Rightarrow> u8 list option"

record ('db, 'txn, 'snap, 'tbl) redb_view =
  vw_db :: "'db \<Rightarrow> tables"
  vw_txn :: "'txn \<Rightarrow> tables"
  vw_snap :: "'snap \<Rightarrow> tables"
  vw_tbl :: "'tbl \<Rightarrow> rust_string \<Rightarrow> u8 list option"

definition put_entry :: "table_definition \<Rightarrow> rust_string \<Rightarrow> u8 list option \<Rightarrow> tables \<Rightarrow> tables" where
  "put_entry table key entry t = t(table := (t table)(key := entry))"

definition redb_writes_ok ::
    "('path, 'db, 'txn, 'snap, 'tbl, 'e) redb \<Rightarrow> ('db, 'txn, 'snap, 'tbl) redb_view \<Rightarrow> bool" where
  "redb_writes_ok R V \<longleftrightarrow>
    (\<forall>db txn. rb_begin_write R db = Inr txn \<longrightarrow> vw_txn V txn = vw_db V db)
    \<and> (\<forall>table txn txn'. rb_open_table R table txn = Inr txn' \<longrightarrow> vw_txn V txn' = vw_txn V txn)
    \<and> (\<forall>table key bytes txn txn'. rb_insert R table key bytes txn = Inr txn'
         \<longrightarrow> vw_txn V txn' = put_entry table key (Some bytes) (vw_txn V txn))
    \<and> (\<forall>table key txn old txn'. rb_remove R table key txn = Inr (old, txn')
         \<longrightarrow> old = vw_txn V txn table key \<and> vw_txn V txn' = put_entry table key None (vw_txn V txn))
    \<and> (\<forall>txn db r db'. rb_commit R txn db = (r, db') \<longrightarrow>
         vw_db V db' = vw_txn V txn \<or> r \<noteq> Inr () \<and> vw_db V db' = vw_db V db)"

definition redb_reads_ok ::
    "('path, 'db, 'txn, 'snap, 'tbl, 'e) redb \<Rightarrow> ('db, 'txn, 'snap, 'tbl) redb_view \<Rightarrow> bool" where
  "redb_reads_ok R V \<longleftrightarrow>
    (\<forall>db snap. rb_begin_read R db = Inr snap \<longrightarrow> vw_snap V snap = vw_db V db)
    \<and> (\<forall>table snap tbl. rb_open_read R table snap = Inr tbl \<longrightarrow> vw_tbl V tbl = vw_snap V snap table)
    \<and> (\<forall>key tbl found. rb_get R key tbl = Inr found \<longrightarrow> found = vw_tbl V tbl key)
    \<and> (\<forall>tbl read rest. rb_iter R tbl = Inr (map Inr read @ rest) \<longrightarrow>
         sorted_wrt (<) (map fst read) \<and> map_of read \<subseteq>\<^sub>m vw_tbl V tbl \<and> (rest = [] \<longrightarrow> map_of read = vw_tbl V tbl))"

definition redb_ok ::
    "('path, 'db, 'txn, 'snap, 'tbl, 'e) redb \<Rightarrow> ('db, 'txn, 'snap, 'tbl) redb_view \<Rightarrow> bool" where
  "redb_ok R V \<longleftrightarrow> redb_writes_ok R V \<and> redb_reads_ok R V"

subsection \<open>Writes\<close>

abbreviation storage_failed :: "'e storage_error + 'a \<Rightarrow> bool" where
  "storage_failed r \<equiv> \<exists>e. r = Inl (StorageDatabase e)"

text \<open>A write that reached the commit either took effect or failed; one that did not left the database alone.\<close>

definition wrote :: "tables \<Rightarrow> tables \<Rightarrow> tables \<Rightarrow> 'e storage_error + 'a \<Rightarrow> bool" where
  "wrote old new now r \<longleftrightarrow> now = new \<or> storage_failed r \<and> now = old"

lemma commit_step_wrote:
  assumes "redb_ok R V" and "commit_step R write db = (r, db')"
  shows "wrote (vw_db V db) (vw_txn V write) (vw_db V db') r" and "storage_failed r \<or> r = Inr ()"
proof -
  obtain c where c: "rb_commit R write db = (c, db')" "r = map_err StorageDatabase c"
    using assms(2) by (auto simp: commit_step_def split: prod.splits)
  have "vw_db V db' = vw_txn V write \<or> c \<noteq> Inr () \<and> vw_db V db' = vw_db V db"
    using assms(1) c(1) by (simp add: redb_ok_def redb_writes_ok_def)
  with c(2) show "wrote (vw_db V db) (vw_txn V write) (vw_db V db') r" "storage_failed r \<or> r = Inr ()"
    by (cases c; auto simp: wrote_def)+
qed

lemma storage_insert_wrote:
  assumes "redb_ok R V" and "storage_insert R table key bytes db = (r, db')"
  shows "wrote (vw_db V db) (put_entry table key (Some bytes) (vw_db V db)) (vw_db V db') r"
    and "storage_failed r \<or> r = Inr ()"
proof -
  have failed: "wrote (vw_db V db) (put_entry table key (Some bytes) (vw_db V db)) (vw_db V db') r \<and> (storage_failed r \<or> r = Inr ())"
    if "storage_failed r" "db' = db" using that by (auto simp: wrote_def)
  have "wrote (vw_db V db) (put_entry table key (Some bytes) (vw_db V db)) (vw_db V db') r \<and> (storage_failed r \<or> r = Inr ())"
  proof (cases "rb_begin_write R db")
    case (Inr t1)
    show ?thesis
    proof (cases "rb_open_table R table t1")
      case t2: (Inr t2)
      show ?thesis
      proof (cases "rb_insert R table key bytes t2")
        case t3: (Inr t3)
        have "vw_txn V t3 = put_entry table key (Some bytes) (vw_db V db)"
          using assms(1) Inr t2 t3 by (simp add: redb_ok_def redb_writes_ok_def)
        moreover have "commit_step R t3 db = (r, db')" using assms(2) Inr t2 t3 by (simp add: storage_insert_def)
        ultimately show ?thesis using commit_step_wrote [OF assms(1)] by metis
      qed (use assms(2) Inr t2 failed in \<open>auto simp: storage_insert_def\<close>)
    qed (use assms(2) Inr failed in \<open>auto simp: storage_insert_def\<close>)
  qed (use assms(2) failed in \<open>auto simp: storage_insert_def\<close>)
  then show "wrote (vw_db V db) (put_entry table key (Some bytes) (vw_db V db)) (vw_db V db') r"
    and "storage_failed r \<or> r = Inr ()" by blast+
qed

lemma remove_model_wrote:
  assumes "redb_ok R V" and "remove_model R name db = (r, db')" and "string_trim name \<noteq> []"
  shows "wrote (vw_db V db) (put_entry ModelsTable name None (vw_db V db)) (vw_db V db') r"
    and "storage_failed r \<or> r = Inr (vw_db V db ModelsTable name \<noteq> None)"
proof -
  let ?old = "vw_db V db ModelsTable name"
  let ?goal = "wrote (vw_db V db) (put_entry ModelsTable name None (vw_db V db)) (vw_db V db') r
    \<and> (storage_failed r \<or> r = Inr (?old \<noteq> None))"
  have failed: ?goal if "storage_failed r" "db' = db" using that by (auto simp: wrote_def)
  note step = remove_model_def validate_non_empty_def assms(3)
  have ?goal
  proof (cases "rb_begin_write R db")
    case (Inr t1)
    show ?thesis
    proof (cases "rb_open_table R ModelsTable t1")
      case t2: (Inr t2)
      show ?thesis
      proof (cases "rb_remove R ModelsTable name t2")
        case t3: (Inr removed)
        obtain old t3 where removed: "removed = (old, t3)" by fastforce
        have "vw_txn V t2 = vw_db V db" using assms(1) Inr t2 by (simp add: redb_ok_def redb_writes_ok_def)
        moreover have "old = vw_txn V t2 ModelsTable name" "vw_txn V t3 = put_entry ModelsTable name None (vw_txn V t2)"
          using assms(1) t3 removed by (auto simp: redb_ok_def redb_writes_ok_def)
        ultimately have view: "old = ?old" "vw_txn V t3 = put_entry ModelsTable name None (vw_db V db)" by simp_all
        obtain c db1 where c: "commit_step R t3 db = (c, db1)" by fastforce
        with assms(2) Inr t2 t3 removed have "r = bind_ok c (\<lambda>_. Inr (old \<noteq> None))" "db' = db1"
          by (cases c; simp add: step)+
        with commit_step_wrote [OF assms(1) c] view show ?thesis by (auto simp: wrote_def)
      qed (use assms(2) Inr t2 failed in \<open>auto simp: step\<close>)
    qed (use assms(2) Inr failed in \<open>auto simp: step\<close>)
  qed (use assms(2) failed in \<open>auto simp: step\<close>)
  then show "wrote (vw_db V db) (put_entry ModelsTable name None (vw_db V db)) (vw_db V db') r"
    and "storage_failed r \<or> r = Inr (?old \<noteq> None)" by blast+
qed

lemma storage_open_keeps:
  assumes "redb_ok R V" and "rb_create R path = Inr db" and "storage_open R path = Inr db'"
  shows "vw_db V db' = vw_db V db"
proof -
  obtain t1 t2 t3 where t: "rb_begin_write R db = Inr t1" "rb_open_table R SettingsTable t1 = Inr t2"
    "rb_open_table R ModelsTable t2 = Inr t3" "commit_step R t3 db = (Inr (), db')"
    using assms(2,3) by (simp add: storage_open_def bind_ok_Inr case_prod_beta) (metis prod.collapse)
  have "vw_txn V t3 = vw_db V db" using assms(1) t(1-3) by (simp add: redb_ok_def redb_writes_ok_def)
  with commit_step_wrote(1) [OF assms(1) t(4)] show ?thesis by (simp add: wrote_def)
qed

subsection \<open>Reads\<close>

lemma storage_get_read:
  assumes "redb_ok R V"
  shows "storage_failed (storage_get R table key db) \<or> storage_get R table key db = Inr (vw_db V db table key)"
proof -
  have "found = vw_db V db table key" if "storage_get R table key db = Inr found" for found
  proof -
    obtain snap tbl where "rb_begin_read R db = Inr snap" "rb_open_read R table snap = Inr tbl" "rb_get R key tbl = Inr found"
      using \<open>storage_get R table key db = Inr found\<close> by (auto simp: storage_get_def bind_ok_Inr)
    with assms show ?thesis unfolding redb_ok_def redb_reads_ok_def by metis
  qed
  moreover have "storage_failed (storage_get R table key db)" if "storage_get R table key db = Inl e" for e
    using that by (auto simp: storage_get_def bind_ok_Inl map_err_def split: sum.splits)
  ultimately show ?thesis by (cases "storage_get R table key db") auto
qed

subsection \<open>The store\<close>

definition settings_stored :: "application_settings \<Rightarrow> u8 list" where
  "settings_stored s = record_header settings_magic @ settings_bytes s"

definition model_stored :: "model_record \<Rightarrow> u8 list" where
  "model_stored m = record_header model_magic @ model_bytes m"

definition stores :: "tables \<Rightarrow> application_settings option \<Rightarrow> (rust_string \<Rightarrow> model_record option) \<Rightarrow> bool" where
  "stores t S M \<longleftrightarrow> t SettingsTable settings_key = map_option settings_stored S
    \<and> t ModelsTable = map_option model_stored \<circ> M
    \<and> (\<forall>s. S = Some s \<longrightarrow> settings_fit s \<and> settings_valid s)
    \<and> (\<forall>name m. M name = Some m \<longrightarrow> model_fits m \<and> model_valid m \<and> mo_name m = name)"

definition settings_texts_ok :: "application_settings \<Rightarrow> bool" where
  "settings_texts_ok s \<longleftrightarrow> string_ok (se_default_repository s) \<and> string_ok (se_default_revision s)"

definition model_texts_ok :: "model_record \<Rightarrow> bool" where
  "model_texts_ok m \<longleftrightarrow> string_ok (mo_name m) \<and> string_ok (mo_repository m) \<and> string_ok (mo_revision m)"

lemma stored_decodes:
  "settings_fit s \<Longrightarrow> settings_valid s \<Longrightarrow> decode_settings (settings_stored s) = Inr s"
  "model_fits m \<Longrightarrow> model_valid m \<Longrightarrow> decode_model (model_stored m) = Inr m"
  using settings_length [of s] model_length [of m]
  by (simp_all add: settings_stored_def model_stored_def decode_settings_Inr decode_model_Inr)

lemma stores_put_settings:
  "stores t S M \<Longrightarrow> settings_fit s \<Longrightarrow> settings_valid s
     \<Longrightarrow> stores (put_entry SettingsTable settings_key (Some (settings_stored s)) t) (Some s) M"
  by (simp add: stores_def put_entry_def)

lemma stores_put_model:
  "stores t S M \<Longrightarrow> model_fits m \<Longrightarrow> model_valid m
     \<Longrightarrow> stores (put_entry ModelsTable (mo_name m) (Some (model_stored m)) t) S (M(mo_name m \<mapsto> m))"
  by (auto simp: stores_def put_entry_def fun_eq_iff)

lemma stores_drop_model:
  "stores t S M \<Longrightarrow> stores (put_entry ModelsTable name None t) S (M(name := None))"
  by (auto simp: stores_def put_entry_def fun_eq_iff)

lemma decode_entries_ok:
  "(\<forall>(key, bytes) \<in> set read. bytes = model_stored (f key) \<and> model_fits (f key) \<and> model_valid (f key))
     \<Longrightarrow> decode_entries (map Inr read @ rest) = bind_ok (decode_entries rest) (\<lambda>ms. Inr (map (f \<circ> fst) read @ ms))"
proof (induction read)
  case Nil
  then show ?case by (cases "decode_entries rest") auto
next
  case (Cons kv read)
  then show ?case by (cases kv; cases "decode_entries rest") (auto simp: stored_decodes)
qed

lemma split_entries:
  obtains read rest where "entries = map Inr read @ rest" and "rest = [] \<or> (\<exists>e rest'. rest = Inl e # rest')"
proof (induction entries arbitrary: thesis)
  case (Cons entry entries)
  obtain read rest where IH: "entries = map Inr read @ rest" "rest = [] \<or> (\<exists>e rest'. rest = Inl e # rest')"
    using Cons.IH by blast
  show ?case
  proof (cases entry)
    case (Inl e)
    then show thesis using Cons.prems [of "[]" "entry # entries"] by simp
  next
    case (Inr kv)
    then show thesis using Cons.prems [of "kv # read" rest] IH by simp
  qed
qed simp

lemma list_models_read:
  assumes "redb_ok R V" and "stores (vw_db V db) S M"
  shows "storage_failed (list_models R db)
    \<or> (\<exists>ms. list_models R db = Inr ms \<and> sorted_wrt (<) (map mo_name ms) \<and> set ms = ran M)"
proof (cases "bind_ok (map_err StorageDatabase (rb_begin_read R db)) (\<lambda>snap.
    bind_ok (map_err StorageDatabase (rb_open_read R ModelsTable snap)) (\<lambda>tbl. map_err StorageDatabase (rb_iter R tbl)))")
  case (Inl e)
  then show ?thesis
    by (auto simp: list_models_def bind_ok_Inl map_err_def split: sum.splits)
next
  case (Inr entries)
  then obtain snap tbl where t: "rb_begin_read R db = Inr snap" "rb_open_read R ModelsTable snap = Inr tbl" "rb_iter R tbl = Inr entries"
    by (auto simp: bind_ok_Inr)
  have view: "vw_tbl V tbl = map_option model_stored \<circ> M"
    using assms t(1,2) by (simp add: redb_ok_def redb_reads_ok_def stores_def)
  have listed: "list_models R db = decode_entries entries" using t by (simp add: list_models_def)
  obtain read rest where split: "entries = map Inr read @ rest" "rest = [] \<or> (\<exists>e rest'. rest = Inl e # rest')"
    by (rule split_entries)
  have law: "sorted_wrt (<) (map fst read)" "map_of read \<subseteq>\<^sub>m vw_tbl V tbl" "rest = [] \<longrightarrow> map_of read = vw_tbl V tbl"
    using assms(1) t(3) unfolding split(1) redb_ok_def redb_reads_ok_def by blast+
  have distinct: "distinct (map fst read)" using law(1) strict_sorted_iff by blast
  have found: "M key = Some (the (M key)) \<and> bytes = model_stored (the (M key))" if "(key, bytes) \<in> set read" for key bytes
  proof -
    have "map_of read key = Some bytes" using that distinct by simp
    then have "(map_option model_stored \<circ> M) key = Some bytes" using law(2) unfolding view by (metis map_le_def domI)
    then show ?thesis by auto
  qed
  have decoded: "decode_entries entries = bind_ok (decode_entries rest) (\<lambda>ms. Inr (map ((\<lambda>key. the (M key)) \<circ> fst) read @ ms))"
    unfolding split(1)
    by (rule decode_entries_ok) (use found assms(2) in \<open>fastforce simp: stores_def\<close>)
  show ?thesis
  proof (cases "rest = []")
    case True
    let ?ms = "map ((\<lambda>key. the (M key)) \<circ> fst) read"
    have names: "map mo_name ?ms = map fst read" using found assms(2) by (force simp: stores_def)
    have "ran M = set ?ms"
    proof -
      have "dom M = fst ` set read"
        using law(3) True view by (metis dom_map_of_conv_image_fst dom_map_option_comp)
      then show ?thesis by (auto simp: ran_def image_iff) (metis domI fst_conv image_iff option.sel, metis found prod.collapse)
    qed
    moreover have "list_models R db = Inr ?ms" using decoded True listed by simp
    moreover have "sorted_wrt (<) (map mo_name ?ms)" unfolding names by (rule law(1))
    ultimately show ?thesis by auto
  next
    case False
    with split(2) decoded listed show ?thesis by auto
  qed
qed

lemma settings_check:
  "settings_valid s \<Longrightarrow> settings_validate s = Inr ()"
  "\<not> settings_valid s \<Longrightarrow> \<exists>field. settings_validate s = Inl (InvalidField field)"
  by (auto simp: settings_validate_def validate_non_empty_def settings_valid_def)

lemma model_check:
  "model_valid m \<Longrightarrow> model_validate m = Inr ()"
  "\<not> model_valid m \<Longrightarrow> \<exists>field. model_validate m = Inl (InvalidField field)"
  by (auto simp: model_validate_def validate_non_empty_def model_valid_def)

lemma settings_encoding:
  assumes "settings_texts_ok s"
  shows "settings_fit s \<Longrightarrow> encode_settings s = Inr (settings_stored s)"
    and "\<not> settings_fit s \<Longrightarrow> \<exists>n. encode_settings s = Inl (StringTooLong n)"
  using assms by (auto simp: encode_settings_def encode_string_def settings_texts_ok_def settings_fit_def string_fits_def
      settings_stored_def settings_bytes_def string_bytes_def)

lemma model_encoding:
  assumes "model_texts_ok m"
  shows "model_fits m \<Longrightarrow> encode_model m = Inr (model_stored m)"
    and "\<not> model_fits m \<Longrightarrow> \<exists>n. encode_model m = Inl (StringTooLong n)"
  using assms by (auto simp: encode_model_def encode_string_def model_texts_ok_def model_fits_def string_fits_def
      model_stored_def model_bytes_def string_bytes_def)

text \<open>What saving a checked record does: it is refused, or its bytes are inserted.\<close>

lemma save_settings_cases:
  fixes R :: "('path, 'db, 'txn, 'snap, 'tbl, 'e) redb"
  assumes "settings_texts_ok s"
  obtains "settings_valid s" and "settings_fit s"
      and "save_settings R s db = storage_insert R SettingsTable settings_key (settings_stored s) db"
    | field where "save_settings R s db = (Inl (InvalidField field), db)"
    | n where "save_settings R s db = (Inl (StringTooLong n), db)"
proof (cases "settings_valid s")
  case valid: True
  show thesis
  proof (cases "settings_fit s")
    case True
    with valid show thesis
      by (intro that(1)) (simp_all add: save_settings_def settings_check settings_encoding [OF assms])
  next
    case False
    obtain n where "(encode_settings s :: 'e storage_error + u8 list) = Inl (StringTooLong n)"
      using settings_encoding(2) [OF assms False] by blast
    with valid show thesis by (intro that(3)) (simp add: save_settings_def settings_check)
  qed
next
  case False
  obtain field where "(settings_validate s :: 'e storage_error + unit) = Inl (InvalidField field)"
    using settings_check(2) [OF False] by blast
  then show thesis by (intro that(2)) (simp add: save_settings_def)
qed

lemma upsert_model_cases:
  fixes R :: "('path, 'db, 'txn, 'snap, 'tbl, 'e) redb"
  assumes "model_texts_ok m"
  obtains "model_valid m" and "model_fits m"
      and "upsert_model R m db = storage_insert R ModelsTable (mo_name m) (model_stored m) db"
    | field where "upsert_model R m db = (Inl (InvalidField field), db)"
    | n where "upsert_model R m db = (Inl (StringTooLong n), db)"
proof (cases "model_valid m")
  case valid: True
  show thesis
  proof (cases "model_fits m")
    case True
    with valid show thesis
      by (intro that(1)) (simp_all add: upsert_model_def model_check model_encoding [OF assms])
  next
    case False
    obtain n where "(encode_model m :: 'e storage_error + u8 list) = Inl (StringTooLong n)"
      using model_encoding(2) [OF assms False] by blast
    with valid show thesis by (intro that(3)) (simp add: upsert_model_def model_check)
  qed
next
  case False
  obtain field where "(model_validate m :: 'e storage_error + unit) = Inl (InvalidField field)"
    using model_check(2) [OF False] by blast
  then show thesis by (intro that(2)) (simp add: upsert_model_def)
qed

lemma save_settings_stores:
  assumes "redb_ok R V" and "stores (vw_db V db) S M" and "settings_texts_ok s" and "save_settings R s db = (r, db')"
  shows "(r = Inr () \<and> settings_valid s \<and> stores (vw_db V db') (Some s) M)
    \<or> (storage_failed r \<and> (stores (vw_db V db') (Some s) M \<or> stores (vw_db V db') S M))
    \<or> ((\<exists>field. r = Inl (InvalidField field)) \<or> (\<exists>n. r = Inl (StringTooLong n))) \<and> db' = db"
  using assms(3)
proof (cases rule: save_settings_cases [of s R db])
  case 1
  with assms(4) have "storage_insert R SettingsTable settings_key (settings_stored s) db = (r, db')" by simp
  with storage_insert_wrote [OF assms(1)] stores_put_settings [OF assms(2) 1(2,1)] assms(2) 1(1) show ?thesis
    unfolding wrote_def by metis
qed (use assms(4) in auto)

lemma upsert_model_stores:
  assumes "redb_ok R V" and "stores (vw_db V db) S M" and "model_texts_ok m" and "upsert_model R m db = (r, db')"
  shows "(r = Inr () \<and> model_valid m \<and> stores (vw_db V db') S (M(mo_name m \<mapsto> m)))
    \<or> (storage_failed r \<and> (stores (vw_db V db') S (M(mo_name m \<mapsto> m)) \<or> stores (vw_db V db') S M))
    \<or> ((\<exists>field. r = Inl (InvalidField field)) \<or> (\<exists>n. r = Inl (StringTooLong n))) \<and> db' = db"
  using assms(3)
proof (cases rule: upsert_model_cases [of m R db])
  case 1
  with assms(4) have "storage_insert R ModelsTable (mo_name m) (model_stored m) db = (r, db')" by simp
  with storage_insert_wrote [OF assms(1)] stores_put_model [OF assms(2) 1(2,1)] assms(2) 1(1) show ?thesis
    unfolding wrote_def by metis
qed (use assms(4) in auto)

lemma remove_model_stores:
  assumes "redb_ok R V" and "stores (vw_db V db) S M" and "remove_model R name db = (r, db')"
  shows "(r = Inr (M name \<noteq> None) \<and> stores (vw_db V db') S (M(name := None)))
    \<or> (storage_failed r \<and> (stores (vw_db V db') S (M(name := None)) \<or> stores (vw_db V db') S M))
    \<or> (r = Inl (InvalidField FieldModelName) \<and> db' = db)"
proof (cases "string_trim name = []")
  case False
  have "vw_db V db ModelsTable name \<noteq> None \<longleftrightarrow> M name \<noteq> None" using assms(2) by (auto simp: stores_def)
  then have "storage_failed r \<or> r = Inr (M name \<noteq> None)" using remove_model_wrote(2) [OF assms(1,3) False] by simp
  moreover have "stores (vw_db V db') S (M(name := None)) \<or> storage_failed r \<and> stores (vw_db V db') S M"
    using remove_model_wrote(1) [OF assms(1,3) False] stores_drop_model [OF assms(2), of name] assms(2) unfolding wrote_def by auto
  ultimately show ?thesis by blast
qed (use assms(3) in \<open>auto simp: remove_model_def validate_non_empty_def\<close>)

lemma load_settings_stores:
  assumes "redb_ok R V" and "stores (vw_db V db) S M"
  shows "storage_failed (load_settings R db) \<or> load_settings R db = Inr S"
  using storage_get_read [OF assms(1), of SettingsTable settings_key db] assms(2)
  by (cases S) (auto simp: load_settings_def stores_def stored_decodes)

lemma load_model_stores:
  assumes "redb_ok R V" and "stores (vw_db V db) S M"
  shows "storage_failed (storage_load_model R name db)
    \<or> storage_load_model R name db = (if string_trim name = [] then Inl (InvalidField FieldModelName) else Inr (M name))"
  using storage_get_read [OF assms(1), of ModelsTable name db] assms(2)
  by (cases "M name") (auto simp: storage_load_model_def validate_non_empty_def stores_def stored_decodes)

text \<open>
  \<^bold>\<open>C19\<close>. On a database that keeps its laws, the storage is a settings record that may be absent and
  a map from names to models. A successful write is the update of one of them, visible to every
  later read and through reopening the file; a write that fails in the database left either the old
  or the new contents, never a mixture; one that fails for any other reason changed nothing. A read
  returns what is stored, models in the order of their names, or fails in the database: no stored
  record ever fails to decode.
\<close>

theorem storage_refines:
  assumes "redb_ok R V" and "stores (vw_db V db) S M"
  shows "(\<forall>s r db'. settings_texts_ok s \<longrightarrow> save_settings R s db = (r, db') \<longrightarrow>
      (r = Inr () \<and> settings_valid s \<and> stores (vw_db V db') (Some s) M)
      \<or> (storage_failed r \<and> (stores (vw_db V db') (Some s) M \<or> stores (vw_db V db') S M))
      \<or> ((\<exists>field. r = Inl (InvalidField field)) \<or> (\<exists>n. r = Inl (StringTooLong n))) \<and> db' = db)
    \<and> (\<forall>m r db'. model_texts_ok m \<longrightarrow> upsert_model R m db = (r, db') \<longrightarrow>
      (r = Inr () \<and> model_valid m \<and> stores (vw_db V db') S (M(mo_name m \<mapsto> m)))
      \<or> (storage_failed r \<and> (stores (vw_db V db') S (M(mo_name m \<mapsto> m)) \<or> stores (vw_db V db') S M))
      \<or> ((\<exists>field. r = Inl (InvalidField field)) \<or> (\<exists>n. r = Inl (StringTooLong n))) \<and> db' = db)
    \<and> (\<forall>name r db'. remove_model R name db = (r, db') \<longrightarrow>
      (r = Inr (M name \<noteq> None) \<and> stores (vw_db V db') S (M(name := None)))
      \<or> (storage_failed r \<and> (stores (vw_db V db') S (M(name := None)) \<or> stores (vw_db V db') S M))
      \<or> (r = Inl (InvalidField FieldModelName) \<and> db' = db))
    \<and> (storage_failed (load_settings R db) \<or> load_settings R db = Inr S)
    \<and> (\<forall>name. storage_failed (storage_load_model R name db)
      \<or> storage_load_model R name db = (if string_trim name = [] then Inl (InvalidField FieldModelName) else Inr (M name)))
    \<and> (storage_failed (list_models R db)
      \<or> (\<exists>ms. list_models R db = Inr ms \<and> sorted_wrt (<) (map mo_name ms) \<and> set ms = ran M))
    \<and> (\<forall>path db'. rb_create R path = Inr db \<longrightarrow> storage_open R path = Inr db' \<longrightarrow> stores (vw_db V db') S M)"
  using save_settings_stores [OF assms] upsert_model_stores [OF assms] remove_model_stores [OF assms]
    load_settings_stores [OF assms] load_model_stores [OF assms] list_models_read [OF assms]
    storage_open_keeps [OF assms(1)] assms(2)
  by (intro conjI allI impI) (blast | metis)+

subsection \<open>A database that keeps the laws\<close>

text \<open>Tables as association lists, read in key order; every call succeeds, except on the empty path.\<close>

type_synonym memory_tables = "table_definition \<Rightarrow> (rust_string \<times> u8 list) list"

definition memory_table :: "(rust_string \<times> u8 list) list \<Rightarrow> (rust_string, u8 list) btree_map" where
  "memory_table entries = foldr (\<lambda>(k, v) t. bt_insert k v t) entries bt_empty"

definition memory_redb :: "(rust_string, memory_tables, memory_tables, memory_tables, (rust_string \<times> u8 list) list, nat) redb" where
  "memory_redb = \<lparr>
     rb_create = (\<lambda>path. if path = [] then Inl 0 else Inr (\<lambda>_. [])),
     rb_begin_write = Inr,
     rb_open_table = (\<lambda>_. Inr),
     rb_insert = (\<lambda>table k v t. Inr (t(table := (k, v) # t table))),
     rb_remove = (\<lambda>table k t. Inr (map_of (t table) k, t(table := filter (\<lambda>e. fst e \<noteq> k) (t table)))),
     rb_commit = (\<lambda>t db. (Inr (), t)),
     rb_begin_read = Inr,
     rb_open_read = (\<lambda>table t. Inr (t table)),
     rb_get = (\<lambda>k tbl. Inr (map_of tbl k)),
     rb_iter = (\<lambda>tbl. Inr (map Inr (bt_entries (memory_table tbl))))\<rparr>"

definition memory_view :: "(memory_tables, memory_tables, memory_tables, (rust_string \<times> u8 list) list) redb_view" where
  "memory_view = \<lparr>vw_db = (\<lambda>t table. map_of (t table)), vw_txn = (\<lambda>t table. map_of (t table)),
     vw_snap = (\<lambda>t table. map_of (t table)), vw_tbl = map_of\<rparr>"

lemma memory_table_inv: "bt_inv (memory_table entries)"
  by (induction entries) (auto simp: memory_table_def bt_inv_empty bt_inv_insert)

lemma memory_table_get: "bt_get (memory_table entries) = map_of entries"
  by (induction entries) (auto simp: memory_table_def bt_get_empty bt_get_insert fun_eq_iff)

lemma map_of_removed: "map_of (filter (\<lambda>e. fst e \<noteq> k) entries) = (map_of entries)(k := None)"
  by (induction entries) (auto simp: fun_eq_iff)

lemma map_Inr_split: "map Inr xs = map Inr read @ rest \<Longrightarrow> \<exists>more. xs = read @ more \<and> rest = map Inr more"
  by (auto simp: map_eq_append_conv dest: map_injective)

lemma memory_reads: "redb_reads_ok memory_redb memory_view"
proof -
  have "sorted_wrt (<) (map fst read) \<and> map_of read \<subseteq>\<^sub>m map_of tbl \<and> (rest = [] \<longrightarrow> map_of read = map_of tbl)"
    if split: "map Inr (bt_entries (memory_table tbl)) = map Inr read @ rest" for tbl read and rest :: "(nat + rust_string \<times> u8 list) list"
  proof -
    obtain more where more: "bt_entries (memory_table tbl) = read @ more" "rest = map Inr more"
      using map_Inr_split [OF split] by blast
    have get: "map_of tbl = map_of (read @ more)" by (metis memory_table_get bt_get_entries more(1) ext)
    have sorted: "sorted_wrt (<) (map fst (read @ more))" using bt_entries_sorted [OF memory_table_inv, of tbl] more(1) by simp
    then have "sorted_wrt (<) (map fst read)" by (simp add: sorted_wrt_append)
    moreover have "distinct (map fst (read @ more))" using sorted by (simp only: strict_sorted_iff)
    moreover have "map_of read \<subseteq>\<^sub>m map_of tbl"
      unfolding get by (simp add: map_of_append map_le_map_add)
    ultimately show ?thesis using get more(2) by auto
  qed
  then show ?thesis by (auto simp: redb_reads_ok_def memory_redb_def memory_view_def)
qed

lemma memory_writes: "redb_writes_ok memory_redb memory_view"
  unfolding redb_writes_ok_def memory_redb_def memory_view_def put_entry_def
  by (auto simp: map_of_removed)

lemma memory_ok: "redb_ok memory_redb memory_view"
  by (simp add: redb_ok_def memory_reads memory_writes)

definition empty_tables :: memory_tables where
  "empty_tables = (\<lambda>_. [])"

lemma empty_stores: "stores (vw_db memory_view empty_tables) None Map.empty"
  by (auto simp: stores_def memory_view_def empty_tables_def)

lemma example_model_texts: "model_texts_ok example_model"
  by (simp add: model_texts_ok_def example_model_def scalar_value_def)

lemma example_name: "mo_name example_model = [0x6D]"
  by (simp add: example_model_def)

lemma upsert_example:
  "upsert_model memory_redb example_model empty_tables
     = (Inr (), empty_tables(ModelsTable := [([0x6D], example_model_bytes)]))"
proof -
  have "model_valid example_model" by (simp add: model_valid_def example_model_def example_texts)
  then show ?thesis

    by (simp add: upsert_model_def model_check storage_insert_def commit_step_def memory_redb_def empty_tables_def
        example_model_encoded example_name)
qed

lemma storage_refines_witness:
  "stores (vw_db memory_view (empty_tables(ModelsTable := [([0x6D], example_model_bytes)]))) None
     [mo_name example_model \<mapsto> example_model]"
proof -
  note model = storage_refines [OF memory_ok empty_stores, THEN conjunct2, THEN conjunct1, rule_format, OF example_model_texts]
  from model [OF upsert_example] show ?thesis by auto
qed

end
