(* ===== verification/Gguf_Metadata.thy ===== *)
theory Gguf_Metadata
  imports Rust_Text Model_Data
begin

unbundle bit_operations_syntax

section \<open>GGUF metadata\<close>

text \<open>
  \<open>crates/adapters/gguf-backend/src/metadata.rs\<close>: the bounded inspection of the header of a model
  file. A function over \<open>R: Read\<close> takes the \<open>read_exact\<close> of the reader and its state; \<open>reserve\<close> says
  which allocations succeed. The file is the list of what its reads do: deliver some bytes, be
  interrupted, or fail; after the last of them the file has ended. It is read through the
  \<open>BufReader\<close> of the standard library.
\<close>

subsection \<open>Readers\<close>

datatype 'e io_error = IoInterrupted | IoUnexpectedEof | IoHeaderLimit | IoOther 'e

datatype 'e read_event = Chunk "u8 list" | ReadInterrupted | ReadFails 'e

fun file_read :: "usize \<Rightarrow> 'e read_event list \<Rightarrow> ('e io_error + u8 list) \<times> 'e read_event list" where
  "file_read n [] = (Inr [], [])"
| "file_read n (Chunk bytes # events) =
     (if length bytes \<le> n then (Inr bytes, events) else (Inr (take n bytes), Chunk (drop n bytes) # events))"
| "file_read n (ReadInterrupted # events) = (Inl IoInterrupted, events)"
| "file_read n (ReadFails e # events) = (Inl (IoOther e), events)"

text \<open>
  \<open>BufReader\<close>: a request of at least the capacity goes to the file when the buffer is empty; any
  other one is served from the buffer, which is first filled by one read of the file if it is empty.
\<close>

definition buffer_capacity :: usize where
  "buffer_capacity = 8192"

record 'e buffered_reader =
  bf_buffer :: "u8 list"
  bf_file :: "'e read_event list"

definition buffered_new :: "'e read_event list \<Rightarrow> 'e buffered_reader" where
  "buffered_new file = \<lparr>bf_buffer = [], bf_file = file\<rparr>"

definition fill_buffer :: "'e buffered_reader \<Rightarrow> ('e io_error + u8 list) \<times> 'e read_event list" where
  "fill_buffer b =
    (if bf_buffer b = [] then file_read buffer_capacity (bf_file b) else (Inr (bf_buffer b), bf_file b))"

definition buffered_read :: "usize \<Rightarrow> 'e buffered_reader \<Rightarrow> ('e io_error + u8 list) \<times> 'e buffered_reader" where
  "buffered_read n b =
    (if bf_buffer b = [] \<and> buffer_capacity \<le> n
     then apsnd buffered_new (file_read n (bf_file b))
     else
       (case fill_buffer b of
          (Inl e, file) \<Rightarrow> (Inl e, buffered_new file)
        | (Inr bytes, file) \<Rightarrow> (Inr (take n bytes), \<lparr>bf_buffer = drop n bytes, bf_file = file\<rparr>)))"

record 'e bounded_reader =
  br_inner :: "'e buffered_reader"
  br_remaining :: u64

definition bounded_new :: "'e buffered_reader \<Rightarrow> u64 \<Rightarrow> 'e bounded_reader" where
  "bounded_new inner maximum_bytes = \<lparr>br_inner = inner, br_remaining = maximum_bytes\<rparr>"

definition bounded_read :: "usize \<Rightarrow> 'e bounded_reader \<Rightarrow> ('e io_error + u8 list) \<times> 'e bounded_reader" where
  "bounded_read n r =
    (if n = 0 then (Inr [], r)
     else if br_remaining r = 0 then (Inl IoHeaderLimit, r)
     else
       let allowed = unat (min (br_remaining r) (usize_to_u64 n)) in
       if n < allowed then (Inl IoHeaderLimit, r)
       else
         (case buffered_read allowed (br_inner r) of
            (Inl e, inner) \<Rightarrow> (Inl e, r\<lparr>br_inner := inner\<rparr>)
          | (Inr bytes, inner) \<Rightarrow>
              (case checked_sub (br_remaining r) (usize_to_u64 (length bytes)) of
                 None \<Rightarrow> (Inl IoHeaderLimit, r\<lparr>br_inner := inner\<rparr>)
               | Some remaining \<Rightarrow> (Inr bytes, \<lparr>br_inner = inner, br_remaining = remaining\<rparr>))))"

fun event_weight :: "'e read_event \<Rightarrow> nat" where
  "event_weight (Chunk bytes) = Suc (length bytes)"
| "event_weight ReadInterrupted = 1"
| "event_weight (ReadFails e) = 1"

abbreviation reader_weight :: "'e bounded_reader \<Rightarrow> nat" where
  "reader_weight r \<equiv> length (bf_buffer (br_inner r)) + sum_list (map event_weight (bf_file (br_inner r)))"

lemma file_read_weight:
  assumes "file_read n events = (x, events')" and "0 < n" and "x \<noteq> Inr []"
  shows "sum_list (map event_weight events') < sum_list (map event_weight events)"
  using assms by (cases "(n, events)" rule: file_read.cases) (auto split: if_splits)

lemma file_read_less:
  "file_read n events = (Inr bytes, events')
     \<Longrightarrow> length bytes + sum_list (map event_weight events') \<le> sum_list (map event_weight events)"
  by (cases "(n, events)" rule: file_read.cases) (auto split: if_splits)

lemma buffered_read_weight:
  assumes "buffered_read n b = (x, b')" and "0 < n" and "x \<noteq> Inr []"
  shows "length (bf_buffer b') + sum_list (map event_weight (bf_file b'))
    < length (bf_buffer b) + sum_list (map event_weight (bf_file b))"
proof (cases "bf_buffer b = []")
  case False
  with assms show ?thesis by (auto simp: buffered_read_def fill_buffer_def)
next
  case True
  show ?thesis
  proof (cases "buffer_capacity \<le> n")
    case direct: True
    obtain y rest where "file_read n (bf_file b) = (y, rest)" by fastforce
    with assms True direct file_read_weight [OF this assms(2)] show ?thesis
      by (auto simp: buffered_read_def buffered_new_def)
  next
    case False
    obtain y rest where read: "file_read buffer_capacity (bf_file b) = (y, rest)" by fastforce
    show ?thesis
    proof (cases y)
      case (Inl e)
      have "0 < buffer_capacity" by (simp add: buffer_capacity_def)
      with file_read_weight [OF read this] read Inl assms True False
      show ?thesis by (auto simp: buffered_read_def fill_buffer_def buffered_new_def)
    next
      case (Inr bytes)
      with read assms(1) True False have result: "x = Inr (take n bytes)" "b' = \<lparr>bf_buffer = drop n bytes, bf_file = rest\<rparr>"
        by (simp_all add: buffered_read_def fill_buffer_def)
      with assms(3) have "bytes \<noteq> []" by auto
      with assms(2) have "length (drop n bytes) < length bytes" by simp
      with file_read_less [of buffer_capacity "bf_file b" bytes rest] read Inr
      show ?thesis by (simp add: result True)
    qed
  qed
qed

lemma bounded_read_weight:
  assumes "bounded_read n r = (x, r')" and "n \<noteq> 0" and "x = Inl IoInterrupted \<or> (\<exists>b bs. x = Inr (b # bs))"
  shows "reader_weight r' < reader_weight r"
proof -
  define allowed where "allowed = unat (min (br_remaining r) (usize_to_u64 n))"
  obtain y inner where y: "buffered_read allowed (br_inner r) = (y, inner)" by fastforce
  have "br_remaining r \<noteq> 0" "\<not> n < allowed"
    using assms by (auto simp: bounded_read_def Let_def allowed_def split: if_splits)
  then have result: "(x, r') = (case y of
       Inl e \<Rightarrow> (Inl e, r\<lparr>br_inner := inner\<rparr>)
     | Inr bytes \<Rightarrow>
         (case checked_sub (br_remaining r) (usize_to_u64 (length bytes)) of
            None \<Rightarrow> (Inl IoHeaderLimit, r\<lparr>br_inner := inner\<rparr>)
          | Some remaining \<Rightarrow> (Inr bytes, \<lparr>br_inner = inner, br_remaining = remaining\<rparr>)))"
    using assms(1,2) y unfolding bounded_read_def Let_def allowed_def [symmetric] by (simp split: sum.splits)
  have "0 < unat (usize_to_u64 n)" using assms(2) by (simp add: unat_usize_to_u64 usize_max_def)
  then have "0 < allowed"
    using \<open>br_remaining r \<noteq> 0\<close> by (auto simp: allowed_def min_def unat_gt_0 split: if_splits)
  moreover have "br_inner r' = inner" "y \<noteq> Inr []"
    using result assms(3) by (auto split: sum.splits option.splits)
  ultimately show ?thesis using buffered_read_weight [OF y] by simp
qed

text \<open>\<open>Read::read_exact\<close> of the standard library, on a bounded reader.\<close>

function bounded_read_exact ::
    "usize \<Rightarrow> 'e bounded_reader \<Rightarrow> ('e io_error + u8 list) \<times> 'e bounded_reader" where
  "bounded_read_exact n r =
    (if n = 0 then (Inr [], r)
     else
       (case bounded_read n r of
          (Inr [], r) \<Rightarrow> (Inl IoUnexpectedEof, r)
        | (Inr (b # bs), r) \<Rightarrow>
            (case bounded_read_exact (n - length (b # bs)) r of
               (Inl e, r) \<Rightarrow> (Inl e, r)
             | (Inr after, r) \<Rightarrow> (Inr (b # bs @ after), r))
        | (Inl IoInterrupted, r) \<Rightarrow> bounded_read_exact n r
        | (Inl e, r) \<Rightarrow> (Inl e, r)))"
  by pat_completeness auto

termination bounded_read_exact
  by (relation "measure (\<lambda>(n, r). reader_weight r)") (auto dest: bounded_read_weight [OF sym])

declare bounded_read_exact.simps [simp del]

subsection \<open>Primitive values\<close>

datatype 'e metadata_error =
    MetaOpen 'e
  | MetaRead "'e io_error"
  | MetaInvalidFormat
  | MetaLimitExceeded
  | MetaInvalidValue
  | MetaNumericOverflow
  | MetaInvalidUtf8

type_synonym ('e, 'r) read_exact = "usize \<Rightarrow> 'r \<Rightarrow> ('e io_error + u8 list) \<times> 'r"

definition read_error :: "'e io_error \<Rightarrow> 'e metadata_error" where
  "read_error error = (case error of IoHeaderLimit \<Rightarrow> MetaLimitExceeded | _ \<Rightarrow> MetaRead error)"

definition read_exact :: "('e, 'r) read_exact \<Rightarrow> usize \<Rightarrow> 'r \<Rightarrow> ('e metadata_error + u8 list) \<times> 'r" where
  "read_exact rx n r = (case rx n r of (x, r) \<Rightarrow> (map_err read_error x, r))"

text \<open>\<open>read_u8\<close> to \<open>read_u64\<close> and \<open>read_i8\<close> to \<open>read_i64\<close> differ in the number of bytes and the sign.\<close>

definition read_word :: "usize \<Rightarrow> ('e, 'r) read_exact \<Rightarrow> 'r \<Rightarrow> ('e metadata_error + 'a::len word) \<times> 'r" where
  "read_word width rx r = bind_step (read_exact rx width r) (\<lambda>bytes r. (Inr (word_of_bytes bytes), r))"

definition read_unsigned :: "'a::len itself \<Rightarrow> usize \<Rightarrow> ('e, 'r) read_exact \<Rightarrow> 'r \<Rightarrow> ('e metadata_error + u64) \<times> 'r" where
  "read_unsigned _ width rx r = bind_step (read_word width rx r) (\<lambda>w :: 'a word. \<lambda>r. (Inr (ucast w), r))"

definition read_signed :: "'a::len itself \<Rightarrow> usize \<Rightarrow> ('e, 'r) read_exact \<Rightarrow> 'r \<Rightarrow> ('e metadata_error + int) \<times> 'r" where
  "read_signed _ width rx r = bind_step (read_word width rx r) (\<lambda>w :: 'a word. \<lambda>r. (Inr (sint w), r))"

definition read_u32 :: "('e, 'r) read_exact \<Rightarrow> 'r \<Rightarrow> ('e metadata_error + u32) \<times> 'r" where
  "read_u32 = read_word 4"

definition read_u64 :: "('e, 'r) read_exact \<Rightarrow> 'r \<Rightarrow> ('e metadata_error + u64) \<times> 'r" where
  "read_u64 = read_word 8"

definition signed_to_u64 :: "int \<Rightarrow> 'e metadata_error + u64" where
  "signed_to_u64 value = (if value < 0 then Inl MetaInvalidValue else Inr (of_int value))"

text \<open>The type codes, in the order of the constants \<open>TYPE_UINT8\<close> to \<open>TYPE_FLOAT64\<close>.\<close>

abbreviation (input) type_uint8 :: u32 where "type_uint8 \<equiv> 0"
abbreviation (input) type_int8 :: u32 where "type_int8 \<equiv> 1"
abbreviation (input) type_uint16 :: u32 where "type_uint16 \<equiv> 2"
abbreviation (input) type_int16 :: u32 where "type_int16 \<equiv> 3"
abbreviation (input) type_uint32 :: u32 where "type_uint32 \<equiv> 4"
abbreviation (input) type_int32 :: u32 where "type_int32 \<equiv> 5"
abbreviation (input) type_float32 :: u32 where "type_float32 \<equiv> 6"
abbreviation (input) type_bool :: u32 where "type_bool \<equiv> 7"
abbreviation (input) type_string :: u32 where "type_string \<equiv> 8"
abbreviation (input) type_array :: u32 where "type_array \<equiv> 9"
abbreviation (input) type_uint64 :: u32 where "type_uint64 \<equiv> 10"
abbreviation (input) type_int64 :: u32 where "type_int64 \<equiv> 11"
abbreviation (input) type_float64 :: u32 where "type_float64 \<equiv> 12"

definition read_integer :: "('e, 'r) read_exact \<Rightarrow> u32 \<Rightarrow> 'r \<Rightarrow> ('e metadata_error + u64) \<times> 'r" where
  "read_integer rx value_type r =
    (if value_type = type_uint8 then read_unsigned TYPE(8) 1 rx r
     else if value_type = type_uint16 then read_unsigned TYPE(16) 2 rx r
     else if value_type = type_uint32 then read_unsigned TYPE(32) 4 rx r
     else if value_type = type_uint64 then read_u64 rx r
     else if value_type = type_int8 then bind_step (read_signed TYPE(8) 1 rx r) (\<lambda>v r. (signed_to_u64 v, r))
     else if value_type = type_int16 then bind_step (read_signed TYPE(16) 2 rx r) (\<lambda>v r. (signed_to_u64 v, r))
     else if value_type = type_int32 then bind_step (read_signed TYPE(32) 4 rx r) (\<lambda>v r. (signed_to_u64 v, r))
     else if value_type = type_int64 then bind_step (read_signed TYPE(64) 8 rx r) (\<lambda>v r. (signed_to_u64 v, r))
     else (Inl MetaInvalidFormat, r))"

definition fixed_width :: "u32 \<Rightarrow> u64 option" where
  "fixed_width value_type =
    (if value_type \<in> {type_uint8, type_int8, type_bool} then Some 1
     else if value_type \<in> {type_uint16, type_int16} then Some 2
     else if value_type \<in> {type_uint32, type_int32, type_float32} then Some 4
     else if value_type \<in> {type_uint64, type_int64, type_float64} then Some 8
     else None)"

subsection \<open>Strings and arrays\<close>

record inspection_limits =
  il_maximum_header_bytes :: u64
  il_maximum_metadata_entries :: u64
  il_maximum_string_bytes :: u64
  il_maximum_array_elements :: u64

definition validate_array_count :: "u64 \<Rightarrow> inspection_limits \<Rightarrow> 'e metadata_error + unit" where
  "validate_array_count count limits =
    (if il_maximum_array_elements limits < count then Inl MetaLimitExceeded else Inr ())"

definition gguf_read_string ::
    "(usize \<Rightarrow> bool) \<Rightarrow> ('e, 'r) read_exact \<Rightarrow> u64 \<Rightarrow> 'r \<Rightarrow> ('e metadata_error + rust_string) \<times> 'r" where
  "gguf_read_string reserve rx maximum r =
    bind_step (read_u64 rx r) (\<lambda>size r.
    if maximum < size then (Inl MetaLimitExceeded, r)
    else if \<not> reserve (unat size) then (Inl MetaLimitExceeded, r)
    else bind_step (read_exact rx (unat size) r) (\<lambda>bytes r.
      (map_err (\<lambda>_. MetaInvalidUtf8) (string_from_utf8 bytes), r)))"

definition skip_buffer_bytes :: usize where
  "skip_buffer_bytes = 8192"

function skip_bytes :: "('e, 'r) read_exact \<Rightarrow> u64 \<Rightarrow> 'r \<Rightarrow> ('e metadata_error + unit) \<times> 'r" where
  "skip_bytes rx remaining r =
    (if remaining = 0 then (Inr (), r)
     else
       let chunk = unat (min remaining 8192) in
       if skip_buffer_bytes < chunk then (Inl MetaNumericOverflow, r)
       else bind_step (read_exact rx chunk r) (\<lambda>_ r.
         (case checked_sub remaining (of_nat chunk) of
            None \<Rightarrow> (Inl MetaNumericOverflow, r)
          | Some remaining \<Rightarrow> skip_bytes rx remaining r)))"
  by pat_completeness auto

lemma skip_decreases:
  assumes "remaining \<noteq> 0" and "checked_sub remaining (of_nat (unat (min remaining 8192))) = Some (remaining' :: u64)"
  shows "unat remaining' < unat remaining"
proof -
  have "min remaining 8192 \<noteq> 0" using assms(1) by (auto simp: min_def)
  then have "unat (min remaining 8192) \<noteq> 0" by (simp add: unat_eq_0)
  with unat_checked_sub [OF assms(2)] show ?thesis by simp
qed

termination skip_bytes
  by (relation "measure (\<lambda>(rx, remaining, r). unat remaining)") (auto dest: skip_decreases)

declare skip_bytes.simps [simp del]

definition skip_string :: "('e, 'r) read_exact \<Rightarrow> u64 \<Rightarrow> 'r \<Rightarrow> ('e metadata_error + unit) \<times> 'r" where
  "skip_string rx maximum r =
    bind_step (read_u64 rx r) (\<lambda>size r.
    if maximum < size then (Inl MetaLimitExceeded, r) else skip_bytes rx size r)"

primrec skip_strings :: "('e, 'r) read_exact \<Rightarrow> u64 \<Rightarrow> nat \<Rightarrow> 'r \<Rightarrow> ('e metadata_error + unit) \<times> 'r" where
  "skip_strings rx maximum 0 r = (Inr (), r)"
| "skip_strings rx maximum (Suc n) r =
     bind_step (skip_string rx maximum r) (\<lambda>_. skip_strings rx maximum n)"

text \<open>The match of \<open>skip_value\<close> on the element type of an array.\<close>

definition skip_elements ::
    "('e, 'r) read_exact \<Rightarrow> inspection_limits \<Rightarrow> u32 \<Rightarrow> u64 \<Rightarrow> 'r \<Rightarrow> ('e metadata_error + unit) \<times> 'r" where
  "skip_elements rx limits element_type count r =
    (case fixed_width element_type of
       Some width \<Rightarrow>
         (case checked_mul count width of
            None \<Rightarrow> (Inl MetaNumericOverflow, r)
          | Some bytes \<Rightarrow> skip_bytes rx bytes r)
     | None \<Rightarrow>
         if element_type = type_string
         then skip_strings rx (il_maximum_string_bytes limits) (unat count) r
         else (Inl MetaInvalidFormat, r))"

definition skip_value ::
    "('e, 'r) read_exact \<Rightarrow> u32 \<Rightarrow> inspection_limits \<Rightarrow> 'r \<Rightarrow> ('e metadata_error + unit) \<times> 'r" where
  "skip_value rx value_type limits r =
    (case fixed_width value_type of
       Some width \<Rightarrow> skip_bytes rx width r
     | None \<Rightarrow>
         if value_type = type_string then skip_string rx (il_maximum_string_bytes limits) r
         else if value_type = type_array then
           bind_step (read_u32 rx r) (\<lambda>element_type r.
           if element_type = type_array then (Inl MetaInvalidFormat, r)
           else
           bind_step (read_u64 rx r) (\<lambda>count r.
           bind_step (validate_array_count count limits, r) (\<lambda>_ r.
           skip_elements rx limits element_type count r)))
         else (Inl MetaInvalidFormat, r))"

subsection \<open>The collected metadata\<close>

record architecture_value =
  av_architecture :: rust_string
  av_value :: u32

record collected_metadata =
  cm_architecture :: "rust_string option"
  cm_context_length :: "architecture_value option"
  cm_block_count :: "architecture_value option"
  cm_embedding_length :: "architecture_value option"
  cm_attention_head_count :: "architecture_value option"
  cm_attention_head_count_kv :: "architecture_value option"
  cm_vocabulary_size :: "u32 option"
  cm_file_type :: "u16 option"

definition collected_default :: collected_metadata where
  "collected_default = \<lparr>cm_architecture = None, cm_context_length = None, cm_block_count = None,
     cm_embedding_length = None, cm_attention_head_count = None, cm_attention_head_count_kv = None,
     cm_vocabulary_size = None, cm_file_type = None\<rparr>"

text \<open>The field a numeric key writes, which the code holds as a reference.\<close>

datatype metadata_field = ContextLength | BlockCount | EmbeddingLength | AttentionHeadCount | AttentionHeadCountKv

fun field_get :: "metadata_field \<Rightarrow> collected_metadata \<Rightarrow> architecture_value option" where
  "field_get ContextLength c = cm_context_length c"
| "field_get BlockCount c = cm_block_count c"
| "field_get EmbeddingLength c = cm_embedding_length c"
| "field_get AttentionHeadCount c = cm_attention_head_count c"
| "field_get AttentionHeadCountKv c = cm_attention_head_count_kv c"

fun field_set :: "metadata_field \<Rightarrow> architecture_value \<Rightarrow> collected_metadata \<Rightarrow> collected_metadata" where
  "field_set ContextLength v c = c\<lparr>cm_context_length := Some v\<rparr>"
| "field_set BlockCount v c = c\<lparr>cm_block_count := Some v\<rparr>"
| "field_set EmbeddingLength v c = c\<lparr>cm_embedding_length := Some v\<rparr>"
| "field_set AttentionHeadCount v c = c\<lparr>cm_attention_head_count := Some v\<rparr>"
| "field_set AttentionHeadCountKv v c = c\<lparr>cm_attention_head_count_kv := Some v\<rparr>"

definition strip_suffix :: "rust_string \<Rightarrow> rust_string \<Rightarrow> rust_string option" where
  "strip_suffix text suffix =
    (let n = length text - length suffix in
     if length suffix \<le> length text \<and> drop n text = suffix then Some (take n text) else None)"

definition architecture_prefix :: "rust_string \<Rightarrow> rust_string \<Rightarrow> rust_string option" where
  "architecture_prefix key suffix =
    (case strip_suffix key suffix of
       None \<Rightarrow> None
     | Some architecture \<Rightarrow> if architecture \<noteq> [] \<and> 0x2E \<notin> set architecture then Some architecture else None)"

fun first_prefix :: "rust_string \<Rightarrow> (string \<times> metadata_field) list \<Rightarrow> (rust_string \<times> metadata_field) option" where
  "first_prefix key [] = None"
| "first_prefix key ((suffix, field) # targets) =
     (case architecture_prefix key (text_of suffix) of
        Some architecture \<Rightarrow> Some (architecture, field)
      | None \<Rightarrow> first_prefix key targets)"

definition numeric_target :: "rust_string \<Rightarrow> (rust_string \<times> metadata_field) option" where
  "numeric_target key = first_prefix key
     [(''.context_length'', ContextLength), (''.block_count'', BlockCount),
      (''.embedding_length'', EmbeddingLength), (''.attention.head_count_kv'', AttentionHeadCountKv),
      (''.attention.head_count'', AttentionHeadCount)]"

text \<open>\<open>u16::try_from\<close> and \<open>u32::try_from\<close> of a \<open>u64\<close>.\<close>

definition narrow :: "u64 \<Rightarrow> 'a::len word option" where
  "narrow w = (if unat w < 2 ^ LENGTH('a) then Some (ucast w) else None)"

definition store_architecture_value ::
    "metadata_field \<Rightarrow> rust_string \<Rightarrow> u64 \<Rightarrow> collected_metadata \<Rightarrow> 'e metadata_error + collected_metadata" where
  "store_architecture_value field architecture value c =
    (if field_get field c \<noteq> None then Inl MetaInvalidFormat
     else bind_ok (ok_or (narrow value) MetaNumericOverflow) (\<lambda>narrowed.
       Inr (field_set field \<lparr>av_architecture = architecture, av_value = narrowed\<rparr> c)))"

definition read_token_array ::
    "('e, 'r) read_exact \<Rightarrow> u32 \<Rightarrow> inspection_limits \<Rightarrow> collected_metadata \<Rightarrow> 'r
       \<Rightarrow> ('e metadata_error + collected_metadata) \<times> 'r" where
  "read_token_array rx value_type limits c r =
    (if value_type \<noteq> type_array then (Inl MetaInvalidFormat, r)
     else
       bind_step (read_u32 rx r) (\<lambda>element_type r.
       bind_step (read_u64 rx r) (\<lambda>count r.
       bind_step (validate_array_count count limits, r) (\<lambda>_ r.
       if element_type \<noteq> type_string then (Inl MetaInvalidFormat, r)
       else if cm_vocabulary_size c \<noteq> None then (Inl MetaInvalidFormat, r)
       else
         bind_step (ok_or (narrow count) MetaNumericOverflow, r) (\<lambda>size r.
         bind_step (skip_strings rx (il_maximum_string_bytes limits) (unat count) r) (\<lambda>_ r.
         (Inr (c\<lparr>cm_vocabulary_size := Some size\<rparr>), r)))))))"

definition read_metadata_value ::
    "(usize \<Rightarrow> bool) \<Rightarrow> ('e, 'r) read_exact \<Rightarrow> rust_string \<Rightarrow> u32 \<Rightarrow> inspection_limits \<Rightarrow> collected_metadata \<Rightarrow> 'r
       \<Rightarrow> ('e metadata_error + collected_metadata) \<times> 'r" where
  "read_metadata_value reserve rx key value_type limits c r =
    (if key = text_of ''general.architecture'' then
       if value_type \<noteq> type_string \<or> cm_architecture c \<noteq> None then (Inl MetaInvalidFormat, r)
       else bind_step (gguf_read_string reserve rx (il_maximum_string_bytes limits) r) (\<lambda>name r.
         (Inr (c\<lparr>cm_architecture := Some name\<rparr>), r))
     else if key = text_of ''general.file_type'' then
       if cm_file_type c \<noteq> None then (Inl MetaInvalidFormat, r)
       else bind_step (read_integer rx value_type r) (\<lambda>value r.
         bind_step (ok_or (narrow value) MetaNumericOverflow, r) (\<lambda>file_type r.
         (Inr (c\<lparr>cm_file_type := Some file_type\<rparr>), r)))
     else if key = text_of ''tokenizer.ggml.tokens'' then read_token_array rx value_type limits c r
     else
       (case numeric_target key of
          Some (architecture, field) \<Rightarrow>
            bind_step (read_integer rx value_type r) (\<lambda>value r.
            (store_architecture_value field architecture value c, r))
        | None \<Rightarrow> bind_step (skip_value rx value_type limits r) (\<lambda>_ r. (Inr c, r))))"

primrec read_entries ::
    "(usize \<Rightarrow> bool) \<Rightarrow> ('e, 'r) read_exact \<Rightarrow> inspection_limits \<Rightarrow> nat \<Rightarrow> collected_metadata \<Rightarrow> 'r
       \<Rightarrow> ('e metadata_error + collected_metadata) \<times> 'r" where
  "read_entries reserve rx limits 0 c r = (Inr c, r)"
| "read_entries reserve rx limits (Suc n) c r =
     bind_step (gguf_read_string reserve rx (il_maximum_string_bytes limits) r) (\<lambda>key r.
     bind_step (read_u32 rx r) (\<lambda>value_type r.
     bind_step (read_metadata_value reserve rx key value_type limits c r) (\<lambda>c.
     read_entries reserve rx limits n c)))"

subsection \<open>The metadata\<close>

record gguf_metadata =
  gm_architecture_name :: rust_string
  gm_architecture :: model_architecture
  gm_scalar_type :: scalar_type
  gm_quantization :: quantization_format
  gm_vocabulary_size :: u32
  gm_context_length :: u32
  gm_block_count :: u32
  gm_embedding_length :: u32
  gm_attention_head_count :: u32
  gm_attention_head_count_kv :: u32
  gm_file_type :: u16

definition required_architecture_value ::
    "architecture_value option \<Rightarrow> rust_string \<Rightarrow> 'e metadata_error + u32" where
  "required_architecture_value value architecture =
    bind_ok (ok_or value MetaInvalidFormat) (\<lambda>v.
    if av_architecture v \<noteq> architecture \<or> av_value v = 0 then Inl MetaInvalidValue else Inr (av_value v))"

definition required_non_zero :: "u32 option \<Rightarrow> 'e metadata_error + u32" where
  "required_non_zero value =
    (case value of Some v \<Rightarrow> if v \<noteq> 0 then Inr v else Inl MetaInvalidValue | None \<Rightarrow> Inl MetaInvalidValue)"

definition fnv1a_32 :: "u8 list \<Rightarrow> u32" where
  "fnv1a_32 bytes = foldl (\<lambda>hash byte. (hash XOR ucast byte) * 16777619) 2166136261 bytes"

definition classify_architecture :: "rust_string \<Rightarrow> model_architecture" where
  "classify_architecture name =
    (if name = text_of ''llama'' then Llama
     else if name \<in> {text_of ''mistral'', text_of ''mixtral''} then Mistral
     else if name \<in> {text_of ''gemma'', text_of ''gemma2'', text_of ''gemma3''} then Gemma
     else if name \<in> {text_of ''qwen'', text_of ''qwen2'', text_of ''qwen3''} then Qwen
     else ArchitectureOther (fnv1a_32 (utf8_encode name)))"

definition scalar_and_quantization :: "u16 \<Rightarrow> scalar_type \<times> quantization_format" where
  "scalar_and_quantization file_type =
    (if file_type = 0 then (F32, QuantNone)
     else if file_type = 1 then (F16, QuantNone)
     else (ScalarOther file_type, Gguf file_type))"

text \<open>\<open>u32::is_multiple_of\<close>.\<close>

definition is_multiple_of :: "u32 \<Rightarrow> u32 \<Rightarrow> bool" where
  "is_multiple_of a b = (if b = 0 then a = 0 else a mod b = 0)"

definition collected_finish :: "collected_metadata \<Rightarrow> 'e metadata_error + gguf_metadata" where
  "collected_finish c =
    bind_ok (ok_or (cm_architecture c) MetaInvalidFormat) (\<lambda>name.
    bind_ok (required_architecture_value (cm_context_length c) name) (\<lambda>context_length.
    bind_ok (required_architecture_value (cm_block_count c) name) (\<lambda>block_count.
    bind_ok (required_architecture_value (cm_embedding_length c) name) (\<lambda>embedding_length.
    bind_ok (required_architecture_value (cm_attention_head_count c) name) (\<lambda>heads.
    bind_ok (case cm_attention_head_count_kv c of
               Some value \<Rightarrow> required_architecture_value (Some value) name
             | None \<Rightarrow> Inr heads) (\<lambda>heads_kv.
    if heads < heads_kv \<or> \<not> is_multiple_of heads heads_kv then Inl MetaInvalidValue
    else
      bind_ok (required_non_zero (cm_vocabulary_size c)) (\<lambda>vocabulary_size.
      bind_ok (ok_or (cm_file_type c) MetaInvalidFormat) (\<lambda>file_type.
      Inr \<lparr>gm_architecture_name = name,
           gm_architecture = classify_architecture name,
           gm_scalar_type = fst (scalar_and_quantization file_type),
           gm_quantization = snd (scalar_and_quantization file_type),
           gm_vocabulary_size = vocabulary_size, gm_context_length = context_length,
           gm_block_count = block_count, gm_embedding_length = embedding_length,
           gm_attention_head_count = heads, gm_attention_head_count_kv = heads_kv,
           gm_file_type = file_type\<rparr>))))))))"

definition metadata_cache_bytes_per_token :: "gguf_metadata \<Rightarrow> 'e metadata_error + u64" where
  "metadata_cache_bytes_per_token m =
    (if gm_attention_head_count m = 0 \<or> \<not> is_multiple_of (gm_embedding_length m) (gm_attention_head_count m)
     then Inl MetaInvalidValue
     else
       let head_width = ucast (gm_embedding_length m div gm_attention_head_count m) :: u64 in
       bind_ok (ok_or (checked_mul head_width (ucast (gm_attention_head_count_kv m))) MetaNumericOverflow) (\<lambda>key_value_width.
       ok_or (Option.bind (Option.bind (checked_mul (ucast (gm_block_count m)) key_value_width)
         (\<lambda>elements. checked_mul elements 2)) (\<lambda>elements. checked_mul elements 2)) MetaNumericOverflow))"

subsection \<open>The inspection\<close>

definition gguf_magic :: "u8 list" where
  "gguf_magic = [0x47, 0x47, 0x55, 0x46]"

text \<open>\<open>inspect_reader\<close> after the reader has been bounded.\<close>

definition inspect_bounded ::
    "(usize \<Rightarrow> bool) \<Rightarrow> ('e, 'r) read_exact \<Rightarrow> inspection_limits \<Rightarrow> 'r \<Rightarrow> ('e metadata_error + gguf_metadata) \<times> 'r" where
  "inspect_bounded reserve rx limits r =
    bind_step (read_exact rx 4 r) (\<lambda>magic r.
    if magic \<noteq> gguf_magic then (Inl MetaInvalidFormat, r)
    else
    bind_step (read_u32 rx r) (\<lambda>version r.
    if version \<noteq> 2 \<and> version \<noteq> 3 then (Inl MetaInvalidFormat, r)
    else
    bind_step (read_u64 rx r) (\<lambda>tensor_count r.
    bind_step (read_u64 rx r) (\<lambda>metadata_count r.
    if il_maximum_metadata_entries limits < metadata_count then (Inl MetaLimitExceeded, r)
    else
    bind_step (read_entries reserve rx limits (unat metadata_count) collected_default r) (\<lambda>c r.
    (collected_finish c, r))))))"

definition inspect_reader ::
    "(usize \<Rightarrow> bool) \<Rightarrow> 'e buffered_reader \<Rightarrow> inspection_limits \<Rightarrow> ('e metadata_error + gguf_metadata) \<times> 'e bounded_reader" where
  "inspect_reader reserve reader limits =
    inspect_bounded reserve bounded_read_exact limits (bounded_new reader (il_maximum_header_bytes limits))"

text \<open>The file system: opening a path fails or gives the reads of the file, which are buffered.\<close>

definition inspect_metadata ::
    "('path \<Rightarrow> 'e + 'e read_event list) \<Rightarrow> (usize \<Rightarrow> bool) \<Rightarrow> 'path \<Rightarrow> inspection_limits \<Rightarrow> 'e metadata_error + gguf_metadata" where
  "inspect_metadata open_file reserve path limits =
    bind_ok (map_err MetaOpen (open_file path)) (\<lambda>file. fst (inspect_reader reserve (buffered_new file) limits))"

end
