(* ===== verification/Gguf_Readers.thy ===== *)
theory Gguf_Readers
  imports Gguf_Metadata
begin

section \<open>Inspection over related readers\<close>

text \<open>
  The inspection is the same function over any reader. The interface \<open>related_readers\<close> says that two
  readers answer alike as long as a relation between their states holds; then whole inspections
  answer alike. It is used three times: a file read in pieces against the list of its bytes, a file
  against itself with the count of the bytes drawn, and two allocators that agree on small requests.
\<close>

locale related_readers =
  fixes rx1 :: "('e, 'r1) read_exact" and rx2 :: "('e, 'r2) read_exact"
    and reserve1 reserve2 :: "usize \<Rightarrow> bool" and bound :: u64
    and rel ends :: "'r1 \<Rightarrow> 'r2 \<Rightarrow> bool"
  assumes answers: "rel r1 r2 \<Longrightarrow> fst (rx1 n r1) = fst (rx2 n r2)"
    and answered: "rel r1 r2 \<Longrightarrow> is_ok (fst (rx1 n r1)) \<Longrightarrow> rel (snd (rx1 n r1)) (snd (rx2 n r2))"
    and refused: "rel r1 r2 \<Longrightarrow> ends (snd (rx1 n r1)) (snd (rx2 n r2))"
    and rel_ends: "rel r1 r2 \<Longrightarrow> ends r1 r2"
    and reserves: "n \<le> unat bound \<Longrightarrow> reserve1 n = reserve2 n"
begin

definition agree :: "('x + 'a) \<times> 'r1 \<Rightarrow> ('x + 'a) \<times> 'r2 \<Rightarrow> bool" where
  "agree x y \<longleftrightarrow> fst x = fst y \<and> ends (snd x) (snd y) \<and> (is_ok (fst x) \<longrightarrow> rel (snd x) (snd y))"

lemma agree_here: "rel r1 r2 \<Longrightarrow> agree (x, r1) (x, r2)"
  by (simp add: agree_def rel_ends)

lemma agree_bind:
  assumes "agree x y" and "\<And>a r1 r2. rel r1 r2 \<Longrightarrow> agree (f a r1) (g a r2)"
  shows "agree (bind_step x f) (bind_step y g)"
  using assms by (cases x; cases y; cases "fst x") (auto simp: agree_def)

lemma agree_read: "rel r1 r2 \<Longrightarrow> agree (read_exact rx1 n r1) (read_exact rx2 n r2)"
  using answers [of r1 r2 n] answered [of r1 r2 n] refused [of r1 r2 n]
  by (cases "rx1 n r1"; cases "rx2 n r2"; cases "fst (rx1 n r1)") (auto simp: read_exact_def agree_def)

lemma agree_word: "rel r1 r2 \<Longrightarrow> agree (read_word n rx1 r1) (read_word n rx2 r2)"
  unfolding read_word_def by (intro agree_bind agree_read agree_here)

lemma agree_u32: "rel r1 r2 \<Longrightarrow> agree (read_u32 rx1 r1) (read_u32 rx2 r2)"
  unfolding read_u32_def by (rule agree_word)

lemma agree_u64: "rel r1 r2 \<Longrightarrow> agree (read_u64 rx1 r1) (read_u64 rx2 r2)"
  unfolding read_u64_def by (rule agree_word)

lemma agree_integer: "rel r1 r2 \<Longrightarrow> agree (read_integer rx1 t r1) (read_integer rx2 t r2)"
  unfolding read_integer_def read_unsigned_def read_signed_def
  by (auto intro!: agree_bind agree_word agree_u64 agree_here)

lemma agree_string:
  "rel r1 r2 \<Longrightarrow> maximum \<le> bound
     \<Longrightarrow> agree (gguf_read_string reserve1 rx1 maximum r1) (gguf_read_string reserve2 rx2 maximum r2)"
proof -
  assume rel: "rel r1 r2" and "maximum \<le> bound"
  then have "reserve1 (unat size) = reserve2 (unat size)" if "\<not> maximum < size" for size
    using that by (intro reserves) (simp add: not_less word_le_nat_alt [symmetric])
  with rel show ?thesis unfolding gguf_read_string_def
    by (auto intro!: agree_bind agree_read agree_u64 agree_here)
qed

lemma agree_skip: "rel r1 r2 \<Longrightarrow> agree (skip_bytes rx1 n r1) (skip_bytes rx2 n r2)"
proof (induction n arbitrary: r1 r2 rule: measure_induct_rule [of unat])
  case (less n)
  have "agree (skip_bytes rx1 n' r1) (skip_bytes rx2 n' r2)"
    if "n \<noteq> 0" "checked_sub n (of_nat (unat (min n 8192))) = Some n'" "rel r1 r2" for n' r1 r2
    using less.IH [OF skip_decreases] that by blast
  then show ?case unfolding skip_bytes.simps [of rx1 n] skip_bytes.simps [of rx2 n]
    using less.prems by (auto simp: Let_def split: option.split intro!: agree_bind agree_read agree_here)
qed

lemma agree_skip_string: "rel r1 r2 \<Longrightarrow> agree (skip_string rx1 maximum r1) (skip_string rx2 maximum r2)"
  unfolding skip_string_def by (auto intro!: agree_bind agree_u64 agree_skip agree_here)

lemma agree_skip_strings: "rel r1 r2 \<Longrightarrow> agree (skip_strings rx1 maximum n r1) (skip_strings rx2 maximum n r2)"
  by (induction n arbitrary: r1 r2) (auto intro!: agree_bind agree_skip_string agree_here)

lemma agree_skip_elements: "rel r1 r2 \<Longrightarrow> agree (skip_elements rx1 limits t n r1) (skip_elements rx2 limits t n r2)"
  unfolding skip_elements_def by (auto split: option.split intro!: agree_skip agree_skip_strings agree_here)

lemma agree_skip_value: "rel r1 r2 \<Longrightarrow> agree (skip_value rx1 t limits r1) (skip_value rx2 t limits r2)"
  unfolding skip_value_def
  by (auto split: option.split intro!: agree_bind agree_u32 agree_u64 agree_skip agree_skip_string agree_skip_elements agree_here)

lemma agree_tokens: "rel r1 r2 \<Longrightarrow> agree (read_token_array rx1 t limits c r1) (read_token_array rx2 t limits c r2)"
  unfolding read_token_array_def
  by (auto intro!: agree_bind agree_u32 agree_u64 agree_skip_strings agree_here)

lemma agree_value:
  "rel r1 r2 \<Longrightarrow> il_maximum_string_bytes limits \<le> bound
     \<Longrightarrow> agree (read_metadata_value reserve1 rx1 key t limits c r1) (read_metadata_value reserve2 rx2 key t limits c r2)"
  unfolding read_metadata_value_def
  by (auto split: option.split intro!: agree_bind agree_integer agree_string agree_tokens agree_skip_value agree_here)

lemma agree_entries:
  "rel r1 r2 \<Longrightarrow> il_maximum_string_bytes limits \<le> bound
     \<Longrightarrow> agree (read_entries reserve1 rx1 limits n c r1) (read_entries reserve2 rx2 limits n c r2)"
  by (induction n arbitrary: c r1 r2)
    (auto intro!: agree_bind agree_string agree_u32 agree_value agree_here)

lemma agree_inspect:
  "rel r1 r2 \<Longrightarrow> il_maximum_string_bytes limits \<le> bound
     \<Longrightarrow> agree (inspect_bounded reserve1 rx1 limits r1) (inspect_bounded reserve2 rx2 limits r2)"
  unfolding inspect_bounded_def
  by (auto intro!: agree_bind agree_read agree_u32 agree_u64 agree_entries agree_here)

lemma same_inspection:
  assumes "rel r1 r2" and "il_maximum_string_bytes limits \<le> bound"
  shows "fst (inspect_bounded reserve1 rx1 limits r1) = fst (inspect_bounded reserve2 rx2 limits r2)"
    and "ends (snd (inspect_bounded reserve1 rx1 limits r1)) (snd (inspect_bounded reserve2 rx2 limits r2))"
  using agree_inspect [OF assms] by (simp_all add: agree_def)

end

subsection \<open>A file and its bytes\<close>

text \<open>The reader that has all the bytes of a file at hand and counts what it may still read.\<close>

datatype byte_source = Source (source_bytes: "u8 list") (source_left: nat)

definition list_read_exact :: "('e, byte_source) read_exact" where
  "list_read_exact n r =
    (case r of Source bytes k \<Rightarrow>
       if n \<le> length bytes \<and> n \<le> k then (Inr (take n bytes), Source (drop n bytes) (k - n))
       else (Inl (if k \<le> length bytes then IoHeaderLimit else IoUnexpectedEof), r))"

fun event_bytes :: "'e read_event \<Rightarrow> u8 list" where
  "event_bytes (Chunk bytes) = bytes"
| "event_bytes ReadInterrupted = []"
| "event_bytes (ReadFails e) = []"

abbreviation file_bytes :: "'e read_event list \<Rightarrow> u8 list" where
  "file_bytes events \<equiv> concat (map event_bytes events)"

fun event_quiet :: "'e read_event \<Rightarrow> bool" where
  "event_quiet (Chunk bytes) = (bytes \<noteq> [])"
| "event_quiet ReadInterrupted = True"
| "event_quiet (ReadFails e) = False"

abbreviation file_quiet :: "'e read_event list \<Rightarrow> bool" where
  "file_quiet events \<equiv> list_all event_quiet events"

lemma file_read_bytes:
  "file_read n events = (Inr bytes, events') \<Longrightarrow> file_bytes events = bytes @ file_bytes events' \<and> length bytes \<le> n"
  by (cases "(n, events)" rule: file_read.cases) (auto split: if_splits)

lemma file_read_failed: "file_read n events = (Inl e, events') \<Longrightarrow> file_bytes events' = file_bytes events"
  by (cases "(n, events)" rule: file_read.cases) (auto split: if_splits)

lemma file_read_quiet:
  assumes "file_read n events = (x, events')" and "file_quiet events"
  shows "file_quiet events'" and "x = Inl IoInterrupted \<or> (\<exists>bytes. x = Inr bytes)"
    and "0 < n \<Longrightarrow> x = Inr [] \<Longrightarrow> events = [] \<and> events' = []"
  using assms by (cases "(n, events)" rule: file_read.cases; auto split: if_splits)+

text \<open>The same of the buffered reader, whose bytes are those in the buffer and those of the file.\<close>

abbreviation buffered_bytes :: "'e buffered_reader \<Rightarrow> u8 list" where
  "buffered_bytes b \<equiv> bf_buffer b @ file_bytes (bf_file b)"

abbreviation buffered_quiet :: "'e buffered_reader \<Rightarrow> bool" where
  "buffered_quiet b \<equiv> file_quiet (bf_file b)"

lemma fill_buffer_bytes:
  "fill_buffer b = (Inr bytes, rest) \<Longrightarrow> buffered_bytes b = bytes @ file_bytes rest"
  using file_read_bytes [of buffer_capacity "bf_file b" bytes rest] by (auto simp: fill_buffer_def split: if_splits)

lemma buffered_read_bytes:
  assumes "buffered_read n b = (Inr bytes, b')"
  shows "buffered_bytes b = bytes @ buffered_bytes b' \<and> length bytes \<le> n"
proof (cases "bf_buffer b = [] \<and> buffer_capacity \<le> n")
  case True
  obtain y rest where "file_read n (bf_file b) = (y, rest)" by fastforce
  with assms True file_read_bytes [of n "bf_file b" bytes rest] show ?thesis
    by (auto simp: buffered_read_def buffered_new_def)
next
  case False
  obtain y rest where fill: "fill_buffer b = (y, rest)" by fastforce
  then obtain all where "y = Inr all" using assms False by (cases y) (auto simp: buffered_read_def)
  with assms False fill fill_buffer_bytes [of b all rest] show ?thesis by (auto simp: buffered_read_def)
qed

lemma buffered_read_failed:
  assumes "buffered_read n b = (Inl e, b')"
  shows "bf_buffer b' = [] \<and> file_bytes (bf_file b') = buffered_bytes b"
proof -
  have "bf_buffer b = []"
    using assms by (auto simp: buffered_read_def fill_buffer_def split: if_splits)
  with assms show ?thesis
    by (auto simp: buffered_read_def fill_buffer_def buffered_new_def apsnd_def map_prod_def
        split: if_splits prod.splits sum.splits dest: file_read_failed)
qed

lemma buffered_read_quiet:
  assumes "buffered_read n b = (x, b')" and "buffered_quiet b"
  shows "buffered_quiet b'" and "x = Inl IoInterrupted \<or> (\<exists>bytes. x = Inr bytes)"
    and "0 < n \<Longrightarrow> x = Inr [] \<Longrightarrow> buffered_bytes b = []"
proof -
  have "buffered_quiet b' \<and> (x = Inl IoInterrupted \<or> (\<exists>bytes. x = Inr bytes))
    \<and> (0 < n \<longrightarrow> x = Inr [] \<longrightarrow> buffered_bytes b = [])"
  proof (cases "bf_buffer b = []")
    case False
    with assms show ?thesis by (auto simp: buffered_read_def fill_buffer_def)
  next
    case empty: True
    show ?thesis
    proof (cases "buffer_capacity \<le> n")
      case True
      obtain y rest where read: "file_read n (bf_file b) = (y, rest)" by fastforce
      with assms(1) empty True file_read_quiet [OF read assms(2)] show ?thesis
        by (auto simp: buffered_read_def buffered_new_def)
    next
      case False
      obtain y rest where read: "file_read buffer_capacity (bf_file b) = (y, rest)" by fastforce
      have "0 < buffer_capacity" by (simp add: buffer_capacity_def)
      with assms(1) empty False read file_read_quiet [OF read assms(2)] show ?thesis
        by (cases y) (auto simp: buffered_read_def fill_buffer_def buffered_new_def)
    qed
  qed
  then show "buffered_quiet b'" and "x = Inl IoInterrupted \<or> (\<exists>bytes. x = Inr bytes)"
    and "0 < n \<Longrightarrow> x = Inr [] \<Longrightarrow> buffered_bytes b = []" by blast+
qed

text \<open>What stays in the buffer has been read with a byte that was delivered.\<close>

lemma buffered_read_buffer:
  assumes "buffered_read n b = (x, b')" and "0 < n" and "length (bf_buffer b) < buffer_capacity"
  shows "length (bf_buffer b') < buffer_capacity"
proof (cases "bf_buffer b = [] \<and> buffer_capacity \<le> n")
  case True
  then show ?thesis using assms(1) by (auto simp: buffered_read_def buffered_new_def buffer_capacity_def apsnd_def map_prod_def split: prod.splits)
next
  case False
  obtain y rest where fill: "fill_buffer b = (y, rest)" by fastforce
  show ?thesis
  proof (cases y)
    case (Inl e)
    with assms(1) False fill show ?thesis by (auto simp: buffered_read_def buffered_new_def buffer_capacity_def)
  next
    case (Inr bytes)
    have "length bytes \<le> buffer_capacity"
      using fill Inr assms(3) file_read_bytes [of buffer_capacity "bf_file b" bytes rest]
      by (auto simp: fill_buffer_def split: if_splits)
    moreover have "0 < buffer_capacity" by (simp add: buffer_capacity_def)
    ultimately show ?thesis using assms(1,2) False fill Inr by (auto simp: buffered_read_def)
  qed
qed

text \<open>The cases of one bounded read; the error branches that guard conversions are never taken.\<close>

lemma bounded_read_cases:
  assumes "bounded_read n r = (x, r')" and "n \<noteq> 0"
  obtains "br_remaining r = 0" "x = Inl IoHeaderLimit" "r' = r"
  | e inner allowed where "br_remaining r \<noteq> 0" "0 < allowed" "buffered_read allowed (br_inner r) = (Inl e, inner)" "x = Inl e"
      "r' = r\<lparr>br_inner := inner\<rparr>"
  | bytes inner allowed where "br_remaining r \<noteq> 0" "0 < allowed" "buffered_read allowed (br_inner r) = (Inr bytes, inner)"
      "x = Inr bytes" "br_inner r' = inner" "unat (br_remaining r') + length bytes = unat (br_remaining r)" "length bytes \<le> n"
proof (cases "br_remaining r = 0")
  case True
  with assms show thesis by (intro that(1)) (simp_all add: bounded_read_def)
next
  case False
  define allowed where "allowed = unat (min (br_remaining r) (usize_to_u64 n))"
  have bound: "allowed \<le> n" "allowed \<le> unat (br_remaining r)"
    by (auto simp: allowed_def min_def unat_usize_to_u64 word_le_nat_alt)
  have "0 < unat (usize_to_u64 n)" using assms(2) by (simp add: unat_usize_to_u64 usize_max_def)
  then have pos: "0 < allowed" using False by (auto simp: allowed_def min_def unat_gt_0 split: if_splits)
  obtain y inner where y: "buffered_read allowed (br_inner r) = (y, inner)" by fastforce
  note result = assms(1) [unfolded bounded_read_def Let_def, folded allowed_def, simplified assms(2) False y]
  show thesis
  proof (cases y)
    case (Inl e)
    with y result bound False pos show thesis by (intro that(2)) (auto split: if_splits)
  next
    case (Inr bytes)
    then have len: "length bytes \<le> allowed" using buffered_read_bytes y by blast
    have "unat (br_remaining r) < 2 ^ 64" using unsigned_less [of "br_remaining r"] by simp
    with len bound have "unat (usize_to_u64 (length bytes)) = length bytes" by (simp add: unat_usize_to_u64 usize_max_def)
    moreover from this have "usize_to_u64 (length bytes) \<le> br_remaining r" using len bound by (simp add: word_le_nat_alt)
    ultimately show thesis using y Inr result bound len False pos
      by (intro that(3)) (auto simp: checked_sub_def unat_sub split: if_splits)
  qed
qed

definition delivers :: "'e bounded_reader \<Rightarrow> byte_source \<Rightarrow> bool" where
  "delivers r p \<longleftrightarrow> buffered_quiet (br_inner r) \<and> p = Source (buffered_bytes (br_inner r)) (unat (br_remaining r))"

lemma list_read_rest:
  assumes "length as \<le> n" and "length as \<le> k"
  shows "list_read_exact n (Source (as @ bs) k)
    = (case list_read_exact (n - length as) (Source bs (k - length as)) of
         (Inl e, r) \<Rightarrow> (Inl e, Source (as @ bs) k) | (Inr cs, r) \<Rightarrow> (Inr (as @ cs), r))"
  using assms by (auto simp: list_read_exact_def)

lemma quiet_bytes_empty: "file_quiet events \<Longrightarrow> length (file_bytes events) = 0 \<Longrightarrow> \<forall>event \<in> set events. event = ReadInterrupted"
proof (induction events)
  case (Cons event events)
  then show ?case by (cases event) auto
qed simp

lemma bounded_read_exact_delivers:
  fixes r :: "'e bounded_reader"
  assumes "delivers r p"
  shows "fst (bounded_read_exact n r) = fst (list_read_exact n p :: ('e io_error + u8 list) \<times> byte_source)"
    and "is_ok (fst (bounded_read_exact n r)) \<Longrightarrow> delivers (snd (bounded_read_exact n r)) (snd (list_read_exact n p :: ('e io_error + u8 list) \<times> byte_source))"
proof -
  let ?list_read = "list_read_exact :: ('e, byte_source) read_exact"
  let ?same = "\<lambda>n (r :: 'e bounded_reader) p. fst (bounded_read_exact n r) = fst (?list_read n p)
    \<and> (is_ok (fst (bounded_read_exact n r)) \<longrightarrow> delivers (snd (bounded_read_exact n r)) (snd (?list_read n p)))"
  have "?same n r p"
    using assms
  proof (induction n r arbitrary: p rule: bounded_read_exact.induct)
    case (1 n r)
    have p: "p = Source (buffered_bytes (br_inner r)) (unat (br_remaining r))" and quiet: "buffered_quiet (br_inner r)"
      using 1(3) by (simp_all add: delivers_def)
    show ?case
    proof (cases "n = 0")
      case True
      with 1(3) show ?thesis by (simp add: bounded_read_exact.simps list_read_exact_def p)
    next
      case False
      have again: "?same n r' q" if "bounded_read n r = (Inl IoInterrupted, r')" "delivers r' q" for r' q
        using "1.IH"(1) [OF False _ refl refl that(2)] that(1) by simp
      have onward: "?same (n - length (b # bs)) r' q" if "bounded_read n r = (Inr (b # bs), r')" "delivers r' q" for r' q b bs
        using "1.IH"(2) [OF False _ refl refl that(2)] that(1) by simp
      obtain x r' where read: "bounded_read n r = (x, r')" by fastforce
      from read False show ?thesis
      proof (cases rule: bounded_read_cases)
        case 1
        with False read show ?thesis by (simp add: bounded_read_exact.simps list_read_exact_def p)
      next
        case (2 e inner allowed)
        then have e: "e = IoInterrupted" using buffered_read_quiet(2) [OF 2(3) quiet] by auto
        have "delivers r' p" using 2(5) buffered_read_quiet(1) [OF 2(3) quiet] buffered_read_failed [OF 2(3)]
          by (simp add: delivers_def p)
        from again [OF _ this] read 2(4) e False show ?thesis by (simp add: bounded_read_exact.simps [of n r])
      next
        case (3 bytes inner allowed)
        have bytes: "buffered_bytes (br_inner r) = bytes @ buffered_bytes inner" using buffered_read_bytes [OF 3(3)] by simp
        have deliv: "delivers r' (Source (buffered_bytes inner) (unat (br_remaining r')))"
          using 3(5) buffered_read_quiet(1) [OF 3(3) quiet] by (simp add: delivers_def)
        show ?thesis
        proof (cases bytes)
          case Nil
          then have "buffered_bytes (br_inner r) = []" using buffered_read_quiet(3) [OF 3(3) quiet 3(2)] by simp
          with p have "p = Source [] (unat (br_remaining r))" by simp
          with Nil read 3(1,4) False show ?thesis
            by (simp add: bounded_read_exact.simps list_read_exact_def unat_gt_0)
        next
          case (Cons b bs)
          let ?rest = "?list_read (n - length bytes) (Source (buffered_bytes inner) (unat (br_remaining r) - length bytes))"
          have left: "unat (br_remaining r') = unat (br_remaining r) - length bytes" using 3(6) by simp
          have IH: "fst (bounded_read_exact (n - length bytes) r') = fst ?rest
            \<and> (is_ok (fst (bounded_read_exact (n - length bytes) r'))
                 \<longrightarrow> delivers (snd (bounded_read_exact (n - length bytes) r')) (snd ?rest))"
            using onward [OF _ deliv, of b bs] read 3(4) Cons left by simp
          have list: "?list_read n p = (case ?rest of
              (Inl e, q) \<Rightarrow> (Inl e, Source (bytes @ buffered_bytes inner) (unat (br_remaining r))) | (Inr cs, q) \<Rightarrow> (Inr (bytes @ cs), q))"
            unfolding p bytes using 3(6,7) by (intro list_read_rest) simp_all
          have exact: "bounded_read_exact n r = (case bounded_read_exact (n - length bytes) r' of
               (Inl e, r) \<Rightarrow> (Inl e, r) | (Inr after, r) \<Rightarrow> (Inr (bytes @ after), r))"
            using read 3(4) False unfolding Cons
            by (simp add: bounded_read_exact.simps [of n r] split: sum.split prod.split)
          show ?thesis unfolding list exact using IH
            by (cases "bounded_read_exact (n - length bytes) r'"; cases ?rest; cases "fst ?rest") auto
        qed
      qed
    qed
  qed
  then show "fst (bounded_read_exact n r) = fst (list_read_exact n p :: ('e io_error + u8 list) \<times> byte_source)"
    and "is_ok (fst (bounded_read_exact n r)) \<Longrightarrow> delivers (snd (bounded_read_exact n r)) (snd (list_read_exact n p :: ('e io_error + u8 list) \<times> byte_source))"
    by blast+
qed

interpretation streamed: related_readers bounded_read_exact list_read_exact reserve reserve "- 1" delivers "\<lambda>_ _. True"
  for reserve
  by unfold_locales (simp_all add: bounded_read_exact_delivers)

lemma inspect_reader_bytes:
  assumes "file_quiet events"
  shows "fst (inspect_reader reserve (buffered_new events) limits)
    = fst (inspect_bounded reserve list_read_exact limits (Source (file_bytes events) (unat (il_maximum_header_bytes limits))))"
  unfolding inspect_reader_def bounded_new_def
  by (rule streamed.same_inspection) (simp_all add: delivers_def buffered_new_def assms)

subsection \<open>What an inspection draws from the file\<close>

text \<open>
  The bytes delivered are those the header limit has been charged with, also when a read failed; the
  file is ahead of them by less than a buffer.
\<close>

definition draws :: "nat \<Rightarrow> nat \<Rightarrow> 'e bounded_reader \<Rightarrow> bool" where
  "draws whole limit r \<longleftrightarrow> length (buffered_bytes (br_inner r)) + limit = whole + unat (br_remaining r)
     \<and> unat (br_remaining r) \<le> limit \<and> length (bf_buffer (br_inner r)) < buffer_capacity"

lemma bounded_read_draws:
  assumes "draws whole limit r" and "bounded_read n r = (x, r')"
  shows "draws whole limit r'"
proof (cases "n = 0")
  case False
  from assms(2) False show ?thesis
  proof (cases rule: bounded_read_cases)
    case (2 e inner allowed)
    with assms(1) buffered_read_failed [OF 2(3)] show ?thesis by (simp add: draws_def)
  next
    case (3 bytes inner allowed)
    with assms(1) buffered_read_bytes [OF 3(3)] buffered_read_buffer [OF 3(3,2)] show ?thesis by (auto simp: draws_def)
  qed (use assms(1) in simp)
qed (use assms in \<open>simp add: bounded_read_def\<close>)

lemma bounded_read_exact_draws:
  "draws whole limit r \<Longrightarrow> draws whole limit (snd (bounded_read_exact n r))"
proof (induction n r rule: bounded_read_exact.induct)
  case (1 n r)
  show ?case
  proof (cases "n = 0")
    case False
    obtain x r' where read: "bounded_read n r = (x, r')" by fastforce
    have r': "draws whole limit r'" using bounded_read_draws [OF 1(3) read] .
    have again: "x = Inl IoInterrupted \<Longrightarrow> draws whole limit (snd (bounded_read_exact n r'))"
      using "1.IH"(1) [OF False _ refl refl r'] read by simp
    have onward: "x = Inr (b # bs) \<Longrightarrow> draws whole limit (snd (bounded_read_exact (n - length (b # bs)) r'))" for b bs
      using "1.IH"(2) [OF False _ refl refl r'] read by simp
    show ?thesis
    proof (cases x)
      case (Inl e)
      with read False r' again show ?thesis by (cases e) (simp_all add: bounded_read_exact.simps [of n r])
    next
      case (Inr bytes)
      show ?thesis
      proof (cases bytes)
        case (Cons b bs)
        with Inr onward read False show ?thesis
          by (cases "bounded_read_exact (n - length (b # bs)) r'")
            (auto simp add: bounded_read_exact.simps [of n r] split: sum.splits)
      qed (use read False r' Inr in \<open>simp add: bounded_read_exact.simps [of n r]\<close>)
    qed
  qed (use 1(3) in \<open>simp add: bounded_read_exact.simps\<close>)
qed

interpretation drawn: related_readers bounded_read_exact bounded_read_exact reserve reserve "- 1"
    "\<lambda>r r'. r' = r \<and> draws whole limit r" "\<lambda>r r'. r' = r \<and> draws whole limit r"
  for reserve whole limit
  by unfold_locales (auto intro: bounded_read_exact_draws)

lemma inspect_reader_draws:
  "length (file_bytes events)
    \<le> length (buffered_bytes (br_inner (snd (inspect_reader reserve (buffered_new events) limits)))) + unat (il_maximum_header_bytes limits)
   \<and> length (bf_buffer (br_inner (snd (inspect_reader reserve (buffered_new events) limits)))) < buffer_capacity"
proof -
  let ?start = "bounded_new (buffered_new events) (il_maximum_header_bytes limits)"
  let ?whole = "length (file_bytes events)" and ?limit = "unat (il_maximum_header_bytes limits)"
  have "draws ?whole ?limit (snd (inspect_reader reserve (buffered_new events) limits))"
    unfolding inspect_reader_def
    using drawn.same_inspection(2) [of ?start ?start ?whole ?limit limits]
    by (simp add: draws_def bounded_new_def buffered_new_def buffer_capacity_def)
  then show ?thesis unfolding draws_def by linarith
qed

lemma inspect_reader_reserve:
  assumes "\<And>n. n \<le> unat (il_maximum_string_bytes limits) \<Longrightarrow> reserve n = reserve' n"
  shows "fst (inspect_reader reserve reader limits) = fst (inspect_reader reserve' reader limits)"
proof -
  have "related_readers bounded_read_exact bounded_read_exact reserve reserve' (il_maximum_string_bytes limits) (=) (=)"
    by unfold_locales (use assms in auto)
  from related_readers.same_inspection(1) [OF this refl order_refl] show ?thesis by (simp add: inspect_reader_def)
qed

end
