(* ===== verification/Gguf_Format.thy ===== *)
theory Gguf_Format
  imports Gguf_Readers
begin

section \<open>The GGUF header format\<close>

text \<open>
  The grammar of the header, as values and their bytes, and what the inspection of a header of that
  form collects. Each reading function accepts exactly the bytes of a value that keeps the limits.
\<close>

subsection \<open>Values and their bytes\<close>

datatype gguf_value = GgufScalar u32 "u8 list" | GgufText "u8 list" | GgufScalars u32 u64 "u8 list" | GgufTexts "u8 list list"

definition gguf_string :: "u8 list \<Rightarrow> u8 list" where
  "gguf_string bytes = word_bytes 8 (of_nat (length bytes) :: u64) @ bytes"

fun gguf_type :: "gguf_value \<Rightarrow> u32" where
  "gguf_type (GgufScalar t bytes) = t"
| "gguf_type (GgufText bytes) = type_string"
| "gguf_type (GgufScalars t n bytes) = type_array"
| "gguf_type (GgufTexts texts) = type_array"

fun gguf_value_bytes :: "gguf_value \<Rightarrow> u8 list" where
  "gguf_value_bytes (GgufScalar t bytes) = bytes"
| "gguf_value_bytes (GgufText bytes) = gguf_string bytes"
| "gguf_value_bytes (GgufScalars t n bytes) = word_bytes 4 t @ word_bytes 8 n @ bytes"
| "gguf_value_bytes (GgufTexts texts) =
     word_bytes 4 type_string @ word_bytes 8 (of_nat (length texts) :: u64) @ concat (map gguf_string texts)"

fun gguf_value_fits :: "inspection_limits \<Rightarrow> gguf_value \<Rightarrow> bool" where
  "gguf_value_fits limits (GgufScalar t bytes) = (map_option unat (fixed_width t) = Some (length bytes))"
| "gguf_value_fits limits (GgufText bytes) = (length bytes \<le> unat (il_maximum_string_bytes limits))"
| "gguf_value_fits limits (GgufScalars t n bytes) =
     (n \<le> il_maximum_array_elements limits \<and> length bytes < 2 ^ 64
      \<and> map_option (\<lambda>width. unat n * unat width) (fixed_width t) = Some (length bytes))"
| "gguf_value_fits limits (GgufTexts texts) =
     (length texts \<le> unat (il_maximum_array_elements limits)
      \<and> list_all (\<lambda>text. length text \<le> unat (il_maximum_string_bytes limits)) texts)"

text \<open>The number a scalar of an integer type stands for, if it is not negative.\<close>

definition gguf_integer :: "u32 \<Rightarrow> u8 list \<Rightarrow> u64 option" where
  "gguf_integer t bytes =
    (let signed = (\<lambda>i :: int. if i < 0 then None else Some (of_int i)) in
     if t = type_uint8 then Some (ucast (word_of_bytes bytes :: 8 word))
     else if t = type_uint16 then Some (ucast (word_of_bytes bytes :: 16 word))
     else if t = type_uint32 then Some (ucast (word_of_bytes bytes :: 32 word))
     else if t = type_uint64 then Some (word_of_bytes bytes)
     else if t = type_int8 then signed (sint (word_of_bytes bytes :: 8 word))
     else if t = type_int16 then signed (sint (word_of_bytes bytes :: 16 word))
     else if t = type_int32 then signed (sint (word_of_bytes bytes :: 32 word))
     else if t = type_int64 then signed (sint (word_of_bytes bytes :: 64 word))
     else None)"

fun value_integer :: "gguf_value \<Rightarrow> u64 option" where
  "value_integer (GgufScalar t bytes) = gguf_integer t bytes"
| "value_integer _ = None"

fun ok_value :: "'e + 'a \<Rightarrow> 'a option" where
  "ok_value (Inl e) = None"
| "ok_value (Inr a) = Some a"

lemma ok_value_Some [simp]: "ok_value x = Some a \<longleftrightarrow> x = Inr a"
  by (cases x) simp_all

subsection \<open>What is collected from an entry\<close>

definition collect_entry :: "(usize \<Rightarrow> bool) \<Rightarrow> rust_string \<times> gguf_value \<Rightarrow> collected_metadata \<Rightarrow> collected_metadata option" where
  "collect_entry reserve entry c =
    (case entry of (key, v) \<Rightarrow>
       if key = text_of ''general.architecture'' then
         (case v of
            GgufText bytes \<Rightarrow>
              if cm_architecture c = None \<and> reserve (length bytes) then
                (case string_from_utf8 bytes of Inr name \<Rightarrow> Some (c\<lparr>cm_architecture := Some name\<rparr>) | Inl _ \<Rightarrow> None)
              else None
          | _ \<Rightarrow> None)
       else if key = text_of ''general.file_type'' then
         (case Option.bind (value_integer v) narrow of
            Some file_type \<Rightarrow> if cm_file_type c = None then Some (c\<lparr>cm_file_type := Some file_type\<rparr>) else None
          | None \<Rightarrow> None)
       else if key = text_of ''tokenizer.ggml.tokens'' then
         (case v of
            GgufTexts texts \<Rightarrow>
              (case narrow (of_nat (length texts)) of
                 Some n \<Rightarrow>
                   if cm_vocabulary_size c = None then Some (c\<lparr>cm_vocabulary_size := Some n\<rparr>) else None
               | None \<Rightarrow> None)
          | _ \<Rightarrow> None)
       else
         (case numeric_target key of
            Some (architecture, field) \<Rightarrow>
              Option.bind (value_integer v) (\<lambda>n. 
                ok_value (store_architecture_value field architecture n c :: unit metadata_error + collected_metadata))
          | None \<Rightarrow> Some c))"

fun collect_entries :: "(usize \<Rightarrow> bool) \<Rightarrow> (rust_string \<times> gguf_value) list \<Rightarrow> collected_metadata \<Rightarrow> collected_metadata option" where
  "collect_entries reserve [] c = Some c"
| "collect_entries reserve (entry # entries) c =
     Option.bind (collect_entry reserve entry c) (collect_entries reserve entries)"

definition entry_bytes :: "rust_string \<times> gguf_value \<Rightarrow> u8 list" where
  "entry_bytes entry = gguf_string (utf8_encode (fst entry)) @ word_bytes 4 (gguf_type (snd entry))
     @ gguf_value_bytes (snd entry)"

definition entry_fits :: "(usize \<Rightarrow> bool) \<Rightarrow> inspection_limits \<Rightarrow> rust_string \<times> gguf_value \<Rightarrow> bool" where
  "entry_fits reserve limits entry \<longleftrightarrow> string_ok (fst entry)
     \<and> string_len (fst entry) \<le> unat (il_maximum_string_bytes limits) \<and> reserve (string_len (fst entry))
     \<and> gguf_value_fits limits (snd entry)"

definition gguf_header :: "u32 \<Rightarrow> u64 \<Rightarrow> (rust_string \<times> gguf_value) list \<Rightarrow> u8 list" where
  "gguf_header version tensors entries = gguf_magic @ word_bytes 4 version @ word_bytes 8 tensors
     @ word_bytes 8 (of_nat (length entries) :: u64) @ concat (map entry_bytes entries)"

subsection \<open>What the reading functions accept\<close>

text \<open>The list reader with its type of errors named.\<close>

abbreviation list_rx :: "'e itself \<Rightarrow> ('e, byte_source) read_exact" where
  "list_rx _ \<equiv> list_read_exact"

definition takes :: "byte_source \<Rightarrow> u8 list \<Rightarrow> byte_source \<Rightarrow> bool" where
  "takes p bytes q \<longleftrightarrow> source_bytes p = bytes @ source_bytes q \<and> source_left p = length bytes + source_left q"

lemma takes_append: "takes p (as @ bs) q \<longleftrightarrow> (\<exists>m. takes p as m \<and> takes m bs q)"
  by (auto simp: takes_def intro: exI [of _ "Source (bs @ source_bytes q) (length bs + source_left q)"])

lemma takes_nothing: "takes p [] q \<longleftrightarrow> q = p"
  by (cases p; cases q) (auto simp: takes_def)

lemma read_exact_takes: "read_exact (list_rx TYPE('e)) n p = (Inr bytes, q) \<longleftrightarrow> length bytes = n \<and> takes p bytes q"
proof -
  have "(list_rx TYPE('e)) n p = (Inr bytes, q) \<longleftrightarrow> length bytes = n \<and> takes p bytes q"
    by (cases p; cases q) (auto simp: list_read_exact_def takes_def append_eq_conv_conj)
  then show ?thesis by (auto simp: read_exact_def split: prod.splits)
qed

lemma read_word_takes:
  assumes "8 * k = LENGTH('a::len)"
  shows "read_word k (list_rx TYPE('e)) p = (Inr (w :: 'a word), q) \<longleftrightarrow> takes p (word_bytes k w) q"
proof
  assume "read_word k (list_rx TYPE('e)) p = (Inr w, q)"
  then obtain bytes where "length bytes = k" "takes p bytes q" "w = word_of_bytes bytes"
    by (auto simp: read_word_def bind_step_Inr read_exact_takes)
  with word_bytes_of_bytes [where 'a = 'a, of bytes] assms show "takes p (word_bytes k w) q" by simp
next
  assume "takes p (word_bytes k w) q"
  then show "read_word k (list_rx TYPE('e)) p = (Inr w, q)"
    unfolding read_word_def bind_step_Inr read_exact_takes using word_of_bytes_bytes [OF assms, of w]
    by (intro exI [of _ "word_bytes k w"] exI [of _ q]) simp
qed

lemma read_u32_takes: "read_u32 (list_rx TYPE('e)) p = (Inr w, q) \<longleftrightarrow> takes p (word_bytes 4 w) q"
  unfolding read_u32_def by (rule read_word_takes) simp

lemma read_u64_takes: "read_u64 (list_rx TYPE('e)) p = (Inr w, q) \<longleftrightarrow> takes p (word_bytes 8 w) q"
  unfolding read_u64_def by (rule read_word_takes) simp

lemma takes_some: "(\<exists>bytes. length bytes = m + n \<and> takes p bytes q)
    \<longleftrightarrow> (\<exists>as bs r. length as = m \<and> length bs = n \<and> takes p as r \<and> takes r bs q)"
proof
  assume "\<exists>bytes. length bytes = m + n \<and> takes p bytes q"
  then obtain bytes where b: "length bytes = m + n" "takes p (take m bytes @ drop m bytes) q" by auto
  then show "\<exists>as bs r. length as = m \<and> length bs = n \<and> takes p as r \<and> takes r bs q"
    unfolding takes_append by (intro exI [of _ "take m bytes"] exI [of _ "drop m bytes"]) auto
next
  assume "\<exists>as bs r. length as = m \<and> length bs = n \<and> takes p as r \<and> takes r bs q"
  then show "\<exists>bytes. length bytes = m + n \<and> takes p bytes q"
    by (metis takes_append length_append)
qed

lemma skip_bytes_takes: "skip_bytes (list_rx TYPE('e)) n p = (Inr (), q) \<longleftrightarrow> (\<exists>bytes. length bytes = unat n \<and> takes p bytes q)"
proof (induction n arbitrary: p rule: measure_induct_rule [of unat])
  case (less n)
  show ?case
  proof (cases "n = 0")
    case True
    then show ?thesis by (auto simp: skip_bytes.simps takes_nothing)
  next
    case False
    define chunk where "chunk = unat (min n 8192)"
    have "chunk = min (unat n) 8192" by (simp add: chunk_def min_def word_le_nat_alt)
    then have chunk: "\<not> skip_buffer_bytes < chunk" "chunk \<le> unat n" by (simp_all add: skip_buffer_bytes_def)
    have rest: "checked_sub n (of_nat chunk) = Some (n - of_nat chunk)" "unat (n - of_nat chunk) = unat n - chunk"
      unfolding chunk_def by (simp_all add: checked_sub_def unat_sub)
    have IH: "skip_bytes (list_rx TYPE('e)) (n - of_nat chunk) r = (Inr (), q)
        \<longleftrightarrow> (\<exists>bytes. length bytes = unat n - chunk \<and> takes r bytes q)" for r
      using less.IH [OF skip_decreases [OF False, folded chunk_def, OF rest(1)]] by (simp only: rest(2))
    have "skip_bytes (list_rx TYPE('e)) n p = (Inr (), q)
        \<longleftrightarrow> (\<exists>as r. length as = chunk \<and> takes p as r \<and> skip_bytes (list_rx TYPE('e)) (n - of_nat chunk) r = (Inr (), q))"
      using False chunk(1) rest(1) unfolding skip_bytes.simps [of _ n] Let_def chunk_def [symmetric]
      by (simp add: bind_step_Inr read_exact_takes)
    also have "\<dots> \<longleftrightarrow> (\<exists>bytes. length bytes = chunk + (unat n - chunk) \<and> takes p bytes q)"
      unfolding takes_some IH by blast
    finally show ?thesis using chunk(2) by simp
  qed
qed

lemma unat_of_length: "n < 2 ^ 64 \<Longrightarrow> unat (of_nat n :: u64) = n"
  by (simp add: unat_of_nat take_bit_nat_eq_self)

lemma below_word: "n \<le> unat (w :: u64) \<Longrightarrow> n < 2 ^ 64"
proof -
  have "unat w < 2 ^ LENGTH(64)" by (rule unsigned_less)
  then show "n \<le> unat w \<Longrightarrow> n < 2 ^ 64" by simp
qed

text \<open>A counted read: the number of things that follow, and then that many.\<close>

lemma counted_takes:
  fixes maximum :: u64
  shows "(\<exists>n r. takes p (word_bytes 8 n) r \<and> n \<le> maximum \<and> (\<exists>x. m x = unat n \<and> takes r (f x) q \<and> P x))
    \<longleftrightarrow> (\<exists>x. m x \<le> unat maximum \<and> takes p (word_bytes 8 (of_nat (m x) :: u64) @ f x) q \<and> P x)"
proof
  assume "\<exists>n r. takes p (word_bytes 8 n) r \<and> n \<le> maximum \<and> (\<exists>x. m x = unat n \<and> takes r (f x) q \<and> P x)"
  then obtain n r x where x: "takes p (word_bytes 8 n) r" "n \<le> maximum" "m x = unat n" "takes r (f x) q" "P x" by blast
  then have "of_nat (m x) = n" "m x \<le> unat maximum" by (simp_all add: word_le_nat_alt)
  with x show "\<exists>x. m x \<le> unat maximum \<and> takes p (word_bytes 8 (of_nat (m x) :: u64) @ f x) q \<and> P x"
    unfolding takes_append by blast
next
  assume "\<exists>x. m x \<le> unat maximum \<and> takes p (word_bytes 8 (of_nat (m x) :: u64) @ f x) q \<and> P x"
  then obtain x where x: "m x \<le> unat maximum" "takes p (word_bytes 8 (of_nat (m x) :: u64) @ f x) q" "P x" by blast
  have "unat (of_nat (m x) :: u64) = m x" by (rule unat_of_length [OF below_word [OF x(1)]])
  with x show "\<exists>n r. takes p (word_bytes 8 n) r \<and> n \<le> maximum \<and> (\<exists>x. m x = unat n \<and> takes r (f x) q \<and> P x)"
    unfolding takes_append word_le_nat_alt by metis
qed

lemma string_takes:
  "gguf_read_string reserve (list_rx TYPE('e)) maximum p = (Inr s, q) \<longleftrightarrow> string_ok s
     \<and> string_len s \<le> unat maximum \<and> reserve (string_len s) \<and> takes p (gguf_string (utf8_encode s)) q"
proof -
  have body: "(if maximum < n then (Inl MetaLimitExceeded, r)
      else if \<not> reserve (unat n) then (Inl MetaLimitExceeded, r)
      else bind_step (read_exact (list_rx TYPE('e)) (unat n) r) (\<lambda>bytes r.
        (map_err (\<lambda>_. MetaInvalidUtf8) (string_from_utf8 bytes), r))) = (Inr s, q)
    \<longleftrightarrow> n \<le> maximum \<and> (\<exists>bytes. length bytes = unat n \<and> takes r bytes q
          \<and> (reserve (length bytes) \<and> string_ok s \<and> bytes = utf8_encode s))" for n :: u64 and r
    by (auto simp: bind_step_Inr read_exact_takes string_from_utf8_Inr)
  have "gguf_read_string reserve (list_rx TYPE('e)) maximum p = (Inr s, q)
    \<longleftrightarrow> (\<exists>n r. takes p (word_bytes 8 n) r \<and> n \<le> maximum
          \<and> (\<exists>bytes. length bytes = unat n \<and> takes r bytes q \<and> (reserve (length bytes) \<and> string_ok s \<and> bytes = utf8_encode s)))"
    unfolding gguf_read_string_def bind_step_Inr read_u64_takes body ..
  then show ?thesis unfolding counted_takes [where m = length and f = "\<lambda>bytes. bytes"]
    by (auto simp: gguf_string_def string_len_def)
qed

lemma skip_string_takes:
  "skip_string (list_rx TYPE('e)) maximum p = (Inr (), q)
     \<longleftrightarrow> (\<exists>text. length text \<le> unat maximum \<and> takes p (gguf_string text) q)"
proof -
  have "skip_string (list_rx TYPE('e)) maximum p = (Inr (), q)
    \<longleftrightarrow> (\<exists>n r. takes p (word_bytes 8 n) r \<and> n \<le> maximum \<and> (\<exists>text. length text = unat n \<and> takes r text q \<and> True))"
    unfolding skip_string_def bind_step_Inr read_u64_takes
    by (auto simp: skip_bytes_takes not_less not_le split: if_splits)
  then show ?thesis unfolding counted_takes [where m = length and f = "\<lambda>text. text"] by (simp add: gguf_string_def)
qed

lemma ex_list_Suc: "(\<exists>xs. length xs = Suc n \<and> P xs) \<longleftrightarrow> (\<exists>x xs. length xs = n \<and> P (x # xs))"
  by (metis length_Suc_conv)

lemma skip_strings_takes:
  "skip_strings (list_rx TYPE('e)) maximum n p = (Inr (), q)
     \<longleftrightarrow> (\<exists>texts. length texts = n \<and> takes p (concat (map gguf_string texts)) q
           \<and> list_all (\<lambda>text. length text \<le> unat maximum) texts)"
proof (induction n arbitrary: p)
  case 0
  show ?case by (auto simp: takes_nothing)
next
  case (Suc n)
  have "skip_strings (list_rx TYPE('e)) maximum (Suc n) p = (Inr (), q)
    \<longleftrightarrow> (\<exists>r. skip_string (list_rx TYPE('e)) maximum p = (Inr (), r) \<and> skip_strings (list_rx TYPE('e)) maximum n r = (Inr (), q))"
    by (auto simp: bind_step_Inr)
  also have "\<dots> \<longleftrightarrow> (\<exists>text texts. length texts = n \<and> takes p (gguf_string text @ concat (map gguf_string texts)) q
      \<and> list_all (\<lambda>text. length text \<le> unat maximum) (text # texts))"
    unfolding Suc.IH skip_string_takes takes_append by auto
  finally show ?case unfolding ex_list_Suc by simp
qed

lemma width_None [simp]: "fixed_width type_array = None" "fixed_width type_string = None"
  by (simp_all add: fixed_width_def)

lemma checked_mul_length: "(\<exists>n. checked_mul a b = Some n \<and> m = unat n) \<longleftrightarrow> m < 2 ^ 64 \<and> unat a * unat b = m" for a b :: u64
  by (cases "unat a * unat b < 2 ^ 64") (auto simp: checked_mul_def unat_mult_lem [THEN iffD1])

lemma skip_elements_takes:
  "skip_elements (list_rx TYPE('e)) limits t count p = (Inr (), q)
    \<longleftrightarrow> (\<exists>bytes. length bytes < 2 ^ 64 \<and> map_option (\<lambda>width. unat count * unat width) (fixed_width t) = Some (length bytes)
          \<and> takes p bytes q)
      \<or> t = type_string \<and> (\<exists>texts. length texts = unat count \<and> takes p (concat (map gguf_string texts)) q
          \<and> list_all (\<lambda>text. length text \<le> unat (il_maximum_string_bytes limits)) texts)"
proof (cases "fixed_width t")
  case None
  then show ?thesis by (auto simp: skip_elements_def skip_strings_takes)
next
  case (Some width)
  then have "t \<noteq> type_string" by auto
  have "skip_elements (list_rx TYPE('e)) limits t count p = (Inr (), q)
      \<longleftrightarrow> (\<exists>bytes. (\<exists>n. checked_mul count width = Some n \<and> length bytes = unat n) \<and> takes p bytes q)"
    by (auto simp: skip_elements_def Some skip_bytes_takes split: option.split)
  with Some \<open>t \<noteq> type_string\<close> show ?thesis unfolding checked_mul_length by simp
qed

lemma skip_array_takes:
  "bind_step (read_u32 (list_rx TYPE('e)) p) (\<lambda>element_type r.
     if element_type = type_array then (Inl MetaInvalidFormat, r)
     else bind_step (read_u64 (list_rx TYPE('e)) r) (\<lambda>count r.
       bind_step (validate_array_count count limits, r) (\<lambda>_ r.
       skip_elements (list_rx TYPE('e)) limits element_type count r))) = (Inr (), q)
   \<longleftrightarrow> (\<exists>v. gguf_type v = type_array \<and> gguf_value_fits limits v \<and> takes p (gguf_value_bytes v) q
         \<and> (\<forall>t bytes. v \<noteq> GgufScalar t bytes))"
  (is "?array \<longleftrightarrow> ?holds")
proof -
  let ?max = "il_maximum_array_elements limits"
  have count: "bind_step (validate_array_count n limits, r) (\<lambda>_ r. skip_elements (list_rx TYPE('e)) limits t n r) = (Inr (), q)
      \<longleftrightarrow> n \<le> ?max \<and> skip_elements (list_rx TYPE('e)) limits t n r = (Inr (), q)" for n t r
    by (auto simp: validate_array_count_def bind_step_Inr)
  have "?array \<longleftrightarrow> (\<exists>t r1 n r2. takes p (word_bytes 4 t) r1 \<and> t \<noteq> type_array \<and> takes r1 (word_bytes 8 n) r2 \<and> n \<le> ?max
      \<and> skip_elements (list_rx TYPE('e)) limits t n r2 = (Inr (), q))" (is "_ \<longleftrightarrow> ?steps")
    unfolding bind_step_Inr [of "read_u32 _ _"] read_u32_takes
    by (intro ex_cong1 conj_cong refl)
      (simp add: bind_step_Inr [of "read_u64 _ _"] read_u64_takes count)
  also have "?steps \<longleftrightarrow> ?holds"
  proof
    assume ?steps
    then obtain t r1 n r2 where steps: "takes p (word_bytes 4 t) r1" "takes r1 (word_bytes 8 n) r2" "n \<le> ?max"
      "skip_elements (list_rx TYPE('e)) limits t n r2 = (Inr (), q)" by blast
    from steps(4) consider
        (scalars) bytes where "length bytes < 2 ^ 64" "map_option (\<lambda>width. unat n * unat width) (fixed_width t) = Some (length bytes)"
          "takes r2 bytes q"
      | (texts) texts where "t = type_string" "length texts = unat n" "takes r2 (concat (map gguf_string texts)) q"
          "list_all (\<lambda>text. length text \<le> unat (il_maximum_string_bytes limits)) texts"
      unfolding skip_elements_takes by blast
    then show ?holds
    proof cases
      case scalars
      with steps show ?holds
        by (intro exI [of _ "GgufScalars t n bytes"]) (auto simp: takes_append)
    next
      case texts
      then have "of_nat (length texts) = n" by simp
      with texts steps show ?holds
        by (intro exI [of _ "GgufTexts texts"]) (auto simp: takes_append word_le_nat_alt)
    qed
  next
    assume ?holds
    then obtain v where v: "gguf_type v = type_array" "gguf_value_fits limits v" "takes p (gguf_value_bytes v) q"
      "\<And>t bytes. v \<noteq> GgufScalar t bytes" by blast
    show ?steps
    proof (cases v)
      case (GgufScalars t n bytes)
      with v have "t \<noteq> type_array" by auto
      moreover obtain r1 r2 where "takes p (word_bytes 4 t) r1" "takes r1 (word_bytes 8 n) r2" "takes r2 bytes q"
        using v GgufScalars by (auto simp: takes_append)
      moreover have "skip_elements (list_rx TYPE('e)) limits t n r2 = (Inr (), q)"
        unfolding skip_elements_takes using v GgufScalars calculation by auto
      ultimately show ?steps using v GgufScalars by auto
    next
      case (GgufTexts texts)
      then have "unat (of_nat (length texts) :: u64) = length texts" using v below_word [of "length texts" ?max] by (auto intro: unat_of_length)
      moreover obtain r1 r2 where r: "takes p (word_bytes 4 type_string) r1" "takes r1 (word_bytes 8 (of_nat (length texts) :: u64)) r2"
          "takes r2 (concat (map gguf_string texts)) q" using v GgufTexts by (auto simp: takes_append)
      moreover have "skip_elements (list_rx TYPE('e)) limits type_string (of_nat (length texts)) r2 = (Inr (), q)"
        unfolding skip_elements_takes using v GgufTexts calculation by auto
      moreover have "of_nat (length texts) \<le> ?max" using v GgufTexts calculation(1) by (simp add: word_le_nat_alt)
      ultimately show ?steps by (intro exI [of _ type_string]) auto
    qed (use v in auto)
  qed
  finally show ?thesis .
qed

lemma scalar_values: "fixed_width t \<noteq> None \<Longrightarrow> (\<exists>v. gguf_type v = t \<and> P v) \<longleftrightarrow> (\<exists>bytes. P (GgufScalar t bytes))"
proof
  assume "fixed_width t \<noteq> None" and "\<exists>v. gguf_type v = t \<and> P v"
  then obtain v where "fixed_width t \<noteq> None" "gguf_type v = t" "P v" by blast
  then show "\<exists>bytes. P (GgufScalar t bytes)" by (cases v) auto
next
  assume "\<exists>bytes. P (GgufScalar t bytes)"
  then obtain bytes where "P (GgufScalar t bytes)" ..
  then show "\<exists>v. gguf_type v = t \<and> P v" by (intro exI [of _ "GgufScalar t bytes"]) simp
qed

lemma text_values:
  "(\<exists>v. gguf_type v = type_string \<and> gguf_value_fits limits v \<and> P v)
    \<longleftrightarrow> (\<exists>text. length text \<le> unat (il_maximum_string_bytes limits) \<and> P (GgufText text))"
proof
  assume "\<exists>v. gguf_type v = type_string \<and> gguf_value_fits limits v \<and> P v"
  then obtain v where "gguf_type v = type_string" "gguf_value_fits limits v" "P v" by blast
  then show "\<exists>text. length text \<le> unat (il_maximum_string_bytes limits) \<and> P (GgufText text)" by (cases v) auto
next
  assume "\<exists>text. length text \<le> unat (il_maximum_string_bytes limits) \<and> P (GgufText text)"
  then obtain bytes where "length bytes \<le> unat (il_maximum_string_bytes limits)" "P (GgufText bytes)" by blast
  then show "\<exists>v. gguf_type v = type_string \<and> gguf_value_fits limits v \<and> P v" by (intro exI [of _ "GgufText bytes"]) simp
qed

lemma skip_value_takes:
  "skip_value (list_rx TYPE('e)) t limits p = (Inr (), q)
     \<longleftrightarrow> (\<exists>v. gguf_type v = t \<and> gguf_value_fits limits v \<and> takes p (gguf_value_bytes v) q)"
proof (cases "fixed_width t")
  case (Some width)
  then have "(\<exists>v. gguf_type v = t \<and> P v) \<longleftrightarrow> (\<exists>bytes. P (GgufScalar t bytes))" for P by (intro scalar_values) simp
  with Some show ?thesis by (simp add: skip_value_def skip_bytes_takes eq_commute [of "length _"])
next
  case None
  consider "t = type_string" | "t = type_array" | "t \<noteq> type_string" "t \<noteq> type_array" by blast
  then show ?thesis
  proof cases
    case 1
    then show ?thesis by (simp add: skip_value_def skip_string_takes text_values)
  next
    case 2
    have "gguf_type v = type_array \<and> gguf_value_fits limits v \<Longrightarrow> \<forall>t bytes. v \<noteq> GgufScalar t bytes" for v
      by (cases v) auto
    then show ?thesis using 2 by (auto simp: skip_value_def skip_array_takes)
  next
    case 3
    have "\<not> (gguf_type v = t \<and> gguf_value_fits limits v)" for v using 3 None by (cases v) auto
    with 3 None show ?thesis by (auto simp: skip_value_def)
  qed
qed

lemma signed_to_u64_Inr: "signed_to_u64 i = Inr n \<longleftrightarrow> \<not> i < 0 \<and> n = of_int i"
  by (auto simp: signed_to_u64_def)

lemma read_unsigned_takes:
  "read_unsigned TYPE('a::len) k (list_rx TYPE('e)) p = (Inr n, q)
    \<longleftrightarrow> (\<exists>bytes. k = length bytes \<and> takes p bytes q \<and> ucast (word_of_bytes bytes :: 'a word) = n)"
  unfolding read_unsigned_def read_word_def bind_step_Inr read_exact_takes by auto

lemma read_plain_takes:
  "read_u64 (list_rx TYPE('e)) p = (Inr n, q) \<longleftrightarrow> (\<exists>bytes. 8 = length bytes \<and> takes p bytes q \<and> word_of_bytes bytes = n)"
  unfolding read_u64_def read_word_def bind_step_Inr read_exact_takes by auto

lemma read_signed_takes:
  "bind_step (read_signed TYPE('a::len) k (list_rx TYPE('e)) p) (\<lambda>i r. (signed_to_u64 i, r)) = (Inr n, q)
    \<longleftrightarrow> (\<exists>bytes. k = length bytes \<and> takes p bytes q
          \<and> (let i = sint (word_of_bytes bytes :: 'a word) in if i < 0 then None else Some (of_int i)) = Some n)"
proof -
  have "bind_step (read_signed TYPE('a) k (list_rx TYPE('e)) p) (\<lambda>i r. (signed_to_u64 i, r)) = (Inr n, q)
    \<longleftrightarrow> (\<exists>bytes. (length bytes = k \<and> takes p bytes q)
          \<and> (signed_to_u64 (sint (word_of_bytes bytes :: 'a word)) :: 'e metadata_error + u64) = Inr n)"
    unfolding read_signed_def read_word_def bind_step_Inr read_exact_takes by auto
  moreover have "(if i < 0 then None else Some (of_int i)) = Some n \<longleftrightarrow> (signed_to_u64 i :: 'e metadata_error + u64) = Inr n" for i
    unfolding signed_to_u64_def by (cases "i < 0") (simp_all only: if_True if_False sum.inject option.inject simp_thms sum.distinct option.distinct)
  ultimately show ?thesis unfolding Let_def by (simp only: conj_assoc eq_commute [of "length _" k])
qed

lemma read_integer_takes:
  "read_integer (list_rx TYPE('e)) t p = (Inr n, q)
     \<longleftrightarrow> (\<exists>v. gguf_type v = t \<and> gguf_value_fits limits v \<and> takes p (gguf_value_bytes v) q \<and> value_integer v = Some n)"
proof (cases "t \<in> {0, 1, 2, 3, 4, 5, 10, 11}")
  case True
  then have "fixed_width t \<noteq> None" by (auto simp: fixed_width_def)
  have width: "P 1 \<Longrightarrow> P 2 \<Longrightarrow> P 4 \<Longrightarrow> P 8 \<Longrightarrow> P (unat (the (fixed_width t)))" for P
    using True by (auto simp: fixed_width_def)
  have "read_integer (list_rx TYPE('e)) t p = (Inr n, q)
      \<longleftrightarrow> (\<exists>bytes. unat (the (fixed_width t)) = length bytes \<and> takes p bytes q \<and> gguf_integer t bytes = Some n)"
  proof -
    from True consider "t = 0" | "t = 1" | "t = 2" | "t = 3" | "t = 4" | "t = 5" | "t = 10" | "t = 11" by auto
    then show ?thesis
      by cases (simp_all add: read_integer_def read_unsigned_takes read_plain_takes read_signed_takes fixed_width_def
          gguf_integer_def Let_def)
  qed
  with \<open>fixed_width t \<noteq> None\<close> show ?thesis unfolding scalar_values [OF \<open>fixed_width t \<noteq> None\<close>] by auto
next
  case False
  then have "\<not> (gguf_type v = t \<and> value_integer v = Some n)" for v
    by (cases v) (auto simp: gguf_integer_def Let_def)
  with False show ?thesis by (auto simp: read_integer_def)
qed

lemma bind_pure: "bind_step (x, p) f = (Inr b, q) \<longleftrightarrow> (\<exists>a. x = Inr a \<and> f a p = (Inr b, q))"
  by (cases x) auto

lemma token_array_takes:
  "read_token_array (list_rx TYPE('e)) t limits c p = (Inr c', q)
    \<longleftrightarrow> t = type_array \<and> cm_vocabulary_size c = None
      \<and> (\<exists>texts n. gguf_value_fits limits (GgufTexts texts) \<and> takes p (gguf_value_bytes (GgufTexts texts)) q
          \<and> narrow (of_nat (length texts)) = Some n \<and> c' = c\<lparr>cm_vocabulary_size := Some n\<rparr>)"
  (is "?read \<longleftrightarrow> ?holds")
proof -
  let ?max = "il_maximum_array_elements limits"
  have tail: "bind_step (validate_array_count n limits, r) (\<lambda>_ r.
       if e \<noteq> type_string then (Inl MetaInvalidFormat, r)
       else if cm_vocabulary_size c \<noteq> None then (Inl MetaInvalidFormat, r)
       else
         bind_step (ok_or (narrow n) MetaNumericOverflow, r) (\<lambda>size r.
         bind_step (skip_strings (list_rx TYPE('e)) (il_maximum_string_bytes limits) (unat n) r) (\<lambda>_ r.
         (Inr (c\<lparr>cm_vocabulary_size := Some size\<rparr>), r)))) = (Inr c', q)
    \<longleftrightarrow> e = type_string \<and> cm_vocabulary_size c = None \<and> n \<le> ?max
      \<and> (\<exists>texts. length texts = unat n \<and> takes r (concat (map gguf_string texts)) q
          \<and> (list_all (\<lambda>text. length text \<le> unat (il_maximum_string_bytes limits)) texts
            \<and> (\<exists>k. narrow (of_nat (length texts)) = Some k \<and> c' = c\<lparr>cm_vocabulary_size := Some k\<rparr>)))" for e n r
  proof -
    have "(\<exists>texts. length texts = unat n \<and> takes r (concat (map gguf_string texts)) q
          \<and> (list_all (\<lambda>text. length text \<le> unat (il_maximum_string_bytes limits)) texts
            \<and> (\<exists>k. narrow (of_nat (length texts)) = Some k \<and> c' = c\<lparr>cm_vocabulary_size := Some k\<rparr>)))
      \<longleftrightarrow> (\<exists>k. narrow n = Some k \<and> c' = c\<lparr>cm_vocabulary_size := Some k\<rparr>)
        \<and> skip_strings (list_rx TYPE('e)) (il_maximum_string_bytes limits) (unat n) r = (Inr (), q)"
      unfolding skip_strings_takes by (auto cong: conj_cong)
    then show ?thesis
      by (cases "n \<le> ?max"; cases "e = type_string"; cases "cm_vocabulary_size c = None")
        (auto simp: validate_array_count_def bind_pure bind_step_Inr)
  qed
  have "?read \<longleftrightarrow> (t = type_array \<and> cm_vocabulary_size c = None)
      \<and> (\<exists>r1. takes p (word_bytes 4 type_string) r1 \<and> (\<exists>n r. takes r1 (word_bytes 8 n) r \<and> n \<le> ?max
          \<and> (\<exists>texts. length texts = unat n \<and> takes r (concat (map gguf_string texts)) q
            \<and> (list_all (\<lambda>text. length text \<le> unat (il_maximum_string_bytes limits)) texts
              \<and> (\<exists>k. narrow (of_nat (length texts)) = Some k \<and> c' = c\<lparr>cm_vocabulary_size := Some k\<rparr>)))))"
  proof (cases "t = type_array")
    case True
    show ?thesis unfolding read_token_array_def True simp_thms if_False
        bind_step_Inr [of "read_u32 _ _"] bind_step_Inr [of "read_u64 _ _"] read_u32_takes read_u64_takes tail by blast
  qed (simp add: read_token_array_def)
  also have "\<dots> \<longleftrightarrow> ?holds"
    unfolding counted_takes [where m = length and f = "\<lambda>texts. concat (map gguf_string texts)"]
    by (auto simp: takes_append [of p "word_bytes 4 type_string"])
  finally show ?thesis .
qed

lemma array_values:
  "(\<exists>v. gguf_type v = t \<and> gguf_value_fits limits v \<and> takes p (gguf_value_bytes v) q \<and> (\<exists>texts. v = GgufTexts texts \<and> P texts))
    \<longleftrightarrow> t = type_array \<and> (\<exists>texts. gguf_value_fits limits (GgufTexts texts) \<and> takes p (gguf_value_bytes (GgufTexts texts)) q \<and> P texts)"
  by (metis gguf_type.simps(4))

lemma store_architecture_value_Inr: "store_architecture_value field architecture n c = Inr c'
    \<longleftrightarrow> field_get field c = None \<and> (\<exists>k. narrow n = Some k
      \<and> c' = field_set field \<lparr>av_architecture = architecture, av_value = k\<rparr> c)"
  by (auto simp: store_architecture_value_def bind_ok_Inr)

lemma integer_value_takes:
  "bind_step (read_integer (list_rx TYPE('e)) t p) (\<lambda>n r. (f n, r)) = (Inr c', q)
    \<longleftrightarrow> (\<exists>v. gguf_type v = t \<and> gguf_value_fits limits v \<and> takes p (gguf_value_bytes v) q
          \<and> (\<exists>n. value_integer v = Some n \<and> f n = Inr c'))"
proof -
  have "bind_step (read_integer (list_rx TYPE('e)) t p) (\<lambda>n r. (f n, r)) = (Inr c', q)
      \<longleftrightarrow> (\<exists>n. read_integer (list_rx TYPE('e)) t p = (Inr n, q) \<and> f n = Inr c')"
    by (auto simp: bind_step_Inr)
  then show ?thesis unfolding read_integer_takes [where limits = limits] by blast
qed

lemma metadata_value_takes:
  "read_metadata_value reserve (list_rx TYPE('e)) key t limits c p = (Inr c', q)
    \<longleftrightarrow> (\<exists>v. gguf_type v = t \<and> gguf_value_fits limits v \<and> takes p (gguf_value_bytes v) q
          \<and> collect_entry reserve (key, v) c = Some c')"
  (is "?read \<longleftrightarrow> ?holds")
proof -
  consider (architecture) "key = text_of ''general.architecture''"
    | (file_type) "key \<noteq> text_of ''general.architecture''" "key = text_of ''general.file_type''"
    | (tokens) "key \<noteq> text_of ''general.architecture''" "key \<noteq> text_of ''general.file_type''" "key = text_of ''tokenizer.ggml.tokens''"
    | (other) "key \<noteq> text_of ''general.architecture''" "key \<noteq> text_of ''general.file_type''" "key \<noteq> text_of ''tokenizer.ggml.tokens''"
    by blast
  then show ?thesis
  proof cases
    case architecture
    have "?read \<longleftrightarrow> t = type_string \<and> cm_architecture c = None
        \<and> (\<exists>name. gguf_read_string reserve (list_rx TYPE('e)) (il_maximum_string_bytes limits) p = (Inr name, q)
          \<and> c' = c\<lparr>cm_architecture := Some name\<rparr>)"
      unfolding read_metadata_value_def by (auto simp: architecture bind_step_Inr)
    also have "\<dots> \<longleftrightarrow> t = type_string \<and> (\<exists>v. gguf_type v = type_string \<and> gguf_value_fits limits v
        \<and> takes p (gguf_value_bytes v) q \<and> collect_entry reserve (key, v) c = Some c')"
    proof -
      have "collect_entry reserve (key, GgufText bytes) c = Some c' \<longleftrightarrow> cm_architecture c = None \<and> reserve (length bytes)
          \<and> (\<exists>name. string_from_utf8 bytes = Inr name \<and> c' = c\<lparr>cm_architecture := Some name\<rparr>)" for bytes
        by (cases "string_from_utf8 bytes") (auto simp: collect_entry_def architecture)
      then show ?thesis unfolding text_values string_takes string_from_utf8_Inr string_len_def
        by (simp only: gguf_value_bytes.simps) blast
    qed
    also have "\<dots> \<longleftrightarrow> ?holds"
    proof -
      have "\<exists>bytes. v = GgufText bytes" if "collect_entry reserve (key, v) c = Some c'" for v
        using that by (cases v) (auto simp: collect_entry_def architecture)
      then show ?thesis by force
    qed
    finally show ?thesis .
  next
    case file_type
    have "?read \<longleftrightarrow> cm_file_type c = None
        \<and> bind_step (read_integer (list_rx TYPE('e)) t p) (\<lambda>n r.
            (bind_ok (ok_or (narrow n) MetaNumericOverflow) (\<lambda>k. Inr (c\<lparr>cm_file_type := Some k\<rparr>)), r)) = (Inr c', q)"
      unfolding read_metadata_value_def if_not_P [OF file_type(1)] if_P [OF file_type(2)]
      by (auto simp: bind_step_Inr bind_ok_Inr)
    also have "\<dots> \<longleftrightarrow> ?holds"
    proof -
      have "collect_entry reserve (key, v) c = Some c' \<longleftrightarrow> cm_file_type c = None
          \<and> (\<exists>n. value_integer v = Some n \<and> (\<exists>k. narrow n = Some k \<and> c' = c\<lparr>cm_file_type := Some k\<rparr>))" for v
        unfolding collect_entry_def prod.case if_not_P [OF file_type(1)] if_P [OF file_type(2)]
        by (cases "value_integer v"; cases "narrow (the (value_integer v)) :: u16 option") auto
      moreover have "(bind_ok (ok_or (narrow n) MetaNumericOverflow) (\<lambda>k. Inr (c\<lparr>cm_file_type := Some k\<rparr>))
            :: 'e metadata_error + collected_metadata) = Inr c'
          \<longleftrightarrow> (\<exists>k. narrow n = Some k \<and> c' = c\<lparr>cm_file_type := Some k\<rparr>)" for n
        by (auto simp: bind_ok_Inr)
      ultimately show ?thesis unfolding integer_value_takes [where limits = limits] by blast
    qed
    finally show ?thesis .
  next
    case tokens
    have "collect_entry reserve (key, v) c = Some c'
        \<longleftrightarrow> (\<exists>texts. v = GgufTexts texts \<and> (cm_vocabulary_size c = None
          \<and> (\<exists>n. narrow (of_nat (length texts)) = Some n \<and> c' = c\<lparr>cm_vocabulary_size := Some n\<rparr>)))" for v
      unfolding collect_entry_def prod.case if_not_P [OF tokens(1)] if_not_P [OF tokens(2)] if_P [OF tokens(3)]
      by (cases v) (auto split: option.splits)
    then show ?thesis
      unfolding read_metadata_value_def if_not_P [OF tokens(1)] if_not_P [OF tokens(2)] if_P [OF tokens(3)] token_array_takes
      by (simp only: array_values) blast
  next
    case other
    note branch = if_not_P [OF other(1)] if_not_P [OF other(2)] if_not_P [OF other(3)]
    show ?thesis
    proof (cases "numeric_target key")
      case None
      then have "collect_entry reserve (key, v) c = Some c' \<longleftrightarrow> c' = c" for v
        unfolding collect_entry_def prod.case branch by auto
      then show ?thesis unfolding read_metadata_value_def branch None option.case
        by (auto simp: bind_step_Inr skip_value_takes)
    next
      case (Some target)
      obtain architecture field where target: "target = (architecture, field)" by fastforce
      have "collect_entry reserve (key, v) c = Some c' \<longleftrightarrow> (\<exists>n. value_integer v = Some n
          \<and> store_architecture_value field architecture n c = (Inr c' :: 'e metadata_error + collected_metadata))" for v
        unfolding collect_entry_def prod.case branch Some target option.case
        by (auto simp: store_architecture_value_Inr split: Option.bind_splits)
      then show ?thesis unfolding read_metadata_value_def branch Some target option.case prod.case
          integer_value_takes [where limits = limits] by simp
    qed
  qed
qed

lemma entries_takes:
  "read_entries reserve (list_rx TYPE('e)) limits n c p = (Inr c', q)
    \<longleftrightarrow> (\<exists>entries. length entries = n \<and> list_all (entry_fits reserve limits) entries
          \<and> takes p (concat (map entry_bytes entries)) q \<and> collect_entries reserve entries c = Some c')"
proof (induction n arbitrary: c p)
  case 0
  show ?case by (auto simp: takes_nothing)
next
  case (Suc n)
  have "read_entries reserve (list_rx TYPE('e)) limits (Suc n) c p = (Inr c', q)
    \<longleftrightarrow> (\<exists>key r1 t r2 c1 r3. gguf_read_string reserve (list_rx TYPE('e)) (il_maximum_string_bytes limits) p = (Inr key, r1)
        \<and> takes r1 (word_bytes 4 t) r2
        \<and> read_metadata_value reserve (list_rx TYPE('e)) key t limits c r2 = (Inr c1, r3)
        \<and> read_entries reserve (list_rx TYPE('e)) limits n c1 r3 = (Inr c', q))"
    by (auto simp: bind_step_Inr read_u32_takes)
  also have "\<dots> \<longleftrightarrow> (\<exists>entry entries. length entries = n \<and> (list_all (entry_fits reserve limits) (entry # entries)
        \<and> takes p (concat (map entry_bytes (entry # entries))) q \<and> collect_entries reserve (entry # entries) c = Some c'))"
    (is "?steps \<longleftrightarrow> ?entries")
  proof
    assume ?steps
    then obtain key r1 v r2 c1 r3 entries where steps: "string_ok key" "string_len key \<le> unat (il_maximum_string_bytes limits)"
        "reserve (string_len key)" "takes p (gguf_string (utf8_encode key)) r1" "takes r1 (word_bytes 4 (gguf_type v)) r2"
        "gguf_value_fits limits v" "takes r2 (gguf_value_bytes v) r3" "collect_entry reserve (key, v) c = Some c1"
        "length entries = n" "list_all (entry_fits reserve limits) entries"
        "takes r3 (concat (map entry_bytes entries)) q" "collect_entries reserve entries c1 = Some c'"
      unfolding string_takes metadata_value_takes Suc.IH by blast
    then have "takes p (entry_bytes (key, v) @ concat (map entry_bytes entries)) q"
      unfolding entry_bytes_def takes_append by auto
    with steps show ?entries
      by (intro exI [of _ "(key, v)"] exI [of _ entries]) (simp add: entry_fits_def)
  next
    assume ?entries
    then obtain key v entries c1 where entries: "length entries = n" "entry_fits reserve limits (key, v)"
        "list_all (entry_fits reserve limits) entries" "takes p (entry_bytes (key, v) @ concat (map entry_bytes entries)) q"
        "collect_entry reserve (key, v) c = Some c1" "collect_entries reserve entries c1 = Some c'"
      by (auto split: Option.bind_splits)
    moreover obtain r1 r2 r3 where "takes p (gguf_string (utf8_encode key)) r1" "takes r1 (word_bytes 4 (gguf_type v)) r2"
        "takes r2 (gguf_value_bytes v) r3" "takes r3 (concat (map entry_bytes entries)) q"
      using entries(4) unfolding entry_bytes_def takes_append by auto
    moreover have "string_ok key" "string_len key \<le> unat (il_maximum_string_bytes limits)" "reserve (string_len key)"
        "gguf_value_fits limits v" using entries(2) by (simp_all add: entry_fits_def)
    ultimately show ?steps unfolding string_takes metadata_value_takes Suc.IH by blast
  qed
  finally show ?case unfolding ex_list_Suc .
qed

lemma if_failed: "(if b then (Inl e, r) else x) = (Inr m, q) \<longleftrightarrow> \<not> b \<and> x = (Inr m, q)"
  by simp

lemma inspect_takes:
  "inspect_bounded reserve (list_rx TYPE('e)) limits p = (Inr m, q)
    \<longleftrightarrow> (\<exists>version tensors entries c. (version = 2 \<or> version = 3)
      \<and> length entries \<le> unat (il_maximum_metadata_entries limits) \<and> list_all (entry_fits reserve limits) entries
      \<and> takes p (gguf_header version tensors entries) q
      \<and> collect_entries reserve entries collected_default = Some c
      \<and> (collected_finish c :: 'e metadata_error + gguf_metadata) = Inr m)"
  (is "?inspect \<longleftrightarrow> ?format")
proof -
  have tail: "bind_step (read_entries reserve (list_rx TYPE('e)) limits (unat n) collected_default r) (\<lambda>c r. (collected_finish c, r))
        = (Inr m, q)
    \<longleftrightarrow> (\<exists>entries. length entries = unat n \<and> takes r (concat (map entry_bytes entries)) q
        \<and> (list_all (entry_fits reserve limits) entries \<and> (\<exists>c. collect_entries reserve entries collected_default = Some c
          \<and> (collected_finish c :: 'e metadata_error + gguf_metadata) = Inr m)))" for n r
  proof -
    have "bind_step (read_entries reserve (list_rx TYPE('e)) limits (unat n) collected_default r) (\<lambda>c r. (collected_finish c, r))
          = (Inr m, q)
        \<longleftrightarrow> (\<exists>c. read_entries reserve (list_rx TYPE('e)) limits (unat n) collected_default r = (Inr c, q)
          \<and> (collected_finish c :: 'e metadata_error + gguf_metadata) = Inr m)"
      by (auto simp: bind_step_Inr)
    then show ?thesis unfolding entries_takes by auto
  qed
  have "?inspect \<longleftrightarrow> (\<exists>r1 version r2 tensors r3. takes p gguf_magic r1 \<and> takes r1 (word_bytes 4 (version :: u32)) r2
      \<and> (version = 2 \<or> version = 3) \<and> takes r2 (word_bytes 8 (tensors :: u64)) r3
      \<and> (\<exists>n r. takes r3 (word_bytes 8 n) r \<and> n \<le> il_maximum_metadata_entries limits
          \<and> (\<exists>entries. length entries = unat n \<and> takes r (concat (map entry_bytes entries)) q
            \<and> (list_all (entry_fits reserve limits) entries \<and> (\<exists>c. collect_entries reserve entries collected_default = Some c
              \<and> (collected_finish c :: 'e metadata_error + gguf_metadata) = Inr m)))))" (is "_ \<longleftrightarrow> ?steps")
  proof -
    have "?inspect \<longleftrightarrow> (\<exists>magic r1. (length magic = 4 \<and> takes p magic r1) \<and> \<not> magic \<noteq> gguf_magic
        \<and> (\<exists>version r2. takes r1 (word_bytes 4 (version :: u32)) r2 \<and> \<not> (version \<noteq> 2 \<and> version \<noteq> 3)
        \<and> (\<exists>tensors r3. takes r2 (word_bytes 8 (tensors :: u64)) r3
        \<and> (\<exists>n r. takes r3 (word_bytes 8 n) r \<and> \<not> il_maximum_metadata_entries limits < n
          \<and> bind_step (read_entries reserve (list_rx TYPE('e)) limits (unat n) collected_default r) (\<lambda>c r. (collected_finish c, r))
            = (Inr m, q)))))"
      unfolding inspect_bounded_def bind_step_Inr [of "read_exact _ _ _"] bind_step_Inr [of "read_u32 _ _"]
        bind_step_Inr [of "read_u64 _ _"] read_exact_takes read_u32_takes read_u64_takes if_failed by (rule refl)
    moreover have "length gguf_magic = 4" by (simp add: gguf_magic_def)
    ultimately show ?thesis unfolding tail not_less by (simp only: de_Morgan_conj not_not) blast
  qed
  also have "\<dots> \<longleftrightarrow> ?format"
    unfolding counted_takes [where m = length and f = "\<lambda>entries. concat (map entry_bytes entries)"] gguf_header_def takes_append
    by blast
  finally show ?thesis .
qed

end
