(* ===== verification/Gguf_Properties.thy ===== *)
theory Gguf_Properties
  imports Gguf_Format
begin

section \<open>What an inspection of metadata guarantees\<close>

lemma takes_Source: "(\<exists>q. takes (Source bytes k) header q) \<longleftrightarrow> length header \<le> k \<and> (\<exists>after. bytes = header @ after)"
proof -
  have "takes (Source bytes k) header q \<longleftrightarrow> (\<exists>after k'. q = Source after k' \<and> bytes = header @ after \<and> k = length header + k')" for q
    by (cases q) (auto simp: takes_def)
  then show ?thesis by (auto simp: le_iff_add)
qed

lemma inspect_reader_format:
  fixes events :: "'e read_event list"
  assumes "file_quiet events"
  shows "fst (inspect_reader reserve (buffered_new events) limits) = Inr m \<longleftrightarrow>
    (\<exists>version tensors entries c after. (version = 2 \<or> version = 3)
      \<and> length entries \<le> unat (il_maximum_metadata_entries limits) \<and> list_all (entry_fits reserve limits) entries
      \<and> length (gguf_header version tensors entries) \<le> unat (il_maximum_header_bytes limits)
      \<and> file_bytes events = gguf_header version tensors entries @ after
      \<and> collect_entries reserve entries collected_default = Some c
      \<and> (collected_finish c :: 'e metadata_error + gguf_metadata) = Inr m)"
proof -
  have "fst (inspect_reader reserve (buffered_new events) limits) = Inr m \<longleftrightarrow>
      (\<exists>q. inspect_bounded reserve (list_rx TYPE('e)) limits
         (Source (file_bytes events) (unat (il_maximum_header_bytes limits))) = (Inr m, q))"
    unfolding inspect_reader_bytes [OF assms] by (metis fst_conv prod.collapse)
  also have "\<dots> \<longleftrightarrow> (\<exists>version tensors entries c. (version = 2 \<or> version = 3)
      \<and> length entries \<le> unat (il_maximum_metadata_entries limits) \<and> list_all (entry_fits reserve limits) entries
      \<and> (\<exists>q. takes (Source (file_bytes events) (unat (il_maximum_header_bytes limits))) (gguf_header version tensors entries) q)
      \<and> collect_entries reserve entries collected_default = Some c
      \<and> (collected_finish c :: 'e metadata_error + gguf_metadata) = Inr m)"
    unfolding inspect_takes by blast
  finally show ?thesis unfolding takes_Source by blast
qed

text \<open>
  \<^bold>\<open>C30\<close>. The inspection accepts exactly the files whose bytes begin with a GGUF header of version 2
  or 3 that keeps the limits, collects what its entries say, and finds the required metadata there.
  Where the reads of the file end, and how often they are interrupted, makes no difference.
\<close>

theorem inspection_accepts_headers:
  fixes events :: "'e read_event list"
  assumes "file_quiet events"
  shows "fst (inspect_reader reserve (buffered_new events) limits) = Inr m \<longleftrightarrow>
    (\<exists>version tensors entries c after. (version = 2 \<or> version = 3)
      \<and> length entries \<le> unat (il_maximum_metadata_entries limits) \<and> list_all (entry_fits reserve limits) entries
      \<and> length (gguf_header version tensors entries) \<le> unat (il_maximum_header_bytes limits)
      \<and> file_bytes events = gguf_header version tensors entries @ after
      \<and> collect_entries reserve entries collected_default = Some c
      \<and> (collected_finish c :: 'e metadata_error + gguf_metadata) = Inr m)"
  by (rule inspect_reader_format [OF assms])

definition small_limits :: inspection_limits where
  "small_limits = \<lparr>il_maximum_header_bytes = 4096, il_maximum_metadata_entries = 16,
     il_maximum_string_bytes = 64, il_maximum_array_elements = 16\<rparr>"

definition small_entries :: "(rust_string \<times> gguf_value) list" where
  "small_entries =
    [(text_of ''general.architecture'', GgufText [0x61]),
     (text_of ''a.context_length'', GgufScalar type_uint32 (word_bytes 4 (8 :: u32))),
     (text_of ''a.block_count'', GgufScalar type_int32 (word_bytes 4 (2 :: u32))),
     (text_of ''a.embedding_length'', GgufScalar type_uint32 (word_bytes 4 (4 :: u32))),
     (text_of ''a.attention.head_count'', GgufScalar type_uint32 (word_bytes 4 (2 :: u32))),
     (text_of ''tokenizer.ggml.tokens'', GgufTexts [[0x78]]),
     (text_of ''general.file_type'', GgufScalar type_uint32 (word_bytes 4 (1 :: u32)))]"

definition small_metadata :: gguf_metadata where
  "small_metadata = \<lparr>gm_architecture_name = [0x61], gm_architecture = classify_architecture [0x61],
     gm_scalar_type = F16, gm_quantization = QuantNone, gm_vocabulary_size = 1, gm_context_length = 8,
     gm_block_count = 2, gm_embedding_length = 4, gm_attention_head_count = 2,
     gm_attention_head_count_kv = 2, gm_file_type = 1\<rparr>"

definition small_collected :: collected_metadata where
  "small_collected = \<lparr>cm_architecture = Some [0x61],
     cm_context_length = Some \<lparr>av_architecture = [0x61], av_value = 8\<rparr>,
     cm_block_count = Some \<lparr>av_architecture = [0x61], av_value = 2\<rparr>,
     cm_embedding_length = Some \<lparr>av_architecture = [0x61], av_value = 4\<rparr>,
     cm_attention_head_count = Some \<lparr>av_architecture = [0x61], av_value = 2\<rparr>,
     cm_attention_head_count_kv = None, cm_vocabulary_size = Some 1, cm_file_type = Some 1\<rparr>"

lemma small_finish: "collected_finish small_collected = Inr small_metadata"
  by (simp add: collected_finish_def is_multiple_of_def small_collected_def small_metadata_def required_architecture_value_def
      required_non_zero_def scalar_and_quantization_def)

lemma small_fits: "list_all (entry_fits (\<lambda>_. True) small_limits) small_entries"
  by (simp add: small_entries_def small_limits_def entry_fits_def string_len_def utf8_encode_def utf8_encode_char_def
      text_of_def scalar_value_def fixed_width_def)

lemma small_targets:
  "numeric_target (text_of ''a.context_length'') = Some ([0x61], ContextLength)"
  "numeric_target (text_of ''a.block_count'') = Some ([0x61], BlockCount)"
  "numeric_target (text_of ''a.embedding_length'') = Some ([0x61], EmbeddingLength)"
  "numeric_target (text_of ''a.attention.head_count'') = Some ([0x61], AttentionHeadCount)"
  by code_simp+

lemma small_length: "length (gguf_header 3 0 small_entries) \<le> 4096"
  by (simp add: gguf_header_def gguf_magic_def small_entries_def entry_bytes_def gguf_string_def utf8_encode_def
      utf8_encode_char_def text_of_def)

lemma collect_numeric:
  assumes "numeric_target key = Some (architecture, field)" and "key \<noteq> text_of ''general.architecture''"
    and "key \<noteq> text_of ''general.file_type''" and "key \<noteq> text_of ''tokenizer.ggml.tokens''"
  shows "collect_entry reserve (key, v) c = Option.bind (value_integer v)
    (\<lambda>n. ok_value (store_architecture_value field architecture n c :: unit metadata_error + collected_metadata))"
  using assms by (simp add: collect_entry_def)

lemma small_integers:
  "gguf_integer type_uint32 (word_bytes 4 (8 :: u32)) = Some 8"
  "gguf_integer type_int32 (word_bytes 4 (2 :: u32)) = Some 2"
  "gguf_integer type_uint32 (word_bytes 4 (4 :: u32)) = Some 4"
  "gguf_integer type_uint32 (word_bytes 4 (2 :: u32)) = Some 2"
  "gguf_integer type_uint32 (word_bytes 4 (1 :: u32)) = Some 1"
  by (simp_all add: gguf_integer_def Let_def word_of_bytes_bytes)

lemma small_keys:
  "text_of ''a.context_length'' \<noteq> text_of k" "text_of ''a.block_count'' \<noteq> text_of k" "text_of ''a.embedding_length'' \<noteq> text_of k"
  "text_of ''a.attention.head_count'' \<noteq> text_of k"
  if "k \<in> {''general.architecture'', ''general.file_type'', ''tokenizer.ggml.tokens''}"
  using that by (auto simp: text_of_def)

lemma small_collects: "collect_entries (\<lambda>_. True) small_entries collected_default = Some small_collected"
proof -
  have name: "string_from_utf8 [0x61] = Inr [0x61]" unfolding string_from_utf8_Inr
    by (simp add: scalar_value_def utf8_encode_def utf8_encode_char_def)
  have special: "text_of ''general.file_type'' \<noteq> text_of ''general.architecture''"
    "text_of ''tokenizer.ggml.tokens'' \<noteq> text_of ''general.architecture''"
    "text_of ''tokenizer.ggml.tokens'' \<noteq> text_of ''general.file_type''" by (simp_all add: text_of_def)
  show ?thesis unfolding small_entries_def collect_entries.simps
    by (simp add: collect_numeric [OF small_targets(1)] collect_numeric [OF small_targets(2)]
        collect_numeric [OF small_targets(3)] collect_numeric [OF small_targets(4)] small_keys small_integers
        store_architecture_value_def narrow_def collected_default_def small_collected_def,
        simp add: collect_entry_def special name narrow_def small_integers)
qed

definition small_file :: "unit read_event list" where
  "small_file = [ReadInterrupted, Chunk (gguf_header 3 0 small_entries)]"

lemma small_quiet: "file_quiet small_file"
  by (simp add: small_file_def gguf_header_def gguf_magic_def)

lemma small_header:
  "\<exists>version tensors entries c after. (version = (2 :: u32) \<or> version = 3)
      \<and> length entries \<le> unat (il_maximum_metadata_entries small_limits)
      \<and> list_all (entry_fits (\<lambda>_. True) small_limits) entries
      \<and> length (gguf_header version tensors entries) \<le> unat (il_maximum_header_bytes small_limits)
      \<and> file_bytes small_file = gguf_header version tensors entries @ after
      \<and> collect_entries (\<lambda>_. True) entries collected_default = Some c
      \<and> (collected_finish c :: unit metadata_error + gguf_metadata) = Inr small_metadata"
proof (intro exI conjI)
  show "(3 :: u32) = 2 \<or> (3 :: u32) = 3" by simp
  show "length small_entries \<le> unat (il_maximum_metadata_entries small_limits)"
    by (simp add: small_entries_def small_limits_def)
  show "length (gguf_header 3 0 small_entries) \<le> unat (il_maximum_header_bytes small_limits)"
    using small_length by (simp add: small_limits_def)
  show "file_bytes small_file = gguf_header 3 0 small_entries @ []" by (simp add: small_file_def)
qed (rule small_fits small_collects small_finish)+

lemma inspection_accepts_headers_witness:
  "fst (inspect_reader (\<lambda>_. True) (buffered_new small_file) small_limits) = Inr small_metadata"
  by (rule inspection_accepts_headers [OF small_quiet, THEN iffD2, OF small_header])

text \<open>
  \<^bold>\<open>C31\<close>. An inspection is bounded and does not depend on how the file is read. Whatever the reads of
  the file do, it takes at most the header limit from the buffered reader, and what it draws from the
  file exceeds that by less than the buffer of 8192 bytes; apart from that buffer, whose size is
  fixed, it asks for no allocation above the string limit; and two files with the same bytes that do
  not fail have the same outcome, errors included.
\<close>

theorem inspection_bounded:
  "length (file_bytes events)
      \<le> length (buffered_bytes (br_inner (snd (inspect_reader reserve (buffered_new events) limits)))) + unat (il_maximum_header_bytes limits)
    \<and> length (file_bytes events)
      < length (file_bytes (bf_file (br_inner (snd (inspect_reader reserve (buffered_new events) limits)))))
        + unat (il_maximum_header_bytes limits) + 8192
    \<and> ((\<forall>n \<le> unat (il_maximum_string_bytes limits). reserve n = reserve' n)
        \<longrightarrow> fst (inspect_reader reserve (buffered_new events) limits) = fst (inspect_reader reserve' (buffered_new events) limits))
    \<and> (file_quiet events \<longrightarrow> file_quiet events' \<longrightarrow> file_bytes events = file_bytes events'
        \<longrightarrow> fst (inspect_reader reserve (buffered_new events) limits) = fst (inspect_reader reserve (buffered_new events') limits))"
proof (intro conjI impI)
  note drawn = inspect_reader_draws [of events reserve limits]
  show "length (file_bytes events)
      \<le> length (buffered_bytes (br_inner (snd (inspect_reader reserve (buffered_new events) limits)))) + unat (il_maximum_header_bytes limits)"
    using drawn by blast
  show "length (file_bytes events)
      < length (file_bytes (bf_file (br_inner (snd (inspect_reader reserve (buffered_new events) limits)))))
        + unat (il_maximum_header_bytes limits) + 8192"
    using drawn unfolding buffer_capacity_def length_append by linarith
qed (rule inspect_reader_reserve, simp, simp only: inspect_reader_bytes)

lemma inspection_bounded_witness:
  "fst (inspect_reader (\<lambda>n. n \<le> 64) (buffered_new small_file) small_limits)
     = fst (inspect_reader (\<lambda>_. True) (buffered_new small_file) small_limits)
   \<and> fst (inspect_reader (\<lambda>_. True) (buffered_new [Chunk [0x47, 0x47], ReadInterrupted, Chunk [0x55]]) small_limits)
     = fst (inspect_reader (\<lambda>_. True) (buffered_new [Chunk [0x47, 0x47, 0x55] :: unit read_event]) small_limits)"
  using inspection_bounded [where reserve = "\<lambda>n. n \<le> 64" and reserve' = "\<lambda>_. True" and events = small_file
        and limits = small_limits, THEN conjunct2, THEN conjunct2, THEN conjunct1]
    inspection_bounded [where events = "[Chunk [0x47, 0x47], ReadInterrupted, Chunk [0x55]] :: unit read_event list"
      and events' = "[Chunk [0x47, 0x47, 0x55]]" and reserve = "\<lambda>_. True" and limits = small_limits,
      THEN conjunct2, THEN conjunct2, THEN conjunct2]
  by (intro conjI) (simp_all add: small_limits_def)

lemma inspect_finish:
  "fst (inspect_reader reserve (buffered_new (events :: 'e read_event list)) limits) = Inr m
     \<Longrightarrow> \<exists>c. (collected_finish c :: 'e metadata_error + gguf_metadata) = Inr m"
proof -
  assume "fst (inspect_reader reserve (buffered_new events) limits) = Inr m"
  then obtain r where "inspect_reader reserve (buffered_new events) limits = (Inr m, r)" by (metis prod.collapse)
  then show ?thesis unfolding inspect_reader_def inspect_bounded_def by (auto simp: bind_step_Inr split: if_splits)
qed

lemma required_value_Inr: "required_architecture_value v name = Inr n \<Longrightarrow> n \<noteq> 0"
  by (auto simp: required_architecture_value_def bind_ok_Inr split: if_splits)

lemma finish_consistent:
  assumes "collected_finish c = Inr m"
  shows "gm_context_length m \<noteq> 0" "gm_block_count m \<noteq> 0" "gm_embedding_length m \<noteq> 0" "gm_attention_head_count m \<noteq> 0"
    "gm_attention_head_count_kv m \<noteq> 0" "gm_vocabulary_size m \<noteq> 0"
    "gm_attention_head_count_kv m \<le> gm_attention_head_count m"
    "is_multiple_of (gm_attention_head_count m) (gm_attention_head_count_kv m)"
  using assms by (auto simp: collected_finish_def bind_ok_Inr required_non_zero_def dest: required_value_Inr
      split: if_splits option.splits)

lemma unat_up: "unat (ucast (w :: u32) :: u64) = unat w"
proof -
  have "unat w < 2 ^ LENGTH(32)" by (rule unsigned_less)
  then show ?thesis by (simp add: unsigned_ucast_eq take_bit_nat_eq_self)
qed

lemma is_multiple_of_iff: "is_multiple_of a b \<longleftrightarrow> unat b dvd unat a"
  by (auto simp: is_multiple_of_def dvd_eq_mod_eq_0 word_unat_eq_iff unat_mod_distrib)

lemma checked_mul_nat: "checked_mul a b = (if unat a * unat b < 2 ^ 64 then Some (of_nat (unat a * unat b)) else None)"
  for a b :: u64
  by (simp add: checked_mul_def)

lemma quadruple_checked:
  fixes b h k :: u64
  assumes "unat h * unat k < 2 ^ 64" and "unat b * (unat h * unat k) < 2 ^ 64"
  shows "bind_ok (ok_or (checked_mul h k) e) (\<lambda>w. ok_or (Option.bind (Option.bind (checked_mul b w)
      (\<lambda>n. checked_mul n 2)) (\<lambda>n. checked_mul n 2)) e)
    = (let bytes = 4 * (unat b * (unat h * unat k)) in if bytes < 2 ^ 64 then Inr (of_nat bytes) else Inl e)"
proof -
  define x where "x = unat h * unat k"
  define y where "y = unat b * x"
  have bounds: "x < 2 ^ 64" "y < 2 ^ 64" using assms by (simp_all only: x_def y_def)
  have x: "checked_mul h k = Some (of_nat x)" unfolding checked_mul_nat x_def [symmetric] if_P [OF bounds(1)] ..
  have xn: "unat (of_nat x :: u64) = x" by (rule unat_of_length [OF bounds(1)])
  have y: "checked_mul b (of_nat x) = Some (of_nat y)"
    unfolding checked_mul_nat xn y_def [symmetric] if_P [OF bounds(2)] ..
  have yn: "unat (of_nat y :: u64) = y" by (rule unat_of_length [OF bounds(2)])
  have two: "checked_mul n 2 = (if 2 * unat n < 2 ^ 64 then Some (of_nat (2 * unat n)) else None)" for n :: u64
    by (simp add: checked_mul_nat mult.commute)
  have "2 * y < 2 ^ 64 \<Longrightarrow> unat (of_nat (2 * y) :: u64) = 2 * y" by (rule unat_of_length)
  then have "Option.bind (checked_mul (of_nat y :: u64) 2) (\<lambda>n. checked_mul n 2)
      = (if 4 * y < 2 ^ 64 then Some (of_nat (4 * y)) else None)"
    unfolding two yn by (cases "2 * y < 2 ^ 64") (simp_all only: if_True if_False bind.simps two mult.assoc [symmetric] numeral_times_numeral, auto)
  then show ?thesis unfolding x ok_or_simps bind_ok_simps y bind.simps Let_def x_def [symmetric] y_def [symmetric]
    by (cases "4 * y < 2 ^ 64") simp_all
qed

lemma finish_cache:
  fixes m :: gguf_metadata
  assumes "gm_attention_head_count m \<noteq> 0" and "gm_attention_head_count_kv m \<le> gm_attention_head_count m"
  shows "(metadata_cache_bytes_per_token m :: 'e metadata_error + u64) =
    (let width = unat (gm_embedding_length m) div unat (gm_attention_head_count m);
         bytes = 4 * (unat (gm_block_count m) * (width * unat (gm_attention_head_count_kv m))) in
     if \<not> unat (gm_attention_head_count m) dvd unat (gm_embedding_length m) then Inl MetaInvalidValue
     else if bytes < 2 ^ 64 then Inr (of_nat bytes) else Inl MetaNumericOverflow)"
proof -
  let ?heads = "unat (gm_attention_head_count m)" and ?kv = "unat (gm_attention_head_count_kv m)"
  let ?width = "unat (gm_embedding_length m) div ?heads" and ?blocks = "unat (gm_block_count m)"
  have width: "unat (ucast (gm_embedding_length m div gm_attention_head_count m) :: u64) = ?width"
    by (simp only: unat_up unat_div_distrib)
  have bounds: "unat (gm_embedding_length m) < 2 ^ 32" "?blocks < 2 ^ 32"
    using unsigned_less [of "gm_embedding_length m"] unsigned_less [of "gm_block_count m"] by simp_all
  have "?width * ?kv \<le> ?width * ?heads" using assms(2) by (simp add: word_le_nat_alt)
  also have "\<dots> \<le> unat (gm_embedding_length m)" by simp
  finally have kvw: "?width * ?kv < 2 ^ 32" using bounds(1) by linarith
  then have "?blocks * (?width * ?kv) < 2 ^ 32 * 2 ^ 32" using bounds(2) by (intro mult_strict_mono) auto
  then have elements: "?blocks * (?width * ?kv) < 2 ^ 64" by simp
  have "unat (ucast (gm_embedding_length m div gm_attention_head_count m) :: u64) * unat (ucast (gm_attention_head_count_kv m) :: u64) < 2 ^ 64"
    "unat (ucast (gm_block_count m) :: u64) * (unat (ucast (gm_embedding_length m div gm_attention_head_count m) :: u64)
        * unat (ucast (gm_attention_head_count_kv m) :: u64)) < 2 ^ 64"
    using kvw elements unfolding unat_up unat_div_distrib by simp_all
  from quadruple_checked [OF this, of "MetaNumericOverflow :: 'e metadata_error"] assms(1) show ?thesis
    unfolding metadata_cache_bytes_per_token_def is_multiple_of_iff Let_def unat_up unat_div_distrib
    by (simp only: simp_thms)
qed

text \<open>
  Accepted metadata is consistent and the cache size computed from it is exact. The required
  numbers are not zero and the key-value heads divide the heads. The bytes of the cache per token
  are two bytes for each key and value of each block, or an error: when the heads do not divide the
  embedding, or when the exact number does not fit into 64 bits.
\<close>

theorem metadata_cache_exact:
  assumes "fst (inspect_reader reserve (buffered_new (events :: 'e read_event list)) limits) = Inr m"
  shows "gm_context_length m \<noteq> 0 \<and> gm_block_count m \<noteq> 0 \<and> gm_embedding_length m \<noteq> 0 \<and> gm_vocabulary_size m \<noteq> 0
    \<and> gm_attention_head_count m \<noteq> 0 \<and> gm_attention_head_count_kv m \<noteq> 0
    \<and> unat (gm_attention_head_count_kv m) dvd unat (gm_attention_head_count m)
    \<and> (metadata_cache_bytes_per_token m :: 'e metadata_error + u64) =
      (let width = unat (gm_embedding_length m) div unat (gm_attention_head_count m);
           bytes = 4 * (unat (gm_block_count m) * (width * unat (gm_attention_head_count_kv m))) in
       if \<not> unat (gm_attention_head_count m) dvd unat (gm_embedding_length m) then Inl MetaInvalidValue
       else if bytes < 2 ^ 64 then Inr (of_nat bytes) else Inl MetaNumericOverflow)"
proof -
  obtain c where c: "(collected_finish c :: 'e metadata_error + gguf_metadata) = Inr m"
    using inspect_finish [OF assms] by blast
  note facts = finish_consistent [OF c]
  show ?thesis using facts finish_cache [OF facts(4,7), where 'e = 'e] by (simp only: is_multiple_of_iff simp_thms)
qed

lemma metadata_cache_exact_witness:
  "(metadata_cache_bytes_per_token small_metadata :: unit metadata_error + u64) = Inr 32"
proof -
  have "fst (inspect_reader (\<lambda>_. True) (buffered_new small_file) small_limits) = Inr small_metadata"
    by (rule inspect_reader_format [OF small_quiet, THEN iffD2, OF small_header])
  from metadata_cache_exact [OF this] show ?thesis by (simp add: small_metadata_def Let_def)
qed

end
