(* ===== verification/Gguf_Backend.thy ===== *)
theory Gguf_Backend
  imports Registry Gguf_Metadata
begin

section \<open>The GGUF backend\<close>

text \<open>
  \<open>crates/adapters/gguf-backend/src/\<close>: the execution configuration and source (\<open>source.rs\<close>), the
  loader (\<open>loader.rs\<close>) and the loaded model with its logical sequences (\<open>model.rs\<close>), packaged at the
  end as the records of the traits. The package \<open>llama-cpp-2\<close> is the record \<open>llama\<close> of the calls the
  crate makes: \<open>'md\<close> is a native model, \<open>'b\<close> a batch, \<open>'n\<close> a native context. Errors of that package
  are dropped by the code, so a fallible call answers a \<open>bool\<close> or an \<open>option\<close>.
\<close>

subsection \<open>Execution configuration and source\<close>

type_synonym i32 = "32 word"

definition max_native_count :: u32 where
  "max_native_count = 2147483647"

definition inspection_limits_default :: inspection_limits where
  "inspection_limits_default = \<lparr>il_maximum_header_bytes = 512 * 1024 * 1024, il_maximum_metadata_entries = 65536,
     il_maximum_string_bytes = 16 * 1024 * 1024, il_maximum_array_elements = 4000000\<rparr>"

record execution_configuration =
  ex_context_tokens_per_sequence :: u32
  ex_maximum_prefill_batch :: u32
  ex_micro_batch_tokens :: u32
  ex_maximum_sequences :: u32
  ex_threads :: i32
  ex_batch_threads :: i32
  ex_use_mmap :: bool
  ex_use_mlock :: bool

datatype source_error = InvalidExecutionConfiguration | ContextCapacityOverflow | InvalidInspectionLimits

definition execution_new ::
    "u32 \<Rightarrow> u32 \<Rightarrow> u32 \<Rightarrow> u32 \<Rightarrow> i32 \<Rightarrow> i32 \<Rightarrow> source_error + execution_configuration" where
  "execution_new context_tokens prefill_batch micro_batch sequences threads batch_threads =
    (if context_tokens < prefill_batch \<or> prefill_batch < micro_batch
        \<or> max_native_count < context_tokens \<or> max_native_count < prefill_batch \<or> max_native_count < sequences
        \<or> sint threads \<le> 0 \<or> sint batch_threads \<le> 0
     then Inl InvalidExecutionConfiguration
     else
       bind_ok (ok_or (checked_mul context_tokens sequences) ContextCapacityOverflow) (\<lambda>_.
       Inr \<lparr>ex_context_tokens_per_sequence = context_tokens, ex_maximum_prefill_batch = prefill_batch,
            ex_micro_batch_tokens = micro_batch, ex_maximum_sequences = sequences, ex_threads = threads,
            ex_batch_threads = batch_threads, ex_use_mmap = True, ex_use_mlock = False\<rparr>))"

definition with_mmap :: "execution_configuration \<Rightarrow> bool \<Rightarrow> execution_configuration" where
  "with_mmap ex enabled = ex\<lparr>ex_use_mmap := enabled\<rparr>"

definition with_mlock :: "execution_configuration \<Rightarrow> bool \<Rightarrow> execution_configuration" where
  "with_mlock ex enabled = ex\<lparr>ex_use_mlock := enabled\<rparr>"

definition total_context_tokens :: "execution_configuration \<Rightarrow> source_error + u32" where
  "total_context_tokens ex =
    bind_ok (ok_or (checked_mul (ex_context_tokens_per_sequence ex) (ex_maximum_sequences ex)) ContextCapacityOverflow)
      (\<lambda>total. if total \<noteq> 0 then Inr total else Inl InvalidExecutionConfiguration)"

record 'path gguf_source =
  gs_path :: 'path
  gs_execution :: execution_configuration
  gs_inspection_limits :: inspection_limits

definition gguf_source_new :: "'path \<Rightarrow> execution_configuration \<Rightarrow> 'path gguf_source" where
  "gguf_source_new path ex = \<lparr>gs_path = path, gs_execution = ex, gs_inspection_limits = inspection_limits_default\<rparr>"

definition with_inspection_limits :: "'path gguf_source \<Rightarrow> inspection_limits \<Rightarrow> source_error + 'path gguf_source" where
  "with_inspection_limits source limits =
    (if il_maximum_header_bytes limits = 0 \<or> il_maximum_metadata_entries limits = 0
        \<or> il_maximum_string_bytes limits = 0 \<or> il_maximum_array_elements limits = 0
     then Inl InvalidInspectionLimits
     else Inr (source\<lparr>gs_inspection_limits := limits\<rparr>))"

subsection \<open>The native package and the file system\<close>

record context_params =
  cp_n_ctx :: u32
  cp_n_batch :: u32
  cp_n_ubatch :: u32
  cp_n_seq_max :: u32
  cp_n_threads :: i32
  cp_n_threads_batch :: i32

record ('path, 'md, 'b, 'n) llama =
  ll_supports_mmap :: bool
  ll_supports_mlock :: bool
  ll_load_from_file :: "'path \<Rightarrow> bool \<Rightarrow> bool \<Rightarrow> 'md option"
  ll_n_vocab :: "'md \<Rightarrow> i32"
  ll_n_ctx_train :: "'md \<Rightarrow> u32"
  ll_new_context :: "'md \<Rightarrow> context_params \<Rightarrow> 'n option"
  ll_n_ctx :: "'n \<Rightarrow> u32"
  ll_n_batch :: "'n \<Rightarrow> u32"
  ll_n_ubatch :: "'n \<Rightarrow> u32"
  ll_batch_new :: "usize \<Rightarrow> i32 \<Rightarrow> 'b"
  ll_batch_clear :: "'b \<Rightarrow> 'b"
  ll_batch_add :: "i32 \<Rightarrow> i32 \<Rightarrow> i32 list \<Rightarrow> bool \<Rightarrow> 'b \<Rightarrow> bool \<times> 'b"
  ll_decode :: "'b \<Rightarrow> 'n \<Rightarrow> bool \<times> 'b \<times> 'n"
  ll_get_logits :: "'n \<Rightarrow> f32 list"
  ll_clear_kv_cache_seq :: "u32 \<Rightarrow> 'n \<Rightarrow> bool option \<times> 'n"
  ll_clear_kv_cache :: "'n \<Rightarrow> 'n"

text \<open>The files: what opening one and asking for its length answer, and which allocations succeed.\<close>

record ('path, 'e) file_system =
  fs_open :: "'path \<Rightarrow> 'e + 'e read_event list"
  fs_len :: "'path \<Rightarrow> 'e + u64"
  fs_reserve :: "usize \<Rightarrow> bool"

subsection \<open>Failures\<close>

definition gguf_failure :: "backend_id \<Rightarrow> backend_failure_kind \<Rightarrow> u32 \<Rightarrow> backend_failure" where
  "gguf_failure backend kind code = \<lparr>bf_backend = backend, bf_kind = kind, bf_code = code\<rparr>"

definition metadata_load_error :: "backend_id \<Rightarrow> 'e metadata_error \<Rightarrow> load_error" where
  "metadata_load_error backend error = LoadBackend (gguf_failure backend InvalidModel
     (case error of MetaOpen _ \<Rightarrow> 1 | MetaRead _ \<Rightarrow> 2 | MetaNumericOverflow \<Rightarrow> 4 | _ \<Rightarrow> 3))"

definition numeric_load_error :: "backend_id \<Rightarrow> load_error" where
  "numeric_load_error backend = LoadBackend (gguf_failure backend InvalidModel 4)"

definition model_mismatch :: "backend_id \<Rightarrow> load_error" where
  "model_mismatch backend = LoadBackend (gguf_failure backend InvalidModel 10)"

definition batch_sequence_error :: "backend_id \<Rightarrow> sequence_error" where
  "batch_sequence_error backend = SequenceBackend (gguf_failure backend FailureInvalidState 7)"

definition decode_sequence_error :: "backend_id \<Rightarrow> sequence_error" where
  "decode_sequence_error backend = SequenceBackend (gguf_failure backend DeviceExecution 8)"

definition kv_clear_error :: "backend_id \<Rightarrow> sequence_error" where
  "kv_clear_error backend = SequenceBackend (gguf_failure backend ForeignFunction 9)"

definition sequence_slot_error :: "backend_id \<Rightarrow> sequence_error" where
  "sequence_slot_error backend = SequenceBackend (gguf_failure backend FailureInvalidState 11)"

definition numeric_model_error :: "backend_id \<Rightarrow> model_error" where
  "numeric_model_error backend = ModelBackend (gguf_failure backend InvalidModel 4)"

definition numeric_sequence_error :: "backend_id \<Rightarrow> sequence_error" where
  "numeric_sequence_error backend = SequenceBackend (gguf_failure backend InvalidModel 4)"

subsection \<open>Inspection and load planning\<close>

record inspected_source =
  is_metadata :: gguf_metadata
  is_descriptor :: model_descriptor

definition gguf_operations :: capability_set where
  "gguf_operations = capability_union (capability_union (capability_union (CapabilitySet 1) (CapabilitySet 2))
     (CapabilitySet 4)) (CapabilitySet 16)"

definition gguf_footprint :: "u64 \<Rightarrow> u64 \<Rightarrow> u64 \<Rightarrow> memory_footprint" where
  "gguf_footprint file_bytes working per_token = \<lparr>host_weight_bytes = file_bytes, device_weight_bytes = 0,
     host_working_bytes = working, device_working_bytes = 0, cache_bytes_per_token = per_token\<rparr>"

definition gguf_descriptor :: "backend_id \<Rightarrow> gguf_metadata \<Rightarrow> execution_configuration \<Rightarrow> memory_footprint \<Rightarrow> model_descriptor" where
  "gguf_descriptor backend m ex footprint =
    \<lparr>desc_backend = backend,
     desc_metadata = \<lparr>md_architecture = gm_architecture m, md_scalar_type = gm_scalar_type m,
       md_quantization = gm_quantization m, md_vocabulary_size = gm_vocabulary_size m,
       md_context_length = gm_context_length m\<rparr>,
     desc_capabilities = \<lparr>mc_operations = gguf_operations,
       mc_maximum_context_tokens = ex_context_tokens_per_sequence ex,
       mc_maximum_sequences = ex_maximum_sequences ex,
       mc_maximum_prefill_batch = ex_maximum_prefill_batch ex\<rparr>,
     desc_estimated_footprint = footprint\<rparr>"

definition inspect_source :: "('path, 'e) file_system \<Rightarrow> backend_id \<Rightarrow> 'path gguf_source \<Rightarrow> load_error + inspected_source" where
  "inspect_source fs backend source =
    bind_ok (map_err (metadata_load_error backend)
      (inspect_metadata (fs_open fs) (fs_reserve fs) (gs_path source) (gs_inspection_limits source))) (\<lambda>m.
    let ex = gs_execution source in
    if gm_context_length m < ex_context_tokens_per_sequence ex then Inl LoadInvalidConfiguration
    else
    bind_ok (map_err (\<lambda>_. LoadInvalidConfiguration) (total_context_tokens ex)) (\<lambda>total_context.
    bind_ok (map_err (\<lambda>_. LoadBackend (gguf_failure backend InvalidModel 1)) (fs_len fs (gs_path source))) (\<lambda>file_bytes.
    bind_ok (map_err (metadata_load_error backend) (metadata_cache_bytes_per_token m :: 'e metadata_error + u64)) (\<lambda>per_token.
    bind_ok (ok_or (checked_mul per_token (ucast total_context)) (numeric_load_error backend)) (\<lambda>cache_bytes.
    bind_ok (ok_or (checked_mul (ucast (gm_vocabulary_size m)) 4) (numeric_load_error backend)) (\<lambda>logits_bytes.
    bind_ok (ok_or (checked_add cache_bytes logits_bytes) (numeric_load_error backend)) (\<lambda>working.
    Inr \<lparr>is_metadata = m,
         is_descriptor = gguf_descriptor backend m ex (gguf_footprint file_bytes working per_token)\<rparr>)))))))"

definition plan_inspected ::
    "('path, 'md, 'b, 'n) llama \<Rightarrow> 'path gguf_source \<Rightarrow> load_configuration \<Rightarrow> inspected_source \<Rightarrow> load_error + load_plan" where
  "plan_inspected L source configuration inspected =
    (if lc_device_kind configuration \<noteq> Cpu \<or> device_id_get (lc_device configuration) \<noteq> 0
     then Inl LoadInvalidConfiguration
     else if ex_use_mmap (gs_execution source) \<and> \<not> ll_supports_mmap L then Inl LoadInvalidConfiguration
     else if ex_use_mlock (gs_execution source) \<and> \<not> ll_supports_mlock L then Inl LoadInvalidConfiguration
     else
       let required = host_bytes (desc_estimated_footprint (is_descriptor inspected));
           available = budget_host_bytes (lc_memory_budget configuration) in
       if available < required then Inl (LoadInsufficientMemory required available)
       else Inr \<lparr>lp_descriptor = is_descriptor inspected,
                 lp_expected_footprint = desc_estimated_footprint (is_descriptor inspected)\<rparr>)"

subsection \<open>The loaded model\<close>

text \<open>\<open>SLOT_FREE\<close> is 0 and \<open>SLOT_OCCUPIED\<close> is 1.\<close>

record ('md, 'b, 'n) gguf_model =
  mo_backend :: backend_id
  mo_handle :: model_handle
  mo_descriptor :: model_descriptor
  mo_execution :: execution_configuration
  mo_vocabulary_size :: usize
  mo_batch :: 'b
  mo_model :: 'md
  mo_native :: 'n
  mo_occupied_slots :: "u8 list"
  mo_unloading :: bool

record gguf_sequence =
  sq_id :: sequence_id
  sq_native_slot :: u32
  sq_state :: sequence_state
  sq_position :: usize
  sq_token_capacity :: usize
  sq_maximum_prefill :: usize

text \<open>\<open>GgufModel::new\<close>; \<open>None\<close> is a \<open>ModelConstructionError\<close>.\<close>

definition gguf_model_new ::
    "('path, 'md, 'b, 'n) llama \<Rightarrow> (usize \<Rightarrow> bool) \<Rightarrow> backend_id \<Rightarrow> model_handle \<Rightarrow> model_descriptor \<Rightarrow> 'md
       \<Rightarrow> context_params \<Rightarrow> execution_configuration \<Rightarrow> ('md, 'b, 'n) gguf_model option" where
  "gguf_model_new L reserve backend handle descriptor model params ex =
    (case ll_new_context L model params of
       None \<Rightarrow> None
     | Some native \<Rightarrow>
         (case total_context_tokens ex of
            Inl _ \<Rightarrow> None
          | Inr expected \<Rightarrow>
              if \<not> (expected \<le> ll_n_ctx L native \<and> ex_maximum_prefill_batch ex \<le> ll_n_batch L native
                   \<and> ex_micro_batch_tokens ex \<le> ll_n_ubatch L native) then None
              else if \<not> reserve (unat (ex_maximum_sequences ex)) then None
              else Some \<lparr>mo_backend = backend, mo_handle = handle, mo_descriptor = descriptor, mo_execution = ex,
                mo_vocabulary_size = unat (md_vocabulary_size (desc_metadata descriptor)),
                mo_batch = ll_batch_new L (unat (ex_maximum_prefill_batch ex)) 1,
                mo_model = model, mo_native = native,
                mo_occupied_slots = replicate (unat (ex_maximum_sequences ex)) 0, mo_unloading = False\<rparr>))"

definition allocate_slot :: "('md, 'b, 'n) gguf_model \<Rightarrow> (model_error + u32) \<times> ('md, 'b, 'n) gguf_model" where
  "allocate_slot m =
    (case position (\<lambda>state. state = 0) (mo_occupied_slots m) of
       None \<Rightarrow>
         let available = usize_to_u64 (length (mo_occupied_slots m)) in
         (Inl (ModelCapacityExhausted (capacity_exhausted_new ActiveSequences (saturating_add available 1) available)), m)
     | Some index \<Rightarrow>
         if length (mo_occupied_slots m) \<le> index then (Inl (numeric_model_error (mo_backend m)), m)
         else (if index < 2 ^ 32 then Inr (of_nat index) else Inl (numeric_model_error (mo_backend m)),
               m\<lparr>mo_occupied_slots := (mo_occupied_slots m)[index := 1]\<rparr>))"

definition validate_native_slot :: "('md, 'b, 'n) gguf_model \<Rightarrow> u32 \<Rightarrow> sequence_error + usize" where
  "validate_native_slot m native_slot =
    (case slice_get (mo_occupied_slots m) (unat native_slot) of
       None \<Rightarrow> Inl (sequence_slot_error (mo_backend m))
     | Some state \<Rightarrow> if state \<noteq> 1 then Inl (sequence_slot_error (mo_backend m)) else Inr (unat native_slot))"

definition release_native_slot ::
    "('path, 'md, 'b, 'n) llama \<Rightarrow> ('md, 'b, 'n) gguf_model \<Rightarrow> u32 \<Rightarrow> (sequence_error + unit) \<times> ('md, 'b, 'n) gguf_model" where
  "release_native_slot L m native_slot =
    bind_step (validate_native_slot m native_slot, m) (\<lambda>index m.
    (case ll_clear_kv_cache_seq L native_slot (mo_native m) of
       (Some True, native) \<Rightarrow>
         let m = m\<lparr>mo_native := native\<rparr> in
         if length (mo_occupied_slots m) \<le> index then (Inl (sequence_slot_error (mo_backend m)), m)
         else (Inr (), m\<lparr>mo_occupied_slots := (mo_occupied_slots m)[index := 0]\<rparr>)
     | (_, native) \<Rightarrow> (Inl (kv_clear_error (mo_backend m)), m\<lparr>mo_native := native\<rparr>)))"

subsection \<open>Submitting tokens\<close>

text \<open>\<open>i32::try_from\<close> of a \<open>u32\<close> and of a \<open>usize\<close>.\<close>

definition i32_of_u32 :: "u32 \<Rightarrow> i32 option" where
  "i32_of_u32 w = (if w \<le> 2147483647 then Some w else None)"

definition i32_of_usize :: "usize \<Rightarrow> i32 option" where
  "i32_of_usize n = (if n \<le> 2147483647 then Some (of_nat n) else None)"

definition token_to_native :: "token_id \<Rightarrow> backend_id \<Rightarrow> sequence_error + i32" where
  "token_to_native token backend = ok_or (i32_of_u32 (token_id_get token)) (numeric_sequence_error backend)"

definition batch_add ::
    "('path, 'md, 'b, 'n) llama \<Rightarrow> backend_id \<Rightarrow> i32 \<Rightarrow> i32 \<Rightarrow> i32 \<Rightarrow> bool \<Rightarrow> 'b \<Rightarrow> (sequence_error + unit) \<times> 'b" where
  "batch_add L backend token pos sequence emit batch =
    (case ll_batch_add L token pos [sequence] emit batch of
       (True, batch) \<Rightarrow> (Inr (), batch)
     | (False, batch) \<Rightarrow> (Inl (batch_sequence_error backend), batch))"

text \<open>The loop of \<open>execute_prefill\<close> from the token at \<open>offset\<close> on.\<close>

fun prefill_rows ::
    "('path, 'md, 'b, 'n) llama \<Rightarrow> backend_id \<Rightarrow> usize \<Rightarrow> i32 \<Rightarrow> (usize \<Rightarrow> bool) \<Rightarrow> usize \<Rightarrow> token_id list \<Rightarrow> 'b
       \<Rightarrow> (sequence_error + unit) \<times> 'b" where
  "prefill_rows L backend start sequence emit offset [] batch = (Inr (), batch)"
| "prefill_rows L backend start sequence emit offset (token # tokens) batch =
     bind_step (token_to_native token backend, batch) (\<lambda>native_token batch.
     bind_step (ok_or (usize_checked_add start offset) (numeric_sequence_error backend), batch) (\<lambda>absolute batch.
     bind_step (ok_or (i32_of_usize absolute) (numeric_sequence_error backend), batch) (\<lambda>pos batch.
     bind_step (batch_add L backend native_token pos sequence (emit offset) batch) (\<lambda>_.
     prefill_rows L backend start sequence emit (Suc offset) tokens))))"

definition copy_logits :: "f32 list \<Rightarrow> f32 list \<Rightarrow> (sequence_error + usize) \<times> f32 list" where
  "copy_logits source destination =
    (if length destination < length source
     then (Inl (SequenceCapacityExhausted (capacity_exhausted_new Logits
             (usize_to_u64 (length source)) (usize_to_u64 (length destination)))), destination)
     else (Inr (length source), source @ drop (length source) destination))"

text \<open>The closure that decodes the batch and copies the logits when they are asked for.\<close>

definition decode_batch ::
    "('path, 'md, 'b, 'n) llama \<Rightarrow> ('md, 'b, 'n) gguf_model \<Rightarrow> bool \<Rightarrow> f32 list
       \<Rightarrow> (sequence_error + usize) \<times> ('md, 'b, 'n) gguf_model \<times> f32 list" where
  "decode_batch L m emit logits =
    (case ll_decode L (mo_batch m) (mo_native m) of
       (decoded, batch, native) \<Rightarrow>
         let m = m\<lparr>mo_batch := batch, mo_native := native\<rparr> in
         if \<not> decoded then (Inl (decode_sequence_error (mo_backend m)), m, logits)
         else if emit then (case copy_logits (ll_get_logits L native) logits of (r, logits) \<Rightarrow> (r, m, logits))
         else (Inr 0, m, logits))"

definition execute_prefill ::
    "('path, 'md, 'b, 'n) llama \<Rightarrow> ('md, 'b, 'n) gguf_model \<Rightarrow> gguf_sequence \<Rightarrow> prefill_input \<Rightarrow> f32 list
       \<Rightarrow> (sequence_error + usize) \<times> ('md, 'b, 'n) gguf_model \<times> f32 list" where
  "execute_prefill L m q input logits =
    (case validate_native_slot m (sq_native_slot q) of
       Inl e \<Rightarrow> (Inl e, m, logits)
     | Inr _ \<Rightarrow>
         let batch = ll_batch_clear L (mo_batch m);
             m = m\<lparr>mo_batch := batch\<rparr> in
         (case i32_of_u32 (sq_native_slot q) of
            None \<Rightarrow> (Inl (numeric_sequence_error (mo_backend m)), m, logits)
          | Some sequence \<Rightarrow>
              let last_index = length (pi_tokens input) - 1;
                  emit = (\<lambda>offset. pi_emit_logits input \<and> offset = last_index) in
              (case prefill_rows L (mo_backend m) (sq_position q) sequence emit 0 (pi_tokens input) batch of
                 (Inl e, batch) \<Rightarrow> (Inl e, m\<lparr>mo_batch := batch\<rparr>, logits)
               | (Inr _, batch) \<Rightarrow> decode_batch L (m\<lparr>mo_batch := batch\<rparr>) (pi_emit_logits input) logits)))"

definition execute_decode ::
    "('path, 'md, 'b, 'n) llama \<Rightarrow> ('md, 'b, 'n) gguf_model \<Rightarrow> gguf_sequence \<Rightarrow> decode_input \<Rightarrow> f32 list
       \<Rightarrow> (sequence_error + usize) \<times> ('md, 'b, 'n) gguf_model \<times> f32 list" where
  "execute_decode L m q token logits =
    (case validate_native_slot m (sq_native_slot q) of
       Inl e \<Rightarrow> (Inl e, m, logits)
     | Inr _ \<Rightarrow>
         let batch = ll_batch_clear L (mo_batch m);
             m = m\<lparr>mo_batch := batch\<rparr> in
         (case i32_of_u32 (sq_native_slot q) of
            None \<Rightarrow> (Inl (numeric_sequence_error (mo_backend m)), m, logits)
          | Some sequence \<Rightarrow>
              (case i32_of_usize (sq_position q) of
                 None \<Rightarrow> (Inl (numeric_sequence_error (mo_backend m)), m, logits)
               | Some pos \<Rightarrow>
                   (case token_to_native token (mo_backend m) of
                      Inl e \<Rightarrow> (Inl e, m, logits)
                    | Inr native_token \<Rightarrow>
                        (case batch_add L (mo_backend m) native_token pos sequence True batch of
                           (Inl e, batch) \<Rightarrow> (Inl e, m\<lparr>mo_batch := batch\<rparr>, logits)
                         | (Inr _, batch) \<Rightarrow> decode_batch L (m\<lparr>mo_batch := batch\<rparr>) True logits)))))"

subsection \<open>The trait of loaded models\<close>

definition gguf_plan_sequence ::
    "('md, 'b, 'n) gguf_model \<Rightarrow> sequence_configuration \<Rightarrow> model_error + sequence_plan" where
  "gguf_plan_sequence m configuration =
    (if mo_unloading m then Inl ModelInvalidState
     else if ex_context_tokens_per_sequence (mo_execution m) < sc_maximum_tokens configuration
        \<or> ex_maximum_prefill_batch (mo_execution m) < sc_maximum_prefill_batch configuration
        \<or> sc_maximum_tokens configuration < sc_maximum_prefill_batch configuration
     then Inl ModelUnsupported
     else Inr \<lparr>sp_configuration = configuration, sp_expected_footprint = footprint_default,
               sp_logits_capacity = mo_vocabulary_size m\<rparr>)"

definition gguf_create_sequence ::
    "('md, 'b, 'n) gguf_model \<Rightarrow> sequence_id \<Rightarrow> sequence_configuration
       \<Rightarrow> (model_error + gguf_sequence) \<times> ('md, 'b, 'n) gguf_model" where
  "gguf_create_sequence m sid configuration =
    bind_step (gguf_plan_sequence m configuration, m) (\<lambda>_ m.
    bind_step (allocate_slot m) (\<lambda>native_slot m.
    (Inr \<lparr>sq_id = sid, sq_native_slot = native_slot, sq_state = SeqEmpty, sq_position = 0,
          sq_token_capacity = unat (sc_maximum_tokens configuration),
          sq_maximum_prefill = unat (sc_maximum_prefill_batch configuration)\<rparr>, m)))"

definition gguf_prefill_prepared ::
    "('path, 'md, 'b, 'n) llama \<Rightarrow> ('md, 'b, 'n) gguf_model \<Rightarrow> gguf_sequence \<Rightarrow> prefill_input \<Rightarrow> prepared_buffers
       \<Rightarrow> (sequence_error + prefill_outcome) \<times> ('md, 'b, 'n) gguf_model \<times> gguf_sequence \<times> f32 list" where
  "gguf_prefill_prepared L m q input buffers =
    (let n = length (pi_tokens input) in
     if mo_unloading m \<or> sq_state q = SeqFinished \<or> pi_tokens input = []
     then (Inl SequenceInvalidState, m, q, pb_logits buffers)
     else if sq_maximum_prefill q < n
     then (Inl (SequenceCapacityExhausted (capacity_exhausted_new PrefillBatch (usize_to_u64 n)
             (usize_to_u64 (sq_maximum_prefill q)))), m, q, pb_logits buffers)
     else
       (case execute_prefill L m q input (pb_logits buffers) of
          (Inl e, m, logits) \<Rightarrow> (Inl e, m, q\<lparr>sq_state := SeqFinished\<rparr>, logits)
        | (Inr written, m, logits) \<Rightarrow>
            (case usize_checked_add (sq_position q) n of
               None \<Rightarrow> (Inl (numeric_sequence_error (mo_backend m)), m, q, logits)
             | Some pos \<Rightarrow> (Inr (PrefillReady n pos written), m, q\<lparr>sq_position := pos, sq_state := SeqReady\<rparr>, logits))))"

definition gguf_decode_prepared ::
    "('path, 'md, 'b, 'n) llama \<Rightarrow> ('md, 'b, 'n) gguf_model \<Rightarrow> gguf_sequence \<Rightarrow> decode_input \<Rightarrow> prepared_buffers
       \<Rightarrow> (sequence_error + decode_outcome) \<times> ('md, 'b, 'n) gguf_model \<times> gguf_sequence \<times> f32 list" where
  "gguf_decode_prepared L m q token buffers =
    (if mo_unloading m \<or> sq_state q \<noteq> SeqReady then (Inl SequenceInvalidState, m, q, pb_logits buffers)
     else
       (case execute_decode L m q token (pb_logits buffers) of
          (Inl e, m, logits) \<Rightarrow> (Inl e, m, q\<lparr>sq_state := SeqFinished\<rparr>, logits)
        | (Inr written, m, logits) \<Rightarrow>
            (case usize_checked_add (sq_position q) 1 of
               None \<Rightarrow> (Inl (numeric_sequence_error (mo_backend m)), m, q, logits)
             | Some pos \<Rightarrow> (Inr (DecodeReady pos written), m, q\<lparr>sq_position := pos\<rparr>, logits))))"

definition gguf_destroy_sequence ::
    "('path, 'md, 'b, 'n) llama \<Rightarrow> ('md, 'b, 'n) gguf_model \<Rightarrow> gguf_sequence
       \<Rightarrow> (sequence_error + unit) \<times> ('md, 'b, 'n) gguf_model \<times> gguf_sequence" where
  "gguf_destroy_sequence L m q =
    (case release_native_slot L m (sq_native_slot q) of
       (Inl e, m) \<Rightarrow> (Inl e, m, q)
     | (Inr _, m) \<Rightarrow> (Inr (), m, q\<lparr>sq_position := 0, sq_state := SeqFinished\<rparr>))"

definition gguf_reset_sequence ::
    "('path, 'md, 'b, 'n) llama \<Rightarrow> ('md, 'b, 'n) gguf_model \<Rightarrow> gguf_sequence
       \<Rightarrow> (sequence_error + unit) \<times> ('md, 'b, 'n) gguf_model \<times> gguf_sequence" where
  "gguf_reset_sequence L m q =
    (if mo_unloading m \<or> sq_state q = SeqFinished then (Inl SequenceInvalidState, m, q)
     else
       (case validate_native_slot m (sq_native_slot q) of
          Inl e \<Rightarrow> (Inl e, m, q)
        | Inr _ \<Rightarrow>
            (case ll_clear_kv_cache_seq L (sq_native_slot q) (mo_native m) of
               (Some True, native) \<Rightarrow>
                 (Inr (), m\<lparr>mo_native := native\<rparr>, q\<lparr>sq_position := 0, sq_state := SeqEmpty\<rparr>)
             | (_, native) \<Rightarrow> (Inl (kv_clear_error (mo_backend m)), m\<lparr>mo_native := native\<rparr>, q))))"

definition gguf_synchronize :: "('md, 'b, 'n) gguf_model \<Rightarrow> (synchronization_error + unit) \<times> ('md, 'b, 'n) gguf_model" where
  "gguf_synchronize m = (if mo_unloading m then Inl SyncInvalidState else Inr (), m)"

definition gguf_prepare_unload ::
    "('path, 'md, 'b, 'n) llama \<Rightarrow> ('md, 'b, 'n) gguf_model \<Rightarrow> (synchronization_error + unit) \<times> ('md, 'b, 'n) gguf_model" where
  "gguf_prepare_unload L m =
    (if mo_unloading m \<or> 1 \<in> set (mo_occupied_slots m) then (Inl SyncInvalidState, m)
     else (Inr (), m\<lparr>mo_native := ll_clear_kv_cache L (mo_native m), mo_unloading := True\<rparr>))"

definition gguf_loaded_model :: "('path, 'md, 'b, 'n) llama \<Rightarrow> (('md, 'b, 'n) gguf_model, gguf_sequence) loaded_model" where
  "gguf_loaded_model L =
    \<lparr>lm_sequence = \<lparr>bs_id = sq_id, bs_state = sq_state, bs_position = sq_position, bs_token_capacity = sq_token_capacity\<rparr>,
     lm_handle = mo_handle,
     lm_metadata = (\<lambda>m. desc_metadata (mo_descriptor m)),
     lm_plan_sequence = gguf_plan_sequence,
     lm_create_sequence = gguf_create_sequence,
     lm_prefill_buffer_requirements = (\<lambda>m q input. if pi_emit_logits input then mo_vocabulary_size m else 0),
     lm_decode_buffer_requirements = (\<lambda>m q token. mo_vocabulary_size m),
     lm_prefill_prepared = gguf_prefill_prepared L,
     lm_decode_prepared = gguf_decode_prepared L,
     lm_destroy_sequence = gguf_destroy_sequence L,
     lm_reset_sequence = gguf_reset_sequence L,
     lm_synchronize = gguf_synchronize,
     lm_prepare_unload = gguf_prepare_unload L\<rparr>"

subsection \<open>The trait of loaders\<close>

definition gguf_load ::
    "('path, 'md, 'b, 'n) llama \<Rightarrow> ('path, 'e) file_system \<Rightarrow> backend_id \<Rightarrow> 'path gguf_source \<Rightarrow> load_configuration
       \<Rightarrow> load_error + ('md, 'b, 'n) gguf_model" where
  "gguf_load L fs backend source configuration =
    bind_ok (inspect_source fs backend source) (\<lambda>inspected.
    bind_ok (plan_inspected L source configuration inspected) (\<lambda>plan.
    let ex = gs_execution source in
    bind_ok (ok_or (ll_load_from_file L (gs_path source) (ex_use_mmap ex) (ex_use_mlock ex))
      (LoadBackend (gguf_failure backend InvalidModel 5))) (\<lambda>model.
    if sint (ll_n_vocab L model) < 0 then Inl (model_mismatch backend)
    else if ll_n_vocab L model \<noteq> gm_vocabulary_size (is_metadata inspected)
        \<or> ll_n_ctx_train L model \<noteq> gm_context_length (is_metadata inspected)
    then Inl (model_mismatch backend)
    else
    bind_ok (map_err (\<lambda>_. LoadInvalidConfiguration) (total_context_tokens ex)) (\<lambda>total.
    ok_or (gguf_model_new L (fs_reserve fs) backend (lc_handle configuration) (lp_descriptor plan) model
        \<lparr>cp_n_ctx = total, cp_n_batch = ex_maximum_prefill_batch ex, cp_n_ubatch = ex_micro_batch_tokens ex,
         cp_n_seq_max = ex_maximum_sequences ex, cp_n_threads = ex_threads ex,
         cp_n_threads_batch = ex_batch_threads ex\<rparr> ex)
      (LoadBackend (gguf_failure backend ForeignFunction 6))))))"

text \<open>The loader keeps nothing but its identity.\<close>

definition gguf_loader ::
    "('path, 'md, 'b, 'n) llama \<Rightarrow> ('path, 'e) file_system \<Rightarrow> ('path gguf_source, backend_id, ('md, 'b, 'n) gguf_model) model_loader" where
  "gguf_loader L fs =
    \<lparr>ml_inspect = (\<lambda>backend source. bind_ok (inspect_source fs backend source) (\<lambda>inspected. Inr (is_descriptor inspected))),
     ml_plan_load = (\<lambda>backend source configuration.
       bind_ok (inspect_source fs backend source) (plan_inspected L source configuration)),
     ml_load = (\<lambda>backend source configuration. (gguf_load L fs backend source configuration, backend))\<rparr>"

definition gguf_backend ::
    "('path, 'md, 'b, 'n) llama \<Rightarrow> ('path, 'e) file_system
       \<Rightarrow> ('path gguf_source, backend_id, ('md, 'b, 'n) gguf_model, gguf_sequence) backend" where
  "gguf_backend L fs = \<lparr>be_loader = gguf_loader L fs, be_model = gguf_loaded_model L\<rparr>"

end
