(* ===== verification/Gguf_Sequences.thy ===== *)
theory Gguf_Sequences
  imports Gguf_Backend
begin

section \<open>The sequences of a GGUF model\<close>

text \<open>
  A loaded model hands out slots of one native context. \<open>llama_ok\<close> states what the documentation of
  the native package says of batches and of the cache of each slot: a batch collects rows, a decode
  that succeeds appends rows at the next positions to their slots, one that fails touches only the
  slots of its rows, and clearing a slot empties it or changes nothing. \<open>client_run\<close> is any sequence of
  calls on live sequences; with each of them it keeps the tokens its calls have accepted since it was
  created or reset. The invariant \<open>client_ok\<close> relates these histories to the slots and caches.
\<close>

subsection \<open>What the native package promises\<close>

record native_row =
  nr_token :: i32
  nr_position :: i32
  nr_sequences :: "i32 list"

type_synonym caches = "u32 \<Rightarrow> i32 list"

record ('b, 'n) llama_view =
  lv_rows :: "'b \<Rightarrow> native_row list"
  lv_cache :: "'n \<Rightarrow> caches"

fun decode_rows :: "native_row list \<Rightarrow> caches \<Rightarrow> caches option" where
  "decode_rows [] c = Some c"
| "decode_rows (r # rs) c =
     (case nr_sequences r of
        [s] \<Rightarrow> if unat (nr_position r) = length (c s) then decode_rows rs (c(s := c s @ [nr_token r])) else None
      | _ \<Rightarrow> None)"

definition llama_batches_ok :: "('path, 'md, 'b, 'n) llama \<Rightarrow> ('b, 'n) llama_view \<Rightarrow> bool" where
  "llama_batches_ok L V \<longleftrightarrow> (\<forall>b. lv_rows V (ll_batch_clear L b) = [])
     \<and> (\<forall>token pos sequences emit b b'. ll_batch_add L token pos sequences emit b = (True, b')
          \<longrightarrow> lv_rows V b' = lv_rows V b @ [\<lparr>nr_token = token, nr_position = pos, nr_sequences = sequences\<rparr>])"

definition llama_decode_ok :: "('path, 'md, 'b, 'n) llama \<Rightarrow> ('b, 'n) llama_view \<Rightarrow> bool" where
  "llama_decode_ok L V \<longleftrightarrow>
     (\<forall>b n ok b' n'. ll_decode L b n = (ok, b', n')
        \<longrightarrow> (\<forall>s. s \<notin> (\<Union>r \<in> set (lv_rows V b). set (nr_sequences r)) \<longrightarrow> lv_cache V n' s = lv_cache V n s)
          \<and> (ok \<longrightarrow> (\<forall>c. decode_rows (lv_rows V b) (lv_cache V n) = Some c \<longrightarrow> lv_cache V n' = c)))"

definition llama_cache_ok :: "('path, 'md, 'b, 'n) llama \<Rightarrow> ('b, 'n) llama_view \<Rightarrow> bool" where
  "llama_cache_ok L V \<longleftrightarrow>
     (\<forall>model params n. ll_new_context L model params = Some n \<longrightarrow> lv_cache V n = (\<lambda>_. []))
     \<and> (\<forall>n. lv_cache V (ll_clear_kv_cache L n) = (\<lambda>_. []))
     \<and> (\<forall>s n r n'. ll_clear_kv_cache_seq L s n = (r, n')
          \<longrightarrow> lv_cache V n' = (if r = Some True then (lv_cache V n)(s := []) else lv_cache V n))"

definition llama_ok :: "('path, 'md, 'b, 'n) llama \<Rightarrow> ('b, 'n) llama_view \<Rightarrow> bool" where
  "llama_ok L V \<longleftrightarrow> llama_batches_ok L V \<and> llama_decode_ok L V \<and> llama_cache_ok L V"

subsection \<open>The rows a prefill submits\<close>

primrec rows_of :: "usize \<Rightarrow> i32 \<Rightarrow> token_id list \<Rightarrow> native_row list" where
  "rows_of start s [] = []"
| "rows_of start s (token # tokens) =
     \<lparr>nr_token = token_id_get token, nr_position = of_nat start, nr_sequences = [s]\<rparr> # rows_of (Suc start) s tokens"

lemma rows_of_slots: "(\<Union>r \<in> set (rows_of start s tokens). set (nr_sequences r)) \<subseteq> {s}"
  by (induction tokens arbitrary: start) auto

lemma unat_position: "n \<le> 2147483647 \<Longrightarrow> unat (of_nat n :: i32) = n"
  by (simp add: unat_of_nat)

lemma decode_rows_of:
  "length (c s) + length tokens \<le> 2147483648
     \<Longrightarrow> decode_rows (rows_of (length (c s)) s tokens) c = Some (c(s := c s @ map token_id_get tokens))"
proof (induction tokens arbitrary: c)
  case (Cons token tokens)
  define c' where "c' = c(s := c s @ [token_id_get token])"
  have "length (c' s) = Suc (length (c s))" by (simp add: c'_def)
  then have "decode_rows (rows_of (Suc (length (c s))) s tokens) c' = Some (c'(s := c' s @ map token_id_get tokens))"
    using Cons.IH [of c'] Cons.prems by (simp add: fun_upd_def)
  moreover have "c'(s := c' s @ map token_id_get tokens) = c(s := c s @ map token_id_get (token # tokens))"
    by (auto simp: c'_def)
  ultimately have "decode_rows (rows_of (Suc (length (c s))) s tokens) c' = Some (c(s := c s @ map token_id_get (token # tokens)))"
    by (simp only:)
  then show ?case using Cons.prems unfolding c'_def by (simp add: unat_position fun_upd_def)
qed simp

lemma batch_add_Inr:
  assumes "llama_ok L V" and "batch_add L backend token pos s emit b = (Inr (), b')"
  shows "lv_rows V b' = lv_rows V b @ [\<lparr>nr_token = token, nr_position = pos, nr_sequences = [s]\<rparr>]"
  using assms by (auto simp: batch_add_def llama_ok_def llama_batches_ok_def split: prod.splits bool.splits)

lemma prefill_rows_Inr:
  assumes "llama_ok L V"
  shows "prefill_rows L backend start s emit k tokens b = (Inr (), b')
    \<Longrightarrow> lv_rows V b' = lv_rows V b @ rows_of (start + k) s tokens \<and> (tokens \<noteq> [] \<longrightarrow> start + k + length tokens \<le> 2147483648)"
proof (induction tokens arbitrary: k b)
  case (Cons token tokens)
  from Cons.prems obtain b1 where "token_id_get token \<le> 2147483647" "start + k \<le> 2147483647"
    and add: "batch_add L backend (token_id_get token) (of_nat (start + k)) s (emit k) b = (Inr (), b1)"
    and rest: "prefill_rows L backend start s emit (Suc k) tokens b1 = (Inr (), b')"
    by (auto simp: bind_step_Inr token_to_native_def i32_of_u32_def i32_of_usize_def ok_or_def usize_checked_add_def
        split: if_splits)
  from batch_add_Inr [OF assms add] Cons.IH [OF rest] \<open>start + k \<le> 2147483647\<close> show ?case by auto
qed simp

lemma batch_clear_rows: "llama_ok L V \<Longrightarrow> lv_rows V (ll_batch_clear L b) = []"
  by (simp add: llama_ok_def llama_batches_ok_def)

text \<open>The caches after a step that submitted the tokens for the slot.\<close>

definition accepts :: "('b, 'n) llama_view \<Rightarrow> u32 \<Rightarrow> token_id list \<Rightarrow> usize \<Rightarrow> 'n \<Rightarrow> 'n \<Rightarrow> bool" where
  "accepts V s tokens start n n' \<longleftrightarrow> start + length tokens \<le> 2147483648
     \<and> (start = length (lv_cache V n s) \<longrightarrow>
          lv_cache V n' = (lv_cache V n)(s := lv_cache V n s @ map token_id_get tokens))"

definition elsewhere :: "('b, 'n) llama_view \<Rightarrow> u32 \<Rightarrow> 'n \<Rightarrow> 'n \<Rightarrow> bool" where
  "elsewhere V s n n' \<longleftrightarrow> (\<forall>s'. s' \<noteq> s \<longrightarrow> lv_cache V n' s' = lv_cache V n s')"

lemma elsewhere_refl [simp]: "elsewhere V s n n"
  by (simp add: elsewhere_def)

lemma decode_batch_effect:
  assumes "llama_ok L V" and "decode_batch L m emit logits = (r, m', logits')"
    and "lv_rows V (mo_batch m) = rows_of start s tokens" and "start + length tokens \<le> 2147483648"
  shows "\<exists>b n. m' = m\<lparr>mo_batch := b, mo_native := n\<rparr> \<and> elsewhere V s (mo_native m) n
    \<and> (\<forall>w. r = Inr w \<longrightarrow> accepts V s tokens start (mo_native m) n)"
proof -
  obtain ok b n where decoded: "ll_decode L (mo_batch m) (mo_native m) = (ok, b, n)" by (metis prod_cases3)
  have m': "m' = m\<lparr>mo_batch := b, mo_native := n\<rparr>" and ok: "\<And>w. r = Inr w \<Longrightarrow> ok"
    using assms(2) by (auto simp: decode_batch_def decoded Let_def split: if_splits prod.splits)
  have laws: "\<forall>s'. s' \<notin> (\<Union>r \<in> set (rows_of start s tokens). set (nr_sequences r))
        \<longrightarrow> lv_cache V n s' = lv_cache V (mo_native m) s'"
      "ok \<longrightarrow> (\<forall>c. decode_rows (rows_of start s tokens) (lv_cache V (mo_native m)) = Some c \<longrightarrow> lv_cache V n = c)"
    using assms(1,3) decoded unfolding llama_ok_def llama_decode_ok_def by metis+
  have "elsewhere V s (mo_native m) n"
    unfolding elsewhere_def using laws(1) rows_of_slots [of start s tokens] by blast
  moreover have "accepts V s tokens start (mo_native m) n" if ok
    unfolding accepts_def using laws(2) that assms(4) decode_rows_of [of "lv_cache V (mo_native m)" s tokens] by auto
  ultimately show ?thesis using m' ok by blast
qed

lemma execute_prefill_effect:
  assumes "llama_ok L V" and "execute_prefill L m q input logits = (r, m', logits')" and "pi_tokens input \<noteq> []"
  shows "\<exists>b n. m' = m\<lparr>mo_batch := b, mo_native := n\<rparr> \<and> elsewhere V (sq_native_slot q) (mo_native m) n
    \<and> (\<forall>w. r = Inr w \<longrightarrow> accepts V (sq_native_slot q) (pi_tokens input) (sq_position q) (mo_native m) n)"
proof -
  let ?b = "ll_batch_clear L (mo_batch m)" and ?emit = "\<lambda>offset. pi_emit_logits input \<and> offset = length (pi_tokens input) - 1"
  let ?rows = "prefill_rows L (mo_backend m) (sq_position q) (sq_native_slot q) ?emit 0 (pi_tokens input) ?b"
  have unchanged: ?thesis if "m' = m\<lparr>mo_batch := b\<rparr>" "\<And>w. r \<noteq> Inr w" for b
    using that by (intro exI [of _ b] exI [of _ "mo_native m"]) simp
  consider "m' = m" "\<And>w. r \<noteq> Inr w" | b where "m' = m\<lparr>mo_batch := b\<rparr>" "\<And>w. r \<noteq> Inr w"
    | b where "?rows = (Inr (), b)" "decode_batch L (m\<lparr>mo_batch := b\<rparr>) (pi_emit_logits input) logits = (r, m', logits')"
    using assms(2) unfolding execute_prefill_def Let_def i32_of_u32_def
    by (auto split: sum.splits if_splits prod.splits dest!: sym [of "Inl _" "validate_native_slot _ _"])
  then show ?thesis
  proof cases
    case 1 then show ?thesis using unchanged [of "mo_batch m"] by simp
  next
    case 2 then show ?thesis using unchanged by blast
  next
    case (3 b)
    from prefill_rows_Inr [OF assms(1) 3(1)] assms(3)
    have "lv_rows V b = rows_of (sq_position q) (sq_native_slot q) (pi_tokens input)"
      and "sq_position q + length (pi_tokens input) \<le> 2147483648" by (simp_all add: batch_clear_rows [OF assms(1)])
    from decode_batch_effect [OF assms(1) 3(2) _ this(2)] this(1) show ?thesis by (auto intro!: exI)
  qed
qed

lemma execute_decode_effect:
  assumes "llama_ok L V" and "execute_decode L m q token logits = (r, m', logits')"
  shows "\<exists>b n. m' = m\<lparr>mo_batch := b, mo_native := n\<rparr> \<and> elsewhere V (sq_native_slot q) (mo_native m) n
    \<and> (\<forall>w. r = Inr w \<longrightarrow> accepts V (sq_native_slot q) [token] (sq_position q) (mo_native m) n)"
proof -
  let ?b = "ll_batch_clear L (mo_batch m)"
  have unchanged: ?thesis if "m' = m\<lparr>mo_batch := b\<rparr>" "\<And>w. r \<noteq> Inr w" for b
    using that by (intro exI [of _ b] exI [of _ "mo_native m"]) simp
  consider "m' = m" "\<And>w. r \<noteq> Inr w" | b where "m' = m\<lparr>mo_batch := b\<rparr>" "\<And>w. r \<noteq> Inr w"
    | b where "sq_position q \<le> 2147483647"
      "batch_add L (mo_backend m) (token_id_get token) (of_nat (sq_position q)) (sq_native_slot q) True ?b = (Inr (), b)"
      "decode_batch L (m\<lparr>mo_batch := b\<rparr>) True logits = (r, m', logits')"
    using assms(2) unfolding execute_decode_def Let_def i32_of_u32_def i32_of_usize_def token_to_native_def ok_or_def
    by (auto split: sum.splits if_splits prod.splits dest!: sym [of "Inl _" "validate_native_slot _ _"])
  then show ?thesis
  proof cases
    case 1 then show ?thesis using unchanged [of "mo_batch m"] by simp
  next
    case 2 then show ?thesis using unchanged by blast
  next
    case (3 b)
    have "lv_rows V b = rows_of (sq_position q) (sq_native_slot q) [token]"
      using batch_add_Inr [OF assms(1) 3(2)] by (simp add: batch_clear_rows [OF assms(1)])
    with decode_batch_effect [OF assms(1) 3(3), of "sq_position q" "sq_native_slot q" "[token]"] 3(1)
    show ?thesis by (auto intro!: exI)
  qed
qed

subsection \<open>One step of a sequence\<close>

definition stepped ::
    "('b, 'n) llama_view \<Rightarrow> token_id list \<Rightarrow> ('md, 'b, 'n) gguf_model \<Rightarrow> gguf_sequence \<Rightarrow> bool
       \<Rightarrow> ('md, 'b, 'n) gguf_model \<Rightarrow> gguf_sequence \<Rightarrow> bool" where
  "stepped V tokens m q ok m' q' \<longleftrightarrow>
     (\<exists>b n. m' = m\<lparr>mo_batch := b, mo_native := n\<rparr> \<and> elsewhere V (sq_native_slot q) (mo_native m) n
       \<and> (if ok then q' = q\<lparr>sq_position := sq_position q + length tokens, sq_state := SeqReady\<rparr>
              \<and> sq_state q \<noteq> SeqFinished \<and> sq_position q + length tokens \<le> sq_token_capacity q
              \<and> accepts V (sq_native_slot q) tokens (sq_position q) (mo_native m) n
          else m' = m \<and> q' = q \<or> q' = q\<lparr>sq_state := SeqFinished\<rparr>))"

lemma stepped_unchanged: "stepped V tokens m q False m q"
  unfolding stepped_def by (intro exI [of _ "mo_batch m"] exI [of _ "mo_native m"]) simp

lemma accepts_room: "accepts V s tokens start n n' \<Longrightarrow> usize_checked_add start (length tokens) = Some (start + length tokens)"
  by (simp add: accepts_def usize_checked_add_def usize_max_def)

lemma gguf_prefill_stepped:
  assumes "llama_ok L V" and "gguf_prefill_prepared L m q input buffers = (r, m', q', logits')"
    and "sq_position q + length (pi_tokens input) \<le> sq_token_capacity q"
  shows "stepped V (pi_tokens input) m q (is_ok r) m' q' \<and> (\<forall>o'. r = Inr o' \<longrightarrow> (\<exists>a b w. o' = PrefillReady a b w))"
proof (cases "mo_unloading m \<or> sq_state q = SeqFinished \<or> pi_tokens input = [] \<or> sq_maximum_prefill q < length (pi_tokens input)")
  case True
  then show ?thesis using assms(2) stepped_unchanged [of V "pi_tokens input" m q]
    by (auto simp: gguf_prefill_prepared_def Let_def is_ok_def split: if_splits)
next
  case False
  obtain x m1 l where run: "execute_prefill L m q input (pb_logits buffers) = (x, m1, l)" by (metis prod_cases3)
  from execute_prefill_effect [OF assms(1) run] False obtain b n where m1: "m1 = m\<lparr>mo_batch := b, mo_native := n\<rparr>"
    and other: "elsewhere V (sq_native_slot q) (mo_native m) n"
    and took: "\<And>w. x = Inr w \<Longrightarrow> accepts V (sq_native_slot q) (pi_tokens input) (sq_position q) (mo_native m) n" by blast
  show ?thesis
  proof (cases x)
    case (Inl e)
    with assms(2) False run m1 have "r = Inl e" "m' = m\<lparr>mo_batch := b, mo_native := n\<rparr>" "q' = q\<lparr>sq_state := SeqFinished\<rparr>"
      by (simp_all add: gguf_prefill_prepared_def Let_def)
    with other show ?thesis unfolding stepped_def by (auto simp: is_ok_def)
  next
    case (Inr w)
    note room = accepts_room [OF took [OF Inr]]
    with assms(2) False run m1 Inr have "r = Inr (PrefillReady (length (pi_tokens input)) (sq_position q + length (pi_tokens input)) w)"
      "m' = m\<lparr>mo_batch := b, mo_native := n\<rparr>"
      "q' = q\<lparr>sq_position := sq_position q + length (pi_tokens input), sq_state := SeqReady\<rparr>"
      by (simp_all add: gguf_prefill_prepared_def Let_def)
    with other took [OF Inr] False assms(3) show ?thesis unfolding stepped_def by (auto simp: is_ok_def)
  qed
qed

lemma gguf_decode_stepped:
  assumes "llama_ok L V" and "gguf_decode_prepared L m q token buffers = (r, m', q', logits')"
    and "sq_position q < sq_token_capacity q"
  shows "stepped V [token] m q (is_ok r) m' q' \<and> (\<forall>o'. r = Inr o' \<longrightarrow> (\<exists>a w. o' = DecodeReady a w))"
proof (cases "mo_unloading m \<or> sq_state q \<noteq> SeqReady")
  case True
  then show ?thesis using assms(2) stepped_unchanged [of V "[token]" m q]
    by (auto simp: gguf_decode_prepared_def is_ok_def split: if_splits)
next
  case False
  obtain x m1 l where run: "execute_decode L m q token (pb_logits buffers) = (x, m1, l)" by (metis prod_cases3)
  from execute_decode_effect [OF assms(1) run] obtain b n where m1: "m1 = m\<lparr>mo_batch := b, mo_native := n\<rparr>"
    and other: "elsewhere V (sq_native_slot q) (mo_native m) n"
    and took: "\<And>w. x = Inr w \<Longrightarrow> accepts V (sq_native_slot q) [token] (sq_position q) (mo_native m) n" by blast
  show ?thesis
  proof (cases x)
    case (Inl e)
    with assms(2) False run m1 have "r = Inl e" "m' = m\<lparr>mo_batch := b, mo_native := n\<rparr>" "q' = q\<lparr>sq_state := SeqFinished\<rparr>"
      by (simp_all add: gguf_decode_prepared_def)
    with other show ?thesis unfolding stepped_def by (auto simp: is_ok_def)
  next
    case (Inr w)
    from accepts_room [OF took [OF Inr]] have room: "usize_checked_add (sq_position q) 1 = Some (sq_position q + 1)" by simp
    with assms(2) False run m1 Inr have "r = Inr (DecodeReady (sq_position q + 1) w)"
      "m' = m\<lparr>mo_batch := b, mo_native := n\<rparr>" "q' = q\<lparr>sq_position := sq_position q + 1\<rparr>"
      by (simp_all add: gguf_decode_prepared_def)
    moreover have "q\<lparr>sq_position := sq_position q + 1\<rparr> = q\<lparr>sq_position := sq_position q + 1, sq_state := SeqReady\<rparr>"
      using False by (cases q) simp
    ultimately show ?thesis using other took [OF Inr] False assms(3) unfolding stepped_def by (auto simp: is_ok_def)
  qed
qed

text \<open>The checked operations over the GGUF model.\<close>

fun prefill_ready :: "sequence_error + prefill_outcome \<Rightarrow> bool" where
  "prefill_ready (Inr (PrefillReady _ _ _)) = True"
| "prefill_ready _ = False"

fun decode_ready :: "sequence_error + decode_outcome \<Rightarrow> bool" where
  "decode_ready (Inr (DecodeReady _ _)) = True"
| "decode_ready _ = False"

lemma prefill_ready_present: "(\<And>o'. r = Inr o' \<Longrightarrow> \<exists>a b w. o' = PrefillReady a b w) \<Longrightarrow> prefill_ready (present_prefill r) = is_ok r"
  by (cases r rule: present_prefill.cases) (auto simp: is_ok_def)

lemma decode_ready_present: "(\<And>o'. r = Inr o' \<Longrightarrow> \<exists>a w. o' = DecodeReady a w) \<Longrightarrow> decode_ready (present_decode r) = is_ok r"
  by (cases r rule: present_decode.cases) (auto simp: is_ok_def)

lemma gguf_model_fields [simp]:
  "lm_prefill_prepared (gguf_loaded_model L) = gguf_prefill_prepared L"
  "lm_decode_prepared (gguf_loaded_model L) = gguf_decode_prepared L"
  "seq_state (gguf_loaded_model L) = sq_state"
  "available_positions (gguf_loaded_model L) q = sq_token_capacity q - sq_position q"
  by (simp_all add: gguf_loaded_model_def available_positions_def)

lemma prefill_checked_stepped:
  assumes "llama_ok L V" and "prefill_checked (gguf_loaded_model L) m q input logits c = (r, m', q', logits')"
    and "sq_position q \<le> sq_token_capacity q"
  shows "stepped V (pi_tokens input) m q (prefill_ready r) m' q'"
proof (cases "prefill_admitted (gguf_loaded_model L) m q input logits c")
  case True
  let ?buffers = "\<lparr>pb_logits = logits, pb_required_logits = lm_prefill_buffer_requirements (gguf_loaded_model L) m q input\<rparr>"
  obtain x where step: "gguf_prefill_prepared L m q input ?buffers = (x, m', q', logits')" and r: "r = present_prefill x"
    using prefill_checked_cases [of "gguf_loaded_model L" m q input logits c] True assms(2)
    by (cases "gguf_prefill_prepared L m q input ?buffers") auto
  have "sq_position q + length (pi_tokens input) \<le> sq_token_capacity q"
    using True assms(3) unfolding prefill_admitted_def gguf_model_fields by linarith
  note effect = gguf_prefill_stepped [OF assms(1) step this]
  have "prefill_ready r = is_ok x" unfolding r by (rule prefill_ready_present) (use effect in blast)
  with effect show ?thesis by simp
next
  case False
  then obtain x where x: "prefill_checked (gguf_loaded_model L) m q input logits c = (x, m, q, logits)"
      and "(\<exists>reason. x = Inr (PrefillFinished reason)) \<longleftrightarrow> x \<noteq> Inl SequenceInvalidState"
    using prefill_checked_cases [of "gguf_loaded_model L" m q input logits c] unfolding if_not_P [OF False] by blast
  from this(2) have "\<not> prefill_ready x" by (cases "x = Inl SequenceInvalidState") auto
  with x assms(2) show ?thesis using stepped_unchanged [of V "pi_tokens input" m q] by simp
qed

lemma decode_checked_stepped:
  assumes "llama_ok L V" and "decode_checked (gguf_loaded_model L) m q token logits c = (r, m', q', logits')"
    and "sq_position q \<le> sq_token_capacity q"
  shows "stepped V [token] m q (decode_ready r) m' q'"
proof (cases "decode_admitted (gguf_loaded_model L) m q token logits c")
  case True
  let ?buffers = "\<lparr>pb_logits = logits, pb_required_logits = lm_decode_buffer_requirements (gguf_loaded_model L) m q token\<rparr>"
  obtain x where step: "gguf_decode_prepared L m q token ?buffers = (x, m', q', logits')" and r: "r = present_decode x"
    using decode_checked_cases [of "gguf_loaded_model L" m q token logits c] True assms(2)
    by (cases "gguf_decode_prepared L m q token ?buffers") auto
  have "sq_position q < sq_token_capacity q" using True by (simp add: decode_admitted_def)
  note effect = gguf_decode_stepped [OF assms(1) step this]
  have "decode_ready r = is_ok x" unfolding r by (rule decode_ready_present) (use effect in blast)
  with effect show ?thesis by simp
next
  case False
  then obtain x where x: "decode_checked (gguf_loaded_model L) m q token logits c = (x, m, q, logits)"
      and "(\<exists>reason. x = Inr (DecodeFinished reason)) \<longleftrightarrow> x \<noteq> Inl SequenceInvalidState"
    using decode_checked_cases [of "gguf_loaded_model L" m q token logits c] unfolding if_not_P [OF False] by blast
  from this(2) have "\<not> decode_ready x" by (cases "x = Inl SequenceInvalidState") auto
  with x assms(2) show ?thesis using stepped_unchanged [of V "[token]" m q] by simp
qed

subsection \<open>A client of the model\<close>

record live_sequence =
  ls_sequence :: gguf_sequence
  ls_history :: "token_id list"

record ('md, 'b, 'n) gguf_client =
  gc_model :: "('md, 'b, 'n) gguf_model"
  gc_live :: "live_sequence list"

text \<open>A call names the sequence it works on by its place in the list of live ones.\<close>

datatype gguf_call =
    GgufCreate sequence_id sequence_configuration
  | GgufPrefill nat prefill_input "f32 list" cancellation_status
  | GgufDecode nat token_id "f32 list" cancellation_status
  | GgufReset nat
  | GgufDestroy nat
  | GgufSynchronize
  | GgufPrepareUnload

definition on_live ::
    "('md, 'b, 'n) gguf_client \<Rightarrow> nat \<Rightarrow> (live_sequence \<Rightarrow> ('md, 'b, 'n) gguf_model \<times> live_sequence option) \<Rightarrow> ('md, 'b, 'n) gguf_client" where
  "on_live c i f =
    (case slice_get (gc_live c) i of
       None \<Rightarrow> c
     | Some live \<Rightarrow>
         (case f live of
            (m, Some live') \<Rightarrow> \<lparr>gc_model = m, gc_live = (gc_live c)[i := live']\<rparr>
          | (m, None) \<Rightarrow> \<lparr>gc_model = m, gc_live = take i (gc_live c) @ drop (Suc i) (gc_live c)\<rparr>))"

fun client_step :: "('path, 'md, 'b, 'n) llama \<Rightarrow> gguf_call \<Rightarrow> ('md, 'b, 'n) gguf_client \<Rightarrow> ('md, 'b, 'n) gguf_client" where
  "client_step L (GgufCreate sid configuration) c =
     (case gguf_create_sequence (gc_model c) sid configuration of
        (Inl _, m) \<Rightarrow> c\<lparr>gc_model := m\<rparr>
      | (Inr q, m) \<Rightarrow> \<lparr>gc_model = m, gc_live = gc_live c @ [\<lparr>ls_sequence = q, ls_history = []\<rparr>]\<rparr>)"
| "client_step L (GgufPrefill i input logits cancellation) c = on_live c i (\<lambda>live.
     (case prefill_checked (gguf_loaded_model L) (gc_model c) (ls_sequence live) input logits cancellation of
        (r, m, q, _) \<Rightarrow> (m, Some \<lparr>ls_sequence = q,
          ls_history = (if prefill_ready r then ls_history live @ pi_tokens input else ls_history live)\<rparr>)))"
| "client_step L (GgufDecode i token logits cancellation) c = on_live c i (\<lambda>live.
     (case decode_checked (gguf_loaded_model L) (gc_model c) (ls_sequence live) token logits cancellation of
        (r, m, q, _) \<Rightarrow> (m, Some \<lparr>ls_sequence = q,
          ls_history = (if decode_ready r then ls_history live @ [token] else ls_history live)\<rparr>)))"
| "client_step L (GgufReset i) c = on_live c i (\<lambda>live.
     (case gguf_reset_sequence L (gc_model c) (ls_sequence live) of
        (r, m, q) \<Rightarrow> (m, Some \<lparr>ls_sequence = q, ls_history = (if is_ok r then [] else ls_history live)\<rparr>)))"
| "client_step L (GgufDestroy i) c = on_live c i (\<lambda>live.
     (case gguf_destroy_sequence L (gc_model c) (ls_sequence live) of
        (r, m, q) \<Rightarrow> (m, if is_ok r then None else Some \<lparr>ls_sequence = q, ls_history = ls_history live\<rparr>)))"
| "client_step L GgufSynchronize c = c\<lparr>gc_model := snd (gguf_synchronize (gc_model c))\<rparr>"
| "client_step L GgufPrepareUnload c = c\<lparr>gc_model := snd (gguf_prepare_unload L (gc_model c))\<rparr>"

definition client_run :: "('path, 'md, 'b, 'n) llama \<Rightarrow> gguf_call list \<Rightarrow> ('md, 'b, 'n) gguf_model \<Rightarrow> ('md, 'b, 'n) gguf_client" where
  "client_run L calls m = fold (client_step L) calls \<lparr>gc_model = m, gc_live = []\<rparr>"

abbreviation live_slots :: "('md, 'b, 'n) gguf_client \<Rightarrow> u32 list" where
  "live_slots c \<equiv> map (\<lambda>live. sq_native_slot (ls_sequence live)) (gc_live c)"

text \<open>What holds of one live sequence.\<close>

definition live_ok :: "('b, 'n) llama_view \<Rightarrow> ('md, 'b, 'n) gguf_model \<Rightarrow> live_sequence \<Rightarrow> bool" where
  "live_ok V m live \<longleftrightarrow>
     (let q = ls_sequence live in
       sq_position q \<le> sq_token_capacity q
       \<and> sq_token_capacity q \<le> unat (ex_context_tokens_per_sequence (mo_execution m))
       \<and> (sq_state q \<noteq> SeqFinished \<longrightarrow>
            lv_cache V (mo_native m) (sq_native_slot q) = map token_id_get (ls_history live)
            \<and> sq_position q = length (ls_history live)))"

definition client_ok :: "('b, 'n) llama_view \<Rightarrow> ('md, 'b, 'n) gguf_client \<Rightarrow> bool" where
  "client_ok V c \<longleftrightarrow>
     (let m = gc_model c in
       length (mo_occupied_slots m) = unat (ex_maximum_sequences (mo_execution m))
       \<and> distinct (live_slots c)
       \<and> (\<forall>s. s \<in> set (live_slots c) \<longleftrightarrow> unat s < length (mo_occupied_slots m) \<and> mo_occupied_slots m ! unat s = 1)
       \<and> set (mo_occupied_slots m) \<subseteq> {0, 1}
       \<and> (\<forall>live \<in> set (gc_live c). live_ok V m live)
       \<and> (\<forall>s. s \<notin> set (live_slots c) \<longrightarrow> lv_cache V (mo_native m) s = []))"

subsection \<open>Every call keeps the invariant\<close>

lemma client_okD:
  assumes "client_ok V c"
  shows "length (mo_occupied_slots (gc_model c)) = unat (ex_maximum_sequences (mo_execution (gc_model c)))"
    and "distinct (live_slots c)"
    and "s \<in> set (live_slots c) \<longleftrightarrow> unat s < length (mo_occupied_slots (gc_model c)) \<and> mo_occupied_slots (gc_model c) ! unat s = 1"
    and "set (mo_occupied_slots (gc_model c)) \<subseteq> {0, 1}"
    and "live \<in> set (gc_live c) \<Longrightarrow> live_ok V (gc_model c) live"
    and "s \<notin> set (live_slots c) \<Longrightarrow> lv_cache V (mo_native (gc_model c)) s = []"
  using assms unfolding client_ok_def Let_def by blast+

lemma live_ok_frame:
  assumes "live_ok V m live" and "mo_execution m' = mo_execution m"
    and "lv_cache V (mo_native m') (sq_native_slot (ls_sequence live)) = lv_cache V (mo_native m) (sq_native_slot (ls_sequence live))"
  shows "live_ok V m' live"
  using assms by (simp add: live_ok_def)

lemma client_ok_update:
  assumes ok: "client_ok V c" and i: "i < length (gc_live c)"
    and model: "mo_execution m' = mo_execution (gc_model c)" "mo_occupied_slots m' = mo_occupied_slots (gc_model c)"
    and slot: "sq_native_slot (ls_sequence live') = sq_native_slot (ls_sequence (gc_live c ! i))"
    and live': "live_ok V m' live'"
    and other: "elsewhere V (sq_native_slot (ls_sequence live')) (mo_native (gc_model c)) (mo_native m')"
  shows "client_ok V \<lparr>gc_model = m', gc_live = (gc_live c)[i := live']\<rparr>"
proof -
  let ?c = "\<lparr>gc_model = m', gc_live = (gc_live c)[i := live']\<rparr>"
  have slots: "live_slots ?c = live_slots c"
    using i slot by (simp add: map_update list_update_same_conv)
  have "live_ok V m' live" if "live \<in> set ((gc_live c)[i := live'])" for live
  proof -
    from that obtain j where j: "j < length (gc_live c)" "live = (if j = i then live' else gc_live c ! j)"
      by (auto simp: in_set_conv_nth nth_list_update split: if_splits)
    show ?thesis
    proof (cases "j = i")
      case False
      with j have live: "live = gc_live c ! j" "live \<in> set (gc_live c)" by simp_all
      have "live_slots c ! j \<noteq> live_slots c ! i"
        using nth_eq_iff_index_eq [OF client_okD(2) [OF ok], of j i] j(1) i False by simp
      then have "sq_native_slot (ls_sequence live) \<noteq> sq_native_slot (ls_sequence live')"
        using live(1) j(1) i slot by simp
      with other have "lv_cache V (mo_native m') (sq_native_slot (ls_sequence live))
          = lv_cache V (mo_native (gc_model c)) (sq_native_slot (ls_sequence live))" by (simp add: elsewhere_def)
      then show ?thesis using live_ok_frame [OF client_okD(5) [OF ok live(2)] model(1)] by blast
    qed (use j live' in simp)
  qed
  moreover have "lv_cache V (mo_native m') s = []" if "s \<notin> set (live_slots c)" for s
  proof -
    have "s \<noteq> sq_native_slot (ls_sequence live')" using that i slot by auto
    with other client_okD(6) [OF ok that] show ?thesis by (simp add: elsewhere_def)
  qed
  ultimately show ?thesis unfolding client_ok_def Let_def slots using client_okD(1-4) [OF ok] model by simp
qed

lemma live_position: "client_ok V c \<Longrightarrow> i < length (gc_live c)
    \<Longrightarrow> sq_position (ls_sequence (gc_live c ! i)) \<le> sq_token_capacity (ls_sequence (gc_live c ! i))"
  using client_okD(5) [of V c "gc_live c ! i"] by (simp add: live_ok_def Let_def)

lemma client_ok_stepped:
  assumes ok: "client_ok V c" and i: "i < length (gc_live c)"
    and step: "stepped V tokens (gc_model c) (ls_sequence (gc_live c ! i)) good m' q'"
  shows "client_ok V \<lparr>gc_model = m', gc_live = (gc_live c)[i := \<lparr>ls_sequence = q',
     ls_history = (if good then ls_history (gc_live c ! i) @ tokens else ls_history (gc_live c ! i))\<rparr>]\<rparr>"
proof -
  let ?live = "gc_live c ! i"
  let ?q = "ls_sequence ?live" and ?m = "gc_model c"
  note live = client_okD(5) [OF ok nth_mem [OF i]]
  from step obtain b n where m': "m' = ?m\<lparr>mo_batch := b, mo_native := n\<rparr>"
    and other: "elsewhere V (sq_native_slot ?q) (mo_native ?m) n"
    and outcome: "if good then q' = ?q\<lparr>sq_position := sq_position ?q + length tokens, sq_state := SeqReady\<rparr>
        \<and> sq_state ?q \<noteq> SeqFinished \<and> sq_position ?q + length tokens \<le> sq_token_capacity ?q
        \<and> accepts V (sq_native_slot ?q) tokens (sq_position ?q) (mo_native ?m) n
      else m' = ?m \<and> q' = ?q \<or> q' = ?q\<lparr>sq_state := SeqFinished\<rparr>" unfolding stepped_def by blast
  have execution: "mo_execution m' = mo_execution ?m" by (simp add: m')
  have "sq_native_slot q' = sq_native_slot ?q" using outcome by (auto split: if_splits)
  moreover have "live_ok V m' \<lparr>ls_sequence = q', ls_history = (if good then ls_history ?live @ tokens else ls_history ?live)\<rparr>"
  proof (cases good)
    case True
    with outcome live show ?thesis by (auto simp: live_ok_def Let_def accepts_def m')
  next
    case False
    with outcome live execution show ?thesis by (auto simp: live_ok_def Let_def)
  qed
  ultimately show ?thesis using other by (intro client_ok_update [OF ok i]) (simp_all add: m')
qed

lemma allocate_slot_cases:
  assumes "length (mo_occupied_slots m) < 2 ^ 32"
  shows "if 0 \<in> set (mo_occupied_slots m)
    then \<exists>s. allocate_slot m = (Inr s, m\<lparr>mo_occupied_slots := (mo_occupied_slots m)[unat s := 1]\<rparr>)
      \<and> unat s < length (mo_occupied_slots m) \<and> mo_occupied_slots m ! unat s = 0
    else allocate_slot m = (Inl (ModelCapacityExhausted (capacity_exhausted_new ActiveSequences
      (saturating_add (usize_to_u64 (length (mo_occupied_slots m))) 1) (usize_to_u64 (length (mo_occupied_slots m))))), m)"
proof (cases "position (\<lambda>state. state = 0) (mo_occupied_slots m)")
  case None
  then have "0 \<notin> set (mo_occupied_slots m)" by (auto simp: position_None)
  with None show ?thesis by (simp add: allocate_slot_def Let_def)
next
  case (Some i)
  then have i: "i < length (mo_occupied_slots m)" "mo_occupied_slots m ! i = 0" by (simp_all add: position_Some)
  moreover have "unat (of_nat i :: u32) = i" using i(1) assms by (simp add: unat_of_nat)
  ultimately have "0 \<in> set (mo_occupied_slots m)" by (metis nth_mem)
  with Some i assms \<open>unat (of_nat i :: u32) = i\<close> show ?thesis
    by (simp add: allocate_slot_def exI [of _ "of_nat i :: u32"])
qed

lemma slots_fit: "client_ok V c \<Longrightarrow> length (mo_occupied_slots (gc_model c)) < 2 ^ 32"
  using unsigned_less [of "ex_maximum_sequences (mo_execution (gc_model c))"] by (simp add: client_okD(1))

lemma client_ok_allocated:
  assumes ok: "client_ok V c" and s: "unat s < length (mo_occupied_slots (gc_model c))" "mo_occupied_slots (gc_model c) ! unat s = 0"
    and q: "sq_native_slot q = s" "sq_position q = 0" "sq_token_capacity q \<le> unat (ex_context_tokens_per_sequence (mo_execution (gc_model c)))"
  shows "client_ok V \<lparr>gc_model = (gc_model c)\<lparr>mo_occupied_slots := (mo_occupied_slots (gc_model c))[unat s := 1]\<rparr>,
    gc_live = gc_live c @ [\<lparr>ls_sequence = q, ls_history = []\<rparr>]\<rparr>"
proof -
  let ?occupied = "(mo_occupied_slots (gc_model c))[unat s := 1]"
  have new: "s \<notin> set (live_slots c)" using client_okD(3) [OF ok, of s] s by simp
  have "t \<in> set (live_slots c) \<or> t = s \<longleftrightarrow> unat t < length ?occupied \<and> ?occupied ! unat t = 1" for t
    using client_okD(3) [OF ok, of t] s by (cases "unat t = unat s") (auto simp: nth_list_update word_unat_eq_iff)
  moreover have "set ?occupied \<subseteq> {0, 1}"
    using client_okD(4) [OF ok] set_update_subset_insert [of "mo_occupied_slots (gc_model c)" "unat s" 1] by blast
  moreover have "live_ok V ((gc_model c)\<lparr>mo_occupied_slots := ?occupied\<rparr>) \<lparr>ls_sequence = q, ls_history = []\<rparr>"
    using q client_okD(6) [OF ok new] by (simp add: live_ok_def)
  moreover have "live_ok V ((gc_model c)\<lparr>mo_occupied_slots := ?occupied\<rparr>) live" if "live \<in> set (gc_live c)" for live
    by (rule live_ok_frame [OF client_okD(5) [OF ok that]]) simp_all
  ultimately show ?thesis unfolding client_ok_def Let_def
    using client_okD(1,2) [OF ok] client_okD(6) [OF ok] new q(1) by auto
qed

lemma client_ok_create:
  assumes "client_ok V c"
  shows "client_ok V (client_step L (GgufCreate sid configuration) c)"
proof (cases "gguf_plan_sequence (gc_model c) configuration")
  case (Inl e)
  then show ?thesis using assms by (simp add: gguf_create_sequence_def)
next
  case (Inr plan)
  then have "unat (sc_maximum_tokens configuration) \<le> unat (ex_context_tokens_per_sequence (mo_execution (gc_model c)))"
    by (auto simp: gguf_plan_sequence_def word_le_nat_alt not_less split: if_splits)
  then show ?thesis using Inr allocate_slot_cases [OF slots_fit [OF assms]] assms
    by (auto simp: gguf_create_sequence_def intro!: client_ok_allocated split: if_splits)
qed

lemma clear_seq_effect:
  assumes "llama_ok L V" and "ll_clear_kv_cache_seq L s n = (r, n')"
  shows "lv_cache V n' = (if r = Some True then (lv_cache V n)(s := []) else lv_cache V n)"
  using assms unfolding llama_ok_def llama_cache_ok_def by blast

lemma live_record: "\<lparr>ls_sequence = ls_sequence l, ls_history = ls_history l\<rparr> = l"
  by (cases l) simp

lemma live_same [simp]:
  "(gc_live c)[i := \<lparr>ls_sequence = ls_sequence (gc_live c ! i), ls_history = ls_history (gc_live c ! i)\<rparr>] = gc_live c"
  "\<lparr>gc_model = gc_model c, gc_live = gc_live c\<rparr> = c"
  by (simp_all add: live_record)

lemma client_ok_same_caches:
  assumes "client_ok V c" and "lv_cache V n = lv_cache V (mo_native (gc_model c))"
  shows "client_ok V \<lparr>gc_model = (gc_model c)\<lparr>mo_native := n\<rparr>, gc_live = gc_live c\<rparr>"
proof -
  have "live_ok V ((gc_model c)\<lparr>mo_native := n\<rparr>) live" if "live \<in> set (gc_live c)" for live
    by (rule live_ok_frame [OF client_okD(5) [OF assms(1) that]]) (simp_all add: assms(2))
  with assms show ?thesis by (simp add: client_ok_def Let_def)
qed

lemma reset_sequence_cases:
  assumes "ll_clear_kv_cache_seq L (sq_native_slot q) (mo_native m) = (x, n)"
  shows "gguf_reset_sequence L m q =
    (if mo_unloading m \<or> sq_state q = SeqFinished then (Inl SequenceInvalidState, m, q)
     else case validate_native_slot m (sq_native_slot q) of
       Inl e \<Rightarrow> (Inl e, m, q)
     | Inr _ \<Rightarrow> if x = Some True
         then (Inr (), m\<lparr>mo_native := n\<rparr>, q\<lparr>sq_position := 0, sq_state := SeqEmpty\<rparr>)
         else (Inl (kv_clear_error (mo_backend m)), m\<lparr>mo_native := n\<rparr>, q))"
  unfolding gguf_reset_sequence_def assms by (auto split: sum.split option.split bool.split)

lemma client_ok_reset:
  assumes L: "llama_ok L V" and ok: "client_ok V c"
  shows "client_ok V (client_step L (GgufReset i) c)"
proof (cases "i < length (gc_live c)")
  case i: True
  let ?live = "gc_live c ! i" and ?m = "gc_model c"
  let ?q = "ls_sequence ?live"
  obtain x n where clear: "ll_clear_kv_cache_seq L (sq_native_slot ?q) (mo_native ?m) = (x, n)" by fastforce
  note effect = clear_seq_effect [OF L clear]
  consider e where "gguf_reset_sequence L ?m ?q = (Inl e, ?m, ?q)"
    | e where "gguf_reset_sequence L ?m ?q = (Inl e, ?m\<lparr>mo_native := n\<rparr>, ?q)" "x \<noteq> Some True"
    | "gguf_reset_sequence L ?m ?q = (Inr (), ?m\<lparr>mo_native := n\<rparr>, ?q\<lparr>sq_position := 0, sq_state := SeqEmpty\<rparr>)" "x = Some True"
    by (cases "mo_unloading ?m \<or> sq_state ?q = SeqFinished"; cases "validate_native_slot ?m (sq_native_slot ?q)"; cases "x = Some True")
      (auto simp: reset_sequence_cases [OF clear])
  then show ?thesis
  proof cases
    case 1
    then show ?thesis using ok i by (simp add: on_live_def is_ok_def)
  next
    case 2
    with client_ok_same_caches [OF ok] effect i show ?thesis by (simp add: on_live_def is_ok_def)
  next
    case 3
    have "live_ok V (?m\<lparr>mo_native := n\<rparr>) \<lparr>ls_sequence = ?q\<lparr>sq_position := 0, sq_state := SeqEmpty\<rparr>, ls_history = []\<rparr>"
      using client_okD(5) [OF ok nth_mem [OF i]] effect 3(2) by (simp add: live_ok_def Let_def)
    then have "client_ok V \<lparr>gc_model = ?m\<lparr>mo_native := n\<rparr>,
        gc_live = (gc_live c)[i := \<lparr>ls_sequence = ?q\<lparr>sq_position := 0, sq_state := SeqEmpty\<rparr>, ls_history = []\<rparr>]\<rparr>"
      using effect 3(2) by (intro client_ok_update [OF ok i]) (simp_all add: elsewhere_def)
    with 3 i show ?thesis by (simp add: on_live_def is_ok_def)
  qed
qed (use ok in \<open>simp add: on_live_def\<close>)

lemma without:
  assumes "distinct xs" and "i < length xs"
  shows "distinct (take i xs @ drop (Suc i) xs)" and "set (take i xs @ drop (Suc i) xs) = set xs - {xs ! i}"
proof -
  obtain ys zs where "ys = take i xs" "zs = drop (Suc i) xs" by simp
  then have "xs = ys @ xs ! i # zs" using id_take_nth_drop [OF assms(2)] by simp
  then obtain y where y: "xs = ys @ y # zs" "y = xs ! i" by blast
  from y(1) assms(1) have "distinct (ys @ zs) \<and> set (ys @ zs) = set xs - {y}" by auto
  then show "distinct (take i xs @ drop (Suc i) xs)" "set (take i xs @ drop (Suc i) xs) = set xs - {xs ! i}"
    using \<open>ys = take i xs\<close> \<open>zs = drop (Suc i) xs\<close> y(2) by metis+
qed

lemma release_cases:
  assumes "client_ok V c" and "i < length (gc_live c)"
    and "ll_clear_kv_cache_seq L (sq_native_slot (ls_sequence (gc_live c ! i))) (mo_native (gc_model c)) = (x, n)"
  shows "release_native_slot L (gc_model c) (sq_native_slot (ls_sequence (gc_live c ! i))) =
    (if x = Some True
     then (Inr (), (gc_model c)\<lparr>mo_native := n, mo_occupied_slots :=
             (mo_occupied_slots (gc_model c))[unat (sq_native_slot (ls_sequence (gc_live c ! i))) := 0]\<rparr>)
     else (Inl (kv_clear_error (mo_backend (gc_model c))), (gc_model c)\<lparr>mo_native := n\<rparr>))"
proof -
  have "sq_native_slot (ls_sequence (gc_live c ! i)) \<in> set (live_slots c)" using assms(2) by simp
  with client_okD(3) [OF assms(1)] show ?thesis
    by (auto simp: release_native_slot_def validate_native_slot_def assms(3) Let_def split: option.split bool.split)
qed

lemma client_ok_released:
  assumes ok: "client_ok V c" and i: "i < length (gc_live c)" and slot: "s = sq_native_slot (ls_sequence (gc_live c ! i))"
    and cleared: "lv_cache V n = (lv_cache V (mo_native (gc_model c)))(s := [])"
  shows "client_ok V \<lparr>gc_model = (gc_model c)\<lparr>mo_native := n, mo_occupied_slots := (mo_occupied_slots (gc_model c))[unat s := 0]\<rparr>,
    gc_live = take i (gc_live c) @ drop (Suc i) (gc_live c)\<rparr>" (is "client_ok V ?c")
proof -
  let ?occupied = "mo_occupied_slots (gc_model c)"
  have slots: "live_slots ?c = take i (live_slots c) @ drop (Suc i) (live_slots c)" by (simp add: take_map drop_map)
  have s: "live_slots c ! i = s" using i slot by simp
  have left: "set (live_slots ?c) = set (live_slots c) - {s}"
    unfolding slots using without(2) [OF client_okD(2) [OF ok], of i] i s by simp
  have s_in: "unat s < length ?occupied" using client_okD(3) [OF ok, of s] i slot by simp
  have "distinct (live_slots ?c)"
    unfolding slots using without(1) [OF client_okD(2) [OF ok], of i] i by simp
  moreover have "t \<in> set (live_slots ?c) \<longleftrightarrow> unat t < length (?occupied[unat s := 0]) \<and> ?occupied[unat s := 0] ! unat t = 1" for t
    unfolding left using client_okD(3) [OF ok, of t] s_in by (cases "unat t = unat s") (auto simp: word_unat_eq_iff)
  moreover have "set (?occupied[unat s := 0]) \<subseteq> {0, 1}"
    using client_okD(4) [OF ok] set_update_subset_insert [of ?occupied "unat s" 0] by blast
  moreover have "live_ok V (gc_model ?c) live" if "live \<in> set (gc_live ?c)" for live
  proof -
    have "live \<in> set (gc_live c)" using that by (auto dest: in_set_takeD in_set_dropD)
    moreover have "sq_native_slot (ls_sequence live) \<noteq> s"
      using that left by (auto simp: image_iff)
    ultimately show ?thesis
      by (intro live_ok_frame [OF client_okD(5) [OF ok]]) (simp_all add: cleared)
  qed
  moreover have "lv_cache V n t = []" if "t \<notin> set (live_slots ?c)" for t
    using that client_okD(6) [OF ok, of t] unfolding left cleared by auto
  ultimately show ?thesis unfolding client_ok_def Let_def using client_okD(1) [OF ok] by simp
qed

lemma client_ok_destroy:
  assumes L: "llama_ok L V" and ok: "client_ok V c"
  shows "client_ok V (client_step L (GgufDestroy i) c)"
proof (cases "i < length (gc_live c)")
  case i: True
  obtain x n where clear: "ll_clear_kv_cache_seq L (sq_native_slot (ls_sequence (gc_live c ! i))) (mo_native (gc_model c)) = (x, n)"
    by fastforce
  note effect = clear_seq_effect [OF L clear] and release = release_cases [OF ok i clear]
  show ?thesis
  proof (cases "x = Some True")
    case True
    with effect client_ok_released [OF ok i refl, of n] i release show ?thesis
      by (simp add: on_live_def gguf_destroy_sequence_def is_ok_def)
  next
    case False
    with effect client_ok_same_caches [OF ok, of n] i release show ?thesis
      by (simp add: on_live_def gguf_destroy_sequence_def is_ok_def)
  qed
qed (use ok in \<open>simp add: on_live_def\<close>)

lemma client_ok_prefill:
  assumes "llama_ok L V" and "client_ok V c"
  shows "client_ok V (client_step L (GgufPrefill i input logits cancellation) c)"
proof (cases "i < length (gc_live c)")
  case i: True
  obtain r m q l where run: "prefill_checked (gguf_loaded_model L) (gc_model c) (ls_sequence (gc_live c ! i)) input logits cancellation
      = (r, m, q, l)" by (metis prod_cases4)
  from client_ok_stepped [OF assms(2) i prefill_checked_stepped [OF assms(1) run live_position [OF assms(2) i]]]
  show ?thesis using i by (simp add: on_live_def run)
qed (use assms in \<open>simp add: on_live_def\<close>)

lemma client_ok_decode:
  assumes "llama_ok L V" and "client_ok V c"
  shows "client_ok V (client_step L (GgufDecode i token logits cancellation) c)"
proof (cases "i < length (gc_live c)")
  case i: True
  obtain r m q l where run: "decode_checked (gguf_loaded_model L) (gc_model c) (ls_sequence (gc_live c ! i)) token logits cancellation
      = (r, m, q, l)" by (metis prod_cases4)
  from client_ok_stepped [OF assms(2) i decode_checked_stepped [OF assms(1) run live_position [OF assms(2) i]]]
  show ?thesis using i by (simp add: on_live_def run)
qed (use assms in \<open>simp add: on_live_def\<close>)

lemma no_slot_occupied: "client_ok V c \<Longrightarrow> 1 \<in> set (mo_occupied_slots (gc_model c)) \<longleftrightarrow> gc_live c \<noteq> []"
proof
  assume ok: "client_ok V c" and "1 \<in> set (mo_occupied_slots (gc_model c))"
  then obtain k where "k < length (mo_occupied_slots (gc_model c))" "mo_occupied_slots (gc_model c) ! k = 1"
    by (auto simp: in_set_conv_nth)
  moreover from this slots_fit [OF ok] have "unat (of_nat k :: u32) = k" by (simp add: unat_of_nat)
  ultimately show "gc_live c \<noteq> []" using client_okD(3) [OF ok, of "of_nat k"] by auto
next
  assume ok: "client_ok V c" and "gc_live c \<noteq> []"
  then have "sq_native_slot (ls_sequence (hd (gc_live c))) \<in> set (live_slots c)" by simp
  with client_okD(3) [OF ok] show "1 \<in> set (mo_occupied_slots (gc_model c))" by (metis nth_mem)
qed

lemma client_ok_unload:
  assumes "llama_ok L V" and ok: "client_ok V c"
  shows "client_ok V (client_step L GgufPrepareUnload c)"
proof (cases "mo_unloading (gc_model c) \<or> 1 \<in> set (mo_occupied_slots (gc_model c))")
  case False
  have "lv_cache V (ll_clear_kv_cache L n) = (\<lambda>_. [])" for n using assms(1) by (simp add: llama_ok_def llama_cache_ok_def)
  moreover have "gc_live c = []" using False no_slot_occupied [OF ok] by blast
  ultimately show ?thesis using False client_okD(1,3,4) [OF ok] by (auto simp: gguf_prepare_unload_def client_ok_def Let_def)
qed (use ok in \<open>simp add: gguf_prepare_unload_def\<close>)

lemma client_ok_step:
  assumes "llama_ok L V" and "client_ok V c"
  shows "client_ok V (client_step L call c)"
proof (cases call)
  case GgufSynchronize
  then show ?thesis using assms(2) by (simp add: gguf_synchronize_def)
qed (use client_ok_create client_ok_prefill client_ok_decode client_ok_reset client_ok_destroy client_ok_unload assms in auto)

lemma client_ok_fresh:
  assumes "llama_ok L V" and "gguf_model_new L reserve backend handle descriptor model params ex = Some m"
  shows "client_ok V \<lparr>gc_model = m, gc_live = []\<rparr> \<and> mo_execution m = ex"
proof -
  from assms(2) obtain n where n: "ll_new_context L model params = Some n"
    and m: "mo_native m = n" "mo_occupied_slots m = replicate (unat (ex_maximum_sequences ex)) 0" "mo_execution m = ex"
    by (auto simp: gguf_model_new_def split: option.splits sum.splits if_splits)
  have "lv_cache V n = (\<lambda>_. [])" using assms(1) n unfolding llama_ok_def llama_cache_ok_def by blast
  then show ?thesis by (auto simp: client_ok_def Let_def m)
qed

lemma client_ok_run:
  assumes "llama_ok L V" and "gguf_model_new L reserve backend handle descriptor model params ex = Some m"
  shows "client_ok V (client_run L calls m)"
proof -
  have "client_ok V (fold (client_step L) calls c)" if "client_ok V c" for c
    using that by (induction calls arbitrary: c) (simp_all add: client_ok_step [OF assms(1)])
  with client_ok_fresh [OF assms] show ?thesis by (simp add: client_run_def)
qed

text \<open>No call changes the execution configuration.\<close>

lemma execution_kept:
  assumes "llama_ok L V" and "client_ok V c"
  shows "mo_execution (gc_model (client_step L call c)) = mo_execution (gc_model c)"
proof (cases call)
  case (GgufCreate sid configuration)
  then show ?thesis using allocate_slot_cases [OF slots_fit [OF assms(2)]]
    by (cases "gguf_plan_sequence (gc_model c) configuration") (auto simp: gguf_create_sequence_def split: if_splits)
next
  case (GgufPrefill i input logits cancellation)
  obtain r m q l where run: "prefill_checked (gguf_loaded_model L) (gc_model c) (ls_sequence (gc_live c ! i)) input logits cancellation
      = (r, m, q, l)" by (metis prod_cases4)
  with prefill_checked_stepped [OF assms(1) run] live_position [OF assms(2), of i] GgufPrefill show ?thesis
    by (cases "i < length (gc_live c)") (auto simp: on_live_def stepped_def)
next
  case (GgufDecode i token logits cancellation)
  obtain r m q l where run: "decode_checked (gguf_loaded_model L) (gc_model c) (ls_sequence (gc_live c ! i)) token logits cancellation
      = (r, m, q, l)" by (metis prod_cases4)
  with decode_checked_stepped [OF assms(1) run] live_position [OF assms(2), of i] GgufDecode show ?thesis
    by (cases "i < length (gc_live c)") (auto simp: on_live_def stepped_def)
next
  case (GgufReset i)
  obtain x n where "ll_clear_kv_cache_seq L (sq_native_slot (ls_sequence (gc_live c ! i))) (mo_native (gc_model c)) = (x, n)" by fastforce
  from reset_sequence_cases [OF this] GgufReset show ?thesis
    by (cases "i < length (gc_live c)") (auto simp: on_live_def split: sum.splits if_splits)
next
  case (GgufDestroy i)
  obtain x n where "ll_clear_kv_cache_seq L (sq_native_slot (ls_sequence (gc_live c ! i))) (mo_native (gc_model c)) = (x, n)" by fastforce
  from release_cases [OF assms(2) _ this] GgufDestroy show ?thesis
    by (cases "i < length (gc_live c)") (auto simp: on_live_def gguf_destroy_sequence_def is_ok_def split: if_splits)
qed (auto simp: gguf_synchronize_def gguf_prepare_unload_def)

lemma run_execution:
  assumes "llama_ok L V" and "gguf_model_new L reserve backend handle descriptor model params ex = Some m"
  shows "mo_execution (gc_model (client_run L calls m)) = ex"
proof -
  have "mo_execution (gc_model (fold (client_step L) calls c)) = mo_execution (gc_model c)" if "client_ok V c" for c
    using that
    by (induction calls arbitrary: c) (simp_all add: client_ok_step [OF assms(1)] execution_kept [OF assms(1)])
  with client_ok_fresh [OF assms] show ?thesis by (simp add: client_run_def)
qed

end
