(* ===== verification/Gguf_Loading.thy ===== *)
theory Gguf_Loading
  imports Gguf_Properties Gguf_Sequences Registry_Invariant
begin

section \<open>What the GGUF loader and its models promise\<close>

text \<open>
  The conclusions about the GGUF backend: the exact condition and the exact numbers of a load plan,
  the isolation of the sequences of a loaded model, and the exact conditions of admission and unload,
  with a small file and a small native package that keeps its documented behaviour.
\<close>

subsection \<open>The load plan\<close>

abbreviation context_total :: "execution_configuration \<Rightarrow> nat" where
  "context_total ex \<equiv> unat (ex_context_tokens_per_sequence ex) * unat (ex_maximum_sequences ex)"

definition cache_per_token :: "gguf_metadata \<Rightarrow> nat" where
  "cache_per_token m = 4 * (unat (gm_block_count m)
     * (unat (gm_embedding_length m) div unat (gm_attention_head_count m) * unat (gm_attention_head_count_kv m)))"

definition working_total :: "gguf_metadata \<Rightarrow> execution_configuration \<Rightarrow> nat" where
  "working_total m ex = cache_per_token m * context_total ex + 4 * unat (gm_vocabulary_size m)"

lemma total_context_Inr:
  "total_context_tokens ex = Inr t \<longleftrightarrow> 0 < context_total ex \<and> context_total ex < 2 ^ 32 \<and> t = of_nat (context_total ex)"
proof -
  have "(of_nat (context_total ex) :: u32) \<noteq> 0 \<longleftrightarrow> 0 < context_total ex" if "context_total ex < 2 ^ 32"
    using that by (simp add: word_unat_eq_iff unat_of_nat del: of_nat_mult)
  moreover have "ex_context_tokens_per_sequence ex * ex_maximum_sequences ex = of_nat (context_total ex)" by simp
  ultimately show ?thesis unfolding total_context_tokens_def checked_mul_def
    by (auto simp del: of_nat_mult simp: bind_ok_Inr ok_or_def)
qed

lemma metadata_facts:
  assumes "inspect_metadata open_file reserve path limits = (Inr m :: 'e metadata_error + gguf_metadata)"
  shows "gm_attention_head_count m \<noteq> 0" and "gm_attention_head_count_kv m \<le> gm_attention_head_count m"
proof -
  from assms obtain events where "fst (inspect_reader reserve (buffered_new (events :: 'e read_event list)) limits) = Inr m"
    by (auto simp: inspect_metadata_def bind_ok_Inr)
  from inspect_finish [OF this] obtain c where "(collected_finish c :: 'e metadata_error + gguf_metadata) = Inr m" by blast
  from finish_consistent(4,7) [OF this] show "gm_attention_head_count m \<noteq> 0" "gm_attention_head_count_kv m \<le> gm_attention_head_count m" .
qed

lemma working_checked:
  assumes "0 < context_total ex" and "context_total ex < 2 ^ 32"
  shows "cache_per_token m < 2 ^ 64 \<and> checked_mul (of_nat (cache_per_token m)) (ucast (of_nat (context_total ex) :: u32)) = Some cache
      \<and> checked_mul (ucast (gm_vocabulary_size m)) 4 = Some logits \<and> checked_add cache logits = Some (working :: u64)
    \<longleftrightarrow> working_total m ex < 2 ^ 64 \<and> cache = of_nat (cache_per_token m * context_total ex)
      \<and> logits = of_nat (4 * unat (gm_vocabulary_size m)) \<and> working = of_nat (working_total m ex)"
proof -
  let ?per = "cache_per_token m" and ?total = "context_total ex" and ?vocabulary = "unat (gm_vocabulary_size m)"
  have "unat (of_nat ?total :: u32) = ?total"
    using assms(2) by (simp add: unat_of_nat del: of_nat_mult)
  then have total: "unat (ucast (of_nat ?total :: u32) :: u64) = ?total" by (simp only: unat_up)
  have vocabulary: "unat (ucast (gm_vocabulary_size m) :: u64) = ?vocabulary" by (rule unat_up)
  have "?vocabulary < 2 ^ 32" using unsigned_less [of "gm_vocabulary_size m"] by simp
  then have small: "4 * ?vocabulary < 2 ^ 64" by simp
  have four: "unat (4 :: u64) = 4" by simp
  have logits: "checked_mul (ucast (gm_vocabulary_size m)) 4 = Some (of_nat (4 * ?vocabulary) :: u64)"
    unfolding checked_mul_nat vocabulary four mult.commute [of ?vocabulary 4] if_P [OF small] ..
  have unat_logits: "unat (of_nat (4 * ?vocabulary) :: u64) = 4 * ?vocabulary" by (rule unat_of_length [OF small])
  show ?thesis
  proof (cases "?per * ?total < 2 ^ 64")
    case False
    then have "\<not> working_total m ex < 2 ^ 64" by (simp add: working_total_def)
    moreover have "checked_mul (of_nat ?per) (ucast (of_nat ?total :: u32)) = (None :: u64 option)" if "?per < 2 ^ 64"
      unfolding checked_mul_nat unat_of_length [OF that] total using False by simp
    ultimately show ?thesis by auto
  next
    case True
    moreover have "?per \<le> ?per * ?total" using assms(1) by simp
    ultimately have per: "?per < 2 ^ 64" by linarith
    have cache: "checked_mul (of_nat ?per) (ucast (of_nat ?total :: u32)) = Some (of_nat (?per * ?total) :: u64)"
      unfolding checked_mul_nat unat_of_length [OF per] total using True by simp
    have "checked_add (of_nat (?per * ?total)) (of_nat (4 * ?vocabulary))
        = (if working_total m ex < 2 ^ 64 then Some (of_nat (working_total m ex) :: u64) else None)"
      unfolding checked_add_def unat_of_length [OF True] unat_logits working_total_def by simp
    with per cache logits show ?thesis by (auto split: if_splits)
  qed
qed

lemma source_metadata:
  "bind_ok (map_err f (x :: 'a + 'b)) g = Inr z \<longleftrightarrow> (\<exists>y. x = Inr y \<and> g y = Inr z)"
  by (cases x) (simp_all add: map_err_def bind_ok_def)

lemma cache_per_token_Inr:
  assumes "gm_attention_head_count m \<noteq> 0" and "gm_attention_head_count_kv m \<le> gm_attention_head_count m"
  shows "(metadata_cache_bytes_per_token m :: 'e metadata_error + u64) = Inr per \<longleftrightarrow>
    unat (gm_attention_head_count m) dvd unat (gm_embedding_length m) \<and> cache_per_token m < 2 ^ 64 \<and> per = of_nat (cache_per_token m)"
  unfolding finish_cache [OF assms] Let_def cache_per_token_def [symmetric] by auto

lemma inspect_source_Inr:
  "inspect_source fs backend source = Inr i \<longleftrightarrow>
    (\<exists>m file_size. inspect_metadata (fs_open fs) (fs_reserve fs) (gs_path source) (gs_inspection_limits source) = Inr m
      \<and> fs_len fs (gs_path source) = Inr file_size
      \<and> ex_context_tokens_per_sequence (gs_execution source) \<le> gm_context_length m
      \<and> 0 < context_total (gs_execution source) \<and> context_total (gs_execution source) < 2 ^ 32
      \<and> unat (gm_attention_head_count m) dvd unat (gm_embedding_length m)
      \<and> working_total m (gs_execution source) < 2 ^ 64
      \<and> i = \<lparr>is_metadata = m, is_descriptor = gguf_descriptor backend m (gs_execution source)
          (gguf_footprint file_size (of_nat (working_total m (gs_execution source))) (of_nat (cache_per_token m)))\<rparr>)"
  (is "?inspects \<longleftrightarrow> (\<exists>m file_size. ?metadata m \<and> ?rest m file_size)")
proof -
  let ?ex = "gs_execution source"
  have "?inspects \<longleftrightarrow> (\<exists>m. ?metadata m \<and> \<not> gm_context_length m < ex_context_tokens_per_sequence ?ex
      \<and> (\<exists>total. total_context_tokens ?ex = Inr total
      \<and> (\<exists>file_size. fs_len fs (gs_path source) = Inr file_size
      \<and> (\<exists>per. (metadata_cache_bytes_per_token m :: 'b metadata_error + u64) = Inr per
      \<and> (\<exists>cache logits working. checked_mul per (ucast total) = Some cache
         \<and> checked_mul (ucast (gm_vocabulary_size m)) 4 = Some logits \<and> checked_add cache logits = Some working
         \<and> i = \<lparr>is_metadata = m, is_descriptor = gguf_descriptor backend m ?ex (gguf_footprint file_size working per)\<rparr>)))))"
    unfolding inspect_source_def Let_def source_metadata
    by (auto simp: source_metadata bind_ok_Inr split: if_splits)
  also have "\<dots> \<longleftrightarrow> (\<exists>m file_size. ?metadata m \<and> ?rest m file_size)"
  proof (intro iffI; elim exE conjE)
    fix m total file_size per cache logits working
    assume meta: "?metadata m" and total: "total_context_tokens ?ex = Inr total"
      and per: "(metadata_cache_bytes_per_token m :: 'b metadata_error + u64) = Inr per"
      and checks: "checked_mul per (ucast total) = Some cache" "checked_mul (ucast (gm_vocabulary_size m)) 4 = Some logits"
        "checked_add cache logits = Some working"
      and other: "\<not> gm_context_length m < ex_context_tokens_per_sequence ?ex" "fs_len fs (gs_path source) = Inr file_size"
        "i = \<lparr>is_metadata = m, is_descriptor = gguf_descriptor backend m ?ex (gguf_footprint file_size working per)\<rparr>"
    from total have t: "0 < context_total ?ex" "context_total ?ex < 2 ^ 32" "total = of_nat (context_total ?ex)"
      by (simp_all only: total_context_Inr)
    from per have p: "unat (gm_attention_head_count m) dvd unat (gm_embedding_length m)" "cache_per_token m < 2 ^ 64"
        "per = of_nat (cache_per_token m)" by (simp_all only: cache_per_token_Inr [OF metadata_facts [OF meta]])
    have "working_total m ?ex < 2 ^ 64 \<and> working = of_nat (working_total m ?ex)"
      using working_checked [OF t(1,2), of m cache logits working] checks p(2) unfolding p(3) t(3) by blast
    with meta other t(1,2) p(1,3) have "?metadata m \<and> ?rest m file_size" by simp
    then show "\<exists>m file_size. ?metadata m \<and> ?rest m file_size" by blast
  next
    fix m file_size
    assume meta: "?metadata m" and t: "0 < context_total ?ex" "context_total ?ex < 2 ^ 32"
      and p: "unat (gm_attention_head_count m) dvd unat (gm_embedding_length m)"
      and w: "working_total m ?ex < 2 ^ 64"
      and other: "fs_len fs (gs_path source) = Inr file_size" "ex_context_tokens_per_sequence ?ex \<le> gm_context_length m"
        "i = \<lparr>is_metadata = m, is_descriptor = gguf_descriptor backend m ?ex
          (gguf_footprint file_size (of_nat (working_total m ?ex)) (of_nat (cache_per_token m)))\<rparr>"
    note checks = working_checked [OF t, of m "of_nat (cache_per_token m * context_total ?ex)"
      "of_nat (4 * unat (gm_vocabulary_size m))" "of_nat (working_total m ?ex)", THEN iffD2, OF conjI [OF w conjI [OF refl conjI [OF refl refl]]]]
    have "(metadata_cache_bytes_per_token m :: 'b metadata_error + u64) = Inr (of_nat (cache_per_token m))"
      using checks p by (simp only: cache_per_token_Inr [OF metadata_facts [OF meta]] simp_thms)
    moreover have "total_context_tokens ?ex = Inr (of_nat (context_total ?ex))" using t by (simp only: total_context_Inr simp_thms)
    moreover have "\<not> gm_context_length m < ex_context_tokens_per_sequence ?ex" using other(2) by simp
    ultimately show "\<exists>m. ?metadata m \<and> \<not> gm_context_length m < ex_context_tokens_per_sequence ?ex
      \<and> (\<exists>total. total_context_tokens ?ex = Inr total
      \<and> (\<exists>file_size. fs_len fs (gs_path source) = Inr file_size
      \<and> (\<exists>per. (metadata_cache_bytes_per_token m :: 'b metadata_error + u64) = Inr per
      \<and> (\<exists>cache logits working. checked_mul per (ucast total) = Some cache
         \<and> checked_mul (ucast (gm_vocabulary_size m)) 4 = Some logits \<and> checked_add cache logits = Some working
         \<and> i = \<lparr>is_metadata = m, is_descriptor = gguf_descriptor backend m ?ex (gguf_footprint file_size working per)\<rparr>))))"
      using meta checks other(1,3) by blast
  qed
  finally show ?thesis .
qed

lemma footprint_host_bytes:
  "w < 2 ^ 64 \<Longrightarrow> unat (host_bytes (gguf_footprint file_size (of_nat w) per)) = min (unat file_size + w) (2 ^ 64 - 1)"
  by (simp add: unat_host_bytes gguf_footprint_def unat_of_length)

text \<open>
  \<^bold>\<open>C27\<close>. The loader plans a load exactly when the file's metadata are accepted, the heads divide the
  embedding, the context fits the model, device and mapping options are supported, and the exact
  number of bytes, saturated at 64 bits, is within the budget. The planned footprint is the length
  of the file, the cache of all configured tokens and one row of logits, without wrap-around.
\<close>

theorem gguf_plan_exact:
  "ml_plan_load (gguf_loader L fs) backend source configuration = Inr plan \<longleftrightarrow>
    (\<exists>m file_size. inspect_metadata (fs_open fs) (fs_reserve fs) (gs_path source) (gs_inspection_limits source) = Inr m
      \<and> fs_len fs (gs_path source) = Inr file_size
      \<and> ex_context_tokens_per_sequence (gs_execution source) \<le> gm_context_length m
      \<and> 0 < context_total (gs_execution source) \<and> context_total (gs_execution source) < 2 ^ 32
      \<and> unat (gm_attention_head_count m) dvd unat (gm_embedding_length m)
      \<and> working_total m (gs_execution source) < 2 ^ 64
      \<and> lc_device_kind configuration = Cpu \<and> lc_device configuration = DeviceId 0
      \<and> (ex_use_mmap (gs_execution source) \<le> ll_supports_mmap L) \<and> (ex_use_mlock (gs_execution source) \<le> ll_supports_mlock L)
      \<and> min (unat file_size + working_total m (gs_execution source)) (2 ^ 64 - 1)
          \<le> unat (budget_host_bytes (lc_memory_budget configuration))
      \<and> lp_expected_footprint plan = gguf_footprint file_size (of_nat (working_total m (gs_execution source)))
          (of_nat (cache_per_token m))
      \<and> lp_descriptor plan = gguf_descriptor backend m (gs_execution source) (lp_expected_footprint plan))"
proof -
  let ?ex = "gs_execution source"
  have plan: "plan_inspected L source configuration i = Inr plan \<longleftrightarrow>
      lc_device_kind configuration = Cpu \<and> lc_device configuration = DeviceId 0
      \<and> (ex_use_mmap ?ex \<le> ll_supports_mmap L) \<and> (ex_use_mlock ?ex \<le> ll_supports_mlock L)
      \<and> unat (host_bytes (desc_estimated_footprint (is_descriptor i))) \<le> unat (budget_host_bytes (lc_memory_budget configuration))
      \<and> lp_expected_footprint plan = desc_estimated_footprint (is_descriptor i) \<and> lp_descriptor plan = is_descriptor i" for i
    by (cases "lc_device configuration"; cases plan) (auto simp: plan_inspected_def Let_def word_less_nat_alt not_less)
  have "ml_plan_load (gguf_loader L fs) backend source configuration = Inr plan \<longleftrightarrow>
      (\<exists>i. inspect_source fs backend source = Inr i \<and> plan_inspected L source configuration i = Inr plan)"
    by (simp add: gguf_loader_def bind_ok_Inr)
  then show ?thesis unfolding inspect_source_Inr plan
    by (auto simp: footprint_host_bytes gguf_descriptor_def)
qed

subsection \<open>Loaded models\<close>

lemma gguf_load_model:
  assumes "gguf_load L fs backend source configuration = Inr m"
  shows "\<exists>descriptor model params. gguf_model_new L (fs_reserve fs) backend (lc_handle configuration) descriptor model params
     (gs_execution source) = Some m"
  using assms unfolding gguf_load_def Let_def by (auto simp: bind_ok_Inr ok_or_def split: if_splits option.splits)

text \<open>The identity of a sequence never changes, so what is proved of the registry holds over this backend.\<close>

lemma gguf_stable_ids: "stable_ids (gguf_backend L fs)"
proof -
  have "sq_id (fst (snd (snd (gguf_prefill_prepared L m q input buffers)))) = sq_id q" for m q input buffers
    by (auto simp: gguf_prefill_prepared_def Let_def split: prod.split sum.split option.split)
  moreover have "sq_id (fst (snd (snd (gguf_decode_prepared L m q token buffers)))) = sq_id q" for m q token buffers
    by (auto simp: gguf_decode_prepared_def split: prod.split sum.split option.split)
  moreover have "sq_id (snd (snd (gguf_destroy_sequence L m q))) = sq_id q" for m q
    by (auto simp: gguf_destroy_sequence_def split: prod.split sum.split)
  ultimately show ?thesis unfolding stable_ids_def by (simp add: gguf_backend_def gguf_loaded_model_def)
qed

lemma live_count:
  assumes "client_ok V c"
  shows "length (gc_live c) = card {k. k < length (mo_occupied_slots (gc_model c)) \<and> mo_occupied_slots (gc_model c) ! k = 1}"
proof -
  let ?occupied = "mo_occupied_slots (gc_model c)"
  have "unat ` set (live_slots c) = {k. k < length ?occupied \<and> ?occupied ! k = 1}"
  proof (intro set_eqI iffI)
    fix k
    assume k: "k \<in> {k. k < length ?occupied \<and> ?occupied ! k = 1}"
    with slots_fit [OF assms] have id: "unat (of_nat k :: u32) = k" by (simp add: unat_of_nat)
    with k client_okD(3) [OF assms, of "of_nat k"] have "of_nat k \<in> set (live_slots c)" by simp
    then have "unat (of_nat k :: u32) \<in> unat ` set (live_slots c)" by (rule imageI)
    then show "k \<in> unat ` set (live_slots c)" unfolding id .
  qed (use client_okD(3) [OF assms] in auto)
  then have "card {k. k < length ?occupied \<and> ?occupied ! k = 1} = card (set (live_slots c))"
    using card_image [of unat "set (live_slots c)"] by (simp add: inj_on_def word_unat_eq_iff)
  also have "\<dots> = length (live_slots c)" by (rule distinct_card [OF client_okD(2) [OF assms]])
  finally show ?thesis by simp
qed

lemma slot_free:
  assumes "client_ok V c"
  shows "0 \<in> set (mo_occupied_slots (gc_model c)) \<longleftrightarrow> length (gc_live c) < length (mo_occupied_slots (gc_model c))"
proof -
  let ?occupied = "mo_occupied_slots (gc_model c)"
  let ?taken = "{k. k < length ?occupied \<and> ?occupied ! k = 1}"
  have bits: "?occupied ! k = 0 \<longleftrightarrow> ?occupied ! k \<noteq> 1" if "k < length ?occupied" for k
    using client_okD(4) [OF assms] nth_mem [OF that] by auto
  have "0 \<in> set ?occupied \<longleftrightarrow> ?taken \<noteq> {..<length ?occupied}"
  proof -
    have "0 \<in> set ?occupied \<longleftrightarrow> (\<exists>k < length ?occupied. ?occupied ! k \<noteq> 1)" unfolding in_set_conv_nth using bits by blast
    also have "\<dots> \<longleftrightarrow> ?taken \<noteq> {..<length ?occupied}" unfolding set_eq_iff mem_Collect_eq lessThan_iff by blast
    finally show ?thesis .
  qed
  also have "\<dots> \<longleftrightarrow> card ?taken < card {..<length ?occupied}"
  proof
    have "?taken \<subseteq> {..<length ?occupied}" by auto
    then show "?taken \<noteq> {..<length ?occupied} \<Longrightarrow> card ?taken < card {..<length ?occupied}"
      by (intro psubset_card_mono) auto
  next
    assume "card ?taken < card {..<length ?occupied}"
    then show "?taken \<noteq> {..<length ?occupied}" by (metis less_irrefl)
  qed
  finally show ?thesis unfolding live_count [OF assms] by simp
qed

lemma live_at_most: "client_ok V c \<Longrightarrow> length (gc_live c) \<le> unat (ex_maximum_sequences (mo_execution (gc_model c)))"
  unfolding live_count client_okD(1) [symmetric]
  by (rule order_trans [OF card_mono [of "{..<length (mo_occupied_slots (gc_model c))}"]]) auto

lemma slot_count_u64:
  assumes "n < 2 ^ 32"
  shows "saturating_add (of_nat n) 1 = (of_nat n + 1 :: u64)" and "usize_to_u64 n = of_nat n"
  using assms by (simp_all add: saturating_add_def usize_to_u64_def usize_max_def min_def unat_of_nat)

text \<open>
  \<^bold>\<open>C28\<close>. The sequences of a loaded model never share state. Whatever calls a client makes, the live
  sequences have distinct slots, exactly the occupied ones and at most the configured number; the
  native cache of each sequence that has not failed holds exactly the tokens accepted for it since it
  was created or reset, as many as its position; free slots are empty; and the positions of all
  live sequences together fit the context that the load plan paid for.
\<close>

theorem gguf_sequences_exact:
  assumes "llama_ok L V" and "gguf_load L fs backend source configuration = Inr m" and "c = client_run L calls m"
  shows "distinct (live_slots c) \<and> length (gc_live c) \<le> unat (ex_maximum_sequences (gs_execution source))
    \<and> (\<forall>s. s \<in> set (live_slots c) \<longleftrightarrow> slice_get (mo_occupied_slots (gc_model c)) (unat s) = Some 1)
    \<and> (\<forall>live \<in> set (gc_live c). sq_state (ls_sequence live) \<noteq> SeqFinished \<longrightarrow>
         lv_cache V (mo_native (gc_model c)) (sq_native_slot (ls_sequence live)) = map token_id_get (ls_history live)
         \<and> sq_position (ls_sequence live) = length (ls_history live))
    \<and> (\<forall>s. s \<notin> set (live_slots c) \<longrightarrow> lv_cache V (mo_native (gc_model c)) s = [])
    \<and> (\<Sum>live \<leftarrow> gc_live c. sq_position (ls_sequence live)) \<le> context_total (gs_execution source)"
proof -
  from gguf_load_model [OF assms(2)] obtain descriptor model params where new:
    "gguf_model_new L (fs_reserve fs) backend (lc_handle configuration) descriptor model params (gs_execution source) = Some m" by blast
  have ok: "client_ok V c" and ex: "mo_execution (gc_model c) = gs_execution source"
    using client_ok_run [OF assms(1) new] run_execution [OF assms(1) new] by (simp_all add: assms(3))
  have "sq_position (ls_sequence live) \<le> unat (ex_context_tokens_per_sequence (gs_execution source))" if "live \<in> set (gc_live c)" for live
    using client_okD(5) [OF ok that] ex by (simp add: live_ok_def Let_def)
  then have "(\<Sum>live \<leftarrow> gc_live c. sq_position (ls_sequence live))
      \<le> (\<Sum>live \<leftarrow> gc_live c. unat (ex_context_tokens_per_sequence (gs_execution source)))" by (intro sum_list_mono) auto
  also have "\<dots> = length (gc_live c) * unat (ex_context_tokens_per_sequence (gs_execution source))" by (simp add: sum_list_triv)
  also have "\<dots> \<le> context_total (gs_execution source)" using live_at_most [OF ok] ex by simp
  finally have total: "(\<Sum>live \<leftarrow> gc_live c. sq_position (ls_sequence live)) \<le> context_total (gs_execution source)" .
  have "s \<in> set (live_slots c) \<longleftrightarrow> slice_get (mo_occupied_slots (gc_model c)) (unat s) = Some 1" for s
    unfolding client_okD(3) [OF ok] slice_get_Some by auto
  then show ?thesis
    using client_okD(2,5,6) [OF ok] live_at_most [OF ok] total unfolding ex by (auto simp: live_ok_def Let_def)
qed

text \<open>
  \<^bold>\<open>C29\<close>. After any calls of a client, a new sequence is admitted exactly when the model is not being
  unloaded, the request is within the configured bounds and a slot is free; with all slots taken the
  answer is the exhausted capacity. A destruction succeeds exactly when the native package cleared
  the slot, and an unload exactly when no sequence is left.
\<close>

theorem gguf_admission_exact:
  assumes "llama_ok L V" and "gguf_load L fs backend source configuration = Inr m" and "c = client_run L calls m"
  shows "(case fst (gguf_create_sequence (gc_model c) sid request) of
      Inr q \<Rightarrow> \<not> mo_unloading (gc_model c) \<and> sc_maximum_tokens request \<le> ex_context_tokens_per_sequence (gs_execution source)
        \<and> sc_maximum_prefill_batch request \<le> ex_maximum_prefill_batch (gs_execution source)
        \<and> sc_maximum_prefill_batch request \<le> sc_maximum_tokens request
        \<and> length (gc_live c) < unat (ex_maximum_sequences (gs_execution source)) \<and> sq_id q = sid \<and> sq_state q = SeqEmpty
    | Inl e \<Rightarrow> if mo_unloading (gc_model c) then e = ModelInvalidState
        else if sc_maximum_tokens request \<le> ex_context_tokens_per_sequence (gs_execution source)
          \<and> sc_maximum_prefill_batch request \<le> ex_maximum_prefill_batch (gs_execution source)
          \<and> sc_maximum_prefill_batch request \<le> sc_maximum_tokens request
        then length (gc_live c) = unat (ex_maximum_sequences (gs_execution source))
          \<and> e = ModelCapacityExhausted \<lparr>ce_resource = ActiveSequences,
              ce_required = of_nat (length (gc_live c)) + 1, ce_available = of_nat (length (gc_live c))\<rparr>
        else e = ModelUnsupported)
    \<and> (\<forall>live \<in> set (gc_live c). is_ok (fst (gguf_destroy_sequence L (gc_model c) (ls_sequence live)))
        \<longleftrightarrow> fst (ll_clear_kv_cache_seq L (sq_native_slot (ls_sequence live)) (mo_native (gc_model c))) = Some True)
    \<and> (is_ok (fst (gguf_prepare_unload L (gc_model c))) \<longleftrightarrow> \<not> mo_unloading (gc_model c) \<and> gc_live c = [])"
    (is "?create \<and> ?destroy \<and> ?unload")
proof -
  from gguf_load_model [OF assms(2)] obtain descriptor model params where new:
    "gguf_model_new L (fs_reserve fs) backend (lc_handle configuration) descriptor model params (gs_execution source) = Some m" by blast
  have ok: "client_ok V c" and ex: "mo_execution (gc_model c) = gs_execution source"
    using client_ok_run [OF assms(1) new] run_execution [OF assms(1) new] by (simp_all add: assms(3))
  have slots: "length (mo_occupied_slots (gc_model c)) = unat (ex_maximum_sequences (gs_execution source))"
    using client_okD(1) [OF ok] ex by simp
  have small: "unat (ex_maximum_sequences (gs_execution source)) < 2 ^ 32" using slots_fit [OF ok] slots by simp
  note full = slot_count_u64 [OF small]
  have create: ?create
    using allocate_slot_cases [OF slots_fit [OF ok]] slot_free [OF ok] live_at_most [OF ok] unfolding slots ex full
    by (auto simp: gguf_create_sequence_def gguf_plan_sequence_def ex capacity_exhausted_new_def not_less split: if_splits)
  have destroy: ?destroy
  proof
    fix live assume "live \<in> set (gc_live c)"
    then obtain i where i: "i < length (gc_live c)" "live = gc_live c ! i" by (auto simp: in_set_conv_nth)
    obtain x n where "ll_clear_kv_cache_seq L (sq_native_slot (ls_sequence (gc_live c ! i))) (mo_native (gc_model c)) = (x, n)"
      by fastforce
    with release_cases [OF ok i(1) this] i(2)
    show "is_ok (fst (gguf_destroy_sequence L (gc_model c) (ls_sequence live)))
        \<longleftrightarrow> fst (ll_clear_kv_cache_seq L (sq_native_slot (ls_sequence live)) (mo_native (gc_model c))) = Some True"
      by (simp add: gguf_destroy_sequence_def is_ok_def)
  qed
  have unload: ?unload using no_slot_occupied [OF ok] by (auto simp: gguf_prepare_unload_def is_ok_def)
  show ?thesis using create destroy unload by blast
qed

subsection \<open>A small package\<close>

definition slot_llama :: "(unit, unit, native_row list, caches) llama" where
  "slot_llama = \<lparr>ll_supports_mmap = True, ll_supports_mlock = False,
     ll_load_from_file = (\<lambda>_ _ _. Some ()), ll_n_vocab = (\<lambda>_. 1), ll_n_ctx_train = (\<lambda>_. 8),
     ll_new_context = (\<lambda>_ _. Some (\<lambda>_. [])), ll_n_ctx = (\<lambda>_. 16), ll_n_batch = (\<lambda>_. 16), ll_n_ubatch = (\<lambda>_. 16),
     ll_batch_new = (\<lambda>_ _. []), ll_batch_clear = (\<lambda>_. []),
     ll_batch_add = (\<lambda>token pos sequences emit b.
       (True, b @ [\<lparr>nr_token = token, nr_position = pos, nr_sequences = sequences\<rparr>])),
     ll_decode = (\<lambda>b n. case decode_rows b n of Some n' \<Rightarrow> (True, b, n') | None \<Rightarrow> (False, b, n)),
     ll_get_logits = (\<lambda>_. [0]), ll_clear_kv_cache_seq = (\<lambda>s n. (Some True, n(s := []))),
     ll_clear_kv_cache = (\<lambda>_ _. [])\<rparr>"

definition slot_view :: "(native_row list, caches) llama_view" where
  "slot_view = \<lparr>lv_rows = (\<lambda>b. b), lv_cache = (\<lambda>n. n)\<rparr>"

lemma decode_rows_elsewhere:
  "decode_rows rs c = Some c' \<Longrightarrow> s \<notin> (\<Union>r \<in> set rs. set (nr_sequences r)) \<Longrightarrow> c' s = c s"
  by (induction rs c rule: decode_rows.induct) (auto split: list.splits if_splits)

lemma slot_llama_ok: "llama_ok slot_llama slot_view"
  unfolding llama_ok_def llama_batches_ok_def llama_decode_ok_def llama_cache_ok_def
  by (auto simp: slot_llama_def slot_view_def decode_rows_elsewhere split: option.splits)

definition small_system :: "(unit, unit) file_system" where
  "small_system = \<lparr>fs_open = (\<lambda>_. Inr small_file), fs_len = (\<lambda>_. Inr 1000), fs_reserve = (\<lambda>_. True)\<rparr>"

definition small_execution :: execution_configuration where
  "small_execution = \<lparr>ex_context_tokens_per_sequence = 4, ex_maximum_prefill_batch = 4, ex_micro_batch_tokens = 2,
     ex_maximum_sequences = 2, ex_threads = 1, ex_batch_threads = 1, ex_use_mmap = True, ex_use_mlock = False\<rparr>"

lemma small_execution_new: "execution_new 4 4 2 2 1 1 = Inr small_execution"
  by (simp add: execution_new_def small_execution_def max_native_count_def checked_mul_def)

definition small_source :: "unit gguf_source" where
  "small_source = \<lparr>gs_path = (), gs_execution = small_execution, gs_inspection_limits = small_limits\<rparr>"

definition small_configuration :: load_configuration where
  "small_configuration = \<lparr>lc_handle = \<lparr>mh_id = ModelId 1, mh_generation = ModelGeneration 1\<rparr>, lc_device = DeviceId 0,
     lc_device_kind = Cpu, lc_memory_budget = \<lparr>budget_host_bytes = 2000, budget_device_bytes = 0\<rparr>\<rparr>"

definition small_descriptor :: model_descriptor where
  "small_descriptor = gguf_descriptor (BackendId 1) small_metadata small_execution (gguf_footprint 1000 260 32)"

definition small_model :: "(unit, native_row list, caches) gguf_model" where
  "small_model = \<lparr>mo_backend = BackendId 1, mo_handle = lc_handle small_configuration, mo_descriptor = small_descriptor,
     mo_execution = small_execution, mo_vocabulary_size = 1, mo_batch = [], mo_model = (), mo_native = (\<lambda>_. []),
     mo_occupied_slots = [0, 0], mo_unloading = False\<rparr>"

lemma small_inspect:
  "inspect_source small_system (BackendId 1) small_source = Inr \<lparr>is_metadata = small_metadata, is_descriptor = small_descriptor\<rparr>"
proof -
  have "fst (inspect_reader (\<lambda>_. True) (buffered_new small_file) small_limits) = Inr small_metadata"
    by (rule inspect_reader_format [OF small_quiet, THEN iffD2, OF small_header])
  then have "inspect_metadata (fs_open small_system) (fs_reserve small_system) () small_limits = Inr small_metadata"
    by (simp add: inspect_metadata_def small_system_def)
  moreover have "working_total small_metadata small_execution = 260" "cache_per_token small_metadata = 32"
    by (simp_all add: working_total_def cache_per_token_def small_metadata_def small_execution_def)
  ultimately show ?thesis
    unfolding inspect_source_Inr by (intro exI [of _ small_metadata] exI [of _ 1000])
      (simp add: small_source_def small_system_def small_descriptor_def small_execution_def small_metadata_def)
qed

lemma small_load: "gguf_load slot_llama small_system (BackendId 1) small_source small_configuration = Inr small_model"
proof -
  have "host_bytes (gguf_footprint 1000 260 32) = 1260" by (simp add: host_bytes_def gguf_footprint_def saturating_add_def)
  then have plan: "plan_inspected slot_llama small_source small_configuration \<lparr>is_metadata = small_metadata, is_descriptor = small_descriptor\<rparr>
      = Inr \<lparr>lp_descriptor = small_descriptor, lp_expected_footprint = gguf_footprint 1000 260 32\<rparr>"
    by (simp add: plan_inspected_def small_source_def small_configuration_def small_execution_def slot_llama_def
        small_descriptor_def gguf_descriptor_def)
  have total: "total_context_tokens small_execution = Inr 8"
    by (simp add: total_context_tokens_def small_execution_def checked_mul_def)
  have two: "replicate 2 (0 :: u8) = [0, 0]" by (simp add: numeral_2_eq_2)
  have source: "gs_execution small_source = small_execution" by (simp add: small_source_def)
  have "gguf_model_new slot_llama (fs_reserve small_system) (BackendId 1) (lc_handle small_configuration) small_descriptor ()
      params small_execution = Some small_model" for params
    by (simp add: gguf_model_new_def total slot_llama_def small_system_def small_model_def small_descriptor_def gguf_descriptor_def
        small_metadata_def) (simp add: small_execution_def two)
  moreover have "ll_load_from_file slot_llama (gs_path small_source) mmap mlock = Some ()" "ll_n_vocab slot_llama () = 1"
    "ll_n_ctx_train slot_llama () = 8" for mmap mlock by (simp_all add: slot_llama_def)
  moreover have "gm_vocabulary_size small_metadata = 1" "gm_context_length small_metadata = 8" by (simp_all add: small_metadata_def)
  ultimately show ?thesis unfolding gguf_load_def small_inspect bind_ok_simps plan source Let_def total by simp
qed

definition small_request :: sequence_configuration where
  "small_request = \<lparr>sc_maximum_tokens = 4, sc_maximum_prefill_batch = 2\<rparr>"

definition small_calls :: "gguf_call list" where
  "small_calls = [GgufCreate (SequenceId 1) small_request, GgufCreate (SequenceId 2) small_request,
     GgufPrefill 0 \<lparr>pi_tokens = [TokenId 5, TokenId 6], pi_emit_logits = True\<rparr> [0] CancelRunning,
     GgufPrefill 1 \<lparr>pi_tokens = [TokenId 7], pi_emit_logits = True\<rparr> [0] CancelRunning,
     GgufDecode 1 (TokenId 8) [0] CancelRunning, GgufDestroy 0]"

lemma small_run:
  "map ls_history (gc_live (client_run slot_llama small_calls small_model)) = [[TokenId 7, TokenId 8]]
   \<and> live_slots (client_run slot_llama small_calls small_model) = [1]
   \<and> map (sq_state \<circ> ls_sequence) (gc_live (client_run slot_llama small_calls small_model)) = [SeqReady]"
  by (simp add: client_run_def small_calls_def small_model_def gguf_create_sequence_def gguf_plan_sequence_def small_request_def
      small_execution_def allocate_slot_def on_live_def slice_get_def prefill_checked_def decode_checked_def
      gguf_loaded_model_def available_positions_def prefill_buffers_prepare_def decode_buffers_prepare_def Let_def
      gguf_prefill_prepared_def execute_prefill_def validate_native_slot_def i32_of_u32_def i32_of_usize_def token_to_native_def
      batch_add_def slot_llama_def decode_batch_def copy_logits_def usize_checked_add_def usize_max_def
      gguf_decode_prepared_def execute_decode_def gguf_destroy_sequence_def release_native_slot_def is_ok_def)

lemma gguf_sequences_exact_witness:
  "mo_native (gc_model (client_run slot_llama small_calls small_model)) 1 = [7, 8]
   \<and> mo_native (gc_model (client_run slot_llama small_calls small_model)) 0 = []"
proof -
  let ?c = "client_run slot_llama small_calls small_model"
  note exact = gguf_sequences_exact [OF slot_llama_ok small_load refl, of small_calls]
  have view: "lv_cache slot_view n = n" for n by (simp add: slot_view_def)
  obtain live where live: "gc_live ?c = [live]" "sq_native_slot (ls_sequence live) = 1"
      "sq_state (ls_sequence live) = SeqReady" "ls_history live = [TokenId 7, TokenId 8]"
    using small_run by auto
  with exact have "mo_native (gc_model ?c) 1 = [7, 8]" by (simp add: view)
  moreover have "0 \<notin> set (live_slots ?c)" using small_run by simp
  then have "mo_native (gc_model ?c) 0 = []" using exact unfolding view by blast
  ultimately show ?thesis by blast
qed

lemma gguf_admission_exact_witness:
  "\<not> is_ok (fst (gguf_prepare_unload slot_llama (gc_model (client_run slot_llama small_calls small_model))))
   \<and> is_ok (fst (gguf_prepare_unload slot_llama (gc_model (client_run slot_llama [] small_model))))"
proof -
  have "gc_live (client_run slot_llama small_calls small_model) \<noteq> []" using small_run by auto
  moreover have "gc_live (client_run slot_llama [] small_model) = []" "\<not> mo_unloading (gc_model (client_run slot_llama [] small_model))"
    by (simp_all add: client_run_def small_model_def)
  ultimately show ?thesis
    using gguf_admission_exact [OF slot_llama_ok small_load refl, of small_calls]
      gguf_admission_exact [OF slot_llama_ok small_load refl, of "[]"] by blast
qed

end
