(* ===== verification/Hub_Adapter.thy ===== *)
theory Hub_Adapter
  imports Rust_Text "HOL-Library.List_Lexorder"
begin

section \<open>The hub adapter\<close>

text \<open>
  \<open>crates/adapters/hf-hub/src/lib.rs\<close>: which files of a repository make up a model, and how they are
  resolved from one immutable commit. The hub client, the file system and the JSON parser are
  functions of \<open>hub\<close>; a parser answers the fields the code reads.
\<close>

subsection \<open>Data\<close>

record hub_reference =
  hf_repository :: rust_string
  hf_revision :: rust_string

datatype artifact_scalar_type = ArtifactF32 | ArtifactF16 | ArtifactBf16

record 'path model_artifacts =
  ra_repository :: rust_string
  ra_revision :: rust_string
  ra_commit :: rust_string
  ra_declared_scalar_type :: "artifact_scalar_type option"
  ra_config_path :: 'path
  ra_tokenizer_path :: 'path
  ra_weight_paths :: "'path list"

datatype 'e hub_error =
    HubInvalidRepository
  | HubInvalidRevision
  | HubClient 'e
  | HubRepositoryInfo 'e
  | HubMissingCommit
  | HubMissingFileListing
  | HubMissingArtifact rust_string
  | HubUnsupportedWeightLayout
  | HubUnsafeArtifactPath rust_string
  | HubReadConfiguration 'e
  | HubInvalidConfiguration 'e
  | HubReadIndex 'e
  | HubInvalidIndex 'e
  | HubDownload rust_string 'e

definition hub_reference_new :: "rust_string \<Rightarrow> rust_string \<Rightarrow> 'e hub_error + hub_reference" where
  "hub_reference_new repository revision =
    (let repository = string_trim repository; revision = string_trim revision in
     if repository = [] then Inl HubInvalidRepository
     else if revision = [] then Inl HubInvalidRevision
     else Inr \<lparr>hf_repository = repository, hf_revision = revision\<rparr>)"

record repository_info =
  ri_siblings :: "rust_string list option"
  ri_sha :: "rust_string option"

record model_configuration =
  jc_dtype :: "rust_string option"
  jc_torch_dtype :: "rust_string option"

record ('path, 'e) hub =
  hb_info :: "rust_string \<Rightarrow> rust_string \<Rightarrow> 'e + repository_info"
  hb_download :: "rust_string \<Rightarrow> rust_string \<Rightarrow> rust_string \<Rightarrow> 'e + 'path"
  hb_read :: "'path \<Rightarrow> 'e + u8 list"
  hb_parse_index :: "u8 list \<Rightarrow> 'e + rust_string list"
  hb_parse_configuration :: "u8 list \<Rightarrow> 'e + model_configuration"

subsection \<open>Text\<close>

definition strip_text_prefix :: "rust_string \<Rightarrow> rust_string \<Rightarrow> rust_string option" where
  "strip_text_prefix text prefix =
    (if take (length prefix) text = prefix then Some (drop (length prefix) text) else None)"

definition strip_text_suffix :: "rust_string \<Rightarrow> rust_string \<Rightarrow> rust_string option" where
  "strip_text_suffix text suffix =
    (if length suffix \<le> length text \<and> drop (length text - length suffix) text = suffix
     then Some (take (length text - length suffix) text) else None)"

text \<open>\<open>str::split_once\<close>: around the first occurrence of the separator.\<close>

fun split_once :: "rust_string \<Rightarrow> rust_string \<Rightarrow> (rust_string \<times> rust_string) option" where
  "split_once separator text =
     (if take (length separator) text = separator then Some ([], drop (length separator) text)
      else (case text of [] \<Rightarrow> None
        | c # text \<Rightarrow> map_option (\<lambda>(before, after). (c # before, after)) (split_once separator text)))"

declare split_once.simps [simp del]

definition is_ascii_digit :: "nat \<Rightarrow> bool" where
  "is_ascii_digit c \<longleftrightarrow> 0x30 \<le> c \<and> c \<le> 0x39"

definition to_ascii_lowercase :: "rust_string \<Rightarrow> rust_string" where
  "to_ascii_lowercase = map (\<lambda>c. if 0x41 \<le> c \<and> c \<le> 0x5A then c + 0x20 else c)"

text \<open>\<open>str::parse::<usize>\<close> of a text of digits.\<close>

definition digits_value :: "rust_string \<Rightarrow> nat" where
  "digits_value = foldl (\<lambda>n c. n * 10 + (c - 0x30)) 0"

text \<open>The order of a \<open>BTreeSet<String>\<close> is that of the bytes.\<close>

definition ordered_set :: "rust_string list \<Rightarrow> rust_string list" where
  "ordered_set names = sort_key utf8_encode (remdups names)"

subsection \<open>Paths\<close>

text \<open>
  \<open>Path::components\<close> on Unix: the root, the names between slashes, \<open>..\<close>, and \<open>.\<close> only in front.
  Empty names and further \<open>.\<close> are left out.
\<close>

datatype path_component = RootDir | CurDir | ParentDir | NormalName rust_string

fun split_slash :: "rust_string \<Rightarrow> rust_string list" where
  "split_slash [] = [[]]"
| "split_slash (c # cs) =
     (case split_slash cs of
        [] \<Rightarrow> []
      | name # names \<Rightarrow> if c = 0x2F then [] # name # names else (c # name) # names)"

definition name_component :: "rust_string \<Rightarrow> path_component" where
  "name_component name = (if name = [0x2E, 0x2E] then ParentDir else NormalName name)"

definition path_components :: "rust_string \<Rightarrow> path_component list" where
  "path_components text =
    (let names = split_slash text;
         rest = map name_component (filter (\<lambda>name. name \<noteq> [] \<and> name \<noteq> [0x2E]) names) in
     if text \<noteq> [] \<and> hd text = 0x2F then RootDir # rest
     else if hd names = [0x2E] then CurDir # rest else rest)"

definition validate_artifact_path :: "rust_string \<Rightarrow> 'e hub_error + unit" where
  "validate_artifact_path filename =
    (if filename = [] \<or> (filename \<noteq> [] \<and> hd filename = 0x2F)
        \<or> list_ex (\<lambda>c. case c of NormalName _ \<Rightarrow> False | _ \<Rightarrow> True) (path_components filename)
     then Inl (HubUnsafeArtifactPath filename) else Inr ())"

subsection \<open>Weights\<close>

definition require_file :: "rust_string list \<Rightarrow> rust_string \<Rightarrow> 'e hub_error + unit" where
  "require_file available filename = (if filename \<in> set available then Inr () else Inl (HubMissingArtifact filename))"

definition parse_standard_shard :: "rust_string \<Rightarrow> (nat \<times> nat) option" where
  "parse_standard_shard filename =
    Option.bind (strip_text_prefix filename (text_of ''model-'')) (\<lambda>after.
    Option.bind (strip_text_suffix after (text_of ''.safetensors'')) (\<lambda>stem.
    Option.bind (split_once (text_of ''-of-'') stem) (\<lambda>(index, total).
    if string_len index \<noteq> 5 \<or> string_len total \<noteq> 5
       \<or> \<not> list_all is_ascii_digit index \<or> \<not> list_all is_ascii_digit total
    then None else Some (digits_value index, digits_value total))))"

record shard =
  sh_index :: nat
  sh_total :: nat
  sh_filename :: rust_string

fun collect_shards :: "rust_string list \<Rightarrow> shard list" where
  "collect_shards [] = []"
| "collect_shards (filename # available) =
     (case parse_standard_shard filename of
        Some (index, of_total) \<Rightarrow> \<lparr>sh_index = index, sh_total = of_total, sh_filename = filename\<rparr> # collect_shards available
      | None \<Rightarrow> collect_shards available)"

text \<open>
  \<open>sort_unstable_by_key\<close> by the index; when two indices are equal, every order of them is refused.
\<close>

definition direct_weights :: "rust_string list \<Rightarrow> 'e hub_error + rust_string list" where
  "direct_weights available =
    (if text_of ''model.safetensors'' \<in> set available then Inr [text_of ''model.safetensors'']
     else
       let shards = collect_shards available in
       (case shards of
          [] \<Rightarrow> Inl HubUnsupportedWeightLayout
        | first # _ \<Rightarrow>
            let expected_total = sh_total first in
            if expected_total = 0 \<or> length shards \<noteq> expected_total
               \<or> list_ex (\<lambda>s. sh_total s \<noteq> expected_total) shards
            then Inl HubUnsupportedWeightLayout
            else
              let shards = sort_key sh_index shards in
              if list_ex (\<lambda>(offset, s). sh_index s \<noteq> offset + 1) (enumerate 0 shards)
              then Inl HubUnsupportedWeightLayout
              else Inr (map sh_filename shards)))"

fun collect_weights :: "rust_string list \<Rightarrow> rust_string list \<Rightarrow> rust_string list \<Rightarrow> 'e hub_error + rust_string list" where
  "collect_weights available weights [] = Inr weights"
| "collect_weights available weights (filename # filenames) =
     bind_ok (validate_artifact_path filename) (\<lambda>_.
     if strip_text_suffix filename (text_of ''.safetensors'') = None \<or> filename \<notin> set available
     then Inl HubUnsupportedWeightLayout
     else collect_weights available (filename # weights) filenames)"

definition indexed_weights :: "('path, 'e) hub \<Rightarrow> u8 list \<Rightarrow> rust_string list \<Rightarrow> 'e hub_error + rust_string list" where
  "indexed_weights H bytes available =
    bind_ok (map_err HubInvalidIndex (hb_parse_index H bytes)) (\<lambda>filenames.
    bind_ok (collect_weights available [] filenames) (\<lambda>weights.
    if weights = [] then Inl HubUnsupportedWeightLayout else Inr (ordered_set weights)))"

subsection \<open>Resolution\<close>

definition parse_scalar_type :: "rust_string \<Rightarrow> artifact_scalar_type option" where
  "parse_scalar_type value =
    (let name = to_ascii_lowercase (string_trim value) in
     if name \<in> {text_of ''float32'', text_of ''f32''} then Some ArtifactF32
     else if name \<in> {text_of ''float16'', text_of ''half'', text_of ''f16''} then Some ArtifactF16
     else if name \<in> {text_of ''bfloat16'', text_of ''bf16''} then Some ArtifactBf16
     else None)"

definition read_declared_scalar_type :: "('path, 'e) hub \<Rightarrow> 'path \<Rightarrow> 'e hub_error + artifact_scalar_type option" where
  "read_declared_scalar_type H path =
    bind_ok (map_err HubReadConfiguration (hb_read H path)) (\<lambda>bytes.
    bind_ok (map_err HubInvalidConfiguration (hb_parse_configuration H bytes)) (\<lambda>configuration.
    Inr (Option.bind (case jc_dtype configuration of Some name \<Rightarrow> Some name | None \<Rightarrow> jc_torch_dtype configuration)
      parse_scalar_type)))"

definition resolve_file :: "('path, 'e) hub \<Rightarrow> rust_string \<Rightarrow> rust_string \<Rightarrow> rust_string \<Rightarrow> 'e hub_error + 'path" where
  "resolve_file H repository revision filename =
    bind_ok (validate_artifact_path filename) (\<lambda>_.
    map_err (HubDownload filename) (hb_download H repository revision filename))"

fun resolve_files :: "('path, 'e) hub \<Rightarrow> rust_string \<Rightarrow> rust_string \<Rightarrow> rust_string list \<Rightarrow> 'e hub_error + 'path list" where
  "resolve_files H repository revision [] = Inr []"
| "resolve_files H repository revision (filename # filenames) =
     bind_ok (resolve_file H repository revision filename) (\<lambda>path.
     bind_ok (resolve_files H repository revision filenames) (\<lambda>paths. Inr (path # paths)))"

definition resolve_llama :: "('path, 'e) hub \<Rightarrow> hub_reference \<Rightarrow> 'e hub_error + 'path model_artifacts" where
  "resolve_llama H reference =
    (let repository = hf_repository reference in
     bind_ok (map_err HubRepositoryInfo (hb_info H repository (hf_revision reference))) (\<lambda>information.
     bind_ok (ok_or (ri_siblings information) HubMissingFileListing) (\<lambda>siblings.
     let filenames = ordered_set siblings in
     bind_ok (require_file filenames (text_of ''config.json'')) (\<lambda>_.
     bind_ok (require_file filenames (text_of ''tokenizer.json'')) (\<lambda>_.
     bind_ok (ok_or (ri_sha information) HubMissingCommit) (\<lambda>commit.
     bind_ok
       (if text_of ''model.safetensors.index.json'' \<in> set filenames then
          bind_ok (resolve_file H repository commit (text_of ''model.safetensors.index.json'')) (\<lambda>index_path.
          bind_ok (map_err HubReadIndex (hb_read H index_path)) (\<lambda>bytes.
          indexed_weights H bytes filenames))
        else direct_weights filenames) (\<lambda>weight_filenames.
     bind_ok (resolve_file H repository commit (text_of ''config.json'')) (\<lambda>config_path.
     bind_ok (read_declared_scalar_type H config_path) (\<lambda>declared_scalar_type.
     bind_ok (resolve_file H repository commit (text_of ''tokenizer.json'')) (\<lambda>tokenizer_path.
     bind_ok (resolve_files H repository commit weight_filenames) (\<lambda>weight_paths.
     Inr \<lparr>ra_repository = repository, ra_revision = hf_revision reference, ra_commit = commit,
          ra_declared_scalar_type = declared_scalar_type, ra_config_path = config_path,
          ra_tokenizer_path = tokenizer_path, ra_weight_paths = weight_paths\<rparr>)))))))))))"

end
