(* ===== verification/Hub_Weights.thy ===== *)
theory Hub_Weights
  imports Hub_Adapter
begin

section \<open>The weights of a repository\<close>

text \<open>
  Which files the hub adapter takes for the weights of a repository without an index: the single
  file, or a complete set of numbered shards in their order. \<open>shard_name\<close> is the name the parser reads.
\<close>

definition digits5 :: "nat \<Rightarrow> rust_string" where
  "digits5 n = [0x30 + n div 10000 mod 10, 0x30 + n div 1000 mod 10, 0x30 + n div 100 mod 10,
     0x30 + n div 10 mod 10, 0x30 + n mod 10]"

definition shard_name :: "nat \<Rightarrow> nat \<Rightarrow> rust_string" where
  "shard_name index of_total = text_of ''model-'' @ digits5 index @ text_of ''-of-'' @ digits5 of_total @ text_of ''.safetensors''"

subsection \<open>Parsing and printing\<close>

lemma list5: "length xs = 5 \<Longrightarrow> \<exists>a b c d e. xs = [a, b, c, d, e]"
  by (auto simp: length_Suc_conv numeral_eq_Suc)

lemma digits5_ok: "length (digits5 n) = 5" "list_all is_ascii_digit (digits5 n)"
proof -
  have "n div k mod 10 < 10" "n mod 10 < 10" for k by simp_all
  then show "list_all is_ascii_digit (digits5 n)"
    by (simp add: digits5_def is_ascii_digit_def less_Suc_eq_le [symmetric] numeral_eq_Suc [of "num.One"])
qed (simp add: digits5_def)

lemma digits_value_digits5: "n < 100000 \<Longrightarrow> digits_value (digits5 n) = n"
proof -
  assume "n < 100000"
  then have "n div 10000 mod 10 = n div 10000" by (intro mod_less) (simp add: less_mult_imp_div_less)
  moreover have "n div 10000 * 10 + n div 1000 mod 10 = n div 1000" using div_mult_mod_eq [of "n div 1000" 10] by (simp add: div_mult2_eq [symmetric])
  moreover have "n div 1000 * 10 + n div 100 mod 10 = n div 100" using div_mult_mod_eq [of "n div 100" 10] by (simp add: div_mult2_eq [symmetric])
  moreover have "n div 100 * 10 + n div 10 mod 10 = n div 10" using div_mult_mod_eq [of "n div 10" 10] by (simp add: div_mult2_eq [symmetric])
  moreover have "n div 10 * 10 + n mod 10 = n" by (rule div_mult_mod_eq)
  ultimately show ?thesis by (simp add: digits_value_def digits5_def)
qed

lemma digits5_digits_value:
  assumes "length ds = 5" and "list_all is_ascii_digit ds"
  shows "digits_value ds < 100000" and "digits5 (digits_value ds) = ds"
proof -
  obtain a b c d e where ds: "ds = [a, b, c, d, e]" using list5 [OF assms(1)] by blast
  have digits: "0x30 \<le> x \<and> x \<le> 0x39" if "x \<in> set ds" for x
    using assms(2) that by (auto simp: list_all_iff is_ascii_digit_def)
  define a' b' c' d' e' where "a' = a - 0x30" and "b' = b - 0x30" and "c' = c - 0x30" and "d' = d - 0x30" and "e' = e - 0x30"
  note defs = this
  have digit: "a = 0x30 + a'" "b = 0x30 + b'" "c = 0x30 + c'" "d = 0x30 + d'" "e = 0x30 + e'"
    using digits [of a] digits [of b] digits [of c] digits [of d] digits [of e] by (simp_all add: ds defs)
  have small: "a' \<le> 9" "b' \<le> 9" "c' \<le> 9" "d' \<le> 9" "e' \<le> 9"
    using digits [of a] digits [of b] digits [of c] digits [of d] digits [of e] by (auto simp: ds defs)
  have n: "digits_value ds = 10000 * a' + 1000 * b' + 100 * c' + 10 * d' + e'"
    by (simp add: digits_value_def ds digit)
  show "digits_value ds < 100000" unfolding n using small by linarith
  define N where "N = 10000 * a' + 1000 * b' + 100 * c' + 10 * d' + e'"
  have ones: "(10 * x + y) mod 10 = y" if "y \<le> 9" for x y :: nat using that by simp
  have "N div 10000 = a'" "N div 1000 = 10 * a' + b'" "N div 100 = 100 * a' + 10 * b' + c'"
      "N div 10 = 1000 * a' + 100 * b' + 10 * c' + d'"
    unfolding N_def using small by linarith+
  then have divs: "N div 10000 = a'" "N div 1000 = 10 * a' + b'" "N div 100 = 10 * (10 * a' + b') + c'"
      "N div 10 = 10 * (100 * a' + 10 * b' + c') + d'" "N = 10 * (1000 * a' + 100 * b' + 10 * c' + d') + e'"
    by (simp_all add: N_def)
  have top: "a' mod 10 = a'" using small(1) by simp
  have "N mod 10 = e'" by (subst divs(5)) (rule ones [OF small(5)])
  then show "digits5 (digits_value ds) = ds"
    unfolding n digits5_def N_def [symmetric] divs(1-4) top ones [OF small(2)] ones [OF small(3)] ones [OF small(4)]
    unfolding ds digit by simp
qed

lemma ascii_string_len: "list_all (\<lambda>c. c < 0x80) s \<Longrightarrow> string_len s = length s"
  by (induction s) (simp_all add: string_len_def utf8_encode_def utf8_encode_char_def)

lemma digits_string_len: "list_all is_ascii_digit s \<Longrightarrow> string_len s = length s"
  by (rule ascii_string_len) (auto simp: list_all_iff is_ascii_digit_def)

lemma strip_text_prefix_Some: "strip_text_prefix text prefix = Some after \<longleftrightarrow> text = prefix @ after"
  by (auto simp: strip_text_prefix_def) (metis append_take_drop_id)

lemma strip_text_suffix_Some: "strip_text_suffix text suffix = Some before \<longleftrightarrow> text = before @ suffix"
  by (auto simp: strip_text_suffix_def) (metis append_take_drop_id)

lemma split_once_append:
  assumes "c \<notin> set before"
  shows "split_once (c # separator) (before @ (c # separator) @ after) = Some (before, after)"
  using assms by (induction before) (subst split_once.simps, simp)+

lemma split_once_Some: "split_once separator name = Some (before, after) \<Longrightarrow> name = before @ separator @ after"
proof (induction separator name arbitrary: before rule: split_once.induct)
  case (1 separator name)
  show ?case
  proof (cases "take (length separator) name = separator")
    case True
    with "1.prems" show ?thesis by (subst (asm) split_once.simps) (auto, metis append_take_drop_id)
  next
    case False
    with "1.prems" split_once.simps [of separator name]
    have "(case name of [] \<Rightarrow> None | c # cs \<Rightarrow> map_option (\<lambda>(b, a). (c # b, a)) (split_once separator cs)) = Some (before, after)" by simp
    then obtain c cs b where "name = c # cs" "split_once separator cs = Some (b, after)" "before = c # b"
      by (auto split: list.splits)
    with "1.IH" [OF False this(1)] show ?thesis by simp
  qed
qed

lemma parse_standard_shard_Some:
  "parse_standard_shard filename = Some (index, of_total)
    \<longleftrightarrow> index < 100000 \<and> of_total < 100000 \<and> filename = shard_name index of_total"
proof
  assume "parse_standard_shard filename = Some (index, of_total)"
  then obtain stem xs ys where "filename = text_of ''model-'' @ stem @ text_of ''.safetensors''"
    and "split_once (text_of ''-of-'') stem = Some (xs, ys)"
    and digits: "string_len xs = 5" "string_len ys = 5" "list_all is_ascii_digit xs" "list_all is_ascii_digit ys"
    and result: "index = digits_value xs" "of_total = digits_value ys"
    by (auto simp: parse_standard_shard_def bind_eq_Some_conv strip_text_prefix_Some strip_text_suffix_Some split: if_splits)
  moreover from digits have "length xs = 5" "length ys = 5" by (simp_all add: digits_string_len)
  ultimately show "index < 100000 \<and> of_total < 100000 \<and> filename = shard_name index of_total"
    using digits5_digits_value [of xs] digits5_digits_value [of ys] digits(3,4)
    by (simp add: shard_name_def split_once_Some)
next
  assume named: "index < 100000 \<and> of_total < 100000 \<and> filename = shard_name index of_total"
  have dash: "text_of ''-of-'' = 0x2D # text_of ''of-''" by (simp add: text_of_def)
  have "0x2D \<notin> set (digits5 index)" using digits5_ok(2) [of index] by (auto simp: list_all_iff is_ascii_digit_def)
  then have "split_once (text_of ''-of-'') (digits5 index @ text_of ''-of-'' @ digits5 of_total) = Some (digits5 index, digits5 of_total)"
    unfolding dash by (rule split_once_append)
  moreover have "strip_text_prefix filename (text_of ''model-'')
      = Some (digits5 index @ text_of ''-of-'' @ digits5 of_total @ text_of ''.safetensors'')"
    using named by (simp add: strip_text_prefix_Some shard_name_def)
  moreover have "strip_text_suffix (digits5 index @ text_of ''-of-'' @ digits5 of_total @ text_of ''.safetensors'') (text_of ''.safetensors'')
      = Some (digits5 index @ text_of ''-of-'' @ digits5 of_total)" by (simp add: strip_text_suffix_Some)
  ultimately show "parse_standard_shard filename = Some (index, of_total)"
    using named digits5_ok [of index] digits5_ok [of of_total]
    by (simp add: parse_standard_shard_def digits_string_len digits_value_digits5)
qed

lemma shard_name_inject:
  "shard_name i n = shard_name j m \<Longrightarrow> i < 100000 \<Longrightarrow> j < 100000 \<Longrightarrow> n < 100000 \<Longrightarrow> m < 100000 \<Longrightarrow> i = j \<and> n = m"
  using parse_standard_shard_Some [of "shard_name i n" i n] parse_standard_shard_Some [of "shard_name i n" j m] by simp

subsection \<open>Complete sets of shards\<close>

definition is_shard :: "rust_string \<Rightarrow> bool" where
  "is_shard filename \<longleftrightarrow> (\<exists>index < 100000. \<exists>of_total < 100000. filename = shard_name index of_total)"

definition shard_of :: "shard \<Rightarrow> bool" where
  "shard_of s \<longleftrightarrow> sh_index s < 100000 \<and> sh_total s < 100000 \<and> sh_filename s = shard_name (sh_index s) (sh_total s)"

lemma collect_shards_of: "s \<in> set (collect_shards available) \<Longrightarrow> shard_of s"
  by (induction available) (auto simp: shard_of_def parse_standard_shard_Some split: option.splits)

lemma collect_shards_filenames: "map sh_filename (collect_shards available) = filter is_shard available"
proof (induction available)
  case (Cons filename available)
  have "is_shard filename \<longleftrightarrow> parse_standard_shard filename \<noteq> None"
    using parse_standard_shard_Some [of filename] by (auto simp: is_shard_def)
  with Cons show ?case by (auto split: option.splits)
qed simp

lemma enumerate_exact: "\<not> list_ex (\<lambda>(offset, s). f s \<noteq> offset + 1) (enumerate k xs) \<longleftrightarrow> map f xs = [Suc k..<Suc (k + length xs)]"
proof (induction xs arbitrary: k)
  case (Cons x xs)
  have "[Suc k..<Suc (k + length (x # xs))] = Suc k # [Suc (Suc k)..<Suc (Suc k + length xs)]"
    by (subst upt_conv_Cons) simp_all
  with Cons [of "Suc k"] show ?case by (simp del: upt_Suc)
qed simp

lemma numbered_sorted:
  assumes "distinct (map f xs)" and "set (map f xs) = {1..length xs}"
  shows "map f (sort_key f xs) = [1..<Suc (length xs)]"
proof (rule sorted_distinct_set_unique)
  show "set (map f (sort_key f xs)) = set [1..<Suc (length xs)]" using assms(2) by (auto simp del: upt_Suc)
  have "distinct (map f (sort_key f xs)) \<longleftrightarrow> distinct (map f xs)"
    by (simp add: distinct_map)
  with assms(1) show "distinct (map f (sort_key f xs))" by blast
qed (simp_all del: upt_Suc)

text \<open>The condition on the shards that the loop checks, in terms of their numbers.\<close>

lemma shards_checked:
  assumes "\<And>s. s \<in> set shards \<Longrightarrow> sh_total s = length shards" and "distinct (map sh_index shards)"
  shows "\<not> list_ex (\<lambda>(offset, s). sh_index s \<noteq> offset + 1) (enumerate 0 (sort_key sh_index shards))
    \<longleftrightarrow> set (map sh_index shards) = {1..length shards}"
  unfolding enumerate_exact
proof
  assume "map sh_index (sort_key sh_index shards) = [Suc 0..<Suc (0 + length (sort_key sh_index shards))]"
  then have "set (map sh_index (sort_key sh_index shards)) = set [Suc 0..<Suc (length shards)]" by (simp del: upt_Suc)
  then show "set (map sh_index shards) = {1..length shards}" by (auto simp del: upt_Suc)
qed (use numbered_sorted [OF assms(2)] in simp)

lemma shard_list:
  assumes "map sh_index shards = ns" and "\<And>s. s \<in> set shards \<Longrightarrow> shard_of s \<and> sh_total s = n"
  shows "map sh_filename shards = map (\<lambda>i. shard_name i n) ns"
  using assms by (induction shards arbitrary: ns) (auto simp: shard_of_def)

lemma direct_weights_shards:
  assumes "distinct available" and "text_of ''model.safetensors'' \<notin> set available"
  shows "direct_weights available = Inr weights \<longleftrightarrow>
    (\<exists>n. 0 < n \<and> n < 100000 \<and> {f \<in> set available. is_shard f} = (\<lambda>i. shard_name i n) ` {1..n}
      \<and> weights = map (\<lambda>i. shard_name i n) [1..<Suc n])"
proof -
  define shards where "shards = collect_shards available"
  have names: "map sh_filename shards = filter is_shard available" by (simp add: shards_def collect_shards_filenames)
  have of: "shard_of s" if "s \<in> set shards" for s using that collect_shards_of by (simp add: shards_def)
  have distinct: "distinct (map sh_filename shards)" unfolding names using assms(1) by simp
  let ?uniform = "\<lambda>n. \<forall>s \<in> set shards. sh_total s = n"
  let ?named = "\<lambda>n. sh_filename ` set shards = (\<lambda>i. shard_name i n) ` {1..n}"
  have shards_set: "{f \<in> set available. is_shard f} = sh_filename ` set shards"
    using arg_cong [OF names, of set] by auto
  have inj: "distinct (map sh_index shards)" if "?uniform n" for n
  proof -
    have "inj_on sh_index (set shards)"
    proof (rule inj_onI)
      fix s t assume st: "s \<in> set shards" "t \<in> set shards" "sh_index s = sh_index t"
      with that of have "sh_filename s = sh_filename t" by (metis shard_of_def)
      with distinct st show "s = t" by (auto simp: distinct_map inj_on_def)
    qed
    moreover have "distinct shards" using distinct by (simp add: distinct_map)
    ultimately show ?thesis by (simp add: distinct_map)
  qed
  have small: "n < 100000" if "?uniform n" "shards \<noteq> []" for n
    using that of by (metis list.set_intros(1) neq_Nil_conv shard_of_def)
  have checks: "direct_weights available = Inr weights \<longleftrightarrow>
      (\<exists>n. 0 < n \<and> length shards = n \<and> ?uniform n
        \<and> \<not> list_ex (\<lambda>(offset, s). sh_index s \<noteq> offset + 1) (enumerate 0 (sort_key sh_index shards))
        \<and> weights = map sh_filename (sort_key sh_index shards))"
    using assms(2) unfolding direct_weights_def shards_def [symmetric] Let_def
    by (cases shards) (auto simp: list_ex_iff)
  have numbered: "(set (map sh_index shards) = {1..length shards} \<and> weights = map sh_filename (sort_key sh_index shards))
      \<longleftrightarrow> ?named n \<and> weights = map (\<lambda>i. shard_name i n) [1..<Suc n]"
    if n: "length shards = n" "?uniform n" "0 < n" for n
  proof -
    have "n < 100000" using small [OF n(2)] n(1,3) by auto
    have "sh_filename ` set shards = (\<lambda>i. shard_name i n) ` (sh_index ` set shards)"
      using of n(2) by (force simp: shard_of_def image_image)
    moreover have "inj_on (\<lambda>i. shard_name i n) (sh_index ` set shards \<union> {1..n})"
      using shard_name_inject of \<open>n < 100000\<close> by (auto simp: inj_on_def shard_of_def)
    ultimately have "?named n \<longleftrightarrow> sh_index ` set shards = {1..n}"
      using inj_on_image_eq_iff [OF _ Un_upper1 Un_upper2, of "\<lambda>i. shard_name i n" "sh_index ` set shards" "{1..n}"] by (simp only:)
    moreover have "map sh_filename (sort_key sh_index shards) = map (\<lambda>i. shard_name i n) [1..<Suc n]" if "sh_index ` set shards = {1..n}"
      using numbered_sorted [OF inj [OF n(2)]] that n of by (intro shard_list) auto
    ultimately show ?thesis using n(1) by auto
  qed
  have uniform: "length shards = n \<and> ?uniform n" if n: "n < 100000" "?named n" for n
  proof
    show "?uniform n"
    proof
      fix s assume s: "s \<in> set shards"
      with n(2) obtain i where i: "i \<in> {1..n}" "sh_filename s = shard_name i n" by (metis imageE imageI)
      with of [OF s] have "shard_name (sh_index s) (sh_total s) = shard_name i n" by (simp add: shard_of_def)
      from shard_name_inject [OF this] of [OF s] i(1) n(1) show "sh_total s = n" by (simp add: shard_of_def)
    qed
    have "length shards = card (sh_filename ` set shards)" using distinct_card [OF distinct] by simp
    also have "\<dots> = card {1..n}" unfolding n(2)
      using n(1) shard_name_inject by (intro card_image) (auto simp: inj_on_def)
    finally show "length shards = n" by simp
  qed
  have "direct_weights available = Inr weights \<longleftrightarrow> (\<exists>n. 0 < n \<and> n < 100000 \<and> length shards = n \<and> ?uniform n
      \<and> ?named n \<and> weights = map (\<lambda>i. shard_name i n) [1..<Suc n])"
    unfolding checks
  proof (rule ex_cong1)
    fix n
    show "(0 < n \<and> length shards = n \<and> ?uniform n
        \<and> \<not> list_ex (\<lambda>(offset, s). sh_index s \<noteq> offset + 1) (enumerate 0 (sort_key sh_index shards))
        \<and> weights = map sh_filename (sort_key sh_index shards))
      = (0 < n \<and> n < 100000 \<and> length shards = n \<and> ?uniform n \<and> ?named n \<and> weights = map (\<lambda>i. shard_name i n) [1..<Suc n])"
    proof (cases "0 < n \<and> length shards = n \<and> ?uniform n")
      case True
      then have "n < 100000" using small by auto
      with True numbered [of n] shards_checked [of shards] inj [of n] show ?thesis by auto
    qed auto
  qed
  also have "\<dots> \<longleftrightarrow> (\<exists>n. 0 < n \<and> n < 100000 \<and> ?named n \<and> weights = map (\<lambda>i. shard_name i n) [1..<Suc n])"
    using uniform by blast
  finally show ?thesis unfolding shards_set .
qed

lemma ordered_set_simps [simp]: "set (ordered_set names) = set names" "distinct (ordered_set names)"
  by (simp_all add: ordered_set_def)

text \<open>
  \<^bold>\<open>C26\<close>. Without an index the weights of a repository are the single weight file when it is listed,
  and otherwise the shards: they are accepted exactly when the listed names of shard form are, for
  some number, all shards of that many and no others, and they are returned in the order of their
  numbers, however the listing orders them.
\<close>

theorem direct_weights_exact:
  "direct_weights (ordered_set names) = Inr weights \<longleftrightarrow>
    (if text_of ''model.safetensors'' \<in> set names then weights = [text_of ''model.safetensors'']
     else \<exists>n. 0 < n \<and> n < 100000 \<and> {f \<in> set names. is_shard f} = (\<lambda>i. shard_name i n) ` {1..n}
       \<and> weights = map (\<lambda>i. shard_name i n) [1..<Suc n])"
proof (cases "text_of ''model.safetensors'' \<in> set names")
  case True
  then show ?thesis by (auto simp: direct_weights_def)
next
  case False
  then have "text_of ''model.safetensors'' \<notin> set (ordered_set names)" by simp
  from direct_weights_shards [OF ordered_set_simps(2) this] show ?thesis
    unfolding ordered_set_simps(1) if_not_P [OF False] .
qed

subsection \<open>Resolved artifacts\<close>

lemma direct_weights_some: "direct_weights available = Inr weights \<Longrightarrow> weights \<noteq> []"
  by (auto simp: direct_weights_def Let_def split: if_splits list.splits)

lemma sort_key_Nil: "sort_key f xs = [] \<longleftrightarrow> xs = []"
  by (metis length_0_conv length_sort)

lemma indexed_weights_some: "indexed_weights H bytes available = Inr weights \<Longrightarrow> weights \<noteq> []"
  by (auto simp: indexed_weights_def bind_ok_Inr ordered_set_def sort_key_Nil split: if_splits)

lemma resolve_files_length: "resolve_files H repository revision filenames = Inr paths \<Longrightarrow> length paths = length filenames"
  by (induction filenames arbitrary: paths) (auto simp: bind_ok_Inr)

lemma resolve_llama_artifacts:
  assumes "resolve_llama H reference = Inr artifacts"
  shows "ra_repository artifacts = hf_repository reference" and "ra_revision artifacts = hf_revision reference"
    and "ra_weight_paths artifacts \<noteq> []"
proof -
  from assms obtain filenames paths where "filenames \<noteq> []" "resolve_files H (hf_repository reference) (ra_commit artifacts) filenames = Inr paths"
    and "ra_repository artifacts = hf_repository reference" "ra_revision artifacts = hf_revision reference" "ra_weight_paths artifacts = paths"
    unfolding resolve_llama_def Let_def bind_ok_Inr
    by (auto simp: bind_ok_Inr split: if_splits dest!: direct_weights_some indexed_weights_some)
  then show "ra_repository artifacts = hf_repository reference" "ra_revision artifacts = hf_revision reference"
    "ra_weight_paths artifacts \<noteq> []" using resolve_files_length by force+
qed

end
