(* ===== verification/Application_Data.thy ===== *)
theory Application_Data
  imports Worker Storage Hub_Adapter
begin

section \<open>The data of the application runtime\<close>

text \<open>
  \<open>crates/engines/application-runtime/src/\<close>: \<open>configuration.rs\<close>, \<open>error.rs\<close>, \<open>event.rs\<close>, \<open>state.rs\<close> and
  \<open>support.rs\<close>, with the two values the runtime takes from adapters, the source of the Candle backend
  and the tokenizer. A duration is its number of nanoseconds. The text of a failure is not modelled.
\<close>

subsection \<open>Configuration\<close>

record hub_configuration =
  hc_cache_directory :: "rust_string option"
  hc_access_token :: "rust_string option"
  hc_maximum_retries :: usize

record preferences =
  pf_default_repository :: rust_string
  pf_default_revision :: rust_string
  pf_maximum_host_memory_bytes :: u64
  pf_maximum_device_memory_bytes :: u64
  pf_drain_timeout_milliseconds :: u64

record application_timing =
  tm_runtime_poll :: nat
  tm_hub_worker_poll :: nat
  tm_hub_event_send_timeout :: nat
  tm_hub_command_shutdown_timeout :: nat
  tm_runtime_shutdown_timeout :: nat
  tm_runtime_shutdown_event_poll :: nat
  tm_runtime_join_timeout :: nat
  tm_runtime_join_poll :: nat
  tm_hub_shutdown_timeout :: nat
  tm_hub_shutdown_poll :: nat

record 'path application_configuration =
  cf_database_path :: 'path
  cf_hub :: hub_configuration
  cf_defaults :: preferences
  cf_maximum_models :: u32
  cf_maximum_requests :: u32
  cf_command_capacity :: usize
  cf_event_capacity :: usize
  cf_hub_channel_capacity :: usize
  cf_timing :: application_timing

definition preferences_default :: preferences where
  "preferences_default = \<lparr>pf_default_repository = [], pf_default_revision = text_of ''main'',
     pf_maximum_host_memory_bytes = 16 * 1024 * 1024 * 1024, pf_maximum_device_memory_bytes = 0,
     pf_drain_timeout_milliseconds = 2000\<rparr>"

definition from_millis :: "nat \<Rightarrow> nat" where
  "from_millis n = n * 1000000"

definition timing_default :: application_timing where
  "timing_default = \<lparr>tm_runtime_poll = from_millis 10, tm_hub_worker_poll = from_millis 100,
     tm_hub_event_send_timeout = from_millis 100, tm_hub_command_shutdown_timeout = from_millis 250,
     tm_runtime_shutdown_timeout = from_millis 2000, tm_runtime_shutdown_event_poll = from_millis 25,
     tm_runtime_join_timeout = from_millis 2000, tm_runtime_join_poll = from_millis 10,
     tm_hub_shutdown_timeout = from_millis 2000, tm_hub_shutdown_poll = from_millis 10\<rparr>"

definition desktop_configuration :: "'path \<Rightarrow> 'path application_configuration" where
  "desktop_configuration database_path = \<lparr>cf_database_path = database_path,
     cf_hub = \<lparr>hc_cache_directory = None, hc_access_token = None, hc_maximum_retries = 0\<rparr>,
     cf_defaults = preferences_default, cf_maximum_models = 1, cf_maximum_requests = 1,
     cf_command_capacity = 32, cf_event_capacity = 32, cf_hub_channel_capacity = 4, cf_timing = timing_default\<rparr>"

subsection \<open>State\<close>

datatype activity = ActIdle | ActResolving | ActLoading | ActUnloading | ActShuttingDown

record resolved_model =
  rm_repository :: rust_string
  rm_revision :: rust_string
  rm_commit :: rust_string
  rm_vocabulary_size :: u32
  rm_scalar_type :: "scalar_type option"

definition matches_selection :: "resolved_model \<Rightarrow> rust_string \<Rightarrow> rust_string \<Rightarrow> bool" where
  "matches_selection r repository revision \<longleftrightarrow>
     string_trim repository = rm_repository r \<and> string_trim revision = rm_revision r"

record resident_model =
  rd_handle :: model_handle
  rd_vocabulary_size :: u32

record application_state =
  as_activity :: activity
  as_resolved :: "resolved_model option"
  as_loaded :: "resident_model option"
  as_hub_available :: bool
  as_inference_available :: bool

definition application_state_default :: application_state where
  "application_state_default = \<lparr>as_activity = ActIdle, as_resolved = None, as_loaded = None,
     as_hub_available = True, as_inference_available = True\<rparr>"

definition can_resolve :: "application_state \<Rightarrow> bool" where
  "can_resolve s \<longleftrightarrow> as_activity s = ActIdle \<and> as_hub_available s \<and> as_loaded s = None"

definition can_load :: "application_state \<Rightarrow> rust_string \<Rightarrow> rust_string \<Rightarrow> bool" where
  "can_load s repository revision \<longleftrightarrow> as_activity s = ActIdle \<and> as_inference_available s \<and> as_loaded s = None
     \<and> (case as_resolved s of None \<Rightarrow> False
        | Some r \<Rightarrow> rm_scalar_type r \<noteq> None \<and> matches_selection r repository revision)"

definition can_unload :: "application_state \<Rightarrow> bool" where
  "can_unload s \<longleftrightarrow> as_activity s = ActIdle \<and> as_inference_available s \<and> as_loaded s \<noteq> None"

definition begin_resolving :: "application_state \<Rightarrow> application_state" where
  "begin_resolving s = s\<lparr>as_activity := ActResolving, as_resolved := None\<rparr>"

definition set_activity :: "activity \<Rightarrow> application_state \<Rightarrow> application_state" where
  "set_activity a s = s\<lparr>as_activity := a\<rparr>"

definition set_resolved :: "resolved_model \<Rightarrow> application_state \<Rightarrow> application_state" where
  "set_resolved r s = s\<lparr>as_resolved := Some r, as_activity := ActIdle\<rparr>"

definition clear_resolved :: "application_state \<Rightarrow> application_state" where
  "clear_resolved s = s\<lparr>as_resolved := None\<rparr>"

definition set_loaded :: "resident_model \<Rightarrow> application_state \<Rightarrow> application_state" where
  "set_loaded l s = s\<lparr>as_loaded := Some l, as_activity := ActIdle\<rparr>"

definition clear_loaded :: "application_state \<Rightarrow> application_state" where
  "clear_loaded s = s\<lparr>as_loaded := None, as_activity := ActIdle\<rparr>"

definition disconnect_hub :: "application_state \<Rightarrow> application_state" where
  "disconnect_hub s = s\<lparr>as_hub_available := False\<rparr>"

definition disconnect_inference :: "application_state \<Rightarrow> application_state" where
  "disconnect_inference s = s\<lparr>as_inference_available := False\<rparr>"

subsection \<open>Failures and events\<close>

datatype application_failure =
    FailureHub | FailureTokenizer | FailureStorage | FailureModelSource | FailureInference | FailureWorker

datatype application_worker = WorkerInference | WorkerHub

datatype configuration_field =
    FieldMaximumModels | FieldMaximumRequests | FieldCommandCapacity | FieldEventCapacity
  | FieldHubChannelCapacity | FieldRuntimePoll | FieldHubWorkerPoll | FieldHubEventSendTimeout
  | FieldHubCommandShutdownTimeout | FieldRuntimeShutdownTimeout | FieldRuntimeShutdownEventPoll
  | FieldRuntimeJoinTimeout | FieldRuntimeJoinPoll | FieldHubShutdownTimeout | FieldHubShutdownPoll
  | FieldDefaultRevision | FieldDrainWindow

datatype application_error =
    AppInvalidConfiguration configuration_field
  | AppBusy activity
  | AppModelAlreadyLoaded
  | AppNoResolvedModel
  | AppNoLoadedModel
  | AppUnknownScalarType
  | AppSelectionChanged
  | AppTicketExhausted
  | AppHubBusy
  | AppHubDisconnected
  | AppRuntimeBusy
  | AppRuntimeDisconnected
  | AppShutdownTimeout application_worker
  | AppFailure application_failure

datatype application_event =
    AevModelResolved resolved_model "application_failure option"
  | AevModelResolutionFailed application_failure
  | AevModelLoaded resident_model
  | AevModelLoadFailed application_failure
  | AevModelCompatibilityFailed application_failure
  | AevModelDraining model_handle
  | AevModelUnloaded model_handle u32
  | AevModelUnloadFailed application_failure
  | AevHubDisconnected
  | AevRuntimeDisconnected

subsection \<open>Sources and tokenizers\<close>

datatype candle_dtype = CandleF32 | CandleF16 | CandleBf16

record 'path candle_source =
  cs_config_path :: 'path
  cs_weight_paths :: "'path list"
  cs_scalar_type :: candle_dtype

text \<open>\<open>None\<close> is \<open>SourceError::MissingWeights\<close>.\<close>

definition candle_source_new :: "'path \<Rightarrow> 'path list \<Rightarrow> candle_dtype \<Rightarrow> 'path candle_source option" where
  "candle_source_new config_path weight_paths scalar =
    (if weight_paths = [] then None
     else Some \<lparr>cs_config_path = config_path, cs_weight_paths = weight_paths, cs_scalar_type = scalar\<rparr>)"

text \<open>The tokenizers package: opening a file and the size of the vocabulary.\<close>

record ('path, 'tok, 'e) tokenizers =
  tz_from_file :: "'path \<Rightarrow> 'e + 'tok"
  tz_vocab_size :: "'tok \<Rightarrow> usize"

datatype 'e tokenizer_load_error = InvalidTokenizer 'e | VocabularyOverflow usize

record 'tok hf_tokenizer =
  ht_ordinary :: 'tok
  ht_vocabulary_size :: u32

definition hf_from_tokenizer ::
    "('path, 'tok, 'e) tokenizers \<Rightarrow> 'tok \<Rightarrow> 'e tokenizer_load_error + 'tok hf_tokenizer" where
  "hf_from_tokenizer T inner =
    (let raw_size = tz_vocab_size T inner in
     if raw_size < 2 ^ 32 then Inr \<lparr>ht_ordinary = inner, ht_vocabulary_size = of_nat raw_size\<rparr>
     else Inl (VocabularyOverflow raw_size))"

definition hf_from_file ::
    "('path, 'tok, 'e) tokenizers \<Rightarrow> 'path \<Rightarrow> 'e tokenizer_load_error + 'tok hf_tokenizer" where
  "hf_from_file T path = bind_ok (map_err InvalidTokenizer (tz_from_file T path)) (hf_from_tokenizer T)"

subsection \<open>Validation and conversion\<close>

definition validate_non_zero :: "nat \<Rightarrow> configuration_field \<Rightarrow> application_error + unit" where
  "validate_non_zero n field = (if n = 0 then Inl (AppInvalidConfiguration field) else Inr ())"

definition validate_timing :: "application_timing \<Rightarrow> application_error + unit" where
  "validate_timing t = try_all (\<lambda>(duration, field). validate_non_zero duration field)
     [(tm_runtime_poll t, FieldRuntimePoll), (tm_hub_worker_poll t, FieldHubWorkerPoll),
      (tm_hub_event_send_timeout t, FieldHubEventSendTimeout),
      (tm_hub_command_shutdown_timeout t, FieldHubCommandShutdownTimeout),
      (tm_runtime_shutdown_timeout t, FieldRuntimeShutdownTimeout),
      (tm_runtime_shutdown_event_poll t, FieldRuntimeShutdownEventPoll),
      (tm_runtime_join_timeout t, FieldRuntimeJoinTimeout), (tm_runtime_join_poll t, FieldRuntimeJoinPoll),
      (tm_hub_shutdown_timeout t, FieldHubShutdownTimeout), (tm_hub_shutdown_poll t, FieldHubShutdownPoll)]"

definition validate_configuration :: "'path application_configuration \<Rightarrow> application_error + unit" where
  "validate_configuration c =
    bind_ok (validate_non_zero (unat (cf_maximum_models c)) FieldMaximumModels) (\<lambda>_.
    bind_ok (validate_non_zero (unat (cf_maximum_requests c)) FieldMaximumRequests) (\<lambda>_.
    bind_ok (validate_non_zero (cf_command_capacity c) FieldCommandCapacity) (\<lambda>_.
    bind_ok (validate_non_zero (cf_event_capacity c) FieldEventCapacity) (\<lambda>_.
    bind_ok (validate_non_zero (cf_hub_channel_capacity c) FieldHubChannelCapacity) (\<lambda>_.
    validate_timing (cf_timing c))))))"

definition validate_preferences :: "preferences \<Rightarrow> application_error + unit" where
  "validate_preferences p =
    (if string_trim (pf_default_revision p) = [] then Inl (AppInvalidConfiguration FieldDefaultRevision)
     else validate_non_zero (unat (pf_drain_timeout_milliseconds p)) FieldDrainWindow)"

definition application_preferences :: "application_settings \<Rightarrow> preferences" where
  "application_preferences s = \<lparr>pf_default_repository = se_default_repository s,
     pf_default_revision = se_default_revision s,
     pf_maximum_host_memory_bytes = se_maximum_host_memory_bytes s,
     pf_maximum_device_memory_bytes = se_maximum_device_memory_bytes s,
     pf_drain_timeout_milliseconds = se_drain_timeout_milliseconds s\<rparr>"

definition stored_settings :: "preferences \<Rightarrow> application_settings" where
  "stored_settings p = \<lparr>se_default_repository = pf_default_repository p,
     se_default_revision = pf_default_revision p,
     se_maximum_host_memory_bytes = pf_maximum_host_memory_bytes p,
     se_maximum_device_memory_bytes = pf_maximum_device_memory_bytes p,
     se_drain_timeout_milliseconds = pf_drain_timeout_milliseconds p\<rparr>"

fun domain_scalar_type :: "artifact_scalar_type \<Rightarrow> scalar_type" where
  "domain_scalar_type ArtifactF32 = F32"
| "domain_scalar_type ArtifactF16 = F16"
| "domain_scalar_type ArtifactBf16 = Bf16"

fun candle_scalar_type :: "scalar_type \<Rightarrow> candle_dtype option" where
  "candle_scalar_type F32 = Some CandleF32"
| "candle_scalar_type F16 = Some CandleF16"
| "candle_scalar_type Bf16 = Some CandleBf16"
| "candle_scalar_type _ = None"

fun to_stored_scalar_type :: "artifact_scalar_type \<Rightarrow> stored_scalar_type" where
  "to_stored_scalar_type ArtifactF32 = StoredF32"
| "to_stored_scalar_type ArtifactF16 = StoredF16"
| "to_stored_scalar_type ArtifactBf16 = StoredBf16"

text \<open>\<open>duration_milliseconds\<close>: whole milliseconds, not zero, in 64 bits.\<close>

definition duration_milliseconds :: "nat \<Rightarrow> configuration_field \<Rightarrow> application_error + u64" where
  "duration_milliseconds duration field =
    (let milliseconds = duration div 1000000 in
     if milliseconds < 2 ^ 64 \<and> milliseconds \<noteq> 0 then Inr (of_nat milliseconds)
     else Inl (AppInvalidConfiguration field))"

text \<open>\<open>RuntimeLimits::new\<close> with the default clean-up policy.\<close>

definition runtime_limits_new :: "u32 \<Rightarrow> u32 \<Rightarrow> memory_budget \<Rightarrow> runtime_limits" where
  "runtime_limits_new models requests budget = \<lparr>rl_maximum_loaded_models = models,
     rl_maximum_active_requests = requests, rl_memory_budget = budget, rl_maximum_attempts = 3\<rparr>"

text \<open>What \<open>create_runtime\<close> hands to the start of the hosted runtime.\<close>

record hosted_start =
  hs_limits :: runtime_limits
  hs_command_capacity :: usize
  hs_event_capacity :: usize
  hs_poll_milliseconds :: u64

definition create_runtime :: "preferences \<Rightarrow> 'path application_configuration \<Rightarrow> application_error + hosted_start" where
  "create_runtime p c =
    bind_ok (validate_non_zero (unat (cf_maximum_models c)) FieldMaximumModels) (\<lambda>_.
    bind_ok (validate_non_zero (unat (cf_maximum_requests c)) FieldMaximumRequests) (\<lambda>_.
    bind_ok (validate_non_zero (cf_command_capacity c) FieldCommandCapacity) (\<lambda>_.
    bind_ok (validate_non_zero (cf_event_capacity c) FieldEventCapacity) (\<lambda>_.
    bind_ok (duration_milliseconds (tm_runtime_poll (cf_timing c)) FieldRuntimePoll) (\<lambda>poll.
    if poll = 0 then Inl (AppInvalidConfiguration FieldRuntimePoll)
    else Inr \<lparr>hs_limits = runtime_limits_new (cf_maximum_models c) (cf_maximum_requests c)
           \<lparr>budget_host_bytes = pf_maximum_host_memory_bytes p, budget_device_bytes = pf_maximum_device_memory_bytes p\<rparr>,
         hs_command_capacity = cf_command_capacity c, hs_event_capacity = cf_event_capacity c,
         hs_poll_milliseconds = poll\<rparr>)))))"

end
