(* ===== verification/Application_Runtime.thy ===== *)
theory Application_Runtime
  imports Application_Data
begin

section \<open>The application runtime\<close>

text \<open>
  \<open>runtime.rs\<close>, \<open>shutdown.rs\<close> and the types of \<open>hub_worker.rs\<close>. A channel to a worker is the list of
  the commands sent through it; what sending and receiving answer is an input of the operation, the
  database and the tokenizers package are parameters.
\<close>

subsection \<open>State\<close>

datatype hub_command = HubResolve hub_reference | HubShutdown
datatype ('path, 'e) hub_event = HubResolved "'e hub_error + 'path model_artifacts"

datatype send_answer = SendOk | SendFull | SendDisconnected
datatype 'a receive_answer = Received 'a | ReceiveNothing | ReceiveDisconnected

record ('path, 'tok, 'db) application =
  ap_hub_commands :: "hub_command list"
  ap_commands :: "'path candle_source runtime_command list"
  ap_hub_thread :: bool
  ap_inference_thread :: bool
  ap_storage :: 'db
  ap_preferences :: preferences
  ap_configuration :: "'path application_configuration"
  ap_state :: application_state
  ap_artifacts :: "'path model_artifacts option"
  ap_tokenizer :: "'tok hf_tokenizer option"
  ap_next_ticket :: u64

abbreviation with_state ::
    "(application_state \<Rightarrow> application_state) \<Rightarrow> ('path, 'tok, 'db) application \<Rightarrow> ('path, 'tok, 'db) application" where
  "with_state f app \<equiv> app\<lparr>ap_state := f (ap_state app)\<rparr>"

subsection \<open>Start\<close>

text \<open>
  The start of a thread answers whether it succeeded; \<open>start_hub_worker\<close> also builds the client. The
  checks of \<open>create_runtime\<close> and \<open>start_hub_worker\<close> come after those of \<open>validate_configuration\<close>.
\<close>

record start_answers =
  st_runtime_starts :: bool
  st_hub_client :: bool
  st_hub_starts :: bool

definition start_hub_worker :: "start_answers \<Rightarrow> 'path application_configuration \<Rightarrow> application_error + unit" where
  "start_hub_worker answers c =
    (if \<not> st_hub_client answers then Inl (AppFailure FailureHub)
     else
       bind_ok (validate_non_zero (cf_hub_channel_capacity c) FieldHubChannelCapacity) (\<lambda>_.
       bind_ok (validate_non_zero (tm_hub_worker_poll (cf_timing c)) FieldHubWorkerPoll) (\<lambda>_.
       bind_ok (validate_non_zero (tm_hub_event_send_timeout (cf_timing c)) FieldHubEventSendTimeout) (\<lambda>_.
       if st_hub_starts answers then Inr () else Inl (AppFailure FailureWorker)))))"

definition application_start ::
    "('path, 'db, 'txn, 'snap, 'tbl, 'e) redb \<Rightarrow> start_answers \<Rightarrow> 'path application_configuration
       \<Rightarrow> application_error + ('path, 'tok, 'db) application" where
  "application_start R answers c =
    bind_ok (validate_configuration c) (\<lambda>_.
    bind_ok (map_err (\<lambda>_. AppFailure FailureStorage) (storage_open R (cf_database_path c))) (\<lambda>storage.
    bind_ok (map_err (\<lambda>_. AppFailure FailureStorage) (load_settings R storage)) (\<lambda>found.
    let p = (case found of None \<Rightarrow> cf_defaults c | Some settings \<Rightarrow> application_preferences settings) in
    bind_ok (validate_preferences p) (\<lambda>_.
    bind_ok (create_runtime p c) (\<lambda>_.
    if \<not> st_runtime_starts answers then Inl (AppFailure FailureWorker)
    else
      bind_ok (start_hub_worker answers c) (\<lambda>_.
      Inr \<lparr>ap_hub_commands = [], ap_commands = [], ap_hub_thread = True, ap_inference_thread = True,
           ap_storage = storage, ap_preferences = p, ap_configuration = c, ap_state = application_state_default,
           ap_artifacts = None, ap_tokenizer = None, ap_next_ticket = 1\<rparr>))))))"

subsection \<open>Commands\<close>

definition require_idle :: "('path, 'tok, 'db) application \<Rightarrow> application_error + unit" where
  "require_idle app =
    (if as_activity (ap_state app) = ActIdle then Inr () else Inl (AppBusy (as_activity (ap_state app))))"

definition take_ticket ::
    "('path, 'tok, 'db) application \<Rightarrow> (application_error + command_ticket) \<times> ('path, 'tok, 'db) application" where
  "take_ticket app =
    (case checked_add (ap_next_ticket app) 1 of
       None \<Rightarrow> (Inl AppTicketExhausted, app)
     | Some ticket \<Rightarrow> (Inr (CommandTicket (ap_next_ticket app)), app\<lparr>ap_next_ticket := ticket\<rparr>))"

definition submit_inference ::
    "send_answer \<Rightarrow> 'path candle_source runtime_command \<Rightarrow> ('path, 'tok, 'db) application
       \<Rightarrow> (application_error + unit) \<times> ('path, 'tok, 'db) application" where
  "submit_inference answer command app =
    (case answer of
       SendOk \<Rightarrow> (Inr (), app\<lparr>ap_commands := ap_commands app @ [command]\<rparr>)
     | SendFull \<Rightarrow> (Inl AppRuntimeBusy, app)
     | SendDisconnected \<Rightarrow> (Inl AppRuntimeDisconnected, with_state disconnect_inference app))"

definition submit_unload ::
    "send_answer \<Rightarrow> model_handle \<Rightarrow> ('path, 'tok, 'db) application
       \<Rightarrow> (application_error + unit) \<times> ('path, 'tok, 'db) application" where
  "submit_unload answer handle app =
    bind_step (map_err (\<lambda>_. AppFailure FailureInference)
      (drain_timeout_from_millis (pf_drain_timeout_milliseconds (ap_preferences app))), app) (\<lambda>timeout app.
    bind_step (take_ticket app) (\<lambda>ticket app.
    bind_step (submit_inference answer (CmdUnloadModel ticket handle (Drain timeout)) app) (\<lambda>_ app.
    (Inr (), with_state (set_activity ActUnloading) app))))"

definition app_resolve_model ::
    "send_answer \<Rightarrow> rust_string \<Rightarrow> rust_string \<Rightarrow> ('path, 'tok, 'db) application
       \<Rightarrow> (application_error + unit) \<times> ('path, 'tok, 'db) application" where
  "app_resolve_model answer repository revision app =
    bind_step (require_idle app, app) (\<lambda>_ app.
    if as_loaded (ap_state app) \<noteq> None then (Inl AppModelAlreadyLoaded, app)
    else if \<not> as_hub_available (ap_state app) then (Inl AppHubDisconnected, app)
    else
    bind_step (map_err (\<lambda>_ :: unit hub_error. AppFailure FailureHub) (hub_reference_new repository revision), app) (\<lambda>reference app.
    (case answer of
       SendFull \<Rightarrow> (Inl AppHubBusy, app)
     | SendDisconnected \<Rightarrow> (Inl AppHubDisconnected, with_state disconnect_hub app)
     | SendOk \<Rightarrow> (Inr (), with_state begin_resolving
         (app\<lparr>ap_hub_commands := ap_hub_commands app @ [HubResolve reference],
            ap_artifacts := None, ap_tokenizer := None\<rparr>)))))"

definition app_load_model ::
    "send_answer \<Rightarrow> rust_string \<Rightarrow> rust_string \<Rightarrow> ('path, 'tok, 'db) application
       \<Rightarrow> (application_error + unit) \<times> ('path, 'tok, 'db) application" where
  "app_load_model answer repository revision app =
    bind_step (require_idle app, app) (\<lambda>_ app.
    if as_loaded (ap_state app) \<noteq> None then (Inl AppModelAlreadyLoaded, app)
    else if \<not> as_inference_available (ap_state app) then (Inl AppRuntimeDisconnected, app)
    else
    bind_step (ok_or (as_resolved (ap_state app)) AppNoResolvedModel, app) (\<lambda>resolved app.
    if \<not> matches_selection resolved repository revision then (Inl AppSelectionChanged, app)
    else
    bind_step (ok_or (Option.bind (rm_scalar_type resolved) candle_scalar_type) AppUnknownScalarType, app) (\<lambda>scalar app.
    bind_step (ok_or (ap_artifacts app) AppNoResolvedModel, app) (\<lambda>artifacts app.
    bind_step (ok_or (candle_source_new (ra_config_path artifacts) (ra_weight_paths artifacts) scalar)
      (AppFailure FailureModelSource), app) (\<lambda>source app.
    bind_step (take_ticket app) (\<lambda>ticket app.
    bind_step (submit_inference answer (CmdLoadModel ticket (ModelId 1) source (DeviceId 0) Cpu) app) (\<lambda>_ app.
    (Inr (), with_state (set_activity ActLoading) app))))))))"

definition app_unload_model ::
    "send_answer \<Rightarrow> ('path, 'tok, 'db) application \<Rightarrow> (application_error + unit) \<times> ('path, 'tok, 'db) application" where
  "app_unload_model answer app =
    bind_step (require_idle app, app) (\<lambda>_ app.
    bind_step (ok_or (as_loaded (ap_state app)) AppNoLoadedModel, app) (\<lambda>loaded app.
    submit_unload answer (rd_handle loaded) app))"

subsection \<open>Events\<close>

text \<open>
  What a poll meets: the answers of the two channels, the time of day, and what sending an unload
  would answer.
\<close>

record ('path, 'e) poll_inputs =
  pi_hub :: "('path, 'e) hub_event receive_answer"
  pi_runtime :: "runtime_event receive_answer"
  pi_now :: u64
  pi_send :: send_answer

definition persist_resolved ::
    "('path, 'db, 'txn, 'snap, 'tbl, 'e) redb \<Rightarrow> u64 \<Rightarrow> 'path model_artifacts \<Rightarrow> ('path, 'tok, 'db) application
       \<Rightarrow> ('e storage_error + unit) \<times> ('path, 'tok, 'db) application" where
  "persist_resolved R now artifacts app =
    (let p = (ap_preferences app)\<lparr>pf_default_repository := ra_repository artifacts,
           pf_default_revision := ra_revision artifacts\<rparr>;
         app = app\<lparr>ap_preferences := p\<rparr> in
     (case save_settings R (stored_settings p) (ap_storage app) of
        (Inl e, storage) \<Rightarrow> (Inl e, app\<lparr>ap_storage := storage\<rparr>)
      | (Inr _, storage) \<Rightarrow>
          (case ra_declared_scalar_type artifacts of
             None \<Rightarrow> (Inr (), app\<lparr>ap_storage := storage\<rparr>)
           | Some scalar \<Rightarrow>
               (case upsert_model R \<lparr>mo_name = ra_repository artifacts @ [0x40] @ ra_commit artifacts,
                    mo_repository = ra_repository artifacts, mo_revision = ra_commit artifacts,
                    mo_scalar_type = to_stored_scalar_type scalar, mo_last_used_unix_milliseconds = now\<rparr> storage of
                  (r, storage) \<Rightarrow> (r, app\<lparr>ap_storage := storage\<rparr>)))))"

definition accept_artifacts ::
    "('path, 'db, 'txn, 'snap, 'tbl, 'e) redb \<Rightarrow> ('path, 'tok, 'f) tokenizers \<Rightarrow> u64 \<Rightarrow> 'path model_artifacts
       \<Rightarrow> ('path, 'tok, 'db) application \<Rightarrow> application_event \<times> ('path, 'tok, 'db) application" where
  "accept_artifacts R T now artifacts app =
    (case hf_from_file T (ra_tokenizer_path artifacts) of
       Inl _ \<Rightarrow> (AevModelResolutionFailed FailureTokenizer, with_state (set_activity ActIdle) app)
     | Inr tokenizer \<Rightarrow>
         let resolved = \<lparr>rm_repository = ra_repository artifacts, rm_revision = ra_revision artifacts,
               rm_commit = ra_commit artifacts, rm_vocabulary_size = ht_vocabulary_size tokenizer,
               rm_scalar_type = map_option domain_scalar_type (ra_declared_scalar_type artifacts)\<rparr> in
         (case persist_resolved R now artifacts app of
            (r, app) \<Rightarrow>
              (AevModelResolved resolved (if is_ok r then None else Some FailureStorage),
               with_state (set_resolved resolved)
                 (app\<lparr>ap_artifacts := Some artifacts, ap_tokenizer := Some tokenizer\<rparr>))))"

definition process_hub_event ::
    "('path, 'db, 'txn, 'snap, 'tbl, 'e) redb \<Rightarrow> ('path, 'tok, 'f) tokenizers \<Rightarrow> u64 \<Rightarrow> ('path, 'g) hub_event
       \<Rightarrow> ('path, 'tok, 'db) application \<Rightarrow> application_event \<times> ('path, 'tok, 'db) application" where
  "process_hub_event R T now event app =
    (case event of
       HubResolved (Inr artifacts) \<Rightarrow> accept_artifacts R T now artifacts app
     | HubResolved (Inl _) \<Rightarrow> (AevModelResolutionFailed FailureHub, with_state (set_activity ActIdle) app))"

definition reject_incompatible ::
    "send_answer \<Rightarrow> model_handle \<Rightarrow> ('path, 'tok, 'db) application \<Rightarrow> application_event \<times> ('path, 'tok, 'db) application" where
  "reject_incompatible answer handle app =
    (case submit_unload answer handle ((with_state clear_resolved app)\<lparr>ap_artifacts := None, ap_tokenizer := None\<rparr>) of
       (Inl _, app) \<Rightarrow> (AevModelLoadFailed FailureInference, with_state (set_activity ActIdle) app)
     | (Inr _, app) \<Rightarrow> (AevModelCompatibilityFailed FailureInference, app))"

definition process_model_loaded ::
    "send_answer \<Rightarrow> runtime_error + load_receipt \<Rightarrow> ('path, 'tok, 'db) application
       \<Rightarrow> application_event \<times> ('path, 'tok, 'db) application" where
  "process_model_loaded answer result app =
    (case result of
       Inl _ \<Rightarrow> (AevModelLoadFailed FailureInference, with_state (set_activity ActIdle) app)
     | Inr receipt \<Rightarrow>
         let size = md_vocabulary_size (desc_metadata (lr_descriptor receipt));
             loaded = \<lparr>rd_handle = lr_handle receipt, rd_vocabulary_size = size\<rparr>;
             app = with_state (set_loaded loaded) app in
         if (case ap_tokenizer app of None \<Rightarrow> False | Some t \<Rightarrow> ht_vocabulary_size t \<noteq> size)
         then reject_incompatible answer (lr_handle receipt) app
         else (AevModelLoaded loaded, app))"

definition process_model_unload ::
    "runtime_error + unload_receipt \<Rightarrow> ('path, 'tok, 'db) application
       \<Rightarrow> application_event \<times> ('path, 'tok, 'db) application" where
  "process_model_unload result app =
    (case result of
       Inl _ \<Rightarrow> (AevModelUnloadFailed FailureInference, with_state (set_activity ActIdle) app)
     | Inr receipt \<Rightarrow>
         (case ur_status receipt of
            UnloadDraining \<Rightarrow> (AevModelDraining (ur_handle receipt), app)
          | _ \<Rightarrow> (AevModelUnloaded (ur_handle receipt) (ur_cancelled_requests receipt), with_state clear_loaded app)))"

definition process_runtime_event ::
    "send_answer \<Rightarrow> runtime_event \<Rightarrow> ('path, 'tok, 'db) application
       \<Rightarrow> application_event option \<times> ('path, 'tok, 'db) application" where
  "process_runtime_event answer event app =
    (case event of
       EvModelLoaded _ result \<Rightarrow> apfst Some (process_model_loaded answer result app)
     | EvModelUnload _ result \<Rightarrow> apfst Some (process_model_unload result app)
     | _ \<Rightarrow> (None, app))"

definition poll_runtime ::
    "('path, 'g) poll_inputs \<Rightarrow> ('path, 'tok, 'db) application \<Rightarrow> application_event option \<times> ('path, 'tok, 'db) application" where
  "poll_runtime inputs app =
    (if as_inference_available (ap_state app) then
       (case pi_runtime inputs of
          Received event \<Rightarrow> process_runtime_event (pi_send inputs) event app
        | ReceiveNothing \<Rightarrow> (None, app)
        | ReceiveDisconnected \<Rightarrow>
            (Some AevRuntimeDisconnected,
             with_state (\<lambda>s. let s = disconnect_inference s in
               if as_activity s \<in> {ActLoading, ActUnloading} then set_activity ActIdle s else s) app))
     else (None, app))"

definition app_poll_event ::
    "('path, 'db, 'txn, 'snap, 'tbl, 'e) redb \<Rightarrow> ('path, 'tok, 'f) tokenizers \<Rightarrow> ('path, 'g) poll_inputs
       \<Rightarrow> ('path, 'tok, 'db) application \<Rightarrow> application_event option \<times> ('path, 'tok, 'db) application" where
  "app_poll_event R T inputs app =
    (if as_hub_available (ap_state app) then
       (case pi_hub inputs of
          Received event \<Rightarrow> apfst Some (process_hub_event R T (pi_now inputs) event app)
        | ReceiveNothing \<Rightarrow> poll_runtime inputs app
        | ReceiveDisconnected \<Rightarrow>
            (Some AevHubDisconnected,
             with_state (\<lambda>s. let s = disconnect_hub s in
               if as_activity s = ActResolving then set_activity ActIdle s else s) app))
     else poll_runtime inputs app)"

end
