(* ===== verification/Application_Shutdown.thy ===== *)
theory Application_Shutdown
  imports Application_Runtime
begin

section \<open>Shutdown and the hub worker\<close>

text \<open>
  \<open>shutdown.rs\<close> and the loop of \<open>hub_worker.rs\<close>. A loop that polls until a deadline takes the list of
  what its polls answered before the deadline passed, so the end of the list is the deadline. The loop
  that first discards what has been received changes nothing and is left out.
\<close>

subsection \<open>The workers' ends\<close>

text \<open>The deadline can be computed, the polls of \<open>is_finished\<close>, and whether the thread panicked.\<close>

record join_answers =
  ja_deadline :: bool
  ja_finished :: "bool list"
  ja_panicked :: bool

record shutdown_answers =
  sa_hub_send :: send_answer
  sa_deadline :: bool
  sa_submits :: "send_answer list"
  sa_events :: "runtime_event receive_answer list"
  sa_runtime_join :: join_answers
  sa_hub_join :: join_answers

datatype shutdown_reply = RuntimeGone | RuntimeFinished "runtime_error + shutdown_receipt"

definition request_hub_shutdown ::
    "send_answer \<Rightarrow> ('path, 'tok, 'db) application \<Rightarrow> (application_error + unit) \<times> ('path, 'tok, 'db) application" where
  "request_hub_shutdown answer app =
    (if \<not> as_hub_available (ap_state app) then (Inr (), app)
     else
       (case answer of
          SendOk \<Rightarrow> (Inr (), with_state disconnect_hub (app\<lparr>ap_hub_commands := ap_hub_commands app @ [HubShutdown]\<rparr>))
        | SendDisconnected \<Rightarrow> (Inr (), with_state disconnect_hub app)
        | SendFull \<Rightarrow> (Inl AppHubBusy, app)))"

text \<open>Submitting the command: \<open>Some True\<close> is submitted, \<open>Some False\<close> disconnected, \<open>None\<close> the deadline.\<close>

fun submit_until :: "send_answer list \<Rightarrow> bool option" where
  "submit_until [] = None"
| "submit_until (SendOk # answers) = Some True"
| "submit_until (SendDisconnected # answers) = Some False"
| "submit_until (SendFull # answers) = submit_until answers"

fun await_shutdown :: "command_ticket \<Rightarrow> runtime_event receive_answer list \<Rightarrow> application_error + shutdown_reply" where
  "await_shutdown ticket [] = Inl (AppShutdownTimeout WorkerInference)"
| "await_shutdown ticket (answer # answers) =
     (case answer of
        Received (EvShutdown event_ticket result) \<Rightarrow>
          if event_ticket = ticket then Inr (RuntimeFinished result) else await_shutdown ticket answers
      | Received _ \<Rightarrow> await_shutdown ticket answers
      | ReceiveNothing \<Rightarrow> await_shutdown ticket answers
      | ReceiveDisconnected \<Rightarrow> Inr RuntimeGone)"

definition shutdown_runtime_worker ::
    "shutdown_answers \<Rightarrow> command_ticket \<Rightarrow> ('path, 'tok, 'db) application
       \<Rightarrow> (application_error + shutdown_reply) \<times> ('path, 'tok, 'db) application" where
  "shutdown_runtime_worker answers ticket app =
    (if \<not> sa_deadline answers then (Inl (AppInvalidConfiguration FieldRuntimeShutdownTimeout), app)
     else
       (case submit_until (sa_submits answers) of
          None \<Rightarrow> (Inl AppRuntimeBusy, app)
        | Some False \<Rightarrow> (Inr RuntimeGone, app)
        | Some True \<Rightarrow> (await_shutdown ticket (sa_events answers),
            app\<lparr>ap_commands := ap_commands app @ [CmdShutdown ticket]\<rparr>)))"

definition normalize_runtime_shutdown :: "shutdown_reply \<Rightarrow> application_error + unit" where
  "normalize_runtime_shutdown outcome =
    (case outcome of RuntimeFinished (Inl _) \<Rightarrow> Inl (AppFailure FailureInference) | _ \<Rightarrow> Inr ())"

definition shutdown_inference ::
    "shutdown_answers \<Rightarrow> ('path, 'tok, 'db) application \<Rightarrow> (application_error + unit) \<times> ('path, 'tok, 'db) application" where
  "shutdown_inference answers app =
    (if \<not> as_inference_available (ap_state app) then (Inr (), app)
     else
       bind_step (take_ticket app) (\<lambda>ticket app.
       bind_step (shutdown_runtime_worker answers ticket app) (\<lambda>outcome app.
       (normalize_runtime_shutdown outcome, with_state disconnect_inference app))))"

fun wait_finished :: "bool list \<Rightarrow> bool" where
  "wait_finished [] = False"
| "wait_finished (is_finished # polls) = (is_finished \<or> wait_finished polls)"

definition join_worker :: "join_answers \<Rightarrow> configuration_field \<Rightarrow> application_worker \<Rightarrow> application_error + unit" where
  "join_worker answers field worker =
    (if \<not> ja_deadline answers then Inl (AppInvalidConfiguration field)
     else if \<not> wait_finished (ja_finished answers) then Inl (AppShutdownTimeout worker)
     else if ja_panicked answers then Inl (AppFailure FailureWorker)
     else Inr ())"

definition join_runtime_worker ::
    "shutdown_answers \<Rightarrow> ('path, 'tok, 'db) application \<Rightarrow> (application_error + unit) \<times> ('path, 'tok, 'db) application" where
  "join_runtime_worker answers app =
    (if \<not> ap_inference_thread app then (Inr (), app)
     else (join_worker (sa_runtime_join answers) FieldRuntimeJoinTimeout WorkerInference,
           app\<lparr>ap_inference_thread := False\<rparr>))"

definition join_hub_worker ::
    "shutdown_answers \<Rightarrow> ('path, 'tok, 'db) application \<Rightarrow> (application_error + unit) \<times> ('path, 'tok, 'db) application" where
  "join_hub_worker answers app =
    (if \<not> ap_hub_thread app then (Inr (), app)
     else (join_worker (sa_hub_join answers) FieldHubShutdownTimeout WorkerHub, app\<lparr>ap_hub_thread := False\<rparr>))"

definition record_first_error :: "'e option \<Rightarrow> 'e + unit \<Rightarrow> 'e option" where
  "record_first_error first r =
    (case first of Some e \<Rightarrow> Some e | None \<Rightarrow> (case r of Inl e \<Rightarrow> Some e | Inr _ \<Rightarrow> None))"

definition app_shutdown ::
    "shutdown_answers \<Rightarrow> ('path, 'tok, 'db) application \<Rightarrow> (application_error + unit) \<times> ('path, 'tok, 'db) application" where
  "app_shutdown answers app =
    (if as_activity (ap_state app) = ActShuttingDown then (Inr (), app)
     else
       (case request_hub_shutdown (sa_hub_send answers) (with_state (set_activity ActShuttingDown) app) of (r1, app) \<Rightarrow>
       (case shutdown_inference answers app of (r2, app) \<Rightarrow>
       (case join_runtime_worker answers app of (r3, app) \<Rightarrow>
       (case join_hub_worker answers app of (r4, app) \<Rightarrow>
         (case record_first_error (record_first_error (record_first_error (record_first_error None r1) r2) r3) r4 of
            None \<Rightarrow> (Inr (), app)
          | Some e \<Rightarrow> (Inl e, app)))))))"

subsection \<open>The hub worker\<close>

text \<open>
  What the worker's receives answer, each resolution with the answers of sending its event until it is
  taken or the receiver is gone. The result is the events sent.
\<close>

fun event_sent :: "send_answer list \<Rightarrow> bool" where
  "event_sent [] = False"
| "event_sent (SendOk # answers) = True"
| "event_sent (SendDisconnected # answers) = False"
| "event_sent (SendFull # answers) = event_sent answers"

fun run_hub_worker ::
    "('path, 'e) hub \<Rightarrow> (hub_command receive_answer \<times> send_answer list) list \<Rightarrow> ('path, 'e) hub_event list" where
  "run_hub_worker H [] = []"
| "run_hub_worker H ((answer, sends) # inputs) =
     (case answer of
        Received (HubResolve reference) \<Rightarrow>
          if event_sent sends then HubResolved (resolve_llama H reference) # run_hub_worker H inputs else []
      | Received HubShutdown \<Rightarrow> []
      | ReceiveDisconnected \<Rightarrow> []
      | ReceiveNothing \<Rightarrow> run_hub_worker H inputs)"

end
