(* ===== verification/Application_Invariant.thy ===== *)
theory Application_Invariant
  imports Application_Shutdown Hub_Weights
begin

section \<open>What every reachable application keeps\<close>

text \<open>
  A system is an application with what its two workers have done. The hub worker answers a resolution
  with what the hub adapter makes of it. The inference worker answers a load with one load event. It
  answers an unload with any number of drain notices and a final answer under the same ticket; when
  this is an error, the unload may still be completed later, and the worker then reports the completion
  under that ticket again (\<open>worker.rs\<close>, the transitions of pending unloads). Nothing is assumed of when
  they answer, what the channels say, or which calls the frontend makes before a shutdown.

  The application does not look at tickets. A late completion that arrives while another operation is
  in progress is taken for the answer to that operation; \<open>sy_crossed\<close> records that this has happened.
  From then on nothing is assumed of the events of the inference worker.
\<close>

record ('path, 'tok, 'db) app_system =
  sy_app :: "('path, 'tok, 'db) application"
  sy_hub_done :: nat
  sy_done :: nat
  sy_failed :: "command_ticket list"
  sy_crossed :: bool

abbreviation hub_waiting :: "('path, 'tok, 'db) app_system \<Rightarrow> hub_command list" where
  "hub_waiting s \<equiv> drop (sy_hub_done s) (ap_hub_commands (sy_app s))"

abbreviation waiting :: "('path, 'tok, 'db) app_system \<Rightarrow> 'path candle_source runtime_command list" where
  "waiting s \<equiv> drop (sy_done s) (ap_commands (sy_app s))"

fun answers_command :: "'src runtime_command \<Rightarrow> runtime_event \<Rightarrow> bool" where
  "answers_command (CmdLoadModel ticket _ _ _ _) (EvModelLoaded ticket' _) = (ticket' = ticket)"
| "answers_command (CmdUnloadModel ticket _ _) (EvModelUnload ticket' _) = (ticket' = ticket)"
| "answers_command _ _ = False"

fun final_answer :: "runtime_event \<Rightarrow> bool" where
  "final_answer (EvModelUnload _ (Inr receipt)) = (ur_status receipt \<noteq> UnloadDraining)"
| "final_answer _ = True"

fun failed_unload :: "runtime_event \<Rightarrow> command_ticket list" where
  "failed_unload (EvModelUnload ticket (Inl _)) = [ticket]"
| "failed_unload _ = []"

definition answers_head :: "('path, 'tok, 'db) app_system \<Rightarrow> runtime_event \<Rightarrow> bool" where
  "answers_head s event \<longleftrightarrow> (case waiting s of [] \<Rightarrow> False | command # _ \<Rightarrow> answers_command command event)"

definition late_completion :: "('path, 'tok, 'db) app_system \<Rightarrow> runtime_event \<Rightarrow> bool" where
  "late_completion s event \<longleftrightarrow>
    (case event of EvModelUnload ticket (Inr _) \<Rightarrow> ticket \<in> set (sy_failed s) | _ \<Rightarrow> False)"

text \<open>The event of the inference worker that a poll takes.\<close>

definition polled_runtime :: "('path, 'e) poll_inputs \<Rightarrow> ('path, 'tok, 'db) application \<Rightarrow> runtime_event option" where
  "polled_runtime inputs app =
    (if (as_hub_available (ap_state app) \<longrightarrow> pi_hub inputs = ReceiveNothing) \<and> as_inference_available (ap_state app)
     then (case pi_runtime inputs of Received event \<Rightarrow> Some event | _ \<Rightarrow> None) else None)"

definition poll_answers :: "('path, 'e) hub \<Rightarrow> ('path, 'tok, 'db) app_system \<Rightarrow> ('path, 'e) poll_inputs \<Rightarrow> bool" where
  "poll_answers H s inputs \<longleftrightarrow>
    (\<forall>event. as_hub_available (ap_state (sy_app s)) \<longrightarrow> pi_hub inputs = Received event \<longrightarrow>
       (\<exists>reference rest. hub_waiting s = HubResolve reference # rest \<and> event = HubResolved (resolve_llama H reference)))
    \<and> (\<forall>event. polled_runtime inputs (sy_app s) = Some event \<longrightarrow>
         sy_crossed s \<or> answers_head s event \<or> late_completion s event)"

definition hub_taken :: "('path, 'e) poll_inputs \<Rightarrow> ('path, 'tok, 'db) application \<Rightarrow> nat" where
  "hub_taken inputs app =
    (if as_hub_available (ap_state app) then (case pi_hub inputs of Received _ \<Rightarrow> 1 | _ \<Rightarrow> 0) else 0)"

definition runtime_taken :: "('path, 'e) poll_inputs \<Rightarrow> ('path, 'tok, 'db) app_system \<Rightarrow> nat" where
  "runtime_taken inputs s =
    (case polled_runtime inputs (sy_app s) of
       Some event \<Rightarrow> if answers_head s event \<and> final_answer event then 1 else 0
     | None \<Rightarrow> 0)"

definition crosses :: "('path, 'e) poll_inputs \<Rightarrow> ('path, 'tok, 'db) app_system \<Rightarrow> bool" where
  "crosses inputs s \<longleftrightarrow>
    (case polled_runtime inputs (sy_app s) of
       Some event \<Rightarrow> \<not> answers_head s event \<and> as_activity (ap_state (sy_app s)) \<noteq> ActIdle
     | None \<Rightarrow> False)"

definition polled ::
    "('path, 'e) poll_inputs \<Rightarrow> ('path, 'tok, 'db) application \<Rightarrow> ('path, 'tok, 'db) app_system \<Rightarrow> ('path, 'tok, 'db) app_system" where
  "polled inputs app s = \<lparr>sy_app = app, sy_hub_done = sy_hub_done s + hub_taken inputs (sy_app s),
     sy_done = sy_done s + runtime_taken inputs s,
     sy_failed = (case polled_runtime inputs (sy_app s) of Some event \<Rightarrow> failed_unload event | None \<Rightarrow> []) @ sy_failed s,
     sy_crossed = (sy_crossed s \<or> crosses inputs s)\<rparr>"

inductive app_reaches ::
    "('path, 'db, 'txn, 'snap, 'tbl, 'e) redb \<Rightarrow> ('path, 'tok, 'f) tokenizers \<Rightarrow> ('path, 'g) hub
       \<Rightarrow> ('path, 'tok, 'db) app_system \<Rightarrow> bool"
  for R T H where
  reaches_start: "application_start R answers c = Inr app
      \<Longrightarrow> app_reaches R T H \<lparr>sy_app = app, sy_hub_done = 0, sy_done = 0, sy_failed = [], sy_crossed = False\<rparr>"
| reaches_resolve: "app_reaches R T H s \<Longrightarrow> app_resolve_model answer repository revision (sy_app s) = (r, app)
      \<Longrightarrow> app_reaches R T H (s\<lparr>sy_app := app\<rparr>)"
| reaches_load: "app_reaches R T H s \<Longrightarrow> app_load_model answer repository revision (sy_app s) = (r, app)
      \<Longrightarrow> app_reaches R T H (s\<lparr>sy_app := app\<rparr>)"
| reaches_unload: "app_reaches R T H s \<Longrightarrow> app_unload_model answer (sy_app s) = (r, app)
      \<Longrightarrow> app_reaches R T H (s\<lparr>sy_app := app\<rparr>)"
| reaches_poll: "app_reaches R T H s \<Longrightarrow> poll_answers H s inputs \<Longrightarrow> app_poll_event R T inputs (sy_app s) = (event, app)
      \<Longrightarrow> app_reaches R T H (polled inputs app s)"

subsection \<open>The invariant\<close>

definition resolved_of :: "'path model_artifacts \<Rightarrow> 'tok hf_tokenizer \<Rightarrow> resolved_model" where
  "resolved_of a t = \<lparr>rm_repository = ra_repository a, rm_revision = ra_revision a, rm_commit = ra_commit a,
     rm_vocabulary_size = ht_vocabulary_size t,
     rm_scalar_type = map_option domain_scalar_type (ra_declared_scalar_type a)\<rparr>"

text \<open>The operation in progress is the one whose answer is waited for.\<close>

definition activity_ok :: "application_state \<Rightarrow> hub_command list \<Rightarrow> 'src runtime_command list \<Rightarrow> bool" where
  "activity_ok st hub_commands commands \<longleftrightarrow>
    (case as_activity st of
       ActIdle \<Rightarrow> True
     | ActResolving \<Rightarrow> as_hub_available st \<and> as_loaded st = None \<and> as_resolved st = None
         \<and> (\<exists>reference. hub_commands = [HubResolve reference])
     | ActLoading \<Rightarrow> as_inference_available st \<and> as_loaded st = None
         \<and> (\<exists>ticket source. commands = [CmdLoadModel ticket (ModelId 1) source (DeviceId 0) Cpu])
     | ActUnloading \<Rightarrow> as_inference_available st
         \<longrightarrow> (\<exists>ticket model timeout. as_loaded st = Some model \<and> commands = [CmdUnloadModel ticket (rd_handle model) (Drain timeout)])
     | ActShuttingDown \<Rightarrow> False)
    \<and> (as_hub_available st \<and> as_activity st \<noteq> ActResolving \<longrightarrow> hub_commands = [])
    \<and> (as_inference_available st \<and> as_activity st \<noteq> ActLoading \<and> as_activity st \<noteq> ActUnloading \<longrightarrow> commands = [])"

definition operations_ok :: "('path, 'tok, 'db) app_system \<Rightarrow> bool" where
  "operations_ok s \<longleftrightarrow> sy_hub_done s \<le> length (ap_hub_commands (sy_app s)) \<and> sy_done s \<le> length (ap_commands (sy_app s))
     \<and> activity_ok (ap_state (sy_app s)) (hub_waiting s) (waiting s)"

definition resolved_ok :: "('path, 'tok, 'db) application \<Rightarrow> bool" where
  "resolved_ok app \<longleftrightarrow>
    (case as_resolved (ap_state app) of
       None \<Rightarrow> ap_artifacts app = None \<and> ap_tokenizer app = None
     | Some r \<Rightarrow> \<exists>a t. ap_artifacts app = Some a \<and> ap_tokenizer app = Some t \<and> r = resolved_of a t \<and> ra_weight_paths a \<noteq> [])"

definition selection_ok :: "('path, 'tok, 'db) application \<Rightarrow> bool" where
  "selection_ok app \<longleftrightarrow> resolved_ok app
    \<and> (\<forall>model t. as_loaded (ap_state app) = Some model \<longrightarrow> ap_tokenizer app = Some t
        \<longrightarrow> rd_vocabulary_size model = ht_vocabulary_size t)"

fun ticket_number :: "'src runtime_command \<Rightarrow> u64" where
  "ticket_number command = (case command_ticket_of command of CommandTicket n \<Rightarrow> n)"

definition tickets_ok :: "('path, 'tok, 'db) application \<Rightarrow> bool" where
  "tickets_ok app \<longleftrightarrow> sorted_wrt (<) (map ticket_number (ap_commands app))
     \<and> (\<forall>command \<in> set (ap_commands app). ticket_number command < ap_next_ticket app)
     \<and> pf_drain_timeout_milliseconds (ap_preferences app) \<noteq> 0"

definition app_inv :: "('path, 'tok, 'db) app_system \<Rightarrow> bool" where
  "app_inv s \<longleftrightarrow> operations_ok s \<and> selection_ok (sy_app s) \<and> tickets_ok (sy_app s)"

lemma take_ticket_cases:
  obtains "take_ticket app = (Inl AppTicketExhausted, app)"
  | n where "take_ticket app = (Inr (CommandTicket (ap_next_ticket app)), app\<lparr>ap_next_ticket := n\<rparr>)"
      "n = ap_next_ticket app + 1" "ap_next_ticket app < n"
proof (cases "checked_add (ap_next_ticket app) 1")
  case None
  with that(1) show ?thesis by (simp add: take_ticket_def)
next
  case (Some n)
  have "unat n = Suc (unat (ap_next_ticket app))" using unat_checked_add [OF Some] by simp
  then have "ap_next_ticket app < n" by (simp only: word_less_nat_alt)
  moreover have "n = ap_next_ticket app + 1" using Some by (simp only: checked_add_Some)
  ultimately show ?thesis using Some that(2) by (simp add: take_ticket_def)
qed

subsection \<open>The calls of a frontend\<close>

lemma app_resolve_cases:
  assumes "app_resolve_model answer repository revision app = (r, app')"
  obtains "app' = app"
  | "app' = with_state disconnect_hub app" "as_activity (ap_state app) = ActIdle"
  | reference where "r = Inr ()" "as_activity (ap_state app) = ActIdle" "as_loaded (ap_state app) = None"
      "as_hub_available (ap_state app)"
      "app' = with_state begin_resolving (app\<lparr>ap_hub_commands := ap_hub_commands app @ [HubResolve reference],
            ap_artifacts := None, ap_tokenizer := None\<rparr>)"
proof (cases "as_activity (ap_state app) = ActIdle \<and> as_loaded (ap_state app) = None \<and> as_hub_available (ap_state app)")
  case False
  then have "app' = app" using assms by (auto simp: app_resolve_model_def require_idle_def split: if_splits)
  with that(1) show ?thesis .
next
  case idle: True
  note step = assms [unfolded app_resolve_model_def require_idle_def]
  show ?thesis
  proof (cases "hub_reference_new repository revision :: unit hub_error + hub_reference")
    case (Inl e)
    with step idle have "app' = app" by simp
    with that(1) show ?thesis .
  next
    case (Inr reference)
    show ?thesis
    proof (cases answer)
      case SendOk
      with step idle Inr show ?thesis by (intro that(3) [of reference]) simp_all
    next
      case SendFull
      with step idle Inr show ?thesis by (intro that(1)) simp
    next
      case SendDisconnected
      with step idle Inr show ?thesis by (intro that(2)) simp_all
    qed
  qed
qed

lemma submit_inference_cases:
  assumes "bind_step (take_ticket app) (\<lambda>ticket app. bind_step (submit_inference answer (command ticket) app)
      (\<lambda>_ app. (Inr (), with_state (set_activity activity) app))) = (r, app')"
  obtains e n where "r = Inl e" "app' = app\<lparr>ap_next_ticket := n\<rparr>" "ap_next_ticket app \<le> n"
  | e n where "r = Inl e" "app' = with_state disconnect_inference (app\<lparr>ap_next_ticket := n\<rparr>)" "ap_next_ticket app < n"
  | n where "r = Inr ()" "ap_next_ticket app < n"
      "app' = with_state (set_activity activity) (app\<lparr>ap_next_ticket := n,
         ap_commands := ap_commands app @ [command (CommandTicket (ap_next_ticket app))]\<rparr>)"
proof (cases rule: take_ticket_cases [of app])
  case 1
  with assms show ?thesis by (intro that(1) [of _ "ap_next_ticket app"]) auto
next
  case (2 n)
  show ?thesis
  proof (cases answer)
    case SendOk
    with assms 2 show ?thesis by (intro that(3) [of n]) (simp_all add: submit_inference_def)
  next
    case SendFull
    with assms 2 show ?thesis by (intro that(1) [of AppRuntimeBusy n]) (simp_all add: submit_inference_def)
  next
    case SendDisconnected
    with assms 2 show ?thesis by (intro that(2) [of AppRuntimeDisconnected n]) (simp_all add: submit_inference_def)
  qed
qed

lemma submit_unload_steps:
  assumes "submit_unload answer handle app = (r, app')" and "pf_drain_timeout_milliseconds (ap_preferences app) \<noteq> 0"
  obtains timeout where "bind_step (take_ticket app) (\<lambda>ticket app.
      bind_step (submit_inference answer (CmdUnloadModel ticket handle (Drain timeout)) app)
      (\<lambda>_ app. (Inr (), with_state (set_activity ActUnloading) app))) = (r, app')"
proof -
  obtain timeout where timeout: "drain_timeout_from_millis (pf_drain_timeout_milliseconds (ap_preferences app)) = Inr timeout"
    using assms(2) by (simp add: drain_timeout_from_millis_def)
  show ?thesis by (rule that [of timeout]) (use assms(1) timeout in \<open>simp add: submit_unload_def\<close>)
qed

lemma app_load_steps:
  assumes "app_load_model answer repository revision app = (r, app')"
  obtains e where "r = Inl e" "app' = app"
  | source where "as_activity (ap_state app) = ActIdle" "as_loaded (ap_state app) = None" "as_inference_available (ap_state app)"
      "bind_step (take_ticket app) (\<lambda>ticket app.
        bind_step (submit_inference answer (CmdLoadModel ticket (ModelId 1) source (DeviceId 0) Cpu) app)
        (\<lambda>_ app. (Inr (), with_state (set_activity ActLoading) app))) = (r, app')"
proof -
  have "(\<exists>e. r = Inl e \<and> app' = app) \<or> (as_activity (ap_state app) = ActIdle \<and> as_loaded (ap_state app) = None
      \<and> as_inference_available (ap_state app) \<and> (\<exists>source. bind_step (take_ticket app) (\<lambda>ticket app.
        bind_step (submit_inference answer (CmdLoadModel ticket (ModelId 1) source (DeviceId 0) Cpu) app)
        (\<lambda>_ app. (Inr (), with_state (set_activity ActLoading) app))) = (r, app')))"
    using assms unfolding app_load_model_def require_idle_def
    by (auto simp: bind_step_def ok_or_def simp del: bind_step_simps split: if_splits option.splits)
  with that show ?thesis by blast
qed

subsection \<open>Steps that keep the invariant\<close>

lemma selection_cong:
  assumes "as_resolved (ap_state app') = as_resolved (ap_state app)" "as_loaded (ap_state app') = as_loaded (ap_state app)"
    "ap_artifacts app' = ap_artifacts app" "ap_tokenizer app' = ap_tokenizer app"
  shows "selection_ok app' = selection_ok app"
  unfolding selection_ok_def resolved_ok_def assms ..

lemma tickets_cong:
  assumes "ap_commands app' = ap_commands app" "ap_next_ticket app' = ap_next_ticket app"
    "ap_preferences app' = ap_preferences app"
  shows "tickets_ok app' = tickets_ok app"
  unfolding tickets_ok_def assms ..

lemma tickets_ticket: "tickets_ok app \<Longrightarrow> ap_next_ticket app \<le> n \<Longrightarrow> tickets_ok (app\<lparr>ap_next_ticket := n\<rparr>)"
  by (auto simp: tickets_ok_def intro: less_le_trans)

lemma tickets_submit:
  assumes "tickets_ok app" and "ap_next_ticket app < n" and "ticket_number command = ap_next_ticket app"
  shows "tickets_ok (app\<lparr>ap_next_ticket := n, ap_commands := ap_commands app @ [command]\<rparr>)"
  using assms by (auto simp: tickets_ok_def sorted_wrt_append intro: less_trans simp del: ticket_number.simps)

lemma app_inv_cong:
  assumes "sy_app s' = sy_app s" "sy_hub_done s' = sy_hub_done s" "sy_done s' = sy_done s"
  shows "app_inv s' = app_inv s"
  unfolding app_inv_def operations_ok_def assms ..

lemma inv_ticket:
  assumes "app_inv s" and "ap_next_ticket (sy_app s) \<le> n"
  shows "app_inv (s\<lparr>sy_app := (sy_app s)\<lparr>ap_next_ticket := n\<rparr>\<rparr>)"
proof -
  have "selection_ok ((sy_app s)\<lparr>ap_next_ticket := n\<rparr>) = selection_ok (sy_app s)" by (rule selection_cong) simp_all
  with assms show ?thesis by (simp add: app_inv_def operations_ok_def tickets_ticket)
qed

lemma inv_state:
  assumes "app_inv s" and "activity_ok (f (ap_state (sy_app s))) (hub_waiting s) (waiting s)"
    and "as_resolved (f (ap_state (sy_app s))) = as_resolved (ap_state (sy_app s))"
    and "as_loaded (f (ap_state (sy_app s))) = as_loaded (ap_state (sy_app s))"
  shows "app_inv (s\<lparr>sy_app := with_state f (sy_app s)\<rparr>)"
proof -
  have "selection_ok (with_state f (sy_app s)) = selection_ok (sy_app s)" by (rule selection_cong) (simp_all add: assms)
  moreover have "tickets_ok (with_state f (sy_app s)) = tickets_ok (sy_app s)" by (rule tickets_cong) simp_all
  ultimately show ?thesis using assms(1,2) by (simp add: app_inv_def operations_ok_def)
qed

lemma inv_activity: "app_inv s \<Longrightarrow> activity_ok (ap_state (sy_app s)) (hub_waiting s) (waiting s)"
  by (simp add: app_inv_def operations_ok_def)

lemma inv_disconnect_hub:
  assumes "app_inv s" and "as_activity (ap_state (sy_app s)) = ActIdle"
  shows "app_inv (s\<lparr>sy_app := with_state disconnect_hub (sy_app s)\<rparr>)"
  using assms(1) by (rule inv_state) (use inv_activity [OF assms(1)] assms(2) in \<open>simp_all add: disconnect_hub_def activity_ok_def\<close>)

lemma inv_disconnect_inference:
  assumes "app_inv s" and "as_activity (ap_state (sy_app s)) = ActIdle"
  shows "app_inv (s\<lparr>sy_app := with_state disconnect_inference (sy_app s)\<rparr>)"
  using assms(1) by (rule inv_state) (use inv_activity [OF assms(1)] assms(2) in \<open>simp_all add: disconnect_inference_def activity_ok_def\<close>)

lemma inv_submit:
  assumes inv: "app_inv s" and idle: "as_activity (ap_state (sy_app s)) = ActIdle"
    and inference: "as_inference_available (ap_state (sy_app s)) \<or> activity = ActUnloading" and ticket: "ap_next_ticket (sy_app s) < n"
    and number: "ticket_number command = ap_next_ticket (sy_app s)"
    and command: "(\<exists>ticket source. activity = ActLoading \<and> as_loaded (ap_state (sy_app s)) = None
            \<and> command = CmdLoadModel ticket (ModelId 1) source (DeviceId 0) Cpu)
       \<or> (\<exists>ticket model timeout. activity = ActUnloading \<and> as_loaded (ap_state (sy_app s)) = Some model
            \<and> command = CmdUnloadModel ticket (rd_handle model) (Drain timeout))"
  shows "app_inv (s\<lparr>sy_app := with_state (set_activity activity)
     ((sy_app s)\<lparr>ap_next_ticket := n, ap_commands := ap_commands (sy_app s) @ [command]\<rparr>)\<rparr>)" (is "app_inv (s\<lparr>sy_app := ?app\<rparr>)")
proof -
  have "waiting s = []" if "as_inference_available (ap_state (sy_app s))"
    using inv_activity [OF inv] idle that by (simp add: activity_ok_def)
  moreover have counts: "sy_done s \<le> length (ap_commands (sy_app s))" using inv by (simp add: app_inv_def operations_ok_def)
  ultimately have "activity_ok (ap_state ?app) (hub_waiting s) (drop (sy_done s) (ap_commands ?app))"
    using inv_activity [OF inv] idle inference command by (auto simp: activity_ok_def set_activity_def)
  moreover have "selection_ok ?app = selection_ok (sy_app s)" by (rule selection_cong) (simp_all add: set_activity_def)
  moreover have "tickets_ok ?app = tickets_ok ((sy_app s)\<lparr>ap_next_ticket := n, ap_commands := ap_commands (sy_app s) @ [command]\<rparr>)"
    by (rule tickets_cong) simp_all
  ultimately show ?thesis
    using inv counts tickets_submit [OF _ ticket number] by (simp add: app_inv_def operations_ok_def)
qed

subsection \<open>The calls of a frontend keep the invariant\<close>

lemma submission_keeps:
  assumes inv: "app_inv s" and idle: "as_activity (ap_state (sy_app s)) = ActIdle"
    and inference: "as_inference_available (ap_state (sy_app s)) \<or> activity = ActUnloading"
    and number: "\<And>n. ticket_number (command (CommandTicket n)) = n"
    and command: "\<And>ticket. (\<exists>ticket' source. activity = ActLoading \<and> as_loaded (ap_state (sy_app s)) = None
            \<and> command ticket = CmdLoadModel ticket' (ModelId 1) source (DeviceId 0) Cpu)
       \<or> (\<exists>ticket' model timeout. activity = ActUnloading \<and> as_loaded (ap_state (sy_app s)) = Some model
            \<and> command ticket = CmdUnloadModel ticket' (rd_handle model) (Drain timeout))"
    and step: "bind_step (take_ticket (sy_app s)) (\<lambda>ticket app. bind_step (submit_inference answer (command ticket) app)
      (\<lambda>_ app. (Inr (), with_state (set_activity activity) app))) = (r, app')"
  shows "app_inv (s\<lparr>sy_app := app'\<rparr>)"
  using step
proof (cases rule: submit_inference_cases)
  case (1 e n)
  with inv show ?thesis by (simp add: inv_ticket)
next
  case (2 e n)
  have "app_inv (s\<lparr>sy_app := (sy_app s)\<lparr>ap_next_ticket := n\<rparr>\<rparr>)" using inv 2 by (simp add: inv_ticket)
  from inv_disconnect_inference [OF this] 2 idle show ?thesis by simp
next
  case (3 n)
  show ?thesis unfolding 3(3) by (rule inv_submit [OF inv idle inference 3(2) number command])
qed

lemma resolve_keeps:
  assumes inv: "app_inv s" and step: "app_resolve_model answer repository revision (sy_app s) = (r, app')"
  shows "app_inv (s\<lparr>sy_app := app'\<rparr>)"
  using step
proof (cases rule: app_resolve_cases)
  case 1
  with inv show ?thesis by simp
next
  case 2
  with inv show ?thesis by (simp add: inv_disconnect_hub)
next
  case (3 reference)
  from inv have counts: "sy_hub_done s \<le> length (ap_hub_commands (sy_app s))" "sy_done s \<le> length (ap_commands (sy_app s))"
    by (simp_all add: app_inv_def operations_ok_def)
  have "hub_waiting s = []" using inv_activity [OF inv] 3 by (simp add: activity_ok_def)
  with counts have hub: "sy_hub_done s = length (ap_hub_commands (sy_app s))" by simp
  have "tickets_ok app' = tickets_ok (sy_app s)" unfolding 3(5) by (rule tickets_cong) simp_all
  moreover have "activity_ok (ap_state app') [HubResolve reference] (waiting s)"
    using inv_activity [OF inv] 3(2-4) unfolding 3(5) by (simp add: activity_ok_def begin_resolving_def)
  moreover have "selection_ok app'" unfolding 3(5) by (simp add: selection_ok_def resolved_ok_def begin_resolving_def)
  ultimately show ?thesis using inv counts hub by (simp add: 3(5) app_inv_def operations_ok_def)
qed

lemma load_keeps:
  assumes inv: "app_inv s" and step: "app_load_model answer repository revision (sy_app s) = (r, app')"
  shows "app_inv (s\<lparr>sy_app := app'\<rparr>)"
  using step
proof (cases rule: app_load_steps)
  case (1 e)
  with inv show ?thesis by simp
next
  case (2 source)
  show ?thesis by (rule submission_keeps [OF inv 2(1) disjI1 [OF 2(3)] _ _ 2(4)]) (use 2(2) in simp_all)
qed

lemma unload_steps_keep:
  assumes inv: "app_inv s" and idle: "as_activity (ap_state (sy_app s)) = ActIdle" and model: "as_loaded (ap_state (sy_app s)) = Some model"
    and step: "submit_unload answer (rd_handle model) (sy_app s) = (r, app')"
  shows "app_inv (s\<lparr>sy_app := app'\<rparr>)"
proof -
  from inv have "pf_drain_timeout_milliseconds (ap_preferences (sy_app s)) \<noteq> 0" by (simp add: app_inv_def tickets_ok_def)
  with step obtain timeout where unload: "bind_step (take_ticket (sy_app s)) (\<lambda>ticket app.
      bind_step (submit_inference answer (CmdUnloadModel ticket (rd_handle model) (Drain timeout)) app)
      (\<lambda>_ app. (Inr (), with_state (set_activity ActUnloading) app))) = (r, app')"
    by (rule submit_unload_steps)
  show ?thesis by (rule submission_keeps [OF inv idle disjI2 [OF refl] _ _ unload]) (use model in simp_all)
qed

lemma unload_keeps:
  assumes inv: "app_inv s" and step: "app_unload_model answer (sy_app s) = (r, app')"
  shows "app_inv (s\<lparr>sy_app := app'\<rparr>)"
proof (cases "as_activity (ap_state (sy_app s)) = ActIdle \<and> as_loaded (ap_state (sy_app s)) \<noteq> None")
  case True
  then obtain model where "as_activity (ap_state (sy_app s)) = ActIdle" "as_loaded (ap_state (sy_app s)) = Some model" by auto
  with inv step show ?thesis by (intro unload_steps_keep) (simp_all add: app_unload_model_def require_idle_def)
next
  case False
  with step have "app' = sy_app s" by (auto simp: app_unload_model_def require_idle_def split: if_splits)
  with inv show ?thesis by simp
qed

subsection \<open>A poll keeps the invariant\<close>

lemma hub_lost:
  assumes inv: "app_inv s"
  shows "app_inv (s\<lparr>sy_app := with_state (\<lambda>st. let st = disconnect_hub st in
               if as_activity st = ActResolving then set_activity ActIdle st else st) (sy_app s)\<rparr>)"
  using inv by (rule inv_state)
    (use inv_activity [OF inv] in \<open>auto simp: disconnect_hub_def set_activity_def activity_ok_def split: activity.splits\<close>)

lemma inference_lost:
  assumes inv: "app_inv s"
  shows "app_inv (s\<lparr>sy_app := with_state (\<lambda>st. let st = disconnect_inference st in
               if as_activity st \<in> {ActLoading, ActUnloading} then set_activity ActIdle st else st) (sy_app s)\<rparr>)"
  using inv by (rule inv_state)
    (use inv_activity [OF inv] in \<open>auto simp: disconnect_inference_def set_activity_def activity_ok_def split: activity.splits\<close>)

text \<open>After an answer was taken the application is idle; what remains is the resolved selection.\<close>

lemma inv_answered:
  assumes inv: "app_inv s" and commands: "ap_hub_commands app = ap_hub_commands (sy_app s)" "ap_commands app = ap_commands (sy_app s)"
    and ticket: "ap_next_ticket app = ap_next_ticket (sy_app s)"
    and drain: "pf_drain_timeout_milliseconds (ap_preferences app) = pf_drain_timeout_milliseconds (ap_preferences (sy_app s))"
    and idle: "as_activity (ap_state app) = ActIdle"
    and available: "as_hub_available (ap_state app) = as_hub_available (ap_state (sy_app s))"
      "as_inference_available (ap_state app) = as_inference_available (ap_state (sy_app s))"
    and taken: "(h = 1 \<and> d = 0 \<and> as_activity (ap_state (sy_app s)) = ActResolving \<and> hub_waiting s \<noteq> [])
       \<or> (h = 0 \<and> d = 1 \<and> as_activity (ap_state (sy_app s)) \<in> {ActLoading, ActUnloading} \<and> waiting s \<noteq> []
            \<and> as_inference_available (ap_state (sy_app s)))"
    and selection: "selection_ok app"
  shows "app_inv (s\<lparr>sy_app := app, sy_hub_done := sy_hub_done s + h, sy_done := sy_done s + d\<rparr>)"
proof -
  note ok = inv_activity [OF inv]
  have tickets: "tickets_ok app" using inv by (simp add: app_inv_def tickets_ok_def commands ticket drain)
  have counts: "sy_hub_done s \<le> length (ap_hub_commands (sy_app s))" "sy_done s \<le> length (ap_commands (sy_app s))"
    using inv by (simp_all add: app_inv_def operations_ok_def)
  from taken show ?thesis
  proof (elim disjE conjE)
    assume hub: "h = 1" "d = 0" "as_activity (ap_state (sy_app s)) = ActResolving" "hub_waiting s \<noteq> []"
    with ok obtain command where "hub_waiting s = [command]" by (auto simp: activity_ok_def)
    from arg_cong [OF this, of length] have "length (ap_hub_commands (sy_app s)) = sy_hub_done s + 1" by simp
    moreover have "activity_ok (ap_state app) [] (waiting s)"
      using ok hub available idle by (simp add: activity_ok_def)
    ultimately show ?thesis using tickets selection counts hub by (simp add: app_inv_def operations_ok_def commands)
  next
    assume runtime: "h = 0" "d = 1" "as_activity (ap_state (sy_app s)) \<in> {ActLoading, ActUnloading}" "waiting s \<noteq> []"
      "as_inference_available (ap_state (sy_app s))"
    with ok obtain command where "waiting s = [command]" by (auto simp: activity_ok_def)
    from arg_cong [OF this, of length] have "length (ap_commands (sy_app s)) = sy_done s + 1" by simp
    moreover have "activity_ok (ap_state app) (hub_waiting s) []"
      using ok runtime available idle by (auto simp: activity_ok_def)
    ultimately show ?thesis using tickets selection counts runtime by (simp add: app_inv_def operations_ok_def commands)
  qed
qed

lemma persist_resolved_app:
  "persist_resolved R now artifacts app = (r, app') \<Longrightarrow> \<exists>storage. app' = app\<lparr>ap_preferences := (ap_preferences app)
     \<lparr>pf_default_repository := ra_repository artifacts, pf_default_revision := ra_revision artifacts\<rparr>, ap_storage := storage\<rparr>"
  by (auto simp: persist_resolved_def Let_def split: prod.splits sum.splits option.splits)

lemma hub_event_keeps:
  assumes inv: "app_inv s" and waiting: "hub_waiting s = HubResolve reference # rest" and available: "as_hub_available (ap_state (sy_app s))"
    and step: "process_hub_event R T now (HubResolved (resolve_llama H reference)) (sy_app s) = (event, app')"
  shows "app_inv (s\<lparr>sy_app := app', sy_hub_done := sy_hub_done s + 1, sy_done := sy_done s + 0\<rparr>)"
proof -
  have resolving: "as_activity (ap_state (sy_app s)) = ActResolving" "as_loaded (ap_state (sy_app s)) = None"
    using inv_activity [OF inv] waiting available by (auto simp: activity_ok_def)
  from inv have selection: "selection_ok (sy_app s)" by (simp add: app_inv_def)
  then have idle: "selection_ok (with_state (set_activity ActIdle) (sy_app s))"
    by (subst selection_cong [of _ "sy_app s"]) (simp_all add: set_activity_def)
  show ?thesis
  proof (cases "resolve_llama H reference")
    case (Inl e)
    with step have "app' = with_state (set_activity ActIdle) (sy_app s)" by (simp add: process_hub_event_def)
    with resolving waiting idle show ?thesis by (intro inv_answered [OF inv]) (simp_all add: set_activity_def)
  next
    case (Inr a)
    note weights = resolve_llama_artifacts(3) [OF Inr]
    have step: "accept_artifacts R T now a (sy_app s) = (event, app')" using step Inr by (simp add: process_hub_event_def)
    show ?thesis
    proof (cases "hf_from_file T (ra_tokenizer_path a)")
      case (Inl e)
      with step have "app' = with_state (set_activity ActIdle) (sy_app s)" by (simp add: accept_artifacts_def)
      with resolving waiting idle show ?thesis by (intro inv_answered [OF inv]) (simp_all add: set_activity_def)
    next
      case (Inr t)
      obtain r app1 where persist: "persist_resolved R now a (sy_app s) = (r, app1)" by fastforce
      then obtain storage where app1: "app1 = (sy_app s)\<lparr>ap_preferences := (ap_preferences (sy_app s))
         \<lparr>pf_default_repository := ra_repository a, pf_default_revision := ra_revision a\<rparr>, ap_storage := storage\<rparr>"
        by (blast dest: persist_resolved_app)
      have app': "app' = with_state (set_resolved (resolved_of a t)) (app1\<lparr>ap_artifacts := Some a, ap_tokenizer := Some t\<rparr>)"
        using step Inr persist by (simp add: accept_artifacts_def Let_def resolved_of_def)
      have "selection_ok app'" using weights resolving(2) by (simp add: app' app1 selection_ok_def resolved_ok_def set_resolved_def)
      with resolving waiting show ?thesis by (intro inv_answered [OF inv]) (simp_all add: app' app1 set_resolved_def)
    qed
  qed
qed

lemma submit_unload_failed:
  assumes "submit_unload answer handle app = (Inl e, app')" and "pf_drain_timeout_milliseconds (ap_preferences app) \<noteq> 0"
  shows "as_activity (ap_state app') = as_activity (ap_state app)"
proof -
  from assms obtain timeout where "bind_step (take_ticket app) (\<lambda>ticket app.
      bind_step (submit_inference answer (CmdUnloadModel ticket handle (Drain timeout)) app)
      (\<lambda>_ app. (Inr (), with_state (set_activity ActUnloading) app))) = (Inl e, app')" by (rule submit_unload_steps)
  then show ?thesis by (cases rule: submit_inference_cases) (simp_all add: disconnect_inference_def)
qed

lemma with_state_same: "f (ap_state app) = ap_state app \<Longrightarrow> with_state f app = app"
  by (cases app) simp

lemma set_activity_same: "as_activity st = activity \<Longrightarrow> set_activity activity st = st"
  by (cases st) (simp add: set_activity_def)

lemma loaded_keeps:
  assumes inv: "app_inv s" and loading: "as_activity (ap_state (sy_app s)) = ActLoading" and waiting: "waiting s \<noteq> []"
    and step: "process_model_loaded answer result (sy_app s) = (event, app')"
  shows "app_inv (s\<lparr>sy_app := app', sy_hub_done := sy_hub_done s + 0, sy_done := sy_done s + 1\<rparr>)"
proof -
  have available: "as_inference_available (ap_state (sy_app s))" "as_loaded (ap_state (sy_app s)) = None"
    using inv_activity [OF inv] loading by (auto simp: activity_ok_def)
  from inv have selection: "selection_ok (sy_app s)" by (simp add: app_inv_def)
  show ?thesis
  proof (cases result)
    case (Inl e)
    with step have "app' = with_state (set_activity ActIdle) (sy_app s)" by (simp add: process_model_loaded_def)
    moreover have "selection_ok (with_state (set_activity ActIdle) (sy_app s))"
      by (subst selection_cong [of _ "sy_app s"]) (simp_all add: set_activity_def selection)
    ultimately show ?thesis using loading waiting available by (intro inv_answered [OF inv]) (simp_all add: set_activity_def)
  next
    case (Inr receipt)
    define loaded where "loaded = \<lparr>rd_handle = lr_handle receipt, rd_vocabulary_size = md_vocabulary_size (desc_metadata (lr_descriptor receipt))\<rparr>"
    define app1 where "app1 = with_state (set_loaded loaded) (sy_app s)"
    show ?thesis
    proof (cases "\<exists>t. ap_tokenizer (sy_app s) = Some t \<and> ht_vocabulary_size t \<noteq> rd_vocabulary_size loaded")
      case False
      then have "app' = app1" using step Inr
        by (cases "ap_tokenizer (sy_app s)") (auto simp: process_model_loaded_def Let_def loaded_def app1_def)
      moreover have "selection_ok app1" using selection False
        by (auto simp: selection_ok_def resolved_ok_def app1_def set_loaded_def split: option.splits)
      ultimately show ?thesis using loading waiting available
        by (intro inv_answered [OF inv]) (simp_all add: app1_def set_loaded_def)
    next
      case True
      define app2 where "app2 = (with_state clear_resolved app1)\<lparr>ap_artifacts := None, ap_tokenizer := None\<rparr>"
      define s2 where "s2 = (s\<lparr>sy_app := app2, sy_hub_done := sy_hub_done s + 0, sy_done := sy_done s + 1\<rparr>)"
      have state2: "as_activity (ap_state app2) = ActIdle" "as_loaded (ap_state app2) = Some loaded"
        by (simp_all add: app2_def app1_def clear_resolved_def set_loaded_def)
      have "selection_ok app2" by (simp add: selection_ok_def resolved_ok_def app2_def clear_resolved_def)
      then have inv2: "app_inv s2" unfolding s2_def using loading waiting available
        by (intro inv_answered [OF inv]) (simp_all add: app2_def app1_def clear_resolved_def set_loaded_def)
      have reject: "reject_incompatible answer (rd_handle loaded) app1 = (event, app')" using step Inr True
        by (auto simp: process_model_loaded_def Let_def loaded_def app1_def)
      obtain r app3 where unload: "submit_unload answer (rd_handle loaded) app2 = (r, app3)" by fastforce
      have inv3: "app_inv (s2\<lparr>sy_app := app3\<rparr>)" by (rule unload_steps_keep [where answer = answer and r = r and model = loaded, OF inv2])
          (simp_all add: s2_def state2 unload)
      have drain: "pf_drain_timeout_milliseconds (ap_preferences app2) \<noteq> 0" using inv2 by (simp add: app_inv_def tickets_ok_def s2_def)
      have "app' = app3"
      proof (cases r)
        case (Inl e)
        with unload drain state2 have "as_activity (ap_state app3) = ActIdle" by (simp add: submit_unload_failed)
        with reject unload Inl show ?thesis
          by (simp add: reject_incompatible_def app2_def [symmetric] with_state_same set_activity_same)
      next
        case (Inr u)
        with reject unload show ?thesis by (simp add: reject_incompatible_def app2_def [symmetric])
      qed
      then have "app_inv (s\<lparr>sy_app := app', sy_hub_done := sy_hub_done s + 0, sy_done := sy_done s + 1\<rparr>) = app_inv (s2\<lparr>sy_app := app3\<rparr>)"
        by (intro app_inv_cong) (simp_all add: s2_def)
      with inv3 show ?thesis by simp
    qed
  qed
qed

lemma unloaded_keeps:
  assumes inv: "app_inv s" and unloading: "as_activity (ap_state (sy_app s)) = ActUnloading" and waiting: "waiting s \<noteq> []"
    and available: "as_inference_available (ap_state (sy_app s))"
    and step: "process_model_unload result (sy_app s) = (event, app')"
  shows "app_inv (s\<lparr>sy_app := app', sy_hub_done := sy_hub_done s, sy_done := sy_done s + (if final_answer (EvModelUnload ticket result) then 1 else 0)\<rparr>)"
proof (cases "final_answer (EvModelUnload ticket result)")
  case False
  with step have "app' = sy_app s" by (cases result) (auto simp: process_model_unload_def)
  with inv False show ?thesis by (cases s) simp
next
  case True
  from inv have selection: "selection_ok (sy_app s)" by (simp add: app_inv_def)
  have "app' = with_state (set_activity ActIdle) (sy_app s) \<or> app' = with_state clear_loaded (sy_app s)"
    using step True by (auto simp: process_model_unload_def split: sum.splits unload_status.splits)
  moreover have "selection_ok (with_state (set_activity ActIdle) (sy_app s))"
    by (subst selection_cong [of _ "sy_app s"]) (simp_all add: set_activity_def selection)
  moreover have "selection_ok (with_state clear_loaded (sy_app s))"
    using selection by (cases "as_resolved (ap_state (sy_app s))") (simp_all add: selection_ok_def resolved_ok_def clear_loaded_def)
  ultimately have "app_inv (s\<lparr>sy_app := app', sy_hub_done := sy_hub_done s + 0, sy_done := sy_done s + 1\<rparr>)"
    using unloading waiting available
    by (intro inv_answered [OF inv]) (auto simp: set_activity_def clear_loaded_def)
  with True show ?thesis by simp
qed

lemma runtime_event_keeps:
  assumes inv: "app_inv s" and waiting: "waiting s = command # rest" and answers: "answers_command command event"
    and available: "as_inference_available (ap_state (sy_app s))"
    and step: "process_runtime_event answer event (sy_app s) = (outcome, app')"
  shows "app_inv (s\<lparr>sy_app := app', sy_hub_done := sy_hub_done s, sy_done := sy_done s + (if final_answer event then 1 else 0)\<rparr>)"
proof -
  have busy: "as_activity (ap_state (sy_app s)) = ActLoading \<and> (\<exists>ticket source. command = CmdLoadModel ticket (ModelId 1) source (DeviceId 0) Cpu)
      \<or> as_activity (ap_state (sy_app s)) = ActUnloading \<and> (\<exists>ticket handle policy. command = CmdUnloadModel ticket handle policy)"
    using inv_activity [OF inv] waiting available by (auto simp: activity_ok_def split: activity.splits)
  have nonempty: "waiting s \<noteq> []" by (simp only: waiting list.simps not_False_eq_True)
  from busy show ?thesis
  proof (elim disjE conjE exE)
    fix ticket source
    assume loading: "as_activity (ap_state (sy_app s)) = ActLoading" and "command = CmdLoadModel ticket (ModelId 1) source (DeviceId 0) Cpu"
    with answers obtain result where event: "event = EvModelLoaded ticket result" by (cases event) auto
    with step have "process_model_loaded answer result (sy_app s) = (the outcome, app')"
      by (auto simp: process_runtime_event_def apfst_def map_prod_def split: prod.splits)
    from loaded_keeps [OF inv loading nonempty this] show ?thesis by (simp add: event)
  next
    fix ticket handle policy
    assume unloading: "as_activity (ap_state (sy_app s)) = ActUnloading" and "command = CmdUnloadModel ticket handle policy"
    with answers obtain result where event: "event = EvModelUnload ticket result" by (cases event) auto
    with step have "process_model_unload result (sy_app s) = (the outcome, app')"
      by (auto simp: process_runtime_event_def apfst_def map_prod_def split: prod.splits)
    from unloaded_keeps [OF inv unloading nonempty available this] show ?thesis by (simp add: event)
  qed
qed

lemma app_inv_polled:
  "app_inv (polled inputs app s) = app_inv (s\<lparr>sy_app := app, sy_hub_done := sy_hub_done s + hub_taken inputs (sy_app s),
     sy_done := sy_done s + runtime_taken inputs s\<rparr>)"
  by (rule app_inv_cong) (simp_all add: polled_def)

text \<open>A late completion that meets an idle application clears the loaded model, or is a drain notice.\<close>

lemma late_keeps:
  assumes inv: "app_inv s" and late: "late_completion s event" and idle: "as_activity (ap_state (sy_app s)) = ActIdle"
    and step: "process_runtime_event answer event (sy_app s) = (outcome, app')"
  shows "app_inv (s\<lparr>sy_app := app'\<rparr>)"
proof -
  from late obtain ticket receipt where event: "event = EvModelUnload ticket (Inr receipt)"
    by (auto simp: late_completion_def split: runtime_event.splits sum.splits)
  then have cases: "app' = sy_app s \<or> app' = with_state clear_loaded (sy_app s)"
    using step by (auto simp: process_runtime_event_def process_model_unload_def split: unload_status.splits)
  have "activity_ok (ap_state (with_state clear_loaded (sy_app s))) (hub_waiting s) (waiting s)"
    using inv_activity [OF inv] idle by (simp add: activity_ok_def clear_loaded_def)
  moreover have "selection_ok (with_state clear_loaded (sy_app s))"
    using inv by (cases "as_resolved (ap_state (sy_app s))") (simp_all add: app_inv_def selection_ok_def resolved_ok_def clear_loaded_def)
  moreover have "tickets_ok (with_state clear_loaded (sy_app s)) = tickets_ok (sy_app s)" by (rule tickets_cong) simp_all
  ultimately have "app_inv (s\<lparr>sy_app := with_state clear_loaded (sy_app s)\<rparr>)"
    using inv by (simp add: app_inv_def operations_ok_def)
  with cases inv show ?thesis by auto
qed

lemma poll_keeps:
  assumes inv: "app_inv s" and answers: "poll_answers H s inputs" and step: "app_poll_event R T inputs (sy_app s) = (event, app')"
    and straight: "\<not> sy_crossed s" "\<not> crosses inputs s"
  shows "app_inv (s\<lparr>sy_app := app', sy_hub_done := sy_hub_done s + hub_taken inputs (sy_app s),
            sy_done := sy_done s + runtime_taken inputs s\<rparr>)"
proof -
  have stay: "app_inv (s\<lparr>sy_app := app, sy_hub_done := sy_hub_done s, sy_done := sy_done s\<rparr>)" if "app_inv (s\<lparr>sy_app := app\<rparr>)" for app
    using that by (cases s) simp
  have same: "app_inv (s\<lparr>sy_app := sy_app s, sy_hub_done := sy_hub_done s, sy_done := sy_done s\<rparr>)" using inv by (cases s) simp
  have runtime: "app_inv (s\<lparr>sy_app := app', sy_hub_done := sy_hub_done s + hub_taken inputs (sy_app s),
            sy_done := sy_done s + runtime_taken inputs s\<rparr>)"
    if unheard: "as_hub_available (ap_state (sy_app s)) \<longrightarrow> pi_hub inputs = ReceiveNothing"
      and poll: "poll_runtime inputs (sy_app s) = (event, app')"
  proof -
    have hub: "hub_taken inputs (sy_app s) = 0" using unheard by (simp add: hub_taken_def)
    show ?thesis
    proof (cases "as_inference_available (ap_state (sy_app s))")
      case False
      with poll hub same show ?thesis by (simp add: poll_runtime_def runtime_taken_def polled_runtime_def)
    next
      case available: True
      show ?thesis
      proof (cases "pi_runtime inputs")
        case (Received ev)
        then have polled: "polled_runtime inputs (sy_app s) = Some ev" using unheard available by (simp add: polled_runtime_def)
        from poll Received available have process: "process_runtime_event (pi_send inputs) ev (sy_app s) = (event, app')"
          by (simp add: poll_runtime_def)
        show ?thesis
        proof (cases "answers_head s ev")
          case True
          then obtain command rest where waiting: "waiting s = command # rest" "answers_command command ev"
            by (auto simp: answers_head_def split: list.splits)
          from runtime_event_keeps [OF inv waiting available process] show ?thesis
            using polled True hub by (simp add: runtime_taken_def)
        next
          case False
          with answers polled straight have late: "late_completion s ev" "as_activity (ap_state (sy_app s)) = ActIdle"
            by (auto simp: poll_answers_def crosses_def)
          from stay [OF late_keeps [OF inv late process]] show ?thesis
            using polled False hub by (simp add: runtime_taken_def)
        qed
      next
        case ReceiveNothing
        with poll available hub same show ?thesis by (simp add: poll_runtime_def runtime_taken_def polled_runtime_def)
      next
        case ReceiveDisconnected
        with poll available hub stay [OF inference_lost [OF inv]] show ?thesis
          by (simp add: poll_runtime_def runtime_taken_def polled_runtime_def)
      qed
    qed
  qed
  show ?thesis
  proof (cases "as_hub_available (ap_state (sy_app s))")
    case False
    with step runtime show ?thesis by (simp add: app_poll_event_def)
  next
    case available: True
    show ?thesis
    proof (cases "pi_hub inputs")
      case (Received ev)
      with answers obtain reference rest where waiting: "hub_waiting s = HubResolve reference # rest"
        and ev: "ev = HubResolved (resolve_llama H reference)" using available by (auto simp: poll_answers_def)
      from step Received available ev
      have "process_hub_event R T (pi_now inputs) (HubResolved (resolve_llama H reference)) (sy_app s) = (the event, app')"
        by (auto simp: app_poll_event_def apfst_def map_prod_def split: prod.splits)
      from hub_event_keeps [OF inv waiting available this] show ?thesis
        using Received available by (simp add: hub_taken_def runtime_taken_def polled_runtime_def)
    next
      case ReceiveNothing
      with step available runtime show ?thesis by (simp add: app_poll_event_def)
    next
      case ReceiveDisconnected
      with step available stay [OF hub_lost [OF inv]] show ?thesis
        by (simp add: app_poll_event_def hub_taken_def runtime_taken_def polled_runtime_def)
    qed
  qed
qed

lemma start_keeps:
  assumes "application_start R answers c = Inr app"
  shows "app_inv \<lparr>sy_app = app, sy_hub_done = 0, sy_done = 0, sy_failed = [], sy_crossed = False\<rparr>"
proof -
  from assms obtain p storage where "validate_preferences p = Inr ()"
    and app: "app = \<lparr>ap_hub_commands = [], ap_commands = [], ap_hub_thread = True, ap_inference_thread = True,
           ap_storage = storage, ap_preferences = p, ap_configuration = c, ap_state = application_state_default,
           ap_artifacts = None, ap_tokenizer = None, ap_next_ticket = 1\<rparr>"
    unfolding application_start_def Let_def bind_ok_Inr by (auto simp: bind_ok_Inr split: if_splits)
  then have "pf_drain_timeout_milliseconds p \<noteq> 0"
    by (auto simp: validate_preferences_def validate_non_zero_def unat_eq_0 split: if_splits)
  then show ?thesis
    by (simp add: app app_inv_def operations_ok_def activity_ok_def selection_ok_def resolved_ok_def tickets_ok_def application_state_default_def)
qed

subsection \<open>What holds after a late completion has crossed another operation\<close>

text \<open>
  The selection and the tickets do not depend on which answers arrive: whatever the inference worker
  sends, the resolved selection stays that of the artifacts and the tokenizer held.
\<close>

definition base_inv :: "('path, 'tok, 'db) application \<Rightarrow> bool" where
  "base_inv app \<longleftrightarrow> resolved_ok app \<and> tickets_ok app \<and> as_activity (ap_state app) \<noteq> ActShuttingDown"

lemma inv_base: "app_inv s \<Longrightarrow> base_inv (sy_app s)"
  using inv_activity [of s] by (auto simp: app_inv_def base_inv_def selection_ok_def activity_ok_def)

lemma resolved_cong:
  assumes "as_resolved (ap_state app') = as_resolved (ap_state app)"
    "ap_artifacts app' = ap_artifacts app" "ap_tokenizer app' = ap_tokenizer app"
  shows "resolved_ok app' = resolved_ok app"
  unfolding resolved_ok_def assms ..

lemma base_state:
  assumes "base_inv app" "as_resolved (f (ap_state app)) = as_resolved (ap_state app)" "as_activity (f (ap_state app)) \<noteq> ActShuttingDown"
  shows "base_inv (with_state f app)"
  using assms resolved_cong [of "with_state f app" app] tickets_cong [of "with_state f app" app] by (simp add: base_inv_def)

lemma base_states:
  assumes "base_inv app"
  shows "a \<noteq> ActShuttingDown \<Longrightarrow> base_inv (with_state (set_activity a) app)" "base_inv (with_state disconnect_hub app)"
    "base_inv (with_state disconnect_inference app)" "base_inv (with_state (set_loaded m) app)" "base_inv (with_state clear_loaded app)"
  using assms [unfolded base_inv_def]
  by (intro base_state [OF assms]; simp add: set_activity_def disconnect_hub_def disconnect_inference_def set_loaded_def clear_loaded_def)+

lemma base_ticket: "base_inv app \<Longrightarrow> ap_next_ticket app \<le> n \<Longrightarrow> base_inv (app\<lparr>ap_next_ticket := n\<rparr>)"
  using resolved_cong [of "app\<lparr>ap_next_ticket := n\<rparr>" app] by (simp add: base_inv_def tickets_ticket)

lemma base_submission:
  assumes inv: "base_inv app" and number: "\<And>n. ticket_number (command (CommandTicket n)) = n"
    and activity: "activity \<noteq> ActShuttingDown"
    and step: "bind_step (take_ticket app) (\<lambda>ticket app. bind_step (submit_inference answer (command ticket) app)
      (\<lambda>_ app. (Inr (), with_state (set_activity activity) app))) = (r, app')"
  shows "base_inv app'"
  using step
proof (cases rule: submit_inference_cases)
  case (1 e n)
  with inv show ?thesis by (simp add: base_ticket)
next
  case (2 e n)
  have "base_inv (app\<lparr>ap_next_ticket := n\<rparr>)" using inv 2 by (simp add: base_ticket)
  then show ?thesis unfolding 2(2) by (simp only: base_states)
next
  case (3 n)
  have "resolved_ok (app\<lparr>ap_next_ticket := n, ap_commands := ap_commands app @ [command (CommandTicket (ap_next_ticket app))]\<rparr>)
      = resolved_ok app" by (rule resolved_cong) simp_all
  with inv have "base_inv (app\<lparr>ap_next_ticket := n, ap_commands := ap_commands app @ [command (CommandTicket (ap_next_ticket app))]\<rparr>)"
    using tickets_submit [OF _ 3(2) number] by (simp add: base_inv_def)
  then show ?thesis unfolding 3(3) by (rule base_states(1)) (rule activity)
qed

lemma base_unload_steps:
  assumes inv: "base_inv app" and step: "submit_unload answer handle app = (r, app')"
  shows "base_inv app'"
proof -
  from inv have "pf_drain_timeout_milliseconds (ap_preferences app) \<noteq> 0" by (simp add: base_inv_def tickets_ok_def)
  with step obtain timeout where "bind_step (take_ticket app) (\<lambda>ticket app.
      bind_step (submit_inference answer (CmdUnloadModel ticket handle (Drain timeout)) app)
      (\<lambda>_ app. (Inr (), with_state (set_activity ActUnloading) app))) = (r, app')"
    by (rule submit_unload_steps)
  from base_submission [OF inv _ _ this] show ?thesis by simp
qed

lemma base_load:
  assumes inv: "base_inv app" and step: "app_load_model answer repository revision app = (r, app')"
  shows "base_inv app'"
  using step
proof (cases rule: app_load_steps)
  case (1 e)
  with inv show ?thesis by simp
next
  case (2 source)
  from base_submission [OF inv _ _ 2(4)] show ?thesis by simp
qed

lemma base_unload:
  assumes "base_inv app" and "app_unload_model answer app = (r, app')"
  shows "base_inv app'"
  using assms by (cases "as_loaded (ap_state app)")
    (auto simp: app_unload_model_def require_idle_def split: if_splits intro: base_unload_steps)

lemma base_resolve:
  assumes inv: "base_inv app" and step: "app_resolve_model answer repository revision app = (r, app')"
  shows "base_inv app'"
  using step
proof (cases rule: app_resolve_cases)
  case (3 reference)
  have "tickets_ok app' = tickets_ok app" unfolding 3(5) by (rule tickets_cong) simp_all
  moreover have "resolved_ok app'" "as_activity (ap_state app') \<noteq> ActShuttingDown"
    unfolding 3(5) by (simp_all add: resolved_ok_def begin_resolving_def)
  ultimately show ?thesis using inv by (simp add: base_inv_def)
qed (use inv in \<open>simp_all add: base_states\<close>)

lemma base_hub_event:
  assumes inv: "base_inv app" and step: "process_hub_event R T now (HubResolved (resolve_llama H reference)) app = (event, app')"
  shows "base_inv app'"
proof (cases "resolve_llama H reference")
  case (Inl e)
  with inv step show ?thesis by (auto simp: process_hub_event_def base_states)
next
  case (Inr a)
  note weights = resolve_llama_artifacts(3) [OF Inr]
  have step: "accept_artifacts R T now a app = (event, app')" using step Inr by (simp add: process_hub_event_def)
  show ?thesis
  proof (cases "hf_from_file T (ra_tokenizer_path a)")
    case (Inl e)
    with inv step show ?thesis by (auto simp: accept_artifacts_def base_states)
  next
    case (Inr t)
    obtain r app1 where persist: "persist_resolved R now a app = (r, app1)" by fastforce
    then obtain storage where app1: "app1 = app\<lparr>ap_preferences := (ap_preferences app)
         \<lparr>pf_default_repository := ra_repository a, pf_default_revision := ra_revision a\<rparr>, ap_storage := storage\<rparr>"
      by (blast dest: persist_resolved_app)
    have app': "app' = with_state (set_resolved (resolved_of a t)) (app1\<lparr>ap_artifacts := Some a, ap_tokenizer := Some t\<rparr>)"
      using step Inr persist by (simp add: accept_artifacts_def Let_def resolved_of_def)
    have "resolved_ok app'" "as_activity (ap_state app') \<noteq> ActShuttingDown"
      using weights by (simp_all add: app' app1 resolved_ok_def set_resolved_def)
    moreover have "tickets_ok app' = tickets_ok app" by (simp add: app' app1 tickets_ok_def)
    ultimately show ?thesis using inv by (simp add: base_inv_def)
  qed
qed

lemma base_runtime_event:
  assumes inv: "base_inv app" and step: "process_runtime_event answer event app = (outcome, app')"
  shows "base_inv app'"
proof -
  have reject: "base_inv app2" if "base_inv app1" and "reject_incompatible answer handle app1 = (ev, app2)" for handle ev app1 app2
  proof -
    define app0 where "app0 = (with_state clear_resolved app1)\<lparr>ap_artifacts := None, ap_tokenizer := None\<rparr>"
    have "resolved_ok app0" "as_activity (ap_state app0) = as_activity (ap_state app1)"
      by (simp_all add: app0_def resolved_ok_def clear_resolved_def)
    moreover have "tickets_ok app0 = tickets_ok app1" by (simp add: app0_def tickets_ok_def)
    ultimately have base: "base_inv app0" using that(1) by (simp add: base_inv_def)
    obtain r app3 where unload: "submit_unload answer handle app0 = (r, app3)" by fastforce
    from base_unload_steps [OF base unload] show ?thesis
      using that(2) unload by (cases r) (auto simp: reject_incompatible_def app0_def [symmetric] base_states)
  qed
  have loaded: "base_inv app2" if step: "process_model_loaded answer result app = (ev, app2)" for result ev app2
  proof (cases result)
    case (Inl e)
    with step inv show ?thesis by (auto simp: process_model_loaded_def base_states)
  next
    case (Inr receipt)
    define m where "m = \<lparr>rd_handle = lr_handle receipt, rd_vocabulary_size = md_vocabulary_size (desc_metadata (lr_descriptor receipt))\<rparr>"
    have base: "base_inv (with_state (set_loaded m) app)" using inv by (rule base_states)
    from step Inr have "app2 = with_state (set_loaded m) app
        \<or> reject_incompatible answer (lr_handle receipt) (with_state (set_loaded m) app) = (ev, app2)"
      by (auto simp: process_model_loaded_def Let_def m_def split: if_splits)
    with base reject [OF base] show ?thesis by blast
  qed
  have unloaded: "base_inv app2" if "process_model_unload result app = (ev, app2)" for result ev app2
    using that inv by (auto simp: process_model_unload_def base_states split: sum.splits unload_status.splits)
  show ?thesis
    using step inv loaded unloaded
    by (cases event) (auto simp: process_runtime_event_def apfst_def map_prod_def split: prod.splits)
qed

lemma base_poll_runtime:
  assumes inv: "base_inv app" and step: "poll_runtime inputs app = (event, app')"
  shows "base_inv app'"
proof -
  have "base_inv (with_state (\<lambda>st. let st = disconnect_inference st in
               if as_activity st \<in> {ActLoading, ActUnloading} then set_activity ActIdle st else st) app)"
    using inv inv [unfolded base_inv_def] by (intro base_state) (auto simp: Let_def disconnect_inference_def set_activity_def)
  with inv step show ?thesis
    by (auto simp: poll_runtime_def base_runtime_event split: if_splits receive_answer.splits simp del: insert_iff)
qed

lemma base_poll:
  assumes inv: "base_inv (sy_app s)" and answers: "poll_answers H s inputs" and step: "app_poll_event R T inputs (sy_app s) = (event, app')"
  shows "base_inv app'"
proof -
  have lost: "base_inv (with_state (\<lambda>st. let st = disconnect_hub st in
               if as_activity st = ActResolving then set_activity ActIdle st else st) (sy_app s))"
    using inv inv [unfolded base_inv_def] by (intro base_state) (auto simp: Let_def disconnect_hub_def set_activity_def)
  show ?thesis
  proof (cases "as_hub_available (ap_state (sy_app s))")
    case False
    with step base_poll_runtime [OF inv] show ?thesis by (simp add: app_poll_event_def)
  next
    case available: True
    show ?thesis
    proof (cases "pi_hub inputs")
      case (Received ev)
      with answers available obtain reference where "ev = HubResolved (resolve_llama H reference)" by (auto simp: poll_answers_def)
      with step Received available have "process_hub_event R T (pi_now inputs) (HubResolved (resolve_llama H reference)) (sy_app s) = (the event, app')"
        by (auto simp: app_poll_event_def apfst_def map_prod_def split: prod.splits)
      from base_hub_event [OF inv this] show ?thesis .
    next
      case ReceiveNothing
      with step available base_poll_runtime [OF inv] show ?thesis by (simp add: app_poll_event_def)
    next
      case ReceiveDisconnected
      with step available lost show ?thesis by (simp add: app_poll_event_def)
    qed
  qed
qed

text \<open>In every reachable system the selection is intact, and all of the invariant holds until a crossing.\<close>

theorem app_reaches_inv:
  assumes "app_reaches R T H s"
  shows "base_inv (sy_app s) \<and> (\<not> sy_crossed s \<longrightarrow> app_inv s)"
  using assms
proof (induction rule: app_reaches.induct)
  case (reaches_start answers c app)
  from start_keeps [OF this] show ?case using inv_base by fastforce
next
  case (reaches_resolve s answer repository revision r app)
  then show ?case by (auto simp: base_resolve resolve_keeps)
next
  case (reaches_load s answer repository revision r app)
  then show ?case by (auto simp: base_load load_keeps)
next
  case (reaches_unload s answer r app)
  then show ?case by (auto simp: base_unload unload_keeps)
next
  case (reaches_poll s inputs event app)
  have "base_inv app" using reaches_poll base_poll by blast
  moreover have "app_inv (polled inputs app s)" if "\<not> sy_crossed (polled inputs app s)"
    using that reaches_poll poll_keeps by (simp add: app_inv_polled) (auto simp: polled_def)
  ultimately show ?case by (simp add: polled_def)
qed

end
