(* ===== verification/Application_Properties.thy ===== *)
theory Application_Properties
  imports Application_Invariant Storage_Database
begin

section \<open>What the application promises its frontends\<close>

text \<open>
  The conclusions of \<open>Application_Invariant\<close>, the agreement of the guards a frontend asks with the
  commands it gives, and what a shutdown leaves. The example is an application over a database in
  memory that resolves a model and begins to load it.
\<close>

abbreviation sy_state :: "('path, 'tok, 'db) app_system \<Rightarrow> application_state" where
  "sy_state s \<equiv> ap_state (sy_app s)"

subsection \<open>A run\<close>

definition example_tokenizers :: "(rust_string, nat, nat) tokenizers" where
  "example_tokenizers = \<lparr>tz_from_file = (\<lambda>path. Inr (length path)), tz_vocab_size = (\<lambda>n. 32000)\<rparr>"

definition example_hub :: "(rust_string, nat) hub" where
  "example_hub = \<lparr>
     hb_info = (\<lambda>repository revision. Inr \<lparr>ri_siblings = Some (map text_of
       [''config.json'', ''tokenizer.json'', ''model.safetensors'']), ri_sha = Some (text_of ''c0ffee'')\<rparr>),
     hb_download = (\<lambda>repository commit filename. Inr filename),
     hb_read = (\<lambda>path. Inr []),
     hb_parse_index = (\<lambda>bytes. Inr []),
     hb_parse_configuration = (\<lambda>bytes. Inr \<lparr>jc_dtype = Some (text_of ''F16''), jc_torch_dtype = None\<rparr>)\<rparr>"

definition example_tokenizer :: "nat hf_tokenizer" where
  "example_tokenizer = \<lparr>ht_ordinary = 14, ht_vocabulary_size = 32000\<rparr>"

definition example_repository :: rust_string where
  "example_repository = text_of ''org/model''"

definition example_reference :: hub_reference where
  "example_reference = \<lparr>hf_repository = example_repository, hf_revision = text_of ''main''\<rparr>"

definition example_artifacts :: "rust_string model_artifacts" where
  "example_artifacts = \<lparr>ra_repository = example_repository, ra_revision = text_of ''main'', ra_commit = text_of ''c0ffee'',
     ra_declared_scalar_type = Some ArtifactF16, ra_config_path = text_of ''config.json'',
     ra_tokenizer_path = text_of ''tokenizer.json'', ra_weight_paths = [text_of ''model.safetensors'']\<rparr>"

lemma example_trim:
  "string_trim example_repository = example_repository" "string_trim (text_of ''main'') = text_of ''main''"
  "string_trim (text_of ''F16'') = text_of ''F16''"
  by (rule trim_fixed, simp add: example_repository_def text_of_def is_whitespace_def)+

lemma example_paths:
  "validate_artifact_path (text_of ''config.json'') = Inr ()" "validate_artifact_path (text_of ''tokenizer.json'') = Inr ()"
  "validate_artifact_path (text_of ''model.safetensors'') = Inr ()"
  by (simp_all add: validate_artifact_path_def path_components_def name_component_def text_of_def)

lemma example_scalar: "parse_scalar_type (text_of ''F16'') = Some ArtifactF16"
  by (simp add: parse_scalar_type_def example_trim Let_def) (simp add: to_ascii_lowercase_def text_of_def)

lemma example_weights: "direct_weights (ordered_set (map text_of [''config.json'', ''tokenizer.json'', ''model.safetensors'']))
    = Inr [text_of ''model.safetensors'']"
  by (simp add: direct_weights_def ordered_set_simps)

lemma example_no_index: "text_of ''model.safetensors.index.json'' \<notin> set (map text_of [''config.json'', ''tokenizer.json'', ''model.safetensors''])"
  by (simp add: text_of_def)

lemma example_resolves: "resolve_llama example_hub example_reference = Inr example_artifacts"
  using example_no_index
  by (simp add: resolve_llama_def Let_def example_hub_def example_reference_def example_artifacts_def require_file_def
      ordered_set_simps resolve_file_def example_paths read_declared_scalar_type_def example_scalar example_weights [simplified])

lemma example_reference_new: "hub_reference_new example_repository (text_of ''main'') = Inr example_reference"
  by (simp add: hub_reference_new_def Let_def example_trim example_reference_def) (simp add: example_repository_def text_of_def)

lemma example_matches: "matches_selection (resolved_of example_artifacts t) example_repository (text_of ''main'')"
  by (simp add: matches_selection_def resolved_of_def example_artifacts_def example_trim)

lemma example_started: "\<exists>app. application_start memory_redb \<lparr>st_runtime_starts = True, st_hub_client = True, st_hub_starts = True\<rparr>
    (desktop_configuration (text_of ''app.redb'')) = Inr (app :: (rust_string, nat, memory_tables) application)
    \<and> ap_state app = application_state_default \<and> ap_hub_commands app = [] \<and> ap_next_ticket app = 1"
proof -
  have "storage_open memory_redb (text_of ''app.redb'') = Inr empty_tables"
    by (simp add: storage_open_def memory_redb_def commit_step_def empty_tables_def text_of_def)
  moreover have "load_settings memory_redb empty_tables = Inr None"
    by (simp add: load_settings_def storage_get_def memory_redb_def empty_tables_def)
  moreover have "validate_preferences preferences_default = Inr ()"
    by (simp add: validate_preferences_def preferences_default_def example_trim validate_non_zero_def) (simp add: text_of_def)
  ultimately show ?thesis
    by (simp add: application_start_def Let_def desktop_configuration_def preferences_default_def validate_configuration_def
        validate_timing_def timing_default_def from_millis_def validate_non_zero_def create_runtime_def duration_milliseconds_def
        start_hub_worker_def)
qed

text \<open>The model is resolved, then its load has begun.\<close>

lemma example_resolved:
  "\<exists>s. app_reaches memory_redb example_tokenizers example_hub s \<and> \<not> sy_crossed s
     \<and> sy_state s = application_state_default\<lparr>as_resolved := Some (resolved_of example_artifacts example_tokenizer)\<rparr>
     \<and> ap_artifacts (sy_app s) = Some example_artifacts \<and> ap_next_ticket (sy_app s) = 1"
proof -
  obtain app :: "(rust_string, nat, memory_tables) application" and answers where
    start: "application_start memory_redb answers (desktop_configuration (text_of ''app.redb'')) = Inr app"
    and app: "ap_state app = application_state_default" "ap_hub_commands app = []" "ap_next_ticket app = 1"
    using example_started by blast
  note reach0 = reaches_start [OF start, of example_tokenizers example_hub]
  define app1 where "app1 = with_state begin_resolving (app\<lparr>ap_hub_commands := [HubResolve example_reference],
            ap_artifacts := None, ap_tokenizer := None\<rparr>)"
  have "app_resolve_model SendOk example_repository (text_of ''main'') app = (Inr (), app1)"
    by (simp add: app_resolve_model_def require_idle_def app application_state_default_def example_reference_new app1_def)
  moreover define s1 :: "(rust_string, nat, memory_tables) app_system" where
    "s1 = \<lparr>sy_app = app1, sy_hub_done = 0, sy_done = 0, sy_failed = [], sy_crossed = False\<rparr>"
  ultimately have reach1: "app_reaches memory_redb example_tokenizers example_hub s1"
    using reaches_resolve [OF reach0, of SendOk example_repository "text_of ''main''" "Inr ()" app1] by (simp add: s1_def)
  define inputs :: "(rust_string, nat) poll_inputs" where
    "inputs = \<lparr>pi_hub = Received (HubResolved (resolve_llama example_hub example_reference)), pi_runtime = ReceiveNothing,
       pi_now = 0, pi_send = SendOk\<rparr>"
  have answers: "poll_answers example_hub s1 inputs" and quiet: "\<not> sy_crossed (polled inputs app s1)" for app
    by (simp_all add: poll_answers_def polled_def crosses_def polled_runtime_def inputs_def s1_def app1_def begin_resolving_def
        app application_state_default_def)
  obtain event app2 where poll: "app_poll_event memory_redb example_tokenizers inputs app1 = (event, app2)" by fastforce
  obtain r app3 where persist: "persist_resolved memory_redb 0 example_artifacts app1 = (r, app3)" by fastforce
  then obtain storage where app3: "app3 = app1\<lparr>ap_preferences := (ap_preferences app1)
     \<lparr>pf_default_repository := ra_repository example_artifacts, pf_default_revision := ra_revision example_artifacts\<rparr>, ap_storage := storage\<rparr>"
    by (blast dest: persist_resolved_app)
  have tokenizer: "hf_from_file example_tokenizers (ra_tokenizer_path example_artifacts)
      = Inr example_tokenizer"
    by (simp add: hf_from_file_def hf_from_tokenizer_def example_tokenizers_def example_artifacts_def text_of_def Let_def example_tokenizer_def)
  have "app2 = with_state (set_resolved (resolved_of example_artifacts example_tokenizer))
      (app3\<lparr>ap_artifacts := Some example_artifacts, ap_tokenizer := Some example_tokenizer\<rparr>)"
    using poll persist
    by (simp add: app_poll_event_def inputs_def app1_def begin_resolving_def app application_state_default_def
        process_hub_event_def example_resolves accept_artifacts_def tokenizer Let_def resolved_of_def apfst_def map_prod_def)
  then have "ap_state app2 = application_state_default\<lparr>as_resolved := Some (resolved_of example_artifacts example_tokenizer)\<rparr>"
    and "ap_artifacts app2 = Some example_artifacts" and "ap_next_ticket app2 = 1"
    by (simp_all add: app3 app1_def begin_resolving_def set_resolved_def app application_state_default_def)
  moreover have "app_reaches memory_redb example_tokenizers example_hub (polled inputs app2 s1)"
    using reaches_poll [OF reach1 answers] poll by (simp add: s1_def)
  ultimately show ?thesis using quiet [of app2] by (intro exI [of _ "polled inputs app2 s1"]) (simp add: polled_def)
qed

lemma example_loading:
  "\<exists>s. app_reaches memory_redb example_tokenizers example_hub s \<and> \<not> sy_crossed s \<and> as_activity (sy_state s) = ActLoading
     \<and> can_load (set_activity ActIdle (sy_state s)) example_repository (text_of ''main'') \<and> ap_next_ticket (sy_app s) = 2"
proof -
  obtain s where reach: "app_reaches memory_redb example_tokenizers example_hub s" "\<not> sy_crossed s"
    and state: "sy_state s = application_state_default\<lparr>as_resolved := Some (resolved_of example_artifacts example_tokenizer)\<rparr>"
    and artifacts: "ap_artifacts (sy_app s) = Some example_artifacts" and ticket: "ap_next_ticket (sy_app s) = 1"
    using example_resolved by blast
  have scalar: "rm_scalar_type (resolved_of example_artifacts example_tokenizer) = Some F16"
    by (simp add: resolved_of_def example_artifacts_def)
  have weights: "ra_weight_paths example_artifacts \<noteq> []" by (simp add: example_artifacts_def)
  obtain r app where load: "app_load_model SendOk example_repository (text_of ''main'') (sy_app s) = (r, app)" by fastforce
  then have "ap_state app = set_activity ActLoading (sy_state s)" "ap_next_ticket app = 2"
    by (auto simp: app_load_model_def require_idle_def state application_state_default_def example_matches scalar artifacts
        candle_source_new_def take_ticket_def ticket checked_add_def submit_inference_def weights)
  with reaches_load [OF reach(1) load] show ?thesis
    by (intro exI [of _ "s\<lparr>sy_app := app\<rparr>"])
      (simp add: reach(2) state set_activity_def can_load_def application_state_default_def scalar example_matches)
qed

subsection \<open>Operations and selections\<close>

text \<open>
  \<^bold>\<open>C21\<close>. In every state the application reaches before a shutdown, whatever the calls and the channels
  did, the tickets of the commands ever submitted strictly increase and the activity is not that of a
  shutdown. As long as no late completion of a failed unload arrived while another operation was in
  progress, the activity names exactly the one command whose answer is outstanding at a worker that is
  still there: one resolution, one load of model 1 on the first processor device, or one unload of the
  loaded model; an idle application waits for nothing but late completions.
\<close>

theorem app_operations_exact:
  assumes "app_reaches R T H s"
  shows "sorted_wrt (<) (map ticket_number (ap_commands (sy_app s)))
    \<and> as_activity (sy_state s) \<noteq> ActShuttingDown
    \<and> (\<not> sy_crossed s \<longrightarrow>
        (as_hub_available (sy_state s) \<longrightarrow>
          (if as_activity (sy_state s) = ActResolving then \<exists>reference. hub_waiting s = [HubResolve reference] else hub_waiting s = []))
      \<and> (as_inference_available (sy_state s) \<longrightarrow>
          (case as_activity (sy_state s) of
             ActLoading \<Rightarrow> \<exists>ticket source. waiting s = [CmdLoadModel ticket (ModelId 1) source (DeviceId 0) Cpu]
           | ActUnloading \<Rightarrow> \<exists>ticket model timeout. as_loaded (sy_state s) = Some model
               \<and> waiting s = [CmdUnloadModel ticket (rd_handle model) (Drain timeout)]
           | _ \<Rightarrow> waiting s = [])))"
proof (intro conjI impI)
  note inv = app_reaches_inv [OF assms]
  from inv show "sorted_wrt (<) (map ticket_number (ap_commands (sy_app s)))" by (simp only: base_inv_def tickets_ok_def)
  from inv show "as_activity (sy_state s) \<noteq> ActShuttingDown" by (simp add: base_inv_def)
  assume "\<not> sy_crossed s"
  with inv have ok: "activity_ok (sy_state s) (hub_waiting s) (waiting s)" by (simp add: inv_activity)
  { assume "as_hub_available (sy_state s)"
    with ok show "if as_activity (sy_state s) = ActResolving then \<exists>reference. hub_waiting s = [HubResolve reference] else hub_waiting s = []"
      by (cases "as_activity (sy_state s)") (simp_all add: activity_ok_def) }
  { assume "as_inference_available (sy_state s)"
    with ok show "case as_activity (sy_state s) of
             ActLoading \<Rightarrow> \<exists>ticket source. waiting s = [CmdLoadModel ticket (ModelId 1) source (DeviceId 0) Cpu]
           | ActUnloading \<Rightarrow> \<exists>ticket model timeout. as_loaded (sy_state s) = Some model
               \<and> waiting s = [CmdUnloadModel ticket (rd_handle model) (Drain timeout)]
           | _ \<Rightarrow> waiting s = []"
      by (cases "as_activity (sy_state s)") (simp_all add: activity_ok_def) }
qed

theorem app_operations_exact_witness:
  "\<exists>s :: (rust_string, nat, memory_tables) app_system. as_activity (sy_state s) = ActLoading
     \<and> (\<exists>ticket source. waiting s = [CmdLoadModel ticket (ModelId 1) source (DeviceId 0) Cpu])"
proof -
  obtain s where s: "app_reaches memory_redb example_tokenizers example_hub s" "\<not> sy_crossed s" "as_activity (sy_state s) = ActLoading"
    and guard: "can_load (set_activity ActIdle (sy_state s)) example_repository (text_of ''main'')"
    using example_loading by blast
  have "as_inference_available (sy_state s)" using guard by (simp add: can_load_def set_activity_def)
  with s app_operations_exact [OF s(1)] show ?thesis by (intro exI [of _ s]) simp
qed

text \<open>
  \<^bold>\<open>C22\<close>. In every reached state, whatever the inference worker answered, the resolved selection a
  frontend sees is that of the artifacts and the tokenizer the application holds, with at least one
  weight file, and without a selection it holds neither. As long as no late completion of a failed
  unload arrived while another operation was in progress, a loaded model has the vocabulary of the
  tokenizer it is used with, and nothing is loaded while a selection is resolved or a load is under way.
\<close>

theorem app_models_compatible:
  assumes "app_reaches R T H s"
  shows "(case as_resolved (sy_state s) of
            None \<Rightarrow> ap_artifacts (sy_app s) = None \<and> ap_tokenizer (sy_app s) = None
          | Some r \<Rightarrow> \<exists>a t. ap_artifacts (sy_app s) = Some a \<and> ap_tokenizer (sy_app s) = Some t
              \<and> r = resolved_of a t \<and> ra_weight_paths a \<noteq> [])
    \<and> (\<not> sy_crossed s \<longrightarrow>
        (\<forall>model t. as_loaded (sy_state s) = Some model \<longrightarrow> ap_tokenizer (sy_app s) = Some t
          \<longrightarrow> rd_vocabulary_size model = ht_vocabulary_size t)
      \<and> (as_activity (sy_state s) \<in> {ActResolving, ActLoading} \<longrightarrow> as_loaded (sy_state s) = None))"
proof -
  note inv = app_reaches_inv [OF assms]
  have "as_activity (sy_state s) \<in> {ActResolving, ActLoading} \<longrightarrow> as_loaded (sy_state s) = None" if "\<not> sy_crossed s"
    using inv_activity [OF inv [THEN conjunct2, THEN mp, OF that]] by (auto simp: activity_ok_def)
  with inv show ?thesis unfolding app_inv_def base_inv_def selection_ok_def resolved_ok_def by (elim conjE) (intro conjI impI; blast)
qed

theorem app_models_compatible_witness:
  "\<exists>s :: (rust_string, nat, memory_tables) app_system. as_activity (sy_state s) = ActLoading \<and> as_loaded (sy_state s) = None"
proof -
  obtain s where s: "app_reaches memory_redb example_tokenizers example_hub s" "\<not> sy_crossed s" "as_activity (sy_state s) = ActLoading"
    using example_loading by blast
  with app_models_compatible [OF s(1)] show ?thesis by (intro exI [of _ s]) simp
qed

text \<open>
  What the crossing leads to. The event of an unload carries the ticket of its command, but the
  application does not compare it: while a load is in progress, the completion or failure of an
  earlier unload makes the application idle, although the answer to the load is still to come, and a
  resolution is accepted. A load that succeeds afterwards is installed under the selection of its time.
\<close>

lemma unload_event_idles_load:
  assumes "as_activity (ap_state app) = ActLoading" "as_loaded (ap_state app) = None"
    and "as_hub_available (ap_state app)" "as_inference_available (ap_state app)"
    and "pi_hub inputs = ReceiveNothing" "pi_runtime inputs = Received (EvModelUnload ticket result)"
    and "final_answer (EvModelUnload ticket result)" "string_trim repository \<noteq> []" "string_trim revision \<noteq> []"
  obtains event app1 where "app_poll_event R T inputs app = (Some event, app1)" "as_activity (ap_state app1) = ActIdle"
    "ap_commands app1 = ap_commands app" "fst (app_resolve_model SendOk repository revision app1) = Inr ()"
proof (cases result)
  case (Inl e)
  with assms that [of "AevModelUnloadFailed FailureInference" "with_state (set_activity ActIdle) app"] show thesis
    by (simp add: app_poll_event_def poll_runtime_def process_runtime_event_def process_model_unload_def set_activity_def
        app_resolve_model_def require_idle_def hub_reference_new_def Let_def)
next
  case (Inr receipt)
  with assms that [of "AevModelUnloaded (ur_handle receipt) (ur_cancelled_requests receipt)" "with_state clear_loaded app"] show thesis
    by (cases "ur_status receipt") (simp_all add: app_poll_event_def poll_runtime_def process_runtime_event_def
        process_model_unload_def clear_loaded_def app_resolve_model_def require_idle_def hub_reference_new_def Let_def)
qed

subsection \<open>Guards\<close>

lemma ticket_taken:
  "take_ticket app = (if Suc (unat (ap_next_ticket app)) < 2 ^ 64
     then (Inr (CommandTicket (ap_next_ticket app)), app\<lparr>ap_next_ticket := ap_next_ticket app + 1\<rparr>)
     else (Inl AppTicketExhausted, app))"
  by (simp add: take_ticket_def checked_add_def)

lemma submission_accepted:
  "fst (bind_step (take_ticket app) (\<lambda>ticket app. bind_step (submit_inference SendOk (command ticket) app)
      (\<lambda>_ app. (Inr (), with_state (set_activity activity) app)))) = Inr ()
    \<longleftrightarrow> Suc (unat (ap_next_ticket app)) < 2 ^ 64"
  by (simp add: ticket_taken submit_inference_def)

lemma resolve_accepted:
  "fst (app_resolve_model SendOk repository revision app) = Inr ()
    \<longleftrightarrow> can_resolve (ap_state app) \<and> string_trim repository \<noteq> [] \<and> string_trim revision \<noteq> []"
proof (cases "as_activity (ap_state app) = ActIdle \<and> as_loaded (ap_state app) = None \<and> as_hub_available (ap_state app)")
  case True
  then show ?thesis by (simp add: app_resolve_model_def require_idle_def can_resolve_def hub_reference_new_def Let_def)
next
  case False
  then show ?thesis by (auto simp: app_resolve_model_def require_idle_def can_resolve_def)
qed

lemma load_accepted:
  assumes "resolved_ok app"
  shows "fst (app_load_model SendOk repository revision app) = Inr ()
    \<longleftrightarrow> can_load (ap_state app) repository revision \<and> Suc (unat (ap_next_ticket app)) < 2 ^ 64"
proof (cases "as_activity (ap_state app) = ActIdle \<and> as_loaded (ap_state app) = None \<and> as_inference_available (ap_state app)")
  case False
  then show ?thesis by (auto simp: app_load_model_def require_idle_def can_load_def)
next
  case idle: True
  show ?thesis
  proof (cases "as_resolved (ap_state app)")
    case None
    with idle show ?thesis by (simp add: app_load_model_def require_idle_def can_load_def)
  next
    case (Some r)
    with assms have "\<exists>a t. ap_artifacts app = Some a \<and> ap_tokenizer app = Some t \<and> r = resolved_of a t \<and> ra_weight_paths a \<noteq> []"
      by (simp add: resolved_ok_def)
    then obtain a t where held: "ap_artifacts app = Some a" "r = resolved_of a t" "ra_weight_paths a \<noteq> []"
      "ap_tokenizer app = Some t" by blast
    show ?thesis
    proof (cases "matches_selection r repository revision")
      case False
      with idle Some show ?thesis by (simp add: app_load_model_def require_idle_def can_load_def)
    next
      case matches: True
      show ?thesis
      proof (cases "ra_declared_scalar_type a")
        case None
        with idle Some held matches show ?thesis
          by (simp add: app_load_model_def require_idle_def can_load_def resolved_of_def)
      next
        case scalar: (Some x)
        have "rm_scalar_type r = Some (domain_scalar_type x)" by (simp add: held resolved_of_def scalar)
        moreover obtain y where "candle_scalar_type (domain_scalar_type x) = Some y" by (cases x) auto
        ultimately show ?thesis
          using idle Some held(1,3) matches
          by (simp add: app_load_model_def require_idle_def can_load_def candle_source_new_def submission_accepted)
      qed
    qed
  qed
qed

lemma unload_accepted:
  assumes "pf_drain_timeout_milliseconds (ap_preferences app) \<noteq> 0"
  shows "fst (app_unload_model SendOk app) = Inr ()
    \<longleftrightarrow> as_activity (ap_state app) = ActIdle \<and> as_loaded (ap_state app) \<noteq> None \<and> Suc (unat (ap_next_ticket app)) < 2 ^ 64"
proof (cases "as_activity (ap_state app) = ActIdle \<and> as_loaded (ap_state app) \<noteq> None")
  case False
  then show ?thesis by (auto simp: app_unload_model_def require_idle_def)
next
  case True
  with assms show ?thesis
    by (auto simp: app_unload_model_def require_idle_def submit_unload_def drain_timeout_from_millis_def submission_accepted)
qed

text \<open>
  \<^bold>\<open>C23\<close>. The guards a frontend enables its buttons by are exact: in every reached state, when the
  channel takes the command and tickets are left, a resolution is accepted exactly when \<open>can_resolve\<close>
  holds and both texts are not blank, a load exactly when \<open>can_load\<close> holds for the visible selection
  (its scalar type is one the backend knows and it has weights), and an unload exactly when
  \<open>can_unload\<close> holds, while the inference worker is there.
\<close>

theorem app_guards_agree:
  assumes "app_reaches R T H s" and "Suc (unat (ap_next_ticket (sy_app s))) < 2 ^ 64"
  shows "(fst (app_resolve_model SendOk repository revision (sy_app s)) = Inr ()
      \<longleftrightarrow> can_resolve (sy_state s) \<and> string_trim repository \<noteq> [] \<and> string_trim revision \<noteq> [])
    \<and> (fst (app_load_model SendOk repository revision (sy_app s)) = Inr () \<longleftrightarrow> can_load (sy_state s) repository revision)
    \<and> (as_inference_available (sy_state s) \<longrightarrow>
        (fst (app_unload_model SendOk (sy_app s)) = Inr () \<longleftrightarrow> can_unload (sy_state s)))"
proof -
  have "resolved_ok (sy_app s)" "pf_drain_timeout_milliseconds (ap_preferences (sy_app s)) \<noteq> 0"
    using app_reaches_inv [OF assms(1)] by (simp_all add: base_inv_def tickets_ok_def)
  with assms(2) show ?thesis by (simp add: resolve_accepted load_accepted unload_accepted can_unload_def)
qed

theorem app_guards_agree_witness:
  "\<exists>s :: (rust_string, nat, memory_tables) app_system. fst (app_load_model SendOk example_repository (text_of ''main'') (sy_app s)) = Inr ()"
proof -
  obtain s where s: "app_reaches memory_redb example_tokenizers example_hub s"
    and state: "sy_state s = application_state_default\<lparr>as_resolved := Some (resolved_of example_artifacts example_tokenizer)\<rparr>"
    and ticket: "ap_next_ticket (sy_app s) = 1"
    using example_resolved by blast
  have "can_load (sy_state s) example_repository (text_of ''main'')"
    by (simp add: state can_load_def application_state_default_def example_matches) (simp add: resolved_of_def example_artifacts_def)
  with app_guards_agree [OF s, of example_repository "text_of ''main''"] ticket show ?thesis by auto
qed

subsection \<open>Shutdown\<close>

lemma no_first_error:
  "record_first_error first r = None \<longleftrightarrow> first = None \<and> r = Inr ()"
  by (cases first; cases r) (simp_all add: record_first_error_def)

lemma app_shutdown_Inr:
  assumes "app_shutdown answers app = (Inr (), app')" and "as_activity (ap_state app) \<noteq> ActShuttingDown"
  obtains app1 app2 app3 where
    "request_hub_shutdown (sa_hub_send answers) (with_state (set_activity ActShuttingDown) app) = (Inr (), app1)"
    "shutdown_inference answers app1 = (Inr (), app2)" "join_runtime_worker answers app2 = (Inr (), app3)"
    "join_hub_worker answers app3 = (Inr (), app')"
  using assms by (auto simp: app_shutdown_def no_first_error split: prod.splits option.splits if_splits)

text \<open>
  \<^bold>\<open>C24\<close>. A shutdown that answers success either had been begun before, and then changes nothing, even
  when the earlier call had failed; or it is final: each worker thread the application still held ended
  before its deadline and without a panic, both workers are gone from its state, and from then on every
  command is refused as busy, a poll yields nothing whatever the channels hold, a further shutdown
  succeeds at once, and none of them changes the application.
\<close>

theorem shutdown_final:
  assumes "app_shutdown answers app = (Inr (), app')"
  shows "as_activity (ap_state app) = ActShuttingDown \<and> app' = app
    \<or> (ap_inference_thread app \<longrightarrow> wait_finished (ja_finished (sa_runtime_join answers)) \<and> \<not> ja_panicked (sa_runtime_join answers))
    \<and> (ap_hub_thread app \<longrightarrow> wait_finished (ja_finished (sa_hub_join answers)) \<and> \<not> ja_panicked (sa_hub_join answers))
    \<and> \<not> as_hub_available (ap_state app') \<and> \<not> as_inference_available (ap_state app')
    \<and> \<not> ap_inference_thread app' \<and> \<not> ap_hub_thread app'
    \<and> app_resolve_model answer repository revision app' = (Inl (AppBusy ActShuttingDown), app')
    \<and> app_load_model answer repository revision app' = (Inl (AppBusy ActShuttingDown), app')
    \<and> app_unload_model answer app' = (Inl (AppBusy ActShuttingDown), app')
    \<and> app_poll_event R T inputs app' = (None, app')
    \<and> app_shutdown again app' = (Inr (), app')"
proof (cases "as_activity (ap_state app) = ActShuttingDown")
  case True
  with assms show ?thesis by (simp add: app_shutdown_def)
next
  case False
  from assms False obtain app1 app2 app3 where
    hub: "request_hub_shutdown (sa_hub_send answers) (with_state (set_activity ActShuttingDown) app) = (Inr (), app1)" and
    inference: "shutdown_inference answers app1 = (Inr (), app2)" and
    joins: "join_runtime_worker answers app2 = (Inr (), app3)" "join_hub_worker answers app3 = (Inr (), app')"
    by (rule app_shutdown_Inr)
  have one: "as_activity (ap_state app1) = ActShuttingDown" "\<not> as_hub_available (ap_state app1)"
    "ap_inference_thread app1 = ap_inference_thread app" "ap_hub_thread app1 = ap_hub_thread app"
    using hub by (auto simp: request_hub_shutdown_def set_activity_def disconnect_hub_def split: if_splits send_answer.splits)
  have two: "as_activity (ap_state app2) = ActShuttingDown" "\<not> as_hub_available (ap_state app2)" "\<not> as_inference_available (ap_state app2)"
    "ap_inference_thread app2 = ap_inference_thread app" "ap_hub_thread app2 = ap_hub_thread app"
    using inference one
    by (auto simp: shutdown_inference_def ticket_taken shutdown_runtime_worker_def bind_step_Inr disconnect_inference_def
        split: if_splits option.splits bool.splits)
  have three: "ap_state app3 = ap_state app2" "\<not> ap_inference_thread app3" "ap_hub_thread app3 = ap_hub_thread app"
    "ap_inference_thread app \<longrightarrow> wait_finished (ja_finished (sa_runtime_join answers)) \<and> \<not> ja_panicked (sa_runtime_join answers)"
    using joins(1) two by (auto simp: join_runtime_worker_def join_worker_def split: if_splits)
  have four: "ap_state app' = ap_state app3" "\<not> ap_inference_thread app'" "\<not> ap_hub_thread app'"
    "ap_hub_thread app \<longrightarrow> wait_finished (ja_finished (sa_hub_join answers)) \<and> \<not> ja_panicked (sa_hub_join answers)"
    using joins(2) three by (auto simp: join_hub_worker_def join_worker_def split: if_splits)
  show ?thesis
    using two three four
    by (simp add: app_resolve_model_def app_load_model_def app_unload_model_def require_idle_def app_poll_event_def
        poll_runtime_def app_shutdown_def)
qed

text \<open>A shutdown both of whose workers answer and end.\<close>

definition example_shutdown :: shutdown_answers where
  "example_shutdown = \<lparr>sa_hub_send = SendOk, sa_deadline = True, sa_submits = [SendFull, SendDisconnected], sa_events = [],
     sa_runtime_join = \<lparr>ja_deadline = True, ja_finished = [False, True], ja_panicked = False\<rparr>,
     sa_hub_join = \<lparr>ja_deadline = True, ja_finished = [True], ja_panicked = False\<rparr>\<rparr>"

lemma example_shuts_down:
  assumes "ap_next_ticket app = 1" and "as_activity (ap_state app) = ActIdle"
    and "as_hub_available (ap_state app)" "as_inference_available (ap_state app)"
  shows "fst (app_shutdown example_shutdown app) = Inr ()"
  using assms
  by (simp add: app_shutdown_def example_shutdown_def request_hub_shutdown_def set_activity_def disconnect_hub_def
      shutdown_inference_def ticket_taken shutdown_runtime_worker_def normalize_runtime_shutdown_def
      join_runtime_worker_def join_hub_worker_def join_worker_def record_first_error_def)

theorem shutdown_final_witness:
  "\<exists>app app' :: (rust_string, nat, memory_tables) application. app_shutdown example_shutdown app = (Inr (), app')
     \<and> as_hub_available (ap_state app) \<and> app_unload_model SendOk app' = (Inl (AppBusy ActShuttingDown), app')"
proof -
  obtain s where "app_reaches memory_redb example_tokenizers example_hub s" "ap_next_ticket (sy_app s) = 1"
    and state: "sy_state s = application_state_default\<lparr>as_resolved := Some (resolved_of example_artifacts example_tokenizer)\<rparr>"
    using example_resolved by blast
  then have "fst (app_shutdown example_shutdown (sy_app s)) = Inr ()"
    by (intro example_shuts_down) (simp_all add: application_state_default_def)
  then obtain app' where shutdown: "app_shutdown example_shutdown (sy_app s) = (Inr (), app')" by (metis prod.collapse)
  moreover have "as_activity (ap_state (sy_app s)) \<noteq> ActShuttingDown" "as_hub_available (ap_state (sy_app s))"
    by (simp_all add: state application_state_default_def)
  moreover note shutdown_final [OF calculation(1), of SendOk]
  ultimately show ?thesis by blast
qed

text \<open>
  \<^bold>\<open>C25\<close>. A shutdown that times out is not final, against the documented meaning of its activity (no new
  work is accepted). When the inference worker is still loading as the deadline passes, the shutdown
  reports the timeout and the activity stays \<open>ShuttingDown\<close>; but the failure of that load, polled
  afterwards, makes the application idle, and the same load is accepted again.
\<close>

theorem shutdown_reopens:
  assumes "app_reaches R T H s" and "as_activity (sy_state s) = ActLoading"
    and "can_load (set_activity ActIdle (sy_state s)) repository revision"
    and "Suc (Suc (unat (ap_next_ticket (sy_app s)))) < 2 ^ 64"
    and "sa_hub_send answers = SendOk" and "sa_deadline answers" and "submit_until (sa_submits answers) = Some True"
    and "\<forall>event \<in> set (sa_events answers). event = ReceiveNothing"
    and "pi_runtime inputs = Received (EvModelLoaded ticket (Inl e))"
  shows "\<exists>app1 app2. app_shutdown answers (sy_app s) = (Inl (AppShutdownTimeout WorkerInference), app1)
    \<and> as_activity (ap_state app1) = ActShuttingDown
    \<and> app_poll_event R T inputs app1 = (Some (AevModelLoadFailed FailureInference), app2)
    \<and> as_activity (ap_state app2) = ActIdle
    \<and> fst (app_load_model SendOk repository revision app2) = Inr ()"
proof -
  have await: "await_shutdown t events = Inl (AppShutdownTimeout WorkerInference)"
    if "\<forall>event \<in> set events. event = ReceiveNothing" for t events
    using that by (induction events) auto
  have state: "as_inference_available (sy_state s)" "resolved_ok (sy_app s)"
    using assms(3) app_reaches_inv [OF assms(1)] by (simp_all add: can_load_def set_activity_def base_inv_def)
  obtain r1 app1 where hub: "request_hub_shutdown (sa_hub_send answers) (with_state (set_activity ActShuttingDown) (sy_app s)) = (r1, app1)"
    by fastforce
  then have one: "r1 = Inr ()" "as_activity (ap_state app1) = ActShuttingDown" "\<not> as_hub_available (ap_state app1)"
    "as_inference_available (ap_state app1)" "as_resolved (ap_state app1) = as_resolved (sy_state s)"
    "as_loaded (ap_state app1) = as_loaded (sy_state s)" "ap_artifacts app1 = ap_artifacts (sy_app s)"
    "ap_tokenizer app1 = ap_tokenizer (sy_app s)" "ap_next_ticket app1 = ap_next_ticket (sy_app s)"
    using assms(5) state(1)
    by (auto simp: request_hub_shutdown_def set_activity_def disconnect_hub_def split: if_splits)
  define app2 where "app2 = app1\<lparr>ap_next_ticket := ap_next_ticket app1 + 1,
     ap_commands := ap_commands app1 @ [CmdShutdown (CommandTicket (ap_next_ticket app1))]\<rparr>"
  have inference: "shutdown_inference answers app1 = (Inl (AppShutdownTimeout WorkerInference), app2)"
    using one assms(4,6,7) await [OF assms(8)]
    by (simp add: shutdown_inference_def ticket_taken shutdown_runtime_worker_def app2_def)
  obtain r3 app3 where runtime: "join_runtime_worker answers app2 = (r3, app3)" by fastforce
  obtain r4 app4 where worker: "join_hub_worker answers app3 = (r4, app4)" by fastforce
  have four: "ap_state app4 = ap_state app1" "ap_artifacts app4 = ap_artifacts app1" "ap_tokenizer app4 = ap_tokenizer app1"
    "ap_next_ticket app4 = ap_next_ticket app1 + 1"
    using runtime worker by (auto simp: app2_def join_runtime_worker_def join_hub_worker_def split: if_splits)
  have "app_shutdown answers (sy_app s) = (Inl (AppShutdownTimeout WorkerInference), app4)"
    using assms(2) hub inference runtime worker by (simp add: app_shutdown_def one(1) record_first_error_def)
  moreover have "app_poll_event R T inputs app4 = (Some (AevModelLoadFailed FailureInference), with_state (set_activity ActIdle) app4)"
    using one four assms(9)
    by (simp add: app_poll_event_def poll_runtime_def process_runtime_event_def process_model_loaded_def)
  moreover have "fst (app_load_model SendOk repository revision (with_state (set_activity ActIdle) app4)) = Inr ()"
  proof (subst load_accepted)
    show "resolved_ok (with_state (set_activity ActIdle) app4)"
      using state(2) by (subst resolved_cong [of _ "sy_app s"]) (simp_all add: one four set_activity_def)
    have "checked_add (ap_next_ticket (sy_app s)) 1 = Some (ap_next_ticket (sy_app s) + 1)"
      using assms(4) by (simp add: checked_add_def)
    from unat_checked_add [OF this] have "unat (ap_next_ticket (sy_app s) + 1) = Suc (unat (ap_next_ticket (sy_app s)))"
      by simp
    then show "can_load (ap_state (with_state (set_activity ActIdle) app4)) repository revision
        \<and> Suc (unat (ap_next_ticket (with_state (set_activity ActIdle) app4))) < 2 ^ 64"
      using assms(3,4) one four by (simp add: can_load_def set_activity_def)
  qed
  ultimately show ?thesis using one(2) four(1) by (intro exI conjI) (simp_all add: set_activity_def)
qed

theorem shutdown_reopens_witness:
  "\<exists>app app1 :: (rust_string, nat, memory_tables) application.
     app_shutdown (example_shutdown\<lparr>sa_submits := [SendOk], sa_events := [ReceiveNothing, ReceiveNothing]\<rparr>) app
       = (Inl (AppShutdownTimeout WorkerInference), app1)
     \<and> as_activity (ap_state app1) = ActShuttingDown"
proof -
  obtain s where s: "app_reaches memory_redb example_tokenizers example_hub s" "as_activity (sy_state s) = ActLoading"
    "can_load (set_activity ActIdle (sy_state s)) example_repository (text_of ''main'')" and ticket: "ap_next_ticket (sy_app s) = 2"
    using example_loading by blast
  define inputs :: "(rust_string, nat) poll_inputs" where
    "inputs = \<lparr>pi_hub = ReceiveNothing, pi_runtime = Received (EvModelLoaded (CommandTicket 1) (Inl UnknownModel)), pi_now = 0, pi_send = SendOk\<rparr>"
  show ?thesis
    using shutdown_reopens [OF s, of "example_shutdown\<lparr>sa_submits := [SendOk], sa_events := [ReceiveNothing, ReceiveNothing]\<rparr>"
        inputs "CommandTicket 1" UnknownModel] ticket
    by (auto simp: example_shutdown_def inputs_def)
qed

end
