(* ===== verification/Spec2Isabelle.thy ===== *)
theory Spec2Isabelle
  imports Prelude Btree_Map Contracts Model_Data Lifecycle Task_Graph Graph_Acyclicity Artifact_Flow
    Task_State Task_Execution Task_Progress Comparators Context_Planner Context_Selection
    Output_Stream Token_Output Text_Output Backend Runtime_Types Registry Registry_Requests
    Registry_Unload Registry_Invariant Registry_Steps Registry_Admission Registry_Cleanup
    Registry_Loops Registry_Runs Registry_Example Registry_Properties Registry_Outcomes
    Tokenization Utf8 Utf8_Decoder Float32 Sampling Sampling_Properties
    Generation Generation_Scheduler Generation_Stream Worker Worker_Accounting Worker_Turns Worker_System
    Worker_Replies Worker_Example Worker_Properties
    Byte_Codec Rust_Text
    Diagnostics Workflow_Data Workflow_Executor Workflow_Stages Workflow_Runs Workflow_Properties Workflow_Contract
    Storage Storage_Records Storage_Database
    Gguf_Metadata Gguf_Readers Gguf_Format Gguf_Properties Gguf_Backend Gguf_Sequences Gguf_Loading
    Hub_Adapter Hub_Weights
    Application_Data Application_Runtime Application_Shutdown Application_Invariant Application_Properties
begin

text \<open>
  A verification library for the local runtime of large language models in this repository. It
  models the core crates under \<open>src/crates/\<close> and proves what makes each of them, and their
  composition, correct.

  \<^bold>\<open>The program.\<close> \<open>features/domain-contracts\<close> holds the vocabulary: identities, errors, memory
  footprints, the lifecycle of a model, the traits of backends and outputs. Four further feature
  crates are pure: \<open>task-graph\<close> validates graphs of tasks and keeps the table of their states,
  \<open>context-planner\<close> chooses the entries of a context, \<open>sampling\<close> turns logits into a token and
  \<open>tokenization\<close> bounds and decodes text. \<open>engines/inference-runtime\<close> composes them: a registry
  of models and requests with exact memory accounts (\<open>runtime.rs\<close>), a scheduler of generations
  (\<open>generation.rs\<close>) and one worker thread that owns both and talks to its clients through bounded
  channels (\<open>worker.rs\<close>, \<open>command.rs\<close>). \<open>adapters/host-runtime\<close> holds the accumulators through
  which a consumer reads tokens and text. \<open>engines/application-runtime/src/workflow\<close> runs a
  corrective workflow of six tasks (draft, validate, normalise, review, revise, validate) over a
  task graph and a store of typed artifacts. \<open>adapters/redb-storage\<close> keeps the settings and the
  catalogue of models in a database. \<open>adapters/gguf-backend\<close> implements the traits of backends: it
  inspects the header of a model file within bounds, plans its memory, and runs sequences in the slots
  of one native context. \<open>engines/application-runtime\<close> serves a frontend: it has the hub worker resolve the
  files of a model (\<open>adapters/hf-hub\<close>), opens its tokenizer (\<open>adapters/hf-tokenizer\<close>), keeps the choice in
  the database, and has the inference worker load and unload it, one operation at a time.

  \<^bold>\<open>Conventions.\<close> A struct is a \<open>record\<close>, an enum a \<open>datatype\<close>, \<open>u8\<close> to \<open>u64\<close> are words of that
  width, \<open>usize\<close> is \<open>nat\<close> with its checked operations bounded by \<open>usize_max\<close>; \<open>f32\<close> is its bit
  pattern and \<open>String\<close> the list of its scalar values. A fallible function returns a sum, \<open>Inl\<close>
  the error; a method on \<open>&mut self\<close> also returns the new state, on every path the code returns
  by. \<open>NonZero\<close> types are hypotheses (\<open>configuration_ok\<close> and others). Traits are records of functions over a
  state of their own (\<open>backend\<close>, \<open>tokenizer\<close>, \<open>workflow_ports\<close>); nothing is assumed of them unless
  a statement says so. \<open>Prelude\<close> holds the machine integers, results and loops, \<open>Btree_Map\<close> the
  ordered maps of the standard library with the interface \<open>ordered_map\<close>, \<open>Byte_Codec\<close> the bytes of
  integers and texts, \<open>Rust_Text\<close> trimming and splitting of texts.

  \<^bold>\<open>Domain contracts.\<close> \<open>Contracts\<close>, \<open>Model_Data\<close>, \<open>Lifecycle\<close> (\<open>lifecycle.rs\<close>: its counter, its
  releases and the bounded drain) and \<open>Backend\<close> (the checked prefill and decode).

  \<^bold>\<open>Task graph.\<close> \<open>Task_Graph\<close> (data and \<open>validate_graph\<close>), \<open>Graph_Acyclicity\<close> (Kahn's traversal
  decides acyclicity), \<open>Artifact_Flow\<close> (\<open>validate_artifact_flow\<close>), \<open>Task_State\<close> (the state table),
  \<open>Task_Execution\<close> and \<open>Task_Progress\<close> (its invariant, tokens that settle once, exactness of
  \<open>ready_tasks\<close> and \<open>propagate_blocked\<close>, progress).

  \<^bold>\<open>Context planner.\<close> \<open>Comparators\<close> (a total order and the sort over it, the interface
  \<open>comparator\<close>), \<open>Context_Planner\<close> (the crate) and \<open>Context_Selection\<close> (the specification on
  entries and natural numbers that \<open>plan\<close> refines).

  \<^bold>\<open>Outputs.\<close> \<open>Output_Stream\<close> (what the accumulators share, the interface \<open>delivery\<close>),
  \<open>Token_Output\<close> and \<open>Text_Output\<close> (\<open>token_output.rs\<close>, \<open>output.rs\<close>). The mutex is a field of the
  state: a push that finds it held answers as the code does.

  \<^bold>\<open>Registry.\<close> \<open>Runtime_Types\<close>, \<open>Registry\<close>, \<open>Registry_Requests\<close> and \<open>Registry_Unload\<close> model
  \<open>runtime.rs\<close>. \<open>Registry_Invariant\<close>, \<open>Registry_Steps\<close>, \<open>Registry_Admission\<close> and
  \<open>Registry_Cleanup\<close> show that every call keeps the accounts and the indexes, \<open>Registry_Loops\<close>
  that the loops end, \<open>Registry_Runs\<close>, \<open>Registry_Properties\<close> and \<open>Registry_Outcomes\<close> draw the
  conclusions, \<open>Registry_Example\<close> is a concrete run.

  \<^bold>\<open>Tokenization and sampling.\<close> \<open>Tokenization\<close> (traits and bounded sinks, \<open>item_sink_laws\<close>),
  \<open>Utf8\<close> (well-formedness and encoding), \<open>Utf8_Decoder\<close> (the incremental decoder over any sink
  with \<open>text_sink_laws\<close>), \<open>Float32\<close>, \<open>Sampling\<close> and \<open>Sampling_Properties\<close>. The function \<open>expf\<close> of
  the \<open>libm\<close> package is an argument.

  \<^bold>\<open>Generations and the worker.\<close> \<open>Generation\<close> and \<open>Generation_Scheduler\<close> model \<open>generation.rs\<close>,
  \<open>Worker\<close> models \<open>worker.rs\<close>. The channels, the clock and the allocator are inputs of a turn, so
  statements about reachable workers hold for every behaviour of theirs. \<open>Generation_Stream\<close>
  gives the protocol of a generation's output and shows that every opportunity of a task follows
  it; \<open>Worker_Turns\<close> is the interface \<open>turn_invariant\<close>, \<open>Worker_System\<close> adds the consumer, whose
  steps fall between the turns, \<open>Worker_Accounting\<close> relates the registry's workspace accounts to the
  tasks, \<open>Worker_Replies\<close> counts replies, \<open>Worker_Properties\<close> concludes over \<open>Worker_Example\<close>.
  Replies may overtake each other; clients match them by ticket.

  \<^bold>\<open>Corrective workflow.\<close> \<open>Diagnostics\<close> (\<open>diagnostics.rs\<close>), \<open>Workflow_Data\<close> (\<open>mod.rs\<close>,
  \<open>artifact.rs\<close>) and \<open>Workflow_Executor\<close> (\<open>executor.rs\<close>) model the workflow. \<open>Workflow_Stages\<close> gives
  the law of one stage (its output committed after some failed attempts, or an error that names
  the stage), \<open>Workflow_Runs\<close> chains the six stages over the canonical plan, which is shown to pass
  its own validation, \<open>Workflow_Properties\<close> shows that admission makes enough room and lists the
  ways an execution ends, and \<open>Workflow_Contract\<close> concludes.

  \<^bold>\<open>Storage.\<close> \<open>Storage\<close> models \<open>redb-storage/src/lib.rs\<close> with the database package as a record of
  functions. \<open>Storage_Records\<close> shows that a reader consumes exactly what the writer of its value puts
  out, so decoding inverts encoding and damaged records are refused; \<open>Storage_Database\<close> states the
  package's documented laws (\<open>redb_ok\<close>), shows that the calls implement a settings record and a map
  of models, and gives a database that keeps the laws.

  \<^bold>\<open>GGUF backend.\<close> \<open>Gguf_Metadata\<close> models \<open>metadata.rs\<close>; the file is the list of what its reads do, read
  through the buffer of 8192 bytes that \<open>BufReader::new\<close> gives it.
  \<open>Gguf_Readers\<close> relates the buffered, interrupted reads to the bytes of the file (the interface
  \<open>related_readers\<close>), \<open>Gguf_Format\<close> gives the format as a grammar and shows that the reader takes exactly
  the words of it, \<open>Gguf_Properties\<close> concludes. \<open>Gguf_Backend\<close> models \<open>source.rs\<close>, \<open>failure.rs\<close>,
  \<open>loader.rs\<close> and \<open>model.rs\<close> with the package \<open>llama-cpp-2\<close> as a record of functions, and packages them
  as the records of the traits, so the theorems about the registry apply to it (\<open>gguf_stable_ids\<close>).
  \<open>Gguf_Sequences\<close> states the documented behaviour of that package (\<open>llama_ok\<close>) and the invariant that
  every call of a client keeps; \<open>Gguf_Loading\<close> concludes: exact load plans, isolated sequences, exact
  admission.

  \<^bold>\<open>Hub and application.\<close> \<open>Hub_Adapter\<close> models \<open>hf-hub/src/lib.rs\<close> with the hub package, the file system
  and the JSON parser as a record of functions; \<open>Hub_Weights\<close> shows which listings have weights.
  \<open>Application_Data\<close> models \<open>configuration.rs\<close>, \<open>state.rs\<close>, \<open>error.rs\<close>, \<open>event.rs\<close> and \<open>support.rs\<close>,
  \<open>Application_Runtime\<close> models \<open>runtime.rs\<close>, \<open>Application_Shutdown\<close> models \<open>shutdown.rs\<close> and the loop of
  \<open>hub_worker.rs\<close>. What sending and receiving answer is an input of each call.
  \<open>Application_Invariant\<close> adds the number of commands the two workers have answered and states what
  is assumed of the answers (\<open>poll_answers\<close>): they come in the order of the commands, a load has one, an
  unload any number of drain notices and a result, and an unload that failed may complete later under its
  old ticket, as \<open>worker.rs\<close> has it. The application does not compare tickets, so a late completion that
  meets another operation is taken for its answer; \<open>sy_crossed\<close> records this, and after it nothing is
  assumed of the events of the inference worker. By induction over all calls, the selection and the
  tickets are intact in every reached state, and until a crossing the activity is the operation whose
  answer is outstanding. \<open>Application_Properties\<close> concludes: exact operations, compatible models, what a
  crossing leads to, exact guards, final shutdowns, and the shutdown that times out and is reopened.

  \<^bold>\<open>Loops.\<close> Loops over lists are structural. Kahn's traversal, the block propagation, the UTF-8
  functions, the opportunity of a generation, the attempts of a workflow stage, \<open>read_exact\<close> and the
  skipping of bytes are functions with a measure: the queue still to visit, the pending tasks, the
  bytes left, the steps left in the quantum, the attempts left in the budget, the reads left in the
  file, the bytes left to skip. The three loops of the registry whose end depends on its state are partial
  functions into \<open>option\<close>, and \<open>registry_calls_return\<close> shows that they return. No model uses fuel.

  \<^bold>\<open>Not modelled.\<close> The text of error messages; threads, channels and clocks other than as inputs;
  \<open>host-runtime/src/lib.rs\<close> (thread set-up); the third-party tensor code behind \<open>candle-backend\<close>, of
  which only the description of a source is modelled; encoding and decoding in \<open>hf-tokenizer\<close>, of which
  the construction is modelled; the desktop application; and the development tool at the root of the
  repository.
\<close>

end
